(* ===== verification/Prelude.thy ===== *)
theory Prelude
  imports Main "HOL-Library.Word" "HOL-Library.Sublist"
begin

text \<open>
  Shared vocabulary of the development: JavaScript strings as lists of UTF-16 code
  units, the string and array operations of the standard library that the sources
  use, JSON values, and the generic lemmas the component theories share.

  A JavaScript string is an immutable sequence of 16-bit code units, so \<open>jstr\<close> is a
  list of 16-bit words and \<open>length\<close> is the source's \<open>.length\<close>. The function \<open>js\<close> turns an
  ASCII literal into such a list; texts with other characters are written as lists of
  code units.
\<close>

section \<open>Strings\<close>

type_synonym jchar = "16 word"
type_synonym jstr = "16 word list"

definition js :: "string \<Rightarrow> jstr" where
  "js s = map of_char s"

definition QUOTE :: jstr where "QUOTE = [34]"

named_theorems js_simps \<open>string helpers of the JavaScript standard library\<close>
named_theorems guard_simps \<open>unfolding of the guards of a component\<close>

lemma length_js [simp]: "length (js s) = length s"
  by (simp add: js_def)

lemma js_eq_Nil [simp]: "js s = [] \<longleftrightarrow> s = []"
  by (simp add: js_def)

text \<open>
  \<open>startsWith\<close> and \<open>endsWith\<close> are the library's \<open>prefix\<close> and \<open>suffix\<close>; \<open>indexOf\<close>
  returns \<open>None\<close> where JavaScript returns -1.
\<close>

fun indexOf :: "'a list \<Rightarrow> 'a list \<Rightarrow> nat option" where
  "indexOf [] pat = (if pat = [] then Some 0 else None)"
| "indexOf (c # cs) pat =
     (if prefix pat (c # cs) then Some 0 else map_option Suc (indexOf cs pat))"

definition includesStr :: "'a list \<Rightarrow> 'a list \<Rightarrow> bool" where
  "includesStr s pat \<longleftrightarrow> indexOf s pat \<noteq> None"

text \<open>\<open>s.slice(a, b)\<close> and \<open>s.substring(a, b)\<close> for \<open>0 \<le> a \<le> b\<close>.\<close>

definition slice :: "nat \<Rightarrow> nat \<Rightarrow> 'a list \<Rightarrow> 'a list" where
  "slice a b s = take (b - a) (drop a s)"

text \<open>\<open>s.split(c)\<close> for a one-character separator, and \<open>parts.join(sep)\<close>.\<close>

fun splitOn :: "'a \<Rightarrow> 'a list \<Rightarrow> 'a list list" where
  "splitOn c [] = [[]]"
| "splitOn c (x # xs) =
     (if x = c then [] # splitOn c xs
      else (case splitOn c xs of [] \<Rightarrow> [[x]] | l # ls \<Rightarrow> (x # l) # ls))"

fun joinWith :: "'a list \<Rightarrow> 'a list list \<Rightarrow> 'a list" where
  "joinWith sep [] = []"
| "joinWith sep [x] = x"
| "joinWith sep (x # y # ys) = x @ sep @ joinWith sep (y # ys)"

text \<open>
  White space as \<open>String.prototype.trim\<close> and the class \<open>\s\<close> of regular expressions
  read it: the Unicode space separators, the byte order mark and the line terminators.
\<close>

definition isSpace :: "jchar \<Rightarrow> bool" where
  "isSpace c \<longleftrightarrow>
     (9 \<le> c \<and> c \<le> 13) \<or> c = 32 \<or> c = 0xA0 \<or> c = 0x1680 \<or> (0x2000 \<le> c \<and> c \<le> 0x200A) \<or>
     c = 0x2028 \<or> c = 0x2029 \<or> c = 0x202F \<or> c = 0x205F \<or> c = 0x3000 \<or> c = 0xFEFF"

definition trimStart :: "jstr \<Rightarrow> jstr" where
  "trimStart s = dropWhile isSpace s"

definition trimEnd :: "jstr \<Rightarrow> jstr" where
  "trimEnd s = rev (dropWhile isSpace (rev s))"

definition trim :: "jstr \<Rightarrow> jstr" where
  "trim s = trimEnd (trimStart s)"

text \<open>Decimal digits of a number, as \<open>String(n)\<close> prints a natural number.\<close>

fun showNat :: "nat \<Rightarrow> jstr" where
  "showNat n = (if n < 10 then [of_nat (48 + n)] else showNat (n div 10) @ [of_nat (48 + n mod 10)])"

declare showNat.simps [simp del]

definition showInt :: "int \<Rightarrow> jstr" where
  "showInt i = (if i < 0 then js ''-'' @ showNat (nat (- i)) else showNat (nat i))"

subsection \<open>Lemmas on the string operations\<close>

lemma indexOf_Some_bound: "indexOf s pat = Some i \<Longrightarrow> i + length pat \<le> length s"
proof (induction s arbitrary: i)
  case Nil
  then show ?case by (auto split: if_splits)
next
  case (Cons c cs)
  then show ?case by (fastforce split: if_splits dest: prefix_length_le)
qed

lemma indexOf_Some_take: "indexOf s pat = Some i \<Longrightarrow> take (length pat) (drop i s) = pat"
proof (induction s arbitrary: i)
  case Nil
  then show ?case by (auto split: if_splits)
next
  case (Cons c cs)
  then show ?case by (auto split: if_splits simp: prefix_def)
qed

lemma indexOf_first:
  "indexOf s pat = Some i \<Longrightarrow> j < i \<Longrightarrow> \<not> prefix pat (drop j s)"
proof (induction s arbitrary: i j)
  case Nil
  then show ?case by (auto split: if_splits)
next
  case (Cons c cs)
  then show ?case by (cases j) (auto split: if_splits)
qed

lemma indexOf_None: "indexOf s pat = None \<Longrightarrow> \<not> prefix pat (drop j s)"
proof (induction s arbitrary: j)
  case Nil
  then show ?case by (auto split: if_splits)
next
  case (Cons c cs)
  then show ?case by (cases j) (auto split: if_splits)
qed

lemma splitOn_not_Nil [simp]: "splitOn c s \<noteq> []"
  by (cases s) (auto split: list.splits)

lemma joinWith_Cons: "ls \<noteq> [] \<Longrightarrow> joinWith sep (l # ls) = l @ sep @ joinWith sep ls"
  by (cases ls) auto

lemma joinWith_Cons_head: "joinWith sep ((x # l) # ls) = x # joinWith sep (l # ls)"
  by (cases ls) auto

lemma joinWith_splitOn [simp]: "joinWith [c] (splitOn c s) = s"
proof (induction s)
  case Nil
  then show ?case by simp
next
  case (Cons x xs)
  show ?case
  proof (cases "x = c")
    case True
    with Cons.IH show ?thesis by (simp add: joinWith_Cons)
  next
    case False
    obtain l ls where eq: "splitOn c xs = l # ls"
      using splitOn_not_Nil neq_Nil_conv by metis
    with False Cons.IH show ?thesis by (simp add: joinWith_Cons_head)
  qed
qed

lemma splitOn_no_sep: "l \<in> set (splitOn c s) \<Longrightarrow> c \<notin> set l"
  by (induction s arbitrary: l) (auto split: if_splits list.splits)

lemma splitOn_append_sep:
  "c \<notin> set l \<Longrightarrow> splitOn c (l @ c # s) = l # splitOn c s"
  by (induction l) auto

lemma splitOn_id: "c \<notin> set l \<Longrightarrow> splitOn c l = [l]"
  by (induction l) auto

lemma splitOn_joinWith:
  "ls \<noteq> [] \<Longrightarrow> (\<forall>l \<in> set ls. c \<notin> set l) \<Longrightarrow> splitOn c (joinWith [c] ls) = ls"
proof (induction "[c]" ls rule: joinWith.induct)
  case 1
  then show ?case by simp
next
  case (2 x)
  then show ?case by (simp add: splitOn_id)
next
  case (3 x y ys)
  then show ?case by (simp add: splitOn_append_sep)
qed

lemma splitOn_append_chunk:
  "splitOn c (x @ y) = butlast (splitOn c x) @ splitOn c (last (splitOn c x) @ y)"
proof (induction x)
  case (Cons a x)
  obtain l ls where x: "splitOn c x = l # ls" using splitOn_not_Nil neq_Nil_conv by metis
  show ?case
  proof (cases "a = c")
    case True
    with Cons x show ?thesis by simp
  next
    case False
    show ?thesis
    proof (cases "ls = []")
      case True
      obtain k ks where k: "splitOn c (l @ y) = k # ks" using splitOn_not_Nil neq_Nil_conv by metis
      from Cons x True have "splitOn c (x @ y) = splitOn c (l @ y)" by simp
      then show ?thesis using False x True k by simp
    next
      case 2: False
      with Cons x False show ?thesis by simp
    qed
  qed
qed simp

lemma splitOn_snoc_line: "c \<notin> set l \<Longrightarrow> splitOn c (s @ c # l) = splitOn c s @ [l]"
proof (induction s)
  case (Cons x s)
  obtain k ks where "splitOn c s = k # ks" using splitOn_not_Nil neq_Nil_conv by metis
  with Cons show ?case by simp
qed (simp add: splitOn_id)

lemma joinWith_append_one: "ls \<noteq> [] \<Longrightarrow> joinWith sep (ls @ [l]) = joinWith sep ls @ sep @ l"
  by (induction sep ls rule: joinWith.induct) auto

lemma length_joinWith:
  "ls \<noteq> [] \<Longrightarrow> length (joinWith sep ls) = sum_list (map length ls) + length sep * (length ls - 1)"
  by (induction sep ls rule: joinWith.induct) auto

lemma length_trim_le: "length (trim s) \<le> length s"
proof -
  have "length (trim s) \<le> length (trimStart s)"
    using length_dropWhile_le [of isSpace "rev (trimStart s)"] by (simp add: trim_def trimEnd_def)
  also have "\<dots> \<le> length s" by (simp add: trimStart_def length_dropWhile_le)
  finally show ?thesis .
qed

lemma trimEnd_last: "trimEnd s \<noteq> [] \<Longrightarrow> \<not> isSpace (last (trimEnd s))"
  using hd_dropWhile [of isSpace "rev s"] by (auto simp: trimEnd_def last_rev)

lemma dropWhile_id_hd: "(xs = [] \<or> \<not> P (hd xs)) \<Longrightarrow> dropWhile P xs = xs"
  by (cases xs) auto

lemma trimEnd_append_hd: "trimEnd s \<noteq> [] \<Longrightarrow> hd (trimEnd s) = hd s"
proof -
  assume ne: "trimEnd s \<noteq> []"
  have "suffix (dropWhile isSpace (rev s)) (rev s)" by (rule suffix_dropWhile)
  then have "prefix (trimEnd s) s" by (simp add: trimEnd_def suffix_to_prefix)
  then obtain zs where "s = trimEnd s @ zs" by (auto simp: prefix_def)
  then show ?thesis using ne by (metis hd_append2)
qed

lemma trim_idem: "trim (trim s) = trim s"
proof -
  have "trimStart (trim s) = trim s"
    unfolding trimStart_def [of "trim s"]
  proof (rule dropWhile_id_hd)
    show "trim s = [] \<or> \<not> isSpace (hd (trim s))"
    proof (cases "trim s = []")
      case False
      then have "trimStart s \<noteq> []" by (auto simp: trim_def trimEnd_def)
      then have "\<not> isSpace (hd (trimStart s))"
        unfolding trimStart_def by (rule hd_dropWhile)
      with False trimEnd_append_hd [of "trimStart s"] show ?thesis by (simp add: trim_def)
    qed simp
  qed
  moreover have "trimEnd (trim s) = trim s"
  proof -
    have "dropWhile isSpace (rev (trim s)) = rev (trim s)"
      using trimEnd_last [of "trimStart s"]
      by (intro dropWhile_id_hd) (auto simp: trim_def hd_rev)
    then show ?thesis by (simp add: trimEnd_def)
  qed
  ultimately show ?thesis unfolding trim_def by simp
qed

section \<open>JSON values and nullish values\<close>

text \<open>
  A value of type \<open>any\<close> or \<open>unknown\<close> in the sources is a JSON value here. An object keeps
  its keys in insertion order; numbers are the integers, which is what the modelled
  code puts into such values.
\<close>

datatype json =
    JNull
  | JBool bool
  | JNum int
  | JStr jstr
  | JArr "json list"
  | JObj "(jstr \<times> json) list"

text \<open>An absent property is \<open>None\<close>; the operator \<open>??\<close> also skips an explicit null.\<close>

fun nullish :: "json option \<Rightarrow> bool" where
  "nullish None = True"
| "nullish (Some JNull) = True"
| "nullish (Some j) = False"

text \<open>\<open>a ?? d\<close> on a value that is never null.\<close>

definition orDefault :: "'a option \<Rightarrow> 'a \<Rightarrow> 'a" where
  "orDefault a d = (case a of None \<Rightarrow> d | Some x \<Rightarrow> x)"

lemma orDefault_simps [simp]: "orDefault None d = d" "orDefault (Some x) d = x"
  by (simp_all add: orDefault_def)

definition coalesce :: "json option \<Rightarrow> json option \<Rightarrow> json option" where
  "coalesce a b = (if nullish a then b else a)"

definition orElse :: "'a option \<Rightarrow> 'a option \<Rightarrow> 'a option" where
  "orElse a b = (case a of None \<Rightarrow> b | Some x \<Rightarrow> Some x)"

lemma orElse_simps [simp]: "orElse None b = b" "orElse (Some x) b = Some x"
  by (simp_all add: orElse_def)

text \<open>A string property is falsy when it is absent or empty.\<close>

definition truthyStr :: "jstr option \<Rightarrow> bool" where
  "truthyStr s \<longleftrightarrow> s \<noteq> None \<and> s \<noteq> Some []"

lemma truthyStr_simps [simp]:
  "\<not> truthyStr None" "\<not> truthyStr (Some [])" "truthyStr (Some (c # cs))"
  by (simp_all add: truthyStr_def)

section \<open>Lists and arrays\<close>

text \<open>The last element that satisfies a test, as the backwards loops of the sources find it.\<close>

lemma length_dropWhile_less [termination_simp]: "length (dropWhile P xs) < Suc (length xs)"
  using length_dropWhile_le [of P xs] by simp

definition findLast :: "('a \<Rightarrow> bool) \<Rightarrow> 'a list \<Rightarrow> 'a option" where
  "findLast P xs = find P (rev xs)"

fun findIndex :: "('a \<Rightarrow> bool) \<Rightarrow> 'a list \<Rightarrow> nat option" where
  "findIndex P [] = None"
| "findIndex P (x # xs) = (if P x then Some 0 else map_option Suc (findIndex P xs))"

lemma findIndex_Some:
  "findIndex P xs = Some i \<Longrightarrow> i < length xs \<and> P (xs ! i) \<and> (\<forall>j < i. \<not> P (xs ! j))"
proof (induction xs arbitrary: i)
  case Nil
  then show ?case by simp
next
  case (Cons x xs)
  show ?case
  proof (cases "P x")
    case True
    with Cons.prems show ?thesis by simp
  next
    case False
    with Cons.prems obtain k where "findIndex P xs = Some k" "i = Suc k" by auto
    with Cons.IH False show ?thesis by (auto simp: nth_Cons split: nat.splits)
  qed
qed

lemma findIndex_None: "findIndex P xs = None \<longleftrightarrow> (\<forall>x \<in> set xs. \<not> P x)"
  by (induction xs) auto

lemma find_Some_set: "find P xs = Some x \<Longrightarrow> x \<in> set xs \<and> P x"
  by (induction xs) (auto split: if_splits)

lemma find_None_set: "find P xs = None \<longleftrightarrow> (\<forall>x \<in> set xs. \<not> P x)"
  by (induction xs) auto

lemma findLast_Some: "findLast P xs = Some x \<Longrightarrow> x \<in> set xs \<and> P x"
  by (auto simp: findLast_def dest: find_Some_set)

lemma findLast_append:
  "findLast P (xs @ ys) = (case findLast P ys of None \<Rightarrow> findLast P xs | Some y \<Rightarrow> Some y)"
proof -
  have "find P (as @ bs) = (case find P as of None \<Rightarrow> find P bs | Some y \<Rightarrow> Some y)" for as bs
    by (induction as) auto
  then show ?thesis by (simp add: findLast_def split: option.splits)
qed

lemma last_snoc_update: "ms \<noteq> [] \<Longrightarrow> butlast ms @ [last ms] = ms"
  by simp

end
