(* ===== verification/Messages.thy ===== *)
theory Messages
  imports Prelude Complex_Main
begin

text \<open>
  The message data model: the content blocks, messages, tools, contexts and stream
  events of packages/ai/src/types.ts, and the harness messages with their conversion to
  provider messages of packages/agent/src/harness/messages.ts.

  Token counts and timestamps are integers. Costs are rational numbers, exact where the
  source computes in floating point.
\<close>

section \<open>Content blocks and usage\<close>

record text_content =
  tc_text :: jstr
  tc_textSignature :: "jstr option"

record thinking_content =
  th_thinking :: jstr
  th_thinkingSignature :: "jstr option"
  th_redacted :: "bool option"

record image_content =
  im_data :: jstr
  im_mimeType :: jstr

record tool_call =
  tcl_id :: jstr
  tcl_name :: jstr
  tcl_arguments :: "(jstr \<times> json) list"
  tcl_thoughtSignature :: "jstr option"

record usage_cost =
  uc_input :: rat
  uc_output :: rat
  uc_cacheRead :: rat
  uc_cacheWrite :: rat
  uc_total :: rat

record usage =
  us_input :: int
  us_output :: int
  us_cacheRead :: int
  us_cacheWrite :: int
  us_cacheWrite1h :: "int option"
  us_reasoning :: "int option"
  us_totalTokens :: int
  us_cost :: usage_cost

datatype stop_reason = SR_stop | SR_length | SR_toolUse | SR_error | SR_aborted

text \<open>The block unions \<open>TextContent | ImageContent\<close> and the assistant's three blocks.\<close>

datatype block = BText text_content | BImage image_content

datatype assistant_block =
  AText text_content | AThinking thinking_content | AToolCall tool_call

datatype user_content = UString jstr | UBlocks "block list"

section \<open>Messages\<close>

record user_message =
  um_content :: user_content
  um_timestamp :: int

record assistant_message =
  am_content :: "assistant_block list"
  am_api :: jstr
  am_provider :: jstr
  am_model :: jstr
  am_responseModel :: "jstr option"
  am_responseId :: "jstr option"
  am_diagnostics :: "json option"
  am_usage :: usage
  am_stopReason :: stop_reason
  am_errorMessage :: "jstr option"
  am_timestamp :: int

record tool_result_message =
  tr_toolCallId :: jstr
  tr_toolName :: jstr
  tr_content :: "block list"
  tr_details :: "json option"
  tr_usage :: "usage option"
  tr_addedToolNames :: "jstr list option"
  tr_isError :: bool
  tr_timestamp :: int

datatype message =
    MUser user_message
  | MAssistant assistant_message
  | MToolResult tool_result_message

record tool =
  tool_name :: jstr
  tool_description :: jstr
  tool_parameters :: json

record llm_context =
  lc_systemPrompt :: "jstr option"
  lc_messages :: "message list"
  lc_tools :: "tool list option"

datatype input_kind = In_text | In_image

record model =
  md_id :: jstr
  md_name :: jstr
  md_api :: jstr
  md_provider :: jstr
  md_baseUrl :: jstr
  md_reasoning :: bool
  md_thinkingLevelMap :: "(jstr \<times> jstr option) list option"
  md_input :: "input_kind list"
  md_cost :: usage_cost
  md_contextWindow :: int
  md_maxTokens :: int

text \<open>
  Stream events. Every event but the two final ones carries the partial message; the
  nine block events are one constructor with their kind, since their consumers treat
  them alike.
\<close>

datatype block_event_kind =
    text_start | text_delta | text_end
  | thinking_start | thinking_delta | thinking_end
  | toolcall_start | toolcall_delta | toolcall_end

datatype assistant_event =
    EvStart assistant_message
  | EvBlock block_event_kind nat assistant_message
  | EvDone stop_reason assistant_message
  | EvError stop_reason assistant_message

definition toolCallsOf :: "assistant_block list \<Rightarrow> tool_call list" where
  "toolCallsOf bs = List.map_filter (\<lambda>b. case b of AToolCall c \<Rightarrow> Some c | _ \<Rightarrow> None) bs"

lemma toolCallsOf_simps [simp]:
  "toolCallsOf [] = []"
  "toolCallsOf (AText t # bs) = toolCallsOf bs"
  "toolCallsOf (AThinking h # bs) = toolCallsOf bs"
  "toolCallsOf (AToolCall c # bs) = c # toolCallsOf bs"
  by (simp_all add: toolCallsOf_def List.map_filter_simps)

text \<open>\<open>contentText\<close> of packages/ai/src/utils/text.ts, per type of content.\<close>

definition blockTexts :: "block list \<Rightarrow> jstr list" where
  "blockTexts bs = List.map_filter (\<lambda>b. case b of BText t \<Rightarrow> Some (tc_text t) | BImage _ \<Rightarrow> None) bs"

definition contentText_blocks :: "jstr \<Rightarrow> block list \<Rightarrow> jstr" where
  "contentText_blocks separator bs = joinWith separator (blockTexts bs)"

definition contentText_user :: "jstr \<Rightarrow> user_content \<Rightarrow> jstr" where
  "contentText_user separator c =
     (case c of UString s \<Rightarrow> s | UBlocks bs \<Rightarrow> contentText_blocks separator bs)"

definition contentText_assistant :: "jstr \<Rightarrow> assistant_block list \<Rightarrow> jstr" where
  "contentText_assistant separator bs =
     joinWith separator
       (List.map_filter (\<lambda>b. case b of AText t \<Rightarrow> Some (tc_text t) | _ \<Rightarrow> None) bs)"

section \<open>Harness messages\<close>

record bash_execution_message =
  be_command :: jstr
  be_output :: jstr
  be_exitCode :: "int option"
  be_cancelled :: bool
  be_truncated :: bool
  be_fullOutputPath :: "jstr option"
  be_timestamp :: int
  be_excludeFromContext :: "bool option"

record custom_message =
  cm_customType :: jstr
  cm_content :: user_content
  cm_display :: bool
  cm_details :: "json option"
  cm_timestamp :: int

record branch_summary_message =
  bs_summary :: jstr
  bs_fromId :: jstr
  bs_timestamp :: int

record compaction_summary_message =
  cs_summary :: jstr
  cs_tokensBefore :: int
  cs_timestamp :: int

text \<open>\<open>AgentMessage = Message | CustomAgentMessages[...]\<close> with the harness's four additions.\<close>

datatype agent_message =
    Msg message
  | BashExecution bash_execution_message
  | Custom custom_message
  | BranchSummary branch_summary_message
  | CompactionSummary compaction_summary_message

abbreviation user_msg :: "user_message \<Rightarrow> agent_message" where
  "user_msg m \<equiv> Msg (MUser m)"

abbreviation assistant_msg :: "assistant_message \<Rightarrow> agent_message" where
  "assistant_msg m \<equiv> Msg (MAssistant m)"

abbreviation tool_result_msg :: "tool_result_message \<Rightarrow> agent_message" where
  "tool_result_msg m \<equiv> Msg (MToolResult m)"

fun isAssistant :: "agent_message \<Rightarrow> bool" where
  "isAssistant (Msg (MAssistant m)) = True"
| "isAssistant _ = False"

fun isUser :: "agent_message \<Rightarrow> bool" where
  "isUser (Msg (MUser m)) = True"
| "isUser _ = False"

definition NL :: jstr where "NL = [10]"

definition COMPACTION_SUMMARY_PREFIX :: jstr where
  "COMPACTION_SUMMARY_PREFIX =
     js ''The conversation history before this point was compacted into the following summary:'' @
     NL @ NL @ js ''<summary>'' @ NL"

definition COMPACTION_SUMMARY_SUFFIX :: jstr where
  "COMPACTION_SUMMARY_SUFFIX = NL @ js ''</summary>''"

definition BRANCH_SUMMARY_PREFIX :: jstr where
  "BRANCH_SUMMARY_PREFIX =
     js ''The following is a summary of a branch that this conversation came back from:'' @
     NL @ NL @ js ''<summary>'' @ NL"

definition BRANCH_SUMMARY_SUFFIX :: jstr where
  "BRANCH_SUMMARY_SUFFIX = js ''</summary>''"

definition bashExecutionToText :: "bash_execution_message \<Rightarrow> jstr" where
  "bashExecutionToText msg =
     js ''Ran `'' @ be_command msg @ js ''`'' @ NL @
     (if be_output msg \<noteq> []
      then js ''```'' @ NL @ be_output msg @ NL @ js ''```''
      else js ''(no output)'') @
     (if be_cancelled msg then NL @ NL @ js ''(command cancelled)''
      else (case be_exitCode msg of
              None \<Rightarrow> []
            | Some c \<Rightarrow> (if c \<noteq> 0 then NL @ NL @ js ''Command exited with code '' @ showInt c else []))) @
     (if be_truncated msg \<and> truthyStr (be_fullOutputPath msg)
      then NL @ NL @ js ''[Output truncated. Full output: '' @ the (be_fullOutputPath msg) @ js '']''
      else [])"

text \<open>
  The constructors parse an ISO timestamp with \<open>new Date(timestamp).getTime()\<close>; the
  parser of the JavaScript runtime is the parameter \<open>getTime\<close>.
\<close>

definition createBranchSummaryMessage ::
  "(jstr \<Rightarrow> int) \<Rightarrow> jstr \<Rightarrow> jstr \<Rightarrow> jstr \<Rightarrow> branch_summary_message" where
  "createBranchSummaryMessage getTime summary fromId timestamp =
     \<lparr>bs_summary = summary, bs_fromId = fromId, bs_timestamp = getTime timestamp\<rparr>"

definition createCompactionSummaryMessage ::
  "(jstr \<Rightarrow> int) \<Rightarrow> jstr \<Rightarrow> int \<Rightarrow> jstr \<Rightarrow> compaction_summary_message" where
  "createCompactionSummaryMessage getTime summary tokensBefore timestamp =
     \<lparr>cs_summary = summary, cs_tokensBefore = tokensBefore, cs_timestamp = getTime timestamp\<rparr>"

definition createCustomMessage ::
  "(jstr \<Rightarrow> int) \<Rightarrow> jstr \<Rightarrow> user_content \<Rightarrow> bool \<Rightarrow> json option \<Rightarrow> jstr \<Rightarrow> custom_message" where
  "createCustomMessage getTime customType content display details timestamp =
     \<lparr>cm_customType = customType, cm_content = content, cm_display = display,
      cm_details = details, cm_timestamp = getTime timestamp\<rparr>"

definition text_block :: "jstr \<Rightarrow> block" where
  "text_block s = BText \<lparr>tc_text = s, tc_textSignature = None\<rparr>"

definition mk_user :: "block list \<Rightarrow> int \<Rightarrow> message" where
  "mk_user bs t = MUser \<lparr>um_content = UBlocks bs, um_timestamp = t\<rparr>"

fun convertMessage :: "agent_message \<Rightarrow> message option" where
  "convertMessage (BashExecution m) =
     (if be_excludeFromContext m = Some True then None
      else Some (mk_user [text_block (bashExecutionToText m)] (be_timestamp m)))"
| "convertMessage (Custom m) =
     (let content = (case cm_content m of UString s \<Rightarrow> [text_block s] | UBlocks bs \<Rightarrow> bs)
      in Some (mk_user content (cm_timestamp m)))"
| "convertMessage (BranchSummary m) =
     Some (mk_user [text_block (BRANCH_SUMMARY_PREFIX @ bs_summary m @ BRANCH_SUMMARY_SUFFIX)] (bs_timestamp m))"
| "convertMessage (CompactionSummary m) =
     Some (mk_user [text_block (COMPACTION_SUMMARY_PREFIX @ cs_summary m @ COMPACTION_SUMMARY_SUFFIX)] (cs_timestamp m))"
| "convertMessage (Msg m) = Some m"

definition convertToLlm :: "agent_message list \<Rightarrow> message list" where
  "convertToLlm ms = List.map_filter convertMessage ms"

lemma convertToLlm_simps [simp]:
  "convertToLlm [] = []"
  "convertToLlm (m # ms) = (case convertMessage m of None \<Rightarrow> convertToLlm ms | Some x \<Rightarrow> x # convertToLlm ms)"
  by (simp_all add: convertToLlm_def List.map_filter_simps split: option.splits)

lemma convertToLlm_append: "convertToLlm (xs @ ys) = convertToLlm xs @ convertToLlm ys"
  by (induction xs) (auto split: option.splits)

lemma convertToLlm_Msg [simp]: "convertToLlm (map Msg ms) = ms"
  by (induction ms) auto

lemma convertMessage_None_iff:
  "convertMessage m = None \<longleftrightarrow> (\<exists>b. m = BashExecution b \<and> be_excludeFromContext b = Some True)"
  by (cases m) (auto simp: Let_def)

end
