(* ===== verification/AgentTypes.thy ===== *)
theory AgentTypes
  imports Messages
begin

text \<open>
  The types of packages/agent/src/types.ts: tools, tool results, hook results, contexts,
  loop configuration and events.

  Everything a hook, a tool or a listener may touch is one value of a type parameter
  \<open>'w\<close>, the world of the run: a callback is a function that reads a world and returns
  its result with the next one. A callback that may throw returns a sum, \<open>Inl\<close> with the
  error's message. The documented contracts of the other callbacks say that they do not
  throw.
\<close>

datatype tool_execution_mode = Sequential | Parallel

datatype queue_mode = QM_all | QM_one_at_a_time

datatype thinking_level =
  TL_off | TL_minimal | TL_low | TL_medium | TL_high | TL_xhigh | TL_max

record agent_tool_result =
  res_content :: "block list option"
  res_details :: "json option"
  res_usage :: "usage option"
  res_addedToolNames :: "jstr list option"
  res_terminate :: "bool option"

record before_tool_call_result =
  btc_block :: "bool option"
  btc_reason :: "jstr option"

record after_tool_call_result =
  atc_content :: "block list option"
  atc_details :: "json option"
  atc_isError :: "bool option"
  atc_usage :: "usage option"
  atc_terminate :: "bool option"

text \<open>
  A tool: \<open>at_execute id args\<close> yields the partial results it reports before it settles
  and its outcome. Reports made after it settles are dropped by the caller, so they are
  not part of the value.
\<close>

record 'w agent_tool = tool +
  at_label :: jstr
  at_prepareArguments :: "((jstr \<times> json) list \<Rightarrow> jstr + (jstr \<times> json) list) option"
  at_execute :: "jstr \<Rightarrow> json \<Rightarrow> 'w \<Rightarrow> (agent_tool_result list \<times> (jstr + agent_tool_result)) \<times> 'w"
  at_executionMode :: "tool_execution_mode option"

record 'w agent_context =
  ac_systemPrompt :: jstr
  ac_messages :: "agent_message list"
  ac_tools :: "'w agent_tool list option"

record 'w before_tool_call_context =
  bcx_assistantMessage :: assistant_message
  bcx_toolCall :: tool_call
  bcx_args :: json
  bcx_context :: "'w agent_context"

record 'w after_tool_call_context =
  acx_assistantMessage :: assistant_message
  acx_toolCall :: tool_call
  acx_args :: json
  acx_result :: agent_tool_result
  acx_isError :: bool
  acx_context :: "'w agent_context"

record 'w turn_context =
  tx_message :: assistant_message
  tx_toolResults :: "tool_result_message list"
  tx_context :: "'w agent_context"
  tx_newMessages :: "agent_message list"

record 'w turn_update =
  tu_context :: "'w agent_context option"
  tu_model :: "model option"
  tu_thinkingLevel :: "thinking_level option"

record 'w loop_config =
  cfg_model :: model
  cfg_reasoning :: "thinking_level option"
  cfg_apiKey :: "jstr option"
  cfg_convertToLlm :: "agent_message list \<Rightarrow> 'w \<Rightarrow> message list \<times> 'w"
  cfg_transformContext :: "(agent_message list \<Rightarrow> 'w \<Rightarrow> agent_message list \<times> 'w) option"
  cfg_getApiKey :: "(jstr \<Rightarrow> 'w \<Rightarrow> jstr option \<times> 'w) option"
  cfg_shouldStopAfterTurn :: "('w turn_context \<Rightarrow> 'w \<Rightarrow> bool \<times> 'w) option"
  cfg_prepareNextTurn :: "('w turn_context \<Rightarrow> 'w \<Rightarrow> 'w turn_update option \<times> 'w) option"
  cfg_getSteeringMessages :: "('w \<Rightarrow> agent_message list \<times> 'w) option"
  cfg_getFollowUpMessages :: "('w \<Rightarrow> agent_message list \<times> 'w) option"
  cfg_toolExecution :: "tool_execution_mode option"
  cfg_beforeToolCall ::
    "('w before_tool_call_context \<Rightarrow> 'w \<Rightarrow> (jstr + before_tool_call_result option) \<times> 'w) option"
  cfg_afterToolCall ::
    "('w after_tool_call_context \<Rightarrow> 'w \<Rightarrow> (jstr + after_tool_call_result option) \<times> 'w) option"

datatype agent_event =
    AgentStart
  | AgentEnd "agent_message list"
  | TurnStart
  | TurnEnd agent_message "tool_result_message list"
  | MessageStart agent_message
  | MessageUpdate agent_message assistant_event
  | MessageEnd agent_message
  | ToolExecutionStart jstr jstr "(jstr \<times> json) list"
  | ToolExecutionUpdate jstr jstr "(jstr \<times> json) list" agent_tool_result
  | ToolExecutionEnd jstr jstr agent_tool_result bool

text \<open>
  What a run gets from outside: the event sink, the abort signal, the clock, the schema
  validator (typebox behind it), the provider's stream function (the events of the
  response and its final message) and the order in which concurrently running tools
  make progress.
\<close>

record request_options =
  ro_reasoning :: "thinking_level option"
  ro_apiKey :: "jstr option"

record 'w ports =
  pt_emit :: "agent_event \<Rightarrow> 'w \<Rightarrow> 'w"
  pt_aborted :: "'w \<Rightarrow> bool"
  pt_now :: "'w \<Rightarrow> int"
  pt_validate :: "'w agent_tool \<Rightarrow> tool_call \<Rightarrow> jstr + json"
  pt_stream :: "model \<Rightarrow> llm_context \<Rightarrow> request_options \<Rightarrow> 'w \<Rightarrow>
    (assistant_event list \<times> assistant_message) \<times> 'w"
  pt_schedule :: "'w \<Rightarrow> nat list"

text \<open>A run threads the world and records the events emitted so far.\<close>

record 'w run =
  r_world :: 'w
  r_trace :: "agent_event list"

definition emit :: "'w ports \<Rightarrow> agent_event \<Rightarrow> 'w run \<Rightarrow> 'w run" where
  "emit P e r = \<lparr>r_world = pt_emit P e (r_world r), r_trace = r_trace r @ [e]\<rparr>"

definition emits :: "'w ports \<Rightarrow> agent_event list \<Rightarrow> 'w run \<Rightarrow> 'w run" where
  "emits P es r = fold (emit P) es r"

definition callHook :: "('w \<Rightarrow> 'a \<times> 'w) \<Rightarrow> 'w run \<Rightarrow> 'a \<times> 'w run" where
  "callHook h r = (case h (r_world r) of (a, w) \<Rightarrow> (a, r\<lparr>r_world := w\<rparr>))"

lemma trace_emit [simp]: "r_trace (emit P e r) = r_trace r @ [e]"
  by (simp add: emit_def)

lemma emits_Nil [simp]: "emits P [] r = r"
  by (simp add: emits_def)

lemma emits_Cons [simp]: "emits P (e # es) r = emits P es (emit P e r)"
  by (simp add: emits_def)

lemma trace_emits [simp]: "r_trace (emits P es r) = r_trace r @ es"
  by (induction es arbitrary: r) auto

lemma trace_callHook [simp]: "r_trace (snd (callHook h r)) = r_trace r"
  by (simp add: callHook_def split: prod.splits)

lemma callHook_trace: "callHook h r = (a, r') \<Longrightarrow> r_trace r' = r_trace r"
  using trace_callHook [of h r] by simp

lemma callHook_result: "callHook h r = (a, r') \<Longrightarrow> h (r_world r) = (a, r_world r')"
  by (auto simp: callHook_def split: prod.splits)

end
