(* ===== verification/AgentLoop.thy ===== *)
theory AgentLoop
  imports AgentTypes
begin

text \<open>
  The agent loop of packages/agent/src/agent-loop.ts: streaming one assistant response,
  preparing, executing and finalising tool calls one by one or concurrently, and the
  nested turn loop with steering and follow-up messages.

  The two nested loops of \<open>runLoop\<close> are one tail recursion over a record of the loop's
  variables; a run that never ends is the value \<open>None\<close>.
\<close>

section \<open>Streaming one assistant response\<close>

text \<open>
  The consumption of the response's events. \<open>partial\<close> is the partial message once a start
  event has come, and \<open>added\<close> tells whether it sits at the end of the context; the list
  is \<open>context.messages\<close>.
\<close>

definition setLast :: "'a list \<Rightarrow> 'a \<Rightarrow> 'a list" where
  "setLast xs x = xs[length xs - 1 := x]"

definition finishResponse ::
  "'w ports \<Rightarrow> assistant_message \<Rightarrow> bool \<Rightarrow> agent_message list \<Rightarrow> 'w run \<Rightarrow> agent_message list \<times> 'w run" where
  "finishResponse P final added msgs r =
     (let msgs' = (if added then setLast msgs (assistant_msg final) else msgs @ [assistant_msg final]);
          r1 = (if added then r else emit P (MessageStart (assistant_msg final)) r)
      in (msgs', emit P (MessageEnd (assistant_msg final)) r1))"

fun consumeEvents ::
  "'w ports \<Rightarrow> assistant_message \<Rightarrow> assistant_event list \<Rightarrow> assistant_message option \<Rightarrow> bool \<Rightarrow>
   agent_message list \<Rightarrow> 'w run \<Rightarrow> agent_message list \<times> 'w run" where
  "consumeEvents P final [] part added msgs r = finishResponse P final added msgs r"
| "consumeEvents P final (EvStart p # evs) part added msgs r =
     consumeEvents P final evs (Some p) True (msgs @ [assistant_msg p])
       (emit P (MessageStart (assistant_msg p)) r)"
| "consumeEvents P final (EvBlock k i p # evs) part added msgs r =
     (if part \<noteq> None
      then consumeEvents P final evs (Some p) added (setLast msgs (assistant_msg p))
             (emit P (MessageUpdate (assistant_msg p) (EvBlock k i p)) r)
      else consumeEvents P final evs part added msgs r)"
| "consumeEvents P final (EvDone _ _ # evs) part added msgs r = finishResponse P final added msgs r"
| "consumeEvents P final (EvError _ _ # evs) part added msgs r = finishResponse P final added msgs r"

definition streamAssistantResponse ::
  "'w ports \<Rightarrow> 'w loop_config \<Rightarrow> 'w agent_context \<Rightarrow> 'w run \<Rightarrow>
   assistant_message \<times> 'w agent_context \<times> 'w run" where
  "streamAssistantResponse P cfg ctx r0 =
     (let (messages, r1) = (case cfg_transformContext cfg of
             None \<Rightarrow> (ac_messages ctx, r0)
           | Some f \<Rightarrow> callHook (f (ac_messages ctx)) r0);
          (llmMessages, r2) = callHook (cfg_convertToLlm cfg messages) r1;
          llmContext = \<lparr>lc_systemPrompt = Some (ac_systemPrompt ctx), lc_messages = llmMessages,
             lc_tools = map_option (map tool.truncate) (ac_tools ctx)\<rparr>;
          (dynKey, r3) = (case cfg_getApiKey cfg of
             None \<Rightarrow> (None, r2)
           | Some f \<Rightarrow> callHook (f (md_provider (cfg_model cfg))) r2);
          resolvedApiKey = (if truthyStr dynKey then dynKey else cfg_apiKey cfg);
          ((events, final), r4) = callHook (pt_stream P (cfg_model cfg) llmContext
             \<lparr>ro_reasoning = cfg_reasoning cfg, ro_apiKey = resolvedApiKey\<rparr>) r3;
          (msgs, r5) = consumeEvents P final events None False (ac_messages ctx) r4
      in (final, ctx\<lparr>ac_messages := msgs\<rparr>, r5))"

section \<open>Tool calls\<close>

datatype 'w tool_preparation =
    Immediate agent_tool_result bool
  | Prepared tool_call "'w agent_tool" json

record finalized_call =
  fc_toolCall :: tool_call
  fc_result :: agent_tool_result
  fc_isError :: bool

record tool_batch =
  tb_messages :: "tool_result_message list"
  tb_terminate :: bool

definition createErrorToolResult :: "jstr \<Rightarrow> agent_tool_result" where
  "createErrorToolResult message =
     \<lparr>res_content = Some [text_block message], res_details = Some (JObj []), res_usage = None,
      res_addedToolNames = None, res_terminate = None\<rparr>"

definition shouldTerminateToolBatch :: "finalized_call list \<Rightarrow> bool" where
  "shouldTerminateToolBatch calls \<longleftrightarrow>
     calls \<noteq> [] \<and> (\<forall>f \<in> set calls. res_terminate (fc_result f) = Some True)"

definition emitToolExecutionEnd :: "'w ports \<Rightarrow> finalized_call \<Rightarrow> 'w run \<Rightarrow> 'w run" where
  "emitToolExecutionEnd P f r =
     emit P (ToolExecutionEnd (tcl_id (fc_toolCall f)) (tcl_name (fc_toolCall f)) (fc_result f) (fc_isError f)) r"

definition createToolResultMessage :: "'w ports \<Rightarrow> finalized_call \<Rightarrow> 'w run \<Rightarrow> tool_result_message" where
  "createToolResultMessage P f r =
     \<lparr>tr_toolCallId = tcl_id (fc_toolCall f), tr_toolName = tcl_name (fc_toolCall f),
      tr_content = (case res_content (fc_result f) of None \<Rightarrow> [] | Some c \<Rightarrow> c),
      tr_details = res_details (fc_result f), tr_usage = res_usage (fc_result f),
      tr_addedToolNames = (case res_addedToolNames (fc_result f) of
          None \<Rightarrow> None | Some [] \<Rightarrow> None | Some ns \<Rightarrow> Some ns),
      tr_isError = fc_isError f, tr_timestamp = pt_now P (r_world r)\<rparr>"

definition emitToolResultMessage :: "'w ports \<Rightarrow> tool_result_message \<Rightarrow> 'w run \<Rightarrow> 'w run" where
  "emitToolResultMessage P m r =
     emit P (MessageEnd (tool_result_msg m)) (emit P (MessageStart (tool_result_msg m)) r)"

definition emitToolExecutionStart :: "'w ports \<Rightarrow> tool_call \<Rightarrow> 'w run \<Rightarrow> 'w run" where
  "emitToolExecutionStart P c r =
     emit P (ToolExecutionStart (tcl_id c) (tcl_name c) (tcl_arguments c)) r"

text \<open>Building the result message and emitting it, once per finalised call.\<close>

definition reportFinalized ::
  "'w ports \<Rightarrow> finalized_call \<Rightarrow> 'w run \<Rightarrow> tool_result_message \<times> 'w run" where
  "reportFinalized P f r =
     (let m = createToolResultMessage P f r in (m, emitToolResultMessage P m r))"

definition truncatedCallText :: "tool_call \<Rightarrow> jstr" where
  "truncatedCallText c = js ''Tool call '' @ QUOTE @ tcl_name c @ QUOTE @
     js '' was not executed: the response hit the output token limit, so its arguments may be truncated. Re-issue the tool call with complete arguments.''"

fun failToolCalls ::
  "'w ports \<Rightarrow> tool_call list \<Rightarrow> 'w run \<Rightarrow> tool_result_message list \<times> 'w run" where
  "failToolCalls P [] r = ([], r)"
| "failToolCalls P (c # cs) r =
     (let f = \<lparr>fc_toolCall = c, fc_result = createErrorToolResult (truncatedCallText c), fc_isError = True\<rparr>;
          (m, r1) = reportFinalized P f (emitToolExecutionEnd P f (emitToolExecutionStart P c r));
          (ms, r2) = failToolCalls P cs r1
      in (m # ms, r2))"

definition failToolCallsFromTruncatedMessage ::
  "'w ports \<Rightarrow> tool_call list \<Rightarrow> 'w run \<Rightarrow> tool_batch \<times> 'w run" where
  "failToolCallsFromTruncatedMessage P calls r =
     (case failToolCalls P calls r of (ms, r') \<Rightarrow> (\<lparr>tb_messages = ms, tb_terminate = False\<rparr>, r'))"

definition findTool :: "'w agent_context \<Rightarrow> jstr \<Rightarrow> 'w agent_tool option" where
  "findTool ctx name = (case ac_tools ctx of None \<Rightarrow> None | Some ts \<Rightarrow> find (\<lambda>t. tool_name t = name) ts)"

definition prepareToolCallArguments :: "'w agent_tool \<Rightarrow> tool_call \<Rightarrow> jstr + tool_call" where
  "prepareToolCallArguments t c =
     (case at_prepareArguments t of
        None \<Rightarrow> Inr c
      | Some f \<Rightarrow> (case f (tcl_arguments c) of
            Inl e \<Rightarrow> Inl e
          | Inr args \<Rightarrow> Inr (if args = tcl_arguments c then c else c\<lparr>tcl_arguments := args\<rparr>)))"

definition immediateError :: "jstr \<Rightarrow> 'w tool_preparation" where
  "immediateError s = Immediate (createErrorToolResult s) True"

definition prepareToolCall ::
  "'w ports \<Rightarrow> 'w loop_config \<Rightarrow> 'w agent_context \<Rightarrow> assistant_message \<Rightarrow> tool_call \<Rightarrow> 'w run \<Rightarrow>
   'w tool_preparation \<times> 'w run" where
  "prepareToolCall P cfg ctx am c r =
     (case findTool ctx (tcl_name c) of
        None \<Rightarrow> (immediateError (js ''Tool '' @ tcl_name c @ js '' not found''), r)
      | Some t \<Rightarrow>
          (case prepareToolCallArguments t c of
             Inl e \<Rightarrow> (immediateError e, r)
           | Inr c' \<Rightarrow>
               (case pt_validate P t c' of
                  Inl e \<Rightarrow> (immediateError e, r)
                | Inr args \<Rightarrow>
                    (case cfg_beforeToolCall cfg of
                       None \<Rightarrow>
                         (if pt_aborted P (r_world r) then (immediateError (js ''Operation aborted''), r)
                          else (Prepared c t args, r))
                     | Some h \<Rightarrow>
                         (case callHook (h \<lparr>bcx_assistantMessage = am, bcx_toolCall = c, bcx_args = args,
                                            bcx_context = ctx\<rparr>) r of
                            (Inl e, r1) \<Rightarrow> (immediateError e, r1)
                          | (Inr res, r1) \<Rightarrow>
                              (if pt_aborted P (r_world r1) then (immediateError (js ''Operation aborted''), r1)
                               else (case res of
                                   None \<Rightarrow> (Prepared c t args, r1)
                                 | Some b \<Rightarrow>
                                     (if btc_block b = Some True
                                      then (immediateError
                                              (if truthyStr (btc_reason b) then the (btc_reason b)
                                               else js ''Tool execution was blocked''), r1)
                                      else (Prepared c t args, r1)))))))))"

text \<open>
  Executing a prepared call: the tool runs, its partial results are reported as update
  events, and a throw becomes an error result.
\<close>

definition updateEvent :: "tool_call \<Rightarrow> agent_tool_result \<Rightarrow> agent_event" where
  "updateEvent c u = ToolExecutionUpdate (tcl_id c) (tcl_name c) (tcl_arguments c) u"

definition executedOutcome :: "jstr + agent_tool_result \<Rightarrow> agent_tool_result \<times> bool" where
  "executedOutcome out = (case out of Inl e \<Rightarrow> (createErrorToolResult e, True) | Inr res \<Rightarrow> (res, False))"

definition executePreparedToolCall ::
  "'w ports \<Rightarrow> tool_call \<Rightarrow> 'w agent_tool \<Rightarrow> json \<Rightarrow> 'w run \<Rightarrow> (agent_tool_result \<times> bool) \<times> 'w run" where
  "executePreparedToolCall P c t args r =
     (case callHook (at_execute t (tcl_id c) args) r of
        ((updates, out), r1) \<Rightarrow> (executedOutcome out, emits P (map (updateEvent c) updates) r1))"

definition overrideResult :: "agent_tool_result \<Rightarrow> after_tool_call_result \<Rightarrow> agent_tool_result" where
  "overrideResult res a =
     res\<lparr>res_content := orElse (atc_content a) (res_content res),
         res_details := coalesce (atc_details a) (res_details res),
         res_usage := orElse (atc_usage a) (res_usage res),
         res_terminate := orElse (atc_terminate a) (res_terminate res)\<rparr>"

definition finalizeExecutedToolCall ::
  "'w ports \<Rightarrow> 'w loop_config \<Rightarrow> 'w agent_context \<Rightarrow> assistant_message \<Rightarrow> tool_call \<Rightarrow> json \<Rightarrow>
   agent_tool_result \<times> bool \<Rightarrow> 'w run \<Rightarrow> finalized_call \<times> 'w run" where
  "finalizeExecutedToolCall P cfg ctx am c args executed r =
     (case executed of (res, isError) \<Rightarrow>
        (case cfg_afterToolCall cfg of
           None \<Rightarrow> (\<lparr>fc_toolCall = c, fc_result = res, fc_isError = isError\<rparr>, r)
         | Some h \<Rightarrow>
             (case callHook (h \<lparr>acx_assistantMessage = am, acx_toolCall = c, acx_args = args,
                                acx_result = res, acx_isError = isError, acx_context = ctx\<rparr>) r of
                (Inl e, r1) \<Rightarrow>
                  (\<lparr>fc_toolCall = c, fc_result = createErrorToolResult e, fc_isError = True\<rparr>, r1)
              | (Inr None, r1) \<Rightarrow> (\<lparr>fc_toolCall = c, fc_result = res, fc_isError = isError\<rparr>, r1)
              | (Inr (Some a), r1) \<Rightarrow>
                  (\<lparr>fc_toolCall = c, fc_result = overrideResult res a,
                     fc_isError = (case atc_isError a of None \<Rightarrow> isError | Some b \<Rightarrow> b)\<rparr>, r1))))"

subsection \<open>One call at a time\<close>

fun sequentialCalls ::
  "'w ports \<Rightarrow> 'w loop_config \<Rightarrow> 'w agent_context \<Rightarrow> assistant_message \<Rightarrow> tool_call list \<Rightarrow> 'w run \<Rightarrow>
   (finalized_call \<times> tool_result_message) list \<times> 'w run" where
  "sequentialCalls P cfg ctx am [] r = ([], r)"
| "sequentialCalls P cfg ctx am (c # cs) r =
     (let (prep, r1) = prepareToolCall P cfg ctx am c (emitToolExecutionStart P c r);
          (f, r2) = (case prep of
              Immediate res e \<Rightarrow> (\<lparr>fc_toolCall = c, fc_result = res, fc_isError = e\<rparr>, r1)
            | Prepared c' t args \<Rightarrow>
                (case executePreparedToolCall P c' t args r1 of
                   (executed, r') \<Rightarrow> finalizeExecutedToolCall P cfg ctx am c' args executed r'));
          (m, r3) = reportFinalized P f (emitToolExecutionEnd P f r2)
      in if pt_aborted P (r_world r3) then ([(f, m)], r3)
         else (case sequentialCalls P cfg ctx am cs r3 of (fms, r4) \<Rightarrow> ((f, m) # fms, r4)))"

definition executeToolCallsSequential ::
  "'w ports \<Rightarrow> 'w loop_config \<Rightarrow> 'w agent_context \<Rightarrow> assistant_message \<Rightarrow> tool_call list \<Rightarrow> 'w run \<Rightarrow>
   tool_batch \<times> 'w run" where
  "executeToolCallsSequential P cfg ctx am calls r =
     (case sequentialCalls P cfg ctx am calls r of (fms, r') \<Rightarrow>
        (\<lparr>tb_messages = map snd fms, tb_terminate = shouldTerminateToolBatch (map fst fms)\<rparr>, r'))"

subsection \<open>Concurrent calls\<close>

text \<open>
  A call of a concurrent batch is settled, waiting to start, or running with the partial
  results still to report. The first list of steps starts and advances the calls in any
  order the schedule asks for; whatever is left then runs to its end, in source order,
  since \<open>Promise.all\<close> waits for every call.
\<close>

datatype 'w call_entry =
    Settled finalized_call
  | Waiting tool_call "'w agent_tool" json
  | Running tool_call json "agent_tool_result list" "jstr + agent_tool_result"

fun parallelPreflight ::
  "'w ports \<Rightarrow> 'w loop_config \<Rightarrow> 'w agent_context \<Rightarrow> assistant_message \<Rightarrow> tool_call list \<Rightarrow> 'w run \<Rightarrow>
   'w call_entry list \<times> 'w run" where
  "parallelPreflight P cfg ctx am [] r = ([], r)"
| "parallelPreflight P cfg ctx am (c # cs) r =
     (let (prep, r1) = prepareToolCall P cfg ctx am c (emitToolExecutionStart P c r);
          (en, r2) = (case prep of
              Immediate res e \<Rightarrow>
                (let f = \<lparr>fc_toolCall = c, fc_result = res, fc_isError = e\<rparr>
                 in (Settled f, emitToolExecutionEnd P f r1))
            | Prepared c' t args \<Rightarrow> (Waiting c' t args, r1))
      in if pt_aborted P (r_world r2) then ([en], r2)
         else (case parallelPreflight P cfg ctx am cs r2 of (ens, r3) \<Rightarrow> (en # ens, r3)))"

fun stepEntry ::
  "'w ports \<Rightarrow> 'w loop_config \<Rightarrow> 'w agent_context \<Rightarrow> assistant_message \<Rightarrow> 'w call_entry \<Rightarrow> 'w run \<Rightarrow>
   'w call_entry \<times> 'w run" where
  "stepEntry P cfg ctx am (Settled f) r = (Settled f, r)"
| "stepEntry P cfg ctx am (Waiting c t args) r =
     (case callHook (at_execute t (tcl_id c) args) r of
        ((updates, out), r1) \<Rightarrow> (Running c args updates out, r1))"
| "stepEntry P cfg ctx am (Running c args (u # us) out) r =
     (Running c args us out, emit P (updateEvent c u) r)"
| "stepEntry P cfg ctx am (Running c args [] out) r =
     (case finalizeExecutedToolCall P cfg ctx am c args (executedOutcome out) r of
        (f, r1) \<Rightarrow> (Settled f, emitToolExecutionEnd P f r1))"

fun runSchedule ::
  "'w ports \<Rightarrow> 'w loop_config \<Rightarrow> 'w agent_context \<Rightarrow> assistant_message \<Rightarrow> nat list \<Rightarrow> 'w call_entry list \<Rightarrow>
   'w run \<Rightarrow> 'w call_entry list \<times> 'w run" where
  "runSchedule P cfg ctx am [] ens r = (ens, r)"
| "runSchedule P cfg ctx am (i # is) ens r =
     (if i < length ens
      then (case stepEntry P cfg ctx am (ens ! i) r of
              (en, r1) \<Rightarrow> runSchedule P cfg ctx am is (ens[i := en]) r1)
      else runSchedule P cfg ctx am is ens r)"

fun settleEntry ::
  "'w ports \<Rightarrow> 'w loop_config \<Rightarrow> 'w agent_context \<Rightarrow> assistant_message \<Rightarrow> 'w call_entry \<Rightarrow> 'w run \<Rightarrow>
   finalized_call \<times> 'w run" where
  "settleEntry P cfg ctx am (Settled f) r = (f, r)"
| "settleEntry P cfg ctx am (Waiting c t args) r =
     (case executePreparedToolCall P c t args r of
        (executed, r1) \<Rightarrow> (case finalizeExecutedToolCall P cfg ctx am c args executed r1 of
           (f, r2) \<Rightarrow> (f, emitToolExecutionEnd P f r2)))"
| "settleEntry P cfg ctx am (Running c args us out) r =
     (case finalizeExecutedToolCall P cfg ctx am c args (executedOutcome out)
             (emits P (map (updateEvent c) us) r) of
        (f, r2) \<Rightarrow> (f, emitToolExecutionEnd P f r2))"

fun settleAll ::
  "'w ports \<Rightarrow> 'w loop_config \<Rightarrow> 'w agent_context \<Rightarrow> assistant_message \<Rightarrow> 'w call_entry list \<Rightarrow> 'w run \<Rightarrow>
   finalized_call list \<times> 'w run" where
  "settleAll P cfg ctx am [] r = ([], r)"
| "settleAll P cfg ctx am (en # ens) r =
     (let (f, r1) = settleEntry P cfg ctx am en r;
          (fs, r2) = settleAll P cfg ctx am ens r1
      in (f # fs, r2))"

fun reportAll :: "'w ports \<Rightarrow> finalized_call list \<Rightarrow> 'w run \<Rightarrow> tool_result_message list \<times> 'w run" where
  "reportAll P [] r = ([], r)"
| "reportAll P (f # fs) r =
     (let (m, r1) = reportFinalized P f r; (ms, r2) = reportAll P fs r1 in (m # ms, r2))"

definition executeToolCallsParallel ::
  "'w ports \<Rightarrow> 'w loop_config \<Rightarrow> 'w agent_context \<Rightarrow> assistant_message \<Rightarrow> tool_call list \<Rightarrow> 'w run \<Rightarrow>
   tool_batch \<times> 'w run" where
  "executeToolCallsParallel P cfg ctx am calls r =
     (let (ens, r1) = parallelPreflight P cfg ctx am calls r;
          (ens', r2) = runSchedule P cfg ctx am (pt_schedule P (r_world r1)) ens r1;
          (fs, r3) = settleAll P cfg ctx am ens' r2;
          (ms, r4) = reportAll P fs r3
      in (\<lparr>tb_messages = ms, tb_terminate = shouldTerminateToolBatch fs\<rparr>, r4))"

definition hasSequentialToolCall :: "'w agent_context \<Rightarrow> tool_call list \<Rightarrow> bool" where
  "hasSequentialToolCall ctx calls \<longleftrightarrow>
     (\<exists>c \<in> set calls. case findTool ctx (tcl_name c) of
        None \<Rightarrow> False | Some t \<Rightarrow> at_executionMode t = Some Sequential)"

definition executeToolCalls ::
  "'w ports \<Rightarrow> 'w loop_config \<Rightarrow> 'w agent_context \<Rightarrow> assistant_message \<Rightarrow> 'w run \<Rightarrow> tool_batch \<times> 'w run" where
  "executeToolCalls P cfg ctx am r =
     (let calls = toolCallsOf (am_content am)
      in if cfg_toolExecution cfg = Some Sequential \<or> hasSequentialToolCall ctx calls
         then executeToolCallsSequential P cfg ctx am calls r
         else executeToolCallsParallel P cfg ctx am calls r)"

section \<open>The turn loop\<close>

record 'w loop_state =
  ls_context :: "'w agent_context"
  ls_newMessages :: "agent_message list"
  ls_config :: "'w loop_config"
  ls_firstTurn :: bool
  ls_pending :: "agent_message list"
  ls_hasMoreToolCalls :: bool
  ls_run :: "'w run"

datatype 'w turn_outcome = Continue "'w loop_state" | Finished "agent_message list" "'w run"

text \<open>Injecting the pending messages.\<close>

definition injectPending :: "'w ports \<Rightarrow> agent_message list \<Rightarrow> 'w run \<Rightarrow> 'w run" where
  "injectPending P ms r = emits P (concat (map (\<lambda>m. [MessageStart m, MessageEnd m]) ms)) r"

text \<open>The tool part of a turn: the batch, whether the loop goes on, and the new run.\<close>

definition runToolCalls ::
  "'w ports \<Rightarrow> 'w loop_config \<Rightarrow> 'w agent_context \<Rightarrow> assistant_message \<Rightarrow> 'w run \<Rightarrow>
   tool_result_message list \<times> bool \<times> 'w run" where
  "runToolCalls P cfg ctx am r =
     (let calls = toolCallsOf (am_content am)
      in if calls = [] then ([], False, r)
         else (case (if am_stopReason am = SR_length then failToolCallsFromTruncatedMessage P calls r
                     else executeToolCalls P cfg ctx am r) of
                 (batch, r') \<Rightarrow> (tb_messages batch, \<not> tb_terminate batch, r')))"

definition reasoningAfterUpdate :: "'w loop_config \<Rightarrow> 'w turn_update \<Rightarrow> thinking_level option" where
  "reasoningAfterUpdate cfg u =
     (case tu_thinkingLevel u of
        None \<Rightarrow> cfg_reasoning cfg
      | Some l \<Rightarrow> (if l = TL_off then None else Some l))"

definition applyTurnUpdate ::
  "'w turn_update option \<Rightarrow> 'w agent_context \<Rightarrow> 'w loop_config \<Rightarrow> 'w agent_context \<times> 'w loop_config" where
  "applyTurnUpdate upd ctx cfg =
     (case upd of
        None \<Rightarrow> (ctx, cfg)
      | Some u \<Rightarrow>
          (case tu_context u of None \<Rightarrow> ctx | Some c \<Rightarrow> c,
           cfg\<lparr>cfg_model := (case tu_model u of None \<Rightarrow> cfg_model cfg | Some m \<Rightarrow> m),
               cfg_reasoning := reasoningAfterUpdate cfg u\<rparr>))"

definition pollQueue :: "('w \<Rightarrow> agent_message list \<times> 'w) option \<Rightarrow> 'w run \<Rightarrow> agent_message list \<times> 'w run" where
  "pollQueue q r = (case q of None \<Rightarrow> ([], r) | Some f \<Rightarrow> callHook f r)"

text \<open>The body of the inner loop: one turn.\<close>

definition turn :: "'w ports \<Rightarrow> 'w loop_state \<Rightarrow> 'w turn_outcome" where
  "turn P s =
     (let cfg = ls_config s;
          r0 = (if ls_firstTurn s then ls_run s else emit P TurnStart (ls_run s));
          r1 = injectPending P (ls_pending s) r0;
          ctx1 = (ls_context s)\<lparr>ac_messages := ac_messages (ls_context s) @ ls_pending s\<rparr>;
          new1 = ls_newMessages s @ ls_pending s;
          (am, ctx2, r2) = streamAssistantResponse P cfg ctx1 r1;
          new2 = new1 @ [assistant_msg am]
      in if am_stopReason am = SR_error \<or> am_stopReason am = SR_aborted
         then Finished new2 (emit P (AgentEnd new2) (emit P (TurnEnd (assistant_msg am) []) r2))
         else
           (let (results, more, r3) = runToolCalls P cfg ctx2 am r2;
                ctx3 = ctx2\<lparr>ac_messages := ac_messages ctx2 @ map tool_result_msg results\<rparr>;
                new3 = new2 @ map tool_result_msg results;
                r4 = emit P (TurnEnd (assistant_msg am) results) r3;
                (upd, r5) = (case cfg_prepareNextTurn cfg of
                    None \<Rightarrow> (None, r4)
                  | Some h \<Rightarrow> callHook (h \<lparr>tx_message = am, tx_toolResults = results, tx_context = ctx3,
                                             tx_newMessages = new3\<rparr>) r4);
                (ctx4, cfg') = applyTurnUpdate upd ctx3 cfg;
                (stop, r6) = (case cfg_shouldStopAfterTurn cfg' of
                    None \<Rightarrow> (False, r5)
                  | Some h \<Rightarrow> callHook (h \<lparr>tx_message = am, tx_toolResults = results, tx_context = ctx4,
                                             tx_newMessages = new3\<rparr>) r5)
            in if stop then Finished new3 (emit P (AgentEnd new3) r6)
               else (case pollQueue (cfg_getSteeringMessages cfg') r6 of (pend, r7) \<Rightarrow>
                       Continue \<lparr>ls_context = ctx4, ls_newMessages = new3, ls_config = cfg',
                         ls_firstTurn = False, ls_pending = pend, ls_hasMoreToolCalls = more, ls_run = r7\<rparr>)))"

partial_function (option) turnLoop ::
  "'w ports \<Rightarrow> 'w loop_state \<Rightarrow> (agent_message list \<times> 'w run) option" where
  "turnLoop P s =
     (if ls_hasMoreToolCalls s \<or> ls_pending s \<noteq> []
      then (case turn P s of
              Finished new r \<Rightarrow> Some (new, r)
            | Continue s' \<Rightarrow> turnLoop P s')
      else (case pollQueue (cfg_getFollowUpMessages (ls_config s)) (ls_run s) of (follow, r) \<Rightarrow>
              (if follow \<noteq> []
               then turnLoop P (s\<lparr>ls_pending := follow, ls_hasMoreToolCalls := True, ls_run := r\<rparr>)
               else Some (ls_newMessages s, emit P (AgentEnd (ls_newMessages s)) r))))"

definition runLoop ::
  "'w ports \<Rightarrow> 'w agent_context \<Rightarrow> agent_message list \<Rightarrow> 'w loop_config \<Rightarrow> 'w run \<Rightarrow>
   (agent_message list \<times> 'w run) option" where
  "runLoop P ctx newMessages cfg r =
     (case pollQueue (cfg_getSteeringMessages cfg) r of (pend, r1) \<Rightarrow>
        turnLoop P \<lparr>ls_context = ctx, ls_newMessages = newMessages, ls_config = cfg,
          ls_firstTurn = True, ls_pending = pend, ls_hasMoreToolCalls = True, ls_run = r1\<rparr>)"

definition startRun :: "'w \<Rightarrow> 'w run" where
  "startRun w = \<lparr>r_world = w, r_trace = []\<rparr>"

definition runAgentLoop ::
  "'w ports \<Rightarrow> agent_message list \<Rightarrow> 'w agent_context \<Rightarrow> 'w loop_config \<Rightarrow> 'w \<Rightarrow>
   (agent_message list \<times> 'w run) option" where
  "runAgentLoop P prompts ctx cfg w =
     runLoop P (ctx\<lparr>ac_messages := ac_messages ctx @ prompts\<rparr>) prompts cfg
       (injectPending P prompts (emits P [AgentStart, TurnStart] (startRun w)))"

datatype continue_error = NoMessagesInContext | LastMessageIsAssistant

definition runAgentLoopContinue ::
  "'w ports \<Rightarrow> 'w agent_context \<Rightarrow> 'w loop_config \<Rightarrow> 'w \<Rightarrow>
   continue_error + (agent_message list \<times> 'w run) option" where
  "runAgentLoopContinue P ctx cfg w =
     (if ac_messages ctx = [] then Inl NoMessagesInContext
      else if isAssistant (last (ac_messages ctx)) then Inl LastMessageIsAssistant
      else Inr (runLoop P ctx [] cfg (emits P [AgentStart, TurnStart] (startRun w))))"

end
