(* ===== verification/AgentLoopFacts.thy ===== *)
theory AgentLoopFacts
  imports AgentLoop
begin

text \<open>
  The correctness of the agent loop. The events of a run follow a protocol, an automaton
  over five phases; the messages the run returns are exactly the ones it ends; and every
  tool call that starts ends. The three are one relation \<open>chunk\<close> between the run before
  and after an operation, which composes along the loop.
\<close>

section \<open>The event protocol\<close>

datatype phase = PIdle | PBetween | PTurn | PMessage | PEnded

fun protoStep :: "phase \<Rightarrow> agent_event \<Rightarrow> phase option" where
  "protoStep PIdle AgentStart = Some PBetween"
| "protoStep PBetween TurnStart = Some PTurn"
| "protoStep PBetween (AgentEnd _) = Some PEnded"
| "protoStep PTurn (MessageStart _) = Some PMessage"
| "protoStep PTurn (ToolExecutionStart _ _ _) = Some PTurn"
| "protoStep PTurn (ToolExecutionUpdate _ _ _ _) = Some PTurn"
| "protoStep PTurn (ToolExecutionEnd _ _ _ _) = Some PTurn"
| "protoStep PTurn (TurnEnd _ _) = Some PBetween"
| "protoStep PMessage (MessageUpdate _ _) = Some PMessage"
| "protoStep PMessage (MessageEnd _) = Some PTurn"
| "protoStep _ _ = None"

fun protoRun :: "phase \<Rightarrow> agent_event list \<Rightarrow> phase option" where
  "protoRun p [] = Some p"
| "protoRun p (e # es) = (case protoStep p e of None \<Rightarrow> None | Some q \<Rightarrow> protoRun q es)"

fun messagesEnded :: "agent_event list \<Rightarrow> agent_message list" where
  "messagesEnded [] = []"
| "messagesEnded (MessageEnd m # es) = m # messagesEnded es"
| "messagesEnded (e # es) = messagesEnded es"

text \<open>The ids of the tool calls that have started and not ended.\<close>

fun openCalls :: "jstr set \<Rightarrow> agent_event list \<Rightarrow> jstr set" where
  "openCalls S [] = S"
| "openCalls S (ToolExecutionStart i _ _ # es) = openCalls (insert i S) es"
| "openCalls S (ToolExecutionEnd i _ _ _ # es) = openCalls (S - {i}) es"
| "openCalls S (e # es) = openCalls S es"

lemma protoRun_append:
  "protoRun p (es @ fs) = (case protoRun p es of None \<Rightarrow> None | Some q \<Rightarrow> protoRun q fs)"
  by (induction es arbitrary: p) (auto split: option.splits)

lemma messagesEnded_append: "messagesEnded (es @ fs) = messagesEnded es @ messagesEnded fs"
  by (induction es rule: messagesEnded.induct) auto

lemma openCalls_append: "openCalls S (es @ fs) = openCalls (openCalls S es) fs"
  by (induction S es rule: openCalls.induct) auto

definition chunk ::
  "phase \<Rightarrow> phase \<Rightarrow> agent_message list \<Rightarrow> jstr set \<Rightarrow> jstr set \<Rightarrow> 'w run \<Rightarrow> 'w run \<Rightarrow> bool" where
  "chunk p q ms A B r r' \<longleftrightarrow>
     (\<exists>es. r_trace r' = r_trace r @ es \<and> protoRun p es = Some q \<and> messagesEnded es = ms \<and>
        (\<forall>S. S \<subseteq> A \<longrightarrow> openCalls S es \<subseteq> B))"

lemma chunk_same: "r_trace r' = r_trace r \<Longrightarrow> chunk p p [] A A r r'"
  by (auto simp: chunk_def)

lemma chunk_trans:
  assumes "chunk p q ms A B r r'" "chunk q s ns B C r' r''"
  shows "chunk p s (ms @ ns) A C r r''"
proof -
  from assms(1) obtain es where es: "r_trace r' = r_trace r @ es" "protoRun p es = Some q"
      "messagesEnded es = ms" "\<And>S. S \<subseteq> A \<Longrightarrow> openCalls S es \<subseteq> B"
    unfolding chunk_def by blast
  from assms(2) obtain fs where fs: "r_trace r'' = r_trace r' @ fs" "protoRun q fs = Some s"
      "messagesEnded fs = ns" "\<And>S. S \<subseteq> B \<Longrightarrow> openCalls S fs \<subseteq> C"
    unfolding chunk_def by blast
  have "r_trace r'' = r_trace r @ (es @ fs)" using es(1) fs(1) by simp
  moreover have "protoRun p (es @ fs) = Some s" using es(2) fs(2) by (simp add: protoRun_append)
  moreover have "messagesEnded (es @ fs) = ms @ ns" using es(3) fs(3) by (simp add: messagesEnded_append)
  moreover have "\<forall>S. S \<subseteq> A \<longrightarrow> openCalls S (es @ fs) \<subseteq> C"
    using es(4) fs(4) by (simp add: openCalls_append)
  ultimately show ?thesis unfolding chunk_def by blast
qed

lemma chunk_mono: "chunk p q ms A B r r' \<Longrightarrow> B \<subseteq> B' \<Longrightarrow> chunk p q ms A B' r r'"
  unfolding chunk_def by (elim exE conjE) (intro exI conjI, assumption+, blast)

text \<open>Rules that run a chunk on: after it, without an event, with one event, with a hook.\<close>

lemma chunk_then: "chunk p q ms A B r r' \<Longrightarrow> chunk q s [] B C r' r'' \<Longrightarrow> chunk p s ms A C r r''"
  using chunk_trans [of p q ms A B r r' s "[]" C r''] by simp

lemma chunk_after: "chunk p q [] A B r r' \<Longrightarrow> chunk q s ms B C r' r'' \<Longrightarrow> chunk p s ms A C r r''"
  using chunk_trans [of p q "[]" A B r r' s ms C r''] by simp

lemma chunk_trace_eq: "r_trace r1 = r_trace r2 \<Longrightarrow> chunk p q ms A B r1 r = chunk p q ms A B r2 r"
  by (simp add: chunk_def)

lemma chunk_trace_eq': "r_trace r1 = r_trace r2 \<Longrightarrow> chunk p q ms A B r r1 = chunk p q ms A B r r2"
  by (simp add: chunk_def)

lemma chunk_emit:
  assumes "protoStep p e = Some q" "messagesEnded [e] = ms" "\<And>S. S \<subseteq> A \<Longrightarrow> openCalls S [e] \<subseteq> B"
  shows "chunk p q ms A B r (emit P e r)"
  unfolding chunk_def using assms by (intro exI [of _ "[e]"]) auto

lemma chunk_MessageStart: "chunk PTurn PMessage [] A A r (emit P (MessageStart m) r)"
  and chunk_MessageUpdate: "chunk PMessage PMessage [] A A r (emit P (MessageUpdate m ev) r)"
  and chunk_MessageEnd: "chunk PMessage PTurn [m] A A r (emit P (MessageEnd m) r)"
  and chunk_TurnStart: "chunk PBetween PTurn [] A A r (emit P TurnStart r)"
  and chunk_TurnEnd: "chunk PTurn PBetween [] A A r (emit P (TurnEnd m rs) r)"
  and chunk_AgentEnd: "chunk PBetween PEnded [] A A r (emit P (AgentEnd new) r)"
  and chunk_AgentStart: "chunk PIdle PBetween [] A A r (emit P AgentStart r)"
  by (auto intro!: chunk_emit)

lemma chunk_ToolUpdate: "chunk PTurn PTurn [] A A r (emit P (updateEvent c u) r)"
  by (auto intro!: chunk_emit simp: updateEvent_def)

lemma chunk_ToolStart: "chunk PTurn PTurn [] A (insert (tcl_id c) A) r (emitToolExecutionStart P c r)"
  by (auto intro!: chunk_emit simp: emitToolExecutionStart_def)

lemma chunk_ToolEnd:
  "chunk PTurn PTurn [] A (A - {tcl_id (fc_toolCall f)}) r (emitToolExecutionEnd P f r)"
  by (auto intro!: chunk_emit simp: emitToolExecutionEnd_def)

lemma chunk_updates: "chunk PTurn PTurn [] A A r (emits P (map (updateEvent c) us) r)"
proof (induction us arbitrary: r)
  case Nil
  then show ?case by (simp add: chunk_same)
next
  case (Cons u us)
  show ?case by (simp add: chunk_then [OF chunk_ToolUpdate Cons.IH])
qed

lemma chunk_message:
  "chunk PTurn PTurn [m] A A r (emit P (MessageEnd m) (emit P (MessageStart m) r))"
  by (rule chunk_after [OF chunk_MessageStart chunk_MessageEnd])

lemma chunk_inject: "chunk PTurn PTurn ms A A r (injectPending P ms r)"
proof (induction ms arbitrary: r)
  case Nil
  then show ?case by (simp add: injectPending_def chunk_same)
next
  case (Cons m ms)
  from chunk_trans [OF chunk_message Cons.IH] show ?case by (simp add: injectPending_def)
qed

lemma chunk_reportFinalized:
  "reportFinalized P f r = (m, r') \<Longrightarrow> chunk PTurn PTurn [tool_result_msg m] A A r r'"
  using chunk_message [of "tool_result_msg m" A r P]
  by (auto simp: reportFinalized_def emitToolResultMessage_def Let_def)

lemma reportFinalized_id: "reportFinalized P f r = (m, r') \<Longrightarrow> tr_toolCallId m = tcl_id (fc_toolCall f)"
  by (auto simp: reportFinalized_def createToolResultMessage_def Let_def)

section \<open>Streaming\<close>

text \<open>
  A well-formed response: at most one start event before the final one, which is the
  documented protocol of the stream.
\<close>

fun wfStream :: "bool \<Rightarrow> assistant_event list \<Rightarrow> bool" where
  "wfStream added [] = True"
| "wfStream added (EvStart _ # evs) = (\<not> added \<and> wfStream True evs)"
| "wfStream added (EvBlock _ _ _ # evs) = wfStream added evs"
| "wfStream added (EvDone _ _ # evs) = True"
| "wfStream added (EvError _ _ # evs) = True"

definition streamPhase :: "bool \<Rightarrow> phase" where
  "streamPhase added = (if added then PMessage else PTurn)"

lemma setLast_snoc [simp]: "setLast (xs @ [x]) y = xs @ [y]"
  by (simp add: setLast_def list_update_append)

lemma finishResponse_chunk:
  "finishResponse P final added msgs r = (msgs', r') \<Longrightarrow>
   chunk (streamPhase added) PTurn [assistant_msg final] A A r r'"
  using chunk_message [of "assistant_msg final" A r P] chunk_MessageEnd [of "assistant_msg final" A r P]
  by (auto simp: finishResponse_def streamPhase_def Let_def split: if_splits)

lemma finishResponse_msgs:
  "finishResponse P final added msgs r = (msgs', r') \<Longrightarrow>
   (if added then \<exists>x. msgs = base @ [x] else msgs = base) \<Longrightarrow> msgs' = base @ [assistant_msg final]"
  by (auto simp: finishResponse_def Let_def split: if_splits)

lemma consumeEvents_chunk:
  "consumeEvents P final evs part added msgs r = (msgs', r') \<Longrightarrow> wfStream added evs \<Longrightarrow>
   added = (part \<noteq> None) \<Longrightarrow>
   chunk (streamPhase added) PTurn [assistant_msg final] A A r r'"
proof (induction P final evs part added msgs r rule: consumeEvents.induct)
  case (2 P final p evs part added msgs r)
  have "chunk PTurn PMessage [] A A r (emit P (MessageStart (assistant_msg p)) r)"
    by (rule chunk_MessageStart)
  from chunk_after [OF this] 2 show ?case by (simp add: streamPhase_def)
next
  case (3 P final k i p evs part added msgs r)
  show ?case
  proof (cases part)
    case None
    with 3 show ?thesis by simp
  next
    case (Some q)
    have "chunk PMessage PMessage [] A A r (emit P (MessageUpdate (assistant_msg p) (EvBlock k i p)) r)"
      by (rule chunk_MessageUpdate)
    from chunk_after [OF this] Some 3 show ?thesis by (simp add: streamPhase_def)
  qed
qed (auto dest: finishResponse_chunk)

lemma consumeEvents_msgs:
  "consumeEvents P final evs part added msgs r = (msgs', r') \<Longrightarrow> wfStream added evs \<Longrightarrow>
   added = (part \<noteq> None) \<Longrightarrow>
   (if added then \<exists>x. msgs = base @ [x] else msgs = base) \<Longrightarrow>
   msgs' = base @ [assistant_msg final]"
proof (induction P final evs part added msgs r rule: consumeEvents.induct)
  case (3 P final k i p evs part added msgs r)
  then show ?case by (cases part) auto
qed (auto dest: finishResponse_msgs split: if_splits)

definition wfPorts :: "'w ports \<Rightarrow> bool" where
  "wfPorts P \<longleftrightarrow> (\<forall>m c opts w. wfStream False (fst (fst (pt_stream P m c opts w))))"

lemma wfPortsD: "wfPorts P \<Longrightarrow> pt_stream P m c opts w = ((evs, final), w') \<Longrightarrow> wfStream False evs"
  unfolding wfPorts_def by (metis fst_conv)

lemma streamAssistantResponse_spec:
  assumes "wfPorts P" and run: "streamAssistantResponse P cfg ctx r = (am, ctx', r')"
  shows "chunk PTurn PTurn [assistant_msg am] A A r r'"
    and "ctx' = ctx\<lparr>ac_messages := ac_messages ctx @ [assistant_msg am]\<rparr>"
proof -
  obtain messages r1 where s1: "(case cfg_transformContext cfg of
      None \<Rightarrow> (ac_messages ctx, r) | Some f \<Rightarrow> callHook (f (ac_messages ctx)) r) = (messages, r1)"
    by fastforce
  have t1: "r_trace r1 = r_trace r"
    using s1 by (auto split: option.splits dest: callHook_trace)
  obtain llm r2 where s2: "callHook (cfg_convertToLlm cfg messages) r1 = (llm, r2)" by fastforce
  obtain key r3 where s3: "(case cfg_getApiKey cfg of None \<Rightarrow> (None, r2)
      | Some f \<Rightarrow> callHook (f (md_provider (cfg_model cfg))) r2) = (key, r3)" by fastforce
  have t3: "r_trace r3 = r_trace r2"
    using s3 by (auto split: option.splits dest: callHook_trace)
  let ?c = "\<lparr>lc_systemPrompt = Some (ac_systemPrompt ctx), lc_messages = llm,
             lc_tools = map_option (map tool.truncate) (ac_tools ctx)\<rparr>"
  let ?opts = "\<lparr>ro_reasoning = cfg_reasoning cfg,
     ro_apiKey = (if truthyStr key then key else cfg_apiKey cfg)\<rparr>"
  obtain evs final r4 where s4: "callHook (pt_stream P (cfg_model cfg) ?c ?opts) r3 = ((evs, final), r4)"
    by (metis prod.exhaust)
  obtain msgs r5 where s5: "consumeEvents P final evs None False (ac_messages ctx) r4 = (msgs, r5)"
    by fastforce
  have "(final, ctx\<lparr>ac_messages := msgs\<rparr>, r5) = (am, ctx', r')"
    using run unfolding streamAssistantResponse_def Let_def s1 prod.case s2 s3 s4 s5 .
  then have eq: "am = final" "ctx' = ctx\<lparr>ac_messages := msgs\<rparr>" "r' = r5" by auto
  have wf: "wfStream False evs"
    by (rule wfPortsD [OF assms(1) callHook_result [OF s4]])
  have tr: "r_trace r4 = r_trace r"
    using s2 s4 t1 t3 by (metis callHook_trace)
  have "chunk PTurn PTurn [assistant_msg final] A A r4 r5"
    using consumeEvents_chunk [OF s5 wf] by (simp add: streamPhase_def)
  then show "chunk PTurn PTurn [assistant_msg am] A A r r'"
    using eq tr chunk_trace_eq by metis
  have "msgs = ac_messages ctx @ [assistant_msg final]"
    by (rule consumeEvents_msgs [OF s5 wf]) auto
  then show "ctx' = ctx\<lparr>ac_messages := ac_messages ctx @ [assistant_msg am]\<rparr>"
    using eq by simp
qed

section \<open>Tool calls\<close>

lemma prepareToolCall_trace:
  "prepareToolCall P cfg ctx am c r = (prep, r') \<Longrightarrow> r_trace r' = r_trace r"
  by (auto simp: prepareToolCall_def split: option.splits sum.splits prod.splits if_splits dest: callHook_trace)

lemma prepareToolCall_Prepared:
  "prepareToolCall P cfg ctx am c r = (Prepared c' t args, r') \<Longrightarrow>
   c' = c \<and> findTool ctx (tcl_name c) = Some t \<and> \<not> pt_aborted P (r_world r')"
  by (auto simp: prepareToolCall_def immediateError_def
      split: option.splits sum.splits prod.splits if_splits)

lemma prepareToolCall_Immediate:
  "prepareToolCall P cfg ctx am c r = (Immediate res e, r') \<Longrightarrow>
   e = True \<and> (\<exists>s. res = createErrorToolResult s)"
  by (auto simp: prepareToolCall_def immediateError_def
      split: option.splits sum.splits prod.splits if_splits)

lemma executePreparedToolCall_chunk:
  "executePreparedToolCall P c t args r = (ex, r') \<Longrightarrow> chunk PTurn PTurn [] A A r r'"
proof -
  assume run: "executePreparedToolCall P c t args r = (ex, r')"
  obtain us out r1 where h: "callHook (at_execute t (tcl_id c) args) r = ((us, out), r1)"
    by (metis prod.exhaust)
  with run have "r' = emits P (map (updateEvent c) us) r1"
    by (auto simp: executePreparedToolCall_def)
  with chunk_updates [of A r1 P c us] callHook_trace [OF h] show ?thesis
    using chunk_trace_eq by metis
qed

lemma finalizeExecutedToolCall_spec:
  "finalizeExecutedToolCall P cfg ctx am c args ex r = (f, r') \<Longrightarrow>
   r_trace r' = r_trace r \<and> fc_toolCall f = c"
  by (auto simp: finalizeExecutedToolCall_def
      split: option.splits sum.splits prod.splits dest: callHook_trace)

text \<open>From the start of a call to its result message, whichever way it went.\<close>

lemma chunk_call_end:
  assumes "chunk PTurn PTurn [] (insert (tcl_id (fc_toolCall f)) A) (insert (tcl_id (fc_toolCall f)) A) r1 r2"
  shows "chunk PTurn PTurn [] (insert (tcl_id (fc_toolCall f)) A) A r1 (emitToolExecutionEnd P f r2)"
  by (rule chunk_mono [OF chunk_then [OF assms chunk_ToolEnd]]) auto

lemma failToolCalls_spec:
  "failToolCalls P cs r = (ms, r') \<Longrightarrow>
   chunk PTurn PTurn (map tool_result_msg ms) A A r r' \<and>
   map tr_toolCallId ms = map tcl_id cs \<and> (\<forall>m \<in> set ms. tr_isError m)"
proof (induction P cs r arbitrary: ms r' rule: failToolCalls.induct)
  case (1 P r)
  then show ?case by (auto intro: chunk_same)
next
  case (2 P c cs r)
  let ?f = "\<lparr>fc_toolCall = c, fc_result = createErrorToolResult (truncatedCallText c), fc_isError = True\<rparr>"
  obtain m r1 where rep: "reportFinalized P ?f (emitToolExecutionEnd P ?f (emitToolExecutionStart P c r)) = (m, r1)"
    by fastforce
  obtain ms' r2 where rest: "failToolCalls P cs r1 = (ms', r2)" by fastforce
  have out: "ms = m # ms'" "r' = r2" using "2.prems" rep rest by simp_all
  note IH = "2.IH" [OF refl rep [symmetric] refl rest]
  have "chunk PTurn PTurn [] A A r (emitToolExecutionEnd P ?f (emitToolExecutionStart P c r))"
    by (rule chunk_then [OF chunk_ToolStart, OF chunk_call_end [of ?f, simplified]], rule chunk_same) simp
  from chunk_after [OF this chunk_reportFinalized [OF rep]]
  have "chunk PTurn PTurn [tool_result_msg m] A A r r1" .
  from chunk_trans [OF this conjunct1 [OF IH]] have "chunk PTurn PTurn (map tool_result_msg ms) A A r r'"
    by (simp add: out)
  moreover have "tr_isError m" "tr_toolCallId m = tcl_id c"
    using rep by (auto simp: reportFinalized_def createToolResultMessage_def Let_def)
  ultimately show ?case using IH out by auto
qed

lemma sequentialCalls_spec:
  "sequentialCalls P cfg ctx am cs r = (fms, r') \<Longrightarrow>
   chunk PTurn PTurn (map (tool_result_msg \<circ> snd) fms) A A r r' \<and>
   prefix (map (fc_toolCall \<circ> fst) fms) cs \<and>
   ((\<forall>w. \<not> pt_aborted P w) \<longrightarrow> map (fc_toolCall \<circ> fst) fms = cs) \<and>
   (\<forall>(f, m) \<in> set fms. tr_toolCallId m = tcl_id (fc_toolCall f))"
proof (induction P cfg ctx am cs r arbitrary: fms r' rule: sequentialCalls.induct)
  case (1 P cfg ctx am r)
  then show ?case by (auto intro: chunk_same)
next
  case (2 P cfg ctx am c cs r)
  obtain prep r1 where p: "prepareToolCall P cfg ctx am c (emitToolExecutionStart P c r) = (prep, r1)"
    by fastforce
  obtain f r2 where f: "(case prep of
              Immediate res e \<Rightarrow> (\<lparr>fc_toolCall = c, fc_result = res, fc_isError = e\<rparr>, r1)
            | Prepared c' t args \<Rightarrow>
                (case executePreparedToolCall P c' t args r1 of
                   (executed, r') \<Rightarrow> finalizeExecutedToolCall P cfg ctx am c' args executed r')) = (f, r2)"
    by fastforce
  obtain m r3 where rep: "reportFinalized P f (emitToolExecutionEnd P f r2) = (m, r3)" by fastforce
  have fc: "fc_toolCall f = c"
    and mid: "chunk PTurn PTurn [] (insert (tcl_id c) A) (insert (tcl_id c) A) r1 r2"
  proof -
    show "fc_toolCall f = c"
    proof (cases prep)
      case (Prepared c' t args)
      with p have "c' = c" by (auto dest: prepareToolCall_Prepared)
      with Prepared f show ?thesis by (auto split: prod.splits dest: finalizeExecutedToolCall_spec)
    qed (use f in auto)
    show "chunk PTurn PTurn [] (insert (tcl_id c) A) (insert (tcl_id c) A) r1 r2"
    proof (cases prep)
      case (Immediate res e)
      with f show ?thesis by (auto intro: chunk_same)
    next
      case (Prepared c' t args)
      obtain ex r'' where ex: "executePreparedToolCall P c' t args r1 = (ex, r'')" by fastforce
      with Prepared f have "r_trace r2 = r_trace r''"
        by (auto dest: finalizeExecutedToolCall_spec)
      with executePreparedToolCall_chunk [OF ex] show ?thesis
        using chunk_trace_eq' by metis
    qed
  qed
  have "chunk PTurn PTurn [] A (insert (tcl_id c) A) r r1"
    using chunk_ToolStart [of A c r P] prepareToolCall_trace [OF p] chunk_trace_eq' by metis
  from chunk_then [OF this chunk_call_end [of f A r1 r2 P, unfolded fc, OF mid]]
  have "chunk PTurn PTurn [] A A r (emitToolExecutionEnd P f r2)" .
  from chunk_after [OF this chunk_reportFinalized [OF rep]]
  have head: "chunk PTurn PTurn [tool_result_msg m] A A r r3" .
  have id: "tr_toolCallId m = tcl_id c" using reportFinalized_id [OF rep] fc by simp
  show ?case
  proof (cases "pt_aborted P (r_world r3)")
    case True
    then have "fms = [(f, m)]" "r' = r3" using "2.prems" by (simp_all add: p f rep)
    with head id fc True show ?thesis by auto
  next
    case False
    obtain fms' r4 where rest: "sequentialCalls P cfg ctx am cs r3 = (fms', r4)" by fastforce
    with False have out: "fms = (f, m) # fms'" "r' = r4" using "2.prems" by (simp_all add: p f rep)
    note IH = "2.IH" [OF p [symmetric] refl f [symmetric] refl rep [symmetric] refl False rest]
    from chunk_trans [OF head conjunct1 [OF IH]] IH out id fc show ?thesis by auto
  qed
qed

subsection \<open>Concurrent batches\<close>

fun entryIds :: "'w call_entry \<Rightarrow> jstr set" where
  "entryIds (Settled f) = {}"
| "entryIds (Waiting c t args) = {tcl_id c}"
| "entryIds (Running c args us out) = {tcl_id c}"

fun entryCall :: "'w call_entry \<Rightarrow> tool_call" where
  "entryCall (Settled f) = fc_toolCall f"
| "entryCall (Waiting c t args) = c"
| "entryCall (Running c args us out) = c"

definition openIds :: "'w call_entry list \<Rightarrow> jstr set" where
  "openIds ens = (\<Union>en \<in> set ens. entryIds en)"

lemma openIds_simps [simp]:
  "openIds [] = {}" "openIds (en # ens) = entryIds en \<union> openIds ens"
  by (simp_all add: openIds_def)

lemma openIds_update:
  assumes "i < length ens"
  shows "openIds ens - (entryIds (ens ! i) - entryIds en) \<subseteq> openIds (ens[i := en])"
proof
  fix x assume x: "x \<in> openIds ens - (entryIds (ens ! i) - entryIds en)"
  then obtain j where j: "j < length ens" "x \<in> entryIds (ens ! j)"
    by (auto simp: openIds_def in_set_conv_nth)
  have "x \<in> entryIds (ens[i := en] ! j)"
    using x j assms by (cases "i = j") auto
  moreover have "ens[i := en] ! j \<in> set (ens[i := en])" using j(1) by (intro nth_mem) simp
  ultimately show "x \<in> openIds (ens[i := en])" unfolding openIds_def by blast
qed

lemma parallelPreflight_spec:
  "parallelPreflight P cfg ctx am cs r = (ens, r') \<Longrightarrow>
   chunk PTurn PTurn [] A (A \<union> openIds ens) r r' \<and>
   prefix (map entryCall ens) cs \<and>
   ((\<forall>w. \<not> pt_aborted P w) \<longrightarrow> map entryCall ens = cs)"
proof (induction P cfg ctx am cs r arbitrary: ens r' A rule: parallelPreflight.induct)
  case (1 P cfg ctx am r)
  then show ?case by (auto intro: chunk_same)
next
  case (2 P cfg ctx am c cs r)
  obtain prep r1 where p: "prepareToolCall P cfg ctx am c (emitToolExecutionStart P c r) = (prep, r1)"
    by fastforce
  obtain en r2 where en: "(case prep of
              Immediate res e \<Rightarrow>
                (let f = \<lparr>fc_toolCall = c, fc_result = res, fc_isError = e\<rparr>
                 in (Settled f, emitToolExecutionEnd P f r1))
            | Prepared c' t args \<Rightarrow> (Waiting c' t args, r1)) = (en, r2)"
    by fastforce
  have start: "chunk PTurn PTurn [] A (insert (tcl_id c) A) r r1"
    using chunk_ToolStart [of A c r P] prepareToolCall_trace [OF p] chunk_trace_eq' by metis
  have head: "chunk PTurn PTurn [] A (A \<union> entryIds en) r r2 \<and> entryCall en = c"
  proof (cases prep)
    case (Immediate res e)
    let ?f = "\<lparr>fc_toolCall = c, fc_result = res, fc_isError = e\<rparr>"
    have "en = Settled ?f" "r2 = emitToolExecutionEnd P ?f r1"
      using en Immediate by (simp_all add: Let_def)
    then show ?thesis
      using chunk_then [OF start chunk_call_end [of ?f A r1 r1 P, simplified, OF chunk_same]] by simp
  next
    case (Prepared c' t args)
    with p have "c' = c" by (auto dest: prepareToolCall_Prepared)
    with Prepared en start show ?thesis by auto
  qed
  show ?case
  proof (cases "pt_aborted P (r_world r2)")
    case True
    then have "ens = [en]" "r' = r2" using "2.prems" by (simp_all add: p en)
    with head True show ?thesis by auto
  next
    case False
    obtain ens' r3 where rest: "parallelPreflight P cfg ctx am cs r2 = (ens', r3)" by fastforce
    with False have out: "ens = en # ens'" "r' = r3" using "2.prems" by (simp_all add: p en)
    note IH = "2.IH" [OF p [symmetric] refl en [symmetric] refl False rest]
    have "chunk PTurn PTurn [] A (A \<union> entryIds en \<union> openIds ens') r r3"
      by (rule chunk_then [OF conjunct1 [OF head] conjunct1 [OF IH]])
    with IH head out show ?thesis by (auto simp: Un_assoc)
  qed
qed

lemma stepEntry_spec:
  "stepEntry P cfg ctx am en r = (en', r') \<Longrightarrow>
   chunk PTurn PTurn [] B (B - (entryIds en - entryIds en')) r r' \<and> entryCall en' = entryCall en"
proof (induction P cfg ctx am en r rule: stepEntry.induct)
  case (1 P cfg ctx am f r)
  then show ?case by (auto intro: chunk_same)
next
  case (2 P cfg ctx am c t args r)
  then show ?case by (auto split: prod.splits intro!: chunk_same dest: callHook_trace)
next
  case (3 P cfg ctx am c args u us out r)
  then show ?case by (auto intro: chunk_ToolUpdate)
next
  case (4 P cfg ctx am c args out r)
  obtain f r1 where f: "finalizeExecutedToolCall P cfg ctx am c args (executedOutcome out) r = (f, r1)"
    by fastforce
  then have "en' = Settled f" "r' = emitToolExecutionEnd P f r1" using 4 by simp_all
  moreover have "fc_toolCall f = c" "r_trace r1 = r_trace r"
    using finalizeExecutedToolCall_spec [OF f] by simp_all
  ultimately show ?case
    using chunk_ToolEnd [of B f r1 P] chunk_trace_eq [of r1 r] by simp
qed

lemma runSchedule_spec:
  "runSchedule P cfg ctx am is ens r = (ens', r') \<Longrightarrow>
   chunk PTurn PTurn [] (openIds ens) (openIds ens') r r' \<and> map entryCall ens' = map entryCall ens"
proof (induction P cfg ctx am "is" ens r arbitrary: ens' r' rule: runSchedule.induct)
  case (1 P cfg ctx am ens r)
  then show ?case by (auto intro: chunk_same)
next
  case (2 P cfg ctx am i "is" ens r)
  show ?case
  proof (cases "i < length ens")
    case True
    obtain en r1 where st: "stepEntry P cfg ctx am (ens ! i) r = (en, r1)" by fastforce
    with True "2.prems" have rest: "runSchedule P cfg ctx am is (ens[i := en]) r1 = (ens', r')" by simp
    note IH = "2.IH" (1) [OF True st [symmetric] rest]
    have "chunk PTurn PTurn [] (openIds ens) (openIds (ens[i := en])) r r1"
      using stepEntry_spec [OF st] openIds_update [OF True] by (blast intro: chunk_mono)
    from chunk_then [OF this conjunct1 [OF IH]] IH stepEntry_spec [OF st] True show ?thesis
      by (auto simp: map_update list_update_same_conv)
  next
    case False
    with 2 show ?thesis by simp
  qed
qed

lemma settleEntry_spec:
  "settleEntry P cfg ctx am en r = (f, r') \<Longrightarrow>
   chunk PTurn PTurn [] B (B - entryIds en) r r' \<and> fc_toolCall f = entryCall en"
proof (induction P cfg ctx am en r rule: settleEntry.induct)
  case (1 P cfg ctx am f r)
  then show ?case by (auto intro: chunk_same)
next
  case (2 P cfg ctx am c t args r)
  obtain ex r1 where ex: "executePreparedToolCall P c t args r = (ex, r1)" by fastforce
  obtain g r2 where g: "finalizeExecutedToolCall P cfg ctx am c args ex r1 = (g, r2)" by fastforce
  have out: "f = g" "r' = emitToolExecutionEnd P g r2" using 2 ex g by auto
  have g2: "r_trace r2 = r_trace r1" "fc_toolCall g = c"
    using finalizeExecutedToolCall_spec [OF g] by simp_all
  have "chunk PTurn PTurn [] B B r r2"
    using executePreparedToolCall_chunk [OF ex] chunk_trace_eq' [OF g2(1)] by blast
  from chunk_then [OF this chunk_ToolEnd [of B g r2 P]] g2 out show ?case by simp
next
  case (3 P cfg ctx am c args us out r)
  obtain g r2 where g: "finalizeExecutedToolCall P cfg ctx am c args (executedOutcome out)
      (emits P (map (updateEvent c) us) r) = (g, r2)" by fastforce
  have eq: "f = g" "r' = emitToolExecutionEnd P g r2" using 3 g by auto
  have g2: "r_trace r2 = r_trace (emits P (map (updateEvent c) us) r)" "fc_toolCall g = c"
    using finalizeExecutedToolCall_spec [OF g] by simp_all
  have "chunk PTurn PTurn [] B B r r2"
    using chunk_updates chunk_trace_eq' [OF g2(1)] by blast
  from chunk_then [OF this chunk_ToolEnd [of B g r2 P]] g2 eq show ?case by simp
qed

lemma settleAll_spec:
  "settleAll P cfg ctx am ens r = (fs, r') \<Longrightarrow>
   chunk PTurn PTurn [] B (B - openIds ens) r r' \<and> map fc_toolCall fs = map entryCall ens"
proof (induction ens arbitrary: fs r r' B)
  case Nil
  then show ?case by (auto intro: chunk_same)
next
  case (Cons en ens)
  obtain f r1 where f: "settleEntry P cfg ctx am en r = (f, r1)" by fastforce
  obtain fs' r2 where fs: "settleAll P cfg ctx am ens r1 = (fs', r2)" by fastforce
  have out: "fs = f # fs'" "r' = r2" using Cons.prems f fs by simp_all
  note IH = Cons.IH [OF fs]
  have "chunk PTurn PTurn [] B (B - entryIds en - openIds ens) r r2"
    by (rule chunk_then [OF conjunct1 [OF settleEntry_spec [OF f]] conjunct1 [OF IH]])
  with IH settleEntry_spec [OF f] out show ?case by (simp add: Diff_eq Int_assoc)
qed

lemma reportAll_spec:
  "reportAll P fs r = (ms, r') \<Longrightarrow>
   chunk PTurn PTurn (map tool_result_msg ms) A A r r' \<and>
   map tr_toolCallId ms = map (tcl_id \<circ> fc_toolCall) fs"
proof (induction fs arbitrary: ms r r')
  case Nil
  then show ?case by (auto intro: chunk_same)
next
  case (Cons f fs)
  obtain m r1 where m: "reportFinalized P f r = (m, r1)" by fastforce
  obtain ms' r2 where ms: "reportAll P fs r1 = (ms', r2)" by fastforce
  have out: "ms = m # ms'" "r' = r2" using Cons.prems m ms by simp_all
  from chunk_trans [OF chunk_reportFinalized [OF m] conjunct1 [OF Cons.IH [OF ms]]]
    Cons.IH [OF ms] reportFinalized_id [OF m] out
  show ?case by simp
qed

lemma executeToolCallsParallel_spec:
  assumes "executeToolCallsParallel P cfg ctx am cs r = (b, r')"
  shows "chunk PTurn PTurn (map tool_result_msg (tb_messages b)) {} {} r r'"
    and "prefix (map tr_toolCallId (tb_messages b)) (map tcl_id cs)"
    and "(\<forall>w. \<not> pt_aborted P w) \<Longrightarrow> map tr_toolCallId (tb_messages b) = map tcl_id cs"
proof -
  obtain ens r1 where a: "parallelPreflight P cfg ctx am cs r = (ens, r1)" by fastforce
  obtain ens' r2 where b: "runSchedule P cfg ctx am (pt_schedule P (r_world r1)) ens r1 = (ens', r2)"
    by fastforce
  obtain fs r3 where c: "settleAll P cfg ctx am ens' r2 = (fs, r3)" by fastforce
  obtain ms r4 where d: "reportAll P fs r3 = (ms, r4)" by fastforce
  have out: "tb_messages b = ms" "r' = r4"
    using assms by (auto simp: executeToolCallsParallel_def a b c d)
  note A = parallelPreflight_spec [OF a, of "{}"] and B = runSchedule_spec [OF b]
    and C = settleAll_spec [OF c, of "openIds ens'"] and D = reportAll_spec [OF d, of "{}"]
  have "chunk PTurn PTurn [] {} (openIds ens) r r1" using A by simp
  from chunk_then [OF chunk_then [OF this conjunct1 [OF B]] conjunct1 [OF C]]
  have "chunk PTurn PTurn [] {} {} r r3" by simp
  from chunk_after [OF this conjunct1 [OF D]] out
  show "chunk PTurn PTurn (map tool_result_msg (tb_messages b)) {} {} r r'" by simp
  have ids: "map tr_toolCallId (tb_messages b) = map tcl_id (map entryCall ens)"
    using B C D out by (metis map_map)
  show "prefix (map tr_toolCallId (tb_messages b)) (map tcl_id cs)"
    using A unfolding ids by (blast intro: map_mono_prefix)
  show "map tr_toolCallId (tb_messages b) = map tcl_id cs" if "\<forall>w. \<not> pt_aborted P w"
    using A that unfolding ids by simp
qed

section \<open>One turn\<close>

lemma executeToolCallsSequential_spec:
  assumes "executeToolCallsSequential P cfg ctx am cs r = (b, r')"
  shows "chunk PTurn PTurn (map tool_result_msg (tb_messages b)) A A r r'"
    and "prefix (map tr_toolCallId (tb_messages b)) (map tcl_id cs)"
    and "(\<forall>w. \<not> pt_aborted P w) \<Longrightarrow> map tr_toolCallId (tb_messages b) = map tcl_id cs"
proof -
  obtain fms r1 where a: "sequentialCalls P cfg ctx am cs r = (fms, r1)" by fastforce
  have out: "tb_messages b = map snd fms" "r' = r1"
    using assms by (auto simp: executeToolCallsSequential_def a)
  note A = sequentialCalls_spec [OF a]
  have "map tr_toolCallId (map snd fms) = map tcl_id (map (fc_toolCall \<circ> fst) fms)"
    using A [of "{}"] by (auto dest!: bspec)
  with A out show "prefix (map tr_toolCallId (tb_messages b)) (map tcl_id cs)"
    and "(\<forall>w. \<not> pt_aborted P w) \<Longrightarrow> map tr_toolCallId (tb_messages b) = map tcl_id cs"
    by (metis map_mono_prefix)+
  show "chunk PTurn PTurn (map tool_result_msg (tb_messages b)) A A r r'"
    using A out by (simp add: comp_def)
qed

lemma executeToolCalls_spec:
  assumes "executeToolCalls P cfg ctx am r = (b, r')"
  shows "chunk PTurn PTurn (map tool_result_msg (tb_messages b)) {} {} r r'"
    and "prefix (map tr_toolCallId (tb_messages b)) (map tcl_id (toolCallsOf (am_content am)))"
    and "(\<forall>w. \<not> pt_aborted P w) \<Longrightarrow>
         map tr_toolCallId (tb_messages b) = map tcl_id (toolCallsOf (am_content am))"
  using assms unfolding executeToolCalls_def Let_def
  by (auto split: if_splits dest: executeToolCallsSequential_spec executeToolCallsParallel_spec)

lemma runToolCalls_spec:
  assumes "runToolCalls P cfg ctx am r = (results, again, r')"
  shows "chunk PTurn PTurn (map tool_result_msg results) {} {} r r'"
    and "prefix (map tr_toolCallId results) (map tcl_id (toolCallsOf (am_content am)))"
    and "(\<forall>w. \<not> pt_aborted P w) \<Longrightarrow>
         map tr_toolCallId results = map tcl_id (toolCallsOf (am_content am))"
    and "again \<Longrightarrow> toolCallsOf (am_content am) \<noteq> []"
proof -
  let ?cs = "toolCallsOf (am_content am)"
  show "again \<Longrightarrow> ?cs \<noteq> []" using assms by (auto simp: runToolCalls_def)
  show "chunk PTurn PTurn (map tool_result_msg results) {} {} r r'"
    and "prefix (map tr_toolCallId results) (map tcl_id ?cs)"
    and "(\<forall>w. \<not> pt_aborted P w) \<Longrightarrow> map tr_toolCallId results = map tcl_id ?cs"
    using assms
    by (auto simp: runToolCalls_def failToolCallsFromTruncatedMessage_def Let_def
        split: if_splits prod.splits dest: failToolCalls_spec executeToolCalls_spec intro: chunk_same)
qed

definition startPhase :: "'w loop_state \<Rightarrow> phase" where
  "startPhase s = (if ls_firstTurn s then PTurn else PBetween)"

definition ranOn :: "'w loop_state \<Rightarrow> phase \<Rightarrow> agent_message list \<Rightarrow> 'w run \<Rightarrow> bool" where
  "ranOn s q new r \<longleftrightarrow>
     (\<exists>ms. new = ls_newMessages s @ ms \<and> chunk (startPhase s) q ms {} {} (ls_run s) r)"

lemma pollQueue_trace: "pollQueue q r = (ms, r') \<Longrightarrow> r_trace r' = r_trace r"
  by (auto simp: pollQueue_def split: option.splits dest: callHook_trace)

lemma ranOn_trace: "r_trace r = r_trace r' \<Longrightarrow> ranOn s q new r = ranOn s q new r'"
  unfolding ranOn_def using chunk_trace_eq' by metis

lemma ranOn_then: "ranOn s p new r \<Longrightarrow> chunk p q [] {} {} r r' \<Longrightarrow> ranOn s q new r'"
  unfolding ranOn_def by (metis chunk_then)

lemma ranOn_more: "ranOn s p new r \<Longrightarrow> chunk p q ms {} {} r r' \<Longrightarrow> ranOn s q (new @ ms) r'"
  unfolding ranOn_def by (metis chunk_trans append.assoc)

text \<open>
  The state after the tool part of a turn: the events so far, and what the turn has
  appended to the context and to the run's messages.
\<close>

lemma turn_Finished_or_Continue:
  assumes "wfPorts P"
  shows "case turn P s of
      Finished new r \<Rightarrow> ranOn s PEnded new r \<and> last (r_trace r) = AgentEnd new
    | Continue s' \<Rightarrow> ranOn s PBetween (ls_newMessages s') (ls_run s') \<and> \<not> ls_firstTurn s' \<and>
        (cfg_prepareNextTurn (ls_config s) = None \<longrightarrow>
           (\<exists>ms. ls_newMessages s' = ls_newMessages s @ ms \<and>
              ls_context s' = (ls_context s)\<lparr>ac_messages := ac_messages (ls_context s) @ ms\<rparr>))"
proof -
  let ?cfg = "ls_config s"
  let ?r0 = "if ls_firstTurn s then ls_run s else emit P TurnStart (ls_run s)"
  let ?r1 = "injectPending P (ls_pending s) ?r0"
  let ?ctx1 = "(ls_context s)\<lparr>ac_messages := ac_messages (ls_context s) @ ls_pending s\<rparr>"
  obtain am ctx2 r2 where str: "streamAssistantResponse P ?cfg ?ctx1 ?r1 = (am, ctx2, r2)"
    by (metis prod.exhaust)
  let ?new2 = "(ls_newMessages s @ ls_pending s) @ [assistant_msg am]"
  note str' = streamAssistantResponse_spec [OF assms str]
  have "chunk (startPhase s) PTurn [] {} {} (ls_run s) ?r0"
    by (auto simp: startPhase_def intro: chunk_same chunk_TurnStart)
  from chunk_trans [OF chunk_after [OF this chunk_inject] str'(1)]
  have upto: "ranOn s PTurn ?new2 r2" by (auto simp: ranOn_def)
  show ?thesis
  proof (cases "am_stopReason am = SR_error \<or> am_stopReason am = SR_aborted")
    case True
    let ?r = "emit P (AgentEnd ?new2) (emit P (TurnEnd (assistant_msg am) []) r2)"
    have "turn P s = Finished ?new2 ?r"
      using True unfolding turn_def Let_def str prod.case by simp
    moreover have "ranOn s PEnded ?new2 ?r"
      by (rule ranOn_then [OF ranOn_then [OF upto chunk_TurnEnd] chunk_AgentEnd])
    ultimately show ?thesis by simp
  next
    case False
    obtain results again r3 where tc: "runToolCalls P ?cfg ctx2 am r2 = (results, again, r3)"
      by (metis prod.exhaust)
    let ?ctx3 = "ctx2\<lparr>ac_messages := ac_messages ctx2 @ map tool_result_msg results\<rparr>"
    let ?new3 = "?new2 @ map tool_result_msg results"
    let ?r4 = "emit P (TurnEnd (assistant_msg am) results) r3"
    have r4: "ranOn s PBetween ?new3 ?r4"
      by (rule ranOn_then [OF ranOn_more [OF upto runToolCalls_spec(1) [OF tc]] chunk_TurnEnd])
    obtain upd r5 where up: "(case cfg_prepareNextTurn ?cfg of None \<Rightarrow> (None, ?r4)
        | Some h \<Rightarrow> callHook (h \<lparr>tx_message = am, tx_toolResults = results, tx_context = ?ctx3,
                                   tx_newMessages = ?new3\<rparr>) ?r4) = (upd, r5)" by fastforce
    obtain ctx4 cfg' where ap: "applyTurnUpdate upd ?ctx3 ?cfg = (ctx4, cfg')" by fastforce
    obtain stop r6 where sh: "(case cfg_shouldStopAfterTurn cfg' of None \<Rightarrow> (False, r5)
        | Some h \<Rightarrow> callHook (h \<lparr>tx_message = am, tx_toolResults = results, tx_context = ctx4,
                                   tx_newMessages = ?new3\<rparr>) r5) = (stop, r6)" by fastforce
    obtain pend r7 where po: "pollQueue (cfg_getSteeringMessages cfg') r6 = (pend, r7)" by fastforce
    have t: "r_trace r5 = r_trace ?r4" "r_trace r6 = r_trace r5" "r_trace r7 = r_trace r6"
      using up sh pollQueue_trace [OF po] by (auto split: option.splits dest: callHook_trace)
    have turn: "turn P s = (if stop then Finished ?new3 (emit P (AgentEnd ?new3) r6)
       else Continue \<lparr>ls_context = ctx4, ls_newMessages = ?new3, ls_config = cfg',
          ls_firstTurn = False, ls_pending = pend, ls_hasMoreToolCalls = again, ls_run = r7\<rparr>)"
      using False unfolding turn_def Let_def str prod.case if_not_P [OF False] tc up ap sh po by simp
    have ran: "ranOn s PBetween ?new3 r6" "ranOn s PBetween ?new3 r7"
      using r4 t ranOn_trace by metis+
    show ?thesis
    proof (cases stop)
      case True
      from ranOn_then [OF ran(1) chunk_AgentEnd] show ?thesis unfolding turn using True by simp
    next
      case False
      have "ctx4 = (ls_context s)\<lparr>ac_messages := ac_messages (ls_context s) @
          (ls_pending s @ [assistant_msg am] @ map tool_result_msg results)\<rparr>"
        if "cfg_prepareNextTurn ?cfg = None"
        using that up ap str'(2) by (auto simp: applyTurnUpdate_def)
      with False ran(2) show ?thesis unfolding turn by auto
    qed
  qed
qed

section \<open>The whole run\<close>

lemma turnLoop_ranOn:
  assumes "wfPorts P" and "turnLoop P s = Some (new, r)" and "ls_firstTurn s \<longrightarrow> ls_hasMoreToolCalls s"
  shows "ranOn s PEnded new r \<and> last (r_trace r) = AgentEnd new"
proof -
  let ?Q = "\<lambda>s nr. (ls_firstTurn s \<longrightarrow> ls_hasMoreToolCalls s) \<longrightarrow>
      ranOn s PEnded (fst nr) (snd nr) \<and> last (r_trace (snd nr)) = AgentEnd (fst nr)"
  have body: "?Q s nr"
    if IH: "\<And>s nr. loop s = Some nr \<Longrightarrow> ?Q s nr"
      and eq: "(if ls_hasMoreToolCalls s \<or> ls_pending s \<noteq> []
        then case turn P s of Finished new r \<Rightarrow> Some (new, r) | Continue s' \<Rightarrow> loop s'
        else case pollQueue (cfg_getFollowUpMessages (ls_config s)) (ls_run s) of (follow, r) \<Rightarrow>
          if follow \<noteq> [] then loop (s\<lparr>ls_pending := follow, ls_hasMoreToolCalls := True, ls_run := r\<rparr>)
          else Some (ls_newMessages s, emit P (AgentEnd (ls_newMessages s)) r)) = Some nr"
    for loop :: "'a loop_state \<Rightarrow> (agent_message list \<times> 'a run) option" and s nr
    proof (rule impI)
      assume first: "ls_firstTurn s \<longrightarrow> ls_hasMoreToolCalls s"
    show "ranOn s PEnded (fst nr) (snd nr) \<and> last (r_trace (snd nr)) = AgentEnd (fst nr)"
    proof (cases "ls_hasMoreToolCalls s \<or> ls_pending s \<noteq> []")
      case True
      show ?thesis
      proof (cases "turn P s")
        case (Finished new r)
        with True eq turn_Finished_or_Continue [OF assms(1), of s] show ?thesis by auto
      next
        case (Continue s')
        note step = turn_Finished_or_Continue [OF assms(1), of s, unfolded Continue, simplified]
        have "loop s' = Some nr" using True eq Continue by simp
        with IH step have rest: "ranOn s' PEnded (fst nr) (snd nr)" "last (r_trace (snd nr)) = AgentEnd (fst nr)"
          by blast+
        have "startPhase s' = PBetween" using step by (simp add: startPhase_def)
        with rest(1) obtain ms where ms: "fst nr = ls_newMessages s' @ ms"
            "chunk PBetween PEnded ms {} {} (ls_run s') (snd nr)"
          unfolding ranOn_def by auto
        from step ranOn_more [of s PBetween "ls_newMessages s'" "ls_run s'" PEnded ms "snd nr"] ms rest(2)
        show ?thesis by simp
      qed
    next
      case False
      obtain follow r where po: "pollQueue (cfg_getFollowUpMessages (ls_config s)) (ls_run s) = (follow, r)"
        by fastforce
      note t = pollQueue_trace [OF po]
      show ?thesis
      proof (cases "follow = []")
        case True
        have "startPhase s = PBetween" using False first by (simp add: startPhase_def)
        moreover have "nr = (ls_newMessages s, emit P (AgentEnd (ls_newMessages s)) r)"
          using eq False True po by simp
        moreover have "chunk PBetween PEnded [] {} {} (ls_run s) (emit P (AgentEnd (ls_newMessages s)) r)"
          using chunk_AgentEnd chunk_trace_eq [OF t] by metis
        ultimately show ?thesis by (simp add: ranOn_def)
      next
        case nonempty: False
        let ?s = "s\<lparr>ls_pending := follow, ls_hasMoreToolCalls := True, ls_run := r\<rparr>"
        have "loop ?s = Some nr" using eq False nonempty po by simp
        with IH have "ranOn ?s PEnded (fst nr) (snd nr) \<and> last (r_trace (snd nr)) = AgentEnd (fst nr)"
          by fastforce
        moreover have "ranOn ?s PEnded (fst nr) (snd nr) = ranOn s PEnded (fst nr) (snd nr)"
          by (simp add: ranOn_def startPhase_def chunk_trace_eq [OF t])
        ultimately show ?thesis by simp
      qed
    qed
    qed
  have "(\<lambda>(P', s) nr. P' = P \<longrightarrow> ?Q s nr) (P, s) (new, r)"
  proof (rule turnLoop.raw_induct [where Pa = "\<lambda>(P', s) nr. P' = P \<longrightarrow> ?Q s nr", OF _ assms(2)], goal_cases)
    case (1 loop P' s nr)
    have "?Q s nr" if "P' = P"
    proof (rule body)
      show "?Q s nr" if "loop P s = Some nr" for s nr
        using 1(1) [OF that] by simp
    qed (use 1(2) in \<open>simp only: that\<close>)
    then show ?case by simp
  qed
  with assms(3) show ?thesis by simp
qed

lemma runAgentLoop_chunk:
  assumes "wfPorts P" and "runAgentLoop P prompts ctx cfg w = Some (new, r)"
  shows "chunk PIdle PEnded new {} {} (startRun w) r" and "last (r_trace r) = AgentEnd new"
    and "prefix prompts new"
proof -
  let ?r = "emits P [AgentStart, TurnStart] (startRun w)"
  obtain pend r1 where po: "pollQueue (cfg_getSteeringMessages cfg) (injectPending P prompts ?r) = (pend, r1)"
    by fastforce
  let ?s = "\<lparr>ls_context = ctx\<lparr>ac_messages := ac_messages ctx @ prompts\<rparr>, ls_newMessages = prompts,
      ls_config = cfg, ls_firstTurn = True, ls_pending = pend, ls_hasMoreToolCalls = True, ls_run = r1\<rparr>"
  have "turnLoop P ?s = Some (new, r)"
    using assms(2) po by (simp add: runAgentLoop_def runLoop_def)
  from turnLoop_ranOn [OF assms(1) this]
  have on: "ranOn ?s PEnded new r" and l: "last (r_trace r) = AgentEnd new" by simp_all
  from on obtain ms where new: "new = prompts @ ms" and c: "chunk PTurn PEnded ms {} {} r1 r"
    by (auto simp: ranOn_def startPhase_def)
  have "chunk PIdle PTurn [] {} {} (startRun w) ?r"
    by (auto simp: chunk_def)
  from chunk_after [OF this chunk_inject [of prompts "{}" ?r P]]
  have "chunk PIdle PTurn prompts {} {} (startRun w) r1"
    using chunk_trace_eq' [OF pollQueue_trace [OF po]] by metis
  from chunk_trans [OF this c] new show "chunk PIdle PEnded new {} {} (startRun w) r" by simp
  show "prefix prompts new" using new by simp
  show "last (r_trace r) = AgentEnd new" by (rule l)
qed

lemma trace_startRun [simp]: "r_trace (startRun w) = []"
  by (simp add: startRun_def)

lemma failToolCalls_emits: "failToolCalls P cs r = (ms, r') \<Longrightarrow> \<exists>es. r' = emits P es r"
proof (induction P cs r arbitrary: ms r' rule: failToolCalls.induct)
  case (1 P r)
  then have "r' = emits P [] r" by simp
  then show ?case ..
next
  case (2 P c cs r)
  let ?f = "\<lparr>fc_toolCall = c, fc_result = createErrorToolResult (truncatedCallText c), fc_isError = True\<rparr>"
  obtain m r1 where rep: "reportFinalized P ?f (emitToolExecutionEnd P ?f (emitToolExecutionStart P c r)) = (m, r1)"
    by fastforce
  obtain ms' r2 where rest: "failToolCalls P cs r1 = (ms', r2)" by fastforce
  from "2.IH" [OF refl rep [symmetric] refl rest] obtain es where es: "r2 = emits P es r1" by auto
  have "r1 = emits P [ToolExecutionStart (tcl_id c) (tcl_name c) (tcl_arguments c),
      ToolExecutionEnd (tcl_id c) (tcl_name c) (fc_result ?f) True,
      MessageStart (tool_result_msg m), MessageEnd (tool_result_msg m)] r"
    using rep by (auto simp: reportFinalized_def emitToolResultMessage_def emitToolExecutionEnd_def
        emitToolExecutionStart_def Let_def)
  with es have "r2 = emits P ([ToolExecutionStart (tcl_id c) (tcl_name c) (tcl_arguments c),
      ToolExecutionEnd (tcl_id c) (tcl_name c) (fc_result ?f) True,
      MessageStart (tool_result_msg m), MessageEnd (tool_result_msg m)] @ es) r"
    by (simp add: emits_def)
  moreover have "r' = r2" using "2.prems" rep rest by simp
  ultimately show ?case by blast
qed

section \<open>Evaluating a run\<close>

text \<open>The loop with a bound on its iterations; a result within the bound is the loop's.\<close>

fun turnLoopN :: "nat \<Rightarrow> 'w ports \<Rightarrow> 'w loop_state \<Rightarrow> (agent_message list \<times> 'w run) option" where
  "turnLoopN 0 P s = None"
| "turnLoopN (Suc n) P s =
     (if ls_hasMoreToolCalls s \<or> ls_pending s \<noteq> []
      then (case turn P s of
              Finished new r \<Rightarrow> Some (new, r)
            | Continue s' \<Rightarrow> turnLoopN n P s')
      else (case pollQueue (cfg_getFollowUpMessages (ls_config s)) (ls_run s) of (follow, r) \<Rightarrow>
              (if follow \<noteq> []
               then turnLoopN n P (s\<lparr>ls_pending := follow, ls_hasMoreToolCalls := True, ls_run := r\<rparr>)
               else Some (ls_newMessages s, emit P (AgentEnd (ls_newMessages s)) r))))"

lemma turnLoopN_turnLoop: "turnLoopN n P s = Some x \<Longrightarrow> turnLoop P s = Some x"
proof (induction n arbitrary: s)
  case (Suc n)
  then show ?case
    by (subst turnLoop.simps) (auto split: if_splits turn_outcome.splits prod.splits)
qed simp

definition runState :: "'w ports \<Rightarrow> agent_message list \<Rightarrow> 'w agent_context \<Rightarrow> 'w loop_config \<Rightarrow> 'w \<Rightarrow> 'w loop_state" where
  "runState P prompts ctx cfg w =
     (case pollQueue (cfg_getSteeringMessages cfg)
             (injectPending P prompts (emits P [AgentStart, TurnStart] (startRun w))) of
        (pend, r1) \<Rightarrow> \<lparr>ls_context = ctx\<lparr>ac_messages := ac_messages ctx @ prompts\<rparr>, ls_newMessages = prompts,
          ls_config = cfg, ls_firstTurn = True, ls_pending = pend, ls_hasMoreToolCalls = True, ls_run = r1\<rparr>)"

lemma runAgentLoop_runState: "runAgentLoop P prompts ctx cfg w = turnLoop P (runState P prompts ctx cfg w)"
  by (simp add: runAgentLoop_def runLoop_def runState_def split: prod.split)

lemma runAgentLoop_evaluates:
  "turnLoopN n P (runState P prompts ctx cfg w) \<noteq> None \<Longrightarrow> \<exists>new r. runAgentLoop P prompts ctx cfg w = Some (new, r)"
  using turnLoopN_turnLoop by (fastforce simp: runAgentLoop_runState)

end
