(* ===== verification/AgentLoopRelation.thy ===== *)
theory AgentLoopRelation
  imports AgentLoopFacts
begin

text \<open>
  Relations between the run before and the run after, carried through every operation of
  the loop: a preorder that emitting an event and calling a callback stay within holds of
  each operation, and of the whole turn. The termination measure and the state that
  listeners build from the events are two such relations.
\<close>

definition staysIn :: "('w run \<Rightarrow> 'w run \<Rightarrow> bool) \<Rightarrow> ('w \<Rightarrow> 'a \<times> 'w) \<Rightarrow> bool" where
  "staysIn R h \<longleftrightarrow> (\<forall>r a r'. callHook h r = (a, r') \<longrightarrow> R r r')"

definition hookStays :: "('w run \<Rightarrow> 'w run \<Rightarrow> bool) \<Rightarrow> ('x \<Rightarrow> 'w \<Rightarrow> 'a \<times> 'w) option \<Rightarrow> bool" where
  "hookStays R h \<longleftrightarrow> (\<forall>f x. h = Some f \<longrightarrow> staysIn R (f x))"

definition supplyStays :: "('w run \<Rightarrow> 'w run \<Rightarrow> bool) \<Rightarrow> ('w \<Rightarrow> 'a \<times> 'w) option \<Rightarrow> bool" where
  "supplyStays R q \<longleftrightarrow> (\<forall>h. q = Some h \<longrightarrow> staysIn R h)"

definition toolsStay :: "('w run \<Rightarrow> 'w run \<Rightarrow> bool) \<Rightarrow> 'w agent_context \<Rightarrow> bool" where
  "toolsStay R ctx \<longleftrightarrow>
     (\<forall>ts. ac_tools ctx = Some ts \<longrightarrow> (\<forall>t \<in> set ts. \<forall>i a. staysIn R (at_execute t i a)))"

definition loopRel :: "('w run \<Rightarrow> 'w run \<Rightarrow> bool) \<Rightarrow> 'w ports \<Rightarrow> bool" where
  "loopRel R P \<longleftrightarrow> reflp R \<and> transp R \<and> (\<forall>e r. R r (emit P e r)) \<and>
     (\<forall>m c opts. staysIn R (pt_stream P m c opts))"

definition configStays :: "('w run \<Rightarrow> 'w run \<Rightarrow> bool) \<Rightarrow> 'w loop_config \<Rightarrow> bool" where
  "configStays R cfg \<longleftrightarrow> (\<forall>ms. staysIn R (cfg_convertToLlm cfg ms)) \<and>
     hookStays R (cfg_transformContext cfg) \<and> hookStays R (cfg_getApiKey cfg) \<and>
     hookStays R (cfg_shouldStopAfterTurn cfg) \<and> hookStays R (cfg_beforeToolCall cfg) \<and>
     hookStays R (cfg_afterToolCall cfg) \<and> hookStays R (cfg_prepareNextTurn cfg) \<and>
     supplyStays R (cfg_getSteeringMessages cfg) \<and> supplyStays R (cfg_getFollowUpMessages cfg) \<and>
     (\<forall>h x w u c. cfg_prepareNextTurn cfg = Some h \<longrightarrow> fst (h x w) = Some u \<longrightarrow>
        tu_context u = Some c \<longrightarrow> toolsStay R c)"

lemma rel_refl [simp]: "loopRel R P \<Longrightarrow> R r r"
  by (simp add: loopRel_def reflpD)

lemma rel_trans: "loopRel R P \<Longrightarrow> R r r' \<Longrightarrow> R r' r'' \<Longrightarrow> R r r''"
  unfolding loopRel_def by (blast dest: transpD)

lemma rel_emit [simp]: "loopRel R P \<Longrightarrow> R r (emit P e r)"
  by (simp add: loopRel_def)

lemma rel_emit2: "loopRel R P \<Longrightarrow> R r r' \<Longrightarrow> R r (emit P e r')"
  using rel_trans rel_emit by metis

lemma rel_emits [simp]: "loopRel R P \<Longrightarrow> R r (emits P es r)"
proof (induction es arbitrary: r)
  case (Cons e es)
  show ?case using rel_trans [OF Cons.prems rel_emit [OF Cons.prems] Cons.IH [OF Cons.prems]] by simp
qed simp

lemma rel_callHook: "callHook h r = (a, r') \<Longrightarrow> staysIn R h \<Longrightarrow> R r r'"
  unfolding staysIn_def by blast

lemma rel_hook: "callHook (f x) r = (a, r') \<Longrightarrow> h = Some f \<Longrightarrow> hookStays R h \<Longrightarrow> R r r'"
  by (auto simp: hookStays_def intro: rel_callHook)

section \<open>The parts of a turn\<close>

lemma rel_finishResponse:
  "loopRel R P \<Longrightarrow> finishResponse P final added msgs r = (msgs', r') \<Longrightarrow> R r r'"
  by (auto simp: finishResponse_def Let_def rel_emit2 split: if_splits)

lemma rel_consumeEvents:
  "loopRel R P \<Longrightarrow> consumeEvents P final evs part added msgs r = (msgs', r') \<Longrightarrow> R r r'"
proof (induction P final evs part added msgs r rule: consumeEvents.induct)
  case (2 P final p evs part added msgs r)
  from 2(2,3) have "R (emit P (MessageStart (assistant_msg p)) r) r'" by (intro "2.IH") simp_all
  with 2(2) show ?case using rel_trans rel_emit by metis
next
  case (3 P final k i p evs part added msgs r)
  show ?case
  proof (cases part)
    case None
    with 3 show ?thesis by simp
  next
    case (Some q)
    with 3 have "R (emit P (MessageUpdate (assistant_msg p) (EvBlock k i p)) r) r'" by simp
    with 3(3) show ?thesis using rel_trans rel_emit by metis
  qed
qed (auto dest: rel_finishResponse)

lemma rel_streamAssistantResponse:
  assumes P: "loopRel R P" and cfg: "configStays R cfg"
    and run: "streamAssistantResponse P cfg ctx r = (am, ctx', r')"
  shows "R r r'"
    and "\<exists>m c opts r3 evs r4. R r r3 \<and> R r4 r' \<and>
      pt_stream P m c opts (r_world r3) = ((evs, am), r_world r4)"
    and "ac_tools ctx' = ac_tools ctx"
proof -
  obtain messages r1 where s1: "(case cfg_transformContext cfg of
      None \<Rightarrow> (ac_messages ctx, r) | Some f \<Rightarrow> callHook (f (ac_messages ctx)) r) = (messages, r1)"
    by fastforce
  obtain llm r2 where s2: "callHook (cfg_convertToLlm cfg messages) r1 = (llm, r2)" by fastforce
  obtain key r3 where s3: "(case cfg_getApiKey cfg of None \<Rightarrow> (None, r2)
      | Some f \<Rightarrow> callHook (f (md_provider (cfg_model cfg))) r2) = (key, r3)" by fastforce
  obtain opts where opts: "opts = \<lparr>ro_reasoning = cfg_reasoning cfg,
      ro_apiKey = (if truthyStr key then key else cfg_apiKey cfg)\<rparr>" by simp
  obtain lctx where lctx: "lctx = \<lparr>lc_systemPrompt = Some (ac_systemPrompt ctx), lc_messages = llm,
      lc_tools = map_option (map tool.truncate) (ac_tools ctx)\<rparr>" by simp
  obtain evs final r4 where s4: "callHook (pt_stream P (cfg_model cfg) lctx opts) r3 = ((evs, final), r4)"
    by (metis prod.exhaust)
  obtain msgs r5 where s5: "consumeEvents P final evs None False (ac_messages ctx) r4 = (msgs, r5)"
    by fastforce
  have out: "am = final" "ctx' = ctx\<lparr>ac_messages := msgs\<rparr>" "r' = r5"
    using run s1 s2 s3 s4 s5 by (simp_all add: streamAssistantResponse_def Let_def opts lctx)
  note [trans] = rel_trans [OF P]
  have "R r r1" using s1 cfg by (auto simp: configStays_def split: option.splits intro: rel_hook rel_refl [OF P])
  also have "R r1 r2" using s2 cfg by (auto simp: configStays_def intro: rel_callHook)
  also have "R r2 r3" using s3 cfg by (auto simp: configStays_def split: option.splits intro: rel_hook rel_refl [OF P])
  finally have to3: "R r r3" .
  have w4: "pt_stream P (cfg_model cfg) lctx opts (r_world r3) = ((evs, final), r_world r4)"
    by (rule callHook_result [OF s4])
  have to4: "R r3 r4" using P s4 by (auto simp: loopRel_def intro: rel_callHook)
  have to5: "R r4 r5" by (rule rel_consumeEvents [OF P s5])
  show "R r r'" using rel_trans [OF P rel_trans [OF P to3 to4] to5] out(3) by simp
  show "\<exists>m c opts r3 evs r4. R r r3 \<and> R r4 r' \<and>
      pt_stream P m c opts (r_world r3) = ((evs, am), r_world r4)"
    using to3 to5 w4 out by blast
  show "ac_tools ctx' = ac_tools ctx" using out by simp
qed

lemma rel_reportFinalized: "loopRel R P \<Longrightarrow> reportFinalized P f r = (m, r') \<Longrightarrow> R r r'"
  by (auto simp: reportFinalized_def emitToolResultMessage_def Let_def rel_emit2)

lemma rel_end [simp]: "loopRel R P \<Longrightarrow> R r (emitToolExecutionEnd P f r)"
  by (simp add: emitToolExecutionEnd_def)

lemma rel_start [simp]: "loopRel R P \<Longrightarrow> R r (emitToolExecutionStart P c r)"
  by (simp add: emitToolExecutionStart_def)

lemma rel_prepareToolCall:
  "loopRel R P \<Longrightarrow> configStays R cfg \<Longrightarrow> prepareToolCall P cfg ctx am c r = (prep, r') \<Longrightarrow> R r r'"
  by (auto simp: prepareToolCall_def configStays_def split: option.splits sum.splits prod.splits if_splits
      intro: rel_hook rel_refl)

lemma findTool_keeps: "toolsStay R ctx \<Longrightarrow> findTool ctx n = Some t \<Longrightarrow> staysIn R (at_execute t i a)"
  by (auto simp: findTool_def toolsStay_def find_Some_iff split: option.splits)

lemma rel_executePreparedToolCall:
  assumes "loopRel R P" and "staysIn R (at_execute t (tcl_id c) args)"
    and "executePreparedToolCall P c t args r = (ex, r')"
  shows "R r r'"
proof -
  obtain us out r1 where h: "callHook (at_execute t (tcl_id c) args) r = ((us, out), r1)"
    by (metis prod.exhaust)
  note [trans] = rel_trans [OF assms(1)]
  have "R r r1" by (rule rel_callHook [OF h assms(2)])
  also have "R r1 (emits P (map (updateEvent c) us) r1)" using assms(1) by simp
  finally show ?thesis using assms(3) h by (auto simp: executePreparedToolCall_def)
qed

lemma rel_finalizeExecutedToolCall:
  "loopRel R P \<Longrightarrow> configStays R cfg \<Longrightarrow> finalizeExecutedToolCall P cfg ctx am c args ex r = (f, r') \<Longrightarrow> R r r'"
  by (auto simp: finalizeExecutedToolCall_def configStays_def
      split: prod.splits option.splits sum.splits intro: rel_hook rel_refl)

lemma rel_failToolCalls:
  "loopRel R P \<Longrightarrow> failToolCalls P cs r = (ms, r') \<Longrightarrow> R r r'"
proof (induction P cs r arbitrary: ms r' rule: failToolCalls.induct)
  case (2 P c cs r)
  let ?f = "\<lparr>fc_toolCall = c, fc_result = createErrorToolResult (truncatedCallText c), fc_isError = True\<rparr>"
  obtain m r1 where rep: "reportFinalized P ?f (emitToolExecutionEnd P ?f (emitToolExecutionStart P c r)) = (m, r1)"
    by fastforce
  obtain ms' r2 where rest: "failToolCalls P cs r1 = (ms', r2)" by fastforce
  note [trans] = rel_trans [OF "2.prems"(1)]
  have "R r (emitToolExecutionStart P c r)" using 2 by simp
  also have "R \<dots> (emitToolExecutionEnd P ?f (emitToolExecutionStart P c r))" using 2 by simp
  also have "R \<dots> r1" by (rule rel_reportFinalized [OF "2.prems"(1) rep])
  also have "R r1 r2" using "2.IH" [OF refl rep [symmetric] refl "2.prems"(1) rest] .
  finally show ?case using "2.prems"(2) rep rest by simp
qed simp

lemma rel_oneCall:
  assumes P: "loopRel R P" and cfg: "configStays R cfg" and ctx: "toolsStay R ctx"
    and prep: "prepareToolCall P cfg ctx am c r = (prep, r1)"
    and run: "(case prep of
              Immediate res e \<Rightarrow> (\<lparr>fc_toolCall = c, fc_result = res, fc_isError = e\<rparr>, r1)
            | Prepared c' t args \<Rightarrow>
                (case executePreparedToolCall P c' t args r1 of
                   (executed, r') \<Rightarrow> finalizeExecutedToolCall P cfg ctx am c' args executed r')) = (f, r2)"
  shows "R r r2"
proof -
  have to1: "R r r1" by (rule rel_prepareToolCall [OF P cfg prep])
  show ?thesis
  proof (cases prep)
    case (Immediate res e)
    with to1 run show ?thesis by simp
  next
    case (Prepared c' t args)
    obtain ex r' where ex: "executePreparedToolCall P c' t args r1 = (ex, r')" by fastforce
    have "staysIn R (at_execute t (tcl_id c') args)"
      using prepareToolCall_Prepared prep Prepared findTool_keeps [OF ctx] by metis
    from rel_executePreparedToolCall [OF P this ex] to1
      rel_finalizeExecutedToolCall [OF P cfg, of ctx am c' args ex r' f r2]
    show ?thesis using run Prepared ex by (auto intro: rel_trans [OF P])
  qed
qed

lemma rel_sequentialCalls:
  "loopRel R P \<Longrightarrow> configStays R cfg \<Longrightarrow> toolsStay R ctx \<Longrightarrow>
   sequentialCalls P cfg ctx am cs r = (fms, r') \<Longrightarrow> R r r'"
proof (induction P cfg ctx am cs r arbitrary: fms r' rule: sequentialCalls.induct)
  case (2 P cfg ctx am c cs r)
  obtain prep r1 where p: "prepareToolCall P cfg ctx am c (emitToolExecutionStart P c r) = (prep, r1)"
    by fastforce
  obtain f r2 where f: "(case prep of
              Immediate res e \<Rightarrow> (\<lparr>fc_toolCall = c, fc_result = res, fc_isError = e\<rparr>, r1)
            | Prepared c' t args \<Rightarrow>
                (case executePreparedToolCall P c' t args r1 of
                   (executed, r') \<Rightarrow> finalizeExecutedToolCall P cfg ctx am c' args executed r')) = (f, r2)"
    by fastforce
  obtain m r3 where m: "reportFinalized P f (emitToolExecutionEnd P f r2) = (m, r3)" by fastforce
  note [trans] = rel_trans [OF "2.prems"(1)]
  have "R r (emitToolExecutionStart P c r)" using 2 by simp
  also have "R \<dots> r2" by (rule rel_oneCall [OF "2.prems"(1-3) p f])
  also have "R r2 (emitToolExecutionEnd P f r2)" using 2 by simp
  also have "R \<dots> r3" by (rule rel_reportFinalized [OF "2.prems"(1) m])
  finally have to3: "R r r3" .
  obtain fms' r4 where rest: "sequentialCalls P cfg ctx am cs r3 = (fms', r4)" by fastforce
  show ?case
  proof (cases "pt_aborted P (r_world r3)")
    case True
    with to3 "2.prems"(4) p f m show ?thesis by simp
  next
    case False
    have "R r3 r4"
      using "2.IH" [OF p [symmetric] refl f [symmetric] refl m [symmetric] refl False "2.prems"(1-3) rest] .
    with to3 have "R r r4" by (rule rel_trans [OF "2.prems"(1)])
    with False "2.prems"(4) p f m rest show ?thesis by simp
  qed
qed simp

section \<open>Concurrent calls\<close>

fun entryStays :: "('w run \<Rightarrow> 'w run \<Rightarrow> bool) \<Rightarrow> 'w call_entry \<Rightarrow> bool" where
  "entryStays R (Waiting c t args) \<longleftrightarrow> staysIn R (at_execute t (tcl_id c) args)"
| "entryStays R _ \<longleftrightarrow> True"

lemma rel_parallelPreflight:
  "loopRel R P \<Longrightarrow> configStays R cfg \<Longrightarrow> toolsStay R ctx \<Longrightarrow>
   parallelPreflight P cfg ctx am cs r = (ens, r') \<Longrightarrow> R r r' \<and> (\<forall>en \<in> set ens. entryStays R en)"
proof (induction P cfg ctx am cs r arbitrary: ens r' rule: parallelPreflight.induct)
  case (2 P cfg ctx am c cs r)
  obtain prep r1 where p: "prepareToolCall P cfg ctx am c (emitToolExecutionStart P c r) = (prep, r1)"
    by fastforce
  obtain en r2 where e: "(case prep of
              Immediate res e \<Rightarrow>
                (let f = \<lparr>fc_toolCall = c, fc_result = res, fc_isError = e\<rparr>
                 in (Settled f, emitToolExecutionEnd P f r1))
            | Prepared c' t args \<Rightarrow> (Waiting c' t args, r1)) = (en, r2)"
    by fastforce
  have en: "entryStays R en"
    using e p findTool_keeps [OF "2.prems"(3)] prepareToolCall_Prepared
    by (cases prep) (fastforce simp: Let_def)+
  note [trans] = rel_trans [OF "2.prems"(1)]
  have "R r (emitToolExecutionStart P c r)" using 2 by simp
  also have "R \<dots> r1" by (rule rel_prepareToolCall [OF "2.prems"(1,2) p])
  also have "R r1 r2" using e "2.prems"(1) by (cases prep) (auto simp: Let_def)
  finally have to2: "R r r2" .
  obtain ens' r3 where rest: "parallelPreflight P cfg ctx am cs r2 = (ens', r3)" by fastforce
  show ?case
  proof (cases "pt_aborted P (r_world r2)")
    case True
    with to2 en "2.prems"(4) p e show ?thesis by auto
  next
    case False
    have "R r2 r3 \<and> (\<forall>en \<in> set ens'. entryStays R en)"
      using "2.IH" [OF p [symmetric] refl e [symmetric] refl False "2.prems"(1-3) rest] .
    with to2 have "R r r3" "\<forall>en \<in> set ens'. entryStays R en" by (auto intro: rel_trans [OF "2.prems"(1)])
    with False en "2.prems"(4) p e rest show ?thesis by auto
  qed
qed simp

lemma rel_finalizeEnd:
  "loopRel R P \<Longrightarrow> configStays R cfg \<Longrightarrow> R r r1 \<Longrightarrow>
   finalizeExecutedToolCall P cfg ctx am c args ex r1 = (f, r2) \<Longrightarrow>
   R r (emitToolExecutionEnd P f r2)"
  by (metis rel_trans rel_finalizeExecutedToolCall rel_end)

lemma rel_stepEntry:
  assumes "loopRel R P" and "configStays R cfg" and "entryStays R en"
    and "stepEntry P cfg ctx am en r = (en', r')"
  shows "R r r' \<and> entryStays R en'"
proof (cases en)
  case (Settled f)
  with assms show ?thesis by auto
next
  case (Waiting c t args)
  obtain us out r1 where h: "callHook (at_execute t (tcl_id c) args) r = ((us, out), r1)"
    by (metis prod.exhaust)
  from Waiting assms h have "en' = Running c args us out" "r' = r1" by auto
  with Waiting assms(3) rel_callHook [OF h] show ?thesis by simp
next
  case (Running c args us out)
  with assms show ?thesis
    by (cases us) (auto split: prod.splits intro: rel_finalizeEnd [OF _ _ rel_refl])
qed

lemma rel_runSchedule:
  "loopRel R P \<Longrightarrow> configStays R cfg \<Longrightarrow> \<forall>en \<in> set ens. entryStays R en \<Longrightarrow>
   runSchedule P cfg ctx am is ens r = (ens', r') \<Longrightarrow> R r r' \<and> (\<forall>en \<in> set ens'. entryStays R en)"
proof (induction P cfg ctx am "is" ens r arbitrary: ens' r' rule: runSchedule.induct)
  case (2 P cfg ctx am i "is" ens r)
  show ?case
  proof (cases "i < length ens")
    case True
    obtain en r1 where s: "stepEntry P cfg ctx am (ens ! i) r = (en, r1)" by fastforce
    note one = rel_stepEntry [OF "2.prems"(1,2) _ s]
    have eni: "entryStays R (ens ! i)" using True "2.prems"(3) by simp
    have all: "\<forall>en \<in> set (ens[i := en]). entryStays R en"
      using one [OF eni] "2.prems"(3) set_update_subset_insert [of ens i en] by auto
    have rest: "runSchedule P cfg ctx am is (ens[i := en]) r1 = (ens', r')"
      using "2.prems"(4) True s by simp
    note r = "2.IH"(1) [OF True s [symmetric] "2.prems"(1,2) all rest]
    show ?thesis
      by (rule conjI [OF rel_trans [OF "2.prems"(1) conjunct1 [OF one [OF eni]] conjunct1 [OF r]] conjunct2 [OF r]])
  next
    case False
    with "2.prems"(4) have "runSchedule P cfg ctx am is ens r = (ens', r')" by simp
    from "2.IH"(2) [OF False "2.prems"(1-3) this] show ?thesis .
  qed
qed simp

lemma rel_settleEntry:
  assumes "loopRel R P" and "configStays R cfg" and "entryStays R en"
    and "settleEntry P cfg ctx am en r = (f, r')"
  shows "R r r'"
proof (cases en)
  case (Settled f')
  with assms show ?thesis by simp
next
  case (Waiting c t args)
  obtain ex r1 where ex: "executePreparedToolCall P c t args r = (ex, r1)" by fastforce
  have "staysIn R (at_execute t (tcl_id c) args)" using Waiting assms(3) by simp
  note to1 = rel_executePreparedToolCall [OF assms(1) this ex]
  show ?thesis
    using assms(4) Waiting ex by (auto split: prod.splits intro: rel_finalizeEnd [OF assms(1,2) to1])
next
  case (Running c args us out)
  with assms show ?thesis
    by (auto split: prod.splits intro!: rel_finalizeEnd [of R P cfg r "emits P (map (updateEvent c) us) r"])
qed

lemma rel_settleAll:
  "loopRel R P \<Longrightarrow> configStays R cfg \<Longrightarrow> \<forall>en \<in> set ens. entryStays R en \<Longrightarrow>
   settleAll P cfg ctx am ens r = (fs, r') \<Longrightarrow> R r r'"
proof (induction P cfg ctx am ens r arbitrary: fs r' rule: settleAll.induct)
  case (2 P cfg ctx am en ens r)
  obtain f r1 where f: "settleEntry P cfg ctx am en r = (f, r1)" by fastforce
  obtain fs' r2 where fs: "settleAll P cfg ctx am ens r1 = (fs', r2)" by fastforce
  note [trans] = rel_trans [OF "2.prems"(1)]
  have "R r r1" by (rule rel_settleEntry [OF "2.prems"(1,2) _ f]) (use "2.prems"(3) in simp)
  also have "R r1 r2" using "2.IH" [OF f [symmetric] refl "2.prems"(1,2) _ fs] "2.prems"(3) by simp
  finally show ?case using "2.prems"(4) f fs by simp
qed simp

lemma rel_reportAll: "loopRel R P \<Longrightarrow> reportAll P fs r = (ms, r') \<Longrightarrow> R r r'"
proof (induction P fs r arbitrary: ms r' rule: reportAll.induct)
  case (2 P f fs r)
  obtain m r1 where m: "reportFinalized P f r = (m, r1)" by fastforce
  obtain ms' r2 where rest: "reportAll P fs r1 = (ms', r2)" by fastforce
  note [trans] = rel_trans [OF "2.prems"(1)]
  have "R r r1" by (rule rel_reportFinalized [OF "2.prems"(1) m])
  also have "R r1 r2" using "2.IH" [OF m [symmetric] refl "2.prems"(1) rest] .
  finally show ?case using "2.prems"(2) m rest by simp
qed simp

lemma rel_executeToolCallsParallel:
  assumes P: "loopRel R P" and cfg: "configStays R cfg" and ctx: "toolsStay R ctx"
    and run: "executeToolCallsParallel P cfg ctx am cs r = (bt, r')"
  shows "R r r'"
proof -
  obtain ens r1 where s1: "parallelPreflight P cfg ctx am cs r = (ens, r1)" by fastforce
  obtain ens' r2 where s2: "runSchedule P cfg ctx am (pt_schedule P (r_world r1)) ens r1 = (ens', r2)"
    by fastforce
  obtain fs r3 where s3: "settleAll P cfg ctx am ens' r2 = (fs, r3)" by fastforce
  obtain ms r4 where s4: "reportAll P fs r3 = (ms, r4)" by fastforce
  note u1 = rel_parallelPreflight [OF P cfg ctx s1]
  note u2 = rel_runSchedule [OF P cfg conjunct2 [OF u1] s2]
  note [trans] = rel_trans [OF P]
  have "R r r1" using u1 by simp
  also have "R r1 r2" using u2 by simp
  also have "R r2 r3" by (rule rel_settleAll [OF P cfg conjunct2 [OF u2] s3])
  also have "R r3 r4" by (rule rel_reportAll [OF P s4])
  finally show ?thesis using run s1 s2 s3 s4 by (auto simp: executeToolCallsParallel_def)
qed

lemma rel_runToolCalls:
  assumes P: "loopRel R P" and cfg: "configStays R cfg" and ctx: "toolsStay R ctx"
    and run: "runToolCalls P cfg ctx am r = (results, again, r')"
  shows "R r r'"
  using run rel_failToolCalls [OF P] rel_sequentialCalls [OF P cfg ctx]
    rel_executeToolCallsParallel [OF P cfg ctx]
  by (auto simp: runToolCalls_def failToolCallsFromTruncatedMessage_def executeToolCalls_def
      executeToolCallsSequential_def Let_def split: if_splits prod.splits intro: rel_refl [OF P])

section \<open>The turn and the loop\<close>

definition stateStays :: "('w run \<Rightarrow> 'w run \<Rightarrow> bool) \<Rightarrow> 'w loop_state \<Rightarrow> bool" where
  "stateStays R s \<longleftrightarrow> configStays R (ls_config s) \<and> toolsStay R (ls_context s)"

lemma rel_injectPending: "loopRel R P \<Longrightarrow> R r (injectPending P ms r)"
  by (simp add: injectPending_def)

lemma rel_pollQueue: "loopRel R P \<Longrightarrow> supplyStays R q \<Longrightarrow> pollQueue q r = (ms, r') \<Longrightarrow> R r r'"
  by (auto simp: pollQueue_def supplyStays_def split: option.splits intro: rel_callHook rel_refl)

text \<open>
  The milestones of a turn that goes on: the run after the response, after the tools and
  after the hooks, with the poll of the steering queue as the last step.
\<close>

lemma rel_turn_Continue:
  assumes P: "loopRel R P" and s: "stateStays R s" and t: "turn P s = Continue s'"
  shows "\<exists>r1 r2 r6 ctx1 ctx2 am.
    R (ls_run s) r1 \<and> streamAssistantResponse P (ls_config s) ctx1 r1 = (am, ctx2, r2) \<and> R r2 r6 \<and>
    (ls_hasMoreToolCalls s' \<longrightarrow> toolCallsOf (am_content am) \<noteq> []) \<and>
    pollQueue (cfg_getSteeringMessages (ls_config s')) r6 = (ls_pending s', ls_run s') \<and>
    stateStays R s' \<and>
    cfg_getSteeringMessages (ls_config s') = cfg_getSteeringMessages (ls_config s) \<and>
    cfg_getFollowUpMessages (ls_config s') = cfg_getFollowUpMessages (ls_config s)"
proof -
  let ?cfg = "ls_config s"
  have cfg: "configStays R ?cfg" and ctx: "toolsStay R (ls_context s)"
    using s by (simp_all add: stateStays_def)
  let ?r0 = "if ls_firstTurn s then ls_run s else emit P TurnStart (ls_run s)"
  let ?r1 = "injectPending P (ls_pending s) ?r0"
  let ?ctx1 = "(ls_context s)\<lparr>ac_messages := ac_messages (ls_context s) @ ls_pending s\<rparr>"
  obtain am ctx2 r2 where str: "streamAssistantResponse P ?cfg ?ctx1 ?r1 = (am, ctx2, r2)"
    by (metis prod.exhaust)
  note str' = rel_streamAssistantResponse [OF P cfg str]
  have go: "\<not> (am_stopReason am = SR_error \<or> am_stopReason am = SR_aborted)"
    using t by (auto simp: turn_def str Let_def)
  obtain results again r3 where run: "runToolCalls P ?cfg ctx2 am r2 = (results, again, r3)"
    by (metis prod.exhaust)
  let ?ctx3 = "ctx2\<lparr>ac_messages := ac_messages ctx2 @ map tool_result_msg results\<rparr>"
  let ?new3 = "((ls_newMessages s @ ls_pending s) @ [assistant_msg am]) @ map tool_result_msg results"
  let ?r4 = "emit P (TurnEnd (assistant_msg am) results) r3"
  let ?tx = "\<lambda>c. \<lparr>tx_message = am, tx_toolResults = results, tx_context = c, tx_newMessages = ?new3\<rparr>"
  obtain upd r5 where up: "(case cfg_prepareNextTurn ?cfg of None \<Rightarrow> (None, ?r4)
      | Some h \<Rightarrow> callHook (h (?tx ?ctx3)) ?r4) = (upd, r5)" by fastforce
  obtain ctx4 cfg' where ap: "applyTurnUpdate upd ?ctx3 ?cfg = (ctx4, cfg')" by fastforce
  obtain stop r6 where st: "(case cfg_shouldStopAfterTurn cfg' of None \<Rightarrow> (False, r5)
      | Some h \<Rightarrow> callHook (h (?tx ctx4)) r5) = (stop, r6)" by fastforce
  obtain pend r7 where po: "pollQueue (cfg_getSteeringMessages cfg') r6 = (pend, r7)" by fastforce
  have s': "s' = \<lparr>ls_context = ctx4, ls_newMessages = ?new3, ls_config = cfg', ls_firstTurn = False,
      ls_pending = pend, ls_hasMoreToolCalls = again, ls_run = r7\<rparr>"
    using t go by (simp add: turn_def str run Let_def up ap st po split: if_splits del: append_assoc)
  have ctx2: "toolsStay R ctx2" using ctx str'(3) by (simp add: toolsStay_def)
  have cfg': "configStays R cfg'"
    using ap cfg by (auto simp: applyTurnUpdate_def configStays_def split: option.splits)
  have ctx4: "toolsStay R ctx4"
  proof (cases "\<exists>h u c. cfg_prepareNextTurn ?cfg = Some h \<and> upd = Some u \<and> tu_context u = Some c")
    case True
    then obtain h u c where huc: "cfg_prepareNextTurn ?cfg = Some h" "upd = Some u" "tu_context u = Some c"
      by blast
    have "fst (h (?tx ?ctx3) (r_world ?r4)) = Some u"
      using up huc callHook_result [of "h (?tx ?ctx3)" ?r4] by simp
    with cfg huc have "toolsStay R c" unfolding configStays_def by blast
    with ap huc show ?thesis by (simp add: applyTurnUpdate_def)
  next
    case False
    with up ap have "ctx4 = ?ctx3" by (auto simp: applyTurnUpdate_def split: option.splits)
    with ctx2 show ?thesis by (simp add: toolsStay_def)
  qed
  note [trans] = rel_trans [OF P]
  have u1: "R (ls_run s) ?r1"
    by (rule rel_trans [OF P _ rel_injectPending [OF P]]) (simp add: P rel_refl [OF P] rel_emit [OF P])
  have "R r2 r3" by (rule rel_runToolCalls [OF P cfg ctx2 run])
  also have "R r3 ?r4" by (rule rel_emit [OF P])
  also have "R ?r4 r5"
    using up cfg by (auto simp: configStays_def split: option.splits intro: rel_hook rel_refl [OF P])
  also have "R r5 r6"
    using st cfg' by (auto simp: configStays_def split: option.splits intro: rel_hook rel_refl [OF P])
  finally have u6: "R r2 r6" .
  have st': "stateStays R s'" using s' cfg' ctx4 by (simp add: stateStays_def)
  have "cfg_getSteeringMessages cfg' = cfg_getSteeringMessages ?cfg"
    "cfg_getFollowUpMessages cfg' = cfg_getFollowUpMessages ?cfg"
    using ap by (auto simp: applyTurnUpdate_def split: option.splits)
  with u1 str u6 runToolCalls_spec(4) [OF run] po st' s' show ?thesis
    by (intro exI [of _ ?r1] exI [of _ r2] exI [of _ r6] exI [of _ ?ctx1] exI [of _ ctx2] exI [of _ am])
      simp
qed

lemma rel_turn_Finished:
  assumes P: "loopRel R P" and s: "stateStays R s" and t: "turn P s = Finished new r"
  shows "R (ls_run s) r"
proof -
  let ?cfg = "ls_config s"
  have cfg: "configStays R ?cfg" and ctx: "toolsStay R (ls_context s)"
    using s by (simp_all add: stateStays_def)
  let ?r0 = "if ls_firstTurn s then ls_run s else emit P TurnStart (ls_run s)"
  let ?r1 = "injectPending P (ls_pending s) ?r0"
  let ?ctx1 = "(ls_context s)\<lparr>ac_messages := ac_messages (ls_context s) @ ls_pending s\<rparr>"
  obtain am ctx2 r2 where str: "streamAssistantResponse P ?cfg ?ctx1 ?r1 = (am, ctx2, r2)"
    by (metis prod.exhaust)
  note str' = rel_streamAssistantResponse [OF P cfg str]
  note [trans] = rel_trans [OF P]
  have "R (ls_run s) ?r1"
    by (rule rel_trans [OF P _ rel_injectPending [OF P]]) (simp add: P rel_refl [OF P] rel_emit [OF P])
  also have "R ?r1 r2" by (rule str'(1))
  finally have u2: "R (ls_run s) r2" .
  show ?thesis
  proof (cases "am_stopReason am = SR_error \<or> am_stopReason am = SR_aborted")
    case True
    with t have "r = emit P (AgentEnd (((ls_newMessages s @ ls_pending s) @ [assistant_msg am])))
        (emit P (TurnEnd (assistant_msg am) []) r2)"
      by (auto simp: turn_def str Let_def)
    with rel_emit2 [OF P rel_emit2 [OF P u2]] show ?thesis by simp
  next
    case go: False
    obtain results again r3 where run: "runToolCalls P ?cfg ctx2 am r2 = (results, again, r3)"
      by (metis prod.exhaust)
    let ?ctx3 = "ctx2\<lparr>ac_messages := ac_messages ctx2 @ map tool_result_msg results\<rparr>"
    let ?new3 = "((ls_newMessages s @ ls_pending s) @ [assistant_msg am]) @ map tool_result_msg results"
    let ?r4 = "emit P (TurnEnd (assistant_msg am) results) r3"
    let ?tx = "\<lambda>c. \<lparr>tx_message = am, tx_toolResults = results, tx_context = c, tx_newMessages = ?new3\<rparr>"
    obtain upd r5 where up: "(case cfg_prepareNextTurn ?cfg of None \<Rightarrow> (None, ?r4)
        | Some h \<Rightarrow> callHook (h (?tx ?ctx3)) ?r4) = (upd, r5)" by fastforce
    obtain ctx4 cfg' where ap: "applyTurnUpdate upd ?ctx3 ?cfg = (ctx4, cfg')" by fastforce
    obtain stop r6 where st: "(case cfg_shouldStopAfterTurn cfg' of None \<Rightarrow> (False, r5)
        | Some h \<Rightarrow> callHook (h (?tx ctx4)) r5) = (stop, r6)" by fastforce
    have r: "r = emit P (AgentEnd ?new3) r6"
      using t go by (auto simp add: turn_def str run Let_def up ap st split: if_splits prod.splits simp del: append_assoc)
    have ctx2: "toolsStay R ctx2" using ctx str'(3) by (simp add: toolsStay_def)
    have cfg': "configStays R cfg'"
      using ap cfg by (auto simp: applyTurnUpdate_def configStays_def split: option.splits)
    note u2
    also have "R r2 r3" by (rule rel_runToolCalls [OF P cfg ctx2 run])
    also have "R r3 ?r4" by (rule rel_emit [OF P])
    also have "R ?r4 r5"
      using up cfg by (auto simp: configStays_def split: option.splits intro: rel_hook rel_refl [OF P])
    also have "R r5 r6"
      using st cfg' by (auto simp: configStays_def split: option.splits intro: rel_hook rel_refl [OF P])
    also have "R r6 r" using rel_emit [OF P] r by simp
    finally show ?thesis .
  qed
qed

lemma rel_turn_Continue_run:
  assumes P: "loopRel R P" and s: "stateStays R s" and t: "turn P s = Continue s'"
  shows "stateStays R s' \<and> R (ls_run s) (ls_run s')"
proof -
  from rel_turn_Continue [OF assms] obtain r1 r2 r6 ctx1 ctx2 am where
    m: "R (ls_run s) r1" "streamAssistantResponse P (ls_config s) ctx1 r1 = (am, ctx2, r2)" "R r2 r6"
      "pollQueue (cfg_getSteeringMessages (ls_config s')) r6 = (ls_pending s', ls_run s')" "stateStays R s'"
    by blast
  have "R r1 r2" using rel_streamAssistantResponse(1) [OF P _ m(2)] s by (simp add: stateStays_def)
  moreover have "R r6 (ls_run s')"
    using rel_pollQueue [OF P _ m(4)] m(5) by (simp add: stateStays_def configStays_def)
  ultimately show ?thesis using m rel_trans [OF P] by blast
qed

lemma rel_turnLoop:
  assumes P: "loopRel R P" and s: "stateStays R s" and run: "turnLoop P s = Some (new, r)"
  shows "R (ls_run s) r"
proof -
  have body: "stateStays R s \<longrightarrow> R (ls_run s) (snd nr)"
    if IH: "\<And>s nr. loop s = Some nr \<Longrightarrow> stateStays R s \<longrightarrow> R (ls_run s) (snd nr)"
      and eq: "(if ls_hasMoreToolCalls s \<or> ls_pending s \<noteq> []
        then case turn P s of Finished new r \<Rightarrow> Some (new, r) | Continue s' \<Rightarrow> loop s'
        else case pollQueue (cfg_getFollowUpMessages (ls_config s)) (ls_run s) of (follow, r) \<Rightarrow>
          if follow \<noteq> [] then loop (s\<lparr>ls_pending := follow, ls_hasMoreToolCalls := True, ls_run := r\<rparr>)
          else Some (ls_newMessages s, emit P (AgentEnd (ls_newMessages s)) r)) = Some nr"
    for loop :: "'a loop_state \<Rightarrow> (agent_message list \<times> 'a run) option" and s nr
  proof (rule impI)
    assume s: "stateStays R s"
    show "R (ls_run s) (snd nr)"
    proof (cases "ls_hasMoreToolCalls s \<or> ls_pending s \<noteq> []")
      case True
      show ?thesis
      proof (cases "turn P s")
        case (Finished new r)
        with eq True rel_turn_Finished [OF P s] show ?thesis by auto
      next
        case (Continue s')
        with eq True have "loop s' = Some nr" by simp
        with IH rel_turn_Continue_run [OF P s Continue] rel_trans [OF P] show ?thesis by blast
      qed
    next
      case False
      obtain follow r where po: "pollQueue (cfg_getFollowUpMessages (ls_config s)) (ls_run s) = (follow, r)"
        by fastforce
      have to: "R (ls_run s) r"
        using rel_pollQueue [OF P _ po] s by (simp add: stateStays_def configStays_def)
      show ?thesis
      proof (cases "follow = []")
        case True
        with eq False po have "nr = (ls_newMessages s, emit P (AgentEnd (ls_newMessages s)) r)" by simp
        with rel_emit2 [OF P to] show ?thesis by simp
      next
        case nonempty: False
        let ?s = "s\<lparr>ls_pending := follow, ls_hasMoreToolCalls := True, ls_run := r\<rparr>"
        have "loop ?s = Some nr" using eq False nonempty po by simp
        moreover have "stateStays R ?s" using s by (simp add: stateStays_def)
        ultimately have "R (ls_run ?s) (snd nr)" using IH by blast
        with rel_trans [OF P to] show ?thesis by simp
      qed
    qed
  qed
  have "(\<lambda>(P', s) nr. P' = P \<longrightarrow> stateStays R s \<longrightarrow> R (ls_run s) (snd nr)) (P, s) (new, r)"
  proof (rule turnLoop.raw_induct [where Pa = "\<lambda>(P', s) nr. P' = P \<longrightarrow> stateStays R s \<longrightarrow> R (ls_run s) (snd nr)",
        OF _ run], goal_cases)
    case (1 loop P' s nr)
    have "stateStays R s \<longrightarrow> R (ls_run s) (snd nr)" if "P' = P"
    proof (rule body)
      show "stateStays R s \<longrightarrow> R (ls_run s) (snd nr)" if "loop P s = Some nr" for s nr
        using 1(1) [OF that] by simp
    qed (use 1(2) in \<open>simp only: that\<close>)
    then show ?case by simp
  qed
  with s show ?thesis by simp
qed

lemma rel_runLoop:
  assumes P: "loopRel R P" and cfg: "configStays R cfg" and ctx: "toolsStay R ctx"
    and run: "runLoop P ctx newMessages cfg r = Some (new, r')"
  shows "R r r'"
proof -
  obtain pend r1 where po: "pollQueue (cfg_getSteeringMessages cfg) r = (pend, r1)" by fastforce
  let ?s = "\<lparr>ls_context = ctx, ls_newMessages = newMessages, ls_config = cfg,
      ls_firstTurn = True, ls_pending = pend, ls_hasMoreToolCalls = True, ls_run = r1\<rparr>"
  have "stateStays R ?s" using cfg ctx by (simp add: stateStays_def)
  moreover have "turnLoop P ?s = Some (new, r')" using run po by (simp add: runLoop_def)
  ultimately have "R r1 r'" using rel_turnLoop [OF P] by fastforce
  moreover have "R r r1" using rel_pollQueue [OF P _ po] cfg by (simp add: configStays_def)
  ultimately show ?thesis using rel_trans [OF P] by blast
qed

end
