(* ===== verification/AgentLoopBound.thy ===== *)
theory AgentLoopBound
  imports AgentLoopRelation
begin

text \<open>
  Termination of the turn loop under a budget: a measure of the world that no port, hook
  or tool raises and that goes down with every response that asks for tools and with every
  steering or follow-up message taken from its queue. \<open>upTo\<close> is the relation the
  operations of the loop preserve.
\<close>

definition keeps :: "('w \<Rightarrow> nat) \<Rightarrow> ('w \<Rightarrow> 'a \<times> 'w) \<Rightarrow> bool" where
  "keeps b h \<longleftrightarrow> (\<forall>w. b (snd (h w)) \<le> b w)"

definition hookKeeps :: "('w \<Rightarrow> nat) \<Rightarrow> ('x \<Rightarrow> 'w \<Rightarrow> 'a \<times> 'w) option \<Rightarrow> bool" where
  "hookKeeps b h \<longleftrightarrow> (\<forall>f x. h = Some f \<longrightarrow> keeps b (f x))"

definition supplyFinite :: "('w \<Rightarrow> nat) \<Rightarrow> ('w \<Rightarrow> agent_message list \<times> 'w) option \<Rightarrow> bool" where
  "supplyFinite b q \<longleftrightarrow>
     (\<forall>h w. q = Some h \<longrightarrow> b (snd (h w)) \<le> b w \<and> (fst (h w) \<noteq> [] \<longrightarrow> b (snd (h w)) < b w))"

definition toolsKeep :: "('w \<Rightarrow> nat) \<Rightarrow> 'w agent_context \<Rightarrow> bool" where
  "toolsKeep b ctx \<longleftrightarrow>
     (\<forall>ts. ac_tools ctx = Some ts \<longrightarrow> (\<forall>t \<in> set ts. \<forall>i a. keeps b (at_execute t i a)))"

definition portsKeep :: "('w \<Rightarrow> nat) \<Rightarrow> 'w ports \<Rightarrow> bool" where
  "portsKeep b P \<longleftrightarrow> (\<forall>e w. b (pt_emit P e w) \<le> b w) \<and>
     (\<forall>m c opts w. b (snd (pt_stream P m c opts w)) \<le> b w \<and>
        (toolCallsOf (am_content (snd (fst (pt_stream P m c opts w)))) \<noteq> [] \<longrightarrow>
           b (snd (pt_stream P m c opts w)) < b w))"

definition configKeeps :: "('w \<Rightarrow> nat) \<Rightarrow> 'w loop_config \<Rightarrow> bool" where
  "configKeeps b cfg \<longleftrightarrow> (\<forall>ms. keeps b (cfg_convertToLlm cfg ms)) \<and>
     hookKeeps b (cfg_transformContext cfg) \<and> hookKeeps b (cfg_getApiKey cfg) \<and>
     hookKeeps b (cfg_shouldStopAfterTurn cfg) \<and> hookKeeps b (cfg_beforeToolCall cfg) \<and>
     hookKeeps b (cfg_afterToolCall cfg) \<and>
     supplyFinite b (cfg_getSteeringMessages cfg) \<and> supplyFinite b (cfg_getFollowUpMessages cfg) \<and>
     hookKeeps b (cfg_prepareNextTurn cfg) \<and>
     (\<forall>h x w u c. cfg_prepareNextTurn cfg = Some h \<longrightarrow> fst (h x w) = Some u \<longrightarrow>
        tu_context u = Some c \<longrightarrow> toolsKeep b c)"

definition upTo :: "('w \<Rightarrow> nat) \<Rightarrow> 'w run \<Rightarrow> 'w run \<Rightarrow> bool" where
  "upTo b r r' \<longleftrightarrow> b (r_world r') \<le> b (r_world r)"

lemma upTo_refl [simp]: "upTo b r r"
  by (simp add: upTo_def)

lemma upTo_trans [trans]: "upTo b r r' \<Longrightarrow> upTo b r' r'' \<Longrightarrow> upTo b r r''"
  by (simp add: upTo_def)

lemma loopRel_upTo: "portsKeep b P \<Longrightarrow> loopRel (upTo b) P"
  by (auto simp: loopRel_def portsKeep_def upTo_def emit_def staysIn_def reflp_def transp_def
      dest!: callHook_result) (metis snd_conv)

lemma staysIn_upTo: "staysIn (upTo b) h = keeps b h"
proof
  assume s: "staysIn (upTo b) h"
  show "keeps b h"
    unfolding keeps_def
  proof
    fix w
    have "callHook h \<lparr>r_world = w, r_trace = []\<rparr> = (fst (h w), \<lparr>r_world = snd (h w), r_trace = []\<rparr>)"
      by (simp add: callHook_def split: prod.split)
    with s show "b (snd (h w)) \<le> b w" unfolding staysIn_def upTo_def by force
  qed
next
  assume "keeps b h"
  then show "staysIn (upTo b) h"
    by (auto simp: staysIn_def upTo_def keeps_def dest!: callHook_result) (metis snd_conv)
qed

lemma toolsStay_upTo: "toolsStay (upTo b) = toolsKeep b"
  by (auto simp: fun_eq_iff toolsStay_def toolsKeep_def staysIn_upTo)

lemma supplyStays_upTo: "supplyFinite b q \<Longrightarrow> supplyStays (upTo b) q"
  by (auto simp: supplyStays_def supplyFinite_def staysIn_upTo keeps_def)

lemma configStays_upTo: "configKeeps b cfg \<Longrightarrow> configStays (upTo b) cfg"
  by (auto simp: configStays_def configKeeps_def staysIn_upTo toolsStay_upTo hookStays_def hookKeeps_def
      intro: supplyStays_upTo)

lemma upTo_pollQueue:
  assumes "supplyFinite b q" and "pollQueue q r = (ms, r')"
  shows "upTo b r r'" and "ms \<noteq> [] \<Longrightarrow> b (r_world r') < b (r_world r)"
  using assms
  by (auto simp: pollQueue_def supplyFinite_def upTo_def split: option.splits dest!: callHook_result)
    (metis fst_conv snd_conv)+

text \<open>The two queues are the same throughout a run, so the bound on them carries over.\<close>

definition stateKeeps :: "('w \<Rightarrow> nat) \<Rightarrow> 'w loop_state \<Rightarrow> bool" where
  "stateKeeps b s \<longleftrightarrow> stateStays (upTo b) s \<and> supplyFinite b (cfg_getSteeringMessages (ls_config s)) \<and>
     supplyFinite b (cfg_getFollowUpMessages (ls_config s))"

lemma upTo_turn:
  assumes P: "portsKeep b P" and s: "stateKeeps b s" and t: "turn P s = Continue s'"
  shows "stateKeeps b s' \<and> upTo b (ls_run s) (ls_run s') \<and>
    (ls_hasMoreToolCalls s' \<or> ls_pending s' \<noteq> [] \<longrightarrow> b (r_world (ls_run s')) < b (r_world (ls_run s)))"
proof -
  note rel = loopRel_upTo [OF P]
  have st: "stateStays (upTo b) s" using s by (simp add: stateKeeps_def)
  from rel_turn_Continue [OF rel st t] obtain r1 r2 r6 ctx1 ctx2 am where
    m: "upTo b (ls_run s) r1" "streamAssistantResponse P (ls_config s) ctx1 r1 = (am, ctx2, r2)"
      "upTo b r2 r6" "ls_hasMoreToolCalls s' \<longrightarrow> toolCallsOf (am_content am) \<noteq> []"
      "pollQueue (cfg_getSteeringMessages (ls_config s')) r6 = (ls_pending s', ls_run s')"
      "stateStays (upTo b) s'"
      "cfg_getSteeringMessages (ls_config s') = cfg_getSteeringMessages (ls_config s)"
      "cfg_getFollowUpMessages (ls_config s') = cfg_getFollowUpMessages (ls_config s)"
    by blast
  from rel_streamAssistantResponse(2) [OF rel _ m(2)] st obtain md c opts r3 evs r4 where
    w: "upTo b r1 r3" "upTo b r4 r2" "pt_stream P md c opts (r_world r3) = ((evs, am), r_world r4)"
    by (auto simp: stateStays_def)
  have cut: "b (r_world r4) \<le> b (r_world r3)"
    "toolCallsOf (am_content am) \<noteq> [] \<Longrightarrow> b (r_world r4) < b (r_world r3)"
    using P w(3) unfolding portsKeep_def by (metis fst_conv snd_conv)+
  have sup: "supplyFinite b (cfg_getSteeringMessages (ls_config s'))"
    using s m(7) by (simp add: stateKeeps_def)
  note po = upTo_pollQueue [OF sup m(5)]
  have "stateKeeps b s'" using s m(6-8) by (simp add: stateKeeps_def)
  then show ?thesis using m(1,3,4) w(1,2) cut po by (fastforce simp: upTo_def)
qed

lemma turnLoop_terminates:
  assumes P: "portsKeep b P"
  shows "stateKeeps b s \<Longrightarrow> \<exists>new r. turnLoop P s = Some (new, r)"
proof (induction "b (r_world (ls_run s))" arbitrary: s rule: less_induct)
  case less
  have idle: "\<exists>new r. turnLoop P s' = Some (new, r)"
    if s': "stateKeeps b s'" "b (r_world (ls_run s')) \<le> b (r_world (ls_run s))"
      and quiet: "\<not> (ls_hasMoreToolCalls s' \<or> ls_pending s' \<noteq> [])" for s'
  proof -
    obtain follow r where po: "pollQueue (cfg_getFollowUpMessages (ls_config s')) (ls_run s') = (follow, r)"
      by fastforce
    have sup: "supplyFinite b (cfg_getFollowUpMessages (ls_config s'))"
      using s' by (simp add: stateKeeps_def)
    show ?thesis
    proof (cases "follow = []")
      case True
      then show ?thesis using quiet po by (subst turnLoop.simps) simp
    next
      case False
      let ?s = "s'\<lparr>ls_pending := follow, ls_hasMoreToolCalls := True, ls_run := r\<rparr>"
      have "\<exists>new r. turnLoop P ?s = Some (new, r)"
      proof (rule less.hyps)
        show "b (r_world (ls_run ?s)) < b (r_world (ls_run s))"
          using upTo_pollQueue(2) [OF sup po False] s'(2) by simp
        show "stateKeeps b ?s" using s' by (simp add: stateKeeps_def stateStays_def)
      qed
      then show ?thesis using quiet po False by (subst turnLoop.simps) simp
    qed
  qed
  show ?case
  proof (cases "ls_hasMoreToolCalls s \<or> ls_pending s \<noteq> []")
    case False
    with idle [OF less.prems] show ?thesis by simp
  next
    case True
    show ?thesis
    proof (cases "turn P s")
      case (Finished new r)
      then show ?thesis using True by (subst turnLoop.simps) simp
    next
      case (Continue s')
      note st = upTo_turn [OF P less.prems Continue]
      have "\<exists>new r. turnLoop P s' = Some (new, r)"
      proof (cases "ls_hasMoreToolCalls s' \<or> ls_pending s' \<noteq> []")
        case True
        with st less.hyps [of s'] show ?thesis by simp
      next
        case False
        with st idle [of s'] show ?thesis by (simp add: upTo_def)
      qed
      then show ?thesis using True Continue by (subst turnLoop.simps) simp
    qed
  qed
qed

lemma runAgentLoop_Some:
  assumes "portsKeep b P" and "configKeeps b cfg" and "toolsKeep b ctx"
  shows "\<exists>new r. runAgentLoop P prompts ctx cfg w = Some (new, r)"
proof -
  let ?r = "injectPending P prompts (emits P [AgentStart, TurnStart] (startRun w))"
  obtain pend r1 where po: "pollQueue (cfg_getSteeringMessages cfg) ?r = (pend, r1)" by fastforce
  have "stateKeeps b \<lparr>ls_context = ctx\<lparr>ac_messages := ac_messages ctx @ prompts\<rparr>, ls_newMessages = prompts,
      ls_config = cfg, ls_firstTurn = True, ls_pending = pend, ls_hasMoreToolCalls = True, ls_run = r1\<rparr>"
    using assms configStays_upTo [OF assms(2)]
    by (simp add: stateKeeps_def stateStays_def toolsStay_upTo toolsKeep_def configKeeps_def)
  from turnLoop_terminates [OF assms(1) this] po show ?thesis
    by (simp add: runAgentLoop_def runLoop_def)
qed

end
