(* ===== verification/Samples.thy ===== *)
theory Samples
  imports AgentLoopBound
begin

text \<open>
  Concrete inputs shared by the instances of the properties: messages, a tool, a context,
  a configuration and a scripted provider whose world counts the tool calls it still
  asks for.
\<close>

definition sampleCost :: usage_cost where
  "sampleCost = \<lparr>uc_input = 0, uc_output = 0, uc_cacheRead = 0, uc_cacheWrite = 0, uc_total = 0\<rparr>"

definition sampleUsage :: usage where
  "sampleUsage = \<lparr>us_input = 10, us_output = 5, us_cacheRead = 0, us_cacheWrite = 0,
     us_cacheWrite1h = None, us_reasoning = None, us_totalTokens = 15, us_cost = sampleCost\<rparr>"

definition sampleModel :: model where
  "sampleModel = \<lparr>md_id = js ''m'', md_name = js ''m'', md_api = js ''api'', md_provider = js ''p'',
     md_baseUrl = [], md_reasoning = False, md_thinkingLevelMap = None, md_input = [In_text],
     md_cost = sampleCost, md_contextWindow = 1000, md_maxTokens = 100\<rparr>"

definition sampleAssistant :: "assistant_block list \<Rightarrow> stop_reason \<Rightarrow> assistant_message" where
  "sampleAssistant bs sr = \<lparr>am_content = bs, am_api = js ''api'', am_provider = js ''p'',
     am_model = js ''m'', am_responseModel = None, am_responseId = None, am_diagnostics = None,
     am_usage = sampleUsage, am_stopReason = sr, am_errorMessage = None, am_timestamp = 1\<rparr>"

definition sampleCall :: "string \<Rightarrow> string \<Rightarrow> tool_call" where
  "sampleCall i n = \<lparr>tcl_id = js i, tcl_name = js n, tcl_arguments = [], tcl_thoughtSignature = None\<rparr>"

definition sampleText :: "string \<Rightarrow> assistant_block" where
  "sampleText s = AText \<lparr>tc_text = js s, tc_textSignature = None\<rparr>"

definition sampleResult :: agent_tool_result where
  "sampleResult = \<lparr>res_content = Some [text_block (js ''ok'')], res_details = None, res_usage = None,
     res_addedToolNames = None, res_terminate = None\<rparr>"

definition sampleTool :: "nat agent_tool" where
  "sampleTool = \<lparr>tool_name = js ''read'', tool_description = [], tool_parameters = JNull, at_label = [],
     at_prepareArguments = None, at_execute = (\<lambda>i a w. (([sampleResult], Inr sampleResult), w)),
     at_executionMode = None\<rparr>"

definition sampleContext :: "nat agent_context" where
  "sampleContext = \<lparr>ac_systemPrompt = js ''s'', ac_messages = [], ac_tools = Some [sampleTool]\<rparr>"

definition sampleConfig :: "nat loop_config" where
  "sampleConfig = \<lparr>cfg_model = sampleModel, cfg_reasoning = None, cfg_apiKey = None,
     cfg_convertToLlm = (\<lambda>ms w. (convertToLlm ms, w)), cfg_transformContext = None,
     cfg_getApiKey = None, cfg_shouldStopAfterTurn = None, cfg_prepareNextTurn = None,
     cfg_getSteeringMessages = None, cfg_getFollowUpMessages = None, cfg_toolExecution = None,
     cfg_beforeToolCall = None, cfg_afterToolCall = None\<rparr>"

text \<open>
  A provider that asks for two tool calls while its count lasts and then stops. The
  schedule starts the second call of a batch first.
\<close>

definition sampleCalls :: assistant_message where
  "sampleCalls = sampleAssistant
     [AToolCall (sampleCall ''a'' ''read''), AToolCall (sampleCall ''b'' ''nope''),
      AToolCall (sampleCall ''c'' ''read'')] SR_toolUse"

definition sampleStop :: assistant_message where
  "sampleStop = sampleAssistant [sampleText ''done''] SR_stop"

definition sampleStream :: "nat \<Rightarrow> (assistant_event list \<times> assistant_message) \<times> nat" where
  "sampleStream w = (case w of
       0 \<Rightarrow> (([EvStart sampleStop, EvBlock text_delta 0 sampleStop, EvDone SR_stop sampleStop], sampleStop), 0)
     | Suc n \<Rightarrow> (([EvStart sampleCalls, EvDone SR_toolUse sampleCalls], sampleCalls), n))"

definition samplePorts :: "nat ports" where
  "samplePorts = \<lparr>pt_emit = (\<lambda>e w. w), pt_aborted = (\<lambda>w. False), pt_now = (\<lambda>w. 0),
     pt_validate = (\<lambda>t c. Inr (JObj (tcl_arguments c))), pt_stream = (\<lambda>m c opts w. sampleStream w),
     pt_schedule = (\<lambda>w. [2, 2, 0, 2])\<rparr>"

definition samplePrompt :: agent_message where
  "samplePrompt = user_msg \<lparr>um_content = UString (js ''hi''), um_timestamp = 0\<rparr>"

definition sampleState :: "nat loop_state" where
  "sampleState = \<lparr>ls_context = sampleContext\<lparr>ac_messages := [samplePrompt]\<rparr>, ls_newMessages = [samplePrompt],
     ls_config = sampleConfig, ls_firstTurn = True, ls_pending = [], ls_hasMoreToolCalls = True,
     ls_run = startRun 1\<rparr>"

lemma wfPorts_sample: "wfPorts samplePorts"
  by (simp add: wfPorts_def samplePorts_def sampleStream_def split: nat.split)

lemma portsKeep_sample: "portsKeep id samplePorts"
  by (simp add: portsKeep_def samplePorts_def sampleStream_def sampleStop_def sampleAssistant_def
      sampleText_def split: nat.split)

lemma configKeeps_sample: "configKeeps id sampleConfig"
  by (simp add: configKeeps_def sampleConfig_def keeps_def hookKeeps_def supplyFinite_def)

lemma toolsKeep_sample: "toolsKeep id sampleContext"
  by (simp add: toolsKeep_def sampleContext_def sampleTool_def keeps_def)

lemma sample_turn_continues:
  "case turn samplePorts sampleState of Continue s' \<Rightarrow> True | Finished new r \<Rightarrow> False"
  by code_simp

end
