(* ===== verification/AgentLoopProps.thy ===== *)
theory AgentLoopProps
  imports Samples
begin

text \<open>
  The properties of the agent loop: what a whole run emits and returns, how tool calls are
  gated, executed and reported, and when a run ends.
\<close>

lemma sample_run_Some:
  "\<exists>new r. runAgentLoop samplePorts [samplePrompt] sampleContext sampleConfig 1 = Some (new, r)"
  by (rule runAgentLoop_Some [OF portsKeep_sample configKeeps_sample toolsKeep_sample])

section \<open>Properties\<close>

text \<open>C1: A run that returns has emitted a well-formed sequence of events: agent_start, then turns
  that open and close, within them messages that open, update and close and tool events
  between messages, and at last one agent_end, which carries the messages the run returns
  and beyond which nothing is emitted. The returned messages begin with the prompts.\<close>

theorem run_follows_protocol:
  assumes "wfPorts P" and "runAgentLoop P prompts ctx cfg w = Some (new, r)"
  shows "protoRun PIdle (r_trace r) = Some PEnded \<and> last (r_trace r) = AgentEnd new \<and> prefix prompts new"
  using runAgentLoop_chunk [OF assms] by (simp add: chunk_def)

theorem run_follows_protocol_witness:
  "\<exists>new r. runAgentLoop samplePorts [samplePrompt] sampleContext sampleConfig 1 = Some (new, r) \<and>
     protoRun PIdle (r_trace r) = Some PEnded \<and> prefix [samplePrompt] new"
  using sample_run_Some run_follows_protocol [OF wfPorts_sample, of "[samplePrompt]" sampleContext sampleConfig 1]
  by blast

text \<open>The messages a run returns are exactly the messages whose end it has emitted, in the
  same order, so that a listener that records message_end events has the run's result.\<close>

theorem returned_messages_are_ended:
  assumes "wfPorts P" and "runAgentLoop P prompts ctx cfg w = Some (new, r)"
  shows "messagesEnded (r_trace r) = new"
  using runAgentLoop_chunk [OF assms] by (simp add: chunk_def)

theorem returned_messages_are_ended_witness:
  "\<exists>new r. runAgentLoop samplePorts [samplePrompt] sampleContext sampleConfig 1 = Some (new, r) \<and>
     messagesEnded (r_trace r) = new"
  using sample_run_Some
    returned_messages_are_ended [OF wfPorts_sample, of "[samplePrompt]" sampleContext sampleConfig 1]
  by blast

text \<open>C2: Every tool execution that a run starts, it also ends: after the run no tool call is
  pending, whatever the tools do, in both execution modes and when the run is aborted.\<close>

theorem started_calls_end:
  assumes "wfPorts P" and "runAgentLoop P prompts ctx cfg w = Some (new, r)"
  shows "openCalls {} (r_trace r) = {}"
  using runAgentLoop_chunk [OF assms] by (auto simp: chunk_def)

theorem started_calls_end_witness:
  "\<exists>new r. runAgentLoop samplePorts [samplePrompt] sampleContext sampleConfig 1 = Some (new, r) \<and>
     openCalls {} (r_trace r) = {}"
  using sample_run_Some started_calls_end [OF wfPorts_sample, of "[samplePrompt]" sampleContext sampleConfig 1]
  by blast

text \<open>The results of a batch come in the order of the calls in the assistant message, in both
  execution modes and for every order in which concurrent tools finish; an abort can only
  cut the list short, and without an abort every call has its result.\<close>

theorem results_in_source_order:
  assumes "executeToolCalls P cfg ctx am r = (batch, r')"
  shows "prefix (map tr_toolCallId (tb_messages batch)) (map tcl_id (toolCallsOf (am_content am))) \<and>
    ((\<forall>w. \<not> pt_aborted P w) \<longrightarrow>
      map tr_toolCallId (tb_messages batch) = map tcl_id (toolCallsOf (am_content am)))"
  using executeToolCalls_spec [OF assms] by blast+

theorem results_in_source_order_witness:
  "map tr_toolCallId (tb_messages (fst (executeToolCalls samplePorts sampleConfig sampleContext sampleCalls
     (startRun 1)))) = [js ''a'', js ''b'', js ''c'']"
  using results_in_source_order [OF surjective_pairing, of samplePorts sampleConfig sampleContext sampleCalls "startRun 1"]
  by (simp add: samplePorts_def sampleCalls_def sampleAssistant_def sampleCall_def)

text \<open>A call reaches execution exactly when its tool is known, its arguments pass preparation
  and validation, the hook neither throws nor blocks it and the run is not aborted; the
  prepared call is then the call of the message with the validated arguments, and in
  every other case the result is an error result.\<close>

theorem prepared_iff:
  "(fst (prepareToolCall P cfg ctx am c r) = Prepared c' t args \<longleftrightarrow>
     c' = c \<and> findTool ctx (tcl_name c) = Some t \<and>
     (\<exists>cp. prepareToolCallArguments t c = Inr cp \<and> pt_validate P t cp = Inr args) \<and>
     (case cfg_beforeToolCall cfg of
        None \<Rightarrow> \<not> pt_aborted P (r_world r)
      | Some h \<Rightarrow>
          (case h \<lparr>bcx_assistantMessage = am, bcx_toolCall = c, bcx_args = args, bcx_context = ctx\<rparr> (r_world r) of
             (res, w) \<Rightarrow> \<not> pt_aborted P w \<and>
               (case res of Inl e \<Rightarrow> False | Inr None \<Rightarrow> True | Inr (Some d) \<Rightarrow> btc_block d \<noteq> Some True)))) \<and>
   (case fst (prepareToolCall P cfg ctx am c r) of
      Prepared _ _ _ \<Rightarrow> True
    | Immediate res isError \<Rightarrow> isError \<and> (\<exists>s. res = createErrorToolResult s))"
  by (auto simp: prepareToolCall_def immediateError_def callHook_def
      split: option.splits sum.splits prod.splits if_splits)

text \<open>When the response hit the output limit no tool of it runs: the world only sees the
  emitted events, every call of the message gets an error result in its place, and the
  loop goes on so that the model can repeat the calls.\<close>

theorem truncated_calls_never_run:
  assumes "runToolCalls P cfg ctx am r = (results, goesOn, r')"
    and "am_stopReason am = SR_length" and "toolCallsOf (am_content am) \<noteq> []"
  shows "goesOn \<and> map tr_toolCallId results = map tcl_id (toolCallsOf (am_content am)) \<and>
    (\<forall>m \<in> set results. tr_isError m) \<and> (\<exists>es. r' = emits P es r)"
proof -
  obtain ms where f: "failToolCalls P (toolCallsOf (am_content am)) r = (ms, r')" and "results = ms" "goesOn"
    using assms by (auto simp: runToolCalls_def failToolCallsFromTruncatedMessage_def Let_def split: prod.splits)
  with failToolCalls_spec [OF f] failToolCalls_emits [OF f]
  show ?thesis by simp
qed

theorem truncated_calls_never_run_witness:
  "case runToolCalls samplePorts sampleConfig sampleContext (sampleCalls\<lparr>am_stopReason := SR_length\<rparr>) (startRun 1)
   of (results, goesOn, r') \<Rightarrow> goesOn \<and> map tr_toolCallId results = [js ''a'', js ''b'', js ''c'']"
proof -
  let ?am = "sampleCalls\<lparr>am_stopReason := SR_length\<rparr>"
  obtain results goesOn' r' where
    run: "runToolCalls samplePorts sampleConfig sampleContext ?am (startRun 1) = (results, goesOn', r')"
    by (metis prod.exhaust)
  have "goesOn'" "map tr_toolCallId results = map tcl_id (toolCallsOf (am_content ?am))"
    using truncated_calls_never_run [OF run]
    by (simp_all add: sampleCalls_def sampleAssistant_def)
  then show ?thesis unfolding run by (simp add: sampleCalls_def sampleAssistant_def sampleCall_def)
qed

text \<open>While no hook replaces the context, a turn appends the same messages, in the same order,
  to the context the model sees and to the messages the run returns.\<close>

theorem context_grows_with_run:
  assumes "wfPorts P" and "cfg_prepareNextTurn (ls_config s) = None" and "turn P s = Continue s'"
  shows "\<exists>ms. ls_newMessages s' = ls_newMessages s @ ms \<and>
     ls_context s' = (ls_context s)\<lparr>ac_messages := ac_messages (ls_context s) @ ms\<rparr>"
  using turn_Finished_or_Continue [OF assms(1), of s] assms(2,3) by simp

theorem context_grows_with_run_witness:
  "\<exists>s' ms. turn samplePorts sampleState = Continue s' \<and> ls_newMessages s' = [samplePrompt] @ ms \<and>
     ac_messages (ls_context s') = [samplePrompt] @ ms"
proof -
  obtain s' where s': "turn samplePorts sampleState = Continue s'"
    using sample_turn_continues by (auto split: turn_outcome.splits)
  have "cfg_prepareNextTurn (ls_config sampleState) = None"
    by (simp add: sampleState_def sampleConfig_def)
  from context_grows_with_run [OF wfPorts_sample this s'] s' show ?thesis
    by (auto simp: sampleState_def)
qed

text \<open>C3: A run returns when some budget bounds its work: no callback raises the budget and every
  response with tool calls, every non-empty batch of steering messages and every non-empty
  batch of follow-up messages lowers it.\<close>

theorem run_returns_within_budget:
  assumes "portsKeep b P" and "configKeeps b cfg" and "toolsKeep b ctx"
  shows "\<exists>new r. runAgentLoop P prompts ctx cfg w = Some (new, r)"
  by (rule runAgentLoop_Some [OF assms])

theorem run_returns_within_budget_witness:
  "\<exists>new r. runAgentLoop samplePorts [samplePrompt] sampleContext sampleConfig 7 = Some (new, r)"
  by (rule run_returns_within_budget [OF portsKeep_sample configKeeps_sample toolsKeep_sample])

end
