(* ===== verification/Agent.thy ===== *)
theory Agent
  imports AgentLoopRelation
begin

text \<open>
  The stateful wrapper of packages/agent/src/agent.ts: the queues for steering and
  follow-up messages, the agent's state, the reduction of loop events into it, and the
  lifecycle of a run.

  The world of the loop is the agent's own state, \<open>agent_core\<close>, with an environment of
  type \<open>'x\<close> for everything else; so tools, hooks and listeners may steer, abort or queue.
  What a run only reads (the tools, the hooks, the stream function and the listeners) is
  the record \<open>agent_options\<close>.
\<close>

section \<open>The queue of pending messages\<close>

record message_queue =
  mq_messages :: "agent_message list"
  mq_mode :: queue_mode

definition newQueue :: "queue_mode \<Rightarrow> message_queue" where
  "newQueue m = \<lparr>mq_messages = [], mq_mode = m\<rparr>"

definition enqueue :: "agent_message \<Rightarrow> message_queue \<Rightarrow> message_queue" where
  "enqueue m q = q\<lparr>mq_messages := mq_messages q @ [m]\<rparr>"

definition hasItems :: "message_queue \<Rightarrow> bool" where
  "hasItems q \<longleftrightarrow> length (mq_messages q) > 0"

definition drain :: "message_queue \<Rightarrow> agent_message list \<times> message_queue" where
  "drain q =
     (if mq_mode q = QM_all then (mq_messages q, q\<lparr>mq_messages := []\<rparr>)
      else case mq_messages q of
          [] \<Rightarrow> ([], q)
        | m # ms \<Rightarrow> ([m], q\<lparr>mq_messages := ms\<rparr>))"

definition clearQueue :: "message_queue \<Rightarrow> message_queue" where
  "clearQueue q = q\<lparr>mq_messages := []\<rparr>"

section \<open>State and options\<close>

definition defaultConvertToLlm :: "agent_message list \<Rightarrow> message list" where
  "defaultConvertToLlm ms = List.map_filter (\<lambda>m. case m of Msg x \<Rightarrow> Some x | _ \<Rightarrow> None) ms"

definition emptyCost :: usage_cost where
  "emptyCost = \<lparr>uc_input = 0, uc_output = 0, uc_cacheRead = 0, uc_cacheWrite = 0, uc_total = 0\<rparr>"

definition EMPTY_USAGE :: usage where
  "EMPTY_USAGE = \<lparr>us_input = 0, us_output = 0, us_cacheRead = 0, us_cacheWrite = 0,
     us_cacheWrite1h = None, us_reasoning = None, us_totalTokens = 0, us_cost = emptyCost\<rparr>"

definition DEFAULT_MODEL :: model where
  "DEFAULT_MODEL = \<lparr>md_id = js ''unknown'', md_name = js ''unknown'', md_api = js ''unknown'',
     md_provider = js ''unknown'', md_baseUrl = [], md_reasoning = False, md_thinkingLevelMap = None,
     md_input = [], md_cost = emptyCost, md_contextWindow = 0, md_maxTokens = 0\<rparr>"

text \<open>\<open>ag_active\<close> is the active run: its presence and whether its signal is aborted.
  \<open>ag_skipPoll\<close> is the variable \<open>skipInitialSteeringPoll\<close> of the run's configuration.\<close>

record 'x agent_core =
  ag_systemPrompt :: jstr
  ag_model :: model
  ag_thinkingLevel :: thinking_level
  ag_messages :: "agent_message list"
  ag_isStreaming :: bool
  ag_streamingMessage :: "agent_message option"
  ag_pendingToolCalls :: "jstr set"
  ag_errorMessage :: "jstr option"
  ag_steering :: message_queue
  ag_followUp :: message_queue
  ag_active :: "bool option"
  ag_skipPoll :: bool
  ag_env :: 'x

record agent_init =
  ai_systemPrompt :: "jstr option"
  ai_model :: "model option"
  ai_thinkingLevel :: "thinking_level option"
  ai_messages :: "agent_message list option"
  ai_steeringMode :: "queue_mode option"
  ai_followUpMode :: "queue_mode option"

record 'x agent_options =
  ao_tools :: "'x agent_core agent_tool list"
  ao_convertToLlm :: "agent_message list \<Rightarrow> 'x agent_core \<Rightarrow> message list \<times> 'x agent_core"
  ao_transformContext ::
    "(agent_message list \<Rightarrow> 'x agent_core \<Rightarrow> agent_message list \<times> 'x agent_core) option"
  ao_getApiKey :: "(jstr \<Rightarrow> 'x agent_core \<Rightarrow> jstr option \<times> 'x agent_core) option"
  ao_beforeToolCall :: "('x agent_core before_tool_call_context \<Rightarrow> 'x agent_core \<Rightarrow>
    (jstr + before_tool_call_result option) \<times> 'x agent_core) option"
  ao_afterToolCall :: "('x agent_core after_tool_call_context \<Rightarrow> 'x agent_core \<Rightarrow>
    (jstr + after_tool_call_result option) \<times> 'x agent_core) option"
  ao_prepareNextTurn :: "('x agent_core \<Rightarrow> 'x agent_core turn_update option \<times> 'x agent_core) option"
  ao_prepareNextTurnWithContext :: "('x agent_core turn_context \<Rightarrow> 'x agent_core \<Rightarrow>
    'x agent_core turn_update option \<times> 'x agent_core) option"
  ao_toolExecution :: tool_execution_mode
  ao_listeners :: "(agent_event \<Rightarrow> 'x agent_core \<Rightarrow> 'x agent_core) list"
  ao_now :: "'x agent_core \<Rightarrow> int"
  ao_validate :: "'x agent_core agent_tool \<Rightarrow> tool_call \<Rightarrow> jstr + json"
  ao_streamFn :: "model \<Rightarrow> llm_context \<Rightarrow> request_options \<Rightarrow> 'x agent_core \<Rightarrow>
    (assistant_event list \<times> assistant_message) \<times> 'x agent_core"
  ao_schedule :: "'x agent_core \<Rightarrow> nat list"

text \<open>The constructor's state, with the defaults of the options that are absent.\<close>

definition createAgent :: "agent_init \<Rightarrow> 'x \<Rightarrow> 'x agent_core" where
  "createAgent i x =
     \<lparr>ag_systemPrompt = orDefault (ai_systemPrompt i) [],
      ag_model = orDefault (ai_model i) DEFAULT_MODEL,
      ag_thinkingLevel = orDefault (ai_thinkingLevel i) TL_off,
      ag_messages = orDefault (ai_messages i) [],
      ag_isStreaming = False, ag_streamingMessage = None, ag_pendingToolCalls = {}, ag_errorMessage = None,
      ag_steering = newQueue (orDefault (ai_steeringMode i) QM_one_at_a_time),
      ag_followUp = newQueue (orDefault (ai_followUpMode i) QM_one_at_a_time),
      ag_active = None, ag_skipPoll = False, ag_env = x\<rparr>"

definition setSteeringMode :: "queue_mode \<Rightarrow> 'x agent_core \<Rightarrow> 'x agent_core" where
  "setSteeringMode m c = c\<lparr>ag_steering := (ag_steering c)\<lparr>mq_mode := m\<rparr>\<rparr>"

definition setFollowUpMode :: "queue_mode \<Rightarrow> 'x agent_core \<Rightarrow> 'x agent_core" where
  "setFollowUpMode m c = c\<lparr>ag_followUp := (ag_followUp c)\<lparr>mq_mode := m\<rparr>\<rparr>"

definition steer :: "agent_message \<Rightarrow> 'x agent_core \<Rightarrow> 'x agent_core" where
  "steer m c = c\<lparr>ag_steering := enqueue m (ag_steering c)\<rparr>"

definition followUp :: "agent_message \<Rightarrow> 'x agent_core \<Rightarrow> 'x agent_core" where
  "followUp m c = c\<lparr>ag_followUp := enqueue m (ag_followUp c)\<rparr>"

definition clearSteeringQueue :: "'x agent_core \<Rightarrow> 'x agent_core" where
  "clearSteeringQueue c = c\<lparr>ag_steering := clearQueue (ag_steering c)\<rparr>"

definition clearFollowUpQueue :: "'x agent_core \<Rightarrow> 'x agent_core" where
  "clearFollowUpQueue c = c\<lparr>ag_followUp := clearQueue (ag_followUp c)\<rparr>"

definition clearAllQueues :: "'x agent_core \<Rightarrow> 'x agent_core" where
  "clearAllQueues c = clearFollowUpQueue (clearSteeringQueue c)"

definition hasQueuedMessages :: "'x agent_core \<Rightarrow> bool" where
  "hasQueuedMessages c \<longleftrightarrow> hasItems (ag_steering c) \<or> hasItems (ag_followUp c)"

definition abort :: "'x agent_core \<Rightarrow> 'x agent_core" where
  "abort c = c\<lparr>ag_active := map_option (\<lambda>_. True) (ag_active c)\<rparr>"

definition reset :: "'x agent_core \<Rightarrow> 'x agent_core" where
  "reset c = clearSteeringQueue (clearFollowUpQueue
     (c\<lparr>ag_messages := [], ag_isStreaming := False, ag_streamingMessage := None,
        ag_pendingToolCalls := {}, ag_errorMessage := None\<rparr>))"

section \<open>Reducing events\<close>

definition reduceEvent :: "agent_event \<Rightarrow> 'x agent_core \<Rightarrow> 'x agent_core" where
  "reduceEvent e c =
     (case e of
        MessageStart m \<Rightarrow> c\<lparr>ag_streamingMessage := Some m\<rparr>
      | MessageUpdate m _ \<Rightarrow> c\<lparr>ag_streamingMessage := Some m\<rparr>
      | MessageEnd m \<Rightarrow> c\<lparr>ag_streamingMessage := None, ag_messages := ag_messages c @ [m]\<rparr>
      | ToolExecutionStart i _ _ \<Rightarrow> c\<lparr>ag_pendingToolCalls := insert i (ag_pendingToolCalls c)\<rparr>
      | ToolExecutionEnd i _ _ _ \<Rightarrow> c\<lparr>ag_pendingToolCalls := ag_pendingToolCalls c - {i}\<rparr>
      | TurnEnd m _ \<Rightarrow>
          (case m of
             Msg (MAssistant am) \<Rightarrow>
               (if truthyStr (am_errorMessage am) then c\<lparr>ag_errorMessage := am_errorMessage am\<rparr> else c)
           | _ \<Rightarrow> c)
      | AgentEnd _ \<Rightarrow> c\<lparr>ag_streamingMessage := None\<rparr>
      | _ \<Rightarrow> c)"

datatype agent_error =
    AlreadyProcessingPrompt
  | AlreadyProcessing
  | NothingToContinueFrom
  | CannotContinueFromAssistant
  | ListenerOutsideRun

definition notifyListeners :: "'x agent_options \<Rightarrow> agent_event \<Rightarrow> 'x agent_core \<Rightarrow> 'x agent_core" where
  "notifyListeners opts e c = fold (\<lambda>l. l e) (ao_listeners opts) c"

definition processEvents ::
  "'x agent_options \<Rightarrow> agent_event \<Rightarrow> 'x agent_core \<Rightarrow> (agent_error + unit) \<times> 'x agent_core" where
  "processEvents opts e c =
     (let c' = reduceEvent e c
      in if ag_active c' = None then (Inl ListenerOutsideRun, c')
         else (Inr (), notifyListeners opts e c'))"

section \<open>Running\<close>

definition agentPorts :: "'x agent_options \<Rightarrow> 'x agent_core ports" where
  "agentPorts opts = \<lparr>pt_emit = (\<lambda>e c. snd (processEvents opts e c)),
     pt_aborted = (\<lambda>c. ag_active c = Some True), pt_now = ao_now opts, pt_validate = ao_validate opts,
     pt_stream = ao_streamFn opts, pt_schedule = ao_schedule opts\<rparr>"

definition createContextSnapshot :: "'x agent_options \<Rightarrow> 'x agent_core \<Rightarrow> 'x agent_core agent_context" where
  "createContextSnapshot opts c =
     \<lparr>ac_systemPrompt = ag_systemPrompt c, ac_messages = ag_messages c, ac_tools = Some (ao_tools opts)\<rparr>"

definition pollSteering :: "'x agent_core \<Rightarrow> agent_message list \<times> 'x agent_core" where
  "pollSteering c =
     (if ag_skipPoll c then ([], c\<lparr>ag_skipPoll := False\<rparr>)
      else case drain (ag_steering c) of (ms, q) \<Rightarrow> (ms, c\<lparr>ag_steering := q\<rparr>))"

definition pollFollowUp :: "'x agent_core \<Rightarrow> agent_message list \<times> 'x agent_core" where
  "pollFollowUp c = (case drain (ag_followUp c) of (ms, q) \<Rightarrow> (ms, c\<lparr>ag_followUp := q\<rparr>))"

definition createLoopConfig :: "'x agent_options \<Rightarrow> 'x agent_core \<Rightarrow> 'x agent_core loop_config" where
  "createLoopConfig opts c =
     \<lparr>cfg_model = ag_model c,
      cfg_reasoning = (if ag_thinkingLevel c = TL_off then None else Some (ag_thinkingLevel c)),
      cfg_apiKey = None,
      cfg_convertToLlm = ao_convertToLlm opts, cfg_transformContext = ao_transformContext opts,
      cfg_getApiKey = ao_getApiKey opts, cfg_shouldStopAfterTurn = None,
      cfg_prepareNextTurn =
        (case ao_prepareNextTurnWithContext opts of
           Some h \<Rightarrow> Some h
         | None \<Rightarrow> map_option (\<lambda>h _. h) (ao_prepareNextTurn opts)),
      cfg_getSteeringMessages = Some pollSteering, cfg_getFollowUpMessages = Some pollFollowUp,
      cfg_toolExecution = Some (ao_toolExecution opts),
      cfg_beforeToolCall = ao_beforeToolCall opts, cfg_afterToolCall = ao_afterToolCall opts\<rparr>"

definition failureMessage :: "'x agent_options \<Rightarrow> jstr \<Rightarrow> bool \<Rightarrow> 'x agent_core \<Rightarrow> assistant_message" where
  "failureMessage opts err aborted c =
     \<lparr>am_content = [AText \<lparr>tc_text = [], tc_textSignature = None\<rparr>], am_api = md_api (ag_model c),
      am_provider = md_provider (ag_model c), am_model = md_id (ag_model c), am_responseModel = None,
      am_responseId = None, am_diagnostics = None, am_usage = EMPTY_USAGE,
      am_stopReason = (if aborted then SR_aborted else SR_error), am_errorMessage = Some err,
      am_timestamp = ao_now opts c\<rparr>"

definition handleRunFailure ::
  "'x agent_options \<Rightarrow> jstr \<Rightarrow> bool \<Rightarrow> 'x agent_core \<Rightarrow> 'x agent_core" where
  "handleRunFailure opts err aborted c =
     (let m = assistant_msg (failureMessage opts err aborted c)
      in fold (\<lambda>e c. snd (processEvents opts e c)) [MessageStart m, MessageEnd m, TurnEnd m [], AgentEnd [m]] c)"

definition finishRun :: "'x agent_core \<Rightarrow> 'x agent_core" where
  "finishRun c = c\<lparr>ag_isStreaming := False, ag_streamingMessage := None, ag_pendingToolCalls := {},
     ag_active := None\<rparr>"

definition beginRun :: "'x agent_core \<Rightarrow> 'x agent_core" where
  "beginRun c = c\<lparr>ag_active := Some False, ag_isStreaming := True, ag_streamingMessage := None,
     ag_errorMessage := None\<rparr>"

text \<open>The executor yields \<open>None\<close> when it does not return and \<open>Inl\<close> when it throws.\<close>

definition runWithLifecycle ::
  "'x agent_options \<Rightarrow> ('x agent_core \<Rightarrow> ((jstr + unit) \<times> 'x agent_core) option) \<Rightarrow> 'x agent_core \<Rightarrow>
   ((agent_error + unit) \<times> 'x agent_core) option" where
  "runWithLifecycle opts executor c =
     (if ag_active c \<noteq> None then Some (Inl AlreadyProcessing, c)
      else (case executor (beginRun c) of
              None \<Rightarrow> None
            | Some (Inl e, c1) \<Rightarrow>
                Some (Inr (), finishRun (handleRunFailure opts e (ag_active c1 = Some True) c1))
            | Some (Inr _, c1) \<Rightarrow> Some (Inr (), finishRun c1)))"

definition runPromptMessages ::
  "'x agent_options \<Rightarrow> agent_message list \<Rightarrow> bool \<Rightarrow> 'x agent_core \<Rightarrow>
   ((agent_error + unit) \<times> 'x agent_core) option" where
  "runPromptMessages opts messages skipInitialSteeringPoll c =
     runWithLifecycle opts (\<lambda>c.
       (case runAgentLoop (agentPorts opts) messages (createContextSnapshot opts c) (createLoopConfig opts c)
               (c\<lparr>ag_skipPoll := skipInitialSteeringPoll\<rparr>) of
          None \<Rightarrow> None
        | Some (_, r) \<Rightarrow> Some (Inr (), r_world r))) c"

definition continueErrorText :: "continue_error \<Rightarrow> jstr" where
  "continueErrorText e =
     (case e of
        NoMessagesInContext \<Rightarrow> js ''Cannot continue: no messages in context''
      | LastMessageIsAssistant \<Rightarrow> js ''Cannot continue from message role: assistant'')"

definition runContinuation ::
  "'x agent_options \<Rightarrow> 'x agent_core \<Rightarrow> ((agent_error + unit) \<times> 'x agent_core) option" where
  "runContinuation opts c =
     runWithLifecycle opts (\<lambda>c.
       (case runAgentLoopContinue (agentPorts opts) (createContextSnapshot opts c) (createLoopConfig opts c)
               (c\<lparr>ag_skipPoll := False\<rparr>) of
          Inl e \<Rightarrow> Some (Inl (continueErrorText e), c)
        | Inr None \<Rightarrow> None
        | Inr (Some (_, r)) \<Rightarrow> Some (Inr (), r_world r))) c"

datatype prompt_input =
    TextInput jstr "image_content list"
  | MessageInput agent_message
  | MessagesInput "agent_message list"

definition normalizePromptInput :: "'x agent_options \<Rightarrow> prompt_input \<Rightarrow> 'x agent_core \<Rightarrow> agent_message list" where
  "normalizePromptInput opts input c =
     (case input of
        MessagesInput ms \<Rightarrow> ms
      | MessageInput m \<Rightarrow> [m]
      | TextInput t images \<Rightarrow>
          [user_msg \<lparr>um_content = UBlocks (text_block t # map BImage images), um_timestamp = ao_now opts c\<rparr>])"

definition prompt ::
  "'x agent_options \<Rightarrow> prompt_input \<Rightarrow> 'x agent_core \<Rightarrow> ((agent_error + unit) \<times> 'x agent_core) option" where
  "prompt opts input c =
     (if ag_active c \<noteq> None then Some (Inl AlreadyProcessingPrompt, c)
      else runPromptMessages opts (normalizePromptInput opts input c) False c)"

definition continueRun ::
  "'x agent_options \<Rightarrow> 'x agent_core \<Rightarrow> ((agent_error + unit) \<times> 'x agent_core) option" where
  "continueRun opts c =
     (if ag_active c \<noteq> None then Some (Inl AlreadyProcessing, c)
      else if ag_messages c = [] then Some (Inl NothingToContinueFrom, c)
      else if isAssistant (last (ag_messages c))
      then (case drain (ag_steering c) of (queued, q) \<Rightarrow>
              let c1 = c\<lparr>ag_steering := q\<rparr>
              in if length queued > 0 then runPromptMessages opts queued True c1
                 else (case drain (ag_followUp c1) of (queued', q') \<Rightarrow>
                         let c2 = c1\<lparr>ag_followUp := q'\<rparr>
                         in if length queued' > 0 then runPromptMessages opts queued' False c2
                            else Some (Inl CannotContinueFromAssistant, c2)))
      else runContinuation opts c)"

end
