(* ===== verification/AgentFacts.thy ===== *)
theory AgentFacts
  imports Agent Samples
begin

text \<open>
  The correctness of the agent wrapper. A queue that hands out its contents in order is a
  locale, interpreted by the pending message queue. The state a run leaves behind is
  obtained from the events of the loop: the transcript and the pending calls are a fold
  over them, the relation \<open>tracks\<close>.
\<close>

section \<open>Queues\<close>

fun drainTimes :: "('q \<Rightarrow> 'm list \<times> 'q) \<Rightarrow> nat \<Rightarrow> 'q \<Rightarrow> 'm list \<times> 'q" where
  "drainTimes deq 0 q = ([], q)"
| "drainTimes deq (Suc n) q =
     (case deq q of (ms, q1) \<Rightarrow> (case drainTimes deq n q1 of (ms', q2) \<Rightarrow> (ms @ ms', q2)))"

locale fifo_queue =
  fixes contents :: "'q \<Rightarrow> 'm list"
    and enq :: "'m \<Rightarrow> 'q \<Rightarrow> 'q"
    and deq :: "'q \<Rightarrow> 'm list \<times> 'q"
  assumes contents_enq: "contents (enq m q) = contents q @ [m]"
    and deq_split: "deq q = (ms, q') \<Longrightarrow> contents q = ms @ contents q'"
    and deq_progress: "deq q = (ms, q') \<Longrightarrow> contents q \<noteq> [] \<Longrightarrow> ms \<noteq> []"
begin

lemma drainTimes_split: "drainTimes deq n q = (ms, q') \<Longrightarrow> contents q = ms @ contents q'"
  by (induction n arbitrary: q ms) (auto split: prod.splits dest!: deq_split)

lemma drainTimes_empties:
  "length (contents q) \<le> n \<Longrightarrow> drainTimes deq n q = (ms, q') \<Longrightarrow> contents q' = []"
proof (induction n arbitrary: q ms)
  case (Suc n)
  obtain ms1 q1 where d: "deq q = (ms1, q1)" by fastforce
  obtain ms2 q2 where r: "drainTimes deq n q1 = (ms2, q2)" by fastforce
  have q2: "q2 = q'" using Suc.prems(2) d r by simp
  show ?case
  proof (cases "contents q = []")
    case True
    with deq_split [OF d] have "length (contents q1) \<le> n" by simp
    from Suc.IH [OF this r [unfolded q2]] show ?thesis .
  next
    case False
    with deq_split [OF d] deq_progress [OF d] Suc.prems(1) have "length (contents q1) \<le> n"
      by (cases ms1) auto
    from Suc.IH [OF this r [unfolded q2]] show ?thesis .
  qed
qed simp

lemma drainTimes_all:
  assumes "length (contents q) \<le> n"
  shows "fst (drainTimes deq n q) = contents q"
proof -
  obtain ms q' where d: "drainTimes deq n q = (ms, q')" by fastforce
  from drainTimes_split [OF d] drainTimes_empties [OF assms d] d show ?thesis by simp
qed

lemma enq_fold: "contents (fold enq ms q) = contents q @ ms"
  by (induction ms arbitrary: q) (simp_all add: contents_enq)

end

interpretation pending: fifo_queue mq_messages enqueue drain
  by unfold_locales (auto simp: enqueue_def drain_def split: if_splits list.splits)

section \<open>The state a run builds\<close>

definition view :: "'x agent_core \<Rightarrow> agent_message list \<times> jstr set" where
  "view c = (ag_messages c, ag_pendingToolCalls c)"

fun viewStep :: "agent_event \<Rightarrow> agent_message list \<times> jstr set \<Rightarrow> agent_message list \<times> jstr set" where
  "viewStep (MessageEnd m) (ms, S) = (ms @ [m], S)"
| "viewStep (ToolExecutionStart i _ _) (ms, S) = (ms, insert i S)"
| "viewStep (ToolExecutionEnd i _ _ _) (ms, S) = (ms, S - {i})"
| "viewStep _ v = v"

lemma fold_viewStep: "fold viewStep es (ms, S) = (ms @ messagesEnded es, openCalls S es)"
proof (induction es arbitrary: ms S)
  case (Cons e es)
  then show ?case by (cases e) simp_all
qed simp

lemma view_reduceEvent: "view (reduceEvent e c) = viewStep e (view c)"
  by (cases e) (auto simp: reduceEvent_def view_def split: agent_message.splits message.splits)

definition tracks :: "'x agent_core run \<Rightarrow> 'x agent_core run \<Rightarrow> bool" where
  "tracks r r' \<longleftrightarrow> (\<exists>es. r_trace r' = r_trace r @ es \<and> view (r_world r') = fold viewStep es (view (r_world r)))"

definition keepsView :: "('x agent_core \<Rightarrow> 'a \<times> 'x agent_core) \<Rightarrow> bool" where
  "keepsView h \<longleftrightarrow> (\<forall>c. view (snd (h c)) = view c)"

definition hookKeepsView :: "('y \<Rightarrow> 'x agent_core \<Rightarrow> 'a \<times> 'x agent_core) option \<Rightarrow> bool" where
  "hookKeepsView h \<longleftrightarrow> (\<forall>f x. h = Some f \<longrightarrow> keepsView (f x))"

definition updateTools :: "'x agent_core turn_update option \<Rightarrow> 'x agent_core agent_tool list" where
  "updateTools u = (case u of None \<Rightarrow> [] | Some u \<Rightarrow>
     (case tu_context u of None \<Rightarrow> [] | Some ctx \<Rightarrow> (case ac_tools ctx of None \<Rightarrow> [] | Some ts \<Rightarrow> ts)))"

text \<open>
  Callbacks that leave the transcript and the pending calls to the agent. They may still
  steer, queue, abort and change the environment.
\<close>

definition quietOptions :: "'x agent_options \<Rightarrow> bool" where
  "quietOptions opts \<longleftrightarrow>
     (\<forall>t \<in> set (ao_tools opts). \<forall>i a. keepsView (at_execute t i a)) \<and>
     (\<forall>ms. keepsView (ao_convertToLlm opts ms)) \<and>
     hookKeepsView (ao_transformContext opts) \<and> hookKeepsView (ao_getApiKey opts) \<and>
     hookKeepsView (ao_beforeToolCall opts) \<and> hookKeepsView (ao_afterToolCall opts) \<and>
     hookKeepsView (ao_prepareNextTurnWithContext opts) \<and>
     (\<forall>h. ao_prepareNextTurn opts = Some h \<longrightarrow> keepsView h \<and>
        (\<forall>c. \<forall>t \<in> set (updateTools (fst (h c))). \<forall>i a. keepsView (at_execute t i a))) \<and>
     (\<forall>h x c. ao_prepareNextTurnWithContext opts = Some h \<longrightarrow>
        (\<forall>t \<in> set (updateTools (fst (h x c))). \<forall>i a. keepsView (at_execute t i a))) \<and>
     (\<forall>l \<in> set (ao_listeners opts). \<forall>e c. view (l e c) = view c) \<and>
     (\<forall>m ctx o'. keepsView (ao_streamFn opts m ctx o'))"

lemma staysIn_tracks: "keepsView h \<Longrightarrow> staysIn tracks h"
  unfolding staysIn_def
proof (intro allI impI)
  fix r a r'
  assume k: "keepsView h" and h: "callHook h r = (a, r')"
  have "view (r_world r') = view (r_world r)"
    using k callHook_result [OF h] unfolding keepsView_def by (metis snd_conv)
  with callHook_trace [OF h] show "tracks r r'"
    unfolding tracks_def by (intro exI [of _ "[]"]) simp
qed

lemma hookStays_tracks: "hookKeepsView h \<Longrightarrow> hookStays tracks h"
  by (auto simp: hookStays_def hookKeepsView_def intro: staysIn_tracks)

lemma view_notifyListeners:
  assumes "\<forall>l \<in> set (ao_listeners opts). \<forall>e c. view (l e c) = view c"
  shows "view (notifyListeners opts e c) = view c"
proof -
  have "view (fold (\<lambda>l. l e) ls c) = view c" if "set ls \<subseteq> set (ao_listeners opts)" for ls
    using that assms by (induction ls arbitrary: c) auto
  then show ?thesis by (simp add: notifyListeners_def)
qed

lemma view_processEvents:
  "quietOptions opts \<Longrightarrow> view (snd (processEvents opts e c)) = viewStep e (view c)"
  by (simp add: processEvents_def Let_def view_notifyListeners view_reduceEvent quietOptions_def)

lemma loopRel_tracks:
  assumes "quietOptions opts"
  shows "loopRel tracks (agentPorts opts)"
  unfolding loopRel_def
proof (intro conjI allI)
  show "reflp tracks" by (auto simp: reflp_def tracks_def intro: exI [of _ "[]"])
  show "transp tracks"
  proof (rule transpI)
    fix r1 r2 r3
    assume "tracks r1 r2" "tracks r2 r3"
    then obtain es fs where "r_trace r2 = r_trace r1 @ es" "view (r_world r2) = fold viewStep es (view (r_world r1))"
        "r_trace r3 = r_trace r2 @ fs" "view (r_world r3) = fold viewStep fs (view (r_world r2))"
      by (auto simp: tracks_def)
    then have "r_trace r3 = r_trace r1 @ (es @ fs) \<and>
        view (r_world r3) = fold viewStep (es @ fs) (view (r_world r1))" by simp
    then show "tracks r1 r3" unfolding tracks_def by blast
  qed
  show "tracks r (emit (agentPorts opts) e r)" for e r
    using view_processEvents [OF assms, of e "r_world r"]
    by (auto simp: tracks_def emit_def agentPorts_def intro!: exI [of _ "[e]"])
  show "staysIn tracks (pt_stream (agentPorts opts) m c o')" for m c o'
    using assms by (auto simp: agentPorts_def quietOptions_def intro: staysIn_tracks)
qed

lemma toolsStay_tracks:
  "toolsStay tracks ctx"
  if "\<And>ts t i a. ac_tools ctx = Some ts \<Longrightarrow> t \<in> set ts \<Longrightarrow> keepsView (at_execute t i a)"
  using that by (auto simp: toolsStay_def intro: staysIn_tracks)

lemma configStays_tracks:
  assumes q: "quietOptions opts"
  shows "configStays tracks (createLoopConfig opts c)"
proof -
  have p: "hookStays tracks (cfg_prepareNextTurn (createLoopConfig opts c))"
    using q by (auto simp: quietOptions_def hookStays_def hookKeepsView_def createLoopConfig_def
        split: option.splits intro: staysIn_tracks)
  have u: "toolsStay tracks ctx"
    if "cfg_prepareNextTurn (createLoopConfig opts c) = Some h" "fst (h x w) = Some u"
      "tu_context u = Some ctx" for h x w u ctx
  proof (rule toolsStay_tracks)
    fix ts t i a
    assume t: "ac_tools ctx = Some ts" "t \<in> set ts"
    have "t \<in> set (updateTools (fst (h x w)))" using that t by (simp add: updateTools_def)
    then show "keepsView (at_execute t i a)"
      using q that(1) by (auto simp: quietOptions_def createLoopConfig_def split: option.splits)
  qed
  have "supplyStays tracks (cfg_getSteeringMessages (createLoopConfig opts c))"
    "supplyStays tracks (cfg_getFollowUpMessages (createLoopConfig opts c))"
    by (auto simp: createLoopConfig_def supplyStays_def keepsView_def pollSteering_def pollFollowUp_def view_def
        split: prod.splits intro!: staysIn_tracks)
  with p u q show ?thesis
    unfolding configStays_def
    by (auto simp: createLoopConfig_def quietOptions_def hookStays_tracks staysIn_tracks) (auto simp: hookStays_def)
qed

lemma toolsStay_snapshot: "quietOptions opts \<Longrightarrow> toolsStay tracks (createContextSnapshot opts c)"
  by (auto simp: quietOptions_def createContextSnapshot_def intro!: toolsStay_tracks)

lemma tracks_runAgentLoop:
  assumes q: "quietOptions opts"
    and run: "runAgentLoop (agentPorts opts) ms (createContextSnapshot opts c) (createLoopConfig opts c) w = Some (new, r)"
  shows "tracks (startRun w) r"
proof -
  let ?P = "agentPorts opts" and ?ctx = "createContextSnapshot opts c"
  let ?r = "injectPending ?P ms (emits ?P [AgentStart, TurnStart] (startRun w))"
  note rel = loopRel_tracks [OF q]
  have "toolsStay tracks (?ctx\<lparr>ac_messages := ac_messages ?ctx @ ms\<rparr>)"
    using toolsStay_snapshot [OF q, of c] by (simp add: toolsStay_def)
  from rel_runLoop [OF rel configStays_tracks [OF q] this] run have "tracks ?r r"
    by (simp add: runAgentLoop_def)
  moreover have "tracks (startRun w) ?r"
    by (rule rel_trans [OF rel rel_emits [OF rel] rel_injectPending [OF rel]])
  ultimately show ?thesis using rel_trans [OF rel] by blast
qed

lemma view_run:
  assumes q: "quietOptions opts" and wf: "wfPorts (agentPorts opts)"
    and run: "runAgentLoop (agentPorts opts) ms (createContextSnapshot opts c) (createLoopConfig opts c) w = Some (new, r)"
    and idle: "ag_pendingToolCalls w = {}"
  shows "view (r_world r) = (ag_messages w @ new, {})" and "prefix ms new"
proof -
  from tracks_runAgentLoop [OF q run]
  have "view (r_world r) = fold viewStep (r_trace r) (view w)"
    by (auto simp: tracks_def startRun_def)
  moreover note ch = runAgentLoop_chunk [OF wf run]
  have "messagesEnded (r_trace r) = new" "openCalls {} (r_trace r) = {}"
    using ch(1) by (auto simp: chunk_def)
  ultimately show "view (r_world r) = (ag_messages w @ new, {})"
    using idle by (simp add: view_def fold_viewStep)
  show "prefix ms new" by (rule ch(3))
qed

definition idle :: "'x agent_core \<Rightarrow> bool" where
  "idle c \<longleftrightarrow> ag_active c = None \<and> \<not> ag_isStreaming c \<and> ag_streamingMessage c = None \<and>
     ag_pendingToolCalls c = {}"

lemma idle_finishRun [simp]: "idle (finishRun c)"
  by (simp add: idle_def finishRun_def)

lemma messages_finishRun [simp]: "ag_messages (finishRun c) = ag_messages c"
  by (simp add: finishRun_def)

lemma runPromptMessages_spec:
  assumes q: "quietOptions opts" and wf: "wfPorts (agentPorts opts)" and idle: "idle c"
    and run: "runPromptMessages opts ms skip c = Some (res, c')"
  shows "res = Inr () \<and> idle c' \<and> (\<exists>new. ag_messages c' = ag_messages c @ new \<and> prefix ms new)"
proof -
  let ?c = "beginRun c"
  let ?w = "?c\<lparr>ag_skipPoll := skip\<rparr>"
  have w: "ag_messages ?w = ag_messages c" "ag_pendingToolCalls ?w = {}"
    using idle by (simp_all add: beginRun_def idle_def)
  obtain new r where
    loop: "runAgentLoop (agentPorts opts) ms (createContextSnapshot opts ?c) (createLoopConfig opts ?c) ?w = Some (new, r)"
    and out: "res = Inr ()" "c' = finishRun (r_world r)"
    using run idle
    by (auto simp: runPromptMessages_def runWithLifecycle_def idle_def split: option.splits)
  from view_run [OF q wf loop w(2)] w(1) out show ?thesis by (auto simp: view_def)
qed

text \<open>A wrapper whose tool steers the agent it runs for, and whose listener changes a queue mode.\<close>

definition sampleAgentOptions :: "nat agent_options" where
  "sampleAgentOptions = \<lparr>ao_tools = [\<lparr>tool_name = js ''read'', tool_description = [], tool_parameters = JNull,
       at_label = [], at_prepareArguments = None,
       at_execute = (\<lambda>i a c. (([sampleResult], Inr sampleResult), steer samplePrompt c)),
       at_executionMode = None\<rparr>],
     ao_convertToLlm = (\<lambda>ms c. (defaultConvertToLlm ms, c)), ao_transformContext = None, ao_getApiKey = None,
     ao_beforeToolCall = None, ao_afterToolCall = None, ao_prepareNextTurn = None,
     ao_prepareNextTurnWithContext = None, ao_toolExecution = Parallel,
     ao_listeners = [\<lambda>e c. (case e of AgentStart \<Rightarrow> setFollowUpMode QM_all c | _ \<Rightarrow> c)], ao_now = (\<lambda>c. 7), ao_validate = (\<lambda>t c. Inr JNull),
     ao_streamFn = (\<lambda>m ctx o' c. (case sampleStream (ag_env c) of (res, n) \<Rightarrow> (res, c\<lparr>ag_env := n\<rparr>))),
     ao_schedule = (\<lambda>c. [])\<rparr>"

definition sampleAgent :: "nat agent_core" where
  "sampleAgent = createAgent \<lparr>ai_systemPrompt = None, ai_model = None, ai_thinkingLevel = None,
     ai_messages = Some [samplePrompt, assistant_msg sampleStop], ai_steeringMode = None,
     ai_followUpMode = Some QM_all\<rparr> 0"

lemma quiet_sample: "quietOptions sampleAgentOptions"
  by (auto simp: quietOptions_def sampleAgentOptions_def keepsView_def hookKeepsView_def view_def steer_def
      setFollowUpMode_def split: prod.split agent_event.split)

lemma wfPorts_sampleAgent: "wfPorts (agentPorts sampleAgentOptions)"
  by (auto simp: wfPorts_def agentPorts_def sampleAgentOptions_def sampleStream_def split: nat.split)

lemma idle_sample: "idle sampleAgent"
  by (simp add: sampleAgent_def createAgent_def idle_def)

lemma sample_run:
  "turnLoopN (Suc (Suc (Suc 0))) (agentPorts sampleAgentOptions) (runState (agentPorts sampleAgentOptions)
     (normalizePromptInput sampleAgentOptions (TextInput (js ''hi'') []) sampleAgent)
     (createContextSnapshot sampleAgentOptions (beginRun sampleAgent))
     (createLoopConfig sampleAgentOptions (beginRun sampleAgent))
     ((beginRun sampleAgent)\<lparr>ag_skipPoll := False\<rparr>)) \<noteq> None"
  by (simp add: turn_def runState_def pollQueue_def createLoopConfig_def createContextSnapshot_def
      sampleAgent_def createAgent_def beginRun_def sampleAgentOptions_def callHook_def pollSteering_def
      pollFollowUp_def drain_def newQueue_def emit_def agentPorts_def processEvents_def Let_def startRun_def
      reduceEvent_def notifyListeners_def streamAssistantResponse_def sampleStream_def sampleStop_def
      sampleAssistant_def sampleText_def runToolCalls_def injectPending_def applyTurnUpdate_def
      normalizePromptInput_def setFollowUpMode_def finishResponse_def truthyStr_def setLast_def)

lemma sample_prompt_Some:
  "\<exists>res c'. prompt sampleAgentOptions (TextInput (js ''hi'') []) sampleAgent = Some (res, c')"
  using runAgentLoop_evaluates [OF sample_run] idle_sample
  by (auto simp: prompt_def runPromptMessages_def runWithLifecycle_def idle_def)

end
