(* ===== verification/AgentProps.thy ===== *)
theory AgentProps
  imports AgentFacts
begin

text \<open>The properties of the agent wrapper and its queues.\<close>

text \<open>Steering and follow-up messages leave their queue in the order they were queued: in both
  modes, as many drains as there are messages hand out exactly the queued messages, none
  lost or repeated, and a drain of a non-empty queue always hands out something.\<close>

theorem queue_drains_in_order:
  "fst (drainTimes drain (length ms) (fold enqueue ms (newQueue mode))) = ms"
  using pending.drainTimes_all [of "fold enqueue ms (newQueue mode)" "length ms"] pending.enq_fold [of ms "newQueue mode"]
  by (simp add: newQueue_def)



text \<open>A run that throws still ends: the agent is idle afterwards, the transcript has grown by
  one assistant message that carries the error and the stop reason (aborted when the
  signal was aborted, error otherwise), and the error is the agent's error message.\<close>

theorem failed_run_is_recorded:
  assumes "quietOptions opts" and "\<forall>l \<in> set (ao_listeners opts). \<forall>e c. ag_errorMessage (l e c) = ag_errorMessage c \<and>
      ag_active (l e c) = ag_active c"
    and "ag_active c = None" and "executor (beginRun c) = Some (Inl err, c1)" and "err \<noteq> []"
    and "ag_active c1 = Some aborted"
  shows "\<exists>c'. runWithLifecycle opts executor c = Some (Inr (), c') \<and> idle c' \<and>
    ag_messages c' = ag_messages c1 @ [assistant_msg (failureMessage opts err aborted c1)] \<and>
    ag_errorMessage c' = Some err"
proof -
  let ?m = "assistant_msg (failureMessage opts err aborted c1)"
  let ?p = "\<lambda>e c. snd (processEvents opts e c)"
  have n: "ag_errorMessage (notifyListeners opts e c) = ag_errorMessage c \<and>
      ag_active (notifyListeners opts e c) = ag_active c" for e c
  proof -
    have "ag_errorMessage (fold (\<lambda>l. l e) ls c) = ag_errorMessage c \<and> ag_active (fold (\<lambda>l. l e) ls c) = ag_active c"
      if "set ls \<subseteq> set (ao_listeners opts)" for ls
      using that assms(2) by (induction ls arbitrary: c) auto
    then show ?thesis by (simp add: notifyListeners_def)
  qed
  have err: "ag_errorMessage (?p e c) = ag_errorMessage (reduceEvent e c)" for e c
    by (simp add: processEvents_def Let_def n)
  have view: "view (handleRunFailure opts err aborted c1) = (ag_messages c1 @ [?m], ag_pendingToolCalls c1)"
    using view_processEvents [OF assms(1)] by (simp add: handleRunFailure_def Let_def view_def)
  have "ag_errorMessage (handleRunFailure opts err aborted c1) = Some err"
    by (simp add: handleRunFailure_def Let_def err reduceEvent_def failureMessage_def truthyStr_def assms(5))
  with view show ?thesis using assms(3,4,6)
    by (simp add: runWithLifecycle_def view_def finishRun_def idle_def)
qed

theorem failed_run_is_recorded_witness:
  "\<exists>c'. runWithLifecycle sampleAgentOptions (\<lambda>c. Some (Inl (js ''boom''), abort c)) sampleAgent = Some (Inr (), c') \<and>
     idle c' \<and> ag_errorMessage c' = Some (js ''boom'')"
proof -
  have a: "\<forall>l \<in> set (ao_listeners sampleAgentOptions). \<forall>e c. ag_errorMessage (l e c) = ag_errorMessage c \<and>
      ag_active (l e c) = ag_active c"
    by (simp add: sampleAgentOptions_def setFollowUpMode_def split: agent_event.split)
  have b: "ag_active sampleAgent = None" by (simp add: sampleAgent_def createAgent_def)
  let ?ex = "\<lambda>c. Some (Inl (js ''boom''), abort c)"
  have e: "?ex (beginRun sampleAgent) = Some (Inl (js ''boom''), abort (beginRun sampleAgent))" by (rule refl)
  have "js ''boom'' \<noteq> []" "ag_active (abort (beginRun sampleAgent)) = Some True"
    by (simp_all add: js_def abort_def beginRun_def)
  with failed_run_is_recorded [OF quiet_sample a b, of ?ex "js ''boom''" "abort (beginRun sampleAgent)" True] e
  show ?thesis by blast
qed

text \<open>Continuing is only refused for the reasons the agent states: the loop's own refusals never
  occur, because the agent continues from the loop only when the transcript is non-empty
  and does not end with an assistant message. A refused continuation changes nothing.\<close>

theorem continue_refusals:
  "(case continueRun opts c of
      Some (Inl e, c') \<Rightarrow> c' = c \<and>
        (ag_active c \<noteq> None \<and> e = AlreadyProcessing \<or>
         ag_active c = None \<and> ag_messages c = [] \<and> e = NothingToContinueFrom \<or>
         ag_active c = None \<and> ag_messages c \<noteq> [] \<and> isAssistant (last (ag_messages c)) \<and>
           \<not> hasQueuedMessages c \<and> e = CannotContinueFromAssistant)
    | _ \<Rightarrow> True) \<and>
   (case runAgentLoopContinue (agentPorts opts) (createContextSnapshot opts c) (createLoopConfig opts c) w of
      Inl e \<Rightarrow> ag_messages c = [] \<or> isAssistant (last (ag_messages c))
    | Inr _ \<Rightarrow> True)"
proof
  have lc: "fst res = Inr ()" if "runWithLifecycle opts ex d = Some res" "ag_active d = None" for ex d res
    using that by (auto simp: runWithLifecycle_def split: option.splits sum.splits prod.splits)
  have d: "drain q = ([], q') \<Longrightarrow> q' = q \<and> \<not> hasItems q" for q q'
    by (cases q) (auto simp: drain_def hasItems_def split: if_splits list.splits)
  show "case continueRun opts c of
      Some (Inl e, c') \<Rightarrow> c' = c \<and>
        (ag_active c \<noteq> None \<and> e = AlreadyProcessing \<or>
         ag_active c = None \<and> ag_messages c = [] \<and> e = NothingToContinueFrom \<or>
         ag_active c = None \<and> ag_messages c \<noteq> [] \<and> isAssistant (last (ag_messages c)) \<and>
           \<not> hasQueuedMessages c \<and> e = CannotContinueFromAssistant)
    | _ \<Rightarrow> True"
    by (auto simp: continueRun_def runPromptMessages_def runContinuation_def Let_def hasQueuedMessages_def
        split: option.splits sum.splits prod.splits if_splits dest!: lc d)
  show "case runAgentLoopContinue (agentPorts opts) (createContextSnapshot opts c) (createLoopConfig opts c) w of
      Inl e \<Rightarrow> ag_messages c = [] \<or> isAssistant (last (ag_messages c))
    | Inr _ \<Rightarrow> True"
    by (simp add: runAgentLoopContinue_def createContextSnapshot_def)
qed

end
