(* ===== verification/SessionTypes.thy ===== *)
theory SessionTypes
  imports Messages
begin

text \<open>
  The session tree's data, packages/agent/src/harness/types.ts: entries, errors, the
  context built from a path and the storage interface.

  The eleven entry types share \<open>id\<close>, \<open>parentId\<close> and \<open>timestamp\<close>; the rest of an entry is
  its body. An absent optional field and a null id are \<open>None\<close>.
\<close>

section \<open>Errors\<close>

datatype session_error_code =
  SE_not_found | SE_invalid_session | SE_invalid_entry | SE_invalid_fork_target | SE_storage | SE_unknown

record session_error =
  se_code :: session_error_code
  se_message :: jstr

definition notFound :: "jstr \<Rightarrow> session_error" where
  "notFound i = \<lparr>se_code = SE_not_found, se_message = js ''Entry '' @ i @ js '' not found''\<rparr>"

definition invalidSession :: "jstr \<Rightarrow> session_error" where
  "invalidSession i = \<lparr>se_code = SE_invalid_session, se_message = js ''Entry '' @ i @ js '' not found''\<rparr>"

section \<open>Entries\<close>

record compaction_data =
  cd_summary :: jstr
  cd_firstKeptEntryId :: "jstr option"
  cd_tokensBefore :: int
  cd_retainedTail :: "agent_message list option"
  cd_details :: "json option"
  cd_usage :: "usage option"
  cd_fromHook :: "bool option"

record branch_summary_data =
  bd_fromId :: jstr
  bd_summary :: jstr
  bd_details :: "json option"
  bd_usage :: "usage option"
  bd_fromHook :: "bool option"

record custom_message_data =
  cmd_customType :: jstr
  cmd_content :: user_content
  cmd_details :: "json option"
  cmd_display :: bool

datatype entry_body =
    E_message agent_message
  | E_thinkingLevelChange jstr
  | E_modelChange jstr jstr
  | E_activeToolsChange "jstr list"
  | E_compaction compaction_data
  | E_branchSummary branch_summary_data
  | E_custom jstr "json option"
  | E_customMessage custom_message_data
  | E_label jstr "jstr option"
  | E_sessionInfo "jstr option"
  | E_leaf "jstr option"

record entry =
  en_id :: jstr
  en_parentId :: "jstr option"
  en_timestamp :: jstr
  en_body :: entry_body

fun isCompaction :: "entry_body \<Rightarrow> bool" where
  "isCompaction (E_compaction _) = True"
| "isCompaction _ = False"

definition compactionOf :: "entry \<Rightarrow> compaction_data option" where
  "compactionOf e = (case en_body e of E_compaction d \<Rightarrow> Some d | _ \<Rightarrow> None)"

record session_context =
  sx_messages :: "agent_message list"
  sx_thinkingLevel :: jstr
  sx_model :: "(jstr \<times> jstr) option"
  sx_activeToolNames :: "jstr list option"

record session_stats =
  ss_messageCount :: nat
  ss_cachedTokens :: int
  ss_uncachedTokens :: int
  ss_totalTokens :: int
  ss_costTotal :: rat

record session_metadata =
  sm_id :: jstr
  sm_createdAt :: jstr

record cursor_options =
  co_afterEntrySeq :: "nat option"
  co_limit :: "nat option"

section \<open>The storage interface\<close>

text \<open>
  The operations a session calls, over a storage state \<open>'s\<close>. \<open>so_now\<close> is the clock the
  session reads when it stamps an entry. A path lookup may not return, which is \<open>None\<close>.
\<close>

record 's storage_ops =
  so_getLeafId :: "'s \<Rightarrow> session_error + jstr option"
  so_setLeafId :: "jstr option \<Rightarrow> 's \<Rightarrow> (session_error + unit) \<times> 's"
  so_createEntryId :: "'s \<Rightarrow> jstr \<times> 's"
  so_appendEntry :: "entry \<Rightarrow> 's \<Rightarrow> (session_error + unit) \<times> 's"
  so_getEntry :: "jstr \<Rightarrow> 's \<Rightarrow> entry option"
  so_getEntries :: "cursor_options \<Rightarrow> 's \<Rightarrow> entry list"
  so_getPath :: "jstr option \<Rightarrow> 's \<Rightarrow> (session_error + entry list) option"
  so_getLabel :: "jstr \<Rightarrow> 's \<Rightarrow> jstr option"
  so_getSessionName :: "'s \<Rightarrow> jstr option"
  so_getSessionStats :: "'s \<Rightarrow> session_stats"
  so_now :: "'s \<Rightarrow> jstr"

end
