(* ===== verification/MemoryStorage.thy ===== *)
theory MemoryStorage
  imports SessionTypes
begin

text \<open>
  The in-memory session storage of packages/agent/src/harness/session/memory-storage.ts.

  Random identifiers and the clock come from outside: a source \<open>id_source\<close> gives the
  results of successive calls of \<open>uuidv7()\<close> and of the clock, and the storage counts the
  calls. A \<open>Map\<close> is a HOL map; none of them is iterated.
\<close>

record id_source =
  is_uuid :: "nat \<Rightarrow> jstr"
  is_clock :: "nat \<Rightarrow> jstr"

record mem_storage =
  ms_metadata :: session_metadata
  ms_entries :: "entry list"
  ms_byId :: "jstr \<Rightarrow> entry option"
  ms_labelsById :: "jstr \<Rightarrow> jstr option"
  ms_leafId :: "jstr option"
  ms_calls :: nat

definition updateLabelCache :: "entry \<Rightarrow> (jstr \<Rightarrow> jstr option) \<Rightarrow> jstr \<Rightarrow> jstr option" where
  "updateLabelCache e labels =
     (case en_body e of
        E_label target l \<Rightarrow>
          (let label = map_option trim l
           in if truthyStr label then labels(target := label) else labels(target := None))
      | _ \<Rightarrow> labels)"

definition buildLabelsById :: "entry list \<Rightarrow> jstr \<Rightarrow> jstr option" where
  "buildLabelsById es = fold updateLabelCache es Map.empty"

definition lastChars :: "nat \<Rightarrow> jstr \<Rightarrow> jstr" where
  "lastChars n s = drop (length s - n) s"

text \<open>At most \<open>k\<close> attempts with short ids, then a full one.\<close>

fun generateEntryId :: "nat \<Rightarrow> id_source \<Rightarrow> (jstr \<Rightarrow> entry option) \<Rightarrow> nat \<Rightarrow> jstr \<times> nat" where
  "generateEntryId 0 src byId n = (is_uuid src n, Suc n)"
| "generateEntryId (Suc k) src byId n =
     (let i = lastChars 8 (is_uuid src n)
      in if byId i = None then (i, Suc n) else generateEntryId k src byId (Suc n))"

definition leafIdAfterEntry :: "entry \<Rightarrow> jstr option" where
  "leafIdAfterEntry e = (case en_body e of E_leaf target \<Rightarrow> target | _ \<Rightarrow> Some (en_id e))"

text \<open>The map the constructor builds from an entry list: the last entry of an id wins.\<close>

definition indexById :: "entry list \<Rightarrow> jstr \<Rightarrow> entry option" where
  "indexById es = fold (\<lambda>e m. m(en_id e \<mapsto> e)) es Map.empty"

definition newMemStorage ::
  "id_source \<Rightarrow> entry list \<Rightarrow> session_metadata option \<Rightarrow> nat \<Rightarrow> session_error + mem_storage" where
  "newMemStorage src es metadata n =
     (let byId = indexById es;
          leaf = fold (\<lambda>e _. leafIdAfterEntry e) es None
      in case leaf of
           Some i \<Rightarrow>
             if byId i = None then Inl (invalidSession i)
             else Inr \<lparr>ms_metadata = orDefault metadata \<lparr>sm_id = is_uuid src n, sm_createdAt = is_clock src n\<rparr>,
                    ms_entries = es, ms_byId = byId, ms_labelsById = buildLabelsById es, ms_leafId = leaf,
                    ms_calls = Suc n\<rparr>
         | None \<Rightarrow>
             Inr \<lparr>ms_metadata = orDefault metadata \<lparr>sm_id = is_uuid src n, sm_createdAt = is_clock src n\<rparr>,
                    ms_entries = es, ms_byId = byId, ms_labelsById = buildLabelsById es, ms_leafId = leaf,
                    ms_calls = Suc n\<rparr>)"

definition memGetLeafId :: "mem_storage \<Rightarrow> session_error + jstr option" where
  "memGetLeafId s =
     (case ms_leafId s of
        Some i \<Rightarrow> (if ms_byId s i = None then Inl (invalidSession i) else Inr (Some i))
      | None \<Rightarrow> Inr None)"

definition memCreateEntryId :: "id_source \<Rightarrow> mem_storage \<Rightarrow> jstr \<times> mem_storage" where
  "memCreateEntryId src s =
     (case generateEntryId 100 src (ms_byId s) (ms_calls s) of (i, n) \<Rightarrow> (i, s\<lparr>ms_calls := n\<rparr>))"

definition memSetLeafId :: "id_source \<Rightarrow> jstr option \<Rightarrow> mem_storage \<Rightarrow> (session_error + unit) \<times> mem_storage" where
  "memSetLeafId src leaf s =
     (if leaf \<noteq> None \<and> ms_byId s (the leaf) = None then (Inl (notFound (the leaf)), s)
      else (case memCreateEntryId src s of (i, s1) \<Rightarrow>
              let e = \<lparr>en_id = i, en_parentId = ms_leafId s1, en_timestamp = is_clock src (ms_calls s1),
                       en_body = E_leaf leaf\<rparr>
              in (Inr (), s1\<lparr>ms_entries := ms_entries s1 @ [e], ms_byId := (ms_byId s1)(i \<mapsto> e),
                             ms_leafId := leaf, ms_calls := Suc (ms_calls s1)\<rparr>)))"

definition memAppendEntry :: "entry \<Rightarrow> mem_storage \<Rightarrow> mem_storage" where
  "memAppendEntry e s =
     s\<lparr>ms_entries := ms_entries s @ [e], ms_byId := (ms_byId s)(en_id e \<mapsto> e),
       ms_labelsById := updateLabelCache e (ms_labelsById s), ms_leafId := leafIdAfterEntry e\<rparr>"

definition memGetEntry :: "jstr \<Rightarrow> mem_storage \<Rightarrow> entry option" where
  "memGetEntry i s = ms_byId s i"

text \<open>\<open>findEntries(type)\<close>, the type given by the test of its bodies.\<close>

definition memFindEntries :: "(entry_body \<Rightarrow> bool) \<Rightarrow> mem_storage \<Rightarrow> entry list" where
  "memFindEntries isType s = filter (\<lambda>e. isType (en_body e)) (ms_entries s)"

definition memGetLabel :: "jstr \<Rightarrow> mem_storage \<Rightarrow> jstr option" where
  "memGetLabel i s = ms_labelsById s i"

fun isSessionInfo :: "entry_body \<Rightarrow> bool" where
  "isSessionInfo (E_sessionInfo _) = True"
| "isSessionInfo _ = False"

definition memGetSessionName :: "mem_storage \<Rightarrow> jstr option" where
  "memGetSessionName s =
     (case rev (memFindEntries isSessionInfo s) of
        [] \<Rightarrow> None
      | e # _ \<Rightarrow>
          (case en_body e of
             E_sessionInfo name \<Rightarrow>
               (let n = map_option trim name in if truthyStr n then n else None)
           | _ \<Rightarrow> None))"

text \<open>The usage an entry contributes to the statistics.\<close>

definition entryUsage :: "entry \<Rightarrow> usage option" where
  "entryUsage e =
     (case en_body e of
        E_message m \<Rightarrow> (case m of Msg (MAssistant am) \<Rightarrow> Some (am_usage am) | _ \<Rightarrow> None)
      | E_compaction d \<Rightarrow> cd_usage d
      | E_branchSummary d \<Rightarrow> bd_usage d
      | _ \<Rightarrow> None)"

definition addToStats :: "entry \<Rightarrow> session_stats \<Rightarrow> session_stats" where
  "addToStats e st0 =
     (let st = (case en_body e of
            E_message _ \<Rightarrow> st0\<lparr>ss_messageCount := ss_messageCount st0 + 1\<rparr> | _ \<Rightarrow> st0)
      in case entryUsage e of
           None \<Rightarrow> st
         | Some u \<Rightarrow>
             st\<lparr>ss_cachedTokens := ss_cachedTokens st + us_cacheRead u,
                ss_uncachedTokens := ss_uncachedTokens st + (us_input u + us_cacheWrite u),
                ss_totalTokens := ss_totalTokens st +
                  (us_input u + us_output u + us_cacheRead u + us_cacheWrite u),
                ss_costTotal := ss_costTotal st + uc_total (us_cost u)\<rparr>)"

definition emptyStats :: session_stats where
  "emptyStats = \<lparr>ss_messageCount = 0, ss_cachedTokens = 0, ss_uncachedTokens = 0, ss_totalTokens = 0,
     ss_costTotal = 0\<rparr>"

definition memGetSessionStats :: "mem_storage \<Rightarrow> session_stats" where
  "memGetSessionStats s = fold addToStats (ms_entries s) emptyStats"

text \<open>
  The walk from an entry towards the root: \<open>stop\<close> is \<open>stopAtEntryId\<close>, \<open>path\<close> the entries
  collected so far. Over an arbitrary map the walk may not end.
\<close>

partial_function (option) walkPath ::
  "(jstr \<Rightarrow> entry option) \<Rightarrow> entry \<Rightarrow> jstr option \<Rightarrow> entry list \<Rightarrow> (session_error + entry list) option" where
  "walkPath byId cur stop path =
     (let path' = cur # path;
          retained = (case compactionOf cur of Some d \<Rightarrow> cd_retainedTail d \<noteq> None | None \<Rightarrow> False);
          stop' = (case compactionOf cur of Some d \<Rightarrow> cd_firstKeptEntryId d | None \<Rightarrow> stop)
      in if stop = Some (en_id cur) then Some (Inr path')
         else if retained then Some (Inr path')
         else if \<not> truthyStr (en_parentId cur) then Some (Inr path')
         else (case byId (the (en_parentId cur)) of
                 None \<Rightarrow> Some (Inl (invalidSession (the (en_parentId cur))))
               | Some parent \<Rightarrow> walkPath byId parent stop' path'))"

definition memGetPath :: "jstr option \<Rightarrow> mem_storage \<Rightarrow> (session_error + entry list) option" where
  "memGetPath leaf s =
     (case leaf of
        None \<Rightarrow> Some (Inr [])
      | Some i \<Rightarrow>
          (case ms_byId s i of
             None \<Rightarrow> Some (Inl (notFound i))
           | Some e \<Rightarrow> walkPath (ms_byId s) e None []))"

definition memGetEntries :: "cursor_options \<Rightarrow> mem_storage \<Rightarrow> entry list" where
  "memGetEntries opts s =
     (let start = orDefault (co_afterEntrySeq opts) 0
      in case co_limit opts of
           None \<Rightarrow> drop start (ms_entries s)
         | Some l \<Rightarrow> slice start (start + l) (ms_entries s))"

definition memoryStorageOps :: "id_source \<Rightarrow> mem_storage storage_ops" where
  "memoryStorageOps src =
     \<lparr>so_getLeafId = memGetLeafId, so_setLeafId = memSetLeafId src, so_createEntryId = memCreateEntryId src,
      so_appendEntry = (\<lambda>e s. (Inr (), memAppendEntry e s)), so_getEntry = memGetEntry, so_getEntries = memGetEntries,
      so_getPath = memGetPath, so_getLabel = memGetLabel, so_getSessionName = memGetSessionName,
      so_getSessionStats = memGetSessionStats, so_now = (\<lambda>s. is_clock src (ms_calls s))\<rparr>"

end
