(* ===== verification/Session.thy ===== *)
theory Session
  imports MemoryStorage
begin

text \<open>
  Sessions: packages/agent/src/harness/session/session.ts, the fork helper of
  repo-utils.ts and the in-memory repository memory-repo.ts.

  A session's operations are written against the storage interface \<open>storage_ops\<close>, as the
  class is. \<open>getTime\<close> is the date parser of the runtime, as in the message constructors.
\<close>

section \<open>Building a context\<close>

type_synonym projector = "entry \<Rightarrow> nat \<Rightarrow> entry list \<Rightarrow> agent_message list option"

record context_options =
  cx_entryTransforms :: "(entry list \<Rightarrow> entry list) list"
  cx_entryProjectors :: "jstr \<Rightarrow> projector option"

definition deriveStep :: "entry \<Rightarrow> session_context \<Rightarrow> session_context" where
  "deriveStep e st =
     (case en_body e of
        E_thinkingLevelChange l \<Rightarrow> st\<lparr>sx_thinkingLevel := l\<rparr>
      | E_modelChange p m \<Rightarrow> st\<lparr>sx_model := Some (p, m)\<rparr>
      | E_message m \<Rightarrow>
          (case m of
             Msg (MAssistant am) \<Rightarrow> st\<lparr>sx_model := Some (am_provider am, am_model am)\<rparr>
           | _ \<Rightarrow> st)
      | E_activeToolsChange ns \<Rightarrow> st\<lparr>sx_activeToolNames := Some ns\<rparr>
      | _ \<Rightarrow> st)"

definition deriveSessionContextState :: "entry list \<Rightarrow> session_context" where
  "deriveSessionContextState path =
     fold deriveStep path
       \<lparr>sx_messages = [], sx_thinkingLevel = js ''off'', sx_model = None, sx_activeToolNames = None\<rparr>"

text \<open>The entries from the first one with a given id on.\<close>

definition keptFrom :: "jstr \<Rightarrow> entry list \<Rightarrow> entry list" where
  "keptFrom i es = dropWhile (\<lambda>e. en_id e \<noteq> i) es"

definition defaultContextEntryTransform :: "entry list \<Rightarrow> entry list" where
  "defaultContextEntryTransform path =
     (case findLast (\<lambda>e. isCompaction (en_body e)) path of
        None \<Rightarrow> path
      | Some c \<Rightarrow>
          (let i = the (findIndex (\<lambda>e. isCompaction (en_body e) \<and> en_id e = en_id c) path);
               d = the (compactionOf c)
           in if cd_retainedTail d \<noteq> None then c # drop (i + 1) path
              else c # (if truthyStr (cd_firstKeptEntryId d)
                        then keptFrom (the (cd_firstKeptEntryId d)) (take i path) else []) @
                   drop (i + 1) path))"

definition buildContextEntries :: "entry list \<Rightarrow> context_options \<Rightarrow> entry list" where
  "buildContextEntries path opts =
     fold (\<lambda>t es. t es) (cx_entryTransforms opts) (defaultContextEntryTransform path)"

definition sessionEntryToContextMessages ::
  "(jstr \<Rightarrow> int) \<Rightarrow> context_options \<Rightarrow> entry \<Rightarrow> nat \<Rightarrow> entry list \<Rightarrow> agent_message list" where
  "sessionEntryToContextMessages getTime opts e index es =
     (case en_body e of
        E_message m \<Rightarrow> [m]
      | E_customMessage d \<Rightarrow>
          [Custom (createCustomMessage getTime (cmd_customType d) (cmd_content d) (cmd_display d)
             (cmd_details d) (en_timestamp e))]
      | E_compaction d \<Rightarrow>
          CompactionSummary (createCompactionSummaryMessage getTime (cd_summary d) (cd_tokensBefore d)
             (en_timestamp e)) # orDefault (cd_retainedTail d) []
      | E_branchSummary d \<Rightarrow>
          (if bd_summary d \<noteq> []
           then [BranchSummary (createBranchSummaryMessage getTime (bd_summary d) (bd_fromId d) (en_timestamp e))]
           else [])
      | E_custom t _ \<Rightarrow>
          (case cx_entryProjectors opts t of
             None \<Rightarrow> []
           | Some f \<Rightarrow> orDefault (f e index es) [])
      | _ \<Rightarrow> [])"

definition entriesToMessages :: "(jstr \<Rightarrow> int) \<Rightarrow> context_options \<Rightarrow> entry list \<Rightarrow> agent_message list" where
  "entriesToMessages getTime opts es =
     concat (map (\<lambda>(i, e). sessionEntryToContextMessages getTime opts e i es) (List.enumerate 0 es))"

definition buildSessionContext ::
  "(jstr \<Rightarrow> int) \<Rightarrow> entry list \<Rightarrow> context_options \<Rightarrow> session_context" where
  "buildSessionContext getTime path opts =
     (deriveSessionContextState path)
       \<lparr>sx_messages := entriesToMessages getTime opts (buildContextEntries path opts)\<rparr>"

section \<open>The session over a storage\<close>

definition getBranch :: "'s storage_ops \<Rightarrow> jstr option \<Rightarrow> 's \<Rightarrow> (session_error + entry list) option" where
  "getBranch S fromId s =
     (case fromId of
        Some i \<Rightarrow> so_getPath S (Some i) s
      | None \<Rightarrow>
          (case so_getLeafId S s of
             Inl e \<Rightarrow> Some (Inl e)
           | Inr leaf \<Rightarrow> so_getPath S leaf s))"

definition mergeContextBuildOptions :: "context_options \<Rightarrow> context_options \<Rightarrow> context_options" where
  "mergeContextBuildOptions own options =
     \<lparr>cx_entryTransforms = cx_entryTransforms own @ cx_entryTransforms options,
      cx_entryProjectors = cx_entryProjectors own ++ cx_entryProjectors options\<rparr>"

definition sessionContextEntries ::
  "'s storage_ops \<Rightarrow> context_options \<Rightarrow> context_options \<Rightarrow> 's \<Rightarrow> (session_error + entry list) option" where
  "sessionContextEntries S own options s =
     map_option (map_sum id (\<lambda>path. buildContextEntries path (mergeContextBuildOptions own options)))
       (getBranch S None s)"

definition buildContext ::
  "(jstr \<Rightarrow> int) \<Rightarrow> 's storage_ops \<Rightarrow> context_options \<Rightarrow> context_options \<Rightarrow> 's \<Rightarrow>
   (session_error + session_context) option" where
  "buildContext getTime S own options s =
     map_option (map_sum id (\<lambda>path. buildSessionContext getTime path (mergeContextBuildOptions own options)))
       (getBranch S None s)"

text \<open>Appending an entry at the leaf: the id, the leaf and the clock are read in this order.\<close>

definition appendAtLeaf :: "'s storage_ops \<Rightarrow> entry_body \<Rightarrow> 's \<Rightarrow> (session_error + jstr) \<times> 's" where
  "appendAtLeaf S body s =
     (case so_createEntryId S s of (i, s1) \<Rightarrow>
        (case so_getLeafId S s1 of
           Inl e \<Rightarrow> (Inl e, s1)
         | Inr leaf \<Rightarrow>
             (case so_appendEntry S \<lparr>en_id = i, en_parentId = leaf, en_timestamp = so_now S s1, en_body = body\<rparr> s1 of
                (Inl e, s2) \<Rightarrow> (Inl e, s2)
              | (Inr _, s2) \<Rightarrow> (Inr i, s2))))"

definition appendMessage :: "'s storage_ops \<Rightarrow> agent_message \<Rightarrow> 's \<Rightarrow> (session_error + jstr) \<times> 's" where
  "appendMessage S m s = appendAtLeaf S (E_message m) s"

definition appendThinkingLevelChange :: "'s storage_ops \<Rightarrow> jstr \<Rightarrow> 's \<Rightarrow> (session_error + jstr) \<times> 's" where
  "appendThinkingLevelChange S l s = appendAtLeaf S (E_thinkingLevelChange l) s"

definition appendModelChange :: "'s storage_ops \<Rightarrow> jstr \<Rightarrow> jstr \<Rightarrow> 's \<Rightarrow> (session_error + jstr) \<times> 's" where
  "appendModelChange S provider modelId s = appendAtLeaf S (E_modelChange provider modelId) s"

definition appendActiveToolsChange :: "'s storage_ops \<Rightarrow> jstr list \<Rightarrow> 's \<Rightarrow> (session_error + jstr) \<times> 's" where
  "appendActiveToolsChange S ns s = appendAtLeaf S (E_activeToolsChange ns) s"

definition appendCompaction :: "'s storage_ops \<Rightarrow> compaction_data \<Rightarrow> 's \<Rightarrow> (session_error + jstr) \<times> 's" where
  "appendCompaction S d s = appendAtLeaf S (E_compaction d) s"

definition appendCustomEntry :: "'s storage_ops \<Rightarrow> jstr \<Rightarrow> json option \<Rightarrow> 's \<Rightarrow> (session_error + jstr) \<times> 's" where
  "appendCustomEntry S t data s = appendAtLeaf S (E_custom t data) s"

definition appendCustomMessageEntry ::
  "'s storage_ops \<Rightarrow> custom_message_data \<Rightarrow> 's \<Rightarrow> (session_error + jstr) \<times> 's" where
  "appendCustomMessageEntry S d s = appendAtLeaf S (E_customMessage d) s"

definition appendLabel :: "'s storage_ops \<Rightarrow> jstr \<Rightarrow> jstr option \<Rightarrow> 's \<Rightarrow> (session_error + jstr) \<times> 's" where
  "appendLabel S targetId label s =
     (if so_getEntry S targetId s = None then (Inl (notFound targetId), s)
      else appendAtLeaf S (E_label targetId label) s)"

text \<open>\<open>name.replace(/[\r\n]+/g, " ").trim()\<close>\<close>

fun collapseBreaks :: "jstr \<Rightarrow> jstr" where
  "collapseBreaks [] = []"
| "collapseBreaks (c # cs) =
     (if c = 13 \<or> c = 10 then 32 # collapseBreaks (dropWhile (\<lambda>x. x = 13 \<or> x = 10) cs)
      else c # collapseBreaks cs)"

definition sanitizeName :: "jstr \<Rightarrow> jstr" where
  "sanitizeName name = trim (collapseBreaks name)"

definition appendSessionName :: "'s storage_ops \<Rightarrow> jstr \<Rightarrow> 's \<Rightarrow> (session_error + jstr) \<times> 's" where
  "appendSessionName S name s = appendAtLeaf S (E_sessionInfo (Some (sanitizeName name))) s"

record move_summary =
  mv_summary :: jstr
  mv_details :: "json option"
  mv_usage :: "usage option"
  mv_fromHook :: "bool option"

definition moveTo ::
  "'s storage_ops \<Rightarrow> jstr option \<Rightarrow> move_summary option \<Rightarrow> 's \<Rightarrow> (session_error + jstr option) \<times> 's" where
  "moveTo S entryId summary s =
     (if entryId \<noteq> None \<and> so_getEntry S (the entryId) s = None then (Inl (notFound (the entryId)), s)
      else (case so_setLeafId S entryId s of
              (Inl e, s1) \<Rightarrow> (Inl e, s1)
            | (Inr _, s1) \<Rightarrow>
                (case summary of
                   None \<Rightarrow> (Inr None, s1)
                 | Some m \<Rightarrow>
                     (case so_createEntryId S s1 of (i, s2) \<Rightarrow>
                        (case so_appendEntry S
                                \<lparr>en_id = i, en_parentId = entryId, en_timestamp = so_now S s2,
                                 en_body = E_branchSummary \<lparr>bd_fromId = orDefault entryId (js ''root''),
                                   bd_summary = mv_summary m, bd_details = mv_details m, bd_usage = mv_usage m,
                                   bd_fromHook = mv_fromHook m\<rparr>\<rparr> s2 of
                           (Inl e, s3) \<Rightarrow> (Inl e, s3)
                         | (Inr _, s3) \<Rightarrow> (Inr (Some i), s3))))))"

section \<open>Forking and the repository\<close>

datatype fork_position = Fork_before | Fork_at

record fork_options =
  fo_entryId :: "jstr option"
  fo_position :: "fork_position option"
  fo_id :: "jstr option"

definition invalidFork :: "jstr \<Rightarrow> jstr \<Rightarrow> session_error" where
  "invalidFork i what = \<lparr>se_code = SE_invalid_fork_target, se_message = js ''Entry '' @ i @ what\<rparr>"

definition getEntriesToFork ::
  "'s storage_ops \<Rightarrow> fork_options \<Rightarrow> 's \<Rightarrow> (session_error + entry list) option" where
  "getEntriesToFork S opts s =
     (if \<not> truthyStr (fo_entryId opts)
      then Some (Inr (so_getEntries S \<lparr>co_afterEntrySeq = None, co_limit = None\<rparr> s))
      else (let i = the (fo_entryId opts) in
        (case so_getEntry S i s of
           None \<Rightarrow> Some (Inl (invalidFork i (js '' not found'')))
         | Some target \<Rightarrow>
             (if orDefault (fo_position opts) Fork_before = Fork_at then so_getPath S (Some (en_id target)) s
              else (case en_body target of
                      E_message m \<Rightarrow>
                        (if isUser m then so_getPath S (en_parentId target) s
                         else Some (Inl (invalidFork i (js '' is not a user message''))))
                    | _ \<Rightarrow> Some (Inl (invalidFork i (js '' is not a user message''))))))))"

text \<open>The repository's \<open>Map\<close> of sessions, in insertion order, each with its storage.\<close>

record mem_repo =
  mr_sessions :: "(jstr \<times> mem_storage) list"
  mr_calls :: nat

fun mapSet :: "'k \<Rightarrow> 'v \<Rightarrow> ('k \<times> 'v) list \<Rightarrow> ('k \<times> 'v) list" where
  "mapSet k v [] = [(k, v)]"
| "mapSet k v ((k', v') # kvs) = (if k' = k then (k, v) # kvs else (k', v') # mapSet k v kvs)"

definition newMetadata :: "id_source \<Rightarrow> jstr option \<Rightarrow> nat \<Rightarrow> session_metadata" where
  "newMetadata src i n = \<lparr>sm_id = orDefault i (is_uuid src n), sm_createdAt = is_clock src n\<rparr>"

definition repoCreate :: "id_source \<Rightarrow> jstr option \<Rightarrow> mem_repo \<Rightarrow> (session_error + mem_storage) \<times> mem_repo" where
  "repoCreate src i r =
     (let md = newMetadata src i (mr_calls r)
      in case newMemStorage src [] (Some md) (Suc (mr_calls r)) of
           Inl e \<Rightarrow> (Inl e, r\<lparr>mr_calls := Suc (mr_calls r)\<rparr>)
         | Inr st \<Rightarrow> (Inr st, r\<lparr>mr_sessions := mapSet (sm_id md) st (mr_sessions r), mr_calls := Suc (mr_calls r)\<rparr>))"

definition repoOpen :: "session_metadata \<Rightarrow> mem_repo \<Rightarrow> session_error + mem_storage" where
  "repoOpen md r =
     (case map_of (mr_sessions r) (sm_id md) of
        None \<Rightarrow> Inl \<lparr>se_code = SE_not_found, se_message = js ''Session not found: '' @ sm_id md\<rparr>
      | Some st \<Rightarrow> Inr st)"

definition repoList :: "mem_repo \<Rightarrow> session_metadata list" where
  "repoList r = map (ms_metadata \<circ> snd) (mr_sessions r)"

definition repoDelete :: "session_metadata \<Rightarrow> mem_repo \<Rightarrow> mem_repo" where
  "repoDelete md r = r\<lparr>mr_sessions := filter (\<lambda>(k, _). k \<noteq> sm_id md) (mr_sessions r)\<rparr>"

definition repoFork ::
  "id_source \<Rightarrow> session_metadata \<Rightarrow> fork_options \<Rightarrow> mem_repo \<Rightarrow> ((session_error + mem_storage) \<times> mem_repo) option" where
  "repoFork src md opts r =
     (case repoOpen md r of
        Inl e \<Rightarrow> Some (Inl e, r)
      | Inr source \<Rightarrow>
          (case getEntriesToFork (memoryStorageOps src) opts source of
             None \<Rightarrow> None
           | Some (Inl e) \<Rightarrow> Some (Inl e, r)
           | Some (Inr es) \<Rightarrow>
               (let md' = newMetadata src (fo_id opts) (mr_calls r);
                    r1 = r\<lparr>mr_calls := Suc (mr_calls r)\<rparr>
                in case newMemStorage src es (Some md') (Suc (mr_calls r)) of
                     Inl e \<Rightarrow> Some (Inl e, r1)
                   | Inr st \<Rightarrow> Some (Inr st, r1\<lparr>mr_sessions := mapSet (sm_id md') st (mr_sessions r)\<rparr>))))"

end
