(* ===== verification/SessionFacts.thy ===== *)
theory SessionFacts
  imports Session
begin

text \<open>
  The correctness of the session tree. A store keeps a tree when ids are unique, parents
  come before their children and the leaf exists; the locale \<open>session_store\<close> states what a
  session relies on and the in-memory storage is its interpretation. The path lookup
  stops early at a compaction; \<open>cutAt\<close> is the position it stops at.
\<close>

section \<open>Paths\<close>

text \<open>The full path from the root to an entry.\<close>

inductive rootPath :: "(jstr \<Rightarrow> entry option) \<Rightarrow> entry \<Rightarrow> entry list \<Rightarrow> bool" for byId where
  root: "\<not> truthyStr (en_parentId e) \<Longrightarrow> rootPath byId e [e]"
| child: "truthyStr (en_parentId e) \<Longrightarrow> byId (the (en_parentId e)) = Some p \<Longrightarrow> rootPath byId p ps \<Longrightarrow>
    rootPath byId e (ps @ [e])"

lemma rootPath_not_Nil: "rootPath byId e ps \<Longrightarrow> ps \<noteq> [] \<and> last ps = e"
  by (induction rule: rootPath.induct) auto

definition retained :: "entry \<Rightarrow> bool" where
  "retained e \<longleftrightarrow> (case compactionOf e of Some d \<Rightarrow> cd_retainedTail d \<noteq> None | None \<Rightarrow> False)"

definition nextStop :: "entry \<Rightarrow> jstr option \<Rightarrow> jstr option" where
  "nextStop e stop = (case compactionOf e of Some d \<Rightarrow> cd_firstKeptEntryId d | None \<Rightarrow> stop)"

text \<open>Where the walk from position \<open>i\<close> of a full path stops.\<close>

fun cutAt :: "entry list \<Rightarrow> nat \<Rightarrow> jstr option \<Rightarrow> nat" where
  "cutAt ps 0 stop = 0"
| "cutAt ps (Suc i) stop =
     (if stop = Some (en_id (ps ! Suc i)) \<or> retained (ps ! Suc i) then Suc i
      else cutAt ps i (nextStop (ps ! Suc i) stop))"

lemma cutAt_le: "cutAt ps i stop \<le> i"
  by (induction ps i stop rule: cutAt.induct) auto

lemma cutAt_cong: "(\<And>j. j \<le> i \<Longrightarrow> ps ! j = qs ! j) \<Longrightarrow> cutAt ps i stop = cutAt qs i stop"
  by (induction ps i stop rule: cutAt.induct) auto

lemma rootPath_snocE:
  assumes "rootPath byId e ps"
  obtains (root) "ps = [e]" "\<not> truthyStr (en_parentId e)"
  | (child) qs p where "ps = qs @ [e]" "rootPath byId p qs" "truthyStr (en_parentId e)"
      "byId (the (en_parentId e)) = Some p"
  using assms by (cases rule: rootPath.cases) auto

lemma walkPath_cut:
  "rootPath byId e ps \<Longrightarrow>
   walkPath byId e stop acc = Some (Inr (drop (cutAt ps (length ps - 1) stop) ps @ acc))"
proof (induction arbitrary: stop acc rule: rootPath.induct)
  case (root e)
  then show ?case by (subst walkPath.simps) (simp add: Let_def)
next
  case (child e p ps)
  from rootPath_not_Nil [OF child.hyps(3)] obtain k where k: "length ps = Suc k"
    by (cases ps) auto
  have nth: "(ps @ [e]) ! Suc k = e" using k by (metis nth_append_length)
  show ?case
  proof (cases "stop = Some (en_id e) \<or> retained e")
    case True
    then show ?thesis using k nth
      by (subst walkPath.simps) (auto simp: Let_def retained_def)
  next
    case False
    have cut: "cutAt (ps @ [e]) (length (ps @ [e]) - 1) stop = cutAt ps k (nextStop e stop)"
      using False k nth cutAt_cong [of k "ps @ [e]" ps] by (simp add: nth_append)
    have "cutAt ps k (nextStop e stop) \<le> length ps" using cutAt_le [of ps k "nextStop e stop"] k by simp
    with child False k cut show ?thesis
      by (subst walkPath.simps) (auto simp: Let_def retained_def nextStop_def)
  qed
qed

text \<open>The walk goes at least as far as position \<open>k\<close> when nothing above \<open>k\<close> stops it.\<close>

definition passes :: "entry list \<Rightarrow> nat \<Rightarrow> nat \<Rightarrow> bool" where
  "passes ps k i \<longleftrightarrow>
     (\<forall>m. k < m \<and> m \<le> i \<longrightarrow> \<not> retained (ps ! m) \<and>
        (\<forall>d. compactionOf (ps ! m) = Some d \<longrightarrow>
           (\<forall>q. k < q \<and> q < m \<longrightarrow> cd_firstKeptEntryId d \<noteq> Some (en_id (ps ! q)))))"

lemma cutAt_passes:
  "passes ps k i \<Longrightarrow> (\<forall>q. k < q \<and> q \<le> i \<longrightarrow> stop \<noteq> Some (en_id (ps ! q))) \<Longrightarrow> cutAt ps i stop \<le> k"
proof (induction ps i stop rule: cutAt.induct)
  case (2 ps i stop)
  show ?case
  proof (cases "Suc i \<le> k")
    case True
    with cutAt_le [of ps "Suc i" stop] show ?thesis by simp
  next
    case False
    then have go: "\<not> (stop = Some (en_id (ps ! Suc i)) \<or> retained (ps ! Suc i))"
      using "2.prems" by (auto simp: passes_def)
    have top: "\<forall>q. k < q \<and> q < Suc i \<longrightarrow> cd_firstKeptEntryId d \<noteq> Some (en_id (ps ! q))"
      if "compactionOf (ps ! Suc i) = Some d" for d
      using "2.prems"(1) False that unfolding passes_def by (meson le_refl not_le)
    have "passes ps k i" using "2.prems"(1) unfolding passes_def by (meson le_SucI)
    moreover have "\<forall>q. k < q \<and> q \<le> i \<longrightarrow> nextStop (ps ! Suc i) stop \<noteq> Some (en_id (ps ! q))"
    proof (cases "compactionOf (ps ! Suc i)")
      case None
      with "2.prems"(2) show ?thesis by (auto simp: nextStop_def)
    next
      case (Some d)
      with top show ?thesis by (auto simp: nextStop_def less_Suc_eq_le)
    qed
    ultimately show ?thesis using "2.IH" [OF go] go by simp
  qed
qed simp

section \<open>The context of a cut path\<close>

lemma compactionOf_isCompaction: "isCompaction (en_body e) \<longleftrightarrow> compactionOf e \<noteq> None"
  by (auto simp: compactionOf_def split: entry_body.splits)

lemma find_skip: "\<forall>x \<in> set xs. \<not> P x \<Longrightarrow> find P (xs @ ys) = find P ys"
  by (induction xs) auto

lemma findLast_nth:
  assumes "j < length ps" and "P (ps ! j)" and "\<And>m. j < m \<Longrightarrow> m < length ps \<Longrightarrow> \<not> P (ps ! m)"
  shows "findLast P ps = Some (ps ! j)"
proof -
  have split: "ps = take j ps @ ps ! j # drop (Suc j) ps" using assms(1) by (rule id_take_nth_drop)
  have "\<forall>x \<in> set (rev (drop (Suc j) ps)). \<not> P x"
    using assms(3) by (auto simp: in_set_conv_nth)
  from find_skip [OF this] assms(2)
  have "find P (rev (drop (Suc j) ps) @ ps ! j # rev (take j ps)) = Some (ps ! j)" by simp
  moreover have "rev ps = rev (drop (Suc j) ps) @ ps ! j # rev (take j ps)"
    by (subst split) simp
  ultimately show ?thesis by (simp add: findLast_def)
qed

lemma findIndex_unique:
  assumes "j < length ps" and "P (ps ! j)" and "\<And>m. m < length ps \<Longrightarrow> P (ps ! m) \<Longrightarrow> m = j"
  shows "findIndex P ps = Some j"
proof (cases "findIndex P ps")
  case None
  with assms(1,2) show ?thesis by (auto simp: findIndex_None)
next
  case (Some k)
  with findIndex_Some [OF Some] assms(3) show ?thesis by auto
qed

definition lastCompactionAt :: "entry list \<Rightarrow> nat \<Rightarrow> bool" where
  "lastCompactionAt ps j \<longleftrightarrow> j < length ps \<and> isCompaction (en_body (ps ! j)) \<and>
     (\<forall>m. j < m \<and> m < length ps \<longrightarrow> \<not> isCompaction (en_body (ps ! m)))"

lemma defaultContextEntryTransform_at:
  assumes "distinct (map en_id ps)" and "lastCompactionAt ps j" and "compactionOf (ps ! j) = Some d"
  shows "defaultContextEntryTransform ps =
    (if cd_retainedTail d \<noteq> None then ps ! j # drop (j + 1) ps
     else ps ! j # (if truthyStr (cd_firstKeptEntryId d)
                    then keptFrom (the (cd_firstKeptEntryId d)) (take j ps) else []) @ drop (j + 1) ps)"
proof -
  have j: "j < length ps" "isCompaction (en_body (ps ! j))" using assms(2) by (auto simp: lastCompactionAt_def)
  have "findLast (\<lambda>e. isCompaction (en_body e)) ps = Some (ps ! j)"
    using assms(2) by (intro findLast_nth) (auto simp: lastCompactionAt_def)
  moreover have "findIndex (\<lambda>e. isCompaction (en_body e) \<and> en_id e = en_id (ps ! j)) ps = Some j"
    using j assms(1) by (intro findIndex_unique) (auto simp: distinct_conv_nth)
  ultimately show ?thesis using assms(3) by (simp add: defaultContextEntryTransform_def Let_def)
qed

lemma defaultContextEntryTransform_none:
  "\<forall>e \<in> set ps. \<not> isCompaction (en_body e) \<Longrightarrow> defaultContextEntryTransform ps = ps"
  by (simp add: defaultContextEntryTransform_def findLast_def find_None_iff [THEN iffD2])

lemma lastCompactionAt_drop:
  assumes "lastCompactionAt ps j" and "b \<le> j"
  shows "lastCompactionAt (drop b ps) (j - b)"
proof -
  have "\<not> isCompaction (en_body (drop b ps ! m))" if m: "j - b < m" "m < length (drop b ps)" for m
  proof -
    have "j < b + m" "b + m < length ps" using m assms(2) by auto
    with assms(1) show ?thesis by (simp add: lastCompactionAt_def)
  qed
  moreover have "j - b < length (drop b ps)" using assms by (simp add: lastCompactionAt_def diff_less_mono)
  ultimately show ?thesis using assms by (simp add: lastCompactionAt_def)
qed

lemma lastCompactionAt_exists:
  "\<exists>e \<in> set ps. isCompaction (en_body e) \<Longrightarrow> \<exists>j. lastCompactionAt ps j"
proof (induction ps rule: rev_induct)
  case (snoc x qs)
  show ?case
  proof (cases "isCompaction (en_body x)")
    case True
    then have "lastCompactionAt (qs @ [x]) (length qs)" by (auto simp: lastCompactionAt_def)
    then show ?thesis ..
  next
    case False
    with snoc obtain j where "lastCompactionAt qs j" by auto
    with False have "lastCompactionAt (qs @ [x]) j" by (auto simp: lastCompactionAt_def nth_append less_Suc_eq)
    then show ?thesis ..
  qed
qed simp

lemma keptFrom_drop:
  assumes "\<And>m. m < b \<Longrightarrow> m < length xs \<Longrightarrow> en_id (xs ! m) \<noteq> i"
  shows "keptFrom i (drop b xs) = keptFrom i xs"
proof -
  have "\<forall>e \<in> set (take b xs). en_id e \<noteq> i"
    using assms by (metis in_set_conv_nth length_take min_less_iff_conj nth_take)
  then have "dropWhile (\<lambda>e. en_id e \<noteq> i) (take b xs @ drop b xs) = dropWhile (\<lambda>e. en_id e \<noteq> i) (drop b xs)"
    by (subst dropWhile_append2) auto
  then show ?thesis by (simp add: keptFrom_def)
qed

text \<open>
  A path whose compactions keep to their order: the part between the entry the last
  compaction keeps first and that compaction holds no checkpoint and no compaction that
  keeps a later entry first.
\<close>

definition orderlyPath :: "entry list \<Rightarrow> bool" where
  "orderlyPath ps \<longleftrightarrow>
     (\<forall>j d k. lastCompactionAt ps j \<and> compactionOf (ps ! j) = Some d \<and> cd_retainedTail d = None \<and>
        k < j \<and> cd_firstKeptEntryId d = Some (en_id (ps ! k)) \<longrightarrow> passes ps k (j - 1))"

lemma cut_context:
  assumes dist: "distinct (map en_id ps)" and ord: "orderlyPath ps" and ne: "ps \<noteq> []"
  shows "defaultContextEntryTransform (drop (cutAt ps (length ps - 1) None) ps) = defaultContextEntryTransform ps"
proof (cases "\<exists>e \<in> set ps. isCompaction (en_body e)")
  case False
  then have "cutAt ps i None = 0" if "i < length ps" for i
    using that
  proof (induction i)
    case (Suc i)
    then have "compactionOf (ps ! Suc i) = None" by (auto simp: compactionOf_isCompaction)
    with Suc show ?case by (simp add: retained_def nextStop_def)
  qed simp
  with ne show ?thesis by simp
next
  case True
  then obtain j where j: "lastCompactionAt ps j" using lastCompactionAt_exists by blast
  then have jl: "j < length ps" and jc: "isCompaction (en_body (ps ! j))" by (auto simp: lastCompactionAt_def)
  then obtain d where d: "compactionOf (ps ! j) = Some d" by (auto simp: compactionOf_isCompaction)
  have down: "cutAt ps i None = cutAt ps j None" if "j \<le> i" "i < length ps" for i
    using that
  proof (induction i)
    case (Suc i)
    show ?case
    proof (cases "j = Suc i")
      case False
      with Suc.prems have "compactionOf (ps ! Suc i) = None"
        using j by (auto simp: lastCompactionAt_def compactionOf_isCompaction)
      with Suc False show ?thesis by (simp add: retained_def nextStop_def)
    qed simp
  qed simp
  have cut: "cutAt ps (length ps - 1) None = cutAt ps j None" using jl by (intro down) auto
  let ?b = "cutAt ps j None"
  have bj: "?b \<le> j" by (rule cutAt_le)
  have dist': "distinct (map en_id (drop ?b ps))" using dist by (simp add: drop_map [symmetric])
  note at = defaultContextEntryTransform_at [OF dist j d]
  note at' = defaultContextEntryTransform_at [OF dist' lastCompactionAt_drop [OF j bj]]
  have nth: "drop ?b ps ! (j - ?b) = ps ! j" using bj jl by simp
  show ?thesis
  proof (cases "cd_retainedTail d \<noteq> None \<or> \<not> truthyStr (cd_firstKeptEntryId d)")
    case True
    with at at' d nth bj show ?thesis unfolding cut by auto
  next
    case False
    then obtain i where i: "cd_firstKeptEntryId d = Some i" by (auto simp: truthyStr_def split: option.splits)
    have "keptFrom i (take (j - ?b) (drop ?b ps)) = keptFrom i (take j ps)"
    proof -
      have "keptFrom i (drop ?b (take j ps)) = keptFrom i (take j ps)"
      proof (rule keptFrom_drop)
        fix m
        assume m: "m < ?b" "m < length (take j ps)"
        show "en_id (take j ps ! m) \<noteq> i"
        proof
          assume "en_id (take j ps ! m) = i"
          then have im: "cd_firstKeptEntryId d = Some (en_id (ps ! m))" using i m by simp
          have "passes ps m (j - 1)" using ord j d False im m unfolding orderlyPath_def by auto
          moreover have "\<forall>q. m < q \<and> q \<le> j - 1 \<longrightarrow> cd_firstKeptEntryId d \<noteq> Some (en_id (ps ! q))"
            using im dist jl m by (auto simp: distinct_conv_nth)
          ultimately have "cutAt ps (j - 1) (cd_firstKeptEntryId d) \<le> m" by (rule cutAt_passes)
          moreover obtain j' where j': "j = Suc j'" using m by (cases j) auto
          moreover have "\<not> retained (ps ! j)" using d False by (simp add: retained_def)
          ultimately have "?b \<le> m" using d by (simp add: nextStop_def)
          with m show False by simp
        qed
      qed
      then show ?thesis by (simp add: drop_take)
    qed
    with at at' d nth bj i show ?thesis unfolding cut by simp
  qed
qed

section \<open>What a session relies on\<close>

locale session_store =
  fixes S :: "'s storage_ops"
    and inv :: "'s \<Rightarrow> bool"
    and usable :: "jstr \<Rightarrow> 's \<Rightarrow> bool"
  assumes leaf: "inv s \<Longrightarrow> \<exists>l. so_getLeafId S s = Inr l \<and> (l = None \<or> so_getEntry S (the l) s \<noteq> None)"
    and create: "inv s \<Longrightarrow> so_createEntryId S s = (i, s') \<Longrightarrow>
      inv s' \<and> usable i s' \<and> so_getEntry S i s = None \<and> so_getLeafId S s' = so_getLeafId S s \<and>
      so_getEntry S j s' = so_getEntry S j s \<and> so_getPath S l s' = so_getPath S l s"
    and append: "inv s \<Longrightarrow> usable (en_id e) s \<Longrightarrow>
      en_parentId e = None \<or> so_getEntry S (the (en_parentId e)) s \<noteq> None \<Longrightarrow>
      \<forall>t. en_body e \<noteq> E_leaf t \<Longrightarrow>
      \<exists>s'. so_appendEntry S e s = (Inr (), s') \<and> inv s' \<and> so_getLeafId S s' = Inr (Some (en_id e)) \<and>
        (\<forall>j. so_getEntry S j s' = (if j = en_id e then Some e else so_getEntry S j s))"
    and append_path: "inv s \<Longrightarrow> usable (en_id e) s \<Longrightarrow>
      en_parentId e = None \<or> so_getEntry S (the (en_parentId e)) s \<noteq> None \<Longrightarrow>
      \<not> isCompaction (en_body e) \<Longrightarrow> so_getPath S (en_parentId e) s = Some (Inr path) \<Longrightarrow>
      so_getPath S (Some (en_id e)) (snd (so_appendEntry S e s)) = Some (Inr (path @ [e]))"
    and move: "inv s \<Longrightarrow> l = None \<or> so_getEntry S (the l) s \<noteq> None \<Longrightarrow>
      \<exists>s'. so_setLeafId S l s = (Inr (), s') \<and> inv s' \<and> so_getLeafId S s' = Inr l \<and>
        (\<forall>j e. so_getEntry S j s = Some e \<longrightarrow> so_getEntry S j s' = Some e) \<and>
        so_getPath S l s' = so_getPath S l s"
    and path_ok: "inv s \<Longrightarrow> l = None \<or> so_getEntry S (the l) s \<noteq> None \<Longrightarrow>
      \<exists>path. so_getPath S l s = Some (Inr path)"
begin

lemma appendAtLeaf_ok:
  assumes "inv s" and "\<forall>t. body \<noteq> E_leaf t"
  shows "\<exists>i s' e. appendAtLeaf S body s = (Inr i, s') \<and> inv s' \<and> so_getLeafId S s' = Inr (Some i) \<and>
    so_getEntry S i s = None \<and> so_getEntry S i s' = Some e \<and> en_body e = body \<and>
    (\<forall>j x. so_getEntry S j s = Some x \<longrightarrow> so_getEntry S j s' = Some x) \<and>
    (\<not> isCompaction body \<longrightarrow> (\<exists>path. getBranch S None s = Some (Inr path) \<and>
       getBranch S None s' = Some (Inr (path @ [e]))))"
proof -
  obtain i s1 where c: "so_createEntryId S s = (i, s1)" by fastforce
  note c' = create [OF assms(1) c]
  obtain l where l: "so_getLeafId S s = Inr l" "l = None \<or> so_getEntry S (the l) s \<noteq> None"
    using leaf [OF assms(1)] by blast
  let ?e = "\<lparr>en_id = i, en_parentId = l, en_timestamp = so_now S s1, en_body = body\<rparr>"
  let ?s = "snd (so_appendEntry S ?e s1)"
  have par: "en_parentId ?e = None \<or> so_getEntry S (the (en_parentId ?e)) s1 \<noteq> None" using l c' by simp
  obtain s2 where s2: "so_appendEntry S ?e s1 = (Inr (), s2)" "inv s2" "so_getLeafId S s2 = Inr (Some i)"
      "\<forall>j. so_getEntry S j s2 = (if j = i then Some ?e else so_getEntry S j s1)"
    using append [of s1 ?e] c' par assms(2) by auto
  have run: "appendAtLeaf S body s = (Inr i, ?s)" using c c' l s2(1) by (simp add: appendAtLeaf_def)
  have ok: "inv ?s \<and> so_getLeafId S ?s = Inr (Some i) \<and>
      so_getEntry S j ?s = (if j = i then Some ?e else so_getEntry S j s)" for j
    using s2 create [OF assms(1) c, of j] by simp
  have "\<exists>path. getBranch S None s = Some (Inr path) \<and> getBranch S None ?s = Some (Inr (path @ [?e]))"
    if "\<not> isCompaction body"
  proof -
    obtain path where path: "so_getPath S l s = Some (Inr path)" using path_ok [OF assms(1) l(2)] by blast
    then have "so_getPath S (Some i) ?s = Some (Inr (path @ [?e]))"
      using append_path [of s1 ?e path] par that c' create [OF assms(1) c, of i l] by simp
    with path l ok show ?thesis by (simp add: getBranch_def)
  qed
  moreover have "so_getEntry S i s = None" using c' by simp
  ultimately show ?thesis using run ok by (intro exI [of _ i] exI [of _ ?s] exI [of _ ?e]) auto
qed

lemma moveTo_ok:
  assumes "inv s" and "entryId = None \<or> so_getEntry S (the entryId) s \<noteq> None"
  shows "\<exists>res s'. moveTo S entryId summary s = (Inr res, s') \<and> inv s' \<and>
    (\<forall>j x. so_getEntry S j s = Some x \<longrightarrow> so_getEntry S j s' = Some x) \<and>
    (\<exists>path. so_getPath S entryId s = Some (Inr path) \<and>
       (summary = None \<longrightarrow> getBranch S None s' = Some (Inr path)) \<and>
       (summary \<noteq> None \<longrightarrow> (\<exists>e d. getBranch S None s' = Some (Inr (path @ [e])) \<and>
          en_body e = E_branchSummary d \<and> bd_summary d = mv_summary (the summary))))"
proof -
  obtain s1 where m: "so_setLeafId S entryId s = (Inr (), s1)" "inv s1" "so_getLeafId S s1 = Inr entryId"
      "\<forall>j x. so_getEntry S j s = Some x \<longrightarrow> so_getEntry S j s1 = Some x"
      "so_getPath S entryId s1 = so_getPath S entryId s"
    using move [OF assms] by blast
  obtain path where path: "so_getPath S entryId s = Some (Inr path)" using path_ok [OF assms] by blast
  have guard: "\<not> (entryId \<noteq> None \<and> so_getEntry S (the entryId) s = None)" using assms(2) by blast
  show ?thesis
  proof (cases summary)
    case None
    with m path guard show ?thesis by (auto simp: moveTo_def getBranch_def)
  next
    case (Some sm)
    obtain i s2 where c: "so_createEntryId S s1 = (i, s2)" by fastforce
    let ?d = "\<lparr>bd_fromId = orDefault entryId (js ''root''), bd_summary = mv_summary sm,
        bd_details = mv_details sm, bd_usage = mv_usage sm, bd_fromHook = mv_fromHook sm\<rparr>"
    let ?e = "\<lparr>en_id = i, en_parentId = entryId, en_timestamp = so_now S s2, en_body = E_branchSummary ?d\<rparr>"
    note c' = create [OF m(2) c]
    have par: "en_parentId ?e = None \<or> so_getEntry S (the (en_parentId ?e)) s2 \<noteq> None"
      using assms(2) m(4) c' by auto
    let ?s = "snd (so_appendEntry S ?e s2)"
    obtain s3 where s3: "so_appendEntry S ?e s2 = (Inr (), s3)" "inv s3" "so_getLeafId S s3 = Inr (Some i)"
        "\<forall>j. so_getEntry S j s3 = (if j = i then Some ?e else so_getEntry S j s2)"
      using append [of s2 ?e] c' par by auto
    have run: "moveTo S entryId summary s = (Inr (Some i), ?s)"
      using guard m(1) Some c s3(1) by (auto simp: moveTo_def)
    have ok: "inv ?s \<and> so_getLeafId S ?s = Inr (Some i) \<and>
        so_getEntry S j ?s = (if j = i then Some ?e else so_getEntry S j s1)" for j
      using s3 create [OF m(2) c, of j] by simp
    have "so_getPath S (Some i) ?s = Some (Inr (path @ [?e]))"
      using append_path [of s2 ?e path] par c' create [OF m(2) c, of i entryId] m(5) path by simp
    then have br: "getBranch S None ?s = Some (Inr (path @ [?e]))"
      using ok by (simp add: getBranch_def)
    have old: "\<forall>j x. so_getEntry S j s = Some x \<longrightarrow> so_getEntry S j ?s = Some x"
      using m(4) ok c' by auto
    show ?thesis
      using run ok old path br Some by (intro exI [of _ "Some i"] exI [of _ ?s]) auto
  qed
qed

end

end
