(* ===== verification/MemoryStorageFacts.thy ===== *)
theory MemoryStorageFacts
  imports SessionFacts
begin

text \<open>
  The in-memory storage keeps a tree: ids are unique and not empty, the index agrees with
  the entries, a parent comes before its children and the leaf exists. With it the
  storage is a \<open>session_store\<close>.
\<close>

definition goodSource :: "id_source \<Rightarrow> bool" where
  "goodSource src \<longleftrightarrow> inj (is_uuid src) \<and> (\<forall>n. 8 < length (is_uuid src n))"

definition memInv :: "id_source \<Rightarrow> mem_storage \<Rightarrow> bool" where
  "memInv src s \<longleftrightarrow> goodSource src \<and> distinct (map en_id (ms_entries s)) \<and>
     (\<forall>i e. ms_byId s i = Some e \<longleftrightarrow> e \<in> set (ms_entries s) \<and> en_id e = i) \<and>
     (\<forall>e \<in> set (ms_entries s). en_id e \<noteq> []) \<and>
     (\<forall>k < length (ms_entries s). \<forall>p. en_parentId (ms_entries s ! k) = Some p \<longrightarrow>
        (\<exists>j < k. en_id (ms_entries s ! j) = p)) \<and>
     (ms_leafId s \<noteq> None \<longrightarrow> ms_byId s (the (ms_leafId s)) \<noteq> None) \<and>
     (\<forall>n \<ge> ms_calls s. ms_byId s (is_uuid src n) = None)"

definition memUsable :: "id_source \<Rightarrow> jstr \<Rightarrow> mem_storage \<Rightarrow> bool" where
  "memUsable src i s \<longleftrightarrow> ms_byId s i = None \<and> i \<noteq> [] \<and> (\<forall>n \<ge> ms_calls s. is_uuid src n \<noteq> i)"

lemma generateEntryId_spec:
  assumes "goodSource src"
  shows "generateEntryId k src byId n = (i, n') \<Longrightarrow> \<forall>m \<ge> n. byId (is_uuid src m) = None \<Longrightarrow>
    n < n' \<and> byId i = None \<and> i \<noteq> [] \<and> (\<forall>m \<ge> n'. is_uuid src m \<noteq> i)"
proof (induction k arbitrary: n)
  case 0
  then have i: "i = is_uuid src n" "n' = Suc n" by simp_all
  have "is_uuid src m \<noteq> i" if "m \<ge> n'" for m
    using that i assms by (auto simp: goodSource_def dest: injD)
  moreover have "8 < length i" using assms i by (simp add: goodSource_def)
  then have "i \<noteq> []" by auto
  ultimately show ?case using 0 i by simp
next
  case (Suc k)
  let ?i = "lastChars 8 (is_uuid src n)"
  have len: "length ?i = 8" using assms by (simp add: lastChars_def goodSource_def less_imp_le)
  show ?case
  proof (cases "byId ?i = None")
    case True
    then have i: "i = ?i" "n' = Suc n" using Suc.prems by (simp_all add: Let_def)
    have "is_uuid src m \<noteq> i" for m
      using assms len i by (metis goodSource_def less_irrefl)
    moreover have "i \<noteq> []" using len i by auto
    ultimately show ?thesis using True i by simp
  next
    case False
    then have "generateEntryId k src byId (Suc n) = (i, n')" using Suc.prems(1) by (auto simp: Let_def)
    from Suc.IH [OF this] Suc.prems(2) show ?thesis by simp
  qed
qed

lemma memCreateEntryId_spec:
  assumes "memInv src s" and "memCreateEntryId src s = (i, s')"
  shows "memInv src s' \<and> memUsable src i s' \<and> ms_byId s i = None \<and> (\<exists>n. s' = s\<lparr>ms_calls := n\<rparr>)"
proof -
  obtain n where g: "generateEntryId 100 src (ms_byId s) (ms_calls s) = (i, n)" and s': "s' = s\<lparr>ms_calls := n\<rparr>"
    using assms(2) unfolding memCreateEntryId_def by (auto split: prod.splits)
  have "goodSource src" using assms(1) by (simp add: memInv_def)
  from generateEntryId_spec [OF this g] assms(1)
  have "ms_calls s < n" "ms_byId s i = None" "i \<noteq> []" "\<forall>m \<ge> n. is_uuid src m \<noteq> i"
    by (simp_all add: memInv_def)
  with assms(1) show ?thesis unfolding s' memInv_def memUsable_def by auto
qed

text \<open>Adding an entry with an unused id and an existing parent.\<close>

definition extend :: "entry \<Rightarrow> mem_storage \<Rightarrow> mem_storage" where
  "extend e s = s\<lparr>ms_entries := ms_entries s @ [e], ms_byId := (ms_byId s)(en_id e \<mapsto> e)\<rparr>"

lemma memInv_extend:
  assumes inv: "memInv src s" and u: "memUsable src (en_id e) s"
    and par: "en_parentId e = None \<or> ms_byId s (the (en_parentId e)) \<noteq> None"
    and leaf: "l = None \<or> the l = en_id e \<or> ms_byId s (the l) \<noteq> None" and n: "ms_calls s \<le> n"
  shows "memInv src ((extend e s)\<lparr>ms_leafId := l, ms_labelsById := lab, ms_calls := n\<rparr>)"
proof -
  have fresh: "en_id e \<notin> set (map en_id (ms_entries s))"
  proof
    assume "en_id e \<in> set (map en_id (ms_entries s))"
    then obtain x where "x \<in> set (ms_entries s)" "en_id x = en_id e" by auto
    with inv have "ms_byId s (en_id e) = Some x" unfolding memInv_def by blast
    with u show False by (simp add: memUsable_def)
  qed
  have order: "\<exists>j < k. en_id ((ms_entries s @ [e]) ! j) = p"
    if k: "k < length (ms_entries s @ [e])" "en_parentId ((ms_entries s @ [e]) ! k) = Some p" for k p
  proof (cases "k = length (ms_entries s)")
    case True
    with k(2) par inv obtain x where "x \<in> set (ms_entries s)" "en_id x = p"
      by (auto simp: memInv_def)
    with True show ?thesis by (auto simp: in_set_conv_nth nth_append)
  next
    case False
    with k have kl: "k < length (ms_entries s)" "en_parentId (ms_entries s ! k) = Some p"
      by (auto simp: nth_append less_Suc_eq)
    with inv obtain j where "j < k" "en_id (ms_entries s ! j) = p" unfolding memInv_def by blast
    with kl show ?thesis by (intro exI [of _ j]) (simp add: nth_append)
  qed
  have index: "((ms_byId s)(en_id e \<mapsto> e)) i = Some x \<longleftrightarrow> x \<in> set (ms_entries s @ [e]) \<and> en_id x = i" for i x
  proof -
    have "ms_byId s i = Some x \<longleftrightarrow> x \<in> set (ms_entries s) \<and> en_id x = i"
      using inv unfolding memInv_def by blast
    moreover have "x \<in> set (ms_entries s) \<Longrightarrow> en_id x \<noteq> en_id e" using fresh by (metis image_eqI set_map)
    ultimately show ?thesis by auto
  qed
  show ?thesis
    unfolding memInv_def
  proof (intro conjI)
    show "\<forall>m \<ge> ms_calls ((extend e s)\<lparr>ms_leafId := l, ms_labelsById := lab, ms_calls := n\<rparr>).
        ms_byId ((extend e s)\<lparr>ms_leafId := l, ms_labelsById := lab, ms_calls := n\<rparr>) (is_uuid src m) = None"
      using inv u n by (auto simp: memInv_def memUsable_def extend_def)
    show "ms_leafId ((extend e s)\<lparr>ms_leafId := l, ms_labelsById := lab, ms_calls := n\<rparr>) \<noteq> None \<longrightarrow>
        ms_byId ((extend e s)\<lparr>ms_leafId := l, ms_labelsById := lab, ms_calls := n\<rparr>)
          (the (ms_leafId ((extend e s)\<lparr>ms_leafId := l, ms_labelsById := lab, ms_calls := n\<rparr>))) \<noteq> None"
      using leaf by (auto simp: extend_def)
  qed (use inv u fresh order index in \<open>auto simp: memInv_def memUsable_def extend_def\<close>)
qed

section \<open>Every entry has a full path\<close>

lemma rootPath_at:
  assumes inv: "memInv src s"
  shows "k < length (ms_entries s) \<Longrightarrow>
    \<exists>ps. rootPath (ms_byId s) (ms_entries s ! k) ps \<and> distinct (map en_id ps) \<and>
      (\<forall>e \<in> set ps. \<exists>j \<le> k. e = ms_entries s ! j)"
proof (induction k rule: less_induct)
  case (less k)
  let ?e = "ms_entries s ! k"
  show ?case
  proof (cases "truthyStr (en_parentId ?e)")
    case False
    then have "rootPath (ms_byId s) ?e [?e]" by (rule rootPath.root)
    then show ?thesis by (intro exI [of _ "[?e]"]) auto
  next
    case True
    then obtain p where p: "en_parentId ?e = Some p" by (cases "en_parentId ?e") (auto simp: truthyStr_def)
    with inv less.prems obtain j where j: "j < k" "en_id (ms_entries s ! j) = p"
      unfolding memInv_def by blast
    let ?p = "ms_entries s ! j"
    have jl: "j < length (ms_entries s)" using j less.prems by simp
    then have "?p \<in> set (ms_entries s)" by simp
    then have idx: "ms_byId s p = Some ?p" using inv j(2) unfolding memInv_def by blast
    obtain ps where ps: "rootPath (ms_byId s) ?p ps" "distinct (map en_id ps)"
        "\<forall>e \<in> set ps. \<exists>m \<le> j. e = ms_entries s ! m"
      using less.IH [OF j(1) jl] by blast
    have "rootPath (ms_byId s) ?e (ps @ [?e])"
      by (rule rootPath.child [OF True _ ps(1)]) (simp add: p idx)
    moreover have "en_id ?e \<notin> set (map en_id ps)"
    proof
      assume "en_id ?e \<in> set (map en_id ps)"
      then obtain m where m: "m \<le> j" "en_id (ms_entries s ! m) = en_id ?e" using ps(3) by auto
      have "distinct (map en_id (ms_entries s))" using inv by (simp add: memInv_def)
      with m j less.prems have "m = k" by (auto simp: distinct_conv_nth)
      with m j show False by simp
    qed
    moreover have "\<forall>e \<in> set (ps @ [?e]). \<exists>m \<le> k. e = ms_entries s ! m"
    proof -
      have "\<exists>m \<le> k. x = ms_entries s ! m" if "x \<in> set ps" for x
        using ps(3) that j(1) by (meson le_trans less_imp_le)
      then show ?thesis by auto
    qed
    ultimately show ?thesis using ps(2) by (intro exI [of _ "ps @ [?e]"]) simp
  qed
qed

lemma rootPath_entry:
  assumes "memInv src s" and "ms_byId s i = Some e"
  shows "\<exists>ps. rootPath (ms_byId s) e ps \<and> distinct (map en_id ps)"
proof -
  have "e \<in> set (ms_entries s)" using assms unfolding memInv_def by blast
  then obtain k where "k < length (ms_entries s)" "e = ms_entries s ! k" by (metis in_set_conv_nth)
  with rootPath_at [OF assms(1)] show ?thesis by blast
qed

lemma rootPath_unique: "rootPath byId e ps \<Longrightarrow> rootPath byId e qs \<Longrightarrow> ps = qs"
proof (induction arbitrary: qs rule: rootPath.induct)
  case (root e)
  then show ?case by (auto elim: rootPath.cases)
next
  case (child e p ps)
  from child.prems child.hyps show ?case
    by (cases rule: rootPath.cases) (auto dest: child.IH)
qed

lemma rootPath_mono:
  "rootPath m e ps \<Longrightarrow> (\<And>i x. m i = Some x \<Longrightarrow> m' i = Some x) \<Longrightarrow> rootPath m' e ps"
  by (induction rule: rootPath.induct) (auto intro: rootPath.intros)

lemma memGetPath_cut:
  assumes "ms_byId s i = Some e" and "rootPath (ms_byId s) e ps"
  shows "memGetPath (Some i) s = Some (Inr (drop (cutAt ps (length ps - 1) None) ps))"
  using walkPath_cut [OF assms(2), of None "[]"] assms(1) by (simp add: memGetPath_def)

lemma memGetPath_ok:
  assumes "memInv src s" and "l = None \<or> ms_byId s (the l) \<noteq> None"
  shows "\<exists>path. memGetPath l s = Some (Inr path)"
proof (cases l)
  case None
  then show ?thesis by (simp add: memGetPath_def)
next
  case (Some i)
  with assms(2) obtain e where e: "ms_byId s i = Some e" by auto
  from rootPath_entry [OF assms(1) e] obtain ps where "rootPath (ms_byId s) e ps" by blast
  from memGetPath_cut [OF e this] Some show ?thesis by simp
qed

text \<open>A larger index does not change the path of an entry.\<close>

lemma memGetPath_mono:
  assumes "memInv src s" and "l = None \<or> ms_byId s (the l) \<noteq> None"
    and "\<And>i x. ms_byId s i = Some x \<Longrightarrow> ms_byId s' i = Some x"
  shows "memGetPath l s' = memGetPath l s"
proof (cases l)
  case (Some i)
  with assms(2) obtain e where e: "ms_byId s i = Some e" by auto
  from rootPath_entry [OF assms(1) e] obtain ps where ps: "rootPath (ms_byId s) e ps" by blast
  have "rootPath (ms_byId s') e ps" by (rule rootPath_mono [OF ps assms(3)])
  from memGetPath_cut [OF e ps] memGetPath_cut [OF assms(3) [OF e] this] Some show ?thesis by simp
qed (simp add: memGetPath_def)

section \<open>The storage as a session store\<close>

lemma memAppendEntry_extend:
  "memAppendEntry e s = (extend e s)\<lparr>ms_leafId := leafIdAfterEntry e,
     ms_labelsById := updateLabelCache e (ms_labelsById s), ms_calls := ms_calls s\<rparr>"
  by (simp add: memAppendEntry_def extend_def)

lemma memAppendEntry_ok:
  assumes "memInv src s" and "memUsable src (en_id e) s"
    and "en_parentId e = None \<or> ms_byId s (the (en_parentId e)) \<noteq> None" and "\<forall>t. en_body e \<noteq> E_leaf t"
  shows "memInv src (memAppendEntry e s)" and "memGetLeafId (memAppendEntry e s) = Inr (Some (en_id e))"
    and "ms_byId (memAppendEntry e s) = (ms_byId s)(en_id e \<mapsto> e)"
proof -
  have l: "leafIdAfterEntry e = Some (en_id e)"
    using assms(4) by (auto simp: leafIdAfterEntry_def split: entry_body.split)
  show "memInv src (memAppendEntry e s)"
    unfolding memAppendEntry_extend by (rule memInv_extend [OF assms(1-3)]) (simp_all add: l)
  show "ms_byId (memAppendEntry e s) = (ms_byId s)(en_id e \<mapsto> e)" by (simp add: memAppendEntry_def)
  show "memGetLeafId (memAppendEntry e s) = Inr (Some (en_id e))"
    using l by (simp add: memGetLeafId_def memAppendEntry_def)
qed

lemma memAppendEntry_path:
  assumes inv: "memInv src s" and u: "memUsable src (en_id e) s"
    and par: "en_parentId e = None \<or> ms_byId s (the (en_parentId e)) \<noteq> None"
    and c: "\<not> isCompaction (en_body e)" and path: "memGetPath (en_parentId e) s = Some (Inr path)"
  shows "memGetPath (Some (en_id e)) (memAppendEntry e s) = Some (Inr (path @ [e]))"
proof -
  let ?s = "memAppendEntry e s"
  have at: "ms_byId ?s (en_id e) = Some e" by (simp add: memAppendEntry_def)
  have noC: "compactionOf e = None" using c by (simp add: compactionOf_isCompaction)
  show ?thesis
  proof (cases "en_parentId e")
    case None
    then have "rootPath (ms_byId ?s) e [e]" by (intro rootPath.root) (simp add: truthyStr_def)
    from memGetPath_cut [OF at this] path None show ?thesis by (simp add: memGetPath_def)
  next
    case (Some p)
    with par obtain x where x: "ms_byId s p = Some x" by auto
    from rootPath_entry [OF inv x] obtain ps where ps: "rootPath (ms_byId s) x ps" by blast
    have "p \<noteq> []" using inv x unfolding memInv_def by blast
    then have t: "truthyStr (en_parentId e)" using Some by (simp add: truthyStr_def)
    have mono: "ms_byId ?s i = Some y" if "ms_byId s i = Some y" for i y
      using that u by (auto simp: memAppendEntry_def memUsable_def)
    have "rootPath (ms_byId ?s) e (ps @ [e])"
      by (rule rootPath.child [OF t _ rootPath_mono [OF ps mono]]) (simp_all add: Some mono x)
    note new = memGetPath_cut [OF at this]
    have old: "path = drop (cutAt ps (length ps - 1) None) ps"
      using memGetPath_cut [OF x ps] path Some by simp
    from rootPath_not_Nil [OF ps] obtain k where k: "length ps = Suc k" by (cases ps) auto
    then have nth: "(ps @ [e]) ! Suc k = e" by (metis nth_append_length)
    have "cutAt (ps @ [e]) (length (ps @ [e]) - 1) None = cutAt ps k None"
      using k nth noC cutAt_cong [of k "ps @ [e]" ps] by (simp add: nth_append retained_def nextStop_def)
    moreover have "cutAt ps k None \<le> length ps" using cutAt_le [of ps k None] k by simp
    ultimately show ?thesis using new old k by simp
  qed
qed

lemma memSetLeafId_ok:
  assumes inv: "memInv src s" and l: "l = None \<or> ms_byId s (the l) \<noteq> None"
  shows "\<exists>s'. memSetLeafId src l s = (Inr (), s') \<and> memInv src s' \<and> memGetLeafId s' = Inr l \<and>
    (\<forall>j e. ms_byId s j = Some e \<longrightarrow> ms_byId s' j = Some e) \<and> memGetPath l s' = memGetPath l s"
proof -
  obtain i s1 where c: "memCreateEntryId src s = (i, s1)" by fastforce
  from memCreateEntryId_spec [OF inv c] obtain n where
    s1: "memInv src s1" "memUsable src i s1" "ms_byId s i = None" "s1 = s\<lparr>ms_calls := n\<rparr>" by blast
  let ?e = "\<lparr>en_id = i, en_parentId = ms_leafId s1, en_timestamp = is_clock src (ms_calls s1), en_body = E_leaf l\<rparr>"
  let ?s = "(extend ?e s1)\<lparr>ms_leafId := l, ms_labelsById := ms_labelsById s1, ms_calls := Suc (ms_calls s1)\<rparr>"
  have run: "memSetLeafId src l s = (Inr (), ?s)"
    using l c by (auto simp: memSetLeafId_def Let_def extend_def)
  have par: "en_parentId ?e = None \<or> ms_byId s1 (the (en_parentId ?e)) \<noteq> None"
  proof -
    have "ms_leafId s1 = None \<or> ms_byId s1 (the (ms_leafId s1)) \<noteq> None"
      using s1(1) unfolding memInv_def by blast
    then show ?thesis by simp
  qed
  have inv': "memInv src ?s"
    using l s1(4) s1(2) by (intro memInv_extend [OF s1(1) _ par]) auto
  have mono: "ms_byId ?s j = Some e" if "ms_byId s j = Some e" for j e
    using that s1(3,4) by (auto simp: extend_def)
  have path: "memGetPath l ?s = memGetPath l s" by (rule memGetPath_mono [OF inv l mono])
  have leaf: "memGetLeafId ?s = Inr l" using l mono by (cases l) (auto simp: memGetLeafId_def extend_def s1(4))
  show ?thesis
    by (rule exI [of _ ?s]) (intro conjI allI impI run inv' leaf path mono)
qed

lemma memoryStorageOps_sel [simp]:
  "so_getLeafId (memoryStorageOps src) = memGetLeafId"
  "so_setLeafId (memoryStorageOps src) = memSetLeafId src"
  "so_createEntryId (memoryStorageOps src) = memCreateEntryId src"
  "so_appendEntry (memoryStorageOps src) e s = (Inr (), memAppendEntry e s)"
  "so_getEntry (memoryStorageOps src) i s = ms_byId s i"
  "so_getEntries (memoryStorageOps src) = memGetEntries"
  "so_getPath (memoryStorageOps src) = memGetPath"
  by (simp_all add: memoryStorageOps_def memGetEntry_def)

interpretation mem: session_store "memoryStorageOps src" "memInv src" "memUsable src" for src
proof
  fix s :: mem_storage and l
  assume inv: "memInv src s"
  show "\<exists>l. so_getLeafId (memoryStorageOps src) s = Inr l \<and>
      (l = None \<or> so_getEntry (memoryStorageOps src) (the l) s \<noteq> None)"
    using inv by (auto simp: memGetLeafId_def memInv_def split: option.split)
  show "\<exists>path. so_getPath (memoryStorageOps src) l s = Some (Inr path)"
    if "l = None \<or> so_getEntry (memoryStorageOps src) (the l) s \<noteq> None"
    using memGetPath_ok [OF inv, of l] that by simp
  show "\<exists>s'. so_setLeafId (memoryStorageOps src) l s = (Inr (), s') \<and> memInv src s' \<and>
        so_getLeafId (memoryStorageOps src) s' = Inr l \<and>
        (\<forall>j e. so_getEntry (memoryStorageOps src) j s = Some e \<longrightarrow>
          so_getEntry (memoryStorageOps src) j s' = Some e) \<and>
        so_getPath (memoryStorageOps src) l s' = so_getPath (memoryStorageOps src) l s"
    if "l = None \<or> so_getEntry (memoryStorageOps src) (the l) s \<noteq> None"
    using memSetLeafId_ok [OF inv, of l] that by simp
next
  fix s i s' j l
  assume inv: "memInv src s" and c: "so_createEntryId (memoryStorageOps src) s = (i, s')"
  then have c: "memCreateEntryId src s = (i, s')" by simp
  from memCreateEntryId_spec [OF inv c] obtain n where
    s': "memInv src s'" "memUsable src i s'" "ms_byId s i = None" "s' = s\<lparr>ms_calls := n\<rparr>" by blast
  then show "memInv src s' \<and> memUsable src i s' \<and> so_getEntry (memoryStorageOps src) i s = None \<and>
      so_getLeafId (memoryStorageOps src) s' = so_getLeafId (memoryStorageOps src) s \<and>
      so_getEntry (memoryStorageOps src) j s' = so_getEntry (memoryStorageOps src) j s \<and>
      so_getPath (memoryStorageOps src) l s' = so_getPath (memoryStorageOps src) l s"
    by (simp add: memGetLeafId_def memGetPath_def split: option.split)
next
  fix s and e :: entry
  assume "memInv src s" "memUsable src (en_id e) s"
    "en_parentId e = None \<or> so_getEntry (memoryStorageOps src) (the (en_parentId e)) s \<noteq> None"
    "\<forall>t. en_body e \<noteq> E_leaf t"
  then show "\<exists>s'. so_appendEntry (memoryStorageOps src) e s = (Inr (), s') \<and> memInv src s' \<and>
      so_getLeafId (memoryStorageOps src) s' = Inr (Some (en_id e)) \<and>
      (\<forall>j. so_getEntry (memoryStorageOps src) j s' =
        (if j = en_id e then Some e else so_getEntry (memoryStorageOps src) j s))"
    using memAppendEntry_ok [of src s e] by simp
next
  fix s and e :: entry and path
  assume "memInv src s" "memUsable src (en_id e) s"
    "en_parentId e = None \<or> so_getEntry (memoryStorageOps src) (the (en_parentId e)) s \<noteq> None"
    "\<not> isCompaction (en_body e)" "so_getPath (memoryStorageOps src) (en_parentId e) s = Some (Inr path)"
  then show "so_getPath (memoryStorageOps src) (Some (en_id e)) (snd (so_appendEntry (memoryStorageOps src) e s)) =
      Some (Inr (path @ [e]))"
    using memAppendEntry_path [of src s e path] by simp
qed

section \<open>New storages and the label cache\<close>

lemma memInv_new:
  assumes "goodSource src"
  shows "\<exists>s. newMemStorage src [] md n = Inr s \<and> memInv src s"
  using assms by (auto simp: newMemStorage_def Let_def memInv_def indexById_def)

text \<open>The label cache is always what a rebuild from the entries would give.\<close>

definition labelsOk :: "mem_storage \<Rightarrow> bool" where
  "labelsOk s \<longleftrightarrow> ms_labelsById s = buildLabelsById (ms_entries s)"

lemma labelsOk_append: "labelsOk s \<Longrightarrow> labelsOk (memAppendEntry e s)"
  by (simp add: labelsOk_def memAppendEntry_def buildLabelsById_def)

lemma labelsOk_setLeafId: "labelsOk s \<Longrightarrow> memSetLeafId src l s = (res, s') \<Longrightarrow> labelsOk s'"
  by (auto simp: labelsOk_def memSetLeafId_def memCreateEntryId_def buildLabelsById_def updateLabelCache_def Let_def
      split: if_splits prod.splits)

end
