(* ===== verification/SessionProps.thy ===== *)
theory SessionProps
  imports MemoryStorageFacts
begin

text \<open>The properties of sessions over the in-memory storage.\<close>

definition sampleSource :: id_source where
  "sampleSource = \<lparr>is_uuid = (\<lambda>n. replicate (9 + n) 48 @ [97]), is_clock = (\<lambda>n. showNat n)\<rparr>"

definition sampleStore :: mem_storage where
  "sampleStore = projr (newMemStorage sampleSource [] None 0)"

definition sampleUser :: agent_message where
  "sampleUser = user_msg \<lparr>um_content = UString (js ''hi''), um_timestamp = 0\<rparr>"

definition plainEntry :: "string \<Rightarrow> string option \<Rightarrow> entry_body \<Rightarrow> entry" where
  "plainEntry i p b = \<lparr>en_id = js i, en_parentId = map_option js p, en_timestamp = [], en_body = b\<rparr>"

definition sampleCompaction :: "string option \<Rightarrow> agent_message list option \<Rightarrow> compaction_data" where
  "sampleCompaction k t = \<lparr>cd_summary = js ''S'', cd_firstKeptEntryId = map_option js k, cd_tokensBefore = 9,
     cd_retainedTail = t, cd_details = None, cd_usage = None, cd_fromHook = None\<rparr>"

text \<open>A session of four entries: a thinking level, two messages and a compaction that keeps
  the second message.\<close>

definition compactedEntries :: "agent_message list option \<Rightarrow> entry list" where
  "compactedEntries t =
     [plainEntry ''aa'' None (E_thinkingLevelChange (js ''high'')),
      plainEntry ''bb'' (Some ''aa'') (E_message sampleUser),
      plainEntry ''cc'' (Some ''bb'') (E_message sampleUser),
      plainEntry ''dd'' (Some ''cc'') (E_compaction (sampleCompaction (Some ''cc'') t))]"

definition compactedStore :: "agent_message list option \<Rightarrow> mem_storage" where
  "compactedStore t = \<lparr>ms_metadata = \<lparr>sm_id = [], sm_createdAt = []\<rparr>, ms_entries = compactedEntries t,
     ms_byId = indexById (compactedEntries t), ms_labelsById = Map.empty, ms_leafId = Some (js ''dd''),
     ms_calls = 0\<rparr>"

lemma goodSource_sample: "goodSource sampleSource"
  by (auto simp: goodSource_def sampleSource_def inj_def dest: arg_cong [of _ _ length])

lemma sampleStore_inv: "memInv sampleSource sampleStore"
  using memInv_new [OF goodSource_sample, of None 0] by (auto simp: sampleStore_def)

text \<open>C10: Appending anything but a leaf to a session keeps the store a tree: the append succeeds, no
  earlier entry changes, the new entry has a fresh id and becomes the leaf, and, unless it
  is a compaction, the active branch is the old one with this entry at its end.\<close>

theorem append_extends_branch:
  assumes "memInv src s" and "\<forall>t. body \<noteq> E_leaf t"
  shows "\<exists>i s' e. appendAtLeaf (memoryStorageOps src) body s = (Inr i, s') \<and> memInv src s' \<and>
    memGetLeafId s' = Inr (Some i) \<and> ms_byId s i = None \<and> ms_byId s' i = Some e \<and> en_body e = body \<and>
    (\<forall>j x. ms_byId s j = Some x \<longrightarrow> ms_byId s' j = Some x) \<and>
    (\<not> isCompaction body \<longrightarrow> (\<exists>path. getBranch (memoryStorageOps src) None s = Some (Inr path) \<and>
       getBranch (memoryStorageOps src) None s' = Some (Inr (path @ [e]))))"
  using mem.appendAtLeaf_ok [OF assms] by simp

theorem append_extends_branch_witness:
  "\<exists>i s' e. appendMessage (memoryStorageOps sampleSource) sampleUser sampleStore = (Inr i, s') \<and>
     memInv sampleSource s' \<and> ms_byId s' i = Some e \<and> en_body e = E_message sampleUser"
proof -
  have "\<forall>t. E_message sampleUser \<noteq> E_leaf t" by simp
  from append_extends_branch [OF sampleStore_inv this] show ?thesis
    unfolding appendMessage_def by blast
qed

text \<open>Moving the leaf of a session to an existing entry, or to the root, succeeds and loses
  nothing: every entry stays, and the active branch is the path of the target, followed by
  the branch summary when one is given.\<close>

theorem move_keeps_entries:
  assumes "memInv src s" and "entryId = None \<or> ms_byId s (the entryId) \<noteq> None"
  shows "\<exists>res s'. moveTo (memoryStorageOps src) entryId summary s = (Inr res, s') \<and> memInv src s' \<and>
    (\<forall>j x. ms_byId s j = Some x \<longrightarrow> ms_byId s' j = Some x) \<and>
    (\<exists>path. memGetPath entryId s = Some (Inr path) \<and>
       (summary = None \<longrightarrow> getBranch (memoryStorageOps src) None s' = Some (Inr path)) \<and>
       (summary \<noteq> None \<longrightarrow> (\<exists>e d. getBranch (memoryStorageOps src) None s' = Some (Inr (path @ [e])) \<and>
          en_body e = E_branchSummary d \<and> bd_summary d = mv_summary (the summary))))"
  using mem.moveTo_ok [of src s entryId summary] assms by simp

theorem move_keeps_entries_witness:
  "\<exists>res s'. moveTo (memoryStorageOps sampleSource) None None sampleStore = (Inr res, s') \<and>
     memInv sampleSource s' \<and> getBranch (memoryStorageOps sampleSource) None s' = Some (Inr [])"
proof -
  have "None = None \<or> ms_byId sampleStore (the None) \<noteq> None" by simp
  from move_keeps_entries [OF sampleStore_inv this, of None] show ?thesis by (auto simp: memGetPath_def)
qed


lemma sample_uuid_neq: "is_uuid sampleSource n \<noteq> js [a, b]"
proof
  assume "is_uuid sampleSource n = js [a, b]"
  then have "length (is_uuid sampleSource n) = length (js [a, b])" by simp
  then show False by (simp add: sampleSource_def)
qed

lemma less_four: "k < 4 \<longleftrightarrow> k = 0 \<or> k = 1 \<or> k = 2 \<or> k = (3::nat)"
  by auto

lemma compactedStore_index:
  "ms_byId (compactedStore t) i = Some e \<longleftrightarrow> e \<in> set (compactedEntries t) \<and> en_id e = i"
  by (auto simp: compactedStore_def compactedEntries_def indexById_def plainEntry_def js_def)

lemma compactedStore_inv: "memInv sampleSource (compactedStore t)"
  unfolding memInv_def
proof (intro conjI)
  show "\<forall>k < length (ms_entries (compactedStore t)). \<forall>p. en_parentId (ms_entries (compactedStore t) ! k) = Some p \<longrightarrow>
      (\<exists>j < k. en_id (ms_entries (compactedStore t) ! j) = p)"
  proof (intro allI impI)
    fix k p
    assume "k < length (ms_entries (compactedStore t))" and
      p: "en_parentId (ms_entries (compactedStore t) ! k) = Some p"
    then have "k = 0 \<or> k = 1 \<or> k = 2 \<or> k = 3" by (auto simp: compactedStore_def compactedEntries_def)
    with p show "\<exists>j < k. en_id (ms_entries (compactedStore t) ! j) = p"
      by (auto simp: compactedStore_def compactedEntries_def plainEntry_def intro: exI [of _ "k - 1"])
  qed
  show "\<forall>n \<ge> ms_calls (compactedStore t). ms_byId (compactedStore t) (is_uuid sampleSource n) = None"
    using sample_uuid_neq
    by (auto simp: compactedStore_def compactedEntries_def indexById_def plainEntry_def)
  show "\<forall>i e. ms_byId (compactedStore t) i = Some e \<longleftrightarrow> e \<in> set (ms_entries (compactedStore t)) \<and> en_id e = i"
    unfolding compactedStore_index by (simp add: compactedStore_def)
  show "ms_leafId (compactedStore t) \<noteq> None \<longrightarrow> ms_byId (compactedStore t) (the (ms_leafId (compactedStore t))) \<noteq> None"
    by (simp add: compactedStore_def compactedEntries_def indexById_def plainEntry_def)
qed (use goodSource_sample in \<open>auto simp: compactedStore_def compactedEntries_def plainEntry_def js_def\<close>)

lemma compacted_rootPath:
  "rootPath (ms_byId (compactedStore t)) (compactedEntries t ! 3) (compactedEntries t)"
proof -
  have p: "rootPath m d [a, b, c, d]"
    if "\<not> truthyStr (en_parentId a)" "truthyStr (en_parentId b)" "m (the (en_parentId b)) = Some a"
      "truthyStr (en_parentId c)" "m (the (en_parentId c)) = Some b"
      "truthyStr (en_parentId d)" "m (the (en_parentId d)) = Some c" for m a b c d
  proof -
    have "rootPath m b ([a] @ [b])" by (rule rootPath.child [where byId = m, OF that(2,3) rootPath.root [OF that(1)]])
    then have "rootPath m c (([a] @ [b]) @ [c])" by (rule rootPath.child [where byId = m, OF that(4,5)])
    then have "rootPath m d ((([a] @ [b]) @ [c]) @ [d])" by (rule rootPath.child [where byId = m, OF that(6,7)])
    then show ?thesis by simp
  qed
  show ?thesis
    unfolding compactedEntries_def nth_Cons_numeral nth_Cons_0 by (simp, rule p)
      (auto simp: plainEntry_def truthyStr_def js_def compactedStore_def compactedEntries_def indexById_def)
qed

lemma compacted_orderly: "orderlyPath (compactedEntries None)"
  unfolding orderlyPath_def
proof (intro allI impI, elim conjE)
  fix j d k
  assume j: "lastCompactionAt (compactedEntries None) j" and d: "compactionOf (compactedEntries None ! j) = Some d"
    and k: "k < j" "cd_firstKeptEntryId d = Some (en_id (compactedEntries None ! k))"
  have "j = 0 \<or> j = 1 \<or> j = 2 \<or> j = 3" using j by (auto simp: lastCompactionAt_def compactedEntries_def)
  with d have j3: "j = 3" by (auto simp: compactedEntries_def compactionOf_def plainEntry_def)
  with d k have "k = 2"
    by (auto simp: compactedEntries_def compactionOf_def plainEntry_def sampleCompaction_def js_def less_Suc_eq
        numeral_3_eq_3)
  with j3 show "passes (compactedEntries None) k (j - 1)" by (auto simp: passes_def)
qed


section \<open>Where the code and its documentation part\<close>

text \<open>
  The format's documentation takes the model and the thinking level from the full path.
  The code takes them from the cut path, so a setting made before a compaction with a
  retained tail is lost.
\<close>

lemma settings_before_checkpoint_lost:
  "memGetPath (Some (js ''dd'')) (compactedStore (Some [])) = Some (Inr [compactedEntries (Some []) ! 3]) \<and>
   sx_thinkingLevel (deriveSessionContextState [compactedEntries (Some []) ! 3]) = js ''off'' \<and>
   sx_thinkingLevel (deriveSessionContextState (compactedEntries (Some []))) = js ''high''"
proof (intro conjI)
  have e: "ms_byId (compactedStore (Some [])) (js ''dd'') = Some (compactedEntries (Some []) ! 3)"
    unfolding compactedStore_index by (simp add: compactedEntries_def plainEntry_def)
  from memGetPath_cut [OF e compacted_rootPath]
  show "memGetPath (Some (js ''dd'')) (compactedStore (Some [])) = Some (Inr [compactedEntries (Some []) ! 3])"
    by (simp add: compactedEntries_def plainEntry_def retained_def compactionOf_def sampleCompaction_def
        eval_nat_numeral)
qed (simp_all add: deriveSessionContextState_def compactedEntries_def plainEntry_def deriveStep_def sampleUser_def)

text \<open>
  A fork at an entry below a compaction takes the cut path, whose first entry keeps the id
  of a parent that the fork does not have. Moving to an entry the compaction kept then
  makes the session's branch unreadable.
\<close>

lemma fork_of_cut_path_breaks:
  "\<exists>es s s'. getEntriesToFork (memoryStorageOps sampleSource)
       \<lparr>fo_entryId = Some (js ''dd''), fo_position = Some Fork_at, fo_id = None\<rparr> (compactedStore None) = Some (Inr es) \<and>
     newMemStorage sampleSource es None 0 = Inr s \<and>
     moveTo (memoryStorageOps sampleSource) (Some (js ''cc'')) None s = (Inr None, s') \<and>
     getBranch (memoryStorageOps sampleSource) None s' = Some (Inl (invalidSession (js ''bb'')))"
proof -
  let ?es = "drop 2 (compactedEntries None)"
  let ?S = "memoryStorageOps sampleSource"
  have e: "ms_byId (compactedStore None) (js ''dd'') = Some (compactedEntries None ! 3)"
    unfolding compactedStore_index by (simp add: compactedEntries_def plainEntry_def)
  have "cutAt (compactedEntries None) 3 None = 2"
    by (simp add: compactedEntries_def plainEntry_def retained_def compactionOf_def sampleCompaction_def
        nextStop_def eval_nat_numeral)
  moreover have "length (compactedEntries None) - 1 = 3" by (simp add: compactedEntries_def)
  ultimately have path: "memGetPath (Some (js ''dd'')) (compactedStore None) = Some (Inr ?es)"
    using memGetPath_cut [OF e compacted_rootPath] by (simp only:)
  have fork: "getEntriesToFork ?S \<lparr>fo_entryId = Some (js ''dd''), fo_position = Some Fork_at, fo_id = None\<rparr>
      (compactedStore None) = Some (Inr ?es)"
    using path e by (simp add: getEntriesToFork_def truthyStr_def Let_def compactedEntries_def plainEntry_def)
  obtain s where s: "newMemStorage sampleSource ?es None 0 = Inr s"
      "ms_byId s = indexById ?es" "ms_leafId s = Some (js ''dd'')" "ms_calls s = 1"
    by (simp add: newMemStorage_def compactedEntries_def plainEntry_def indexById_def leafIdAfterEntry_def Let_def)
  let ?i = "lastChars 8 (is_uuid sampleSource 1)"
  have i: "length ?i = 8" by (simp add: lastChars_def sampleSource_def)
  have fresh: "?i \<noteq> js [a, b]" for a b
  proof
    assume "?i = js [a, b]"
    then have "length ?i = length (js [a, b])" by simp
    with i show False by simp
  qed
  have new: "ms_byId s ?i = None"
    using fresh by (auto simp: s(2) indexById_def compactedEntries_def plainEntry_def)
  have create: "memCreateEntryId sampleSource s = (?i, s\<lparr>ms_calls := 2\<rparr>)"
    using new generateEntryId.simps(2) [of 99 sampleSource "ms_byId s" 1]
    by (simp add: memCreateEntryId_def s(4) Let_def numeral_2_eq_2)
  have cc: "ms_byId s (js ''cc'') = Some (compactedEntries None ! 2)" and bb: "ms_byId s (js ''bb'') = None"
    by (simp_all add: s(2) indexById_def compactedEntries_def plainEntry_def js_def)
  obtain s' where move: "moveTo ?S (Some (js ''cc'')) None s = (Inr None, s')"
      "ms_leafId s' = Some (js ''cc'')" "\<exists>x. ms_byId s' = (ms_byId s)(?i \<mapsto> x)"
    using cc create by (auto simp: moveTo_def memSetLeafId_def Let_def)
  have cc': "ms_byId s' (js ''cc'') = Some (compactedEntries None ! 2)" and bb': "ms_byId s' (js ''bb'') = None"
    using move(3) cc bb fresh [of "CHR ''c''" "CHR ''c''"] fresh [of "CHR ''b''" "CHR ''b''"]
    by (auto simp: fun_upd_def)
  have "walkPath (ms_byId s') (compactedEntries None ! 2) None [] = Some (Inl (invalidSession (js ''bb'')))"
    using bb' by (subst walkPath.simps)
      (simp add: compactedEntries_def plainEntry_def compactionOf_def truthyStr_def Let_def)
  then have "getBranch ?S None s' = Some (Inl (invalidSession (js ''bb'')))"
    using move(2) cc' by (simp add: getBranch_def memGetLeafId_def memGetPath_def)
  with fork s(1) move(1) show ?thesis by blast
qed

end
