(* ===== verification/Controller.thy ===== *)
theory Controller
  imports Prelude
begin

text \<open>
  The chat controller of packages/imclaw/src/controller.ts: one queue per chat, a worker
  that runs its items one after the other on the agent backend, and the handler of
  inbound messages with its commands.

  The code is asynchronous: a handler or a worker runs until its next \<open>await\<close> and goes on
  when the awaited call settles. So the model is a step function over events: a message
  arrives, or the call that a handler or a worker waits for resolves or rejects. Every
  order of events is allowed. The adapter and the backend are the environment; the calls
  made to them are the log.
\<close>

section \<open>Texts\<close>

definition MAX_INPUT_LENGTH :: nat where "MAX_INPUT_LENGTH = 8000"
definition MAX_REPLY_LENGTH :: nat where "MAX_REPLY_LENGTH = 3500"

definition UNAUTHORIZED_MESSAGE :: jstr where
  "UNAUTHORIZED_MESSAGE = [26080, 26435, 38480, 65306] @ js ''IMclaw '' @
     [20165, 20801, 35768, 20027, 20154, 20351, 29992, 12290]"

definition HELP_MESSAGE :: jstr where
  "HELP_MESSAGE = joinWith [10]
     [js ''IMclaw '' @ [21629, 20196, 65306],
      js ''/help '' @ [26597, 30475, 24110, 21161],
      js ''/new '' @ [21019, 24314, 26032, 20250, 35805],
      js ''/status '' @ [26597, 30475, 29366, 24577],
      js ''/abort '' @ [20013, 27490, 24403, 21069, 20219, 21153, 24182, 28165, 31354, 38431, 21015]]"

definition emptyInputText :: jstr where
  "emptyInputText = [35831, 36755, 20837, 25991, 26412, 20869, 23481, 12290]"

definition tooLongText :: jstr where
  "tooLongText = [28040, 24687, 36807, 38271, 65292, 26368, 22810, 20801, 35768] @ js '' '' @
     showNat MAX_INPUT_LENGTH @ js '' '' @ [20010, 23383, 31526, 12290]"

definition abortedText :: jstr where
  "abortedText = [24050, 20013, 27490, 24403, 21069, 20219, 21153, 24182, 28165, 31354, 31561, 24453,
     38431, 21015, 12290]"

definition acceptedText :: jstr where
  "acceptedText = [24050, 25910, 21040, 65292, 27491, 22312, 22788, 29702, 12290]"

definition newSessionText :: jstr where
  "newSessionText = [24050, 21019, 24314, 26032, 20250, 35805, 12290]"

definition failureText :: "jstr \<Rightarrow> jstr" where
  "failureText errorId = [22788, 29702, 22833, 36133, 65292, 35831, 26597, 30475] @ js '' PM2 '' @
     [26085, 24535, 12290, 38169, 35823, 32534, 21495, 65306] @ errorId"

section \<open>State\<close>

record inbound_message =
  ib_messageId :: jstr
  ib_chatId :: jstr
  ib_senderOpenId :: jstr
  ib_text :: jstr

datatype work_item = PromptItem jstr | NewItem

record chat_queue =
  cq_items :: "work_item list"
  cq_running :: bool
  cq_abortEpoch :: nat

text \<open>A call to the adapter or to the backend.\<close>

datatype ext_call =
    SendText jstr jstr
  | BackendPrompt jstr jstr
  | BackendNewSession jstr
  | BackendAbort jstr
  | BackendStatus jstr
  | BackendDispose

text \<open>
  The points at which a worker waits: for the backend, for a part of its reply to be sent,
  or for an error text to be sent. \<open>itemEpoch\<close> is the local variable of that name.
\<close>

datatype worker =
    AwaitBackend work_item nat
  | AwaitSend nat "jstr list"
  | AwaitErrorSend

text \<open>The points at which a handler waits.\<close>

datatype handler =
    AwaitAck jstr jstr
  | AwaitStatus jstr
  | AwaitStatusSend jstr "jstr list"
  | AwaitAbort jstr
  | AwaitLastSend

record controller =
  ct_queues :: "jstr \<Rightarrow> chat_queue option"
  ct_workers :: "(jstr \<times> worker) list"
  ct_handlers :: "handler list"
  ct_log :: "ext_call list"

text \<open>How an awaited call settles; \<open>OtherError\<close> carries the error id that the worker draws.\<close>

datatype task_error = TaskLimit jstr | OtherError jstr

datatype outcome = Resolved jstr | Rejected task_error

definition initialController :: controller where
  "initialController = \<lparr>ct_queues = Map.empty, ct_workers = [], ct_handlers = [], ct_log = []\<rparr>"

definition logCall :: "ext_call \<Rightarrow> controller \<Rightarrow> controller" where
  "logCall e c = c\<lparr>ct_log := ct_log c @ [e]\<rparr>"

section \<open>The worker\<close>

text \<open>The pieces \<open>sendChunked\<close> sends.\<close>

fun chunksOf :: "nat \<Rightarrow> jstr \<Rightarrow> jstr list" where
  "chunksOf n text =
     (if text = [] \<or> n = 0 then [] else take n text # chunksOf n (drop n text))"

declare chunksOf.simps [simp del]

definition emptyQueue :: chat_queue where
  "emptyQueue = \<lparr>cq_items = [], cq_running = False, cq_abortEpoch = 0\<rparr>"

definition queueOf :: "controller \<Rightarrow> jstr \<Rightarrow> chat_queue" where
  "queueOf c chat = orDefault (ct_queues c chat) emptyQueue"

definition backendCall :: "jstr \<Rightarrow> work_item \<Rightarrow> ext_call" where
  "backendCall chat item =
     (case item of PromptItem text \<Rightarrow> BackendPrompt chat text | NewItem \<Rightarrow> BackendNewSession chat)"

text \<open>The head of the loop of \<open>runQueue\<close>: take the next item, or stop.\<close>

definition takeNext :: "jstr \<Rightarrow> controller \<Rightarrow> worker option \<times> controller" where
  "takeNext chat c =
     (let q = queueOf c chat
      in case cq_items q of
           [] \<Rightarrow> (None, c\<lparr>ct_queues := (ct_queues c)(chat \<mapsto> q\<lparr>cq_running := False\<rparr>)\<rparr>)
         | item # items \<Rightarrow>
             (Some (AwaitBackend item (cq_abortEpoch q)),
              logCall (backendCall chat item)
                (c\<lparr>ct_queues := (ct_queues c)(chat \<mapsto> q\<lparr>cq_items := items\<rparr>)\<rparr>)))"

text \<open>Sending the parts of a reply, one after the other.\<close>

definition sendParts :: "jstr \<Rightarrow> nat \<Rightarrow> jstr list \<Rightarrow> controller \<Rightarrow> worker option \<times> controller" where
  "sendParts chat epoch parts c =
     (case parts of
        [] \<Rightarrow> takeNext chat c
      | p # ps \<Rightarrow> (Some (AwaitSend epoch ps), logCall (SendText chat p) c))"

text \<open>The \<open>catch\<close> block.\<close>

definition onError :: "jstr \<Rightarrow> nat \<Rightarrow> task_error \<Rightarrow> controller \<Rightarrow> worker option \<times> controller" where
  "onError chat epoch err c =
     (if epoch \<noteq> cq_abortEpoch (queueOf c chat) then takeNext chat c
      else (Some AwaitErrorSend,
            logCall (SendText chat (case err of TaskLimit msg \<Rightarrow> msg | OtherError errorId \<Rightarrow> failureText errorId)) c))"

text \<open>A settled call lets the worker go on; \<open>None\<close> is a worker that has ended.\<close>

fun workerGoOn :: "jstr \<Rightarrow> worker \<Rightarrow> outcome \<Rightarrow> controller \<Rightarrow> worker option \<times> controller" where
  "workerGoOn chat (AwaitBackend item epoch) (Resolved reply) c =
     (if epoch = cq_abortEpoch (queueOf c chat)
      then (case item of
              NewItem \<Rightarrow> sendParts chat epoch [newSessionText] c
            | PromptItem _ \<Rightarrow> sendParts chat epoch (chunksOf MAX_REPLY_LENGTH reply) c)
      else takeNext chat c)"
| "workerGoOn chat (AwaitBackend item epoch) (Rejected err) c = onError chat epoch err c"
| "workerGoOn chat (AwaitSend epoch parts) (Resolved _) c = sendParts chat epoch parts c"
| "workerGoOn chat (AwaitSend epoch parts) (Rejected err) c = onError chat epoch err c"
| "workerGoOn chat AwaitErrorSend (Resolved _) c = takeNext chat c"
| "workerGoOn chat AwaitErrorSend (Rejected err) c = (None, c)"

definition setWorker :: "nat \<Rightarrow> jstr \<Rightarrow> worker option \<Rightarrow> controller \<Rightarrow> controller" where
  "setWorker i chat w c =
     c\<lparr>ct_workers := (case w of
         None \<Rightarrow> take i (ct_workers c) @ drop (Suc i) (ct_workers c)
       | Some w' \<Rightarrow> (ct_workers c)[i := (chat, w')])\<rparr>"

text \<open>\<open>enqueue\<close>: a worker is started unless the queue says that one is running.\<close>

definition enqueueItem :: "jstr \<Rightarrow> work_item \<Rightarrow> controller \<Rightarrow> controller" where
  "enqueueItem chat item c =
     (let q = queueOf c chat;
          q' = q\<lparr>cq_items := cq_items q @ [item]\<rparr>
      in if cq_running q then c\<lparr>ct_queues := (ct_queues c)(chat \<mapsto> q')\<rparr>
         else (case takeNext chat (c\<lparr>ct_queues := (ct_queues c)(chat \<mapsto> q'\<lparr>cq_running := True\<rparr>)\<rparr>) of
                 (None, c') \<Rightarrow> c'
               | (Some w, c') \<Rightarrow> c'\<lparr>ct_workers := ct_workers c' @ [(chat, w)]\<rparr>))"

section \<open>The handler\<close>

definition await :: "handler \<Rightarrow> controller \<Rightarrow> controller" where
  "await h c = c\<lparr>ct_handlers := ct_handlers c @ [h]\<rparr>"

definition abortQueue :: "jstr \<Rightarrow> controller \<Rightarrow> controller" where
  "abortQueue chat c =
     (case ct_queues c chat of
        None \<Rightarrow> c
      | Some q \<Rightarrow> c\<lparr>ct_queues := (ct_queues c)(chat \<mapsto> q\<lparr>cq_items := [], cq_abortEpoch := cq_abortEpoch q + 1\<rparr>)\<rparr>)"

text \<open>\<open>handle\<close> up to its first \<open>await\<close>.\<close>

definition receive :: "jstr \<Rightarrow> inbound_message \<Rightarrow> controller \<Rightarrow> controller" where
  "receive owner m c =
     (let chat = ib_chatId m; text = trim (ib_text m);
          reply = (\<lambda>t. await AwaitLastSend (logCall (SendText chat t) c))
      in if ib_senderOpenId m \<noteq> owner then reply UNAUTHORIZED_MESSAGE
         else if text = [] then reply emptyInputText
         else if length text > MAX_INPUT_LENGTH then reply tooLongText
         else if text = js ''/help'' then reply HELP_MESSAGE
         else if text = js ''/status'' then await (AwaitStatus chat) (logCall (BackendStatus chat) c)
         else if text = js ''/abort'' then await (AwaitAbort chat) (logCall (BackendAbort chat) (abortQueue chat c))
         else if text = js ''/new'' then enqueueItem chat NewItem c
         else await (AwaitAck chat text) (logCall (SendText chat acceptedText) c))"

definition statusParts :: "jstr \<Rightarrow> jstr list \<Rightarrow> controller \<Rightarrow> handler option \<times> controller" where
  "statusParts chat parts c =
     (case parts of
        [] \<Rightarrow> (None, c)
      | p # ps \<Rightarrow> (Some (AwaitStatusSend chat ps), logCall (SendText chat p) c))"

text \<open>The rest of \<open>handle\<close>. A rejected call ends the handler.\<close>

fun handlerGoOn :: "handler \<Rightarrow> outcome \<Rightarrow> controller \<Rightarrow> handler option \<times> controller" where
  "handlerGoOn (AwaitAck chat text) (Resolved _) c = (None, enqueueItem chat (PromptItem text) c)"
| "handlerGoOn (AwaitStatus chat) (Resolved reply) c = statusParts chat (chunksOf MAX_REPLY_LENGTH reply) c"
| "handlerGoOn (AwaitStatusSend chat parts) (Resolved _) c = statusParts chat parts c"
| "handlerGoOn (AwaitAbort chat) (Resolved _) c = (Some AwaitLastSend, logCall (SendText chat abortedText) c)"
| "handlerGoOn AwaitLastSend (Resolved _) c = (None, c)"
| "handlerGoOn h (Rejected _) c = (None, c)"

definition setHandler :: "nat \<Rightarrow> handler option \<Rightarrow> controller \<Rightarrow> controller" where
  "setHandler i h c =
     c\<lparr>ct_handlers := (case h of
         None \<Rightarrow> take i (ct_handlers c) @ drop (Suc i) (ct_handlers c)
       | Some h' \<Rightarrow> (ct_handlers c)[i := h'])\<rparr>"

definition dispose :: "controller \<Rightarrow> controller" where
  "dispose c = logCall BackendDispose
     (c\<lparr>ct_queues := (\<lambda>chat. map_option (\<lambda>q. q\<lparr>cq_items := []\<rparr>) (ct_queues c chat))\<rparr>)"

section \<open>Steps\<close>

datatype event =
    Receive inbound_message
  | HandlerSettles nat outcome
  | WorkerSettles nat outcome
  | Dispose

text \<open>An event of a handler or a worker that does not exist changes nothing.\<close>

fun step :: "jstr \<Rightarrow> event \<Rightarrow> controller \<Rightarrow> controller" where
  "step owner (Receive m) c = receive owner m c"
| "step owner (HandlerSettles i out) c =
     (if i < length (ct_handlers c)
      then (case handlerGoOn (ct_handlers c ! i) out c of (h, c') \<Rightarrow> setHandler i h c')
      else c)"
| "step owner (WorkerSettles i out) c =
     (if i < length (ct_workers c)
      then (case ct_workers c ! i of (chat, w) \<Rightarrow>
              (case workerGoOn chat w out c of (w', c') \<Rightarrow> setWorker i chat w' c'))
      else c)"
| "step owner Dispose c = dispose c"

definition runEvents :: "jstr \<Rightarrow> event list \<Rightarrow> controller \<Rightarrow> controller" where
  "runEvents owner es c = fold (step owner) es c"

end
