(* ===== verification/ControllerFacts.thy ===== *)
theory ControllerFacts
  imports Controller
begin

text \<open>
  The correctness of the chat controller: the invariant of queues and workers, the order of
  the items, who may cause a backend call, and the pieces of a reply.
\<close>

section \<open>Pieces of a reply\<close>

lemma concat_chunksOf: "0 < n \<Longrightarrow> concat (chunksOf n s) = s"
proof (induction n s rule: chunksOf.induct)
  case (1 n s)
  show ?case
  proof (cases "s = []")
    case True
    then show ?thesis by (subst chunksOf.simps) simp
  next
    case False
    with 1 have "concat (chunksOf n (drop n s)) = drop n s" by simp
    with False 1(2) show ?thesis by (subst chunksOf.simps) simp
  qed
qed

lemma chunksOf_lengths: "p \<in> set (chunksOf n s) \<Longrightarrow> 0 < length p \<and> length p \<le> n"
proof (induction n s rule: chunksOf.induct)
  case (1 n s)
  have go: "s \<noteq> [] \<and> n \<noteq> 0" using 1(2) by (subst (asm) chunksOf.simps) (simp split: if_splits)
  then have "p = take n s \<or> p \<in> set (chunksOf n (drop n s))"
    using 1(2) by (subst (asm) chunksOf.simps) simp
  with 1(1) go show ?case by auto
qed

section \<open>The invariant\<close>

definition items :: "controller \<Rightarrow> jstr \<Rightarrow> work_item list" where
  "items c chat = cq_items (queueOf c chat)"

definition running :: "controller \<Rightarrow> jstr \<Rightarrow> bool" where
  "running c chat = cq_running (queueOf c chat)"

definition epoch :: "controller \<Rightarrow> jstr \<Rightarrow> nat" where
  "epoch c chat = cq_abortEpoch (queueOf c chat)"

fun workerEpoch :: "worker \<Rightarrow> nat" where
  "workerEpoch (AwaitBackend _ e) = e"
| "workerEpoch (AwaitSend e _) = e"
| "workerEpoch AwaitErrorSend = 0"

definition controllerInv :: "controller \<Rightarrow> bool" where
  "controllerInv c \<longleftrightarrow> distinct (map fst (ct_workers c)) \<and>
     (\<forall>(chat, w) \<in> set (ct_workers c). running c chat \<and> workerEpoch w \<le> epoch c chat) \<and>
     (\<forall>chat. items c chat \<noteq> [] \<longrightarrow> running c chat)"

text \<open>Every queue that says it runs has a worker.\<close>

definition attended :: "controller \<Rightarrow> bool" where
  "attended c \<longleftrightarrow> (\<forall>chat. running c chat \<longrightarrow> chat \<in> fst ` set (ct_workers c))"

lemma queueOf_log [simp]: "queueOf (logCall e c) = queueOf c"
  by (simp add: fun_eq_iff queueOf_def logCall_def)

lemma log_workers [simp]: "ct_workers (logCall e c) = ct_workers c"
  by (simp add: logCall_def)

lemma queueOf_await [simp]: "queueOf (await h c) = queueOf c"
  by (simp add: fun_eq_iff queueOf_def await_def)

lemma await_workers [simp]: "ct_workers (await h c) = ct_workers c"
  by (simp add: await_def)

lemma queueOf_workers [simp]: "queueOf (c\<lparr>ct_workers := ws\<rparr>) = queueOf c"
  by (simp add: fun_eq_iff queueOf_def)

lemma queueOf_handlers [simp]: "queueOf (c\<lparr>ct_handlers := hs\<rparr>) = queueOf c"
  by (simp add: fun_eq_iff queueOf_def)

lemma queueOf_ct_log [simp]: "queueOf (c\<lparr>ct_log := l\<rparr>) = queueOf c"
  by (simp add: fun_eq_iff queueOf_def)

lemma queueOf_update [simp]:
  "queueOf (c\<lparr>ct_queues := (ct_queues c)(chat \<mapsto> q)\<rparr>) = (queueOf c)(chat := q)"
  by (simp add: fun_eq_iff queueOf_def)

text \<open>What going on does to the queue of the chat.\<close>

lemma takeNext_spec:
  assumes "takeNext chat c = (w, c')"
  shows "ct_workers c' = ct_workers c \<and> (\<forall>d. d \<noteq> chat \<longrightarrow> queueOf c' d = queueOf c d) \<and>
    epoch c' chat = epoch c chat \<and>
    (case items c chat of
       [] \<Rightarrow> w = None \<and> items c' chat = [] \<and> \<not> running c' chat \<and> ct_log c' = ct_log c
     | it # its \<Rightarrow> w = Some (AwaitBackend it (epoch c chat)) \<and> items c' chat = its \<and>
         running c' chat = running c chat \<and> ct_log c' = ct_log c @ [backendCall chat it])"
  using assms by (auto simp: takeNext_def Let_def items_def running_def epoch_def logCall_def queueOf_def
      split: list.splits)

definition isBackendCall :: "ext_call \<Rightarrow> bool" where
  "isBackendCall e \<longleftrightarrow> (case e of BackendPrompt _ _ \<Rightarrow> True | BackendNewSession _ \<Rightarrow> True | _ \<Rightarrow> False)"

text \<open>The items of a chat that the log shows as started.\<close>

definition startedBy :: "jstr \<Rightarrow> ext_call \<Rightarrow> work_item option" where
  "startedBy chat e =
     (case e of
        BackendPrompt d t \<Rightarrow> (if d = chat then Some (PromptItem t) else None)
      | BackendNewSession d \<Rightarrow> (if d = chat then Some NewItem else None)
      | _ \<Rightarrow> None)"

definition started :: "controller \<Rightarrow> jstr \<Rightarrow> work_item list" where
  "started c chat = List.map_filter (startedBy chat) (ct_log c)"

lemma started_log: "started (logCall e c) chat =
   started c chat @ (case startedBy chat e of None \<Rightarrow> [] | Some it \<Rightarrow> [it])"
  by (simp add: started_def logCall_def List.map_filter_def split: option.split)

lemma startedBy_simps [simp]:
  "startedBy chat (SendText d t) = None"
  "startedBy chat (BackendAbort d) = None"
  "startedBy chat (BackendStatus d) = None"
  "startedBy chat BackendDispose = None"
  "startedBy chat (backendCall d it) = (if d = chat then Some it else None)"
  by (auto simp: startedBy_def backendCall_def split: work_item.splits)

text \<open>
  The line of a chat: what has been started, then what waits. It tells all about the order
  of the items.
\<close>

definition lineOf :: "controller \<Rightarrow> jstr \<Rightarrow> work_item list" where
  "lineOf c chat = started c chat @ items c chat"

text \<open>
  The part of the invariant that a continuation preserves; the worker it concerns is out of
  the list while it runs.
\<close>

lemma takeNext_line: "takeNext chat c = (w, c') \<Longrightarrow> lineOf c' d = lineOf c d"
  by (auto simp: takeNext_def Let_def lineOf_def items_def started_def logCall_def List.map_filter_def
      split: list.splits)

lemma sendParts_line: "sendParts chat ep parts c = (w, c') \<Longrightarrow> lineOf c' d = lineOf c d"
  by (auto simp: sendParts_def lineOf_def items_def started_log split: list.splits
      dest: takeNext_line [unfolded lineOf_def items_def])

lemma onError_line: "onError chat ep err c = (w, c') \<Longrightarrow> lineOf c' d = lineOf c d"
  by (auto simp: onError_def lineOf_def items_def started_log split: if_splits
      dest: takeNext_line [unfolded lineOf_def items_def])

lemma workerGoOn_line: "workerGoOn chat w out c = (w', c') \<Longrightarrow> lineOf c' d = lineOf c d"
  by (cases "(chat, w, out, c)" rule: workerGoOn.cases)
    (auto split: if_splits work_item.splits dest: takeNext_line sendParts_line onError_line)

section \<open>Continuations keep the invariant\<close>

definition goesOn :: "jstr \<Rightarrow> nat \<Rightarrow> controller \<Rightarrow> worker option \<times> controller \<Rightarrow> bool" where
  "goesOn chat ep c res \<longleftrightarrow> (case res of (w, c') \<Rightarrow>
     ct_workers c' = ct_workers c \<and> ct_handlers c' = ct_handlers c \<and>
     (\<forall>d. d \<noteq> chat \<longrightarrow> queueOf c' d = queueOf c d) \<and> epoch c' chat = epoch c chat \<and>
     (case w of
        None \<Rightarrow> \<not> running c' chat \<and> items c' chat = []
      | Some w' \<Rightarrow> running c' chat = running c chat \<and> workerEpoch w' \<le> max ep (epoch c chat)))"

lemma goesOn_takeNext: "goesOn chat ep c (takeNext chat c)"
  by (auto simp: goesOn_def takeNext_def Let_def items_def running_def epoch_def logCall_def split: list.splits)

lemma goesOn_log: "goesOn chat ep c res \<Longrightarrow> goesOn chat ep (logCall e c) res"
  by (auto simp: goesOn_def running_def epoch_def logCall_def split: prod.splits option.splits)

lemma goesOn_sendParts: "goesOn chat ep c (sendParts chat ep parts c)"
  using goesOn_takeNext
  by (auto simp: sendParts_def goesOn_def running_def epoch_def logCall_def split: list.splits)

lemma goesOn_onError: "goesOn chat ep c (onError chat ep err c)"
  using goesOn_takeNext
  by (auto simp: onError_def goesOn_def running_def epoch_def logCall_def split: list.splits)

text \<open>A failure notice that cannot be sent ends the worker with its queue still running.\<close>

definition crashes :: "worker \<Rightarrow> outcome \<Rightarrow> bool" where
  "crashes w out \<longleftrightarrow> w = AwaitErrorSend \<and> (\<exists>err. out = Rejected err)"

lemma goesOn_workerGoOn: "\<not> crashes w out \<Longrightarrow> goesOn chat (workerEpoch w) c (workerGoOn chat w out c)"
  by (cases "(chat, w, out, c)" rule: workerGoOn.cases)
    (auto simp: crashes_def goesOn_takeNext goesOn_sendParts goesOn_onError split: work_item.split)

lemma workerGoOn_crash: "crashes w out \<Longrightarrow> workerGoOn chat w out c = (None, c)"
  by (auto simp: crashes_def)

lemma distinct_update_fst:
  "i < length ws \<Longrightarrow> fst (ws ! i) = chat \<Longrightarrow> map fst (ws[i := (chat, w)]) = map fst ws"
  by (metis fst_conv length_map list_update_id map_update nth_map)

lemma controllerInv_worker:
  assumes inv: "controllerInv c" and i: "i < length (ct_workers c)" "ct_workers c ! i = (chat, w)"
    and go: "goesOn chat (workerEpoch w) c (w', c')"
  shows "controllerInv (setWorker i chat w' c')"
proof -
  let ?ws = "ct_workers c"
  have ws: "ct_workers c' = ?ws" and other: "\<forall>d. d \<noteq> chat \<longrightarrow> queueOf c' d = queueOf c d"
    and ep: "epoch c' chat = epoch c chat"
    using go by (auto simp: goesOn_def)
  have dist: "distinct (map fst ?ws)" using inv by (simp add: controllerInv_def)
  have w: "running c chat \<and> workerEpoch w \<le> epoch c chat"
    using inv i by (force simp: controllerInv_def in_set_conv_nth)
  have split: "?ws = take i ?ws @ (chat, w) # drop (Suc i) ?ws" using i id_take_nth_drop by metis
  have away: "d \<noteq> chat \<and> running c' d \<and> workerEpoch x \<le> epoch c' d"
    if "(d, x) \<in> set (take i ?ws @ drop (Suc i) ?ws)" for d x
  proof -
    have mem: "(d, x) \<in> set ?ws" using that by (auto dest: in_set_takeD in_set_dropD)
    have "distinct (map fst (take i ?ws) @ chat # map fst (drop (Suc i) ?ws))"
      using dist split by (metis fst_conv list.simps(9) map_append)
    then have "chat \<notin> set (map fst (take i ?ws @ drop (Suc i) ?ws))" by simp
    moreover have "d \<in> set (map fst (take i ?ws @ drop (Suc i) ?ws))"
      using that by (metis fst_conv image_eqI set_map)
    ultimately have "d \<noteq> chat" by blast
    moreover have "running c d \<and> workerEpoch x \<le> epoch c d"
      using inv mem unfolding controllerInv_def by blast
    ultimately show ?thesis using other by (simp add: running_def epoch_def)
  qed
  show ?thesis
  proof (cases w')
    case None
    have "distinct (map fst (take i ?ws @ drop (Suc i) ?ws))"
    proof -
      have "distinct (map fst (take i ?ws) @ chat # map fst (drop (Suc i) ?ws))"
        using dist split by (metis fst_conv list.simps(9) map_append)
      then show ?thesis by simp
    qed
    moreover have "\<forall>d. items c' d \<noteq> [] \<longrightarrow> running c' d"
      using go None other inv by (auto simp: goesOn_def controllerInv_def items_def running_def)
    ultimately show ?thesis using away None ws
      by (auto simp: controllerInv_def setWorker_def running_def epoch_def items_def)
  next
    case (Some w'')
    have run: "running c' chat" "workerEpoch w'' \<le> epoch c' chat" using go Some w ep by (auto simp: goesOn_def)
    have set: "set (?ws[i := (chat, w'')]) \<subseteq> insert (chat, w'') (set (take i ?ws @ drop (Suc i) ?ws))"
      using i(1) by (auto simp: upd_conv_take_nth_drop)
    have "distinct (map fst (?ws[i := (chat, w'')]))" using distinct_update_fst [OF i(1)] i(2) dist by simp
    moreover have "\<forall>d. items c' d \<noteq> [] \<longrightarrow> running c' d"
      using run other inv by (auto simp: controllerInv_def items_def running_def)
    moreover have "running c' d \<and> workerEpoch x \<le> epoch c' d" if "(d, x) \<in> set (?ws[i := (chat, w'')])" for d x
      using set that away run by auto
    ultimately show ?thesis using Some ws
      by (auto simp: controllerInv_def setWorker_def running_def epoch_def items_def)
  qed
qed

lemma controllerInv_workerD: "controllerInv c \<Longrightarrow> (chat, w) \<in> set (ct_workers c) \<Longrightarrow>
   running c chat \<and> workerEpoch w \<le> epoch c chat"
  unfolding controllerInv_def by blast

lemma controllerInv_idle: "controllerInv c \<Longrightarrow> \<not> running c chat \<Longrightarrow>
   items c chat = [] \<and> chat \<notin> fst ` set (ct_workers c)"
proof
  assume inv: "controllerInv c" and r: "\<not> running c chat"
  show "items c chat = []" using inv r unfolding controllerInv_def by blast
  show "chat \<notin> fst ` set (ct_workers c)" using controllerInv_workerD [OF inv] r by auto
qed

lemma distinct_fst_remove:
  assumes "i < length ws" and "distinct (map fst ws)"
  shows "distinct (map fst (take i ws @ drop (Suc i) ws))"
proof -
  have "ws = take i ws @ ws ! i # drop (Suc i) ws" by (rule id_take_nth_drop [OF assms(1)])
  then have "map fst ws = map fst (take i ws) @ fst (ws ! i) # map fst (drop (Suc i) ws)"
    by (metis list.simps(9) map_append)
  with assms(2) show ?thesis by simp
qed

lemma controllerInvI:
  assumes "distinct (map fst (ct_workers c))"
    and "\<And>d w. (d, w) \<in> set (ct_workers c) \<Longrightarrow> running c d \<and> workerEpoch w \<le> epoch c d"
    and "\<And>d. items c d \<noteq> [] \<Longrightarrow> running c d"
  shows "controllerInv c"
  using assms unfolding controllerInv_def by blast

lemma controllerInv_fewer:
  assumes "controllerInv c" and "set ws \<subseteq> set (ct_workers c)" and "distinct (map fst ws)"
  shows "controllerInv (c\<lparr>ct_workers := ws\<rparr>)"
proof (rule controllerInvI)
  show "running (c\<lparr>ct_workers := ws\<rparr>) d \<and> workerEpoch w \<le> epoch (c\<lparr>ct_workers := ws\<rparr>) d"
    if "(d, w) \<in> set (ct_workers (c\<lparr>ct_workers := ws\<rparr>))" for d w
  proof -
    have "(d, w) \<in> set (ct_workers c)" using that assms(2) by auto
    from controllerInv_workerD [OF assms(1) this] show ?thesis by (simp add: running_def epoch_def)
  qed
  show "running (c\<lparr>ct_workers := ws\<rparr>) d" if "items (c\<lparr>ct_workers := ws\<rparr>) d \<noteq> []" for d
    using assms(1) that by (simp add: controllerInv_def items_def running_def)
qed (use assms(3) in simp)

text \<open>Only the queues and the workers matter to the invariant.\<close>

lemma controllerInv_cong:
  "ct_workers c' = ct_workers c \<Longrightarrow> queueOf c' = queueOf c \<Longrightarrow> controllerInv c' = controllerInv c"
  by (simp add: controllerInv_def items_def running_def epoch_def)

lemma attended_cong:
  "ct_workers c' = ct_workers c \<Longrightarrow> queueOf c' = queueOf c \<Longrightarrow> attended c' = attended c"
  by (simp add: attended_def running_def)

subsection \<open>Adding an item\<close>

lemma enqueueItem_running:
  assumes "running c chat"
  shows "enqueueItem chat it c =
    c\<lparr>ct_queues := (ct_queues c)(chat \<mapsto> (queueOf c chat)\<lparr>cq_items := items c chat @ [it]\<rparr>)\<rparr>"
  using assms by (simp add: enqueueItem_def running_def items_def Let_def)

lemma enqueueItem_idle:
  assumes "\<not> running c chat" and "items c chat = []"
  shows "enqueueItem chat it c =
    c\<lparr>ct_queues := (ct_queues c)(chat \<mapsto> (queueOf c chat)\<lparr>cq_running := True, cq_items := []\<rparr>),
      ct_log := ct_log c @ [backendCall chat it],
      ct_workers := ct_workers c @ [(chat, AwaitBackend it (epoch c chat))]\<rparr>"
  using assms
  by (simp add: enqueueItem_def takeNext_def running_def items_def epoch_def Let_def logCall_def)

lemma enqueueItem_inv:
  assumes inv: "controllerInv c"
  shows "controllerInv (enqueueItem chat it c)"
proof (cases "running c chat")
  case True
  with inv show ?thesis
    unfolding enqueueItem_running [OF True]
    by (auto simp: controllerInv_def running_def items_def epoch_def)
next
  case False
  note idle = controllerInv_idle [OF inv False]
  have dist: "distinct (map fst (ct_workers c @ [(chat, AwaitBackend it (epoch c chat))]))"
    using inv idle by (simp add: controllerInv_def)
  have away: "d \<noteq> chat \<and> running c d \<and> workerEpoch w \<le> epoch c d" if "(d, w) \<in> set (ct_workers c)" for d w
    using controllerInv_workerD [OF inv that] False by blast
  have "\<forall>d. items c d \<noteq> [] \<longrightarrow> running c d" using inv by (simp add: controllerInv_def)
  with dist away show ?thesis
    unfolding enqueueItem_idle [OF False conjunct1 [OF idle]]
    by (auto simp: controllerInv_def running_def items_def epoch_def)
qed

lemma enqueueItem_attended:
  assumes "controllerInv c" and "attended c"
  shows "attended (enqueueItem chat it c)"
proof (cases "running c chat")
  case True
  with assms(2) show ?thesis unfolding enqueueItem_running [OF True] by (auto simp: attended_def running_def)
next
  case False
  with assms(2) show ?thesis
    unfolding enqueueItem_idle [OF False conjunct1 [OF controllerInv_idle [OF assms(1) False]]]
    by (auto simp: attended_def running_def)
qed

lemma enqueueItem_line:
  assumes "controllerInv c"
  shows "lineOf (enqueueItem chat it c) d = lineOf c d @ (if d = chat then [it] else [])"
proof (cases "running c chat")
  case True
  then show ?thesis unfolding enqueueItem_running [OF True] by (simp add: lineOf_def items_def started_def)
next
  case False
  note idle = controllerInv_idle [OF assms False]
  show ?thesis unfolding enqueueItem_idle [OF False conjunct1 [OF idle]]
    using idle by (simp add: lineOf_def items_def started_def List.map_filter_def)
qed

subsection \<open>The handler\<close>

lemma receive_cases:
  "(\<exists>h e. receive owner m c = await h (logCall e c) \<and> (\<forall>chat. startedBy chat e = None)) \<or>
   (ib_senderOpenId m = owner \<and> trim (ib_text m) = js ''/abort'' \<and>
     receive owner m c = await (AwaitAbort (ib_chatId m)) (logCall (BackendAbort (ib_chatId m))
       (abortQueue (ib_chatId m) c))) \<or>
   (ib_senderOpenId m = owner \<and> trim (ib_text m) = js ''/new'' \<and>
     receive owner m c = enqueueItem (ib_chatId m) NewItem c)"
proof -
  have A: "\<exists>h e. await H (logCall E c) = await h (logCall e c) \<and> (\<forall>chat. startedBy chat e = None)"
    if "\<forall>chat. startedBy chat E = None" for H E
    using that by blast
  let ?t = "trim (ib_text m)"
  consider (abort) "ib_senderOpenId m = owner" "?t = js ''/abort''" | (new) "ib_senderOpenId m = owner" "?t = js ''/new''"
    | (other) "ib_senderOpenId m \<noteq> owner \<or> ?t \<noteq> js ''/abort'' \<and> ?t \<noteq> js ''/new''" by blast
  then show ?thesis
  proof cases
    case abort
    then show ?thesis by (simp add: receive_def MAX_INPUT_LENGTH_def js_def Let_def)
  next
    case new
    then show ?thesis by (simp add: receive_def MAX_INPUT_LENGTH_def js_def Let_def)
  next
    case other
    then have "\<exists>h e. receive owner m c = await h (logCall e c) \<and> (\<forall>chat. startedBy chat e = None)"
      unfolding receive_def Let_def by (simp add: A)
    then show ?thesis ..
  qed
qed

lemma abortQueue_spec:
  "ct_workers (abortQueue chat c) = ct_workers c" "ct_log (abortQueue chat c) = ct_log c"
  "d \<noteq> chat \<Longrightarrow> queueOf (abortQueue chat c) d = queueOf c d"
  "items (abortQueue chat c) chat = []" "running (abortQueue chat c) chat = running c chat"
  "ct_queues c chat \<noteq> None \<Longrightarrow> epoch (abortQueue chat c) chat = Suc (epoch c chat)"
  "epoch c d \<le> epoch (abortQueue chat c) d"
  by (auto simp: abortQueue_def queueOf_def items_def running_def epoch_def emptyQueue_def split: option.splits)

lemma abortQueue_inv:
  assumes inv: "controllerInv c"
  shows "controllerInv (abortQueue chat c)"
proof -
  have "running (abortQueue chat c) d = running c d" for d
    by (cases "d = chat") (simp_all add: abortQueue_spec(5), simp add: running_def abortQueue_spec(3))
  moreover have "items (abortQueue chat c) d = [] \<or> items (abortQueue chat c) d = items c d" for d
    by (cases "d = chat") (simp_all add: abortQueue_spec(4), simp add: items_def abortQueue_spec(3))
  moreover have "running c d \<and> workerEpoch w \<le> epoch (abortQueue chat c) d"
    if "(d, w) \<in> set (ct_workers c)" for d w
    using controllerInv_workerD [OF inv that] abortQueue_spec(7) order_trans by blast
  moreover have "running c d" if "items (abortQueue chat c) d \<noteq> []" for d
    using calculation(2) [of d] that inv unfolding controllerInv_def by metis
  moreover have "distinct (map fst (ct_workers c))" using inv by (simp add: controllerInv_def)
  ultimately show ?thesis
    by (intro controllerInvI) (auto simp: abortQueue_spec(1))
qed

lemma attended_abort: "attended (abortQueue chat c) = attended c"
proof -
  have "running (abortQueue chat c) d = running c d" for d
    by (cases "d = chat") (simp_all add: abortQueue_spec(5), simp add: running_def abortQueue_spec(3))
  then show ?thesis by (simp add: attended_def abortQueue_spec(1))
qed

lemma receive_inv: "controllerInv c \<Longrightarrow> controllerInv (receive owner m c)"
  using receive_cases [of owner m c]
  by (elim disjE exE conjE)
    (simp_all add: controllerInv_cong [of "await _ _"] controllerInv_cong [of "logCall _ _"]
      abortQueue_inv enqueueItem_inv)

lemma receive_attended: "controllerInv c \<Longrightarrow> attended c \<Longrightarrow> attended (receive owner m c)"
  using receive_cases [of owner m c]
  by (elim disjE exE conjE)
    (simp_all add: attended_cong [of "await _ _"] attended_cong [of "logCall _ _"]
      attended_abort enqueueItem_attended)

lemma handlerGoOn_cases:
  "handlerGoOn h out c = (h', c') \<Longrightarrow>
   (ct_workers c' = ct_workers c \<and> queueOf c' = queueOf c \<and> (\<forall>chat. started c' chat = started c chat)) \<or>
   (\<exists>chat text. h = AwaitAck chat text \<and> c' = enqueueItem chat (PromptItem text) c)"
  by (cases "(h, out, c)" rule: handlerGoOn.cases)
    (auto simp: statusParts_def started_log split: list.splits)

lemma dispose_spec:
  "ct_workers (dispose c) = ct_workers c" "items (dispose c) chat = []"
  "running (dispose c) chat = running c chat" "epoch (dispose c) chat = epoch c chat"
  "started (dispose c) chat = started c chat"
  by (auto simp: dispose_def queueOf_def items_def running_def epoch_def logCall_def emptyQueue_def
      started_def List.map_filter_def orDefault_def split: option.splits)

section \<open>Every step\<close>

lemma setHandler_same [simp]:
  "ct_workers (setHandler i h c) = ct_workers c" "queueOf (setHandler i h c) = queueOf c"
  "started (setHandler i h c) chat = started c chat"
  by (simp_all add: setHandler_def started_def)

definition stepCrashes :: "event \<Rightarrow> controller \<Rightarrow> bool" where
  "stepCrashes ev c \<longleftrightarrow>
     (\<exists>i out. ev = WorkerSettles i out \<and> i < length (ct_workers c) \<and> crashes (snd (ct_workers c ! i)) out)"

lemma step_inv:
  assumes inv: "controllerInv c"
  shows "controllerInv (step owner ev c)"
proof (cases ev)
  case (Receive m)
  then show ?thesis using receive_inv [OF inv] by simp
next
  case (HandlerSettles i out)
  obtain h c' where h: "handlerGoOn (ct_handlers c ! i) out c = (h, c')" by fastforce
  have "controllerInv c'"
    using handlerGoOn_cases [OF h] inv controllerInv_cong [of c' c] enqueueItem_inv [OF inv] by blast
  then show ?thesis using inv h HandlerSettles controllerInv_cong [of "setHandler i h c'" c'] by simp
next
  case (WorkerSettles i out)
  show ?thesis
  proof (cases "i < length (ct_workers c)")
    case True
    note True' = True
    obtain chat w where w: "ct_workers c ! i = (chat, w)" by fastforce
    obtain w' c' where g: "workerGoOn chat w out c = (w', c')" by fastforce
    have "controllerInv (setWorker i chat w' c')"
    proof (cases "crashes w out")
      case True
      then have "w' = None" "c' = c" using workerGoOn_crash g by auto
      moreover have "distinct (map fst (take i (ct_workers c) @ drop (Suc i) (ct_workers c)))"
        using inv True' by (intro distinct_fst_remove) (simp_all add: controllerInv_def)
      moreover have "set (take i (ct_workers c) @ drop (Suc i) (ct_workers c)) \<subseteq> set (ct_workers c)"
        by (auto dest: in_set_takeD in_set_dropD)
      ultimately show ?thesis using controllerInv_fewer [OF inv] by (simp add: setWorker_def)
    next
      case False
      from goesOn_workerGoOn [OF False, of chat c] g
      show ?thesis using controllerInv_worker [OF inv True w] by simp
    qed
    then show ?thesis using True w g WorkerSettles by simp
  next
    case False
    then show ?thesis using inv WorkerSettles by simp
  qed
next
  case Dispose
  have "controllerInv (dispose c)"
    using inv by (simp add: controllerInv_def dispose_spec)
  then show ?thesis using Dispose by simp
qed

lemma run_inv: "controllerInv c \<Longrightarrow> controllerInv (runEvents owner es c)"
  by (induction es arbitrary: c) (simp_all add: runEvents_def step_inv)

lemma initial_inv: "controllerInv initialController" "attended initialController"
  by (simp_all add: controllerInv_def attended_def initialController_def items_def running_def queueOf_def emptyQueue_def)

lemma in_drop_other:
  assumes "i < length ws" and "ws ! i = (chat, w)" and "d \<noteq> chat" and "d \<in> fst ` set ws"
  shows "d \<in> fst ` set (take i ws @ drop (Suc i) ws)"
proof -
  have "ws = take i ws @ ws ! i # drop (Suc i) ws" by (rule id_take_nth_drop [OF assms(1)])
  then have "set ws = insert (ws ! i) (set (take i ws @ drop (Suc i) ws))"
    by (metis Un_insert_right list.simps(15) set_append)
  with assms show ?thesis by auto
qed

lemma step_attended:
  assumes inv: "controllerInv c" and att: "attended c" and ok: "\<not> stepCrashes ev c"
  shows "attended (step owner ev c)"
proof (cases ev)
  case (Receive m)
  then show ?thesis using receive_attended [OF inv att] by simp
next
  case (HandlerSettles i out)
  obtain h c' where h: "handlerGoOn (ct_handlers c ! i) out c = (h, c')" by fastforce
  have "attended c'"
    using handlerGoOn_cases [OF h] att attended_cong [of c' c] enqueueItem_attended [OF inv att] by blast
  then show ?thesis using att h HandlerSettles attended_cong [of "setHandler i h c'" c'] by simp
next
  case (WorkerSettles i out)
  show ?thesis
  proof (cases "i < length (ct_workers c)")
    case True
    obtain chat w where w: "ct_workers c ! i = (chat, w)" by fastforce
    obtain w' c' where g: "workerGoOn chat w out c = (w', c')" by fastforce
    have "\<not> crashes w out" using ok True w WorkerSettles by (auto simp: stepCrashes_def)
    from goesOn_workerGoOn [OF this, of chat c] g
    have go: "goesOn chat (workerEpoch w) c (w', c')" by simp
    have ws: "ct_workers c' = ct_workers c" using go by (simp add: goesOn_def)
    have "attended (setWorker i chat w' c')"
      unfolding attended_def
    proof (intro allI impI)
      fix d
      assume "running (setWorker i chat w' c') d"
      then have r: "running c' d" by (simp add: setWorker_def running_def)
      show "d \<in> fst ` set (ct_workers (setWorker i chat w' c'))"
      proof (cases "d = chat")
        case True
        with r go obtain w'' where "w' = Some w''" by (cases w') (auto simp: goesOn_def)
        then show ?thesis
          using True ws set_update_memI [OF \<open>i < length (ct_workers c)\<close>]
          by (force simp: setWorker_def)
      next
        case False
        with r go have "running c d" by (simp add: goesOn_def running_def)
        with att have d: "d \<in> fst ` set (ct_workers c)" by (simp add: attended_def)
        note rest = in_drop_other [OF True w False d]
        show ?thesis
        proof (cases w')
          case None
          with rest ws show ?thesis by (simp add: setWorker_def)
        next
          case (Some w'')
          have "set ((ct_workers c)[i := (chat, w'')]) = insert (chat, w'') (set (take i (ct_workers c) @ drop (Suc i) (ct_workers c)))"
            using True by (simp add: upd_conv_take_nth_drop)
          with rest ws Some show ?thesis by (simp add: setWorker_def)
        qed
      qed
    qed
    then show ?thesis using True w g WorkerSettles by simp
  next
    case False
    then show ?thesis using att WorkerSettles by simp
  qed
next
  case Dispose
  have "attended (dispose c)" using att by (simp add: attended_def dispose_spec)
  then show ?thesis using Dispose by simp
qed

text \<open>The steps of which none loses a worker.\<close>

fun noCrash :: "jstr \<Rightarrow> event list \<Rightarrow> controller \<Rightarrow> bool" where
  "noCrash owner [] c \<longleftrightarrow> True"
| "noCrash owner (ev # es) c \<longleftrightarrow> \<not> stepCrashes ev c \<and> noCrash owner es (step owner ev c)"

lemma run_attended:
  "controllerInv c \<Longrightarrow> attended c \<Longrightarrow> noCrash owner es c \<Longrightarrow> attended (runEvents owner es c)"
  by (induction es arbitrary: c) (simp_all add: runEvents_def step_inv step_attended)

section \<open>The line of a chat\<close>

lemma setWorker_line [simp]: "lineOf (setWorker i chat w c) d = lineOf c d"
  by (simp add: lineOf_def setWorker_def started_def items_def)

lemma step_line:
  assumes inv: "controllerInv c"
  shows "(\<exists>added. lineOf (step owner ev c) chat = lineOf c chat @ added \<and> length added \<le> 1) \<or>
    (items (step owner ev c) chat = [] \<and> started (step owner ev c) chat = started c chat)"
proof (cases ev)
  case (Receive m)
  from receive_cases [of owner m c] show ?thesis
  proof (elim disjE exE conjE)
    fix h e
    assume r: "receive owner m c = await h (logCall e c)" and e: "\<forall>chat. startedBy chat e = None"
    then have "lineOf (step owner ev c) chat = lineOf c chat"
      using Receive by (simp add: lineOf_def items_def started_def await_def logCall_def List.map_filter_def)
    then show ?thesis by auto
  next
    assume r: "receive owner m c =
        await (AwaitAbort (ib_chatId m)) (logCall (BackendAbort (ib_chatId m)) (abortQueue (ib_chatId m) c))"
    have st: "started (step owner ev c) d = started c d" for d
      using Receive r abortQueue_spec(2) [of "ib_chatId m" c]
      by (simp add: started_def await_def logCall_def List.map_filter_def)
    show ?thesis
    proof (cases "chat = ib_chatId m")
      case True
      then have "items (step owner ev c) chat = []"
        using Receive r abortQueue_spec(4) by (simp add: items_def)
      with st show ?thesis by blast
    next
      case False
      then have "items (step owner ev c) chat = items c chat"
        using Receive r abortQueue_spec(3) [of chat "ib_chatId m" c] by (simp add: items_def)
      with st show ?thesis by (auto simp: lineOf_def)
    qed
  next
    assume "receive owner m c = enqueueItem (ib_chatId m) NewItem c"
    then have "lineOf (step owner ev c) chat = lineOf c chat @ (if chat = ib_chatId m then [NewItem] else [])"
      using Receive enqueueItem_line [OF inv] by simp
    then show ?thesis by auto
  qed
next
  case (HandlerSettles i out)
  show ?thesis
  proof (cases "i < length (ct_handlers c)")
    case True
    obtain h c' where h: "handlerGoOn (ct_handlers c ! i) out c = (h, c')" by fastforce
    have same: "lineOf (setHandler i h c') chat = lineOf c' chat" by (simp add: lineOf_def items_def)
    from handlerGoOn_cases [OF h] show ?thesis
    proof (elim disjE exE conjE)
      assume "queueOf c' = queueOf c" "\<forall>chat. started c' chat = started c chat"
      then have "lineOf (step owner ev c) chat = lineOf c chat"
        using same h HandlerSettles True by (simp add: lineOf_def items_def)
      then show ?thesis by auto
    next
      fix d t
      assume "c' = enqueueItem d (PromptItem t) c"
      then have "lineOf (step owner ev c) chat = lineOf c chat @ (if chat = d then [PromptItem t] else [])"
        using same h HandlerSettles True enqueueItem_line [OF inv] by simp
      then show ?thesis by auto
    qed
  qed (use HandlerSettles in auto)
next
  case (WorkerSettles i out)
  show ?thesis
  proof (cases "i < length (ct_workers c)")
    case True
    obtain d w where w: "ct_workers c ! i = (d, w)" by fastforce
    obtain w' c' where g: "workerGoOn d w out c = (w', c')" by fastforce
    from workerGoOn_line [OF g] have "lineOf (step owner ev c) chat = lineOf c chat"
      using True w g WorkerSettles by simp
    then show ?thesis by auto
  qed (use WorkerSettles in auto)
next
  case Dispose
  then show ?thesis using dispose_spec(2,5) [of c chat] by simp
qed

end
