(* ===== verification/ControllerProps.thy ===== *)
theory ControllerProps
  imports ControllerFacts
begin

text \<open>The properties of the chat controller, over every order of its events.\<close>

definition sampleMessage :: "string \<Rightarrow> inbound_message" where
  "sampleMessage s = \<lparr>ib_messageId = [], ib_chatId = js ''chat'', ib_senderOpenId = js ''me'', ib_text = js s\<rparr>"

section \<open>Who asked for a call\<close>

definition asked :: "jstr \<Rightarrow> event list \<Rightarrow> (jstr \<times> jstr) set" where
  "asked owner es = {(ib_chatId m, trim (ib_text m)) | m. Receive m \<in> set es \<and> ib_senderOpenId m = owner}"

definition justItem :: "(jstr \<times> jstr) set \<Rightarrow> jstr \<Rightarrow> work_item \<Rightarrow> bool" where
  "justItem A chat it \<longleftrightarrow>
     (case it of
        PromptItem t \<Rightarrow> (chat, t) \<in> A \<and> t \<noteq> [] \<and> length t \<le> MAX_INPUT_LENGTH
      | NewItem \<Rightarrow> (chat, js ''/new'') \<in> A)"

definition justCall :: "(jstr \<times> jstr) set \<Rightarrow> ext_call \<Rightarrow> bool" where
  "justCall A e \<longleftrightarrow>
     (case e of
        SendText _ _ \<Rightarrow> True
      | BackendPrompt chat t \<Rightarrow> justItem A chat (PromptItem t)
      | BackendNewSession chat \<Rightarrow> justItem A chat NewItem
      | BackendAbort chat \<Rightarrow> (chat, js ''/abort'') \<in> A
      | BackendStatus chat \<Rightarrow> (chat, js ''/status'') \<in> A
      | BackendDispose \<Rightarrow> True)"

fun justHandler :: "(jstr \<times> jstr) set \<Rightarrow> handler \<Rightarrow> bool" where
  "justHandler A (AwaitAck chat t) \<longleftrightarrow> justItem A chat (PromptItem t)"
| "justHandler A _ \<longleftrightarrow> True"

definition justified :: "(jstr \<times> jstr) set \<Rightarrow> controller \<Rightarrow> bool" where
  "justified A c \<longleftrightarrow> (\<forall>chat. \<forall>it \<in> set (items c chat). justItem A chat it) \<and>
     (\<forall>e \<in> set (ct_log c). justCall A e) \<and> (\<forall>h \<in> set (ct_handlers c). justHandler A h)"

lemma justItem_mono: "A \<subseteq> B \<Longrightarrow> justItem A chat it \<Longrightarrow> justItem B chat it"
  by (auto simp: justItem_def split: work_item.splits)

lemma justified_mono:
  assumes "A \<subseteq> B" and "justified A c"
  shows "justified B c"
proof -
  have "justCall A e \<Longrightarrow> justCall B e" for e
    using assms(1) justItem_mono [OF assms(1)] by (auto simp: justCall_def split: ext_call.splits)
  moreover have "justHandler A h \<Longrightarrow> justHandler B h" for h
    using justItem_mono [OF assms(1)] by (cases h) auto
  ultimately show ?thesis using assms(2) justItem_mono [OF assms(1)] by (simp add: justified_def)
qed

lemma justCall_backendCall [simp]: "justCall A (backendCall chat it) = justItem A chat it"
  by (simp add: justCall_def backendCall_def split: work_item.split)

lemma justCall_SendText [simp]: "justCall A (SendText chat t)"
  by (simp add: justCall_def)

lemma logCall_sel [simp]: "ct_log (logCall e c) = ct_log c @ [e]" "ct_handlers (logCall e c) = ct_handlers c"
  by (simp_all add: logCall_def)

lemma justified_log: "justified A c \<Longrightarrow> justCall A e \<Longrightarrow> justified A (logCall e c)"
  by (simp add: justified_def items_def ball_Un)

lemma justified_queue:
  assumes "justified A c" and "\<forall>it \<in> set (cq_items q). justItem A chat it"
  shows "justified A (c\<lparr>ct_queues := (ct_queues c)(chat \<mapsto> q)\<rparr>)"
proof -
  have "justItem A d it" if "it \<in> set (cq_items (((queueOf c)(chat := q)) d))" for d it
    using assms that by (cases "d = chat") (auto simp: justified_def items_def)
  with assms(1) show ?thesis by (simp add: justified_def items_def)
qed

lemma justified_takeNext:
  assumes t: "takeNext chat c = (w, c')" and just: "justified A c"
  shows "justified A c'"
proof (cases "cq_items (queueOf c chat)")
  case Nil
  then have "c' = c\<lparr>ct_queues := (ct_queues c)(chat \<mapsto> (queueOf c chat)\<lparr>cq_running := False\<rparr>)\<rparr>"
    using t by (simp add: takeNext_def Let_def)
  with justified_queue [OF just] Nil show ?thesis by simp
next
  case (Cons it its)
  then have c': "c' = logCall (backendCall chat it) (c\<lparr>ct_queues := (ct_queues c)(chat \<mapsto> (queueOf c chat)\<lparr>cq_items := its\<rparr>)\<rparr>)"
    using t by (simp add: takeNext_def Let_def)
  have "\<forall>x \<in> set (it # its). justItem A chat x" using just Cons by (simp add: justified_def items_def)
  with justified_queue [OF just] c' show ?thesis by (simp add: justified_log)
qed

lemma justified_sendParts: "sendParts chat ep parts c = (w, c') \<Longrightarrow> justified A c \<Longrightarrow> justified A c'"
  by (auto simp: sendParts_def split: list.splits intro: justified_takeNext justified_log)

lemma justified_onError: "onError chat ep err c = (w, c') \<Longrightarrow> justified A c \<Longrightarrow> justified A c'"
  by (auto simp: onError_def split: if_splits intro: justified_takeNext justified_log)

lemma justified_workerGoOn: "workerGoOn chat w out c = (w', c') \<Longrightarrow> justified A c \<Longrightarrow> justified A c'"
  by (cases "(chat, w, out, c)" rule: workerGoOn.cases)
    (auto split: if_splits work_item.splits
      intro: justified_takeNext justified_sendParts justified_onError)

lemma justified_enqueueItem:
  assumes "justified A c" and "justItem A chat it"
  shows "justified A (enqueueItem chat it c)"
proof -
  let ?q = "(queueOf c chat)\<lparr>cq_items := cq_items (queueOf c chat) @ [it]\<rparr>"
  have items: "\<forall>it \<in> set (cq_items (queueOf c chat)). justItem A chat it"
    using assms(1) by (simp add: justified_def items_def)
  obtain w c' where t: "takeNext chat (c\<lparr>ct_queues := (ct_queues c)(chat \<mapsto> ?q\<lparr>cq_running := True\<rparr>)\<rparr>) = (w, c')"
    by fastforce
  have "justified A c'"
    by (rule justified_takeNext [OF t justified_queue [OF assms(1)]]) (use items assms(2) in simp)
  then have "justified A (c'\<lparr>ct_workers := ws\<rparr>)" for ws by (simp add: justified_def items_def)
  with \<open>justified A c'\<close> t justified_queue [OF assms(1), of ?q chat] items assms(2) show ?thesis
    by (auto simp: enqueueItem_def Let_def split: option.split)
qed

lemma justified_await: "justified A c \<Longrightarrow> justHandler A h \<Longrightarrow> justified A (await h c)"
  by (auto simp: justified_def items_def) (auto simp: await_def)

lemma justified_abortQueue: "justified A c \<Longrightarrow> justified A (abortQueue chat c)"
  by (auto simp: abortQueue_def intro!: justified_queue split: option.split)

lemma justified_receive:
  assumes just: "justified A c" and auth: "ib_senderOpenId m = owner \<Longrightarrow> (ib_chatId m, trim (ib_text m)) \<in> A"
  shows "justified A (receive owner m c)"
proof -
  have "justCall A (BackendStatus (ib_chatId m))" if "ib_senderOpenId m = owner" "trim (ib_text m) = js ''/status''"
    using auth that by (simp add: justCall_def)
  moreover have "justCall A (BackendAbort (ib_chatId m))" if "ib_senderOpenId m = owner" "trim (ib_text m) = js ''/abort''"
    using auth that by (simp add: justCall_def)
  moreover have "justItem A (ib_chatId m) NewItem" if "ib_senderOpenId m = owner" "trim (ib_text m) = js ''/new''"
    using auth that by (simp add: justItem_def)
  moreover have "justItem A (ib_chatId m) (PromptItem (trim (ib_text m)))"
    if "ib_senderOpenId m = owner" "trim (ib_text m) \<noteq> []" "\<not> length (trim (ib_text m)) > MAX_INPUT_LENGTH"
    using auth that by (simp add: justItem_def)
  ultimately show ?thesis
    using just by (simp add: receive_def Let_def justified_await justified_log justified_abortQueue justified_enqueueItem)
qed

lemma justified_handlerGoOn:
  assumes "handlerGoOn h out c = (h', c')" and "justified A c" and "justHandler A h"
  shows "justified A c' \<and> (\<forall>x. h' = Some x \<longrightarrow> justHandler A x)"
  using assms
  by (cases "(h, out, c)" rule: handlerGoOn.cases)
    (auto simp: statusParts_def justified_enqueueItem justified_log split: list.splits)

lemma justified_dispose: "justified A c \<Longrightarrow> justified A (dispose c)"
  using dispose_spec(2) [of c]
  by (auto simp: justified_def) (auto simp: dispose_def logCall_def justCall_def)

lemma justified_step:
  assumes just: "justified A c" and auth: "\<And>m. ev = Receive m \<Longrightarrow> ib_senderOpenId m = owner \<Longrightarrow>
    (ib_chatId m, trim (ib_text m)) \<in> A"
  shows "justified A (step owner ev c)"
proof (cases ev)
  case (Receive m)
  then show ?thesis using justified_receive [OF just] auth by simp
next
  case (HandlerSettles i out)
  show ?thesis
  proof (cases "i < length (ct_handlers c)")
    case True
    obtain h c' where h: "handlerGoOn (ct_handlers c ! i) out c = (h, c')" by fastforce
    have "justHandler A (ct_handlers c ! i)" using just True by (simp add: justified_def)
    from justified_handlerGoOn [OF h just this]
    have j: "justified A c'" "\<forall>x. h = Some x \<longrightarrow> justHandler A x" by simp_all
    have "set (ct_handlers (setHandler i h c')) \<subseteq> set (ct_handlers c') \<union> (case h of None \<Rightarrow> {} | Some x \<Rightarrow> {x})"
      by (auto simp: setHandler_def split: option.split dest: in_set_takeD in_set_dropD
          set_update_subset_insert [THEN subsetD])
    with j have "justified A (setHandler i h c')"
      by (auto simp: justified_def items_def split: option.splits) (auto simp: setHandler_def)
    then show ?thesis using HandlerSettles True h by simp
  qed (use just HandlerSettles in auto)
next
  case (WorkerSettles i out)
  show ?thesis
  proof (cases "i < length (ct_workers c)")
    case True
    obtain chat w where w: "ct_workers c ! i = (chat, w)" by fastforce
    obtain w' c' where g: "workerGoOn chat w out c = (w', c')" by fastforce
    have "justified A (setWorker i chat w' c')"
      using justified_workerGoOn [OF g just] by (simp add: justified_def items_def setWorker_def)
    then show ?thesis using WorkerSettles True w g by simp
  qed (use just WorkerSettles in auto)
next
  case Dispose
  then show ?thesis using justified_dispose [OF just] by simp
qed

lemma justified_run: "justified A c \<Longrightarrow> asked owner es \<subseteq> A \<Longrightarrow> justified A (runEvents owner es c)"
proof (induction es arbitrary: c)
  case (Cons ev es)
  have "justified A (step owner ev c)"
    by (rule justified_step [OF Cons.prems(1)]) (use Cons.prems(2) in \<open>auto simp: asked_def\<close>)
  moreover have "asked owner es \<subseteq> A" using Cons.prems(2) by (auto simp: asked_def)
  ultimately show ?case using Cons.IH by (simp add: runEvents_def)
qed (simp add: runEvents_def)

section \<open>A queue without a worker\<close>

definition stuck :: "controller \<Rightarrow> jstr \<Rightarrow> bool" where
  "stuck c chat \<longleftrightarrow> running c chat \<and> chat \<notin> fst ` set (ct_workers c)"

lemma stuck_enqueue:
  assumes inv: "controllerInv c" and st: "stuck c chat"
  shows "stuck (enqueueItem d it c) chat \<and> started (enqueueItem d it c) chat = started c chat"
proof (cases "running c d")
  case True
  then show ?thesis using st unfolding enqueueItem_running [OF True]
    by (simp add: stuck_def running_def started_def)
next
  case False
  with st have "d \<noteq> chat" by (auto simp: stuck_def)
  then show ?thesis using st unfolding enqueueItem_idle [OF False conjunct1 [OF controllerInv_idle [OF inv False]]]
    by (simp add: stuck_def running_def started_def List.map_filter_def)
qed

lemma stuck_cong:
  "ct_workers c' = ct_workers c \<Longrightarrow> queueOf c' = queueOf c \<Longrightarrow> stuck c' chat = stuck c chat"
  by (simp add: stuck_def running_def)

lemma stuck_step:
  assumes inv: "controllerInv c" and st: "stuck c chat"
  shows "stuck (step owner ev c) chat \<and> started (step owner ev c) chat = started c chat"
proof (cases ev)
  case (Receive m)
  from receive_cases [of owner m c] show ?thesis
  proof (elim disjE exE conjE)
    fix h e
    assume "receive owner m c = await h (logCall e c)" "\<forall>chat. startedBy chat e = None"
    then show ?thesis using st Receive stuck_cong [of "await h (logCall e c)" c]
      by (simp add: started_log [unfolded started_def] started_def await_def)
        (simp add: logCall_def List.map_filter_def)
  next
    let ?d = "ib_chatId m"
    assume r: "receive owner m c = await (AwaitAbort ?d) (logCall (BackendAbort ?d) (abortQueue ?d c))"
    have "running (abortQueue ?d c) chat"
      using st abortQueue_spec(3,5) by (cases "chat = ?d") (simp_all add: stuck_def running_def)
    with r show ?thesis using st Receive abortQueue_spec(1,2)
      by (simp add: stuck_def running_def started_def await_def logCall_def List.map_filter_def)
  next
    assume "receive owner m c = enqueueItem (ib_chatId m) NewItem c"
    then show ?thesis using stuck_enqueue [OF inv st] Receive by simp
  qed
next
  case (HandlerSettles i out)
  show ?thesis
  proof (cases "i < length (ct_handlers c)")
    case True
    obtain h c' where h: "handlerGoOn (ct_handlers c ! i) out c = (h, c')" by fastforce
    have "stuck c' chat \<and> started c' chat = started c chat"
      using handlerGoOn_cases [OF h] stuck_cong [of c' c] st stuck_enqueue [OF inv st] by auto
    then show ?thesis using HandlerSettles True h stuck_cong [of "setHandler i h c'" c'] by simp
  qed (use st HandlerSettles in auto)
next
  case (WorkerSettles i out)
  show ?thesis
  proof (cases "i < length (ct_workers c)")
    case True
    obtain d w where w: "ct_workers c ! i = (d, w)" by fastforce
    have d: "d \<noteq> chat" using st True w nth_mem [OF True] by (force simp: stuck_def)
    obtain w' c' where g: "workerGoOn d w out c = (w', c')" by fastforce
    have same: "queueOf c' chat = queueOf c chat \<and> ct_workers c' = ct_workers c"
    proof (cases "crashes w out")
      case True
      then show ?thesis using workerGoOn_crash g by auto
    next
      case False
      from goesOn_workerGoOn [OF False, of d c] g d show ?thesis by (simp add: goesOn_def)
    qed
    with workerGoOn_line [OF g, of chat] have "started c' chat = started c chat"
      by (simp add: lineOf_def items_def)
    moreover have "chat \<notin> fst ` set (ct_workers (setWorker i d w' c'))"
    proof -
      have "fst ` set (take i (ct_workers c) @ drop (Suc i) (ct_workers c)) \<subseteq> fst ` set (ct_workers c)"
        by (auto dest: in_set_takeD in_set_dropD)
      moreover have "fst ` set ((ct_workers c)[i := (d, x)]) \<subseteq> insert d (fst ` set (ct_workers c))" for x
        using set_update_subset_insert [of "ct_workers c" i "(d, x)"] by auto
      ultimately show ?thesis using st d same
        by (cases w') (simp_all add: setWorker_def stuck_def subset_iff, blast+)
    qed
    ultimately show ?thesis using WorkerSettles True w g same st
      by (simp add: stuck_def running_def) (simp add: setWorker_def started_def)
  qed (use st WorkerSettles in auto)
next
  case Dispose
  then show ?thesis using st dispose_spec by (simp add: stuck_def)
qed

lemma stuck_run:
  "controllerInv c \<Longrightarrow> stuck c chat \<Longrightarrow> started (runEvents owner es c) chat = started c chat"
  by (induction es arbitrary: c) (simp_all add: runEvents_def step_inv stuck_step)

text \<open>Both the task and the notice of its failure fail, as when the chat service is down.\<close>

definition failingEvents :: "event list" where
  "failingEvents = [Receive (sampleMessage ''hi''), HandlerSettles 0 (Resolved []),
     WorkerSettles 0 (Rejected (OtherError [])), WorkerSettles 0 (Rejected (OtherError []))]"

lemma failing_stuck: "stuck (runEvents (js ''me'') failingEvents initialController) (js ''chat'')"
proof -
  have "running (runEvents (js ''me'') failingEvents initialController) (js ''chat'')" by code_simp
  moreover have "ct_workers (runEvents (js ''me'') failingEvents initialController) = []" by code_simp
  ultimately show ?thesis by (simp add: stuck_def)
qed

text \<open>
  An abort does not stop a reply that is being sent in pieces: the remaining pieces follow
  the notice of the abort.
\<close>

lemma abort_leaves_pieces:
  assumes "ct_workers c ! i = (chat, AwaitSend ep (p # ps))" and "i < length (ct_workers c)"
    and "ib_senderOpenId m = owner" and "ib_chatId m = chat" and "trim (ib_text m) = js ''/abort''"
  shows "ct_log (step owner (WorkerSettles i (Resolved [])) (step owner (Receive m) c)) =
    ct_log c @ [BackendAbort chat, SendText chat p]"
  using assms abortQueue_spec(1,2) [of chat c]
  by (simp add: receive_def MAX_INPUT_LENGTH_def js_def Let_def sendParts_def setWorker_def)
    (simp add: await_def)

text \<open>A piece may end between the two halves of a surrogate pair.\<close>

lemma pieces_split_surrogates:
  "chunksOf MAX_REPLY_LENGTH (replicate 3499 97 @ [0xD83D, 0xDE00]) =
     [replicate 3499 97 @ [0xD83D], [0xDE00]]"
proof -
  have "chunksOf MAX_REPLY_LENGTH [0xDE00 :: jchar] = [[0xDE00]]"
    by (subst chunksOf.simps, subst chunksOf.simps) (simp add: MAX_REPLY_LENGTH_def)
  then show ?thesis
    by (subst chunksOf.simps) (simp add: MAX_REPLY_LENGTH_def)
qed

section \<open>Properties\<close>

text \<open>C13: Only the owner's messages reach the agent. In every order of events, a prompt that is
  started on the backend is the trimmed text of a message the owner sent to that chat, is
  not empty and keeps the length limit; and new sessions, aborts and status queries only
  follow the owner's commands in that chat.\<close>

theorem backend_calls_authorized:
  "list_all (justCall (asked owner es)) (ct_log (runEvents owner es initialController))"
proof -
  have "justified (asked owner es) initialController"
    by (simp add: justified_def initialController_def items_def queueOf_def emptyQueue_def)
  from justified_run [OF this subset_refl] show ?thesis by (simp add: justified_def list_all_iff)
qed







text \<open>A reply is sent in pieces that join to it exactly; none is empty and none exceeds the
  length limit of a message.\<close>

theorem reply_pieces:
  "concat (chunksOf MAX_REPLY_LENGTH reply) = reply \<and>
   list_all (\<lambda>p. p \<noteq> [] \<and> length p \<le> MAX_REPLY_LENGTH) (chunksOf MAX_REPLY_LENGTH reply)"
  using concat_chunksOf [of MAX_REPLY_LENGTH reply] chunksOf_lengths [of _ MAX_REPLY_LENGTH reply]
  by (auto simp: MAX_REPLY_LENGTH_def list_all_iff)

text \<open>A chat whose task and whose failure notice both failed is never served again: its queue
  stays marked as running with no worker, and whatever happens afterwards, no further item
  of the chat is started.\<close>

theorem failed_notice_blocks_chat:
  assumes "controllerInv c" and "stuck c chat"
  shows "started (runEvents owner es c) chat = started c chat"
  by (rule stuck_run [OF assms])

theorem failed_notice_blocks_chat_witness:
  "started (runEvents (js ''me'') [Receive (sampleMessage ''/new'')] (runEvents (js ''me'') failingEvents initialController)) (js ''chat'') =
     started (runEvents (js ''me'') failingEvents initialController) (js ''chat'')"
  by (rule failed_notice_blocks_chat [OF run_inv [OF initial_inv(1)] failing_stuck])

end
