(* ===== verification/Retry.thy ===== *)
theory Retry
  imports Messages
begin

text \<open>
  The retry of a call that produces an assistant message, packages/ai/src/utils/retry.ts:
  the classification of provider errors and the loop with exponential backoff.

  The timer with its abort signal, the callbacks and the call itself are parameters. They
  act on a world \<open>'w\<close>; a callback or the call may reject, \<open>Inl\<close> with an error of type \<open>'e\<close>. A
  missing callback is one that does nothing. A log records what the loop does, in order.
\<close>

section \<open>Patterns\<close>

text \<open>
  The two regular expressions are alternatives of literals with \<open>.?\<close> and \<open>c?\<close> in them, and
  the flag \<open>i\<close>. Without the flag \<open>u\<close>, an ASCII letter of the pattern matches that letter in
  either case and no other character. The dot does not match line terminators.
\<close>

datatype pattern_atom = PLit jchar | POpt jchar | POptAny

fun parsePattern :: "jstr \<Rightarrow> pattern_atom list" where
  "parsePattern [] = []"
| "parsePattern [c] = [PLit c]"
| "parsePattern (c # d # cs) =
     (if d = 63 then (if c = 46 then POptAny else POpt c) # parsePattern cs
      else PLit c # parsePattern (d # cs))"

definition foldCase :: "jchar \<Rightarrow> jchar" where
  "foldCase c = (if 97 \<le> c \<and> c \<le> 122 then c - 32 else c)"

definition isLineTerminator :: "jchar \<Rightarrow> bool" where
  "isLineTerminator c \<longleftrightarrow> c = 10 \<or> c = 13 \<or> c = 0x2028 \<or> c = 0x2029"

fun matchesHere :: "pattern_atom list \<Rightarrow> jstr \<Rightarrow> bool" where
  "matchesHere [] s \<longleftrightarrow> True"
| "matchesHere (PLit c # ps) s \<longleftrightarrow>
     (case s of [] \<Rightarrow> False | x # xs \<Rightarrow> foldCase x = foldCase c \<and> matchesHere ps xs)"
| "matchesHere (POpt c # ps) s \<longleftrightarrow>
     (case s of [] \<Rightarrow> False | x # xs \<Rightarrow> foldCase x = foldCase c \<and> matchesHere ps xs) \<or> matchesHere ps s"
| "matchesHere (POptAny # ps) s \<longleftrightarrow>
     (case s of [] \<Rightarrow> False | x # xs \<Rightarrow> \<not> isLineTerminator x \<and> matchesHere ps xs) \<or> matchesHere ps s"

fun matchesSomewhere :: "pattern_atom list \<Rightarrow> jstr \<Rightarrow> bool" where
  "matchesSomewhere ps [] \<longleftrightarrow> matchesHere ps []"
| "matchesSomewhere ps (c # cs) \<longleftrightarrow> matchesHere ps (c # cs) \<or> matchesSomewhere ps cs"

definition testPattern :: "string list \<Rightarrow> jstr \<Rightarrow> bool" where
  "testPattern alternatives s \<longleftrightarrow> (\<exists>a \<in> set alternatives. matchesSomewhere (parsePattern (js a)) s)"

definition nonRetryablePatterns :: "string list" where
  "nonRetryablePatterns =
     [''GoUsageLimitError'', ''FreeUsageLimitError'', ''Monthly usage limit reached'', ''available balance'',
      ''insufficient_quota'', ''out of budget'', ''quota exceeded'', ''billing'']"

definition retryablePatterns :: "string list" where
  "retryablePatterns =
     [''overloaded'', ''rate.?limit'', ''too many requests'', ''429'', ''500'', ''502'', ''503'', ''504'', ''524'',
      ''service.?unavailable'', ''server.?error'', ''internal.?error'', ''provider.?returned.?error'',
      ''network.?error'', ''connection.?error'', ''connection.?refused'', ''connection.?lost'',
      ''other side closed'', ''fetch failed'', ''upstream.?connect'', ''reset before headers'',
      ''socket hang up'', ''socket connection was closed'', ''timed? out'', ''timeout'', ''terminated'',
      ''websocket.?closed'', ''websocket.?error'', ''ended without'', ''stream ended before message_stop'',
      ''stream ended before a terminal response event'', ''http2 request did not get a response'',
      ''retry delay'', ''you can retry your request'', ''try your request again'',
      ''please retry your request'', ''ResourceExhausted'']"

definition isRetryableAssistantError :: "assistant_message \<Rightarrow> bool" where
  "isRetryableAssistantError m \<longleftrightarrow>
     (if am_stopReason m \<noteq> SR_error \<or> \<not> truthyStr (am_errorMessage m) then False
      else if testPattern nonRetryablePatterns (the (am_errorMessage m)) then False
      else testPattern retryablePatterns (the (am_errorMessage m)))"

section \<open>The loop\<close>

record retry_policy =
  ry_enabled :: bool
  ry_maxRetries :: nat
  ry_baseDelayMs :: nat

datatype retry_event =
    Called
  | Scheduled nat nat nat jstr
  | Slept bool
  | AttemptStarted
  | Finished bool nat "jstr option"

record 'w retry_run =
  rr_world :: 'w
  rr_log :: "retry_event list"

text \<open>\<open>rp_sleep\<close> tells whether the sleep was aborted.\<close>

record ('w, 'e) retry_ports =
  rp_sleep :: "nat \<Rightarrow> 'w \<Rightarrow> bool \<times> 'w"
  rp_scheduled :: "nat \<Rightarrow> nat \<Rightarrow> nat \<Rightarrow> jstr \<Rightarrow> 'w \<Rightarrow> ('e + unit) \<times> 'w"
  rp_attemptStart :: "'w \<Rightarrow> ('e + unit) \<times> 'w"
  rp_finished :: "bool \<Rightarrow> nat \<Rightarrow> jstr option \<Rightarrow> 'w \<Rightarrow> ('e + unit) \<times> 'w"

text \<open>One awaited step, with its entry in the log.\<close>

definition perform :: "retry_event \<Rightarrow> ('w \<Rightarrow> 'a \<times> 'w) \<Rightarrow> 'w retry_run \<Rightarrow> 'a \<times> 'w retry_run" where
  "perform e f r = (case f (rr_world r) of (a, w) \<Rightarrow> (a, \<lparr>rr_world = w, rr_log = rr_log r @ [e]\<rparr>))"

definition performSleep :: "('w, 'e) retry_ports \<Rightarrow> nat \<Rightarrow> 'w retry_run \<Rightarrow> bool \<times> 'w retry_run" where
  "performSleep P ms r =
     (case rp_sleep P ms (rr_world r) of (a, w) \<Rightarrow> (a, \<lparr>rr_world = w, rr_log = rr_log r @ [Slept a]\<rparr>))"

text \<open>The call of \<open>onRetryFinished\<close> with which the loop returns, if a retry was scheduled.\<close>

definition finishRetry ::
  "('w, 'e) retry_ports \<Rightarrow> bool \<Rightarrow> (nat \<times> jstr) option \<Rightarrow> jstr option \<Rightarrow> assistant_message \<Rightarrow> 'w retry_run \<Rightarrow>
   ('e + assistant_message) \<times> 'w retry_run" where
  "finishRetry P success lastRetry finalError response r =
     (case lastRetry of
        None \<Rightarrow> (Inr response, r)
      | Some (attempt, _) \<Rightarrow>
          (case perform (Finished success attempt finalError) (rp_finished P success attempt finalError) r of
             (Inl e, r') \<Rightarrow> (Inl e, r')
           | (Inr _, r') \<Rightarrow> (Inr response, r')))"

definition unknownError :: jstr where
  "unknownError = js ''Unknown error''"

function retryLoop ::
  "('w, 'e) retry_ports \<Rightarrow> ('w \<Rightarrow> ('e + assistant_message) \<times> 'w) \<Rightarrow> nat \<Rightarrow> nat \<Rightarrow> nat \<Rightarrow> (nat \<times> jstr) option \<Rightarrow>
   'w retry_run \<Rightarrow> ('e + assistant_message) \<times> 'w retry_run" where
  "retryLoop P produce base maxAttempts attempt lastRetry r =
     (case perform Called produce r of
        (Inl e, r1) \<Rightarrow> (Inl e, r1)
      | (Inr response, r1) \<Rightarrow>
          (if am_stopReason response = SR_aborted then finishRetry P False lastRetry None response r1
           else if am_stopReason response \<noteq> SR_error then finishRetry P True lastRetry None response r1
           else if attempt \<ge> maxAttempts \<or> \<not> isRetryableAssistantError response
             then finishRetry P False lastRetry (am_errorMessage response) response r1
           else
             (let next = attempt + 1;
                  msg = (if truthyStr (am_errorMessage response) then the (am_errorMessage response) else unknownError);
                  delay = base * 2 ^ (next - 1)
              in case perform (Scheduled next maxAttempts delay msg) (rp_scheduled P next maxAttempts delay msg) r1 of
                   (Inl e, r2) \<Rightarrow> (Inl e, r2)
                 | (Inr _, r2) \<Rightarrow>
                     (case performSleep P delay r2 of
                        (True, r3) \<Rightarrow>
                          finishRetry P False (Some (next, msg)) (Some msg)
                            (response\<lparr>am_stopReason := SR_aborted, am_errorMessage := None\<rparr>) r3
                      | (False, r3) \<Rightarrow>
                          (case perform AttemptStarted (rp_attemptStart P) r3 of
                             (Inl e, r4) \<Rightarrow> (Inl e, r4)
                           | (Inr _, r4) \<Rightarrow>
                               retryLoop P produce base maxAttempts next (Some (next, msg)) r4)))))"
  by pat_completeness auto
termination
  by (relation "measure (\<lambda>(P, produce, base, maxAttempts, attempt, lastRetry, r). maxAttempts - attempt)") auto

declare retryLoop.simps [simp del]

definition retryAssistantCall ::
  "('w, 'e) retry_ports \<Rightarrow> ('w \<Rightarrow> ('e + assistant_message) \<times> 'w) \<Rightarrow> retry_policy option \<Rightarrow> 'w retry_run \<Rightarrow>
   ('e + assistant_message) \<times> 'w retry_run" where
  "retryAssistantCall P produce policy r =
     (case policy of
        Some p \<Rightarrow> retryLoop P produce (ry_baseDelayMs p) (if ry_enabled p then ry_maxRetries p else 0) 0 None r
      | None \<Rightarrow> retryLoop P produce 0 0 0 None r)"

text \<open>
  The retry loop keeps its budget and its backoff, gives up on a transient error only when
  the budget is spent, and reports its end once.
\<close>

section \<open>What a log shows\<close>

definition callCount :: "retry_event list \<Rightarrow> nat" where
  "callCount es = length (filter (\<lambda>e. e = Called) es)"

definition scheduledRetries :: "retry_event list \<Rightarrow> (nat \<times> nat \<times> nat) list" where
  "scheduledRetries es =
     List.map_filter (\<lambda>e. case e of Scheduled n mx delay _ \<Rightarrow> Some (n, mx, delay) | _ \<Rightarrow> None) es"

definition reportedEnds :: "retry_event list \<Rightarrow> (bool \<times> nat) list" where
  "reportedEnds es = List.map_filter (\<lambda>e. case e of Finished ok n _ \<Rightarrow> Some (ok, n) | _ \<Rightarrow> None) es"

definition succeeded :: "assistant_message \<Rightarrow> bool" where
  "succeeded m \<longleftrightarrow> am_stopReason m \<noteq> SR_error \<and> am_stopReason m \<noteq> SR_aborted"

lemma callCount_simps [simp]:
  "callCount [] = 0" "callCount (e # es) = (if e = Called then 1 else 0) + callCount es"
  "callCount (xs @ ys) = callCount xs + callCount ys"
  by (simp_all add: callCount_def)

lemma scheduledRetries_simps [simp]:
  "scheduledRetries [] = []"
  "scheduledRetries (e # es) = (case e of Scheduled n mx d _ \<Rightarrow> (n, mx, d) # scheduledRetries es | _ \<Rightarrow> scheduledRetries es)"
  by (simp_all add: scheduledRetries_def List.map_filter_simps split: retry_event.split)

lemma reportedEnds_simps [simp]:
  "reportedEnds [] = []"
  "reportedEnds (e # es) = (case e of Finished ok n _ \<Rightarrow> (ok, n) # reportedEnds es | _ \<Rightarrow> reportedEnds es)"
  by (simp_all add: reportedEnds_def List.map_filter_simps split: retry_event.split)

lemma perform_log: "perform e f r = (a, r') \<Longrightarrow> rr_log r' = rr_log r @ [e]"
  by (auto simp: perform_def split: prod.splits)

lemma performSleep_log: "performSleep P ms r = (a, r') \<Longrightarrow> rr_log r' = rr_log r @ [Slept a]"
  by (auto simp: performSleep_def split: prod.splits)

section \<open>The run of the loop\<close>

text \<open>
  \<open>loopRun base mx a res es\<close>: what the loop, entered after \<open>a\<close> retries, adds to the log when it
  ends with \<open>res\<close>. The retries it schedules are numbered on and double their delays.
\<close>

definition loopRun :: "nat \<Rightarrow> nat \<Rightarrow> nat \<Rightarrow> ('e + assistant_message) \<Rightarrow> retry_event list \<Rightarrow> bool" where
  "loopRun base mx a res es \<longleftrightarrow>
     (\<exists>k. a + k \<le> mx \<and> scheduledRetries es = map (\<lambda>n. (Suc n, mx, base * 2 ^ n)) [a..<a + k] \<and>
          k \<le> callCount es \<and> callCount es \<le> Suc k \<and>
          (\<forall>m. res = Inr m \<longrightarrow>
             reportedEnds es = (if a + k = 0 then [] else [(succeeded m, a + k)]) \<and>
             (isRetryableAssistantError m \<longrightarrow> a + k = mx \<and> callCount es = Suc k)))"

lemma loopRun_end:
  assumes "a \<le> mx" and "scheduledRetries es = []" and "callCount es = 1"
    and "\<And>m. res = Inr m \<Longrightarrow> reportedEnds es = (if a = 0 then [] else [(succeeded m, a)])"
    and "\<And>m. res = Inr m \<Longrightarrow> isRetryableAssistantError m \<Longrightarrow> a = mx"
  shows "loopRun base mx a res es"
  unfolding loopRun_def by (rule exI [of _ 0]) (use assms in auto)

lemma loopRun_retry:
  assumes "loopRun base mx (Suc a) res es"
  shows "loopRun base mx a res (Called # Scheduled (Suc a) mx (base * 2 ^ a) msg # Slept False # AttemptStarted # es)"
proof -
  obtain k where "Suc a + k \<le> mx"
    and "scheduledRetries es = map (\<lambda>n. (Suc n, mx, base * 2 ^ n)) [Suc a..<Suc a + k]"
    and "k \<le> callCount es" and "callCount es \<le> Suc k"
    and "\<forall>m. res = Inr m \<longrightarrow> reportedEnds es = [(succeeded m, Suc a + k)] \<and>
             (isRetryableAssistantError m \<longrightarrow> Suc a + k = mx \<and> callCount es = Suc k)"
    using assms by (auto simp: loopRun_def)
  then show ?thesis unfolding loopRun_def
    by (intro exI [of _ "Suc k"]) (simp add: upt_conv_Cons)
qed

lemma loopRun_cut:
  assumes "a < mx" and "scheduledRetries es = []" and "callCount es = 0"
    and "\<And>m. res = Inr m \<Longrightarrow> reportedEnds es = [(succeeded m, Suc a)] \<and> \<not> isRetryableAssistantError m"
  shows "loopRun base mx a res (Called # Scheduled (Suc a) mx (base * 2 ^ a) msg # es)"
  unfolding loopRun_def by (rule exI [of _ 1]) (use assms in \<open>auto simp: upt_conv_Cons\<close>)

lemma finishRetry_log:
  assumes "finishRetry P ok prev err m r = (res, r')"
  shows "\<exists>es. rr_log r' = rr_log r @ es \<and> scheduledRetries es = [] \<and> callCount es = 0 \<and>
    (\<forall>x. res = Inr x \<longrightarrow> x = m \<and> reportedEnds es = (case prev of None \<Rightarrow> [] | Some (n, _) \<Rightarrow> [(ok, n)]))"
  using assms
  by (auto simp: finishRetry_def split: option.splits prod.splits sum.splits dest!: perform_log)

lemma notRetryable_unless_error: "isRetryableAssistantError m \<Longrightarrow> am_stopReason m = SR_error"
  by (auto simp: isRetryableAssistantError_def split: if_splits)

definition lastRetryAt :: "nat \<Rightarrow> (nat \<times> jstr) option \<Rightarrow> bool" where
  "lastRetryAt a prev \<longleftrightarrow> (case prev of None \<Rightarrow> a = 0 | Some (n, _) \<Rightarrow> n = a \<and> a > 0)"

text \<open>The loop ends with the response of a call.\<close>

lemma loop_ends:
  assumes fin: "finishRetry P ok prev err m r1 = (res, r')" and log: "rr_log r1 = rr_log r @ [Called]"
    and prev: "lastRetryAt a prev" and a: "a \<le> mx" and ok: "ok = succeeded m"
    and spent: "isRetryableAssistantError m \<Longrightarrow> a = mx"
  shows "\<exists>es. rr_log r' = rr_log r @ es \<and> loopRun base mx a res es"
proof -
  from finishRetry_log [OF fin] obtain es where es: "rr_log r' = rr_log r1 @ es" "scheduledRetries es = []"
      "callCount es = 0"
      "\<forall>x. res = Inr x \<longrightarrow> x = m \<and> reportedEnds es = (case prev of None \<Rightarrow> [] | Some (n, _) \<Rightarrow> [(ok, n)])"
    by blast
  have "loopRun base mx a res (Called # es)"
    by (rule loopRun_end) (use es prev a ok spent in \<open>auto simp: lastRetryAt_def split: option.splits\<close>)
  with es(1) log show ?thesis by (intro exI [of _ "Called # es"]) simp
qed

lemma retryLoop_run:
  "retryLoop P produce base mx a prev r = (res, r') \<Longrightarrow> a \<le> mx \<Longrightarrow> lastRetryAt a prev \<Longrightarrow>
   \<exists>es. rr_log r' = rr_log r @ es \<and> loopRun base mx a res es"
proof (induction "mx - a" arbitrary: a prev r rule: less_induct)
  case less
  obtain out r1 where p: "perform Called produce r = (out, r1)" by fastforce
  note log1 = perform_log [OF p]
  show ?case
  proof (cases out)
    case (Inl e)
    then have "r' = r1" "res = Inl e" using less.prems(1) p by (simp_all add: retryLoop.simps)
    with log1 show ?thesis by (intro exI [of _ "[Called]"] conjI loopRun_end) (use less.prems in auto)
  next
    case (Inr m)
    note eq = less.prems(1) [unfolded retryLoop.simps [of P produce base mx a prev r] p Inr prod.case sum.case]
    note ends = loop_ends [OF _ log1 less.prems(3) less.prems(2)]
    consider "am_stopReason m = SR_aborted" | "am_stopReason m \<noteq> SR_aborted" "am_stopReason m \<noteq> SR_error"
      | "am_stopReason m = SR_error" "a \<ge> mx \<or> \<not> isRetryableAssistantError m"
      | "am_stopReason m = SR_error" "a < mx" "isRetryableAssistantError m"
      by fastforce
    then show ?thesis
    proof cases
      case 1
      with eq have "finishRetry P False prev None m r1 = (res, r')" by simp
      from ends [OF this] 1 notRetryable_unless_error [of m] show ?thesis by (auto simp: succeeded_def)
    next
      case 2
      with eq have "finishRetry P True prev None m r1 = (res, r')" by simp
      from ends [OF this] 2 notRetryable_unless_error [of m] show ?thesis by (auto simp: succeeded_def)
    next
      case 3
      with eq have "finishRetry P False prev (am_errorMessage m) m r1 = (res, r')" by simp
      from ends [OF this] 3 less.prems(2) show ?thesis by (auto simp: succeeded_def)
    next
      case 4
      define msg where "msg = (if truthyStr (am_errorMessage m) then the (am_errorMessage m) else unknownError)"
      define delay where "delay = base * 2 ^ a"
      obtain o2 r2 where s: "perform (Scheduled (Suc a) mx delay msg) (rp_scheduled P (Suc a) mx delay msg) r1 = (o2, r2)"
        by fastforce
      obtain o3 r3 where z: "performSleep P delay r2 = (o3, r3)" by fastforce
      obtain o4 r4 where t: "perform AttemptStarted (rp_attemptStart P) r3 = (o4, r4)" by fastforce
      note logs = log1 perform_log [OF s] performSleep_log [OF z] perform_log [OF t]
      note eq' = eq [simplified 4 Let_def add_diff_cancel_right', folded msg_def, simplified, folded delay_def]
      consider e where "o2 = Inl e" | "o2 = Inr ()" "o3" | e where "o2 = Inr ()" "\<not> o3" "o4 = Inl e"
        | "o2 = Inr ()" "\<not> o3" "o4 = Inr ()"
        by (cases o2; cases o4) auto
      then show ?thesis
      proof cases
        case 1
        then have "res = Inl e" "r' = r2" using eq' 4 s by (simp_all add: msg_def)
        with logs show ?thesis
          using loopRun_cut [OF 4(2), of "[]" res base msg] by (auto simp: delay_def)
      next
        case 2
        let ?m = "m\<lparr>am_stopReason := SR_aborted, am_errorMessage := None\<rparr>"
        have f: "finishRetry P False (Some (Suc a, msg)) (Some msg) ?m r3 = (res, r')"
          using eq' 4 2 s z by (simp add: msg_def)
        from finishRetry_log [OF f] obtain es where "rr_log r' = rr_log r3 @ es"
          and es: "scheduledRetries es = []" "callCount es = 0"
            "\<forall>x. res = Inr x \<longrightarrow> x = ?m \<and> reportedEnds es = [(False, Suc a)]"
          by auto
        moreover have "loopRun base mx a res (Called # Scheduled (Suc a) mx (base * 2 ^ a) msg # Slept o3 # es)"
          by (rule loopRun_cut [OF 4(2)])
            (use es in \<open>auto simp: succeeded_def isRetryableAssistantError_def\<close>)
        ultimately show ?thesis using logs by (auto simp: delay_def)
      next
        case 3
        then have "res = Inl e" "r' = r4" using eq' 4 s z t by (simp_all add: msg_def)
        with logs show ?thesis
          using loopRun_cut [OF 4(2), of "[Slept o3, AttemptStarted]" res base msg] by (auto simp: delay_def)
      next
        case go: 4
        have "retryLoop P produce base mx (Suc a) (Some (Suc a, msg)) r4 = (res, r')"
          using eq' 4 go s z t by (simp add: msg_def)
        moreover have "mx - Suc a < mx - a" using 4(2) by simp
        ultimately have "\<exists>es. rr_log r' = rr_log r4 @ es \<and> loopRun base mx (Suc a) res es"
          using less.hyps 4(2) by (auto simp: lastRetryAt_def)
        then obtain es where "rr_log r' = rr_log r4 @ es" "loopRun base mx (Suc a) res es"
          by blast
        then show ?thesis using logs go(2) loopRun_retry [of base mx a res es msg] by (auto simp: delay_def)
      qed
    qed
  qed
qed

text \<open>A run in a world without state whose sleeps are not aborted: the provider stays overloaded.\<close>

definition quietRetryPorts :: "(unit, jstr) retry_ports" where
  "quietRetryPorts = \<lparr>rp_sleep = (\<lambda>ms w. (False, w)), rp_scheduled = (\<lambda>n mx d e w. (Inr (), w)),
     rp_attemptStart = (\<lambda>w. (Inr (), w)), rp_finished = (\<lambda>ok n e w. (Inr (), w))\<rparr>"

definition overloadedMessage :: assistant_message where
  "overloadedMessage = \<lparr>am_content = [], am_api = [], am_provider = [], am_model = [], am_responseModel = None,
     am_responseId = None, am_diagnostics = None,
     am_usage = \<lparr>us_input = 0, us_output = 0, us_cacheRead = 0, us_cacheWrite = 0, us_cacheWrite1h = None,
       us_reasoning = None, us_totalTokens = 0,
       us_cost = \<lparr>uc_input = 0, uc_output = 0, uc_cacheRead = 0, uc_cacheWrite = 0, uc_total = 0\<rparr>\<rparr>,
     am_stopReason = SR_error, am_errorMessage = Some (js ''529 Overloaded''), am_timestamp = 0\<rparr>"

definition overloadedRun :: "(jstr + assistant_message) \<times> unit retry_run" where
  "overloadedRun = retryAssistantCall quietRetryPorts (\<lambda>w. (Inr overloadedMessage, w))
     (Some \<lparr>ry_enabled = True, ry_maxRetries = 1, ry_baseDelayMs = 500\<rparr>) \<lparr>rr_world = (), rr_log = []\<rparr>"

lemma overloaded_retryable: "isRetryableAssistantError overloadedMessage"
  by code_simp

lemma overloadedRun_eq: "fst overloadedRun = Inr overloadedMessage"
  using overloaded_retryable
  by (simp add: overloadedRun_def retryAssistantCall_def retryLoop.simps perform_def performSleep_def
      quietRetryPorts_def finishRetry_def overloadedMessage_def Let_def)

lemma retryAssistantCall_run:
  assumes "retryAssistantCall P produce (Some p) r = (res, r')"
  shows "\<exists>es. rr_log r' = rr_log r @ es \<and>
    loopRun (ry_baseDelayMs p) (if ry_enabled p then ry_maxRetries p else 0) 0 res es"
  using retryLoop_run [of P produce "ry_baseDelayMs p" "if ry_enabled p then ry_maxRetries p else 0" 0 None r res r'] assms
  by (simp add: retryAssistantCall_def lastRetryAt_def)

section \<open>Properties\<close>

text \<open>C17: The retry loop keeps its budget: whatever the calls, the callbacks and the sleeps do, at most
  the policy's number of retries is scheduled, each with its number, with delays that double
  from the base delay, and the call is made at most once more than retries are scheduled.\<close>

theorem retry_keeps_budget:
  "\<exists>k es. rr_log (snd (retryAssistantCall P produce (Some p) r)) = rr_log r @ es \<and>
     k \<le> (if ry_enabled p then ry_maxRetries p else 0) \<and>
     scheduledRetries es = map (\<lambda>n. (Suc n, ry_maxRetries p, ry_baseDelayMs p * 2 ^ n)) [0..<k] \<and>
     k \<le> callCount es \<and> callCount es \<le> Suc k"
proof -
  obtain res r' where eq: "retryAssistantCall P produce (Some p) r = (res, r')" by fastforce
  from retryAssistantCall_run [OF eq] show ?thesis
    using eq by (cases "ry_enabled p") (fastforce simp: loopRun_def)+
qed

text \<open>A response that still is a transient provider error is returned only when the policy's
  retries are spent, after one call more than that; and the end of the loop is reported once,
  as a success exactly if the response is one, if and only if a retry was scheduled.\<close>

theorem retry_outcome:
  assumes "retryAssistantCall P produce (Some p) r = (Inr m, r')" and "ry_enabled p"
  shows "\<exists>es. rr_log r' = rr_log r @ es \<and>
    (isRetryableAssistantError m \<longrightarrow>
       length (scheduledRetries es) = ry_maxRetries p \<and> callCount es = Suc (ry_maxRetries p)) \<and>
    reportedEnds es = (if scheduledRetries es = [] then [] else [(succeeded m, length (scheduledRetries es))])"
proof -
  from retryAssistantCall_run [OF assms(1)] assms(2) obtain es k where "rr_log r' = rr_log r @ es"
    and s: "scheduledRetries es = map (\<lambda>n. (Suc n, ry_maxRetries p, ry_baseDelayMs p * 2 ^ n)) [0..<k]"
    and "reportedEnds es = (if k = 0 then [] else [(succeeded m, k)])"
    and "isRetryableAssistantError m \<longrightarrow> k = ry_maxRetries p \<and> callCount es = Suc k"
    by (auto simp: loopRun_def)
  moreover have "length (scheduledRetries es) = k" "scheduledRetries es = [] \<longleftrightarrow> k = 0" by (simp_all add: s)
  ultimately show ?thesis by (intro exI [of _ es]) auto
qed

theorem retry_outcome_witness:
  "length (scheduledRetries (rr_log (snd overloadedRun))) = 1 \<and> callCount (rr_log (snd overloadedRun)) = 2 \<and>
   reportedEnds (rr_log (snd overloadedRun)) = [(False, 1)]"
proof -
  have "retryAssistantCall quietRetryPorts (\<lambda>w. (Inr overloadedMessage, w))
     (Some \<lparr>ry_enabled = True, ry_maxRetries = 1, ry_baseDelayMs = 500\<rparr>) \<lparr>rr_world = (), rr_log = []\<rparr> =
     (Inr overloadedMessage, snd overloadedRun)"
    using overloadedRun_eq by (simp add: overloadedRun_def prod_eq_iff)
  from retry_outcome [OF this] overloaded_retryable show ?thesis
    by (auto simp: succeeded_def overloadedMessage_def)
qed

end
