(* ===== verification/CompactionUtils.thy ===== *)
theory CompactionUtils
  imports Messages "HOL-Library.List_Lexorder"
begin

text \<open>
  The helpers of packages/agent/src/harness/compaction/utils.ts: the files a conversation
  has touched and the conversation as plain text, with the JSON text of a value that
  \<open>JSON.stringify\<close> prints.
\<close>

section \<open>JSON text\<close>

definition hexDigit :: "nat \<Rightarrow> jchar" where
  "hexDigit n = of_nat (if n < 10 then 48 + n else 87 + n)"

definition unicodeEscape :: "jchar \<Rightarrow> jstr" where
  "unicodeEscape c =
     (let n = unat c
      in [92, 117, hexDigit (n div 4096), hexDigit (n div 256 mod 16), hexDigit (n div 16 mod 16), hexDigit (n mod 16)])"

definition isHighSurrogate :: "jchar \<Rightarrow> bool" where
  "isHighSurrogate c \<longleftrightarrow> 0xD800 \<le> c \<and> c \<le> 0xDBFF"

definition isLowSurrogate :: "jchar \<Rightarrow> bool" where
  "isLowSurrogate c \<longleftrightarrow> 0xDC00 \<le> c \<and> c \<le> 0xDFFF"

definition escapeUnit :: "jchar \<Rightarrow> jstr" where
  "escapeUnit c =
     (if c = 34 then [92, 34] else if c = 92 then [92, 92] else if c = 8 then [92, 98]
      else if c = 12 then [92, 102] else if c = 10 then [92, 110] else if c = 13 then [92, 114]
      else if c = 9 then [92, 116]
      else if c < 32 \<or> isHighSurrogate c \<or> isLowSurrogate c then unicodeEscape c else [c])"

text \<open>A surrogate pair is printed as it is, a lone surrogate is escaped.\<close>

fun quoteBody :: "jstr \<Rightarrow> jstr" where
  "quoteBody [] = []"
| "quoteBody [c] = escapeUnit c"
| "quoteBody (c # d # cs) =
     (if isHighSurrogate c \<and> isLowSurrogate d then c # d # quoteBody cs
      else escapeUnit c @ quoteBody (d # cs))"

definition quoteJson :: "jstr \<Rightarrow> jstr" where
  "quoteJson s = QUOTE @ quoteBody s @ QUOTE"

fun jsonStringify :: "json \<Rightarrow> jstr" where
  "jsonStringify JNull = js ''null''"
| "jsonStringify (JBool b) = (if b then js ''true'' else js ''false'')"
| "jsonStringify (JNum i) = showInt i"
| "jsonStringify (JStr s) = quoteJson s"
| "jsonStringify (JArr xs) = js ''['' @ joinWith (js '','') (map jsonStringify xs) @ js '']''"
| "jsonStringify (JObj kvs) =
     js ''{'' @ joinWith (js '','') (map (\<lambda>(k, v). quoteJson k @ js '':'' @ jsonStringify v) kvs) @ js ''}''"

text \<open>A JSON value has a text, so the fallbacks of \<open>safeJsonStringify\<close> are not reached.\<close>

definition safeJsonStringify :: "json \<Rightarrow> jstr" where
  "safeJsonStringify v = jsonStringify v"

section \<open>File operations\<close>

text \<open>A \<open>Set\<close> is a list without duplicates, in insertion order.\<close>

definition setAdd :: "'a \<Rightarrow> 'a list \<Rightarrow> 'a list" where
  "setAdd x xs = (if x \<in> set xs then xs else xs @ [x])"

definition setAddAll :: "'a list \<Rightarrow> 'a list \<Rightarrow> 'a list" where
  "setAddAll ys xs = fold setAdd ys xs"

lemma set_setAdd [simp]: "set (setAdd x xs) = insert x (set xs)"
  by (auto simp: setAdd_def)

lemma distinct_setAdd [simp]: "distinct xs \<Longrightarrow> distinct (setAdd x xs)"
  by (simp add: setAdd_def)

lemma set_setAddAll [simp]: "set (setAddAll ys xs) = set ys \<union> set xs"
  by (induction ys arbitrary: xs) (auto simp: setAddAll_def)

lemma distinct_setAddAll [simp]: "distinct xs \<Longrightarrow> distinct (setAddAll ys xs)"
  by (induction ys arbitrary: xs) (simp_all add: setAddAll_def)

record file_operations =
  fops_read :: "jstr list"
  fops_written :: "jstr list"
  fops_edited :: "jstr list"

definition createFileOps :: file_operations where
  "createFileOps = \<lparr>fops_read = [], fops_written = [], fops_edited = []\<rparr>"

definition callFileOp :: "tool_call \<Rightarrow> file_operations \<Rightarrow> file_operations" where
  "callFileOp c ops =
     (case map_of (tcl_arguments c) (js ''path'') of
        Some (JStr path) \<Rightarrow>
          (if path = [] then ops
           else if tcl_name c = js ''read'' then ops\<lparr>fops_read := setAdd path (fops_read ops)\<rparr>
           else if tcl_name c = js ''write'' then ops\<lparr>fops_written := setAdd path (fops_written ops)\<rparr>
           else if tcl_name c = js ''edit'' then ops\<lparr>fops_edited := setAdd path (fops_edited ops)\<rparr>
           else ops)
      | _ \<Rightarrow> ops)"

fun extractFileOpsFromMessage :: "agent_message \<Rightarrow> file_operations \<Rightarrow> file_operations" where
  "extractFileOpsFromMessage (Msg (MAssistant m)) ops = fold callFileOp (toolCallsOf (am_content m)) ops"
| "extractFileOpsFromMessage _ ops = ops"

text \<open>Strings are sorted by code units, as \<open>Array.prototype.sort\<close> compares them.\<close>

definition computeFileLists :: "file_operations \<Rightarrow> jstr list \<times> jstr list" where
  "computeFileLists ops =
     (let modified = setAddAll (fops_edited ops @ fops_written ops) []
      in (sort (filter (\<lambda>f. f \<notin> set modified) (fops_read ops)), sort modified))"

definition formatFileOperations :: "jstr list \<Rightarrow> jstr list \<Rightarrow> jstr" where
  "formatFileOperations readFiles modifiedFiles =
     (let sections =
        (if readFiles \<noteq> [] then [js ''<read-files>'' @ NL @ joinWith NL readFiles @ NL @ js ''</read-files>''] else []) @
        (if modifiedFiles \<noteq> []
         then [js ''<modified-files>'' @ NL @ joinWith NL modifiedFiles @ NL @ js ''</modified-files>''] else [])
      in if sections = [] then [] else NL @ NL @ joinWith (NL @ NL) sections)"

section \<open>The conversation as text\<close>

definition TOOL_RESULT_MAX_CHARS :: nat where
  "TOOL_RESULT_MAX_CHARS = 2000"

definition truncateForSummary :: "jstr \<Rightarrow> nat \<Rightarrow> jstr" where
  "truncateForSummary text maxChars =
     (if length text \<le> maxChars then text
      else take maxChars text @ NL @ NL @ js ''[... '' @ showNat (length text - maxChars) @
           js '' more characters truncated]'')"

definition thinkingParts :: "assistant_block list \<Rightarrow> jstr list" where
  "thinkingParts bs = List.map_filter (\<lambda>b. case b of AThinking t \<Rightarrow> Some (th_thinking t) | _ \<Rightarrow> None) bs"

definition callText :: "tool_call \<Rightarrow> jstr" where
  "callText c =
     tcl_name c @ js ''('' @
     joinWith (js '', '') (map (\<lambda>(k, v). k @ js ''='' @ safeJsonStringify v) (tcl_arguments c)) @ js '')''"

fun isTextBlock :: "assistant_block \<Rightarrow> bool" where
  "isTextBlock (AText _) = True"
| "isTextBlock _ = False"

fun messageParts :: "message \<Rightarrow> jstr list" where
  "messageParts (MUser m) =
     (let content = contentText_user [] (um_content m)
      in if content = [] then [] else [js ''[User]: '' @ content])"
| "messageParts (MAssistant m) =
     (let bs = am_content m; thinking = thinkingParts bs; calls = map callText (toolCallsOf bs)
      in (if thinking \<noteq> [] then [js ''[Assistant thinking]: '' @ joinWith NL thinking] else []) @
         (if list_ex isTextBlock bs then [js ''[Assistant]: '' @ contentText_assistant NL bs] else []) @
         (if calls \<noteq> [] then [js ''[Assistant tool calls]: '' @ joinWith (js ''; '') calls] else []))"
| "messageParts (MToolResult m) =
     (let content = contentText_blocks [] (tr_content m)
      in if content = [] then []
         else [js ''[Tool result]: '' @ truncateForSummary content TOOL_RESULT_MAX_CHARS])"

definition serializeConversation :: "message list \<Rightarrow> jstr" where
  "serializeConversation ms = joinWith (NL @ NL) (concat (map messageParts ms))"

end
