(* ===== verification/Compaction.thy ===== *)
theory Compaction
  imports AgentTypes Session CompactionUtils Retry
begin

text \<open>
  Compaction of a session branch, packages/agent/src/harness/compaction/compaction.ts: the
  estimate of a context's tokens, the choice of the cut point, the preparation and the
  summarisation with its calls of the model.

  Token counts are integers. Indices into a branch are natural numbers; where the source
  returns -1 the result is \<open>None\<close>. The model is called through the retry loop of \<open>Retry\<close>; a
  rejected call or callback is \<open>Inl\<close> with its error, around the \<open>Result\<close> the functions
  return.
\<close>

section \<open>Errors and entries\<close>

datatype compaction_error_code = CE_aborted | CE_summarization_failed | CE_invalid_session | CE_unknown

record compaction_error =
  ce_code :: compaction_error_code
  ce_message :: jstr

definition compactionError :: "compaction_error_code \<Rightarrow> jstr \<Rightarrow> compaction_error" where
  "compactionError code message = \<lparr>ce_code = code, ce_message = message\<rparr>"

definition noUuid :: compaction_error where
  "noUuid = compactionError CE_invalid_session (js ''First kept entry has no UUID - session may need migration'')"

text \<open>Whether a value is truthy, and the strings in an array property of it.\<close>

fun truthyJson :: "json \<Rightarrow> bool" where
  "truthyJson JNull = False"
| "truthyJson (JBool b) = b"
| "truthyJson (JNum i) = (i \<noteq> 0)"
| "truthyJson (JStr s) = (s \<noteq> [])"
| "truthyJson (JArr _) = True"
| "truthyJson (JObj _) = True"

definition stringsIn :: "jstr \<Rightarrow> json \<Rightarrow> jstr list" where
  "stringsIn key j =
     (case j of
        JObj kvs \<Rightarrow>
          (case map_of kvs key of
             Some (JArr xs) \<Rightarrow> List.map_filter (\<lambda>x. case x of JStr s \<Rightarrow> Some s | _ \<Rightarrow> None) xs
           | _ \<Rightarrow> [])
      | _ \<Rightarrow> [])"

definition extractFileOperations :: "agent_message list \<Rightarrow> entry list \<Rightarrow> nat option \<Rightarrow> file_operations" where
  "extractFileOperations messages entries prevCompactionIndex =
     (let ops0 = createFileOps;
          ops1 =
            (case prevCompactionIndex of
               None \<Rightarrow> ops0
             | Some i \<Rightarrow>
                 (case compactionOf (entries ! i) of
                    None \<Rightarrow> ops0
                  | Some d \<Rightarrow>
                      (case cd_details d of
                         Some details \<Rightarrow>
                           (if cd_fromHook d \<noteq> Some True \<and> truthyJson details
                            then ops0\<lparr>fops_read := setAddAll (stringsIn (js ''readFiles'') details) (fops_read ops0),
                                      fops_edited := setAddAll (stringsIn (js ''modifiedFiles'') details) (fops_edited ops0)\<rparr>
                            else ops0)
                       | None \<Rightarrow> ops0)))
      in fold extractFileOpsFromMessage messages ops1)"

definition getMessageFromEntry :: "(jstr \<Rightarrow> int) \<Rightarrow> entry \<Rightarrow> agent_message option" where
  "getMessageFromEntry getTime e =
     (case en_body e of
        E_message m \<Rightarrow> Some m
      | E_customMessage d \<Rightarrow>
          Some (Custom (createCustomMessage getTime (cmd_customType d) (cmd_content d) (cmd_display d)
            (cmd_details d) (en_timestamp e)))
      | E_branchSummary d \<Rightarrow>
          Some (BranchSummary (createBranchSummaryMessage getTime (bd_summary d) (bd_fromId d) (en_timestamp e)))
      | E_compaction d \<Rightarrow>
          Some (CompactionSummary (createCompactionSummaryMessage getTime (cd_summary d) (cd_tokensBefore d)
            (en_timestamp e)))
      | _ \<Rightarrow> None)"

definition getMessageFromEntryForCompaction :: "(jstr \<Rightarrow> int) \<Rightarrow> entry \<Rightarrow> agent_message option" where
  "getMessageFromEntryForCompaction getTime e =
     (if isCompaction (en_body e) then None else getMessageFromEntry getTime e)"

section \<open>Usage and token estimates\<close>

definition addOptional :: "int option \<Rightarrow> int option \<Rightarrow> int option" where
  "addOptional a b = (if a = None \<and> b = None then None else Some (orDefault a 0 + orDefault b 0))"

definition combineUsage :: "usage \<Rightarrow> usage \<Rightarrow> usage" where
  "combineUsage a b =
     \<lparr>us_input = us_input a + us_input b, us_output = us_output a + us_output b,
      us_cacheRead = us_cacheRead a + us_cacheRead b, us_cacheWrite = us_cacheWrite a + us_cacheWrite b,
      us_cacheWrite1h = addOptional (us_cacheWrite1h a) (us_cacheWrite1h b),
      us_reasoning = addOptional (us_reasoning a) (us_reasoning b),
      us_totalTokens = us_totalTokens a + us_totalTokens b,
      us_cost =
        \<lparr>uc_input = uc_input (us_cost a) + uc_input (us_cost b),
         uc_output = uc_output (us_cost a) + uc_output (us_cost b),
         uc_cacheRead = uc_cacheRead (us_cost a) + uc_cacheRead (us_cost b),
         uc_cacheWrite = uc_cacheWrite (us_cost a) + uc_cacheWrite (us_cost b),
         uc_total = uc_total (us_cost a) + uc_total (us_cost b)\<rparr>\<rparr>"

record compaction_settings =
  cp_enabled :: bool
  cp_reserveTokens :: int
  cp_keepRecentTokens :: int

definition DEFAULT_COMPACTION_SETTINGS :: compaction_settings where
  "DEFAULT_COMPACTION_SETTINGS = \<lparr>cp_enabled = True, cp_reserveTokens = 16384, cp_keepRecentTokens = 20000\<rparr>"

definition calculateContextTokens :: "usage \<Rightarrow> int" where
  "calculateContextTokens u =
     (if us_totalTokens u \<noteq> 0 then us_totalTokens u
      else us_input u + us_output u + us_cacheRead u + us_cacheWrite u)"

fun getAssistantUsage :: "agent_message \<Rightarrow> usage option" where
  "getAssistantUsage (Msg (MAssistant m)) =
     (if am_stopReason m \<noteq> SR_aborted \<and> am_stopReason m \<noteq> SR_error \<and> calculateContextTokens (am_usage m) > 0
      then Some (am_usage m) else None)"
| "getAssistantUsage _ = None"

definition getLastAssistantUsage :: "entry list \<Rightarrow> usage option" where
  "getLastAssistantUsage entries =
     (case List.map_filter (\<lambda>e. case en_body e of E_message m \<Rightarrow> getAssistantUsage m | _ \<Rightarrow> None) (rev entries) of
        [] \<Rightarrow> None
      | u # _ \<Rightarrow> Some u)"

record context_usage_estimate =
  ue_tokens :: int
  ue_usageTokens :: int
  ue_trailingTokens :: int
  ue_lastUsageIndex :: "nat option"

definition ESTIMATED_IMAGE_CHARS :: nat where
  "ESTIMATED_IMAGE_CHARS = 4800"

fun blockChars :: "block \<Rightarrow> nat" where
  "blockChars (BText t) = length (tc_text t)"
| "blockChars (BImage _) = ESTIMATED_IMAGE_CHARS"

fun estimateTextAndImageContentChars :: "user_content \<Rightarrow> nat" where
  "estimateTextAndImageContentChars (UString s) = length s"
| "estimateTextAndImageContentChars (UBlocks bs) = sum_list (map blockChars bs)"

fun assistantBlockChars :: "assistant_block \<Rightarrow> nat" where
  "assistantBlockChars (AText t) = length (tc_text t)"
| "assistantBlockChars (AThinking t) = length (th_thinking t)"
| "assistantBlockChars (AToolCall c) =
     length (tcl_name c) + length (safeJsonStringify (JObj (tcl_arguments c)))"

definition ceilQuarter :: "nat \<Rightarrow> int" where
  "ceilQuarter chars = int ((chars + 3) div 4)"

fun estimateTokens :: "agent_message \<Rightarrow> int" where
  "estimateTokens (Msg (MUser m)) = ceilQuarter (estimateTextAndImageContentChars (um_content m))"
| "estimateTokens (Msg (MAssistant m)) = ceilQuarter (sum_list (map assistantBlockChars (am_content m)))"
| "estimateTokens (Msg (MToolResult m)) = ceilQuarter (estimateTextAndImageContentChars (UBlocks (tr_content m)))"
| "estimateTokens (Custom m) = ceilQuarter (estimateTextAndImageContentChars (cm_content m))"
| "estimateTokens (BashExecution m) = ceilQuarter (length (be_command m) + length (be_output m))"
| "estimateTokens (BranchSummary m) = ceilQuarter (length (bs_summary m))"
| "estimateTokens (CompactionSummary m) = ceilQuarter (length (cs_summary m))"

fun getLastAssistantUsageInfo :: "agent_message list \<Rightarrow> nat \<Rightarrow> (usage \<times> nat) option" where
  "getLastAssistantUsageInfo messages 0 = None"
| "getLastAssistantUsageInfo messages (Suc i) =
     (case getAssistantUsage (messages ! i) of
        Some u \<Rightarrow> Some (u, i)
      | None \<Rightarrow> getLastAssistantUsageInfo messages i)"

definition estimateContextTokens :: "agent_message list \<Rightarrow> context_usage_estimate" where
  "estimateContextTokens messages =
     (case getLastAssistantUsageInfo messages (length messages) of
        None \<Rightarrow>
          (let estimated = sum_list (map estimateTokens messages)
           in \<lparr>ue_tokens = estimated, ue_usageTokens = 0, ue_trailingTokens = estimated, ue_lastUsageIndex = None\<rparr>)
      | Some (u, i) \<Rightarrow>
          (let usageTokens = calculateContextTokens u;
               trailingTokens = sum_list (map estimateTokens (drop (i + 1) messages))
           in \<lparr>ue_tokens = usageTokens + trailingTokens, ue_usageTokens = usageTokens,
               ue_trailingTokens = trailingTokens, ue_lastUsageIndex = Some i\<rparr>))"

definition shouldCompact :: "int \<Rightarrow> int \<Rightarrow> compaction_settings \<Rightarrow> bool" where
  "shouldCompact contextTokens contextWindow settings =
     (if \<not> cp_enabled settings then False
      else contextTokens > contextWindow - cp_reserveTokens settings)"

section \<open>The cut point\<close>

fun isCutPoint :: "entry_body \<Rightarrow> bool" where
  "isCutPoint (E_message (Msg (MToolResult _))) = False"
| "isCutPoint (E_message _) = True"
| "isCutPoint (E_branchSummary _) = True"
| "isCutPoint (E_customMessage _) = True"
| "isCutPoint _ = False"

definition findValidCutPoints :: "entry list \<Rightarrow> nat \<Rightarrow> nat \<Rightarrow> nat list" where
  "findValidCutPoints entries startIndex endIndex =
     filter (\<lambda>i. isCutPoint (en_body (entries ! i))) [startIndex..<endIndex]"

fun startsTurn :: "entry_body \<Rightarrow> bool" where
  "startsTurn (E_branchSummary _) = True"
| "startsTurn (E_customMessage _) = True"
| "startsTurn (E_message (Msg (MUser _))) = True"
| "startsTurn (E_message (BashExecution _)) = True"
| "startsTurn _ = False"

definition findTurnStartIndex :: "entry list \<Rightarrow> nat \<Rightarrow> nat \<Rightarrow> nat option" where
  "findTurnStartIndex entries entryIndex startIndex =
     find (\<lambda>i. startsTurn (en_body (entries ! i))) (rev [startIndex..<Suc entryIndex])"

record cut_point_result =
  ct_firstKeptEntryIndex :: nat
  ct_turnStartIndex :: "nat option"
  ct_isSplitTurn :: bool

text \<open>
  The backwards loop that adds up tokens: the entry at which the budget is reached, below
  the index \<open>i\<close>.
\<close>

fun budgetIndex :: "entry list \<Rightarrow> nat \<Rightarrow> int \<Rightarrow> nat \<Rightarrow> int \<Rightarrow> nat option" where
  "budgetIndex entries startIndex keep 0 acc = None"
| "budgetIndex entries startIndex keep (Suc i) acc =
     (if i < startIndex then None
      else (case en_body (entries ! i) of
              E_message m \<Rightarrow>
                (if acc + estimateTokens m \<ge> keep then Some i
                 else budgetIndex entries startIndex keep i (acc + estimateTokens m))
            | _ \<Rightarrow> budgetIndex entries startIndex keep i acc))"

fun isMessageOrCompaction :: "entry_body \<Rightarrow> bool" where
  "isMessageOrCompaction (E_message _) = True"
| "isMessageOrCompaction (E_compaction _) = True"
| "isMessageOrCompaction _ = False"

text \<open>The loop that moves the cut before the entries that are no messages.\<close>

fun moveCutBack :: "entry list \<Rightarrow> nat \<Rightarrow> nat \<Rightarrow> nat" where
  "moveCutBack entries startIndex 0 = 0"
| "moveCutBack entries startIndex (Suc i) =
     (if Suc i > startIndex \<and> \<not> isMessageOrCompaction (en_body (entries ! i))
      then moveCutBack entries startIndex i else Suc i)"

fun isUserEntry :: "entry_body \<Rightarrow> bool" where
  "isUserEntry (E_message m) = isUser m"
| "isUserEntry _ = False"

definition chooseCut :: "entry list \<Rightarrow> nat \<Rightarrow> nat \<Rightarrow> int \<Rightarrow> nat" where
  "chooseCut entries startIndex endIndex keep =
     (let cutPoints = findValidCutPoints entries startIndex endIndex
      in case budgetIndex entries startIndex keep endIndex 0 of
           None \<Rightarrow> hd cutPoints
         | Some i \<Rightarrow> orDefault (find (\<lambda>c. c \<ge> i) cutPoints) (hd cutPoints))"

definition findCutPoint :: "entry list \<Rightarrow> nat \<Rightarrow> nat \<Rightarrow> int \<Rightarrow> cut_point_result" where
  "findCutPoint entries startIndex endIndex keep =
     (if findValidCutPoints entries startIndex endIndex = []
      then \<lparr>ct_firstKeptEntryIndex = startIndex, ct_turnStartIndex = None, ct_isSplitTurn = False\<rparr>
      else (let cutIndex = moveCutBack entries startIndex (chooseCut entries startIndex endIndex keep);
                isUserMessage = isUserEntry (en_body (entries ! cutIndex));
                turnStart = (if isUserMessage then None else findTurnStartIndex entries cutIndex startIndex)
            in \<lparr>ct_firstKeptEntryIndex = cutIndex, ct_turnStartIndex = turnStart,
                ct_isSplitTurn = (\<not> isUserMessage \<and> turnStart \<noteq> None)\<rparr>))"

section \<open>Preparation\<close>

record compaction_preparation =
  pr_firstKeptEntryId :: jstr
  pr_messagesToSummarize :: "agent_message list"
  pr_turnPrefixMessages :: "agent_message list"
  pr_retainedTail :: "agent_message list"
  pr_isSplitTurn :: bool
  pr_tokensBefore :: int
  pr_previousSummary :: "jstr option"
  pr_fileOps :: file_operations
  pr_settings :: compaction_settings

text \<open>The messages of the entries with an index from \<open>i\<close> below \<open>j\<close>.\<close>

definition messagesBetween :: "(jstr \<Rightarrow> int) \<Rightarrow> entry list \<Rightarrow> nat \<Rightarrow> nat \<Rightarrow> agent_message list" where
  "messagesBetween getTime entries i j =
     List.map_filter (\<lambda>k. getMessageFromEntryForCompaction getTime (entries ! k)) [i..<j]"

definition lastCompactionIndex :: "entry list \<Rightarrow> nat option" where
  "lastCompactionIndex entries = find (\<lambda>i. isCompaction (en_body (entries ! i))) (rev [0..<length entries])"

text \<open>Where the history starts that a compaction summarises: at what the previous one has kept.\<close>

definition boundaryStartOf :: "entry list \<Rightarrow> nat" where
  "boundaryStartOf entries =
     (case lastCompactionIndex entries of
        None \<Rightarrow> 0
      | Some i \<Rightarrow>
          (let kept = (case compactionOf (entries ! i) of Some d \<Rightarrow> cd_firstKeptEntryId d | None \<Rightarrow> None)
           in orDefault (if truthyStr kept then findIndex (\<lambda>e. en_id e = the kept) entries else None) (i + 1)))"

definition prepareCompaction ::
  "(jstr \<Rightarrow> int) \<Rightarrow> entry list \<Rightarrow> compaction_settings \<Rightarrow> compaction_error + compaction_preparation option" where
  "prepareCompaction getTime entries settings =
     (if entries = [] \<or> isCompaction (en_body (last entries)) then Inr None
      else
        (let prevCompactionIndex = lastCompactionIndex entries;
             previousSummary =
               (case prevCompactionIndex of
                  None \<Rightarrow> None | Some i \<Rightarrow> map_option cd_summary (compactionOf (entries ! i)));
             boundaryStart = boundaryStartOf entries;
             boundaryEnd = length entries;
             tokensBefore =
               ue_tokens (estimateContextTokens (sx_messages (buildSessionContext getTime entries
                 \<lparr>cx_entryTransforms = [], cx_entryProjectors = (\<lambda>_. None)\<rparr>)));
             cutPoint = findCutPoint entries boundaryStart boundaryEnd (cp_keepRecentTokens settings);
             firstKept = ct_firstKeptEntryIndex cutPoint
         in if firstKept \<ge> length entries \<or> en_id (entries ! firstKept) = [] then Inl noUuid
            else
              (let historyEnd = (if ct_isSplitTurn cutPoint then the (ct_turnStartIndex cutPoint) else firstKept);
                   messagesToSummarize = messagesBetween getTime entries boundaryStart historyEnd;
                   turnPrefixMessages =
                     (if ct_isSplitTurn cutPoint
                      then messagesBetween getTime entries (the (ct_turnStartIndex cutPoint)) firstKept else []);
                   retainedTail = messagesBetween getTime entries firstKept boundaryEnd;
                   fileOps = extractFileOperations messagesToSummarize entries prevCompactionIndex
               in Inr (Some
                    \<lparr>pr_firstKeptEntryId = en_id (entries ! firstKept),
                     pr_messagesToSummarize = messagesToSummarize,
                     pr_turnPrefixMessages = turnPrefixMessages,
                     pr_retainedTail = retainedTail,
                     pr_isSplitTurn = ct_isSplitTurn cutPoint,
                     pr_tokensBefore = tokensBefore,
                     pr_previousSummary = previousSummary,
                     pr_fileOps = (if ct_isSplitTurn cutPoint
                       then fold extractFileOpsFromMessage turnPrefixMessages fileOps else fileOps),
                     pr_settings = settings\<rparr>))))"

section \<open>Prompts\<close>

definition SUMMARIZATION_SYSTEM_PROMPT :: jstr where
  \<open>SUMMARIZATION_SYSTEM_PROMPT = joinWith NL
    [js ''You are a context summarization assistant. Your task is to read a conversation between a user and an AI assistant, then produce a structured summary following the exact format specified.'',
     js '''',
     js ''Do NOT continue the conversation. Do NOT respond to any questions in the conversation. ONLY output the structured summary.'']\<close>

definition SUMMARIZATION_PROMPT :: jstr where
  \<open>SUMMARIZATION_PROMPT = joinWith NL
    [js ''The messages above are a conversation to summarize. Create a structured context checkpoint summary that another LLM will use to continue the work.'',
     js '''',
     js ''Use this EXACT format:'',
     js '''',
     js ''## Goal'',
     js ''[What is the user trying to accomplish? Can be multiple items if the session covers different tasks.]'',
     js '''',
     js ''## Constraints & Preferences'',
     js ''- [Any constraints, preferences, or requirements mentioned by user]'',
     js ''- [Or "(none)" if none were mentioned]'',
     js '''',
     js ''## Progress'',
     js ''### Done'',
     js ''- [x] [Completed tasks/changes]'',
     js '''',
     js ''### In Progress'',
     js ''- [ ] [Current work]'',
     js '''',
     js ''### Blocked'',
     js ''- [Issues preventing progress, if any]'',
     js '''',
     js ''## Key Decisions'',
     js ''- **[Decision]**: [Brief rationale]'',
     js '''',
     js ''## Next Steps'',
     js ''1. [Ordered list of what should happen next]'',
     js '''',
     js ''## Critical Context'',
     js ''- [Any data, examples, or references needed to continue]'',
     js ''- [Or "(none)" if not applicable]'',
     js '''',
     js ''Keep each section concise. Preserve exact file paths, function names, and error messages.'']\<close>

definition UPDATE_SUMMARIZATION_PROMPT :: jstr where
  \<open>UPDATE_SUMMARIZATION_PROMPT = joinWith NL
    [js ''The messages above are NEW conversation messages to incorporate into the existing summary provided in <previous-summary> tags.'',
     js '''',
     js ''Update the existing structured summary with new information. RULES:'',
     js ''- PRESERVE all existing information from the previous summary'',
     js ''- ADD new progress, decisions, and context from the new messages'',
     js ''- UPDATE the Progress section: move items from "In Progress" to "Done" when completed'',
     js ''- UPDATE "Next Steps" based on what was accomplished'',
     js ''- PRESERVE exact file paths, function names, and error messages'',
     js ''- If something is no longer relevant, you may remove it'',
     js '''',
     js ''Use this EXACT format:'',
     js '''',
     js ''## Goal'',
     js ''[Preserve existing goals, add new ones if the task expanded]'',
     js '''',
     js ''## Constraints & Preferences'',
     js ''- [Preserve existing, add new ones discovered]'',
     js '''',
     js ''## Progress'',
     js ''### Done'',
     js ''- [x] [Include previously done items AND newly completed items]'',
     js '''',
     js ''### In Progress'',
     js ''- [ ] [Current work - update based on progress]'',
     js '''',
     js ''### Blocked'',
     js ''- [Current blockers - remove if resolved]'',
     js '''',
     js ''## Key Decisions'',
     js ''- **[Decision]**: [Brief rationale] (preserve all previous, add new)'',
     js '''',
     js ''## Next Steps'',
     js ''1. [Update based on current state]'',
     js '''',
     js ''## Critical Context'',
     js ''- [Preserve important context, add new if needed]'',
     js '''',
     js ''Keep each section concise. Preserve exact file paths, function names, and error messages.'']\<close>

definition TURN_PREFIX_SUMMARIZATION_PROMPT :: jstr where
  \<open>TURN_PREFIX_SUMMARIZATION_PROMPT = joinWith NL
    [js ''This is the PREFIX of a turn that was too large to keep. The SUFFIX (recent work) is retained.'',
     js '''',
     js ''Summarize the prefix to provide context for the retained suffix:'',
     js '''',
     js ''## Original Request'',
     js ''[What did the user ask for in this turn?]'',
     js '''',
     js ''## Early Progress'',
     js ''- [Key decisions and work done in the prefix]'',
     js '''',
     js ''## Context for Suffix'',
     js ''- [Information needed to understand the retained recent work]'',
     js '''',
     js ''Be concise. Focus on what's needed to understand the kept suffix.'']\<close>

section \<open>Summaries\<close>

record summary_options =
  so_maxTokens :: int
  so_reasoning :: "thinking_level option"

text \<open>
  What a summarisation gets from outside: the call of the model, the retry loop's ports
  and the clock.
\<close>

record ('w, 'e) summary_env =
  sv_complete :: "model \<Rightarrow> llm_context \<Rightarrow> summary_options \<Rightarrow> 'w \<Rightarrow> ('e + assistant_message) \<times> 'w"
  sv_retryPorts :: "('w, 'e) retry_ports"
  sv_retry :: "retry_policy option"
  sv_now :: "'w \<Rightarrow> int"

definition completeSimpleWithRetries ::
  "('w, 'e) summary_env \<Rightarrow> model \<Rightarrow> llm_context \<Rightarrow> summary_options \<Rightarrow> 'w retry_run \<Rightarrow>
   ('e + assistant_message) \<times> 'w retry_run" where
  "completeSimpleWithRetries V m context options r =
     retryAssistantCall (sv_retryPorts V) (sv_complete V m context options) (sv_retry V) r"

text \<open>
  \<open>Math.floor(0.8 * n)\<close> is \<open>4 * n div 5\<close> for the sizes of a context: the double next to 0.8
  is slightly larger, and the error of the product stays below 1/5.
\<close>

definition maxTokensFor :: "int \<Rightarrow> model \<Rightarrow> int" where
  "maxTokensFor share m = (if md_maxTokens m > 0 then min share (md_maxTokens m) else share)"

definition summaryOptions :: "int \<Rightarrow> model \<Rightarrow> thinking_level option \<Rightarrow> summary_options" where
  "summaryOptions maxTokens m thinkingLevel =
     \<lparr>so_maxTokens = maxTokens,
      so_reasoning = (if md_reasoning m \<and> thinkingLevel \<noteq> Some TL_off then thinkingLevel else None)\<rparr>"

definition orMessage :: "jstr option \<Rightarrow> jstr \<Rightarrow> jstr" where
  "orMessage m d = (if truthyStr m then the m else d)"

text \<open>The request that both kinds of summary make, and what they make of the response.\<close>

definition requestSummary ::
  "('w, 'e) summary_env \<Rightarrow> model \<Rightarrow> int \<Rightarrow> thinking_level option \<Rightarrow> jstr \<Rightarrow> jstr \<Rightarrow> jstr \<Rightarrow> 'w retry_run \<Rightarrow>
   ('e + (compaction_error + jstr \<times> usage)) \<times> 'w retry_run" where
  "requestSummary V m maxTokens thinkingLevel promptText abortedText failedText r =
     (let context = \<lparr>lc_systemPrompt = Some SUMMARIZATION_SYSTEM_PROMPT,
            lc_messages = [mk_user [text_block promptText] (sv_now V (rr_world r))], lc_tools = None\<rparr>
      in case completeSimpleWithRetries V m context (summaryOptions maxTokens m thinkingLevel) r of
           (Inl e, r') \<Rightarrow> (Inl e, r')
         | (Inr response, r') \<Rightarrow>
             (if am_stopReason response = SR_aborted
              then (Inr (Inl (compactionError CE_aborted (orMessage (am_errorMessage response) abortedText))), r')
              else if am_stopReason response = SR_error
              then (Inr (Inl (compactionError CE_summarization_failed
                      (failedText @ orMessage (am_errorMessage response) unknownError))), r')
              else (Inr (Inr (contentText_assistant NL (am_content response), am_usage response)), r')))"

definition conversationPrompt :: "agent_message list \<Rightarrow> jstr" where
  "conversationPrompt messages =
     js ''<conversation>'' @ NL @ serializeConversation (convertToLlm messages) @ NL @ js ''</conversation>'' @ NL @ NL"

definition summaryPrompt :: "agent_message list \<Rightarrow> jstr option \<Rightarrow> jstr option \<Rightarrow> jstr" where
  "summaryPrompt messages customInstructions previousSummary =
     (let base = (if truthyStr previousSummary then UPDATE_SUMMARIZATION_PROMPT else SUMMARIZATION_PROMPT);
          base' = (if truthyStr customInstructions
                   then base @ NL @ NL @ js ''Additional focus: '' @ the customInstructions else base)
      in conversationPrompt messages @
         (if truthyStr previousSummary
          then js ''<previous-summary>'' @ NL @ the previousSummary @ NL @ js ''</previous-summary>'' @ NL @ NL
          else []) @ base')"

definition generateSummaryWithUsage ::
  "('w, 'e) summary_env \<Rightarrow> agent_message list \<Rightarrow> model \<Rightarrow> int \<Rightarrow> jstr option \<Rightarrow> jstr option \<Rightarrow>
   thinking_level option \<Rightarrow> 'w retry_run \<Rightarrow> ('e + (compaction_error + jstr \<times> usage)) \<times> 'w retry_run" where
  "generateSummaryWithUsage V messages m reserveTokens customInstructions previousSummary thinkingLevel r =
     requestSummary V m (maxTokensFor (4 * reserveTokens div 5) m) thinkingLevel
       (summaryPrompt messages customInstructions previousSummary)
       (js ''Summarization aborted'') (js ''Summarization failed: '') r"

definition generateSummary ::
  "('w, 'e) summary_env \<Rightarrow> agent_message list \<Rightarrow> model \<Rightarrow> int \<Rightarrow> jstr option \<Rightarrow> jstr option \<Rightarrow>
   thinking_level option \<Rightarrow> 'w retry_run \<Rightarrow> ('e + (compaction_error + jstr)) \<times> 'w retry_run" where
  "generateSummary V messages m reserveTokens customInstructions previousSummary thinkingLevel r =
     apfst (map_sum id (map_sum id fst))
       (generateSummaryWithUsage V messages m reserveTokens customInstructions previousSummary thinkingLevel r)"

definition generateTurnPrefixSummary ::
  "('w, 'e) summary_env \<Rightarrow> agent_message list \<Rightarrow> model \<Rightarrow> int \<Rightarrow> thinking_level option \<Rightarrow> 'w retry_run \<Rightarrow>
   ('e + (compaction_error + jstr \<times> usage)) \<times> 'w retry_run" where
  "generateTurnPrefixSummary V messages m reserveTokens thinkingLevel r =
     requestSummary V m (maxTokensFor (reserveTokens div 2) m) thinkingLevel
       (conversationPrompt messages @ TURN_PREFIX_SUMMARIZATION_PROMPT)
       (js ''Turn prefix summarization aborted'') (js ''Turn prefix summarization failed: '') r"

section \<open>Compaction\<close>

record compaction_result =
  cr_summary :: jstr
  cr_firstKeptEntryId :: "jstr option"
  cr_tokensBefore :: int
  cr_usage :: "usage option"
  cr_retainedTail :: "agent_message list option"
  cr_details :: "json option"

definition fileDetails :: "jstr list \<Rightarrow> jstr list \<Rightarrow> json" where
  "fileDetails readFiles modifiedFiles =
     JObj [(js ''readFiles'', JArr (map JStr readFiles)), (js ''modifiedFiles'', JArr (map JStr modifiedFiles))]"

definition noHistoryText :: jstr where
  "noHistoryText = js ''No prior history.''"

definition splitSummary :: "jstr \<Rightarrow> jstr \<Rightarrow> jstr" where
  "splitSummary historyText prefixText =
     historyText @ NL @ NL @ js ''---'' @ NL @ NL @ js ''**Turn Context (split turn):**'' @ NL @ NL @ prefixText"

text \<open>The summary of a history and of the prefix of the turn that the cut splits.\<close>

definition summarizeParts ::
  "('w, 'e) summary_env \<Rightarrow> compaction_preparation \<Rightarrow> model \<Rightarrow> jstr option \<Rightarrow> thinking_level option \<Rightarrow> 'w retry_run \<Rightarrow>
   ('e + (compaction_error + jstr \<times> usage)) \<times> 'w retry_run" where
  "summarizeParts V p m customInstructions thinkingLevel r =
     (let reserve = cp_reserveTokens (pr_settings p);
          prefix = (\<lambda>historyText historyUsage r1.
            case generateTurnPrefixSummary V (pr_turnPrefixMessages p) m reserve thinkingLevel r1 of
              (Inr (Inr (prefixText, u)), r2) \<Rightarrow>
                (Inr (Inr (splitSummary historyText prefixText,
                           case historyUsage of Some h \<Rightarrow> combineUsage h u | None \<Rightarrow> u)), r2)
            | failed \<Rightarrow> failed)
      in if pr_isSplitTurn p \<and> pr_turnPrefixMessages p \<noteq> []
         then (if pr_messagesToSummarize p = [] then prefix noHistoryText None r
               else (case generateSummaryWithUsage V (pr_messagesToSummarize p) m reserve customInstructions
                       (pr_previousSummary p) thinkingLevel r of
                       (Inr (Inr (historyText, h)), r1) \<Rightarrow> prefix historyText (Some h) r1
                     | failed \<Rightarrow> failed))
         else generateSummaryWithUsage V (pr_messagesToSummarize p) m reserve customInstructions
                (pr_previousSummary p) thinkingLevel r)"

definition compactResult :: "compaction_preparation \<Rightarrow> jstr \<Rightarrow> usage \<Rightarrow> compaction_result" where
  "compactResult p summary u =
     (case computeFileLists (pr_fileOps p) of
        (readFiles, modifiedFiles) \<Rightarrow>
          \<lparr>cr_summary = summary @ formatFileOperations readFiles modifiedFiles,
           cr_firstKeptEntryId = Some (pr_firstKeptEntryId p),
           cr_tokensBefore = pr_tokensBefore p,
           cr_usage = Some u,
           cr_retainedTail = Some (pr_retainedTail p),
           cr_details = Some (fileDetails readFiles modifiedFiles)\<rparr>)"

definition compact ::
  "('w, 'e) summary_env \<Rightarrow> compaction_preparation \<Rightarrow> model \<Rightarrow> jstr option \<Rightarrow> thinking_level option \<Rightarrow> 'w retry_run \<Rightarrow>
   ('e + (compaction_error + compaction_result)) \<times> 'w retry_run" where
  "compact V p m customInstructions thinkingLevel r =
     (if pr_firstKeptEntryId p = [] then (Inr (Inl noUuid), r)
      else (case summarizeParts V p m customInstructions thinkingLevel r of
              (Inl e, r') \<Rightarrow> (Inl e, r')
            | (Inr (Inl e), r') \<Rightarrow> (Inr (Inl e), r')
            | (Inr (Inr (summary, u)), r') \<Rightarrow> (Inr (Inr (compactResult p summary u)), r')))"

text \<open>The entry that the harness appends for a result, \<open>compact\<close> of agent-harness.ts.\<close>

definition compactionDataOf :: "compaction_result \<Rightarrow> bool \<Rightarrow> compaction_data" where
  "compactionDataOf res fromHook =
     \<lparr>cd_summary = cr_summary res, cd_firstKeptEntryId = cr_firstKeptEntryId res,
      cd_tokensBefore = cr_tokensBefore res, cd_retainedTail = cr_retainedTail res,
      cd_details = cr_details res, cd_usage = cr_usage res, cd_fromHook = Some fromHook\<rparr>"

end
