(* ===== verification/CompactionFacts.thy ===== *)
theory CompactionFacts
  imports Compaction
begin

text \<open>Facts on the cut point, the budget loop and the split of a branch into its parts.\<close>

lemma upt_split: "i \<le> k \<Longrightarrow> k \<le> j \<Longrightarrow> [i..<j] = [i..<k] @ [k..<j]"
  by (metis le_iff_add upt_add_eq_append)

section \<open>The cut point\<close>

lemma cutPoints_set: "set (findValidCutPoints es s e) = {i. s \<le> i \<and> i < e \<and> isCutPoint (en_body (es ! i))}"
  by (auto simp: findValidCutPoints_def)

lemma cutPoints_sorted: "sorted (findValidCutPoints es s e)"
  by (simp add: findValidCutPoints_def sorted_wrt_filter)

lemma chooseCut_in:
  assumes "findValidCutPoints es s e \<noteq> []"
  shows "chooseCut es s e keep \<in> set (findValidCutPoints es s e)"
  using assms
  by (auto simp: chooseCut_def Let_def orDefault_def split: option.split dest: find_Some_set)

lemma moveCutBack_range: "s \<le> n \<Longrightarrow> s \<le> moveCutBack es s n \<and> moveCutBack es s n \<le> n"
  by (induction n) (auto simp: le_Suc_eq)

lemma moveCutBack_skips:
  "moveCutBack es s n \<le> j \<Longrightarrow> j < n \<Longrightarrow> \<not> isMessageOrCompaction (en_body (es ! j))"
  by (induction n) (auto simp: less_Suc_eq split: if_splits)

lemma turnStart_Some:
  assumes "findTurnStartIndex es i s = Some t"
  shows "s \<le> t \<and> t \<le> i \<and> startsTurn (en_body (es ! t))"
  using find_Some_set [OF assms [unfolded findTurnStartIndex_def]] by auto

text \<open>What the chosen cut satisfies when there is a cut point.\<close>

lemma findCutPoint_cut:
  assumes "findValidCutPoints es s e \<noteq> []" and "findCutPoint es s e keep = c"
  shows "s \<le> ct_firstKeptEntryIndex c" "ct_firstKeptEntryIndex c \<le> chooseCut es s e keep"
    "chooseCut es s e keep < e" "isCutPoint (en_body (es ! chooseCut es s e keep))"
    "\<And>j. ct_firstKeptEntryIndex c \<le> j \<Longrightarrow> j < chooseCut es s e keep \<Longrightarrow> \<not> isMessageOrCompaction (en_body (es ! j))"
proof -
  let ?n = "chooseCut es s e keep"
  have k: "ct_firstKeptEntryIndex c = moveCutBack es s ?n"
    using assms by (auto simp: findCutPoint_def Let_def)
  have n: "s \<le> ?n" "?n < e" "isCutPoint (en_body (es ! ?n))"
    using chooseCut_in [OF assms(1)] by (auto simp: cutPoints_set)
  show "s \<le> ct_firstKeptEntryIndex c" "ct_firstKeptEntryIndex c \<le> ?n" "?n < e" "isCutPoint (en_body (es ! ?n))"
    using moveCutBack_range [OF n(1)] n k by simp_all
  show "\<not> isMessageOrCompaction (en_body (es ! j))" if "ct_firstKeptEntryIndex c \<le> j" "j < ?n" for j
    using moveCutBack_skips that k by simp
qed

lemma findCutPoint_turn:
  assumes "findCutPoint es s e keep = c" and "ct_isSplitTurn c"
  obtains t where "ct_turnStartIndex c = Some t" "s \<le> t" "t \<le> ct_firstKeptEntryIndex c"
    "startsTurn (en_body (es ! t))"
proof -
  from assms obtain t where t: "ct_turnStartIndex c = Some t"
    and f: "findTurnStartIndex es (ct_firstKeptEntryIndex c) s = Some t"
    by (auto simp: findCutPoint_def Let_def split: if_splits)
  from turnStart_Some [OF f] t that show ?thesis by blast
qed

lemma findCutPoint_bounds:
  assumes "findCutPoint es s e keep = c" and "s \<le> e"
  shows "s \<le> ct_firstKeptEntryIndex c" "ct_firstKeptEntryIndex c \<le> e"
proof -
  show "s \<le> ct_firstKeptEntryIndex c"
    using findCutPoint_cut(1) [OF _ assms(1)] assms(1)
    by (cases "findValidCutPoints es s e = []") (auto simp: findCutPoint_def)
  show "ct_firstKeptEntryIndex c \<le> e"
    using findCutPoint_cut(2,3) [OF _ assms(1)] assms
    by (cases "findValidCutPoints es s e = []") (auto simp: findCutPoint_def)
qed

section \<open>The budget\<close>

definition entryTokens :: "entry \<Rightarrow> int" where
  "entryTokens e = (case en_body e of E_message m \<Rightarrow> estimateTokens m | _ \<Rightarrow> 0)"

text \<open>The tokens of the messages with an index from \<open>i\<close> below \<open>j\<close>.\<close>

definition tokensBetween :: "entry list \<Rightarrow> nat \<Rightarrow> nat \<Rightarrow> int" where
  "tokensBetween es i j = sum_list (map (\<lambda>k. entryTokens (es ! k)) [i..<j])"

lemma estimateTokens_nonneg: "0 \<le> estimateTokens m"
  by (cases m rule: estimateTokens.cases) (simp_all add: ceilQuarter_def)

lemma entryTokens_nonneg: "0 \<le> entryTokens e"
  by (simp add: entryTokens_def estimateTokens_nonneg split: entry_body.split)

lemma tokensBetween_nonneg: "0 \<le> tokensBetween es i j"
  by (auto simp: tokensBetween_def intro!: sum_list_nonneg entryTokens_nonneg)

lemma tokensBetween_split: "i \<le> k \<Longrightarrow> k \<le> j \<Longrightarrow> tokensBetween es i j = tokensBetween es i k + tokensBetween es k j"
  by (simp add: tokensBetween_def upt_split [of i k j])

lemma tokensBetween_mono: "i \<le> k \<Longrightarrow> tokensBetween es k j \<le> tokensBetween es i j"
  using tokensBetween_split [of i k j es] tokensBetween_nonneg [of es i k] tokensBetween_nonneg [of es i j]
  by (cases "k \<le> j") (simp_all add: tokensBetween_def [of es k])

lemma tokensBetween_Suc: "i < j \<Longrightarrow> tokensBetween es i j = entryTokens (es ! i) + tokensBetween es (Suc i) j"
  by (simp add: tokensBetween_def upt_conv_Cons)

lemma tokensBetween_zero:
  "(\<And>k. i \<le> k \<Longrightarrow> k < j \<Longrightarrow> \<not> isMessageOrCompaction (en_body (es ! k))) \<Longrightarrow> tokensBetween es i j = 0"
proof -
  assume none: "\<And>k. i \<le> k \<Longrightarrow> k < j \<Longrightarrow> \<not> isMessageOrCompaction (en_body (es ! k))"
  have "entryTokens (es ! k) = 0" if "i \<le> k" "k < j" for k
    using none [OF that] by (cases "en_body (es ! k)") (simp_all add: entryTokens_def)
  then have "map (\<lambda>k. entryTokens (es ! k)) [i..<j] = map (\<lambda>k. 0) [i..<j]" by auto
  then show ?thesis by (simp only: tokensBetween_def sum_list_triv mult_zero_right)
qed

lemma budgetIndex_Some:
  "budgetIndex es s keep n acc = Some i \<Longrightarrow>
   s \<le> i \<and> i < n \<and> keep \<le> acc + tokensBetween es i n \<and> (\<exists>m. en_body (es ! i) = E_message m) \<and>
   (acc < keep \<longrightarrow> acc + tokensBetween es (Suc i) n < keep)"
proof (induction n arbitrary: acc)
  case (Suc n)
  have snoc: "j \<le> n \<Longrightarrow> tokensBetween es j (Suc n) = tokensBetween es j n + entryTokens (es ! n)" for j
    by (simp add: tokensBetween_def)
  have nil: "tokensBetween es n n = 0" by (simp add: tokensBetween_def)
  show ?case
  proof (cases "\<exists>m. en_body (es ! n) = E_message m")
    case True
    then obtain m where m: "en_body (es ! n) = E_message m" by blast
    then have tok: "entryTokens (es ! n) = estimateTokens m" by (simp add: entryTokens_def)
    show ?thesis
    proof (cases "keep \<le> acc + estimateTokens m")
      case True
      with Suc.prems m show ?thesis using snoc [of n] nil tok
        by (auto split: if_splits) (simp add: tokensBetween_def)
    next
      case False
      with Suc.prems m have "budgetIndex es s keep n (acc + estimateTokens m) = Some i" by (auto split: if_splits)
      from Suc.IH [OF this] False tok snoc [of i] snoc [of "Suc i"] show ?thesis by auto
    qed
  next
    case False
    then have "entryTokens (es ! n) = 0" by (auto simp: entryTokens_def split: entry_body.split)
    moreover have "budgetIndex es s keep n acc = Some i"
      using Suc.prems False by (auto split: if_splits entry_body.splits)
    ultimately show ?thesis using Suc.IH [of acc] snoc [of i] snoc [of "Suc i"] by auto
  qed
qed simp

lemma budgetIndex_None:
  "budgetIndex es s keep n acc = None \<Longrightarrow> acc < keep \<Longrightarrow> s \<le> n \<Longrightarrow> acc + tokensBetween es s n < keep"
proof (induction n arbitrary: acc)
  case 0
  then show ?case by (simp add: tokensBetween_def)
next
  case (Suc n)
  show ?case
  proof (cases "n < s")
    case True
    with Suc.prems show ?thesis by (simp add: tokensBetween_def)
  next
    case False
    then have snoc: "tokensBetween es s (Suc n) = tokensBetween es s n + entryTokens (es ! n)"
      by (simp add: tokensBetween_def)
    have "budgetIndex es s keep n (acc + entryTokens (es ! n)) = None \<and> acc + entryTokens (es ! n) < keep"
      using Suc.prems False by (auto simp: entryTokens_def split: if_splits entry_body.splits)
    with Suc.IH [of "acc + entryTokens (es ! n)"] False snoc show ?thesis by simp
  qed
qed

section \<open>The messages of a branch\<close>

lemma map_filter_append: "List.map_filter f (xs @ ys) = List.map_filter f xs @ List.map_filter f ys"
  by (simp add: List.map_filter_def)

lemma messagesBetween_split:
  "i \<le> j \<Longrightarrow> j \<le> k \<Longrightarrow> messagesBetween g es i k = messagesBetween g es i j @ messagesBetween g es j k"
  by (simp add: messagesBetween_def upt_split [of i j k] map_filter_append)

lemma messagesBetween_Nil [simp]: "j \<le> i \<Longrightarrow> messagesBetween g es i j = []"
  by (simp add: messagesBetween_def List.map_filter_def)

lemma messagesBetween_Cons:
  "i < j \<Longrightarrow> messagesBetween g es i j =
     (case getMessageFromEntryForCompaction g (es ! i) of None \<Rightarrow> [] | Some m \<Rightarrow> [m]) @ messagesBetween g es (Suc i) j"
  by (simp add: messagesBetween_def upt_conv_Cons List.map_filter_simps split: option.split)

fun isToolResult :: "agent_message \<Rightarrow> bool" where
  "isToolResult (Msg (MToolResult _)) = True"
| "isToolResult _ = False"

text \<open>No first message, or one that is no tool result.\<close>

definition startsClean :: "agent_message list \<Rightarrow> bool" where
  "startsClean ms \<longleftrightarrow> (case ms of [] \<Rightarrow> True | m # _ \<Rightarrow> \<not> isToolResult m)"

lemma startsClean_append: "startsClean xs \<Longrightarrow> startsClean ys \<Longrightarrow> startsClean (xs @ ys)"
  by (cases xs) (simp_all add: startsClean_def)

lemma cutPoint_message:
  "isCutPoint (en_body e) \<Longrightarrow> \<exists>m. getMessageFromEntryForCompaction g e = Some m \<and> \<not> isToolResult m"
  by (cases "en_body e" rule: isCutPoint.cases)
    (auto simp: getMessageFromEntryForCompaction_def getMessageFromEntry_def)

lemma startsTurn_cutPoint: "startsTurn b \<Longrightarrow> isCutPoint b"
  by (cases b rule: startsTurn.cases) auto

lemma startsClean_at_cut:
  assumes "isCutPoint (en_body (es ! i))"
  shows "startsClean (messagesBetween g es i j)"
proof (cases "i < j")
  case True
  from cutPoint_message [OF assms] obtain m where "getMessageFromEntryForCompaction g (es ! i) = Some m" "\<not> isToolResult m"
    by blast
  then show ?thesis by (simp add: messagesBetween_Cons [OF True] startsClean_def)
qed (simp add: startsClean_def)

lemma other_message_clean:
  "\<not> isMessageOrCompaction (en_body e) \<Longrightarrow> getMessageFromEntryForCompaction g e = Some m \<Longrightarrow> \<not> isToolResult m"
  by (cases "en_body e") (auto simp: getMessageFromEntryForCompaction_def getMessageFromEntry_def)

lemma startsClean_before_cut:
  assumes "i \<le> n" and "n \<le> j" and cut: "isCutPoint (en_body (es ! n))"
    and other: "\<And>k. i \<le> k \<Longrightarrow> k < n \<Longrightarrow> \<not> isMessageOrCompaction (en_body (es ! k))"
  shows "startsClean (messagesBetween g es i j)"
proof -
  have "startsClean (messagesBetween g es i n)"
  proof (cases "messagesBetween g es i n")
    case (Cons m ms)
    then have "m \<in> set (messagesBetween g es i n)" by simp
    then obtain k where "i \<le> k" "k < n" "getMessageFromEntryForCompaction g (es ! k) = Some m"
      by (auto simp: messagesBetween_def List.map_filter_def)
    with other other_message_clean Cons show ?thesis by (auto simp: startsClean_def)
  qed (simp add: startsClean_def)
  with startsClean_at_cut [OF cut] assms(1,2) show ?thesis
    by (simp add: messagesBetween_split [of i n j] startsClean_append)
qed

section \<open>The preparation\<close>

lemma lastCompaction_Some:
  assumes "lastCompactionIndex es = Some i"
  shows "i < length es \<and> isCompaction (en_body (es ! i))"
  using find_Some_set [OF assms [unfolded lastCompactionIndex_def]] by auto

lemma boundary_less:
  assumes "es \<noteq> []" and "\<not> isCompaction (en_body (last es))"
  shows "boundaryStartOf es < length es"
proof (cases "lastCompactionIndex es")
  case (Some i)
  have "i \<noteq> length es - 1" using lastCompaction_Some [OF Some] assms by (auto simp: last_conv_nth)
  then have "Suc i < length es" using lastCompaction_Some [OF Some] by linarith
  with Some findIndex_Some show ?thesis
    by (auto simp: boundaryStartOf_def Let_def orDefault_def split: option.split)
qed (use assms in \<open>simp add: boundaryStartOf_def\<close>)

text \<open>The values of a successful preparation, with \<open>c\<close> its cut point.\<close>

lemma prepareCompaction_SomeD:
  assumes "prepareCompaction g es settings = Inr (Some p)"
    and "c = findCutPoint es (boundaryStartOf es) (length es) (cp_keepRecentTokens settings)"
  shows "es \<noteq> []" "\<not> isCompaction (en_body (last es))"
    "ct_firstKeptEntryIndex c < length es"
    "pr_firstKeptEntryId p = en_id (es ! ct_firstKeptEntryIndex c)" "pr_firstKeptEntryId p \<noteq> []"
    "pr_messagesToSummarize p = messagesBetween g es (boundaryStartOf es)
       (if ct_isSplitTurn c then the (ct_turnStartIndex c) else ct_firstKeptEntryIndex c)"
    "pr_turnPrefixMessages p = (if ct_isSplitTurn c
       then messagesBetween g es (the (ct_turnStartIndex c)) (ct_firstKeptEntryIndex c) else [])"
    "pr_retainedTail p = messagesBetween g es (ct_firstKeptEntryIndex c) (length es)"
    "pr_isSplitTurn p = ct_isSplitTurn c"
    "pr_previousSummary p = (case lastCompactionIndex es of None \<Rightarrow> None | Some i \<Rightarrow> map_option cd_summary (compactionOf (es ! i)))"
    "pr_fileOps p = fold extractFileOpsFromMessage (pr_turnPrefixMessages p)
       (extractFileOperations (pr_messagesToSummarize p) es (lastCompactionIndex es))"
    "pr_settings p = settings"
  using assms by (auto simp: prepareCompaction_def Let_def split: if_splits)

end
