(* ===== verification/CompactionProps.thy ===== *)
theory CompactionProps
  imports CompactionFacts SessionProps Retry Samples
begin

text \<open>The properties of compaction, and what it does to the session it is applied to.\<close>

section \<open>Samples\<close>

text \<open>A branch of three turns' worth of entries: a question, an answer with a call, its result, an answer.\<close>

definition sampleToolResult :: "string \<Rightarrow> agent_message" where
  "sampleToolResult s = Msg (MToolResult \<lparr>tr_toolCallId = js ''c'', tr_toolName = js ''read'',
     tr_content = [text_block (js s)], tr_details = None, tr_usage = None, tr_addedToolNames = None,
     tr_isError = False, tr_timestamp = 0\<rparr>)"

definition sampleAnswer :: "string \<Rightarrow> agent_message" where
  "sampleAnswer s = Msg (MAssistant (sampleAssistant [sampleText s] SR_stop))"

definition sampleBranch :: "entry list" where
  "sampleBranch =
     [plainEntry ''a1'' None (E_message sampleUser),
      plainEntry ''a2'' (Some ''a1'') (E_message (sampleAnswer ''looking'')),
      plainEntry ''a3'' (Some ''a2'') (E_message (sampleToolResult ''found it'')),
      plainEntry ''a4'' (Some ''a3'') (E_message (sampleAnswer ''done''))]"

definition sampleSettings :: "int \<Rightarrow> compaction_settings" where
  "sampleSettings keep = \<lparr>cp_enabled = True, cp_reserveTokens = 100, cp_keepRecentTokens = keep\<rparr>"

definition samplePreparation :: compaction_preparation where
  "samplePreparation = (case prepareCompaction (\<lambda>_. 0) sampleBranch (sampleSettings 1) of Inr (Some p) \<Rightarrow> p)"

lemma samplePreparation_eq:
  "prepareCompaction (\<lambda>_. 0) sampleBranch (sampleSettings 1) = Inr (Some samplePreparation)"
proof -
  have "case prepareCompaction (\<lambda>_. 0) sampleBranch (sampleSettings 1) of Inr (Some p) \<Rightarrow> True | _ \<Rightarrow> False"
    by code_simp
  then show ?thesis by (auto simp: samplePreparation_def split: sum.splits option.splits)
qed

lemma prepared_spec:
  assumes "prepareCompaction g path settings = Inr (Some p)"
  obtains c where "c = findCutPoint path (boundaryStartOf path) (length path) (cp_keepRecentTokens settings)"
    "boundaryStartOf path \<le> ct_firstKeptEntryIndex c" "ct_firstKeptEntryIndex c < length path"
    "boundaryStartOf path < length path"
proof -
  define c where "c = findCutPoint path (boundaryStartOf path) (length path) (cp_keepRecentTokens settings)"
  note prep = prepareCompaction_SomeD [OF assms c_def]
  have less: "boundaryStartOf path < length path" by (rule boundary_less [OF prep(1,2)])
  have "boundaryStartOf path \<le> ct_firstKeptEntryIndex c"
    using findCutPoint_bounds(1) [OF c_def [symmetric]] less by simp
  from that [OF c_def this prep(3) less] show thesis .
qed

lemma parts_cover:
  assumes "prepareCompaction getTime path settings = Inr (Some p)"
  shows "pr_messagesToSummarize p @ pr_turnPrefixMessages p @ pr_retainedTail p =
    messagesBetween getTime path (boundaryStartOf path) (length path)"
proof -
  from prepared_spec [OF assms] obtain c where
    c: "c = findCutPoint path (boundaryStartOf path) (length path) (cp_keepRecentTokens settings)"
    and kept: "boundaryStartOf path \<le> ct_firstKeptEntryIndex c" "ct_firstKeptEntryIndex c < length path" by blast
  note prep = prepareCompaction_SomeD [OF assms c]
  have tail: "messagesBetween getTime path (boundaryStartOf path) (length path) =
      messagesBetween getTime path (boundaryStartOf path) (ct_firstKeptEntryIndex c) @ pr_retainedTail p"
    unfolding prep(8) by (rule messagesBetween_split) (use kept in auto)
  show ?thesis
  proof (cases "ct_isSplitTurn c")
    case True
    from findCutPoint_turn [OF c [symmetric] True] obtain t where "ct_turnStartIndex c = Some t"
      "boundaryStartOf path \<le> t" "t \<le> ct_firstKeptEntryIndex c" by blast
    moreover from this have "messagesBetween getTime path (boundaryStartOf path) (ct_firstKeptEntryIndex c) =
        messagesBetween getTime path (boundaryStartOf path) t @ messagesBetween getTime path t (ct_firstKeptEntryIndex c)"
      by (intro messagesBetween_split)
    ultimately show ?thesis using True prep(6,7) tail by simp
  next
    case False
    with prep(6,7) tail show ?thesis by simp
  qed
qed

section \<open>Properties\<close>



text \<open>The cut never separates a tool result from the call before it: when the history has a
  valid cut point, neither the retained tail nor the prefix of a split turn starts with a
  tool result.\<close>

theorem cut_keeps_results_with_calls:
  assumes "prepareCompaction getTime path settings = Inr (Some p)"
    and "findValidCutPoints path (boundaryStartOf path) (length path) \<noteq> []"
  shows "startsClean (pr_retainedTail p) \<and> startsClean (pr_turnPrefixMessages p)"
proof -
  from prepared_spec [OF assms(1)] obtain c where
    c: "c = findCutPoint path (boundaryStartOf path) (length path) (cp_keepRecentTokens settings)" by blast
  note prep = prepareCompaction_SomeD [OF assms(1) c]
  note cut = findCutPoint_cut [OF assms(2) c [symmetric]]
  have "startsClean (pr_retainedTail p)"
    unfolding prep(8) by (rule startsClean_before_cut [OF cut(2) _ cut(4,5)]) (use cut(3) in auto)
  moreover have "startsClean (pr_turnPrefixMessages p)"
  proof (cases "ct_isSplitTurn c")
    case True
    from findCutPoint_turn [OF c [symmetric] True] obtain t where "ct_turnStartIndex c = Some t"
      "startsTurn (en_body (path ! t))" by blast
    with True prep(7) startsClean_at_cut startsTurn_cutPoint show ?thesis by simp
  qed (use prep(7) in \<open>simp add: startsClean_def\<close>)
  ultimately show ?thesis by simp
qed

theorem cut_keeps_results_with_calls_witness:
  "startsClean (pr_retainedTail samplePreparation) \<and> pr_retainedTail samplePreparation \<noteq> []"
proof -
  have "findValidCutPoints sampleBranch (boundaryStartOf sampleBranch) (length sampleBranch) \<noteq> []" by code_simp
  from cut_keeps_results_with_calls [OF samplePreparation_eq this] have "startsClean (pr_retainedTail samplePreparation)" by simp
  moreover have "pr_retainedTail samplePreparation \<noteq> []" by code_simp
  ultimately show ?thesis by simp
qed

text \<open>The kept entries respect the budget: let the messages from entry i on be the first,
  counted from the end, that reach the number of tokens to keep. If some valid cut point is
  at i or later, the retained messages have at most the tokens from i on, which exceed
  the budget by less than one message.\<close>

theorem cut_keeps_budget:
  assumes "budgetIndex path start keep (length path) 0 = Some i" and "0 < keep"
    and "c \<in> set (findValidCutPoints path start (length path))" and "i \<le> c"
  shows "tokensBetween path (ct_firstKeptEntryIndex (findCutPoint path start (length path) keep)) (length path)
      \<le> tokensBetween path i (length path) \<and>
    tokensBetween path i (length path) < keep + entryTokens (path ! i) \<and>
    keep \<le> tokensBetween path i (length path)"
proof -
  let ?n = "chooseCut path start (length path) keep" and ?e = "length path"
  let ?k = "ct_firstKeptEntryIndex (findCutPoint path start ?e keep)"
  have ne: "findValidCutPoints path start ?e \<noteq> []" using assms(3) by auto
  note cut = findCutPoint_cut [OF ne refl, of keep]
  note b = budgetIndex_Some [OF assms(1)]
  obtain x where x: "find (\<lambda>c. i \<le> c) (findValidCutPoints path start ?e) = Some x"
    using assms(3,4) find_None_set [of "\<lambda>c. i \<le> c" "findValidCutPoints path start ?e"] by fastforce
  then have "?n = x" using assms(1) by (simp add: chooseCut_def)
  with find_Some_set [OF x] have n: "i \<le> ?n" by simp
  have zero: "tokensBetween path ?k ?n = 0" by (rule tokensBetween_zero) (use cut(5) in blast)
  have "tokensBetween path ?k ?e = tokensBetween path ?k ?n + tokensBetween path ?n ?e"
    using cut(2,3) by (intro tokensBetween_split) auto
  with zero n tokensBetween_mono [of i ?n path ?e] have "tokensBetween path ?k ?e \<le> tokensBetween path i ?e" by simp
  moreover have "tokensBetween path i ?e = entryTokens (path ! i) + tokensBetween path (Suc i) ?e"
    using b by (intro tokensBetween_Suc) simp
  ultimately show ?thesis using b assms(2) by simp
qed

theorem cut_keeps_budget_witness:
  "tokensBetween sampleBranch (ct_firstKeptEntryIndex (findCutPoint sampleBranch 0 4 2)) 4 < 2 + 2"
proof -
  have "budgetIndex sampleBranch 0 2 (length sampleBranch) 0 = Some 2"
    and "3 \<in> set (findValidCutPoints sampleBranch 0 (length sampleBranch))"
    and "entryTokens (sampleBranch ! 2) = 2" and "length sampleBranch = 4" by code_simp+
  with cut_keeps_budget [of sampleBranch 0 2 2 3] show ?thesis by simp
qed

text \<open>The file lists of a summary are sorted and without repetition; the modified files are
  exactly those edited or written, and the read files exactly those read and not modified.\<close>

theorem file_lists_correct:
  assumes "distinct (fops_read ops)" and "computeFileLists ops = (readFiles, modifiedFiles)"
  shows "sorted readFiles \<and> distinct readFiles \<and> sorted modifiedFiles \<and> distinct modifiedFiles \<and>
    set modifiedFiles = set (fops_edited ops) \<union> set (fops_written ops) \<and>
    set readFiles = set (fops_read ops) - set modifiedFiles"
  using assms by (auto simp: computeFileLists_def Let_def)

theorem file_lists_correct_witness:
  "set (fst (computeFileLists \<lparr>fops_read = [js ''b'', js ''a''], fops_written = [js ''b''], fops_edited = []\<rparr>)) = {js ''a''}"
  using file_lists_correct [of "\<lparr>fops_read = [js ''b'', js ''a''], fops_written = [js ''b''], fops_edited = []\<rparr>"]
  by (auto simp: js_def prod_eq_iff)


text \<open>A model that answers every request with the same text.\<close>

definition sampleEnv :: "(unit, jstr) summary_env" where
  "sampleEnv = \<lparr>sv_complete = (\<lambda>m c opts w. (Inr (sampleAssistant [sampleText ''summary''] SR_stop), w)),
     sv_retryPorts = quietRetryPorts, sv_retry = None, sv_now = (\<lambda>w. 0)\<rparr>"

definition sampleCompacted :: "(jstr + (compaction_error + compaction_result))" where
  "sampleCompacted = fst (compact sampleEnv samplePreparation sampleModel None None \<lparr>rr_world = (), rr_log = []\<rparr>)"

lemma sample_request:
  "requestSummary sampleEnv m k l prompt a f r =
     (Inr (Inr (js ''summary'', sampleUsage)), \<lparr>rr_world = (), rr_log = rr_log r @ [Called]\<rparr>)"
  by (simp add: requestSummary_def completeSimpleWithRetries_def retryAssistantCall_def retryLoop.simps perform_def
      sampleEnv_def finishRetry_def sampleAssistant_def sampleText_def contentText_assistant_def Let_def
      List.map_filter_def)

lemma sampleCompacted_ok: "\<exists>res. sampleCompacted = Inr (Inr res)"
proof -
  have "pr_firstKeptEntryId samplePreparation \<noteq> []"
    using prepareCompaction_SomeD(5) [OF samplePreparation_eq refl] .
  then show ?thesis
    by (simp add: sampleCompacted_def compact_def summarizeParts_def generateSummaryWithUsage_def
        generateTurnPrefixSummary_def sample_request Let_def)
qed

definition plainOptions :: context_options where
  "plainOptions = \<lparr>cx_entryTransforms = [], cx_entryProjectors = (\<lambda>_. None)\<rparr>"


text \<open>The branch of a session that was compacted before, and one answer since.\<close>

definition recompactedBranch :: "entry list" where
  "recompactedBranch =
     [plainEntry ''c1'' None (E_compaction (sampleCompaction (Some ''a1'') (Some [sampleUser]))),
      plainEntry ''c2'' (Some ''c1'') (E_message (sampleAnswer ''more''))]"

lemma lastCompactionIndex_head:
  assumes "isCompaction (en_body c)" and "\<forall>e \<in> set rest. \<not> isCompaction (en_body e)"
  shows "lastCompactionIndex (c # rest) = Some 0"
proof -
  have "[0..<length (c # rest)] = 0 # [1..<length (c # rest)]" by (subst upt_conv_Cons) simp_all
  then have "rev [0..<length (c # rest)] = rev [1..<length (c # rest)] @ [0]" by (simp only: rev.simps)
  moreover have "\<forall>i \<in> set (rev [1..<length (c # rest)]). \<not> isCompaction (en_body ((c # rest) ! i))"
    using assms(2) by (auto simp: nth_Cons split: nat.split)
  ultimately show ?thesis using assms(1) by (simp add: lastCompactionIndex_def find_skip)
qed

lemma context_of_compacted:
  assumes "isCompaction (en_body c)" and "compactionOf c = Some d" and "\<forall>e \<in> set rest. \<not> isCompaction (en_body e)"
    and "cd_retainedTail d = Some tail"
  shows "\<exists>m ms. sx_messages (buildSessionContext getTime (c # rest) \<lparr>cx_entryTransforms = [], cx_entryProjectors = (\<lambda>_. None)\<rparr>) =
    CompactionSummary m # tail @ ms"
proof -
  have "findLast (\<lambda>e. isCompaction (en_body e)) (c # rest) = Some c"
    using assms(1,3) by (simp add: findLast_def find_skip)
  then have t: "defaultContextEntryTransform (c # rest) = c # rest"
    using assms by (simp add: defaultContextEntryTransform_def)
  have "en_body c = E_compaction d" using assms(2) by (auto simp: compactionOf_def split: entry_body.splits)
  then show ?thesis
    using assms(4) by (simp add: buildSessionContext_def buildContextEntries_def t entriesToMessages_def
        sessionEntryToContextMessages_def)
qed

text \<open>A second compaction loses messages: when the branch starts at a compaction with a retained
  tail, as the path lookup returns it, the tail is part of the context, but the next
  preparation's parts are the messages after that compaction only, and what it carries over
  is the previous summary, made without the tail.\<close>

theorem recompaction_drops_tail:
  assumes "prepareCompaction getTime (c # rest) settings = Inr (Some p)"
    and "compactionOf c = Some d" and "cd_retainedTail d = Some tail"
    and "\<forall>e \<in> set rest. \<not> isCompaction (en_body e)"
    and "\<forall>e \<in> set (c # rest). cd_firstKeptEntryId d \<noteq> Some (en_id e)"
  shows "(\<exists>m ms. sx_messages (buildSessionContext getTime (c # rest) plainOptions) = CompactionSummary m # tail @ ms) \<and>
    pr_messagesToSummarize p @ pr_turnPrefixMessages p @ pr_retainedTail p = messagesBetween getTime (c # rest) 1 (length (c # rest)) \<and>
    pr_previousSummary p = Some (cd_summary d)"
proof -
  let ?path = "c # rest"
  have isC: "isCompaction (en_body c)" using assms(2) by (simp add: compactionOf_isCompaction)
  have last: "lastCompactionIndex ?path = Some 0" by (rule lastCompactionIndex_head [OF isC assms(4)])
  have "boundaryStartOf ?path = 1"
  proof (cases "cd_firstKeptEntryId d")
    case (Some k)
    then have "findIndex (\<lambda>e. en_id e = k) ?path = None" using assms(5) by (auto simp: findIndex_None)
    with last assms(2) Some show ?thesis by (simp add: boundaryStartOf_def Let_def del: findIndex.simps)
  qed (use last assms(2) in \<open>simp add: boundaryStartOf_def Let_def\<close>)
  with parts_cover [OF assms(1)] have parts: "pr_messagesToSummarize p @ pr_turnPrefixMessages p @ pr_retainedTail p =
      messagesBetween getTime ?path 1 (length ?path)" by simp
  have "pr_previousSummary p = Some (cd_summary d)"
    using prepareCompaction_SomeD(10) [OF assms(1) refl] last assms(2) by simp
  moreover have "\<exists>m ms. sx_messages (buildSessionContext getTime ?path plainOptions) = CompactionSummary m # tail @ ms"
    using context_of_compacted [OF isC assms(2,4,3)] by (simp add: plainOptions_def)
  ultimately show ?thesis using parts by blast
qed

theorem recompaction_drops_tail_witness:
  "\<exists>p. prepareCompaction (\<lambda>_. 0) recompactedBranch (sampleSettings 1) = Inr (Some p) \<and>
     sampleUser \<notin> set (pr_messagesToSummarize p @ pr_turnPrefixMessages p @ pr_retainedTail p) \<and>
     sampleUser \<in> set (sx_messages (buildSessionContext (\<lambda>_. 0) recompactedBranch plainOptions))"
proof -
  have "case prepareCompaction (\<lambda>_. 0) recompactedBranch (sampleSettings 1) of Inr (Some p) \<Rightarrow> True | _ \<Rightarrow> False"
    by code_simp
  then obtain p where p: "prepareCompaction (\<lambda>_. 0) recompactedBranch (sampleSettings 1) = Inr (Some p)"
    by (auto split: sum.splits option.splits)
  let ?c = "plainEntry ''c1'' None (E_compaction (sampleCompaction (Some ''a1'') (Some [sampleUser])))"
  let ?rest = "[plainEntry ''c2'' (Some ''c1'') (E_message (sampleAnswer ''more''))]"
  have eq: "recompactedBranch = ?c # ?rest" by (simp add: recompactedBranch_def)
  have d: "compactionOf ?c = Some (sampleCompaction (Some ''a1'') (Some [sampleUser]))"
    by (simp add: compactionOf_def plainEntry_def)
  have t: "cd_retainedTail (sampleCompaction (Some ''a1'') (Some [sampleUser])) = Some [sampleUser]"
    by (simp add: sampleCompaction_def)
  have r: "\<forall>e \<in> set ?rest. \<not> isCompaction (en_body e)" by (simp add: plainEntry_def)
  have k: "\<forall>e \<in> set (?c # ?rest). cd_firstKeptEntryId (sampleCompaction (Some ''a1'') (Some [sampleUser])) \<noteq> Some (en_id e)"
    by (simp add: plainEntry_def sampleCompaction_def js_def)
  from recompaction_drops_tail [OF p [unfolded eq] d t r k]
  have "sampleUser \<in> set (sx_messages (buildSessionContext (\<lambda>_. 0) recompactedBranch plainOptions))"
    and parts: "pr_messagesToSummarize p @ pr_turnPrefixMessages p @ pr_retainedTail p =
      messagesBetween (\<lambda>_. 0) recompactedBranch 1 2"
    unfolding eq by (auto simp: numeral_2_eq_2)
  moreover have "sampleUser \<notin> set (messagesBetween (\<lambda>_. 0) recompactedBranch 1 2)"
    by (simp add: messagesBetween_Cons recompactedBranch_def plainEntry_def getMessageFromEntryForCompaction_def
        getMessageFromEntry_def sampleUser_def sampleAnswer_def)
  ultimately show ?thesis using p by (metis (no_types))
qed

text \<open>
  A branch that ends with one tool result as large as the budget has no cut point at or
  after it, so the cut stays at the first cut point and nothing is summarised.
\<close>

lemma oversized_result_keeps_all:
  assumes "es \<noteq> []" and "en_body (last es) = E_message m" and "isToolResult m" and "keep \<le> estimateTokens m"
    and "isCutPoint (en_body (hd es))"
  shows "ct_firstKeptEntryIndex (findCutPoint es 0 (length es) keep) = 0"
proof -
  obtain n where n: "length es = Suc n" using assms(1) by (cases es) auto
  have m: "en_body (es ! n) = E_message m" using assms(1,2) n by (simp add: last_conv_nth)
  have no: "\<not> isCutPoint (E_message m)" using assms(3) by (cases m rule: isToolResult.cases) auto
  have "0 \<in> set (findValidCutPoints es 0 (length es))" using assms(1,5) by (simp add: cutPoints_set hd_conv_nth)
  moreover from this obtain x xs where x: "findValidCutPoints es 0 (length es) = x # xs"
    by (cases "findValidCutPoints es 0 (length es)") auto
  ultimately have ne: "findValidCutPoints es 0 (length es) \<noteq> []" and hd: "hd (findValidCutPoints es 0 (length es)) = 0"
    using cutPoints_sorted [of es 0 "length es"] by auto
  have "budgetIndex es 0 keep (length es) 0 = Some n" using n m assms(4) by simp
  moreover have "find (\<lambda>c. n \<le> c) (findValidCutPoints es 0 (length es)) = None"
    using n m no by (auto simp: find_None_set cutPoints_set not_le less_Suc_eq)
  ultimately have "chooseCut es 0 (length es) keep = 0" using hd by (simp add: chooseCut_def)
  then show ?thesis using findCutPoint_cut(2) [OF ne refl, of keep] by simp
qed

end
