(* ===== verification/NodePath.thy ===== *)
theory NodePath
  imports Prelude
begin

text \<open>
  The path functions of the Node.js module \<open>path\<close> that the sources call. A platform is a
  record of these functions; \<open>posixPath\<close> is the one of POSIX systems, on strings, as the
  documentation of the module describes it. The theories that use paths take the platform
  as a parameter.
\<close>

text \<open>Lower case of ASCII letters.\<close>

definition asciiLower :: "jchar \<Rightarrow> jchar" where
  "asciiLower c = (if 65 \<le> c \<and> c \<le> 90 then c + 32 else c)"

section \<open>The interface\<close>

record path_ops =
  po_resolve :: "jstr \<Rightarrow> jstr \<Rightarrow> jstr"
  po_join :: "jstr list \<Rightarrow> jstr"
  po_relative :: "jstr \<Rightarrow> jstr \<Rightarrow> jstr"
  po_isAbsolute :: "jstr \<Rightarrow> bool"
  po_dirname :: "jstr \<Rightarrow> jstr"
  po_basename :: "jstr \<Rightarrow> jstr"
  po_extname :: "jstr \<Rightarrow> jstr"
  po_sep :: jstr

section \<open>POSIX paths\<close>

definition SLASH :: jchar where "SLASH = 47"
definition DOT :: jstr where "DOT = [46]"
definition DOTDOT :: jstr where "DOTDOT = [46, 46]"

definition isAbsolute :: "jstr \<Rightarrow> bool" where
  "isAbsolute p \<longleftrightarrow> p \<noteq> [] \<and> hd p = SLASH"

text \<open>
  The resolution of the segments \<open>.\<close> and \<open>..\<close>: the stack holds the segments so far, the
  last one first; above the start, \<open>..\<close> is kept in a relative path and dropped in an
  absolute one.
\<close>

definition pushSegment :: "bool \<Rightarrow> jstr \<Rightarrow> jstr list \<Rightarrow> jstr list" where
  "pushSegment allowAbove seg stack =
     (if seg = [] \<or> seg = DOT then stack
      else if seg = DOTDOT
        then (case stack of
                s # rest \<Rightarrow> if s \<noteq> DOTDOT then rest else if allowAbove then DOTDOT # stack else stack
              | [] \<Rightarrow> if allowAbove then [DOTDOT] else [])
      else seg # stack)"

definition normalSegments :: "bool \<Rightarrow> jstr \<Rightarrow> jstr list" where
  "normalSegments allowAbove p = rev (fold (pushSegment allowAbove) (splitOn SLASH p) [])"

definition absolutePath :: "jstr list \<Rightarrow> jstr" where
  "absolutePath segs = SLASH # joinWith [SLASH] segs"

text \<open>\<open>resolve(base, p)\<close> in the working directory \<open>cwd\<close>, an absolute path.\<close>

definition resolve :: "jstr \<Rightarrow> jstr \<Rightarrow> jstr \<Rightarrow> jstr" where
  "resolve cwd base p =
     absolutePath (normalSegments False
       (if isAbsolute p then p
        else if isAbsolute base then base @ [SLASH] @ p
        else cwd @ [SLASH] @ base @ [SLASH] @ p))"

definition pathNormalize :: "jstr \<Rightarrow> jstr" where
  "pathNormalize p =
     (if p = [] then DOT
      else (let abs = isAbsolute p; trailing = last p = SLASH;
                body = joinWith [SLASH] (normalSegments (\<not> abs) p);
                body' = (if body = [] then (if abs then [] else DOT) else body);
                tailed = (if trailing \<and> (body \<noteq> [] \<or> \<not> abs) then body' @ [SLASH] else body')
            in if abs then SLASH # tailed else tailed))"

definition pathJoin :: "jstr list \<Rightarrow> jstr" where
  "pathJoin ps =
     (let parts = filter (\<lambda>p. p \<noteq> []) ps
      in if parts = [] then DOT else pathNormalize (joinWith [SLASH] parts))"

fun stripCommon :: "'a list \<Rightarrow> 'a list \<Rightarrow> 'a list \<times> 'a list" where
  "stripCommon (x # xs) (y # ys) = (if x = y then stripCommon xs ys else (x # xs, y # ys))"
| "stripCommon xs ys = (xs, ys)"

definition relativeSegments :: "jstr list \<Rightarrow> jstr list \<Rightarrow> jstr list" where
  "relativeSegments from to =
     (case stripCommon from to of (f, t) \<Rightarrow> replicate (length f) DOTDOT @ t)"

definition resolved :: "jstr \<Rightarrow> jstr \<Rightarrow> jstr list" where
  "resolved cwd p = normalSegments False (if isAbsolute p then p else cwd @ [SLASH] @ p)"

definition relative :: "jstr \<Rightarrow> jstr \<Rightarrow> jstr \<Rightarrow> jstr" where
  "relative cwd from to = joinWith [SLASH] (relativeSegments (resolved cwd from) (resolved cwd to))"

definition stripTrailing :: "jstr \<Rightarrow> jstr" where
  "stripTrailing p = rev (dropWhile (\<lambda>c. c = SLASH) (rev p))"

definition pathBasename :: "jstr \<Rightarrow> jstr" where
  "pathBasename p = last (splitOn SLASH (stripTrailing p))"

definition pathDirname :: "jstr \<Rightarrow> jstr" where
  "pathDirname p =
     (let upToSlash = rev (dropWhile (\<lambda>c. c \<noteq> SLASH) (rev (stripTrailing p)))
      in if length upToSlash \<le> 1 then (if isAbsolute p then [SLASH] else DOT)
         else if isAbsolute p \<and> length upToSlash = 2 then [SLASH, SLASH]
         else butlast upToSlash)"

text \<open>The extension: from the last dot of the base name, unless that is its first character.\<close>

definition pathExtname :: "jstr \<Rightarrow> jstr" where
  "pathExtname p =
     (let b = pathBasename p; ext = takeWhile (\<lambda>c. c \<noteq> 46) (rev b); n = length b - length ext
      in if length ext = length b \<or> n = 1 \<or> b = DOTDOT then [] else 46 # rev ext)"

definition posixPath :: "jstr \<Rightarrow> path_ops" where
  "posixPath cwd =
     \<lparr>po_resolve = resolve cwd, po_join = pathJoin, po_relative = relative cwd, po_isAbsolute = isAbsolute,
      po_dirname = pathDirname, po_basename = pathBasename, po_extname = pathExtname, po_sep = [SLASH]\<rparr>"

section \<open>Segments\<close>

text \<open>A normal segment of an absolute path.\<close>

definition plainSegment :: "jstr \<Rightarrow> bool" where
  "plainSegment s \<longleftrightarrow> s \<noteq> [] \<and> s \<noteq> DOT \<and> s \<noteq> DOTDOT \<and> SLASH \<notin> set s"

lemma pushSegment_keeps:
  assumes "list_all plainSegment stack" and "SLASH \<notin> set seg"
  shows "list_all plainSegment (pushSegment False seg stack)"
proof -
  consider "seg = [] \<or> seg = DOT" | "seg = DOTDOT" | "plainSegment seg"
    using assms(2) by (auto simp: plainSegment_def)
  then show ?thesis
  proof cases
    case 2
    then show ?thesis using assms(1) by (cases stack) (simp_all add: pushSegment_def DOT_def DOTDOT_def plainSegment_def)
  next
    case 3
    then show ?thesis using assms(1) by (simp add: pushSegment_def plainSegment_def)
  qed (use assms(1) in \<open>simp add: pushSegment_def\<close>)
qed

lemma fold_pushSegment_keeps:
  "list_all plainSegment stack \<Longrightarrow> \<forall>s \<in> set segs. SLASH \<notin> set s \<Longrightarrow>
   list_all plainSegment (fold (pushSegment False) segs stack)"
  by (induction segs arbitrary: stack) (simp_all add: pushSegment_keeps)

lemma normalSegments_plain: "list_all plainSegment (normalSegments False p)"
  using fold_pushSegment_keeps [of "[]" "splitOn SLASH p"] splitOn_no_sep [of _ SLASH p]
  by (simp add: normalSegments_def list_all_iff)

lemma pushSegment_plain: "plainSegment s \<Longrightarrow> pushSegment b s stack = s # stack"
  by (simp add: pushSegment_def plainSegment_def)

lemma fold_pushSegment_plain:
  "list_all plainSegment segs \<Longrightarrow> fold (pushSegment b) segs stack = rev segs @ stack"
  by (induction segs arbitrary: stack) (simp_all add: pushSegment_plain)

lemma splitOn_absolutePath:
  assumes "list_all plainSegment segs"
  shows "splitOn SLASH (absolutePath segs) = [] # (if segs = [] then [[]] else segs)"
proof -
  have "\<forall>s \<in> set segs. SLASH \<notin> set s" using assms by (simp add: plainSegment_def list_all_iff)
  then show ?thesis by (simp add: absolutePath_def splitOn_joinWith)
qed

text \<open>An absolute path in normal form is determined by its segments.\<close>

lemma normalSegments_absolutePath:
  assumes "list_all plainSegment segs"
  shows "normalSegments False (absolutePath segs) = segs"
  using splitOn_absolutePath [OF assms] fold_pushSegment_plain [OF assms, of False "[]"]
  by (simp add: normalSegments_def pushSegment_def split: if_splits)

lemma isAbsolute_absolutePath [simp]: "isAbsolute (absolutePath segs)"
  by (simp add: isAbsolute_def absolutePath_def)

lemma resolved_absolutePath:
  "list_all plainSegment segs \<Longrightarrow> resolved cwd (absolutePath segs) = segs"
  by (simp add: resolved_def normalSegments_absolutePath)

lemma stripCommon_prefix: "fst (stripCommon xs ys) = [] \<longleftrightarrow> prefix xs ys"
  by (induction xs ys rule: stripCommon.induct) auto

lemma stripCommon_snd: "prefix xs ys \<Longrightarrow> snd (stripCommon xs ys) = drop (length xs) ys"
  by (induction xs ys rule: stripCommon.induct) (auto simp: prefix_def)

lemma stripCommon_fst_Cons: "\<not> prefix xs ys \<Longrightarrow> \<exists>f t. stripCommon xs ys = (f, t) \<and> f \<noteq> []"
  using stripCommon_prefix [of xs ys] by (cases "stripCommon xs ys") auto

end
