(* ===== verification/FileTools.thy ===== *)
theory FileTools
  imports NodePath AgentTypes
begin

text \<open>
  The file tools of packages/imclaw/src: \<open>deliver_file\<close> (deliver-file.ts) and \<open>send_workfile\<close>
  (send-workfile.ts), with the path check of workfile-path.ts.

  The file system and the sender are parameters that act on a world \<open>'w\<close>; a call that
  rejects is \<open>Inl\<close>. The attempts to send and to delete a file are logged with their success.
  A tool that throws returns \<open>Inl\<close> with the error's message. The queue that serialises the
  deliveries of one path does not show in a single execution.
\<close>

section \<open>The environment\<close>

datatype delivery_stage = Stage_upload | Stage_message

datatype send_failure = FileDeliveryError delivery_stage jstr | OtherFailure jstr

record file_stat =
  st_isFile :: bool
  st_size :: nat
  st_mtimeMs :: rat
  st_mtimeIso :: jstr

record dir_entry =
  de_name :: jstr
  de_isSymbolicLink :: bool
  de_isDirectory :: bool
  de_isFile :: bool

record 'w file_system =
  fs_realpath :: "jstr \<Rightarrow> 'w \<Rightarrow> (jstr + jstr) \<times> 'w"
  fs_stat :: "jstr \<Rightarrow> 'w \<Rightarrow> (jstr + file_stat) \<times> 'w"
  fs_unlink :: "jstr \<Rightarrow> 'w \<Rightarrow> (jstr + unit) \<times> 'w"
  fs_readdir :: "jstr \<Rightarrow> 'w \<Rightarrow> (jstr + dir_entry list) \<times> 'w"

type_synonym 'w file_sender = "jstr \<Rightarrow> jstr \<Rightarrow> jstr \<Rightarrow> 'w \<Rightarrow> (send_failure + unit) \<times> 'w"

text \<open>Chat, path, name and success of a sending; path and success of a deletion.\<close>

datatype file_effect = SendAttempt jstr jstr jstr bool | UnlinkAttempt jstr bool

record 'w file_run =
  fr_world :: 'w
  fr_effects :: "file_effect list"

definition look :: "('w \<Rightarrow> 'a \<times> 'w) \<Rightarrow> 'w file_run \<Rightarrow> 'a \<times> 'w file_run" where
  "look f r = (case f (fr_world r) of (a, w) \<Rightarrow> (a, r\<lparr>fr_world := w\<rparr>))"

definition succeededCall :: "'e + 'a \<Rightarrow> bool" where
  "succeededCall x = (case x of Inl _ \<Rightarrow> False | Inr _ \<Rightarrow> True)"

definition trySend :: "'w file_sender \<Rightarrow> jstr \<Rightarrow> jstr \<Rightarrow> jstr \<Rightarrow> 'w file_run \<Rightarrow> (send_failure + unit) \<times> 'w file_run" where
  "trySend send chatId path name r =
     (case send chatId path name (fr_world r) of
        (x, w) \<Rightarrow> (x, \<lparr>fr_world = w, fr_effects = fr_effects r @ [SendAttempt chatId path name (succeededCall x)]\<rparr>))"

definition tryUnlink :: "'w file_system \<Rightarrow> jstr \<Rightarrow> 'w file_run \<Rightarrow> (jstr + unit) \<times> 'w file_run" where
  "tryUnlink fs path r =
     (case fs_unlink fs path (fr_world r) of
        (x, w) \<Rightarrow> (x, \<lparr>fr_world = w, fr_effects = fr_effects r @ [UnlinkAttempt path (succeededCall x)]\<rparr>))"

section \<open>Paths inside a directory\<close>

definition WORKFILE_DIRECTORY_NAME :: jstr where
  "WORKFILE_DIRECTORY_NAME = js ''workfile''"

definition resolveWorkfileRoot :: "path_ops \<Rightarrow> 'w file_system \<Rightarrow> jstr \<Rightarrow> 'w file_run \<Rightarrow> (jstr + jstr) \<times> 'w file_run" where
  "resolveWorkfileRoot P fs workspace r =
     look (fs_realpath fs (po_join P [workspace, WORKFILE_DIRECTORY_NAME])) r"

definition isPathInside :: "path_ops \<Rightarrow> jstr \<Rightarrow> jstr \<Rightarrow> bool" where
  "isPathInside P rootPath target \<longleftrightarrow>
     (let child = po_relative P rootPath target
      in child \<noteq> [] \<and> child \<noteq> DOTDOT \<and> \<not> prefix (DOTDOT @ po_sep P) child \<and> \<not> po_isAbsolute P child)"

text \<open>The check of \<open>deliver_file\<close>, which also passes the directory itself.\<close>

definition leavesDirectory :: "path_ops \<Rightarrow> jstr \<Rightarrow> jstr \<Rightarrow> bool" where
  "leavesDirectory P rootPath target \<longleftrightarrow>
     (let child = po_relative P rootPath target
      in child = DOTDOT \<or> prefix (DOTDOT @ po_sep P) child \<or> po_isAbsolute P child)"

section \<open>Checks and messages\<close>

definition MAX_FILE_SIZE :: nat where
  "MAX_FILE_SIZE = 30 * 1024 * 1024"

definition deliverError :: "jstr \<Rightarrow> jstr" where
  "deliverError message = [25991, 20214, 22238, 20256, 22833, 36133, 65306] @ message"

definition workfileError :: "jstr \<Rightarrow> jstr" where
  "workfileError message = js ''workfile '' @ [25991, 20214, 21457, 36865, 22833, 36133, 65306] @ message"

definition missingFileText :: jstr where
  "missingFileText = [25991, 20214, 19981, 23384, 22312, 12290]"

text \<open>What is wrong with the file that was found, if anything.\<close>

definition statProblem :: "jstr + file_stat \<Rightarrow> jstr option" where
  "statProblem x =
     (case x of
        Inl _ \<Rightarrow> Some missingFileText
      | Inr st \<Rightarrow>
          (if \<not> st_isFile st then Some [30446, 26631, 19981, 26159, 26222, 36890, 25991, 20214, 12290]
           else if st_size st = 0 then Some [25991, 20214, 20026, 31354, 12290]
           else if st_size st > MAX_FILE_SIZE then Some ([25991, 20214, 36229, 36807] @ js '' 30 MB'' @ [12290])
           else None))"

definition textResult :: "jstr \<Rightarrow> json \<Rightarrow> agent_tool_result" where
  "textResult s details =
     \<lparr>res_content = Some [text_block s], res_details = Some details, res_usage = None,
      res_addedToolNames = None, res_terminate = None\<rparr>"

definition fileWord :: jstr where
  "fileWord = [25991, 20214] @ js '' ''"

section \<open>Delivering a file\<close>

definition deliverAbortedText :: jstr where
  "deliverAbortedText = [25805, 20316, 24050, 20013, 27490, 65292, 25991, 20214, 24050, 20445, 30041, 12290]"

definition outsideWorkspaceText :: jstr where
  "outsideWorkspaceText = [25991, 20214, 19981, 22312, 24037, 20316, 30446, 24405, 20869, 12290]"

definition deliverSendText :: "send_failure \<Rightarrow> jstr" where
  "deliverSendText e =
     (case e of
        FileDeliveryError Stage_message _ \<Rightarrow>
          [39134, 20070, 25991, 20214, 28040, 24687, 21457, 36865, 22833, 36133, 65292, 25991, 20214, 24050,
           20445, 30041, 65292, 21487, 20877, 27425, 23581, 35797, 12290]
      | _ \<Rightarrow>
          [39134, 20070, 25991, 20214, 19978, 20256, 22833, 36133, 65292, 25991, 20214, 24050,
           20445, 30041, 65292, 21487, 20877, 27425, 23581, 35797, 12290])"

definition deliveredResult :: "jstr \<Rightarrow> bool \<Rightarrow> agent_tool_result" where
  "deliveredResult fileName cleanedUp =
     textResult
       (fileWord @ fileName @
        (if cleanedUp
         then js '' '' @ [24050, 21457, 36865, 24182, 24050, 28165, 29702, 26412, 22320, 21103, 26412, 12290]
         else js '' '' @ [24050, 21457, 36865, 65292, 20294, 26412, 22320, 28165, 29702, 22833, 36133, 12290, 35831,
                26126, 30830, 21578, 30693, 29992, 25143, 12290]))
       (JObj [(js ''fileName'', JStr fileName), (js ''delivered'', JBool True), (js ''cleanedUp'', JBool cleanedUp)])"

definition deliverFile ::
  "path_ops \<Rightarrow> 'w file_system \<Rightarrow> 'w file_sender \<Rightarrow> jstr \<Rightarrow> jstr \<Rightarrow> bool \<Rightarrow> jstr \<Rightarrow> 'w file_run \<Rightarrow>
   (jstr + agent_tool_result) \<times> 'w file_run" where
  "deliverFile P fs send workspace chatId aborted path r =
     (if aborted then (Inl (deliverError deliverAbortedText), r)
      else
        (let inputPath = (if prefix (js ''@'') path then drop 1 path else path)
         in case look (fs_realpath fs workspace) r of
              (Inl _, r1) \<Rightarrow> (Inl (deliverError missingFileText), r1)
            | (Inr workspacePath, r1) \<Rightarrow>
                (case look (fs_realpath fs (po_resolve P workspace inputPath)) r1 of
                   (Inl _, r2) \<Rightarrow> (Inl (deliverError missingFileText), r2)
                 | (Inr filePath, r2) \<Rightarrow>
                     (if leavesDirectory P workspacePath filePath then (Inl (deliverError outsideWorkspaceText), r2)
                      else
                        (case look (fs_stat fs filePath) r2 of
                           (st, r3) \<Rightarrow>
                             (case statProblem st of
                                Some problem \<Rightarrow> (Inl (deliverError problem), r3)
                              | None \<Rightarrow>
                                  (let fileName = po_basename P filePath
                                   in case trySend send chatId filePath fileName r3 of
                                        (Inl e, r4) \<Rightarrow> (Inl (deliverError (deliverSendText e)), r4)
                                      | (Inr _, r4) \<Rightarrow>
                                          (case tryUnlink fs filePath r4 of
                                             (x, r5) \<Rightarrow> (Inr (deliveredResult fileName (succeededCall x)), r5)))))))))"

section \<open>Sending a workfile\<close>

definition sendWorkfileAbortedText :: jstr where
  "sendWorkfileAbortedText = [25805, 20316, 24050, 20013, 27490, 65292, 21407, 25991, 20214, 24050, 20445, 30041, 12290]"

definition onlyRelativeText :: jstr where
  "onlyRelativeText = [21482, 25509, 21463] @ js '' workfile '' @ [20869, 30340, 30456, 23545, 36335, 24452, 12290]"

definition onlyFilePathText :: jstr where
  "onlyFilePathText =
     [21482, 25509, 21463] @ js '' workfile '' @ [20869, 30340, 25991, 20214, 30456, 23545, 36335, 24452, 12290]"

definition noWorkfileRootText :: jstr where
  "noWorkfileRootText =
     js ''workfile '' @ [25991, 20214, 24211, 19981, 23384, 22312, 25110, 26080, 27861, 35835, 21462, 12290]"

definition outsideWorkfileText :: jstr where
  "outsideWorkfileText = [25991, 20214, 19981, 22312] @ js '' workfile '' @ [25991, 20214, 24211, 20869, 12290]"

definition workfileSendText :: "send_failure \<Rightarrow> jstr" where
  "workfileSendText e =
     (case e of
        FileDeliveryError Stage_message _ \<Rightarrow>
          [39134, 20070, 25991, 20214, 28040, 24687, 21457, 36865, 22833, 36133, 65292, 21407, 25991, 20214, 24050,
           20445, 30041, 65292, 21487, 20877, 27425, 23581, 35797, 12290]
      | _ \<Rightarrow>
          [39134, 20070, 25991, 20214, 19978, 20256, 22833, 36133, 65292, 21407, 25991, 20214, 24050,
           20445, 30041, 65292, 21487, 20877, 27425, 23581, 35797, 12290])"

text \<open>\<open>relative(root, path).split(sep).join("/")\<close> for a separator of one unit.\<close>

definition slashedRelative :: "path_ops \<Rightarrow> jstr \<Rightarrow> jstr \<Rightarrow> jstr" where
  "slashedRelative P rootPath path = joinWith [SLASH] (splitOn (hd (po_sep P)) (po_relative P rootPath path))"

definition sentWorkfileResult :: "jstr \<Rightarrow> jstr \<Rightarrow> agent_tool_result" where
  "sentWorkfileResult fileName relativePath =
     textResult
       (fileWord @ fileName @ js '' '' @ [24050, 21457, 36865, 65292] @ js ''workfile '' @
        [20013, 30340, 21407, 25991, 20214, 24050, 20445, 30041, 12290])
       (JObj [(js ''fileName'', JStr fileName), (js ''path'', JStr relativePath),
              (js ''delivered'', JBool True), (js ''preserved'', JBool True)])"

definition sendWorkfile ::
  "path_ops \<Rightarrow> 'w file_system \<Rightarrow> 'w file_sender \<Rightarrow> jstr \<Rightarrow> jstr \<Rightarrow> bool \<Rightarrow> jstr \<Rightarrow> 'w file_run \<Rightarrow>
   (jstr + agent_tool_result) \<times> 'w file_run" where
  "sendWorkfile P fs send workspace chatId aborted path r =
     (if aborted then (Inl (workfileError sendWorkfileAbortedText), r)
      else if po_isAbsolute P path then (Inl (workfileError onlyRelativeText), r)
      else if trim path = [] \<or> path = DOT then (Inl (workfileError onlyFilePathText), r)
      else
        (case resolveWorkfileRoot P fs workspace r of
           (Inl _, r1) \<Rightarrow> (Inl (workfileError noWorkfileRootText), r1)
         | (Inr rootPath, r1) \<Rightarrow>
             (case look (fs_realpath fs (po_join P [workspace, WORKFILE_DIRECTORY_NAME, path])) r1 of
                (Inl _, r2) \<Rightarrow> (Inl (workfileError missingFileText), r2)
              | (Inr filePath, r2) \<Rightarrow>
                  (if \<not> isPathInside P rootPath filePath then (Inl (workfileError outsideWorkfileText), r2)
                   else
                     (case look (fs_stat fs filePath) r2 of
                        (st, r3) \<Rightarrow>
                          (case statProblem st of
                             Some problem \<Rightarrow> (Inl (workfileError problem), r3)
                           | None \<Rightarrow>
                               (let fileName = po_basename P filePath
                                in case trySend send chatId filePath fileName r3 of
                                     (Inl e, r4) \<Rightarrow> (Inl (workfileError (workfileSendText e)), r4)
                                   | (Inr _, r4) \<Rightarrow>
                                       (Inr (sentWorkfileResult fileName (slashedRelative P rootPath filePath)), r4))))))))"

text \<open>The file tools send only files of their directory, and delete only what was sent.\<close>

section \<open>Paths inside a directory, by segments\<close>

lemma splitOn_segments:
  "list_all plainSegment segs \<Longrightarrow> segs \<noteq> [] \<Longrightarrow> splitOn SLASH (joinWith [SLASH] segs) = segs"
  by (rule splitOn_joinWith) (auto simp: list_all_iff plainSegment_def)

lemma joined_not_leaving:
  assumes "list_all plainSegment segs"
  shows "joinWith [SLASH] segs \<noteq> DOTDOT" and "\<not> prefix (DOTDOT @ [SLASH]) (joinWith [SLASH] segs)"
    and "\<not> isAbsolute (joinWith [SLASH] segs)" and "joinWith [SLASH] segs = [] \<longleftrightarrow> segs = []"
proof -
  let ?p = "joinWith [SLASH] segs"
  have hd: "hd (splitOn SLASH ?p) = s" if "segs = s # ss" for s ss
    using splitOn_segments [OF assms] that by simp
  have plain: "plainSegment s" if "segs = s # ss" for s ss using assms that by simp
  have no: "SLASH \<notin> set DOTDOT" by (simp add: SLASH_def DOTDOT_def)
  show "?p \<noteq> DOTDOT"
    using hd plain splitOn_id [OF no] by (cases segs) (auto simp: plainSegment_def DOTDOT_def)
  show "\<not> prefix (DOTDOT @ [SLASH]) ?p"
  proof
    assume "prefix (DOTDOT @ [SLASH]) ?p"
    then obtain z where z: "?p = DOTDOT @ SLASH # z" by (auto simp: prefix_def)
    show False
    proof (cases segs)
      case (Cons s ss)
      then show False using hd [OF Cons] plain [OF Cons] splitOn_append_sep [OF no, of z] z by (simp add: plainSegment_def)
    qed (use z in simp)
  qed
  show "\<not> isAbsolute ?p"
  proof
    assume "isAbsolute ?p"
    then obtain z where z: "?p = SLASH # z" by (cases ?p) (auto simp: isAbsolute_def)
    show False
    proof (cases segs)
      case (Cons s ss)
      then show False using hd [OF Cons] plain [OF Cons] z by (simp add: plainSegment_def)
    qed (use z in simp)
  qed
  show "?p = [] \<longleftrightarrow> segs = []"
    using hd plain by (cases segs) (auto simp: plainSegment_def)
qed

lemma joined_leaving:
  "joinWith [SLASH] (replicate (Suc n) DOTDOT @ t) = DOTDOT \<or>
    prefix (DOTDOT @ [SLASH]) (joinWith [SLASH] (replicate (Suc n) DOTDOT @ t))"
  by (cases "replicate n DOTDOT @ t") (simp_all add: joinWith_Cons prefix_def)

lemma relative_absolutePath:
  assumes "list_all plainSegment rs" and "list_all plainSegment ts"
  shows "relative cwd (absolutePath rs) (absolutePath ts) = joinWith [SLASH] (relativeSegments rs ts)"
  by (simp add: relative_def resolved_absolutePath assms)

lemma relativeSegments_inside: "prefix rs ts \<Longrightarrow> relativeSegments rs ts = drop (length rs) ts"
  using stripCommon_prefix [of rs ts] stripCommon_snd [of rs ts]
  by (simp add: relativeSegments_def split: prod.split) fastforce

lemma relativeSegments_outside:
  assumes "\<not> prefix rs ts"
  shows "\<exists>n t. relativeSegments rs ts = replicate (Suc n) DOTDOT @ t"
proof -
  from stripCommon_fst_Cons [OF assms] obtain f t where "stripCommon rs ts = (f, t)" "f \<noteq> []" by blast
  then have "relativeSegments rs ts = replicate (Suc (length f - 1)) DOTDOT @ t" by (simp add: relativeSegments_def)
  then show ?thesis by blast
qed

lemma posixPath_sel [simp]:
  "po_resolve (posixPath cwd) = resolve cwd" "po_join (posixPath cwd) = pathJoin"
  "po_relative (posixPath cwd) = relative cwd" "po_isAbsolute (posixPath cwd) = isAbsolute"
  "po_basename (posixPath cwd) = pathBasename" "po_sep (posixPath cwd) = [SLASH]"
  by (simp_all add: posixPath_def)

lemma leaves_iff:
  assumes "list_all plainSegment rs" and "list_all plainSegment ts"
  shows "leavesDirectory (posixPath cwd) (absolutePath rs) (absolutePath ts) \<longleftrightarrow> \<not> prefix rs ts"
proof (cases "prefix rs ts")
  case True
  have "list_all plainSegment (drop (length rs) ts)"
    using assms(2) by (auto simp: list_all_iff dest: in_set_dropD)
  from joined_not_leaving [OF this] True show ?thesis
    by (simp add: leavesDirectory_def relative_absolutePath [OF assms] relativeSegments_inside)
next
  case False
  from relativeSegments_outside [OF False] obtain n t where
    "relativeSegments rs ts = replicate (Suc n) DOTDOT @ t" by blast
  with joined_leaving [of n t] False show ?thesis
    by (auto simp: leavesDirectory_def relative_absolutePath [OF assms] Let_def)
qed

lemma inside_iff:
  assumes "list_all plainSegment rs" and "list_all plainSegment ts"
  shows "isPathInside (posixPath cwd) (absolutePath rs) (absolutePath ts) \<longleftrightarrow> strict_prefix rs ts"
proof -
  have "isPathInside (posixPath cwd) (absolutePath rs) (absolutePath ts) \<longleftrightarrow>
      \<not> leavesDirectory (posixPath cwd) (absolutePath rs) (absolutePath ts) \<and>
      joinWith [SLASH] (relativeSegments rs ts) \<noteq> []"
    by (auto simp: isPathInside_def leavesDirectory_def relative_absolutePath [OF assms] Let_def)
  also have "\<dots> \<longleftrightarrow> prefix rs ts \<and> joinWith [SLASH] (relativeSegments rs ts) \<noteq> []"
    using leaves_iff [OF assms] by simp
  also have "\<dots> \<longleftrightarrow> strict_prefix rs ts"
  proof (cases "prefix rs ts")
    case True
    have "list_all plainSegment (drop (length rs) ts)"
      using assms(2) by (auto simp: list_all_iff dest: in_set_dropD)
    from joined_not_leaving(4) [OF this] True show ?thesis
      by (auto simp: relativeSegments_inside strict_prefix_def prefix_def)
  qed (simp add: strict_prefix_def)
  finally show ?thesis .
qed

section \<open>What a delivery does\<close>

text \<open>The file that the lookups of \<open>deliver_file\<close> find in a world, fit to be sent.\<close>

definition sendable :: "file_stat \<Rightarrow> bool" where
  "sendable st \<longleftrightarrow> st_isFile st \<and> 0 < st_size st \<and> st_size st \<le> MAX_FILE_SIZE"

definition deliverable :: "path_ops \<Rightarrow> 'w file_system \<Rightarrow> jstr \<Rightarrow> jstr \<Rightarrow> 'w \<Rightarrow> jstr \<Rightarrow> bool" where
  "deliverable P fs workspace path w file \<longleftrightarrow>
     (\<exists>rootPath w1 w2 st w3. fs_realpath fs workspace w = (Inr rootPath, w1) \<and>
        fs_realpath fs (po_resolve P workspace (if prefix (js ''@'') path then drop 1 path else path)) w1 = (Inr file, w2) \<and>
        \<not> leavesDirectory P rootPath file \<and> fs_stat fs file w2 = (Inr st, w3) \<and> sendable st)"

definition findableWorkfile :: "path_ops \<Rightarrow> 'w file_system \<Rightarrow> jstr \<Rightarrow> jstr \<Rightarrow> 'w \<Rightarrow> jstr \<Rightarrow> bool" where
  "findableWorkfile P fs workspace path w file \<longleftrightarrow>
     (\<exists>rootPath w1 w2 st w3. fs_realpath fs (po_join P [workspace, WORKFILE_DIRECTORY_NAME]) w = (Inr rootPath, w1) \<and>
        fs_realpath fs (po_join P [workspace, WORKFILE_DIRECTORY_NAME, path]) w1 = (Inr file, w2) \<and>
        isPathInside P rootPath file \<and> fs_stat fs file w2 = (Inr st, w3) \<and> sendable st)"

lemma statProblem_None: "statProblem x = None \<longleftrightarrow> (\<exists>st. x = Inr st \<and> sendable st)"
  by (cases x) (auto simp: statProblem_def sendable_def)

lemma look_eq: "look f r = (x, r') \<longleftrightarrow> f (fr_world r) = (x, fr_world r') \<and> fr_effects r' = fr_effects r"
  by (cases r; cases r') (auto simp: look_def split: prod.split)

lemma trySend_effects:
  "trySend send c p n r = (x, r') \<Longrightarrow> fr_effects r' = fr_effects r @ [SendAttempt c p n (succeededCall x)]"
  by (auto simp: trySend_def split: prod.splits)

lemma tryUnlink_effects:
  "tryUnlink fs p r = (x, r') \<Longrightarrow> fr_effects r' = fr_effects r @ [UnlinkAttempt p (succeededCall x)]"
  by (auto simp: tryUnlink_def split: prod.splits)

lemma succeededCall_simps [simp]: "\<not> succeededCall (Inl e)" "succeededCall (Inr x)"
  by (simp_all add: succeededCall_def)

lemma deliverFile_cases:
  assumes "deliverFile P fs send workspace chatId aborted path r = (res, r')"
  shows "(fr_effects r' = fr_effects r \<and> isl res) \<or>
    (\<exists>file. deliverable P fs workspace path (fr_world r) file \<and>
       ((fr_effects r' = fr_effects r @ [SendAttempt chatId file (po_basename P file) False] \<and> isl res) \<or>
        (\<exists>ok. fr_effects r' = fr_effects r @ [SendAttempt chatId file (po_basename P file) True, UnlinkAttempt file ok] \<and>
              res = Inr (deliveredResult (po_basename P file) ok))))"
proof (cases "aborted")
  case True
  with assms show ?thesis by (auto simp: deliverFile_def)
next
  case False
  let ?in = "if prefix (js ''@'') path then drop 1 path else path"
  obtain a r1 where a: "look (fs_realpath fs workspace) r = (a, r1)" by fastforce
  show ?thesis
  proof (cases a)
    case (Inl e)
    with assms a False show ?thesis by (auto simp: deliverFile_def look_eq)
  next
    case (Inr rootPath)
    obtain b r2 where b: "look (fs_realpath fs (po_resolve P workspace ?in)) r1 = (b, r2)" by fastforce
    note eq = assms [unfolded deliverFile_def if_not_P [OF False] a Inr prod.case sum.case Let_def b]
    show ?thesis
    proof (cases b)
      case (Inl e)
      with eq a b show ?thesis by (auto simp: look_eq)
    next
      case found: (Inr target)
      note eq = eq [unfolded found prod.case sum.case]
      obtain st r3 where st: "look (fs_stat fs target) r2 = (st, r3)" by fastforce
      show ?thesis
      proof (cases "leavesDirectory P rootPath target \<or> statProblem st \<noteq> None")
        case True
        have "isl res \<and> (r' = r2 \<or> r' = r3)"
          using eq st True by (auto split: if_splits option.splits)
        with a b st show ?thesis by (auto simp: look_eq)
      next
        case ok: False
        then obtain fst where fst: "st = Inr fst" "sendable fst" using statProblem_None [of st] by auto
        have fit: "deliverable P fs workspace path (fr_world r) target"
          unfolding deliverable_def using a b st Inr found ok fst by (fastforce simp: look_eq)
        have same: "fr_effects r3 = fr_effects r" using a b st by (simp add: look_eq)
        obtain x r4 where x: "trySend send chatId target (po_basename P target) r3 = (x, r4)" by fastforce
        note eq = eq [unfolded st x prod.case]
        show ?thesis
        proof (cases x)
          case (Inl e)
          with eq ok x fit same trySend_effects [OF x] show ?thesis by (auto split: if_splits option.splits)
        next
          case (Inr u)
          obtain y r5 where y: "tryUnlink fs target r4 = (y, r5)" by fastforce
          from eq ok y Inr have "res = Inr (deliveredResult (po_basename P target) (succeededCall y))" "r' = r5"
            by (auto split: if_splits option.splits)
          with fit same trySend_effects [OF x] tryUnlink_effects [OF y] Inr show ?thesis by auto
        qed
      qed
    qed
  qed
qed

lemma sendWorkfile_cases:
  assumes "sendWorkfile P fs send workspace chatId aborted path r = (res, r')"
  shows "(fr_effects r' = fr_effects r \<and> isl res) \<or>
    (\<exists>file ok. findableWorkfile P fs workspace path (fr_world r) file \<and> isl res = (\<not> ok) \<and>
       fr_effects r' = fr_effects r @ [SendAttempt chatId file (po_basename P file) ok])"
proof (cases "aborted \<or> po_isAbsolute P path \<or> trim path = [] \<or> path = DOT")
  case True
  with assms show ?thesis by (auto simp: sendWorkfile_def split: if_splits)
next
  case False
  let ?root = "po_join P [workspace, WORKFILE_DIRECTORY_NAME]"
  let ?path = "po_join P [workspace, WORKFILE_DIRECTORY_NAME, path]"
  obtain a r1 where a: "look (fs_realpath fs ?root) r = (a, r1)" by fastforce
  obtain b r2 where b: "look (fs_realpath fs ?path) r1 = (b, r2)" by fastforce
  show ?thesis
  proof (cases "isl a \<or> isl b")
    case True
    have "isl res \<and> (r' = r1 \<or> r' = r2)"
      using assms a b False True by (cases a; cases b) (auto simp: sendWorkfile_def resolveWorkfileRoot_def)
    with a b show ?thesis by (auto simp: look_eq)
  next
    case ab: False
    then obtain rootPath target where ab': "a = Inr rootPath" "b = Inr target" by (cases a; cases b) auto
    obtain st r3 where st: "look (fs_stat fs target) r2 = (st, r3)" by fastforce
    show ?thesis
    proof (cases "\<not> isPathInside P rootPath target \<or> statProblem st \<noteq> None")
      case True
      have "isl res \<and> (r' = r2 \<or> r' = r3)"
        using assms a b st ab' False True
        by (auto simp: sendWorkfile_def resolveWorkfileRoot_def split: if_splits option.splits)
      with a b st show ?thesis by (auto simp: look_eq)
    next
      case ok: False
      then obtain fst where fst: "st = Inr fst" "sendable fst" using statProblem_None [of st] by auto
      have fit: "findableWorkfile P fs workspace path (fr_world r) target"
        unfolding findableWorkfile_def using a b st ab' ok fst by (fastforce simp: look_eq)
      have same: "fr_effects r3 = fr_effects r" using a b st by (simp add: look_eq)
      obtain x r4 where x: "trySend send chatId target (po_basename P target) r3 = (x, r4)" by fastforce
      have "isl res = (\<not> succeededCall x) \<and> r' = r4"
      proof -
        have none: "statProblem st = None" and inside: "isPathInside P rootPath target" using ok by simp_all
        have guards: "\<not> aborted" "\<not> po_isAbsolute P path" "\<not> (trim path = [] \<or> path = DOT)" using False by simp_all
        have "sendWorkfile P fs send workspace chatId aborted path r =
            (case x of Inl e \<Rightarrow> (Inl (workfileError (workfileSendText e)), r4)
             | Inr _ \<Rightarrow> (Inr (sentWorkfileResult (po_basename P target) (slashedRelative P rootPath target)), r4))"
          unfolding sendWorkfile_def resolveWorkfileRoot_def if_not_P [OF guards(1)] if_not_P [OF guards(2)]
            if_not_P [OF guards(3)] a b ab' prod.case sum.case st none option.case Let_def x
          using inside by (cases x) simp_all
        note trans [OF assms [symmetric] this]
        then show ?thesis by (cases x) simp_all
      qed
      then show ?thesis
        by (intro disjI2 exI [of _ target] exI [of _ "succeededCall x"]) (simp add: fit same trySend_effects [OF x])
    qed
  qed
qed

section \<open>Properties\<close>

text \<open>The path check decides containment: for absolute paths in normal form on a POSIX system, a
  target counts as inside a directory exactly if its segments properly extend those of the
  directory, so no parent segment, sibling with a common name prefix or other root passes.\<close>

theorem inside_means_extends:
  assumes "list_all plainSegment rs" and "list_all plainSegment ts"
  shows "isPathInside (posixPath cwd) (absolutePath rs) (absolutePath ts) \<longleftrightarrow> strict_prefix rs ts"
  by (rule inside_iff [OF assms])

theorem inside_means_extends_witness:
  "\<not> isPathInside (posixPath []) (js ''/w/lib'') (js ''/w/library/a'') \<and>
   isPathInside (posixPath []) (js ''/w/lib'') (js ''/w/lib/..a'')"
proof -
  have p: "absolutePath [js ''w'', js ''lib''] = js ''/w/lib''"
    "absolutePath [js ''w'', js ''library'', js ''a''] = js ''/w/library/a''"
    "absolutePath [js ''w'', js ''lib'', js ''..a''] = js ''/w/lib/..a''"
    by (simp_all add: absolutePath_def js_def SLASH_def)
  have plain: "list_all plainSegment [js ''w'', js ''lib'']" "list_all plainSegment [js ''w'', js ''library'', js ''a'']"
    "list_all plainSegment [js ''w'', js ''lib'', js ''..a'']"
    by (simp_all add: plainSegment_def js_def DOT_def DOTDOT_def SLASH_def)
  from inside_means_extends [OF plain(1,2), of "[]"] inside_means_extends [OF plain(1,3), of "[]"] show ?thesis
    unfolding p by (simp add: strict_prefix_def js_def)
qed

text \<open>A delivery touches one file at most: either nothing is sent and nothing is deleted and the
  tool reports an error, or the file is the one the lookups found, inside the workspace,
  regular, not empty and within the size limit; it is sent once, kept when the sending
  fails, and deleted only after it was sent.\<close>

theorem deliver_deletes_only_sent:
  "(fr_effects (snd (deliverFile P fs send workspace chatId aborted path r)) = fr_effects r \<and>
      isl (fst (deliverFile P fs send workspace chatId aborted path r))) \<or>
   (\<exists>file. deliverable P fs workspace path (fr_world r) file \<and>
      ((fr_effects (snd (deliverFile P fs send workspace chatId aborted path r)) =
          fr_effects r @ [SendAttempt chatId file (po_basename P file) False] \<and>
        isl (fst (deliverFile P fs send workspace chatId aborted path r))) \<or>
       (\<exists>ok. fr_effects (snd (deliverFile P fs send workspace chatId aborted path r)) =
          fr_effects r @ [SendAttempt chatId file (po_basename P file) True, UnlinkAttempt file ok] \<and>
        fst (deliverFile P fs send workspace chatId aborted path r) = Inr (deliveredResult (po_basename P file) ok))))"
  by (rule deliverFile_cases [OF prod.collapse [symmetric]])

text \<open>Sending a workfile deletes nothing and stays in the library: either nothing is sent and the
  tool reports an error, or exactly one sending is attempted, of a regular, not empty file
  within the size limit whose real path is inside the library's real path, and the tool
  reports success exactly if it succeeded.\<close>

theorem workfile_sent_and_kept:
  "(fr_effects (snd (sendWorkfile P fs send workspace chatId aborted path r)) = fr_effects r \<and>
      isl (fst (sendWorkfile P fs send workspace chatId aborted path r))) \<or>
   (\<exists>file ok. findableWorkfile P fs workspace path (fr_world r) file \<and>
      isl (fst (sendWorkfile P fs send workspace chatId aborted path r)) = (\<not> ok) \<and>
      fr_effects (snd (sendWorkfile P fs send workspace chatId aborted path r)) =
        fr_effects r @ [SendAttempt chatId file (po_basename P file) ok])"
  by (rule sendWorkfile_cases [OF prod.collapse [symmetric]])

text \<open>A file system without links in which every path is a file of one byte.\<close>

definition plainFiles :: "unit file_system" where
  "plainFiles = \<lparr>fs_realpath = (\<lambda>p w. (Inr p, w)),
     fs_stat = (\<lambda>p w. (Inr \<lparr>st_isFile = True, st_size = 1, st_mtimeMs = 0, st_mtimeIso = []\<rparr>, w)),
     fs_unlink = (\<lambda>p w. (Inr (), w)), fs_readdir = (\<lambda>p w. (Inr [], w))\<rparr>"

definition plainSender :: "unit file_sender" where
  "plainSender c p n w = (Inr (), w)"

text \<open>The delivery tool does delete files of the library: a workfile lies inside the workspace,
  so delivering one by its path sends it and deletes the original, although the library is
  documented as never modified.\<close>

theorem deliver_deletes_workfile:
  assumes "list_all plainSegment ws" and "list_all plainSegment ts" and "ts \<noteq> []"
  shows "UnlinkAttempt (absolutePath (ws @ WORKFILE_DIRECTORY_NAME # ts)) True \<in>
      set (fr_effects (snd (deliverFile (posixPath cwd) plainFiles plainSender (absolutePath ws) chatId False
        (absolutePath (ws @ WORKFILE_DIRECTORY_NAME # ts)) r))) \<and>
    isPathInside (posixPath cwd) (absolutePath (ws @ [WORKFILE_DIRECTORY_NAME]))
      (absolutePath (ws @ WORKFILE_DIRECTORY_NAME # ts))"
proof -
  let ?segs = "ws @ WORKFILE_DIRECTORY_NAME # ts"
  let ?file = "absolutePath ?segs"
  have w: "plainSegment WORKFILE_DIRECTORY_NAME"
    by (simp add: plainSegment_def WORKFILE_DIRECTORY_NAME_def js_def DOT_def DOTDOT_def SLASH_def)
  have segs: "list_all plainSegment ?segs" "list_all plainSegment (ws @ [WORKFILE_DIRECTORY_NAME])"
    using assms(1,2) w by simp_all
  have at: "\<not> prefix (js ''@'') ?file" by (simp add: absolutePath_def js_def SLASH_def)
  have res: "resolve cwd (absolutePath ws) ?file = ?file"
    by (simp add: resolve_def normalSegments_absolutePath [OF segs(1)])
  have stay: "\<not> leavesDirectory (posixPath cwd) (absolutePath ws) ?file"
    using leaves_iff [OF assms(1) segs(1)] by simp
  have "strict_prefix (ws @ [WORKFILE_DIRECTORY_NAME]) ?segs" using assms(3) by (auto simp: strict_prefix_def)
  then have "isPathInside (posixPath cwd) (absolutePath (ws @ [WORKFILE_DIRECTORY_NAME])) ?file"
    using inside_iff [OF segs(2,1)] by simp
  moreover have "UnlinkAttempt ?file True \<in> set (fr_effects (snd (deliverFile (posixPath cwd) plainFiles plainSender
      (absolutePath ws) chatId False ?file r)))"
    using at res stay
    by (simp add: deliverFile_def Let_def look_def plainFiles_def statProblem_def MAX_FILE_SIZE_def trySend_def
        plainSender_def tryUnlink_def)
  ultimately show ?thesis by simp
qed

theorem deliver_deletes_workfile_witness:
  "UnlinkAttempt (js ''/w/workfile/a'') True \<in> set (fr_effects (snd (deliverFile (posixPath []) plainFiles plainSender
     (js ''/w'') [] False (js ''/w/workfile/a'') \<lparr>fr_world = (), fr_effects = []\<rparr>)))"
proof -
  have p: "absolutePath ([js ''w''] @ WORKFILE_DIRECTORY_NAME # [js ''a'']) = js ''/w/workfile/a''"
    "absolutePath [js ''w''] = js ''/w''"
    by (simp_all add: absolutePath_def WORKFILE_DIRECTORY_NAME_def js_def SLASH_def)
  have "list_all plainSegment [js ''w'']" "list_all plainSegment [js ''a'']" "[js ''a''] \<noteq> []"
    by (simp_all add: plainSegment_def js_def DOT_def DOTDOT_def SLASH_def)
  from deliver_deletes_workfile [OF this, of "[]" "[]" "\<lparr>fr_world = (), fr_effects = []\<rparr>"] show ?thesis
    unfolding p by simp
qed

end
