(* ===== verification/Feishu.thy ===== *)
theory Feishu
  imports FileTools CompactionUtils Controller ControllerFacts
begin

text \<open>
  The Feishu adapter, packages/imclaw/src/feishu-adapter.ts: the type of an uploaded file,
  the two steps of sending one, the suppression of repeated events, the parsing of an event
  and the dispatch of a message to the controller.

  The platform's client is a parameter, and so is \<open>JSON.parse\<close>: \<open>parseJson\<close> gives \<open>None\<close> where
  it throws. An event is a JSON value; its fields are read as the strings that the source
  declares them to be. Times are milliseconds.
\<close>

section \<open>Sending a file\<close>

datatype feishu_file_type = FT_opus | FT_mp4 | FT_pdf | FT_doc | FT_xls | FT_ppt | FT_stream

text \<open>
  The match of the pattern: what follows the last dot, if it is not empty. No character
  outside ASCII has a lower case form in one of the names compared here.
\<close>

definition lowerExtension :: "jstr \<Rightarrow> jstr option" where
  "lowerExtension fileName =
     (let ext = rev (takeWhile (\<lambda>c. c \<noteq> 46) (rev fileName))
      in if ext = [] \<or> length ext = length fileName then None else Some (map asciiLower ext))"

definition getFeishuFileType :: "jstr \<Rightarrow> feishu_file_type" where
  "getFeishuFileType fileName =
     (case lowerExtension fileName of
        None \<Rightarrow> FT_stream
      | Some e \<Rightarrow>
          (if e = js ''pdf'' then FT_pdf else if e = js ''mp4'' then FT_mp4 else if e = js ''opus'' then FT_opus
           else if e = js ''doc'' \<or> e = js ''docx'' then FT_doc
           else if e = js ''xls'' \<or> e = js ''xlsx'' then FT_xls
           else if e = js ''ppt'' \<or> e = js ''pptx'' then FT_ppt
           else FT_stream))"

text \<open>The client: the upload answers with a key, if any; a message has a type and a content.\<close>

record 'w feishu_client =
  fc_upload :: "feishu_file_type \<Rightarrow> jstr \<Rightarrow> jstr \<Rightarrow> 'w \<Rightarrow> (jstr + jstr option) \<times> 'w"
  fc_message :: "jstr \<Rightarrow> jstr \<Rightarrow> jstr \<Rightarrow> 'w \<Rightarrow> (jstr + unit) \<times> 'w"

definition messageType :: "feishu_file_type \<Rightarrow> jstr" where
  "messageType t = (if t = FT_mp4 then js ''media'' else if t = FT_opus then js ''audio'' else js ''file'')"

definition sendFeishuFile :: "'w feishu_client \<Rightarrow> 'w file_sender" where
  "sendFeishuFile client chatId filePath fileName w =
     (let fileType = getFeishuFileType fileName
      in case fc_upload client fileType fileName filePath w of
           (Inl _, w1) \<Rightarrow> (Inl (FileDeliveryError Stage_upload (js ''Feishu file upload failed'')), w1)
         | (Inr key, w1) \<Rightarrow>
             (if \<not> truthyStr key
              then (Inl (FileDeliveryError Stage_upload (js ''Feishu file upload returned no file_key'')), w1)
              else
                (case fc_message client chatId (messageType fileType)
                        (jsonStringify (JObj [(js ''file_key'', JStr (the key))])) w1 of
                   (Inl _, w2) \<Rightarrow> (Inl (FileDeliveryError Stage_message (js ''Feishu file message send failed'')), w2)
                 | (Inr _, w2) \<Rightarrow> (Inr (), w2))))"

definition sendText :: "'w feishu_client \<Rightarrow> jstr \<Rightarrow> jstr \<Rightarrow> 'w \<Rightarrow> (jstr + unit) \<times> 'w" where
  "sendText client chatId text w =
     fc_message client chatId (js ''text'') (jsonStringify (JObj [(js ''text'', JStr text)])) w"

section \<open>Repeated events\<close>

definition DEDUPE_TTL_MS :: int where
  "DEDUPE_TTL_MS = 10 * 60 * 1000"

text \<open>The \<open>Map\<close> from message ids to the times at which they expire, in insertion order.\<close>

type_synonym dedup = "(jstr \<times> int) list"

definition isDuplicate :: "int \<Rightarrow> int \<Rightarrow> jstr \<Rightarrow> dedup \<Rightarrow> bool \<times> dedup" where
  "isDuplicate ttl now messageId seen =
     (let live = filter (\<lambda>(i, expiresAt). \<not> expiresAt \<le> now) seen
      in if messageId \<in> fst ` set live then (True, live)
         else (False, live @ [(messageId, now + ttl)]))"

section \<open>Parsing an event\<close>

datatype parsed_event =
    IgnoredEvent
  | UnsupportedEvent jstr jstr jstr
  | MessageEvent inbound_message

definition field :: "jstr \<Rightarrow> json option \<Rightarrow> json option" where
  "field key j = (case j of Some (JObj kvs) \<Rightarrow> map_of kvs key | _ \<Rightarrow> None)"

definition strField :: "jstr \<Rightarrow> json option \<Rightarrow> jstr option" where
  "strField key j = (case field key j of Some (JStr s) \<Rightarrow> Some s | _ \<Rightarrow> None)"

definition parseFeishuEvent :: "(jstr \<Rightarrow> json option) \<Rightarrow> json \<Rightarrow> parsed_event" where
  "parseFeishuEvent parseJson data =
     (let message = field (js ''message'') (Some data);
          sender = field (js ''sender'') (Some data);
          senderOpenId = strField (js ''open_id'') (field (js ''sender_id'') sender);
          messageId = strField (js ''message_id'') message;
          chatId = strField (js ''chat_id'') message
      in if \<not> truthyStr messageId \<or> \<not> truthyStr chatId \<or> strField (js ''chat_type'') message \<noteq> Some (js ''p2p'') \<or>
            strField (js ''sender_type'') sender = Some (js ''app'') \<or> \<not> truthyStr senderOpenId
         then IgnoredEvent
         else
           (let unsupported = UnsupportedEvent (the chatId) (the messageId) (the senderOpenId)
            in case strField (js ''content'') message of
                 None \<Rightarrow> unsupported
               | Some content \<Rightarrow>
                   (if strField (js ''message_type'') message \<noteq> Some (js ''text'') then unsupported
                    else (case strField (js ''text'') (parseJson content) of
                            None \<Rightarrow> unsupported
                          | Some text \<Rightarrow>
                              MessageEvent \<lparr>ib_messageId = the messageId, ib_chatId = the chatId,
                                ib_senderOpenId = the senderOpenId, ib_text = text\<rparr>))))"

section \<open>Dispatch\<close>

definition UNSUPPORTED_MESSAGE :: jstr where
  "UNSUPPORTED_MESSAGE = js ''IMclaw '' @ [30446, 21069, 21482, 25903, 25345, 25991, 26412, 28040, 24687, 12290]"

text \<open>What the handler of an event does: nothing, a reply whose failure is only logged, or the
  call of the controller.\<close>

datatype dispatch = DropEvent | ReplyText jstr jstr | HandleMessage inbound_message

fun eventIds :: "parsed_event \<Rightarrow> (jstr \<times> jstr \<times> jstr) option" where
  "eventIds IgnoredEvent = None"
| "eventIds (UnsupportedEvent chatId messageId senderOpenId) = Some (messageId, chatId, senderOpenId)"
| "eventIds (MessageEvent m) = Some (ib_messageId m, ib_chatId m, ib_senderOpenId m)"

definition receiveEvent ::
  "(jstr \<Rightarrow> json option) \<Rightarrow> jstr \<Rightarrow> int \<Rightarrow> json \<Rightarrow> dedup \<Rightarrow> dispatch \<times> dedup" where
  "receiveEvent parseJson owner now data seen =
     (let parsed = parseFeishuEvent parseJson data
      in case eventIds parsed of
           None \<Rightarrow> (DropEvent, seen)
         | Some (messageId, chatId, senderOpenId) \<Rightarrow>
             (case isDuplicate DEDUPE_TTL_MS now messageId seen of
                (True, seen') \<Rightarrow> (DropEvent, seen')
              | (False, seen') \<Rightarrow>
                  (if senderOpenId \<noteq> owner then (ReplyText chatId UNAUTHORIZED_MESSAGE, seen')
                   else (case parsed of
                           MessageEvent m \<Rightarrow> (HandleMessage m, seen')
                         | _ \<Rightarrow> (ReplyText chatId UNSUPPORTED_MESSAGE, seen')))))"

text \<open>
  The program of index.ts: the adapter's events, each with its time, drive the controller,
  between the settlements of the calls that its handlers and workers wait for.
\<close>

datatype program_event = Incoming int json | Settles event

record program =
  pg_seen :: dedup
  pg_controller :: controller
  pg_replies :: "(jstr \<times> jstr) list"

definition initialProgram :: program where
  "initialProgram = \<lparr>pg_seen = [], pg_controller = initialController, pg_replies = []\<rparr>"

fun programStep :: "(jstr \<Rightarrow> json option) \<Rightarrow> jstr \<Rightarrow> program_event \<Rightarrow> program \<Rightarrow> program" where
  "programStep parseJson owner (Incoming now data) p =
     (case receiveEvent parseJson owner now data (pg_seen p) of
        (DropEvent, seen) \<Rightarrow> p\<lparr>pg_seen := seen\<rparr>
      | (ReplyText chatId text, seen) \<Rightarrow> p\<lparr>pg_seen := seen, pg_replies := pg_replies p @ [(chatId, text)]\<rparr>
      | (HandleMessage m, seen) \<Rightarrow> p\<lparr>pg_seen := seen, pg_controller := step owner (Receive m) (pg_controller p)\<rparr>)"
| "programStep parseJson owner (Settles ev) p =
     (case ev of
        Receive m \<Rightarrow> p
      | _ \<Rightarrow> p\<lparr>pg_controller := step owner ev (pg_controller p)\<rparr>)"

definition runProgram :: "(jstr \<Rightarrow> json option) \<Rightarrow> jstr \<Rightarrow> program_event list \<Rightarrow> program \<Rightarrow> program" where
  "runProgram parseJson owner es p = fold (programStep parseJson owner) es p"

text \<open>
  Repeated events are suppressed exactly within the time to live, and what reaches the
  controller are fresh text messages that the owner sent in a private chat.
\<close>

section \<open>Suppression of repeated events\<close>

fun dedupRun :: "int \<Rightarrow> (int \<times> jstr) list \<Rightarrow> dedup \<Rightarrow> bool list" where
  "dedupRun ttl [] seen = []"
| "dedupRun ttl ((now, i) # es) seen =
     (case isDuplicate ttl now i seen of (dup, seen') \<Rightarrow> dup # dedupRun ttl es seen')"

text \<open>
  The specification remembers every accepted event for ever: an event repeats an accepted
  one with its id that is younger than the time to live.
\<close>

fun dedupSpec :: "int \<Rightarrow> (int \<times> jstr) list \<Rightarrow> (int \<times> jstr) list \<Rightarrow> bool list" where
  "dedupSpec ttl [] accepted = []"
| "dedupSpec ttl ((now, i) # es) accepted =
     (let dup = list_ex (\<lambda>(t, j). j = i \<and> now < t + ttl) accepted
      in dup # dedupSpec ttl es (if dup then accepted else (now, i) # accepted))"

definition sameMemory :: "int \<Rightarrow> int \<Rightarrow> dedup \<Rightarrow> (int \<times> jstr) list \<Rightarrow> bool" where
  "sameMemory ttl since seen accepted \<longleftrightarrow>
     (\<forall>now \<ge> since. \<forall>i. (\<exists>e. (i, e) \<in> set seen \<and> now < e) \<longleftrightarrow> (\<exists>t. (t, i) \<in> set accepted \<and> now < t + ttl))"

lemma isDuplicate_eq:
  "isDuplicate ttl now i seen =
     (let live = filter (\<lambda>(j, e). now < e) seen
      in if \<exists>e. (i, e) \<in> set seen \<and> now < e then (True, live) else (False, live @ [(i, now + ttl)]))"
proof -
  have "filter (\<lambda>(j, e). \<not> e \<le> now) seen = filter (\<lambda>(j, e). now < e) seen" by (rule filter_cong) auto
  then show ?thesis by (force simp: isDuplicate_def Let_def)
qed

lemma sameMemory_step:
  assumes mem: "sameMemory ttl since seen accepted" and now: "since \<le> now"
    and d: "isDuplicate ttl now i seen = (dup, seen')"
  shows "dup = list_ex (\<lambda>(t, j). j = i \<and> now < t + ttl) accepted"
    and "sameMemory ttl now seen' (if dup then accepted else (now, i) # accepted)"
proof -
  have "dup = (\<exists>e. (i, e) \<in> set seen \<and> now < e)"
    using d by (auto simp: isDuplicate_eq Let_def split: if_splits)
  also have "\<dots> = (\<exists>t. (t, i) \<in> set accepted \<and> now < t + ttl)" using mem now by (simp add: sameMemory_def)
  finally show "dup = list_ex (\<lambda>(t, j). j = i \<and> now < t + ttl) accepted" by (auto simp: list_ex_iff)
  have live: "(j, e) \<in> set (filter (\<lambda>(j, e). now < e) seen) \<and> later < e \<longleftrightarrow> (j, e) \<in> set seen \<and> later < e"
    if "now \<le> later" for j e later using that by auto
  have old: "(\<exists>e. (j, e) \<in> set (filter (\<lambda>(j, e). now < e) seen) \<and> later < e) \<longleftrightarrow>
      (\<exists>t. (t, j) \<in> set accepted \<and> later < t + ttl)" if "now \<le> later" for j later
    unfolding live [OF that] using mem now that by (simp add: sameMemory_def)
  have "(\<exists>e. (j, e) \<in> set seen' \<and> later < e) \<longleftrightarrow>
      (\<exists>t. (t, j) \<in> set (if dup then accepted else (now, i) # accepted) \<and> later < t + ttl)"
    if "now \<le> later" for j later
  proof (cases dup)
    case True
    then have "seen' = filter (\<lambda>(j, e). now < e) seen" using d by (auto simp: isDuplicate_eq Let_def split: if_splits)
    with old [OF that] True show ?thesis by simp
  next
    case False
    then have "seen' = filter (\<lambda>(j, e). now < e) seen @ [(i, now + ttl)]"
      using d by (auto simp: isDuplicate_eq Let_def split: if_splits)
    with old [OF that, of j] False show ?thesis by auto
  qed
  then show "sameMemory ttl now seen' (if dup then accepted else (now, i) # accepted)"
    by (simp add: sameMemory_def)
qed

lemma dedupRun_spec:
  "sameMemory ttl since seen accepted \<Longrightarrow> sorted (since # map fst es) \<Longrightarrow>
   dedupRun ttl es seen = dedupSpec ttl es accepted"
proof (induction es arbitrary: since seen accepted)
  case (Cons x es)
  obtain now i where x: "x = (now, i)" by fastforce
  obtain dup seen' where d: "isDuplicate ttl now i seen = (dup, seen')" by fastforce
  have "since \<le> now" "sorted (now # map fst es)" using Cons.prems(2) x by auto
  with sameMemory_step [OF Cons.prems(1) _ d] Cons.IH show ?case by (simp add: x d Let_def)
qed simp

section \<open>The program\<close>

text \<open>The messages that events ask the controller to handle.\<close>

definition freshMessage :: "(jstr \<Rightarrow> json option) \<Rightarrow> jstr \<Rightarrow> json \<Rightarrow> inbound_message \<Rightarrow> bool" where
  "freshMessage parseJson owner data m \<longleftrightarrow>
     parseFeishuEvent parseJson data = MessageEvent m \<and> ib_senderOpenId m = owner \<and> ib_messageId m \<noteq> [] \<and>
     strField (js ''chat_type'') (field (js ''message'') (Some data)) = Some (js ''p2p'')"

definition allowedEvent :: "(jstr \<Rightarrow> json option) \<Rightarrow> jstr \<Rightarrow> json set \<Rightarrow> event \<Rightarrow> bool" where
  "allowedEvent parseJson owner datas ev \<longleftrightarrow>
     (case ev of Receive m \<Rightarrow> (\<exists>data \<in> datas. freshMessage parseJson owner data m) | _ \<Rightarrow> True)"

definition incomingData :: "program_event list \<Rightarrow> json set" where
  "incomingData es = {data. \<exists>now. Incoming now data \<in> set es}"

lemma parsed_message:
  assumes "parseFeishuEvent parseJson data = MessageEvent m"
  shows "ib_messageId m \<noteq> []" and "strField (js ''chat_type'') (field (js ''message'') (Some data)) = Some (js ''p2p'')"
  using assms by (auto simp: parseFeishuEvent_def Let_def truthyStr_def split: if_splits option.splits)

lemma receiveEvent_handles:
  assumes "receiveEvent parseJson owner now data seen = (HandleMessage m, seen')"
  shows "freshMessage parseJson owner data m"
  using assms parsed_message [of parseJson data]
  by (auto simp: receiveEvent_def freshMessage_def Let_def
      split: option.splits prod.splits bool.splits if_splits parsed_event.splits)

lemma runProgram_controller:
  "\<exists>es'. pg_controller (runProgram parseJson owner es p) = runEvents owner es' (pg_controller p) \<and>
     list_all (allowedEvent parseJson owner (incomingData es)) es'"
proof (induction es arbitrary: p)
  case Nil
  then show ?case by (intro exI [of _ "[]"]) (simp add: runProgram_def runEvents_def)
next
  case (Cons e es)
  let ?p = "programStep parseJson owner e p"
  have mono: "allowedEvent parseJson owner (incomingData es) ev \<Longrightarrow> allowedEvent parseJson owner (incomingData (e # es)) ev" for ev
    by (auto simp: allowedEvent_def incomingData_def split: event.splits)
  from Cons.IH [of ?p] obtain es' where es': "pg_controller (runProgram parseJson owner es ?p) = runEvents owner es' (pg_controller ?p)"
    "list_all (allowedEvent parseJson owner (incomingData es)) es'" by blast
  have all: "list_all (allowedEvent parseJson owner (incomingData (e # es))) es'"
    using es'(2) mono by (auto simp: list_all_iff)
  have "\<exists>ev. (pg_controller ?p = pg_controller p \<or> pg_controller ?p = step owner ev (pg_controller p) \<and>
      allowedEvent parseJson owner (incomingData (e # es)) ev)"
  proof (cases e)
    case (Incoming now data)
    obtain d seen' where d: "receiveEvent parseJson owner now data (pg_seen p) = (d, seen')" by fastforce
    show ?thesis
    proof (cases d)
      case (HandleMessage m)
      from receiveEvent_handles [OF d [unfolded HandleMessage]]
      have "allowedEvent parseJson owner (incomingData (e # es)) (Receive m)"
        using Incoming by (auto simp: allowedEvent_def incomingData_def)
      then show ?thesis using Incoming d HandleMessage by auto
    qed (use Incoming d in auto)
  next
    case (Settles ev)
    show ?thesis
    proof (cases ev)
      case (Receive m)
      then show ?thesis using Settles by simp
    qed (use Settles in \<open>auto simp: allowedEvent_def simp del: step.simps intro!: exI [of _ ev]\<close>)
  qed
  then obtain ev where "pg_controller ?p = pg_controller p \<or> pg_controller ?p = step owner ev (pg_controller p) \<and>
      allowedEvent parseJson owner (incomingData (e # es)) ev" by blast
  then show ?case
  proof
    assume "pg_controller ?p = pg_controller p"
    with es'(1) all show ?thesis by (auto simp: runProgram_def)
  next
    assume s: "pg_controller ?p = step owner ev (pg_controller p) \<and> allowedEvent parseJson owner (incomingData (e # es)) ev"
    with es'(1) all show ?thesis
      by (intro exI [of _ "ev # es'"]) (simp add: runProgram_def runEvents_def)
  qed
qed

section \<open>Properties\<close>

text \<open>Repeated events are suppressed exactly: with a clock that does not go back, an event counts as
  a repetition if and only if one with the same id was accepted less than the time to live
  before, although expired ids are forgotten.\<close>

theorem repetitions_exactly_suppressed:
  assumes "sorted (map fst es)"
  shows "dedupRun ttl es [] = dedupSpec ttl es []"
proof (cases es)
  case (Cons x xs)
  have "sameMemory ttl (fst x) [] []" by (simp add: sameMemory_def)
  with dedupRun_spec [of ttl "fst x" "[]" "[]" es] assms Cons show ?thesis by simp
qed simp

theorem repetitions_exactly_suppressed_witness:
  "dedupRun DEDUPE_TTL_MS [(0, js ''a''), (599999, js ''a''), (600000, js ''a'')] [] = [False, True, False]"
  using repetitions_exactly_suppressed [of "[(0, js ''a''), (599999, js ''a''), (600000, js ''a'')]" DEDUPE_TTL_MS]
  by (simp add: DEDUPE_TTL_MS_def)

text \<open>Whatever events the platform delivers and however the calls settle, the controller of the
  program runs as on a sequence of its own events in which every message is one that an event
  carries as text, that the owner sent, in a private chat; so its invariants hold.\<close>

theorem program_feeds_owner_messages:
  "\<exists>es'. pg_controller (runProgram parseJson owner es initialProgram) = runEvents owner es' initialController \<and>
     list_all (allowedEvent parseJson owner (incomingData es)) es' \<and>
     controllerInv (runEvents owner es' initialController)"
  using runProgram_controller [of parseJson owner es initialProgram] run_inv [OF initial_inv(1)]
  by (auto simp: initialProgram_def)

end
