(* ===== verification/TaskGuard.thy ===== *)
theory TaskGuard
  imports NodePath Retry
begin

text \<open>
  The limits of a task, packages/imclaw/src/task-guard.ts: the counters of tool calls and
  browser starts, the checks of a shell command that starts a browser, and the run of a
  task under its guard.

  The timer is an input of the guard like the events of the session. The Windows path
  functions and the lower case mapping of the runtime are parameters.
\<close>

section \<open>Limits and messages\<close>

definition MAX_TOOL_CALLS :: nat where "MAX_TOOL_CALLS = 20"
definition MAX_BROWSER_STARTS :: nat where "MAX_BROWSER_STARTS = 2"

definition taskStopTail :: jstr where
  "taskStopTail = [65292, 24050, 20013, 27490, 24182, 28165, 29702, 20020, 26102, 25991, 20214, 12290]"

definition TASK_TIMEOUT_MESSAGE :: jstr where
  "TASK_TIMEOUT_MESSAGE =
     [20219, 21153, 24050, 36798, 21040] @ js '' 10 '' @ [20998, 38047, 36816, 34892, 38480, 21046] @ taskStopTail"

definition TOOL_LIMIT_MESSAGE :: jstr where
  "TOOL_LIMIT_MESSAGE =
     [20219, 21153, 24050, 36798, 21040] @ js '' 20 '' @ [27425, 24037, 20855, 35843, 29992, 38480, 21046] @ taskStopTail"

definition BROWSER_LIMIT_MESSAGE :: jstr where
  "BROWSER_LIMIT_MESSAGE =
     [20219, 21153, 24050, 36798, 21040] @ js '' 2 '' @
     [27425, 21518, 21488, 27983, 35272, 22120, 21551, 21160, 38480, 21046] @ taskStopTail"

definition BROWSER_POLICY_MESSAGE :: jstr where
  "BROWSER_POLICY_MESSAGE =
     [27983, 35272, 22120, 21551, 21160, 19981, 31526, 21512, 21518, 21488, 38548, 31163, 35268, 21017, 65292, 20219,
      21153, 24050, 20013, 27490, 24182, 28165, 29702, 20020, 26102, 25991, 20214, 12290]"

section \<open>Patterns\<close>

text \<open>The rest of a string after a literal, compared as the flag \<open>i\<close> compares ASCII letters.\<close>

fun afterLit :: "jstr \<Rightarrow> jstr \<Rightarrow> jstr option" where
  "afterLit [] s = Some s"
| "afterLit (c # cs) [] = None"
| "afterLit (c # cs) (x # xs) = (if foldCase x = foldCase c then afterLit cs xs else None)"

definition isQuoteChar :: "jchar \<Rightarrow> bool" where
  "isQuoteChar c \<longleftrightarrow> c = 34 \<or> c = 39"

text \<open>\<open>(?=$|[\s"'])\<close>\<close>

definition atWordEnd :: "jstr \<Rightarrow> bool" where
  "atWordEnd s \<longleftrightarrow> (case s of [] \<Rightarrow> True | c # _ \<Rightarrow> isSpace c \<or> isQuoteChar c)"

definition browserNames :: "jstr list" where
  "browserNames = [js ''msedge'', js ''chrome'', js ''chromium'', js ''google-chrome'']"

definition browserRest :: "jstr \<Rightarrow> jstr \<Rightarrow> jstr option" where
  "browserRest name s =
     (case afterLit name s of
        None \<Rightarrow> None
      | Some rest \<Rightarrow>
          (case afterLit (js ''.exe'') rest of
             Some rest' \<Rightarrow> (if atWordEnd rest' then Some rest' else if atWordEnd rest then Some rest else None)
           | None \<Rightarrow> (if atWordEnd rest then Some rest else None)))"

definition browserAfterStart :: "jstr \<Rightarrow> jstr option" where
  "browserAfterStart s =
     (case List.map_filter (\<lambda>name. browserRest name s) browserNames of [] \<Rightarrow> None | rest # _ \<Rightarrow> Some rest)"

definition startsBrowser :: "jchar \<Rightarrow> bool" where
  "startsBrowser c \<longleftrightarrow> isSpace c \<or> isQuoteChar c \<or> c = 92 \<or> c = 47"

text \<open>A match at the head of \<open>s\<close>, and what follows it; \<open>atStart\<close> at the beginning of the command.\<close>

definition browserMatch :: "bool \<Rightarrow> jstr \<Rightarrow> jstr option" where
  "browserMatch atStart s =
     orElse (if atStart then browserAfterStart s else None)
       (case s of [] \<Rightarrow> None | c # cs \<Rightarrow> (if startsBrowser c then browserAfterStart cs else None))"

text \<open>The number of matches, from left to right without overlap.\<close>

function countBrowsers :: "bool \<Rightarrow> jstr \<Rightarrow> nat" where
  "countBrowsers atStart s =
     (case browserMatch atStart s of
        Some rest \<Rightarrow> (if length rest < length s then Suc (countBrowsers False rest) else 0)
      | None \<Rightarrow> (case s of [] \<Rightarrow> 0 | c # cs \<Rightarrow> countBrowsers False cs))"
  by pat_completeness auto
termination by (relation "measure (\<lambda>(b, s). length s)") auto

declare countBrowsers.simps [simp del]

definition headlessRest :: "jstr \<Rightarrow> bool" where
  "headlessRest s \<longleftrightarrow>
     (case afterLit (js ''--headless'') s of
        None \<Rightarrow> False
      | Some rest \<Rightarrow>
          (case afterLit (js ''=new'') rest of Some rest' \<Rightarrow> rest' = [] \<or> isSpace (hd rest') | None \<Rightarrow> False) \<or>
          rest = [] \<or> isSpace (hd rest))"

fun headlessSomewhere :: "jstr \<Rightarrow> bool" where
  "headlessSomewhere [] \<longleftrightarrow> False"
| "headlessSomewhere (c # cs) \<longleftrightarrow> (isSpace c \<and> headlessRest cs) \<or> headlessSomewhere cs"

definition isHeadless :: "jstr \<Rightarrow> bool" where
  "isHeadless s \<longleftrightarrow> headlessRest s \<or> headlessSomewhere s"

definition endsBareValue :: "jchar \<Rightarrow> bool" where
  "endsBareValue c \<longleftrightarrow> isSpace c \<or> c = 59 \<or> c = 38 \<or> c = 124"

text \<open>The value of \<open>--user-data-dir\<close>: in double quotes, in single quotes or bare.\<close>

definition quotedValue :: "jchar \<Rightarrow> jstr \<Rightarrow> jstr option" where
  "quotedValue q s =
     (case s of
        [] \<Rightarrow> None
      | c # cs \<Rightarrow>
          (let v = takeWhile (\<lambda>x. x \<noteq> q) cs
           in if c = q \<and> v \<noteq> [] \<and> length v < length cs then Some v else None))"

definition optionValue :: "jstr \<Rightarrow> jstr option" where
  "optionValue s =
     orElse (quotedValue 34 s)
       (orElse (quotedValue 39 s)
          (let v = takeWhile (\<lambda>c. \<not> endsBareValue c) s in if v = [] then None else Some v))"

definition userDataDirHere :: "jstr \<Rightarrow> jstr option" where
  "userDataDirHere s =
     (case afterLit (js ''--user-data-dir'') s of
        None \<Rightarrow> None
      | Some rest \<Rightarrow>
          (case rest of
             [] \<Rightarrow> None
           | c # cs \<Rightarrow>
               (if c = 61 then optionValue cs
                else if isSpace c then optionValue (dropWhile isSpace cs) else None)))"

fun userDataDir :: "jstr \<Rightarrow> jstr option" where
  "userDataDir [] = None"
| "userDataDir (c # cs) = orElse (userDataDirHere (c # cs)) (userDataDir cs)"

section \<open>The guard\<close>

text \<open>
  The platform: its path functions, \<open>win32.resolve\<close> of one and of two paths,
  \<open>win32.isAbsolute\<close>, whether it is Windows and \<open>toLowerCase\<close>.
\<close>

record shell_platform =
  sp_paths :: path_ops
  sp_winResolve :: "jstr \<Rightarrow> jstr"
  sp_winResolve2 :: "jstr \<Rightarrow> jstr \<Rightarrow> jstr"
  sp_winIsAbsolute :: "jstr \<Rightarrow> bool"
  sp_isWindows :: bool
  sp_lower :: "jstr \<Rightarrow> jstr"

definition isLetter :: "jchar \<Rightarrow> bool" where
  "isLetter c \<longleftrightarrow> (65 \<le> c \<and> c \<le> 90) \<or> (97 \<le> c \<and> c \<le> 122)"

text \<open>The drive letter and the rest of a path under \<open>/mnt/\<close>.\<close>

definition wslMatch :: "jstr \<Rightarrow> (jchar \<times> jstr) option" where
  "wslMatch path =
     (case afterLit (js ''/mnt/'') path of
        Some (d # s # rest) \<Rightarrow>
          (if isLetter d \<and> s = SLASH \<and> list_all (\<lambda>c. \<not> isLineTerminator c) rest then Some (d, rest) else None)
      | _ \<Rightarrow> None)"

definition resolveShellPath :: "shell_platform \<Rightarrow> jstr \<Rightarrow> jstr \<Rightarrow> jstr" where
  "resolveShellPath E path workspace =
     (case wslMatch path of
        Some (d, rest) \<Rightarrow> sp_winResolve E ([d, 58, 92] @ map (\<lambda>c. if c = SLASH then 92 else c) rest)
      | None \<Rightarrow>
          (if sp_winIsAbsolute E path then sp_winResolve E path
           else if sp_isWindows E then sp_winResolve2 E workspace path
           else po_resolve (sp_paths E) workspace path))"

definition usesIsolatedProfile :: "shell_platform \<Rightarrow> jstr \<Rightarrow> jstr \<Rightarrow> bool" where
  "usesIsolatedProfile E workspace command =
     (case userDataDir command of
        None \<Rightarrow> False
      | Some rawPath \<Rightarrow>
          (let profilePath = resolveShellPath E rawPath workspace
           in sp_lower E (po_dirname (sp_paths E) profilePath) = sp_lower E workspace \<and>
              prefix (js ''.tmp-edge-profile'') (sp_lower E (po_basename (sp_paths E) profilePath))))"

record guard_event =
  ge_type :: jstr
  ge_toolName :: "jstr option"
  ge_args :: "json option"

text \<open>The state of a guard; \<open>gd_aborts\<close> counts the calls of \<open>abortTask\<close>.\<close>

record guard =
  gd_toolCalls :: nat
  gd_browserStarts :: nat
  gd_stopMessage :: "jstr option"
  gd_aborts :: nat

definition newGuard :: guard where
  "newGuard = \<lparr>gd_toolCalls = 0, gd_browserStarts = 0, gd_stopMessage = None, gd_aborts = 0\<rparr>"

definition stopGuard :: "jstr \<Rightarrow> guard \<Rightarrow> guard" where
  "stopGuard message g =
     (if gd_stopMessage g \<noteq> None then g
      else g\<lparr>gd_stopMessage := Some message, gd_aborts := gd_aborts g + 1\<rparr>)"

definition getCommand :: "json option \<Rightarrow> jstr option" where
  "getCommand args =
     (case args of
        Some (JObj kvs) \<Rightarrow> (case map_of kvs (js ''command'') of Some (JStr c) \<Rightarrow> Some c | _ \<Rightarrow> None)
      | _ \<Rightarrow> None)"

definition handleGuardEvent :: "shell_platform \<Rightarrow> jstr \<Rightarrow> guard_event \<Rightarrow> guard \<Rightarrow> guard" where
  "handleGuardEvent E workspace ev g =
     (if gd_stopMessage g \<noteq> None \<or> ge_type ev \<noteq> js ''tool_execution_start'' then g
      else
        (let g1 = g\<lparr>gd_toolCalls := gd_toolCalls g + 1\<rparr>
         in if gd_toolCalls g1 > MAX_TOOL_CALLS then stopGuard TOOL_LIMIT_MESSAGE g1
            else
              (let command = (if ge_toolName ev = Some (js ''bash'') then getCommand (ge_args ev) else None)
               in if \<not> truthyStr command then g1
                  else
                    (let browserStarts = countBrowsers True (the command)
                     in if browserStarts = 0 then g1
                        else if \<not> isHeadless (the command) \<or> \<not> usesIsolatedProfile E workspace (the command)
                          then stopGuard BROWSER_POLICY_MESSAGE g1
                        else if gd_browserStarts g1 + browserStarts > MAX_BROWSER_STARTS
                          then stopGuard BROWSER_LIMIT_MESSAGE g1
                        else g1\<lparr>gd_browserStarts := gd_browserStarts g1 + browserStarts\<rparr>))))"

text \<open>What reaches the guard while the task runs: an event of the session or the timer.\<close>

datatype guard_input = SessionEvent guard_event | TimerFires

fun guardStep :: "shell_platform \<Rightarrow> jstr \<Rightarrow> guard_input \<Rightarrow> guard \<Rightarrow> guard" where
  "guardStep E workspace (SessionEvent ev) g = handleGuardEvent E workspace ev g"
| "guardStep E workspace TimerFires g = stopGuard TASK_TIMEOUT_MESSAGE g"

section \<open>Running a task\<close>

datatype task_failure = TaskLimitError jstr | TaskError jstr

datatype guard_action = Unsubscribed | TimerCleared | CleanedUp

definition throwIfStopped :: "guard \<Rightarrow> task_failure option" where
  "throwIfStopped g = map_option TaskLimitError (gd_stopMessage g)"

text \<open>
  \<open>runTaskWithGuard\<close>: the inputs of the guard while the task runs, how the task settles and
  how the cleanup settles. The result comes with the actions of the \<open>finally\<close> block.
\<close>

definition runTaskWithGuard ::
  "shell_platform \<Rightarrow> jstr \<Rightarrow> guard_input list \<Rightarrow> jstr + 'a \<Rightarrow> jstr + unit \<Rightarrow>
   (task_failure + 'a) \<times> guard \<times> guard_action list" where
  "runTaskWithGuard E workspace inputs settled cleanup =
     (let g = fold (guardStep E (po_resolve (sp_paths E) workspace [])) inputs newGuard;
          result = (case throwIfStopped g of
                      Some limit \<Rightarrow> Inl limit
                    | None \<Rightarrow> (case settled of Inl e \<Rightarrow> Inl (TaskError e) | Inr a \<Rightarrow> Inr a));
          final = (case cleanup of Inl e \<Rightarrow> Inl (TaskError e) | Inr _ \<Rightarrow> result)
      in (final, g, [Unsubscribed, TimerCleared, CleanedUp]))"

text \<open>The guard keeps its limits, aborts once, and decides what a task returns.\<close>

definition isToolStart :: "guard_input \<Rightarrow> bool" where
  "isToolStart x = (case x of SessionEvent ev \<Rightarrow> ge_type ev = js ''tool_execution_start'' | TimerFires \<Rightarrow> False)"

definition runGuard :: "shell_platform \<Rightarrow> jstr \<Rightarrow> guard_input list \<Rightarrow> guard \<Rightarrow> guard" where
  "runGuard E workspace inputs g = fold (guardStep E workspace) inputs g"

definition guardInv :: "guard \<Rightarrow> bool" where
  "guardInv g \<longleftrightarrow> gd_browserStarts g \<le> MAX_BROWSER_STARTS \<and> gd_toolCalls g \<le> Suc MAX_TOOL_CALLS \<and>
     gd_aborts g = (if gd_stopMessage g = None then 0 else 1) \<and>
     (gd_stopMessage g = None \<longrightarrow> gd_toolCalls g \<le> MAX_TOOL_CALLS)"

lemma stopGuard_stopped [simp]: "gd_stopMessage (stopGuard m g) \<noteq> None"
  by (simp add: stopGuard_def)

lemma stopped_stays: "gd_stopMessage g \<noteq> None \<Longrightarrow> guardStep E ws x g = g"
  by (cases x) (simp_all add: handleGuardEvent_def stopGuard_def)

lemma stopped_run: "gd_stopMessage g \<noteq> None \<Longrightarrow> runGuard E ws xs g = g"
  by (induction xs) (simp_all add: runGuard_def stopped_stays)

text \<open>What an event does to a running guard: nothing, one counted call, perhaps with browser
  starts, or a stop.\<close>

definition countedCall :: "nat \<Rightarrow> guard \<Rightarrow> guard" where
  "countedCall n g = g\<lparr>gd_toolCalls := gd_toolCalls g + 1, gd_browserStarts := gd_browserStarts g + n\<rparr>"

lemma handleGuardEvent_cases:
  assumes "gd_stopMessage g = None"
  shows "(\<not> isToolStart (SessionEvent ev) \<and> handleGuardEvent E ws ev g = g) \<or>
    (isToolStart (SessionEvent ev) \<and> gd_toolCalls g < MAX_TOOL_CALLS \<and>
       (\<exists>n. (n = 0 \<or> gd_browserStarts g + n \<le> MAX_BROWSER_STARTS) \<and> handleGuardEvent E ws ev g = countedCall n g)) \<or>
    (\<exists>m. handleGuardEvent E ws ev g = stopGuard m (countedCall 0 g))"
proof (cases "isToolStart (SessionEvent ev)")
  case False
  then show ?thesis by (simp add: handleGuardEvent_def isToolStart_def)
next
  case True
  define cmd where "cmd = (if ge_toolName ev = Some (js ''bash'') then getCommand (ge_args ev) else None)"
  define n where "n = countBrowsers True (the cmd)"
  let ?h = "handleGuardEvent E ws ev g"
  have h: "?h =
      (if Suc (gd_toolCalls g) > MAX_TOOL_CALLS then stopGuard TOOL_LIMIT_MESSAGE (countedCall 0 g)
       else if \<not> truthyStr cmd \<or> n = 0 then countedCall 0 g
       else if \<not> isHeadless (the cmd) \<or> \<not> usesIsolatedProfile E ws (the cmd) then stopGuard BROWSER_POLICY_MESSAGE (countedCall 0 g)
       else if gd_browserStarts g + n > MAX_BROWSER_STARTS then stopGuard BROWSER_LIMIT_MESSAGE (countedCall 0 g)
       else countedCall n g)"
    using assms True unfolding handleGuardEvent_def Let_def isToolStart_def cmd_def [symmetric] n_def [symmetric]
    by (simp add: countedCall_def)
  consider (limit) "Suc (gd_toolCalls g) > MAX_TOOL_CALLS"
    | (plain) "Suc (gd_toolCalls g) \<le> MAX_TOOL_CALLS" "\<not> truthyStr cmd \<or> n = 0"
    | (policy) "Suc (gd_toolCalls g) \<le> MAX_TOOL_CALLS" "\<not> (\<not> truthyStr cmd \<or> n = 0)"
        "\<not> isHeadless (the cmd) \<or> \<not> usesIsolatedProfile E ws (the cmd)"
    | (browser) "Suc (gd_toolCalls g) \<le> MAX_TOOL_CALLS" "\<not> (\<not> truthyStr cmd \<or> n = 0)"
        "\<not> (\<not> isHeadless (the cmd) \<or> \<not> usesIsolatedProfile E ws (the cmd))"
    by linarith
  then show ?thesis
  proof cases
    case limit
    then have "?h = stopGuard TOOL_LIMIT_MESSAGE (countedCall 0 g)" using h by simp
    then show ?thesis by blast
  next
    case plain
    then have "?h = countedCall 0 g" using h by simp
    then show ?thesis using True plain(1) by (auto simp: Suc_le_eq)
  next
    case policy
    then have "?h = stopGuard BROWSER_POLICY_MESSAGE (countedCall 0 g)" using h by simp
    then show ?thesis by blast
  next
    case browser
    show ?thesis
    proof (cases "gd_browserStarts g + n > MAX_BROWSER_STARTS")
      case over: True
      then have "?h = stopGuard BROWSER_LIMIT_MESSAGE (countedCall 0 g)" using h browser by simp
      then show ?thesis by blast
    next
      case False
      then have "?h = countedCall n g" using h browser by simp
      moreover have "gd_browserStarts g + n \<le> MAX_BROWSER_STARTS" using False by simp
      ultimately show ?thesis using True browser(1) by (simp add: Suc_le_eq) blast
    qed
  qed
qed

lemma countedCall_sel [simp]:
  "gd_toolCalls (countedCall n g) = Suc (gd_toolCalls g)" "gd_browserStarts (countedCall n g) = gd_browserStarts g + n"
  "gd_stopMessage (countedCall n g) = gd_stopMessage g" "gd_aborts (countedCall n g) = gd_aborts g"
  by (simp_all add: countedCall_def)

lemma guardInv_step: "guardInv g \<Longrightarrow> guardInv (guardStep E ws x g)"
proof (cases "gd_stopMessage g = None")
  case False
  then show "guardInv g \<Longrightarrow> ?thesis" using stopped_stays by simp
next
  case True
  assume inv: "guardInv g"
  have stop: "guardInv (stopGuard m h)" if "gd_browserStarts h = gd_browserStarts g" "gd_toolCalls h \<le> Suc MAX_TOOL_CALLS"
      "gd_stopMessage h = None" "gd_aborts h = gd_aborts g" for m h
    using inv True that by (simp add: guardInv_def stopGuard_def)
  show ?thesis
  proof (cases x)
    case TimerFires
    then show ?thesis using stop [of g TASK_TIMEOUT_MESSAGE] inv True by (simp add: guardInv_def)
  next
    case (SessionEvent ev)
    from handleGuardEvent_cases [OF True, of ev E ws] show ?thesis
    proof (elim disjE exE conjE)
      fix m
      assume "handleGuardEvent E ws ev g = stopGuard m (countedCall 0 g)"
      then show ?thesis using SessionEvent stop [of "countedCall 0 g" m] inv True by (simp add: guardInv_def)
    qed (use SessionEvent inv True in \<open>simp_all add: guardInv_def\<close>)
  qed
qed

lemma guardInv_run: "guardInv g \<Longrightarrow> guardInv (runGuard E ws xs g)"
  by (induction xs arbitrary: g) (simp_all add: runGuard_def guardInv_step)

lemma unstopped_step:
  assumes "gd_stopMessage (guardStep E ws x g) = None"
  shows "gd_stopMessage g = None" and "x \<noteq> TimerFires"
    and "gd_toolCalls (guardStep E ws x g) = gd_toolCalls g + (if isToolStart x then 1 else 0)"
proof -
  show none: "gd_stopMessage g = None" using assms stopped_stays by metis
  show "x \<noteq> TimerFires" using assms by auto
  then obtain ev where x: "x = SessionEvent ev" by (cases x) auto
  from handleGuardEvent_cases [OF none, of ev E ws] assms
  show "gd_toolCalls (guardStep E ws x g) = gd_toolCalls g + (if isToolStart x then 1 else 0)"
    unfolding x by auto
qed

lemma unstopped_run:
  "gd_stopMessage (runGuard E ws xs g) = None \<Longrightarrow>
   TimerFires \<notin> set xs \<and> gd_toolCalls (runGuard E ws xs g) = gd_toolCalls g + length (filter isToolStart xs)"
proof (induction xs arbitrary: g)
  case (Cons x xs)
  have r: "runGuard E ws (x # xs) g = runGuard E ws xs (guardStep E ws x g)" by (simp add: runGuard_def)
  have "gd_stopMessage (guardStep E ws x g) = None"
    using Cons.prems stopped_run [of "guardStep E ws x g" E ws xs] unfolding r by metis
  with Cons.IH [of "guardStep E ws x g"] Cons.prems r unstopped_step [of E ws x g] show ?case by auto
qed (simp add: runGuard_def)

lemma newGuard_inv: "guardInv newGuard"
  by (simp add: guardInv_def newGuard_def)

lemma unstopped_within_limits:
  assumes "gd_stopMessage (runGuard E ws xs newGuard) = None"
  shows "TimerFires \<notin> set xs \<and> length (filter isToolStart xs) \<le> MAX_TOOL_CALLS"
proof -
  have "gd_toolCalls (runGuard E ws xs newGuard) \<le> MAX_TOOL_CALLS"
    using guardInv_run [OF newGuard_inv, of E ws xs] assms by (simp add: guardInv_def)
  moreover have "gd_toolCalls newGuard = 0" by (simp add: newGuard_def)
  ultimately show ?thesis using unstopped_run [OF assms] by simp
qed

text \<open>The outcome of a task from the reason of the stop, the run and the cleanup.\<close>

definition taskOutcome :: "jstr option \<Rightarrow> jstr + 'a \<Rightarrow> jstr + unit \<Rightarrow> task_failure + 'a" where
  "taskOutcome stopped settled cleanup =
     (case cleanup of
        Inl e \<Rightarrow> Inl (TaskError e)
      | Inr _ \<Rightarrow>
          (case stopped of
             Some m \<Rightarrow> Inl (TaskLimitError m)
           | None \<Rightarrow> (case settled of Inl e \<Rightarrow> Inl (TaskError e) | Inr a \<Rightarrow> Inr a)))"

lemma runTask_eq:
  "runTaskWithGuard E ws inputs settled cleanup =
   (taskOutcome (gd_stopMessage (runGuard E (po_resolve (sp_paths E) ws []) inputs newGuard)) settled cleanup,
    runGuard E (po_resolve (sp_paths E) ws []) inputs newGuard, [Unsubscribed, TimerCleared, CleanedUp])"
  unfolding runTaskWithGuard_def taskOutcome_def runGuard_def throwIfStopped_def Let_def
  by (cases "gd_stopMessage (fold (guardStep E (po_resolve (sp_paths E) ws [])) inputs newGuard)"; cases settled;
      cases cleanup; simp)

lemma taskOutcome_result: "taskOutcome stopped settled cleanup = Inr a \<Longrightarrow> settled = Inr a \<and> stopped = None"
  by (simp add: taskOutcome_def split: option.splits sum.splits)

lemma taskOutcome_stopped: "taskOutcome (Some m) settled (Inr ()) = Inl (TaskLimitError m)"
  by (simp add: taskOutcome_def)

section \<open>Samples\<close>

definition posixShell :: shell_platform where
  "posixShell = \<lparr>sp_paths = posixPath (js ''/''), sp_winResolve = id, sp_winResolve2 = (\<lambda>a b. b),
     sp_winIsAbsolute = (\<lambda>p. False), sp_isWindows = False, sp_lower = map asciiLower\<rparr>"

definition bashEvent :: "string \<Rightarrow> guard_input" where
  "bashEvent c = SessionEvent \<lparr>ge_type = js ''tool_execution_start'', ge_toolName = Some (js ''bash''),
     ge_args = Some (JObj [(js ''command'', JStr (js c))])\<rparr>"


section \<open>Properties\<close>

text \<open>Whatever events and timer reach it, a guard never counts more than two browser starts, has
  aborted the task exactly once if it has stopped and not at all otherwise, and while it has
  not stopped it has counted every tool call, at most twenty of them.\<close>

theorem guard_keeps_limits:
  "gd_browserStarts (runGuard E ws inputs newGuard) \<le> MAX_BROWSER_STARTS \<and>
   gd_aborts (runGuard E ws inputs newGuard) = (if gd_stopMessage (runGuard E ws inputs newGuard) = None then 0 else 1) \<and>
   (gd_stopMessage (runGuard E ws inputs newGuard) = None \<longrightarrow>
      length (filter isToolStart inputs) \<le> MAX_TOOL_CALLS \<and> TimerFires \<notin> set inputs)"
proof -
  have inv: "guardInv (runGuard E ws inputs newGuard)" by (rule guardInv_run [OF newGuard_inv])
  with unstopped_within_limits [of E ws inputs] show ?thesis by (simp add: guardInv_def)
qed

theorem guard_keeps_limits_witness:
  "length (filter isToolStart (replicate 20 (bashEvent ''ls''))) \<le> MAX_TOOL_CALLS \<and>
   gd_stopMessage (runGuard posixShell (js ''/w'') (replicate 20 (bashEvent ''ls'')) newGuard) = None"
proof -
  have "gd_stopMessage (runGuard posixShell (js ''/w'') (replicate 20 (bashEvent ''ls'')) newGuard) = None" by code_simp
  with guard_keeps_limits [of posixShell "js ''/w''" "replicate 20 (bashEvent ''ls'')"] show ?thesis by simp
qed

text \<open>A task returns a result only if its run did and the guard has not stopped it, so within the
  limits and the time; when the guard has stopped it and the cleanup succeeds, the task
  fails with the reason of the first stop, whatever the run itself did; and in every case
  the events are unsubscribed, the timer cleared and the temporary files cleaned up.\<close>

theorem guarded_task_result:
  assumes "runTaskWithGuard E ws inputs settled cleanup = (result, g, actions)"
  shows "actions = [Unsubscribed, TimerCleared, CleanedUp] \<and>
    (\<forall>a. result = Inr a \<longrightarrow> settled = Inr a \<and> TimerFires \<notin> set inputs \<and>
       length (filter isToolStart inputs) \<le> MAX_TOOL_CALLS) \<and>
    (\<forall>m. gd_stopMessage g = Some m \<and> cleanup = Inr () \<longrightarrow> result = Inl (TaskLimitError m))"
proof -
  let ?ws = "po_resolve (sp_paths E) ws []"
  have eqs: "g = runGuard E ?ws inputs newGuard" "actions = [Unsubscribed, TimerCleared, CleanedUp]"
    "result = taskOutcome (gd_stopMessage g) settled cleanup"
    using assms unfolding runTask_eq by blast+
  have within: "TimerFires \<notin> set inputs \<and> length (filter isToolStart inputs) \<le> MAX_TOOL_CALLS"
    if "gd_stopMessage g = None"
    by (rule unstopped_within_limits [OF that [unfolded eqs(1)]])
  have returned: "settled = Inr a \<and> gd_stopMessage g = None" if "result = Inr a" for a
    using that unfolding eqs(3) by (rule taskOutcome_result)
  show ?thesis
  proof (intro conjI allI impI)
    show "actions = [Unsubscribed, TimerCleared, CleanedUp]" by (rule eqs(2))
  next
    fix a assume r: "result = Inr a"
    show "settled = Inr a" by (rule returned [OF r, THEN conjunct1])
    show "TimerFires \<notin> set inputs" by (rule within [OF returned [OF r, THEN conjunct2], THEN conjunct1])
    show "length (filter isToolStart inputs) \<le> MAX_TOOL_CALLS"
      by (rule within [OF returned [OF r, THEN conjunct2], THEN conjunct2])
  next
    fix m assume "gd_stopMessage g = Some m \<and> cleanup = Inr ()"
    then show "result = Inl (TaskLimitError m)" unfolding eqs(3) by (simp add: taskOutcome_stopped)
  qed
qed

theorem guarded_task_result_witness:
  "fst (runTaskWithGuard posixShell (js ''/w'') [TimerFires, bashEvent ''chrome''] (Inr (1::nat)) (Inr ())) =
     Inl (TaskLimitError TASK_TIMEOUT_MESSAGE)"
proof -
  obtain result g actions where r: "runTaskWithGuard posixShell (js ''/w'') [TimerFires, bashEvent ''chrome''] (Inr (1::nat))
      (Inr ()) = (result, g, actions)" by (metis prod_cases3)
  then have "gd_stopMessage g = Some TASK_TIMEOUT_MESSAGE"
    by (auto simp: runTaskWithGuard_def Let_def newGuard_def stopGuard_def bashEvent_def handleGuardEvent_def)
  with guarded_task_result [OF r] r show ?thesis by simp
qed

text \<open>
  The checks of a browser's options look at the whole command, so one isolated headless
  browser covers for a second one with the user's profile and a window.
\<close>

lemma second_browser_unchecked:
  "runGuard posixShell (js ''/w'')
     [bashEvent ''chrome --headless --user-data-dir=.tmp-edge-profile1 about:blank; /usr/bin/chrome http://x''] newGuard =
   newGuard\<lparr>gd_toolCalls := 1, gd_browserStarts := 2\<rparr>"
  by code_simp

end
