(* ===== verification/TemporaryArtifacts.thy ===== *)
theory TemporaryArtifacts
  imports TaskGuard FileTools "HOL-Library.Multiset"
begin

text \<open>
  The cleanup after a task, packages/imclaw/src/temporary-artifacts.ts: the browsers of the
  task are stopped, and the entries of the workspace whose names are reserved for
  temporary files are removed.

  The dependencies act on a world \<open>'w\<close>; a call that rejects is \<open>Inl\<close> with the message. The
  attempts to remove are logged, and so are the lines of the error log.
\<close>

section \<open>Reserved names\<close>

definition startsWithLit :: "string \<Rightarrow> jstr \<Rightarrow> bool" where
  "startsWithLit lit s \<longleftrightarrow> afterLit (js lit) s \<noteq> None"

definition equalsLit :: "string \<Rightarrow> jstr \<Rightarrow> bool" where
  "equalsLit lit s \<longleftrightarrow> afterLit (js lit) s = Some []"

text \<open>The rest of the pattern of the browser's output files: no line terminator up to the extension.\<close>

definition endsInOutput :: "jstr \<Rightarrow> bool" where
  "endsInOutput s \<longleftrightarrow>
     4 \<le> length s \<and> list_all (\<lambda>c. \<not> isLineTerminator c) (take (length s - 4) s) \<and>
     (equalsLit ''.out'' (drop (length s - 4) s) \<or> equalsLit ''.err'' (drop (length s - 4) s))"

definition isReservedName :: "jstr \<Rightarrow> bool" where
  "isReservedName name \<longleftrightarrow>
     startsWithLit ''.tmp-edge-profile'' name \<or>
     startsWithLit ''.tmp-cdp-'' name \<or>
     (case afterLit (js ''.tmp-edge'') name of None \<Rightarrow> False | Some rest \<Rightarrow> endsInOutput rest) \<or>
     equalsLit ''.tmp-reply-urls.json'' name \<or>
     equalsLit ''.tmp-video-body.txt'' name"

section \<open>The cleanup\<close>

record 'w cleanup_dependencies =
  cd_stopTemporaryBrowsers :: "jstr \<Rightarrow> 'w \<Rightarrow> (jstr + unit) \<times> 'w"
  cd_remove :: "jstr \<Rightarrow> 'w \<Rightarrow> (jstr + unit) \<times> 'w"
  cd_listNames :: "jstr \<Rightarrow> 'w \<Rightarrow> (jstr + jstr list) \<times> 'w"

record cleanup_report =
  rp_removed :: "jstr list"
  rp_errors :: "(jstr \<times> jstr) list"

text \<open>A run of the cleanup: the world, the attempts to remove and the lines of the error log.\<close>

record 'w cleanup_run =
  cl_world :: 'w
  cl_attempts :: "jstr list"
  cl_logged :: "jstr list"
  cl_report :: cleanup_report

definition recordError :: "jstr \<Rightarrow> jstr \<Rightarrow> 'w cleanup_run \<Rightarrow> 'w cleanup_run" where
  "recordError path message r =
     r\<lparr>cl_report := (cl_report r)\<lparr>rp_errors := rp_errors (cl_report r) @ [(path, message)]\<rparr>,
       cl_logged := cl_logged r @ [js ''Failed to clean IMclaw temporary resource: '' @ path]\<rparr>"

definition removeOne :: "'w cleanup_dependencies \<Rightarrow> jstr \<Rightarrow> 'w cleanup_run \<Rightarrow> 'w cleanup_run" where
  "removeOne D target r =
     (case cd_remove D target (cl_world r) of
        (res, w) \<Rightarrow>
          (let r1 = r\<lparr>cl_world := w, cl_attempts := cl_attempts r @ [target]\<rparr>
           in case res of
                Inl e \<Rightarrow> recordError target e r1
              | Inr _ \<Rightarrow>
                  r1\<lparr>cl_report := (cl_report r1)\<lparr>rp_removed := rp_removed (cl_report r1) @ [target]\<rparr>\<rparr>))"

fun removeReserved ::
  "path_ops \<Rightarrow> 'w cleanup_dependencies \<Rightarrow> jstr \<Rightarrow> jstr list \<Rightarrow> 'w cleanup_run \<Rightarrow> 'w cleanup_run" where
  "removeReserved P D workspace [] r = r"
| "removeReserved P D workspace (name # names) r =
     (if \<not> isReservedName name then removeReserved P D workspace names r
      else removeReserved P D workspace names (removeOne D (po_join P [workspace, name]) r))"

definition startCleanup :: "'w \<Rightarrow> 'w cleanup_run" where
  "startCleanup w =
     \<lparr>cl_world = w, cl_attempts = [], cl_logged = [], cl_report = \<lparr>rp_removed = [], rp_errors = []\<rparr>\<rparr>"

definition stopBrowsersFirst :: "'w cleanup_dependencies \<Rightarrow> jstr \<Rightarrow> 'w cleanup_run \<Rightarrow> 'w cleanup_run" where
  "stopBrowsersFirst D workspace r =
     (case cd_stopTemporaryBrowsers D workspace (cl_world r) of
        (Inl e, w) \<Rightarrow> recordError (js ''<temporary-browser-processes>'') e (r\<lparr>cl_world := w\<rparr>)
      | (Inr _, w) \<Rightarrow> r\<lparr>cl_world := w\<rparr>)"

definition cleanupTemporaryArtifacts ::
  "path_ops \<Rightarrow> 'w cleanup_dependencies \<Rightarrow> jstr \<Rightarrow> 'w \<Rightarrow> 'w cleanup_run" where
  "cleanupTemporaryArtifacts P D workspace w =
     (let resolvedWorkspace = po_resolve P workspace [];
          r = stopBrowsersFirst D resolvedWorkspace (startCleanup w)
      in case cd_listNames D resolvedWorkspace (cl_world r) of
           (Inl e, w') \<Rightarrow> recordError resolvedWorkspace e (r\<lparr>cl_world := w'\<rparr>)
         | (Inr names, w') \<Rightarrow> removeReserved P D resolvedWorkspace names (r\<lparr>cl_world := w'\<rparr>))"

text \<open>
  \<open>stopWindowsTemporaryBrowsers\<close>: nothing but on Windows, where a script stops the browsers
  whose command line has the marker. Running the script with a marker is a parameter.
\<close>

definition stopWindowsTemporaryBrowsers ::
  "shell_platform \<Rightarrow> (jstr \<Rightarrow> 'w \<Rightarrow> (jstr + unit) \<times> 'w) \<Rightarrow> jstr \<Rightarrow> 'w \<Rightarrow> (jstr + unit) \<times> 'w" where
  "stopWindowsTemporaryBrowsers E runScript workspace w =
     (if \<not> sp_isWindows E then (Inr (), w)
      else runScript (po_join (sp_paths E) [workspace, js ''.tmp-edge-profile'']) w)"

section \<open>What the cleanup touches\<close>

lemma recordError_sel [simp]:
  "cl_world (recordError p m r) = cl_world r" "cl_attempts (recordError p m r) = cl_attempts r"
  "rp_removed (cl_report (recordError p m r)) = rp_removed (cl_report r)"
  "rp_errors (cl_report (recordError p m r)) = rp_errors (cl_report r) @ [(p, m)]"
  by (simp_all add: recordError_def)

lemma removeOne_attempts [simp]: "cl_attempts (removeOne D t r) = cl_attempts r @ [t]"
  by (auto simp: removeOne_def Let_def split: prod.split sum.split)

lemma removeReserved_attempts:
  "cl_attempts (removeReserved P D ws names r) = cl_attempts r @ map (\<lambda>n. po_join P [ws, n]) (filter isReservedName names)"
  by (induction names arbitrary: r) simp_all

text \<open>Each attempt is reported, as a removal or as an error.\<close>

lemma removeOne_report:
  "(rp_removed (cl_report (removeOne D t r)) = rp_removed (cl_report r) @ [t] \<and>
      rp_errors (cl_report (removeOne D t r)) = rp_errors (cl_report r)) \<or>
   (\<exists>e. rp_removed (cl_report (removeOne D t r)) = rp_removed (cl_report r) \<and>
      rp_errors (cl_report (removeOne D t r)) = rp_errors (cl_report r) @ [(t, e)])"
  by (auto simp: removeOne_def Let_def split: prod.split sum.split)

lemma removeReserved_report:
  "\<exists>rem err. rp_removed (cl_report (removeReserved P D ws names r)) = rp_removed (cl_report r) @ rem \<and>
     rp_errors (cl_report (removeReserved P D ws names r)) = rp_errors (cl_report r) @ err \<and>
     mset rem + mset (map fst err) = mset (map (\<lambda>n. po_join P [ws, n]) (filter isReservedName names))"
proof (induction names arbitrary: r)
  case (Cons n names)
  show ?case
  proof (cases "isReservedName n")
    case True
    let ?r = "removeOne D (po_join P [ws, n]) r"
    from Cons.IH [of ?r] obtain rem err where ih:
      "rp_removed (cl_report (removeReserved P D ws names ?r)) = rp_removed (cl_report ?r) @ rem"
      "rp_errors (cl_report (removeReserved P D ws names ?r)) = rp_errors (cl_report ?r) @ err"
      "mset rem + mset (map fst err) = mset (map (\<lambda>n. po_join P [ws, n]) (filter isReservedName names))" by blast
    from removeOne_report [of D "po_join P [ws, n]" r] show ?thesis
    proof (elim disjE exE conjE)
      assume "rp_removed (cl_report ?r) = rp_removed (cl_report r) @ [po_join P [ws, n]]"
        "rp_errors (cl_report ?r) = rp_errors (cl_report r)"
      then show ?thesis
        using ih True by (intro exI [of _ "po_join P [ws, n] # rem"] exI [of _ err]) simp
    next
      fix e assume "rp_removed (cl_report ?r) = rp_removed (cl_report r)"
        "rp_errors (cl_report ?r) = rp_errors (cl_report r) @ [(po_join P [ws, n], e)]"
      then show ?thesis
        using ih True by (intro exI [of _ rem] exI [of _ "(po_join P [ws, n], e) # err"]) simp
    qed
  qed (use Cons.IH [of r] in simp)
qed simp

text \<open>The cleanup removes nothing but the reserved entries of the workspace, and reports all of them.\<close>

section \<open>Children of a directory\<close>

lemma joinWith_snoc: "segs \<noteq> [] \<Longrightarrow> joinWith [SLASH] (segs @ [n]) = joinWith [SLASH] segs @ SLASH # n"
proof (induction segs)
  case (Cons x xs)
  then show ?case by (cases "xs = []") (simp_all add: joinWith_Cons)
qed simp

lemma last_plainSegment: "plainSegment n \<Longrightarrow> last n \<noteq> SLASH"
  by (metis last_in_set plainSegment_def)

lemma splitOn_child:
  assumes "list_all plainSegment segs" and "plainSegment n"
  shows "normalSegments False (absolutePath segs @ SLASH # n) = segs @ [n]"
proof (cases "segs = []")
  case True
  have n: "SLASH \<notin> set n" using assms(2) by (simp add: plainSegment_def)
  have "splitOn SLASH (SLASH # SLASH # n) = [[], [], n]"
    using splitOn_append_sep [of SLASH "[]" "SLASH # n"] splitOn_append_sep [of SLASH "[]" n] splitOn_id [OF n] by simp
  moreover have "pushSegment False [] [] = []" by (simp add: pushSegment_def)
  ultimately show ?thesis using True
    by (simp add: normalSegments_def absolutePath_def pushSegment_plain [OF assms(2)])
next
  case False
  have "absolutePath segs @ SLASH # n = absolutePath (segs @ [n])"
    by (simp add: absolutePath_def joinWith_snoc [OF False])
  then show ?thesis using assms normalSegments_absolutePath [of "segs @ [n]"] by simp
qed

lemma pathJoin_child:
  assumes "list_all plainSegment segs" and "plainSegment n"
  shows "pathJoin [absolutePath segs, n] = absolutePath (segs @ [n])"
proof -
  have n: "n \<noteq> []" using assms(2) by (simp add: plainSegment_def)
  let ?p = "absolutePath segs @ SLASH # n"
  have "isAbsolute ?p" "last ?p = last n" "?p \<noteq> []" using n by (simp_all add: isAbsolute_def absolutePath_def)
  then have "pathNormalize ?p = SLASH # joinWith [SLASH] (segs @ [n])"
    using splitOn_child [OF assms] last_plainSegment [OF assms(2)] n
    by (auto simp: pathNormalize_def Let_def absolutePath_def)
  with n show ?thesis by (simp add: pathJoin_def absolutePath_def)
qed

lemma resolve_absolutePath: "\<exists>segs. list_all plainSegment segs \<and> resolve cwd p q = absolutePath segs"
  unfolding resolve_def using normalSegments_plain by blast

section \<open>Properties\<close>

text \<open>The cleanup touches only the reserved entries of the workspace: the paths it tries to
  remove are those of the listed entries with a reserved name, each once and in order, all
  of them inside the workspace; a removal that fails does not stop the others, and each
  attempt is reported as a removal or as an error.\<close>

theorem cleanup_removes_only_reserved:
  assumes "cd_stopTemporaryBrowsers D (resolve cwd workspace []) w = (stopped, w1)"
    and "cd_listNames D (resolve cwd workspace []) w1 = (Inr names, w2)"
    and "list_all plainSegment names"
  shows "cl_attempts (cleanupTemporaryArtifacts (posixPath cwd) D workspace w) =
       map (\<lambda>n. pathJoin [resolve cwd workspace [], n]) (filter isReservedName names) \<and>
     list_all (isPathInside (posixPath cwd) (resolve cwd workspace []))
       (cl_attempts (cleanupTemporaryArtifacts (posixPath cwd) D workspace w)) \<and>
     mset (rp_removed (cl_report (cleanupTemporaryArtifacts (posixPath cwd) D workspace w))) +
       mset (map fst (rp_errors (cl_report (cleanupTemporaryArtifacts (posixPath cwd) D workspace w)))) =
     mset (cl_attempts (cleanupTemporaryArtifacts (posixPath cwd) D workspace w)) +
       (if isl stopped then {#js ''<temporary-browser-processes>''#} else {#})"
proof -
  let ?ws = "resolve cwd workspace []"
  define r where "r = stopBrowsersFirst D ?ws (startCleanup w)"
  have r: "cl_world r = w1" "cl_attempts r = []" "rp_removed (cl_report r) = []"
    "mset (map fst (rp_errors (cl_report r))) = (if isl stopped then {#js ''<temporary-browser-processes>''#} else {#})"
    using assms(1) by (cases stopped; simp add: r_def stopBrowsersFirst_def startCleanup_def)+
  define r' where "r' = r\<lparr>cl_world := w2\<rparr>"
  have eq: "cleanupTemporaryArtifacts (posixPath cwd) D workspace w = removeReserved (posixPath cwd) D ?ws names r'"
    by (simp add: cleanupTemporaryArtifacts_def r_def [symmetric] r'_def Let_def r(1) assms(2))
  have attempts: "cl_attempts (removeReserved (posixPath cwd) D ?ws names r') =
      map (\<lambda>n. pathJoin [?ws, n]) (filter isReservedName names)"
    using removeReserved_attempts [of "posixPath cwd" D ?ws names r'] r(2) by (simp add: r'_def)
  obtain segs where segs: "list_all plainSegment segs" "?ws = absolutePath segs" using resolve_absolutePath by blast
  have inside: "isPathInside (posixPath cwd) ?ws (pathJoin [?ws, n])" if "n \<in> set names" for n
  proof -
    have n: "plainSegment n" using that assms(3) by (simp add: list_all_iff)
    have "isPathInside (posixPath cwd) (absolutePath segs) (absolutePath (segs @ [n]))"
      using inside_iff [OF segs(1), of "segs @ [n]" cwd] segs(1) n by (simp add: strict_prefix_def)
    then show ?thesis by (simp only: segs(2) pathJoin_child [OF segs(1) n])
  qed
  from removeReserved_report [of "posixPath cwd" D ?ws names r'] r(3,4) show ?thesis
    unfolding eq attempts using inside by (auto simp: r'_def list_all_iff)
qed

text \<open>A file system in which nothing can be removed, with a reserved and an ordinary entry.\<close>

definition sampleCleanup :: "unit cleanup_dependencies" where
  "sampleCleanup = \<lparr>cd_stopTemporaryBrowsers = (\<lambda>ws u. (Inr (), u)), cd_remove = (\<lambda>p u. (Inl (js ''busy''), u)),
     cd_listNames = (\<lambda>ws u. (Inr [js ''src'', js ''.TMP-cdp-1'', js ''.tmp-edge.out''], u))\<rparr>"

theorem cleanup_removes_only_reserved_witness:
  "cl_attempts (cleanupTemporaryArtifacts (posixPath (js ''/'')) sampleCleanup (js ''/w'') ()) =
     [js ''/w/.TMP-cdp-1'', js ''/w/.tmp-edge.out''] \<and>
   list_all (isPathInside (posixPath (js ''/'')) (js ''/w'')) [js ''/w/.TMP-cdp-1'', js ''/w/.tmp-edge.out'']"
proof -
  have ws: "resolve (js ''/'') (js ''/w'') [] = js ''/w''" by code_simp
  have names: "map (\<lambda>n. pathJoin [js ''/w'', n])
      (filter isReservedName [js ''src'', js ''.TMP-cdp-1'', js ''.tmp-edge.out'']) =
    [js ''/w/.TMP-cdp-1'', js ''/w/.tmp-edge.out'']" by code_simp
  have plain: "list_all plainSegment [js ''src'', js ''.TMP-cdp-1'', js ''.tmp-edge.out'']"
    by (simp add: plainSegment_def js_def DOT_def DOTDOT_def SLASH_def)
  have stopped: "cd_stopTemporaryBrowsers sampleCleanup (js ''/w'') () = (Inr (), ())"
    and listed: "cd_listNames sampleCleanup (js ''/w'') () =
      (Inr [js ''src'', js ''.TMP-cdp-1'', js ''.tmp-edge.out''], ())"
    by (simp_all add: sampleCleanup_def)
  note cleanup = cleanup_removes_only_reserved [of sampleCleanup "js ''/''" "js ''/w''" "()", unfolded ws,
      OF stopped listed plain, unfolded names]
  show ?thesis using cleanup [THEN conjunct1] cleanup [THEN conjunct2, THEN conjunct1] by simp
qed

end
