(* ===== verification/JsonlStorage.thy ===== *)
theory JsonlStorage
  imports MemoryStorage CompactionUtils
begin

text \<open>
  The session storage in a file of JSON lines, packages/agent/src/harness/session/jsonl-storage.ts:
  the parsing and checking of the header and the entry lines, opening and creating a
  storage, and its operations. The functions it shares with the in-memory storage,
  line for line, are those of theory MemoryStorage.

  The files are a state of their own, with the contract that the interface \<open>FileSystem\<close> of
  harness/types.ts documents; any operation may fail, as a schedule of faults says, and
  then changes nothing. \<open>JSON.parse\<close> of a line, \<open>JSON.stringify\<close> of an entry and the cast of a
  checked object to an entry are parameters; the header's text is computed.
\<close>

section \<open>Files\<close>

datatype file_error_code =
  FE_aborted | FE_not_found | FE_permission_denied | FE_not_directory | FE_is_directory | FE_invalid
| FE_not_supported | FE_unknown

record file_error =
  fe_code :: file_error_code
  fe_message :: jstr

record file_store =
  fst_content :: "jstr \<Rightarrow> jstr option"
  fst_fault :: "nat \<Rightarrow> file_error option"
  fst_ops :: nat
  fst_missing :: "jstr \<Rightarrow> jstr"

definition nextOp :: "file_store \<Rightarrow> file_error option \<times> file_store" where
  "nextOp w = (fst_fault w (fst_ops w), w\<lparr>fst_ops := Suc (fst_ops w)\<rparr>)"

definition readTextFile :: "jstr \<Rightarrow> file_store \<Rightarrow> (file_error + jstr) \<times> file_store" where
  "readTextFile path w =
     (case nextOp w of
        (Some e, w1) \<Rightarrow> (Inl e, w1)
      | (None, w1) \<Rightarrow>
          (case fst_content w path of
             None \<Rightarrow> (Inl \<lparr>fe_code = FE_not_found, fe_message = fst_missing w path\<rparr>, w1)
           | Some c \<Rightarrow> (Inr c, w1)))"

text \<open>At most \<open>n\<close> lines; a line ends with a line feed, which a carriage return may precede.\<close>

definition textLines :: "jstr \<Rightarrow> jstr list" where
  "textLines c =
     (let ls = map (\<lambda>l. if l \<noteq> [] \<and> last l = 13 then butlast l else l) (splitOn 10 c)
      in if last ls = [] then butlast ls else ls)"

definition readTextLines :: "nat \<Rightarrow> jstr \<Rightarrow> file_store \<Rightarrow> (file_error + jstr list) \<times> file_store" where
  "readTextLines n path w =
     (case readTextFile path w of (Inl e, w1) \<Rightarrow> (Inl e, w1) | (Inr c, w1) \<Rightarrow> (Inr (take n (textLines c)), w1))"

definition writeFile :: "jstr \<Rightarrow> jstr \<Rightarrow> file_store \<Rightarrow> (file_error + unit) \<times> file_store" where
  "writeFile path c w =
     (case nextOp w of
        (Some e, w1) \<Rightarrow> (Inl e, w1)
      | (None, w1) \<Rightarrow> (Inr (), w1\<lparr>fst_content := (fst_content w)(path \<mapsto> c)\<rparr>))"

definition appendFile :: "jstr \<Rightarrow> jstr \<Rightarrow> file_store \<Rightarrow> (file_error + unit) \<times> file_store" where
  "appendFile path c w =
     (case nextOp w of
        (Some e, w1) \<Rightarrow> (Inl e, w1)
      | (None, w1) \<Rightarrow> (Inr (), w1\<lparr>fst_content := (fst_content w)(path \<mapsto> orDefault (fst_content w path) [] @ c)\<rparr>))"

text \<open>\<open>getFileSystemResultOrThrow\<close>\<close>

definition fileFailure :: "jstr \<Rightarrow> file_error \<Rightarrow> session_error" where
  "fileFailure message e =
     \<lparr>se_code = (if fe_code e = FE_not_found then SE_not_found else SE_storage),
      se_message = message @ js '': '' @ fe_message e\<rparr>"

definition getFileSystemResultOrThrow :: "jstr \<Rightarrow> file_error + 'a \<Rightarrow> session_error + 'a" where
  "getFileSystemResultOrThrow message res = map_sum (fileFailure message) id res"

section \<open>Header and entry lines\<close>

record session_header =
  sh_id :: jstr
  sh_timestamp :: jstr
  sh_cwd :: jstr
  sh_parentSession :: "jstr option"
  sh_metadata :: "(jstr \<times> json) list option"

record jsonl_metadata = session_metadata +
  jm_cwd :: jstr
  jm_path :: jstr
  jm_parentSessionPath :: "jstr option"
  jm_metadata :: "(jstr \<times> json) list option"

definition optField :: "string \<Rightarrow> json option \<Rightarrow> (jstr \<times> json) list" where
  "optField k v = (case v of None \<Rightarrow> [] | Some x \<Rightarrow> [(js k, x)])"

text \<open>The object that \<open>create\<close> writes; a property that is undefined has no text.\<close>

definition headerFields :: "session_header \<Rightarrow> (jstr \<times> json) list" where
  "headerFields h =
     [(js ''type'', JStr (js ''session'')), (js ''version'', JNum 3), (js ''id'', JStr (sh_id h)),
      (js ''timestamp'', JStr (sh_timestamp h)), (js ''cwd'', JStr (sh_cwd h))] @
     optField ''parentSession'' (map_option JStr (sh_parentSession h)) @
     optField ''metadata'' (map_option JObj (sh_metadata h))"

definition headerText :: "session_header \<Rightarrow> jstr" where
  "headerText h = jsonStringify (JObj (headerFields h))"

definition invalidSessionFile :: "jstr \<Rightarrow> jstr \<Rightarrow> session_error" where
  "invalidSessionFile filePath message =
     \<lparr>se_code = SE_invalid_session, se_message = js ''Invalid JSONL session file '' @ filePath @ js '': '' @ message\<rparr>"

definition invalidEntryLine :: "jstr \<Rightarrow> nat \<Rightarrow> jstr \<Rightarrow> session_error" where
  "invalidEntryLine filePath lineNumber message =
     \<lparr>se_code = SE_invalid_entry, se_message = js ''Invalid JSONL session file '' @ filePath @ js '': line '' @
        showNat lineNumber @ js '' '' @ message\<rparr>"

record jsonl_codec =
  jc_parse :: "jstr \<Rightarrow> json option"
  jc_entryText :: "entry \<Rightarrow> jstr"
  jc_asEntry :: "(jstr \<times> json) list \<Rightarrow> entry"

text \<open>The properties of a parsed object; an array has none of those that are read.\<close>

definition objectFields :: "json \<Rightarrow> (jstr \<times> json) list option" where
  "objectFields j = (case j of JObj kvs \<Rightarrow> Some kvs | JArr _ \<Rightarrow> Some [] | _ \<Rightarrow> None)"

definition isString :: "json option \<Rightarrow> bool" where
  "isString v = (case v of Some (JStr _) \<Rightarrow> True | _ \<Rightarrow> False)"

definition nonEmptyString :: "json option \<Rightarrow> bool" where
  "nonEmptyString v = (case v of Some (JStr s) \<Rightarrow> s \<noteq> [] | _ \<Rightarrow> False)"

definition stringOf :: "json option \<Rightarrow> jstr" where
  "stringOf v = (case v of Some (JStr s) \<Rightarrow> s | _ \<Rightarrow> [])"

definition parseHeaderLine :: "jsonl_codec \<Rightarrow> jstr \<Rightarrow> jstr \<Rightarrow> session_error + session_header" where
  "parseHeaderLine C line filePath =
     (let bad = (\<lambda>m. Inl (invalidSessionFile filePath (js m)))
      in case jc_parse C line of
           None \<Rightarrow> bad ''first line is not a valid session header''
         | Some parsed \<Rightarrow>
             (case objectFields parsed of
                None \<Rightarrow> bad ''first line is not a valid session header''
              | Some kvs \<Rightarrow>
                  (let f = (\<lambda>k. map_of kvs (js k))
                   in if f ''type'' \<noteq> Some (JStr (js ''session'')) then bad ''first line is not a valid session header''
                      else if f ''version'' \<noteq> Some (JNum 3) then bad ''unsupported session version''
                      else if \<not> nonEmptyString (f ''id'') then bad ''session header is missing id''
                      else if \<not> nonEmptyString (f ''timestamp'') then bad ''session header is missing timestamp''
                      else if \<not> nonEmptyString (f ''cwd'') then bad ''session header is missing cwd''
                      else if f ''parentSession'' \<noteq> None \<and> \<not> isString (f ''parentSession'')
                        then bad ''session header parentSession must be a string''
                      else
                        (case f ''metadata'' of
                           Some (JObj md) \<Rightarrow>
                             Inr \<lparr>sh_id = stringOf (f ''id''), sh_timestamp = stringOf (f ''timestamp''),
                                  sh_cwd = stringOf (f ''cwd''),
                                  sh_parentSession = map_option (\<lambda>v. stringOf (Some v)) (f ''parentSession''),
                                  sh_metadata = Some md\<rparr>
                         | None \<Rightarrow>
                             Inr \<lparr>sh_id = stringOf (f ''id''), sh_timestamp = stringOf (f ''timestamp''),
                                  sh_cwd = stringOf (f ''cwd''),
                                  sh_parentSession = map_option (\<lambda>v. stringOf (Some v)) (f ''parentSession''),
                                  sh_metadata = None\<rparr>
                         | Some _ \<Rightarrow> bad ''session header metadata must be an object''))))"

definition nullOrString :: "json option \<Rightarrow> bool" where
  "nullOrString v \<longleftrightarrow> v = Some JNull \<or> isString v"

definition parseEntryLine :: "jsonl_codec \<Rightarrow> jstr \<Rightarrow> jstr \<Rightarrow> nat \<Rightarrow> session_error + entry" where
  "parseEntryLine C line filePath lineNumber =
     (let bad = (\<lambda>m. Inl (invalidEntryLine filePath lineNumber (js m)))
      in case jc_parse C line of
           None \<Rightarrow> bad ''is not valid JSON''
         | Some parsed \<Rightarrow>
             (case objectFields parsed of
                None \<Rightarrow> bad ''is not a valid session entry''
              | Some kvs \<Rightarrow>
                  (let f = (\<lambda>k. map_of kvs (js k))
                   in if \<not> isString (f ''type'') then bad ''is missing entry type''
                      else if \<not> nonEmptyString (f ''id'') then bad ''is missing entry id''
                      else if \<not> nullOrString (f ''parentId'') then bad ''has invalid parentId''
                      else if \<not> nonEmptyString (f ''timestamp'') then bad ''is missing timestamp''
                      else if f ''type'' = Some (JStr (js ''leaf'')) \<and> \<not> nullOrString (f ''targetId'')
                        then bad ''has invalid targetId''
                      else Inr (jc_asEntry C kvs))))"

section \<open>Opening and creating\<close>

definition headerToSessionMetadata :: "session_header \<Rightarrow> jstr \<Rightarrow> jsonl_metadata" where
  "headerToSessionMetadata h path =
     \<lparr>sm_id = sh_id h, sm_createdAt = sh_timestamp h, jm_cwd = sh_cwd h, jm_path = path,
      jm_parentSessionPath = sh_parentSession h, jm_metadata = sh_metadata h\<rparr>"

definition loadJsonlSessionMetadata ::
  "jsonl_codec \<Rightarrow> jstr \<Rightarrow> file_store \<Rightarrow> (session_error + jsonl_metadata) \<times> file_store" where
  "loadJsonlSessionMetadata C filePath w =
     (case readTextLines 1 filePath w of
        (Inl e, w1) \<Rightarrow> (Inl (fileFailure (js ''Failed to read session header '' @ filePath) e), w1)
      | (Inr ls, w1) \<Rightarrow>
          (case ls of
             line # _ \<Rightarrow>
               (if trim line \<noteq> []
                then (map_sum id (\<lambda>h. headerToSessionMetadata h filePath) (parseHeaderLine C line filePath), w1)
                else (Inl (invalidSessionFile filePath (js ''missing session header'')), w1))
           | [] \<Rightarrow> (Inl (invalidSessionFile filePath (js ''missing session header'')), w1)))"

fun parseEntryLines :: "jsonl_codec \<Rightarrow> jstr \<Rightarrow> nat \<Rightarrow> jstr list \<Rightarrow> session_error + entry list" where
  "parseEntryLines C filePath i [] = Inr []"
| "parseEntryLines C filePath i (line # lines) =
     (case parseEntryLine C line filePath (i + 1) of
        Inl e \<Rightarrow> Inl e
      | Inr en \<Rightarrow>
          (case parseEntryLines C filePath (i + 1) lines of Inl e \<Rightarrow> Inl e | Inr ens \<Rightarrow> Inr (en # ens)))"

definition leafAfter :: "entry list \<Rightarrow> jstr option" where
  "leafAfter es = fold (\<lambda>e _. leafIdAfterEntry e) es None"

definition parseContent :: "jsonl_codec \<Rightarrow> jstr \<Rightarrow> jstr \<Rightarrow> session_error + session_header \<times> entry list \<times> jstr option" where
  "parseContent C filePath content =
     (case filter (\<lambda>line. trim line \<noteq> []) (splitOn 10 content) of
        [] \<Rightarrow> Inl (invalidSessionFile filePath (js ''missing session header''))
      | line # lines \<Rightarrow>
          (case parseHeaderLine C line filePath of
             Inl e \<Rightarrow> Inl e
           | Inr header \<Rightarrow>
               (case parseEntryLines C filePath 1 lines of
                  Inl e \<Rightarrow> Inl e
                | Inr es \<Rightarrow> Inr (header, es, leafAfter es))))"

definition loadJsonlStorage ::
  "jsonl_codec \<Rightarrow> jstr \<Rightarrow> file_store \<Rightarrow> (session_error + session_header \<times> entry list \<times> jstr option) \<times> file_store" where
  "loadJsonlStorage C filePath w =
     (case readTextFile filePath w of
        (Inl e, w1) \<Rightarrow> (Inl (fileFailure (js ''Failed to read session '' @ filePath) e), w1)
      | (Inr content, w1) \<Rightarrow> (parseContent C filePath content, w1))"

record jsonl_storage =
  jl_filePath :: jstr
  jl_metadata :: jsonl_metadata
  jl_entries :: "entry list"
  jl_byId :: "jstr \<Rightarrow> entry option"
  jl_labelsById :: "jstr \<Rightarrow> jstr option"
  jl_leafId :: "jstr option"
  jl_calls :: nat
  jl_files :: file_store

definition newJsonlStorage ::
  "jstr \<Rightarrow> session_header \<Rightarrow> entry list \<Rightarrow> jstr option \<Rightarrow> nat \<Rightarrow> file_store \<Rightarrow> jsonl_storage" where
  "newJsonlStorage filePath header es leaf n w =
     \<lparr>jl_filePath = filePath, jl_metadata = headerToSessionMetadata header filePath, jl_entries = es,
      jl_byId = indexById es, jl_labelsById = buildLabelsById es, jl_leafId = leaf, jl_calls = n, jl_files = w\<rparr>"

definition jsonlOpen :: "jsonl_codec \<Rightarrow> jstr \<Rightarrow> nat \<Rightarrow> file_store \<Rightarrow> (session_error + jsonl_storage) \<times> file_store" where
  "jsonlOpen C filePath n w =
     (case loadJsonlStorage C filePath w of
        (Inl e, w1) \<Rightarrow> (Inl e, w1)
      | (Inr (header, es, leaf), w1) \<Rightarrow> (Inr (newJsonlStorage filePath header es leaf n w1), w1))"

record jsonl_create_options =
  jo_cwd :: jstr
  jo_sessionId :: jstr
  jo_parentSessionPath :: "jstr option"
  jo_metadata :: "(jstr \<times> json) list option"

definition jsonlCreate ::
  "id_source \<Rightarrow> jstr \<Rightarrow> jsonl_create_options \<Rightarrow> nat \<Rightarrow> file_store \<Rightarrow> (session_error + jsonl_storage) \<times> file_store" where
  "jsonlCreate src filePath opts n w =
     (let header = \<lparr>sh_id = jo_sessionId opts, sh_timestamp = is_clock src n, sh_cwd = jo_cwd opts,
            sh_parentSession = jo_parentSessionPath opts, sh_metadata = jo_metadata opts\<rparr>
      in case writeFile filePath (headerText header @ [10]) w of
           (Inl e, w1) \<Rightarrow> (Inl (fileFailure (js ''Failed to create session '' @ filePath) e), w1)
         | (Inr _, w1) \<Rightarrow> (Inr (newJsonlStorage filePath header [] None (Suc n) w1), w1))"

section \<open>Operations\<close>

definition jsonlGetLeafId :: "jsonl_storage \<Rightarrow> session_error + jstr option" where
  "jsonlGetLeafId s =
     (case jl_leafId s of
        Some i \<Rightarrow> (if jl_byId s i = None then Inl (invalidSession i) else Inr (Some i))
      | None \<Rightarrow> Inr None)"

definition jsonlCreateEntryId :: "id_source \<Rightarrow> jsonl_storage \<Rightarrow> jstr \<times> jsonl_storage" where
  "jsonlCreateEntryId src s =
     (case generateEntryId 100 src (jl_byId s) (jl_calls s) of (i, n) \<Rightarrow> (i, s\<lparr>jl_calls := n\<rparr>))"

definition jsonlSetLeafId ::
  "jsonl_codec \<Rightarrow> id_source \<Rightarrow> jstr option \<Rightarrow> jsonl_storage \<Rightarrow> (session_error + unit) \<times> jsonl_storage" where
  "jsonlSetLeafId C src leaf s =
     (if leaf \<noteq> None \<and> jl_byId s (the leaf) = None then (Inl (notFound (the leaf)), s)
      else (case jsonlCreateEntryId src s of (i, s1) \<Rightarrow>
              let e = \<lparr>en_id = i, en_parentId = jl_leafId s1, en_timestamp = is_clock src (jl_calls s1),
                       en_body = E_leaf leaf\<rparr>;
                  s2 = s1\<lparr>jl_calls := Suc (jl_calls s1)\<rparr>
              in case appendFile (jl_filePath s2) (jc_entryText C e @ [10]) (jl_files s2) of
                   (Inl fe, w) \<Rightarrow>
                     (Inl (fileFailure (js ''Failed to append session leaf '' @ en_id e) fe), s2\<lparr>jl_files := w\<rparr>)
                 | (Inr _, w) \<Rightarrow>
                     (Inr (), s2\<lparr>jl_files := w, jl_entries := jl_entries s2 @ [e],
                                 jl_byId := (jl_byId s2)(i \<mapsto> e), jl_leafId := leaf\<rparr>)))"

definition jsonlAppendEntry :: "jsonl_codec \<Rightarrow> entry \<Rightarrow> jsonl_storage \<Rightarrow> (session_error + unit) \<times> jsonl_storage" where
  "jsonlAppendEntry C e s =
     (case appendFile (jl_filePath s) (jc_entryText C e @ [10]) (jl_files s) of
        (Inl fe, w) \<Rightarrow>
          (Inl (fileFailure (js ''Failed to append session entry '' @ en_id e) fe), s\<lparr>jl_files := w\<rparr>)
      | (Inr _, w) \<Rightarrow>
          (Inr (), s\<lparr>jl_files := w, jl_entries := jl_entries s @ [e], jl_byId := (jl_byId s)(en_id e \<mapsto> e),
             jl_labelsById := updateLabelCache e (jl_labelsById s), jl_leafId := leafIdAfterEntry e\<rparr>))"

definition jsonlGetEntry :: "jstr \<Rightarrow> jsonl_storage \<Rightarrow> entry option" where
  "jsonlGetEntry i s = jl_byId s i"

definition jsonlFindEntries :: "(entry_body \<Rightarrow> bool) \<Rightarrow> jsonl_storage \<Rightarrow> entry list" where
  "jsonlFindEntries isType s = filter (\<lambda>e. isType (en_body e)) (jl_entries s)"

definition jsonlGetLabel :: "jstr \<Rightarrow> jsonl_storage \<Rightarrow> jstr option" where
  "jsonlGetLabel i s = jl_labelsById s i"

definition jsonlGetSessionName :: "jsonl_storage \<Rightarrow> jstr option" where
  "jsonlGetSessionName s =
     (case rev (jsonlFindEntries isSessionInfo s) of
        [] \<Rightarrow> None
      | e # _ \<Rightarrow>
          (case en_body e of
             E_sessionInfo name \<Rightarrow>
               (let n = map_option trim name in if truthyStr n then n else None)
           | _ \<Rightarrow> None))"

definition jsonlGetSessionStats :: "jsonl_storage \<Rightarrow> session_stats" where
  "jsonlGetSessionStats s = fold addToStats (jl_entries s) emptyStats"

definition jsonlGetPath :: "jstr option \<Rightarrow> jsonl_storage \<Rightarrow> (session_error + entry list) option" where
  "jsonlGetPath leaf s =
     (case leaf of
        None \<Rightarrow> Some (Inr [])
      | Some i \<Rightarrow>
          (case jl_byId s i of
             None \<Rightarrow> Some (Inl (notFound i))
           | Some e \<Rightarrow> walkPath (jl_byId s) e None []))"

definition jsonlGetEntries :: "cursor_options \<Rightarrow> jsonl_storage \<Rightarrow> entry list" where
  "jsonlGetEntries opts s =
     (let start = orDefault (co_afterEntrySeq opts) 0
      in case co_limit opts of
           None \<Rightarrow> drop start (jl_entries s)
         | Some l \<Rightarrow> slice start (start + l) (jl_entries s))"

definition jsonlStorageOps :: "jsonl_codec \<Rightarrow> id_source \<Rightarrow> jsonl_storage storage_ops" where
  "jsonlStorageOps C src =
     \<lparr>so_getLeafId = jsonlGetLeafId, so_setLeafId = jsonlSetLeafId C src,
      so_createEntryId = jsonlCreateEntryId src, so_appendEntry = jsonlAppendEntry C,
      so_getEntry = jsonlGetEntry, so_getEntries = jsonlGetEntries, so_getPath = jsonlGetPath,
      so_getLabel = jsonlGetLabel, so_getSessionName = jsonlGetSessionName,
      so_getSessionStats = jsonlGetSessionStats, so_now = (\<lambda>s. is_clock src (jl_calls s))\<rparr>"

end
