(* ===== verification/JsonlStorageFacts.thy ===== *)
theory JsonlStorageFacts
  imports JsonlStorage MemoryStorageFacts
begin

text \<open>
  A storage in a file behaves as one in memory while the file can be written, so it too is
  a \<open>session_store\<close>; and its file always holds the header and one line per entry, so that
  opening it again restores the storage.
\<close>

section \<open>The storage in memory\<close>

definition asMemory :: "jsonl_storage \<Rightarrow> mem_storage" where
  "asMemory s =
     \<lparr>ms_metadata = \<lparr>sm_id = sm_id (jl_metadata s), sm_createdAt = sm_createdAt (jl_metadata s)\<rparr>,
      ms_entries = jl_entries s, ms_byId = jl_byId s, ms_labelsById = jl_labelsById s, ms_leafId = jl_leafId s,
      ms_calls = jl_calls s\<rparr>"

lemma asMemory_sel [simp]:
  "ms_entries (asMemory s) = jl_entries s" "ms_byId (asMemory s) = jl_byId s" "ms_leafId (asMemory s) = jl_leafId s"
  "ms_labelsById (asMemory s) = jl_labelsById s" "ms_calls (asMemory s) = jl_calls s"
  by (simp_all add: asMemory_def)

text \<open>From now on no file operation fails.\<close>

definition filesWork :: "file_store \<Rightarrow> bool" where
  "filesWork w \<longleftrightarrow> (\<forall>n \<ge> fst_ops w. fst_fault w n = None)"

lemma appendFile_works:
  assumes "filesWork w"
  shows "\<exists>w'. appendFile p c w = (Inr (), w') \<and> filesWork w'"
  using assms by (auto simp: appendFile_def nextOp_def filesWork_def)

lemma asMemory_reads:
  "jsonlGetLeafId s = memGetLeafId (asMemory s)" "jsonlGetEntry i s = ms_byId (asMemory s) i"
  "jsonlGetPath l s = memGetPath l (asMemory s)" "jsonlGetEntries c s = memGetEntries c (asMemory s)"
  "jsonlGetLabel i s = memGetLabel i (asMemory s)" "jsonlGetSessionName s = memGetSessionName (asMemory s)"
  "jsonlGetSessionStats s = memGetSessionStats (asMemory s)" "jsonlFindEntries p s = memFindEntries p (asMemory s)"
  by (simp_all add: jsonlGetLeafId_def memGetLeafId_def jsonlGetEntry_def jsonlGetPath_def memGetPath_def
      jsonlGetEntries_def memGetEntries_def jsonlGetLabel_def memGetLabel_def jsonlGetSessionName_def
      memGetSessionName_def jsonlFindEntries_def memFindEntries_def jsonlGetSessionStats_def memGetSessionStats_def Let_def
      cong: option.case_cong)

lemma asMemory_create:
  "jsonlCreateEntryId src s = (i, s') \<Longrightarrow>
   memCreateEntryId src (asMemory s) = (i, asMemory s') \<and> jl_files s' = jl_files s"
  by (auto simp: jsonlCreateEntryId_def memCreateEntryId_def asMemory_def split: prod.splits)

lemma asMemory_append:
  assumes "filesWork (jl_files s)"
  shows "\<exists>s'. jsonlAppendEntry C e s = (Inr (), s') \<and> asMemory s' = memAppendEntry e (asMemory s) \<and>
    filesWork (jl_files s')"
proof -
  obtain w where "appendFile (jl_filePath s) (jc_entryText C e @ [10]) (jl_files s) = (Inr (), w)" "filesWork w"
    using appendFile_works [OF assms] by blast
  then show ?thesis by (auto simp: jsonlAppendEntry_def memAppendEntry_def asMemory_def)
qed

lemma asMemory_setLeaf:
  assumes "filesWork (jl_files s)"
  shows "\<exists>res s'. jsonlSetLeafId C src l s = (res, s') \<and>
    memSetLeafId src l (asMemory s) = (res, asMemory s') \<and> filesWork (jl_files s')"
proof (cases "l \<noteq> None \<and> jl_byId s (the l) = None")
  case True
  with assms show ?thesis by (simp add: jsonlSetLeafId_def memSetLeafId_def)
next
  case False
  obtain i s1 where c: "jsonlCreateEntryId src s = (i, s1)" by fastforce
  note c' = asMemory_create [OF c]
  let ?e = "\<lparr>en_id = i, en_parentId = jl_leafId s1, en_timestamp = is_clock src (jl_calls s1), en_body = E_leaf l\<rparr>"
  have works: "filesWork (jl_files s1)" using assms c' by simp
  obtain w where w: "appendFile (jl_filePath s1) (jc_entryText C ?e @ [10]) (jl_files s1) = (Inr (), w)" "filesWork w"
    using appendFile_works [OF works] by blast
  let ?s = "s1\<lparr>jl_calls := Suc (jl_calls s1), jl_files := w, jl_entries := jl_entries s1 @ [?e],
      jl_byId := (jl_byId s1)(i \<mapsto> ?e), jl_leafId := l\<rparr>"
  have run: "jsonlSetLeafId C src l s = (Inr (), ?s)"
    unfolding jsonlSetLeafId_def if_not_P [OF False] c prod.case Let_def using w(1) by simp
  have "memSetLeafId src l (asMemory s) = (Inr (), asMemory ?s)"
    using False c' by (auto simp: memSetLeafId_def Let_def asMemory_def)
  with run w(2) show ?thesis by simp
qed

section \<open>As a session store\<close>

definition jsonlInv :: "id_source \<Rightarrow> jsonl_storage \<Rightarrow> bool" where
  "jsonlInv src s \<longleftrightarrow> memInv src (asMemory s) \<and> filesWork (jl_files s)"

lemma jsonlStorageOps_sel [simp]:
  "so_getLeafId (jsonlStorageOps C src) s = memGetLeafId (asMemory s)"
  "so_setLeafId (jsonlStorageOps C src) = jsonlSetLeafId C src"
  "so_createEntryId (jsonlStorageOps C src) = jsonlCreateEntryId src"
  "so_appendEntry (jsonlStorageOps C src) = jsonlAppendEntry C"
  "so_getEntry (jsonlStorageOps C src) i s = ms_byId (asMemory s) i"
  "so_getPath (jsonlStorageOps C src) l s = memGetPath l (asMemory s)"
  "so_getEntries (jsonlStorageOps C src) c s = memGetEntries c (asMemory s)"
  "so_getLabel (jsonlStorageOps C src) i s = memGetLabel i (asMemory s)"
  "so_now (jsonlStorageOps C src) s = is_clock src (ms_calls (asMemory s))"
  by (simp_all add: jsonlStorageOps_def asMemory_reads)

interpretation jsonl: session_store "jsonlStorageOps C src" "jsonlInv src" "\<lambda>i s. memUsable src i (asMemory s)"
  for C src
proof
  fix s :: jsonl_storage and l
  assume inv: "jsonlInv src s"
  then have m: "memInv src (asMemory s)" "filesWork (jl_files s)" by (simp_all add: jsonlInv_def)
  show "\<exists>l. so_getLeafId (jsonlStorageOps C src) s = Inr l \<and>
      (l = None \<or> so_getEntry (jsonlStorageOps C src) (the l) s \<noteq> None)"
    using mem.leaf [OF m(1)] by simp
  show "\<exists>path. so_getPath (jsonlStorageOps C src) l s = Some (Inr path)"
    if "l = None \<or> so_getEntry (jsonlStorageOps C src) (the l) s \<noteq> None"
    using memGetPath_ok [OF m(1), of l] that by simp
  show "\<exists>s'. so_setLeafId (jsonlStorageOps C src) l s = (Inr (), s') \<and> jsonlInv src s' \<and>
        so_getLeafId (jsonlStorageOps C src) s' = Inr l \<and>
        (\<forall>j e. so_getEntry (jsonlStorageOps C src) j s = Some e \<longrightarrow>
          so_getEntry (jsonlStorageOps C src) j s' = Some e) \<and>
        so_getPath (jsonlStorageOps C src) l s' = so_getPath (jsonlStorageOps C src) l s"
    if that: "l = None \<or> so_getEntry (jsonlStorageOps C src) (the l) s \<noteq> None"
  proof -
    obtain res s' where s': "jsonlSetLeafId C src l s = (res, s')"
        "memSetLeafId src l (asMemory s) = (res, asMemory s')" "filesWork (jl_files s')"
      using asMemory_setLeaf [OF m(2)] by blast
    from memSetLeafId_ok [OF m(1), of l] that s' show ?thesis by (auto simp: jsonlInv_def)
  qed
next
  fix s i s' j l
  assume inv: "jsonlInv src s" and c: "so_createEntryId (jsonlStorageOps C src) s = (i, s')"
  from c have "jsonlCreateEntryId src s = (i, s')" by simp
  note c' = asMemory_create [OF this]
  have m: "memInv src (asMemory s)" "so_createEntryId (memoryStorageOps src) (asMemory s) = (i, asMemory s')"
    using inv c' by (simp_all add: jsonlInv_def)
  from mem.create [OF m, of j l] inv c'
  show "jsonlInv src s' \<and> memUsable src i (asMemory s') \<and> so_getEntry (jsonlStorageOps C src) i s = None \<and>
      so_getLeafId (jsonlStorageOps C src) s' = so_getLeafId (jsonlStorageOps C src) s \<and>
      so_getEntry (jsonlStorageOps C src) j s' = so_getEntry (jsonlStorageOps C src) j s \<and>
      so_getPath (jsonlStorageOps C src) l s' = so_getPath (jsonlStorageOps C src) l s"
    by (simp add: jsonlInv_def)
next
  fix s and e :: entry
  assume a: "jsonlInv src s" "memUsable src (en_id e) (asMemory s)"
    "en_parentId e = None \<or> so_getEntry (jsonlStorageOps C src) (the (en_parentId e)) s \<noteq> None"
    "\<forall>t. en_body e \<noteq> E_leaf t"
  obtain s' where s': "jsonlAppendEntry C e s = (Inr (), s')" "asMemory s' = memAppendEntry e (asMemory s)"
      "filesWork (jl_files s')"
    using asMemory_append a(1) unfolding jsonlInv_def by blast
  have "jl_byId s' = ms_byId (memAppendEntry e (asMemory s))" using asMemory_sel(2) [of s'] s'(2) by simp
  with memAppendEntry_ok [of src "asMemory s" e] a s'
  show "\<exists>s'. so_appendEntry (jsonlStorageOps C src) e s = (Inr (), s') \<and> jsonlInv src s' \<and>
      so_getLeafId (jsonlStorageOps C src) s' = Inr (Some (en_id e)) \<and>
      (\<forall>j. so_getEntry (jsonlStorageOps C src) j s' =
        (if j = en_id e then Some e else so_getEntry (jsonlStorageOps C src) j s))"
    by (auto simp: jsonlInv_def)
next
  fix s and e :: entry and path
  assume a: "jsonlInv src s" "memUsable src (en_id e) (asMemory s)"
    "en_parentId e = None \<or> so_getEntry (jsonlStorageOps C src) (the (en_parentId e)) s \<noteq> None"
    "\<not> isCompaction (en_body e)" "so_getPath (jsonlStorageOps C src) (en_parentId e) s = Some (Inr path)"
  obtain s' where s': "jsonlAppendEntry C e s = (Inr (), s')" "asMemory s' = memAppendEntry e (asMemory s)"
    using asMemory_append a(1) unfolding jsonlInv_def by blast
  with memAppendEntry_path [of src "asMemory s" e path] a
  show "so_getPath (jsonlStorageOps C src) (Some (en_id e)) (snd (so_appendEntry (jsonlStorageOps C src) e s)) =
      Some (Inr (path @ [e]))"
    by (simp add: jsonlInv_def)
qed

section \<open>Sessions over a file and over memory\<close>

lemma asMemory_appendAtLeaf:
  assumes works: "filesWork (jl_files s)"
  shows "\<exists>res s'. appendAtLeaf (jsonlStorageOps C src) body s = (res, s') \<and>
    appendAtLeaf (memoryStorageOps src) body (asMemory s) = (res, asMemory s') \<and> filesWork (jl_files s')"
proof -
  obtain i s1 where c: "jsonlCreateEntryId src s = (i, s1)" by fastforce
  note c' = asMemory_create [OF c]
  have w1: "filesWork (jl_files s1)" using works c' by simp
  show ?thesis
  proof (cases "memGetLeafId (asMemory s1)")
    case (Inl e)
    with c c' w1 show ?thesis by (simp add: appendAtLeaf_def)
  next
    case (Inr leaf)
    let ?e = "\<lparr>en_id = i, en_parentId = leaf, en_timestamp = is_clock src (jl_calls s1), en_body = body\<rparr>"
    obtain s2 where s2: "jsonlAppendEntry C ?e s1 = (Inr (), s2)" "asMemory s2 = memAppendEntry ?e (asMemory s1)"
        "filesWork (jl_files s2)"
      using asMemory_append [OF w1] by blast
    have "appendAtLeaf (jsonlStorageOps C src) body s = (Inr i, s2)"
      using c s2(1) Inr by (simp add: appendAtLeaf_def)
    moreover have "appendAtLeaf (memoryStorageOps src) body (asMemory s) = (Inr i, asMemory s2)"
      using c' s2(2) Inr by (simp add: appendAtLeaf_def memoryStorageOps_def)
    ultimately show ?thesis using s2(3) by blast
  qed
qed

lemma asMemory_moveTo:
  assumes works: "filesWork (jl_files s)"
  shows "\<exists>res s'. moveTo (jsonlStorageOps C src) entryId summary s = (res, s') \<and>
    moveTo (memoryStorageOps src) entryId summary (asMemory s) = (res, asMemory s') \<and> filesWork (jl_files s')"
proof (cases "entryId \<noteq> None \<and> jl_byId s (the entryId) = None")
  case True
  with works show ?thesis by (auto simp: moveTo_def)
next
  case False
  obtain r s1 where s1: "jsonlSetLeafId C src entryId s = (r, s1)"
      "memSetLeafId src entryId (asMemory s) = (r, asMemory s1)" "filesWork (jl_files s1)"
    using asMemory_setLeaf [OF works] by blast
  have guards: "\<not> (entryId \<noteq> None \<and> so_getEntry (jsonlStorageOps C src) (the entryId) s = None)"
    "\<not> (entryId \<noteq> None \<and> so_getEntry (memoryStorageOps src) (the entryId) (asMemory s) = None)"
    using False by simp_all
  note eqs = moveTo_def [of "jsonlStorageOps C src" entryId summary s, unfolded if_not_P [OF guards(1)]]
    moveTo_def [of "memoryStorageOps src" entryId summary "asMemory s", unfolded if_not_P [OF guards(2)]]
  show ?thesis
  proof (cases "isl r \<or> summary = None")
    case True
    then show ?thesis using s1 unfolding eqs by (cases r) auto
  next
    case go: False
    then obtain sm where sm: "summary = Some sm" "r = Inr ()" by (cases r) auto
    obtain i s2 where c: "jsonlCreateEntryId src s1 = (i, s2)" by fastforce
    note c' = asMemory_create [OF c]
    have w2: "filesWork (jl_files s2)" using s1(3) c' by simp
    let ?e = "\<lparr>en_id = i, en_parentId = entryId, en_timestamp = is_clock src (jl_calls s2),
        en_body = E_branchSummary \<lparr>bd_fromId = orDefault entryId (js ''root''), bd_summary = mv_summary sm,
          bd_details = mv_details sm, bd_usage = mv_usage sm, bd_fromHook = mv_fromHook sm\<rparr>\<rparr>"
    obtain s3 where s3: "jsonlAppendEntry C ?e s2 = (Inr (), s3)" "asMemory s3 = memAppendEntry ?e (asMemory s2)"
        "filesWork (jl_files s3)"
      using asMemory_append [OF w2] by blast
    have "moveTo (jsonlStorageOps C src) entryId summary s = (Inr (Some i), s3)"
      unfolding eqs using s1(1) sm c s3(1) by simp
    moreover have "moveTo (memoryStorageOps src) entryId summary (asMemory s) = (Inr (Some i), asMemory s3)"
      unfolding eqs using s1(2) sm c' s3(2) by (simp add: memoryStorageOps_def)
    ultimately show ?thesis using s3(3) by blast
  qed
qed

lemma asMemory_getBranch: "getBranch (jsonlStorageOps C src) f s = getBranch (memoryStorageOps src) f (asMemory s)"
  by (cases f; cases "memGetLeafId (asMemory s)") (simp_all add: getBranch_def)

lemma asMemory_buildContext:
  "buildContext getTime (jsonlStorageOps C src) own opts s = buildContext getTime (memoryStorageOps src) own opts (asMemory s)"
  by (simp add: buildContext_def asMemory_getBranch)

end
