(* ===== verification/JsonlStorageProps.thy ===== *)
theory JsonlStorageProps
  imports JsonlStorageFacts SessionProps
begin

text \<open>The file of a storage holds all of it, and a session does not see the difference to memory.\<close>

section \<open>Lines\<close>

definition oneLine :: "jstr \<Rightarrow> bool" where
  "oneLine l \<longleftrightarrow> 10 \<notin> set l \<and> trim l \<noteq> []"

definition linesText :: "jstr list \<Rightarrow> jstr" where
  "linesText ls = concat (map (\<lambda>l. l @ [10]) ls)"

lemma splitOn_linesText: "list_all oneLine ls \<Longrightarrow> splitOn 10 (linesText ls) = ls @ [[]]"
  by (induction ls) (simp_all add: linesText_def oneLine_def splitOn_append_sep)

lemma filter_lines: "list_all oneLine ls \<Longrightarrow> filter (\<lambda>l. trim l \<noteq> []) (ls @ [[]]) = ls"
  by (induction ls) (simp_all add: oneLine_def trim_def trimEnd_def trimStart_def)

text \<open>The text of a JSON value is one line: control characters are escaped.\<close>

lemma unit_neq:
  assumes "k < 65536" and "k \<noteq> 10"
  shows "(of_nat k :: jchar) \<noteq> 10"
proof
  assume "(of_nat k :: jchar) = 10"
  then have "unat (of_nat k :: jchar) = unat (10 :: jchar)" by (rule arg_cong)
  with assms show False by (simp add: unat_of_nat)
qed

lemma showNat_no_newline: "10 \<notin> set (showNat n)"
proof (induction n rule: less_induct)
  case (less n)
  show ?case
  proof (cases "n < 10")
    case True
    then show ?thesis using unit_neq [of "48 + n"] by (simp add: showNat.simps del: of_nat_add)
  next
    case False
    then have "10 \<notin> set (showNat (n div 10))" using less.IH by simp
    with False unit_neq [of "48 + n mod 10"] show ?thesis by (subst showNat.simps) (simp del: of_nat_add)
  qed
qed

lemma joinWith_no: "c \<notin> set sep \<Longrightarrow> \<forall>l \<in> set ls. c \<notin> set l \<Longrightarrow> c \<notin> set (joinWith sep ls)"
  by (induction sep ls rule: joinWith.induct) simp_all

lemma hexDigit_no_newline: "n < 16 \<Longrightarrow> hexDigit n \<noteq> 10"
  unfolding hexDigit_def by (rule unit_neq) auto

lemma unicodeEscape_no_newline: "10 \<notin> set (unicodeEscape c)"
proof -
  have "unat c < 65536" using unsigned_less [of c, where ?'a = nat] by simp
  then have "unat c div 4096 < 16" by simp
  then show ?thesis
    using hexDigit_no_newline [of "unat c div 4096"] hexDigit_no_newline [of "unat c div 256 mod 16"]
      hexDigit_no_newline [of "unat c div 16 mod 16"] hexDigit_no_newline [of "unat c mod 16"]
    by (simp add: unicodeEscape_def Let_def)
qed

lemma escapeUnit_no_newline: "10 \<notin> set (escapeUnit c)"
  using unicodeEscape_no_newline by (simp add: escapeUnit_def)

lemma quoteBody_no_newline: "10 \<notin> set (quoteBody s)"
proof (induction s rule: quoteBody.induct)
  case (3 c d cs)
  show ?case
  proof (cases "isHighSurrogate c \<and> isLowSurrogate d")
    case True
    then have "c \<noteq> 10" "d \<noteq> 10" by (auto simp: isHighSurrogate_def isLowSurrogate_def)
    with True 3 show ?thesis by simp
  next
    case False
    with 3 escapeUnit_no_newline [of c] show ?thesis by (simp only: quoteBody.simps if_not_P set_append) simp
  qed
qed (simp_all add: escapeUnit_no_newline)

lemma quoteJson_no_newline: "10 \<notin> set (quoteJson s)"
  by (simp add: quoteJson_def QUOTE_def quoteBody_no_newline)

lemma jsonStringify_no_newline: "10 \<notin> set (jsonStringify j)"
proof (induction j)
  case (JArr xs)
  then have "\<forall>l \<in> set (map jsonStringify xs). 10 \<notin> set l" by auto
  from joinWith_no [OF _ this, of "js '',''"] show ?case by (simp add: js_def)
next
  case (JObj kvs)
  have "10 \<notin> set (quoteJson k @ js '':'' @ jsonStringify v)" if "(k, v) \<in> set kvs" for k v
    using JObj [of "(k, v)" v] that quoteJson_no_newline [of k] by (simp add: js_def)
  then have "\<forall>l \<in> set (map (\<lambda>(k, v). quoteJson k @ js '':'' @ jsonStringify v) kvs). 10 \<notin> set l" by auto
  from joinWith_no [OF _ this, of "js '',''"] show ?case by (simp add: js_def)
qed (simp_all add: js_def showInt_def showNat_no_newline quoteJson_no_newline)

lemma trim_not_blank: "c \<in> set s \<Longrightarrow> \<not> isSpace c \<Longrightarrow> trim s \<noteq> []"
proof -
  assume c: "c \<in> set s" "\<not> isSpace c"
  have "c \<in> set (takeWhile isSpace s) \<or> c \<in> set (dropWhile isSpace s)"
    using c(1) by (metis Un_iff set_append takeWhile_dropWhile_id)
  with c(2) have "c \<in> set (dropWhile isSpace s)" by (auto dest: set_takeWhileD)
  with c(2) show ?thesis by (auto simp: trim_def trimEnd_def trimStart_def dropWhile_eq_Nil_conv)
qed

lemma headerText_oneLine: "oneLine (headerText h)"
proof -
  have "hd (headerText h) = 123" "headerText h \<noteq> []" by (simp_all add: headerText_def js_def)
  then have "123 \<in> set (headerText h)" by (metis hd_in_set)
  moreover have "\<not> isSpace 123" by (simp add: isSpace_def)
  ultimately show ?thesis
    using jsonStringify_no_newline trim_not_blank by (metis headerText_def oneLine_def)
qed

section \<open>The law of the codec\<close>

text \<open>
  What the storage relies on for an entry: its text is one line, and parsing it gives an
  object with the entry's own type, id, parent, time and target, read back as the entry.
\<close>

fun entryType :: "entry_body \<Rightarrow> string" where
  "entryType (E_message _) = ''message''"
| "entryType (E_thinkingLevelChange _) = ''thinking_level_change''"
| "entryType (E_modelChange _ _) = ''model_change''"
| "entryType (E_activeToolsChange _) = ''active_tools_change''"
| "entryType (E_compaction _) = ''compaction''"
| "entryType (E_branchSummary _) = ''branch_summary''"
| "entryType (E_custom _ _) = ''custom''"
| "entryType (E_customMessage _) = ''custom_message''"
| "entryType (E_label _ _) = ''label''"
| "entryType (E_sessionInfo _) = ''session_info''"
| "entryType (E_leaf _) = ''leaf''"

definition idJson :: "jstr option \<Rightarrow> json" where
  "idJson i = (case i of None \<Rightarrow> JNull | Some s \<Rightarrow> JStr s)"

definition hasFields :: "(jstr \<times> json) list \<Rightarrow> entry \<Rightarrow> bool" where
  "hasFields kvs e \<longleftrightarrow>
     map_of kvs (js ''type'') = Some (JStr (js (entryType (en_body e)))) \<and>
     map_of kvs (js ''id'') = Some (JStr (en_id e)) \<and>
     map_of kvs (js ''parentId'') = Some (idJson (en_parentId e)) \<and>
     map_of kvs (js ''timestamp'') = Some (JStr (en_timestamp e)) \<and>
     (case en_body e of E_leaf target \<Rightarrow> map_of kvs (js ''targetId'') = Some (idJson target) | _ \<Rightarrow> True)"

definition encodes :: "jsonl_codec \<Rightarrow> entry \<Rightarrow> bool" where
  "encodes C e \<longleftrightarrow> en_id e \<noteq> [] \<and> en_timestamp e \<noteq> [] \<and> oneLine (jc_entryText C e) \<and>
     (\<exists>kvs. jc_parse C (jc_entryText C e) = Some (JObj kvs) \<and> hasFields kvs e \<and> jc_asEntry C kvs = e)"

definition encodesHeader :: "jsonl_codec \<Rightarrow> session_header \<Rightarrow> bool" where
  "encodesHeader C h \<longleftrightarrow> sh_id h \<noteq> [] \<and> sh_timestamp h \<noteq> [] \<and> sh_cwd h \<noteq> [] \<and>
     jc_parse C (headerText h) = Some (JObj (headerFields h))"

lemma js_leaf: "js (entryType b) = js ''leaf'' \<longleftrightarrow> (\<exists>t. b = E_leaf t)"
  by (cases b) (simp_all add: js_def)

lemma idJson_ok: "nullOrString (Some (idJson i))"
  by (cases i) (simp_all add: idJson_def nullOrString_def isString_def)

lemma parseEntryLine_encodes:
  assumes "encodes C e"
  shows "parseEntryLine C (jc_entryText C e) p n = Inr e"
proof -
  obtain kvs where k: "jc_parse C (jc_entryText C e) = Some (JObj kvs)" "hasFields kvs e" "jc_asEntry C kvs = e"
    using assms by (auto simp: encodes_def)
  have ids: "en_id e \<noteq> []" "en_timestamp e \<noteq> []" using assms by (simp_all add: encodes_def)
  have f: "map_of kvs (js ''type'') = Some (JStr (js (entryType (en_body e))))"
    "map_of kvs (js ''id'') = Some (JStr (en_id e))" "map_of kvs (js ''parentId'') = Some (idJson (en_parentId e))"
    "map_of kvs (js ''timestamp'') = Some (JStr (en_timestamp e))"
    using k(2) by (simp_all add: hasFields_def)
  have target: "nullOrString (map_of kvs (js ''targetId''))" if "js (entryType (en_body e)) = js ''leaf''"
    using k(2) that idJson_ok by (auto simp: hasFields_def js_leaf)
  show ?thesis
    using ids target idJson_ok k(1,3)
    by (auto simp: parseEntryLine_def objectFields_def Let_def f isString_def nonEmptyString_def)
qed

lemma parseEntryLines_encodes:
  "list_all (encodes C) es \<Longrightarrow> parseEntryLines C p i (map (jc_entryText C) es) = Inr es"
  by (induction es arbitrary: i) (simp_all add: parseEntryLine_encodes)

lemma header_field:
  "map_of (headerFields h) (js ''type'') = Some (JStr (js ''session''))"
  "map_of (headerFields h) (js ''version'') = Some (JNum 3)"
  "map_of (headerFields h) (js ''id'') = Some (JStr (sh_id h))"
  "map_of (headerFields h) (js ''timestamp'') = Some (JStr (sh_timestamp h))"
  "map_of (headerFields h) (js ''cwd'') = Some (JStr (sh_cwd h))"
  "map_of (headerFields h) (js ''parentSession'') = map_option JStr (sh_parentSession h)"
  "map_of (headerFields h) (js ''metadata'') = map_option JObj (sh_metadata h)"
  by (simp_all add: headerFields_def js_def optField_def split: option.split)

lemma parseHeaderLine_encodes:
  assumes "encodesHeader C h"
  shows "parseHeaderLine C (headerText h) p = Inr h"
  using assms
  by (cases h; cases "sh_metadata h"; cases "sh_parentSession h")
    (simp_all add: parseHeaderLine_def encodesHeader_def objectFields_def Let_def header_field isString_def
      nonEmptyString_def stringOf_def)

lemma parseContent_file:
  assumes "encodesHeader C h" and "list_all (encodes C) es"
  shows "parseContent C p (linesText (headerText h # map (jc_entryText C) es)) = Inr (h, es, leafAfter es)"
proof -
  have "list_all oneLine (headerText h # map (jc_entryText C) es)"
    using assms headerText_oneLine by (auto simp: encodes_def list_all_iff)
  note lines = splitOn_linesText [OF this] filter_lines [OF this]
  show ?thesis
    unfolding parseContent_def lines
    by (simp add: parseHeaderLine_encodes [OF assms(1)] parseEntryLines_encodes [OF assms(2)])
qed

section \<open>Histories of a storage\<close>

datatype storage_op = OpAppend entry | OpSetLeaf "jstr option" | OpCreateId

fun runOp :: "jsonl_codec \<Rightarrow> id_source \<Rightarrow> storage_op \<Rightarrow> jsonl_storage \<Rightarrow> jsonl_storage" where
  "runOp C src (OpAppend e) s = snd (jsonlAppendEntry C e s)"
| "runOp C src (OpSetLeaf l) s = snd (jsonlSetLeafId C src l s)"
| "runOp C src OpCreateId s = snd (jsonlCreateEntryId src s)"

definition runOps :: "jsonl_codec \<Rightarrow> id_source \<Rightarrow> storage_op list \<Rightarrow> jsonl_storage \<Rightarrow> jsonl_storage" where
  "runOps C src ops s = fold (runOp C src) ops s"

text \<open>The file holds the header and the entries, and the rest of the state follows from the entries.\<close>

definition fileHolds :: "jsonl_codec \<Rightarrow> session_header \<Rightarrow> jsonl_storage \<Rightarrow> bool" where
  "fileHolds C h s \<longleftrightarrow>
     fst_content (jl_files s) (jl_filePath s) =
       Some (linesText (headerText h # map (jc_entryText C) (jl_entries s))) \<and>
     jl_metadata s = headerToSessionMetadata h (jl_filePath s) \<and> jl_byId s = indexById (jl_entries s) \<and>
     jl_labelsById s = buildLabelsById (jl_entries s) \<and> jl_leafId s = leafAfter (jl_entries s)"

lemma derived_snoc:
  "indexById (es @ [e]) = (indexById es)(en_id e \<mapsto> e)"
  "buildLabelsById (es @ [e]) = updateLabelCache e (buildLabelsById es)"
  "leafAfter (es @ [e]) = leafIdAfterEntry e"
  by (simp_all add: indexById_def buildLabelsById_def leafAfter_def)

lemma linesText_snoc: "linesText (ls @ [l]) = linesText ls @ l @ [10]"
  by (simp add: linesText_def)

lemma appendFile_cases:
  "(\<exists>fe w'. appendFile p c w = (Inl fe, w') \<and> fst_content w' = fst_content w) \<or>
   (\<exists>w'. appendFile p c w = (Inr (), w') \<and> fst_content w' = (fst_content w)(p \<mapsto> orDefault (fst_content w p) [] @ c))"
  by (cases "fst_fault w (fst_ops w)") (simp_all add: appendFile_def nextOp_def)

text \<open>Recording one more entry, in the file and in the storage.\<close>

lemma fileHolds_snoc:
  assumes "fileHolds C h s" and "fst_content w = (fst_content (jl_files s))(jl_filePath s \<mapsto>
      orDefault (fst_content (jl_files s) (jl_filePath s)) [] @ jc_entryText C e @ [10])"
    and "jl_filePath s' = jl_filePath s" "jl_metadata s' = jl_metadata s" "jl_files s' = w"
      "jl_entries s' = jl_entries s @ [e]" "jl_byId s' = (jl_byId s)(en_id e \<mapsto> e)"
      "jl_labelsById s' = updateLabelCache e (jl_labelsById s)" "jl_leafId s' = leafIdAfterEntry e"
  shows "fileHolds C h s'"
proof -
  have "fst_content w (jl_filePath s) =
      Some (linesText (headerText h # map (jc_entryText C) (jl_entries s)) @ jc_entryText C e @ [10])"
    using assms(1,2) by (simp add: fileHolds_def orDefault_def)
  then show ?thesis
    using assms linesText_snoc [of "headerText h # map (jc_entryText C) (jl_entries s)" "jc_entryText C e"]
    by (simp add: fileHolds_def derived_snoc)
qed

lemma fileHolds_same:
  assumes "fileHolds C h s" and "fst_content (jl_files s') = fst_content (jl_files s)"
    "jl_filePath s' = jl_filePath s" "jl_metadata s' = jl_metadata s" "jl_entries s' = jl_entries s"
    "jl_byId s' = jl_byId s" "jl_labelsById s' = jl_labelsById s" "jl_leafId s' = jl_leafId s"
  shows "fileHolds C h s'"
  using assms by (simp add: fileHolds_def)

lemma fileHolds_append:
  assumes "fileHolds C h s"
  shows "fileHolds C h (snd (jsonlAppendEntry C e s))"
proof -
  from appendFile_cases [of "jl_filePath s" "jc_entryText C e @ [10]" "jl_files s"] show ?thesis
  proof (elim disjE exE conjE)
    fix fe w assume "appendFile (jl_filePath s) (jc_entryText C e @ [10]) (jl_files s) = (Inl fe, w)"
      "fst_content w = fst_content (jl_files s)"
    then show ?thesis using fileHolds_same [OF assms] by (simp add: jsonlAppendEntry_def)
  next
    fix w assume "appendFile (jl_filePath s) (jc_entryText C e @ [10]) (jl_files s) = (Inr (), w)"
      and w: "fst_content w = (fst_content (jl_files s))(jl_filePath s \<mapsto>
        orDefault (fst_content (jl_files s) (jl_filePath s)) [] @ jc_entryText C e @ [10])"
    then show ?thesis
      by (intro fileHolds_snoc [OF assms w]) (simp_all add: jsonlAppendEntry_def)
  qed
qed

lemma jsonlCreateEntryId_state: "snd (jsonlCreateEntryId src s) = s\<lparr>jl_calls := jl_calls (snd (jsonlCreateEntryId src s))\<rparr>"
  by (simp add: jsonlCreateEntryId_def split: prod.split)

lemma fileHolds_createId: "fileHolds C h s \<Longrightarrow> fileHolds C h (snd (jsonlCreateEntryId src s))"
  by (subst jsonlCreateEntryId_state) (simp add: fileHolds_def)

lemma fileHolds_setLeaf:
  assumes holds: "fileHolds C h s"
  shows "fileHolds C h (snd (jsonlSetLeafId C src l s))"
proof (cases "l \<noteq> None \<and> jl_byId s (the l) = None")
  case True
  with holds show ?thesis by (simp add: jsonlSetLeafId_def)
next
  case False
  obtain i s1 where c: "jsonlCreateEntryId src s = (i, s1)" by fastforce
  have h1: "fileHolds C h s1" using fileHolds_createId [OF holds, of src] c by simp
  let ?e = "\<lparr>en_id = i, en_parentId = jl_leafId s1, en_timestamp = is_clock src (jl_calls s1), en_body = E_leaf l\<rparr>"
  note eq = jsonlSetLeafId_def [of C src l s, unfolded if_not_P [OF False] c prod.case Let_def]
  from appendFile_cases [of "jl_filePath s1" "jc_entryText C ?e @ [10]" "jl_files s1"] show ?thesis
  proof (elim disjE exE conjE)
    fix fe w assume "appendFile (jl_filePath s1) (jc_entryText C ?e @ [10]) (jl_files s1) = (Inl fe, w)"
      "fst_content w = fst_content (jl_files s1)"
    then show ?thesis unfolding eq using fileHolds_same [OF h1] by simp
  next
    fix w assume "appendFile (jl_filePath s1) (jc_entryText C ?e @ [10]) (jl_files s1) = (Inr (), w)"
      and w: "fst_content w = (fst_content (jl_files s1))(jl_filePath s1 \<mapsto>
        orDefault (fst_content (jl_files s1) (jl_filePath s1)) [] @ jc_entryText C ?e @ [10])"
    then show ?thesis
      unfolding eq by (intro fileHolds_snoc [OF h1 w]) (simp_all add: updateLabelCache_def leafIdAfterEntry_def)
  qed
qed

lemma fileHolds_runOps: "fileHolds C h s \<Longrightarrow> fileHolds C h (runOps C src ops s)"
proof (induction ops arbitrary: s)
  case (Cons op ops)
  have "fileHolds C h (runOp C src op s)"
    using Cons.prems by (cases op) (simp_all add: fileHolds_append fileHolds_setLeaf fileHolds_createId)
  with Cons.IH show ?case by (simp add: runOps_def)
qed (simp add: runOps_def)

definition createdHeader :: "id_source \<Rightarrow> jsonl_create_options \<Rightarrow> nat \<Rightarrow> session_header" where
  "createdHeader src opts n = \<lparr>sh_id = jo_sessionId opts, sh_timestamp = is_clock src n, sh_cwd = jo_cwd opts,
     sh_parentSession = jo_parentSessionPath opts, sh_metadata = jo_metadata opts\<rparr>"

lemma fileHolds_create:
  "jsonlCreate src path opts n w = (Inr s, w') \<Longrightarrow> fileHolds C (createdHeader src opts n) s \<and> jl_filePath s = path"
  by (auto simp: jsonlCreate_def newJsonlStorage_def writeFile_def nextOp_def fileHolds_def linesText_def
      createdHeader_def indexById_def buildLabelsById_def leafAfter_def Let_def split: option.splits)

lemma runOps_filePath: "jl_filePath (runOps C src ops s) = jl_filePath s"
proof (induction ops arbitrary: s)
  case (Cons op ops)
  have "jl_filePath (runOp C src op s) = jl_filePath s"
    by (cases op) (auto simp: jsonlAppendEntry_def jsonlSetLeafId_def jsonlCreateEntryId_def Let_def
        split: prod.split sum.split)
  with Cons.IH show ?case by (simp add: runOps_def)
qed (simp add: runOps_def)

lemma jsonlOpen_holds:
  assumes "fileHolds C h s" and "encodesHeader C h" and "list_all (encodes C) (jl_entries s)"
    and "fst_fault (jl_files s) (fst_ops (jl_files s)) = None"
  shows "\<exists>w. jsonlOpen C (jl_filePath s) m (jl_files s) = (Inr (s\<lparr>jl_calls := m, jl_files := w\<rparr>), w)"
  using assms parseContent_file [OF assms(2,3), of "jl_filePath s"]
  by (cases s) (auto simp: jsonlOpen_def loadJsonlStorage_def readTextFile_def nextOp_def fileHolds_def newJsonlStorage_def)

section \<open>Properties\<close>

text \<open>C35: The file holds the whole session: however entries were appended, leaves moved and writes
  failed since a storage was created, opening its file again gives the same storage, with
  the same entries, index, labels, leaf and metadata, when the texts of the entries can be
  parsed back.\<close>

theorem reopen_restores:
  assumes "jsonlCreate src path opts n w = (Inr s0, w0)"
    and "encodesHeader C (createdHeader src opts n)"
    and "s = runOps C src ops s0" and "list_all (encodes C) (jl_entries s)"
    and "fst_fault (jl_files s) (fst_ops (jl_files s)) = None"
  shows "\<exists>w'. jsonlOpen C path m (jl_files s) = (Inr (s\<lparr>jl_calls := m, jl_files := w'\<rparr>), w')"
proof -
  from fileHolds_create [OF assms(1), of C]
  have holds: "fileHolds C (createdHeader src opts n) s" and path: "jl_filePath s = path"
    using assms(3) by (simp_all add: fileHolds_runOps runOps_filePath)
  from jsonlOpen_holds [OF holds assms(2,4,5), of m] show ?thesis by (simp only: path)
qed

text \<open>A session file with a thinking level change, whose first write fails, and a leaf entry.\<close>

definition sampleOptions :: jsonl_create_options where
  "sampleOptions = \<lparr>jo_cwd = js ''/w'', jo_sessionId = js ''s1'', jo_parentSessionPath = None, jo_metadata = None\<rparr>"

definition sampleFiles :: file_store where
  "sampleFiles = \<lparr>fst_content = Map.empty,
     fst_fault = (\<lambda>n. if n = 1 then Some \<lparr>fe_code = FE_unknown, fe_message = js ''disk full''\<rparr> else None),
     fst_ops = 0, fst_missing = (\<lambda>p. [])\<rparr>"

definition sampleEntry :: entry where
  "sampleEntry = \<lparr>en_id = js ''aa'', en_parentId = None, en_timestamp = js ''t'', en_body = E_thinkingLevelChange (js ''high'')\<rparr>"

definition sampleLeaf :: entry where
  "sampleLeaf = \<lparr>en_id = js ''0000000a'', en_parentId = Some (js ''aa''), en_timestamp = js ''2'', en_body = E_leaf None\<rparr>"

definition sampleFields :: "entry \<Rightarrow> (jstr \<times> json) list" where
  "sampleFields e =
     [(js ''type'', JStr (js (entryType (en_body e)))), (js ''id'', JStr (en_id e)), (js ''parentId'', idJson (en_parentId e)),
      (js ''timestamp'', JStr (en_timestamp e)),
      (case en_body e of E_leaf t \<Rightarrow> (js ''targetId'', idJson t) | _ \<Rightarrow> (js ''thinkingLevel'', JStr (js ''high'')))]"

text \<open>A codec for these two entries, with short texts.\<close>

definition sampleCodec :: jsonl_codec where
  "sampleCodec =
     \<lparr>jc_parse = (\<lambda>l. Some (JObj (if l = js ''A'' then sampleFields sampleEntry else if l = js ''B'' then sampleFields sampleLeaf
          else headerFields (createdHeader sampleSource sampleOptions 0)))),
      jc_entryText = (\<lambda>e. if en_id e = js ''aa'' then js ''A'' else js ''B''),
      jc_asEntry = (\<lambda>kvs. if map_of kvs (js ''id'') = Some (JStr (js ''aa'')) then sampleEntry else sampleLeaf)\<rparr>"

lemma sampleFields_hasFields: "hasFields (sampleFields e) e"
  by (simp add: hasFields_def sampleFields_def js_def split: entry_body.split)

lemma sampleCodec_encodes: "list_all (encodes sampleCodec) [sampleEntry, sampleLeaf]"
proof -
  have lines: "oneLine (js ''A'')" "oneLine (js ''B'')"
    by (simp_all add: oneLine_def js_def trim_def trimEnd_def trimStart_def isSpace_def)
  have "encodes sampleCodec sampleEntry"
    unfolding encodes_def using sampleFields_hasFields [of sampleEntry] lines
    by (simp add: sampleCodec_def sampleEntry_def sampleFields_def js_def)
  moreover have "encodes sampleCodec sampleLeaf"
    unfolding encodes_def using sampleFields_hasFields [of sampleLeaf] lines
    by (simp add: sampleCodec_def sampleLeaf_def sampleFields_def js_def)
  ultimately show ?thesis by simp
qed

lemma sampleCodec_header: "encodesHeader sampleCodec (createdHeader sampleSource sampleOptions 0)"
proof -
  have "hd (headerText h) = 123" for h by (simp add: headerText_def js_def)
  then have "headerText h \<noteq> js ''A''" "headerText h \<noteq> js ''B''" for h by (auto simp: js_def dest: arg_cong [of _ _ hd])
  moreover have "js ''s1'' \<noteq> []" "js ''/w'' \<noteq> []" "showNat 0 \<noteq> []" by (simp_all add: js_def showNat.simps)
  ultimately show ?thesis
    by (simp add: encodesHeader_def sampleCodec_def) (simp add: createdHeader_def sampleOptions_def sampleSource_def)
qed

definition sampleJsonl :: jsonl_storage where
  "sampleJsonl = projr (fst (jsonlCreate sampleSource (js ''/f'') sampleOptions 0 sampleFiles))"

definition sampleHistory :: "storage_op list" where
  "sampleHistory = [OpAppend sampleEntry, OpAppend sampleEntry, OpSetLeaf None]"

theorem reopen_restores_witness:
  "\<exists>s' w'. jsonlOpen sampleCodec (js ''/f'') 9 (jl_files (runOps sampleCodec sampleSource sampleHistory sampleJsonl)) =
      (Inr s', w') \<and> jl_entries s' = [sampleEntry, sampleLeaf] \<and> jl_leafId s' = None"
proof -
  let ?s = "runOps sampleCodec sampleSource sampleHistory sampleJsonl"
  have created: "jsonlCreate sampleSource (js ''/f'') sampleOptions 0 sampleFiles =
      (Inr sampleJsonl, snd (jsonlCreate sampleSource (js ''/f'') sampleOptions 0 sampleFiles))"
    by (simp add: sampleJsonl_def jsonlCreate_def writeFile_def nextOp_def sampleFiles_def Let_def)
  have es: "jl_entries ?s = [sampleEntry, sampleLeaf]" by code_simp
  have leaf: "jl_leafId ?s = None" by code_simp
  have fault: "fst_fault (jl_files ?s) (fst_ops (jl_files ?s)) = None" by code_simp
  have "list_all (encodes sampleCodec) (jl_entries ?s)" unfolding es by (rule sampleCodec_encodes)
  from reopen_restores [OF created sampleCodec_header refl this fault, of 9] es leaf show ?thesis by auto
qed



end
