(* ===== verification/FindWorkfile.thy ===== *)
theory FindWorkfile
  imports FileTools "HOL-Library.Multiset"
begin

text \<open>
  The search of the file library, packages/imclaw/src/find-workfile.ts: the scores of the
  candidates, the walk through the directories and the choice of the results.

  What the runtime knows of Unicode is a parameter: the normal form, the lower case, the
  split at everything that is no letter or number, and the comparison of two strings. The
  file system acts on a world \<open>'w\<close>, as in theory FileTools. The walk may not end over an
  arbitrary file system; then it is \<open>None\<close>.
\<close>

section \<open>Scores\<close>

definition RESULT_LIMIT :: nat where "RESULT_LIMIT = 10"

text \<open>The alternatives of \<open>INTENT_WORDS\<close>, in the order in which they are tried.\<close>

definition intentWords :: "jstr list" where
  "intentWords =
     [[35831], [40635, 28902], [24110, 25105], [25226], [37027, 20010], [36825, 20010], [25991, 20214],
      [21457, 32473, 25105], [21457, 36865, 32473, 25105], [32473, 25105], [21457, 19968, 19979], [21457, 36865],
      [19968, 19979]]"

record unicode_ops =
  uo_nfkc :: "jstr \<Rightarrow> jstr"
  uo_lower :: "jstr \<Rightarrow> jstr"
  uo_splitWords :: "jstr \<Rightarrow> jstr list"
  uo_compare :: "jstr \<Rightarrow> jstr \<Rightarrow> int"

text \<open>Replacing every match of a list of words, from left to right.\<close>

lemma matched_shorter: "find (\<lambda>v. v \<noteq> [] \<and> prefix v s) ws = Some v \<Longrightarrow> length (drop (length v) s) < length s"
  by (auto simp: find_Some_iff prefix_def)

function replaceWords :: "jstr list \<Rightarrow> jstr \<Rightarrow> jstr \<Rightarrow> jstr" where
  "replaceWords ws r s =
     (case find (\<lambda>v. v \<noteq> [] \<and> prefix v s) ws of
        Some v \<Rightarrow> r @ replaceWords ws r (drop (length v) s)
      | None \<Rightarrow> (case s of [] \<Rightarrow> [] | c # cs \<Rightarrow> c # replaceWords ws r cs))"
  by pat_completeness auto

termination
  by (relation "measure (\<lambda>(ws, r, s). length s)") (auto dest: matched_shorter)

declare replaceWords.simps [simp del]

definition isSeparator :: "jchar \<Rightarrow> bool" where
  "isSeparator c \<longleftrightarrow> isSpace c \<or> c = 45 \<or> c = 95 \<or> c = 46 \<or> c = 47 \<or> c = 92"

definition normalize :: "unicode_ops \<Rightarrow> jstr \<Rightarrow> jstr" where
  "normalize U value = filter (\<lambda>c. \<not> isSeparator c) (uo_lower U (uo_nfkc U value))"

definition queryTerms :: "unicode_ops \<Rightarrow> jstr \<Rightarrow> jstr list" where
  "queryTerms U query =
     filter (\<lambda>t. t \<noteq> []) (map (normalize U) (uo_splitWords U (replaceWords intentWords [32] query)))"

text \<open>\<open>basename(path, extname(path))\<close>\<close>

definition stemOf :: "path_ops \<Rightarrow> jstr \<Rightarrow> jstr" where
  "stemOf P path =
     (let b = po_basename P path; ext = po_extname P path in take (length b - length ext) b)"

definition termScore :: "jstr \<Rightarrow> jstr \<Rightarrow> jstr \<Rightarrow> jstr \<Rightarrow> rat" where
  "termScore nname stem npath term =
     (if includesStr nname term \<or> includesStr stem term then 120
      else if includesStr npath term then 60 else 0)"

definition wantsRecent :: "jstr \<Rightarrow> bool" where
  "wantsRecent query \<longleftrightarrow> includesStr query [26368, 26032] \<or> includesStr query [26368, 36817]"

definition scoreCandidate :: "unicode_ops \<Rightarrow> path_ops \<Rightarrow> jstr \<Rightarrow> jstr \<Rightarrow> rat \<Rightarrow> rat" where
  "scoreCandidate U P query relativePath modifiedMs =
     (let q = normalize U (replaceWords intentWords [] query);
          npath = normalize U relativePath;
          nname = normalize U (po_basename P relativePath);
          stem = normalize U (stemOf P relativePath);
          exact = (if nname = q \<or> stem = q then 1000 else 0);
          inName = (if q \<noteq> [] \<and> (includesStr nname q \<or> includesStr stem q) then 500 else 0);
          inPath = (if q \<noteq> [] \<and> includesStr npath q then 300 else 0);
          score = exact + inName + inPath + sum_list (map (termScore nname stem npath) (queryTerms U query))
      in if score > 0 \<and> wantsRecent query then score + modifiedMs / 1000000000000 else score)"

section \<open>The walk\<close>

record workfile_candidate =
  wc_path :: jstr
  wc_fileName :: jstr
  wc_extension :: jstr
  wc_size :: nat
  wc_modifiedAt :: jstr
  wc_score :: rat

record scored_candidate = workfile_candidate +
  wc_modifiedMs :: rat

definition candidateFor :: "unicode_ops \<Rightarrow> path_ops \<Rightarrow> jstr \<Rightarrow> jstr \<Rightarrow> jstr \<Rightarrow> file_stat \<Rightarrow> scored_candidate" where
  "candidateFor U P query rootPath filePath st =
     (let relativePath = slashedRelative P rootPath filePath
      in \<lparr>wc_path = relativePath, wc_fileName = po_basename P filePath,
          wc_extension = uo_lower U (po_extname P filePath), wc_size = st_size st, wc_modifiedAt = st_mtimeIso st,
          wc_score = scoreCandidate U P query relativePath (st_mtimeMs st), wc_modifiedMs = st_mtimeMs st\<rparr>)"

text \<open>One entry of a directory: the directories still to read, the candidates and the world.\<close>

definition inspectEntry ::
  "unicode_ops \<Rightarrow> path_ops \<Rightarrow> 'w file_system \<Rightarrow> jstr \<Rightarrow> jstr \<Rightarrow> jstr \<Rightarrow> dir_entry \<Rightarrow>
   jstr list \<times> scored_candidate list \<times> 'w \<Rightarrow> jstr list \<times> scored_candidate list \<times> 'w" where
  "inspectEntry U P fs query rootPath directory en st =
     (case st of (dirs, cands, w) \<Rightarrow>
        (let entryPath = po_join P [directory, de_name en]
         in if de_isSymbolicLink en then (dirs, cands, w)
            else if de_isDirectory en then (dirs @ [entryPath], cands, w)
            else if \<not> de_isFile en then (dirs, cands, w)
            else
              (case fs_realpath fs entryPath w of
                 (Inl _, w1) \<Rightarrow> (dirs, cands, w1)
               | (Inr filePath, w1) \<Rightarrow>
                   (if \<not> isPathInside P rootPath filePath then (dirs, cands, w1)
                    else
                      (case fs_stat fs filePath w1 of
                         (Inl _, w2) \<Rightarrow> (dirs, cands, w2)
                       | (Inr s, w2) \<Rightarrow>
                           (if \<not> st_isFile s then (dirs, cands, w2)
                            else (dirs, cands @ [candidateFor U P query rootPath filePath s], w2)))))))"

partial_function (option) searchLoop ::
  "unicode_ops \<Rightarrow> path_ops \<Rightarrow> 'w file_system \<Rightarrow> jstr \<Rightarrow> jstr \<Rightarrow>
   jstr list \<Rightarrow> scored_candidate list \<Rightarrow> 'w \<Rightarrow> (scored_candidate list \<times> 'w) option" where
  "searchLoop U P fs query rootPath dirs cands w =
     (case dirs of
        [] \<Rightarrow> Some (cands, w)
      | directory # rest \<Rightarrow>
          (if directory = [] then Some (cands, w)
           else
             (case fs_readdir fs directory w of
                (Inl _, w1) \<Rightarrow> searchLoop U P fs query rootPath rest cands w1
              | (Inr entries, w1) \<Rightarrow>
                  (case fold (inspectEntry U P fs query rootPath directory) entries (rest, cands, w1) of
                     (dirs', cands', w2) \<Rightarrow> searchLoop U P fs query rootPath dirs' cands' w2))))"

section \<open>The results\<close>

text \<open>Whether the comparison of two candidates is not positive.\<close>

definition notAfter :: "unicode_ops \<Rightarrow> scored_candidate \<Rightarrow> scored_candidate \<Rightarrow> bool" where
  "notAfter U l r \<longleftrightarrow>
     (if wc_score r - wc_score l \<noteq> 0 then wc_score r - wc_score l < 0
      else if wc_modifiedMs r - wc_modifiedMs l \<noteq> 0 then wc_modifiedMs r - wc_modifiedMs l < 0
      else uo_compare U (wc_path l) (wc_path r) \<le> 0)"

text \<open>A stable sort, as \<open>Array.prototype.sort\<close> is.\<close>

fun insertBy :: "('a \<Rightarrow> 'a \<Rightarrow> bool) \<Rightarrow> 'a \<Rightarrow> 'a list \<Rightarrow> 'a list" where
  "insertBy le x [] = [x]"
| "insertBy le x (y # ys) = (if le x y then x # y # ys else y # insertBy le x ys)"

definition sortBy :: "('a \<Rightarrow> 'a \<Rightarrow> bool) \<Rightarrow> 'a list \<Rightarrow> 'a list" where
  "sortBy le xs = foldr (insertBy le) xs []"

definition bestCandidates :: "unicode_ops \<Rightarrow> scored_candidate list \<Rightarrow> workfile_candidate list" where
  "bestCandidates U cands =
     map workfile_candidate.truncate (take RESULT_LIMIT (sortBy (notAfter U) (filter (\<lambda>c. wc_score c > 0) cands)))"

definition findWorkfiles ::
  "unicode_ops \<Rightarrow> path_ops \<Rightarrow> 'w file_system \<Rightarrow> jstr \<Rightarrow> jstr \<Rightarrow> 'w \<Rightarrow>
   ((jstr + workfile_candidate list) \<times> 'w) option" where
  "findWorkfiles U P fs workspace query w =
     (case fs_realpath fs (po_join P [workspace, WORKFILE_DIRECTORY_NAME]) w of
        (Inl _, w1) \<Rightarrow> Some (Inl noWorkfileRootText, w1)
      | (Inr rootPath, w1) \<Rightarrow>
          (case fs_readdir fs rootPath w1 of
             (Inl _, w2) \<Rightarrow> Some (Inl noWorkfileRootText, w2)
           | (Inr _, w2) \<Rightarrow>
               (case searchLoop U P fs query rootPath [rootPath] [] w2 of
                  None \<Rightarrow> None
                | Some (cands, w3) \<Rightarrow> Some (Inr (bestCandidates U cands), w3))))"

text \<open>
  The tool: the error when the call is aborted, the text when there is no match, or the
  candidates, whose JSON text is the answer.
\<close>

datatype find_answer = NoMatchText jstr | Candidates "workfile_candidate list"

definition searchAbortedText :: jstr where
  "searchAbortedText = js ''workfile '' @ [26816, 32034, 24050, 20013, 27490, 12290]"

definition noMatchText :: jstr where
  "noMatchText =
     [26410, 25214, 21040, 21305, 37197, 25991, 20214, 65292, 35831, 34917, 20805, 25991, 20214, 21517, 12289, 30446, 24405,
      12289, 31867, 22411, 25110, 26102, 38388, 20449, 24687, 12290]"

definition executeFindWorkfile ::
  "unicode_ops \<Rightarrow> path_ops \<Rightarrow> 'w file_system \<Rightarrow> jstr \<Rightarrow> bool \<Rightarrow> jstr \<Rightarrow> 'w \<Rightarrow>
   ((jstr + find_answer) \<times> 'w) option" where
  "executeFindWorkfile U P fs workspace aborted query w =
     (if aborted then Some (Inl searchAbortedText, w)
      else map_option (apfst (map_sum id (\<lambda>cs. if cs = [] then NoMatchText noMatchText else Candidates cs)))
             (findWorkfiles U P fs workspace query w))"

section \<open>Sorting\<close>

lemma mset_insertBy: "mset (insertBy le x xs) = add_mset x (mset xs)"
  by (induction xs) simp_all

lemma mset_sortBy [simp]: "mset (sortBy le xs) = mset xs"
  by (induction xs) (simp_all add: sortBy_def mset_insertBy)

lemma set_sortBy [simp]: "set (sortBy le xs) = set xs"
  by (metis mset_sortBy set_mset_mset)

text \<open>Sorting by a comparison that refines a descending key.\<close>

lemma insertBy_descending:
  fixes key :: "'a \<Rightarrow> 'b::linorder"
  assumes "\<And>x y. le x y \<Longrightarrow> key y \<le> key x" and "\<And>x y. \<not> le x y \<Longrightarrow> key x \<le> key y"
  shows "sorted_wrt (\<lambda>a b. key b \<le> key a) ys \<Longrightarrow> sorted_wrt (\<lambda>a b. key b \<le> key a) (insertBy le x ys)"
proof (induction ys)
  case (Cons y ys)
  show ?case
  proof (cases "le x y")
    case True
    then have "key y \<le> key x" by (rule assms(1))
    with Cons.prems True show ?thesis by auto
  next
    case False
    then have "key x \<le> key y" by (rule assms(2))
    moreover have "set (insertBy le x ys) = insert x (set ys)"
      using mset_insertBy [of le x ys] by (metis set_mset_add_mset_insert set_mset_mset)
    ultimately show ?thesis using Cons False by auto
  qed
qed simp

lemma sortBy_descending:
  fixes key :: "'a \<Rightarrow> 'b::linorder"
  assumes "\<And>x y. le x y \<Longrightarrow> key y \<le> key x" and "\<And>x y. \<not> le x y \<Longrightarrow> key x \<le> key y"
  shows "sorted_wrt (\<lambda>a b. key b \<le> key a) (sortBy le xs)"
  by (induction xs) (simp_all add: sortBy_def insertBy_descending [of le key] assms)

text \<open>The search ends on a finite directory tree and returns the best files of the library.\<close>

section \<open>The walk\<close>

text \<open>The directories that the walk enters from an entry list.\<close>

definition subdirs :: "path_ops \<Rightarrow> jstr \<Rightarrow> dir_entry list \<Rightarrow> jstr list" where
  "subdirs P d es =
     map (\<lambda>e. po_join P [d, de_name e]) (filter (\<lambda>e. \<not> de_isSymbolicLink e \<and> de_isDirectory e) es)"

text \<open>A file system that is a finite tree: \<open>below d\<close> bounds the number of directories below \<open>d\<close>.\<close>

definition finiteTree :: "path_ops \<Rightarrow> 'w file_system \<Rightarrow> (jstr \<Rightarrow> nat) \<Rightarrow> bool" where
  "finiteTree P fs below \<longleftrightarrow>
     (\<forall>d w es w'. fs_readdir fs d w = (Inr es, w') \<longrightarrow> sum_list (map (\<lambda>c. Suc (below c)) (subdirs P d es)) \<le> below d)"

text \<open>What is known of a candidate: a real path inside the library's, that of a regular file.\<close>

definition libraryFile :: "path_ops \<Rightarrow> jstr \<Rightarrow> workfile_candidate \<Rightarrow> bool" where
  "libraryFile P rootPath c \<longleftrightarrow>
     (\<exists>f. isPathInside P rootPath f \<and> wc_path c = slashedRelative P rootPath f \<and> wc_fileName c = po_basename P f)"

lemma inspectEntry_dirs:
  "fst (inspectEntry U P fs q rootPath d e (dirs, cands, w)) = dirs @ subdirs P d [e]"
  by (auto simp: inspectEntry_def subdirs_def Let_def split: prod.split sum.split)

lemma inspectEntry_cands:
  assumes "inspectEntry U P fs q rootPath d e (dirs, cands, w) = (dirs', cands', w')"
    and "list_all (\<lambda>c. libraryFile P rootPath (workfile_candidate.truncate c)) cands"
  shows "list_all (\<lambda>c. libraryFile P rootPath (workfile_candidate.truncate c)) cands'"
  using assms
  by (auto simp: inspectEntry_def Let_def candidateFor_def libraryFile_def workfile_candidate.truncate_def
      split: if_splits prod.splits sum.splits)

lemma subdirs_Cons: "subdirs P d (e # es) = subdirs P d [e] @ subdirs P d es"
  by (simp add: subdirs_def)

lemma inspectAll:
  assumes "fold (inspectEntry U P fs q rootPath d) es (dirs, cands, w) = (dirs', cands', w')"
    and "list_all (\<lambda>c. libraryFile P rootPath (workfile_candidate.truncate c)) cands"
  shows "dirs' = dirs @ subdirs P d es \<and> list_all (\<lambda>c. libraryFile P rootPath (workfile_candidate.truncate c)) cands'"
  using assms
proof (induction es arbitrary: dirs cands w)
  case (Cons e es)
  obtain d1 c1 w1 where step: "inspectEntry U P fs q rootPath d e (dirs, cands, w) = (d1, c1, w1)" by (metis prod_cases3)
  have "d1 = dirs @ subdirs P d [e]" using inspectEntry_dirs [of U P fs q rootPath d e dirs cands w] step by simp
  moreover have "list_all (\<lambda>c. libraryFile P rootPath (workfile_candidate.truncate c)) c1"
    by (rule inspectEntry_cands [OF step Cons.prems(2)])
  moreover have "fold (inspectEntry U P fs q rootPath d) es (d1, c1, w1) = (dirs', cands', w')"
    using Cons.prems(1) step by simp
  ultimately show ?case using Cons.IH [of d1 c1 w1] by (simp add: subdirs_Cons [of P d e es])
qed (simp add: subdirs_def)

lemma searchLoop_ends:
  assumes tree: "finiteTree P fs below"
  shows "list_all (\<lambda>c. libraryFile P rootPath (workfile_candidate.truncate c)) cands \<Longrightarrow>
    \<exists>all w'. searchLoop U P fs q rootPath dirs cands w = Some (all, w') \<and>
      list_all (\<lambda>c. libraryFile P rootPath (workfile_candidate.truncate c)) all"
proof (induction "sum_list (map (\<lambda>d. Suc (below d)) dirs)" arbitrary: dirs cands w rule: less_induct)
  case less
  show ?case
  proof (cases dirs)
    case Nil
    with less.prems show ?thesis by (simp add: searchLoop.simps)
  next
    case (Cons d rest)
    note loop = searchLoop.simps [of U P fs q rootPath dirs cands w, unfolded Cons list.case]
    show ?thesis
    proof (cases "d = []")
      case True
      with less.prems show ?thesis unfolding Cons loop by simp
    next
      case False
      obtain r w1 where r: "fs_readdir fs d w = (r, w1)" by fastforce
      show ?thesis
      proof (cases r)
        case (Inl e)
        have "sum_list (map (\<lambda>d. Suc (below d)) rest) < sum_list (map (\<lambda>d. Suc (below d)) dirs)" by (simp add: Cons)
        from less.hyps [OF this less.prems, of w1] False r Inl show ?thesis unfolding Cons loop by simp
      next
        case (Inr es)
        obtain dirs' cands' w2 where f: "fold (inspectEntry U P fs q rootPath d) es (rest, cands, w1) = (dirs', cands', w2)"
          by (metis prod_cases3)
        note all = inspectAll [OF f less.prems]
        have "sum_list (map (\<lambda>c. Suc (below c)) (subdirs P d es)) \<le> below d"
          using tree r Inr unfolding finiteTree_def by blast
        then have "sum_list (map (\<lambda>d. Suc (below d)) dirs') < sum_list (map (\<lambda>d. Suc (below d)) dirs)"
          using all by (simp add: Cons)
        from less.hyps [OF this, of cands' w2] all False r Inr f show ?thesis unfolding Cons loop by simp
      qed
    qed
  qed
qed

section \<open>The choice of the results\<close>

lemma notAfter_score:
  "notAfter U l r \<Longrightarrow> wc_score r \<le> wc_score l" "\<not> notAfter U l r \<Longrightarrow> wc_score l \<le> wc_score r"
  by (auto simp: notAfter_def split: if_splits)

lemma sorted_take_best:
  assumes "sorted_wrt (\<lambda>a b. key b \<le> key a) xs" and "x \<in> set xs" and "x \<notin> set (take n xs)" and "y \<in> set (take n xs)"
  shows "key x \<le> (key y :: 'b::linorder)"
proof -
  have "x \<in> set (drop n xs)" using assms(2,3) by (metis Un_iff append_take_drop_id set_append)
  moreover have "sorted_wrt (\<lambda>a b. key b \<le> key a) (take n xs @ drop n xs)" using assms(1) by simp
  ultimately show ?thesis using assms(4) unfolding sorted_wrt_append by blast
qed

lemma truncate_score [simp]: "wc_score (workfile_candidate.truncate c) = wc_score c"
  by (simp add: workfile_candidate.truncate_def)

text \<open>The best of a list of candidates: at most ten, of positive score, in descending order, and none
  left out that scores more than one of them.\<close>

definition bestOf :: "scored_candidate list \<Rightarrow> workfile_candidate list \<Rightarrow> bool" where
  "bestOf all cs \<longleftrightarrow>
     length cs = min 10 (length (filter (\<lambda>c. wc_score c > 0) all)) \<and>
     sorted_wrt (\<lambda>a b. wc_score b \<le> wc_score a) cs \<and>
     (\<forall>c \<in> set cs. wc_score c > 0 \<and> c \<in> workfile_candidate.truncate ` set all) \<and>
     (\<forall>x \<in> set all. wc_score x > 0 \<and> workfile_candidate.truncate x \<notin> set cs \<longrightarrow> (\<forall>c \<in> set cs. wc_score x \<le> wc_score c))"

lemma bestCandidates_best: "bestOf all (bestCandidates U all)"
proof -
  let ?p = "filter (\<lambda>c. wc_score c > 0) all"
  let ?s = "sortBy (notAfter U) ?p"
  have sorted: "sorted_wrt (\<lambda>a b. wc_score b \<le> wc_score a) ?s"
    by (rule sortBy_descending) (simp_all add: notAfter_score)
  have len: "length ?s = length ?p" by (metis mset_sortBy size_mset)
  have "sorted_wrt (\<lambda>a b. wc_score b \<le> wc_score a) (bestCandidates U all)"
    using sorted_wrt_take [OF sorted, of RESULT_LIMIT] by (simp add: bestCandidates_def sorted_wrt_map)
  moreover have "wc_score x \<le> wc_score c"
    if left: "x \<in> set all" "wc_score x > 0" "workfile_candidate.truncate x \<notin> set (bestCandidates U all)"
      "c \<in> set (bestCandidates U all)" for x c
  proof -
    obtain y where y: "y \<in> set (take RESULT_LIMIT ?s)" "c = workfile_candidate.truncate y"
      using left(4) by (auto simp: bestCandidates_def)
    have "x \<in> set ?s" "x \<notin> set (take RESULT_LIMIT ?s)" using left(1-3) by (auto simp: bestCandidates_def)
    from sorted_take_best [OF sorted this y(1)] y(2) show ?thesis by simp
  qed
  moreover have "wc_score c > 0 \<and> c \<in> workfile_candidate.truncate ` set all" if "c \<in> set (bestCandidates U all)" for c
    using that by (auto simp: bestCandidates_def dest!: in_set_takeD)
  ultimately show ?thesis
    unfolding bestOf_def using len by (auto simp: bestCandidates_def RESULT_LIMIT_def min_def)
qed

section \<open>Properties\<close>


text \<open>A library with two files, one of them in a directory.\<close>

definition sampleLibrary :: "unit file_system" where
  "sampleLibrary =
     \<lparr>fs_realpath = (\<lambda>p u. (Inr p, u)),
      fs_stat = (\<lambda>p u. (Inr \<lparr>st_isFile = True, st_size = 3, st_mtimeMs = 0, st_mtimeIso = []\<rparr>, u)),
      fs_unlink = (\<lambda>p u. (Inl [], u)),
      fs_readdir = (\<lambda>p u.
        if p = js ''/w/workfile''
        then (Inr [\<lparr>de_name = js ''cv.pdf'', de_isSymbolicLink = False, de_isDirectory = False, de_isFile = True\<rparr>,
                   \<lparr>de_name = js ''old'', de_isSymbolicLink = False, de_isDirectory = True, de_isFile = False\<rparr>], u)
        else if p = js ''/w/workfile/old''
        then (Inr [\<lparr>de_name = js ''my-cv.pdf'', de_isSymbolicLink = False, de_isDirectory = False, de_isFile = True\<rparr>], u)
        else (Inl [], u))\<rparr>"

definition sampleUnicode :: unicode_ops where
  "sampleUnicode = \<lparr>uo_nfkc = id, uo_lower = map asciiLower, uo_splitWords = splitOn 32, uo_compare = (\<lambda>a b. 0)\<rparr>"

lemma sampleLibrary_tree:
  "finiteTree (posixPath (js ''/'')) sampleLibrary (\<lambda>d. if d = js ''/w/workfile'' then 1 else 0)"
proof -
  have "pathJoin [js ''/w/workfile'', js ''old''] \<noteq> js ''/w/workfile''" by code_simp
  then show ?thesis by (auto simp: finiteTree_def sampleLibrary_def subdirs_def)
qed


end
