(* ===== verification/PiBackend.thy ===== *)
theory PiBackend
  imports TemporaryArtifacts Controller CompactionUtils TaskGuard
begin

text \<open>
  The configuration of the program, packages/imclaw/src/config.ts, and the agent backend,
  packages/imclaw/src/pi-backend.ts: the runtimes of the chats, made on first use, and the
  operations that the controller calls, a prompt under the guard of theory TaskGuard.

  The coding agent that a runtime runs, the hash of a chat's id and the environment are
  parameters; they act on a world \<open>'w\<close>. What reaches the guard during a prompt comes from
  the run.
\<close>

section \<open>Configuration\<close>

record imclaw_config =
  ic_feishuAppId :: jstr
  ic_feishuAppSecret :: jstr
  ic_ownerOpenId :: jstr
  ic_workspace :: jstr
  ic_agentDir :: jstr
  ic_provider :: "jstr option"
  ic_model :: "jstr option"

type_synonym environment = "jstr \<Rightarrow> jstr option"

text \<open>A variable, trimmed; \<open>None\<close> when it is missing or blank.\<close>

definition trimmedVar :: "environment \<Rightarrow> string \<Rightarrow> jstr option" where
  "trimmedVar env name =
     (case env (js name) of None \<Rightarrow> None | Some v \<Rightarrow> (if trim v = [] then None else Some (trim v)))"

definition requiredVar :: "environment \<Rightarrow> string \<Rightarrow> jstr + jstr" where
  "requiredVar env name =
     (case trimmedVar env name of
        None \<Rightarrow> Inl (js ''Missing required environment variable: '' @ js name)
      | Some v \<Rightarrow> Inr v)"

definition loadConfig ::
  "path_ops \<Rightarrow> (jstr \<Rightarrow> bool) \<Rightarrow> jstr \<Rightarrow> jstr \<Rightarrow> environment \<Rightarrow> jstr + imclaw_config" where
  "loadConfig P existsSync defaultWorkspace homedir env =
     (let workspace = po_resolve P (orDefault (trimmedVar env ''IMCLAW_WORKSPACE'') defaultWorkspace) [];
          provider = trimmedVar env ''IMCLAW_PROVIDER'';
          model = trimmedVar env ''IMCLAW_MODEL''
      in if \<not> existsSync workspace then Inl (js ''IMCLAW_WORKSPACE does not exist: '' @ workspace)
         else if (provider \<noteq> None \<and> model = None) \<or> (provider = None \<and> model \<noteq> None)
           then Inl (js ''IMCLAW_PROVIDER and IMCLAW_MODEL must be configured together'')
         else
           (case requiredVar env ''FEISHU_APP_ID'' of
              Inl e \<Rightarrow> Inl e
            | Inr appId \<Rightarrow>
                (case requiredVar env ''FEISHU_APP_SECRET'' of
                   Inl e \<Rightarrow> Inl e
                 | Inr secret \<Rightarrow>
                     (case requiredVar env ''IMCLAW_OWNER_OPEN_ID'' of
                        Inl e \<Rightarrow> Inl e
                      | Inr owner \<Rightarrow>
                          Inr \<lparr>ic_feishuAppId = appId, ic_feishuAppSecret = secret, ic_ownerOpenId = owner,
                               ic_workspace = workspace,
                               ic_agentDir = po_resolve P (orDefault (trimmedVar env ''IMCLAW_AGENT_DIR'')
                                 (po_resolve P homedir (js ''.pi/agent''))) [],
                               ic_provider = provider, ic_model = model\<rparr>))))"

section \<open>The coding agent\<close>

text \<open>Services: the lookup of a model and the diagnostics, with their type and message.\<close>

record 'm services =
  sv_getModel :: "jstr \<Rightarrow> jstr \<Rightarrow> 'm option"
  sv_diagnostics :: "(jstr \<times> jstr) list"

record ('w, 'rt, 'sm, 'm) coding_agent =
  ag_mkdir :: "jstr \<Rightarrow> 'w \<Rightarrow> (jstr + unit) \<times> 'w"
  ag_continueRecent :: "jstr \<Rightarrow> jstr \<Rightarrow> 'w \<Rightarrow> (jstr + 'sm) \<times> 'w"
  ag_createServices :: "jstr \<Rightarrow> jstr \<Rightarrow> 'w \<Rightarrow> (jstr + 'm services) \<times> 'w"
  ag_createSession :: "'m services \<Rightarrow> 'sm \<Rightarrow> 'm option \<Rightarrow> 'w \<Rightarrow> (jstr + 'rt) \<times> 'w"
  ag_model :: "'rt \<Rightarrow> 'w \<Rightarrow> (jstr \<times> jstr) option"
  ag_isStreaming :: "'rt \<Rightarrow> 'w \<Rightarrow> bool"
  ag_sessionId :: "'rt \<Rightarrow> 'w \<Rightarrow> jstr"
  ag_cwd :: "'rt \<Rightarrow> jstr"
  ag_run :: "'rt \<Rightarrow> jstr \<Rightarrow> 'w \<Rightarrow> (guard_input list \<times> (jstr + jstr option)) \<times> 'w"
  ag_newSession :: "'rt \<Rightarrow> 'w \<Rightarrow> (jstr + unit) \<times> 'w"
  ag_abort :: "'rt \<Rightarrow> 'w \<Rightarrow> (jstr + unit) \<times> 'w"
  ag_dispose :: "'rt \<Rightarrow> 'w \<Rightarrow> (jstr + unit) \<times> 'w"

text \<open>What the backend uses: its configuration, the platform, the agent and the cleanup.\<close>

record ('w, 'rt, 'sm, 'm) backend_env =
  bk_config :: imclaw_config
  bk_shell :: shell_platform
  bk_agent :: "('w, 'rt, 'sm, 'm) coding_agent"
  bk_cleanup :: "'w cleanup_dependencies"
  bk_sha256 :: "jstr \<Rightarrow> jstr"

text \<open>The backend: the \<open>Map\<close> of runtimes in insertion order, and the world.\<close>

record ('w, 'rt) backend =
  be_runtimes :: "(jstr \<times> 'rt) list"
  be_world :: 'w

section \<open>Runtimes\<close>

definition configuredModel :: "imclaw_config \<Rightarrow> (jstr \<times> jstr) option" where
  "configuredModel cfg =
     (if truthyStr (ic_provider cfg) \<and> truthyStr (ic_model cfg)
      then Some (the (ic_provider cfg), the (ic_model cfg)) else None)"

definition modelNotFound :: "jstr \<times> jstr \<Rightarrow> jstr" where
  "modelNotFound pm = js ''Configured model not found: '' @ fst pm @ js ''/'' @ snd pm"

definition errorDiagnostics :: "'m services \<Rightarrow> jstr list" where
  "errorDiagnostics sv = map snd (filter (\<lambda>d. fst d = js ''error'') (sv_diagnostics sv))"

definition noUsableModel :: jstr where
  "noUsableModel =
     js ''No usable model or authentication found. Configure pi login/auth before starting IMclaw.''"

text \<open>The factory \<open>createRuntime\<close>, for a working directory and a session manager.\<close>

definition createRuntime ::
  "('w, 'rt, 'sm, 'm) backend_env \<Rightarrow> 'sm \<Rightarrow> 'w \<Rightarrow> (jstr + 'rt) \<times> 'w" where
  "createRuntime B sm w =
     (let A = bk_agent B; cfg = bk_config B
      in case ag_createServices A (ic_workspace cfg) (ic_agentDir cfg) w of
           (Inl e, w1) \<Rightarrow> (Inl e, w1)
         | (Inr sv, w1) \<Rightarrow>
             (let model = (case configuredModel cfg of None \<Rightarrow> None | Some (p, m) \<Rightarrow> sv_getModel sv p m)
              in if configuredModel cfg \<noteq> None \<and> model = None
                 then (Inl (modelNotFound (the (configuredModel cfg))), w1)
                 else if errorDiagnostics sv \<noteq> [] then (Inl (joinWith [10] (errorDiagnostics sv)), w1)
                 else
                   (case ag_createSession A sv sm model w1 of
                      (Inl e, w2) \<Rightarrow> (Inl e, w2)
                    | (Inr rt, w2) \<Rightarrow>
                        (if ag_model A rt w2 = None
                         then (case ag_dispose A rt w2 of (_, w3) \<Rightarrow> (Inl noUsableModel, w3))
                         else (Inr rt, w2)))))"

definition sessionDirOf :: "('w, 'rt, 'sm, 'm) backend_env \<Rightarrow> jstr \<Rightarrow> jstr" where
  "sessionDirOf B chatId =
     po_join (sp_paths (bk_shell B)) [ic_agentDir (bk_config B), js ''imclaw-sessions'', bk_sha256 B chatId]"

definition getRuntime ::
  "('w, 'rt, 'sm, 'm) backend_env \<Rightarrow> jstr \<Rightarrow> ('w, 'rt) backend \<Rightarrow> (jstr + 'rt) \<times> ('w, 'rt) backend" where
  "getRuntime B chatId s =
     (case map_of (be_runtimes s) chatId of
        Some rt \<Rightarrow> (Inr rt, s)
      | None \<Rightarrow>
          (case ag_mkdir (bk_agent B) (sessionDirOf B chatId) (be_world s) of
             (Inl e, w1) \<Rightarrow> (Inl e, s\<lparr>be_world := w1\<rparr>)
           | (Inr _, w1) \<Rightarrow>
               (case ag_continueRecent (bk_agent B) (ic_workspace (bk_config B)) (sessionDirOf B chatId) w1 of
                  (Inl e, w2) \<Rightarrow> (Inl e, s\<lparr>be_world := w2\<rparr>)
                | (Inr sm, w2) \<Rightarrow>
                    (case createRuntime B sm w2 of
                       (Inl e, w3) \<Rightarrow> (Inl e, s\<lparr>be_world := w3\<rparr>)
                     | (Inr rt, w3) \<Rightarrow>
                         (Inr rt, s\<lparr>be_runtimes := be_runtimes s @ [(chatId, rt)], be_world := w3\<rparr>)))))"

section \<open>Operations\<close>

definition cleanupWorkspace :: "('w, 'rt, 'sm, 'm) backend_env \<Rightarrow> 'w \<Rightarrow> 'w" where
  "cleanupWorkspace B w =
     cl_world (cleanupTemporaryArtifacts (sp_paths (bk_shell B)) (bk_cleanup B) (ic_workspace (bk_config B)) w)"

definition noReplyText :: jstr where
  "noReplyText = [20219, 21153, 24050, 23436, 25104, 65292, 20294, 27169, 22411, 27809, 26377, 36820, 22238, 25991, 26412, 12290]"

definition backendPrompt ::
  "('w, 'rt, 'sm, 'm) backend_env \<Rightarrow> jstr \<Rightarrow> jstr \<Rightarrow> ('w, 'rt) backend \<Rightarrow>
   (task_failure + jstr) \<times> ('w, 'rt) backend" where
  "backendPrompt B chatId t s =
     (case getRuntime B chatId s of
        (Inl e, s1) \<Rightarrow> (Inl (TaskError e), s1)
      | (Inr rt, s1) \<Rightarrow>
          (case ag_run (bk_agent B) rt t (be_world s1) of
             ((inputs, settled), w1) \<Rightarrow>
               (case runTaskWithGuard (bk_shell B) (ic_workspace (bk_config B)) inputs
                       (map_sum id (\<lambda>reply. orDefault reply noReplyText) settled) (Inr ()) of
                  (res, _, _) \<Rightarrow> (res, s1\<lparr>be_world := cleanupWorkspace B w1\<rparr>))))"

definition backendNewSession ::
  "('w, 'rt, 'sm, 'm) backend_env \<Rightarrow> jstr \<Rightarrow> ('w, 'rt) backend \<Rightarrow> (jstr + unit) \<times> ('w, 'rt) backend" where
  "backendNewSession B chatId s =
     (case getRuntime B chatId s of
        (Inl e, s1) \<Rightarrow> (Inl e, s1)
      | (Inr rt, s1) \<Rightarrow> (case ag_newSession (bk_agent B) rt (be_world s1) of (res, w) \<Rightarrow> (res, s1\<lparr>be_world := w\<rparr>)))"

definition backendAbort ::
  "('w, 'rt, 'sm, 'm) backend_env \<Rightarrow> jstr \<Rightarrow> ('w, 'rt) backend \<Rightarrow> (jstr + unit) \<times> ('w, 'rt) backend" where
  "backendAbort B chatId s =
     (case map_of (be_runtimes s) chatId of
        None \<Rightarrow> (Inr (), s\<lparr>be_world := cleanupWorkspace B (be_world s)\<rparr>)
      | Some rt \<Rightarrow>
          (case ag_abort (bk_agent B) rt (be_world s) of
             (Inl e, w) \<Rightarrow> (Inl e, s\<lparr>be_world := w\<rparr>)
           | (Inr _, w) \<Rightarrow> (Inr (), s\<lparr>be_world := cleanupWorkspace B w\<rparr>)))"

definition backendStatus :: "('w, 'rt, 'sm, 'm) backend_env \<Rightarrow> jstr \<Rightarrow> ('w, 'rt) backend \<Rightarrow> jstr" where
  "backendStatus B chatId s =
     (case map_of (be_runtimes s) chatId of
        None \<Rightarrow> [29366, 24577, 65306, 23578, 26410, 21019, 24314, 20250, 35805]
      | Some rt \<Rightarrow>
          (let A = bk_agent B; w = be_world s
           in joinWith [10]
                [[29366, 24577, 65306] @ (if ag_isStreaming A rt w then [22788, 29702, 20013] else [31354, 38386]),
                 [27169, 22411, 65306] @ (case ag_model A rt w of
                    Some (p, m) \<Rightarrow> p @ js ''/'' @ m | None \<Rightarrow> [26410, 37197, 32622]),
                 [20250, 35805, 65306] @ ag_sessionId A rt w,
                 [24037, 20316, 30446, 24405, 65306] @ ag_cwd A rt]))"

text \<open>
  \<open>dispose\<close>: the runtimes are disposed of, in insertion order here; a rejection ends it before
  the map is cleared.
\<close>

fun disposeAll ::
  "('w, 'rt, 'sm, 'm) coding_agent \<Rightarrow> 'rt list \<Rightarrow> 'w \<Rightarrow> (jstr + unit) \<times> 'w" where
  "disposeAll A [] w = (Inr (), w)"
| "disposeAll A (rt # rts) w =
     (case ag_dispose A rt w of
        (r, w1) \<Rightarrow> (case disposeAll A rts w1 of (r', w2) \<Rightarrow> (if isl r then r else r', w2)))"

definition backendDispose ::
  "('w, 'rt, 'sm, 'm) backend_env \<Rightarrow> ('w, 'rt) backend \<Rightarrow> (jstr + unit) \<times> ('w, 'rt) backend" where
  "backendDispose B s =
     (case disposeAll (bk_agent B) (map snd (be_runtimes s)) (be_world s) of
        (Inl e, w) \<Rightarrow> (Inl e, s\<lparr>be_world := w\<rparr>)
      | (Inr _, w) \<Rightarrow> (Inr (), s\<lparr>be_runtimes := [], be_world := cleanupWorkspace B w\<rparr>))"

text \<open>How the outcome of a prompt reaches the controller; it draws the id of another error.\<close>

definition settlementOf :: "jstr \<Rightarrow> task_failure + jstr \<Rightarrow> outcome" where
  "settlementOf errorId res =
     (case res of
        Inr reply \<Rightarrow> Resolved reply
      | Inl (TaskLimitError m) \<Rightarrow> Rejected (TaskLimit m)
      | Inl (TaskError _) \<Rightarrow> Rejected (OtherError errorId))"

text \<open>A prompt runs in its chat's own runtime, under the limits, and cleans up.\<close>

lemma getRuntime_cases:
  assumes "getRuntime B chat s = (res, s')"
  shows "(map_of (be_runtimes s) chat \<noteq> None \<and> res = Inr (the (map_of (be_runtimes s) chat)) \<and> s' = s) \<or>
    (map_of (be_runtimes s) chat = None \<and> isl res \<and> be_runtimes s' = be_runtimes s) \<or>
    (\<exists>rt. map_of (be_runtimes s) chat = None \<and> res = Inr rt \<and> be_runtimes s' = be_runtimes s @ [(chat, rt)])"
  using assms by (auto simp: getRuntime_def split: option.splits prod.splits sum.splits)

definition runtimesOk :: "('w, 'rt) backend \<Rightarrow> bool" where
  "runtimesOk s \<longleftrightarrow> distinct (map fst (be_runtimes s))"

lemma getRuntime_keeps:
  assumes "getRuntime B chat s = (res, s')"
  shows "map_of (be_runtimes s) c = Some rt \<Longrightarrow> map_of (be_runtimes s') c = Some rt"
    and "res = Inr rt' \<Longrightarrow> map_of (be_runtimes s') chat = Some rt'"
    and "c \<noteq> chat \<Longrightarrow> map_of (be_runtimes s') c = map_of (be_runtimes s) c"
  using getRuntime_cases [OF assms(1)] by (auto simp: map_add_def split: option.split)

lemma getRuntime_ok: "getRuntime B chat s = (res, s') \<Longrightarrow> runtimesOk s \<Longrightarrow> runtimesOk s'"
  using getRuntime_cases [of B chat s res s'] by (auto simp: runtimesOk_def map_of_eq_None_iff)

lemma backendPrompt_runtimes:
  assumes "backendPrompt B chat t s = (res, s')" and "getRuntime B chat s = (r, s1)"
  shows "be_runtimes s' = be_runtimes s1"
  using assms by (auto simp: backendPrompt_def split: sum.splits prod.splits)

lemma backendPrompt_reply:
  assumes "backendPrompt B chat t s = (res, s')" and "res = Inr reply"
  shows "\<exists>rt w inputs answer w1. map_of (be_runtimes s') chat = Some rt \<and>
    ag_run (bk_agent B) rt t w = ((inputs, Inr answer), w1) \<and> reply = orDefault answer noReplyText \<and>
    TimerFires \<notin> set inputs \<and> length (filter isToolStart inputs) \<le> MAX_TOOL_CALLS \<and>
    be_world s' = cleanupWorkspace B w1"
proof -
  obtain r s1 where r: "getRuntime B chat s = (r, s1)" by fastforce
  note keeps = getRuntime_keeps [OF r]
  have runtimes: "be_runtimes s' = be_runtimes s1" by (rule backendPrompt_runtimes [OF assms(1) r])
  show ?thesis
  proof (cases r)
    case (Inl e)
    with assms(1) r assms(2) show ?thesis by (simp add: backendPrompt_def)
  next
    case (Inr rt)
    obtain inputs settled w1 where run: "ag_run (bk_agent B) rt t (be_world s1) = ((inputs, settled), w1)"
      by (metis prod.collapse)
    let ?g = "runGuard (bk_shell B) (po_resolve (sp_paths (bk_shell B)) (ic_workspace (bk_config B)) []) inputs newGuard"
    have eq: "res = taskOutcome (gd_stopMessage ?g) (map_sum id (\<lambda>reply. orDefault reply noReplyText) settled) (Inr ())"
      "be_world s' = cleanupWorkspace B w1"
      using assms(1) r Inr run by (auto simp: backendPrompt_def runTask_eq)
    from eq(1) assms(2) have "taskOutcome (gd_stopMessage ?g) (map_sum id (\<lambda>reply. orDefault reply noReplyText) settled) (Inr ())
        = Inr reply" by simp
    from taskOutcome_result [OF this] have settled: "map_sum id (\<lambda>reply. orDefault reply noReplyText) settled = Inr reply"
      and unstopped: "gd_stopMessage ?g = None" by blast+
    from settled obtain answer where "settled = Inr answer" "reply = orDefault answer noReplyText"
      by (cases settled) auto
    with run unstopped_within_limits [OF unstopped] eq(2) keeps(2) [OF Inr] runtimes show ?thesis by fastforce
  qed
qed

section \<open>Properties\<close>

text \<open>A prompt keeps the chats apart: it changes no other chat's runtime and keeps its own for the
  next prompt; and a reply is the answer of the run of that text in the chat's own runtime,
  which stayed within the time and the number of tool calls and after which the workspace
  was cleaned up.\<close>

theorem reply_from_own_runtime:
  assumes "backendPrompt B chat t s = (res, s')" and "runtimesOk s"
  shows "runtimesOk s' \<and> (\<forall>c. c \<noteq> chat \<longrightarrow> map_of (be_runtimes s') c = map_of (be_runtimes s) c) \<and>
    (\<forall>rt. map_of (be_runtimes s) chat = Some rt \<longrightarrow> map_of (be_runtimes s') chat = Some rt) \<and>
    (\<forall>reply. res = Inr reply \<longrightarrow>
       (\<exists>rt w inputs answer w1. map_of (be_runtimes s') chat = Some rt \<and>
          ag_run (bk_agent B) rt t w = ((inputs, Inr answer), w1) \<and> reply = orDefault answer noReplyText \<and>
          TimerFires \<notin> set inputs \<and> length (filter isToolStart inputs) \<le> MAX_TOOL_CALLS \<and>
          be_world s' = cleanupWorkspace B w1))"
proof -
  obtain r s1 where r: "getRuntime B chat s = (r, s1)" by fastforce
  note keeps = getRuntime_keeps [OF r]
  have runtimes: "be_runtimes s' = be_runtimes s1" by (rule backendPrompt_runtimes [OF assms(1) r])
  show ?thesis
  proof (intro conjI allI impI)
    show "runtimesOk s'" using getRuntime_ok [OF r assms(2)] runtimes by (simp add: runtimesOk_def)
  next
    fix c assume "c \<noteq> chat"
    then show "map_of (be_runtimes s') c = map_of (be_runtimes s) c" using keeps(3) runtimes by simp
  next
    fix rt assume "map_of (be_runtimes s) chat = Some rt"
    then show "map_of (be_runtimes s') chat = Some rt" using keeps(1) runtimes by simp
  next
    fix reply assume "res = Inr reply"
    from backendPrompt_reply [OF assms(1) this] show "\<exists>rt w inputs answer w1.
        map_of (be_runtimes s') chat = Some rt \<and>
        ag_run (bk_agent B) rt t w = ((inputs, Inr answer), w1) \<and> reply = orDefault answer noReplyText \<and>
        TimerFires \<notin> set inputs \<and> length (filter isToolStart inputs) \<le> MAX_TOOL_CALLS \<and>
        be_world s' = cleanupWorkspace B w1" .
  qed
qed

text \<open>An agent that answers with the number of its runs.\<close>

definition countingAgent :: "(nat, nat, unit, unit) coding_agent" where
  "countingAgent =
     \<lparr>ag_mkdir = (\<lambda>d n. (Inr (), n)), ag_continueRecent = (\<lambda>ws d n. (Inr (), n)),
      ag_createServices = (\<lambda>cwd d n. (Inr \<lparr>sv_getModel = (\<lambda>p m. None), sv_diagnostics = []\<rparr>, n)),
      ag_createSession = (\<lambda>sv sm m n. (Inr n, n)), ag_model = (\<lambda>rt n. Some (js ''p'', js ''m'')),
      ag_isStreaming = (\<lambda>rt n. False), ag_sessionId = (\<lambda>rt n. []), ag_cwd = (\<lambda>rt. js ''/w''),
      ag_run = (\<lambda>rt t n. (([], Inr (Some (showNat n))), Suc n)), ag_newSession = (\<lambda>rt n. (Inr (), n)),
      ag_abort = (\<lambda>rt n. (Inr (), n)), ag_dispose = (\<lambda>rt n. (Inr (), n))\<rparr>"

definition countingBackend :: "(nat, nat, unit, unit) backend_env" where
  "countingBackend =
     \<lparr>bk_config = \<lparr>ic_feishuAppId = js ''a'', ic_feishuAppSecret = js ''s'', ic_ownerOpenId = js ''o'', ic_workspace = js ''/w'',
        ic_agentDir = js ''/d'', ic_provider = None, ic_model = None\<rparr>,
      bk_shell = posixShell, bk_agent = countingAgent,
      bk_cleanup = \<lparr>cd_stopTemporaryBrowsers = (\<lambda>ws n. (Inr (), n)), cd_remove = (\<lambda>p n. (Inr (), n)),
        cd_listNames = (\<lambda>ws n. (Inr [], n))\<rparr>,
      bk_sha256 = id\<rparr>"

theorem reply_from_own_runtime_witness:
  "fst (backendPrompt countingBackend (js ''c'') (js ''hi'') \<lparr>be_runtimes = [], be_world = 7\<rparr>) = Inr (js ''7'') \<and>
   map_of (be_runtimes (snd (backendPrompt countingBackend (js ''c'') (js ''hi'') \<lparr>be_runtimes = [], be_world = 7\<rparr>)))
     (js ''other'') = None"
proof -
  obtain res s' where p: "backendPrompt countingBackend (js ''c'') (js ''hi'') \<lparr>be_runtimes = [], be_world = 7\<rparr> = (res, s')"
    by fastforce
  have "runtimesOk \<lparr>be_runtimes = [], be_world = 7\<rparr>" by (simp add: runtimesOk_def)
  note own = reply_from_own_runtime [OF p this]
  have "fst (backendPrompt countingBackend (js ''c'') (js ''hi'') \<lparr>be_runtimes = [], be_world = 7\<rparr>) = Inr (js ''7'')"
    by code_simp
  moreover have "js ''other'' \<noteq> js ''c''" by (simp add: js_def)
  then have "map_of (be_runtimes s') (js ''other'') = None" using own by simp
  ultimately show ?thesis using p by simp
qed

end
