(* ===== verification/BranchSummary.thy ===== *)
theory BranchSummary
  imports Compaction
begin

text \<open>
  The summary of an abandoned branch, packages/agent/src/harness/compaction/branch-summarization.ts:
  the entries between the old leaf and the common ancestor, the choice of the messages
  within a token budget, and the request to the model.

  The walk from the old leaf follows parent ids and may not end on an arbitrary storage;
  then it is \<open>None\<close>. A \<open>Set\<close> of strings is the list of its elements in insertion order.
\<close>

section \<open>Collecting the entries\<close>

record collect_entries_result =
  ce_entries :: "entry list"
  ce_commonAncestorId :: "jstr option"

text \<open>The loop that walks up from \<open>current\<close>, with the entries it has pushed.\<close>

partial_function (option) walkUp ::
  "(jstr \<Rightarrow> entry option) \<Rightarrow> jstr option \<Rightarrow> jstr option \<Rightarrow> entry list \<Rightarrow> (session_error + entry list) option" where
  "walkUp getEntry commonAncestorId current entries =
     (if truthyStr current \<and> current \<noteq> commonAncestorId
      then (case getEntry (the current) of
              None \<Rightarrow> Some (Inl (invalidSession (the current)))
            | Some e \<Rightarrow> walkUp getEntry commonAncestorId (en_parentId e) (entries @ [e]))
      else Some (Inr entries))"

definition deepestCommon :: "entry list \<Rightarrow> entry list \<Rightarrow> jstr option" where
  "deepestCommon oldPath targetPath =
     map_option en_id (find (\<lambda>e. en_id e \<in> set (map en_id oldPath)) (rev targetPath))"

definition collectEntriesForBranchSummary ::
  "'s storage_ops \<Rightarrow> jstr option \<Rightarrow> jstr \<Rightarrow> 's \<Rightarrow> (session_error + collect_entries_result) option" where
  "collectEntriesForBranchSummary S oldLeafId targetId s =
     (if \<not> truthyStr oldLeafId then Some (Inr \<lparr>ce_entries = [], ce_commonAncestorId = None\<rparr>)
      else (case getBranch S oldLeafId s of
              None \<Rightarrow> None
            | Some (Inl e) \<Rightarrow> Some (Inl e)
            | Some (Inr oldPath) \<Rightarrow>
                (case getBranch S (Some targetId) s of
                   None \<Rightarrow> None
                 | Some (Inl e) \<Rightarrow> Some (Inl e)
                 | Some (Inr targetPath) \<Rightarrow>
                     (let commonAncestorId = deepestCommon oldPath targetPath
                      in map_option (map_sum id (\<lambda>es. \<lparr>ce_entries = rev es, ce_commonAncestorId = commonAncestorId\<rparr>))
                           (walkUp (\<lambda>i. so_getEntry S i s) commonAncestorId oldLeafId [])))))"

section \<open>Choosing the messages\<close>

record branch_preparation =
  bp_messages :: "agent_message list"
  bp_fileOps :: file_operations
  bp_totalTokens :: int

text \<open>Messages of a branch; the result of a tool is none of them.\<close>

definition branchMessage :: "(jstr \<Rightarrow> int) \<Rightarrow> entry \<Rightarrow> agent_message option" where
  "branchMessage getTime e =
     (case en_body e of
        E_message m \<Rightarrow> (case m of Msg (MToolResult _) \<Rightarrow> None | _ \<Rightarrow> Some m)
      | E_customMessage d \<Rightarrow>
          Some (Custom (createCustomMessage getTime (cmd_customType d) (cmd_content d) (cmd_display d)
            (cmd_details d) (en_timestamp e)))
      | E_branchSummary d \<Rightarrow>
          Some (BranchSummary (createBranchSummaryMessage getTime (bd_summary d) (bd_fromId d) (en_timestamp e)))
      | E_compaction d \<Rightarrow>
          Some (CompactionSummary (createCompactionSummaryMessage getTime (cd_summary d) (cd_tokensBefore d)
            (en_timestamp e)))
      | _ \<Rightarrow> None)"

text \<open>What an earlier summary of the branch says of files.\<close>

definition addSummaryFiles :: "entry \<Rightarrow> file_operations \<Rightarrow> file_operations" where
  "addSummaryFiles e ops =
     (case en_body e of
        E_branchSummary d \<Rightarrow>
          (case bd_details d of
             Some details \<Rightarrow>
               (if bd_fromHook d \<noteq> Some True \<and> truthyJson details
                then ops\<lparr>fops_read := setAddAll (stringsIn (js ''readFiles'') details) (fops_read ops),
                         fops_edited := setAddAll (stringsIn (js ''modifiedFiles'') details) (fops_edited ops)\<rparr>
                else ops)
           | None \<Rightarrow> ops)
      | _ \<Rightarrow> ops)"

fun isSummaryEntry :: "entry_body \<Rightarrow> bool" where
  "isSummaryEntry (E_compaction _) = True"
| "isSummaryEntry (E_branchSummary _) = True"
| "isSummaryEntry _ = False"

text \<open>
  The loop over the entries from the last to the first; the list is reversed. The test
  against \<open>tokenBudget * 0.9\<close> is exact on integers: the product of the double next to 0.9 is
  rounded to the integer where it is one.
\<close>

fun takeWithinBudget ::
  "(jstr \<Rightarrow> int) \<Rightarrow> int \<Rightarrow> entry list \<Rightarrow> branch_preparation \<Rightarrow> branch_preparation" where
  "takeWithinBudget getTime tokenBudget [] p = p"
| "takeWithinBudget getTime tokenBudget (e # es) p =
     (case branchMessage getTime e of
        None \<Rightarrow> takeWithinBudget getTime tokenBudget es p
      | Some m \<Rightarrow>
          (let p1 = p\<lparr>bp_fileOps := extractFileOpsFromMessage m (bp_fileOps p)\<rparr>;
               tokens = estimateTokens m;
               p2 = p1\<lparr>bp_messages := m # bp_messages p1, bp_totalTokens := bp_totalTokens p1 + tokens\<rparr>
           in if tokenBudget > 0 \<and> bp_totalTokens p1 + tokens > tokenBudget
              then (if isSummaryEntry (en_body e) \<and> 10 * bp_totalTokens p1 < 9 * tokenBudget then p2 else p1)
              else takeWithinBudget getTime tokenBudget es p2))"

definition prepareBranchEntries :: "(jstr \<Rightarrow> int) \<Rightarrow> entry list \<Rightarrow> int \<Rightarrow> branch_preparation" where
  "prepareBranchEntries getTime entries tokenBudget =
     takeWithinBudget getTime tokenBudget (rev entries)
       \<lparr>bp_messages = [], bp_fileOps = fold addSummaryFiles entries createFileOps, bp_totalTokens = 0\<rparr>"

section \<open>The summary\<close>

definition BRANCH_SUMMARY_PREAMBLE :: jstr where
  "BRANCH_SUMMARY_PREAMBLE =
     js ''The user explored a different conversation branch before returning here.'' @ NL @
     js ''Summary of that exploration:'' @ NL @ NL"

definition BRANCH_SUMMARY_PROMPT :: jstr where
  \<open>BRANCH_SUMMARY_PROMPT = joinWith NL
    [js ''Create a structured summary of this conversation branch for context when returning later.'',
     js '''',
     js ''Use this EXACT format:'',
     js '''',
     js ''## Goal'',
     js ''[What was the user trying to accomplish in this branch?]'',
     js '''',
     js ''## Constraints & Preferences'',
     js ''- [Any constraints, preferences, or requirements mentioned]'',
     js ''- [Or "(none)" if none were mentioned]'',
     js '''',
     js ''## Progress'',
     js ''### Done'',
     js ''- [x] [Completed tasks/changes]'',
     js '''',
     js ''### In Progress'',
     js ''- [ ] [Work that was started but not finished]'',
     js '''',
     js ''### Blocked'',
     js ''- [Issues preventing progress, if any]'',
     js '''',
     js ''## Key Decisions'',
     js ''- **[Decision]**: [Brief rationale]'',
     js '''',
     js ''## Next Steps'',
     js ''1. [What should happen next to continue this work]'',
     js '''',
     js ''Keep each section concise. Preserve exact file paths, function names, and error messages.'']\<close>

datatype branch_summary_error_code = BE_aborted | BE_summarization_failed | BE_invalid_session

record branch_summary_error =
  be_code :: branch_summary_error_code
  be_message :: jstr

record branch_summary_result =
  br_summary :: jstr
  br_usage :: "usage option"
  br_readFiles :: "jstr list"
  br_modifiedFiles :: "jstr list"

record branch_summary_options =
  bo_model :: model
  bo_customInstructions :: "jstr option"
  bo_replaceInstructions :: "bool option"
  bo_reserveTokens :: "int option"

definition branchInstructions :: "branch_summary_options \<Rightarrow> jstr" where
  "branchInstructions opts =
     (if bo_replaceInstructions opts = Some True \<and> truthyStr (bo_customInstructions opts)
      then the (bo_customInstructions opts)
      else if truthyStr (bo_customInstructions opts)
      then BRANCH_SUMMARY_PROMPT @ NL @ NL @ js ''Additional focus: '' @ the (bo_customInstructions opts)
      else BRANCH_SUMMARY_PROMPT)"

definition branchTokenBudget :: "branch_summary_options \<Rightarrow> int" where
  "branchTokenBudget opts =
     (let window = md_contextWindow (bo_model opts)
      in (if window = 0 then 128000 else window) - orDefault (bo_reserveTokens opts) 16384)"

definition branchSummaryResult :: "assistant_message \<Rightarrow> file_operations \<Rightarrow> branch_summary_result" where
  "branchSummaryResult response ops =
     (case computeFileLists ops of
        (readFiles, modifiedFiles) \<Rightarrow>
          (let summary = BRANCH_SUMMARY_PREAMBLE @ contentText_assistant NL (am_content response) @
                 formatFileOperations readFiles modifiedFiles
           in \<lparr>br_summary = (if summary = [] then js ''No summary generated'' else summary),
               br_usage = Some (am_usage response),
               br_readFiles = readFiles, br_modifiedFiles = modifiedFiles\<rparr>))"

definition generateBranchSummary ::
  "(jstr \<Rightarrow> int) \<Rightarrow> ('w, 'e) summary_env \<Rightarrow> entry list \<Rightarrow> branch_summary_options \<Rightarrow> 'w retry_run \<Rightarrow>
   ('e + (branch_summary_error + branch_summary_result)) \<times> 'w retry_run" where
  "generateBranchSummary getTime V entries opts r =
     (let p = prepareBranchEntries getTime entries (branchTokenBudget opts)
      in if bp_messages p = []
         then (Inr (Inr \<lparr>br_summary = js ''No content to summarize'', br_usage = None,
                         br_readFiles = [], br_modifiedFiles = []\<rparr>), r)
         else
           (let context = \<lparr>lc_systemPrompt = Some SUMMARIZATION_SYSTEM_PROMPT,
                  lc_messages = [mk_user [text_block (conversationPrompt (bp_messages p) @ branchInstructions opts)]
                    (sv_now V (rr_world r))], lc_tools = None\<rparr>
            in case completeSimpleWithRetries V (bo_model opts) context
                      \<lparr>so_maxTokens = 2048, so_reasoning = None\<rparr> r of
                 (Inl e, r') \<Rightarrow> (Inl e, r')
               | (Inr response, r') \<Rightarrow>
                   (if am_stopReason response = SR_aborted
                    then (Inr (Inl \<lparr>be_code = BE_aborted,
                            be_message = orMessage (am_errorMessage response) (js ''Branch summary aborted'')\<rparr>), r')
                    else if am_stopReason response = SR_error
                    then (Inr (Inl \<lparr>be_code = BE_summarization_failed,
                            be_message = js ''Branch summary failed: '' @
                              orMessage (am_errorMessage response) unknownError\<rparr>), r')
                    else (Inr (Inr (branchSummaryResult response (bp_fileOps p))), r'))))"

end
