(* ===== verification/BranchSummaryProps.thy ===== *)
theory BranchSummaryProps
  imports BranchSummary CompactionFacts SessionProps
begin

text \<open>
  What is collected for the summary of a branch, and how much of it is chosen.
\<close>

section \<open>Two paths in a tree\<close>

definition keyed :: "(jstr \<Rightarrow> entry option) \<Rightarrow> bool" where
  "keyed byId \<longleftrightarrow> (\<forall>i e. byId i = Some e \<longrightarrow> en_id e = i \<and> i \<noteq> [])"

lemma keyedD: "keyed byId \<Longrightarrow> byId i = Some e \<Longrightarrow> en_id e = i \<and> i \<noteq> [] \<and> byId (en_id e) = Some e"
  by (auto simp: keyed_def)

lemma rootPath_take:
  "rootPath byId e ps \<Longrightarrow> k < length ps \<Longrightarrow> rootPath byId (ps ! k) (take (Suc k) ps)"
proof (induction arbitrary: k rule: rootPath.induct)
  case (root e)
  then show ?case by (auto intro: rootPath.root)
next
  case (child e p ps)
  show ?case
  proof (cases "k < length ps")
    case True
    with child.IH [OF this] show ?thesis by (simp add: nth_append)
  next
    case False
    with child.prems have "k = length ps" by simp
    with rootPath.child [OF child.hyps] show ?thesis by simp
  qed
qed

lemma rootPath_keyed:
  "rootPath byId e ps \<Longrightarrow> keyed byId \<Longrightarrow> byId (en_id e) = Some e \<Longrightarrow> x \<in> set ps \<Longrightarrow>
   byId (en_id x) = Some x \<and> en_id x \<noteq> []"
proof (induction rule: rootPath.induct)
  case (root e)
  with keyedD [OF root.prems(1,2)] show ?case by simp
next
  case (child e p ps)
  have "byId (en_id p) = Some p" using keyedD [OF child.prems(1) child.hyps(2)] by blast
  with child keyedD [OF child.prems(1,2)] show ?case by auto
qed

lemma walkUp_rootPath:
  "rootPath byId e ps \<Longrightarrow> keyed byId \<Longrightarrow> byId (en_id e) = Some e \<Longrightarrow> k \<le> length ps \<Longrightarrow>
   anc = (if k = 0 then None else Some (en_id (ps ! (k - 1)))) \<Longrightarrow>
   \<forall>x \<in> set (drop k ps). anc \<noteq> Some (en_id x) \<Longrightarrow>
   walkUp byId anc (Some (en_id e)) acc = Some (Inr (acc @ rev (drop k ps)))"
proof (induction arbitrary: acc rule: rootPath.induct)
  case (root e)
  have "en_id e \<noteq> []" using keyedD [OF root.prems(1,2)] by blast
  with root show ?case by (cases k; subst walkUp.simps; subst walkUp.simps) (auto simp: truthyStr_def)
next
  case (child e p ps)
  have "en_id e \<noteq> []" using keyedD [OF child.prems(1,2)] by blast
  then have t: "truthyStr (Some (en_id e))" by (simp add: truthyStr_def)
  show ?case
  proof (cases "k = Suc (length ps)")
    case True
    with child.prems(4) show ?thesis by (subst walkUp.simps) simp
  next
    case False
    with child.prems(3) have k: "k \<le> length ps" by simp
    have p: "byId (en_id p) = Some p" "en_parentId e = Some (en_id p)"
      using keyedD [OF child.prems(1) child.hyps(2)] child.hyps(1) by (auto simp: truthyStr_def split: option.splits)
    have "walkUp byId anc (Some (en_id p)) (acc @ [e]) = Some (Inr ((acc @ [e]) @ rev (drop k ps)))"
      by (rule child.IH [OF child.prems(1) p(1) k]) (use child.prems(4,5) k in \<open>auto simp: nth_append\<close>)
    moreover have "anc \<noteq> Some (en_id e)" using child.prems(5) k by simp
    ultimately show ?thesis using t k p child.prems(2) by (subst walkUp.simps) simp
  qed
qed

text \<open>Two paths share exactly their longest common prefix.\<close>

lemma shared_in_common:
  assumes ps: "rootPath byId e ps" and qs: "rootPath byId f qs" and i: "i < length ps" and j: "j < length qs"
    and eq: "ps ! i = qs ! j"
  shows "i = j \<and> j < length (longest_common_prefix ps qs)"
proof -
  from rootPath_unique [OF rootPath_take [OF ps i]] rootPath_take [OF qs j] eq
  have t: "take (Suc i) ps = take (Suc j) qs" by simp
  then have "i = j" using i j by (metis length_take min.absorb4 Suc_leI Suc_inject min.absorb2)
  moreover have "prefix (take (Suc j) qs) ps" using t by (metis take_is_prefix)
  then have "prefix (take (Suc j) qs) (longest_common_prefix ps qs)"
    using longest_common_prefix_max_prefix take_is_prefix by blast
  then have "Suc j \<le> length (longest_common_prefix ps qs)"
    using j prefix_length_le by fastforce
  ultimately show ?thesis by simp
qed

lemma common_nth:
  assumes "k < length (longest_common_prefix ps qs)"
  shows "longest_common_prefix ps qs ! k = ps ! k \<and> ps ! k = qs ! k \<and> k < length ps \<and> k < length qs"
proof -
  obtain us vs where "ps = longest_common_prefix ps qs @ us" "qs = longest_common_prefix ps qs @ vs"
    using longest_common_prefix_prefix1 longest_common_prefix_prefix2 by (metis prefixE)
  with assms show ?thesis by (metis length_append nth_append trans_less_add1)
qed

lemma deepestCommon_paths:
  assumes key: "keyed byId" and ps: "rootPath byId e ps" and qs: "rootPath byId f qs"
    and e: "byId (en_id e) = Some e" and f: "byId (en_id f) = Some f" and d: "distinct (map en_id ps)"
    and c: "c = longest_common_prefix ps qs"
  shows "deepestCommon (drop a ps) (drop b qs) =
    (if a < length c \<and> b < length c then Some (en_id (last c)) else None)"
proof -
  let ?P = "\<lambda>x. en_id x \<in> set (map en_id (drop a ps))"
  have only: "j < length c \<and> a \<le> j" if "j < length qs" "?P (qs ! j)" for j
  proof -
    from that(2) obtain i where i: "a \<le> i" "i < length ps" "en_id (ps ! i) = en_id (qs ! j)"
      by (auto simp: in_set_conv_nth) (metis add.commute le_add1 less_diff_conv)
    have "byId (en_id (ps ! i)) = Some (ps ! i)"
      by (rule conjunct1 [OF rootPath_keyed [OF ps key e nth_mem [OF i(2)]]])
    moreover have "byId (en_id (qs ! j)) = Some (qs ! j)"
      by (rule conjunct1 [OF rootPath_keyed [OF qs key f nth_mem [OF that(1)]]])
    ultimately have "ps ! i = qs ! j" using i(3) by (metis option.inject)
    from shared_in_common [OF ps qs i(2) that(1) this] i(1) c show ?thesis by simp
  qed
  show ?thesis
  proof (cases "a < length c \<and> b < length c")
    case True
    let ?j = "length c - 1"
    have j: "longest_common_prefix ps qs ! ?j = ps ! ?j \<and> ps ! ?j = qs ! ?j \<and> ?j < length ps \<and> ?j < length qs"
      using common_nth [of ?j ps qs] True c by auto
    have "ps ! ?j \<in> set (drop a ps)" using True j by (auto simp: in_set_conv_nth intro!: exI [of _ "?j - a"])
    then have P: "?P (qs ! ?j)" using j by simp
    have at: "drop b qs ! (?j - b) = qs ! ?j" using True j by (subst nth_drop) auto
    have "findLast ?P (drop b qs) = Some (drop b qs ! (?j - b))"
    proof (rule findLast_nth)
      show "?P (drop b qs ! (?j - b))" "?j - b < length (drop b qs)" using P True j by auto
      show "\<not> ?P (drop b qs ! m)" if "?j - b < m" "m < length (drop b qs)" for m
        using only [of "b + m"] that True by (simp add: nth_drop) linarith
    qed
    moreover have "last c = qs ! ?j" 
    proof -
      have "c \<noteq> []" using True by auto
      with last_conv_nth [OF this] j c show ?thesis by simp
    qed
    ultimately show ?thesis unfolding deepestCommon_def using True at by (simp add: findLast_def)
  next
    case False
    have "\<not> ?P x" if "x \<in> set (drop b qs)" for x
    proof
      assume P: "?P x"
      from that obtain m where m: "x = qs ! (b + m)" "b + m < length qs"
        by (auto simp: in_set_conv_nth)
      with only [of "b + m"] P False show False by simp
    qed
    then have "find ?P (rev (drop b qs)) = None" by (simp add: find_None_iff)
    with False show ?thesis by (simp add: deepestCommon_def)
  qed
qed

text \<open>
  What is collected for the paths of the old leaf and the target: below the common part when
  both lookups reach it, and the whole old path when one of them stops before.
\<close>

lemma memInv_keyed: "memInv src s \<Longrightarrow> keyed (ms_byId s)"
  unfolding memInv_def keyed_def by blast

definition cutOf :: "entry list \<Rightarrow> nat" where
  "cutOf ps = cutAt ps (length ps - 1) None"

lemma collect_paths:
  assumes inv: "memInv src s" and old: "ms_byId s old = Some e" and target: "ms_byId s target = Some f"
    and ps: "rootPath (ms_byId s) e ps" and qs: "rootPath (ms_byId s) f qs"
    and c: "c = longest_common_prefix ps qs"
  shows "collectEntriesForBranchSummary (memoryStorageOps src) (Some old) target s =
    Some (Inr (if cutOf ps < length c \<and> cutOf qs < length c
               then \<lparr>ce_entries = drop (length c) ps, ce_commonAncestorId = Some (en_id (last c))\<rparr>
               else \<lparr>ce_entries = ps, ce_commonAncestorId = None\<rparr>))"
proof -
  note key = memInv_keyed [OF inv]
  have e: "en_id e = old" "ms_byId s (en_id e) = Some e" "old \<noteq> []" using keyedD [OF key old] old by auto
  have f: "ms_byId s (en_id f) = Some f" using keyedD [OF key target] by blast
  obtain rs where "rootPath (ms_byId s) e rs" "distinct (map en_id rs)" using rootPath_entry [OF inv old] by blast
  with rootPath_unique [OF ps] have d: "distinct (map en_id ps)" by simp
  let ?reach = "cutOf ps < length c \<and> cutOf qs < length c"
  let ?k = "if ?reach then length c else 0"
  let ?anc = "if ?reach then Some (en_id (last c)) else None"
  have anc: "deepestCommon (drop (cutOf ps) ps) (drop (cutOf qs) qs) = ?anc"
    by (rule deepestCommon_paths [OF key ps qs e(2) f d c])
  have len: "length c \<le> length ps" using prefix_length_le [OF longest_common_prefix_prefix1] c by simp
  have last: "last c = ps ! (length c - 1)" if "c \<noteq> []"
    using that common_nth [of "length c - 1" ps qs] c by (simp add: last_conv_nth)
  have "walkUp (ms_byId s) ?anc (Some (en_id e)) [] = Some (Inr ([] @ rev (drop ?k ps)))"
  proof (rule walkUp_rootPath [OF ps key e(2)])
    show "?k \<le> length ps" using len by simp
    show "?anc = (if ?k = 0 then None else Some (en_id (ps ! (?k - 1))))" using last by auto
    show "\<forall>x \<in> set (drop ?k ps). ?anc \<noteq> Some (en_id x)"
    proof (cases ?reach)
      case True
      then have "c \<noteq> []" by auto
      have "en_id (ps ! (length c - 1)) \<noteq> en_id x" if "x \<in> set (drop (length c) ps)" for x
      proof -
        from that obtain m where m: "x = ps ! (length c + m)" "length c + m < length ps"
          by (auto simp: in_set_conv_nth)
        have "length c - 1 \<noteq> length c + m" using \<open>c \<noteq> []\<close> by (cases c) auto
        with nth_eq_iff_index_eq [OF d, of "length c - 1" "length c + m"] m show ?thesis by simp
      qed
      with True last [OF \<open>c \<noteq> []\<close>] show ?thesis by auto
    qed auto
  qed
  moreover have "getBranch (memoryStorageOps src) (Some old) s = Some (Inr (drop (cutOf ps) ps))"
    "getBranch (memoryStorageOps src) (Some target) s = Some (Inr (drop (cutOf qs) qs))"
    by (simp_all add: getBranch_def cutOf_def memGetPath_cut [OF old ps] memGetPath_cut [OF target qs])
  ultimately show ?thesis using anc e by (simp add: collectEntriesForBranchSummary_def truthyStr_def)
qed

section \<open>The budget\<close>

definition estimates :: "agent_message list \<Rightarrow> int" where
  "estimates ms = sum_list (map estimateTokens ms)"

text \<open>What the loop adds to a preparation: the last messages of the entries still to come.\<close>

lemma takeWithinBudget_spec:
  "\<exists>taken left. List.map_filter (branchMessage getTime) es = rev taken @ left \<and>
     bp_messages (takeWithinBudget getTime B es p) = taken @ bp_messages p \<and>
     bp_totalTokens (takeWithinBudget getTime B es p) = bp_totalTokens p + estimates taken \<and>
     (B \<le> 0 \<longrightarrow> left = []) \<and>
     (0 < B \<and> bp_totalTokens p \<le> B \<longrightarrow> bp_totalTokens p + estimates taken \<le> B \<or>
        taken \<noteq> [] \<and> 10 * (bp_totalTokens p + estimates (tl taken)) < 9 * B) \<and>
     (left \<noteq> [] \<longrightarrow> B < bp_totalTokens p + estimates taken \<or>
        B < bp_totalTokens p + estimates taken + estimateTokens (hd left))"
proof (induction es arbitrary: p)
  case Nil
  then show ?case by (intro exI [of _ "[]"]) (simp add: map_filter_simps estimates_def)
next
  case (Cons e es)
  show ?case
  proof (cases "branchMessage getTime e")
    case None
    with Cons.IH [of p] show ?thesis by (simp add: map_filter_simps)
  next
    case (Some m)
    let ?p1 = "p\<lparr>bp_fileOps := extractFileOpsFromMessage m (bp_fileOps p)\<rparr>"
    let ?p2 = "?p1\<lparr>bp_messages := m # bp_messages ?p1, bp_totalTokens := bp_totalTokens ?p1 + estimateTokens m\<rparr>"
    have ms: "List.map_filter (branchMessage getTime) (e # es) = m # List.map_filter (branchMessage getTime) es"
      using Some by (simp add: map_filter_simps)
    show ?thesis
    proof (cases "B > 0 \<and> bp_totalTokens p + estimateTokens m > B")
      case True
      show ?thesis
      proof (cases "isSummaryEntry (en_body e) \<and> 10 * bp_totalTokens p < 9 * B")
        case summary: True
        then have "takeWithinBudget getTime B (e # es) p = ?p2" using Some True by (simp add: Let_def)
        with ms True summary show ?thesis
          by - (rule exI [of _ "[m]"], rule exI [of _ "List.map_filter (branchMessage getTime) es"],
              simp add: estimates_def)
      next
        case plain: False
        then have "takeWithinBudget getTime B (e # es) p = ?p1" using Some True by (simp add: Let_def)
        with ms True show ?thesis
          by - (rule exI [of _ "[]"], rule exI [of _ "m # List.map_filter (branchMessage getTime) es"],
              simp add: estimates_def)
      qed
    next
      case False
      then have run: "takeWithinBudget getTime B (e # es) p = takeWithinBudget getTime B es ?p2"
        using Some by (auto simp: Let_def)
      obtain taken left where t: "List.map_filter (branchMessage getTime) es = rev taken @ left"
          "bp_messages (takeWithinBudget getTime B es ?p2) = taken @ m # bp_messages p"
          "bp_totalTokens (takeWithinBudget getTime B es ?p2) = bp_totalTokens p + estimateTokens m + estimates taken"
          "B \<le> 0 \<longrightarrow> left = []"
          "0 < B \<and> bp_totalTokens p + estimateTokens m \<le> B \<longrightarrow>
             bp_totalTokens p + estimateTokens m + estimates taken \<le> B \<or>
             taken \<noteq> [] \<and> 10 * (bp_totalTokens p + estimateTokens m + estimates (tl taken)) < 9 * B"
          "left \<noteq> [] \<longrightarrow> B < bp_totalTokens p + estimateTokens m + estimates taken \<or>
             B < bp_totalTokens p + estimateTokens m + estimates taken + estimateTokens (hd left)"
        using Cons.IH [of ?p2] by auto
      have sums: "estimates (taken @ [m]) = estimates taken + estimateTokens m"
        "taken \<noteq> [] \<Longrightarrow> estimates (tl (taken @ [m])) = estimates (tl taken) + estimateTokens m"
        by (simp_all add: estimates_def)
      show ?thesis unfolding run ms
      proof (rule exI [of _ "taken @ [m]"], rule exI [of _ left], intro conjI)
        show "0 < B \<and> bp_totalTokens p \<le> B \<longrightarrow> bp_totalTokens p + estimates (taken @ [m]) \<le> B \<or>
            taken @ [m] \<noteq> [] \<and> 10 * (bp_totalTokens p + estimates (tl (taken @ [m]))) < 9 * B"
          using t(5) sums False by (cases "taken = []") (auto simp: add.assoc add.commute [of "estimateTokens m"])
        show "left \<noteq> [] \<longrightarrow> B < bp_totalTokens p + estimates (taken @ [m]) \<or>
            B < bp_totalTokens p + estimates (taken @ [m]) + estimateTokens (hd left)"
          using t(6) sums(1) by (simp only: sums) linarith
      qed (use t sums(1) in simp_all)
    qed
  qed
qed

lemma map_filter_rev: "List.map_filter f (rev xs) = rev (List.map_filter f xs)"
  by (induction xs) (simp_all add: map_filter_simps map_filter_append split: option.split)

lemma compacted_entry:
  "k < 4 \<Longrightarrow> i = en_id (compactedEntries t ! k) \<Longrightarrow> ms_byId (compactedStore t) i = Some (compactedEntries t ! k)"
proof -
  assume "k < 4" and i: "i = en_id (compactedEntries t ! k)"
  then have "compactedEntries t ! k \<in> set (compactedEntries t)" by (intro nth_mem) (simp add: compactedEntries_def)
  with i show ?thesis unfolding compactedStore_index by simp
qed

lemma compacted_path:
  "k < 4 \<Longrightarrow> rootPath (ms_byId (compactedStore t)) (compactedEntries t ! k) (take (Suc k) (compactedEntries t))"
  by (rule rootPath_take [OF compacted_rootPath]) (simp add: compactedEntries_def)

section \<open>Properties\<close>

text \<open>When the lookups of the old leaf and of the target both reach their deepest common entry,
  the entries collected for the summary of the abandoned branch are exactly those of the old
  path below it, in order.\<close>

theorem branch_below_ancestor:
  assumes "memInv src s" and "ms_byId s old = Some e" and "ms_byId s target = Some f"
    and "rootPath (ms_byId s) e ps" and "rootPath (ms_byId s) f qs"
    and "common = longest_common_prefix ps qs" and "cutOf ps < length common" and "cutOf qs < length common"
  shows "collectEntriesForBranchSummary (memoryStorageOps src) (Some old) target s =
    Some (Inr \<lparr>ce_entries = drop (length common) ps, ce_commonAncestorId = Some (en_id (last common))\<rparr>)"
  using collect_paths [OF assms(1-6)] assms(7,8) by simp

theorem branch_below_ancestor_witness:
  "collectEntriesForBranchSummary (memoryStorageOps sampleSource) (Some (js ''cc'')) (js ''bb'') (compactedStore None) =
    Some (Inr \<lparr>ce_entries = [compactedEntries None ! 2], ce_commonAncestorId = Some (js ''bb'')\<rparr>)"
proof -
  let ?es = "compactedEntries None"
  have ids: "js ''cc'' = en_id (?es ! 2)" "js ''bb'' = en_id (?es ! 1)"
    by (simp_all add: compactedEntries_def plainEntry_def)
  have common: "take (Suc 1) ?es = longest_common_prefix (take (Suc 2) ?es) (take (Suc 1) ?es)"
    "cutOf (take (Suc 2) ?es) < length (take (Suc 1) ?es)" "cutOf (take (Suc 1) ?es) < length (take (Suc 1) ?es)"
    by (simp_all add: cutOf_def compactedEntries_def numeral_2_eq_2 retained_def nextStop_def compactionOf_def plainEntry_def)
  note entries = compacted_entry [where k = 2, OF _ ids(1)] compacted_entry [where k = 1, OF _ ids(2)]
  from branch_below_ancestor [OF compactedStore_inv entries compacted_path compacted_path common] show ?thesis
    by (simp add: compactedEntries_def plainEntry_def numeral_2_eq_2)
qed

text \<open>Going back to an entry above the point where the lookup of the old leaf stops at a compaction
  finds no common entry, although the target is one: the whole path from the root is collected
  for the summary, the target and everything above it included.\<close>

theorem branch_above_compaction:
  assumes "memInv src s" and "ms_byId s old = Some e" and "ms_byId s target = Some f"
    and "rootPath (ms_byId s) e ps" and "rootPath (ms_byId s) f qs" and "prefix qs ps" and "length qs \<le> cutOf ps"
  shows "collectEntriesForBranchSummary (memoryStorageOps src) (Some old) target s =
    Some (Inr \<lparr>ce_entries = ps, ce_commonAncestorId = None\<rparr>) \<and> f \<in> set ps"
proof -
  have "longest_common_prefix ps qs = qs"
    using assms(6) by (simp add: longest_common_prefix_max_prefix longest_common_prefix_prefix2 prefix_order.antisym)
  moreover have "f \<in> set ps"
    using rootPath_not_Nil [OF assms(5)] set_mono_prefix [OF assms(6)] last_in_set by blast
  ultimately show ?thesis using collect_paths [OF assms(1-5) refl] assms(7) by simp
qed

theorem branch_above_compaction_witness:
  "collectEntriesForBranchSummary (memoryStorageOps sampleSource) (Some (js ''dd'')) (js ''bb'') (compactedStore (Some [])) =
    Some (Inr \<lparr>ce_entries = compactedEntries (Some []), ce_commonAncestorId = None\<rparr>)"
proof -
  let ?es = "compactedEntries (Some [])"
  have ids: "js ''dd'' = en_id (?es ! 3)" "js ''bb'' = en_id (?es ! 1)"
    by (simp_all add: compactedEntries_def plainEntry_def)
  have above: "prefix (take (Suc 1) ?es) (take (Suc 3) ?es)" "length (take (Suc 1) ?es) \<le> cutOf (take (Suc 3) ?es)"
    by (simp_all add: cutOf_def compactedEntries_def eval_nat_numeral retained_def compactionOf_def plainEntry_def
        sampleCompaction_def)
  note entries = compacted_entry [where k = 3, OF _ ids(1)] compacted_entry [where k = 1, OF _ ids(2)]
  from branch_above_compaction [OF compactedStore_inv entries compacted_path compacted_path above] show ?thesis
    by (simp add: compactedEntries_def)
qed

text \<open>The messages chosen for a branch summary are the last ones of the branch, counted in full.
  Without a budget they are all. With one they stay within it, but for one summary that is
  added while less than nine tenths are used, and what is left out begins with a message
  that would not have fitted.\<close>

theorem branch_messages_within_budget:
  "\<exists>left. List.map_filter (branchMessage getTime) entries = left @ bp_messages (prepareBranchEntries getTime entries B) \<and>
     bp_totalTokens (prepareBranchEntries getTime entries B) =
       estimates (bp_messages (prepareBranchEntries getTime entries B)) \<and>
     (0 < B \<or> left = []) \<and>
     (B \<le> 0 \<or> bp_totalTokens (prepareBranchEntries getTime entries B) \<le> B \<or>
        10 * estimates (tl (bp_messages (prepareBranchEntries getTime entries B))) < 9 * B) \<and>
     (left = [] \<or> B < bp_totalTokens (prepareBranchEntries getTime entries B) \<or>
        B < bp_totalTokens (prepareBranchEntries getTime entries B) + estimateTokens (last left))"
proof -
  let ?p = "\<lparr>bp_messages = [], bp_fileOps = fold addSummaryFiles entries createFileOps, bp_totalTokens = 0\<rparr>"
  from takeWithinBudget_spec [of getTime "rev entries" B ?p] obtain taken left where
    t: "rev (List.map_filter (branchMessage getTime) entries) = rev taken @ left"
      "bp_messages (prepareBranchEntries getTime entries B) = taken"
      "bp_totalTokens (prepareBranchEntries getTime entries B) = estimates taken"
      "B \<le> 0 \<longrightarrow> left = []"
      "0 < B \<and> 0 \<le> B \<longrightarrow> estimates taken \<le> B \<or> taken \<noteq> [] \<and> 10 * estimates (tl taken) < 9 * B"
      "left \<noteq> [] \<longrightarrow> B < estimates taken \<or> B < estimates taken + estimateTokens (hd left)"
    unfolding prepareBranchEntries_def map_filter_rev [symmetric] by force
  have "List.map_filter (branchMessage getTime) entries = rev left @ taken"
    using t(1) by (metis rev_append rev_rev_ident)
  with t show ?thesis by (intro exI [of _ "rev left"]) (auto simp: last_rev)
qed

end
