(* ===== verification/PromptTexts.thy ===== *)
theory PromptTexts
  imports Prelude
begin

text \<open>
  The texts of prompts: the listing of skills in packages/agent/src/harness/system-prompt.ts,
  the invocation of a skill in skills.ts and of a prompt template in prompt-templates.ts,
  with the parsing of a command's arguments.

  A global \<open>replace\<close> scans the string once from the left and does not look again at what it
  has inserted. A replacement that is a string, and not a function, has its own patterns:
  \<open>$$\<close>, \<open>$&\<close>, \<open>$`\<close> and \<open>$'\<close> stand for a dollar sign, the match, and the text before and after it.
\<close>

section \<open>Skills and templates\<close>

record skill =
  sk_name :: jstr
  sk_description :: jstr
  sk_content :: jstr
  sk_filePath :: jstr
  sk_disableModelInvocation :: "bool option"

record prompt_template =
  pt_name :: jstr
  pt_description :: "jstr option"
  pt_content :: jstr

record harness_resources =
  rs_promptTemplates :: "prompt_template list option"
  rs_skills :: "skill list option"

section \<open>The listing of skills\<close>

fun escapeUnitXml :: "jchar \<Rightarrow> jstr" where
  "escapeUnitXml c =
     (if c = 38 then js ''&amp;'' else if c = 60 then js ''&lt;'' else if c = 62 then js ''&gt;''
      else if c = 34 then js ''&quot;'' else if c = 39 then js ''&apos;'' else [c])"

text \<open>The ampersand is replaced first, so the five replacements are one map over the units.\<close>

definition escapeXml :: "jstr \<Rightarrow> jstr" where
  "escapeXml s = concat (map escapeUnitXml s)"

definition skillLines :: "skill \<Rightarrow> jstr list" where
  "skillLines s =
     [js ''  <skill>'',
      js ''    <name>'' @ escapeXml (sk_name s) @ js ''</name>'',
      js ''    <description>'' @ escapeXml (sk_description s) @ js ''</description>'',
      js ''    <location>'' @ escapeXml (sk_filePath s) @ js ''</location>'',
      js ''  </skill>'']"

definition visibleSkills :: "skill list \<Rightarrow> skill list" where
  "visibleSkills skills = filter (\<lambda>s. sk_disableModelInvocation s \<noteq> Some True) skills"

definition formatSkillsForSystemPrompt :: "skill list \<Rightarrow> jstr" where
  "formatSkillsForSystemPrompt skills =
     (if visibleSkills skills = [] then []
      else joinWith [10]
        ([js ''The following skills provide specialized instructions for specific tasks.'',
          js ''Read the full skill file when the task matches its description.'',
          js ''When a skill file references a relative path, resolve it against the skill directory (parent of SKILL.md / dirname of the path) and use that absolute path in tool commands.'',
          [],
          js ''<available_skills>''] @
         concat (map skillLines (visibleSkills skills)) @ [js ''</available_skills>'']))"

section \<open>Paths\<close>

definition stripTrailingSlashes :: "jstr \<Rightarrow> jstr" where
  "stripTrailingSlashes p = rev (dropWhile (\<lambda>c. c = 47) (rev p))"

definition stripLeadingSlashes :: "jstr \<Rightarrow> jstr" where
  "stripLeadingSlashes p = dropWhile (\<lambda>c. c = 47) p"

text \<open>The text before and the text after the last slash, when there is one.\<close>

definition beforeLastSlash :: "jstr \<Rightarrow> jstr" where
  "beforeLastSlash p = rev (tl (dropWhile (\<lambda>c. c \<noteq> 47) (rev p)))"

definition afterLastSlash :: "jstr \<Rightarrow> jstr" where
  "afterLastSlash p = rev (takeWhile (\<lambda>c. c \<noteq> 47) (rev p))"

definition joinEnvPath :: "jstr \<Rightarrow> jstr \<Rightarrow> jstr" where
  "joinEnvPath base child = stripTrailingSlashes base @ [47] @ stripLeadingSlashes child"

definition dirnameEnvPath :: "jstr \<Rightarrow> jstr" where
  "dirnameEnvPath p =
     (let normalized = stripTrailingSlashes p
      in if 47 \<notin> set normalized \<or> beforeLastSlash normalized = [] then [47] else beforeLastSlash normalized)"

definition basenameEnvPath :: "jstr \<Rightarrow> jstr" where
  "basenameEnvPath p = afterLastSlash (stripTrailingSlashes p)"

definition relativeEnvPath :: "jstr \<Rightarrow> jstr \<Rightarrow> jstr" where
  "relativeEnvPath root path =
     (let normalizedRoot = stripTrailingSlashes root; normalizedPath = stripTrailingSlashes path
      in if normalizedPath = normalizedRoot then []
         else if prefix (normalizedRoot @ [47]) normalizedPath
         then drop (length normalizedRoot + 1) normalizedPath
         else stripLeadingSlashes normalizedPath)"

section \<open>Invocations\<close>

definition formatSkillInvocation :: "skill \<Rightarrow> jstr option \<Rightarrow> jstr" where
  "formatSkillInvocation s additionalInstructions =
     (let skillBlock = js ''<skill name='' @ QUOTE @ sk_name s @ QUOTE @ js '' location='' @ QUOTE @
            sk_filePath s @ QUOTE @ js ''>'' @ [10] @ js ''References are relative to '' @
            dirnameEnvPath (sk_filePath s) @ js ''.'' @ [10, 10] @ sk_content s @ [10] @ js ''</skill>''
      in if truthyStr additionalInstructions then skillBlock @ [10, 10] @ the additionalInstructions
         else skillBlock)"

text \<open>The loop of \<open>parseCommandArgs\<close>: the arguments so far, the current one and the open quote.\<close>

fun parseArgs :: "jstr \<Rightarrow> jstr list \<Rightarrow> jstr \<Rightarrow> jchar option \<Rightarrow> jstr list" where
  "parseArgs [] args current quote = (if current \<noteq> [] then args @ [current] else args)"
| "parseArgs (c # cs) args current (Some q) =
     (if c = q then parseArgs cs args current None else parseArgs cs args (current @ [c]) (Some q))"
| "parseArgs (c # cs) args current None =
     (if c = 34 \<or> c = 39 then parseArgs cs args current (Some c)
      else if c = 32 \<or> c = 9
      then (if current \<noteq> [] then parseArgs cs (args @ [current]) [] None else parseArgs cs args current None)
      else parseArgs cs args (current @ [c]) None)"

definition parseCommandArgs :: "jstr \<Rightarrow> jstr list" where
  "parseCommandArgs s = parseArgs s [] [] None"

text \<open>
  A global replacement: the matcher gets the text before the position and the text from it
  on, and gives the inserted text and the rest, which is shorter.
\<close>

function replaceEach :: "(jstr \<Rightarrow> jstr \<Rightarrow> (jstr \<times> jstr) option) \<Rightarrow> jstr \<Rightarrow> jstr \<Rightarrow> jstr" where
  "replaceEach m before [] = []"
| "replaceEach m before (c # cs) =
     (case m before (c # cs) of
        Some (r, rest) \<Rightarrow>
          (if length rest \<le> length cs
           then r @ replaceEach m (before @ take (length (c # cs) - length rest) (c # cs)) rest
           else c # cs)
      | None \<Rightarrow> c # replaceEach m (before @ [c]) cs)"
  by pat_completeness auto
termination by (relation "measure (\<lambda>(m, before, s). length s)") auto

definition isDigit :: "jchar \<Rightarrow> bool" where
  "isDigit c \<longleftrightarrow> 48 \<le> c \<and> c \<le> 57"

definition digitsValue :: "jstr \<Rightarrow> nat" where
  "digitsValue ds = foldl (\<lambda>n c. 10 * n + (unat c - 48)) 0 ds"

text \<open>The digits at the start of a text, with their value and the rest.\<close>

definition readDigits :: "jstr \<Rightarrow> (nat \<times> jstr) option" where
  "readDigits s =
     (if takeWhile isDigit s = [] then None
      else Some (digitsValue (takeWhile isDigit s), dropWhile isDigit s))"

definition argAt :: "jstr list \<Rightarrow> nat \<Rightarrow> jstr" where
  "argAt args n = (if 1 \<le> n \<and> n \<le> length args then args ! (n - 1) else [])"

definition matchPositional :: "jstr list \<Rightarrow> jstr \<Rightarrow> jstr \<Rightarrow> (jstr \<times> jstr) option" where
  "matchPositional args before s =
     (if prefix (js ''$'') s
      then (case readDigits (drop 1 s) of None \<Rightarrow> None | Some (n, rest) \<Rightarrow> Some (argAt args n, rest))
      else None)"

definition argsFrom :: "jstr list \<Rightarrow> nat \<Rightarrow> nat option \<Rightarrow> jstr" where
  "argsFrom args n len =
     joinWith [32] (case len of
        Some l \<Rightarrow> take l (drop (n - 1) args)
      | None \<Rightarrow> drop (n - 1) args)"

definition matchSlice :: "jstr list \<Rightarrow> jstr \<Rightarrow> jstr \<Rightarrow> (jstr \<times> jstr) option" where
  "matchSlice args before s =
     (if prefix (js ''${@:'') s
      then (case readDigits (drop 4 s) of
              None \<Rightarrow> None
            | Some (n, r1) \<Rightarrow>
                (if prefix (js ''}'') r1 then Some (argsFrom args n None, drop 1 r1)
                 else if prefix (js '':'') r1
                 then (case readDigits (drop 1 r1) of
                         None \<Rightarrow> None
                       | Some (l, r2) \<Rightarrow>
                           (if prefix (js ''}'') r2 then Some (argsFrom args n (Some l), drop 1 r2) else None))
                 else None))
      else None)"

text \<open>The patterns of a replacement string.\<close>

fun expandReplacement :: "jstr \<Rightarrow> jstr \<Rightarrow> jstr \<Rightarrow> jstr \<Rightarrow> jstr" where
  "expandReplacement matched before after [] = []"
| "expandReplacement matched before after [c] = [c]"
| "expandReplacement matched before after (c # d # cs) =
     (if c = 36 \<and> d = 36 then 36 # expandReplacement matched before after cs
      else if c = 36 \<and> d = 38 then matched @ expandReplacement matched before after cs
      else if c = 36 \<and> d = 96 then before @ expandReplacement matched before after cs
      else if c = 36 \<and> d = 39 then after @ expandReplacement matched before after cs
      else c # expandReplacement matched before after (d # cs))"

definition matchLiteral :: "jstr \<Rightarrow> jstr \<Rightarrow> jstr \<Rightarrow> jstr \<Rightarrow> (jstr \<times> jstr) option" where
  "matchLiteral pat replacement before s =
     (if prefix pat s
      then Some (expandReplacement pat before (drop (length pat) s) replacement, drop (length pat) s)
      else None)"

definition substituteArgs :: "jstr \<Rightarrow> jstr list \<Rightarrow> jstr" where
  "substituteArgs content args =
     (let r1 = replaceEach (matchPositional args) [] content;
          r2 = replaceEach (matchSlice args) [] r1;
          allArgs = joinWith [32] args;
          r3 = replaceEach (matchLiteral (js ''$ARGUMENTS'') allArgs) [] r2
      in replaceEach (matchLiteral (js ''$@'') allArgs) [] r3)"

definition formatPromptTemplateInvocation :: "prompt_template \<Rightarrow> jstr list \<Rightarrow> jstr" where
  "formatPromptTemplateInvocation t args = substituteArgs (pt_content t) args"

section \<open>What the texts keep\<close>

lemma escapeXml_append: "escapeXml (s @ t) = escapeXml s @ escapeXml t"
  by (simp add: escapeXml_def)

lemma escapeXml_safe: "60 \<notin> set (escapeXml s)" "62 \<notin> set (escapeXml s)" "34 \<notin> set (escapeXml s)"
  by (auto simp: escapeXml_def js_def)

text \<open>Two instances of what the replacement does with dollar signs in the arguments.\<close>

lemma dollars_lost: "substituteArgs (js ''pay $ARGUMENTS'') [js ''$$5''] = js ''pay $5''"
  by (simp add: substituteArgs_def js_def matchPositional_def matchSlice_def matchLiteral_def readDigits_def
      isDigit_def Let_def)

lemma argument_expanded_again: "substituteArgs (js ''$1'') [js ''$@'', js ''b''] = js ''$@ b''"
  by (simp add: substituteArgs_def js_def matchPositional_def matchSlice_def matchLiteral_def readDigits_def
      isDigit_def digitsValue_def argAt_def Let_def)

text \<open>The arguments of a prompt template: quoting and reading back.\<close>

definition quoteArg :: "jstr \<Rightarrow> jstr" where
  "quoteArg a = QUOTE @ a @ QUOTE"

lemma parseArgs_inside:
  "34 \<notin> set a \<Longrightarrow> parseArgs (a @ 34 # s) args current (Some 34) = parseArgs s args (current @ a) None"
  by (induction a arbitrary: current) auto

lemma parseArgs_quoted:
  "34 \<notin> set a \<Longrightarrow> parseArgs (quoteArg a @ s) args current None = parseArgs s args (current @ a) None"
  by (simp add: quoteArg_def QUOTE_def parseArgs_inside)

lemma parseArgs_joined:
  "list_all (\<lambda>a. a \<noteq> [] \<and> 34 \<notin> set a) (a # as) \<Longrightarrow>
   parseArgs (joinWith [32] (map quoteArg (a # as))) args [] None = args @ a # as"
proof (induction as arbitrary: a args)
  case Nil
  then show ?case using parseArgs_quoted [of a "[]" args "[]"] by simp
next
  case (Cons b as)
  have "parseArgs (joinWith [32] (map quoteArg (a # b # as))) args [] None =
      parseArgs (quoteArg a @ 32 # joinWith [32] (map quoteArg (b # as))) args [] None" by simp
  also have "\<dots> = parseArgs (joinWith [32] (map quoteArg (b # as))) (args @ [a]) [] None"
    using Cons.prems by (simp add: parseArgs_quoted)
  finally show ?case using Cons.IH [of b "args @ [a]"] Cons.prems by simp
qed

text \<open>Arguments that are not empty and contain no double quote, each put into double quotes and joined
  by spaces, are read back as they were.\<close>

theorem command_args_roundtrip:
  assumes "list_all (\<lambda>a. a \<noteq> [] \<and> 34 \<notin> set a) args"
  shows "parseCommandArgs (joinWith [32] (map quoteArg args)) = args"
proof (cases args)
  case (Cons a as)
  with parseArgs_joined [of a as "[]"] assms show ?thesis by (simp add: parseCommandArgs_def)
qed (simp add: parseCommandArgs_def)

theorem command_args_roundtrip_witness:
  "parseCommandArgs (joinWith [32] (map quoteArg [js ''it is'', js ''b''])) = [js ''it is'', js ''b'']"
  by (rule command_args_roundtrip) (simp add: js_def)

end
