(* ===== verification/Harness.thy ===== *)
theory Harness
  imports AgentLoop BranchSummary PromptTexts
begin

text \<open>
  The state of the agent harness, packages/agent/src/harness/agent-harness.ts: its errors,
  events and handlers, the notification of listeners and hooks, the queues, the writes to
  the session that wait for the end of a turn, and the setters.

  The state \<open>harness\<close> holds the fields of the class; the session is a state \<open>'s\<close> of a storage
  and \<open>'x\<close> is everything outside. What is fixed while the operations run is the record
  \<open>harness_env\<close>: the storage, the listeners and hooks, the providers. All of them act on the
  whole harness, so they may queue messages or call the setters. A tool is an object that
  the state refers to by a number.

  A rejected promise is \<open>Inl\<close> with what was thrown.
\<close>

section \<open>Errors\<close>

datatype harness_error_code =
    HC_busy | HC_invalid_state | HC_invalid_argument | HC_session | HC_hook | HC_auth
  | HC_compaction | HC_branch_summary | HC_unknown

record harness_error =
  he_code :: harness_error_code
  he_message :: jstr

text \<open>What may be thrown, by the classes that the harness tells apart. \<open>NeverReturns\<close> stands
  for an awaited call that does not return.\<close>

datatype thrown =
    ThrownHarness harness_error
  | ThrownSession session_error
  | ThrownCompaction compaction_error
  | ThrownBranchSummary branch_summary_error
  | ThrownOther jstr
  | NeverReturns

definition harnessError :: "harness_error_code \<Rightarrow> jstr \<Rightarrow> thrown" where
  "harnessError code message = ThrownHarness \<lparr>he_code = code, he_message = message\<rparr>"

fun thrownMessage :: "thrown \<Rightarrow> jstr" where
  "thrownMessage (ThrownHarness e) = he_message e"
| "thrownMessage (ThrownSession e) = se_message e"
| "thrownMessage (ThrownCompaction e) = ce_message e"
| "thrownMessage (ThrownBranchSummary e) = be_message e"
| "thrownMessage (ThrownOther m) = m"
| "thrownMessage NeverReturns = []"

fun normalizeHarnessError :: "harness_error_code \<Rightarrow> thrown \<Rightarrow> thrown" where
  "normalizeHarnessError fallbackCode (ThrownHarness e) = ThrownHarness e"
| "normalizeHarnessError fallbackCode (ThrownSession e) = harnessError HC_session (se_message e)"
| "normalizeHarnessError fallbackCode (ThrownCompaction e) = harnessError HC_compaction (ce_message e)"
| "normalizeHarnessError fallbackCode (ThrownBranchSummary e) = harnessError HC_branch_summary (be_message e)"
| "normalizeHarnessError fallbackCode (ThrownOther m) = harnessError fallbackCode m"
| "normalizeHarnessError fallbackCode NeverReturns = NeverReturns"

definition normalizeHookError :: "thrown \<Rightarrow> thrown" where
  "normalizeHookError t = normalizeHarnessError HC_hook t"

section \<open>Stream options\<close>

text \<open>An object with string keys is the list of its properties.\<close>

record stream_options =
  sto_transport :: "jstr option"
  sto_timeoutMs :: "int option"
  sto_maxRetries :: "int option"
  sto_maxRetryDelayMs :: "int option"
  sto_headers :: "(jstr \<times> jstr) list option"
  sto_metadata :: "(jstr \<times> json) list option"
  sto_cacheRetention :: "jstr option"

text \<open>In a patch, \<open>None\<close> is a property that is absent and \<open>Some None\<close> one that is undefined.\<close>

record stream_options_patch =
  sop_transport :: "jstr option option"
  sop_timeoutMs :: "int option option"
  sop_maxRetries :: "int option option"
  sop_maxRetryDelayMs :: "int option option"
  sop_headers :: "(jstr \<times> jstr option) list option option"
  sop_metadata :: "(jstr \<times> json option) list option option"
  sop_cacheRetention :: "jstr option option"

definition patchKey :: "'k \<times> 'v option \<Rightarrow> ('k \<times> 'v) list \<Rightarrow> ('k \<times> 'v) list" where
  "patchKey kv obj =
     (case kv of (k, v) \<Rightarrow> (case v of None \<Rightarrow> filter (\<lambda>(k', _). k' \<noteq> k) obj | Some v' \<Rightarrow> mapSet k v' obj))"

definition patchObject ::
  "('k \<times> 'v option) list option option \<Rightarrow> ('k \<times> 'v) list option \<Rightarrow> ('k \<times> 'v) list option" where
  "patchObject patch base =
     (case patch of
        None \<Rightarrow> base
      | Some None \<Rightarrow> None
      | Some (Some kvs) \<Rightarrow> (case fold patchKey kvs (orDefault base []) of [] \<Rightarrow> None | obj \<Rightarrow> Some obj))"

definition applyStreamOptionsPatch :: "stream_options \<Rightarrow> stream_options_patch \<Rightarrow> stream_options" where
  "applyStreamOptionsPatch base p =
     \<lparr>sto_transport = orDefault (sop_transport p) (sto_transport base),
      sto_timeoutMs = orDefault (sop_timeoutMs p) (sto_timeoutMs base),
      sto_maxRetries = orDefault (sop_maxRetries p) (sto_maxRetries base),
      sto_maxRetryDelayMs = orDefault (sop_maxRetryDelayMs p) (sto_maxRetryDelayMs base),
      sto_headers = patchObject (sop_headers p) (sto_headers base),
      sto_metadata = patchObject (sop_metadata p) (sto_metadata base),
      sto_cacheRetention = orDefault (sop_cacheRetention p) (sto_cacheRetention base)\<rparr>"

section \<open>Events\<close>

datatype summary_operation = Op_compaction | Op_branch_summary

record tools_update =
  tup_toolNames :: "jstr list"
  tup_previousToolNames :: "jstr list"
  tup_activeToolNames :: "jstr list"
  tup_previousActiveToolNames :: "jstr list"

datatype harness_event =
    FromAgent agent_event
  | QueueUpdate "agent_message list" "agent_message list" "agent_message list"
  | SavePoint bool
  | AbortDone "agent_message list" "agent_message list"
  | SettledRun nat
  | AfterProviderResponse int "(jstr \<times> jstr) list"
  | SessionCompact entry bool
  | SessionTree "jstr option" "jstr option" "entry option" bool
  | RetryScheduled summary_operation nat nat nat jstr
  | RetryAttemptStart summary_operation
  | RetryFinished summary_operation
  | ModelUpdate model model
  | ThinkingLevelUpdate thinking_level thinking_level
  | ResourcesUpdate harness_resources harness_resources
  | ToolsUpdate tools_update

record before_agent_start_event =
  bas_prompt :: jstr
  bas_images :: "image_content list option"
  bas_systemPrompt :: jstr
  bas_resources :: harness_resources

record before_agent_start_result =
  bar_messages :: "agent_message list option"
  bar_systemPrompt :: "jstr option"

record tool_result_event =
  tre_toolCallId :: jstr
  tre_toolName :: jstr
  tre_input :: json
  tre_content :: "block list option"
  tre_details :: "json option"
  tre_isError :: bool
  tre_usage :: "usage option"

record before_compact_event =
  bce_preparation :: compaction_preparation
  bce_branchEntries :: "entry list"
  bce_customInstructions :: "jstr option"

record before_compact_result =
  bcr_cancel :: bool
  bcr_compaction :: "compaction_result option"

record tree_preparation =
  tp_targetId :: jstr
  tp_oldLeafId :: "jstr option"
  tp_commonAncestorId :: "jstr option"
  tp_entriesToSummarize :: "entry list"
  tp_userWantsSummary :: bool
  tp_customInstructions :: "jstr option"
  tp_replaceInstructions :: "bool option"
  tp_label :: "jstr option"

record tree_summary =
  tsu_summary :: jstr
  tsu_details :: "json option"
  tsu_usage :: "usage option"

record before_tree_result =
  btr_cancel :: bool
  btr_summary :: "tree_summary option"
  btr_customInstructions :: "jstr option"
  btr_replaceInstructions :: "bool option"

section \<open>State\<close>

datatype harness_phase = Ph_idle | Ph_turn | Ph_compaction | Ph_branch_summary | Ph_retry

record turn_state =
  ts_messages :: "agent_message list"
  ts_resources :: harness_resources
  ts_streamOptions :: stream_options
  ts_sessionId :: jstr
  ts_systemPrompt :: jstr
  ts_model :: model
  ts_thinkingLevel :: thinking_level
  ts_tools :: "nat list"
  ts_activeTools :: "nat list"

text \<open>
  \<open>hs_aborted\<close> is the run's abort controller, its presence and whether it is aborted;
  \<open>hs_running\<close> tells whether the run's promise is pending. A queue is an array object: abort
  puts new ones in their place, and \<open>hs_queueId\<close> counts these. \<open>hs_turn\<close> is the variable
  \<open>activeTurnState\<close> of a run, and \<open>hs_thrown\<close> what a callback of the run has thrown.
\<close>

record ('s, 'x) harness =
  hs_session :: 's
  hs_phase :: harness_phase
  hs_aborted :: "bool option"
  hs_running :: bool
  hs_pendingWrites :: "entry_body list"
  hs_model :: model
  hs_thinkingLevel :: thinking_level
  hs_streamOptions :: stream_options
  hs_resources :: harness_resources
  hs_tools :: "nat list"
  hs_activeToolNames :: "jstr list"
  hs_steerQueue :: "agent_message list"
  hs_steeringMode :: queue_mode
  hs_followUpQueue :: "agent_message list"
  hs_followUpMode :: queue_mode
  hs_queueId :: nat
  hs_nextTurnQueue :: "agent_message list"
  hs_turn :: "turn_state option"
  hs_thrown :: "thrown option"
  hs_env :: 'x

type_synonym ('s, 'x, 'a) call = "('s, 'x) harness \<Rightarrow> (thrown + 'a) \<times> ('s, 'x) harness"

datatype ('s, 'x) prompt_source =
    DefaultPrompt
  | FixedPrompt jstr
  | PromptCallback "model \<Rightarrow> thinking_level \<Rightarrow> nat list \<Rightarrow> harness_resources \<Rightarrow> ('s, 'x, jstr) call"

record provider_request =
  pq_options :: stream_options
  pq_reasoning :: "thinking_level option"
  pq_sessionId :: jstr

text \<open>\<open>hv_stream\<close> is \<open>models.streamSimple\<close>, which calls \<open>onPayload\<close> and \<open>onResponse\<close> as it likes.\<close>

record ('s, 'x) harness_env =
  hv_ops :: "'s storage_ops"
  hv_sessionId :: "'s \<Rightarrow> jstr"
  hv_contextOptions :: context_options
  hv_getTime :: "jstr \<Rightarrow> int"
  hv_tool :: "nat \<Rightarrow> ('s, 'x) harness agent_tool"
  hv_systemPrompt :: "('s, 'x) prompt_source"
  hv_listeners :: "(harness_event \<Rightarrow> ('s, 'x, unit) call) list"
  hv_beforeAgentStart :: "(before_agent_start_event \<Rightarrow> ('s, 'x, before_agent_start_result option) call) list"
  hv_context :: "(agent_message list \<Rightarrow> ('s, 'x, agent_message list option) call) list"
  hv_beforeProviderRequest :: "(model \<times> jstr \<times> stream_options \<Rightarrow> ('s, 'x, stream_options_patch option) call) list"
  hv_beforeProviderPayload :: "(model \<times> json \<Rightarrow> ('s, 'x, json option) call) list"
  hv_toolCall :: "(jstr \<times> jstr \<times> json \<Rightarrow> ('s, 'x, before_tool_call_result option) call) list"
  hv_toolResult :: "(tool_result_event \<Rightarrow> ('s, 'x, after_tool_call_result option) call) list"
  hv_beforeCompact :: "(before_compact_event \<Rightarrow> ('s, 'x, before_compact_result option) call) list"
  hv_beforeTree :: "(tree_preparation \<Rightarrow> ('s, 'x, before_tree_result option) call) list"
  hv_stream :: "model \<Rightarrow> llm_context \<Rightarrow> provider_request \<Rightarrow> (json \<Rightarrow> ('s, 'x, json) call) \<Rightarrow>
    (int \<Rightarrow> (jstr \<times> jstr) list \<Rightarrow> ('s, 'x, unit) call) \<Rightarrow>
    ('s, 'x, assistant_event list \<times> assistant_message) call"
  hv_complete :: "model \<Rightarrow> llm_context \<Rightarrow> summary_options \<Rightarrow> ('s, 'x, assistant_message) call"
  hv_sleep :: "nat \<Rightarrow> ('s, 'x) harness \<Rightarrow> bool \<times> ('s, 'x) harness"
  hv_retry :: "retry_policy option"
  hv_validate :: "('s, 'x) harness agent_tool \<Rightarrow> tool_call \<Rightarrow> jstr + json"
  hv_now :: "('s, 'x) harness \<Rightarrow> int"
  hv_schedule :: "('s, 'x) harness \<Rightarrow> nat list"

section \<open>Listeners and hooks\<close>

fun notifyListeners :: "(harness_event \<Rightarrow> ('s, 'x, unit) call) list \<Rightarrow> harness_event \<Rightarrow> ('s, 'x, unit) call" where
  "notifyListeners [] e h = (Inr (), h)"
| "notifyListeners (l # ls) e h =
     (case l e h of
        (Inl t, h') \<Rightarrow> (Inl (normalizeHookError t), h')
      | (Inr _, h') \<Rightarrow> notifyListeners ls e h')"

definition emitOwn :: "('s, 'x) harness_env \<Rightarrow> harness_event \<Rightarrow> ('s, 'x, unit) call" where
  "emitOwn H e h = notifyListeners (hv_listeners H) e h"

definition emitAny :: "('s, 'x) harness_env \<Rightarrow> agent_event \<Rightarrow> ('s, 'x, unit) call" where
  "emitAny H e h = notifyListeners (hv_listeners H) (FromAgent e) h"

text \<open>All handlers of a hook run; the last result that is defined counts.\<close>

fun emitHook :: "('e \<Rightarrow> ('s, 'x, 'r option) call) list \<Rightarrow> 'e \<Rightarrow> 'r option \<Rightarrow> ('s, 'x, 'r option) call" where
  "emitHook [] e lastResult h = (Inr lastResult, h)"
| "emitHook (f # fs) e lastResult h =
     (case f e h of
        (Inl t, h') \<Rightarrow> (Inl (normalizeHookError t), h')
      | (Inr r, h') \<Rightarrow> emitHook fs e (if r = None then lastResult else r) h')"

fun requestHandlers ::
  "(model \<times> jstr \<times> stream_options \<Rightarrow> ('s, 'x, stream_options_patch option) call) list \<Rightarrow> model \<Rightarrow> jstr \<Rightarrow>
   stream_options \<Rightarrow> ('s, 'x, stream_options) call" where
  "requestHandlers [] m sessionId current h = (Inr current, h)"
| "requestHandlers (f # fs) m sessionId current h =
     (case f (m, sessionId, current) h of
        (Inl t, h') \<Rightarrow> (Inl (normalizeHookError t), h')
      | (Inr None, h') \<Rightarrow> requestHandlers fs m sessionId current h'
      | (Inr (Some p), h') \<Rightarrow> requestHandlers fs m sessionId (applyStreamOptionsPatch current p) h')"

definition emitBeforeProviderRequest ::
  "('s, 'x) harness_env \<Rightarrow> model \<Rightarrow> jstr \<Rightarrow> stream_options \<Rightarrow> ('s, 'x, stream_options) call" where
  "emitBeforeProviderRequest H m sessionId opts h = requestHandlers (hv_beforeProviderRequest H) m sessionId opts h"

fun payloadHandlers ::
  "(model \<times> json \<Rightarrow> ('s, 'x, json option) call) list \<Rightarrow> model \<Rightarrow> json \<Rightarrow> ('s, 'x, json) call" where
  "payloadHandlers [] m current h = (Inr current, h)"
| "payloadHandlers (f # fs) m current h =
     (case f (m, current) h of
        (Inl t, h') \<Rightarrow> (Inl (normalizeHookError t), h')
      | (Inr r, h') \<Rightarrow> payloadHandlers fs m (orDefault r current) h')"

definition emitBeforeProviderPayload :: "('s, 'x) harness_env \<Rightarrow> model \<Rightarrow> json \<Rightarrow> ('s, 'x, json) call" where
  "emitBeforeProviderPayload H m payload h = payloadHandlers (hv_beforeProviderPayload H) m payload h"

definition emitQueueUpdate :: "('s, 'x) harness_env \<Rightarrow> ('s, 'x, unit) call" where
  "emitQueueUpdate H h =
     emitOwn H (QueueUpdate (hs_steerQueue h) (hs_followUpQueue h) (hs_nextTurnQueue h)) h"

text \<open>The callbacks of the retry loop; only their operation and counts are passed on.\<close>

definition retryCallbacks :: "('s, 'x) harness_env \<Rightarrow> summary_operation \<Rightarrow> (('s, 'x) harness, thrown) retry_ports" where
  "retryCallbacks H operation =
     \<lparr>rp_sleep = hv_sleep H,
      rp_scheduled = (\<lambda>attempt maxAttempts delayMs msg.
        emitOwn H (RetryScheduled operation attempt maxAttempts delayMs msg)),
      rp_attemptStart = emitOwn H (RetryAttemptStart operation),
      rp_finished = (\<lambda>_ _ _. emitOwn H (RetryFinished operation))\<rparr>"

definition summaryEnv :: "('s, 'x) harness_env \<Rightarrow> summary_operation \<Rightarrow> (('s, 'x) harness, thrown) summary_env" where
  "summaryEnv H operation =
     \<lparr>sv_complete = hv_complete H, sv_retryPorts = retryCallbacks H operation, sv_retry = hv_retry H, sv_now = hv_now H\<rparr>"

section \<open>Queues\<close>

definition createUserMessage :: "('s, 'x) harness_env \<Rightarrow> jstr \<Rightarrow> image_content list \<Rightarrow> ('s, 'x) harness \<Rightarrow> agent_message" where
  "createUserMessage H t images h =
     user_msg \<lparr>um_content = UBlocks (text_block t # map BImage images), um_timestamp = hv_now H h\<rparr>"

definition splitQueue :: "queue_mode \<Rightarrow> agent_message list \<Rightarrow> agent_message list \<times> agent_message list" where
  "splitQueue mode queue = (if mode = QM_all then (queue, []) else (take 1 queue, drop 1 queue))"

text \<open>A failed notification puts the messages back, into the array they were taken from.\<close>

definition drainSteering :: "('s, 'x) harness_env \<Rightarrow> ('s, 'x, agent_message list) call" where
  "drainSteering H h =
     (case splitQueue (hs_steeringMode h) (hs_steerQueue h) of (ms, rest) \<Rightarrow>
        (if ms = [] then (Inr [], h)
         else (case emitQueueUpdate H (h\<lparr>hs_steerQueue := rest\<rparr>) of
                 (Inr _, h') \<Rightarrow> (Inr ms, h')
               | (Inl t, h') \<Rightarrow>
                   (Inl (normalizeHookError t),
                    if hs_queueId h' = hs_queueId h then h'\<lparr>hs_steerQueue := ms @ hs_steerQueue h'\<rparr> else h'))))"

definition drainFollowUp :: "('s, 'x) harness_env \<Rightarrow> ('s, 'x, agent_message list) call" where
  "drainFollowUp H h =
     (case splitQueue (hs_followUpMode h) (hs_followUpQueue h) of (ms, rest) \<Rightarrow>
        (if ms = [] then (Inr [], h)
         else (case emitQueueUpdate H (h\<lparr>hs_followUpQueue := rest\<rparr>) of
                 (Inr _, h') \<Rightarrow> (Inr ms, h')
               | (Inl t, h') \<Rightarrow>
                   (Inl (normalizeHookError t),
                    if hs_queueId h' = hs_queueId h then h'\<lparr>hs_followUpQueue := ms @ hs_followUpQueue h'\<rparr> else h'))))"

definition steer :: "('s, 'x) harness_env \<Rightarrow> jstr \<Rightarrow> image_content list \<Rightarrow> ('s, 'x, unit) call" where
  "steer H t images h =
     (if hs_phase h = Ph_idle then (Inl (harnessError HC_invalid_state (js ''Cannot steer while idle'')), h)
      else emitQueueUpdate H (h\<lparr>hs_steerQueue := hs_steerQueue h @ [createUserMessage H t images h]\<rparr>))"

definition followUp :: "('s, 'x) harness_env \<Rightarrow> jstr \<Rightarrow> image_content list \<Rightarrow> ('s, 'x, unit) call" where
  "followUp H t images h =
     (if hs_phase h = Ph_idle then (Inl (harnessError HC_invalid_state (js ''Cannot follow up while idle'')), h)
      else emitQueueUpdate H (h\<lparr>hs_followUpQueue := hs_followUpQueue h @ [createUserMessage H t images h]\<rparr>))"

definition nextTurn :: "('s, 'x) harness_env \<Rightarrow> jstr \<Rightarrow> image_content list \<Rightarrow> ('s, 'x, unit) call" where
  "nextTurn H t images h =
     emitQueueUpdate H (h\<lparr>hs_nextTurnQueue := hs_nextTurnQueue h @ [createUserMessage H t images h]\<rparr>)"

definition setSteeringMode :: "queue_mode \<Rightarrow> ('s, 'x) harness \<Rightarrow> ('s, 'x) harness" where
  "setSteeringMode mode h = h\<lparr>hs_steeringMode := mode\<rparr>"

definition setFollowUpMode :: "queue_mode \<Rightarrow> ('s, 'x) harness \<Rightarrow> ('s, 'x) harness" where
  "setFollowUpMode mode h = h\<lparr>hs_followUpMode := mode\<rparr>"

section \<open>Writes to the session\<close>

definition ofSession :: "(session_error + 'a) \<times> 's \<Rightarrow> ('s, 'x) harness \<Rightarrow> (thrown + 'a) \<times> ('s, 'x) harness" where
  "ofSession res h = (case res of (r, s) \<Rightarrow> (map_sum ThrownSession id r, h\<lparr>hs_session := s\<rparr>))"

text \<open>One pending write. Compactions and branch summaries are dropped without a write.\<close>

definition applyWrite :: "'s storage_ops \<Rightarrow> entry_body \<Rightarrow> 's \<Rightarrow> (session_error + unit) \<times> 's" where
  "applyWrite S w s =
     (let done = (\<lambda>(r :: session_error + jstr, s'). (map_sum id (\<lambda>_. ()) r, s'))
      in case w of
           E_message m \<Rightarrow> done (appendMessage S m s)
         | E_modelChange p m \<Rightarrow> done (appendModelChange S p m s)
         | E_thinkingLevelChange l \<Rightarrow> done (appendThinkingLevelChange S l s)
         | E_activeToolsChange ns \<Rightarrow> done (appendActiveToolsChange S ns s)
         | E_custom t d \<Rightarrow> done (appendCustomEntry S t d s)
         | E_customMessage d \<Rightarrow> done (appendCustomMessageEntry S d s)
         | E_label t l \<Rightarrow> done (appendLabel S t l s)
         | E_sessionInfo n \<Rightarrow> done (appendSessionName S (orDefault n []) s)
         | E_leaf t \<Rightarrow> so_setLeafId S t s
         | _ \<Rightarrow> (Inr (), s))"

fun flushWrites :: "'s storage_ops \<Rightarrow> entry_body list \<Rightarrow> 's \<Rightarrow> (session_error + unit) \<times> entry_body list \<times> 's" where
  "flushWrites S [] s = (Inr (), [], s)"
| "flushWrites S (w # ws) s =
     (case applyWrite S w s of
        (Inl e, s') \<Rightarrow> (Inl e, w # ws, s')
      | (Inr _, s') \<Rightarrow> flushWrites S ws s')"

definition flushPendingSessionWrites :: "('s, 'x) harness_env \<Rightarrow> ('s, 'x, unit) call" where
  "flushPendingSessionWrites H h =
     (case flushWrites (hv_ops H) (hs_pendingWrites h) (hs_session h) of
        (r, ws, s) \<Rightarrow> (map_sum ThrownSession id r, h\<lparr>hs_pendingWrites := ws, hs_session := s\<rparr>))"

text \<open>A write that waits while a turn is running, and is made at once when the harness is idle.\<close>

definition writeOrDefer ::
  "('s, 'x) harness_env \<Rightarrow> ('s \<Rightarrow> (session_error + jstr) \<times> 's) \<Rightarrow> entry_body \<Rightarrow> ('s, 'x, unit) call" where
  "writeOrDefer H now later h =
     (if hs_phase h = Ph_idle
      then (case ofSession (now (hs_session h)) h of (r, h') \<Rightarrow> (map_sum id (\<lambda>_. ()) r, h'))
      else (Inr (), h\<lparr>hs_pendingWrites := hs_pendingWrites h @ [later]\<rparr>))"

definition normalized :: "harness_error_code \<Rightarrow> (thrown + 'a) \<times> 'w \<Rightarrow> (thrown + 'a) \<times> 'w" where
  "normalized code res = (case res of (r, h) \<Rightarrow> (map_sum (normalizeHarnessError code) id r, h))"

definition harnessAppendMessage :: "('s, 'x) harness_env \<Rightarrow> agent_message \<Rightarrow> ('s, 'x, unit) call" where
  "harnessAppendMessage H m h =
     normalized HC_session (writeOrDefer H (appendMessage (hv_ops H) m) (E_message m) h)"

section \<open>Setters\<close>

fun thinkingLevelText :: "thinking_level \<Rightarrow> jstr" where
  "thinkingLevelText TL_off = js ''off''"
| "thinkingLevelText TL_minimal = js ''minimal''"
| "thinkingLevelText TL_low = js ''low''"
| "thinkingLevelText TL_medium = js ''medium''"
| "thinkingLevelText TL_high = js ''high''"
| "thinkingLevelText TL_xhigh = js ''xhigh''"
| "thinkingLevelText TL_max = js ''max''"

definition setModel :: "('s, 'x) harness_env \<Rightarrow> model \<Rightarrow> ('s, 'x, unit) call" where
  "setModel H m h =
     normalized HC_session
       (case writeOrDefer H (appendModelChange (hv_ops H) (md_provider m) (md_id m))
               (E_modelChange (md_provider m) (md_id m)) h of
          (Inl t, h1) \<Rightarrow> (Inl t, h1)
        | (Inr _, h1) \<Rightarrow> emitOwn H (ModelUpdate m (hs_model h)) (h1\<lparr>hs_model := m\<rparr>))"

definition setThinkingLevel :: "('s, 'x) harness_env \<Rightarrow> thinking_level \<Rightarrow> ('s, 'x, unit) call" where
  "setThinkingLevel H l h =
     normalized HC_session
       (case writeOrDefer H (appendThinkingLevelChange (hv_ops H) (thinkingLevelText l))
               (E_thinkingLevelChange (thinkingLevelText l)) h of
          (Inl t, h1) \<Rightarrow> (Inl t, h1)
        | (Inr _, h1) \<Rightarrow>
            emitOwn H (ThinkingLevelUpdate l (hs_thinkingLevel h)) (h1\<lparr>hs_thinkingLevel := l\<rparr>))"

text \<open>The names that occur a second time, each once, in the order of their second occurrence.\<close>

fun duplicatesIn :: "jstr list \<Rightarrow> jstr list \<Rightarrow> jstr list \<Rightarrow> jstr list" where
  "duplicatesIn [] seen duplicates = duplicates"
| "duplicatesIn (n # ns) seen duplicates =
     duplicatesIn ns (setAdd n seen) (if n \<in> set seen then setAdd n duplicates else duplicates)"

definition findDuplicateNames :: "jstr list \<Rightarrow> jstr list" where
  "findDuplicateNames names = duplicatesIn names [] []"

definition nameList :: "jstr list \<Rightarrow> jstr" where
  "nameList names = joinWith (js '', '') names"

definition validateUniqueNames :: "jstr list \<Rightarrow> jstr \<Rightarrow> thrown + unit" where
  "validateUniqueNames names message =
     (if findDuplicateNames names \<noteq> []
      then Inl (harnessError HC_invalid_argument (message @ js '': '' @ nameList (findDuplicateNames names)))
      else Inr ())"

definition duplicateTools :: jstr where "duplicateTools = js ''Duplicate tool name(s)''"
definition duplicateActive :: jstr where "duplicateActive = js ''Duplicate active tool name(s)''"

definition validateToolNames :: "jstr list \<Rightarrow> jstr list \<Rightarrow> thrown + unit" where
  "validateToolNames toolNames known =
     (case validateUniqueNames toolNames duplicateActive of
        Inl t \<Rightarrow> Inl t
      | Inr _ \<Rightarrow>
          (let missing = filter (\<lambda>n. n \<notin> set known) toolNames
           in if missing \<noteq> []
              then Inl (harnessError HC_invalid_argument (js ''Unknown tool(s): '' @ nameList missing))
              else Inr ()))"

definition toolNames :: "('s, 'x) harness_env \<Rightarrow> nat list \<Rightarrow> jstr list" where
  "toolNames H tools = map (\<lambda>i. tool_name (hv_tool H i)) tools"

text \<open>What both setters do once the names are validated.\<close>

definition applyTools :: "('s, 'x) harness_env \<Rightarrow> nat list \<Rightarrow> jstr list \<Rightarrow> ('s, 'x, unit) call" where
  "applyTools H tools active h =
     (case writeOrDefer H (appendActiveToolsChange (hv_ops H) active) (E_activeToolsChange active) h of
        (Inl t, h1) \<Rightarrow> (Inl t, h1)
      | (Inr _, h1) \<Rightarrow>
          emitOwn H (ToolsUpdate
              \<lparr>tup_toolNames = toolNames H tools, tup_previousToolNames = toolNames H (hs_tools h),
               tup_activeToolNames = active, tup_previousActiveToolNames = hs_activeToolNames h\<rparr>)
            (h1\<lparr>hs_tools := tools, hs_activeToolNames := active\<rparr>))"

definition setTools :: "('s, 'x) harness_env \<Rightarrow> nat list \<Rightarrow> jstr list option \<Rightarrow> ('s, 'x, unit) call" where
  "setTools H tools active h =
     (let nextActive = orDefault active (hs_activeToolNames h)
      in normalized HC_invalid_argument
           (case validateUniqueNames (toolNames H tools) duplicateTools of
              Inl t \<Rightarrow> (Inl t, h)
            | Inr _ \<Rightarrow>
                (case validateToolNames nextActive (toolNames H tools) of
                   Inl t \<Rightarrow> (Inl t, h)
                 | Inr _ \<Rightarrow> applyTools H tools nextActive h)))"

definition setActiveTools :: "('s, 'x) harness_env \<Rightarrow> jstr list \<Rightarrow> ('s, 'x, unit) call" where
  "setActiveTools H active h =
     normalized HC_invalid_argument
       (case validateToolNames active (toolNames H (hs_tools h)) of
          Inl t \<Rightarrow> (Inl t, h)
        | Inr _ \<Rightarrow> applyTools H (hs_tools h) active h)"

text \<open>The entry of the map of tools under a name; every reference in \<open>hs_tools\<close> has its own.\<close>

definition toolNamed :: "('s, 'x) harness_env \<Rightarrow> ('s, 'x) harness \<Rightarrow> jstr \<Rightarrow> nat option" where
  "toolNamed H h n = find (\<lambda>i. tool_name (hv_tool H i) = n) (hs_tools h)"

definition getActiveTools :: "('s, 'x) harness_env \<Rightarrow> ('s, 'x) harness \<Rightarrow> nat option list" where
  "getActiveTools H h = map (toolNamed H h) (hs_activeToolNames h)"

definition setResources :: "('s, 'x) harness_env \<Rightarrow> harness_resources \<Rightarrow> ('s, 'x, unit) call" where
  "setResources H rs h = emitOwn H (ResourcesUpdate rs (hs_resources h)) (h\<lparr>hs_resources := rs\<rparr>)"

definition setStreamOptions :: "stream_options \<Rightarrow> ('s, 'x) harness \<Rightarrow> ('s, 'x) harness" where
  "setStreamOptions opts h = h\<lparr>hs_streamOptions := opts\<rparr>"

section \<open>Construction\<close>

record 's harness_options =
  ho_session :: 's
  ho_tools :: "nat list option"
  ho_resources :: "harness_resources option"
  ho_streamOptions :: "stream_options option"
  ho_model :: model
  ho_thinkingLevel :: "thinking_level option"
  ho_activeToolNames :: "jstr list option"
  ho_steeringMode :: "queue_mode option"
  ho_followUpMode :: "queue_mode option"

definition noStreamOptions :: stream_options where
  "noStreamOptions = \<lparr>sto_transport = None, sto_timeoutMs = None, sto_maxRetries = None,
     sto_maxRetryDelayMs = None, sto_headers = None, sto_metadata = None, sto_cacheRetention = None\<rparr>"

definition createHarness ::
  "('s, 'x) harness_env \<Rightarrow> 's harness_options \<Rightarrow> 'x \<Rightarrow> thrown + ('s, 'x) harness" where
  "createHarness H opts x =
     (let tools = orDefault (ho_tools opts) [];
          active = orDefault (ho_activeToolNames opts) (toolNames H tools)
      in case validateUniqueNames (toolNames H tools) duplicateTools of
           Inl t \<Rightarrow> Inl t
         | Inr _ \<Rightarrow>
             (case validateUniqueNames active duplicateActive of
                Inl t \<Rightarrow> Inl t
              | Inr _ \<Rightarrow>
                  (case validateToolNames active (toolNames H tools) of
                     Inl t \<Rightarrow> Inl t
                   | Inr _ \<Rightarrow> Inr
                       \<lparr>hs_session = ho_session opts, hs_phase = Ph_idle, hs_aborted = None, hs_running = False,
                        hs_pendingWrites = [], hs_model = ho_model opts,
                        hs_thinkingLevel = orDefault (ho_thinkingLevel opts) TL_off,
                        hs_streamOptions = orDefault (ho_streamOptions opts) noStreamOptions,
                        hs_resources = orDefault (ho_resources opts) \<lparr>rs_promptTemplates = None, rs_skills = None\<rparr>,
                        hs_tools = tools, hs_activeToolNames = active,
                        hs_steerQueue = [], hs_steeringMode = orDefault (ho_steeringMode opts) QM_one_at_a_time,
                        hs_followUpQueue = [], hs_followUpMode = orDefault (ho_followUpMode opts) QM_one_at_a_time,
                        hs_queueId = 0, hs_nextTurnQueue = [], hs_turn = None, hs_thrown = None, hs_env = x\<rparr>)))"

end
