(* ===== verification/HarnessRun.thy ===== *)
theory HarnessRun
  imports Harness
begin

text \<open>
  The runs of the agent harness, packages/agent/src/harness/agent-harness.ts: a prompt with
  its turn state, the loop's configuration, the handling of the loop's events and of a
  failed run; compaction, navigation in the tree, and abort.

  The agent loop of theory AgentLoop has no rejected callbacks. A callback that throws
  inside a run leaves what it threw in \<open>hs_thrown\<close>, where the first error stays; from then on
  every callback does nothing, a response is an error, and so the loop ends. What the run
  made of that is discarded, and the run has failed with that error. What other tools of a
  concurrent batch still do in the background after the error is not modelled.
\<close>

section \<open>The turn state\<close>

definition activeToolsOf :: "('s, 'x) harness_env \<Rightarrow> ('s, 'x) harness \<Rightarrow> nat list" where
  "activeToolsOf H h = List.map_filter (toolNamed H h) (hs_activeToolNames h)"

definition resolvePrompt :: "('s, 'x) harness_env \<Rightarrow> ('s, 'x, jstr) call" where
  "resolvePrompt H h =
     (case hv_systemPrompt H of
        DefaultPrompt \<Rightarrow> (Inr (js ''You are a helpful assistant.''), h)
      | FixedPrompt p \<Rightarrow> (Inr p, h)
      | PromptCallback f \<Rightarrow> f (hs_model h) (hs_thinkingLevel h) (activeToolsOf H h) (hs_resources h) h)"

text \<open>The snapshot that a turn works with: what is read before the prompt is resolved comes from
  the state before, the rest from the state after.\<close>

definition createTurnState :: "('s, 'x) harness_env \<Rightarrow> ('s, 'x, turn_state) call" where
  "createTurnState H h =
     (case buildContext (hv_getTime H) (hv_ops H) (hv_contextOptions H)
             \<lparr>cx_entryTransforms = [], cx_entryProjectors = Map.empty\<rparr> (hs_session h) of
        None \<Rightarrow> (Inl NeverReturns, h)
      | Some (Inl e) \<Rightarrow> (Inl (ThrownSession e), h)
      | Some (Inr context) \<Rightarrow>
          (case resolvePrompt H h of
             (Inl t, h1) \<Rightarrow> (Inl t, h1)
           | (Inr systemPrompt, h1) \<Rightarrow>
               (Inr \<lparr>ts_messages = sx_messages context, ts_resources = hs_resources h,
                     ts_streamOptions = hs_streamOptions h1, ts_sessionId = hv_sessionId H (hs_session h),
                     ts_systemPrompt = systemPrompt, ts_model = hs_model h1,
                     ts_thinkingLevel = hs_thinkingLevel h1, ts_tools = hs_tools h,
                     ts_activeTools = activeToolsOf H h\<rparr>, h1)))"

section \<open>Callbacks that throw\<close>

definition raise :: "thrown \<Rightarrow> ('s, 'x) harness \<Rightarrow> ('s, 'x) harness" where
  "raise t h = (if hs_thrown h = None then h\<lparr>hs_thrown := Some t\<rparr> else h)"

text \<open>A callback within a run, with the value that it has once something was thrown.\<close>

definition attempt :: "'a \<Rightarrow> ('s, 'x, 'a) call \<Rightarrow> ('s, 'x) harness \<Rightarrow> 'a \<times> ('s, 'x) harness" where
  "attempt d f h =
     (if hs_thrown h \<noteq> None then (d, h)
      else (case f h of (Inl t, h') \<Rightarrow> (d, raise t h') | (Inr a, h') \<Rightarrow> (a, h')))"

text \<open>A callback whose rejection the loop catches itself.\<close>

definition caught :: "('s, 'x, 'a) call \<Rightarrow> ('s, 'x) harness \<Rightarrow> (jstr + 'a) \<times> ('s, 'x) harness" where
  "caught f h =
     (if hs_thrown h \<noteq> None then (Inl [], h)
      else (case f h of (r, h') \<Rightarrow> (map_sum thrownMessage id r, h')))"

definition guardedTool :: "('s, 'x) harness agent_tool \<Rightarrow> ('s, 'x) harness agent_tool" where
  "guardedTool t = t\<lparr>at_execute := (\<lambda>i args h.
     if hs_thrown h \<noteq> None then (([], Inl []), h) else at_execute t i args h)\<rparr>"

section \<open>The configuration of the loop\<close>

definition createContext ::
  "('s, 'x) harness_env \<Rightarrow> turn_state \<Rightarrow> jstr option \<Rightarrow> ('s, 'x) harness agent_context" where
  "createContext H ts systemPrompt =
     \<lparr>ac_systemPrompt = orDefault systemPrompt (ts_systemPrompt ts), ac_messages = ts_messages ts,
      ac_tools = Some (map (\<lambda>i. guardedTool (hv_tool H i)) (ts_activeTools ts))\<rparr>"

definition createFailureMessage :: "('s, 'x) harness_env \<Rightarrow> model \<Rightarrow> thrown \<Rightarrow> bool \<Rightarrow> ('s, 'x) harness \<Rightarrow> assistant_message" where
  "createFailureMessage H m t aborted h =
     \<lparr>am_content = [AText \<lparr>tc_text = [], tc_textSignature = None\<rparr>], am_api = md_api m,
      am_provider = md_provider m, am_model = md_id m, am_responseModel = None, am_responseId = None,
      am_diagnostics = None,
      am_usage = \<lparr>us_input = 0, us_output = 0, us_cacheRead = 0, us_cacheWrite = 0, us_cacheWrite1h = None,
        us_reasoning = None, us_totalTokens = 0,
        us_cost = \<lparr>uc_input = 0, uc_output = 0, uc_cacheRead = 0, uc_cacheWrite = 0, uc_total = 0\<rparr>\<rparr>,
      am_stopReason = (if aborted then SR_aborted else SR_error),
      am_errorMessage = Some (thrownMessage t), am_timestamp = hv_now H h\<rparr>"

text \<open>The stream function. Outside a run there is no turn state, and the loop does not call it.\<close>

definition streamFn ::
  "('s, 'x) harness_env \<Rightarrow> model \<Rightarrow> llm_context \<Rightarrow> request_options \<Rightarrow>
   ('s, 'x, assistant_event list \<times> assistant_message) call" where
  "streamFn H m context ro h =
     (case hs_turn h of
        None \<Rightarrow> (Inl NeverReturns, h)
      | Some ts \<Rightarrow>
          (case emitBeforeProviderRequest H m (ts_sessionId ts) (ts_streamOptions ts) h of
             (Inl t, h1) \<Rightarrow> (Inl t, h1)
           | (Inr opts, h1) \<Rightarrow>
               hv_stream H m context
                 \<lparr>pq_options = opts, pq_reasoning = ro_reasoning ro, pq_sessionId = ts_sessionId ts\<rparr>
                 (emitBeforeProviderPayload H m)
                 (\<lambda>status headers. emitOwn H (AfterProviderResponse status headers)) h1))"

definition prepareNextTurn ::
  "('s, 'x) harness_env \<Rightarrow> ('s, 'x, ('s, 'x) harness turn_update option) call" where
  "prepareNextTurn H h =
     (case flushPendingSessionWrites H h of
        (Inl t, h1) \<Rightarrow> (Inl t, h1)
      | (Inr _, h1) \<Rightarrow>
          (case createTurnState H h1 of
             (Inl t, h2) \<Rightarrow> (Inl t, h2)
           | (Inr ts, h2) \<Rightarrow>
               (Inr (Some \<lparr>tu_context = Some (createContext H ts None), tu_model = Some (ts_model ts),
                           tu_thinkingLevel = Some (ts_thinkingLevel ts)\<rparr>),
                h2\<lparr>hs_turn := Some ts\<rparr>)))"

definition toolResultEvent :: "('s, 'x) harness after_tool_call_context \<Rightarrow> tool_result_event" where
  "toolResultEvent c =
     \<lparr>tre_toolCallId = tcl_id (acx_toolCall c), tre_toolName = tcl_name (acx_toolCall c),
      tre_input = acx_args c, tre_content = res_content (acx_result c), tre_details = res_details (acx_result c),
      tre_isError = acx_isError c, tre_usage = res_usage (acx_result c)\<rparr>"

definition createLoopConfig :: "('s, 'x) harness_env \<Rightarrow> turn_state \<Rightarrow> ('s, 'x) harness loop_config" where
  "createLoopConfig H ts =
     \<lparr>cfg_model = ts_model ts,
      cfg_reasoning = (if ts_thinkingLevel ts = TL_off then None else Some (ts_thinkingLevel ts)),
      cfg_apiKey = None,
      cfg_convertToLlm = (\<lambda>ms h. (convertToLlm ms, h)),
      cfg_transformContext = Some (\<lambda>ms. attempt ms (\<lambda>h.
        case emitHook (hv_context H) ms None h of (r, h') \<Rightarrow> (map_sum id (\<lambda>r. orDefault r ms) r, h'))),
      cfg_getApiKey = None, cfg_shouldStopAfterTurn = None,
      cfg_prepareNextTurn = Some (\<lambda>_. attempt None (prepareNextTurn H)),
      cfg_getSteeringMessages = Some (attempt [] (drainSteering H)),
      cfg_getFollowUpMessages = Some (attempt [] (drainFollowUp H)),
      cfg_toolExecution = None,
      cfg_beforeToolCall = Some (\<lambda>c. caught
        (emitHook (hv_toolCall H) (tcl_id (bcx_toolCall c), tcl_name (bcx_toolCall c), bcx_args c) None)),
      cfg_afterToolCall = Some (\<lambda>c. caught (emitHook (hv_toolResult H) (toolResultEvent c) None))\<rparr>"

section \<open>The events of the loop\<close>

definition harnessAppend :: "('s, 'x) harness_env \<Rightarrow> agent_message \<Rightarrow> ('s, 'x, jstr) call" where
  "harnessAppend H m h = ofSession (appendMessage (hv_ops H) m (hs_session h)) h"

text \<open>At the end of a turn the pending writes are flushed even when a listener throws.\<close>

definition handleTurnEnd :: "('s, 'x) harness_env \<Rightarrow> agent_event \<Rightarrow> ('s, 'x, unit) call" where
  "handleTurnEnd H e h =
     (case emitAny H e h of (r1, h1) \<Rightarrow>
        (case flushPendingSessionWrites H h1 of
           (Inl t, h2) \<Rightarrow> (Inl t, h2)
         | (Inr _, h2) \<Rightarrow>
             (case r1 of
                Inl t \<Rightarrow> (Inl t, h2)
              | Inr _ \<Rightarrow> emitOwn H (SavePoint (hs_pendingWrites h1 \<noteq> [])) h2)))"

definition handleAgentEnd :: "('s, 'x) harness_env \<Rightarrow> agent_event \<Rightarrow> ('s, 'x, unit) call" where
  "handleAgentEnd H e h =
     (case flushPendingSessionWrites H h of
        (Inl t, h1) \<Rightarrow> (Inl t, h1)
      | (Inr _, h1) \<Rightarrow>
          (case emitAny H e (h1\<lparr>hs_phase := Ph_idle\<rparr>) of
             (Inl t, h2) \<Rightarrow> (Inl t, h2)
           | (Inr _, h2) \<Rightarrow> emitOwn H (SettledRun (length (hs_nextTurnQueue h2))) h2))"

definition handleAgentEvent :: "('s, 'x) harness_env \<Rightarrow> agent_event \<Rightarrow> ('s, 'x, unit) call" where
  "handleAgentEvent H e h =
     (case e of
        MessageEnd m \<Rightarrow>
          (case harnessAppend H m h of
             (Inl t, h1) \<Rightarrow> (Inl t, h1)
           | (Inr _, h1) \<Rightarrow> emitAny H e h1)
      | TurnEnd _ _ \<Rightarrow> handleTurnEnd H e h
      | AgentEnd _ \<Rightarrow> handleAgentEnd H e h
      | _ \<Rightarrow> emitAny H e h)"

definition harnessPorts :: "('s, 'x) harness_env \<Rightarrow> ('s, 'x) harness ports" where
  "harnessPorts H =
     \<lparr>pt_emit = (\<lambda>e h. snd (attempt () (handleAgentEvent H e) h)),
      pt_aborted = (\<lambda>h. hs_aborted h = Some True), pt_now = hv_now H, pt_validate = hv_validate H,
      pt_stream = (\<lambda>m context ro h.
        attempt ([], createFailureMessage H m NeverReturns False h) (streamFn H m context ro) h),
      pt_schedule = hv_schedule H\<rparr>"

fun handleEvents :: "('s, 'x) harness_env \<Rightarrow> agent_event list \<Rightarrow> ('s, 'x, unit) call" where
  "handleEvents H [] h = (Inr (), h)"
| "handleEvents H (e # es) h =
     (case handleAgentEvent H e h of
        (Inl t, h') \<Rightarrow> (Inl t, h')
      | (Inr _, h') \<Rightarrow> handleEvents H es h')"

definition emitRunFailure ::
  "('s, 'x) harness_env \<Rightarrow> model \<Rightarrow> thrown \<Rightarrow> bool \<Rightarrow> ('s, 'x, agent_message list) call" where
  "emitRunFailure H m t aborted h =
     (let failure = assistant_msg (createFailureMessage H m t aborted h)
      in case handleEvents H
             [MessageStart failure, MessageEnd failure, TurnEnd failure [], AgentEnd [failure]] h of
           (Inl t', h') \<Rightarrow> (Inl t', h')
         | (Inr _, h') \<Rightarrow> (Inr [failure], h'))"

section \<open>A turn\<close>

text \<open>The messages of a turn, with the ones that were queued for it.\<close>

definition takeNextTurn :: "('s, 'x) harness_env \<Rightarrow> agent_message \<Rightarrow> ('s, 'x, agent_message list) call" where
  "takeNextTurn H user h =
     (if hs_nextTurnQueue h = [] then (Inr [user], h)
      else (let queued = hs_nextTurnQueue h
            in case emitQueueUpdate H (h\<lparr>hs_nextTurnQueue := []\<rparr>) of
                 (Inl t, h1) \<Rightarrow> (Inl (normalizeHookError t), h1\<lparr>hs_nextTurnQueue := queued @ hs_nextTurnQueue h1\<rparr>)
               | (Inr _, h1) \<Rightarrow> (Inr (queued @ [user]), h1)))"

text \<open>The run of the loop, with the report of a failure; \<open>None\<close> when it does not return.\<close>

definition runTurn ::
  "('s, 'x) harness_env \<Rightarrow> turn_state \<Rightarrow> agent_message list \<Rightarrow> jstr option \<Rightarrow> ('s, 'x) harness \<Rightarrow>
   ((thrown + agent_message list) \<times> ('s, 'x) harness) option" where
  "runTurn H ts messages systemPrompt h =
     (case runAgentLoop (harnessPorts H) messages (createContext H ts systemPrompt) (createLoopConfig H ts)
             (h\<lparr>hs_aborted := Some False, hs_turn := Some ts, hs_thrown := None\<rparr>) of
        None \<Rightarrow> None
      | Some (new, r) \<Rightarrow>
          (case hs_thrown (r_world r) of
             None \<Rightarrow> Some (Inr new, r_world r)
           | Some NeverReturns \<Rightarrow> None
           | Some t \<Rightarrow>
               (let h1 = (r_world r)\<lparr>hs_thrown := None\<rparr>
                in case emitRunFailure H (case hs_turn h1 of Some ts' \<Rightarrow> ts_model ts' | None \<Rightarrow> ts_model ts) t
                          (hs_aborted h1 = Some True) h1 of
                     (Inr ms, h2) \<Rightarrow> Some (Inr ms, h2)
                   | (Inl NeverReturns, h2) \<Rightarrow> None
                   | (Inl _, h2) \<Rightarrow>
                       Some (Inl (harnessError HC_unknown (js ''Agent run failed and failure reporting failed'')), h2))))"

fun assistantOf :: "agent_message \<Rightarrow> assistant_message option" where
  "assistantOf (Msg (MAssistant m)) = Some m"
| "assistantOf _ = None"

definition lastAssistant :: "agent_message list \<Rightarrow> assistant_message option" where
  "lastAssistant ms = (case List.map_filter assistantOf (rev ms) of [] \<Rightarrow> None | m # _ \<Rightarrow> Some m)"

definition answerOf :: "agent_message list \<Rightarrow> thrown + assistant_message" where
  "answerOf ms =
     (case lastAssistant ms of
        Some m \<Rightarrow> Inr m
      | None \<Rightarrow>
          Inl (harnessError HC_invalid_state (js ''AgentHarness prompt completed without an assistant message'')))"

text \<open>The \<open>finally\<close> of a turn; an error of the flush takes the place of the result.\<close>

definition finishTurn :: "('s, 'x) harness_env \<Rightarrow> thrown + 'a \<Rightarrow> ('s, 'x, 'a) call" where
  "finishTurn H res h =
     (case flushPendingSessionWrites H h of (r, h1) \<Rightarrow>
        (case r of Inl t \<Rightarrow> Inl t | Inr _ \<Rightarrow> res, h1\<lparr>hs_aborted := None\<rparr>))"

definition executeTurn ::
  "('s, 'x) harness_env \<Rightarrow> turn_state \<Rightarrow> jstr \<Rightarrow> image_content list option \<Rightarrow> ('s, 'x) harness \<Rightarrow>
   ((thrown + assistant_message) \<times> ('s, 'x) harness) option" where
  "executeTurn H ts t images h =
     (case takeNextTurn H (createUserMessage H t (orDefault images []) h) h of
        (Inl e, h1) \<Rightarrow> Some (Inl e, h1)
      | (Inr messages, h1) \<Rightarrow>
          (case emitHook (hv_beforeAgentStart H)
                  \<lparr>bas_prompt = t, bas_images = images, bas_systemPrompt = ts_systemPrompt ts,
                   bas_resources = ts_resources ts\<rparr> None h1 of
             (Inl e, h2) \<Rightarrow> Some (Inl e, h2)
           | (Inr before, h2) \<Rightarrow>
               (let extra = (case before of Some b \<Rightarrow> orDefault (bar_messages b) [] | None \<Rightarrow> []);
                    systemPrompt = (case before of Some b \<Rightarrow> bar_systemPrompt b | None \<Rightarrow> None)
                in case runTurn H ts (messages @ extra) systemPrompt h2 of
                     None \<Rightarrow> None
                   | Some (Inl e, h3) \<Rightarrow> Some (finishTurn H (Inl e) h3)
                   | Some (Inr new, h3) \<Rightarrow> Some (finishTurn H (answerOf new) h3))))"

section \<open>Prompts\<close>

definition busyError :: "jstr \<Rightarrow> thrown" where
  "busyError message = harnessError HC_busy message"

text \<open>What the three prompting operations share; \<open>ask\<close> chooses the text.\<close>

definition promptWith ::
  "('s, 'x) harness_env \<Rightarrow> (turn_state \<Rightarrow> thrown + jstr) \<Rightarrow> image_content list option \<Rightarrow> ('s, 'x) harness \<Rightarrow>
   ((thrown + assistant_message) \<times> ('s, 'x) harness) option" where
  "promptWith H ask images h =
     (if hs_phase h \<noteq> Ph_idle then Some (Inl (busyError (js ''AgentHarness is busy'')), h)
      else
        (let ended = (\<lambda>(res, h'). case res of
              Inl e \<Rightarrow> (Inl (normalizeHarnessError HC_unknown e), h'\<lparr>hs_phase := Ph_idle, hs_running := False\<rparr>)
            | Inr m \<Rightarrow> (Inr m, h'\<lparr>hs_running := False\<rparr>))
         in case createTurnState H (h\<lparr>hs_phase := Ph_turn, hs_running := True\<rparr>) of
              (Inl NeverReturns, h1) \<Rightarrow> None
            | (Inl e, h1) \<Rightarrow> Some (ended (Inl e, h1))
            | (Inr ts, h1) \<Rightarrow>
                (case ask ts of
                   Inl e \<Rightarrow> Some (ended (Inl e, h1))
                 | Inr t \<Rightarrow> map_option ended (executeTurn H ts t images h1))))"

definition harnessPrompt ::
  "('s, 'x) harness_env \<Rightarrow> jstr \<Rightarrow> image_content list option \<Rightarrow> ('s, 'x) harness \<Rightarrow>
   ((thrown + assistant_message) \<times> ('s, 'x) harness) option" where
  "harnessPrompt H t images h = promptWith H (\<lambda>_. Inr t) images h"

definition harnessSkill ::
  "('s, 'x) harness_env \<Rightarrow> jstr \<Rightarrow> jstr option \<Rightarrow> ('s, 'x) harness \<Rightarrow>
   ((thrown + assistant_message) \<times> ('s, 'x) harness) option" where
  "harnessSkill H name additionalInstructions h =
     promptWith H (\<lambda>ts.
       case find (\<lambda>s. sk_name s = name) (orDefault (rs_skills (ts_resources ts)) []) of
         None \<Rightarrow> Inl (harnessError HC_invalid_argument (js ''Unknown skill: '' @ name))
       | Some s \<Rightarrow> Inr (formatSkillInvocation s additionalInstructions)) None h"

definition promptFromTemplate ::
  "('s, 'x) harness_env \<Rightarrow> jstr \<Rightarrow> jstr list \<Rightarrow> ('s, 'x) harness \<Rightarrow>
   ((thrown + assistant_message) \<times> ('s, 'x) harness) option" where
  "promptFromTemplate H name args h =
     promptWith H (\<lambda>ts.
       case find (\<lambda>t. pt_name t = name) (orDefault (rs_promptTemplates (ts_resources ts)) []) of
         None \<Rightarrow> Inl (harnessError HC_invalid_argument (js ''Unknown prompt template: '' @ name))
       | Some t \<Rightarrow> Inr (formatPromptTemplateInvocation t args)) None h"

end
