(* ===== verification/HarnessTree.thy ===== *)
theory HarnessTree
  imports HarnessRun
begin

text \<open>
  Compaction, navigation in the session tree and abort of the agent harness,
  packages/agent/src/harness/agent-harness.ts. A path lookup that does not return makes the
  operation \<open>None\<close>.
\<close>

section \<open>Compaction\<close>

text \<open>The compaction that a hook provides, or the one that the model is asked for.\<close>

definition requestCompaction ::
  "('s, 'x) harness_env \<Rightarrow> model \<Rightarrow> compaction_preparation \<Rightarrow> jstr option \<Rightarrow> compaction_result option \<Rightarrow>
   ('s, 'x, compaction_result) call" where
  "requestCompaction H m p customInstructions provided h =
     (case provided of
        Some res \<Rightarrow> (Inr res, h)
      | None \<Rightarrow>
          (case compact (summaryEnv H Op_compaction) p m customInstructions (Some (hs_thinkingLevel h))
                  \<lparr>rr_world = h, rr_log = []\<rparr> of
             (Inl t, r) \<Rightarrow> (Inl t, rr_world r)
           | (Inr (Inl e), r) \<Rightarrow> (Inl (ThrownCompaction e), rr_world r)
           | (Inr (Inr res), r) \<Rightarrow> (Inr res, rr_world r)))"

text \<open>Writing the compaction to the session and telling the listeners.\<close>

definition storeCompaction ::
  "('s, 'x) harness_env \<Rightarrow> compaction_result \<Rightarrow> bool \<Rightarrow> ('s, 'x, compaction_result) call" where
  "storeCompaction H res fromHook h =
     (case ofSession (appendCompaction (hv_ops H) (compactionDataOf res fromHook) (hs_session h)) h of
        (Inl t, h1) \<Rightarrow> (Inl t, h1)
      | (Inr entryId, h1) \<Rightarrow>
          (case so_getEntry (hv_ops H) entryId (hs_session h1) of
             Some e \<Rightarrow>
               (if isCompaction (en_body e)
                then (case emitOwn H (SessionCompact e fromHook) h1 of
                        (Inl t, h2) \<Rightarrow> (Inl t, h2)
                      | (Inr _, h2) \<Rightarrow> (Inr res, h2))
                else (Inr res, h1))
           | None \<Rightarrow> (Inr res, h1)))"

definition compactBody ::
  "('s, 'x) harness_env \<Rightarrow> jstr option \<Rightarrow> ('s, 'x) harness \<Rightarrow>
   ((thrown + compaction_result) \<times> ('s, 'x) harness) option" where
  "compactBody H customInstructions h =
     (let m = hs_model h
      in case getBranch (hv_ops H) None (hs_session h) of
           None \<Rightarrow> None
         | Some (Inl e) \<Rightarrow> Some (Inl (ThrownSession e), h)
         | Some (Inr branchEntries) \<Rightarrow>
             (case prepareCompaction (hv_getTime H) branchEntries DEFAULT_COMPACTION_SETTINGS of
                Inl e \<Rightarrow> Some (Inl (ThrownCompaction e), h)
              | Inr None \<Rightarrow> Some (Inl (harnessError HC_compaction (js ''Nothing to compact'')), h)
              | Inr (Some p) \<Rightarrow>
                  (case emitHook (hv_beforeCompact H)
                          \<lparr>bce_preparation = p, bce_branchEntries = branchEntries,
                           bce_customInstructions = customInstructions\<rparr> None h of
                     (Inl t, h1) \<Rightarrow> Some (Inl t, h1)
                   | (Inr hookResult, h1) \<Rightarrow>
                       (if (case hookResult of Some r \<Rightarrow> bcr_cancel r | None \<Rightarrow> False)
                        then Some (Inl (harnessError HC_compaction (js ''Compaction cancelled'')), h1)
                        else
                          (let provided = (case hookResult of Some r \<Rightarrow> bcr_compaction r | None \<Rightarrow> None)
                           in case requestCompaction H m p customInstructions provided h1 of
                                (Inl t, h2) \<Rightarrow> Some (Inl t, h2)
                              | (Inr res, h2) \<Rightarrow> Some (storeCompaction H res (provided \<noteq> None) h2))))))"

definition harnessCompact ::
  "('s, 'x) harness_env \<Rightarrow> jstr option \<Rightarrow> ('s, 'x) harness \<Rightarrow>
   ((thrown + compaction_result) \<times> ('s, 'x) harness) option" where
  "harnessCompact H customInstructions h =
     (if hs_phase h \<noteq> Ph_idle then Some (Inl (busyError (js ''compact() requires idle harness'')), h)
      else map_option
             (\<lambda>(res, h'). (map_sum (normalizeHarnessError HC_compaction) id res, h'\<lparr>hs_phase := Ph_idle\<rparr>))
             (compactBody H customInstructions (h\<lparr>hs_phase := Ph_compaction\<rparr>)))"

section \<open>Navigation\<close>

record navigate_options =
  no_summarize :: "bool option"
  no_customInstructions :: "jstr option"
  no_replaceInstructions :: "bool option"
  no_label :: "jstr option"

record navigate_result =
  nr_cancelled :: bool
  nr_editorText :: "jstr option"
  nr_summaryEntry :: "entry option"

definition cancelledResult :: navigate_result where
  "cancelledResult = \<lparr>nr_cancelled = True, nr_editorText = None, nr_summaryEntry = None\<rparr>"

text \<open>The summary of a hook, or one that the model is asked for. \<open>Inr None\<close> is a request that
  was aborted; otherwise the text, the details and the usage.\<close>

definition treeSummary ::
  "('s, 'x) harness_env \<Rightarrow> entry list \<Rightarrow> navigate_options \<Rightarrow> before_tree_result option \<Rightarrow>
   ('s, 'x, (jstr option \<times> json option \<times> usage option) option) call" where
  "treeSummary H entries opts hookResult h =
     (let given = (case hookResult of Some r \<Rightarrow> btr_summary r | None \<Rightarrow> None);
          summaryText = map_option tsu_summary given
      in if \<not> truthyStr summaryText \<and> no_summarize opts = Some True \<and> entries \<noteq> []
         then (case generateBranchSummary (hv_getTime H) (summaryEnv H Op_branch_summary) entries
                     \<lparr>bo_model = hs_model h,
                      bo_customInstructions =
                        orElse (case hookResult of Some r \<Rightarrow> btr_customInstructions r | None \<Rightarrow> None)
                          (no_customInstructions opts),
                      bo_replaceInstructions =
                        orElse (case hookResult of Some r \<Rightarrow> btr_replaceInstructions r | None \<Rightarrow> None)
                          (no_replaceInstructions opts),
                      bo_reserveTokens = None\<rparr>
                     \<lparr>rr_world = h, rr_log = []\<rparr> of
                 (Inl t, r) \<Rightarrow> (Inl t, rr_world r)
               | (Inr (Inl e), r) \<Rightarrow>
                   (if be_code e = BE_aborted then (Inr None, rr_world r)
                    else (Inl (harnessError HC_branch_summary (be_message e)), rr_world r))
               | (Inr (Inr res), r) \<Rightarrow>
                   (Inr (Some (Some (br_summary res),
                               Some (fileDetails (br_readFiles res) (br_modifiedFiles res)), br_usage res)),
                    rr_world r))
         else (Inr (Some (summaryText, (case given of Some s \<Rightarrow> tsu_details s | None \<Rightarrow> None),
                          (case given of Some s \<Rightarrow> tsu_usage s | None \<Rightarrow> None))), h))"

text \<open>Where the leaf goes: before a user's message, whose text goes back to the editor.\<close>

definition navigateTarget :: "entry \<Rightarrow> jstr option \<times> jstr option" where
  "navigateTarget target =
     (case en_body target of
        E_message (Msg (MUser m)) \<Rightarrow> (en_parentId target, Some (contentText_user [] (um_content m)))
      | E_customMessage d \<Rightarrow> (en_parentId target, Some (contentText_user [] (cmd_content d)))
      | _ \<Rightarrow> (Some (en_id target), None))"

fun isBranchSummary :: "entry_body \<Rightarrow> bool" where
  "isBranchSummary (E_branchSummary _) = True"
| "isBranchSummary _ = False"

text \<open>The move itself, with the summary where the leaf goes to.\<close>

definition finishNavigation ::
  "('s, 'x) harness_env \<Rightarrow> entry \<Rightarrow> jstr option \<Rightarrow> bool \<Rightarrow> jstr option \<times> json option \<times> usage option \<Rightarrow>
   ('s, 'x, navigate_result) call" where
  "finishNavigation H target oldLeafId fromHook summary h =
     (case summary of (summaryText, details, used) \<Rightarrow>
        (case navigateTarget target of (newLeafId, editorText) \<Rightarrow>
           (case ofSession (moveTo (hv_ops H) newLeafId
                   (if truthyStr summaryText
                    then Some \<lparr>mv_summary = the summaryText, mv_details = details, mv_usage = used,
                               mv_fromHook = Some fromHook\<rparr>
                    else None) (hs_session h)) h of
              (Inl t, h1) \<Rightarrow> (Inl t, h1)
            | (Inr summaryId, h1) \<Rightarrow>
                (let found = (if truthyStr summaryId then so_getEntry (hv_ops H) (the summaryId) (hs_session h1)
                              else None);
                     summaryEntry = (case found of
                        Some e \<Rightarrow> (if isBranchSummary (en_body e) then Some e else None) | None \<Rightarrow> None)
                 in case so_getLeafId (hv_ops H) (hs_session h1) of
                      Inl e \<Rightarrow> (Inl (ThrownSession e), h1)
                    | Inr leaf \<Rightarrow>
                        (case emitOwn H (SessionTree leaf oldLeafId summaryEntry fromHook) h1 of
                           (Inl t, h2) \<Rightarrow> (Inl t, h2)
                         | (Inr _, h2) \<Rightarrow>
                             (Inr \<lparr>nr_cancelled = False, nr_editorText = editorText,
                                   nr_summaryEntry = summaryEntry\<rparr>, h2))))))"

definition navigateBody ::
  "('s, 'x) harness_env \<Rightarrow> jstr \<Rightarrow> navigate_options \<Rightarrow> ('s, 'x) harness \<Rightarrow>
   ((thrown + navigate_result) \<times> ('s, 'x) harness) option" where
  "navigateBody H targetId opts h =
     (case so_getLeafId (hv_ops H) (hs_session h) of
        Inl e \<Rightarrow> Some (Inl (ThrownSession e), h)
      | Inr oldLeafId \<Rightarrow>
          (if oldLeafId = Some targetId
           then Some (Inr \<lparr>nr_cancelled = False, nr_editorText = None, nr_summaryEntry = None\<rparr>, h)
           else
             (case so_getEntry (hv_ops H) targetId (hs_session h) of
                None \<Rightarrow>
                  Some (Inl (harnessError HC_invalid_argument (js ''Entry '' @ targetId @ js '' not found'')), h)
              | Some target \<Rightarrow>
                  (case collectEntriesForBranchSummary (hv_ops H) oldLeafId targetId (hs_session h) of
                     None \<Rightarrow> None
                   | Some (Inl e) \<Rightarrow> Some (Inl (ThrownSession e), h)
                   | Some (Inr c) \<Rightarrow>
                       (case emitHook (hv_beforeTree H)
                               \<lparr>tp_targetId = targetId, tp_oldLeafId = oldLeafId,
                                tp_commonAncestorId = ce_commonAncestorId c, tp_entriesToSummarize = ce_entries c,
                                tp_userWantsSummary = (no_summarize opts = Some True),
                                tp_customInstructions = no_customInstructions opts,
                                tp_replaceInstructions = no_replaceInstructions opts, tp_label = no_label opts\<rparr>
                               None h of
                          (Inl t, h1) \<Rightarrow> Some (Inl t, h1)
                        | (Inr hookResult, h1) \<Rightarrow>
                            (if (case hookResult of Some r \<Rightarrow> btr_cancel r | None \<Rightarrow> False)
                             then Some (Inr cancelledResult, h1)
                             else
                               (case treeSummary H (ce_entries c) opts hookResult h1 of
                                  (Inl t, h2) \<Rightarrow> Some (Inl t, h2)
                                | (Inr None, h2) \<Rightarrow> Some (Inr cancelledResult, h2)
                                | (Inr (Some summary), h2) \<Rightarrow>
                                    Some (finishNavigation H target oldLeafId
                                      (case hookResult of Some r \<Rightarrow> btr_summary r \<noteq> None | None \<Rightarrow> False)
                                      summary h2)))))))) "

definition navigateTree ::
  "('s, 'x) harness_env \<Rightarrow> jstr \<Rightarrow> navigate_options \<Rightarrow> ('s, 'x) harness \<Rightarrow>
   ((thrown + navigate_result) \<times> ('s, 'x) harness) option" where
  "navigateTree H targetId opts h =
     (if hs_phase h \<noteq> Ph_idle then Some (Inl (busyError (js ''navigateTree() requires idle harness'')), h)
      else map_option
             (\<lambda>(res, h'). (map_sum (normalizeHarnessError HC_branch_summary) id res, h'\<lparr>hs_phase := Ph_idle\<rparr>))
             (navigateBody H targetId opts (h\<lparr>hs_phase := Ph_branch_summary\<rparr>)))"

section \<open>Abort\<close>

text \<open>What goes on until the run's promise resolves is a parameter of the operation.\<close>

definition harnessAbort ::
  "('s, 'x) harness_env \<Rightarrow> (('s, 'x) harness \<Rightarrow> ('s, 'x) harness) \<Rightarrow>
   ('s, 'x, agent_message list \<times> agent_message list) call" where
  "harnessAbort H waitForIdle h =
     (let clearedSteer = hs_steerQueue h; clearedFollowUp = hs_followUpQueue h;
          h1 = h\<lparr>hs_steerQueue := [], hs_followUpQueue := [], hs_queueId := Suc (hs_queueId h),
                 hs_aborted := map_option (\<lambda>_. True) (hs_aborted h)\<rparr>;
          (r1, h2) = emitQueueUpdate H h1;
          h3 = waitForIdle h2;
          (r2, h4) = emitOwn H (AbortDone clearedSteer clearedFollowUp) h3
      in (case (r1, r2) of
            (Inr _, Inr _) \<Rightarrow> Inr (clearedSteer, clearedFollowUp)
          | (Inl t, Inr _) \<Rightarrow> Inl (normalizeHarnessError HC_hook t)
          | (Inr _, Inl t) \<Rightarrow> Inl (normalizeHarnessError HC_hook t)
          | (Inl _, Inl _) \<Rightarrow> Inl (harnessError HC_hook (js ''Abort completed with errors'')), h4))"

end
