(* ===== verification/HarnessFacts.thy ===== *)
theory HarnessFacts
  imports HarnessTree AgentLoopRelation SessionFacts
begin

text \<open>
  What a run of the harness does to the session. The messages that a storage holds are an
  abstraction \<open>stored\<close> of its state; the locale \<open>message_log\<close> says how the operations of a storage
  change it. A handler minds its business when it only adds messages and leaves the phase
  alone. The events of a run and the messages stored are kept together by the relation
  \<open>recorded\<close>, which the loop stays within.
\<close>

section \<open>Handlers that mind their business\<close>

definition extends :: "('s \<Rightarrow> agent_message list) \<Rightarrow> ('s, 'x) harness \<Rightarrow> ('s, 'x) harness \<Rightarrow> bool" where
  "extends stored h h' \<longleftrightarrow>
     prefix (stored (hs_session h)) (stored (hs_session h')) \<and> hs_thrown h' = hs_thrown h"

definition minds :: "('s \<Rightarrow> agent_message list) \<Rightarrow> (('s, 'x) harness \<Rightarrow> 'a \<times> ('s, 'x) harness) \<Rightarrow> bool" where
  "minds stored f \<longleftrightarrow> (\<forall>h. extends stored h (snd (f h)) \<and> hs_phase (snd (f h)) = hs_phase h)"

definition mindful :: "('s \<Rightarrow> agent_message list) \<Rightarrow> ('s, 'x) harness_env \<Rightarrow> bool" where
  "mindful stored H \<longleftrightarrow>
     (\<forall>i args k. minds stored (at_execute (hv_tool H k) i args)) \<and>
     (\<forall>f m l ts rs. hv_systemPrompt H = PromptCallback f \<longrightarrow> minds stored (f m l ts rs)) \<and>
     (\<forall>l \<in> set (hv_listeners H). \<forall>e. minds stored (l e)) \<and>
     (\<forall>f \<in> set (hv_beforeAgentStart H). \<forall>e. minds stored (f e)) \<and>
     (\<forall>f \<in> set (hv_context H). \<forall>e. minds stored (f e)) \<and>
     (\<forall>f \<in> set (hv_beforeProviderRequest H). \<forall>e. minds stored (f e)) \<and>
     (\<forall>f \<in> set (hv_beforeProviderPayload H). \<forall>e. minds stored (f e)) \<and>
     (\<forall>f \<in> set (hv_toolCall H). \<forall>e. minds stored (f e)) \<and>
     (\<forall>f \<in> set (hv_toolResult H). \<forall>e. minds stored (f e)) \<and>
     (\<forall>m c rq p q. (\<forall>j. minds stored (p j)) \<longrightarrow> (\<forall>s hd. minds stored (q s hd)) \<longrightarrow>
        minds stored (hv_stream H m c rq p q))"

lemma extends_refl [simp]: "extends stored h h"
  by (simp add: extends_def)

lemma extends_trans [trans]: "extends stored h h' \<Longrightarrow> extends stored h' h'' \<Longrightarrow> extends stored h h''"
  by (auto simp: extends_def)

lemma mindsD: "minds stored f \<Longrightarrow> f h = (a, h') \<Longrightarrow> extends stored h h' \<and> hs_phase h' = hs_phase h"
  unfolding minds_def by (metis snd_conv)

lemma mindsI: "(\<And>h a h'. f h = (a, h') \<Longrightarrow> extends stored h h' \<and> hs_phase h' = hs_phase h) \<Longrightarrow> minds stored f"
  unfolding minds_def by (metis surjective_pairing)

text \<open>A step before and a step after.\<close>

lemma minds_step:
  "extends stored h h1 \<and> hs_phase h1 = hs_phase h \<Longrightarrow> minds stored f \<Longrightarrow> f h1 = (a, h') \<Longrightarrow>
   extends stored h h' \<and> hs_phase h' = hs_phase h"
  using mindsD extends_trans by metis

lemma minds_notifyListeners: "\<forall>l \<in> set ls. \<forall>e. minds stored (l e) \<Longrightarrow> minds stored (notifyListeners ls e)"
proof (induction ls)
  case Nil
  then show ?case by (auto intro: mindsI)
next
  case (Cons l ls)
  show ?case
  proof (rule mindsI)
    fix h a h'
    assume eq: "notifyListeners (l # ls) e h = (a, h')"
    obtain r h1 where l: "l e h = (r, h1)" by fastforce
    from Cons.prems have "minds stored (l e)" by simp
    note step = mindsD [OF this l]
    show "extends stored h h' \<and> hs_phase h' = hs_phase h"
      using eq l step minds_step [OF step Cons.IH] Cons.prems by (cases r) auto
  qed
qed

lemma minds_emitHook: "\<forall>f \<in> set fs. \<forall>e. minds stored (f e) \<Longrightarrow> minds stored (emitHook fs e r)"
proof (induction fs arbitrary: r)
  case Nil
  then show ?case by (auto intro: mindsI)
next
  case (Cons f fs)
  show ?case
  proof (rule mindsI)
    fix h a h'
    assume eq: "emitHook (f # fs) e r h = (a, h')"
    obtain q h1 where f: "f e h = (q, h1)" by fastforce
    from Cons.prems have "minds stored (f e)" by simp
    note step = mindsD [OF this f]
    show "extends stored h h' \<and> hs_phase h' = hs_phase h"
      using eq f step minds_step [OF step Cons.IH] Cons.prems by (cases q) auto
  qed
qed

lemma minds_requestHandlers:
  "\<forall>f \<in> set fs. \<forall>e. minds stored (f e) \<Longrightarrow> minds stored (requestHandlers fs m i opts)"
proof (induction fs arbitrary: opts)
  case Nil
  then show ?case by (auto intro: mindsI)
next
  case (Cons f fs)
  show ?case
  proof (rule mindsI)
    fix h a h'
    assume eq: "requestHandlers (f # fs) m i opts h = (a, h')"
    obtain q h1 where f: "f (m, i, opts) h = (q, h1)" by fastforce
    from Cons.prems have "minds stored (f (m, i, opts))" by simp
    note step = mindsD [OF this f]
    show "extends stored h h' \<and> hs_phase h' = hs_phase h"
      using eq f step minds_step [OF step Cons.IH] Cons.prems by (auto split: sum.splits option.splits)
  qed
qed

lemma minds_payloadHandlers:
  "\<forall>f \<in> set fs. \<forall>e. minds stored (f e) \<Longrightarrow> minds stored (payloadHandlers fs m j)"
proof (induction fs arbitrary: j)
  case Nil
  then show ?case by (auto intro: mindsI)
next
  case (Cons f fs)
  show ?case
  proof (rule mindsI)
    fix h a h'
    assume eq: "payloadHandlers (f # fs) m j h = (a, h')"
    obtain q h1 where f: "f (m, j) h = (q, h1)" by fastforce
    from Cons.prems have "minds stored (f (m, j))" by simp
    note step = mindsD [OF this f]
    show "extends stored h h' \<and> hs_phase h' = hs_phase h"
      using eq f step minds_step [OF step Cons.IH] Cons.prems by (cases q) auto
  qed
qed

section \<open>Storages that keep their messages\<close>

lemma isl_map [simp]: "isl (map_sum f g r) = isl r"
  by (cases r) simp_all

fun messagesOf :: "entry_body \<Rightarrow> agent_message list" where
  "messagesOf (E_message m) = [m]"
| "messagesOf _ = []"

locale message_log =
  fixes S :: "'s storage_ops"
    and stored :: "'s \<Rightarrow> agent_message list"
  assumes append: "so_appendEntry S e s = (Inr (), s') \<Longrightarrow> stored s' = stored s @ messagesOf (en_body e)"
    and append_fails: "so_appendEntry S e s = (Inl x, s') \<Longrightarrow> stored s' = stored s"
    and create: "so_createEntryId S s = (i, s') \<Longrightarrow> stored s' = stored s"
    and move: "so_setLeafId S l s = (r, s') \<Longrightarrow> stored s' = stored s"
begin

lemma appendAtLeaf_stored:
  "appendAtLeaf S b s = (r, s') \<Longrightarrow> stored s' = stored s @ (if isl r then [] else messagesOf b)"
proof -
  assume eq: "appendAtLeaf S b s = (r, s')"
  obtain i s1 where c: "so_createEntryId S s = (i, s1)" by fastforce
  show ?thesis
  proof (cases "so_getLeafId S s1")
    case (Inl e)
    with eq c create [OF c] show ?thesis by (auto simp: appendAtLeaf_def)
  next
    case (Inr leaf)
    let ?e = "\<lparr>en_id = i, en_parentId = leaf, en_timestamp = so_now S s1, en_body = b\<rparr>"
    obtain q s2 where a: "so_appendEntry S ?e s1 = (q, s2)" by fastforce
    with append [of ?e s1 s2] append_fails [of ?e s1 _ s2] eq c Inr create [OF c] show ?thesis
      by (cases q) (auto simp: appendAtLeaf_def)
  qed
qed

lemma appendMessage_stored:
  "appendMessage S m s = (r, s') \<Longrightarrow> stored s' = stored s @ (if isl r then [] else [m])"
  unfolding appendMessage_def by (drule appendAtLeaf_stored) simp

lemma appendAtLeaf_quiet:
  "appendAtLeaf S b s = (r, s') \<Longrightarrow> messagesOf b = [] \<Longrightarrow> stored s' = stored s"
  by (drule appendAtLeaf_stored) simp

lemma applyWrite_stored:
  "applyWrite S w s = (r, s') \<Longrightarrow> stored s' = stored s @ (if isl r then [] else messagesOf w)"
proof (cases w)
  case (E_message m)
  assume "applyWrite S w s = (r, s')"
  with E_message show ?thesis
    by (auto simp: applyWrite_def Let_def split: prod.splits dest!: appendMessage_stored)
next
  case (E_leaf t)
  assume "applyWrite S w s = (r, s')"
  with E_leaf move show ?thesis by (auto simp: applyWrite_def Let_def)
qed (auto simp: applyWrite_def Let_def appendModelChange_def appendThinkingLevelChange_def
      appendActiveToolsChange_def appendCustomEntry_def appendCustomMessageEntry_def appendLabel_def
      appendSessionName_def split: prod.splits if_splits dest: appendAtLeaf_quiet)

text \<open>A flush makes the writes in order, and stops at the first one that fails.\<close>

lemma flushWrites_stored:
  "flushWrites S ws s = (r, ws', s') \<Longrightarrow>
   \<exists>done. ws = done @ ws' \<and> stored s' = stored s @ concat (map messagesOf done) \<and> (isl r \<longleftrightarrow> ws' \<noteq> [])"
proof (induction ws arbitrary: s)
  case (Cons w ws)
  obtain q s1 where w: "applyWrite S w s = (q, s1)" by fastforce
  note st = applyWrite_stored [OF w]
  show ?case
  proof (cases q)
    case (Inl e)
    with Cons.prems w st show ?thesis by (intro exI [of _ "[]"]) auto
  next
    case (Inr u)
    with Cons.prems w have "flushWrites S ws s1 = (r, ws', s')" by simp
    from Cons.IH [OF this] obtain d where
      "ws = d @ ws'" "stored s' = stored s1 @ concat (map messagesOf d)" "isl r \<longleftrightarrow> ws' \<noteq> []" by blast
    with st Inr show ?thesis by (intro exI [of _ "w # d"]) simp
  qed
qed (auto simp: isl_def)

end

section \<open>The callbacks of a run\<close>

definition fits :: "'s storage_ops \<Rightarrow> ('s \<Rightarrow> agent_message list) \<Rightarrow> ('s, 'x) harness_env \<Rightarrow> bool" where
  "fits S stored H \<longleftrightarrow> hv_ops H = S \<and> mindful stored H"

lemma fits_stream:
  "fits S stored H \<Longrightarrow> (\<And>j. minds stored (p j)) \<Longrightarrow> (\<And>s hd. minds stored (q s hd)) \<Longrightarrow>
   minds stored (hv_stream H m c rq p q)"
  by (simp add: fits_def mindful_def)

lemma minds_emitOwn: "fits S stored H \<Longrightarrow> minds stored (emitOwn H e)"
  unfolding emitOwn_def [abs_def] by (rule minds_notifyListeners) (simp add: fits_def mindful_def)

lemma minds_emitAny: "fits S stored H \<Longrightarrow> minds stored (emitAny H e)"
  unfolding emitAny_def [abs_def] by (rule minds_notifyListeners) (simp add: fits_def mindful_def)

lemma minds_emitQueueUpdate: "fits S stored H \<Longrightarrow> minds stored (emitQueueUpdate H)"
  unfolding emitQueueUpdate_def [abs_def] by (rule mindsI) (auto dest: mindsD [OF minds_emitOwn])

lemma minds_resolvePrompt: "fits S stored H \<Longrightarrow> minds stored (resolvePrompt H)"
proof (cases "hv_systemPrompt H")
  case (PromptCallback f)
  assume "fits S stored H"
  with PromptCallback have f: "minds stored (f m l ts rs)" for m l ts rs
    by (simp add: fits_def mindful_def)
  show ?thesis by (rule mindsI) (use PromptCallback in \<open>simp add: resolvePrompt_def mindsD [OF f]\<close>)
qed (auto intro!: mindsI simp: resolvePrompt_def)

lemma minds_createTurnState: "fits S stored H \<Longrightarrow> minds stored (createTurnState H)"
proof (rule mindsI)
  fix h a h'
  assume fits: "fits S stored H" and eq: "createTurnState H h = (a, h')"
  obtain q h1 where r: "resolvePrompt H h = (q, h1)" by fastforce
  from eq r have "h' = h \<or> h' = h1"
    by (auto simp: createTurnState_def split: option.splits sum.splits)
  with mindsD [OF minds_resolvePrompt [OF fits] r] show "extends stored h h' \<and> hs_phase h' = hs_phase h" by auto
qed

text \<open>Updates of other fields do not show.\<close>

lemma extends_cong:
  "hs_session h1 = hs_session h2 \<Longrightarrow> hs_thrown h1 = hs_thrown h2 \<Longrightarrow> extends stored h h1 = extends stored h h2"
  "hs_session h1 = hs_session h2 \<Longrightarrow> hs_thrown h1 = hs_thrown h2 \<Longrightarrow> extends stored h1 h = extends stored h2 h"
  by (simp_all add: extends_def)

lemma minds_drainSteering: "fits S stored H \<Longrightarrow> minds stored (drainSteering H)"
proof (rule mindsI)
  fix h a h'
  assume fits: "fits S stored H" and eq: "drainSteering H h = (a, h')"
  obtain ms rest where q: "splitQueue (hs_steeringMode h) (hs_steerQueue h) = (ms, rest)" by fastforce
  obtain r h1 where u: "emitQueueUpdate H (h\<lparr>hs_steerQueue := rest\<rparr>) = (r, h1)" by fastforce
  from eq q u have "h' = h \<or> h' = h1 \<or> h' = h1\<lparr>hs_steerQueue := ms @ hs_steerQueue h1\<rparr>"
    by (auto simp: drainSteering_def split: if_splits sum.splits)
  with mindsD [OF minds_emitQueueUpdate [OF fits] u] show "extends stored h h' \<and> hs_phase h' = hs_phase h"
    by (auto simp: extends_def)
qed

lemma minds_drainFollowUp: "fits S stored H \<Longrightarrow> minds stored (drainFollowUp H)"
proof (rule mindsI)
  fix h a h'
  assume fits: "fits S stored H" and eq: "drainFollowUp H h = (a, h')"
  obtain ms rest where q: "splitQueue (hs_followUpMode h) (hs_followUpQueue h) = (ms, rest)" by fastforce
  obtain r h1 where u: "emitQueueUpdate H (h\<lparr>hs_followUpQueue := rest\<rparr>) = (r, h1)" by fastforce
  from eq q u have "h' = h \<or> h' = h1 \<or> h' = h1\<lparr>hs_followUpQueue := ms @ hs_followUpQueue h1\<rparr>"
    by (auto simp: drainFollowUp_def split: if_splits sum.splits)
  with mindsD [OF minds_emitQueueUpdate [OF fits] u] show "extends stored h h' \<and> hs_phase h' = hs_phase h"
    by (auto simp: extends_def)
qed

lemma minds_streamFn: "fits S stored H \<Longrightarrow> minds stored (streamFn H m c ro)"
proof (rule mindsI)
  fix h a h'
  assume fits: "fits S stored H" and eq: "streamFn H m c ro h = (a, h')"
  show "extends stored h h' \<and> hs_phase h' = hs_phase h"
  proof (cases "hs_turn h")
    case None
    with eq show ?thesis by (simp add: streamFn_def)
  next
    case (Some ts)
    obtain q h1 where r: "emitBeforeProviderRequest H m (ts_sessionId ts) (ts_streamOptions ts) h = (q, h1)"
      by fastforce
    have "minds stored (emitBeforeProviderRequest H m (ts_sessionId ts) (ts_streamOptions ts))"
      unfolding emitBeforeProviderRequest_def [abs_def]
      by (rule minds_requestHandlers) (use fits in \<open>simp add: fits_def mindful_def\<close>)
    note step = mindsD [OF this r]
    have payload: "minds stored (emitBeforeProviderPayload H m j)" for j
      unfolding emitBeforeProviderPayload_def [abs_def]
      by (rule minds_payloadHandlers) (use fits in \<open>simp add: fits_def mindful_def\<close>)
    have stream: "minds stored (hv_stream H m c rq (emitBeforeProviderPayload H m)
        (\<lambda>st hd. emitOwn H (AfterProviderResponse st hd)))" for rq
      by (rule fits_stream [OF fits payload minds_emitOwn [OF fits]])
    show ?thesis
      using eq Some r step minds_step [OF step stream] by (cases q) (auto simp: streamFn_def)
  qed
qed

context message_log
begin

lemma flush_spec:
  assumes "hv_ops H = S" and "flushPendingSessionWrites H h = (r, h')"
  shows "\<exists>done. hs_pendingWrites h = done @ hs_pendingWrites h' \<and>
    stored (hs_session h') = stored (hs_session h) @ concat (map messagesOf done) \<and>
    (isl r \<longleftrightarrow> hs_pendingWrites h' \<noteq> []) \<and>
    h' = h\<lparr>hs_pendingWrites := hs_pendingWrites h', hs_session := hs_session h'\<rparr>"
proof -
  obtain q ws s where f: "flushWrites S (hs_pendingWrites h) (hs_session h) = (q, ws, s)"
    by (metis prod.exhaust)
  with assms have h': "h' = h\<lparr>hs_pendingWrites := ws, hs_session := s\<rparr>" "isl r \<longleftrightarrow> isl q"
    by (auto simp: flushPendingSessionWrites_def)
  from flushWrites_stored [OF f] h' show ?thesis by auto
qed

lemma minds_flush: "fits S stored H \<Longrightarrow> minds stored (flushPendingSessionWrites H)"
proof (rule mindsI)
  fix h a h'
  assume fits: "fits S stored H" and eq: "flushPendingSessionWrites H h = (a, h')"
  from fits have "hv_ops H = S" by (simp add: fits_def)
  from flush_spec [OF this eq] have
    h': "h' = h\<lparr>hs_pendingWrites := hs_pendingWrites h', hs_session := hs_session h'\<rparr>" and
    "prefix (stored (hs_session h)) (stored (hs_session h'))" by auto
  moreover have "hs_thrown h' = hs_thrown h" "hs_phase h' = hs_phase h" by (subst h'; simp)+
  ultimately show "extends stored h h' \<and> hs_phase h' = hs_phase h" by (simp add: extends_def)
qed

lemma minds_prepareNextTurn:
  assumes fits: "fits S stored H"
  shows "minds stored (prepareNextTurn H)"
proof (rule mindsI)
  fix h a h'
  assume eq: "prepareNextTurn H h = (a, h')"
  obtain q h1 where f: "flushPendingSessionWrites H h = (q, h1)" by fastforce
  obtain p h2 where c: "createTurnState H h1 = (p, h2)" by fastforce
  note step = mindsD [OF minds_flush [OF fits] f]
  note step2 = minds_step [OF step minds_createTurnState [OF fits] c]
  from eq f c have "h' = h1 \<or> h' = h2 \<or> (\<exists>ts. h' = h2\<lparr>hs_turn := Some ts\<rparr>)"
    by (auto simp: prepareNextTurn_def split: sum.splits)
  with step step2 show "extends stored h h' \<and> hs_phase h' = hs_phase h"
    by (auto simp: extends_def)
qed

end

end
