(* ===== verification/HarnessRecord.thy ===== *)
theory HarnessRecord
  imports HarnessFacts
begin

text \<open>
  What a run leaves in the session. While nothing has been thrown, the messages that the
  loop reports as ended are among the messages stored since, in their order, and the phase
  is idle once the end of the run has been reported. The relation \<open>recorded\<close> says so of the
  run before and the run after; the loop stays within it. An event that fails, or a
  callback after it, still only adds messages.
\<close>

section \<open>One event\<close>

definition isAgentEnd :: "agent_event \<Rightarrow> bool" where
  "isAgentEnd e = (case e of AgentEnd _ \<Rightarrow> True | _ \<Rightarrow> False)"

definition phaseAfter :: "agent_event list \<Rightarrow> harness_phase \<Rightarrow> harness_phase" where
  "phaseAfter es p = (if list_ex isAgentEnd es then Ph_idle else p)"

lemma phaseAfter_append: "phaseAfter (es @ fs) p = phaseAfter fs (phaseAfter es p)"
  by (simp add: phaseAfter_def)

definition stores :: "('s \<Rightarrow> agent_message list) \<Rightarrow> agent_event list \<Rightarrow> ('s, 'x) harness \<Rightarrow> ('s, 'x) harness \<Rightarrow> bool" where
  "stores stored es h h' \<longleftrightarrow> hs_phase h' = phaseAfter es (hs_phase h) \<and>
     (\<exists>added. stored (hs_session h') = stored (hs_session h) @ added \<and> subseq (messagesEnded es) added)"

lemma stores_trans:
  assumes "stores stored es h h1" "stores stored fs h1 h'"
  shows "stores stored (es @ fs) h h'"
proof -
  from assms obtain a b where
    "stored (hs_session h1) = stored (hs_session h) @ a" "subseq (messagesEnded es) a"
    "stored (hs_session h') = stored (hs_session h1) @ b" "subseq (messagesEnded fs) b"
    by (auto simp: stores_def)
  then have "stored (hs_session h') = stored (hs_session h) @ (a @ b)"
    "subseq (messagesEnded (es @ fs)) (a @ b)"
    by (simp_all add: messagesEnded_append list_emb_append_mono)
  with assms show ?thesis unfolding stores_def by (auto simp: phaseAfter_append)
qed

lemma stores_minds:
  "extends stored h h' \<and> hs_phase h' = hs_phase h \<Longrightarrow> messagesEnded es = [] \<Longrightarrow> \<not> list_ex isAgentEnd es \<Longrightarrow>
   stores stored es h h'"
  by (auto simp: extends_def stores_def phaseAfter_def prefix_def)

lemma stores_quiet: "stores stored [] h h' \<Longrightarrow> messagesEnded es = [] \<Longrightarrow> \<not> list_ex isAgentEnd es \<Longrightarrow>
   stores stored es h h'"
  by (simp add: stores_def phaseAfter_def)

context message_log
begin

lemma harnessAppend_stored:
  assumes "fits S stored H" and "harnessAppend H m h = (r, h')"
  shows "stored (hs_session h') = stored (hs_session h) @ (if isl r then [] else [m]) \<and>
    hs_phase h' = hs_phase h \<and> hs_thrown h' = hs_thrown h"
proof -
  obtain q s where a: "appendMessage S m (hs_session h) = (q, s)" by fastforce
  with assms have "r = map_sum ThrownSession id q" "h' = h\<lparr>hs_session := s\<rparr>"
    by (auto simp: harnessAppend_def ofSession_def fits_def)
  with appendMessage_stored [OF a] show ?thesis by (cases q) auto
qed

lemma handleTurnEnd_minds:
  assumes fits: "fits S stored H"
  shows "minds stored (handleTurnEnd H e)"
proof (rule mindsI)
  fix h a h'
  assume eq: "handleTurnEnd H e h = (a, h')"
  obtain q h1 where l: "emitAny H e h = (q, h1)" by fastforce
  obtain p h2 where f: "flushPendingSessionWrites H h1 = (p, h2)" by fastforce
  note step = mindsD [OF minds_emitAny [OF fits] l]
  note step2 = minds_step [OF step minds_flush [OF fits] f]
  show "extends stored h h' \<and> hs_phase h' = hs_phase h"
    using eq l f step2 minds_step [OF step2 minds_emitOwn [OF fits]]
    by (auto simp: handleTurnEnd_def split: sum.splits)
qed

lemma handleAgentEnd_stores:
  assumes fits: "fits S stored H" and eq: "handleAgentEnd H (AgentEnd ms) h = (r, h')"
  shows "extends stored h h' \<and> (isl r \<or> stores stored [AgentEnd ms] h h')"
proof -
  obtain p h1 where f: "flushPendingSessionWrites H h = (p, h1)" by fastforce
  note step = mindsD [OF minds_flush [OF fits] f]
  show ?thesis
  proof (cases p)
    case (Inl t)
    with eq f step show ?thesis by (auto simp: handleAgentEnd_def)
  next
    case (Inr u)
    let ?h = "h1\<lparr>hs_phase := Ph_idle\<rparr>"
    obtain q h2 where l: "emitAny H (AgentEnd ms) ?h = (q, h2)" by fastforce
    note step2 = mindsD [OF minds_emitAny [OF fits] l]
    have "extends stored ?h h' \<and> hs_phase h' = hs_phase ?h"
      using eq f l Inr step2 minds_step [OF step2 minds_emitOwn [OF fits]]
      by (auto simp: handleAgentEnd_def split: sum.splits)
    then have "extends stored h h'" "hs_phase h' = Ph_idle"
      using step extends_trans by (fastforce simp: extends_def)+
    then show ?thesis by (auto simp: stores_def phaseAfter_def isAgentEnd_def extends_def prefix_def)
  qed
qed

lemma handleAgentEvent_stores:
  assumes fits: "fits S stored H" and eq: "handleAgentEvent H e h = (r, h')"
  shows "extends stored h h' \<and> (isl r \<or> stores stored [e] h h')"
proof -
  have other: ?thesis if "minds stored (handleAgentEvent H e)" "messagesEnded [e] = []" "\<not> isAgentEnd e"
    using mindsD [OF that(1) eq] stores_minds [OF mindsD [OF that(1) eq] that(2)] that(3) by simp
  show ?thesis
  proof (cases e)
    case (MessageEnd m)
    obtain q h1 where a: "harnessAppend H m h = (q, h1)" by fastforce
    note st = harnessAppend_stored [OF fits a]
    show ?thesis
    proof (cases q)
      case (Inl t)
      with eq a st MessageEnd show ?thesis by (auto simp: handleAgentEvent_def extends_def)
    next
      case (Inr u)
      with eq a MessageEnd have "emitAny H e h1 = (r, h')" by (simp add: handleAgentEvent_def)
      from mindsD [OF minds_emitAny [OF fits] this] st Inr MessageEnd show ?thesis
        by (auto simp: extends_def stores_def phaseAfter_def isAgentEnd_def prefix_def)
    qed
  next
    case (TurnEnd m ms)
    show ?thesis
      by (rule other)
        (use handleTurnEnd_minds [OF fits] in \<open>simp_all add: TurnEnd handleAgentEvent_def [abs_def] isAgentEnd_def\<close>)
  next
    case (AgentEnd ms)
    with eq handleAgentEnd_stores [OF fits] show ?thesis by (simp add: handleAgentEvent_def)
  qed (rule other; use minds_emitAny [OF fits] in \<open>simp add: handleAgentEvent_def [abs_def] isAgentEnd_def\<close>)+
qed

lemma handleEvents_stores:
  assumes fits: "fits S stored H"
  shows "handleEvents H es h = (r, h') \<Longrightarrow> extends stored h h' \<and> (isl r \<or> stores stored es h h')"
proof (induction es arbitrary: h)
  case Nil
  then show ?case by (auto simp: stores_def phaseAfter_def)
next
  case (Cons e es)
  obtain q h1 where e: "handleAgentEvent H e h = (q, h1)" by fastforce
  note st = handleAgentEvent_stores [OF fits e]
  show ?case
  proof (cases q)
    case (Inl t)
    with Cons.prems e st show ?thesis by auto
  next
    case (Inr u)
    with Cons.prems e have "handleEvents H es h1 = (r, h')" by simp
    note IH = Cons.IH [OF this]
    from st Inr have "stores stored [e] h h1" by simp
    with IH st show ?thesis
      using stores_trans [of stored "[e]" h h1 es h'] extends_trans by auto
  qed
qed

end

section \<open>The relation between runs\<close>

definition recorded :: "('s \<Rightarrow> agent_message list) \<Rightarrow> ('s, 'x) harness run \<Rightarrow> ('s, 'x) harness run \<Rightarrow> bool" where
  "recorded stored r r' \<longleftrightarrow>
     prefix (stored (hs_session (r_world r))) (stored (hs_session (r_world r'))) \<and>
     (\<exists>es. r_trace r' = r_trace r @ es \<and>
        (hs_thrown (r_world r') = None \<longrightarrow> hs_thrown (r_world r) = None \<and> stores stored es (r_world r) (r_world r')))"

lemma recorded_step:
  assumes "r_trace r' = r_trace r @ es"
    and "prefix (stored (hs_session (r_world r))) (stored (hs_session (r_world r')))"
    and "hs_thrown (r_world r') = None \<Longrightarrow> hs_thrown (r_world r) = None \<and> stores stored es (r_world r) (r_world r')"
  shows "recorded stored r r'"
  unfolding recorded_def by (intro conjI exI [of _ es] impI) (use assms in simp_all)

lemma recorded_same: "r_trace r' = r_trace r \<Longrightarrow> r_world r' = r_world r \<Longrightarrow> recorded stored r r'"
  by (rule recorded_step [where es = "[]"]) (simp_all add: stores_def phaseAfter_def)

lemma reflp_recorded: "reflp (recorded stored)"
  by (auto simp: reflp_def recorded_same)

lemma transp_recorded: "transp (recorded stored)"
proof (rule transpI)
  fix r1 r2 r3
  assume a: "recorded stored r1 r2" and b: "recorded stored r2 r3"
  from a obtain es where es: "r_trace r2 = r_trace r1 @ es"
    "hs_thrown (r_world r2) = None \<Longrightarrow> hs_thrown (r_world r1) = None \<and> stores stored es (r_world r1) (r_world r2)"
    by (auto simp: recorded_def)
  from b obtain fs where fs: "r_trace r3 = r_trace r2 @ fs"
    "hs_thrown (r_world r3) = None \<Longrightarrow> hs_thrown (r_world r2) = None \<and> stores stored fs (r_world r2) (r_world r3)"
    by (auto simp: recorded_def)
  show "recorded stored r1 r3"
  proof (rule recorded_step)
    show "r_trace r3 = r_trace r1 @ (es @ fs)" using es(1) fs(1) by simp
    show "prefix (stored (hs_session (r_world r1))) (stored (hs_session (r_world r3)))"
      using a b prefix_order.trans unfolding recorded_def by blast
    assume "hs_thrown (r_world r3) = None"
    with es(2) fs(2) stores_trans [of stored es "r_world r1" "r_world r2" fs "r_world r3"]
    show "hs_thrown (r_world r1) = None \<and> stores stored (es @ fs) (r_world r1) (r_world r3)" by simp
  qed
qed

lemma thrown_raise [simp]: "hs_thrown h = None \<Longrightarrow> hs_thrown (raise t h) = Some t"
  by (simp add: raise_def)

lemma session_raise [simp]: "hs_session (raise t h) = hs_session h"
  by (simp add: raise_def)

text \<open>Callbacks that mind their business stay within the relation.\<close>

lemma staysIn_recorded:
  assumes "\<And>w a w'. f w = (a, w') \<Longrightarrow> w' = w \<or>
    prefix (stored (hs_session w)) (stored (hs_session w')) \<and>
    (hs_thrown w' \<noteq> None \<or> hs_thrown w = None \<and> hs_phase w' = hs_phase w)"
  shows "staysIn (recorded stored) f"
  unfolding staysIn_def
proof (intro allI impI)
  fix r a r'
  assume h: "callHook f r = (a, r')"
  from callHook_result [OF h] have f: "f (r_world r) = (a, r_world r')" by simp
  show "recorded stored r r'"
  proof (cases "r_world r' = r_world r")
    case True
    with callHook_trace [OF h] show ?thesis by (rule recorded_same)
  next
    case False
    with assms [OF f] callHook_trace [OF h] show ?thesis
      by (intro recorded_step [where es = "[]"]) (auto simp: stores_def phaseAfter_def prefix_def)
  qed
qed

lemma staysIn_attempt: "minds stored f \<Longrightarrow> staysIn (recorded stored) (attempt d f)"
  by (rule staysIn_recorded)
    (auto simp: attempt_def extends_def split: if_splits prod.splits sum.splits dest!: mindsD)

lemma staysIn_caught: "minds stored f \<Longrightarrow> staysIn (recorded stored) (caught f)"
  by (rule staysIn_recorded)
    (auto simp: caught_def extends_def split: if_splits prod.splits dest!: mindsD)

lemma staysIn_guarded:
  assumes "minds stored (at_execute t i a)"
  shows "staysIn (recorded stored) (at_execute (guardedTool t) i a)"
  by (rule staysIn_recorded)
    (use assms in \<open>auto simp: guardedTool_def extends_def split: if_splits dest!: mindsD\<close>)

lemma staysIn_pure: "staysIn (recorded stored) (\<lambda>h. (g h, h))"
  by (rule staysIn_recorded) simp

section \<open>A run of the loop\<close>

lemma minds_hooks:
  assumes "fits S stored H"
  shows "minds stored (emitHook (hv_context H) ms r)" "minds stored (emitHook (hv_toolCall H) c q)"
    "minds stored (emitHook (hv_toolResult H) d p)" "minds stored (emitHook (hv_beforeAgentStart H) e b)"
  by (rule minds_emitHook; use assms in \<open>simp add: fits_def mindful_def\<close>)+

lemma minds_map:
  assumes "minds stored f"
  shows "minds stored (\<lambda>h. case f h of (r, h') \<Rightarrow> (g r, h'))"
  using assms by (auto simp: minds_def split: prod.splits) (metis snd_conv)+

lemma toolsStay_createContext:
  "fits S stored H \<Longrightarrow> toolsStay (recorded stored) (createContext H ts p)"
  by (auto simp: toolsStay_def createContext_def fits_def mindful_def intro!: staysIn_guarded)

lemma takeNextTurn_user: "takeNextTurn H user h = (Inr ms, h') \<Longrightarrow> user \<in> set ms"
  by (auto simp: takeNextTurn_def Let_def split: if_splits sum.splits prod.splits)

lemma minds_takeNextTurn: "fits S stored H \<Longrightarrow> minds stored (takeNextTurn H user)"
proof (rule mindsI)
  fix h a h'
  assume fits: "fits S stored H" and eq: "takeNextTurn H user h = (a, h')"
  obtain q h1 where u: "emitQueueUpdate H (h\<lparr>hs_nextTurnQueue := []\<rparr>) = (q, h1)" by fastforce
  from mindsD [OF minds_emitQueueUpdate [OF fits] u] eq u
  show "extends stored h h' \<and> hs_phase h' = hs_phase h"
    by (auto simp: takeNextTurn_def Let_def extends_def split: if_splits sum.splits)
qed

definition turnMessages :: "agent_message list \<Rightarrow> agent_message list \<Rightarrow> bool" where
  "turnMessages ms new \<longleftrightarrow> prefix ms new \<or>
     (\<exists>m. new = [assistant_msg m] \<and> am_stopReason m \<in> {SR_aborted, SR_error})"

text \<open>What an answer of a turn stands for.\<close>

definition answered ::
  "agent_message \<Rightarrow> (thrown + assistant_message) \<Rightarrow> agent_message list \<Rightarrow> bool" where
  "answered user res added \<longleftrightarrow>
     (\<exists>m new. res = Inr m \<and> subseq new added \<and> lastAssistant new = Some m \<and>
        (user \<in> set new \<or> new = [assistant_msg m] \<and> am_stopReason m \<in> {SR_aborted, SR_error}))"

lemma answered_more: "answered user res added \<Longrightarrow> answered user res (added @ ms)"
  unfolding answered_def by (metis append_Nil2 list_emb_append_mono list_emb_Nil)

lemma turnMessages_answered:
  assumes "turnMessages ms new" "user \<in> set ms" "subseq new added" "answerOf new = res" "\<not> isl res"
  shows "answered user res added"
proof -
  from assms(4,5) obtain m where m: "res = Inr m" "lastAssistant new = Some m"
    by (auto simp: answerOf_def split: option.splits)
  from assms(1) have "user \<in> set new \<or> new = [assistant_msg m] \<and> am_stopReason m \<in> {SR_aborted, SR_error}"
    using assms(2) m(2)
    by (auto simp: turnMessages_def prefix_def lastAssistant_def List.map_filter_simps)
  with m assms(3) show ?thesis unfolding answered_def by blast
qed

context message_log
begin

lemma loopRel_recorded:
  assumes fits: "fits S stored H"
  shows "loopRel (recorded stored) (harnessPorts H)"
  unfolding loopRel_def
proof (intro conjI allI)
  show "recorded stored r (emit (harnessPorts H) e r)" for e r
  proof -
    obtain q h' where a: "handleAgentEvent H e (r_world r) = (q, h')" by fastforce
    note st = handleAgentEvent_stores [OF fits a]
    show ?thesis
      by (rule recorded_step [where es = "[e]"])
        (use a st in \<open>auto simp: emit_def harnessPorts_def attempt_def extends_def split: sum.splits if_splits\<close>)
  qed
  show "staysIn (recorded stored) (pt_stream (harnessPorts H) m c opts)" for m c opts
  proof (rule staysIn_recorded, goal_cases)
    case (1 w a w')
    obtain q h' where f: "streamFn H m c opts w = (q, h')" by fastforce
    from mindsD [OF minds_streamFn [OF fits] f] f 1 show ?case
      by (auto simp: harnessPorts_def attempt_def extends_def split: if_splits sum.splits)
  qed
qed (rule reflp_recorded transp_recorded)+

lemma prepareNextTurn_context:
  "prepareNextTurn H h = (Inr (Some u), h') \<Longrightarrow> tu_context u = Some c \<Longrightarrow> \<exists>ts. c = createContext H ts None"
  by (auto simp: prepareNextTurn_def split: sum.splits prod.splits)

lemma configStays_recorded:
  assumes fits: "fits S stored H"
  shows "configStays (recorded stored) (createLoopConfig H ts)"
proof -
  have ctx: "staysIn (recorded stored) (attempt ms (\<lambda>h.
      case emitHook (hv_context H) ms None h of (r, h') \<Rightarrow> (map_sum id (\<lambda>r. orDefault r ms) r, h')))" for ms
    by (rule staysIn_attempt [OF minds_map [OF minds_hooks(1) [OF fits]]])
  have tools: "toolsStay (recorded stored) c"
    if "fst (attempt None (prepareNextTurn H) w) = Some u" "tu_context u = Some c" for w u c
  proof -
    obtain q h' where p: "prepareNextTurn H w = (q, h')" by fastforce
    with that have "q = Inr (Some u)" by (auto simp: attempt_def split: if_splits sum.splits)
    from prepareNextTurn_context [OF p [unfolded this] that(2)] obtain ts where "c = createContext H ts None" ..
    then show ?thesis using toolsStay_createContext [OF fits] by simp
  qed
  show ?thesis
    unfolding configStays_def createLoopConfig_def hookStays_def supplyStays_def
    using ctx tools staysIn_attempt [OF minds_prepareNextTurn [OF fits]]
      staysIn_attempt [OF minds_drainSteering [OF fits]] staysIn_attempt [OF minds_drainFollowUp [OF fits]]
      staysIn_caught [OF minds_hooks(2) [OF fits]] staysIn_caught [OF minds_hooks(3) [OF fits]]
    by (simp add: staysIn_pure)
qed

lemma recorded_runAgentLoop:
  assumes fits: "fits S stored H"
    and run: "runAgentLoop (harnessPorts H) ms (createContext H ts p) (createLoopConfig H ts) w = Some (new, r)"
  shows "recorded stored (startRun w) r"
proof -
  let ?P = "harnessPorts H" and ?ctx = "createContext H ts p"
  let ?r = "injectPending ?P ms (emits ?P [AgentStart, TurnStart] (startRun w))"
  note rel = loopRel_recorded [OF fits]
  have "toolsStay (recorded stored) (?ctx\<lparr>ac_messages := ac_messages ?ctx @ ms\<rparr>)"
    using toolsStay_createContext [OF fits, of ts p] by (simp add: toolsStay_def)
  from rel_runLoop [OF rel configStays_recorded [OF fits] this] run have "recorded stored ?r r"
    by (simp add: runAgentLoop_def)
  moreover have "recorded stored (startRun w) ?r"
    by (rule rel_trans [OF rel rel_emits [OF rel] rel_injectPending [OF rel]])
  ultimately show ?thesis using rel_trans [OF rel] by blast
qed

lemma runAgentLoop_stores:
  assumes fits: "fits S stored H" and wf: "wfPorts (harnessPorts H)"
    and run: "runAgentLoop (harnessPorts H) ms (createContext H ts p) (createLoopConfig H ts) w = Some (new, r)"
  shows "prefix (stored (hs_session w)) (stored (hs_session (r_world r)))"
    and "hs_thrown (r_world r) = None \<Longrightarrow> prefix ms new \<and> hs_phase (r_world r) = Ph_idle \<and>
      (\<exists>added. stored (hs_session (r_world r)) = stored (hs_session w) @ added \<and> subseq new added)"
proof -
  note rec = recorded_runAgentLoop [OF fits run]
  note ch = runAgentLoop_chunk [OF wf run]
  from rec show "prefix (stored (hs_session w)) (stored (hs_session (r_world r)))"
    by (simp add: recorded_def startRun_def)
  assume "hs_thrown (r_world r) = None"
  with rec have st: "stores stored (r_trace r) w (r_world r)" by (simp add: recorded_def startRun_def)
  have ended: "messagesEnded (r_trace r) = new" using ch(1) by (auto simp: chunk_def startRun_def)
  have "r_trace r \<noteq> []" using ch(1) by (auto simp: chunk_def startRun_def)
  with ch(2) have "AgentEnd new \<in> set (r_trace r)" using last_in_set by metis
  then have "list_ex isAgentEnd (r_trace r)" by (auto simp: list_ex_iff isAgentEnd_def intro: bexI [of _ "AgentEnd new"])
  with st ended ch(3) show "prefix ms new \<and> hs_phase (r_world r) = Ph_idle \<and>
      (\<exists>added. stored (hs_session (r_world r)) = stored (hs_session w) @ added \<and> subseq new added)"
    by (auto simp: stores_def phaseAfter_def)
qed

text \<open>The messages of a turn, which the session holds when the turn has succeeded.\<close>

lemma emitRunFailure_stores:
  assumes fits: "fits S stored H" and eq: "emitRunFailure H m t ab h = (res, h')"
  shows "prefix (stored (hs_session h)) (stored (hs_session h')) \<and>
    (isl res \<or> hs_phase h' = Ph_idle \<and> (\<exists>added f. res = Inr [f] \<and> f = assistant_msg (createFailureMessage H m t ab h) \<and>
       stored (hs_session h') = stored (hs_session h) @ added \<and> subseq [f] added))"
proof -
  let ?f = "assistant_msg (createFailureMessage H m t ab h)"
  let ?es = "[MessageStart ?f, MessageEnd ?f, TurnEnd ?f [], AgentEnd [?f]]"
  obtain q h1 where e: "handleEvents H ?es h = (q, h1)" by fastforce
  note st = handleEvents_stores [OF fits e]
  from eq e have "h' = h1" "res = map_sum id (\<lambda>_. [?f]) q"
    by (auto simp: emitRunFailure_def Let_def split: sum.splits)
  with st show ?thesis by (cases q) (auto simp: stores_def phaseAfter_def isAgentEnd_def extends_def)
qed

lemma runTurn_stores:
  assumes fits: "fits S stored H" and wf: "wfPorts (harnessPorts H)"
    and run: "runTurn H ts ms p h = Some (res, h')"
  shows "prefix (stored (hs_session h)) (stored (hs_session h')) \<and>
    (isl res \<or> hs_phase h' = Ph_idle \<and> (\<exists>new added. res = Inr new \<and> turnMessages ms new \<and>
       stored (hs_session h') = stored (hs_session h) @ added \<and> subseq new added))"
proof -
  let ?w = "h\<lparr>hs_aborted := Some False, hs_turn := Some ts, hs_thrown := None\<rparr>"
  obtain new r where
    loop: "runAgentLoop (harnessPorts H) ms (createContext H ts p) (createLoopConfig H ts) ?w = Some (new, r)"
    using run by (auto simp: runTurn_def split: option.splits)
  note st = runAgentLoop_stores [OF fits wf loop]
  show ?thesis
  proof (cases "hs_thrown (r_world r)")
    case None
    with run loop have "res = Inr new" "h' = r_world r" by (auto simp: runTurn_def)
    with st None show ?thesis by (auto simp: turnMessages_def)
  next
    case (Some t)
    let ?h = "(r_world r)\<lparr>hs_thrown := None\<rparr>"
    let ?m = "case hs_turn ?h of Some ts' \<Rightarrow> ts_model ts' | None \<Rightarrow> ts_model ts"
    obtain q h2 where f: "emitRunFailure H ?m t (hs_aborted ?h = Some True) ?h = (q, h2)" by fastforce
    note fs = emitRunFailure_stores [OF fits f]
    from run loop Some f have "h' = h2 \<and> (res = q \<or> isl res)"
      by (auto simp: runTurn_def Let_def split: thrown.splits sum.splits)
    then have pre: "prefix (stored (hs_session h)) (stored (hs_session h'))"
      using st(1) fs prefix_order.trans by fastforce
    show ?thesis
    proof (cases "isl res")
      case True
      with pre show ?thesis by simp
    next
      case False
      with \<open>h' = h2 \<and> (res = q \<or> isl res)\<close> have "h' = h2" "res = q" by simp_all
      with False fs obtain b m where b: "hs_phase h' = Ph_idle" "res = Inr [assistant_msg m]"
        "m = createFailureMessage H ?m t (hs_aborted ?h = Some True) ?h"
        "stored (hs_session h') = stored (hs_session (r_world r)) @ b" "subseq [assistant_msg m] b" by auto
      from st(1) obtain a where "stored (hs_session (r_world r)) = stored (hs_session h) @ a"
        by (auto simp: prefix_def)
      with b(4) have "stored (hs_session h') = stored (hs_session h) @ (a @ b)" by simp
      moreover have "subseq [assistant_msg m] (a @ b)" using b(5) by (rule list_emb_append2)
      moreover have "turnMessages ms [assistant_msg m]"
        unfolding turnMessages_def using b(3) by (auto simp: createFailureMessage_def)
      ultimately show ?thesis using b(1,2) pre by blast
    qed
  qed
qed

lemma finishTurn_stores:
  assumes fits: "fits S stored H" and eq: "finishTurn H res h = (res', h')"
  shows "extends stored h h' \<and> hs_phase h' = hs_phase h \<and> (isl res' \<or> res' = res)"
proof -
  obtain q h1 where f: "flushPendingSessionWrites H h = (q, h1)" by fastforce
  from mindsD [OF minds_flush [OF fits] f] eq f show ?thesis
    by (auto simp: finishTurn_def extends_def split: sum.splits)
qed

lemma executeTurn_stores:
  assumes fits: "fits S stored H" and wf: "wfPorts (harnessPorts H)"
    and run: "executeTurn H ts t images h = Some (res, h')"
  shows "\<exists>added. stored (hs_session h') = stored (hs_session h) @ added \<and>
    (isl res \<or> hs_phase h' = Ph_idle \<and> answered (createUserMessage H t (orDefault images []) h) res added)"
proof -
  let ?user = "createUserMessage H t (orDefault images []) h"
  obtain q h1 where tk: "takeNextTurn H ?user h = (q, h1)" by fastforce
  note step = mindsD [OF minds_takeNextTurn [OF fits] tk]
  show ?thesis
  proof (cases q)
    case (Inl e)
    with run tk step show ?thesis by (auto simp: executeTurn_def extends_def prefix_def)
  next
    case (Inr messages)
    note user = takeNextTurn_user [OF tk [unfolded Inr]]
    let ?e = "\<lparr>bas_prompt = t, bas_images = images, bas_systemPrompt = ts_systemPrompt ts,
      bas_resources = ts_resources ts\<rparr>"
    obtain b h2 where hk: "emitHook (hv_beforeAgentStart H) ?e None h1 = (b, h2)" by fastforce
    note step2 = minds_step [OF step minds_hooks(4) [OF fits] hk]
    show ?thesis
    proof (cases b)
      case (Inl e)
      with run tk Inr hk step2 show ?thesis by (auto simp: executeTurn_def extends_def prefix_def)
    next
      case b: (Inr before)
      let ?ms = "messages @ (case before of Some b \<Rightarrow> orDefault (bar_messages b) [] | None \<Rightarrow> [])"
      let ?p = "case before of Some b \<Rightarrow> bar_systemPrompt b | None \<Rightarrow> None"
      from run tk Inr hk b obtain res2 h3 where r: "runTurn H ts ?ms ?p h2 = Some (res2, h3)"
        by (auto simp: executeTurn_def Let_def split: option.splits)
      define res3 where "res3 = (case res2 of Inl e \<Rightarrow> Inl e | Inr new \<Rightarrow> answerOf new)"
      have fin: "finishTurn H res3 h3 = (res, h')"
        using run tk Inr hk b r by (cases res2) (auto simp: executeTurn_def Let_def res3_def)
      note rs = runTurn_stores [OF fits wf r]
      note fs = finishTurn_stores [OF fits fin]
      from step2 rs fs obtain a1 a2 a3 where st: "stored (hs_session h2) = stored (hs_session h) @ a1"
        "stored (hs_session h3) = stored (hs_session h2) @ a2" "stored (hs_session h') = stored (hs_session h3) @ a3"
        by (auto simp: extends_def prefix_def)
      show ?thesis
      proof (cases "isl res")
        case True
        with st show ?thesis by auto
      next
        case False
        with fs have res: "res = res3" by simp
        with False obtain new where new: "res2 = Inr new" "answerOf new = res"
          by (cases res2) (auto simp: res3_def)
        with rs st(2) have ph: "hs_phase h3 = Ph_idle" "turnMessages ?ms new" "subseq new a2" by auto
        from ph(3) have sub: "subseq new (a1 @ a2)" by (rule list_emb_append2)
        from user have "?user \<in> set ?ms" by simp
        from answered_more [OF turnMessages_answered [OF ph(2) this sub new(2) False]] st ph(1) fs
        show ?thesis by (intro exI [of _ "a1 @ a2 @ a3"]) simp
      qed
    qed
  qed
qed

end

end
