(* ===== verification/HarnessSamples.thy ===== *)
theory HarnessSamples
  imports HarnessRecord CompactionProps
begin

text \<open>
  A concrete harness and a prompt that it answers, for the instances of the properties. Its
  states stay calm: nothing is thrown, nothing waits, and the session is a tree.
\<close>

text \<open>
  A harness over an empty session whose provider answers at once, with a listener that counts
  the events, a hook that queues a message for the next turn, and a message that waits.
\<close>

definition sampleHarnessEnv :: "(mem_storage, nat) harness_env" where
  "sampleHarnessEnv =
     \<lparr>hv_ops = memoryStorageOps sampleSource, hv_sessionId = (\<lambda>s. js ''s''), hv_contextOptions = plainOptions,
      hv_getTime = (\<lambda>t. 0),
      hv_tool = (\<lambda>i. \<lparr>tool_name = js ''read'', tool_description = [], tool_parameters = JNull, at_label = [],
        at_prepareArguments = None, at_execute = (\<lambda>i a h. (([sampleResult], Inr sampleResult), h)),
        at_executionMode = None\<rparr>),
      hv_systemPrompt = DefaultPrompt,
      hv_listeners = [\<lambda>e h. (Inr (), h\<lparr>hs_env := hs_env h + 1\<rparr>)],
      hv_beforeAgentStart = [\<lambda>e h. (Inr None, h\<lparr>hs_nextTurnQueue := [samplePrompt]\<rparr>)],
      hv_context = [], hv_beforeProviderRequest = [], hv_beforeProviderPayload = [], hv_toolCall = [],
      hv_toolResult = [], hv_beforeCompact = [], hv_beforeTree = [],
      hv_stream = (\<lambda>m c rq p q h. (Inr (fst (sampleStream 0)), h)),
      hv_complete = (\<lambda>m c opts h. (Inr sampleStop, h)), hv_sleep = (\<lambda>n h. (False, h)), hv_retry = None,
      hv_validate = (\<lambda>t c. Inr JNull), hv_now = (\<lambda>h. 7), hv_schedule = (\<lambda>h. [])\<rparr>"

definition sampleHarness :: "(mem_storage, nat) harness" where
  "sampleHarness =
     \<lparr>hs_session = sampleStore, hs_phase = Ph_idle, hs_aborted = None, hs_running = False,
      hs_pendingWrites = [],
      hs_model = sampleModel, hs_thinkingLevel = TL_off, hs_streamOptions = noStreamOptions,
      hs_resources = \<lparr>rs_promptTemplates = None, rs_skills = None\<rparr>, hs_tools = [0],
      hs_activeToolNames = [js ''read''], hs_steerQueue = [], hs_steeringMode = QM_one_at_a_time,
      hs_followUpQueue = [], hs_followUpMode = QM_one_at_a_time, hs_queueId = 0,
      hs_nextTurnQueue = [samplePrompt], hs_turn = None, hs_thrown = None, hs_env = 0\<rparr>"

lemma wfPorts_harnessSample: "wfPorts (harnessPorts sampleHarnessEnv)"
  by (auto simp: wfPorts_def harnessPorts_def attempt_def streamFn_def sampleHarnessEnv_def sampleStream_def
      emitBeforeProviderRequest_def split: option.splits)

text \<open>A prompt that answers, by evaluation: the run within a number of turns, and the rest.\<close>

definition answers ::
  "nat \<Rightarrow> ('s, 'x) harness_env \<Rightarrow> jstr \<Rightarrow> image_content list option \<Rightarrow> ('s, 'x) harness \<Rightarrow> bool" where
  "answers n H t images h =
     (case createTurnState H (h\<lparr>hs_phase := Ph_turn, hs_running := True\<rparr>) of
        (Inl _, _) \<Rightarrow> False
      | (Inr ts, h1) \<Rightarrow>
     (case takeNextTurn H (createUserMessage H t (orDefault images []) h1) h1 of
        (Inl _, _) \<Rightarrow> False
      | (Inr messages, h2) \<Rightarrow>
     (case emitHook (hv_beforeAgentStart H)
             \<lparr>bas_prompt = t, bas_images = images, bas_systemPrompt = ts_systemPrompt ts,
              bas_resources = ts_resources ts\<rparr> None h2 of
        (Inr None, h3) \<Rightarrow>
          (let P = harnessPorts H
           in case turnLoopN n P (runState P messages (createContext H ts None) (createLoopConfig H ts)
                     (h3\<lparr>hs_aborted := Some False, hs_turn := Some ts, hs_thrown := None\<rparr>)) of
                None \<Rightarrow> False
              | Some (new, r) \<Rightarrow>
                  hs_thrown (r_world r) = None \<and> \<not> isl (fst (finishTurn H (answerOf new) (r_world r))))
      | _ \<Rightarrow> False)))"

lemma answers_prompt:
  assumes idle: "hs_phase h = Ph_idle" and a: "answers n H t images h"
  shows "\<exists>m h'. harnessPrompt H t images h = Some (Inr m, h')"
proof -
  obtain q h1 where c: "createTurnState H (h\<lparr>hs_phase := Ph_turn, hs_running := True\<rparr>) = (q, h1)" by fastforce
  from a c obtain ts where q: "q = Inr ts" by (cases q) (auto simp: answers_def)
  note c = c [unfolded q]
  let ?user = "createUserMessage H t (orDefault images []) h1"
  obtain p h2 where k: "takeNextTurn H ?user h1 = (p, h2)" by fastforce
  from a c k obtain ms where p: "p = Inr ms" by (cases p) (auto simp: answers_def)
  note k = k [unfolded p]
  let ?e = "\<lparr>bas_prompt = t, bas_images = images, bas_systemPrompt = ts_systemPrompt ts,
      bas_resources = ts_resources ts\<rparr>"
  obtain b h3 where hk: "emitHook (hv_beforeAgentStart H) ?e None h2 = (b, h3)" by fastforce
  from a c k hk have b: "b = Inr None" by (auto simp: answers_def split: sum.splits option.splits)
  note hk = hk [unfolded b]
  let ?w = "h3\<lparr>hs_aborted := Some False, hs_turn := Some ts, hs_thrown := None\<rparr>"
  let ?s = "runState (harnessPorts H) ms (createContext H ts None) (createLoopConfig H ts) ?w"
  from a c k hk obtain new r where l: "turnLoopN n (harnessPorts H) ?s = Some (new, r)"
    and th: "hs_thrown (r_world r) = None" and fin: "\<not> isl (fst (finishTurn H (answerOf new) (r_world r)))"
    by (auto simp: answers_def Let_def split: option.splits)
  from turnLoopN_turnLoop [OF l]
  have "runAgentLoop (harnessPorts H) ms (createContext H ts None) (createLoopConfig H ts) ?w = Some (new, r)"
    by (simp add: runAgentLoop_runState)
  then have "runTurn H ts ms None h3 = Some (Inr new, r_world r)" by (simp add: runTurn_def th)
  then have x: "executeTurn H ts t images h1 = Some (finishTurn H (answerOf new) (r_world r))"
    by (simp add: executeTurn_def k hk)
  obtain res h' where f: "finishTurn H (answerOf new) (r_world r) = (res, h')" by fastforce
  with fin obtain m where "res = Inr m" by (cases res) auto
  with x f c idle show ?thesis by (simp add: harnessPrompt_def promptWith_def)
qed

section \<open>Calm states\<close>

definition calm :: "(mem_storage, nat) harness \<Rightarrow> bool" where
  "calm h \<longleftrightarrow> hs_thrown h = None \<and> memInv sampleSource (hs_session h) \<and> hs_pendingWrites h = [] \<and>
     hs_steerQueue h = [] \<and> hs_followUpQueue h = [] \<and> hs_turn h \<noteq> None"

lemma sample_env [simp]:
  "hv_ops sampleHarnessEnv = memoryStorageOps sampleSource"
  "hv_context sampleHarnessEnv = []" "hv_beforeProviderRequest sampleHarnessEnv = []"
  "hv_systemPrompt sampleHarnessEnv = DefaultPrompt"
  "hv_beforeAgentStart sampleHarnessEnv = [\<lambda>e h. (Inr None, h\<lparr>hs_nextTurnQueue := [samplePrompt]\<rparr>)]"
  "emitAny sampleHarnessEnv e h = (Inr (), h\<lparr>hs_env := hs_env h + 1\<rparr>)"
  "emitOwn sampleHarnessEnv e' h = (Inr (), h\<lparr>hs_env := hs_env h + 1\<rparr>)"
  "hv_stream sampleHarnessEnv m c rq p q h = (Inr (fst (sampleStream 0)), h)"
  by (simp_all add: sampleHarnessEnv_def emitAny_def emitOwn_def)

lemma calm_flush [simp]: "calm h \<Longrightarrow> flushPendingSessionWrites sampleHarnessEnv h = (Inr (), h)"
  by (simp add: flushPendingSessionWrites_def calm_def)

lemma calm_env [simp]: "calm (h\<lparr>hs_env := n\<rparr>) = calm h" "calm (h\<lparr>hs_phase := p\<rparr>) = calm h"
  "calm (h\<lparr>hs_turn := Some ts\<rparr>) = (hs_thrown h = None \<and> memInv sampleSource (hs_session h) \<and>
     hs_pendingWrites h = [] \<and> hs_steerQueue h = [] \<and> hs_followUpQueue h = [])"
  by (simp_all add: calm_def)

lemma calm_event:
  assumes "calm h"
  shows "\<exists>h'. handleAgentEvent sampleHarnessEnv e h = (Inr (), h') \<and> calm h'"
proof (cases e)
  case (MessageEnd m)
  have "\<forall>t. E_message m \<noteq> E_leaf t" by simp
  from mem.appendAtLeaf_ok [OF _ this] assms obtain i s' where
    "appendAtLeaf (memoryStorageOps sampleSource) (E_message m) (hs_session h) = (Inr i, s')" "memInv sampleSource s'"
    unfolding calm_def by blast
  then have "harnessAppend sampleHarnessEnv m h = (Inr i, h\<lparr>hs_session := s'\<rparr>)" "calm (h\<lparr>hs_session := s'\<rparr>)"
    using assms by (simp_all add: harnessAppend_def ofSession_def appendMessage_def calm_def)
  with MessageEnd show ?thesis by (simp add: handleAgentEvent_def)
qed (use assms in \<open>simp_all add: handleAgentEvent_def handleTurnEnd_def handleAgentEnd_def\<close>)

abbreviation "samplePs \<equiv> harnessPorts sampleHarnessEnv"

lemma calm_emit [simp]:
  assumes "calm (r_world r)"
  shows "calm (r_world (emit samplePs e r))"
proof -
  from calm_event [OF assms] obtain h' where "handleAgentEvent sampleHarnessEnv e (r_world r) = (Inr (), h')" "calm h'"
    by blast
  then show ?thesis using assms by (simp add: emit_def harnessPorts_def attempt_def calm_def)
qed

lemma calm_emits [simp]: "calm (r_world r) \<Longrightarrow> calm (r_world (emits samplePs es r))"
  by (induction es arbitrary: r) auto

lemma calm_drains [simp]:
  "calm h \<Longrightarrow> attempt [] (drainSteering sampleHarnessEnv) h = ([], h)"
  "calm h \<Longrightarrow> attempt [] (drainFollowUp sampleHarnessEnv) h = ([], h)"
  by (auto simp: attempt_def drainSteering_def drainFollowUp_def splitQueue_def calm_def)

lemma calm_turnState:
  assumes "memInv sampleSource (hs_session h)"
  shows "\<exists>ts. createTurnState sampleHarnessEnv h = (Inr ts, h)"
proof -
  from mem.leaf [OF assms] obtain l where l: "so_getLeafId (memoryStorageOps sampleSource) (hs_session h) = Inr l"
    "l = None \<or> so_getEntry (memoryStorageOps sampleSource) (the l) (hs_session h) \<noteq> None" by blast
  from mem.path_ok [OF assms l(2)] l(1) obtain p where
    "getBranch (memoryStorageOps sampleSource) None (hs_session h) = Some (Inr p)" by (auto simp: getBranch_def)
  then show ?thesis by (simp add: createTurnState_def buildContext_def resolvePrompt_def)
qed

lemma calm_nextTurn:
  assumes "calm h"
  shows "\<exists>u h'. attempt None (prepareNextTurn sampleHarnessEnv) h = (Some u, h') \<and> calm h'"
proof -
  have "memInv sampleSource (hs_session h)" using assms by (simp add: calm_def)
  from calm_turnState [OF this] obtain ts where "createTurnState sampleHarnessEnv h = (Inr ts, h)" by blast
  with assms show ?thesis by (simp add: attempt_def prepareNextTurn_def) (simp add: calm_def)
qed

lemma calm_stream [simp]: "calm h \<Longrightarrow> pt_stream samplePs m c ro h = (fst (sampleStream 0), h)"
  by (auto simp: harnessPorts_def attempt_def streamFn_def calm_def emitBeforeProviderRequest_def)

lemma calm_response:
  assumes "calm (r_world r)"
  shows "\<exists>ctx' r'. streamAssistantResponse samplePs (createLoopConfig sampleHarnessEnv ts) ctx r =
    (sampleStop, ctx', r') \<and> calm (r_world r')"
  using assms
  by (simp add: streamAssistantResponse_def createLoopConfig_def callHook_def attempt_def sampleStream_def
      finishResponse_def Let_def split: prod.split)

lemma calm_turn:
  assumes "calm (r_world (ls_run s))" and cfg: "ls_config s = createLoopConfig sampleHarnessEnv ts"
    and "ls_pending s = []" "ls_firstTurn s"
  shows "\<exists>s'. turn samplePs s = Continue s' \<and> calm (r_world (ls_run s')) \<and> ls_pending s' = [] \<and>
    \<not> ls_hasMoreToolCalls s' \<and> ls_newMessages s' = ls_newMessages s @ [assistant_msg sampleStop] \<and>
    cfg_getFollowUpMessages (ls_config s') = Some (attempt [] (drainFollowUp sampleHarnessEnv))"
proof -
  from calm_response [OF assms(1), of ts "ls_context s"] obtain ctx r where
    resp: "streamAssistantResponse samplePs (createLoopConfig sampleHarnessEnv ts) (ls_context s) (ls_run s) =
      (sampleStop, ctx, r)" "calm (r_world r)" by blast
  let ?r = "emit samplePs (TurnEnd (assistant_msg sampleStop) []) r"
  from calm_nextTurn [OF calm_emit [OF resp(2)]] obtain u h' where
    upd: "attempt None (prepareNextTurn sampleHarnessEnv) (r_world ?r) = (Some u, h')" "calm h'" by blast
  have plain: "am_stopReason sampleStop = SR_stop" "toolCallsOf (am_content sampleStop) = []"
    by (simp_all add: sampleStop_def sampleAssistant_def sampleText_def)
  obtain ctx4 cfg' where up: "applyTurnUpdate (Some u) ctx (createLoopConfig sampleHarnessEnv ts) = (ctx4, cfg')"
    by fastforce
  then have cfg': "cfg_shouldStopAfterTurn cfg' = None"
    "cfg_getSteeringMessages cfg' = Some (attempt [] (drainSteering sampleHarnessEnv))"
    "cfg_getFollowUpMessages cfg' = Some (attempt [] (drainFollowUp sampleHarnessEnv))"
    by (auto simp: applyTurnUpdate_def createLoopConfig_def)
  have p: "cfg_prepareNextTurn (createLoopConfig sampleHarnessEnv ts) =
      Some (\<lambda>_. attempt None (prepareNextTurn sampleHarnessEnv))"
    by (simp add: createLoopConfig_def)
  have ctx: "ac_messages_update (\<lambda>_. ac_messages c @ []) c = c" for c :: "(mem_storage, nat) harness agent_context"
    by simp
  show ?thesis
    using assms(3,4) resp(1) upd up
    by (simp add: turn_def Let_def cfg p plain cfg' runToolCalls_def injectPending_def callHook_def pollQueue_def
        split: prod.split)
qed

lemma calm_run:
  assumes "calm w"
  shows "\<exists>r. turnLoopN 2 samplePs (runState samplePs ms ctx (createLoopConfig sampleHarnessEnv ts) w) =
    Some (ms @ [assistant_msg sampleStop], r) \<and> calm (r_world r)"
proof -
  let ?r = "injectPending samplePs ms (emits samplePs [AgentStart, TurnStart] (startRun w))"
  let ?s = "runState samplePs ms ctx (createLoopConfig sampleHarnessEnv ts) w"
  have r: "calm (r_world ?r)" using assms by (simp add: injectPending_def startRun_def)
  have poll: "cfg_getSteeringMessages (createLoopConfig sampleHarnessEnv ts) =
      Some (attempt [] (drainSteering sampleHarnessEnv))" by (simp add: createLoopConfig_def)
  have s: "calm (r_world (ls_run ?s))" "ls_config ?s = createLoopConfig sampleHarnessEnv ts" "ls_pending ?s = []"
    "ls_firstTurn ?s" "ls_hasMoreToolCalls ?s" "ls_newMessages ?s = ms"
    using r by (simp_all add: runState_def poll pollQueue_def callHook_def)
  from calm_turn [OF s(1-4)] obtain s' where s': "turn samplePs ?s = Continue s'" "calm (r_world (ls_run s'))"
    "ls_pending s' = []" "\<not> ls_hasMoreToolCalls s'" "ls_newMessages s' = ms @ [assistant_msg sampleStop]"
    "cfg_getFollowUpMessages (ls_config s') = Some (attempt [] (drainFollowUp sampleHarnessEnv))"
    unfolding s(6) by blast
  show ?thesis
    using s s' by (simp add: numeral_2_eq_2 pollQueue_def callHook_def)
qed

lemma sample_answers: "answers 2 sampleHarnessEnv (js ''hi'') None sampleHarness"
proof -
  have inv: "memInv sampleSource (hs_session sampleHarness)"
    using sampleStore_inv by (simp add: sampleHarness_def)
  from calm_turnState [of "sampleHarness\<lparr>hs_phase := Ph_turn, hs_running := True\<rparr>"] inv obtain ts where
    ts: "createTurnState sampleHarnessEnv (sampleHarness\<lparr>hs_phase := Ph_turn, hs_running := True\<rparr>) =
      (Inr ts, sampleHarness\<lparr>hs_phase := Ph_turn, hs_running := True\<rparr>)" by auto
  have q: "hs_nextTurnQueue sampleHarness = [samplePrompt]" by (simp add: sampleHarness_def)
  let ?ms = "[samplePrompt, createUserMessage sampleHarnessEnv (js ''hi'') []
    (sampleHarness\<lparr>hs_phase := Ph_turn, hs_running := True\<rparr>)]"
  let ?w = "sampleHarness\<lparr>hs_phase := Ph_turn, hs_running := True, hs_env := 1,
    hs_nextTurnQueue := [samplePrompt], hs_aborted := Some False, hs_turn := Some ts, hs_thrown := None\<rparr>"
  have "calm ?w" using inv by (simp add: calm_def sampleHarness_def)
  from calm_run [OF this, of ?ms "createContext sampleHarnessEnv ts None" ts] obtain r where
    r: "turnLoopN 2 samplePs (runState samplePs ?ms (createContext sampleHarnessEnv ts None)
      (createLoopConfig sampleHarnessEnv ts) ?w) = Some (?ms @ [assistant_msg sampleStop], r)" "calm (r_world r)" by blast
  have "hs_env sampleHarness = 0" by (simp add: sampleHarness_def)
  moreover have "hs_thrown (r_world r) = None" using r(2) by (simp add: calm_def)
  ultimately show ?thesis using ts q r
    by (simp add: answers_def takeNextTurn_def emitQueueUpdate_def finishTurn_def answerOf_def lastAssistant_def
        List.map_filter_simps)
qed

end
