(* ===== verification/HarnessProps.thy ===== *)
theory HarnessProps
  imports HarnessSamples
begin

text \<open>
  The properties of the agent harness: what a prompt stores, the order of pending writes,
  the tools it works with, and messages that a failing hook loses. The storage is the
  in-memory one, whose messages are those of its message entries.
\<close>

section \<open>The in-memory storage as a message log\<close>

definition memMessages :: "mem_storage \<Rightarrow> agent_message list" where
  "memMessages s = concat (map (\<lambda>e. messagesOf (en_body e)) (ms_entries s))"

lemma memCreateEntryId_entries: "memCreateEntryId src s = (i, s') \<Longrightarrow> ms_entries s' = ms_entries s"
  by (auto simp: memCreateEntryId_def split: prod.splits)

lemma memSetLeafId_messages: "memSetLeafId src l s = (r, s') \<Longrightarrow> memMessages s' = memMessages s"
  by (auto simp: memSetLeafId_def memMessages_def Let_def memCreateEntryId_entries split: if_splits prod.splits)

interpretation memlog: message_log "memoryStorageOps src" memMessages
  by unfold_locales
    (auto simp: memoryStorageOps_def memAppendEntry_def memMessages_def memCreateEntryId_entries
      memSetLeafId_messages [unfolded memMessages_def])

section \<open>Prompts\<close>

lemma prompt_stores:
  assumes fits: "fits (memoryStorageOps src) memMessages H" and wf: "wfPorts (harnessPorts H)"
    and idle: "hs_phase h = Ph_idle" and run: "promptWith H ask images h = Some (res, h')"
  shows "hs_phase h' = Ph_idle \<and> \<not> hs_running h' \<and>
    (\<exists>added. memMessages (hs_session h') = memMessages (hs_session h) @ added \<and>
       (isl res \<or> (\<exists>ts t h1. ask ts = Inr t \<and> answered (createUserMessage H t (orDefault images []) h1) res added)))"
proof -
  obtain q h1 where c: "createTurnState H (h\<lparr>hs_phase := Ph_turn, hs_running := True\<rparr>) = (q, h1)" by fastforce
  from mindsD [OF minds_createTurnState [OF fits] c] obtain a1 where
    a1: "memMessages (hs_session h1) = memMessages (hs_session h) @ a1" by (auto simp: extends_def prefix_def)
  note run = run [unfolded promptWith_def, simplified idle Let_def c]
  show ?thesis
  proof (cases q)
    case (Inl e)
    with run a1 show ?thesis by (auto split: thrown.splits)
  next
    case (Inr ts)
    show ?thesis
    proof (cases "ask ts")
      case (Inl e)
      with run a1 Inr show ?thesis by auto
    next
      case t: (Inr t)
      from run Inr t obtain p where x: "executeTurn H ts t images h1 = Some p"
        by (cases "executeTurn H ts t images h1") auto
      obtain res2 h2 where p: "p = (res2, h2)" by fastforce
      note x = x [unfolded p]
      have out: "(res, h') = (case res2 of
          Inl e \<Rightarrow> (Inl (normalizeHarnessError HC_unknown e), h2\<lparr>hs_phase := Ph_idle, hs_running := False\<rparr>)
        | Inr m \<Rightarrow> (Inr m, h2\<lparr>hs_running := False\<rparr>))" using run Inr t x by simp
      from memlog.executeTurn_stores [OF fits wf x] obtain a2 where
        a2: "memMessages (hs_session h2) = memMessages (hs_session h1) @ a2" and
        ans: "isl res2 \<or> hs_phase h2 = Ph_idle \<and> answered (createUserMessage H t (orDefault images []) h1) res2 a2"
        by (elim exE conjE) (rule that)
      show ?thesis
      proof (cases res2)
        case (Inl e)
        with out a1 a2 show ?thesis by auto
      next
        case m: (Inr m)
        with ans have ph: "hs_phase h2 = Ph_idle" and
          ans: "answered (createUserMessage H t (orDefault images []) h1) (Inr m) a2" by simp_all
        from ans have "answered (createUserMessage H t (orDefault images []) h1) (Inr m) (a1 @ a2)"
          unfolding answered_def by (blast intro: list_emb_append2)
        with out m a1 a2 ph t show ?thesis by auto
      qed
    qed
  qed
qed


lemma fits_sample: "fits (memoryStorageOps sampleSource) memMessages sampleHarnessEnv"
  by (simp add: fits_def mindful_def) (simp add: sampleHarnessEnv_def minds_def extends_def)


section \<open>Pending writes\<close>

text \<open>A flush makes the pending writes in their order. A write that fails stays at the head of the
  queue with those behind it, so no write is lost, made twice or overtaken, and the flush
  reports an error exactly when some are left.\<close>

theorem writes_reach_session_in_order:
  assumes "hv_ops H = memoryStorageOps src" and "flushPendingSessionWrites H h = (r, h')"
  shows "\<exists>done. hs_pendingWrites h = done @ hs_pendingWrites h' \<and>
    memMessages (hs_session h') = memMessages (hs_session h) @ concat (map messagesOf done) \<and>
    (isl r \<longleftrightarrow> hs_pendingWrites h' \<noteq> []) \<and>
    h' = h\<lparr>hs_pendingWrites := hs_pendingWrites h', hs_session := hs_session h'\<rparr>"
  by (rule memlog.flush_spec [OF assms])

text \<open>The second write fails, so the third waits behind it.\<close>

definition waitingHarness :: "(mem_storage, nat) harness" where
  "waitingHarness = sampleHarness\<lparr>hs_pendingWrites :=
     [E_message samplePrompt, E_leaf (Some (js ''none'')), E_message sampleUser]\<rparr>"

lemma waiting_flush:
  "hs_pendingWrites (snd (flushPendingSessionWrites sampleHarnessEnv waitingHarness)) =
     [E_leaf (Some (js ''none'')), E_message sampleUser]"
  by code_simp

theorem writes_reach_session_in_order_witness:
  "\<exists>r h'. flushPendingSessionWrites sampleHarnessEnv waitingHarness = (r, h') \<and>
     memMessages (hs_session h') = [samplePrompt] \<and>
     hs_pendingWrites h' = [E_leaf (Some (js ''none'')), E_message sampleUser]"
proof -
  obtain r h' where f: "flushPendingSessionWrites sampleHarnessEnv waitingHarness = (r, h')" by fastforce
  have w: "hs_pendingWrites waitingHarness = [E_message samplePrompt, E_leaf (Some (js ''none'')), E_message sampleUser]"
    "memMessages (hs_session waitingHarness) = []"
    by (simp_all add: waitingHarness_def sampleHarness_def sampleStore_def newMemStorage_def memMessages_def)
  have p: "hs_pendingWrites h' = [E_leaf (Some (js ''none'')), E_message sampleUser]"
    using waiting_flush f by simp
  have "hv_ops sampleHarnessEnv = memoryStorageOps sampleSource" by simp
  from writes_reach_session_in_order [OF this f] w p have "memMessages (hs_session h') = [samplePrompt]" by auto
  with p f show ?thesis by blast
qed

section \<open>Tools\<close>

lemma duplicatesIn_Nil: "duplicatesIn ns seen dups = [] \<longleftrightarrow> dups = [] \<and> distinct ns \<and> set ns \<inter> set seen = {}"
proof (induction ns seen dups rule: duplicatesIn.induct)
  case (2 n ns seen dups)
  have "setAdd n dups \<noteq> []" by (metis set_setAdd empty_set insert_not_empty)
  with 2 show ?case by auto
qed auto

lemma findDuplicateNames_Nil: "findDuplicateNames ns = [] \<longleftrightarrow> distinct ns"
  by (simp add: findDuplicateNames_def duplicatesIn_Nil)

text \<open>The tools have different names, the active ones are among them, and each is active once.\<close>

definition toolsOk :: "('s, 'x) harness_env \<Rightarrow> ('s, 'x) harness \<Rightarrow> bool" where
  "toolsOk H h \<longleftrightarrow> distinct (toolNames H (hs_tools h)) \<and> distinct (hs_activeToolNames h) \<and>
     set (hs_activeToolNames h) \<subseteq> set (toolNames H (hs_tools h))"

lemma validateUniqueNames_ok: "validateUniqueNames ns m = Inr u \<longleftrightarrow> distinct ns"
  by (auto simp: validateUniqueNames_def findDuplicateNames_Nil)

lemma validateToolNames_ok: "validateToolNames ns known = Inr u \<longleftrightarrow> distinct ns \<and> set ns \<subseteq> set known"
  by (cases "distinct ns")
    (auto simp: validateToolNames_def validateUniqueNames_def findDuplicateNames_Nil filter_empty_conv)

text \<open>Listeners that may do anything but change the tools.\<close>

definition keepsTools :: "(('s, 'x) harness \<Rightarrow> 'a \<times> ('s, 'x) harness) \<Rightarrow> bool" where
  "keepsTools f \<longleftrightarrow> (\<forall>h. hs_tools (snd (f h)) = hs_tools h \<and> hs_activeToolNames (snd (f h)) = hs_activeToolNames h)"

lemma keepsTools_notify: "list_all (\<lambda>l. \<forall>e. keepsTools (l e)) ls \<Longrightarrow> keepsTools (notifyListeners ls e)"
proof (induction ls)
  case (Cons l ls)
  then have l: "keepsTools (l e)" and ls: "keepsTools (notifyListeners ls e)" by simp_all
  show ?case
    unfolding keepsTools_def
  proof
    fix h
    obtain r h1 where h1: "l e h = (r, h1)" by fastforce
    with l have "hs_tools h1 = hs_tools h \<and> hs_activeToolNames h1 = hs_activeToolNames h"
      unfolding keepsTools_def by (metis snd_conv)
    with ls h1 show "hs_tools (snd (notifyListeners (l # ls) e h)) = hs_tools h \<and>
        hs_activeToolNames (snd (notifyListeners (l # ls) e h)) = hs_activeToolNames h"
      by (cases r) (simp_all add: keepsTools_def)
  qed
qed (simp add: keepsTools_def)

lemma writeOrDefer_tools:
  "writeOrDefer H now later h = (r, h') \<Longrightarrow> hs_tools h' = hs_tools h \<and> hs_activeToolNames h' = hs_activeToolNames h"
  by (auto simp: writeOrDefer_def ofSession_def split: if_splits prod.splits)

lemma applyTools_ok:
  assumes ls: "list_all (\<lambda>l. \<forall>e. keepsTools (l e)) (hv_listeners H)"
    and ok: "toolsOk H h" "distinct (toolNames H tools)" "distinct active" "set active \<subseteq> set (toolNames H tools)"
  shows "toolsOk H (snd (applyTools H tools active h))"
proof -
  obtain r h1 where w: "writeOrDefer H (appendActiveToolsChange (hv_ops H) active) (E_activeToolsChange active) h = (r, h1)"
    by fastforce
  note kept = writeOrDefer_tools [OF w]
  have "keepsTools (emitOwn H e)" for e
    unfolding emitOwn_def [abs_def] by (rule keepsTools_notify [OF ls])
  with w kept ok show ?thesis
    by (cases r) (simp_all add: applyTools_def keepsTools_def toolsOk_def)
qed

lemma toolsOk_active:
  assumes "toolsOk H h"
  shows "list_all (\<lambda>t. t \<noteq> None) (getActiveTools H h)"
proof -
  have "toolNamed H h n \<noteq> None" if "n \<in> set (hs_activeToolNames h)" for n
    using assms that by (auto simp: toolsOk_def toolNamed_def toolNames_def find_None_iff)
  then show ?thesis by (auto simp: getActiveTools_def list_all_iff)
qed

text \<open>C11: The tools of a harness have different names and the active ones are among them, once each: the
  constructor gives such a state or an error, and the setters keep it, whatever the listeners
  do apart from the tools. So every active tool can be looked up.\<close>

theorem tools_stay_valid:
  assumes "list_all (\<lambda>l. \<forall>e. keepsTools (l e)) (hv_listeners H)"
  shows "(case createHarness H opts x of Inl t \<Rightarrow> True | Inr h \<Rightarrow> toolsOk H h) \<and>
    (toolsOk H h \<longrightarrow> toolsOk H (snd (setTools H tools active h)) \<and> toolsOk H (snd (setActiveTools H names h)) \<and>
       list_all (\<lambda>t. t \<noteq> None) (getActiveTools H h))"
proof (intro conjI impI)
  show "case createHarness H opts x of Inl t \<Rightarrow> True | Inr h \<Rightarrow> toolsOk H h"
    by (auto simp: createHarness_def Let_def toolsOk_def validateUniqueNames_ok validateToolNames_ok
        split: sum.splits)
  assume ok: "toolsOk H h"
  show "toolsOk H (snd (setTools H tools active h))"
    using ok applyTools_ok [OF assms ok, of tools "orDefault active (hs_activeToolNames h)"]
    by (auto simp: setTools_def Let_def normalized_def validateUniqueNames_ok validateToolNames_ok
        split: sum.splits prod.splits)
  have "distinct (toolNames H (hs_tools h))" using ok by (simp add: toolsOk_def)
  then show "toolsOk H (snd (setActiveTools H names h))"
    using ok applyTools_ok [OF assms ok, of "hs_tools h" names]
    by (auto simp: setActiveTools_def normalized_def validateToolNames_ok split: sum.splits prod.splits)
  show "list_all (\<lambda>t. t \<noteq> None) (getActiveTools H h)" by (rule toolsOk_active [OF ok])
qed

theorem tools_stay_valid_witness:
  "toolsOk sampleHarnessEnv (snd (setActiveTools sampleHarnessEnv [js ''nope''] sampleHarness)) \<and>
   list_all (\<lambda>t. t \<noteq> None) (getActiveTools sampleHarnessEnv sampleHarness)"
proof -
  have ls: "list_all (\<lambda>l. \<forall>e. keepsTools (l e)) (hv_listeners sampleHarnessEnv)"
    by (simp add: sampleHarnessEnv_def keepsTools_def)
  have ok: "toolsOk sampleHarnessEnv sampleHarness"
    by (simp add: toolsOk_def toolNames_def sampleHarness_def sampleHarnessEnv_def)
  from tools_stay_valid [OF ls] ok show ?thesis by blast
qed

section \<open>Messages for the next turn\<close>

text \<open>When a hook that runs before the agent starts throws, the prompt fails, and the messages queued
  for the next turn are gone, although they were neither sent nor stored.\<close>

theorem next_turn_lost:
  assumes "hv_listeners H = []" and "hv_beforeAgentStart H = [\<lambda>e h. (Inl (ThrownOther m), h)]"
  shows "executeTurn H ts t images h =
    Some (Inl (harnessError HC_hook m), h\<lparr>hs_nextTurnQueue := []\<rparr>)"
  using assms
  by (simp add: executeTurn_def takeNextTurn_def emitQueueUpdate_def emitOwn_def normalizeHookError_def Let_def)

theorem next_turn_lost_witness:
  "\<exists>H ts. hs_nextTurnQueue sampleHarness = [samplePrompt] \<and>
     executeTurn H ts (js ''hi'') None sampleHarness =
       Some (Inl (harnessError HC_hook (js ''no'')), sampleHarness\<lparr>hs_nextTurnQueue := []\<rparr>)"
proof -
  let ?H = "sampleHarnessEnv\<lparr>hv_listeners := [], hv_beforeAgentStart := [\<lambda>e h. (Inl (ThrownOther (js ''no'')), h)]\<rparr>"
  have "hs_nextTurnQueue sampleHarness = [samplePrompt]" by (simp add: sampleHarness_def)
  with next_turn_lost [of ?H "js ''no''" ts "js ''hi''" None sampleHarness] show ?thesis by auto
qed

end
