(* ===== verification/HarnessTreeProps.thy ===== *)
theory HarnessTreeProps
  imports HarnessSamples BranchSummaryProps
begin

text \<open>
  Navigation of the agent harness over the in-memory storage: where the leaf goes, and that
  no entry is lost; the writes that a compaction leaves waiting.
\<close>

section \<open>Navigation\<close>

lemma collect_ok:
  assumes inv: "memInv src s" and old: "old = None \<or> ms_byId s (the old) \<noteq> None"
    and target: "ms_byId s target = Some f"
  shows "\<exists>c. collectEntriesForBranchSummary (memoryStorageOps src) old target s = Some (Inr c)"
proof (cases old)
  case None
  then show ?thesis by (simp add: collectEntriesForBranchSummary_def truthyStr_def)
next
  case (Some i)
  with old obtain e where e: "ms_byId s i = Some e" by auto
  obtain ps qs where "rootPath (ms_byId s) e ps" "rootPath (ms_byId s) f qs"
    using rootPath_entry [OF inv e] rootPath_entry [OF inv target] by blast
  from collect_paths [OF inv e target this refl] Some show ?thesis by auto
qed

definition quiet :: "(harness_event \<Rightarrow> ('s, 'x, unit) call) \<Rightarrow> bool" where
  "quiet l \<longleftrightarrow> (\<forall>e h. fst (l e h) = Inr () \<and> hs_session (snd (l e h)) = hs_session h)"

lemma quiet_notify:
  "list_all quiet ls \<Longrightarrow> \<exists>h'. notifyListeners ls e h = (Inr (), h') \<and> hs_session h' = hs_session h"
proof (induction ls arbitrary: h)
  case (Cons l ls)
  from Cons.prems have "fst (l e h) = Inr ()" "hs_session (snd (l e h)) = hs_session h" by (simp_all add: quiet_def)
  then obtain h1 where h1: "l e h = (Inr (), h1)" "hs_session h1 = hs_session h" by (cases "l e h") auto
  with Cons.IH [of h1] Cons.prems show ?case by auto
qed simp

text \<open>The leaf that a target stands for exists.\<close>

lemma navigateTarget_known:
  assumes inv: "memInv src s" and e: "ms_byId s i = Some e"
  shows "fst (navigateTarget e) = None \<or> ms_byId s (the (fst (navigateTarget e))) \<noteq> None"
proof -
  have mem: "e \<in> set (ms_entries s)" "en_id e = i" using inv e unfolding memInv_def by blast+
  then obtain k where k: "k < length (ms_entries s)" "e = ms_entries s ! k" by (metis in_set_conv_nth)
  have par: "ms_byId s p \<noteq> None" if "en_parentId e = Some p" for p
  proof -
    from inv k that obtain j where j: "j < k" "en_id (ms_entries s ! j) = p" unfolding memInv_def by blast
    with k have "ms_entries s ! j \<in> set (ms_entries s)" by simp
    with inv j have "ms_byId s p = Some (ms_entries s ! j)" unfolding memInv_def by blast
    then show ?thesis by simp
  qed
  have "fst (navigateTarget e) = en_parentId e \<or> fst (navigateTarget e) = Some (en_id e)"
    by (auto simp: navigateTarget_def split: entry_body.splits agent_message.splits message.splits)
  with par e mem show ?thesis by (cases "en_parentId e") auto
qed

text \<open>Navigating to another entry without a summary always succeeds: the harness is idle afterwards,
  no entry is lost, and the leaf is the target, or the parent of a user's message, whose
  text goes back to the editor.\<close>

theorem navigation_moves_leaf:
  assumes "hv_ops H = memoryStorageOps src" and "hv_beforeTree H = []" and "list_all quiet (hv_listeners H)"
    and "memInv src (hs_session h)" and "hs_phase h = Ph_idle" and "no_summarize opts \<noteq> Some True"
    and "ms_byId (hs_session h) target = Some e" and "ms_leafId (hs_session h) \<noteq> Some target"
  shows "\<exists>h'. navigateTree H target opts h =
      Some (Inr \<lparr>nr_cancelled = False, nr_editorText = snd (navigateTarget e), nr_summaryEntry = None\<rparr>, h') \<and>
    hs_phase h' = Ph_idle \<and> memInv src (hs_session h') \<and>
    memGetLeafId (hs_session h') = Inr (fst (navigateTarget e)) \<and>
    (\<forall>j x. ms_byId (hs_session h) j = Some x \<longrightarrow> ms_byId (hs_session h') j = Some x)"
proof -
  let ?S = "memoryStorageOps src" and ?s = "hs_session h" and ?leaf = "fst (navigateTarget e)"
  have leaf: "memGetLeafId ?s = Inr (ms_leafId ?s)" "ms_leafId ?s = None \<or> ms_byId ?s (the (ms_leafId ?s)) \<noteq> None"
    using assms(4) by (auto simp: memGetLeafId_def memInv_def split: option.splits)
  from collect_ok [OF assms(4) leaf(2) assms(7)] obtain c where
    c: "collectEntriesForBranchSummary ?S (ms_leafId ?s) target ?s = Some (Inr c)" by blast
  note known = navigateTarget_known [OF assms(4,7)]
  from mem.move [OF assms(4), of ?leaf] known obtain s' where
    s': "memSetLeafId src ?leaf ?s = (Inr (), s')" "memInv src s'" "memGetLeafId s' = Inr ?leaf"
    "\<forall>j x. ms_byId ?s j = Some x \<longrightarrow> ms_byId s' j = Some x" by auto
  have guard: "\<not> (?leaf \<noteq> None \<and> ms_byId ?s (the ?leaf) = None)" using known by auto
  then have move: "moveTo ?S ?leaf None ?s = (Inr None, s')" using s'(1) by (auto simp: moveTo_def)
  let ?h = "h\<lparr>hs_phase := Ph_branch_summary, hs_session := s'\<rparr>"
  obtain h2 where h2: "notifyListeners (hv_listeners H) (SessionTree ?leaf (ms_leafId ?s) None False) ?h = (Inr (), h2)"
    "hs_session h2 = s'" using quiet_notify [OF assms(3), of _ ?h] by auto
  have fin: "finishNavigation H e (ms_leafId ?s) False (None, None, None) (h\<lparr>hs_phase := Ph_branch_summary\<rparr>) =
      (Inr \<lparr>nr_cancelled = False, nr_editorText = snd (navigateTarget e), nr_summaryEntry = None\<rparr>, h2)"
    using move h2(1) s'(3)
    by (cases "navigateTarget e") (simp add: finishNavigation_def assms(1) ofSession_def truthyStr_def emitOwn_def)
  have "navigateTree H target opts h =
      Some (Inr \<lparr>nr_cancelled = False, nr_editorText = snd (navigateTarget e), nr_summaryEntry = None\<rparr>,
        h2\<lparr>hs_phase := Ph_idle\<rparr>)"
    using assms(5,6,8) leaf(1) c fin
    by (simp add: navigateTree_def navigateBody_def assms(1,2,7) treeSummary_def truthyStr_def Let_def)
  with h2(2) s' show ?thesis by auto
qed

theorem navigation_moves_leaf_witness:
  "\<exists>h'. navigateTree sampleHarnessEnv (js ''bb'')
      \<lparr>no_summarize = None, no_customInstructions = None, no_replaceInstructions = None, no_label = None\<rparr>
      (sampleHarness\<lparr>hs_session := compactedStore None\<rparr>) =
    Some (Inr \<lparr>nr_cancelled = False, nr_editorText = Some (js ''hi''), nr_summaryEntry = None\<rparr>, h') \<and>
    memGetLeafId (hs_session h') = Inr (Some (js ''aa''))"
proof -
  let ?o = "\<lparr>no_summarize = None, no_customInstructions = None, no_replaceInstructions = None, no_label = None\<rparr>"
  let ?h = "sampleHarness\<lparr>hs_session := compactedStore None\<rparr>" and ?e = "compactedEntries None ! 1"
  have env: "hv_ops sampleHarnessEnv = memoryStorageOps sampleSource" "hv_beforeTree sampleHarnessEnv = []"
    "list_all quiet (hv_listeners sampleHarnessEnv)" "no_summarize ?o \<noteq> Some True"
    by (simp_all add: sampleHarnessEnv_def quiet_def)
  have e: "ms_byId (hs_session ?h) (js ''bb'') = Some ?e"
    using compacted_entry [of 1 "js ''bb''"] by (simp add: compactedEntries_def plainEntry_def)
  have h: "memInv sampleSource (hs_session ?h)" "hs_phase ?h = Ph_idle" "ms_leafId (hs_session ?h) \<noteq> Some (js ''bb'')"
    using compactedStore_inv by (simp_all add: sampleHarness_def compactedStore_def js_def)
  have "navigateTarget ?e = (Some (js ''aa''), Some (js ''hi''))"
    by (simp add: navigateTarget_def compactedEntries_def plainEntry_def sampleUser_def contentText_user_def)
  with navigation_moves_leaf [OF env(1-3) h(1,2) env(4) e h(3)] show ?thesis by auto
qed

end
