(* ===== verification/Truncate.thy ===== *)
theory Truncate
  imports Prelude
begin

text \<open>
  The truncation of tool output, packages/agent/src/harness/utils/truncate.ts. Sizes are the
  bytes of the UTF-8 encoding, in which a surrogate without its partner counts as the three
  bytes of the replacement character; \<open>Buffer.byteLength\<close> and the loop of the source agree on
  this. Limits may be any integers.
\<close>

section \<open>Sizes\<close>

definition isHigh :: "jchar \<Rightarrow> bool" where
  "isHigh c \<longleftrightarrow> 0xd800 \<le> c \<and> c \<le> 0xdbff"

definition isLow :: "jchar \<Rightarrow> bool" where
  "isLow c \<longleftrightarrow> 0xdc00 \<le> c \<and> c \<le> 0xdfff"

definition unitBytes :: "jchar \<Rightarrow> int" where
  "unitBytes c = (if c \<le> 0x7f then 1 else if c \<le> 0x7ff then 2 else 3)"

fun utf8ByteLength :: "jstr \<Rightarrow> int" where
  "utf8ByteLength [] = 0"
| "utf8ByteLength [c] = unitBytes c"
| "utf8ByteLength (c # d # s) =
     (if isHigh c \<and> isLow d then 4 + utf8ByteLength s else unitBytes c + utf8ByteLength (d # s))"

definition REPLACEMENT :: jchar where "REPLACEMENT = 0xfffd"

fun replaceUnpairedSurrogates :: "jstr \<Rightarrow> jstr" where
  "replaceUnpairedSurrogates [] = []"
| "replaceUnpairedSurrogates [c] = [if isHigh c \<or> isLow c then REPLACEMENT else c]"
| "replaceUnpairedSurrogates (c # d # s) =
     (if isHigh c \<and> isLow d then c # d # replaceUnpairedSurrogates s
      else (if isHigh c \<or> isLow c then REPLACEMENT else c) # replaceUnpairedSurrogates (d # s))"

section \<open>Results\<close>

datatype truncated_by = ByLines | ByBytes

record truncation_result =
  trn_content :: jstr
  trn_truncated :: bool
  trn_truncatedBy :: "truncated_by option"
  trn_totalLines :: nat
  trn_totalBytes :: int
  trn_outputLines :: nat
  trn_outputBytes :: int
  trn_lastLinePartial :: bool
  trn_firstLineExceedsLimit :: bool
  trn_maxLines :: int
  trn_maxBytes :: int

record truncation_options =
  to_maxLines :: "int option"
  to_maxBytes :: "int option"

definition DEFAULT_MAX_LINES :: int where "DEFAULT_MAX_LINES = 2000"
definition DEFAULT_MAX_BYTES :: int where "DEFAULT_MAX_BYTES = 50 * 1024"
definition GREP_MAX_LINE_LENGTH :: int where "GREP_MAX_LINE_LENGTH = 500"

definition untruncated :: "jstr \<Rightarrow> nat \<Rightarrow> int \<Rightarrow> int \<Rightarrow> int \<Rightarrow> truncation_result" where
  "untruncated content totalLines totalBytes maxLines maxBytes =
     \<lparr>trn_content = content, trn_truncated = False, trn_truncatedBy = None, trn_totalLines = totalLines,
      trn_totalBytes = totalBytes, trn_outputLines = totalLines, trn_outputBytes = totalBytes,
      trn_lastLinePartial = False, trn_firstLineExceedsLimit = False, trn_maxLines = maxLines, trn_maxBytes = maxBytes\<rparr>"

text \<open>The result for the lines kept; \<open>outputBytesCount\<close> is what the loop has counted.\<close>

definition truncatedTo ::
  "jstr list \<Rightarrow> int \<Rightarrow> truncated_by \<Rightarrow> bool \<Rightarrow> nat \<Rightarrow> int \<Rightarrow> int \<Rightarrow> int \<Rightarrow> truncation_result" where
  "truncatedTo kept outputBytesCount stoppedBy partialLine totalLines totalBytes maxLines maxBytes =
     \<lparr>trn_content = joinWith [10] kept, trn_truncated = True,
      trn_truncatedBy = Some (if int (length kept) \<ge> maxLines \<and> outputBytesCount \<le> maxBytes then ByLines else stoppedBy),
      trn_totalLines = totalLines, trn_totalBytes = totalBytes, trn_outputLines = length kept,
      trn_outputBytes = utf8ByteLength (joinWith [10] kept), trn_lastLinePartial = partialLine,
      trn_firstLineExceedsLimit = False, trn_maxLines = maxLines, trn_maxBytes = maxBytes\<rparr>"

section \<open>From the head\<close>

text \<open>The loop over the lines, with the lines kept and their bytes.\<close>

fun takeLines :: "int \<Rightarrow> int \<Rightarrow> jstr list \<Rightarrow> jstr list \<Rightarrow> int \<Rightarrow> jstr list \<times> int \<times> truncated_by" where
  "takeLines maxLines maxBytes [] kept bytes = (kept, bytes, ByLines)"
| "takeLines maxLines maxBytes (l # ls) kept bytes =
     (if int (length kept) < maxLines
      then (let lineBytes = utf8ByteLength l + (if kept \<noteq> [] then 1 else 0)
            in if bytes + lineBytes > maxBytes then (kept, bytes, ByBytes)
               else takeLines maxLines maxBytes ls (kept @ [l]) (bytes + lineBytes))
      else (kept, bytes, ByLines))"

definition truncateHead :: "jstr \<Rightarrow> truncation_options \<Rightarrow> truncation_result" where
  "truncateHead content opts =
     (let maxLines = orDefault (to_maxLines opts) DEFAULT_MAX_LINES;
          maxBytes = orDefault (to_maxBytes opts) DEFAULT_MAX_BYTES;
          totalBytes = utf8ByteLength content;
          lines = splitOn 10 content;
          totalLines = length lines
      in if int totalLines \<le> maxLines \<and> totalBytes \<le> maxBytes
         then untruncated content totalLines totalBytes maxLines maxBytes
         else if utf8ByteLength (hd lines) > maxBytes
         then \<lparr>trn_content = [], trn_truncated = True, trn_truncatedBy = Some ByBytes, trn_totalLines = totalLines,
               trn_totalBytes = totalBytes, trn_outputLines = 0, trn_outputBytes = 0, trn_lastLinePartial = False,
               trn_firstLineExceedsLimit = True, trn_maxLines = maxLines, trn_maxBytes = maxBytes\<rparr>
         else (case takeLines maxLines maxBytes lines [] 0 of
                 (kept, bytes, stoppedBy) \<Rightarrow>
                   truncatedTo kept bytes stoppedBy False totalLines totalBytes maxLines maxBytes))"

section \<open>From the tail\<close>

text \<open>The walk from the end: the text before the position in reverse, the bytes counted, the text
  behind the position and whether it needs a replacement.\<close>

fun walkFromEnd :: "int \<Rightarrow> jstr \<Rightarrow> int \<Rightarrow> jstr \<Rightarrow> bool \<Rightarrow> jstr \<times> bool" where
  "walkFromEnd maxBytes [] bytes out needs = (out, needs)"
| "walkFromEnd maxBytes [c] bytes out needs =
     (let n = (if isHigh c \<or> isLow c then 3 else unitBytes c)
      in if bytes + n > maxBytes then (out, needs) else (c # out, needs \<or> isHigh c \<or> isLow c))"
| "walkFromEnd maxBytes (c # d # s) bytes out needs =
     (if isLow c \<and> isHigh d
      then (if bytes + 4 > maxBytes then (out, needs) else walkFromEnd maxBytes s (bytes + 4) (d # c # out) needs)
      else (let n = (if isHigh c \<or> isLow c then 3 else unitBytes c)
            in if bytes + n > maxBytes then (out, needs)
               else walkFromEnd maxBytes (d # s) (bytes + n) (c # out) (needs \<or> isHigh c \<or> isLow c)))"

definition truncateStringToBytesFromEnd :: "jstr \<Rightarrow> int \<Rightarrow> jstr" where
  "truncateStringToBytesFromEnd s maxBytes =
     (if maxBytes \<le> 0 then []
      else (case walkFromEnd maxBytes (rev s) 0 [] False of
              (out, needs) \<Rightarrow> if needs then replaceUnpairedSurrogates out else out))"

text \<open>The loop backwards over the lines, given in reverse.\<close>

fun takeLastLines :: "int \<Rightarrow> int \<Rightarrow> jstr list \<Rightarrow> jstr list \<Rightarrow> int \<Rightarrow> jstr list \<times> int \<times> truncated_by \<times> bool" where
  "takeLastLines maxLines maxBytes [] kept bytes = (kept, bytes, ByLines, False)"
| "takeLastLines maxLines maxBytes (l # ls) kept bytes =
     (if int (length kept) < maxLines
      then (let lineBytes = utf8ByteLength l + (if kept \<noteq> [] then 1 else 0)
            in if bytes + lineBytes > maxBytes
               then (if kept = []
                     then (let t = truncateStringToBytesFromEnd l maxBytes
                           in ([t], utf8ByteLength t, ByBytes, True))
                     else (kept, bytes, ByBytes, False))
               else takeLastLines maxLines maxBytes ls (l # kept) (bytes + lineBytes))
      else (kept, bytes, ByLines, False))"

definition tailLines :: "jstr \<Rightarrow> jstr list" where
  "tailLines content =
     (let lines = splitOn 10 content in if length lines > 1 \<and> last lines = [] then butlast lines else lines)"

definition truncateTail :: "jstr \<Rightarrow> truncation_options \<Rightarrow> truncation_result" where
  "truncateTail content opts =
     (let maxLines = orDefault (to_maxLines opts) DEFAULT_MAX_LINES;
          maxBytes = orDefault (to_maxBytes opts) DEFAULT_MAX_BYTES;
          totalBytes = utf8ByteLength content;
          lines = tailLines content;
          totalLines = length lines
      in if int totalLines \<le> maxLines \<and> totalBytes \<le> maxBytes
         then untruncated content totalLines totalBytes maxLines maxBytes
         else (case takeLastLines maxLines maxBytes (rev lines) [] 0 of
                 (kept, bytes, stoppedBy, partialLine) \<Rightarrow>
                   truncatedTo kept bytes stoppedBy partialLine totalLines totalBytes maxLines maxBytes))"

definition truncateLine :: "jstr \<Rightarrow> int \<Rightarrow> jstr \<times> bool" where
  "truncateLine line maxChars =
     (if int (length line) \<le> maxChars then (line, False)
      else (slice 0 (if maxChars < 0 then nat (int (length line) + maxChars) else nat maxChars) line @
              js ''... [truncated]'', True))"

section \<open>Sizes as text\<close>

text \<open>\<open>(bytes / d).toFixed(1)\<close>, for a power of two \<open>d\<close>, by which the division is exact.\<close>

definition oneDecimal :: "nat \<Rightarrow> nat \<Rightarrow> jstr" where
  "oneDecimal bytes d =
     (let n = (20 * bytes + d) div (2 * d) in showNat (n div 10) @ js ''.'' @ showNat (n mod 10))"

definition formatSize :: "nat \<Rightarrow> jstr" where
  "formatSize bytes =
     (if bytes < 1024 then showNat bytes @ js ''B''
      else if bytes < 1024 * 1024 then oneDecimal bytes 1024 @ js ''KB''
      else oneDecimal bytes (1024 * 1024) @ js ''MB'')"

text \<open>
  The limits hold, and no more is cut than they ask for. The bytes of joined lines are the
  bytes of the lines and of the newlines between them, since no surrogate pair goes over a
  newline; the walk from the end counts what the loop from the start would.
\<close>

section \<open>Bytes\<close>

lemma utf8ByteLength_nonneg: "0 \<le> utf8ByteLength s"
  by (induction s rule: utf8ByteLength.induct) (auto simp: unitBytes_def)

lemma utf8ByteLength_Cons:
  "\<not> isHigh c \<or> s = [] \<or> \<not> isLow (hd s) \<Longrightarrow> utf8ByteLength (c # s) = unitBytes c + utf8ByteLength s"
  by (cases s) auto

lemma utf8ByteLength_split:
  "\<not> isLow c \<Longrightarrow> utf8ByteLength (a @ c # b) = utf8ByteLength a + utf8ByteLength (c # b)"
  by (induction a rule: utf8ByteLength.induct) (auto simp: utf8ByteLength_Cons)

lemma newline_unit: "\<not> isLow 10" "\<not> isHigh 10" "unitBytes 10 = 1"
  by (simp_all add: isLow_def isHigh_def unitBytes_def)

lemma utf8ByteLength_newline:
  "utf8ByteLength (a @ 10 # b) = utf8ByteLength a + 1 + utf8ByteLength b"
  by (simp add: utf8ByteLength_split newline_unit utf8ByteLength_Cons)

definition linesBytes :: "jstr list \<Rightarrow> int" where
  "linesBytes ls = utf8ByteLength (joinWith [10] ls)"

lemma linesBytes_Nil [simp]: "linesBytes [] = 0"
  by (simp add: linesBytes_def)

lemma linesBytes_Cons: "linesBytes (l # ls) = utf8ByteLength l + (if ls = [] then 0 else 1 + linesBytes ls)"
  by (cases ls) (simp_all add: linesBytes_def utf8ByteLength_newline)

lemma linesBytes_snoc: "linesBytes (ls @ [l]) = linesBytes ls + utf8ByteLength l + (if ls = [] then 0 else 1)"
proof (induction ls)
  case Nil
  then show ?case by (simp add: linesBytes_def)
next
  case (Cons k ls)
  then show ?case by (simp add: linesBytes_Cons [of k])
qed

lemma surrogate_bytes: "isHigh c \<or> isLow c \<Longrightarrow> unitBytes c = 3" "unitBytes REPLACEMENT = 3" "\<not> isHigh REPLACEMENT"
  by (auto simp: isHigh_def isLow_def unitBytes_def REPLACEMENT_def word_le_nat_alt)

lemma high_not_low: "isHigh c \<Longrightarrow> \<not> isLow c"
  by (auto simp: isHigh_def isLow_def word_le_nat_alt)

lemma replacement_bytes: "utf8ByteLength (replaceUnpairedSurrogates s) = utf8ByteLength s"
  by (induction s rule: replaceUnpairedSurrogates.induct) (auto simp: utf8ByteLength_Cons surrogate_bytes)

section \<open>From the head\<close>

lemma takeLines_spec:
  "takeLines L B ls kept b = (out, b', why) \<Longrightarrow> b = linesBytes kept \<Longrightarrow> b \<le> B \<Longrightarrow> int (length kept) \<le> max 0 L \<Longrightarrow>
   \<exists>k \<le> length ls. out = kept @ take k ls \<and> b' = linesBytes out \<and> b' \<le> B \<and> int (length out) \<le> max 0 L \<and>
     (k = length ls \<or> int (length out) \<ge> L \<or> linesBytes (out @ [ls ! k]) > B)"
proof (induction ls arbitrary: kept b)
  case (Cons l ls)
  let ?n = "utf8ByteLength l + (if kept \<noteq> [] then 1 else 0)"
  have snoc: "linesBytes (kept @ [l]) = linesBytes kept + ?n" by (simp add: linesBytes_snoc)
  show ?case
  proof (cases "int (length kept) < L \<and> \<not> b + ?n > B")
    case True
    then have run: "takeLines L B ls (kept @ [l]) (b + ?n) = (out, b', why)" using Cons.prems(1) by (simp add: Let_def)
    have "b + ?n = linesBytes (kept @ [l])" "b + ?n \<le> B" "int (length (kept @ [l])) \<le> max 0 L"
      using snoc Cons.prems(2) True by auto
    from Cons.IH [OF run this] obtain k where
      k: "k \<le> length ls" "out = (kept @ [l]) @ take k ls" "b' = linesBytes out" "b' \<le> B" "int (length out) \<le> max 0 L"
      "k = length ls \<or> int (length out) \<ge> L \<or> linesBytes (out @ [ls ! k]) > B" by blast
    then show ?thesis by (intro exI [of _ "Suc k"]) simp
  next
    case False
    with Cons.prems snoc have "out = kept" "b' = b" "int (length kept) \<ge> L \<or> linesBytes (kept @ [l]) > B"
      by (auto simp: Let_def split: if_splits)
    with Cons.prems show ?thesis by (intro exI [of _ 0]) auto
  qed
qed auto

section \<open>From the tail\<close>

lemma walkFromEnd_spec:
  "walkFromEnd B r b out needs = (out', needs') \<Longrightarrow> utf8ByteLength out = b \<Longrightarrow> b \<le> B \<Longrightarrow>
   (r \<noteq> [] \<and> isHigh (hd r) \<longrightarrow> out = [] \<or> \<not> isLow (hd out)) \<Longrightarrow>
   utf8ByteLength out' \<le> B \<and> suffix out' (rev r @ out)"
proof (induction B r b out needs rule: walkFromEnd.induct)
  case (2 B c b out needs)
  have "utf8ByteLength (c # out) = unitBytes c + utf8ByteLength out"
    using 2(4) by (auto simp: utf8ByteLength_Cons)
  with 2 show ?case by (auto simp: Let_def surrogate_bytes suffix_def split: if_splits)
next
  case (3 B c d s b out needs)
  show ?case
  proof (cases "isLow c \<and> isHigh d")
    case True
    have "utf8ByteLength (d # c # out) = 4 + utf8ByteLength out" using True by simp
    moreover have "\<not> isLow d" using True high_not_low by blast
    ultimately show ?thesis using 3 True by (auto simp: suffix_def split: if_splits)
  next
    case False
    let ?n = "if isHigh c \<or> isLow c then 3 else unitBytes c"
    have n: "?n = unitBytes c" by (simp add: surrogate_bytes)
    have "utf8ByteLength (c # out) = unitBytes c + utf8ByteLength out"
      using 3(6) by (auto simp: utf8ByteLength_Cons)
    moreover have "suffix out (rev s @ d # c # out)" by (auto simp: suffix_def)
    ultimately show ?thesis using 3 False n by (auto simp: Let_def split: if_splits)
  qed
qed (auto simp: suffix_def)

lemma truncateString_bytes: "0 \<le> B \<Longrightarrow> utf8ByteLength (truncateStringToBytesFromEnd s B) \<le> B"
proof -
  assume "0 \<le> B"
  obtain out needs where w: "walkFromEnd B (rev s) 0 [] False = (out, needs)" by fastforce
  from walkFromEnd_spec [OF w] \<open>0 \<le> B\<close> have "utf8ByteLength out \<le> B" by simp
  with w \<open>0 \<le> B\<close> show ?thesis by (auto simp: truncateStringToBytesFromEnd_def replacement_bytes)
qed

lemma takeLastLines_spec:
  "takeLastLines L B ls kept b = (out, b', why, p) \<Longrightarrow> b = linesBytes kept \<Longrightarrow> b \<le> B \<Longrightarrow> 0 \<le> B \<Longrightarrow>
   int (length kept) \<le> max 0 L \<Longrightarrow>
   linesBytes out \<le> B \<and> int (length out) \<le> max 0 L \<and>
   (p \<and> kept = [] \<and> ls \<noteq> [] \<and> out = [truncateStringToBytesFromEnd (hd ls) B] \<and> utf8ByteLength (hd ls) > B \<or>
    \<not> p \<and> (\<exists>k \<le> length ls. out = rev (take k ls) @ kept \<and>
       (k = length ls \<or> int (length out) \<ge> L \<or> linesBytes (ls ! k # out) > B)))"
proof (induction ls arbitrary: kept b)
  case (Cons l ls)
  let ?n = "utf8ByteLength l + (if kept \<noteq> [] then 1 else 0)"
  have snoc: "linesBytes (l # kept) = linesBytes kept + ?n" by (simp add: linesBytes_Cons)
  show ?case
  proof (cases "int (length kept) < L \<and> \<not> b + ?n > B")
    case True
    then have run: "takeLastLines L B ls (l # kept) (b + ?n) = (out, b', why, p)" using Cons.prems(1) by (simp add: Let_def)
    have "b + ?n = linesBytes (l # kept)" "b + ?n \<le> B" "int (length (l # kept)) \<le> max 0 L"
      using snoc Cons.prems(2) True by auto
    from Cons.IH [OF run this(1,2) Cons.prems(4) this(3)] have
      r: "linesBytes out \<le> B" "int (length out) \<le> max 0 L" "\<not> p" and
      "\<exists>k \<le> length ls. out = rev (take k ls) @ l # kept \<and>
       (k = length ls \<or> int (length out) \<ge> L \<or> linesBytes (ls ! k # out) > B)" by auto
    then obtain k where "k \<le> length ls" "out = rev (take k ls) @ l # kept"
      "k = length ls \<or> int (length out) \<ge> L \<or> linesBytes (ls ! k # out) > B" by blast
    then have "\<exists>k \<le> length (l # ls). out = rev (take k (l # ls)) @ kept \<and>
       (k = length (l # ls) \<or> int (length out) \<ge> L \<or> linesBytes ((l # ls) ! k # out) > B)"
      by (intro exI [of _ "Suc k"]) simp
    with r show ?thesis by blast
  next
    case False
    show ?thesis
    proof (cases "int (length kept) < L \<and> kept = []")
      case True
      with Cons.prems False show ?thesis
        using truncateString_bytes [OF Cons.prems(4), of l] by (auto simp: Let_def linesBytes_def)
    next
      case over: False
      with Cons.prems False snoc have "out = kept" "\<not> p" "int (length kept) \<ge> L \<or> linesBytes (l # kept) > B"
        by (auto simp: Let_def split: if_splits)
      moreover from this have "\<exists>k \<le> length (l # ls). out = rev (take k (l # ls)) @ kept \<and>
         (k = length (l # ls) \<or> int (length out) \<ge> L \<or> linesBytes ((l # ls) ! k # out) > B)"
        by (intro exI [of _ 0]) simp
      ultimately show ?thesis using Cons.prems by blast
    qed
  qed
qed auto

section \<open>Properties\<close>

definition lineLimit :: "truncation_options \<Rightarrow> int" where
  "lineLimit opts = orDefault (to_maxLines opts) DEFAULT_MAX_LINES"

definition byteLimit :: "truncation_options \<Rightarrow> int" where
  "byteLimit opts = orDefault (to_maxBytes opts) DEFAULT_MAX_BYTES"

definition withinLimits :: "truncation_options \<Rightarrow> truncation_result \<Rightarrow> bool" where
  "withinLimits opts r \<longleftrightarrow> trn_outputBytes r = utf8ByteLength (trn_content r) \<and>
     trn_outputBytes r \<le> byteLimit opts \<and> int (trn_outputLines r) \<le> lineLimit opts"

text \<open>The first \<open>k\<close> lines, and nothing less than what fits.\<close>

definition keepsFirst :: "truncation_options \<Rightarrow> jstr list \<Rightarrow> nat \<Rightarrow> truncation_result \<Rightarrow> bool" where
  "keepsFirst opts lines k r \<longleftrightarrow> k \<le> length lines \<and> trn_outputLines r = k \<and> trn_content r = joinWith [10] (take k lines) \<and>
     (k = length lines \<or> int k \<ge> lineLimit opts \<or> linesBytes (take (Suc k) lines) > byteLimit opts)"

definition keepsLast :: "truncation_options \<Rightarrow> jstr list \<Rightarrow> nat \<Rightarrow> truncation_result \<Rightarrow> bool" where
  "keepsLast opts lines k r \<longleftrightarrow> k \<le> length lines \<and> trn_outputLines r = k \<and>
     trn_content r = joinWith [10] (drop (length lines - k) lines) \<and>
     (k = length lines \<or> int k \<ge> lineLimit opts \<or> linesBytes (drop (length lines - Suc k) lines) > byteLimit opts)"

lemma truncateHead_spec:
  assumes L: "0 \<le> lineLimit opts" and B: "0 \<le> byteLimit opts"
  shows "withinLimits opts (truncateHead content opts) \<and>
    (\<exists>k. keepsFirst opts (splitOn 10 content) k (truncateHead content opts))"
proof -
  let ?ls = "splitOn 10 content" and ?r = "truncateHead content opts"
  have ne: "?ls \<noteq> []" by (rule splitOn_not_Nil)
  consider (all) "int (length ?ls) \<le> lineLimit opts \<and> utf8ByteLength content \<le> byteLimit opts"
    | (first) "\<not> (int (length ?ls) \<le> lineLimit opts \<and> utf8ByteLength content \<le> byteLimit opts)"
        "utf8ByteLength (hd ?ls) > byteLimit opts"
    | (some) "\<not> (int (length ?ls) \<le> lineLimit opts \<and> utf8ByteLength content \<le> byteLimit opts)"
        "\<not> utf8ByteLength (hd ?ls) > byteLimit opts" by blast
  then show ?thesis
  proof cases
    case all
    then have "?r = untruncated content (length ?ls) (utf8ByteLength content) (lineLimit opts) (byteLimit opts)"
      by (simp add: truncateHead_def lineLimit_def byteLimit_def Let_def)
    with all show ?thesis by (simp add: withinLimits_def keepsFirst_def untruncated_def)
  next
    case first
    then have "trn_content ?r = []" "trn_outputLines ?r = 0" "trn_outputBytes ?r = 0"
      by (auto simp: truncateHead_def lineLimit_def byteLimit_def Let_def)
    moreover have "take (Suc 0) ?ls = [hd ?ls]" using ne by (cases ?ls) simp_all
    ultimately show ?thesis using first(2) L B
      by (auto simp: withinLimits_def keepsFirst_def linesBytes_Cons)
  next
    case some
    obtain kept b why where t: "takeLines (lineLimit opts) (byteLimit opts) ?ls [] 0 = (kept, b, why)"
      by (metis prod.exhaust)
    have m: "max 0 (lineLimit opts) = lineLimit opts" using L by simp
    have "0 = linesBytes []" "int (length ([] :: jstr list)) \<le> max 0 (lineLimit opts)" by simp_all
    from takeLines_spec [OF t this(1) B this(2), unfolded m append_Nil] obtain k where
      k: "k \<le> length ?ls" "kept = take k ?ls" "b = linesBytes kept" "b \<le> byteLimit opts"
      "int (length kept) \<le> lineLimit opts"
      "k = length ?ls \<or> int (length kept) \<ge> lineLimit opts \<or> linesBytes (kept @ [?ls ! k]) > byteLimit opts"
      by blast
    have r: "?r = truncatedTo kept b why False (length ?ls) (utf8ByteLength content) (lineLimit opts) (byteLimit opts)"
      using some t by (auto simp: truncateHead_def lineLimit_def byteLimit_def Let_def)
    have "k < length ?ls \<Longrightarrow> kept @ [?ls ! k] = take (Suc k) ?ls" using k(2) by (simp add: take_Suc_conv_app_nth)
    then have "keepsFirst opts ?ls k ?r"
      using k unfolding keepsFirst_def r by (auto simp: truncatedTo_def)
    moreover have "withinLimits opts ?r"
      using k unfolding withinLimits_def r by (simp add: truncatedTo_def linesBytes_def)
    ultimately show ?thesis by blast
  qed
qed

lemma truncateTail_spec:
  assumes L: "0 \<le> lineLimit opts" and B: "0 \<le> byteLimit opts"
  shows "withinLimits opts (truncateTail content opts) \<and>
    (trn_content (truncateTail content opts) = content \<or>
     trn_lastLinePartial (truncateTail content opts) \<and>
       trn_content (truncateTail content opts) = truncateStringToBytesFromEnd (last (tailLines content)) (byteLimit opts) \<or>
     (\<exists>k. keepsLast opts (tailLines content) k (truncateTail content opts)))"
proof -
  let ?ls = "tailLines content" and ?r = "truncateTail content opts"
  have ne: "?ls \<noteq> []"
  proof -
    have "splitOn 10 content \<noteq> []" by (rule splitOn_not_Nil)
    moreover have "butlast ls \<noteq> []" if "Suc 0 < length ls" for ls :: "jstr list"
      using that by (cases ls) auto
    ultimately show ?thesis by (simp add: tailLines_def Let_def)
  qed
  show ?thesis
  proof (cases "int (length ?ls) \<le> lineLimit opts \<and> utf8ByteLength content \<le> byteLimit opts")
    case True
    then have "?r = untruncated content (length ?ls) (utf8ByteLength content) (lineLimit opts) (byteLimit opts)"
      by (simp add: truncateTail_def lineLimit_def byteLimit_def Let_def)
    with True show ?thesis by (simp add: withinLimits_def untruncated_def)
  next
    case False
    obtain kept b why p where t: "takeLastLines (lineLimit opts) (byteLimit opts) (rev ?ls) [] 0 = (kept, b, why, p)"
      by (metis prod.exhaust)
    have r: "?r = truncatedTo kept b why p (length ?ls) (utf8ByteLength content) (lineLimit opts) (byteLimit opts)"
      using False t by (auto simp: truncateTail_def lineLimit_def byteLimit_def Let_def)
    have m: "max 0 (lineLimit opts) = lineLimit opts" using L by simp
    have "0 = linesBytes []" "int (length ([] :: jstr list)) \<le> max 0 (lineLimit opts)" by simp_all
    from takeLastLines_spec [OF t this(1) B B this(2), unfolded m append_Nil2] have
      lim: "linesBytes kept \<le> byteLimit opts" "int (length kept) \<le> lineLimit opts" and
      parts: "p \<and> kept = [truncateStringToBytesFromEnd (hd (rev ?ls)) (byteLimit opts)] \<or>
       \<not> p \<and> (\<exists>k \<le> length ?ls. kept = rev (take k (rev ?ls)) \<and>
         (k = length ?ls \<or> int (length kept) \<ge> lineLimit opts \<or> linesBytes (rev ?ls ! k # kept) > byteLimit opts))"
      by (simp, simp, unfold length_rev, blast)
    have "withinLimits opts ?r"
      using lim unfolding withinLimits_def r by (simp add: truncatedTo_def linesBytes_def)
    moreover from parts have "trn_lastLinePartial ?r \<and>
        trn_content ?r = truncateStringToBytesFromEnd (last ?ls) (byteLimit opts) \<or> (\<exists>k. keepsLast opts ?ls k ?r)"
    proof
      assume "p \<and> kept = [truncateStringToBytesFromEnd (hd (rev ?ls)) (byteLimit opts)]"
      with ne show ?thesis unfolding r by (simp add: truncatedTo_def hd_rev)
    next
      assume "\<not> p \<and> (\<exists>k \<le> length ?ls. kept = rev (take k (rev ?ls)) \<and>
         (k = length ?ls \<or> int (length kept) \<ge> lineLimit opts \<or> linesBytes (rev ?ls ! k # kept) > byteLimit opts))"
      then obtain k where k: "k \<le> length ?ls" "kept = drop (length ?ls - k) ?ls"
        "k = length ?ls \<or> int k \<ge> lineLimit opts \<or> linesBytes (rev ?ls ! k # kept) > byteLimit opts"
        by (auto simp: rev_take)
      have "rev ?ls ! k # kept = drop (length ?ls - Suc k) ?ls" if "k < length ?ls"
        using that k(2) Cons_nth_drop_Suc [of "length ?ls - Suc k" ?ls] by (simp add: rev_nth Suc_diff_Suc)
      with k have "keepsLast opts ?ls k ?r"
        unfolding keepsLast_def r by (auto simp: truncatedTo_def)
      then show ?thesis by blast
    qed
    ultimately show ?thesis by blast
  qed
qed


definition sampleLimits :: truncation_options where
  "sampleLimits = \<lparr>to_maxLines = Some 2, to_maxBytes = Some 4\<rparr>"


text \<open>Truncation cuts at the ends of lines and keeps as many as fit. From the head it returns the
  first lines, from the tail the last ones, and another line would go over a limit; only when
  the last line alone is too long is it cut, to its end.\<close>

theorem truncation_keeps_what_fits:
  assumes "0 \<le> lineLimit opts" and "0 \<le> byteLimit opts"
  shows "(\<exists>k. keepsFirst opts (splitOn 10 content) k (truncateHead content opts)) \<and>
    (trn_content (truncateTail content opts) = content \<or>
     trn_lastLinePartial (truncateTail content opts) \<and>
       trn_content (truncateTail content opts) = truncateStringToBytesFromEnd (last (tailLines content)) (byteLimit opts) \<or>
     (\<exists>k. keepsLast opts (tailLines content) k (truncateTail content opts)))"
  using truncateHead_spec [OF assms] truncateTail_spec [OF assms] by blast

theorem truncation_keeps_what_fits_witness:
  "\<exists>k. keepsFirst sampleLimits [js ''ab'', js ''cd'', js ''e''] k (truncateHead (js ''ab'' @ 10 # js ''cd'' @ 10 # js ''e'') sampleLimits)"
proof -
  have "0 \<le> lineLimit sampleLimits" "0 \<le> byteLimit sampleLimits"
    by (simp_all add: lineLimit_def byteLimit_def sampleLimits_def)
  moreover have "splitOn 10 (js ''ab'' @ 10 # js ''cd'' @ 10 # js ''e'') = [js ''ab'', js ''cd'', js ''e'']"
    by (simp add: js_def)
  ultimately show ?thesis
    using truncation_keeps_what_fits [of sampleLimits "js ''ab'' @ 10 # js ''cd'' @ 10 # js ''e''"] by simp
qed

end
