(* ===== verification/ShellOutput.thy ===== *)
theory ShellOutput
  imports Truncate JsonlStorage
begin

text \<open>
  The capture of a shell command's output, packages/agent/src/harness/utils/shell-output.ts. The
  chunks of output and the steps of the chain of file writes happen in any order, which is
  the list of events of a run; a step starts only when the ones before have ended. The name
  of a temporary file depends on the number of file operations so far.
\<close>

section \<open>Errors and results\<close>

datatype execution_error_code =
  XE_aborted | XE_timeout | XE_shell_unavailable | XE_spawn_error | XE_callback_error | XE_unknown

record execution_error =
  xe_code :: execution_error_code
  xe_message :: jstr

record shell_capture_result =
  cr_output :: jstr
  cr_exitCode :: "int option"
  cr_cancelled :: bool
  cr_truncated :: bool
  cr_fullOutputPath :: "jstr option"

definition fileExecutionError :: "file_error \<Rightarrow> execution_error" where
  "fileExecutionError e = \<lparr>xe_code = XE_unknown, xe_message = fe_message e\<rparr>"

text \<open>A surrogate pair stands for a code point that is kept.\<close>

definition sanitizeBinaryOutput :: "jstr \<Rightarrow> jstr" where
  "sanitizeBinaryOutput s =
     filter (\<lambda>c. if c = 9 \<or> c = 10 \<or> c = 13 then True
                 else if c \<le> 0x1f then False
                 else if 0xfff9 \<le> c \<and> c \<le> 0xfffb then False else True) s"

definition cleanChunk :: "jstr \<Rightarrow> jstr" where
  "cleanChunk chunk = filter (\<lambda>c. c \<noteq> 13) (sanitizeBinaryOutput chunk)"

section \<open>State\<close>

datatype chain_step = CreateLog jstr | AppendLog jstr jstr

text \<open>\<open>sc_failed\<close> is the error that the chain has come to, if any.\<close>

record shell_capture =
  sc_chunks :: "jstr list"
  sc_outputBytes :: nat
  sc_totalBytes :: int
  sc_path :: "jstr option"
  sc_chain :: "chain_step list"
  sc_failed :: "execution_error option"
  sc_captureError :: "execution_error option"
  sc_files :: file_store

definition newCapture :: "file_store \<Rightarrow> shell_capture" where
  "newCapture files =
     \<lparr>sc_chunks = [], sc_outputBytes = 0, sc_totalBytes = 0, sc_path = None, sc_chain = [], sc_failed = None,
      sc_captureError = None, sc_files = files\<rparr>"

definition maxOutputBytes :: int where "maxOutputBytes = DEFAULT_MAX_BYTES * 2"

definition appendFullOutput :: "jstr \<Rightarrow> shell_capture \<Rightarrow> shell_capture" where
  "appendFullOutput t s =
     (if \<not> truthyStr (sc_path s) \<or> sc_captureError s \<noteq> None then s
      else s\<lparr>sc_chain := sc_chain s @ [AppendLog (the (sc_path s)) t]\<rparr>)"

definition ensureFullOutputFile :: "jstr \<Rightarrow> shell_capture \<Rightarrow> shell_capture" where
  "ensureFullOutputFile initialContent s =
     (if truthyStr (sc_path s) \<or> sc_captureError s \<noteq> None then s
      else s\<lparr>sc_chain := sc_chain s @ [CreateLog initialContent]\<rparr>)"

text \<open>The first chunks are dropped while there is too much output; the last one always stays.\<close>

fun trimChunks :: "nat \<Rightarrow> jstr list \<Rightarrow> nat \<times> jstr list" where
  "trimChunks n (c # d # cs) = (if int n > maxOutputBytes then trimChunks (n - length c) (d # cs) else (n, c # d # cs))"
| "trimChunks n cs = (n, cs)"

text \<open>\<open>callback\<close> is what the caller's callback throws for a text, if anything.\<close>

definition onChunk :: "(jstr \<Rightarrow> execution_error option) \<Rightarrow> jstr \<Rightarrow> shell_capture \<Rightarrow> shell_capture" where
  "onChunk callback chunk s =
     (let s1 = s\<lparr>sc_totalBytes := sc_totalBytes s + utf8ByteLength chunk\<rparr>;
          t = cleanChunk chunk;
          s2 = (if sc_totalBytes s1 > DEFAULT_MAX_BYTES \<and> \<not> truthyStr (sc_path s1)
                then ensureFullOutputFile (concat (sc_chunks s1) @ t) s1 else appendFullOutput t s1);
          (n, cs) = trimChunks (sc_outputBytes s2 + length t) (sc_chunks s2 @ [t]);
          s3 = s2\<lparr>sc_chunks := cs, sc_outputBytes := n\<rparr>
      in case callback t of None \<Rightarrow> s3 | Some e \<Rightarrow> s3\<lparr>sc_captureError := Some e\<rparr>)"

section \<open>The chain\<close>

definition createTempFile :: "(nat \<Rightarrow> jstr) \<Rightarrow> file_store \<Rightarrow> (file_error + jstr) \<times> file_store" where
  "createTempFile tempName w =
     (case nextOp w of
        (Some e, w1) \<Rightarrow> (Inl e, w1)
      | (None, w1) \<Rightarrow>
          (Inr (tempName (fst_ops w)), w1\<lparr>fst_content := (fst_content w)(tempName (fst_ops w) \<mapsto> [])\<rparr>))"

text \<open>One file operation of the chain. A created file gets its initial content next.\<close>

definition chainStep :: "(nat \<Rightarrow> jstr) \<Rightarrow> shell_capture \<Rightarrow> shell_capture" where
  "chainStep tempName s =
     (case sc_chain s of
        [] \<Rightarrow> s
      | st # rest \<Rightarrow>
          (if sc_failed s \<noteq> None then s\<lparr>sc_chain := rest\<rparr>
           else (case st of
                   CreateLog t \<Rightarrow>
                     (case createTempFile tempName (sc_files s) of
                        (Inl e, w) \<Rightarrow> s\<lparr>sc_chain := rest, sc_files := w, sc_failed := Some (fileExecutionError e)\<rparr>
                      | (Inr p, w) \<Rightarrow> s\<lparr>sc_chain := AppendLog p t # rest, sc_files := w, sc_path := Some p\<rparr>)
                 | AppendLog p t \<Rightarrow>
                     (case appendFile p t (sc_files s) of
                        (Inl e, w) \<Rightarrow> s\<lparr>sc_chain := rest, sc_files := w, sc_failed := Some (fileExecutionError e)\<rparr>
                      | (Inr _, w) \<Rightarrow> s\<lparr>sc_chain := rest, sc_files := w\<rparr>))))"

text \<open>Waiting for the chain; a step takes at most two operations.\<close>

definition awaitChain :: "(nat \<Rightarrow> jstr) \<Rightarrow> shell_capture \<Rightarrow> shell_capture" where
  "awaitChain tempName s = (chainStep tempName ^^ (2 * length (sc_chain s))) s"

section \<open>A command\<close>

datatype shell_event = Chunk jstr | ChainStep

definition shellEvent ::
  "(jstr \<Rightarrow> execution_error option) \<Rightarrow> (nat \<Rightarrow> jstr) \<Rightarrow> shell_event \<Rightarrow> shell_capture \<Rightarrow> shell_capture" where
  "shellEvent callback tempName e s =
     (case e of Chunk c \<Rightarrow> onChunk callback c s | ChainStep \<Rightarrow> chainStep tempName s)"

text \<open>What follows when the command has ended with an error or an exit code; \<open>aborted\<close> is the signal.\<close>

definition finishCapture ::
  "(nat \<Rightarrow> jstr) \<Rightarrow> execution_error + int \<Rightarrow> bool \<Rightarrow> shell_capture \<Rightarrow>
   (execution_error + shell_capture_result) \<times> shell_capture" where
  "finishCapture tempName result aborted s =
     (let tailOutput = concat (sc_chunks s);
          tr = truncateTail tailOutput \<lparr>to_maxLines = None, to_maxBytes = None\<rparr>;
          s1 = (if trn_truncated tr \<and> \<not> truthyStr (sc_path s) then ensureFullOutputFile tailOutput s else s);
          s2 = awaitChain tempName s1;
          captured = \<lparr>cr_output = (if trn_truncated tr then trn_content tr else tailOutput), cr_exitCode = None,
            cr_cancelled = True, cr_truncated = trn_truncated tr, cr_fullOutputPath = sc_path s2\<rparr>
      in (case sc_failed s2 of
            Some e \<Rightarrow> Inl e
          | None \<Rightarrow>
              (case sc_captureError s2 of
                 Some e \<Rightarrow> Inl e
               | None \<Rightarrow>
                   (case result of
                      Inl e \<Rightarrow> (if xe_code e = XE_aborted \<or> aborted then Inr captured else Inl e)
                    | Inr code \<Rightarrow>
                        Inr (captured\<lparr>cr_exitCode := (if aborted then None else Some code), cr_cancelled := aborted\<rparr>))),
          s2))"

definition executeShellWithCapture ::
  "(jstr \<Rightarrow> execution_error option) \<Rightarrow> (nat \<Rightarrow> jstr) \<Rightarrow> shell_event list \<Rightarrow> execution_error + int \<Rightarrow> bool \<Rightarrow>
   file_store \<Rightarrow> (execution_error + shell_capture_result) \<times> shell_capture" where
  "executeShellWithCapture callback tempName events result aborted files =
     finishCapture tempName result aborted (fold (shellEvent callback tempName) events (newCapture files))"

text \<open>
  The full output of a command. When the file writes keep up with the chunks, nothing is
  lost; when a chunk comes before the log file exists, a second file is made and what went
  to the first in the meantime is missing from it.
\<close>

section \<open>Working files\<close>

definition faultless :: "file_store \<Rightarrow> bool" where
  "faultless w \<longleftrightarrow> fst_fault w = (\<lambda>_. None)"

lemma appendFile_faultless:
  "faultless w \<Longrightarrow> \<exists>w'. appendFile p t w = (Inr (), w') \<and> faultless w' \<and>
     fst_ops w' = Suc (fst_ops w) \<and> fst_content w' = (fst_content w)(p \<mapsto> orDefault (fst_content w p) [] @ t)"
  by (simp add: faultless_def appendFile_def nextOp_def)

lemma createTempFile_faultless:
  "faultless w \<Longrightarrow> \<exists>w'. createTempFile tempName w = (Inr (tempName (fst_ops w)), w') \<and> faultless w' \<and>
     fst_ops w' = Suc (fst_ops w) \<and> fst_content w' = (fst_content w)(tempName (fst_ops w) \<mapsto> [])"
  by (simp add: faultless_def createTempFile_def nextOp_def)

lemma chainStep_empty: "sc_chain s = [] \<Longrightarrow> chainStep tempName s = s"
  by (simp add: chainStep_def)

lemma awaitChain_empty: "sc_chain s = [] \<Longrightarrow> awaitChain tempName s = s"
  by (simp add: awaitChain_def)

section \<open>Chunks one at a time\<close>

lemma utf8_length: "int (length s) \<le> utf8ByteLength s"
  by (induction s rule: utf8ByteLength.induct) (auto simp: unitBytes_def)

lemma cleanChunk_length: "length (cleanChunk c) \<le> length c"
  unfolding cleanChunk_def sanitizeBinaryOutput_def by (meson length_filter_le order_trans)

lemma trimChunks_small: "int n \<le> maxOutputBytes \<Longrightarrow> trimChunks n cs = (n, cs)"
  by (cases "(n, cs)" rule: trimChunks.cases) auto

text \<open>Everything is in the chunks, or in the file.\<close>

definition complete :: "jstr \<Rightarrow> shell_capture \<Rightarrow> bool" where
  "complete out s \<longleftrightarrow> sc_chain s = [] \<and> sc_failed s = None \<and> sc_captureError s = None \<and> faultless (sc_files s) \<and>
     (sc_path s = None \<and> concat (sc_chunks s) = out \<and> sc_outputBytes s = length out \<and>
        int (length out) \<le> sc_totalBytes s \<and> sc_totalBytes s \<le> DEFAULT_MAX_BYTES \<or>
      (\<exists>p. sc_path s = Some p \<and> p \<noteq> [] \<and> fst_content (sc_files s) p = Some out))"

lemma chainStep_create:
  assumes "faultless (sc_files s)" "sc_failed s = None" "sc_chain s = [CreateLog t]" "tempName (fst_ops (sc_files s)) \<noteq> []"
  shows "\<exists>p w. chainStep tempName (chainStep tempName s) = s\<lparr>sc_chain := [], sc_files := w, sc_path := Some p\<rparr> \<and>
    p \<noteq> [] \<and> faultless w \<and> fst_content w p = Some t"
proof -
  let ?p = "tempName (fst_ops (sc_files s))"
  from createTempFile_faultless [OF assms(1), of tempName] obtain w1 where
    w1: "createTempFile tempName (sc_files s) = (Inr ?p, w1)" "faultless w1"
    "fst_content w1 = (fst_content (sc_files s))(?p \<mapsto> [])" by blast
  from appendFile_faultless [OF w1(2), of ?p t] w1(3) obtain w2 where
    w2: "appendFile ?p t w1 = (Inr (), w2)" "faultless w2" "fst_content w2 ?p = Some t" by auto
  have one: "chainStep tempName s = s\<lparr>sc_chain := [AppendLog ?p t], sc_files := w1, sc_path := Some ?p\<rparr>"
    using assms(2,3) w1(1) by (simp add: chainStep_def)
  have "chainStep tempName (chainStep tempName s) = s\<lparr>sc_chain := [], sc_files := w2, sc_path := Some ?p\<rparr>"
    unfolding one using assms(2) w2(1) by (simp add: chainStep_def)
  with assms(4) w2 show ?thesis by blast
qed

lemma chainStep_append:
  assumes "faultless (sc_files s)" "sc_failed s = None" "sc_chain s = [AppendLog p t]" "fst_content (sc_files s) p = Some out"
  shows "\<exists>w. chainStep tempName (chainStep tempName s) = s\<lparr>sc_chain := [], sc_files := w\<rparr> \<and> faultless w \<and>
    fst_content w p = Some (out @ t)"
proof -
  from appendFile_faultless [OF assms(1), of p t] assms(4) obtain w where
    w: "appendFile p t (sc_files s) = (Inr (), w)" "faultless w" "fst_content w p = Some (out @ t)" by auto
  have one: "chainStep tempName s = s\<lparr>sc_chain := [], sc_files := w\<rparr>"
    using assms(2,3) w(1) by (simp add: chainStep_def)
  have "chainStep tempName (chainStep tempName s) = s\<lparr>sc_chain := [], sc_files := w\<rparr>"
    unfolding one by (rule chainStep_empty) simp
  with w show ?thesis by blast
qed

lemma complete_chunk:
  assumes names: "\<And>n. tempName n \<noteq> []" and c: "complete out s"
  shows "complete (out @ cleanChunk chunk) (chainStep tempName (chainStep tempName (onChunk (\<lambda>_. None) chunk s)))"
proof -
  let ?t = "cleanChunk chunk" and ?total = "sc_totalBytes s + utf8ByteLength chunk"
  from c have base: "sc_chain s = []" "sc_failed s = None" "sc_captureError s = None" "faultless (sc_files s)"
    by (simp_all add: complete_def)
  obtain n cs where tr: "trimChunks (sc_outputBytes s + length ?t) (sc_chunks s @ [?t]) = (n, cs)" by fastforce
  have len: "int (length ?t) \<le> utf8ByteLength chunk"
    using utf8_length [of chunk] cleanChunk_length [of chunk] by linarith
  from c consider (none) "sc_path s = None" "concat (sc_chunks s) = out" "sc_outputBytes s = length out"
      "int (length out) \<le> sc_totalBytes s"
    | (some) p where "sc_path s = Some p" "p \<noteq> []" "fst_content (sc_files s) p = Some out"
    by (auto simp: complete_def)
  then show ?thesis
  proof cases
    case none
    show ?thesis
    proof (cases "?total > DEFAULT_MAX_BYTES")
      case True
      let ?s = "s\<lparr>sc_totalBytes := ?total, sc_chain := [CreateLog (out @ ?t)], sc_chunks := cs, sc_outputBytes := n\<rparr>"
      have "onChunk (\<lambda>_. None) chunk s = ?s"
        using base none True tr by (simp add: onChunk_def Let_def ensureFullOutputFile_def truthyStr_def)
      moreover from chainStep_create [of ?s "out @ ?t" tempName] names base
      obtain p w where "chainStep tempName (chainStep tempName ?s) = ?s\<lparr>sc_chain := [], sc_files := w, sc_path := Some p\<rparr>"
        "p \<noteq> []" "faultless w" "fst_content w p = Some (out @ ?t)" by auto
      ultimately show ?thesis using base by (simp add: complete_def)
    next
      case False
      have "int (sc_outputBytes s + length ?t) \<le> maxOutputBytes"
        using False none len by (simp add: maxOutputBytes_def DEFAULT_MAX_BYTES_def)
      from trimChunks_small [OF this] have
        "onChunk (\<lambda>_. None) chunk s = s\<lparr>sc_totalBytes := ?total, sc_chunks := sc_chunks s @ [?t],
           sc_outputBytes := sc_outputBytes s + length ?t\<rparr>"
        using none(1) False by (simp add: onChunk_def Let_def appendFullOutput_def truthyStr_def)
      then show ?thesis using base none False len by (simp add: chainStep_empty complete_def)
    qed
  next
    case some
    let ?s = "s\<lparr>sc_totalBytes := ?total, sc_chain := [AppendLog p ?t], sc_chunks := cs, sc_outputBytes := n\<rparr>"
    have "onChunk (\<lambda>_. None) chunk s = ?s"
      using base some tr by (simp add: onChunk_def Let_def appendFullOutput_def truthyStr_def)
    moreover from chainStep_append [of ?s p ?t out tempName] base some
    obtain w where "chainStep tempName (chainStep tempName ?s) = ?s\<lparr>sc_chain := [], sc_files := w\<rparr>" "faultless w"
      "fst_content w p = Some (out @ ?t)" by auto
    ultimately show ?thesis using base some by (simp add: complete_def)
  qed
qed

text \<open>The writes of a chunk end before the next chunk comes.\<close>

definition settled :: "jstr list \<Rightarrow> shell_event list" where
  "settled chunks = concat (map (\<lambda>c. [Chunk c, ChainStep, ChainStep]) chunks)"

lemma complete_settled:
  assumes "\<And>n. tempName n \<noteq> []"
  shows "complete out s \<Longrightarrow>
    complete (out @ concat (map cleanChunk chunks)) (fold (shellEvent (\<lambda>_. None) tempName) (settled chunks) s)"
proof (induction chunks arbitrary: out s)
  case (Cons c cs)
  from Cons.IH [OF complete_chunk [OF assms Cons.prems]] show ?case
    by (simp add: settled_def shellEvent_def)
qed (simp add: settled_def)

lemma complete_finish:
  assumes names: "\<And>n. tempName n \<noteq> []" and c: "complete out s"
    and fin: "finishCapture tempName result aborted s = (res, s')"
  shows "case res of Inl e \<Rightarrow> result = Inl e
    | Inr r \<Rightarrow> (case cr_fullOutputPath r of Some p \<Rightarrow> fst_content (sc_files s') p = Some out | None \<Rightarrow> cr_output r = out)"
proof -
  let ?tr = "truncateTail (concat (sc_chunks s)) \<lparr>to_maxLines = None, to_maxBytes = None\<rparr>"
  from c have base: "sc_chain s = []" "sc_failed s = None" "sc_captureError s = None" "faultless (sc_files s)"
    by (simp_all add: complete_def)
  show ?thesis
  proof (cases "trn_truncated ?tr \<and> sc_path s = None")
    case True
    let ?s = "s\<lparr>sc_chain := [CreateLog (concat (sc_chunks s))]\<rparr>"
    have ens: "ensureFullOutputFile (concat (sc_chunks s)) s = ?s"
      using base True by (simp add: ensureFullOutputFile_def truthyStr_def)
    from chainStep_create [of ?s "concat (sc_chunks s)" tempName] names base
    obtain p w where st: "chainStep tempName (chainStep tempName ?s) = ?s\<lparr>sc_chain := [], sc_files := w, sc_path := Some p\<rparr>"
      "p \<noteq> []" "fst_content w p = Some (concat (sc_chunks s))" by auto
    have aw: "awaitChain tempName ?s = ?s\<lparr>sc_chain := [], sc_files := w, sc_path := Some p\<rparr>"
      using st(1) by (simp add: awaitChain_def numeral_2_eq_2)
    have "sc_path (awaitChain tempName ?s) = Some p" "sc_files (awaitChain tempName ?s) = w"
      "sc_failed (awaitChain tempName ?s) = None" "sc_captureError (awaitChain tempName ?s) = None"
      unfolding aw using base by simp_all
    moreover have "concat (sc_chunks s) = out" using c True by (simp add: complete_def)
    ultimately show ?thesis
      using fin True ens base st(2,3) by (auto simp: finishCapture_def Let_def truthyStr_def split: sum.splits if_splits)
  next
    case False
    have run: "(if trn_truncated ?tr \<and> \<not> truthyStr (sc_path s) then ensureFullOutputFile (concat (sc_chunks s)) s else s) = s"
      using False c by (auto simp: complete_def truthyStr_def ensureFullOutputFile_def)
    have "trn_truncated ?tr \<or> concat (sc_chunks s) = out \<or> sc_path s \<noteq> None" using c by (auto simp: complete_def)
    with fin base c False show ?thesis
      unfolding finishCapture_def Let_def run
      by (auto simp: awaitChain_empty complete_def split: sum.splits if_splits option.splits)
  qed
qed

section \<open>Properties\<close>

text \<open>C34: When the file writes of each chunk end before the next chunk and the file operations work,
  nothing of a command's output is lost: the result names a file that holds all of it, cleaned,
  or the output returned is all of it.\<close>

theorem full_output_complete:
  assumes "\<And>n. tempName n \<noteq> []" and "faultless files"
    and "executeShellWithCapture (\<lambda>_. None) tempName (settled chunks) result aborted files = (res, s)"
  shows "case res of Inl e \<Rightarrow> result = Inl e
    | Inr r \<Rightarrow> (case cr_fullOutputPath r of
        Some p \<Rightarrow> fst_content (sc_files s) p = Some (concat (map cleanChunk chunks))
      | None \<Rightarrow> cr_output r = concat (map cleanChunk chunks))"
proof -
  have "complete [] (newCapture files)"
    using assms(2) by (simp add: complete_def newCapture_def DEFAULT_MAX_BYTES_def)
  from complete_finish [OF assms(1) complete_settled [OF assms(1) this] assms(3) [unfolded executeShellWithCapture_def]]
  show ?thesis unfolding append_Nil .
qed

definition sampleFiles :: file_store where
  "sampleFiles = \<lparr>fst_content = Map.empty, fst_fault = (\<lambda>_. None), fst_ops = 0, fst_missing = (\<lambda>p. [])\<rparr>"

definition sampleTempName :: "nat \<Rightarrow> jstr" where
  "sampleTempName n = js ''/tmp/bash-'' @ showNat n"

definition longChunk :: jstr where
  "longChunk = replicate 60000 97"

theorem full_output_complete_witness:
  "\<exists>r s. executeShellWithCapture (\<lambda>_. None) sampleTempName (settled [longChunk, js ''end'']) (Inr 0) False sampleFiles = (Inr r, s) \<and>
     (case cr_fullOutputPath r of
        Some p \<Rightarrow> fst_content (sc_files s) p = Some (concat (map cleanChunk [longChunk, js ''end'']))
      | None \<Rightarrow> cr_output r = concat (map cleanChunk [longChunk, js ''end'']))"
proof -
  obtain res s where run: "executeShellWithCapture (\<lambda>_. None) sampleTempName (settled [longChunk, js ''end'']) (Inr 0)
      False sampleFiles = (res, s)" by fastforce
  have "sampleTempName n \<noteq> []" for n by (simp add: sampleTempName_def)
  moreover have "faultless sampleFiles" by (simp add: faultless_def sampleFiles_def)
  ultimately have "case res of Inl e \<Rightarrow> (Inr 0 :: execution_error + int) = Inl e
    | Inr r \<Rightarrow> (case cr_fullOutputPath r of
        Some p \<Rightarrow> fst_content (sc_files s) p = Some (concat (map cleanChunk [longChunk, js ''end'']))
      | None \<Rightarrow> cr_output r = concat (map cleanChunk [longChunk, js ''end'']))"
    by (rule full_output_complete [OF _ _ run])
  then show ?thesis using run by (cases res) auto
qed

text \<open>When two chunks come before the log file exists, and a third before the second file does, the
  file that the result names lacks the third chunk: it went to the first file, which nobody
  knows of.\<close>

theorem full_output_lost:
  assumes "\<And>n. tempName n \<noteq> []" and "faultless files" and "tempName (Suc (Suc (fst_ops files))) \<noteq> tempName (fst_ops files)"
    and "utf8ByteLength a > DEFAULT_MAX_BYTES"
    and "executeShellWithCapture (\<lambda>_. None) tempName [Chunk a, Chunk b, ChainStep, Chunk c] (Inr code) False files = (res, s)"
  shows "\<exists>r p. res = Inr r \<and> cr_fullOutputPath r = Some p \<and>
    fst_content (sc_files s) p = Some (cleanChunk a @ cleanChunk b) \<and>
    fst_content (sc_files s) (tempName (fst_ops files)) = Some (cleanChunk a @ cleanChunk c)"
proof -
  let ?n = "fst_ops files" and ?a = "cleanChunk a" and ?b = "cleanChunk b" and ?c = "cleanChunk c"
  let ?p = "tempName ?n" and ?q = "tempName (Suc (Suc ?n))"
  have over: "DEFAULT_MAX_BYTES < utf8ByteLength a + utf8ByteLength d" for d
    using assms(4) utf8ByteLength_nonneg [of d] by linarith
  obtain s1 where s1: "fold (shellEvent (\<lambda>_. None) tempName) [Chunk a, Chunk b] (newCapture files) = s1"
    "sc_chain s1 = [CreateLog ?a, CreateLog (?a @ ?b)]" "sc_files s1 = files" "sc_failed s1 = None"
    "sc_captureError s1 = None" "sc_path s1 = None" "sc_totalBytes s1 = utf8ByteLength a + utf8ByteLength b"
    using assms(4) over
    by (simp add: shellEvent_def onChunk_def Let_def newCapture_def ensureFullOutputFile_def truthyStr_def
        split: prod.splits)
  from createTempFile_faultless [OF assms(2), of tempName] obtain w1 where
    w1: "createTempFile tempName files = (Inr ?p, w1)" "faultless w1" "fst_ops w1 = Suc ?n"
    "fst_content w1 = (fst_content files)(?p \<mapsto> [])" by blast
  obtain s2 where s2: "onChunk (\<lambda>_. None) c (chainStep tempName s1) = s2"
    "sc_chain s2 = [AppendLog ?p ?a, CreateLog (?a @ ?b), AppendLog ?p ?c]" "sc_files s2 = w1" "sc_failed s2 = None"
    "sc_captureError s2 = None" "sc_path s2 = Some ?p"
    using s1 w1(1) assms(1) by (simp add: chainStep_def onChunk_def Let_def appendFullOutput_def truthyStr_def split: prod.splits)
  from appendFile_faultless [OF w1(2), of ?p ?a] w1 obtain w2 where
    w2: "appendFile ?p ?a w1 = (Inr (), w2)" "faultless w2" "fst_ops w2 = Suc (Suc ?n)" "fst_content w2 ?p = Some ?a" by auto
  from createTempFile_faultless [OF w2(2), of tempName] w2 assms(3) obtain w3 where
    w3: "createTempFile tempName w2 = (Inr ?q, w3)" "faultless w3" "fst_content w3 ?p = Some ?a" "fst_content w3 ?q = Some []"
    by auto
  from appendFile_faultless [OF w3(2), of ?q "?a @ ?b"] w3 assms(3) obtain w4 where
    w4: "appendFile ?q (?a @ ?b) w3 = (Inr (), w4)" "faultless w4" "fst_content w4 ?p = Some ?a"
    "fst_content w4 ?q = Some (?a @ ?b)" by auto
  from appendFile_faultless [OF w4(2), of ?p ?c] w4 assms(3) obtain w5 where
    w5: "appendFile ?p ?c w4 = (Inr (), w5)" "fst_content w5 ?p = Some (?a @ ?c)" "fst_content w5 ?q = Some (?a @ ?b)" by auto
  have steps: "awaitChain tempName s2 = s2\<lparr>sc_chain := [], sc_files := w5, sc_path := Some ?q\<rparr>"
    using s2 w2(1) w3(1) w4(1) w5(1)
    by (simp add: awaitChain_def eval_nat_numeral chainStep_def)
  have "fold (shellEvent (\<lambda>_. None) tempName) ([Chunk a, Chunk b] @ [ChainStep, Chunk c]) (newCapture files) = s2"
    unfolding fold_append o_apply s1(1) using s2(1) by (simp add: shellEvent_def)
  with assms(5) have fin: "finishCapture tempName (Inr code) False s2 = (res, s)"
    by (simp only: executeShellWithCapture_def append_Cons append_Nil)
  have "truthyStr (sc_path s2)" using s2(6) assms(1) by (simp add: truthyStr_def)
  then have "s = awaitChain tempName s2 \<and>
      (sc_failed s = None \<longrightarrow> sc_captureError s = None \<longrightarrow> (\<exists>r. res = Inr r \<and> cr_fullOutputPath r = sc_path s))"
    using fin by (auto simp: finishCapture_def Let_def)
  moreover have "sc_failed (awaitChain tempName s2) = None" "sc_captureError (awaitChain tempName s2) = None"
    "sc_path (awaitChain tempName s2) = Some ?q" "sc_files (awaitChain tempName s2) = w5"
    unfolding steps using s2(4,5) by simp_all
  ultimately show ?thesis using w5(2,3) by auto
qed

theorem full_output_lost_witness:
  "\<exists>r p s. executeShellWithCapture (\<lambda>_. None) sampleTempName [Chunk longChunk, Chunk (js ''b''), ChainStep, Chunk (js ''c'')]
      (Inr 0) False sampleFiles = (Inr r, s) \<and> cr_fullOutputPath r = Some p \<and>
     fst_content (sc_files s) p = Some (cleanChunk longChunk @ js ''b'')"
proof -
  obtain res s where run: "executeShellWithCapture (\<lambda>_. None) sampleTempName
      [Chunk longChunk, Chunk (js ''b''), ChainStep, Chunk (js ''c'')] (Inr 0) False sampleFiles = (res, s)" by fastforce
  have names: "sampleTempName n \<noteq> []" for n by (simp add: sampleTempName_def)
  have files: "faultless sampleFiles" "sampleTempName (Suc (Suc (fst_ops sampleFiles))) \<noteq> sampleTempName (fst_ops sampleFiles)"
    by (simp_all add: faultless_def sampleFiles_def sampleTempName_def showNat.simps [of 0] showNat.simps [of "Suc (Suc 0)"])
  have "utf8ByteLength (replicate n 97) = int n" for n
    by (induction n) (simp_all add: utf8ByteLength_Cons isHigh_def unitBytes_def)
  then have long: "utf8ByteLength longChunk > DEFAULT_MAX_BYTES" by (simp add: longChunk_def DEFAULT_MAX_BYTES_def)
  have "cleanChunk (js ''b'') = js ''b''" by (simp add: cleanChunk_def sanitizeBinaryOutput_def js_def)
  with full_output_lost [OF names files long run] run show ?thesis by auto
qed

end
