(* ===== verification/EditDiff.thy ===== *)
theory EditDiff
  imports Prelude
begin

text \<open>
  The matching and replacement of the edit tool, packages/coding-agent/src/core/tools/edit-diff.ts.
  The Unicode normalisation NFKC of the runtime and the line diff of the library are
  parameters. An error is its message.
\<close>

section \<open>Line endings\<close>

definition detectLineEnding :: "jstr \<Rightarrow> jstr" where
  "detectLineEnding content =
     (case indexOf content [10] of
        None \<Rightarrow> [10]
      | Some lfIdx \<Rightarrow>
          (case indexOf content [13, 10] of
             None \<Rightarrow> [10]
           | Some crlfIdx \<Rightarrow> if crlfIdx < lfIdx then [13, 10] else [10]))"

fun joinCrLf :: "jstr \<Rightarrow> jstr" where
  "joinCrLf (c # d # s) = (if c = 13 \<and> d = 10 then 10 # joinCrLf s else c # joinCrLf (d # s))"
| "joinCrLf s = s"

definition normalizeToLF :: "jstr \<Rightarrow> jstr" where
  "normalizeToLF t = map (\<lambda>c. if c = 13 then 10 else c) (joinCrLf t)"

definition restoreLineEndings :: "jstr \<Rightarrow> jstr \<Rightarrow> jstr" where
  "restoreLineEndings t ending =
     (if ending = [13, 10] then concat (map (\<lambda>c. if c = 10 then [13, 10] else [c]) t) else t)"

definition BOM :: jchar where "BOM = 0xfeff"

definition stripBom :: "jstr \<Rightarrow> jstr \<times> jstr" where
  "stripBom content = (if prefix [BOM] content then ([BOM], drop 1 content) else ([], content))"

section \<open>Normalisation\<close>

definition fuzzyChar :: "jchar \<Rightarrow> jchar" where
  "fuzzyChar c =
     (if c \<in> {0x2018, 0x2019, 0x201A, 0x201B} then 39
      else if c \<in> {0x201C, 0x201D, 0x201E, 0x201F} then 34
      else if c \<in> {0x2010, 0x2011, 0x2012, 0x2013, 0x2014, 0x2015, 0x2212} then 45
      else if c = 0xA0 \<or> 0x2002 \<le> c \<and> c \<le> 0x200A \<or> c \<in> {0x202F, 0x205F, 0x3000} then 32
      else c)"

definition normalizeForFuzzyMatch :: "(jstr \<Rightarrow> jstr) \<Rightarrow> jstr \<Rightarrow> jstr" where
  "normalizeForFuzzyMatch nfkc t =
     map fuzzyChar (joinWith [10] (map trimEnd (splitOn 10 (nfkc t))))"

section \<open>Lines\<close>

fun splitLinesWithEndings :: "jstr \<Rightarrow> jstr list" where
  "splitLinesWithEndings [] = []"
| "splitLinesWithEndings (c # s) =
     (if c = 10 then [10] # splitLinesWithEndings s
      else (case splitLinesWithEndings s of [] \<Rightarrow> [[c]] | l # ls \<Rightarrow> (c # l) # ls))"

record line_span =
  sp_start :: nat
  sp_end :: nat

record matched_edit =
  me_editIndex :: nat
  me_matchIndex :: nat
  me_matchLength :: nat
  me_newText :: jstr

definition me_end :: "matched_edit \<Rightarrow> nat" where
  "me_end r = me_matchIndex r + me_matchLength r"

fun spansFrom :: "nat \<Rightarrow> jstr list \<Rightarrow> line_span list" where
  "spansFrom offset [] = []"
| "spansFrom offset (l # ls) =
     \<lparr>sp_start = offset, sp_end = offset + length l\<rparr> # spansFrom (offset + length l) ls"

definition getLineSpans :: "jstr \<Rightarrow> line_span list" where
  "getLineSpans content = spansFrom 0 (splitLinesWithEndings content)"

definition rangeError :: jstr where
  "rangeError = js ''Replacement range is outside the base content.''"

text \<open>The first line and the line after the last one that a replacement touches.\<close>

definition getReplacementLineRange :: "line_span list \<Rightarrow> matched_edit \<Rightarrow> jstr + nat \<times> nat" where
  "getReplacementLineRange lines r =
     (case findIndex (\<lambda>l. sp_start l \<le> me_matchIndex r \<and> me_matchIndex r < sp_end l) lines of
        None \<Rightarrow> Inl rangeError
      | Some startLine \<Rightarrow>
          (case findIndex (\<lambda>l. \<not> sp_end l < me_end r) (drop startLine lines) of
             None \<Rightarrow> Inl rangeError
           | Some n \<Rightarrow> Inr (startLine, startLine + n + 1)))"

section \<open>Replacement\<close>

text \<open>One replacement; positions before the start of the text count as its start.\<close>

definition replaceOne :: "nat \<Rightarrow> matched_edit \<Rightarrow> jstr \<Rightarrow> jstr" where
  "replaceOne offset r result =
     (let matchIndex = int (me_matchIndex r) - int offset
      in take (nat matchIndex) result @ me_newText r @ drop (nat (matchIndex + int (me_matchLength r))) result)"

definition applyReplacements :: "jstr \<Rightarrow> matched_edit list \<Rightarrow> nat \<Rightarrow> jstr" where
  "applyReplacements content rs offset = foldr (replaceOne offset) rs content"

record line_group =
  lg_startLine :: nat
  lg_endLine :: nat
  lg_replacements :: "matched_edit list"

text \<open>The loop over the sorted replacements; the groups so far are given in reverse.\<close>

fun groupReplacements ::
  "line_span list \<Rightarrow> matched_edit list \<Rightarrow> line_group list \<Rightarrow> jstr + line_group list" where
  "groupReplacements lines [] groups = Inr (rev groups)"
| "groupReplacements lines (r # rs) groups =
     (case getReplacementLineRange lines r of
        Inl e \<Rightarrow> Inl e
      | Inr (startLine, endLine) \<Rightarrow>
          (case groups of
             current # earlier \<Rightarrow>
               (if startLine < lg_endLine current
                then groupReplacements lines rs
                  (current\<lparr>lg_endLine := max (lg_endLine current) endLine,
                           lg_replacements := lg_replacements current @ [r]\<rparr> # earlier)
                else groupReplacements lines rs
                  (\<lparr>lg_startLine = startLine, lg_endLine = endLine, lg_replacements = [r]\<rparr> # groups))
           | [] \<Rightarrow> groupReplacements lines rs
               [\<lparr>lg_startLine = startLine, lg_endLine = endLine, lg_replacements = [r]\<rparr>]))"

fun renderGroups :: "jstr list \<Rightarrow> jstr \<Rightarrow> line_span list \<Rightarrow> line_group list \<Rightarrow> nat \<Rightarrow> jstr" where
  "renderGroups originalLines baseContent baseLines [] originalLineIndex =
     concat (drop originalLineIndex originalLines)"
| "renderGroups originalLines baseContent baseLines (g # gs) originalLineIndex =
     (let groupStartOffset = sp_start (baseLines ! lg_startLine g);
          groupEndOffset = sp_end (baseLines ! (lg_endLine g - 1))
      in concat (slice originalLineIndex (lg_startLine g) originalLines) @
         applyReplacements (slice groupStartOffset groupEndOffset baseContent) (lg_replacements g) groupStartOffset @
         renderGroups originalLines baseContent baseLines gs (lg_endLine g))"

definition lineCountError :: jstr where
  "lineCountError =
     js ''Cannot preserve unchanged lines because the base content has a different line count.''"

definition applyReplacementsPreservingUnchangedLines ::
  "jstr \<Rightarrow> jstr \<Rightarrow> matched_edit list \<Rightarrow> jstr + jstr" where
  "applyReplacementsPreservingUnchangedLines originalContent baseContent replacements =
     (let originalLines = splitLinesWithEndings originalContent;
          baseLines = getLineSpans baseContent
      in if length originalLines \<noteq> length baseLines then Inl lineCountError
         else (case groupReplacements baseLines (sort_key me_matchIndex replacements) [] of
                 Inl e \<Rightarrow> Inl e
               | Inr groups \<Rightarrow> Inr (renderGroups originalLines baseContent baseLines groups 0)))"

section \<open>Matching\<close>

record fuzzy_match_result =
  fm_found :: bool
  fm_index :: int
  fm_matchLength :: nat
  fm_usedFuzzyMatch :: bool
  fm_contentForReplacement :: jstr

record edit =
  ed_oldText :: jstr
  ed_newText :: jstr

definition fuzzyFindText :: "(jstr \<Rightarrow> jstr) \<Rightarrow> jstr \<Rightarrow> jstr \<Rightarrow> fuzzy_match_result" where
  "fuzzyFindText nfkc content oldText =
     (case indexOf content oldText of
        Some exactIndex \<Rightarrow>
          \<lparr>fm_found = True, fm_index = int exactIndex, fm_matchLength = length oldText, fm_usedFuzzyMatch = False,
           fm_contentForReplacement = content\<rparr>
      | None \<Rightarrow>
          (let fuzzyContent = normalizeForFuzzyMatch nfkc content;
               fuzzyOldText = normalizeForFuzzyMatch nfkc oldText
           in case indexOf fuzzyContent fuzzyOldText of
                None \<Rightarrow>
                  \<lparr>fm_found = False, fm_index = - 1, fm_matchLength = 0, fm_usedFuzzyMatch = False,
                   fm_contentForReplacement = content\<rparr>
              | Some fuzzyIndex \<Rightarrow>
                  \<lparr>fm_found = True, fm_index = int fuzzyIndex, fm_matchLength = length fuzzyOldText,
                   fm_usedFuzzyMatch = True, fm_contentForReplacement = fuzzyContent\<rparr>))"

text \<open>\<open>s.split(pat).length - 1\<close>; by the empty text the string is split into its code units.\<close>

fun occurrencesOf :: "jstr \<Rightarrow> nat \<Rightarrow> jstr \<Rightarrow> nat" where
  "occurrencesOf pat skip [] = 0"
| "occurrencesOf pat (Suc skip) (c # s) = occurrencesOf pat skip s"
| "occurrencesOf pat 0 (c # s) =
     (if prefix pat (c # s) then 1 + occurrencesOf pat (length pat - 1) s else occurrencesOf pat 0 s)"

definition splitCount :: "jstr \<Rightarrow> jstr \<Rightarrow> int" where
  "splitCount s pat = (if pat = [] then int (length s) - 1 else int (occurrencesOf pat 0 s))"

definition countOccurrences :: "(jstr \<Rightarrow> jstr) \<Rightarrow> jstr \<Rightarrow> jstr \<Rightarrow> int" where
  "countOccurrences nfkc content oldText =
     splitCount (normalizeForFuzzyMatch nfkc content) (normalizeForFuzzyMatch nfkc oldText)"

section \<open>Errors\<close>

definition editName :: "nat \<Rightarrow> jstr" where
  "editName editIndex = js ''edits['' @ showNat editIndex @ js '']''"

definition getNotFoundError :: "jstr \<Rightarrow> nat \<Rightarrow> nat \<Rightarrow> jstr" where
  "getNotFoundError path editIndex totalEdits =
     (if totalEdits = 1
      then js ''Could not find the exact text in '' @ path @
        js ''. The old text must match exactly including all whitespace and newlines.''
      else js ''Could not find '' @ editName editIndex @ js '' in '' @ path @
        js ''. The oldText must match exactly including all whitespace and newlines.'')"

definition getDuplicateError :: "jstr \<Rightarrow> nat \<Rightarrow> nat \<Rightarrow> int \<Rightarrow> jstr" where
  "getDuplicateError path editIndex totalEdits occurrences =
     (if totalEdits = 1
      then js ''Found '' @ showInt occurrences @ js '' occurrences of the text in '' @ path @
        js ''. The text must be unique. Please provide more context to make it unique.''
      else js ''Found '' @ showInt occurrences @ js '' occurrences of '' @ editName editIndex @ js '' in '' @ path @
        js ''. Each oldText must be unique. Please provide more context to make it unique.'')"

definition getEmptyOldTextError :: "jstr \<Rightarrow> nat \<Rightarrow> nat \<Rightarrow> jstr" where
  "getEmptyOldTextError path editIndex totalEdits =
     (if totalEdits = 1 then js ''oldText must not be empty in '' @ path @ js ''.''
      else editName editIndex @ js ''.oldText must not be empty in '' @ path @ js ''.'')"

definition getNoChangeError :: "jstr \<Rightarrow> nat \<Rightarrow> jstr" where
  "getNoChangeError path totalEdits =
     (if totalEdits = 1
      then js ''No changes made to '' @ path @
        js ''. The replacement produced identical content. This might indicate an issue with special characters or the text not existing as expected.''
      else js ''No changes made to '' @ path @ js ''. The replacements produced identical content.'')"

definition getOverlapError :: "jstr \<Rightarrow> nat \<Rightarrow> nat \<Rightarrow> jstr" where
  "getOverlapError path previous current =
     editName previous @ js '' and '' @ editName current @ js '' overlap in '' @ path @
     js ''. Merge them into one edit or target disjoint regions.''"

section \<open>Edits\<close>

definition normalizeEdit :: "edit \<Rightarrow> edit" where
  "normalizeEdit e = \<lparr>ed_oldText = normalizeToLF (ed_oldText e), ed_newText = normalizeToLF (ed_newText e)\<rparr>"

text \<open>The loop that matches the edits, from the edit number \<open>i\<close> of \<open>totalEdits\<close>.\<close>

fun matchEdits ::
  "(jstr \<Rightarrow> jstr) \<Rightarrow> jstr \<Rightarrow> jstr \<Rightarrow> nat \<Rightarrow> nat \<Rightarrow> edit list \<Rightarrow> jstr + matched_edit list" where
  "matchEdits nfkc base path totalEdits i [] = Inr []"
| "matchEdits nfkc base path totalEdits i (e # es) =
     (let matchResult = fuzzyFindText nfkc base (ed_oldText e);
          occurrences = countOccurrences nfkc base (ed_oldText e)
      in if \<not> fm_found matchResult then Inl (getNotFoundError path i totalEdits)
         else if occurrences > 1 then Inl (getDuplicateError path i totalEdits occurrences)
         else (case matchEdits nfkc base path totalEdits (Suc i) es of
                 Inl err \<Rightarrow> Inl err
               | Inr ms \<Rightarrow>
                   Inr (\<lparr>me_editIndex = i, me_matchIndex = nat (fm_index matchResult),
                         me_matchLength = fm_matchLength matchResult, me_newText = ed_newText e\<rparr> # ms)))"

fun findOverlap :: "matched_edit list \<Rightarrow> (nat \<times> nat) option" where
  "findOverlap (p # c # ms) =
     (if me_end p > me_matchIndex c then Some (me_editIndex p, me_editIndex c) else findOverlap (c # ms))"
| "findOverlap ms = None"

record applied_edits_result =
  ar_baseContent :: jstr
  ar_newContent :: jstr

definition usesFuzzyMatch :: "(jstr \<Rightarrow> jstr) \<Rightarrow> jstr \<Rightarrow> edit list \<Rightarrow> bool" where
  "usesFuzzyMatch nfkc content es =
     (\<exists>e \<in> set es. fm_usedFuzzyMatch (fuzzyFindText nfkc content (ed_oldText e)))"

definition replaceMatched ::
  "bool \<Rightarrow> jstr \<Rightarrow> jstr \<Rightarrow> matched_edit list \<Rightarrow> jstr + jstr" where
  "replaceMatched fuzzy normalizedContent base ms =
     (if fuzzy then applyReplacementsPreservingUnchangedLines normalizedContent base ms
      else Inr (applyReplacements base ms 0))"

definition applyEditsToNormalizedContent ::
  "(jstr \<Rightarrow> jstr) \<Rightarrow> jstr \<Rightarrow> edit list \<Rightarrow> jstr \<Rightarrow> jstr + applied_edits_result" where
  "applyEditsToNormalizedContent nfkc normalizedContent edits path =
     (let es = map normalizeEdit edits; totalEdits = length es
      in case findIndex (\<lambda>e. ed_oldText e = []) es of
           Some i \<Rightarrow> Inl (getEmptyOldTextError path i totalEdits)
         | None \<Rightarrow>
             (let fuzzy = usesFuzzyMatch nfkc normalizedContent es;
                  base = (if fuzzy then normalizeForFuzzyMatch nfkc normalizedContent else normalizedContent)
              in case matchEdits nfkc base path totalEdits 0 es of
                   Inl err \<Rightarrow> Inl err
                 | Inr matched \<Rightarrow>
                     (let sorted = sort_key me_matchIndex matched
                      in case findOverlap sorted of
                           Some (p, c) \<Rightarrow> Inl (getOverlapError path p c)
                         | None \<Rightarrow>
                             (case replaceMatched fuzzy normalizedContent base sorted of
                                Inl err \<Rightarrow> Inl err
                              | Inr newContent \<Rightarrow>
                                  if normalizedContent = newContent then Inl (getNoChangeError path totalEdits)
                                  else Inr \<lparr>ar_baseContent = normalizedContent, ar_newContent = newContent\<rparr>))))"

end
