(* ===== verification/EditDiffFacts.thy ===== *)
theory EditDiffFacts
  imports EditDiff "HOL-Library.Multiset"
begin

text \<open>
  Lemmas on the edit tool's replacement: a closed form of the replacements applied from the end,
  and the blocks of lines into which a text falls when only the touched lines are rewritten.
\<close>

section \<open>Replacements from the end\<close>

text \<open>The replacements follow each other from position \<open>p\<close> on.\<close>

fun follow :: "nat \<Rightarrow> matched_edit list \<Rightarrow> bool" where
  "follow p [] \<longleftrightarrow> True"
| "follow p (r # rs) \<longleftrightarrow> p \<le> me_matchIndex r \<and> follow (me_end r) rs"

text \<open>All at once: the text behind position \<open>p\<close>, with each match replaced.\<close>

fun splice :: "nat \<Rightarrow> jstr \<Rightarrow> matched_edit list \<Rightarrow> jstr" where
  "splice p c [] = c"
| "splice p c (r # rs) =
     take (me_matchIndex r - p) c @ me_newText r @ splice (me_end r) (drop (me_end r - p) c) rs"

definition endsBy :: "nat \<Rightarrow> matched_edit list \<Rightarrow> bool" where
  "endsBy e rs \<longleftrightarrow> (\<forall>r \<in> set rs. me_end r \<le> e)"

lemma follow_mono: "follow q rs \<Longrightarrow> p \<le> q \<Longrightarrow> follow p rs"
  by (cases rs) auto

lemma follow_index: "follow p rs \<Longrightarrow> r \<in> set rs \<Longrightarrow> p \<le> me_matchIndex r"
proof (induction rs arbitrary: p)
  case (Cons x xs)
  show ?case
  proof (cases "r = x")
    case True
    with Cons.prems show ?thesis by simp
  next
    case False
    with Cons have "me_end x \<le> me_matchIndex r" "p \<le> me_matchIndex x" by auto
    then show ?thesis by (simp add: me_end_def)
  qed
qed simp

lemma length_behind:
  "p \<le> me_matchIndex r \<Longrightarrow> me_end r \<le> p + length c \<Longrightarrow>
   me_end r + length (drop (me_end r - p) c) = p + length c"
  "p \<le> me_matchIndex r \<Longrightarrow> me_end r \<le> p + length c \<Longrightarrow> me_matchIndex r - p \<le> length c"
  "p \<le> me_matchIndex r \<Longrightarrow> me_end r \<le> p + length c \<Longrightarrow> me_end r - p \<le> length c"
  by (auto simp: me_end_def)

lemma replaceOne_shift:
  "p + length pre \<le> me_matchIndex r \<Longrightarrow>
   replaceOne p r (pre @ c) = pre @ replaceOne (p + length pre) r c"
proof -
  assume le: "p + length pre \<le> me_matchIndex r"
  have "nat (int (me_matchIndex r) - int p) = length pre + nat (int (me_matchIndex r) - int (p + length pre))"
    "nat (int (me_matchIndex r) - int p + int (me_matchLength r)) =
     length pre + nat (int (me_matchIndex r) - int (p + length pre) + int (me_matchLength r))"
    using le by linarith+
  then show ?thesis by (simp only: replaceOne_def Let_def) simp
qed

lemma applyReplacements_shift:
  "\<forall>r \<in> set rs. p + length pre \<le> me_matchIndex r \<Longrightarrow>
   applyReplacements (pre @ c) rs p = pre @ applyReplacements c rs (p + length pre)"
  by (induction rs) (simp_all add: applyReplacements_def replaceOne_shift)

lemma splice_append:
  "follow p rs \<Longrightarrow> endsBy (p + length c) rs \<Longrightarrow> splice p (c @ d) rs = splice p c rs @ d"
proof (induction rs arbitrary: p c)
  case (Cons r rs)
  then have "me_end r \<le> p + length c" "p \<le> me_matchIndex r" "follow (me_end r) rs" "endsBy (p + length c) rs"
    by (auto simp: endsBy_def)
  then show ?case
    using Cons.IH [of "me_end r" "drop (me_end r - p) c", unfolded length_behind(1) [OF \<open>p \<le> me_matchIndex r\<close> \<open>me_end r \<le> p + length c\<close>]]
      length_behind(2,3) [of p r c] by simp
qed simp

lemma applyReplacements_splice:
  "follow p rs \<Longrightarrow> endsBy (p + length c) rs \<Longrightarrow> applyReplacements c rs p = splice p c rs"
proof (induction rs arbitrary: p c)
  case Nil
  then show ?case by (simp add: applyReplacements_def)
next
  case (Cons r rs)
  let ?k = "me_end r - p"
  have bounds: "p \<le> me_matchIndex r" "me_end r \<le> p + length c" "follow (me_end r) rs" "endsBy (p + length c) rs"
    using Cons.prems by (auto simp: endsBy_def)
  have pk: "p + ?k = me_end r" using bounds by (simp add: me_end_def)
  have len: "p + length (take ?k c) = me_end r" using bounds by (auto simp: me_end_def)
  have "applyReplacements (take ?k c @ drop ?k c) rs p = take ?k c @ applyReplacements (drop ?k c) rs (me_end r)"
    using applyReplacements_shift [of rs p "take ?k c" "drop ?k c", unfolded len] follow_index [OF bounds(3)]
    by blast
  also have "applyReplacements (drop ?k c) rs (me_end r) = splice (me_end r) (drop ?k c) rs"
    using bounds(3,4) length_behind(1) [OF bounds(1,2)] by (intro Cons.IH) (simp_all only:)
  finally have rest: "applyReplacements c rs p = take ?k c @ splice (me_end r) (drop ?k c) rs" by simp
  have "nat (int (me_matchIndex r) - int p) = me_matchIndex r - p"
    "nat (int (me_matchIndex r) - int p + int (me_matchLength r)) = ?k" "me_matchIndex r - p \<le> ?k"
    using bounds by (simp_all add: me_end_def)
  then show ?case
    using rest bounds by (simp add: applyReplacements_def replaceOne_def Let_def)
qed

lemma splice_pre:
  "follow (p + length pre) rs \<Longrightarrow> splice p (pre @ c) rs = pre @ splice (p + length pre) c rs"
proof (cases rs)
  case (Cons r rs')
  assume "follow (p + length pre) rs"
  then have "length pre \<le> me_matchIndex r - p" "length pre \<le> me_end r - p"
    using Cons by (auto simp: me_end_def)
  moreover have "me_matchIndex r - (p + length pre) = me_matchIndex r - p - length pre"
    "me_end r - (p + length pre) = me_end r - p - length pre" by simp_all
  ultimately show ?thesis unfolding Cons splice.simps by (simp only:) simp
qed simp

lemma follow_append: "follow p (rs @ qs) \<Longrightarrow> follow p rs"
  by (induction rs arbitrary: p) auto

lemma splice_both:
  "follow p (rs @ qs) \<Longrightarrow> endsBy (p + length c) rs \<Longrightarrow> follow (p + length c) qs \<Longrightarrow>
   splice p (c @ d) (rs @ qs) = splice p c rs @ splice (p + length c) d qs"
proof (induction rs arbitrary: p c)
  case Nil
  then show ?case by (simp add: splice_pre)
next
  case (Cons r rs)
  have b: "me_end r \<le> p + length c" "p \<le> me_matchIndex r" "follow (me_end r) (rs @ qs)" "endsBy (p + length c) rs"
    using Cons.prems by (auto simp: endsBy_def)
  show ?case
    using Cons.IH [of "me_end r" "drop (me_end r - p) c", unfolded length_behind(1) [OF b(2,1)]] b
      Cons.prems length_behind(2,3) [OF b(2,1)] by simp
qed

section \<open>Lines\<close>

lemma concat_splitLines [simp]: "concat (splitLinesWithEndings s) = s"
  by (induction s) (auto split: list.splits)

text \<open>The position at which line \<open>k\<close> starts.\<close>

definition lineStart :: "jstr list \<Rightarrow> nat \<Rightarrow> nat" where
  "lineStart ls k = length (concat (take k ls))"

lemma lineStart_0 [simp]: "lineStart ls 0 = 0"
  by (simp add: lineStart_def)

lemma lineStart_Suc: "k < length ls \<Longrightarrow> lineStart ls (Suc k) = lineStart ls k + length (ls ! k)"
  by (simp add: lineStart_def take_Suc_conv_app_nth)

lemma lineStart_mono: "i \<le> k \<Longrightarrow> lineStart ls i \<le> lineStart ls k"
  using take_add [of i "k - i" ls] by (simp add: lineStart_def)

lemma length_spansFrom [simp]: "length (spansFrom p ls) = length ls"
  by (induction ls arbitrary: p) auto

lemma nth_spansFrom:
  "k < length ls \<Longrightarrow> spansFrom p ls ! k = \<lparr>sp_start = p + lineStart ls k, sp_end = p + lineStart ls (Suc k)\<rparr>"
proof (induction ls arbitrary: p k)
  case (Cons l ls)
  then show ?case by (cases k) (simp_all add: lineStart_def)
qed simp

text \<open>A replacement touches a line that it starts in or reaches.\<close>

definition touches :: "matched_edit \<Rightarrow> line_span \<Rightarrow> bool" where
  "touches r l \<longleftrightarrow> me_matchIndex r < sp_end l \<and> (sp_start l \<le> me_matchIndex r \<or> sp_start l < me_end r)"

definition lineRange :: "jstr list \<Rightarrow> matched_edit \<Rightarrow> nat \<Rightarrow> nat \<Rightarrow> bool" where
  "lineRange ls r a b \<longleftrightarrow>
     a < b \<and> b \<le> length ls \<and> lineStart ls a \<le> me_matchIndex r \<and> me_matchIndex r < lineStart ls (Suc a) \<and>
     me_end r \<le> lineStart ls b \<and> (\<forall>i \<in> {a..<b}. touches r (spansFrom 0 ls ! i))"

lemma range_spec:
  assumes "getReplacementLineRange (spansFrom 0 ls) r = Inr (a, b)"
  shows "lineRange ls r a b"
proof -
  let ?S = "spansFrom 0 ls"
  obtain n where start: "findIndex (\<lambda>l. sp_start l \<le> me_matchIndex r \<and> me_matchIndex r < sp_end l) ?S = Some a"
    and stop: "findIndex (\<lambda>l. \<not> sp_end l < me_end r) (drop a ?S) = Some n" and b: "b = a + n + 1"
    using assms by (auto simp: getReplacementLineRange_def split: option.splits)
  have a: "a < length ls" "lineStart ls a \<le> me_matchIndex r" "me_matchIndex r < lineStart ls (Suc a)"
    using findIndex_Some [OF start] by (auto simp: nth_spansFrom)
  have n: "a + n < length ls" "me_end r \<le> lineStart ls b" "\<forall>j < n. lineStart ls (Suc (a + j)) < me_end r"
    using findIndex_Some [OF stop] by (auto simp: nth_spansFrom b)
  have "touches r (?S ! i)" if i: "i \<in> {a..<b}" for i
  proof (cases "i = a")
    case True
    with a show ?thesis by (simp add: touches_def nth_spansFrom)
  next
    case False
    with i obtain j where j: "i = Suc (a + j)" "j < n" by (auto simp: b dest: less_imp_Suc_add intro: that [of "i - Suc a"])
    have "me_matchIndex r < lineStart ls (Suc i)"
      using a(3) lineStart_mono [of "Suc a" "Suc i" ls] i by simp
    with j n i show ?thesis by (simp add: touches_def nth_spansFrom)
  qed
  with a n b show ?thesis by (simp add: lineRange_def)
qed

section \<open>Groups\<close>

definition group_ok :: "jstr list \<Rightarrow> line_group \<Rightarrow> bool" where
  "group_ok ls g \<longleftrightarrow>
     lg_startLine g < lg_endLine g \<and> lg_endLine g \<le> length ls \<and>
     (\<forall>r \<in> set (lg_replacements g). lineStart ls (lg_startLine g) \<le> me_matchIndex r \<and>
        me_end r \<le> lineStart ls (lg_endLine g)) \<and>
     (\<forall>i \<in> {lg_startLine g..<lg_endLine g}. \<exists>r \<in> set (lg_replacements g). touches r (spansFrom 0 ls ! i))"

definition groups_ok :: "jstr list \<Rightarrow> line_group list \<Rightarrow> bool" where
  "groups_ok ls gs \<longleftrightarrow> (\<forall>g \<in> set gs. group_ok ls g) \<and> sorted_wrt (\<lambda>g h. lg_endLine g \<le> lg_startLine h) gs"

lemma group_new:
  "lineRange ls r a b \<Longrightarrow> group_ok ls \<lparr>lg_startLine = a, lg_endLine = b, lg_replacements = [r]\<rparr>"
  by (simp add: group_ok_def lineRange_def)

lemma group_start_le:
  assumes g: "group_ok ls g" and r: "lineRange ls r a b"
    and before: "\<forall>q \<in> set (lg_replacements g). me_matchIndex q \<le> me_matchIndex r"
  shows "lg_startLine g \<le> a"
proof -
  obtain q where "q \<in> set (lg_replacements g)" "lineStart ls (lg_startLine g) \<le> me_matchIndex q"
    using g by (fastforce simp: group_ok_def)
  then have "lineStart ls (lg_startLine g) < lineStart ls (Suc a)"
    using before r by (fastforce simp: lineRange_def)
  then show ?thesis using lineStart_mono [of "Suc a" "lg_startLine g" ls] by linarith
qed

lemma group_extend:
  assumes g: "group_ok ls g" and r: "lineRange ls r a b" and le: "lg_startLine g \<le> a" "a < lg_endLine g"
  shows "group_ok ls (g\<lparr>lg_endLine := max (lg_endLine g) b, lg_replacements := lg_replacements g @ [r]\<rparr>)"
proof -
  have "lineStart ls (lg_startLine g) \<le> me_matchIndex r"
    using r le lineStart_mono [of "lg_startLine g" a ls] by (simp add: lineRange_def)
  moreover have "me_end q \<le> lineStart ls (max (lg_endLine g) b)"
    if "q \<in> set (lg_replacements g) \<or> q = r" for q
    using that g r lineStart_mono [of "lg_endLine g" "max (lg_endLine g) b" ls]
      lineStart_mono [of b "max (lg_endLine g) b" ls]
    by (fastforce simp: group_ok_def lineRange_def)
  moreover have "\<exists>q \<in> set (lg_replacements g) \<union> {r}. touches q (spansFrom 0 ls ! i)"
    if "lg_startLine g \<le> i" "i < max (lg_endLine g) b" for i
  proof (cases "i < lg_endLine g")
    case True
    with g that show ?thesis by (fastforce simp: group_ok_def)
  next
    case False
    with that le have "i \<in> {a..<b}" by auto
    with r show ?thesis by (simp add: lineRange_def)
  qed
  ultimately show ?thesis using g r by (fastforce simp: group_ok_def lineRange_def)
qed

lemma group_spec:
  assumes "groupReplacements (spansFrom 0 ls) rs acc = Inr gs"
    and "sorted (map me_matchIndex (concat (map lg_replacements (rev acc)) @ rs))"
    and "groups_ok ls (rev acc)"
  shows "groups_ok ls gs \<and> concat (map lg_replacements gs) = concat (map lg_replacements (rev acc)) @ rs"
  using assms
proof (induction rs arbitrary: acc)
  case (Cons r rs)
  obtain a b where range: "getReplacementLineRange (spansFrom 0 ls) r = Inr (a, b)"
    using Cons.prems(1) by (auto split: sum.splits)
  note ab = range_spec [OF range]
  show ?case
  proof (cases acc)
    case Nil
    let ?h = "\<lparr>lg_startLine = a, lg_endLine = b, lg_replacements = [r]\<rparr>"
    have "groups_ok ls (rev [?h])" using group_new [OF ab] by (simp add: groups_ok_def)
    then show ?thesis using Cons.IH [of "[?h]"] Cons.prems range Nil by simp
  next
    case (Cons g earlier)
    have g: "group_ok ls g" and before: "\<forall>q \<in> set (lg_replacements g). me_matchIndex q \<le> me_matchIndex r"
      using Cons.prems Cons by (auto simp: groups_ok_def sorted_append)
    show ?thesis
    proof (cases "a < lg_endLine g")
      case True
      let ?g = "g\<lparr>lg_endLine := max (lg_endLine g) b, lg_replacements := lg_replacements g @ [r]\<rparr>"
      have "groups_ok ls (rev (?g # earlier))"
        using Cons.prems(3) Cons group_extend [OF g ab group_start_le [OF g ab before] True]
        by (simp add: groups_ok_def sorted_wrt_append)
      then show ?thesis
        using Cons.IH [of "?g # earlier"] Cons.prems Cons range True by simp
    next
      case False
      let ?h = "\<lparr>lg_startLine = a, lg_endLine = b, lg_replacements = [r]\<rparr>"
      have "\<forall>h \<in> set earlier. lg_endLine h \<le> a"
        using Cons.prems(3) Cons False g by (fastforce simp: groups_ok_def sorted_wrt_append group_ok_def)
      then have "groups_ok ls (rev (?h # acc))"
        using Cons.prems(3) Cons False group_new [OF ab] by (simp add: groups_ok_def sorted_wrt_append)
      then show ?thesis
        using Cons.IH [of "?h # acc"] Cons.prems Cons range False by simp
    qed
  qed
qed simp

section \<open>Blocks of lines\<close>

text \<open>A line that is copied, by its number, or lines that are rewritten as a text.\<close>

datatype line_block = Kept nat | Rewritten "nat list" jstr

fun blockLines :: "line_block \<Rightarrow> nat list" where
  "blockLines (Kept i) = [i]"
| "blockLines (Rewritten ks t) = ks"

fun blockText :: "jstr list \<Rightarrow> line_block \<Rightarrow> jstr" where
  "blockText ls (Kept i) = ls ! i"
| "blockText ls (Rewritten ks t) = t"

definition groupText :: "jstr list \<Rightarrow> line_group \<Rightarrow> jstr" where
  "groupText ls g =
     applyReplacements (concat (slice (lg_startLine g) (lg_endLine g) ls)) (lg_replacements g)
       (lineStart ls (lg_startLine g))"

fun blocksFrom :: "jstr list \<Rightarrow> line_group list \<Rightarrow> nat \<Rightarrow> line_block list" where
  "blocksFrom ls [] k = map Kept [k..<length ls]"
| "blocksFrom ls (g # gs) k =
     map Kept [k..<lg_startLine g] @ Rewritten [lg_startLine g..<lg_endLine g] (groupText ls g) #
     blocksFrom ls gs (lg_endLine g)"

lemma concat_slice: "a \<le> b \<Longrightarrow> b \<le> length ls \<Longrightarrow> concat (map ((!) ls) [a..<b]) = concat (slice a b ls)"
proof (induction b)
  case (Suc b)
  then show ?case
    by (cases "a = Suc b") (auto simp: slice_def le_Suc_eq take_Suc_conv_app_nth Suc_diff_le)
qed (simp add: slice_def)

lemma slice_concat:
  assumes "a \<le> b" "b \<le> length ls"
  shows "slice (lineStart ls a) (lineStart ls b) (concat ls) = concat (slice a b ls)"
proof -
  have "concat ls = concat (take a ls) @ concat (slice a b ls) @ concat (drop b ls)"
    using assms by (simp add: slice_def concat_append [symmetric] del: concat_append) (metis append_assoc append_take_drop_id assms(1) drop_drop le_add_diff_inverse2)
  moreover have "lineStart ls b = lineStart ls a + length (concat (slice a b ls))"
    using take_add [of a "b - a" ls] assms by (simp add: lineStart_def slice_def)
  ultimately show ?thesis unfolding slice_def [of "lineStart ls a"] by (simp add: lineStart_def [of ls a])
qed

lemma concat_drop_split:
  "a \<le> b \<Longrightarrow> b \<le> length ls \<Longrightarrow> concat (drop a ls) = concat (slice a b ls) @ concat (drop b ls)"
  unfolding slice_def concat_append [symmetric]
  by (metis append_take_drop_id drop_drop le_add_diff_inverse2)

lemma length_slice_lines:
  "a \<le> b \<Longrightarrow> b \<le> length ls \<Longrightarrow> lineStart ls a + length (concat (slice a b ls)) = lineStart ls b"
  using take_add [of a "b - a" ls] by (simp add: lineStart_def slice_def)

lemma groups_ok_Cons:
  "groups_ok ls (g # gs) \<Longrightarrow>
   group_ok ls g \<and> groups_ok ls gs \<and> (\<forall>h \<in> set gs. lg_endLine g \<le> lg_startLine h)"
  by (simp add: groups_ok_def)

lemma map_blockText_Kept: "map (blockText ls) (map Kept ks) = map ((!) ls) ks"
  by simp

lemma render_blocks:
  "groups_ok ls gs \<Longrightarrow> length os = length ls \<Longrightarrow> \<forall>g \<in> set gs. k \<le> lg_startLine g \<Longrightarrow> k \<le> length ls \<Longrightarrow>
   renderGroups os (concat ls) (spansFrom 0 ls) gs k = concat (map (blockText os) (blocksFrom ls gs k))"
proof (induction gs arbitrary: k)
  case Nil
  then show ?case
    using concat_slice [of k "length os" os] by (simp add: slice_def comp_def)
next
  case (Cons g gs)
  let ?s = "lg_startLine g" and ?e = "lg_endLine g"
  have g: "group_ok ls g" "groups_ok ls gs" "\<forall>h \<in> set gs. ?e \<le> lg_startLine h"
    using groups_ok_Cons [OF Cons.prems(1)] by auto
  then have se: "?s < ?e" "?e \<le> length ls" by (auto simp: group_ok_def)
  have "concat (map ((!) os) [k..<?s]) = concat (slice k ?s os)"
    using Cons.prems se by (intro concat_slice) auto
  moreover have "sp_start (spansFrom 0 ls ! ?s) = lineStart ls ?s"
    "sp_end (spansFrom 0 ls ! (?e - 1)) = lineStart ls ?e"
    using se by (simp_all add: nth_spansFrom)
  ultimately show ?case
    using Cons.IH [OF g(2) Cons.prems(2) g(3) se(2)] slice_concat [of ?s ?e ls] se
    by (simp add: groupText_def Let_def comp_def)
qed

lemma blocks_cover:
  "groups_ok ls gs \<Longrightarrow> \<forall>g \<in> set gs. k \<le> lg_startLine g \<Longrightarrow> k \<le> length ls \<Longrightarrow>
   concat (map blockLines (blocksFrom ls gs k)) = [k..<length ls]"
proof (induction gs arbitrary: k)
  case Nil
  then show ?case by (simp add: comp_def)
next
  case (Cons g gs)
  have g: "group_ok ls g" "groups_ok ls gs" "\<forall>h \<in> set gs. lg_endLine g \<le> lg_startLine h"
    using groups_ok_Cons [OF Cons.prems(1)] by auto
  then have "lg_startLine g < lg_endLine g" "lg_endLine g \<le> length ls" by (auto simp: group_ok_def)
  then show ?case
    using Cons.IH [OF g(2,3)] Cons.prems upt_add_eq_append [of k "lg_startLine g" "length ls - lg_startLine g"]
      upt_add_eq_append [of "lg_startLine g" "lg_endLine g" "length ls - lg_endLine g"]
    by (simp add: comp_def)
qed

lemma rewritten_touched:
  "groups_ok ls gs \<Longrightarrow> Rewritten ks t \<in> set (blocksFrom ls gs k) \<Longrightarrow> i \<in> set ks \<Longrightarrow>
   \<exists>r \<in> set (concat (map lg_replacements gs)). touches r (spansFrom 0 ls ! i)"
proof (induction gs arbitrary: k)
  case (Cons g gs)
  have g: "group_ok ls g" "groups_ok ls gs" using groups_ok_Cons [OF Cons.prems(1)] by auto
  consider "ks = [lg_startLine g..<lg_endLine g]" | "Rewritten ks t \<in> set (blocksFrom ls gs (lg_endLine g))"
    using Cons.prems(2) by auto
  then show ?case
  proof cases
    case 1
    with g Cons.prems(3) show ?thesis by (fastforce simp: group_ok_def)
  next
    case 2
    from Cons.IH [OF g(2) 2 Cons.prems(3)] show ?thesis by auto
  qed
qed auto

lemma follow_from: "follow p rs \<Longrightarrow> (\<forall>r \<in> set rs. q \<le> me_matchIndex r) \<Longrightarrow> follow q rs"
  by (cases rs) auto

lemma follow_append2: "follow p (rs @ qs) \<Longrightarrow> \<exists>q. follow q qs"
  by (induction rs arbitrary: p) auto

lemma splice_blocks:
  "groups_ok ls gs \<Longrightarrow> \<forall>g \<in> set gs. k \<le> lg_startLine g \<Longrightarrow> k \<le> length ls \<Longrightarrow>
   follow (lineStart ls k) (concat (map lg_replacements gs)) \<Longrightarrow>
   splice (lineStart ls k) (concat (drop k ls)) (concat (map lg_replacements gs)) =
     concat (map (blockText ls) (blocksFrom ls gs k))"
proof (induction gs arbitrary: k)
  case Nil
  then show ?case using concat_slice [of k "length ls" ls] by (simp add: slice_def comp_def)
next
  case (Cons g gs)
  let ?s = "lg_startLine g" and ?e = "lg_endLine g"
  let ?rs = "lg_replacements g" and ?qs = "concat (map lg_replacements gs)"
  let ?pre = "concat (slice k ?s ls)" and ?mid = "concat (slice ?s ?e ls)"
  have g: "group_ok ls g" "groups_ok ls gs" "\<forall>h \<in> set gs. ?e \<le> lg_startLine h"
    using groups_ok_Cons [OF Cons.prems(1)] by auto
  then have se: "k \<le> ?s" "?s < ?e" "?e \<le> length ls"
    and rs: "\<forall>r \<in> set ?rs. lineStart ls ?s \<le> me_matchIndex r" "endsBy (lineStart ls ?e) ?rs"
    using Cons.prems(2) by (auto simp: group_ok_def endsBy_def)
  have qs: "\<forall>r \<in> set ?qs. lineStart ls ?e \<le> me_matchIndex r"
  proof
    fix r assume "r \<in> set ?qs"
    then obtain h where h: "h \<in> set gs" "r \<in> set (lg_replacements h)" by auto
    then have "lineStart ls (lg_startLine h) \<le> me_matchIndex r"
      using g(2) by (auto simp: groups_ok_def group_ok_def)
    then show "lineStart ls ?e \<le> me_matchIndex r"
      using lineStart_mono [of ?e "lg_startLine h" ls] g(3) h(1) by fastforce
  qed
  have all: "follow (lineStart ls ?s) (?rs @ ?qs)"
  proof (rule follow_from)
    show "follow (lineStart ls k) (?rs @ ?qs)" using Cons.prems(4) by simp
    have "lineStart ls ?s \<le> me_matchIndex r" if "r \<in> set ?qs" for r
      using qs that lineStart_mono [OF less_imp_le [OF se(2)], of ls] by (meson le_trans)
    then show "\<forall>r \<in> set (?rs @ ?qs). lineStart ls ?s \<le> me_matchIndex r" using rs(1) by auto
  qed
  have later: "follow (lineStart ls ?e) ?qs"
    using follow_append2 [OF all] follow_from qs by blast
  note len = length_slice_lines [of k ?s ls] length_slice_lines [of ?s ?e ls]
  have "concat (drop k ls) = ?pre @ ?mid @ concat (drop ?e ls)"
    using concat_drop_split [of k ?s ls] concat_drop_split [of ?s ?e ls] se by simp
  then have "splice (lineStart ls k) (concat (drop k ls)) (?rs @ ?qs) =
      ?pre @ splice (lineStart ls ?s) (?mid @ concat (drop ?e ls)) (?rs @ ?qs)"
    using splice_pre [of "lineStart ls k" ?pre "?rs @ ?qs", unfolded len(1) [OF se(1) less_imp_le [OF less_le_trans [OF se(2,3)]]]] all
    by simp
  also have "splice (lineStart ls ?s) (?mid @ concat (drop ?e ls)) (?rs @ ?qs) =
      splice (lineStart ls ?s) ?mid ?rs @ splice (lineStart ls ?e) (concat (drop ?e ls)) ?qs"
    using splice_both [OF all, of ?mid "concat (drop ?e ls)", unfolded len(2) [OF less_imp_le [OF se(2)] se(3)]]
      rs(2) later by blast
  also have "splice (lineStart ls ?s) ?mid ?rs = groupText ls g"
    using applyReplacements_splice [OF follow_append [OF all], of ?mid, unfolded len(2) [OF less_imp_le [OF se(2)] se(3)]]
      rs(2) by (simp only: groupText_def)
  also have "splice (lineStart ls ?e) (concat (drop ?e ls)) ?qs = concat (map (blockText ls) (blocksFrom ls gs ?e))"
    using Cons.IH [OF g(2,3) se(3) later] .
  finally show ?case
    using concat_slice [of k ?s ls] se by (simp add: comp_def)
qed

end
