(* ===== verification/EditDiffProps.thy ===== *)
theory EditDiffProps
  imports EditDiffFacts
begin

text \<open>
  The properties of the edit tool's replacement: exact edits replace their matches at once,
  a fuzzy match rewrites the lines it touches only, and the errors on blanks at the end of a text.
\<close>

section \<open>Matches\<close>

lemma matchEdits_spec:
  "matchEdits nfkc base path n i es = Inr ms \<Longrightarrow>
   length ms = length es \<and>
   (\<forall>k < length es. me_editIndex (ms ! k) = i + k \<and> me_newText (ms ! k) = ed_newText (es ! k) \<and>
      fm_found (fuzzyFindText nfkc base (ed_oldText (es ! k))) \<and>
      me_matchIndex (ms ! k) = nat (fm_index (fuzzyFindText nfkc base (ed_oldText (es ! k)))) \<and>
      me_matchLength (ms ! k) = fm_matchLength (fuzzyFindText nfkc base (ed_oldText (es ! k))))"
proof (induction es arbitrary: i ms)
  case (Cons e es)
  obtain ms' where rest: "matchEdits nfkc base path n (Suc i) es = Inr ms'"
    and ms: "ms = \<lparr>me_editIndex = i, me_matchIndex = nat (fm_index (fuzzyFindText nfkc base (ed_oldText e))),
      me_matchLength = fm_matchLength (fuzzyFindText nfkc base (ed_oldText e)), me_newText = ed_newText e\<rparr> # ms'"
    and found: "fm_found (fuzzyFindText nfkc base (ed_oldText e))"
    using Cons.prems by (auto simp: Let_def split: if_splits sum.splits)
  from Cons.IH [OF rest] found show ?case by (auto simp: ms nth_Cons split: nat.splits)
qed simp

lemma fuzzyFind_exact:
  "indexOf base old = Some j \<Longrightarrow>
   fuzzyFindText nfkc base old =
     \<lparr>fm_found = True, fm_index = int j, fm_matchLength = length old, fm_usedFuzzyMatch = False,
      fm_contentForReplacement = base\<rparr>"
  by (simp add: fuzzyFindText_def)

lemma findOverlap_follow:
  "findOverlap ms = None \<Longrightarrow> follow (case ms of [] \<Rightarrow> 0 | m # _ \<Rightarrow> me_matchIndex m) ms"
  by (induction ms rule: findOverlap.induct) (auto split: if_splits)

lemma findOverlap_follow_0: "findOverlap ms = None \<Longrightarrow> follow 0 ms"
  using findOverlap_follow [of ms] follow_mono by fastforce

text \<open>What a successful call has passed through.\<close>

lemma applyEdits_elim:
  assumes "applyEditsToNormalizedContent nfkc content edits path = Inr res"
  obtains ms where
    "matchEdits nfkc
       (if usesFuzzyMatch nfkc content (map normalizeEdit edits) then normalizeForFuzzyMatch nfkc content else content)
       path (length edits) 0 (map normalizeEdit edits) = Inr ms"
    "follow 0 (sort_key me_matchIndex ms)"
    "replaceMatched (usesFuzzyMatch nfkc content (map normalizeEdit edits)) content
       (if usesFuzzyMatch nfkc content (map normalizeEdit edits) then normalizeForFuzzyMatch nfkc content else content)
       (sort_key me_matchIndex ms) = Inr (ar_newContent res)"
    "ar_newContent res \<noteq> content" "ar_baseContent res = content"
proof -
  note findOverlap_follow_0 [dest]
  show ?thesis
    using assms
    by (auto simp: applyEditsToNormalizedContent_def Let_def split: option.splits sum.splits if_splits
        intro!: that)
qed

section \<open>Exact edits\<close>

lemma splice_gaps:
  assumes "follow p rs" "endsBy (p + length c) rs"
    and "\<forall>r \<in> set rs. take (me_matchLength r) (drop (me_matchIndex r - p) c) = f r"
  shows "\<exists>gaps rest. length gaps = length rs \<and> c = concat (map2 (\<lambda>g r. g @ f r) gaps rs) @ rest \<and>
    splice p c rs = concat (map2 (\<lambda>g r. g @ me_newText r) gaps rs) @ rest"
  using assms
proof (induction rs arbitrary: p c)
  case (Cons r rs)
  have b: "p \<le> me_matchIndex r" "me_end r \<le> p + length c" "follow (me_end r) rs" "endsBy (p + length c) rs"
    using Cons.prems by (auto simp: endsBy_def)
  let ?d = "drop (me_end r - p) c"
  have "take (me_matchLength q) (drop (me_matchIndex q - me_end r) ?d) = f q" if "q \<in> set rs" for q
  proof -
    have "me_matchIndex q - me_end r + (me_end r - p) = me_matchIndex q - p"
      using follow_index [OF b(3) that] b(1) by (simp add: me_end_def)
    then show ?thesis using Cons.prems(3) that by (simp add: add.commute)
  qed
  then obtain gaps rest where IH: "length gaps = length rs" "?d = concat (map2 (\<lambda>g r. g @ f r) gaps rs) @ rest"
    "splice (me_end r) ?d rs = concat (map2 (\<lambda>g r. g @ me_newText r) gaps rs) @ rest"
    using Cons.IH [of "me_end r" ?d, unfolded length_behind(1) [OF b(1,2)], OF b(3,4)] by blast
  have "c = take (me_matchIndex r - p) c @ take (me_matchLength r) (drop (me_matchIndex r - p) c) @ ?d"
  proof -
    have "me_end r - p = (me_matchIndex r - p) + me_matchLength r" using b(1) by (simp add: me_end_def)
    then show ?thesis by (simp add: take_add [symmetric] append_assoc [symmetric] del: append_assoc)
  qed
  then have "c = concat (map2 (\<lambda>g r. g @ f r) (take (me_matchIndex r - p) c # gaps) (r # rs)) @ rest"
    using Cons.prems(3) IH(2) by simp
  moreover have "splice p c (r # rs) =
      concat (map2 (\<lambda>g r. g @ me_newText r) (take (me_matchIndex r - p) c # gaps) (r # rs)) @ rest"
    using IH(3) by simp
  ultimately show ?case using IH(1) by (metis length_Cons)
qed simp

lemma map2_map_right: "map2 f xs (map g ys) = map2 (\<lambda>x y. f x (g y)) xs ys"
  by (simp add: zip_map2 comp_def case_prod_beta)

lemma exact_gaps:
  assumes "applyEditsToNormalizedContent nfkc content edits path = Inr res"
    and "\<forall>e \<in> set edits. includesStr content (normalizeToLF (ed_oldText e))"
  shows "\<exists>es gaps rest. mset es = mset (map normalizeEdit edits) \<and> length gaps = length es \<and>
    content = concat (map2 (\<lambda>g e. g @ ed_oldText e) gaps es) @ rest \<and>
    ar_newContent res = concat (map2 (\<lambda>g e. g @ ed_newText e) gaps es) @ rest"
proof -
  let ?es = "map normalizeEdit edits"
  have exact: "\<exists>j. indexOf content (ed_oldText e) = Some j" if "e \<in> set ?es" for e
    using assms(2) that by (auto simp: includesStr_def normalizeEdit_def)
  then have nf: "\<not> usesFuzzyMatch nfkc content ?es"
  proof -
    have "\<not> fm_usedFuzzyMatch (fuzzyFindText nfkc content (ed_oldText e))" if "e \<in> set ?es" for e
      using exact [OF that] fuzzyFind_exact [of content "ed_oldText e" _ nfkc] by auto
    then show ?thesis unfolding usesFuzzyMatch_def by blast
  qed
  obtain ms where
    ms: "matchEdits nfkc content path (length edits) 0 ?es = Inr ms" and fl: "follow 0 (sort_key me_matchIndex ms)"
    and new: "applyReplacements content (sort_key me_matchIndex ms) 0 = ar_newContent res"
    by (rule applyEdits_elim [OF assms(1)], rule that) (simp_all add: nf replaceMatched_def)
  let ?f = "\<lambda>m. ?es ! me_editIndex m"
  note spec = matchEdits_spec [OF ms]
  have each: "me_newText m = ed_newText (?f m) \<and> me_end m \<le> length content \<and>
      take (me_matchLength m) (drop (me_matchIndex m) content) = ed_oldText (?f m)" if m: "m \<in> set ms" for m
  proof -
    obtain k where k: "k < length ?es" "m = ms ! k" using m spec by (auto simp: in_set_conv_nth)
    obtain j where j: "indexOf content (ed_oldText (?es ! k)) = Some j" using exact k(1) by (meson nth_mem)
    have "me_editIndex m = k" "me_newText m = ed_newText (?es ! k)" "me_matchIndex m = j"
      "me_matchLength m = length (ed_oldText (?es ! k))"
      using spec k fuzzyFind_exact [OF j, of nfkc] by auto
    then show ?thesis using indexOf_Some_bound [OF j] indexOf_Some_take [OF j] by (simp add: me_end_def)
  qed
  have ends: "endsBy (0 + length content) (sort_key me_matchIndex ms)" using each by (simp add: endsBy_def)
  obtain gaps rest where g: "length gaps = length (sort_key me_matchIndex ms)"
    "content = concat (map2 (\<lambda>g r. g @ ed_oldText (?f r)) gaps (sort_key me_matchIndex ms)) @ rest"
    "splice 0 content (sort_key me_matchIndex ms) =
     concat (map2 (\<lambda>g r. g @ me_newText r) gaps (sort_key me_matchIndex ms)) @ rest"
    using splice_gaps [OF fl ends, of "\<lambda>r. ed_oldText (?f r)"] each by auto
  have meq: "map2 (\<lambda>g r. g @ me_newText r) gaps (sort_key me_matchIndex ms) =
      map2 (\<lambda>g r. g @ ed_newText (?f r)) gaps (sort_key me_matchIndex ms)"
    using each by (intro map_cong) (auto dest: set_zip_rightD)
  have "ar_newContent res = concat (map2 (\<lambda>g r. g @ ed_newText (?f r)) gaps (sort_key me_matchIndex ms)) @ rest"
    using g(3) new [symmetric] applyReplacements_splice [OF fl ends] by (simp only: meq)
  moreover have "mset (map ?f (sort_key me_matchIndex ms)) = mset ?es"
  proof -
    have "map ?f ms = ?es" using spec by (intro nth_equalityI) auto
    then show ?thesis by (metis mset_map mset_sort)
  qed
  ultimately show ?thesis
    using g(1,2)
    by (intro exI [of _ "map ?f (sort_key me_matchIndex ms)"] exI [of _ gaps] exI [of _ rest])
      (simp only: map2_map_right length_map simp_thms)
qed

text \<open>When every old text occurs as it is, the edits are a simultaneous replacement: the content
  falls into gaps and the old texts, each edit once and in the order of the text, and the new
  content has the new texts between the same gaps.\<close>

theorem exact_edits_replace_matches:
  assumes "applyEditsToNormalizedContent nfkc content edits path = Inr res"
    and "\<forall>e \<in> set edits. includesStr content (normalizeToLF (ed_oldText e))"
  shows "\<exists>es gaps rest. mset es = mset (map normalizeEdit edits) \<and> length gaps = length es \<and>
    content = concat (map2 (\<lambda>g e. g @ ed_oldText e) gaps es) @ rest \<and>
    ar_newContent res = concat (map2 (\<lambda>g e. g @ ed_newText e) gaps es) @ rest"
  using exact_gaps [OF assms] .

theorem exact_edits_replace_matches_witness:
  "let content = js ''one two'';
       edits = [\<lparr>ed_oldText = js ''two'', ed_newText = js ''2''\<rparr>, \<lparr>ed_oldText = js ''one'', ed_newText = js ''1''\<rparr>]
   in ar_newContent (projr (applyEditsToNormalizedContent id content edits (js ''f''))) = js ''1 2'' \<and>
     (\<exists>es gaps rest. mset es = mset (map normalizeEdit edits) \<and> length gaps = length es \<and>
       content = concat (map2 (\<lambda>g e. g @ ed_oldText e) gaps es) @ rest \<and>
       js ''1 2'' = concat (map2 (\<lambda>g e. g @ ed_newText e) gaps es) @ rest)"
proof -
  let ?content = "js ''one two''"
  let ?edits = "[\<lparr>ed_oldText = js ''two'', ed_newText = js ''2''\<rparr>, \<lparr>ed_oldText = js ''one'', ed_newText = js ''1''\<rparr>]"
  have run: "applyEditsToNormalizedContent id ?content ?edits (js ''f'') =
      Inr \<lparr>ar_baseContent = ?content, ar_newContent = js ''1 2''\<rparr>" by code_simp
  have inc: "\<forall>e \<in> set ?edits. includesStr ?content (normalizeToLF (ed_oldText e))" by code_simp
  from exact_edits_replace_matches [OF run inc] run show ?thesis by (simp add: Let_def)
qed

section \<open>Untouched lines\<close>

lemma preserving_blocks:
  assumes run: "applyReplacementsPreservingUnchangedLines original base ms = Inr out"
    and fl: "follow 0 (sort_key me_matchIndex ms)"
  shows "\<exists>blocks. length (splitLinesWithEndings original) = length (splitLinesWithEndings base) \<and>
    concat (map blockLines blocks) = [0..<length (splitLinesWithEndings original)] \<and>
    out = concat (map (blockText (splitLinesWithEndings original)) blocks) \<and>
    applyReplacements base (sort_key me_matchIndex ms) 0 =
      concat (map (blockText (splitLinesWithEndings base)) blocks) \<and>
    (\<forall>ks t i. Rewritten ks t \<in> set blocks \<longrightarrow> i \<in> set ks \<longrightarrow>
       (\<exists>r \<in> set ms. touches r (getLineSpans base ! i)))"
proof -
  let ?os = "splitLinesWithEndings original" and ?ls = "splitLinesWithEndings base"
  obtain gs where len: "length ?os = length ?ls"
    and gs: "groupReplacements (spansFrom 0 ?ls) (sort_key me_matchIndex ms) [] = Inr gs"
    and out: "out = renderGroups ?os base (spansFrom 0 ?ls) gs 0"
    using run
    by (auto simp: applyReplacementsPreservingUnchangedLines_def getLineSpans_def Let_def split: if_splits sum.splits)
  have ok: "groups_ok ?ls gs" "concat (map lg_replacements gs) = sort_key me_matchIndex ms"
    using group_spec [OF gs] by (auto simp: groups_ok_def)
  let ?blocks = "blocksFrom ?ls gs 0"
  have "out = concat (map (blockText ?os) ?blocks)"
    using render_blocks [OF ok(1) len, of 0] out by simp
  moreover have "concat (map blockLines ?blocks) = [0..<length ?os]"
    using blocks_cover [OF ok(1), of 0] len by simp
  moreover have "endsBy (0 + length base) (sort_key me_matchIndex ms)"
  proof -
    have "me_end r \<le> length base" if r: "r \<in> set (concat (map lg_replacements gs))" for r
    proof -
      obtain g where "g \<in> set gs" "r \<in> set (lg_replacements g)" using r by auto
      then have "me_end r \<le> lineStart ?ls (lg_endLine g)" "lg_endLine g \<le> length ?ls"
        using ok(1) by (auto simp: groups_ok_def group_ok_def)
      then show ?thesis using lineStart_mono [of "lg_endLine g" "length ?ls" ?ls] by (simp add: lineStart_def)
    qed
    then show ?thesis by (simp add: endsBy_def ok(2))
  qed
  then have "applyReplacements base (sort_key me_matchIndex ms) 0 = concat (map (blockText ?ls) ?blocks)"
    using splice_blocks [OF ok(1), of 0] applyReplacements_splice [OF fl] fl ok(2) by simp
  moreover have "\<exists>r \<in> set ms. touches r (getLineSpans base ! i)"
    if "Rewritten ks t \<in> set ?blocks" "i \<in> set ks" for ks t i
    using rewritten_touched [OF ok(1) that] by (simp add: ok(2) getLineSpans_def)
  ultimately show ?thesis using len by blast
qed

lemma covered_kept:
  assumes "concat (map blockLines blocks) = [0..<n]" "i < n"
    and "\<And>ks t. Rewritten ks t \<in> set blocks \<Longrightarrow> i \<notin> set ks"
  shows "Kept i \<in> set blocks"
proof -
  have "i \<in> set (concat (map blockLines blocks))" using assms(1,2) by simp
  then obtain b where "b \<in> set blocks" "i \<in> set (blockLines b)" by auto
  show ?thesis
  proof (cases b)
    case (Kept j)
    with \<open>b \<in> set blocks\<close> \<open>i \<in> set (blockLines b)\<close> show ?thesis by simp
  next
    case (Rewritten ks t)
    with \<open>b \<in> set blocks\<close> \<open>i \<in> set (blockLines b)\<close> assms(3) show ?thesis by auto
  qed
qed

text \<open>C29: When a match is fuzzy, the new content is made of blocks that cover the lines in order: each
  line that no match touches is copied from the original as it is, and the other blocks are as in
  the replacement within the normalised text.\<close>

theorem fuzzy_edits_keep_untouched_lines:
  assumes "applyEditsToNormalizedContent nfkc content edits path = Inr res"
    and "usesFuzzyMatch nfkc content (map normalizeEdit edits)"
    and "base = normalizeForFuzzyMatch nfkc content"
    and "os = splitLinesWithEndings content"
  shows "\<exists>ms blocks. matchEdits nfkc base path (length edits) 0 (map normalizeEdit edits) = Inr ms \<and>
    concat (map blockLines blocks) = [0..<length os] \<and>
    ar_newContent res = concat (map (blockText os) blocks) \<and>
    applyReplacements base (sort_key me_matchIndex ms) 0 =
      concat (map (blockText (splitLinesWithEndings base)) blocks) \<and>
    (\<forall>i < length os. (\<forall>r \<in> set ms. \<not> touches r (getLineSpans base ! i)) \<longrightarrow> Kept i \<in> set blocks)"
proof -
  obtain ms where ms: "matchEdits nfkc base path (length edits) 0 (map normalizeEdit edits) = Inr ms"
    and fl: "follow 0 (sort_key me_matchIndex ms)"
    and run: "applyReplacementsPreservingUnchangedLines content base (sort_key me_matchIndex ms) = Inr (ar_newContent res)"
    by (rule applyEdits_elim [OF assms(1)], rule that) (simp_all add: assms(2,3) replaceMatched_def)
  have same: "sort_key me_matchIndex (sort_key me_matchIndex ms) = sort_key me_matchIndex ms"
    by (simp add: sort_key_id_if_sorted)
  from preserving_blocks [OF run] fl obtain blocks where
    cover: "concat (map blockLines blocks) = [0..<length os]"
    and new: "ar_newContent res = concat (map (blockText os) blocks)"
    and plain: "applyReplacements base (sort_key me_matchIndex ms) 0 =
      concat (map (blockText (splitLinesWithEndings base)) blocks)"
    and touched: "\<forall>ks t i. Rewritten ks t \<in> set blocks \<longrightarrow> i \<in> set ks \<longrightarrow>
      (\<exists>r \<in> set (sort_key me_matchIndex ms). touches r (getLineSpans base ! i))"
    unfolding same assms(4) by blast
  have "Kept i \<in> set blocks" if "i < length os" "\<forall>r \<in> set ms. \<not> touches r (getLineSpans base ! i)" for i
    using touched that(2) by (intro covered_kept [OF cover that(1)]) auto
  then show ?thesis using ms cover new plain by blast
qed

definition smartLines :: jstr where
  "smartLines = js ''a  '' @ [10, 0x2019] @ js ''b'' @ [10] @ js ''c  ''  @ [10]"

theorem fuzzy_edits_keep_untouched_lines_witness:
  "let edits = [\<lparr>ed_oldText = [39] @ js ''b'', ed_newText = js ''d''\<rparr>];
       base = normalizeForFuzzyMatch id smartLines; os = splitLinesWithEndings smartLines
   in ar_newContent (projr (applyEditsToNormalizedContent id smartLines edits (js ''f''))) =
        js ''a  '' @ [10] @ js ''d'' @ [10] @ js ''c  '' @ [10] \<and>
     (\<exists>ms blocks. matchEdits id base (js ''f'') (length edits) 0 (map normalizeEdit edits) = Inr ms \<and>
       concat (map blockLines blocks) = [0..<length os] \<and>
       js ''a  '' @ [10] @ js ''d'' @ [10] @ js ''c  '' @ [10] = concat (map (blockText os) blocks) \<and>
       applyReplacements base (sort_key me_matchIndex ms) 0 =
         concat (map (blockText (splitLinesWithEndings base)) blocks) \<and>
       (\<forall>i < length os. (\<forall>r \<in> set ms. \<not> touches r (getLineSpans base ! i)) \<longrightarrow> Kept i \<in> set blocks))"
proof -
  let ?edits = "[\<lparr>ed_oldText = [39] @ js ''b'', ed_newText = js ''d''\<rparr>]"
  have run: "applyEditsToNormalizedContent id smartLines ?edits (js ''f'') =
      Inr \<lparr>ar_baseContent = smartLines, ar_newContent = js ''a  '' @ [10] @ js ''d'' @ [10] @ js ''c  '' @ [10]\<rparr>"
    by code_simp
  have fuzzy: "usesFuzzyMatch id smartLines (map normalizeEdit ?edits)" by code_simp
  from fuzzy_edits_keep_untouched_lines [OF run fuzzy refl refl] run show ?thesis by (simp add: Let_def)
qed

section \<open>Without normalisation\<close>

lemma line_of: "q < lineStart ls n \<Longrightarrow> \<exists>k < n. lineStart ls k \<le> q \<and> q < lineStart ls (Suc k)"
proof (induction n)
  case (Suc n)
  show ?case
  proof (cases "q < lineStart ls n")
    case True
    with Suc.IH show ?thesis using less_SucI by blast
  next
    case False
    with Suc.prems show ?thesis by (intro exI [of _ n]) simp
  qed
qed simp

lemma range_total:
  assumes "me_matchIndex r < length (concat ls)" "me_end r \<le> length (concat ls)"
  shows "\<exists>a b. getReplacementLineRange (spansFrom 0 ls) r = Inr (a, b)"
proof -
  let ?S = "spansFrom 0 ls" and ?n = "length ls"
  have full: "lineStart ls ?n = length (concat ls)" by (simp add: lineStart_def)
  obtain k where k: "k < ?n" "lineStart ls k \<le> me_matchIndex r" "me_matchIndex r < lineStart ls (Suc k)"
    using line_of [of "me_matchIndex r" ls ?n] assms(1) full by auto
  then have "findIndex (\<lambda>l. sp_start l \<le> me_matchIndex r \<and> me_matchIndex r < sp_end l) ?S \<noteq> None"
    using nth_mem [of k ?S] by (auto simp: findIndex_None nth_spansFrom intro!: bexI [of _ "?S ! k"])
  then obtain a where a: "findIndex (\<lambda>l. sp_start l \<le> me_matchIndex r \<and> me_matchIndex r < sp_end l) ?S = Some a"
    by auto
  then have "a < ?n" using findIndex_Some [OF a] by simp
  then have "?S ! (?n - 1) \<in> set (drop a ?S)"
    using nth_mem [of "?n - 1 - a" "drop a ?S"] by simp
  moreover have "sp_end (?S ! (?n - 1)) = length (concat ls)"
    using \<open>a < ?n\<close> full by (cases ls rule: rev_cases) (simp_all add: nth_spansFrom)
  ultimately have "findIndex (\<lambda>l. \<not> sp_end l < me_end r) (drop a ?S) \<noteq> None"
    using assms(2) by (auto simp: findIndex_None intro!: bexI [of _ "?S ! (?n - 1)"])
  with a show ?thesis by (auto simp: getReplacementLineRange_def)
qed

lemma groups_total:
  "\<forall>r \<in> set rs. \<exists>a b. getReplacementLineRange lines r = Inr (a, b) \<Longrightarrow>
   \<exists>gs. groupReplacements lines rs acc = Inr gs"
  by (induction lines rs acc rule: groupReplacements.induct) (auto split: list.splits)

text \<open>On a text that is its own normal form the line-preserving replacement is the plain
  replacement: for matches inside the text that do not overlap it succeeds, and both give the
  same.\<close>

theorem preserving_is_plain_replacement:
  assumes "\<forall>r \<in> set ms. me_matchIndex r < length content \<and> me_end r \<le> length content"
    and "findOverlap (sort_key me_matchIndex ms) = None"
  shows "applyReplacementsPreservingUnchangedLines content content ms =
    Inr (applyReplacements content (sort_key me_matchIndex ms) 0)"
proof -
  have "\<forall>r \<in> set (sort_key me_matchIndex ms). \<exists>a b. getReplacementLineRange (getLineSpans content) r = Inr (a, b)"
    using assms(1) range_total [of _ "splitLinesWithEndings content"] by (simp add: getLineSpans_def)
  from groups_total [OF this, of "[]"] obtain out where
    "applyReplacementsPreservingUnchangedLines content content ms = Inr out"
    by (auto simp: applyReplacementsPreservingUnchangedLines_def getLineSpans_def Let_def)
  with preserving_blocks [OF this findOverlap_follow_0 [OF assms(2)]] show ?thesis by auto
qed

theorem preserving_is_plain_replacement_witness:
  "let ms = [\<lparr>me_editIndex = 0, me_matchIndex = 4, me_matchLength = 3, me_newText = js ''2''\<rparr>,
             \<lparr>me_editIndex = 1, me_matchIndex = 0, me_matchLength = 3, me_newText = js ''1''\<rparr>]
   in applyReplacementsPreservingUnchangedLines (js ''one two'') (js ''one two'') ms =
        Inr (applyReplacements (js ''one two'') (sort_key me_matchIndex ms) 0)"
  unfolding Let_def by (rule preserving_is_plain_replacement) (simp_all add: me_end_def)

section \<open>Blanks at the end\<close>

lemma splitLines_Nil [simp]: "splitLinesWithEndings s = [] \<longleftrightarrow> s = []"
  by (cases s) (auto split: list.splits)

lemma splitLines_snoc:
  "splitLinesWithEndings (t @ 10 # s) = splitLinesWithEndings (t @ [10]) @ splitLinesWithEndings s"
  by (induction t) (auto split: list.splits)

lemma length_lines_nl: "length (splitLinesWithEndings (t @ [10])) = count_list t 10 + 1"
proof (induction t)
  case (Cons c t)
  then show ?case by (cases "c = 10") (auto split: list.splits)
qed simp

lemma lines_without_nl: "10 \<notin> set s \<Longrightarrow> s \<noteq> [] \<Longrightarrow> splitLinesWithEndings s = [s]"
proof (induction s)
  case (Cons c s)
  then show ?case by (cases "s = []") (auto split: list.splits)
qed simp

lemma count_splitOn: "count_list s c = length (splitOn c s) - 1"
proof (induction s)
  case (Cons x s)
  obtain l ls where "splitOn c s = l # ls" using splitOn_not_Nil neq_Nil_conv by metis
  with Cons show ?case by simp
qed simp

lemma count_joinWith:
  "\<forall>l \<in> set ls. c \<notin> set l \<Longrightarrow> count_list (joinWith [c] ls) c = length ls - 1"
  by (induction "[c]" ls rule: joinWith.induct) (auto simp: count_notin)

lemma set_trimEnd: "set (trimEnd s) \<subseteq> set s"
  using set_dropWhileD [of _ isSpace "rev s"] by (auto simp: trimEnd_def)

lemma trimEnd_spaces: "\<forall>c \<in> set s. isSpace c \<Longrightarrow> trimEnd s = []"
  by (simp add: trimEnd_def)

lemma fuzzyChar_nl: "fuzzyChar c = 10 \<longleftrightarrow> c = 10"
  by (cases "c = 10") (auto simp: fuzzyChar_def)

lemma count_map_fuzzy: "count_list (map fuzzyChar s) 10 = count_list s 10"
  by (induction s) (auto simp: fuzzyChar_nl)

lemma lines_lost:
  assumes "10 \<notin> set blanks" "blanks \<noteq> []" "\<forall>c \<in> set blanks. isSpace c"
    and "nfkc (s @ 10 # blanks) = s @ 10 # blanks"
  shows "length (splitLinesWithEndings (normalizeForFuzzyMatch nfkc (s @ 10 # blanks))) <
    length (splitLinesWithEndings (s @ 10 # blanks))"
proof -
  let ?t = "joinWith [10] (map trimEnd (splitOn 10 s))"
  have "normalizeForFuzzyMatch nfkc (s @ 10 # blanks) = map fuzzyChar ?t @ [10]"
    using assms by (simp add: normalizeForFuzzyMatch_def splitOn_snoc_line joinWith_append_one trimEnd_spaces fuzzyChar_nl)
  moreover have "count_list ?t 10 = length (map trimEnd (splitOn 10 s)) - 1"
    using splitOn_no_sep set_trimEnd by (intro count_joinWith) fastforce
  ultimately show ?thesis
    using assms(1,2) by (simp add: length_lines_nl count_map_fuzzy splitLines_snoc [of s blanks] lines_without_nl
        count_splitOn [of s])
qed

text \<open>A content whose last line is blank and has no line break takes no fuzzy edit: whatever the
  matches, the lines of the two texts do not correspond and the edit is refused.\<close>

theorem fuzzy_edit_refused_for_blank_end:
  assumes "content = s @ 10 # blanks" "blanks \<noteq> []" "\<forall>c \<in> set blanks. isSpace c" "10 \<notin> set blanks"
    and "nfkc content = content"
    and "usesFuzzyMatch nfkc content (map normalizeEdit edits)"
  shows "(\<forall>ms. applyReplacementsPreservingUnchangedLines content (normalizeForFuzzyMatch nfkc content) ms =
      Inl lineCountError) \<and>
    (\<exists>e. applyEditsToNormalizedContent nfkc content edits path = Inl e)"
proof -
  have refused: "applyReplacementsPreservingUnchangedLines content (normalizeForFuzzyMatch nfkc content) ms =
      Inl lineCountError" for ms
    using lines_lost [OF assms(4,2,3), of nfkc s] assms(1,5)
    by (simp add: applyReplacementsPreservingUnchangedLines_def getLineSpans_def)
  moreover have "\<exists>e. applyEditsToNormalizedContent nfkc content edits path = Inl e"
  proof (cases "applyEditsToNormalizedContent nfkc content edits path")
    case (Inr res)
    then have False
      by (rule applyEdits_elim) (simp add: assms(6) replaceMatched_def refused)
    then show ?thesis ..
  qed blast
  ultimately show ?thesis by blast
qed

theorem fuzzy_edit_refused_for_blank_end_witness:
  "let content = [0x2019] @ js ''b'' @ [10, 32]; edits = [\<lparr>ed_oldText = [39] @ js ''b'', ed_newText = js ''d''\<rparr>]
   in applyEditsToNormalizedContent id content edits (js ''f'') = Inl lineCountError \<and>
     (\<exists>e. applyEditsToNormalizedContent id content edits (js ''f'') = Inl e)"
proof -
  let ?s = "[0x2019] @ js ''b''" let ?content = "[0x2019] @ js ''b'' @ [10, 32]"
  let ?edits = "[\<lparr>ed_oldText = [39] @ js ''b'', ed_newText = js ''d''\<rparr>]"
  have content: "?content = ?s @ 10 # [32]" by simp
  have blank: "\<forall>c \<in> set [32]. isSpace c" by (simp add: isSpace_def)
  have fuzzy: "usesFuzzyMatch id ?content (map normalizeEdit ?edits)" by code_simp
  have "applyEditsToNormalizedContent id ?content ?edits (js ''f'') = Inl lineCountError" by code_simp
  then show ?thesis
    using fuzzy_edit_refused_for_blank_end [OF content _ blank _ id_apply fuzzy, of "js ''f''"]
    by (simp add: Let_def)
qed

text \<open>An old text of blanks is normalised to the empty text, by which the count splits the content
  into its characters: it counts as found as often as the content has characters.\<close>

theorem blank_old_text_refused:
  assumes "blanks \<noteq> []" "\<forall>c \<in> set blanks. isSpace c" "10 \<notin> set blanks" "13 \<notin> set blanks" "nfkc blanks = blanks"
    and "includesStr content blanks" and "length (normalizeForFuzzyMatch nfkc content) > 2"
  shows "applyEditsToNormalizedContent nfkc content [\<lparr>ed_oldText = blanks, ed_newText = t\<rparr>] path =
    Inl (getDuplicateError path 0 1 (int (length (normalizeForFuzzyMatch nfkc content)) - 1))"
proof -
  have lf: "normalizeToLF blanks = blanks"
  proof -
    have "13 \<notin> set s \<Longrightarrow> joinCrLf s = s" for s by (induction s rule: joinCrLf.induct) auto
    then show ?thesis using assms(4) by (auto simp: normalizeToLF_def intro: map_idI)
  qed
  obtain j where j: "indexOf content blanks = Some j" using assms(6) by (auto simp: includesStr_def)
  have "normalizeForFuzzyMatch nfkc blanks = []"
    using assms(2,3,5) by (simp add: normalizeForFuzzyMatch_def splitOn_id trimEnd_spaces)
  then show ?thesis
    using assms(1,7) fuzzyFind_exact [OF j, of nfkc]
    by (simp add: applyEditsToNormalizedContent_def usesFuzzyMatch_def normalizeEdit_def lf Let_def
        countOccurrences_def splitCount_def)
qed

end
