(* ===== verification/CodingPaths.thy ===== *)
theory CodingPaths
  imports NodePath
begin

text \<open>
  The paths that the coding agent's tools are given, packages/coding-agent/src/utils/paths.ts and
  core/tools/path-utils.ts, on a POSIX platform. The home directory, the working directory, the
  conversion of file URLs, the existence of files and the Unicode form NFD are parameters.
\<close>

section \<open>utils/paths.ts\<close>

record path_input_options =
  pio_trim :: bool
  pio_expandTilde :: "bool option"
  pio_homeDir :: "jstr option"
  pio_stripAtPrefix :: bool
  pio_normalizeUnicodeSpaces :: bool

definition noPathOptions :: path_input_options where
  "noPathOptions = \<lparr>pio_trim = False, pio_expandTilde = None, pio_homeDir = None, pio_stripAtPrefix = False,
     pio_normalizeUnicodeSpaces = False\<rparr>"

text \<open>What the runtime supplies: \<open>homedir\<close>, the working directory and \<open>fileURLToPath\<close>, which may throw.\<close>

record path_env =
  pe_home :: jstr
  pe_cwd :: jstr
  pe_fileURLToPath :: "jstr \<Rightarrow> jstr + jstr"

definition canonicalizePath :: "(jstr \<Rightarrow> jstr option) \<Rightarrow> jstr \<Rightarrow> jstr" where
  "canonicalizePath realpath p = (case realpath p of Some q \<Rightarrow> q | None \<Rightarrow> p)"

definition isLocalPath :: "jstr \<Rightarrow> bool" where
  "isLocalPath value =
     (let trimmed = trim value
      in \<not> (prefix (js ''npm:'') trimmed \<or> prefix (js ''git:'') trimmed \<or> prefix (js ''github:'') trimmed \<or>
            prefix (js ''http:'') trimmed \<or> prefix (js ''https:'') trimmed \<or> prefix (js ''ssh:'') trimmed))"

definition unicodeSpace :: "jchar \<Rightarrow> bool" where
  "unicodeSpace c \<longleftrightarrow> c = 0xA0 \<or> 0x2000 \<le> c \<and> c \<le> 0x200A \<or> c = 0x202F \<or> c = 0x205F \<or> c = 0x3000"

definition plainInput :: "path_input_options \<Rightarrow> jstr \<Rightarrow> jstr" where
  "plainInput opts input =
     (let p1 = (if pio_trim opts then trim input else input);
          p2 = (if pio_normalizeUnicodeSpaces opts then map (\<lambda>c. if unicodeSpace c then 32 else c) p1 else p1)
      in if pio_stripAtPrefix opts \<and> prefix (js ''@'') p2 then drop 1 p2 else p2)"

definition normalizePath :: "path_env \<Rightarrow> path_input_options \<Rightarrow> jstr \<Rightarrow> jstr + jstr" where
  "normalizePath env opts input =
     (let normalized = plainInput opts input; home = orDefault (pio_homeDir opts) (pe_home env);
          tilde = orDefault (pio_expandTilde opts) True
      in if tilde \<and> normalized = js ''~'' then Inr home
         else if tilde \<and> prefix (js ''~/'') normalized then Inr (pathJoin [home, drop 2 normalized])
         else if prefix (js ''file://'') normalized then pe_fileURLToPath env normalized
         else Inr normalized)"

definition resolvePath :: "path_env \<Rightarrow> jstr \<Rightarrow> jstr \<Rightarrow> path_input_options \<Rightarrow> jstr + jstr" where
  "resolvePath env input baseDir opts =
     (case normalizePath env opts input of
        Inl e \<Rightarrow> Inl e
      | Inr normalized \<Rightarrow>
          (case normalizePath env noPathOptions baseDir of
             Inl e \<Rightarrow> Inl e
           | Inr normalizedBaseDir \<Rightarrow>
               Inr (if isAbsolute normalized then resolve (pe_cwd env) [] normalized
                    else resolve (pe_cwd env) normalizedBaseDir normalized)))"

definition getCwdRelativePath :: "path_env \<Rightarrow> jstr \<Rightarrow> jstr \<Rightarrow> jstr + jstr option" where
  "getCwdRelativePath env filePath cwd =
     (case resolvePath env cwd (pe_cwd env) noPathOptions of
        Inl e \<Rightarrow> Inl e
      | Inr resolvedCwd \<Rightarrow>
          (case resolvePath env filePath resolvedCwd noPathOptions of
             Inl e \<Rightarrow> Inl e
           | Inr resolvedPath \<Rightarrow>
               (let relativePath = relative (pe_cwd env) resolvedCwd resolvedPath;
                    isInsideCwd = (relativePath = [] \<or>
                      relativePath \<noteq> DOTDOT \<and> \<not> prefix (DOTDOT @ [SLASH]) relativePath \<and> \<not> isAbsolute relativePath)
                in Inr (if isInsideCwd then Some (if relativePath = [] then DOT else relativePath) else None))))"

definition formatPathRelativeToCwdOrAbsolute :: "path_env \<Rightarrow> jstr \<Rightarrow> jstr \<Rightarrow> jstr + jstr" where
  "formatPathRelativeToCwdOrAbsolute env filePath cwd =
     (case resolvePath env filePath cwd noPathOptions of
        Inl e \<Rightarrow> Inl e
      | Inr absPath \<Rightarrow>
          (case getCwdRelativePath env absPath cwd of
             Inl e \<Rightarrow> Inl e
           | Inr r \<Rightarrow> Inr (joinWith [SLASH] (splitOn SLASH (orDefault r absPath)))))"

section \<open>core/tools/path-utils.ts\<close>

definition NARROW_NO_BREAK_SPACE :: jchar where "NARROW_NO_BREAK_SPACE = 0x202F"

text \<open>The class of \<open>/ (AM|PM)\./gi\<close> in ASCII; the case of the letters is kept.\<close>

fun tryMacOSScreenshotPath :: "jstr \<Rightarrow> jstr" where
  "tryMacOSScreenshotPath (s # x # m # d # rest) =
     (if s = 32 \<and> asciiLower x \<in> {97, 112} \<and> asciiLower m = 109 \<and> d = 46
      then NARROW_NO_BREAK_SPACE # x # m # d # tryMacOSScreenshotPath rest
      else s # tryMacOSScreenshotPath (x # m # d # rest))"
| "tryMacOSScreenshotPath p = p"

definition tryCurlyQuoteVariant :: "jstr \<Rightarrow> jstr" where
  "tryCurlyQuoteVariant p = map (\<lambda>c. if c = 39 then 0x2019 else c) p"

definition toolPathOptions :: path_input_options where
  "toolPathOptions = noPathOptions\<lparr>pio_normalizeUnicodeSpaces := True, pio_stripAtPrefix := True\<rparr>"

definition expandPath :: "path_env \<Rightarrow> jstr \<Rightarrow> jstr + jstr" where
  "expandPath env filePath = normalizePath env toolPathOptions filePath"

definition resolveToCwd :: "path_env \<Rightarrow> jstr \<Rightarrow> jstr \<Rightarrow> jstr + jstr" where
  "resolveToCwd env filePath cwd = resolvePath env filePath cwd toolPathOptions"

definition readPathVariant :: "(jstr \<Rightarrow> jstr) \<Rightarrow> (jstr \<Rightarrow> bool) \<Rightarrow> jstr \<Rightarrow> jstr" where
  "readPathVariant nfd fileExists target =
     (let amPmVariant = tryMacOSScreenshotPath target;
          nfdVariant = nfd target;
          curlyVariant = tryCurlyQuoteVariant target;
          nfdCurlyVariant = tryCurlyQuoteVariant nfdVariant
      in if fileExists target then target
         else if amPmVariant \<noteq> target \<and> fileExists amPmVariant then amPmVariant
         else if nfdVariant \<noteq> target \<and> fileExists nfdVariant then nfdVariant
         else if curlyVariant \<noteq> target \<and> fileExists curlyVariant then curlyVariant
         else if nfdCurlyVariant \<noteq> target \<and> fileExists nfdCurlyVariant then nfdCurlyVariant
         else target)"

definition resolveReadPath :: "path_env \<Rightarrow> (jstr \<Rightarrow> jstr) \<Rightarrow> (jstr \<Rightarrow> bool) \<Rightarrow> jstr \<Rightarrow> jstr \<Rightarrow> jstr + jstr" where
  "resolveReadPath env nfd fileExists filePath cwd =
     (case resolveToCwd env filePath cwd of
        Inl e \<Rightarrow> Inl e
      | Inr target \<Rightarrow> Inr (readPathVariant nfd fileExists target))"

text \<open>Whatever the variants, an existing file is preferred, and an existing one is found when there is any.\<close>

lemma readPathVariant_resolved: "fileExists p \<Longrightarrow> readPathVariant nfd fileExists p = p"
  by (simp add: readPathVariant_def)

lemma readPathVariant_exists:
  "q \<in> {p, tryMacOSScreenshotPath p, nfd p, tryCurlyQuoteVariant p, tryCurlyQuoteVariant (nfd p)} \<Longrightarrow>
   fileExists q \<Longrightarrow> fileExists (readPathVariant nfd fileExists p)"
  by (auto simp: readPathVariant_def Let_def)

end
