(* ===== verification/EditTool.thy ===== *)
theory EditTool
  imports EditDiff CodingPaths EditDiffProps
begin

text \<open>
  The edit tool, packages/coding-agent/src/core/tools/edit.ts, and the display of its changes,
  edit-diff.ts. The operations on files act on a world and may fail; the line diff and the patch
  of the diff library are parameters.
\<close>

section \<open>The display of a diff\<close>

record diff_part =
  dp_value :: jstr
  dp_added :: bool
  dp_removed :: bool

definition dp_changed :: "diff_part \<Rightarrow> bool" where
  "dp_changed p \<longleftrightarrow> dp_added p \<or> dp_removed p"

definition padStart :: "nat \<Rightarrow> jstr \<Rightarrow> jstr" where
  "padStart width s = replicate (width - length s) 32 @ s"

record diff_state =
  ds_output :: "jstr list"
  ds_oldLineNum :: nat
  ds_newLineNum :: nat
  ds_lastWasChange :: bool
  ds_firstChangedLine :: "nat option"

definition rawLines :: "jstr \<Rightarrow> jstr list" where
  "rawLines value = (let raw = splitOn 10 value in if last raw = [] then butlast raw else raw)"

definition numbered :: "jstr \<Rightarrow> nat \<Rightarrow> nat \<Rightarrow> jstr \<Rightarrow> jstr" where
  "numbered mark width n line = mark @ padStart width (showNat n) @ js '' '' @ line"

definition changedLine :: "nat \<Rightarrow> bool \<Rightarrow> jstr \<Rightarrow> diff_state \<Rightarrow> diff_state" where
  "changedLine width added line s =
     (if added
      then s\<lparr>ds_output := ds_output s @ [numbered (js ''+'') width (ds_newLineNum s) line],
             ds_newLineNum := ds_newLineNum s + 1\<rparr>
      else s\<lparr>ds_output := ds_output s @ [numbered (js ''-'') width (ds_oldLineNum s) line],
             ds_oldLineNum := ds_oldLineNum s + 1\<rparr>)"

definition contextLine :: "nat \<Rightarrow> jstr \<Rightarrow> diff_state \<Rightarrow> diff_state" where
  "contextLine width line s =
     s\<lparr>ds_output := ds_output s @ [numbered (js '' '') width (ds_oldLineNum s) line],
       ds_oldLineNum := ds_oldLineNum s + 1, ds_newLineNum := ds_newLineNum s + 1\<rparr>"

definition skipLines :: "nat \<Rightarrow> diff_state \<Rightarrow> diff_state" where
  "skipLines n s = s\<lparr>ds_oldLineNum := ds_oldLineNum s + n, ds_newLineNum := ds_newLineNum s + n\<rparr>"

definition ellipsis :: "nat \<Rightarrow> jstr" where
  "ellipsis width = js '' '' @ padStart width [] @ js '' ...''"

definition elideLines :: "nat \<Rightarrow> nat \<Rightarrow> diff_state \<Rightarrow> diff_state" where
  "elideLines width n s = skipLines n (s\<lparr>ds_output := ds_output s @ [ellipsis width]\<rparr>)"

definition contextPart :: "nat \<Rightarrow> nat \<Rightarrow> bool \<Rightarrow> jstr list \<Rightarrow> diff_state \<Rightarrow> diff_state" where
  "contextPart width contextLines hasTrailingChange raw s =
     (let hasLeadingChange = ds_lastWasChange s;
          shown = fold (contextLine width)
      in (if hasLeadingChange \<and> hasTrailingChange
          then (if length raw \<le> contextLines * 2 then shown raw s
                else (let leadingLines = take contextLines raw;
                          trailingLines = drop (length raw - contextLines) raw;
                          skippedLines = length raw - length leadingLines - length trailingLines
                      in shown trailingLines (elideLines width skippedLines (shown leadingLines s))))
          else if hasLeadingChange
          then (let shownLines = take contextLines raw; skippedLines = length raw - length shownLines;
                    s1 = shown shownLines s
                in if skippedLines > 0 then elideLines width skippedLines s1 else s1)
          else if hasTrailingChange
          then (let skippedLines = length raw - contextLines;
                    s1 = (if skippedLines > 0 then elideLines width skippedLines s else s)
                in shown (drop skippedLines raw) s1)
          else skipLines (length raw) s)\<lparr>ds_lastWasChange := False\<rparr>)"

fun diffParts :: "nat \<Rightarrow> nat \<Rightarrow> diff_part list \<Rightarrow> diff_state \<Rightarrow> diff_state" where
  "diffParts width contextLines [] s = s"
| "diffParts width contextLines (p # ps) s =
     diffParts width contextLines ps
       (if dp_changed p
        then (fold (changedLine width (dp_added p)) (rawLines (dp_value p))
               (s\<lparr>ds_firstChangedLine := orElse (ds_firstChangedLine s) (Some (ds_newLineNum s))\<rparr>))
             \<lparr>ds_lastWasChange := True\<rparr>
        else contextPart width contextLines (ps \<noteq> [] \<and> dp_changed (hd ps)) (rawLines (dp_value p)) s)"

record edit_diff_result =
  er_diff :: jstr
  er_firstChangedLine :: "nat option"

definition startDiff :: diff_state where
  "startDiff = \<lparr>ds_output = [], ds_oldLineNum = 1, ds_newLineNum = 1, ds_lastWasChange = False,
     ds_firstChangedLine = None\<rparr>"

definition generateDiffString ::
  "(jstr \<Rightarrow> jstr \<Rightarrow> diff_part list) \<Rightarrow> jstr \<Rightarrow> jstr \<Rightarrow> nat \<Rightarrow> edit_diff_result" where
  "generateDiffString diffLines oldContent newContent contextLines =
     (let maxLineNum = max (length (splitOn 10 oldContent)) (length (splitOn 10 newContent));
          width = length (showNat maxLineNum);
          s = diffParts width contextLines (diffLines oldContent newContent) startDiff
      in \<lparr>er_diff = joinWith [10] (ds_output s), er_firstChangedLine = ds_firstChangedLine s\<rparr>)"

section \<open>Arguments\<close>

text \<open>\<open>args.key = value\<close>: an existing key keeps its position.\<close>

fun setKey :: "jstr \<Rightarrow> json \<Rightarrow> (jstr \<times> json) list \<Rightarrow> (jstr \<times> json) list" where
  "setKey k v [] = [(k, v)]"
| "setKey k v ((k', v') # kvs) = (if k' = k then (k, v) # kvs else (k', v') # setKey k v kvs)"

definition parsedEdits :: "(jstr \<Rightarrow> json option) \<Rightarrow> (jstr \<times> json) list \<Rightarrow> (jstr \<times> json) list" where
  "parsedEdits parseJson args =
     (case map_of args (js ''edits'') of
        Some (JStr s) \<Rightarrow>
          (case parseJson s of Some (JArr es) \<Rightarrow> setKey (js ''edits'') (JArr es) args | _ \<Rightarrow> args)
      | _ \<Rightarrow> args)"

definition prepareEditArguments :: "(jstr \<Rightarrow> json option) \<Rightarrow> json \<Rightarrow> json" where
  "prepareEditArguments parseJson input =
     (case input of
        JObj args0 \<Rightarrow>
          (let args = parsedEdits parseJson args0
           in case (map_of args (js ''oldText''), map_of args (js ''newText'')) of
                (Some (JStr oldText), Some (JStr newText)) \<Rightarrow>
                  (let edits = (case map_of args (js ''edits'') of Some (JArr es) \<Rightarrow> es | _ \<Rightarrow> []);
                       rest = filter (\<lambda>(k, v). k \<noteq> js ''oldText'' \<and> k \<noteq> js ''newText'') args
                   in JObj (setKey (js ''edits'')
                        (JArr (edits @ [JObj [(js ''oldText'', JStr oldText), (js ''newText'', JStr newText)]])) rest))
              | _ \<Rightarrow> JObj args)
      | _ \<Rightarrow> input)"

record edit_tool_input =
  ei_path :: jstr
  ei_edits :: "edit list option"

definition validateEditInput :: "edit_tool_input \<Rightarrow> jstr + jstr \<times> edit list" where
  "validateEditInput input =
     (case ei_edits input of
        Some (e # es) \<Rightarrow> Inr (ei_path input, e # es)
      | _ \<Rightarrow> Inl (js ''Edit tool input is invalid. edits must contain at least one replacement.''))"

section \<open>Execution\<close>

text \<open>An error of a file operation: its code, if it has one, and its text.\<close>

record fs_failure =
  ff_code :: "jstr option"
  ff_text :: jstr

text \<open>The operations; \<open>eo_aborted\<close> is the abort signal as it stands in the world.\<close>

record 'w edit_ops =
  eo_access :: "jstr \<Rightarrow> 'w \<Rightarrow> fs_failure option \<times> 'w"
  eo_readFile :: "jstr \<Rightarrow> 'w \<Rightarrow> (fs_failure + jstr) \<times> 'w"
  eo_writeFile :: "jstr \<Rightarrow> jstr \<Rightarrow> 'w \<Rightarrow> fs_failure option \<times> 'w"
  eo_aborted :: "'w \<Rightarrow> bool"

definition abortedError :: jstr where "abortedError = js ''Operation aborted''"

definition accessError :: "jstr \<Rightarrow> fs_failure \<Rightarrow> jstr" where
  "accessError path e =
     js ''Could not edit file: '' @ path @ js ''. '' @
     (case ff_code e of Some code \<Rightarrow> js ''Error code: '' @ code | None \<Rightarrow> ff_text e) @ js ''.''"

record diff_library =
  dl_nfkc :: "jstr \<Rightarrow> jstr"
  dl_diffLines :: "jstr \<Rightarrow> jstr \<Rightarrow> diff_part list"
  dl_patch :: "jstr \<Rightarrow> jstr \<Rightarrow> jstr \<Rightarrow> jstr"

record edit_tool_result =
  et_text :: jstr
  et_diff :: jstr
  et_patch :: jstr
  et_firstChangedLine :: "nat option"

definition editedContent :: "diff_library \<Rightarrow> edit list \<Rightarrow> jstr \<Rightarrow> jstr \<Rightarrow> jstr + applied_edits_result \<times> jstr" where
  "editedContent lib edits path rawContent =
     (case stripBom rawContent of
        (bom, content) \<Rightarrow>
          (let originalEnding = detectLineEnding content; normalizedContent = normalizeToLF content
           in case applyEditsToNormalizedContent (dl_nfkc lib) normalizedContent edits path of
                Inl e \<Rightarrow> Inl e
              | Inr res \<Rightarrow> Inr (res, bom @ restoreLineEndings (ar_newContent res) originalEnding)))"

definition editResult :: "diff_library \<Rightarrow> edit list \<Rightarrow> jstr \<Rightarrow> applied_edits_result \<Rightarrow> edit_tool_result" where
  "editResult lib edits path res =
     (let d = generateDiffString (dl_diffLines lib) (ar_baseContent res) (ar_newContent res) 4
      in \<lparr>et_text = js ''Successfully replaced '' @ showNat (length edits) @ js '' block(s) in '' @ path @ js ''.'',
          et_diff = er_diff d, et_patch = dl_patch lib path (ar_baseContent res) (ar_newContent res),
          et_firstChangedLine = er_firstChangedLine d\<rparr>)"

text \<open>The operation that the mutation queue of the file runs.\<close>

definition editFile ::
  "'w edit_ops \<Rightarrow> diff_library \<Rightarrow> jstr \<Rightarrow> edit list \<Rightarrow> jstr \<Rightarrow> 'w \<Rightarrow> (jstr + edit_tool_result) \<times> 'w" where
  "editFile ops lib path edits absPath w =
     (if eo_aborted ops w then (Inl abortedError, w)
      else (case eo_access ops absPath w of
              (Some e, w1) \<Rightarrow> (Inl (if eo_aborted ops w1 then abortedError else accessError path e), w1)
            | (None, w1) \<Rightarrow>
                (if eo_aborted ops w1 then (Inl abortedError, w1)
                 else (case eo_readFile ops absPath w1 of
                         (Inl e, w2) \<Rightarrow> (Inl (ff_text e), w2)
                       | (Inr rawContent, w2) \<Rightarrow>
                           (if eo_aborted ops w2 then (Inl abortedError, w2)
                            else (case editedContent lib edits path rawContent of
                                    Inl e \<Rightarrow> (Inl e, w2)
                                  | Inr (res, finalContent) \<Rightarrow>
                                      (case eo_writeFile ops absPath finalContent w2 of
                                         (Some e, w3) \<Rightarrow> (Inl (ff_text e), w3)
                                       | (None, w3) \<Rightarrow>
                                           (if eo_aborted ops w3 then (Inl abortedError, w3)
                                            else (Inr (editResult lib edits path res), w3)))))))))"

definition executeEdit ::
  "path_env \<Rightarrow> 'w edit_ops \<Rightarrow> diff_library \<Rightarrow> jstr \<Rightarrow> edit_tool_input \<Rightarrow> 'w \<Rightarrow> (jstr + edit_tool_result) \<times> 'w" where
  "executeEdit env ops lib cwd input w =
     (case validateEditInput input of
        Inl e \<Rightarrow> (Inl e, w)
      | Inr (path, edits) \<Rightarrow>
          (case resolveToCwd env path cwd of
             Inl e \<Rightarrow> (Inl e, w)
           | Inr absPath \<Rightarrow> editFile ops lib path edits absPath w))"

text \<open>The preview of an edit, which writes nothing.\<close>

definition computeEditsDiff ::
  "path_env \<Rightarrow> 'w edit_ops \<Rightarrow> diff_library \<Rightarrow> jstr \<Rightarrow> edit list \<Rightarrow> jstr \<Rightarrow> 'w \<Rightarrow> (jstr + edit_diff_result) \<times> 'w" where
  "computeEditsDiff env ops lib path edits cwd w =
     (case resolveToCwd env path cwd of
        Inl e \<Rightarrow> (Inl e, w)
      | Inr absPath \<Rightarrow>
          (case eo_access ops absPath w of
             (Some e, w1) \<Rightarrow> (Inl (accessError path e), w1)
           | (None, w1) \<Rightarrow>
               (case eo_readFile ops absPath w1 of
                  (Inl e, w2) \<Rightarrow> (Inl (ff_text e), w2)
                | (Inr rawContent, w2) \<Rightarrow>
                    (case applyEditsToNormalizedContent (dl_nfkc lib) (normalizeToLF (snd (stripBom rawContent)))
                            edits path of
                       Inl e \<Rightarrow> (Inl e, w2)
                     | Inr res \<Rightarrow>
                         (Inr (generateDiffString (dl_diffLines lib) (ar_baseContent res) (ar_newContent res) 4), w2)))))"

text \<open>
  The properties of the edit tool: what a successful edit writes differs from what it read in the
  matches alone, and the displayed diff shows every change under its line number.
\<close>

section \<open>Line endings\<close>

lemma restore_append: "restoreLineEndings (s @ t) e = restoreLineEndings s e @ restoreLineEndings t e"
  by (simp add: restoreLineEndings_def)

lemma restore_Nil: "restoreLineEndings [] e = []"
  by (simp add: restoreLineEndings_def)

lemma restore_gaps:
  "restoreLineEndings (concat (map2 (\<lambda>g x. g @ f x) gaps xs)) e =
   concat (map2 (\<lambda>g x. g @ restoreLineEndings (f x) e) (map (\<lambda>g. restoreLineEndings g e) gaps) xs)"
proof (induction gaps arbitrary: xs)
  case (Cons g gaps)
  then show ?case by (cases xs) (simp_all add: restore_append restore_Nil)
qed (simp add: restoreLineEndings_def)

text \<open>All line endings of a text are the one that is detected.\<close>

definition uniformEndings :: "jstr \<Rightarrow> bool" where
  "uniformEndings t \<longleftrightarrow> restoreLineEndings (normalizeToLF t) (detectLineEnding t) = t"

lemma stripBom_append: "stripBom raw = (bom, content) \<Longrightarrow> raw = bom @ content"
  by (auto simp: stripBom_def prefix_def split: if_splits)

text \<open>C28: A successful edit whose old texts occur as they are, in a file of uniform line endings,
  writes what it read with the old texts replaced by the new ones: the byte order mark and all
  between the matches is written as it was read.\<close>

theorem edit_writes_only_matches:
  assumes "editFile ops lib path edits p w = (Inr result, w')"
    and "eo_access ops p w = (None, w1)" and "eo_readFile ops p w1 = (Inr raw, w2)"
    and "stripBom raw = (bom, content)" and "uniformEndings content"
    and "\<forall>e \<in> set edits. includesStr (normalizeToLF content) (normalizeToLF (ed_oldText e))"
    and "R = (\<lambda>t. restoreLineEndings t (detectLineEnding content))"
  shows "\<exists>es gaps rest. mset es = mset (map normalizeEdit edits) \<and> length gaps = length es \<and>
    raw = bom @ concat (map2 (\<lambda>g e. g @ R (ed_oldText e)) gaps es) @ rest \<and>
    eo_writeFile ops p (bom @ concat (map2 (\<lambda>g e. g @ R (ed_newText e)) gaps es) @ rest) w2 = (None, w')"
proof -
  obtain res where run: "applyEditsToNormalizedContent (dl_nfkc lib) (normalizeToLF content) edits path = Inr res"
    and written: "eo_writeFile ops p (bom @ R (ar_newContent res)) w2 = (None, w')"
    using assms(1-4,7)
    by (auto simp: editFile_def editedContent_def Let_def split: if_splits option.splits sum.splits prod.splits)
  from exact_gaps [OF run assms(6)] obtain es gaps rest where
    g: "mset es = mset (map normalizeEdit edits)" "length gaps = length es"
    "normalizeToLF content = concat (map2 (\<lambda>g e. g @ ed_oldText e) gaps es) @ rest"
    "ar_newContent res = concat (map2 (\<lambda>g e. g @ ed_newText e) gaps es) @ rest" by blast
  have "raw = bom @ R (normalizeToLF content)"
    using stripBom_append [OF assms(4)] assms(5,7) by (simp add: uniformEndings_def)
  then have "raw = bom @ concat (map2 (\<lambda>g e. g @ R (ed_oldText e)) (map R gaps) es) @ R rest"
    unfolding g(3) assms(7) by (simp only: restore_append restore_gaps)
  moreover have "R (ar_newContent res) = concat (map2 (\<lambda>g e. g @ R (ed_newText e)) (map R gaps) es) @ R rest"
    unfolding g(4) assms(7) by (simp only: restore_append restore_gaps)
  ultimately show ?thesis
    using g(1,2) written
    by (intro exI [of _ es] exI [of _ "map R gaps"] exI [of _ "R rest"]) (simp only: length_map simp_thms)
qed

text \<open>A file as its content alone, whose operations succeed.\<close>

definition contentOps :: "jstr edit_ops" where
  "contentOps = \<lparr>eo_access = \<lambda>_ w. (None, w), eo_readFile = \<lambda>_ w. (Inr w, w), eo_writeFile = \<lambda>_ c _. (None, c),
     eo_aborted = \<lambda>_. False\<rparr>"

definition plainLibrary :: diff_library where
  "plainLibrary = \<lparr>dl_nfkc = id, dl_diffLines = \<lambda>_ _. [], dl_patch = \<lambda>_ _ _. []\<rparr>"

definition crlfFile :: jstr where
  "crlfFile = [BOM] @ js ''one'' @ [13, 10] @ js ''two'' @ [13, 10]"

theorem edit_writes_only_matches_witness:
  "let edits = [\<lparr>ed_oldText = js ''one'', ed_newText = js ''1'' @ [10] @ js ''1''\<rparr>];
       written = [BOM] @ js ''1'' @ [13, 10] @ js ''1'' @ [13, 10] @ js ''two'' @ [13, 10];
       R = (\<lambda>t. restoreLineEndings t (detectLineEnding (tl crlfFile)))
   in snd (editFile contentOps plainLibrary [] edits [] crlfFile) = written \<and>
     (\<exists>es gaps rest. mset es = mset (map normalizeEdit edits) \<and> length gaps = length es \<and>
       crlfFile = [BOM] @ concat (map2 (\<lambda>g e. g @ R (ed_oldText e)) gaps es) @ rest \<and>
       eo_writeFile contentOps [] ([BOM] @ concat (map2 (\<lambda>g e. g @ R (ed_newText e)) gaps es) @ rest) crlfFile =
         (None, written))"
proof -
  let ?edits = "[\<lparr>ed_oldText = js ''one'', ed_newText = js ''1'' @ [10] @ js ''1''\<rparr>]"
  let ?written = "[BOM] @ js ''1'' @ [13, 10] @ js ''1'' @ [13, 10] @ js ''two'' @ [13, 10]"
  let ?res = "\<lparr>ar_baseContent = js ''one'' @ [10] @ js ''two'' @ [10],
    ar_newContent = js ''1'' @ [10] @ js ''1'' @ [10] @ js ''two'' @ [10]\<rparr>"
  have matched: "applyEditsToNormalizedContent id (normalizeToLF (tl crlfFile)) ?edits [] = Inr ?res" by code_simp
  have bom: "stripBom crlfFile = ([BOM], tl crlfFile)" by code_simp
  have restored: "restoreLineEndings (ar_newContent ?res) (detectLineEnding (tl crlfFile)) = tl ?written" by code_simp
  have "editedContent plainLibrary ?edits [] crlfFile = Inr (?res, ?written)"
    unfolding editedContent_def bom prod.case Let_def plainLibrary_def diff_library.select_convs matched
      sum.case restored by simp
  then have run: "editFile contentOps plainLibrary [] ?edits [] crlfFile =
      (Inr (editResult plainLibrary ?edits [] ?res), ?written)"
    by (simp add: editFile_def contentOps_def)
  have uniform: "uniformEndings (tl crlfFile)" by code_simp
  have inc: "\<forall>e \<in> set ?edits. includesStr (normalizeToLF (tl crlfFile)) (normalizeToLF (ed_oldText e))" by code_simp
  have access: "eo_access contentOps [] crlfFile = (None, crlfFile)"
    and "read": "eo_readFile contentOps [] crlfFile = (Inr crlfFile, crlfFile)" by (simp_all add: contentOps_def)
  from edit_writes_only_matches [OF run access "read" bom uniform inc refl] run show ?thesis by (simp add: Let_def)
qed

section \<open>The displayed diff\<close>

text \<open>The lines that a diff has of the old and of the new text.\<close>

definition oldSide :: "diff_part list \<Rightarrow> jstr list" where
  "oldSide parts = concat (map (\<lambda>p. rawLines (dp_value p)) (filter (\<lambda>p. \<not> dp_added p) parts))"

definition newSide :: "diff_part list \<Rightarrow> jstr list" where
  "newSide parts = concat (map (\<lambda>p. rawLines (dp_value p)) (filter (\<lambda>p. dp_added p \<or> \<not> dp_changed p) parts))"

text \<open>A line of the display: a line of a text under its number, or an ellipsis.\<close>

definition shownLine :: "nat \<Rightarrow> jstr list \<Rightarrow> jstr list \<Rightarrow> jstr \<Rightarrow> bool" where
  "shownLine width old new line \<longleftrightarrow>
     (\<exists>n < length new. line = numbered (js ''+'') width (n + 1) (new ! n)) \<or>
     (\<exists>n < length old. line = numbered (js ''-'') width (n + 1) (old ! n)) \<or>
     (\<exists>n < length old. line = numbered (js '' '') width (n + 1) (old ! n)) \<or> line = ellipsis width"

definition numbersFit :: "nat \<Rightarrow> jstr list \<Rightarrow> jstr list \<Rightarrow> diff_state \<Rightarrow> bool" where
  "numbersFit width old new s \<longleftrightarrow>
     ds_oldLineNum s = length old + 1 \<and> ds_newLineNum s = length new + 1 \<and>
     (\<forall>line \<in> set (ds_output s). shownLine width old new line)"

lemma shownLine_mono:
  assumes "shownLine width old new line"
  shows "shownLine width (old @ xs) (new @ ys) line"
proof -
  have nth: "\<exists>n < length (zs @ us). line = numbered m width (n + 1) ((zs @ us) ! n)"
    if "\<exists>n < length zs. line = numbered m width (n + 1) (zs ! n)" for m zs us
    using that by (auto simp: nth_append intro: exI [of _ _])
  show ?thesis using assms unfolding shownLine_def by (elim disjE) (use nth in blast)+
qed

lemma shownLine_new:
  "shownLine width old (new @ [l]) (numbered (js ''+'') width (length new + 1) l)"
  "shownLine width (old @ [l]) new (numbered (js ''-'') width (length old + 1) l)"
  "shownLine width (old @ [l]) new' (numbered (js '' '') width (length old + 1) l)"
  by (auto simp: shownLine_def intro: exI [of _ "length new"] exI [of _ "length old"])

lemma fit_added: "numbersFit width old new s \<Longrightarrow> numbersFit width old (new @ [l]) (changedLine width True l s)"
  using shownLine_mono [of width old new _ "[]" "[l]"] shownLine_new(1) [of width old new l]
  by (auto simp: numbersFit_def changedLine_def)

lemma fit_removed: "numbersFit width old new s \<Longrightarrow> numbersFit width (old @ [l]) new (changedLine width False l s)"
  using shownLine_mono [of width old new _ "[l]" "[]"] shownLine_new(2) [of width old l new]
  by (auto simp: numbersFit_def changedLine_def)

lemma fit_context: "numbersFit width old new s \<Longrightarrow> numbersFit width (old @ [l]) (new @ [l]) (contextLine width l s)"
  using shownLine_mono [of width old new _ "[l]" "[l]"] shownLine_new(3) [of width old l "new @ [l]"]
  by (auto simp: numbersFit_def contextLine_def)

lemma fit_fold_added:
  "numbersFit width old new s \<Longrightarrow> numbersFit width old (new @ ls) (fold (changedLine width True) ls s)"
proof (induction ls arbitrary: new s)
  case (Cons l ls)
  from Cons.IH [OF fit_added [OF Cons.prems, of l]] show ?case by simp
qed simp

lemma fit_fold_removed:
  "numbersFit width old new s \<Longrightarrow> numbersFit width (old @ ls) new (fold (changedLine width False) ls s)"
proof (induction ls arbitrary: old s)
  case (Cons l ls)
  from Cons.IH [OF fit_removed [OF Cons.prems, of l]] show ?case by simp
qed simp

lemma fit_fold_context:
  "numbersFit width old new s \<Longrightarrow>
   numbersFit width (old @ ls) (new @ ls) (fold (contextLine width) ls s)"
proof (induction ls arbitrary: old new s)
  case (Cons l ls)
  from Cons.IH [OF fit_context [OF Cons.prems, of l]] show ?case by simp
qed simp

lemma fit_skip: "numbersFit width old new s \<Longrightarrow> numbersFit width (old @ ls) (new @ ls) (skipLines (length ls) s)"
  using shownLine_mono [of width old new] by (auto simp: numbersFit_def skipLines_def)

lemma fit_elide:
  "numbersFit width old new s \<Longrightarrow> numbersFit width (old @ ls) (new @ ls) (elideLines width (length ls) s)"
  using shownLine_mono [of width old new]
  by (auto simp: numbersFit_def elideLines_def skipLines_def shownLine_def [of _ _ _ "ellipsis width"])

lemma fit_context_part:
  assumes "numbersFit width old new s"
  shows "numbersFit width (old @ raw) (new @ raw) (contextPart width k trailing raw s)"
proof -
  let ?shown = "fold (contextLine width)"
  have change: "numbersFit width os ns (t\<lparr>ds_lastWasChange := False\<rparr>) \<longleftrightarrow> numbersFit width os ns t" for os ns t
    by (simp add: numbersFit_def)
  have both: "numbersFit width (old @ raw) (new @ raw)
      (?shown (drop (length raw - k) raw)
        (elideLines width (length raw - length (take k raw) - length (drop (length raw - k) raw)) (?shown (take k raw) s)))"
    if long: "\<not> length raw \<le> k * 2"
  proof -
    let ?mid = "take (length raw - k - k) (drop k raw)"
    have "raw = take k raw @ ?mid @ drop (length raw - k) raw"
    proof -
      have "drop (length raw - k - k) (drop k raw) = drop (length raw - k) raw"
        using long by simp
      then show ?thesis by (metis append_take_drop_id)
    qed
    moreover have "length ?mid = length raw - length (take k raw) - length (drop (length raw - k) raw)"
      using long by auto
    ultimately show ?thesis
      using fit_fold_context [OF fit_elide [OF fit_fold_context [OF assms, of "take k raw"], of ?mid],
          of "drop (length raw - k) raw"]
      by (metis append_assoc)
  qed
  have leading: "numbersFit width (old @ raw) (new @ raw) (elideLines width (length raw - length (take k raw)) (?shown (take k raw) s))"
  proof -
    have "length (drop k raw) = length raw - length (take k raw)" by simp
    with fit_elide [OF fit_fold_context [OF assms, of "take k raw"], of "drop k raw"] show ?thesis
      by (simp only: append_assoc append_take_drop_id)
  qed
  have leading': "numbersFit width (old @ raw) (new @ raw) (?shown (take k raw) s)" if "length raw \<le> k"
    using fit_fold_context [OF assms, of raw] that by simp
  have trailing: "numbersFit width (old @ raw) (new @ raw)
      (?shown (drop (length raw - k) raw) (elideLines width (length raw - k) s))"
    using fit_fold_context [OF fit_elide [OF assms, of "take (length raw - k) raw"], of "drop (length raw - k) raw"]
    by simp
  show ?thesis
    unfolding contextPart_def change Let_def
    using both leading leading' trailing fit_fold_context [OF assms, of raw] fit_skip [OF assms, of raw]
    by (auto simp: not_less)
qed

definition allShown :: "nat \<Rightarrow> diff_part list \<Rightarrow> diff_state \<Rightarrow> bool" where
  "allShown width parts s \<longleftrightarrow>
     (\<forall>p \<in> set parts. dp_changed p \<longrightarrow> (\<forall>l \<in> set (rawLines (dp_value p)).
        \<exists>n. numbered (if dp_added p then js ''+'' else js ''-'') width n l \<in> set (ds_output s)))"

definition firstChange :: "diff_part list \<Rightarrow> nat option" where
  "firstChange parts =
     (if \<exists>p \<in> set parts. dp_changed p
      then Some (length (newSide (takeWhile (\<lambda>p. \<not> dp_changed p) parts)) + 1) else None)"

definition partStep :: "nat \<Rightarrow> nat \<Rightarrow> diff_part list \<Rightarrow> diff_part \<Rightarrow> diff_state \<Rightarrow> diff_state" where
  "partStep width k ps p s =
     (if dp_changed p
      then (fold (changedLine width (dp_added p)) (rawLines (dp_value p))
             (s\<lparr>ds_firstChangedLine := orElse (ds_firstChangedLine s) (Some (ds_newLineNum s))\<rparr>))
           \<lparr>ds_lastWasChange := True\<rparr>
      else contextPart width k (ps \<noteq> [] \<and> dp_changed (hd ps)) (rawLines (dp_value p)) s)"

lemma fold_keeps_output:
  assumes "\<And>l s. set (ds_output s) \<subseteq> set (ds_output (f l s))"
  shows "set (ds_output s) \<subseteq> set (ds_output (fold f ls s))"
proof (induction ls arbitrary: s)
  case (Cons l ls)
  from subset_trans [OF assms [of s l] Cons.IH [of "f l s"]] show ?case by simp
qed simp

lemma output_grows:
  "set (ds_output s) \<subseteq> set (ds_output (fold (changedLine width a) ls s))"
  "set (ds_output s) \<subseteq> set (ds_output (fold (contextLine width) ls s))"
  by (rule fold_keeps_output; auto simp: changedLine_def contextLine_def)+

lemma contextPart_grows: "set (ds_output s) \<subseteq> set (ds_output (contextPart width k trailing raw s))"
proof
  have elide: "x \<in> set (ds_output t) \<Longrightarrow> x \<in> set (ds_output (elideLines width n t))" for x n t
    by (simp add: elideLines_def skipLines_def)
  fix x assume "x \<in> set (ds_output s)"
  then show "x \<in> set (ds_output (contextPart width k trailing raw s))"
    by (auto simp: contextPart_def Let_def skipLines_def intro!: subsetD [OF output_grows(2)] elide)
qed

lemma fold_changed_shows:
  "l \<in> set ls \<Longrightarrow> \<exists>n. numbered (if a then js ''+'' else js ''-'') width n l \<in>
     set (ds_output (fold (changedLine width a) ls s))"
proof (induction ls arbitrary: s)
  case (Cons x ls)
  show ?case
  proof (cases "l = x")
    case True
    have "\<exists>n. numbered (if a then js ''+'' else js ''-'') width n x \<in> set (ds_output (changedLine width a x s))"
      by (auto simp: changedLine_def)
    with output_grows(1) [of "changedLine width a x s" width a ls] show ?thesis
      unfolding True fold_simps by (meson subsetD)
  next
    case False
    with Cons show ?thesis by simp
  qed
qed simp

lemma fold_keeps_first:
  "ds_firstChangedLine (fold (changedLine width a) ls s) = ds_firstChangedLine s"
  "ds_firstChangedLine (fold (contextLine width) ls s) = ds_firstChangedLine s"
  by (induction ls arbitrary: s) (simp_all add: changedLine_def contextLine_def)

lemma context_keeps_first: "ds_firstChangedLine (contextPart width k trailing raw s) = ds_firstChangedLine s"
  by (simp add: contextPart_def Let_def fold_keeps_first elideLines_def skipLines_def)

lemma step_first:
  "ds_firstChangedLine s = firstChange done \<Longrightarrow> ds_newLineNum s = length (newSide done) + 1 \<Longrightarrow>
   ds_firstChangedLine (partStep width k ps p s) = firstChange (done @ [p])"
  by (auto simp: partStep_def fold_keeps_first context_keeps_first firstChange_def takeWhile_append)

lemma step_fits:
  assumes "numbersFit width (oldSide done) (newSide done) s"
  shows "numbersFit width (oldSide (done @ [p])) (newSide (done @ [p])) (partStep width k ps p s)"
proof -
  have upd: "numbersFit width os ns (t\<lparr>ds_lastWasChange := b\<rparr>) \<longleftrightarrow> numbersFit width os ns t"
    "numbersFit width os ns (t\<lparr>ds_firstChangedLine := c\<rparr>) \<longleftrightarrow> numbersFit width os ns t" for os ns t b c
    by (simp_all add: numbersFit_def)
  have base: "numbersFit width (oldSide done) (newSide done)
      (s\<lparr>ds_firstChangedLine := orElse (ds_firstChangedLine s) (Some (ds_newLineNum s))\<rparr>)"
    using assms by (simp only: upd)
  consider "dp_added p" | "dp_removed p" "\<not> dp_added p" | "\<not> dp_changed p" by (auto simp: dp_changed_def)
  then show ?thesis
  proof cases
    case 1
    then show ?thesis
      using fit_fold_added [OF base, of "rawLines (dp_value p)"]
      by (simp add: partStep_def upd oldSide_def newSide_def dp_changed_def)
  next
    case 2
    then show ?thesis
      using fit_fold_removed [OF base, of "rawLines (dp_value p)"]
      by (simp add: partStep_def upd oldSide_def newSide_def dp_changed_def)
  next
    case 3
    then show ?thesis
      using fit_context_part [OF assms, of "rawLines (dp_value p)"]
      by (simp add: partStep_def oldSide_def newSide_def dp_changed_def)
  qed
qed

lemma step_shows: "allShown width done s \<Longrightarrow> allShown width (done @ [p]) (partStep width k ps p s)"
proof -
  assume shown: "allShown width done s"
  have grows: "set (ds_output s) \<subseteq> set (ds_output (partStep width k ps p s))"
    using output_grows(1) contextPart_grows by (fastforce simp: partStep_def)
  have "\<exists>n. numbered (if dp_added p then js ''+'' else js ''-'') width n l \<in> set (ds_output (partStep width k ps p s))"
    if "dp_changed p" "l \<in> set (rawLines (dp_value p))" for l
    using fold_changed_shows [OF that(2)] that(1) by (simp add: partStep_def)
  moreover have "\<exists>n. numbered (if dp_added q then js ''+'' else js ''-'') width n l \<in>
      set (ds_output (partStep width k ps p s))"
    if "q \<in> set done" "dp_changed q" "l \<in> set (rawLines (dp_value q))" for q l
    using shown that grows unfolding allShown_def by (meson subsetD)
  ultimately show ?thesis unfolding allShown_def by simp
qed

lemma diffParts_spec:
  assumes "numbersFit width (oldSide done) (newSide done) s" "allShown width done s"
    and "ds_firstChangedLine s = firstChange done"
  shows "numbersFit width (oldSide (done @ ps)) (newSide (done @ ps)) (diffParts width k ps s) \<and>
    allShown width (done @ ps) (diffParts width k ps s) \<and>
    ds_firstChangedLine (diffParts width k ps s) = firstChange (done @ ps)"
  using assms
proof (induction ps arbitrary: "done" s)
  case (Cons p ps)
  have "ds_newLineNum s = length (newSide done) + 1" using Cons.prems(1) by (simp add: numbersFit_def)
  then show ?case
    using Cons.IH [OF step_fits [OF Cons.prems(1), of p k ps] step_shows [OF Cons.prems(2), of p k ps]
        step_first [OF Cons.prems(3), of width k ps p]]
    by (simp add: partStep_def)
qed simp

text \<open>Every line of the displayed diff is a line of the new or of the old text under its own line
  number, or an ellipsis; every added and every removed line is displayed; and the first changed
  line is the number of the line of the new text at which the first change stands.\<close>

theorem diff_shows_changes_under_their_numbers:
  "\<exists>width ls. er_diff (generateDiffString diffLines old new k) = joinWith [10] ls \<and>
    (\<forall>line \<in> set ls. shownLine width (oldSide (diffLines old new)) (newSide (diffLines old new)) line) \<and>
    (\<forall>p \<in> set (diffLines old new). dp_changed p \<longrightarrow> (\<forall>l \<in> set (rawLines (dp_value p)).
       \<exists>n. numbered (if dp_added p then js ''+'' else js ''-'') width n l \<in> set ls)) \<and>
    er_firstChangedLine (generateDiffString diffLines old new k) = firstChange (diffLines old new)"
proof -
  let ?w = "length (showNat (max (length (splitOn 10 old)) (length (splitOn 10 new))))"
  let ?s = "diffParts ?w k (diffLines old new) startDiff"
  have "numbersFit ?w (oldSide []) (newSide []) startDiff" "allShown ?w [] startDiff"
    "ds_firstChangedLine startDiff = firstChange []"
    by (simp_all add: numbersFit_def oldSide_def newSide_def startDiff_def allShown_def firstChange_def)
  from diffParts_spec [OF this, of "diffLines old new" k] show ?thesis
    by (intro exI [of _ ?w] exI [of _ "ds_output ?s"])
      (simp add: generateDiffString_def Let_def numbersFit_def allShown_def)
qed

text \<open>A diff of one changed line between two others.\<close>

definition sampleParts :: "diff_part list" where
  "sampleParts =
     [\<lparr>dp_value = js ''a'' @ [10], dp_added = False, dp_removed = False\<rparr>,
      \<lparr>dp_value = js ''b'' @ [10], dp_added = False, dp_removed = True\<rparr>,
      \<lparr>dp_value = js ''c'' @ [10], dp_added = True, dp_removed = False\<rparr>]"

theorem diff_shows_changes_under_their_numbers_witness:
  "let old = js ''a'' @ [10] @ js ''b'' @ [10]; new = js ''a'' @ [10] @ js ''c'' @ [10]
   in firstChange sampleParts = Some 2 \<and>
     (\<exists>width ls. er_diff (generateDiffString (\<lambda>_ _. sampleParts) old new 4) = joinWith [10] ls \<and>
       (\<forall>line \<in> set ls. shownLine width (oldSide sampleParts) (newSide sampleParts) line) \<and>
       (\<forall>p \<in> set sampleParts. dp_changed p \<longrightarrow> (\<forall>l \<in> set (rawLines (dp_value p)).
          \<exists>n. numbered (if dp_added p then js ''+'' else js ''-'') width n l \<in> set ls)) \<and>
       er_firstChangedLine (generateDiffString (\<lambda>_ _. sampleParts) old new 4) = firstChange sampleParts)"
proof -
  have "firstChange sampleParts = Some 2"
    by (simp add: firstChange_def sampleParts_def dp_changed_def newSide_def rawLines_def js_def)
  then show ?thesis
    using diff_shows_changes_under_their_numbers [of "\<lambda>_ _. sampleParts" _ _ 4] by (simp add: Let_def)
qed

end
