(* ===== verification/MutationQueue.thy ===== *)
theory MutationQueue
  imports NodePath
begin

text \<open>
  The queues of file mutations, packages/coding-agent/src/core/tools/file-mutation-queue.ts. A call
  registers itself, one call after the other, under the real path of its file; it runs when the
  call registered before it under the same path has been released, and is released when its
  function has ended in any way.

  A job's chained queue is settled when the job is released, since a job runs only after its
  current queue has settled. Steps happen in any order; the answer of \<open>realpath\<close> is part of the
  step that receives it.
\<close>

section \<open>State\<close>

datatype job_state = JobWaiting | JobRunning | JobReleased

text \<open>\<open>mj_current\<close> is the job whose chained queue is the job's current queue, if any.\<close>

record mutation_job =
  mj_id :: nat
  mj_key :: jstr
  mj_current :: "nat option"
  mj_state :: job_state

record mutation_queues =
  mq_requests :: "(nat \<times> jstr) list"
  mq_jobs :: "mutation_job list"
  mq_fileQueues :: "jstr \<Rightarrow> nat option"
  mq_rejected :: "nat list"
  mq_nextId :: nat

definition noQueues :: mutation_queues where
  "noQueues = \<lparr>mq_requests = [], mq_jobs = [], mq_fileQueues = (\<lambda>_. None), mq_rejected = [], mq_nextId = 0\<rparr>"

section \<open>Keys\<close>

datatype realpath_error = ENOENT | ENOTDIR | OtherPathError

definition isMissingPathError :: "realpath_error \<Rightarrow> bool" where
  "isMissingPathError e \<longleftrightarrow> e = ENOENT \<or> e = ENOTDIR"

text \<open>\<open>answer\<close> is what \<open>realpath\<close> says of the resolved path.\<close>

definition getMutationQueueKey :: "jstr \<Rightarrow> jstr \<Rightarrow> realpath_error + jstr \<Rightarrow> realpath_error + jstr" where
  "getMutationQueueKey cwd filePath answer =
     (case answer of
        Inr p \<Rightarrow> Inr p
      | Inl e \<Rightarrow> if isMissingPathError e then Inr (resolve cwd [] filePath) else Inl e)"

section \<open>Steps\<close>

definition jobAt :: "nat \<Rightarrow> mutation_queues \<Rightarrow> mutation_job option" where
  "jobAt i s = find (\<lambda>j. mj_id j = i) (mq_jobs s)"

definition setJobState :: "nat \<Rightarrow> job_state \<Rightarrow> mutation_queues \<Rightarrow> mutation_queues" where
  "setJobState i st s =
     s\<lparr>mq_jobs := map (\<lambda>j. if mj_id j = i then j\<lparr>mj_state := st\<rparr> else j) (mq_jobs s)\<rparr>"

text \<open>The call of \<open>withFileMutationQueue\<close>.\<close>

definition requestMutation :: "jstr \<Rightarrow> mutation_queues \<Rightarrow> mutation_queues" where
  "requestMutation path s =
     s\<lparr>mq_requests := mq_requests s @ [(mq_nextId s, path)], mq_nextId := mq_nextId s + 1\<rparr>"

text \<open>The first registration of the registration queue receives its answer.\<close>

definition registerMutation :: "jstr \<Rightarrow> realpath_error + jstr \<Rightarrow> mutation_queues \<Rightarrow> mutation_queues option" where
  "registerMutation cwd answer s =
     (case mq_requests s of
        [] \<Rightarrow> None
      | (i, path) # rest \<Rightarrow>
          (case getMutationQueueKey cwd path answer of
             Inl e \<Rightarrow> Some (s\<lparr>mq_requests := rest, mq_rejected := mq_rejected s @ [i]\<rparr>)
           | Inr key \<Rightarrow>
               Some (s\<lparr>mq_requests := rest,
                       mq_jobs := mq_jobs s @
                         [\<lparr>mj_id = i, mj_key = key, mj_current = mq_fileQueues s key, mj_state = JobWaiting\<rparr>],
                       mq_fileQueues := (mq_fileQueues s)(key \<mapsto> i)\<rparr>)))"

definition jobReleased :: "mutation_queues \<Rightarrow> nat \<Rightarrow> bool" where
  "jobReleased s i = (case jobAt i s of Some j \<Rightarrow> mj_state j = JobReleased | None \<Rightarrow> False)"

definition queueSettled :: "mutation_queues \<Rightarrow> nat option \<Rightarrow> bool" where
  "queueSettled s q = (case q of None \<Rightarrow> True | Some i \<Rightarrow> jobReleased s i)"

definition canStart :: "mutation_queues \<Rightarrow> mutation_job \<Rightarrow> bool" where
  "canStart s j \<longleftrightarrow> mj_state j = JobWaiting \<and> queueSettled s (mj_current j)"

definition startMutation :: "nat \<Rightarrow> mutation_queues \<Rightarrow> mutation_queues option" where
  "startMutation i s =
     (case jobAt i s of
        Some j \<Rightarrow> if canStart s j then Some (setJobState i JobRunning s) else None
      | None \<Rightarrow> None)"

text \<open>The \<open>finally\<close> branch.\<close>

definition finishMutation :: "nat \<Rightarrow> mutation_queues \<Rightarrow> mutation_queues option" where
  "finishMutation i s =
     (case jobAt i s of
        Some j \<Rightarrow>
          if mj_state j = JobRunning
          then (let s1 = setJobState i JobReleased s
                in Some (if mq_fileQueues s1 (mj_key j) = Some i
                         then s1\<lparr>mq_fileQueues := (mq_fileQueues s1)(mj_key j := None)\<rparr> else s1))
          else None
      | None \<Rightarrow> None)"

datatype mutation_event =
    MutationRequested jstr
  | MutationRegistered "realpath_error + jstr"
  | MutationStarted nat
  | MutationFinished nat

definition mutationStep :: "jstr \<Rightarrow> mutation_event \<Rightarrow> mutation_queues \<Rightarrow> mutation_queues option" where
  "mutationStep cwd e s =
     (case e of
        MutationRequested path \<Rightarrow> Some (requestMutation path s)
      | MutationRegistered answer \<Rightarrow> registerMutation cwd answer s
      | MutationStarted i \<Rightarrow> startMutation i s
      | MutationFinished i \<Rightarrow> finishMutation i s)"

fun mutationRun :: "jstr \<Rightarrow> mutation_event list \<Rightarrow> mutation_queues \<Rightarrow> mutation_queues option" where
  "mutationRun cwd [] s = Some s"
| "mutationRun cwd (e # es) s =
     (case mutationStep cwd e s of Some s' \<Rightarrow> mutationRun cwd es s' | None \<Rightarrow> None)"

text \<open>
  The queues of file mutations refine one queue per key: a job enters at the end when it is
  registered, only the first may run, and it leaves when it has finished.
\<close>

section \<open>The queue of a key\<close>

definition unfinished :: "mutation_queues \<Rightarrow> jstr \<Rightarrow> mutation_job list" where
  "unfinished s key = filter (\<lambda>j. mj_key j = key \<and> mj_state j \<noteq> JobReleased) (mq_jobs s)"

definition fileQueue :: "mutation_queues \<Rightarrow> jstr \<Rightarrow> nat list" where
  "fileQueue s key = map mj_id (unfinished s key)"

text \<open>Each job waits for the one before it; the first for none, or for one that is released.\<close>

fun chained :: "nat option \<Rightarrow> mutation_job list \<Rightarrow> bool" where
  "chained p [] \<longleftrightarrow> True"
| "chained p (j # ys) \<longleftrightarrow> mj_current j = p \<and> mj_state j = JobWaiting \<and> chained (Some (mj_id j)) ys"

definition queue_ok :: "mutation_queues \<Rightarrow> mutation_job list \<Rightarrow> bool" where
  "queue_ok s q \<longleftrightarrow> (q = [] \<or> queueSettled s (mj_current (hd q)) \<and> chained (Some (mj_id (hd q))) (tl q))"

definition ids_ok :: "mutation_queues \<Rightarrow> bool" where
  "ids_ok s \<longleftrightarrow>
     distinct (map mj_id (mq_jobs s) @ map fst (mq_requests s)) \<and>
     (\<forall>i \<in> set (map mj_id (mq_jobs s) @ map fst (mq_requests s)). i < mq_nextId s)"

definition queues_ok :: "mutation_queues \<Rightarrow> bool" where
  "queues_ok s \<longleftrightarrow> ids_ok s \<and>
     (\<forall>key. queue_ok s (unfinished s key) \<and>
        mq_fileQueues s key = (if unfinished s key = [] then None else Some (mj_id (last (unfinished s key)))))"

lemma queues_ok_start: "queues_ok noQueues"
  by (simp add: queues_ok_def ids_ok_def noQueues_def unfinished_def queue_ok_def)

lemma jobAt_iff:
  assumes "distinct (map mj_id (mq_jobs s))"
  shows "jobAt i s = Some j \<longleftrightarrow> j \<in> set (mq_jobs s) \<and> mj_id j = i"
proof -
  have "distinct (map mj_id ys) \<Longrightarrow> find (\<lambda>j. mj_id j = i) ys = Some j \<longleftrightarrow> j \<in> set ys \<and> mj_id j = i" for ys
    by (induction ys) (auto simp: image_iff)
  with assms show ?thesis by (simp add: jobAt_def)
qed

lemma find_app: "find P (xs @ ys) = (case find P xs of Some x \<Rightarrow> Some x | None \<Rightarrow> find P ys)"
  by (induction xs) auto

section \<open>Registration\<close>

lemma ok_request: "queues_ok s \<Longrightarrow> queues_ok (requestMutation path s)"
proof -
  assume ok: "queues_ok s"
  have same: "unfinished (requestMutation path s) = unfinished s" "queueSettled (requestMutation path s) = queueSettled s"
    by (auto simp: unfinished_def requestMutation_def queueSettled_def jobReleased_def jobAt_def fun_eq_iff split: option.splits)
  have fresh: "mq_nextId s \<notin> set (map mj_id (mq_jobs s) @ map fst (mq_requests s))"
    using ok unfolding queues_ok_def ids_ok_def by blast
  have "ids_ok (requestMutation path s)"
    using ok fresh by (auto simp: queues_ok_def ids_ok_def requestMutation_def less_Suc_eq)
  moreover have "mq_fileQueues (requestMutation path s) = mq_fileQueues s" by (simp add: requestMutation_def)
  ultimately show ?thesis using ok unfolding queues_ok_def queue_ok_def same by simp
qed

lemma chained_snoc:
  "chained p (ys @ [j]) \<longleftrightarrow> chained p ys \<and> mj_state j = JobWaiting \<and>
     mj_current j = (if ys = [] then p else Some (mj_id (last ys)))"
  by (induction ys arbitrary: p) auto

lemma ok_register:
  assumes ok: "queues_ok s" and step: "registerMutation cwd answer s = Some s'"
  shows "queues_ok s'"
proof -
  obtain i path rest where req: "mq_requests s = (i, path) # rest"
    using step by (auto simp: registerMutation_def split: list.splits)
  show ?thesis
  proof (cases "getMutationQueueKey cwd path answer")
    case (Inl e)
    then have s': "s' = s\<lparr>mq_requests := rest, mq_rejected := mq_rejected s @ [i]\<rparr>"
      using step req by (simp add: registerMutation_def)
    have same: "unfinished s' = unfinished s" "queueSettled s' = queueSettled s"
      by (auto simp: s' unfinished_def queueSettled_def jobReleased_def jobAt_def fun_eq_iff split: option.splits)
    have "ids_ok s'" using ok req by (auto simp: queues_ok_def ids_ok_def s')
    moreover have "mq_fileQueues s' = mq_fileQueues s" by (simp add: s')
    ultimately show ?thesis using ok unfolding queues_ok_def queue_ok_def same by simp
  next
    case (Inr key)
    let ?j = "\<lparr>mj_id = i, mj_key = key, mj_current = mq_fileQueues s key, mj_state = JobWaiting\<rparr>"
    have s': "s' = s\<lparr>mq_requests := rest, mq_jobs := mq_jobs s @ [?j], mq_fileQueues := (mq_fileQueues s)(key \<mapsto> i)\<rparr>"
      using step req Inr by (simp add: registerMutation_def)
    have un: "unfinished s' k = (if k = key then unfinished s k @ [?j] else unfinished s k)" for k
      by (simp add: s' unfinished_def)
    have "i \<notin> set (map mj_id (mq_jobs s))" using ok req by (auto simp: queues_ok_def ids_ok_def)
    then have settled: "queueSettled s q \<Longrightarrow> queueSettled s' q" for q
      by (auto simp: s' queueSettled_def jobReleased_def jobAt_def find_app split: option.splits)
    have stored: "mq_fileQueues s key = (if unfinished s key = [] then None else Some (mj_id (last (unfinished s key))))"
      and qs: "\<And>k. queue_ok s (unfinished s k)" using ok by (auto simp: queues_ok_def)
    have "queue_ok s' (unfinished s' k)" for k
    proof (cases "unfinished s k")
      case Nil
      then show ?thesis using stored by (auto simp: un queue_ok_def queueSettled_def)
    next
      case (Cons q qs')
      then show ?thesis using stored qs [of k] settled by (auto simp: un queue_ok_def chained_snoc)
    qed
    moreover have "ids_ok s'" using ok req by (auto simp: queues_ok_def ids_ok_def s')
    moreover have "mq_fileQueues s' k = (if unfinished s' k = [] then None else Some (mj_id (last (unfinished s' k))))" for k
    proof -
      have "mq_fileQueues s' = (mq_fileQueues s)(key \<mapsto> i)" by (simp add: s')
      moreover have "mq_fileQueues s k = (if unfinished s k = [] then None else Some (mj_id (last (unfinished s k))))"
        using ok by (simp add: queues_ok_def)
      ultimately show ?thesis by (cases "k = key") (simp_all add: un)
    qed
    ultimately show ?thesis unfolding queues_ok_def by blast
  qed
qed

section \<open>Starting and finishing\<close>

lemma chained_waiting: "chained p ys \<Longrightarrow> j \<in> set ys \<Longrightarrow> mj_state j = JobWaiting"
  by (induction ys arbitrary: p) auto

lemma chained_current: "chained p ys \<Longrightarrow> j \<in> set ys \<Longrightarrow> mj_current j = p \<or> (\<exists>k \<in> set ys. mj_current j = Some (mj_id k))"
proof (induction ys arbitrary: p)
  case (Cons k ys)
  then show ?case using Cons.IH [of "Some (mj_id k)"] by auto
qed simp

lemma unfinished_distinct: "queues_ok s \<Longrightarrow> distinct (map mj_id (unfinished s key))"
  by (simp add: queues_ok_def ids_ok_def unfinished_def distinct_map_filter)

text \<open>Only the first job of a queue runs or can start.\<close>

lemma first_of_queue:
  assumes ok: "queues_ok s" and j: "j \<in> set (mq_jobs s)"
    and able: "mj_state j = JobRunning \<or> canStart s j"
  shows "\<exists>q. unfinished s (mj_key j) = j # q"
proof -
  have mem: "j \<in> set (unfinished s (mj_key j))"
    using j able by (auto simp: unfinished_def canStart_def)
  then obtain h q where hq: "unfinished s (mj_key j) = h # q" by (cases "unfinished s (mj_key j)") auto
  have qok: "chained (Some (mj_id h)) q" using ok hq unfolding queues_ok_def by (metis queue_ok_def list.distinct(1) list.sel(1,3))
  have "j \<notin> set q"
  proof
    assume jq: "j \<in> set q"
    then have "canStart s j" using able chained_waiting [OF qok] by auto
    then obtain "mj_state j = JobWaiting" "queueSettled s (mj_current j)" by (simp add: canStart_def)
    moreover obtain k where "k \<in> set (h # q)" "mj_current j = Some (mj_id k)"
      using chained_current [OF qok jq] by auto
    moreover have "k \<in> set (mq_jobs s) \<and> mj_state k \<noteq> JobReleased"
    proof -
      have "k \<in> set (unfinished s (mj_key j))" using calculation(3) hq by simp
      then show ?thesis by (simp add: unfinished_def)
    qed
    moreover have "jobAt (mj_id k) s = Some k"
      using calculation ok by (subst jobAt_iff) (auto simp: queues_ok_def ids_ok_def)
    ultimately show False by (simp add: queueSettled_def jobReleased_def)
  qed
  with mem hq show ?thesis by auto
qed

lemma jobAt_set:
  "jobAt x (setJobState i st s) = map_option (\<lambda>j. if mj_id j = i then j\<lparr>mj_state := st\<rparr> else j) (jobAt x s)"
proof -
  have "find (\<lambda>j. mj_id j = x) (map (\<lambda>j. if mj_id j = i then j\<lparr>mj_state := st\<rparr> else j) ys) =
      map_option (\<lambda>j. if mj_id j = i then j\<lparr>mj_state := st\<rparr> else j) (find (\<lambda>j. mj_id j = x) ys)" for ys
    by (induction ys) auto
  then show ?thesis by (simp add: jobAt_def setJobState_def)
qed

lemma ids_set: "ids_ok (setJobState i st s) = ids_ok s"
proof -
  have "map mj_id (mq_jobs (setJobState i st s)) = map mj_id (mq_jobs s)" by (simp add: setJobState_def)
  moreover have "mq_requests (setJobState i st s) = mq_requests s" "mq_nextId (setJobState i st s) = mq_nextId s"
    by (simp_all add: setJobState_def)
  ultimately show ?thesis by (simp only: ids_ok_def)
qed

lemma unfinished_set:
  assumes ok: "queues_ok s" and j: "jobAt i s = Some j" and q: "unfinished s (mj_key j) = j # q"
  shows "unfinished (setJobState i st s) k =
    (if k = mj_key j then (if st = JobReleased then q else j\<lparr>mj_state := st\<rparr> # q) else unfinished s k)"
proof -
  let ?upd = "\<lambda>x. if mj_id x = i then x\<lparr>mj_state := st\<rparr> else x"
  let ?P = "\<lambda>x. mj_key x = k \<and> mj_state x \<noteq> JobReleased"
  have dist: "distinct (map mj_id (mq_jobs s))" using ok by (simp add: queues_ok_def ids_ok_def)
  have inj: "inj_on mj_id (set (mq_jobs s))" using dist by (simp add: distinct_map)
  have id: "mj_id j = i" "j \<in> set (mq_jobs s)" using j by (simp_all add: jobAt_iff [OF dist])
  then have only: "x \<in> set (mq_jobs s) \<Longrightarrow> mj_id x = i \<Longrightarrow> x = j" for x
    using inj_onD [OF inj] by metis
  have sub: "set (unfinished s k) \<subseteq> set (mq_jobs s)" by (auto simp: unfinished_def)
  have un: "unfinished (setJobState i st s) k = map ?upd (filter (?P \<circ> ?upd) (mq_jobs s))"
    by (simp add: unfinished_def setJobState_def filter_map)
  have "mj_state j \<noteq> JobReleased"
  proof -
    have "j \<in> set (unfinished s (mj_key j))" using q by simp
    then show ?thesis by (simp add: unfinished_def)
  qed
  have "i \<notin> mj_id ` set q" using unfinished_distinct [OF ok, of "mj_key j"] id(1) by (simp add: q)
  then have qi: "\<forall>x \<in> set q. mj_id x \<noteq> i" by blast
  show ?thesis
  proof (cases "k = mj_key j")
    case False
    have "filter (?P \<circ> ?upd) (mq_jobs s) = unfinished s k"
      unfolding unfinished_def by (rule filter_cong) (use only False in auto)
    moreover have "map ?upd (unfinished s k) = unfinished s k"
      using sub only False by (intro map_idI) (auto simp: unfinished_def)
    ultimately show ?thesis using False by (simp add: un)
  next
    case True
    show ?thesis
    proof (cases "st = JobReleased")
      case released: True
      have "filter (?P \<circ> ?upd) (mq_jobs s) = filter (\<lambda>x. mj_id x \<noteq> i) (unfinished s k)"
        unfolding unfinished_def filter_filter by (rule filter_cong) (use released in auto)
      also have "\<dots> = q" using True q qi id by (simp add: filter_id_conv)
      finally have "unfinished (setJobState i st s) k = map ?upd q" by (simp only: un)
      also have "map ?upd q = q" using qi by (intro map_idI) simp
      finally show ?thesis using True released by simp
    next
      case False
      have same: "map ?upd q = q" using qi by (intro map_idI) simp
      have "filter (?P \<circ> ?upd) (mq_jobs s) = unfinished s k"
        unfolding unfinished_def
        by (rule filter_cong) (use only False \<open>mj_state j \<noteq> JobReleased\<close> True in auto)
      then have "unfinished (setJobState i st s) k = map ?upd (unfinished s k)" by (simp only: un)
      also have "unfinished s k = j # q" using True q by simp
      also have "map ?upd (j # q) = j\<lparr>mj_state := st\<rparr> # q" using id(1) same by simp
      finally show ?thesis using True False by simp
    qed
  qed
qed

lemma ok_start:
  assumes ok: "queues_ok s" and step: "startMutation i s = Some s'"
  shows "queues_ok s' \<and> (\<exists>j q. jobAt i s = Some j \<and> unfinished s (mj_key j) = j # q \<and> mj_state j = JobWaiting \<and>
    s' = setJobState i JobRunning s)"
proof -
  obtain j where j: "jobAt i s = Some j" and can: "canStart s j" and s': "s' = setJobState i JobRunning s"
    using step by (auto simp: startMutation_def split: option.splits if_splits)
  have dist: "distinct (map mj_id (mq_jobs s))" using ok by (simp add: queues_ok_def ids_ok_def)
  obtain q where q: "unfinished s (mj_key j) = j # q"
    using first_of_queue [OF ok, of j] can j jobAt_iff [OF dist] by auto
  note un = unfinished_set [OF ok j q, of JobRunning, simplified]
  have waiting: "mj_state j = JobWaiting" using can by (simp add: canStart_def)
  have settled: "queueSettled s' = queueSettled s"
    using j waiting
    by (auto simp: fun_eq_iff queueSettled_def jobReleased_def s' jobAt_set split: option.splits)
      (metis jobAt_iff [OF dist] job_state.distinct(3) option.inject)
  have old: "queue_ok s (unfinished s k)"
    "mq_fileQueues s k = (if unfinished s k = [] then None else Some (mj_id (last (unfinished s k))))" for k
    using ok by (auto simp: queues_ok_def)
  have "queue_ok s' (unfinished s' k)" for k
    using old(1) [of k] q unfolding queue_ok_def settled by (auto simp: s' un)
  moreover have "mq_fileQueues s' = mq_fileQueues s" by (simp add: s' setJobState_def)
  moreover have "(if unfinished s' k = [] then None else Some (mj_id (last (unfinished s' k)))) =
      (if unfinished s k = [] then None else Some (mj_id (last (unfinished s k))))" for k
    using q by (auto simp: s' un)
  moreover have "ids_ok s'" using ok ids_set by (simp add: s' queues_ok_def)
  ultimately have "queues_ok s'" using old(2) by (simp add: queues_ok_def)
  then show ?thesis using j q waiting s' by blast
qed

lemma ok_finish:
  assumes ok: "queues_ok s" and step: "finishMutation i s = Some s'"
  shows "queues_ok s' \<and> (\<exists>j q. jobAt i s = Some j \<and> unfinished s (mj_key j) = j # q \<and> mj_state j = JobRunning \<and>
    (\<forall>k. unfinished s' k = (if k = mj_key j then q else unfinished s k)))"
proof -
  obtain j where j: "jobAt i s = Some j" and running: "mj_state j = JobRunning"
    and s': "s' = (let s1 = setJobState i JobReleased s
      in if mq_fileQueues s1 (mj_key j) = Some i then s1\<lparr>mq_fileQueues := (mq_fileQueues s1)(mj_key j := None)\<rparr> else s1)"
    using step by (auto simp: finishMutation_def Let_def split: option.splits if_splits)
  have dist: "distinct (map mj_id (mq_jobs s))" using ok by (simp add: queues_ok_def ids_ok_def)
  have ji: "j \<in> set (mq_jobs s)" "mj_id j = i" using j jobAt_iff [OF dist] by auto
  obtain q where q: "unfinished s (mj_key j) = j # q" using first_of_queue [OF ok ji(1)] running by auto
  have jobs: "mq_jobs s' = mq_jobs (setJobState i JobReleased s)" "jobAt x s' = jobAt x (setJobState i JobReleased s)"
    "mq_requests s' = mq_requests s" "mq_nextId s' = mq_nextId s" for x
    by (simp_all add: s' Let_def jobAt_def setJobState_def)
  have un: "unfinished s' k = (if k = mj_key j then q else unfinished s k)" for k
    using unfinished_set [OF ok j q, of JobReleased k] by (simp add: unfinished_def jobs(1))
  have released: "jobReleased s x \<Longrightarrow> jobReleased s' x" "jobReleased s' i" for x
    using j ji by (auto simp: jobReleased_def jobs(2) jobAt_set split: option.splits)
  then have settled: "queueSettled s p \<Longrightarrow> queueSettled s' p" for p
    by (auto simp: queueSettled_def split: option.splits)
  have old: "queue_ok s (unfinished s k)"
    "mq_fileQueues s k = (if unfinished s k = [] then None else Some (mj_id (last (unfinished s k))))" for k
    using ok by (auto simp: queues_ok_def)
  have new: "queue_ok s' (unfinished s' k)" for k
  proof (cases "k = mj_key j")
    case True
    have "chained (Some i) q" using old(1) [of "mj_key j"] ji(2) by (simp add: q queue_ok_def)
    then show ?thesis using True released(2) by (cases q) (simp_all add: un queue_ok_def queueSettled_def)
  next
    case False
    with old(1) [of k] settled show ?thesis by (auto simp: un queue_ok_def)
  qed
  have "i \<notin> mj_id ` set q" using unfinished_distinct [OF ok, of "mj_key j"] ji(2) by (simp add: q)
  then have last: "q \<noteq> [] \<Longrightarrow> mj_id (last q) \<noteq> i" using last_in_set by blast
  have stored: "mq_fileQueues s' k = (if unfinished s' k = [] then None else Some (mj_id (last (unfinished s' k))))" for k
  proof -
    have "mq_fileQueues s' = (if mq_fileQueues s (mj_key j) = Some i
        then (mq_fileQueues s)(mj_key j := None) else mq_fileQueues s)"
      by (simp add: s' Let_def setJobState_def)
    then show ?thesis using old(2) [of k] old(2) [of "mj_key j"] last ji(2) by (auto simp: un q)
  qed
  have "ids_ok s'" using ok ids_set [of i JobReleased s] by (simp add: queues_ok_def ids_ok_def jobs setJobState_def)
  then show ?thesis using new stored j q running un unfolding queues_ok_def by blast
qed

section \<open>Runs\<close>

lemma ok_run: "mutationRun cwd es s = Some s' \<Longrightarrow> queues_ok s \<Longrightarrow> queues_ok s'"
proof (induction es arbitrary: s)
  case (Cons e es)
  then obtain s1 where step: "mutationStep cwd e s = Some s1" and run: "mutationRun cwd es s1 = Some s'"
    by (auto split: option.splits)
  have "queues_ok s1"
  proof (cases e)
    case (MutationRequested path)
    with step ok_request [OF Cons.prems(2)] show ?thesis by (simp add: mutationStep_def) blast
  next
    case (MutationRegistered answer)
    with step ok_register [OF Cons.prems(2)] show ?thesis by (simp add: mutationStep_def)
  next
    case (MutationStarted i)
    with step ok_start [OF Cons.prems(2)] show ?thesis by (simp add: mutationStep_def)
  next
    case (MutationFinished i)
    with step ok_finish [OF Cons.prems(2)] show ?thesis by (simp add: mutationStep_def)
  qed
  with run Cons.IH show ?case by blast
qed simp

lemma ok_reached: "mutationRun cwd es noQueues = Some s \<Longrightarrow> queues_ok s"
  using ok_run queues_ok_start by blast

lemma running_is_first:
  assumes "queues_ok s" "unfinished s key = j # q" "k \<in> set (mq_jobs s)" "mj_key k = key" "mj_state k = JobRunning"
  shows "k = j"
  using first_of_queue [OF assms(1,3)] assms(2,4,5) by auto

text \<open>C30: In every run of calls, registrations, starts and ends, the queues of file mutations are one
  first-in first-out queue per key: a registration puts the call at the end of the queue of its
  key, a job starts only at the head of its queue and while no job of that queue runs, and the
  job that ends is the head and leaves.\<close>

theorem mutations_refine_queues:
  assumes "mutationRun cwd es noQueues = Some s" and "mutationStep cwd e s = Some s'"
  shows "case e of
      MutationRequested path \<Rightarrow> fileQueue s' = fileQueue s
    | MutationRegistered answer \<Rightarrow>
        (\<exists>i path rest. mq_requests s = (i, path) # rest \<and> mq_requests s' = rest \<and>
          fileQueue s' =
            (case getMutationQueueKey cwd path answer of
               Inr key \<Rightarrow> (fileQueue s)(key := fileQueue s key @ [i]) | Inl err \<Rightarrow> fileQueue s))
    | MutationStarted i \<Rightarrow>
        (\<exists>key q. fileQueue s key = i # q \<and> fileQueue s' = fileQueue s \<and>
          (\<forall>j \<in> set (mq_jobs s). mj_key j = key \<longrightarrow> mj_state j \<noteq> JobRunning))
    | MutationFinished i \<Rightarrow>
        (\<exists>key q. fileQueue s key = i # q \<and> fileQueue s' = (fileQueue s)(key := q))"
proof -
  note ok = ok_reached [OF assms(1)]
  show ?thesis
  proof (cases e)
    case (MutationRequested path)
    with assms(2) show ?thesis
      by (auto simp: mutationStep_def requestMutation_def fileQueue_def unfinished_def fun_eq_iff)
  next
    case (MutationRegistered answer)
    then have step: "registerMutation cwd answer s = Some s'" using assms(2) by (simp add: mutationStep_def)
    then obtain i path rest where req: "mq_requests s = (i, path) # rest"
      by (auto simp: registerMutation_def split: list.splits)
    have "mq_requests s' = rest \<and> fileQueue s' =
        (case getMutationQueueKey cwd path answer of
           Inr key \<Rightarrow> (fileQueue s)(key := fileQueue s key @ [i]) | Inl err \<Rightarrow> fileQueue s)"
    proof (cases "getMutationQueueKey cwd path answer")
      case (Inl err)
      with step req show ?thesis by (auto simp: registerMutation_def fileQueue_def unfinished_def fun_eq_iff)
    next
      case (Inr key)
      with step req show ?thesis by (auto simp: registerMutation_def fileQueue_def unfinished_def fun_eq_iff)
    qed
    with req show ?thesis by (simp add: MutationRegistered)
  next
    case (MutationStarted i)
    then have "startMutation i s = Some s'" using assms(2) by (simp add: mutationStep_def)
    from ok_start [OF ok this] obtain j q where j: "jobAt i s = Some j" "unfinished s (mj_key j) = j # q"
      "mj_state j = JobWaiting" "s' = setJobState i JobRunning s" by blast
    have "mj_id j = i" using j(1) ok by (simp add: jobAt_iff queues_ok_def ids_ok_def)
    then have "fileQueue s (mj_key j) = i # map mj_id q" "fileQueue s' = fileQueue s"
      using unfinished_set [OF ok j(1,2), of JobRunning] j(2,4) by (auto simp: fileQueue_def fun_eq_iff)
    moreover have "\<forall>k \<in> set (mq_jobs s). mj_key k = mj_key j \<longrightarrow> mj_state k \<noteq> JobRunning"
      using running_is_first [OF ok j(2)] j(3) by fastforce
    ultimately show ?thesis by (auto simp: MutationStarted)
  next
    case (MutationFinished i)
    then have "finishMutation i s = Some s'" using assms(2) by (simp add: mutationStep_def)
    from ok_finish [OF ok this] obtain j q where j: "jobAt i s = Some j" "unfinished s (mj_key j) = j # q"
      "\<forall>k. unfinished s' k = (if k = mj_key j then q else unfinished s k)" by blast
    have "mj_id j = i" using j(1) ok by (simp add: jobAt_iff queues_ok_def ids_ok_def)
    then have "fileQueue s (mj_key j) = i # map mj_id q" "fileQueue s' = (fileQueue s)(mj_key j := map mj_id q)"
      using j(2,3) by (auto simp: fileQueue_def fun_eq_iff)
    then show ?thesis by (auto simp: MutationFinished)
  qed
qed

text \<open>Two calls on one file, the first of which runs.\<close>

definition twoCalls :: "mutation_event list" where
  "twoCalls = [MutationRequested (js ''/a''), MutationRequested (js ''/a''), MutationRegistered (Inr (js ''/a'')),
     MutationRegistered (Inr (js ''/a'')), MutationStarted 0]"

lemma twoCalls_runs:
  "\<exists>s. mutationRun [] twoCalls noQueues = Some s \<and> fileQueue s (js ''/a'') = [0, 1] \<and>
     mutationStep [] (MutationFinished 0) s \<noteq> None \<and> mutationStep [] (MutationStarted 1) s = None"
  by (simp add: twoCalls_def mutationStep_def requestMutation_def registerMutation_def getMutationQueueKey_def
      startMutation_def finishMutation_def jobAt_def setJobState_def canStart_def queueSettled_def jobReleased_def
      noQueues_def fileQueue_def unfinished_def Let_def)

theorem mutations_refine_queues_witness:
  "\<exists>s s'. mutationRun [] twoCalls noQueues = Some s \<and> mutationStep [] (MutationFinished 0) s = Some s' \<and>
     fileQueue s (js ''/a'') = [0, 1] \<and>
     (\<exists>key q. fileQueue s key = 0 # q \<and> fileQueue s' = (fileQueue s)(key := q))"
proof -
  obtain s s' where s: "mutationRun [] twoCalls noQueues = Some s" "fileQueue s (js ''/a'') = [0, 1]"
    "mutationStep [] (MutationFinished 0) s = Some s'"
    using twoCalls_runs by auto
  from mutations_refine_queues [OF s(1,3)] s show ?thesis by auto
qed

text \<open>C31: No queue is stuck and none is left behind: in every run the head of a queue runs or can
  start, and the map of queues has an entry for a key exactly while a job of that key is
  unfinished.\<close>

theorem mutation_queues_progress:
  assumes "mutationRun cwd es noQueues = Some s"
  shows "(\<forall>i q. fileQueue s key = i # q \<longrightarrow>
      (\<exists>j. jobAt i s = Some j \<and> (mj_state j = JobRunning \<or> canStart s j))) \<and>
    (mq_fileQueues s key = None \<longleftrightarrow> fileQueue s key = [])"
proof -
  note ok = ok_reached [OF assms]
  have "\<exists>j. jobAt i s = Some j \<and> (mj_state j = JobRunning \<or> canStart s j)" if iq: "fileQueue s key = i # q" for i q
  proof -
    obtain j ys where j: "unfinished s key = j # ys" "mj_id j = i" using iq by (auto simp: fileQueue_def)
    have mem: "j \<in> set (mq_jobs s)" "mj_state j \<noteq> JobReleased"
    proof -
      have "j \<in> set (unfinished s key)" using j(1) by simp
      then show "j \<in> set (mq_jobs s)" "mj_state j \<noteq> JobReleased" by (auto simp: unfinished_def)
    qed
    have "queue_ok s (unfinished s key)" using ok unfolding queues_ok_def by blast
    then have "queueSettled s (mj_current j)" by (simp add: j(1) queue_ok_def)
    with mem(2) have "mj_state j = JobRunning \<or> canStart s j"
      by (cases "mj_state j") (simp_all add: canStart_def)
    moreover have "jobAt i s = Some j" using mem(1) j(2) ok by (simp add: jobAt_iff queues_ok_def ids_ok_def)
    ultimately show ?thesis by blast
  qed
  moreover have "mq_fileQueues s key = None \<longleftrightarrow> fileQueue s key = []"
    using ok by (simp add: queues_ok_def fileQueue_def)
  ultimately show ?thesis by blast
qed

theorem mutation_queues_progress_witness:
  "\<exists>s. mutationRun [] twoCalls noQueues = Some s \<and> fileQueue s (js ''/a'') = [0, 1] \<and>
     (\<forall>i q. fileQueue s (js ''/a'') = i # q \<longrightarrow>
        (\<exists>j. jobAt i s = Some j \<and> (mj_state j = JobRunning \<or> canStart s j))) \<and>
     (mq_fileQueues s (js ''/a'') = None \<longleftrightarrow> fileQueue s (js ''/a'') = [])"
proof -
  obtain s where s: "mutationRun [] twoCalls noQueues = Some s" "fileQueue s (js ''/a'') = [0, 1]"
    using twoCalls_runs by auto
  show ?thesis
    using s mutation_queues_progress [OF s(1), of "js ''/a''"] by (intro exI [of _ s] conjI) blast+
qed

text \<open>A file that comes into being between two calls on its path, where the real path is another
  than the resolved one, has two queues, and both functions run at the same time.\<close>

theorem created_file_mutated_twice:
  assumes "realPath \<noteq> resolve cwd [] path"
  shows "\<exists>s. mutationRun cwd [MutationRequested path, MutationRegistered (Inl ENOENT), MutationStarted 0,
      MutationRequested path, MutationRegistered (Inr realPath), MutationStarted 1] noQueues = Some s \<and>
    map mj_state (mq_jobs s) = [JobRunning, JobRunning]"
  using assms
  by (simp add: mutationStep_def requestMutation_def registerMutation_def getMutationQueueKey_def
      isMissingPathError_def startMutation_def jobAt_def setJobState_def canStart_def queueSettled_def noQueues_def)

theorem created_file_mutated_twice_witness:
  "\<exists>s. mutationRun [] [MutationRequested (js ''/tmp/x''), MutationRegistered (Inl ENOENT), MutationStarted 0,
      MutationRequested (js ''/tmp/x''), MutationRegistered (Inr (js ''/private/tmp/x'')), MutationStarted 1]
      noQueues = Some s \<and>
    map mj_state (mq_jobs s) = [JobRunning, JobRunning]"
proof (rule created_file_mutated_twice)
  show "js ''/private/tmp/x'' \<noteq> resolve [] [] (js ''/tmp/x'')" by code_simp
qed

end
