(* ===== verification/ReadTool.thy ===== *)
theory ReadTool
  imports Truncate CodingPaths
begin

text \<open>
  The read and the write tool, packages/coding-agent/src/core/tools/read.ts and write.ts, with the
  truncation of tools/truncate.ts that the read tool uses. The operations on files act on a
  world; the detection and the processing of images are parameters. Line numbers are integers.
\<close>

section \<open>Truncation\<close>

definition splitLinesForCounting :: "jstr \<Rightarrow> jstr list" where
  "splitLinesForCounting content =
     (if content = [] then []
      else (let lines = splitOn 10 content in if last content = 10 then butlast lines else lines))"

text \<open>It differs from the truncation of packages/agent in the count of lines.\<close>

definition truncateHead_tool :: "jstr \<Rightarrow> truncation_options \<Rightarrow> truncation_result" where
  "truncateHead_tool content opts =
     (let maxLines = orDefault (to_maxLines opts) DEFAULT_MAX_LINES;
          maxBytes = orDefault (to_maxBytes opts) DEFAULT_MAX_BYTES;
          totalBytes = utf8ByteLength content;
          lines = splitLinesForCounting content;
          totalLines = length lines
      in if int totalLines \<le> maxLines \<and> totalBytes \<le> maxBytes
         then untruncated content totalLines totalBytes maxLines maxBytes
         else if utf8ByteLength (hd lines) > maxBytes
         then \<lparr>trn_content = [], trn_truncated = True, trn_truncatedBy = Some ByBytes, trn_totalLines = totalLines,
               trn_totalBytes = totalBytes, trn_outputLines = 0, trn_outputBytes = 0, trn_lastLinePartial = False,
               trn_firstLineExceedsLimit = True, trn_maxLines = maxLines, trn_maxBytes = maxBytes\<rparr>
         else (case takeLines maxLines maxBytes lines [] 0 of
                 (kept, bytes, stoppedBy) \<Rightarrow>
                   truncatedTo kept bytes stoppedBy False totalLines totalBytes maxLines maxBytes))"

section \<open>The text of a page\<close>

text \<open>\<open>xs.slice(a, b)\<close>, where a negative end counts from the end of the array.\<close>

definition sliceInt :: "nat \<Rightarrow> int \<Rightarrow> 'a list \<Rightarrow> 'a list" where
  "sliceInt a b xs =
     slice a (nat (if b < 0 then int (length xs) + b else min b (int (length xs)))) xs"

record read_request =
  rr_path :: jstr
  rr_offset :: "int option"
  rr_limit :: "int option"

definition noTruncationOptions :: truncation_options where
  "noTruncationOptions = \<lparr>to_maxLines = None, to_maxBytes = None\<rparr>"

text \<open>An offset of 0 counts as none.\<close>

definition startLineOf :: "int option \<Rightarrow> nat" where
  "startLineOf offset = (case offset of Some n \<Rightarrow> if n \<noteq> 0 then nat (n - 1) else 0 | None \<Rightarrow> 0)"

definition selectLines :: "nat \<Rightarrow> int option \<Rightarrow> jstr list \<Rightarrow> jstr \<times> int option" where
  "selectLines startLine limit allLines =
     (case limit of
        Some n \<Rightarrow>
          (let endLine = min (int startLine + n) (int (length allLines))
           in (joinWith [10] (sliceInt startLine endLine allLines), Some (endLine - int startLine)))
      | None \<Rightarrow> (joinWith [10] (drop startLine allLines), None))"

definition offsetError :: "int option \<Rightarrow> nat \<Rightarrow> jstr" where
  "offsetError offset n =
     js ''Offset '' @ (case offset of Some o1 \<Rightarrow> showInt o1 | None \<Rightarrow> js ''undefined'') @
     js '' is beyond end of file ('' @ showNat n @ js '' lines total)''"

definition longLineNotice :: "jstr \<Rightarrow> nat \<Rightarrow> jstr \<Rightarrow> jstr" where
  "longLineNotice path startLineDisplay line =
     js ''[Line '' @ showNat startLineDisplay @ js '' is '' @ formatSize (nat (utf8ByteLength line)) @
     js '', exceeds '' @ formatSize (nat DEFAULT_MAX_BYTES) @ js '' limit. Use bash: sed -n '' @ [39] @
     showNat startLineDisplay @ js ''p'' @ [39] @ js '' '' @ path @ js '' | head -c '' @ showNat (nat DEFAULT_MAX_BYTES) @ js '']''"

definition continueNotice :: "nat \<Rightarrow> nat \<Rightarrow> nat \<Rightarrow> truncated_by option \<Rightarrow> jstr" where
  "continueNotice startLineDisplay endLineDisplay totalFileLines truncatedBy =
     [10, 10] @ js ''[Showing lines '' @ showNat startLineDisplay @ js ''-'' @ showNat endLineDisplay @ js '' of '' @
     showNat totalFileLines @
     (if truncatedBy = Some ByLines then [] else js '' ('' @ formatSize (nat DEFAULT_MAX_BYTES) @ js '' limit)'') @
     js ''. Use offset='' @ showNat (endLineDisplay + 1) @ js '' to continue.]''"

definition moreLinesNotice :: "int \<Rightarrow> int \<Rightarrow> jstr" where
  "moreLinesNotice remaining nextOffset =
     [10, 10] @ js ''['' @ showInt remaining @ js '' more lines in file. Use offset='' @ showInt nextOffset @
     js '' to continue.]''"

text \<open>The text and the offset that it asks to continue at, if any.\<close>

definition pageText ::
  "jstr \<Rightarrow> nat \<Rightarrow> jstr list \<Rightarrow> int option \<Rightarrow> truncation_result \<Rightarrow> jstr \<times> int option" where
  "pageText path startLine allLines userLimitedLines trn =
     (if trn_firstLineExceedsLimit trn
      then (longLineNotice path (startLine + 1) (allLines ! startLine), None)
      else if trn_truncated trn
      then (let endLineDisplay = startLine + trn_outputLines trn
            in (trn_content trn @
                  continueNotice (startLine + 1) endLineDisplay (length allLines) (trn_truncatedBy trn),
                Some (int endLineDisplay + 1)))
      else (case userLimitedLines of
              Some n \<Rightarrow>
                (if int startLine + n < int (length allLines)
                 then (trn_content trn @ moreLinesNotice (int (length allLines) - (int startLine + n)) (int startLine + n + 1),
                       Some (int startLine + n + 1))
                 else (trn_content trn, None))
            | None \<Rightarrow> (trn_content trn, None)))"

record read_page =
  rp_text :: jstr
  rp_truncation :: "truncation_result option"
  rp_nextOffset :: "int option"

text \<open>The page of a text file; \<open>rp_nextOffset\<close> is what the notice of the text says.\<close>

definition readPage :: "jstr \<Rightarrow> int option \<Rightarrow> int option \<Rightarrow> jstr \<Rightarrow> jstr + read_page" where
  "readPage path offset limit textContent =
     (let allLines = splitOn 10 textContent; startLine = startLineOf offset
      in if startLine \<ge> length allLines then Inl (offsetError offset (length allLines))
         else (case selectLines startLine limit allLines of
                 (selectedContent, userLimitedLines) \<Rightarrow>
                   (let trn = truncateHead_tool selectedContent noTruncationOptions;
                        (t, nextOffset) = pageText path startLine allLines userLimitedLines trn
                    in Inr \<lparr>rp_text = t, rp_truncation = (if trn_truncated trn then Some trn else None),
                            rp_nextOffset = nextOffset\<rparr>)))"

section \<open>The read tool\<close>

datatype read_content = ReadText jstr | ReadImage jstr jstr

record read_result =
  rd_content :: "read_content list"
  rd_truncation :: "truncation_result option"

text \<open>\<open>processImage\<close> gives a message, or the type, the data and the hints of an image.\<close>

record 'w read_ops =
  ro_access :: "jstr \<Rightarrow> 'w \<Rightarrow> jstr option \<times> 'w"
  ro_readFile :: "jstr \<Rightarrow> 'w \<Rightarrow> (jstr + jstr) \<times> 'w"
  ro_imageType :: "jstr \<Rightarrow> 'w \<Rightarrow> (jstr + jstr option) \<times> 'w"
  ro_processImage :: "jstr \<Rightarrow> jstr \<Rightarrow> jstr + jstr \<times> jstr \<times> jstr list"
  ro_exists :: "'w \<Rightarrow> jstr \<Rightarrow> bool"
  ro_aborted :: "'w \<Rightarrow> bool"

definition readAborted :: jstr where "readAborted = js ''Operation aborted''"

definition getNonVisionImageNote :: "bool option \<Rightarrow> jstr list" where
  "getNonVisionImageNote imageModel =
     (if imageModel = Some False
      then [js ''[Current model does not support images. The image will be omitted from this request.]''] else [])"

definition imageContent :: "bool option \<Rightarrow> jstr \<Rightarrow> jstr + jstr \<times> jstr \<times> jstr list \<Rightarrow> read_content list" where
  "imageContent imageModel mimeType processed =
     (case processed of
        Inl message \<Rightarrow>
          [ReadText (joinWith [10]
             ([js ''Read image file ['' @ mimeType @ js '']'', message] @ getNonVisionImageNote imageModel))]
      | Inr (mime, data, hints) \<Rightarrow>
          [ReadText (joinWith [10]
             ([js ''Read image file ['' @ mime @ js '']''] @ hints @ getNonVisionImageNote imageModel)),
           ReadImage data mime])"

text \<open>What is read of the file once its type is known.\<close>

definition readContent ::
  "'w read_ops \<Rightarrow> bool option \<Rightarrow> read_request \<Rightarrow> jstr \<Rightarrow> jstr option \<Rightarrow> 'w \<Rightarrow> (jstr + read_result) \<times> 'w" where
  "readContent ops imageModel req absPath mimeType w =
     (case ro_readFile ops absPath w of
        (Inl e, w1) \<Rightarrow> (Inl (if ro_aborted ops w1 then readAborted else e), w1)
      | (Inr buffer, w1) \<Rightarrow>
          (if ro_aborted ops w1 then (Inl readAborted, w1)
           else if truthyStr mimeType
           then (Inr \<lparr>rd_content = imageContent imageModel (the mimeType) (ro_processImage ops buffer (the mimeType)),
                      rd_truncation = None\<rparr>, w1)
           else (case readPage (rr_path req) (rr_offset req) (rr_limit req) buffer of
                   Inl e \<Rightarrow> (Inl e, w1)
                 | Inr page \<Rightarrow> (Inr \<lparr>rd_content = [ReadText (rp_text page)], rd_truncation = rp_truncation page\<rparr>, w1))))"

definition executeRead ::
  "path_env \<Rightarrow> (jstr \<Rightarrow> jstr) \<Rightarrow> 'w read_ops \<Rightarrow> bool option \<Rightarrow> jstr \<Rightarrow> read_request \<Rightarrow> 'w \<Rightarrow>
   (jstr + read_result) \<times> 'w" where
  "executeRead env nfd ops imageModel cwd req w =
     (if ro_aborted ops w then (Inl readAborted, w)
      else (case resolveReadPath env nfd (ro_exists ops w) (rr_path req) cwd of
              Inl e \<Rightarrow> (Inl e, w)
            | Inr absPath \<Rightarrow>
                (case ro_access ops absPath w of
                   (Some e, w1) \<Rightarrow> (Inl (if ro_aborted ops w1 then readAborted else e), w1)
                 | (None, w1) \<Rightarrow>
                     (if ro_aborted ops w1 then (Inl readAborted, w1)
                      else (case ro_imageType ops absPath w1 of
                              (Inl e, w2) \<Rightarrow> (Inl (if ro_aborted ops w2 then readAborted else e), w2)
                            | (Inr mimeType, w2) \<Rightarrow> readContent ops imageModel req absPath mimeType w2)))))"

section \<open>The write tool\<close>

record 'w write_ops =
  wo_mkdir :: "jstr \<Rightarrow> 'w \<Rightarrow> jstr option \<times> 'w"
  wo_writeFile :: "jstr \<Rightarrow> jstr \<Rightarrow> 'w \<Rightarrow> jstr option \<times> 'w"
  wo_aborted :: "'w \<Rightarrow> bool"

text \<open>The operation that the mutation queue of the file runs.\<close>

definition writeFileBody :: "'w write_ops \<Rightarrow> jstr \<Rightarrow> jstr \<Rightarrow> jstr \<Rightarrow> 'w \<Rightarrow> (jstr + jstr) \<times> 'w" where
  "writeFileBody ops path absPath content w =
     (if wo_aborted ops w then (Inl readAborted, w)
      else (case wo_mkdir ops (pathDirname absPath) w of
              (Some e, w1) \<Rightarrow> (Inl e, w1)
            | (None, w1) \<Rightarrow>
                (if wo_aborted ops w1 then (Inl readAborted, w1)
                 else (case wo_writeFile ops absPath content w1 of
                         (Some e, w2) \<Rightarrow> (Inl e, w2)
                       | (None, w2) \<Rightarrow>
                           (if wo_aborted ops w2 then (Inl readAborted, w2)
                            else (Inr (js ''Successfully wrote '' @ showNat (length content) @ js '' bytes to '' @ path), w2))))))"

definition executeWrite ::
  "path_env \<Rightarrow> 'w write_ops \<Rightarrow> jstr \<Rightarrow> jstr \<Rightarrow> jstr \<Rightarrow> 'w \<Rightarrow> (jstr + jstr) \<times> 'w" where
  "executeWrite env ops cwd path content w =
     (case resolveToCwd env path cwd of
        Inl e \<Rightarrow> (Inl e, w)
      | Inr absPath \<Rightarrow> writeFileBody ops path absPath content w)"

text \<open>
  Reading on at the offsets that the read tool names covers the file: each page shows the lines
  from its offset on, and the next offset is the line after the last one shown.
\<close>

section \<open>A page\<close>

lemma default_limits: "0 < DEFAULT_MAX_LINES" "0 \<le> DEFAULT_MAX_BYTES"
  by (simp_all add: DEFAULT_MAX_LINES_def DEFAULT_MAX_BYTES_def)

lemma counting_lines:
  assumes "sel \<noteq> []"
  shows "splitLinesForCounting sel \<noteq> [] \<and> hd (splitLinesForCounting sel) = hd (splitOn 10 sel) \<and>
    (splitLinesForCounting sel = splitOn 10 sel \<or> splitOn 10 sel = splitLinesForCounting sel @ [[]])"
proof (cases "last sel = 10")
  case True
  then obtain s where "sel = s @ [10]" using assms by (metis append_butlast_last_id)
  then have "splitOn 10 sel = splitOn 10 s @ [[]]" using splitOn_snoc_line [of 10 "[]" s] by simp
  then show ?thesis using assms True by (simp add: splitLinesForCounting_def Let_def)
next
  case False
  with assms show ?thesis by (simp add: splitLinesForCounting_def)
qed

lemma head_tool_page:
  assumes fits: "utf8ByteLength (hd (splitOn 10 sel)) \<le> DEFAULT_MAX_BYTES"
    and trn: "trn = truncateHead_tool sel noTruncationOptions"
  shows "\<not> trn_firstLineExceedsLimit trn \<and> (\<not> trn_truncated trn \<longrightarrow> trn_content trn = sel) \<and>
    (trn_truncated trn \<longrightarrow> (\<exists>k. 0 < k \<and> k < length (splitOn 10 sel) \<and> trn_outputLines trn = k \<and>
      trn_content trn = joinWith [10] (take k (splitOn 10 sel))))"
proof -
  let ?L = DEFAULT_MAX_LINES and ?B = DEFAULT_MAX_BYTES
  let ?C = "splitLinesForCounting sel" and ?D = "splitOn 10 sel"
  show ?thesis
  proof (cases "int (length ?C) \<le> ?L \<and> utf8ByteLength sel \<le> ?B")
    case True
    then have "trn = untruncated sel (length ?C) (utf8ByteLength sel) ?L ?B"
      by (simp add: trn truncateHead_tool_def noTruncationOptions_def Let_def)
    then show ?thesis by (simp add: untruncated_def)
  next
    case False
    then have ne: "sel \<noteq> []" using default_limits by (auto simp: splitLinesForCounting_def)
    note C = counting_lines [OF ne]
    obtain kept b why where t: "takeLines ?L ?B ?C [] 0 = (kept, b, why)" by (metis prod.exhaust)
    have m: "max 0 ?L = ?L" using default_limits by simp
    have "0 = linesBytes []" "int (length ([] :: jstr list)) \<le> max 0 ?L" by simp_all
    from takeLines_spec [OF t this(1) default_limits(2) this(2), unfolded m append_Nil] obtain k where
      k: "k \<le> length ?C" "kept = take k ?C" "b = linesBytes kept" "b \<le> ?B" "int (length kept) \<le> ?L"
      "k = length ?C \<or> int (length kept) \<ge> ?L \<or> linesBytes (kept @ [?C ! k]) > ?B" by blast
    have r: "trn = truncatedTo kept b why False (length ?C) (utf8ByteLength sel) ?L ?B"
      using False fits t C by (auto simp: trn truncateHead_tool_def noTruncationOptions_def Let_def)
    have pos: "0 < k"
    proof (rule ccontr)
      assume "\<not> 0 < k"
      with k(2,6) C default_limits have "linesBytes [hd ?D] > ?B" by (cases ?C) auto
      with fits show False by (simp add: linesBytes_Cons)
    qed
    have less: "k < length ?D"
    proof (rule ccontr)
      assume "\<not> k < length ?D"
      with k(1) C have "?C = ?D" "k = length ?D" by auto
      then have "kept = ?D" using k(2) by simp
      with k False show False using \<open>?C = ?D\<close> by (simp add: linesBytes_def)
    qed
    have "kept = take k ?D" using k(1,2) C less by auto
    then show ?thesis using pos less k(1) by (auto simp: r truncatedTo_def)
  qed
qed

section \<open>All pages\<close>

text \<open>The pages that start behind the given numbers of lines: each shows its lines up to the next
  start and names it, and the last one shows the rest.\<close>

fun pagesRead :: "jstr \<Rightarrow> jstr \<Rightarrow> nat list \<Rightarrow> bool" where
  "pagesRead path content [] \<longleftrightarrow> False"
| "pagesRead path content [s] \<longleftrightarrow>
     (\<exists>page. readPage path (Some (int s + 1)) None content = Inr page \<and> rp_nextOffset page = None \<and>
        rp_text page = joinWith [10] (drop s (splitOn 10 content)))"
| "pagesRead path content (s # s' # ss) \<longleftrightarrow> s < s' \<and>
     (\<exists>page notice. readPage path (Some (int s + 1)) None content = Inr page \<and> rp_nextOffset page = Some (int s' + 1) \<and>
        rp_text page = joinWith [10] (slice s s' (splitOn 10 content)) @ notice) \<and>
     pagesRead path content (s' # ss)"

lemma page_step:
  assumes s: "s < length (splitOn 10 content)"
    and fits: "\<forall>l \<in> set (splitOn 10 content). utf8ByteLength l \<le> DEFAULT_MAX_BYTES"
  shows "pagesRead path content [s] \<or>
    (\<exists>s' > s. s' < length (splitOn 10 content) \<and>
      (\<exists>page notice. readPage path (Some (int s + 1)) None content = Inr page \<and> rp_nextOffset page = Some (int s' + 1) \<and>
        rp_text page = joinWith [10] (slice s s' (splitOn 10 content)) @ notice))"
proof -
  let ?ls = "splitOn 10 content"
  let ?sel = "joinWith [10] (drop s ?ls)"
  let ?trn = "truncateHead_tool ?sel noTruncationOptions"
  have "\<forall>l \<in> set (drop s ?ls). 10 \<notin> set l" using splitOn_no_sep by (meson in_set_dropD)
  then have split: "splitOn 10 ?sel = drop s ?ls" using s by (intro splitOn_joinWith) auto
  have "hd (drop s ?ls) \<in> set ?ls" using s by (simp add: hd_drop_conv_nth)
  then have hd: "utf8ByteLength (hd (splitOn 10 ?sel)) \<le> DEFAULT_MAX_BYTES" using fits by (simp add: split)
  note page = head_tool_page [OF hd refl]
  have start: "startLineOf (Some (int s + 1)) = s" by (simp add: startLineOf_def)
  have run: "readPage path (Some (int s + 1)) None content =
      (let (t, nextOffset) = pageText path s ?ls None ?trn
       in Inr \<lparr>rp_text = t, rp_truncation = (if trn_truncated ?trn then Some ?trn else None), rp_nextOffset = nextOffset\<rparr>)"
    using s by (simp add: readPage_def start selectLines_def Let_def)
  show ?thesis
  proof (cases "trn_truncated ?trn")
    case False
    then show ?thesis using page by (simp add: run pageText_def)
  next
    case True
    with page obtain k where k: "0 < k" "k < length (drop s ?ls)" "trn_outputLines ?trn = k"
      "trn_content ?trn = joinWith [10] (take k (drop s ?ls))" by (auto simp: split)
    let ?notice = "continueNotice (s + 1) (s + k) (length ?ls) (trn_truncatedBy ?trn)"
    have "pageText path s ?ls None ?trn = (trn_content ?trn @ ?notice, Some (int (s + k) + 1))"
      using True page k(3) by (simp add: pageText_def Let_def)
    then have "\<exists>page notice. readPage path (Some (int s + 1)) None content = Inr page \<and>
        rp_nextOffset page = Some (int (s + k) + 1) \<and>
        rp_text page = joinWith [10] (slice s (s + k) ?ls) @ notice"
      using k(4) unfolding run by (simp add: slice_def)
    then show ?thesis using k(1,2) by (intro disjI2 exI [of _ "s + k"]) auto
  qed
qed

lemma pages_from:
  assumes "\<forall>l \<in> set (splitOn 10 content). utf8ByteLength l \<le> DEFAULT_MAX_BYTES"
  shows "s < length (splitOn 10 content) \<Longrightarrow> \<exists>ss. pagesRead path content (s # ss)"
proof (induction "length (splitOn 10 content) - s" arbitrary: s rule: less_induct)
  case less
  from page_step [OF less.prems assms, of path] show ?case
  proof (elim disjE)
    assume "pagesRead path content [s]"
    then show ?thesis by blast
  next
    assume "\<exists>s' > s. s' < length (splitOn 10 content) \<and>
      (\<exists>page notice. readPage path (Some (int s + 1)) None content = Inr page \<and> rp_nextOffset page = Some (int s' + 1) \<and>
        rp_text page = joinWith [10] (slice s s' (splitOn 10 content)) @ notice)"
    then obtain s' where s': "s < s'" "s' < length (splitOn 10 content)"
      "\<exists>page notice. readPage path (Some (int s + 1)) None content = Inr page \<and> rp_nextOffset page = Some (int s' + 1) \<and>
        rp_text page = joinWith [10] (slice s s' (splitOn 10 content)) @ notice" by blast
    have "length (splitOn 10 content) - s' < length (splitOn 10 content) - s" using s'(1,2) by linarith
    from less.hyps [OF this s'(2)] obtain ss where "pagesRead path content (s' # ss)" by blast
    with s' have "pagesRead path content (s # s' # ss)" by simp
    then show ?thesis by blast
  qed
qed

text \<open>C32: When no line of a text file is over the byte limit, reading from the start and on at the
  offset that each page names ends: the pages show consecutive lines without a gap or an overlap,
  and the last one shows the rest of the file.\<close>

theorem paging_reads_whole_file:
  assumes "\<forall>l \<in> set (splitOn 10 content). utf8ByteLength l \<le> DEFAULT_MAX_BYTES"
  shows "\<exists>starts. pagesRead path content (0 # starts)"
  using pages_from [OF assms, of 0] by (simp add: length_greater_0_conv)

theorem paging_reads_whole_file_witness:
  "let content = js ''one'' @ [10] @ js ''two''
   in (\<forall>l \<in> set (splitOn 10 content). utf8ByteLength l \<le> DEFAULT_MAX_BYTES) \<and>
     (\<exists>starts. pagesRead (js ''f'') content (0 # starts))"
proof -
  have "\<forall>l \<in> set (splitOn 10 (js ''one'' @ [10] @ js ''two'')). utf8ByteLength l \<le> DEFAULT_MAX_BYTES" by code_simp
  with paging_reads_whole_file [OF this] show ?thesis by (simp add: Let_def)
qed

end
