(* ===== verification/EventStream.thy ===== *)
theory EventStream
  imports Prelude
begin

text \<open>
  The event stream between a producer and its consumers, packages/ai/src/utils/event-stream.ts.
  A consumer that asks for an event gets one at once, learns that the stream is over, or waits;
  an operation's deliveries are what it hands to consumers, by their numbers. Operations come in
  any order.
\<close>

section \<open>State\<close>

record ('t, 'r) event_stream =
  es_queue :: "'t list"
  es_waiting :: "nat list"
  es_done :: bool
  es_result :: "'r option"

definition newStream :: "('t, 'r) event_stream" where
  "newStream = \<lparr>es_queue = [], es_waiting = [], es_done = False, es_result = None\<rparr>"

text \<open>A promise is settled once.\<close>

definition resolveResult :: "'r \<Rightarrow> ('t, 'r) event_stream \<Rightarrow> ('t, 'r) event_stream" where
  "resolveResult r s = (case es_result s of None \<Rightarrow> s\<lparr>es_result := Some r\<rparr> | Some _ \<Rightarrow> s)"

text \<open>What a consumer gets: an event, or \<open>None\<close> for the end.\<close>

type_synonym 't delivery = "nat \<times> 't option"

section \<open>Operations\<close>

definition pushEvent ::
  "('t \<Rightarrow> bool) \<Rightarrow> ('t \<Rightarrow> 'r) \<Rightarrow> 't \<Rightarrow> ('t, 'r) event_stream \<Rightarrow> 't delivery list \<times> ('t, 'r) event_stream" where
  "pushEvent isComplete extractResult e s =
     (if es_done s then ([], s)
      else (let s1 = (if isComplete e then resolveResult (extractResult e) (s\<lparr>es_done := True\<rparr>) else s)
            in case es_waiting s1 of
                 c # cs \<Rightarrow> ([(c, Some e)], s1\<lparr>es_waiting := cs\<rparr>)
               | [] \<Rightarrow> ([], s1\<lparr>es_queue := es_queue s1 @ [e]\<rparr>)))"

definition endStream :: "'r option \<Rightarrow> ('t, 'r) event_stream \<Rightarrow> 't delivery list \<times> ('t, 'r) event_stream" where
  "endStream result s =
     (let s1 = s\<lparr>es_done := True\<rparr>;
          s2 = (case result of Some r \<Rightarrow> resolveResult r s1 | None \<Rightarrow> s1)
      in (map (\<lambda>c. (c, None)) (es_waiting s2), s2\<lparr>es_waiting := []\<rparr>))"

text \<open>The iterator of a consumer asks for its next event.\<close>

definition askEvent :: "nat \<Rightarrow> ('t, 'r) event_stream \<Rightarrow> 't delivery list \<times> ('t, 'r) event_stream" where
  "askEvent c s =
     (case es_queue s of
        e # es \<Rightarrow> ([(c, Some e)], s\<lparr>es_queue := es\<rparr>)
      | [] \<Rightarrow> if es_done s then ([(c, None)], s) else ([], s\<lparr>es_waiting := es_waiting s @ [c]\<rparr>))"

datatype ('t, 'r) stream_op = Push 't | EndStream "'r option" | Ask nat

definition streamStep ::
  "('t \<Rightarrow> bool) \<Rightarrow> ('t \<Rightarrow> 'r) \<Rightarrow> ('t, 'r) stream_op \<Rightarrow> ('t, 'r) event_stream \<Rightarrow>
   't delivery list \<times> ('t, 'r) event_stream" where
  "streamStep isComplete extractResult op s =
     (case op of
        Push e \<Rightarrow> pushEvent isComplete extractResult e s
      | EndStream r \<Rightarrow> endStream r s
      | Ask c \<Rightarrow> askEvent c s)"

fun streamRun ::
  "('t \<Rightarrow> bool) \<Rightarrow> ('t \<Rightarrow> 'r) \<Rightarrow> ('t, 'r) stream_op list \<Rightarrow> ('t, 'r) event_stream \<Rightarrow>
   't delivery list \<times> ('t, 'r) event_stream" where
  "streamRun isComplete extractResult [] s = ([], s)"
| "streamRun isComplete extractResult (op # ops) s =
     (case streamStep isComplete extractResult op s of
        (ds, s1) \<Rightarrow> (case streamRun isComplete extractResult ops s1 of (ds', s2) \<Rightarrow> (ds @ ds', s2)))"

text \<open>
  What is pushed before the end is delivered once, in order, and nothing else is; the end is told
  when all has been delivered.
\<close>

text \<open>The events that count: those pushed up to the first complete one or the first end.\<close>

fun accepted :: "('t \<Rightarrow> bool) \<Rightarrow> ('t, 'r) stream_op list \<Rightarrow> 't list" where
  "accepted isComplete [] = []"
| "accepted isComplete (Push e # ops) = e # (if isComplete e then [] else accepted isComplete ops)"
| "accepted isComplete (EndStream r # ops) = []"
| "accepted isComplete (Ask c # ops) = accepted isComplete ops"

text \<open>The result: of the complete event, or the first that an end gives.\<close>

fun givenResult :: "('t, 'r) stream_op list \<Rightarrow> 'r option" where
  "givenResult [] = None"
| "givenResult (EndStream (Some r) # ops) = Some r"
| "givenResult (op # ops) = givenResult ops"

fun finalResult :: "('t \<Rightarrow> bool) \<Rightarrow> ('t \<Rightarrow> 'r) \<Rightarrow> ('t, 'r) stream_op list \<Rightarrow> 'r option" where
  "finalResult isComplete extractResult [] = None"
| "finalResult isComplete extractResult (Push e # ops) =
     (if isComplete e then Some (extractResult e) else finalResult isComplete extractResult ops)"
| "finalResult isComplete extractResult (EndStream r # ops) = (case r of Some x \<Rightarrow> Some x | None \<Rightarrow> givenResult ops)"
| "finalResult isComplete extractResult (Ask c # ops) = finalResult isComplete extractResult ops"

definition delivered :: "'t delivery list \<Rightarrow> 't list" where
  "delivered ds = List.map_filter snd ds"

lemma delivered_simps [simp]:
  "delivered [] = []" "delivered (ds @ ds') = delivered ds @ delivered ds'"
  "delivered ((c, Some e) # ds) = e # delivered ds" "delivered ((c, None) # ds) = delivered ds"
  "delivered (map (\<lambda>c. (c, None)) cs) = []"
  by (simp_all add: delivered_def List.map_filter_def comp_def)

definition stream_ok :: "('t, 'r) event_stream \<Rightarrow> bool" where
  "stream_ok s \<longleftrightarrow> es_queue s = [] \<or> es_waiting s = []"

lemma resolve_fields [simp]:
  "es_queue (resolveResult r s) = es_queue s" "es_waiting (resolveResult r s) = es_waiting s"
  "es_done (resolveResult r s) = es_done s"
  "es_result (resolveResult r s) = (case es_result s of None \<Rightarrow> Some r | Some x \<Rightarrow> Some x)"
  by (simp_all add: resolveResult_def split: option.splits)

lemma step_ok: "stream_ok s \<Longrightarrow> streamStep C X op s = (ds, s') \<Longrightarrow> stream_ok s'"
  by (cases op) (auto simp: streamStep_def pushEvent_def endStream_def askEvent_def stream_ok_def Let_def
      split: if_splits list.splits option.splits)

text \<open>A stream that is over changes by deliveries alone, and keeps its first result.\<close>

lemma run_done:
  "es_done s \<Longrightarrow> es_waiting s = [] \<or> es_queue s = [] \<Longrightarrow> streamRun C X ops s = (ds, s') \<Longrightarrow>
   delivered ds @ es_queue s' = es_queue s \<and> es_done s' \<and>
   es_result s' = (case es_result s of Some r \<Rightarrow> Some r | None \<Rightarrow> givenResult ops)"
proof (induction ops arbitrary: s ds)
  case (Cons op ops)
  obtain ds1 s1 ds2 where step: "streamStep C X op s = (ds1, s1)" and run: "streamRun C X ops s1 = (ds2, s')"
    and ds: "ds = ds1 @ ds2" using Cons.prems(3) by (auto split: prod.splits)
  have s1: "es_done s1" "delivered ds1 @ es_queue s1 = es_queue s"
    "es_result s1 = (case es_result s of Some r \<Rightarrow> Some r | None \<Rightarrow> (case op of EndStream r \<Rightarrow> r | _ \<Rightarrow> None))"
    using step Cons.prems(1)
    by (cases op; auto simp: streamStep_def pushEvent_def endStream_def askEvent_def Let_def split: list.splits option.splits)+
  have "stream_ok s" using Cons.prems(2) by (auto simp: stream_ok_def)
  from step_ok [OF this step] have "es_waiting s1 = [] \<or> es_queue s1 = []" by (auto simp: stream_ok_def)
  from Cons.IH [OF s1(1) this run] s1(2,3) ds show ?case
    by (cases op) (auto split: option.splits)
qed (auto split: option.splits)

lemma run_open:
  "\<not> es_done s \<Longrightarrow> es_result s = None \<Longrightarrow> stream_ok s \<Longrightarrow> streamRun C X ops s = (ds, s') \<Longrightarrow>
   delivered ds @ es_queue s' = es_queue s @ accepted C ops \<and> es_result s' = finalResult C X ops \<and>
   (es_done s' \<longleftrightarrow> (\<exists>op \<in> set ops. case op of Push e \<Rightarrow> C e | EndStream r \<Rightarrow> True | Ask c \<Rightarrow> False))"
proof (induction ops arbitrary: s ds)
  case (Cons op ops)
  obtain ds1 s1 ds2 where step: "streamStep C X op s = (ds1, s1)" and run: "streamRun C X ops s1 = (ds2, s')"
    and ds: "ds = ds1 @ ds2" using Cons.prems(4) by (auto split: prod.splits)
  note ok = step_ok [OF Cons.prems(3) step]
  note defs = streamStep_def pushEvent_def endStream_def askEvent_def stream_ok_def Let_def
  show ?case
  proof (cases op)
    case (Push e)
    have q: "delivered ds1 @ es_queue s1 = es_queue s @ [e]" "es_done s1 = C e"
      "es_result s1 = (if C e then Some (X e) else None)"
      using step Cons.prems(1-3) by (auto simp: Push defs split: if_splits list.splits)
    show ?thesis
    proof (cases "C e")
      case True
      with run_done [OF _ _ run] ok q show ?thesis by (auto simp: Push ds stream_ok_def)
    next
      case False
      with Cons.IH [OF _ _ ok run] q show ?thesis by (auto simp: Push ds)
    qed
  next
    case (EndStream r)
    have q: "delivered ds1 @ es_queue s1 = es_queue s" "es_done s1" "es_result s1 = r"
      using step Cons.prems(2) by (auto simp: EndStream defs split: option.splits)
    with run_done [OF q(2) _ run] ok show ?thesis by (auto simp: EndStream ds stream_ok_def split: option.splits)
  next
    case (Ask c)
    have q: "delivered ds1 @ es_queue s1 = es_queue s" "\<not> es_done s1" "es_result s1 = None"
      using step Cons.prems(1,2) by (auto simp: Ask defs split: list.splits)
    with Cons.IH [OF q(2,3) ok run] show ?thesis by (auto simp: Ask ds)
  qed
qed auto

text \<open>The end is told only when the stream is over and nothing is queued.\<close>

lemma step_over:
  "stream_ok s \<Longrightarrow> streamStep C X op s = (ds, s') \<Longrightarrow>
   (es_done s \<and> es_queue s = [] \<or> (\<exists>c. (c, None) \<in> set ds)) \<Longrightarrow> es_done s' \<and> es_queue s' = []"
  by (cases op) (auto simp: streamStep_def pushEvent_def endStream_def askEvent_def stream_ok_def Let_def
      split: if_splits list.splits option.splits)

lemma run_over:
  "stream_ok s \<Longrightarrow> streamRun C X ops s = (ds, s') \<Longrightarrow>
   (es_done s \<and> es_queue s = [] \<or> (\<exists>c. (c, None) \<in> set ds)) \<Longrightarrow> es_done s' \<and> es_queue s' = []"
proof (induction ops arbitrary: s ds)
  case (Cons op ops)
  obtain ds1 s1 ds2 where step: "streamStep C X op s = (ds1, s1)" and run: "streamRun C X ops s1 = (ds2, s')"
    and ds: "ds = ds1 @ ds2" using Cons.prems(2) by (auto split: prod.splits)
  from step_over [OF Cons.prems(1) step] Cons.IH [OF step_ok [OF Cons.prems(1) step] run] Cons.prems(3)
  show ?case by (auto simp: ds)
qed auto

lemma run_ok: "stream_ok s \<Longrightarrow> streamRun C X ops s = (ds, s') \<Longrightarrow> stream_ok s'"
  by (induction ops arbitrary: s ds) (auto split: prod.splits dest: step_ok)

text \<open>C18: In every order of pushes, ends and requests the consumers get exactly the events that were
  pushed up to the first complete event or end, each once and in order, those not yet delivered
  being queued; while events are queued no consumer waits; a consumer is told the end only when
  all is delivered; and the result is that of the complete event, else the first that an end
  gave, and none when neither was.\<close>

theorem stream_delivers_each_event_once:
  "let (ds, s) = streamRun isComplete extractResult ops newStream
   in delivered ds @ es_queue s = accepted isComplete ops \<and> (es_queue s = [] \<or> es_waiting s = []) \<and>
     ((\<exists>c. (c, None) \<in> set ds) \<longrightarrow> es_queue s = []) \<and> es_result s = finalResult isComplete extractResult ops"
proof -
  obtain ds s where run: "streamRun isComplete extractResult ops newStream = (ds, s)" by fastforce
  have new: "\<not> es_done newStream" "es_result newStream = None" "stream_ok newStream" "es_queue newStream = []"
    by (simp_all add: newStream_def stream_ok_def)
  from run_ok [OF new(3) run] run_open [OF new(1-3) run] run_over [OF new(3) run] show ?thesis
    unfolding run by (simp add: stream_ok_def new(4))
qed

theorem stream_delivers_each_event_once_witness:
  "let (ds, s) = streamRun (\<lambda>e. e = (9 :: nat)) id [Ask 0, Push 1, Push 2, Push 9, Push 3, Ask 0, EndStream None] newStream
   in ds = [(0, Some 1), (0, Some 2)] \<and> delivered ds @ es_queue s = [1, 2, 9] \<and> es_result s = Some 9"
proof -
  let ?ops = "[Ask 0, Push 1, Push 2, Push (9 :: nat), Push 3, Ask 0, EndStream None]"
  have run: "streamRun (\<lambda>e. e = (9 :: nat)) id ?ops newStream =
      ([(0, Some 1), (0, Some 2)], \<lparr>es_queue = [9], es_waiting = [], es_done = True, es_result = Some 9\<rparr>)"
    by (simp add: streamStep_def pushEvent_def askEvent_def endStream_def newStream_def resolveResult_def Let_def)
  from stream_delivers_each_event_once [of "\<lambda>e. e = 9" id ?ops, unfolded run] show ?thesis unfolding run by simp
qed

end
