(* ===== verification/ProxyStream.thy ===== *)
theory ProxyStream
  imports Messages EventStream
begin

text \<open>
  The stream that a server proxies, packages/agent/src/proxy.ts. The decoded chunks of the response
  are the input, each with the abort signal as it stands when the chunk is there; \<open>JSON.parse\<close> of
  an event and the parser of streamed JSON are parameters.

  All events refer to one partial message that the stream builds up; the message of the final
  event is that object too. So the model keeps it once, and the events have no copy of it.
\<close>

section \<open>Events and the partial message\<close>

datatype proxy_event =
    ProxyStart
  | ProxyTextStart nat
  | ProxyTextDelta nat jstr
  | ProxyTextEnd nat "jstr option"
  | ProxyThinkingStart nat
  | ProxyThinkingDelta nat jstr
  | ProxyThinkingEnd nat "jstr option"
  | ProxyToolCallStart nat jstr jstr
  | ProxyToolCallDelta nat jstr
  | ProxyToolCallEnd nat
  | ProxyDone stop_reason usage
  | ProxyError stop_reason "jstr option" usage
  | ProxyUnknown jstr

text \<open>The argument text of a tool call is kept until the call ends.\<close>

datatype proxy_block =
    ProxyText text_content
  | ProxyThinking thinking_content
  | ProxyToolCall jstr jstr json "jstr option"

text \<open>An index beyond the end leaves holes in the array.\<close>

record proxy_message =
  pm_api :: jstr
  pm_provider :: jstr
  pm_model :: jstr
  pm_timestamp :: int
  pm_content :: "proxy_block option list"
  pm_usage :: usage
  pm_stopReason :: stop_reason
  pm_errorMessage :: "jstr option"

definition contentAt :: "nat \<Rightarrow> proxy_message \<Rightarrow> proxy_block option" where
  "contentAt i m = (if i < length (pm_content m) then pm_content m ! i else None)"

definition setContent :: "nat \<Rightarrow> proxy_block \<Rightarrow> proxy_message \<Rightarrow> proxy_message" where
  "setContent i b m =
     m\<lparr>pm_content := (pm_content m @ replicate (Suc i - length (pm_content m)) None)[i := Some b]\<rparr>"

definition zeroUsage :: usage where
  "zeroUsage = \<lparr>us_input = 0, us_output = 0, us_cacheRead = 0, us_cacheWrite = 0, us_cacheWrite1h = None,
     us_reasoning = None, us_totalTokens = 0,
     us_cost = \<lparr>uc_input = 0, uc_output = 0, uc_cacheRead = 0, uc_cacheWrite = 0, uc_total = 0\<rparr>\<rparr>"

definition newPartial :: "model \<Rightarrow> int \<Rightarrow> proxy_message" where
  "newPartial md now =
     \<lparr>pm_api = md_api md, pm_provider = md_provider md, pm_model = md_id md, pm_timestamp = now, pm_content = [],
      pm_usage = zeroUsage, pm_stopReason = SR_stop, pm_errorMessage = None\<rparr>"

text \<open>The events for the consumer, without the message and the objects that are part of it.\<close>

datatype proxy_out =
    OutStart
  | OutDelta block_event_kind nat jstr
  | OutBlock block_event_kind nat
  | OutEnd block_event_kind nat jstr
  | OutDone stop_reason
  | OutError stop_reason

section \<open>One event\<close>

definition falsyJson :: "json \<Rightarrow> bool" where
  "falsyJson j \<longleftrightarrow> j \<in> {JNull, JBool False, JNum 0, JStr []}"

definition wrongContent :: "string \<Rightarrow> string \<Rightarrow> jstr" where
  "wrongContent event kind = js ''Received '' @ js event @ js '' for non-'' @ js kind @ js '' content''"

text \<open>An absent text becomes \<open>"undefined"\<close> when a text is added to it.\<close>

definition processProxyEvent ::
  "(jstr \<Rightarrow> json) \<Rightarrow> proxy_event \<Rightarrow> proxy_message \<Rightarrow> jstr + proxy_out option \<times> proxy_message" where
  "processProxyEvent parseStreamingJson e m =
     (case e of
        ProxyStart \<Rightarrow> Inr (Some OutStart, m)
      | ProxyTextStart i \<Rightarrow>
          Inr (Some (OutBlock text_start i), setContent i (ProxyText \<lparr>tc_text = [], tc_textSignature = None\<rparr>) m)
      | ProxyTextDelta i d \<Rightarrow>
          (case contentAt i m of
             Some (ProxyText c) \<Rightarrow>
               Inr (Some (OutDelta text_delta i d), setContent i (ProxyText (c\<lparr>tc_text := tc_text c @ d\<rparr>)) m)
           | _ \<Rightarrow> Inl (wrongContent ''text_delta'' ''text''))
      | ProxyTextEnd i sig \<Rightarrow>
          (case contentAt i m of
             Some (ProxyText c) \<Rightarrow>
               Inr (Some (OutEnd text_end i (tc_text c)), setContent i (ProxyText (c\<lparr>tc_textSignature := sig\<rparr>)) m)
           | _ \<Rightarrow> Inl (wrongContent ''text_end'' ''text''))
      | ProxyThinkingStart i \<Rightarrow>
          Inr (Some (OutBlock thinking_start i),
            setContent i (ProxyThinking \<lparr>th_thinking = [], th_thinkingSignature = None, th_redacted = None\<rparr>) m)
      | ProxyThinkingDelta i d \<Rightarrow>
          (case contentAt i m of
             Some (ProxyThinking c) \<Rightarrow>
               Inr (Some (OutDelta thinking_delta i d), setContent i (ProxyThinking (c\<lparr>th_thinking := th_thinking c @ d\<rparr>)) m)
           | _ \<Rightarrow> Inl (wrongContent ''thinking_delta'' ''thinking''))
      | ProxyThinkingEnd i sig \<Rightarrow>
          (case contentAt i m of
             Some (ProxyThinking c) \<Rightarrow>
               Inr (Some (OutEnd thinking_end i (th_thinking c)), setContent i (ProxyThinking (c\<lparr>th_thinkingSignature := sig\<rparr>)) m)
           | _ \<Rightarrow> Inl (wrongContent ''thinking_end'' ''thinking''))
      | ProxyToolCallStart i callId name \<Rightarrow>
          Inr (Some (OutBlock toolcall_start i), setContent i (ProxyToolCall callId name (JObj []) (Some [])) m)
      | ProxyToolCallDelta i d \<Rightarrow>
          (case contentAt i m of
             Some (ProxyToolCall callId name args partialJson) \<Rightarrow>
               (let t = orDefault partialJson (js ''undefined'') @ d; parsed = parseStreamingJson t
                in Inr (Some (OutDelta toolcall_delta i d),
                     setContent i (ProxyToolCall callId name (if falsyJson parsed then JObj [] else parsed) (Some t)) m))
           | _ \<Rightarrow> Inl (wrongContent ''toolcall_delta'' ''toolCall''))
      | ProxyToolCallEnd i \<Rightarrow>
          (case contentAt i m of
             Some (ProxyToolCall callId name args partialJson) \<Rightarrow>
               Inr (Some (OutBlock toolcall_end i), setContent i (ProxyToolCall callId name args None) m)
           | _ \<Rightarrow> Inr (None, m))
      | ProxyDone reason u \<Rightarrow> Inr (Some (OutDone reason), m\<lparr>pm_stopReason := reason, pm_usage := u\<rparr>)
      | ProxyError reason msg u \<Rightarrow>
          Inr (Some (OutError reason), m\<lparr>pm_stopReason := reason, pm_errorMessage := msg, pm_usage := u\<rparr>)
      | ProxyUnknown t \<Rightarrow> Inr (None, m))"

section \<open>The stream\<close>

definition isFinalOut :: "proxy_out \<Rightarrow> bool" where
  "isFinalOut e = (case e of OutDone _ \<Rightarrow> True | OutError _ \<Rightarrow> True | _ \<Rightarrow> False)"

record proxy_state =
  px_message :: proxy_message
  px_stream :: "(proxy_out, unit) event_stream"

text \<open>Consumers that wait are served as \<open>pushEvent\<close> says; here the stream alone counts.\<close>

definition pushOut :: "proxy_out \<Rightarrow> proxy_state \<Rightarrow> proxy_state" where
  "pushOut e s = s\<lparr>px_stream := snd (pushEvent isFinalOut (\<lambda>_. ()) e (px_stream s))\<rparr>"

definition endOut :: "proxy_state \<Rightarrow> proxy_state" where
  "endOut s = s\<lparr>px_stream := snd (endStream None (px_stream s))\<rparr>"

definition proxyLine ::
  "(jstr \<Rightarrow> jstr + proxy_event) \<Rightarrow> (jstr \<Rightarrow> json) \<Rightarrow> jstr \<Rightarrow> proxy_state \<Rightarrow> jstr option \<times> proxy_state" where
  "proxyLine parse parseStreamingJson line s =
     (if prefix (js ''data: '') line
      then (let data = trim (drop 6 line)
            in if data = [] then (None, s)
               else (case parse data of
                       Inl e \<Rightarrow> (Some e, s)
                     | Inr event \<Rightarrow>
                         (case processProxyEvent parseStreamingJson event (px_message s) of
                            Inl e \<Rightarrow> (Some e, s)
                          | Inr (out, m) \<Rightarrow>
                              (None, case out of None \<Rightarrow> s\<lparr>px_message := m\<rparr>
                                     | Some e \<Rightarrow> pushOut e (s\<lparr>px_message := m\<rparr>)))))
      else (None, s))"

text \<open>The lines of a chunk, up to an error.\<close>

fun proxyLines ::
  "(jstr \<Rightarrow> jstr + proxy_event) \<Rightarrow> (jstr \<Rightarrow> json) \<Rightarrow> jstr list \<Rightarrow> proxy_state \<Rightarrow> jstr option \<times> proxy_state" where
  "proxyLines parse psj [] s = (None, s)"
| "proxyLines parse psj (l # ls) s =
     (case proxyLine parse psj l s of (None, s1) \<Rightarrow> proxyLines parse psj ls s1 | (Some e, s1) \<Rightarrow> (Some e, s1))"

datatype proxy_read =
    ProxyChunk jstr bool
  | ProxyReadError jstr bool
  | ProxyClosed bool

definition abortedByUser :: jstr where "abortedByUser = js ''Request aborted by user''"

text \<open>The loop over the reads: the error it ends with, if any, and the signal at that time. A list
  without an end is a body that is still open.\<close>

fun proxyReads ::
  "(jstr \<Rightarrow> jstr + proxy_event) \<Rightarrow> (jstr \<Rightarrow> json) \<Rightarrow> proxy_read list \<Rightarrow> jstr \<Rightarrow> proxy_state \<Rightarrow>
   (jstr \<times> bool) option \<times> bool \<times> proxy_state" where
  "proxyReads parse psj [] buffer s = (None, False, s)"
| "proxyReads parse psj (ProxyClosed aborted # rs) buffer s =
     (if aborted then (Some (abortedByUser, True), True, s) else (None, True, s))"
| "proxyReads parse psj (ProxyReadError e aborted # rs) buffer s = (Some (e, aborted), True, s)"
| "proxyReads parse psj (ProxyChunk chunk aborted # rs) buffer s =
     (if aborted then (Some (abortedByUser, True), True, s)
      else (let lines = splitOn 10 (buffer @ chunk)
            in case proxyLines parse psj (butlast lines) s of
                 (Some e, s1) \<Rightarrow> (Some (e, False), True, s1)
               | (None, s1) \<Rightarrow> proxyReads parse psj rs (last lines) s1))"

text \<open>The catch branch.\<close>

definition failProxy :: "jstr \<Rightarrow> bool \<Rightarrow> proxy_state \<Rightarrow> proxy_state" where
  "failProxy errorMessage aborted s =
     (let reason = (if aborted then SR_aborted else SR_error)
      in endOut (pushOut (OutError reason)
           (s\<lparr>px_message := (px_message s)\<lparr>pm_stopReason := reason, pm_errorMessage := Some errorMessage\<rparr>\<rparr>)))"

datatype proxy_response =
    FetchFailed jstr bool
  | BadStatus jstr jstr "jstr option" bool
  | ProxyBody "proxy_read list"

definition badStatusMessage :: "jstr \<Rightarrow> jstr \<Rightarrow> jstr option \<Rightarrow> jstr" where
  "badStatusMessage status statusText bodyError =
     js ''Proxy error: '' @ (if truthyStr bodyError then the bodyError else status @ js '' '' @ statusText)"

definition streamProxy ::
  "(jstr \<Rightarrow> jstr + proxy_event) \<Rightarrow> (jstr \<Rightarrow> json) \<Rightarrow> model \<Rightarrow> int \<Rightarrow> proxy_response \<Rightarrow> proxy_state" where
  "streamProxy parse psj md now response =
     (let s = \<lparr>px_message = newPartial md now, px_stream = newStream\<rparr>
      in case response of
           FetchFailed e aborted \<Rightarrow> failProxy e aborted s
         | BadStatus status statusText bodyError aborted \<Rightarrow>
             failProxy (badStatusMessage status statusText bodyError) aborted s
         | ProxyBody reads \<Rightarrow>
             (case proxyReads parse psj reads [] s of
                (Some (e, aborted), _, s1) \<Rightarrow> failProxy e aborted s1
              | (None, True, s1) \<Rightarrow> endOut s1
              | (None, False, s1) \<Rightarrow> s1))"

text \<open>
  How the body of a proxied response is cut into chunks does not matter; its last line counts only
  with a line break, and an error after the final event still changes the final message.
\<close>

section \<open>Lines of chunks\<close>

lemma proxyLines_append:
  "proxyLines parse psj (ls @ ks) s =
   (case proxyLines parse psj ls s of (None, s1) \<Rightarrow> proxyLines parse psj ks s1 | (Some e, s1) \<Rightarrow> (Some e, s1))"
  by (induction ls arbitrary: s) (auto split: prod.splits option.splits)

lemma two_chunks:
  "proxyReads parse psj (ProxyChunk a False # ProxyChunk b False # rs) buffer s =
   proxyReads parse psj (ProxyChunk (a @ b) False # rs) buffer s"
proof -
  let ?rest = "splitOn 10 (last (splitOn 10 (buffer @ a)) @ b)"
  have "splitOn 10 (buffer @ a @ b) = butlast (splitOn 10 (buffer @ a)) @ ?rest"
    using splitOn_append_chunk [of 10 "buffer @ a" b] by simp
  then have "butlast (splitOn 10 (buffer @ a @ b)) = butlast (splitOn 10 (buffer @ a)) @ butlast ?rest"
    "last (splitOn 10 (buffer @ a @ b)) = last ?rest"
    by (simp_all add: butlast_append)
  then show ?thesis by (simp add: proxyLines_append Let_def split: prod.splits option.splits)
qed

text \<open>C19: The stream depends on the text of the response alone: however the body is cut into chunks,
  the consumer gets the same events and the same message as from one chunk of the whole text.\<close>

theorem chunks_do_not_matter:
  assumes "chunks \<noteq> []"
  shows "streamProxy parse psj md now (ProxyBody (map (\<lambda>c. ProxyChunk c False) chunks @ reads)) =
    streamProxy parse psj md now (ProxyBody (ProxyChunk (concat chunks) False # reads))"
proof -
  have "cs \<noteq> [] \<Longrightarrow> proxyReads parse psj (map (\<lambda>c. ProxyChunk c False) cs @ reads) buffer s =
      proxyReads parse psj (ProxyChunk (concat cs) False # reads) buffer s" for cs buffer s
  proof (induction cs arbitrary: buffer s)
    case (Cons c cs)
    show ?case
    proof (cases "cs = []")
      case False
      have "proxyReads parse psj (map (\<lambda>c. ProxyChunk c False) (c # cs) @ reads) buffer s =
          proxyReads parse psj (ProxyChunk c False # ProxyChunk (concat cs) False # reads) buffer s"
        using Cons.IH [OF False] by (simp add: Let_def split: prod.splits option.splits)
      also have "\<dots> = proxyReads parse psj (ProxyChunk (concat (c # cs)) False # reads) buffer s"
        using two_chunks by simp
      finally show ?thesis .
    qed simp
  qed simp
  from this [OF assms] show ?thesis by (simp only: streamProxy_def proxy_response.case)
qed

text \<open>A parser of two events, for the instances.\<close>

definition sampleParse :: "jstr \<Rightarrow> jstr + proxy_event" where
  "sampleParse t =
     (if t = js ''start'' then Inr ProxyStart
      else if t = js ''done'' then Inr (ProxyDone SR_stop zeroUsage) else Inl (js ''Unexpected token''))"

definition proxyModel :: model where
  "proxyModel = \<lparr>md_id = js ''m'', md_name = [], md_api = js ''a'', md_provider = js ''p'', md_baseUrl = [],
     md_reasoning = False, md_thinkingLevelMap = None, md_input = [], md_cost = us_cost zeroUsage,
     md_contextWindow = 0, md_maxTokens = 0\<rparr>"

definition sampleRun :: "proxy_read list \<Rightarrow> proxy_state" where
  "sampleRun reads = streamProxy sampleParse (\<lambda>_. JNull) proxyModel 0 (ProxyBody reads)"

lemma sample_lines:
  "trim (drop 6 (js ''data: start'')) = js ''start''" "trim (drop 6 (js ''data: done'')) = js ''done''"
  "prefix (js ''data: '') (js ''data: start'')" "prefix (js ''data: '') (js ''data: done'')"
  "sampleParse (js ''start'') = Inr ProxyStart" "sampleParse (js ''done'') = Inr (ProxyDone SR_stop zeroUsage)"
  by code_simp+

lemmas proxy_run_simps = streamProxy_def proxyLine_def processProxyEvent_def sample_lines pushOut_def endOut_def
  pushEvent_def endStream_def newStream_def isFinalOut_def resolveResult_def Let_def

lemma sample_split:
  "splitOn 10 (js ''data: start'' @ [10] @ js ''data: done'' @ [10]) = [js ''data: start'', js ''data: done'', []]"
  "splitOn 10 (js ''data: start'' @ [10] @ js ''data: done'') = [js ''data: start'', js ''data: done'']"
  "splitOn 10 (js ''data: start'' @ [10]) = [js ''data: start'', []]"
  by code_simp+

lemma sample_run_done:
  "sampleRun [ProxyChunk (js ''data: start'' @ [10] @ js ''data: done'' @ [10]) False, ProxyClosed aborted] =
   \<lparr>px_message = (newPartial proxyModel 0)\<lparr>pm_stopReason := if aborted then SR_aborted else SR_stop,
      pm_errorMessage := if aborted then Some abortedByUser else None\<rparr>,
    px_stream = \<lparr>es_queue = [OutStart, OutDone SR_stop], es_waiting = [], es_done = True, es_result = Some ()\<rparr>\<rparr>"
  unfolding sampleRun_def proxyReads.simps streamProxy_def proxy_response.case append_Nil sample_split
  by (simp add: proxy_run_simps newPartial_def failProxy_def)

theorem chunks_do_not_matter_witness:
  "let chunks = [js ''data: st'', js ''art'' @ [10], js ''data: done'' @ [10]]
   in es_queue (px_stream (sampleRun [ProxyChunk (concat chunks) False, ProxyClosed False])) = [OutStart, OutDone SR_stop] \<and>
     sampleRun (map (\<lambda>c. ProxyChunk c False) chunks @ [ProxyClosed False]) =
       sampleRun [ProxyChunk (concat chunks) False, ProxyClosed False]"
proof -
  let ?chunks = "[js ''data: st'', js ''art'' @ [10], js ''data: done'' @ [10]]"
  have "concat ?chunks = js ''data: start'' @ [10] @ js ''data: done'' @ [10]" by code_simp
  then have "es_queue (px_stream (sampleRun [ProxyChunk (concat ?chunks) False, ProxyClosed False])) =
      [OutStart, OutDone SR_stop]"
    by (simp only: sample_run_done) simp
  moreover have "sampleRun (map (\<lambda>c. ProxyChunk c False) ?chunks @ [ProxyClosed False]) =
      sampleRun [ProxyChunk (concat ?chunks) False, ProxyClosed False]"
    unfolding sampleRun_def by (rule chunks_do_not_matter) simp
  ultimately show ?thesis unfolding Let_def by blast
qed

section \<open>The end of the body\<close>

text \<open>What follows the last line break of the response is lost: the stream ends as if it were not
  there, whatever it says. A final event without a line break is not seen, and when no final event
  came before, the stream is over and its result is never given.\<close>

theorem unterminated_event_is_lost:
  assumes "10 \<notin> set fragment"
  shows "streamProxy parse psj md now (ProxyBody [ProxyChunk (t @ 10 # fragment) False, ProxyClosed aborted]) =
    streamProxy parse psj md now (ProxyBody [ProxyChunk (t @ [10]) False, ProxyClosed aborted])"
proof -
  have "splitOn 10 (t @ 10 # fragment) = splitOn 10 t @ [fragment]" by (rule splitOn_snoc_line [OF assms])
  moreover have "splitOn 10 (t @ [10]) = splitOn 10 t @ [[]]" using splitOn_snoc_line [of 10 "[]" t] by simp
  ultimately show ?thesis by (simp add: streamProxy_def Let_def split: prod.splits option.splits)
qed

theorem unterminated_event_is_lost_witness:
  "sampleRun [ProxyChunk (js ''data: start'' @ 10 # js ''data: done'') False, ProxyClosed False] =
     sampleRun [ProxyChunk (js ''data: start'' @ [10]) False, ProxyClosed False] \<and>
   px_stream (sampleRun [ProxyChunk (js ''data: start'' @ 10 # js ''data: done'') False, ProxyClosed False]) =
     \<lparr>es_queue = [OutStart], es_waiting = [], es_done = True, es_result = None\<rparr>"
proof -
  have "10 \<notin> set (js ''data: done'')" by code_simp
  from unterminated_event_is_lost [OF this, of sampleParse "\<lambda>_. JNull" proxyModel 0 "js ''data: start''" False]
  have same: "sampleRun [ProxyChunk (js ''data: start'' @ 10 # js ''data: done'') False, ProxyClosed False] =
     sampleRun [ProxyChunk (js ''data: start'' @ [10]) False, ProxyClosed False]" by (simp only: sampleRun_def)
  have "px_stream (sampleRun [ProxyChunk (js ''data: start'' @ [10]) False, ProxyClosed False]) =
     \<lparr>es_queue = [OutStart], es_waiting = [], es_done = True, es_result = None\<rparr>"
    unfolding sampleRun_def proxyReads.simps streamProxy_def proxy_response.case append_Nil sample_split
    by (simp add: proxy_run_simps)
  with same show ?thesis by simp
qed

text \<open>An abort between the final event and the end of the body rewrites the message that the
  consumer has been given, while the stream's events stay.\<close>

lemma proxyLine_waiting: "es_waiting (px_stream s) = [] \<Longrightarrow> es_waiting (px_stream (snd (proxyLine parse psj l s))) = []"
  by (auto simp: proxyLine_def pushOut_def pushEvent_def resolveResult_def Let_def split: sum.splits option.splits)

lemma proxyLines_waiting: "es_waiting (px_stream s) = [] \<Longrightarrow> es_waiting (px_stream (snd (proxyLines parse psj ls s))) = []"
proof (induction ls arbitrary: s)
  case (Cons l ls)
  from proxyLine_waiting [OF Cons.prems, of parse psj l] show ?case
    by (cases "proxyLine parse psj l s") (auto split: option.splits dest: Cons.IH)
qed simp

theorem abort_rewrites_final_message:
  assumes "proxyLines parse psj (butlast (splitOn 10 t)) \<lparr>px_message = newPartial md now, px_stream = newStream\<rparr> = (None, s)"
    and "es_done (px_stream s)"
  shows "streamProxy parse psj md now (ProxyBody [ProxyChunk t False, ProxyClosed True]) =
    s\<lparr>px_message := (px_message s)\<lparr>pm_stopReason := SR_aborted, pm_errorMessage := Some abortedByUser\<rparr>\<rparr>"
proof -
  have "es_waiting (px_stream s) = []"
    using proxyLines_waiting [of "\<lparr>px_message = newPartial md now, px_stream = newStream\<rparr>" parse psj] assms(1)
    by (metis newStream_def event_stream.select_convs(2) proxy_state.select_convs(2) snd_conv)
  with assms show ?thesis
    by (cases s) (simp add: streamProxy_def failProxy_def pushOut_def endOut_def pushEvent_def endStream_def Let_def)
qed

end
