(* ===== verification/JsonRepair.thy ===== *)
theory JsonRepair
  imports Prelude
begin

text \<open>
  The repair of the JSON that models write, packages/ai/src/utils/json-parse.ts. \<open>JSON.parse\<close> and the
  parser of incomplete JSON are parameters; they give an error or a value.
\<close>

section \<open>Characters\<close>

definition DQUOTE :: jchar where "DQUOTE = 34"
definition BACKSLASH :: jchar where "BACKSLASH = 92"

definition validJsonEscape :: "jchar \<Rightarrow> bool" where
  "validJsonEscape c \<longleftrightarrow> c \<in> {34, 92, 47, 98, 102, 110, 114, 116, 117}"

definition isControlCharacter :: "jchar \<Rightarrow> bool" where
  "isControlCharacter c \<longleftrightarrow> c \<le> 0x1f"

definition lowerHexDigit :: "jchar \<Rightarrow> jchar" where
  "lowerHexDigit n = (if n < 10 then n + 48 else n + 87)"

definition escapeControlCharacter :: "jchar \<Rightarrow> jstr" where
  "escapeControlCharacter c =
     (if c = 8 then [92, 98]
      else if c = 12 then [92, 102]
      else if c = 10 then [92, 110]
      else if c = 13 then [92, 114]
      else if c = 9 then [92, 116]
      else [92, 117, 48, 48, lowerHexDigit (c div 16), lowerHexDigit (c mod 16)])"

definition isHexDigit :: "jchar \<Rightarrow> bool" where
  "isHexDigit c \<longleftrightarrow> 48 \<le> c \<and> c \<le> 57 \<or> 97 \<le> c \<and> c \<le> 102 \<or> 65 \<le> c \<and> c \<le> 70"

definition fourHexDigits :: "jstr \<Rightarrow> bool" where
  "fourHexDigits s \<longleftrightarrow> length s = 4 \<and> list_all isHexDigit s"

section \<open>Repair\<close>

text \<open>The loop over the text, inside or outside of a string literal.\<close>

function repairFrom :: "bool \<Rightarrow> jstr \<Rightarrow> jstr" where
  "repairFrom inString [] = []"
| "repairFrom False (c # s) = c # repairFrom (c = DQUOTE) s"
| "repairFrom True (c # s) =
     (if c = DQUOTE then c # repairFrom False s
      else if c = BACKSLASH
      then (case s of
              [] \<Rightarrow> [BACKSLASH, BACKSLASH]
            | n # s' \<Rightarrow>
                (if n = 117 \<and> fourHexDigits (take 4 s')
                 then [BACKSLASH, 117] @ take 4 s' @ repairFrom True (drop 4 s')
                 else if validJsonEscape n then [BACKSLASH, n] @ repairFrom True s'
                 else [BACKSLASH, BACKSLASH] @ repairFrom True s))
      else (if isControlCharacter c then escapeControlCharacter c else [c]) @ repairFrom True s)"
  by pat_completeness auto
termination by (relation "measure (length \<circ> snd)") auto

definition repairJson :: "jstr \<Rightarrow> jstr" where
  "repairJson s = repairFrom False s"

section \<open>Parsing\<close>

definition parseJsonWithRepair :: "(jstr \<Rightarrow> jstr + json) \<Rightarrow> jstr \<Rightarrow> jstr + json" where
  "parseJsonWithRepair parse s =
     (case parse s of
        Inr j \<Rightarrow> Inr j
      | Inl e \<Rightarrow> (let repaired = repairJson s in if repaired \<noteq> s then parse repaired else Inl e))"

definition nullToObject :: "json \<Rightarrow> json" where
  "nullToObject j = (if j = JNull then JObj [] else j)"

definition parseStreamingJson :: "(jstr \<Rightarrow> jstr + json) \<Rightarrow> (jstr \<Rightarrow> jstr + json) \<Rightarrow> jstr option \<Rightarrow> json" where
  "parseStreamingJson parse partialParse partialJson =
     (case partialJson of
        None \<Rightarrow> JObj []
      | Some s \<Rightarrow>
          (if trim s = [] then JObj []
           else (case parseJsonWithRepair parse s of
                   Inr j \<Rightarrow> j
                 | Inl _ \<Rightarrow>
                     (case partialParse s of
                        Inr j \<Rightarrow> nullToObject j
                      | Inl _ \<Rightarrow>
                          (case partialParse (repairJson s) of
                             Inr j \<Rightarrow> nullToObject j
                           | Inl _ \<Rightarrow> JObj [])))))"

text \<open>
  A repaired text has no raw control character and no unknown escape in a string literal, and a
  text that has none is left as it is.
\<close>

text \<open>The string literals of a text as the repair wants them. The digits behind \<open>\u\<close> do not count.\<close>

fun literalsOk :: "bool \<Rightarrow> jstr \<Rightarrow> bool" where
  "literalsOk inString [] \<longleftrightarrow> True"
| "literalsOk False (c # s) \<longleftrightarrow> literalsOk (c = DQUOTE) s"
| "literalsOk True (c # s) \<longleftrightarrow>
     (if c = DQUOTE then literalsOk False s
      else if c = BACKSLASH then (case s of [] \<Rightarrow> False | n # s' \<Rightarrow> validJsonEscape n \<and> literalsOk True s')
      else \<not> isControlCharacter c \<and> literalsOk True s)"

lemma hexDigit_plain: "isHexDigit c \<Longrightarrow> c \<noteq> DQUOTE \<and> c \<noteq> BACKSLASH \<and> \<not> isControlCharacter c"
  by (auto simp: isHexDigit_def DQUOTE_def BACKSLASH_def isControlCharacter_def word_le_nat_alt)

lemma literals_hex: "list_all isHexDigit ds \<Longrightarrow> literalsOk True (ds @ s) = literalsOk True s"
  by (induction ds) (auto dest: hexDigit_plain)

lemma valid_backslash: "validJsonEscape BACKSLASH" "BACKSLASH \<noteq> DQUOTE" "validJsonEscape 117"
  by (simp_all add: validJsonEscape_def BACKSLASH_def DQUOTE_def)

lemma escape_control:
  assumes "isControlCharacter c"
  shows "literalsOk True (escapeControlCharacter c @ s) = literalsOk True s \<and> escapeControlCharacter c @ t \<noteq> c # s"
proof -
  have c: "unat c \<le> 31" using assms by (simp add: isControlCharacter_def word_le_nat_alt)
  have "unat c mod 16 < 16" by simp
  then have mod: "unat c mod 16 \<le> 15" by linarith
  have "isHexDigit (lowerHexDigit (c div 16))" "isHexDigit (lowerHexDigit (c mod 16))"
    using c mod by (simp_all add: isHexDigit_def lowerHexDigit_def word_le_nat_alt word_less_nat_alt unat_div unat_mod
        unat_word_ariths)
  then have "literalsOk True ([48, 48, lowerHexDigit (c div 16), lowerHexDigit (c mod 16)] @ s) = literalsOk True s"
    by (intro literals_hex) (simp add: isHexDigit_def)
  moreover have "c \<noteq> 92" using c by auto
  ultimately show ?thesis
    by (auto simp: escapeControlCharacter_def BACKSLASH_def DQUOTE_def validJsonEscape_def)
qed

lemma repaired_ok: "literalsOk b (repairFrom b s)"
proof (induction b s rule: repairFrom.induct)
  case (3 c s)
  show ?case
  proof (cases "c = BACKSLASH")
    case True
    show ?thesis
    proof (cases s)
      case Nil
      then show ?thesis using True valid_backslash by simp
    next
      case (Cons n s')
      have hex: "fourHexDigits (take 4 s') \<Longrightarrow> literalsOk True (take 4 s' @ u) = literalsOk True u" for u
        by (simp add: fourHexDigits_def literals_hex)
      show ?thesis using 3 True Cons valid_backslash hex by auto
    qed
  next
    case False
    then show ?thesis using 3 escape_control [of c "repairFrom True s"] by auto
  qed
qed auto

lemma repair_fixpoint: "repairFrom b s = s \<longleftrightarrow> literalsOk b s"
proof (induction b s rule: repairFrom.induct)
  case (3 c s)
  show ?case
  proof (cases "c = BACKSLASH")
    case True
    show ?thesis
    proof (cases s)
      case Nil
      then show ?thesis using True valid_backslash by simp
    next
      case (Cons n s')
      have hex: "literalsOk True s' = literalsOk True (drop 4 s')" if "fourHexDigits (take 4 s')"
        using that literals_hex [of "take 4 s'" "drop 4 s'"] by (simp add: fourHexDigits_def)
      have rejoin: "take 4 s' @ x = s' \<longleftrightarrow> x = drop 4 s'" for x by (metis append_take_drop_id same_append_eq)
      consider "n = 117" "fourHexDigits (take 4 s')" | "\<not> (n = 117 \<and> fourHexDigits (take 4 s'))" "validJsonEscape n"
        | "\<not> validJsonEscape n" by blast
      then show ?thesis
      proof cases
        case 1
        then show ?thesis using 3(2) True Cons valid_backslash hex rejoin by simp
      next
        case 2
        then show ?thesis using 3(3) True Cons valid_backslash by auto
      next
        case 3
        then have "n \<noteq> BACKSLASH" "n \<noteq> 117" using valid_backslash by auto
        with 3 show ?thesis using True Cons valid_backslash by auto
      qed
    qed
  next
    case False
    then show ?thesis using 3 escape_control [of c _ "repairFrom True s"] by auto
  qed
qed auto

text \<open>In a repaired text no string literal has a raw control character or a backslash without a
  known escape character, and exactly the texts of that kind are left as they are. So a second
  repair changes nothing.\<close>

theorem repair_makes_literals_valid:
  "literalsOk False (repairJson s) \<and> (repairJson s = s \<longleftrightarrow> literalsOk False s) \<and> repairJson (repairJson s) = repairJson s"
  using repaired_ok [of False] repair_fixpoint [of False] by (simp add: repairJson_def)

text \<open>An escape \<open>\u\<close> without its four digits is not repaired: a text that fails to parse for it
  alone fails for good.\<close>

theorem unicode_escape_not_repaired:
  assumes "literalsOk False s" "parse s = Inl e"
  shows "parseJsonWithRepair parse s = Inl e"
  using assms repair_fixpoint [of False s] by (simp add: parseJsonWithRepair_def repairJson_def)

theorem unicode_escape_not_repaired_witness:
  "let s = [34] @ js ''C:'' @ [92] @ js ''users'' @ [34]
   in literalsOk False s \<and> parseJsonWithRepair (\<lambda>t. Inl (js ''Bad Unicode escape'')) s = Inl (js ''Bad Unicode escape'')"
proof -
  have "literalsOk False ([34] @ js ''C:'' @ [92] @ js ''users'' @ [34])" by code_simp
  with unicode_escape_not_repaired [OF this refl] show ?thesis by (simp add: Let_def)
qed

end
