(* ===== verification/TransformMessages.thy ===== *)
theory TransformMessages
  imports Messages "HOL-Library.Sublist"
begin

text \<open>
  The history as a model's provider accepts it, packages/ai/src/api/transform-messages.ts: images that
  the model cannot see, thinking of other models, ids of tool calls, and results for calls that have
  none. The normalisation of ids is a parameter, the clock one by the number of its calls.

  Every tool call of the history that is sent has its result before the next question or answer,
  nothing of the history is reordered, and where every call has its result none is made up.
\<close>

section \<open>Images\<close>

definition NON_VISION_USER_IMAGE_PLACEHOLDER :: jstr where
  "NON_VISION_USER_IMAGE_PLACEHOLDER = js ''(image omitted: model does not support images)''"

definition NON_VISION_TOOL_IMAGE_PLACEHOLDER :: jstr where
  "NON_VISION_TOOL_IMAGE_PLACEHOLDER = js ''(tool image omitted: model does not support images)''"

fun replaceImagesFrom :: "jstr \<Rightarrow> bool \<Rightarrow> block list \<Rightarrow> block list" where
  "replaceImagesFrom placeholder previousWas [] = []"
| "replaceImagesFrom placeholder previousWas (BImage i # bs) =
     (if previousWas then [] else [BText \<lparr>tc_text = placeholder, tc_textSignature = None\<rparr>]) @
     replaceImagesFrom placeholder True bs"
| "replaceImagesFrom placeholder previousWas (BText t # bs) =
     BText t # replaceImagesFrom placeholder (tc_text t = placeholder) bs"

definition replaceImagesWithPlaceholder :: "block list \<Rightarrow> jstr \<Rightarrow> block list" where
  "replaceImagesWithPlaceholder bs placeholder = replaceImagesFrom placeholder False bs"

definition withoutImages :: "message \<Rightarrow> message" where
  "withoutImages m =
     (case m of
        MUser u \<Rightarrow>
          (case um_content u of
             UBlocks bs \<Rightarrow>
               MUser (u\<lparr>um_content := UBlocks (replaceImagesWithPlaceholder bs NON_VISION_USER_IMAGE_PLACEHOLDER)\<rparr>)
           | UString _ \<Rightarrow> m)
      | MToolResult r \<Rightarrow>
          MToolResult (r\<lparr>tr_content := replaceImagesWithPlaceholder (tr_content r) NON_VISION_TOOL_IMAGE_PLACEHOLDER\<rparr>)
      | MAssistant _ \<Rightarrow> m)"

definition downgradeUnsupportedImages :: "message list \<Rightarrow> model \<Rightarrow> message list" where
  "downgradeUnsupportedImages ms md = (if In_image \<in> set (md_input md) then ms else map withoutImages ms)"

section \<open>Messages without content\<close>

text \<open>A message of an untyped caller, with \<open>True\<close> when its content is absent.\<close>

definition normalizeContent :: "bool \<times> message \<Rightarrow> message" where
  "normalizeContent bm =
     (case bm of
        (True, MUser u) \<Rightarrow> MUser (u\<lparr>um_content := UBlocks []\<rparr>)
      | (True, MAssistant a) \<Rightarrow> MAssistant (a\<lparr>am_content := []\<rparr>)
      | (True, MToolResult r) \<Rightarrow> MToolResult (r\<lparr>tr_content := []\<rparr>)
      | (False, m) \<Rightarrow> m)"

section \<open>The first pass\<close>

type_synonym id_map = "jstr \<Rightarrow> jstr option"
type_synonym id_normalizer = "jstr \<Rightarrow> model \<Rightarrow> assistant_message \<Rightarrow> jstr"

definition sameModel :: "model \<Rightarrow> assistant_message \<Rightarrow> bool" where
  "sameModel md a \<longleftrightarrow> am_provider a = md_provider md \<and> am_api a = md_api md \<and> am_model a = md_id md"

definition transformThinking :: "bool \<Rightarrow> thinking_content \<Rightarrow> assistant_block list" where
  "transformThinking same th =
     (if th_redacted th = Some True then (if same then [AThinking th] else [])
      else if same \<and> truthyStr (th_thinkingSignature th) then [AThinking th]
      else if trim (th_thinking th) = [] then []
      else if same then [AThinking th]
      else [AText \<lparr>tc_text = th_thinking th, tc_textSignature = None\<rparr>])"

definition transformCall ::
  "id_normalizer option \<Rightarrow> model \<Rightarrow> assistant_message \<Rightarrow> tool_call \<Rightarrow> id_map \<Rightarrow> tool_call \<times> id_map" where
  "transformCall nrm md a c ids =
     (let same = sameModel md a;
          c1 = (if \<not> same \<and> truthyStr (tcl_thoughtSignature c) then c\<lparr>tcl_thoughtSignature := None\<rparr> else c)
      in case nrm of
           Some f \<Rightarrow>
             (if same then (c1, ids)
              else (let i = f (tcl_id c) md a
                    in if i \<noteq> tcl_id c then (c1\<lparr>tcl_id := i\<rparr>, ids(tcl_id c \<mapsto> i)) else (c1, ids)))
         | None \<Rightarrow> (c1, ids))"

fun transformBlocks ::
  "id_normalizer option \<Rightarrow> model \<Rightarrow> assistant_message \<Rightarrow> assistant_block list \<Rightarrow> id_map \<Rightarrow> assistant_block list \<times> id_map" where
  "transformBlocks nrm md a [] ids = ([], ids)"
| "transformBlocks nrm md a (AThinking th # bs) ids =
     (case transformBlocks nrm md a bs ids of (bs', ids') \<Rightarrow> (transformThinking (sameModel md a) th @ bs', ids'))"
| "transformBlocks nrm md a (AText t # bs) ids =
     (case transformBlocks nrm md a bs ids of
        (bs', ids') \<Rightarrow>
          (AText (if sameModel md a then t else \<lparr>tc_text = tc_text t, tc_textSignature = None\<rparr>) # bs', ids'))"
| "transformBlocks nrm md a (AToolCall c # bs) ids =
     (case transformCall nrm md a c ids of
        (c', ids1) \<Rightarrow> (case transformBlocks nrm md a bs ids1 of (bs', ids2) \<Rightarrow> (AToolCall c' # bs', ids2)))"

definition transformMessage :: "id_normalizer option \<Rightarrow> model \<Rightarrow> message \<Rightarrow> id_map \<Rightarrow> message \<times> id_map" where
  "transformMessage nrm md m ids =
     (case m of
        MUser u \<Rightarrow> (m, ids)
      | MToolResult r \<Rightarrow>
          (if truthyStr (ids (tr_toolCallId r)) then MToolResult (r\<lparr>tr_toolCallId := the (ids (tr_toolCallId r))\<rparr>) else m, ids)
      | MAssistant a \<Rightarrow>
          (case transformBlocks nrm md a (am_content a) ids of
             (bs, ids') \<Rightarrow> (MAssistant (a\<lparr>am_content := bs\<rparr>), ids')))"

fun transformFrom :: "id_normalizer option \<Rightarrow> model \<Rightarrow> message list \<Rightarrow> id_map \<Rightarrow> message list" where
  "transformFrom nrm md [] ids = []"
| "transformFrom nrm md (m # ms) ids =
     (case transformMessage nrm md m ids of (m', ids') \<Rightarrow> m' # transformFrom nrm md ms ids')"

definition firstPass :: "id_normalizer option \<Rightarrow> model \<Rightarrow> (bool \<times> message) list \<Rightarrow> message list" where
  "firstPass nrm md ms =
     transformFrom nrm md (downgradeUnsupportedImages (map normalizeContent ms) md) Map.empty"

section \<open>The second pass\<close>

record pair_state =
  pr_result :: "message list"
  pr_pending :: "tool_call list"
  pr_existing :: "jstr set"
  pr_calls :: nat

definition syntheticResult :: "(nat \<Rightarrow> int) \<Rightarrow> nat \<Rightarrow> tool_call \<Rightarrow> message" where
  "syntheticResult now n c =
     MToolResult \<lparr>tr_toolCallId = tcl_id c, tr_toolName = tcl_name c,
       tr_content = [BText \<lparr>tc_text = js ''No result provided'', tc_textSignature = None\<rparr>], tr_details = None,
       tr_usage = None, tr_addedToolNames = None, tr_isError = True, tr_timestamp = now n\<rparr>"

fun syntheticResults :: "(nat \<Rightarrow> int) \<Rightarrow> jstr set \<Rightarrow> nat \<Rightarrow> tool_call list \<Rightarrow> message list \<times> nat" where
  "syntheticResults now existing n [] = ([], n)"
| "syntheticResults now existing n (c # cs) =
     (if tcl_id c \<in> existing then syntheticResults now existing n cs
      else (case syntheticResults now existing (Suc n) cs of (ms, n') \<Rightarrow> (syntheticResult now n c # ms, n')))"

definition insertSyntheticToolResults :: "(nat \<Rightarrow> int) \<Rightarrow> pair_state \<Rightarrow> pair_state" where
  "insertSyntheticToolResults now s =
     (if pr_pending s = [] then s
      else (case syntheticResults now (pr_existing s) (pr_calls s) (pr_pending s) of
              (ms, n) \<Rightarrow> \<lparr>pr_result = pr_result s @ ms, pr_pending = [], pr_existing = {}, pr_calls = n\<rparr>))"

definition pairStep :: "(nat \<Rightarrow> int) \<Rightarrow> message \<Rightarrow> pair_state \<Rightarrow> pair_state" where
  "pairStep now m s =
     (case m of
        MAssistant a \<Rightarrow>
          (let s1 = insertSyntheticToolResults now s
           in if am_stopReason a = SR_error \<or> am_stopReason a = SR_aborted then s1
              else (let calls = toolCallsOf (am_content a);
                        s2 = (if calls \<noteq> [] then s1\<lparr>pr_pending := calls, pr_existing := {}\<rparr> else s1)
                    in s2\<lparr>pr_result := pr_result s2 @ [m]\<rparr>))
      | MToolResult r \<Rightarrow> s\<lparr>pr_existing := insert (tr_toolCallId r) (pr_existing s), pr_result := pr_result s @ [m]\<rparr>
      | MUser u \<Rightarrow> (let s1 = insertSyntheticToolResults now s in s1\<lparr>pr_result := pr_result s1 @ [m]\<rparr>))"

definition secondPass :: "(nat \<Rightarrow> int) \<Rightarrow> message list \<Rightarrow> message list" where
  "secondPass now ms =
     pr_result (insertSyntheticToolResults now
       (fold (pairStep now) ms \<lparr>pr_result = [], pr_pending = [], pr_existing = {}, pr_calls = 0\<rparr>))"

definition transformMessages ::
  "(nat \<Rightarrow> int) \<Rightarrow> id_normalizer option \<Rightarrow> model \<Rightarrow> (bool \<times> message) list \<Rightarrow> message list" where
  "transformMessages now nrm md ms = secondPass now (firstPass nrm md ms)"

section \<open>Every call has a result\<close>

text \<open>The ids of calls that wait for a result after each message; \<open>None\<close> is a call that a question or an
  answer came before.\<close>

fun waitingCalls :: "message list \<Rightarrow> jstr set \<Rightarrow> jstr set option" where
  "waitingCalls [] w = Some w"
| "waitingCalls (MToolResult r # ms) w = waitingCalls ms (w - {tr_toolCallId r})"
| "waitingCalls (MUser u # ms) w = (if w = {} then waitingCalls ms {} else None)"
| "waitingCalls (MAssistant a # ms) w = (if w = {} then waitingCalls ms (tcl_id ` set (toolCallsOf (am_content a))) else None)"

lemma waiting_append: "waitingCalls (xs @ ys) w = (case waitingCalls xs w of None \<Rightarrow> None | Some w' \<Rightarrow> waitingCalls ys w')"
  by (induction xs w rule: waitingCalls.induct) auto

lemma syntheticResults_clear:
  "syntheticResults now existing n cs = (ms, m) \<Longrightarrow> waitingCalls ms w = Some (w - (tcl_id ` set cs - existing))"
  by (induction now existing n cs arbitrary: ms m w rule: syntheticResults.induct)
    (auto simp: syntheticResult_def split: if_splits prod.splits)

definition pairs_ok :: "pair_state \<Rightarrow> bool" where
  "pairs_ok s \<longleftrightarrow> waitingCalls (pr_result s) {} = Some (tcl_id ` set (pr_pending s) - pr_existing s)"

lemma insert_ok:
  "pairs_ok s \<Longrightarrow> pairs_ok (insertSyntheticToolResults now s) \<and> waitingCalls (pr_result (insertSyntheticToolResults now s)) {} = Some {}
     \<and> pr_pending (insertSyntheticToolResults now s) = []"
  by (auto simp: pairs_ok_def insertSyntheticToolResults_def waiting_append syntheticResults_clear split: prod.splits)

lemma step_pairs:
  assumes "pairs_ok s"
  shows "pairs_ok (pairStep now m s)"
proof (cases m)
  case (MUser u)
  with insert_ok [OF assms, of now] show ?thesis by (simp add: pairStep_def pairs_ok_def waiting_append Let_def)
next
  case (MAssistant a)
  with insert_ok [OF assms, of now] show ?thesis
    by (auto simp: pairStep_def pairs_ok_def waiting_append Let_def)
next
  case (MToolResult r)
  with assms show ?thesis by (auto simp: pairStep_def pairs_ok_def waiting_append)
qed

definition isSynthetic :: "message \<Rightarrow> bool" where
  "isSynthetic m =
     (case m of
        MToolResult r \<Rightarrow>
          tr_content r = [BText \<lparr>tc_text = js ''No result provided'', tc_textSignature = None\<rparr>] \<and> tr_isError r
      | _ \<Rightarrow> False)"

text \<open>The messages that are kept: not the answers that failed.\<close>

definition keptMessages :: "message list \<Rightarrow> message list" where
  "keptMessages ms =
     filter (\<lambda>m. case m of MAssistant a \<Rightarrow> am_stopReason a \<noteq> SR_error \<and> am_stopReason a \<noteq> SR_aborted | _ \<Rightarrow> True) ms"

lemma syntheticResults_all: "\<forall>m \<in> set (fst (syntheticResults now existing n cs)). isSynthetic m"
  by (induction now existing n cs rule: syntheticResults.induct) (auto simp: isSynthetic_def syntheticResult_def split: prod.splits)

lemma insert_result:
  "\<exists>ms. pr_result (insertSyntheticToolResults now s) = pr_result s @ ms \<and> (\<forall>m \<in> set ms. isSynthetic m)"
proof (cases "pr_pending s = []")
  case True
  then show ?thesis by (simp add: insertSyntheticToolResults_def)
next
  case False
  obtain ms n where "syntheticResults now (pr_existing s) (pr_calls s) (pr_pending s) = (ms, n)" by fastforce
  with False syntheticResults_all [of now "pr_existing s" "pr_calls s" "pr_pending s"]
  show ?thesis by (simp add: insertSyntheticToolResults_def)
qed

text \<open>A result made of the kept messages in their order and of synthetic results between them.\<close>

definition woven :: "message list \<Rightarrow> message list \<Rightarrow> bool" where
  "woven kept out \<longleftrightarrow>
     (\<exists>tagged. out = map snd tagged \<and> map snd (filter fst tagged) = kept \<and>
        list_all (\<lambda>(k, m). k \<or> isSynthetic m) tagged)"

lemma woven_synthetic: "woven kept out \<Longrightarrow> \<forall>m \<in> set ms. isSynthetic m \<Longrightarrow> woven kept (out @ ms)"
proof -
  assume "woven kept out" and ms: "\<forall>m \<in> set ms. isSynthetic m"
  then obtain tagged where "out = map snd tagged" "map snd (filter fst tagged) = kept"
    "list_all (\<lambda>(k, m). k \<or> isSynthetic m) tagged" by (auto simp: woven_def)
  moreover have "filter fst (map (Pair False) ms) = []" by (induction ms) simp_all
  ultimately show "woven kept (out @ ms)" using ms unfolding woven_def
    by (intro exI [of _ "tagged @ map (Pair False) ms"]) (auto simp: list_all_iff comp_def)
qed

lemma woven_kept: "woven kept out \<Longrightarrow> woven (kept @ [m]) (out @ [m])"
proof -
  assume "woven kept out"
  then obtain tagged where "out = map snd tagged" "map snd (filter fst tagged) = kept"
    "list_all (\<lambda>(k, m). k \<or> isSynthetic m) tagged" by (auto simp: woven_def)
  then show ?thesis unfolding woven_def by (intro exI [of _ "tagged @ [(True, m)]"]) auto
qed

lemma woven_insert: "woven kept (pr_result s) \<Longrightarrow> woven kept (pr_result (insertSyntheticToolResults now s))"
  using insert_result [of now s] woven_synthetic by metis

lemma step_woven:
  assumes "woven kept (pr_result s)"
  shows "woven (kept @ keptMessages [m]) (pr_result (pairStep now m s))"
  using assms woven_insert [OF assms, of now] woven_kept [OF woven_insert [OF assms, of now], of m]
    woven_kept [OF assms, of m]
  by (cases m) (auto simp: pairStep_def keptMessages_def Let_def)


section \<open>No result is made up where there is one\<close>

text \<open>An answer that failed waits for nothing.\<close>

definition failedAnswer :: "message \<Rightarrow> bool" where
  "failedAnswer m = (case m of MAssistant a \<Rightarrow> am_stopReason a = SR_error \<or> am_stopReason a = SR_aborted | _ \<Rightarrow> False)"

definition withoutFailedCalls :: "message \<Rightarrow> message" where
  "withoutFailedCalls m = (case m of MAssistant a \<Rightarrow> if failedAnswer m then MAssistant (a\<lparr>am_content := []\<rparr>) else m | _ \<Rightarrow> m)"

lemma withoutFailedCalls_simps:
  "withoutFailedCalls (MUser u) = MUser u"
  "withoutFailedCalls (MToolResult r) = MToolResult r"
  by (simp_all add: withoutFailedCalls_def)

definition stillWaiting :: "pair_state \<Rightarrow> jstr set" where
  "stillWaiting s = tcl_id ` set (pr_pending s) - pr_existing s"

lemma syntheticResults_none: "tcl_id ` set cs \<subseteq> existing \<Longrightarrow> syntheticResults now existing n cs = ([], n)"
  by (induction cs) auto

lemma insert_none:
  "stillWaiting s = {} \<Longrightarrow> pr_result (insertSyntheticToolResults now s) = pr_result s \<and>
     stillWaiting (insertSyntheticToolResults now s) = {} \<and> pr_pending (insertSyntheticToolResults now s) = []"
  by (auto simp: stillWaiting_def insertSyntheticToolResults_def syntheticResults_none)

lemma toolCallsOf_Nil: "toolCallsOf [] = []"
  by (simp add: toolCallsOf_def)

lemma step_paired:
  assumes "waitingCalls (withoutFailedCalls m # t) (stillWaiting s) \<noteq> None"
  shows "pr_result (pairStep now m s) = pr_result s @ keptMessages [m] \<and>
    waitingCalls (withoutFailedCalls m # t) (stillWaiting s) = waitingCalls t (stillWaiting (pairStep now m s))"
proof (cases m)
  case (MUser u)
  with assms have "stillWaiting s = {}" by (simp add: withoutFailedCalls_def split: if_splits)
  with MUser insert_none [of s now] show ?thesis
    by (simp add: withoutFailedCalls_def pairStep_def keptMessages_def Let_def stillWaiting_def)
next
  case (MAssistant a)
  with assms have "stillWaiting s = {}" by (simp add: withoutFailedCalls_def split: if_splits)
  with MAssistant insert_none [of s now] show ?thesis
    by (auto simp: withoutFailedCalls_def failedAnswer_def pairStep_def keptMessages_def Let_def stillWaiting_def toolCallsOf_Nil)
next
  case (MToolResult r)
  then have "pr_result (pairStep now m s) = pr_result s @ [m]"
    "stillWaiting (pairStep now m s) = stillWaiting s - {tr_toolCallId r}"
    by (auto simp: pairStep_def stillWaiting_def)
  with MToolResult show ?thesis by (simp add: withoutFailedCalls_def keptMessages_def)
qed

lemma pass_paired:
  "waitingCalls (map withoutFailedCalls t) (stillWaiting s) = Some {} \<Longrightarrow>
   pr_result (insertSyntheticToolResults now (fold (pairStep now) t s)) = pr_result s @ keptMessages t"
proof (induction t arbitrary: s)
  case Nil
  then show ?case using insert_none [of s now] by (simp add: keptMessages_def)
next
  case (Cons m t)
  have "keptMessages (m # t) = keptMessages [m] @ keptMessages t" by (simp add: keptMessages_def)
  with Cons step_paired [of m "map withoutFailedCalls t" s now] show ?case by simp
qed

lemma secondPass_paired: "waitingCalls (map withoutFailedCalls t) {} = Some {} \<Longrightarrow> secondPass now t = keptMessages t"
  using pass_paired [of t "\<lparr>pr_result = [], pr_pending = [], pr_existing = {}, pr_calls = 0\<rparr>" now]
  by (simp add: secondPass_def stillWaiting_def)

text \<open>Without a normalisation of ids the first pass keeps every id, so a history in which every call is
  answered stays one.\<close>

lemma transformBlocks_ids:
  "transformBlocks None md a bs ids = (bs', ids') \<Longrightarrow>
     ids' = ids \<and> map tcl_id (toolCallsOf bs') = map tcl_id (toolCallsOf bs)"
proof (induction "None :: id_normalizer option" md a bs ids arbitrary: bs' ids' rule: transformBlocks.induct)
  case (2 md a th bs ids)
  then show ?case by (auto simp: toolCallsOf_def transformThinking_def split: prod.splits)
qed (auto simp: toolCallsOf_def transformCall_def Let_def split: prod.splits)

lemma transformFrom_waiting:
  "waitingCalls (map withoutFailedCalls (transformFrom None md ms Map.empty)) w = waitingCalls (map withoutFailedCalls ms) w"
proof (induction ms arbitrary: w)
  case (Cons m ms)
  show ?case
  proof (cases m)
    case (MAssistant a)
    obtain bs' ids' where b: "transformBlocks None md a (am_content a) Map.empty = (bs', ids')" by fastforce
    with transformBlocks_ids have "ids' = Map.empty" "tcl_id ` set (toolCallsOf bs') = tcl_id ` set (toolCallsOf (am_content a))"
      by (metis, metis list.set_map)
    with MAssistant b Cons.IH show ?thesis
      by (simp add: transformMessage_def withoutFailedCalls_def failedAnswer_def)
  qed (simp_all add: transformMessage_def withoutFailedCalls_simps Cons.IH)
qed simp

lemma withoutImages_waiting:
  "waitingCalls (map withoutFailedCalls (downgradeUnsupportedImages ms md)) w = waitingCalls (map withoutFailedCalls ms) w"
proof -
  have "waitingCalls (map withoutFailedCalls (map withoutImages ms)) w = waitingCalls (map withoutFailedCalls ms) w"
    by (induction ms arbitrary: w)
      (auto simp: withoutImages_def withoutFailedCalls_def split: message.splits user_content.splits)
  then show ?thesis by (simp add: downgradeUnsupportedImages_def)
qed

text \<open>Where every call of the history has its result before the next question or answer and ids are
  not normalised, nothing is made up: what is sent is the first pass without the answers that failed.\<close>

theorem no_result_made_up:
  assumes "waitingCalls (map (withoutFailedCalls \<circ> normalizeContent) ms) {} = Some {}"
  shows "transformMessages now None md ms = keptMessages (firstPass None md ms)"
  unfolding transformMessages_def
  by (rule secondPass_paired)
    (use assms in \<open>simp add: firstPass_def transformFrom_waiting withoutImages_waiting flip: map_map\<close>)

definition targetModel :: model where
  "targetModel = undefined\<lparr>md_id := js ''m'', md_api := js ''a'', md_provider := js ''p'', md_input := []\<rparr>"

definition callingAnswer :: "jstr \<Rightarrow> message" where
  "callingAnswer mid =
     MAssistant (undefined\<lparr>am_content := [AToolCall (undefined\<lparr>tcl_id := js ''c1'', tcl_thoughtSignature := None\<rparr>)],
       am_stopReason := SR_toolUse, am_provider := js ''p'', am_api := js ''a'', am_model := mid\<rparr>)"

definition answeredCall :: message where
  "answeredCall = MToolResult (undefined\<lparr>tr_toolCallId := js ''c1'', tr_content := [], tr_isError := False\<rparr>)"

lemma no_result_made_up_witness:
  "transformMessages (\<lambda>n. 0) None targetModel [(False, callingAnswer (js ''m'')), (False, answeredCall)] =
     keptMessages (firstPass None targetModel [(False, callingAnswer (js ''m'')), (False, answeredCall)])"
  by (rule no_result_made_up)
    (simp add: callingAnswer_def answeredCall_def normalizeContent_def withoutFailedCalls_def failedAnswer_def toolCallsOf_def)

text \<open>An id that one model's call had and a later call of the target model has again is rewritten in the
  second call's result, not in the call: a result is made up for a call that was answered.\<close>

theorem reused_id_loses_result:
  "map (\<lambda>m. case m of MToolResult r \<Rightarrow> Some (tr_toolCallId r, tr_isError r) | _ \<Rightarrow> None)
     (transformMessages (\<lambda>n. 0) (Some (\<lambda>i md a. js ''n'' @ i)) targetModel
       (map (Pair False) [callingAnswer (js ''other''), answeredCall, callingAnswer (js ''m''), answeredCall])) =
   [None, Some (js ''nc1'', False), None, Some (js ''nc1'', False), Some (js ''c1'', True)]"
  by (simp add: transformMessages_def firstPass_def downgradeUnsupportedImages_def normalizeContent_def
    withoutImages_def targetModel_def callingAnswer_def answeredCall_def transformMessage_def transformCall_def
    sameModel_def secondPass_def pairStep_def insertSyntheticToolResults_def toolCallsOf_def Let_def
    syntheticResult_def replaceImagesWithPlaceholder_def js_def truthyStr_def)

end
