(* ===== verification/StdinBuffer.thy ===== *)
theory StdinBuffer
  imports Prelude
begin

text \<open>
  The terminal's input buffer, packages/tui/src/stdin-buffer.ts: it cuts what arrives into complete
  escape sequences and single characters, collects bracketed pastes and drops the second report of a
  key. The decoding of bytes is a parameter, the timer a flag with an operation for its firing.

  Nothing of the input is lost or reordered in the cutting, which does not depend on how the input arrives
  in chunks but for two escapes at a chunk's end; a paste is delivered once and whole however it is cut.
\<close>

section \<open>Complete sequences\<close>

definition ESC :: jchar where "ESC = 27"
definition BRACKETED_PASTE_START :: jstr where "BRACKETED_PASTE_START = ESC # js ''[200~''"
definition BRACKETED_PASTE_END :: jstr where "BRACKETED_PASTE_END = ESC # js ''[201~''"

datatype sequence_status = SQ_complete | SQ_incomplete | SQ_not_escape

definition isDecimal :: "jchar \<Rightarrow> bool" where
  "isDecimal c \<longleftrightarrow> 48 \<le> c \<and> c \<le> 57"

text \<open>The prefix \<open>\d+\<close> of a text, as what follows it.\<close>

definition afterDigits :: "jstr \<Rightarrow> jstr option" where
  "afterDigits s = (if takeWhile isDecimal s = [] then None else Some (dropWhile isDecimal s))"

definition afterChar :: "jchar \<Rightarrow> jstr \<Rightarrow> jstr option" where
  "afterChar c s = (case s of [] \<Rightarrow> None | x # xs \<Rightarrow> if x = c then Some xs else None)"

text \<open>\<open>/^<\d+;\d+;\d+[Mm]$/\<close>.\<close>

definition mouseMatch :: "jstr \<Rightarrow> bool" where
  "mouseMatch payload =
     (case Option.bind (Option.bind (Option.bind (Option.bind (Option.bind
             (afterChar 60 payload) afterDigits) (afterChar 59)) afterDigits) (afterChar 59)) afterDigits of
        Some [c] \<Rightarrow> c = 77 \<or> c = 109
      | _ \<Rightarrow> False)"

definition isCompleteCsiSequence :: "jstr \<Rightarrow> sequence_status" where
  "isCompleteCsiSequence d =
     (if \<not> prefix (ESC # js ''['') d then SQ_complete
      else if length d < 3 then SQ_incomplete
      else (let payload = drop 2 d; lastChar = last payload
            in if 0x40 \<le> lastChar \<and> lastChar \<le> 0x7E
               then (if prefix (js ''<'') payload
                     then (if mouseMatch payload then SQ_complete
                           else if lastChar = 77 \<or> lastChar = 109
                           then (let parts = splitOn 59 (butlast (drop 1 payload))
                                 in if length parts = 3 \<and> list_all (\<lambda>p. p \<noteq> [] \<and> list_all isDecimal p) parts
                                    then SQ_complete else SQ_incomplete)
                           else SQ_incomplete)
                     else SQ_complete)
               else SQ_incomplete))"

definition isCompleteOscSequence :: "jstr \<Rightarrow> sequence_status" where
  "isCompleteOscSequence d =
     (if \<not> prefix (ESC # js '']'') d then SQ_complete
      else if suffix [ESC, 92] d \<or> suffix [7] d then SQ_complete
      else SQ_incomplete)"

definition isCompleteDcsSequence :: "jstr \<Rightarrow> sequence_status" where
  "isCompleteDcsSequence d =
     (if \<not> prefix (ESC # js ''P'') d then SQ_complete
      else if suffix [ESC, 92] d then SQ_complete
      else SQ_incomplete)"

definition isCompleteApcSequence :: "jstr \<Rightarrow> sequence_status" where
  "isCompleteApcSequence d =
     (if \<not> prefix (ESC # js ''_'') d then SQ_complete
      else if suffix [ESC, 92] d then SQ_complete
      else SQ_incomplete)"

definition isCompleteSequence :: "jstr \<Rightarrow> sequence_status" where
  "isCompleteSequence d =
     (if \<not> prefix [ESC] d then SQ_not_escape
      else if length d = 1 then SQ_incomplete
      else (let afterEsc = drop 1 d
            in if prefix (js ''['') afterEsc
               then (if prefix (js ''[M'') afterEsc
                     then (if length d \<ge> 6 then SQ_complete else SQ_incomplete)
                     else isCompleteCsiSequence d)
               else if prefix (js '']'') afterEsc then isCompleteOscSequence d
               else if prefix (js ''P'') afterEsc then isCompleteDcsSequence d
               else if prefix (js ''_'') afterEsc then isCompleteApcSequence d
               else if prefix (js ''O'') afterEsc
               then (if length afterEsc \<ge> 2 then SQ_complete else SQ_incomplete)
               else SQ_complete))"

section \<open>Cutting the buffer\<close>

text \<open>The length of the sequence at the start, searched from a length on.\<close>

definition opensSequence :: "jchar \<Rightarrow> bool" where
  "opensSequence c \<longleftrightarrow> c \<in> set (js ''[]OP_'')"

function scanSequence :: "jstr \<Rightarrow> nat \<Rightarrow> nat option" where
  "scanSequence remaining n =
     (if n > length remaining then None
      else (case isCompleteSequence (take n remaining) of
              SQ_complete \<Rightarrow>
                (if take n remaining = [ESC, ESC] \<and> n < length remaining \<and> opensSequence (remaining ! n)
                 then Some 1 else Some n)
            | SQ_incomplete \<Rightarrow> scanSequence remaining (Suc n)
            | SQ_not_escape \<Rightarrow> Some n))"
  by pat_completeness auto
termination by (relation "measure (\<lambda>(r, n). Suc (length r) - n)") auto

declare scanSequence.simps [simp del]

lemma scanSequence_bounds:
  "scanSequence r n = Some k \<Longrightarrow> 0 < n \<Longrightarrow> 0 < k \<and> k \<le> length r"
proof (induction r n rule: scanSequence.induct)
  case (1 r n)
  then show ?case
    by (subst (asm) (2) scanSequence.simps) (auto split: if_splits sequence_status.splits)
qed

function extractCompleteSequences :: "jstr \<Rightarrow> jstr list \<times> jstr" where
  "extractCompleteSequences remaining =
     (if remaining = [] then ([], [])
      else if prefix [ESC] remaining
      then (case scanSequence remaining 1 of
              None \<Rightarrow> ([], remaining)
            | Some k \<Rightarrow>
                (case extractCompleteSequences (drop k remaining) of
                   (seqs, rest) \<Rightarrow> (take k remaining # seqs, rest)))
      else (case extractCompleteSequences (drop 1 remaining) of
              (seqs, rest) \<Rightarrow> (take 1 remaining # seqs, rest)))"
  by pat_completeness auto
termination
  by (relation "measure length") (auto dest!: scanSequence_bounds)

declare extractCompleteSequences.simps [simp del]

lemma extract_Nil [simp]: "extractCompleteSequences [] = ([], [])"
  by (simp add: extractCompleteSequences.simps)

section \<open>The buffer\<close>

datatype stdin_event = Data jstr | Paste jstr

record stdin_state =
  sb_buffer :: jstr
  sb_timeout :: bool
  sb_pasteMode :: bool
  sb_pasteBuffer :: jstr
  sb_pendingKitty :: "nat option"

definition stdinBuffer :: stdin_state where
  "stdinBuffer = \<lparr>sb_buffer = [], sb_timeout = False, sb_pasteMode = False, sb_pasteBuffer = [], sb_pendingKitty = None\<rparr>"

definition decimalValue :: "jstr \<Rightarrow> nat" where
  "decimalValue ds = foldl (\<lambda>n c. 10 * n + (unat c - 48)) 0 ds"

text \<open>\<open>/^\x1b\[(\d+)(?::\d*)?(?::\d+)?u$/\<close>: what may follow the digits.\<close>

definition kittyTail :: "jstr \<Rightarrow> bool" where
  "kittyTail r \<longleftrightarrow>
     r = js ''u'' \<or>
     (case afterChar 58 r of
        None \<Rightarrow> False
      | Some r1 \<Rightarrow>
          dropWhile isDecimal r1 = js ''u'' \<or>
          Option.bind (afterChar 58 (dropWhile isDecimal r1)) afterDigits = Some (js ''u''))"

definition parseUnmodifiedKittyPrintableCodepoint :: "jstr \<Rightarrow> nat option" where
  "parseUnmodifiedKittyPrintableCodepoint s =
     (if prefix (ESC # js ''['') s then
        (let r = drop 2 s; ds = takeWhile isDecimal r
         in if ds \<noteq> [] \<and> kittyTail (dropWhile isDecimal r) \<and> decimalValue ds \<ge> 32
            then Some (decimalValue ds) else None)
      else None)"

definition emitDataSequence :: "jstr \<Rightarrow> stdin_state \<Rightarrow> stdin_state \<times> stdin_event list" where
  "emitDataSequence s st =
     (if length s = 1 \<and> sb_pendingKitty st = Some (unat (hd s))
      then (st\<lparr>sb_pendingKitty := None\<rparr>, [])
      else (st\<lparr>sb_pendingKitty := parseUnmodifiedKittyPrintableCodepoint s\<rparr>, [Data s]))"

fun emitAll :: "jstr list \<Rightarrow> stdin_state \<Rightarrow> stdin_state \<times> stdin_event list" where
  "emitAll [] st = (st, [])"
| "emitAll (s # ss) st =
     (case emitDataSequence s st of (st1, e1) \<Rightarrow> (case emitAll ss st1 of (st2, e2) \<Rightarrow> (st2, e1 @ e2)))"

text \<open>The end of a paste: its event and what follows it.\<close>

definition takePaste :: "stdin_state \<Rightarrow> stdin_state \<times> stdin_event list \<times> jstr" where
  "takePaste st =
     (case indexOf (sb_pasteBuffer st) BRACKETED_PASTE_END of
        None \<Rightarrow> (st, [], [])
      | Some e \<Rightarrow>
          (st\<lparr>sb_pasteMode := False, sb_pasteBuffer := [], sb_pendingKitty := None\<rparr>,
           [Paste (take e (sb_pasteBuffer st))],
           drop (e + length BRACKETED_PASTE_END) (sb_pasteBuffer st)))"

text \<open>One call of \<open>process\<close> up to its call of itself, with the text of that call, empty where there is none.\<close>

definition processOnce :: "jstr \<Rightarrow> stdin_state \<Rightarrow> stdin_state \<times> stdin_event list \<times> jstr" where
  "processOnce str st0 =
     (let st = st0\<lparr>sb_timeout := False\<rparr>
      in if str = [] \<and> sb_buffer st = [] then (case emitDataSequence [] st of (st', ev) \<Rightarrow> (st', ev, []))
      else (let buf = sb_buffer st @ str
            in if sb_pasteMode st then takePaste (st\<lparr>sb_buffer := [], sb_pasteBuffer := sb_pasteBuffer st @ buf\<rparr>)
            else (case indexOf buf BRACKETED_PASTE_START of
                    Some i \<Rightarrow>
                      (case (if i > 0 then emitAll (fst (extractCompleteSequences (take i buf))) st else (st, [])) of
                         (st1, ev1) \<Rightarrow>
                           (case takePaste (st1\<lparr>sb_pendingKitty := None, sb_pasteMode := True, sb_buffer := [],
                                       sb_pasteBuffer := drop (i + length BRACKETED_PASTE_START) buf\<rparr>) of
                              (st2, ev2, rest) \<Rightarrow> (st2, ev1 @ ev2, rest)))
                  | None \<Rightarrow>
                      (case extractCompleteSequences buf of
                         (seqs, rest) \<Rightarrow>
                           (case emitAll seqs (st\<lparr>sb_buffer := rest\<rparr>) of
                              (st1, ev) \<Rightarrow> (st1\<lparr>sb_timeout := rest \<noteq> []\<rparr>, ev, []))))))"

lemma length_markers [simp]: "length BRACKETED_PASTE_START = 6" "length BRACKETED_PASTE_END = 6"
  by (simp_all add: BRACKETED_PASTE_START_def BRACKETED_PASTE_END_def)

lemma emit_keeps:
  "emitDataSequence s st = (st', ev) \<Longrightarrow>
     sb_buffer st' = sb_buffer st \<and> sb_pasteMode st' = sb_pasteMode st \<and> sb_pasteBuffer st' = sb_pasteBuffer st \<and>
     sb_timeout st' = sb_timeout st"
  by (auto simp: emitDataSequence_def split: if_splits)

lemma emitAll_keeps:
  "emitAll ss st = (st', ev) \<Longrightarrow>
     sb_buffer st' = sb_buffer st \<and> sb_pasteMode st' = sb_pasteMode st \<and> sb_pasteBuffer st' = sb_pasteBuffer st \<and>
     sb_timeout st' = sb_timeout st"
proof (induction ss arbitrary: st st' ev)
  case (Cons s ss)
  then show ?case by (auto split: prod.splits dest!: emit_keeps)
qed simp

lemma takePaste_rest:
  "takePaste st = (st', ev, rest) \<Longrightarrow> rest \<noteq> [] \<Longrightarrow>
     sb_buffer st' = sb_buffer st \<and> sb_pasteBuffer st' = [] \<and> length rest < length (sb_pasteBuffer st)"
  by (auto simp: takePaste_def split: option.splits)

lemma processOnce_rest:
  assumes "processOnce str st = (st', ev, rest)" and "rest \<noteq> []"
  shows "length rest + length (sb_buffer st') + length (sb_pasteBuffer st') <
    length str + length (sb_buffer st) + length (sb_pasteBuffer st)"
  using assms
  by (auto simp: processOnce_def Let_def split: if_splits option.splits prod.splits dest!: takePaste_rest)

function process :: "jstr \<Rightarrow> stdin_state \<Rightarrow> stdin_state \<times> stdin_event list" where
  "process str st =
     (case processOnce str st of
        (st1, ev1, rest) \<Rightarrow>
          (if rest = [] then (st1, ev1)
           else (case process rest st1 of (st2, ev2) \<Rightarrow> (st2, ev1 @ ev2))))"
  by pat_completeness auto
termination
proof (relation "measure (\<lambda>(s, st). length s + length (sb_buffer st) + length (sb_pasteBuffer st))", goal_cases)
  case (2 str st x y xa ya)
  then show ?case using processOnce_rest [of str st x xa ya] by simp
qed simp

declare process.simps [simp del]

text \<open>A chunk as the stream gives it.\<close>

datatype stdin_chunk = TextChunk jstr | ByteChunk "8 word list"

definition chunkText :: "(8 word list \<Rightarrow> jstr) \<Rightarrow> stdin_chunk \<Rightarrow> jstr" where
  "chunkText decode c =
     (case c of
        TextChunk s \<Rightarrow> s
      | ByteChunk bs \<Rightarrow> (if length bs = 1 \<and> hd bs > 127 then [ESC, ucast (hd bs - 128)] else decode bs))"

definition processChunk :: "(8 word list \<Rightarrow> jstr) \<Rightarrow> stdin_chunk \<Rightarrow> stdin_state \<Rightarrow> stdin_state \<times> stdin_event list" where
  "processChunk decode c st = process (chunkText decode c) st"

definition flush :: "stdin_state \<Rightarrow> stdin_state \<times> jstr list" where
  "flush st =
     (let st1 = st\<lparr>sb_timeout := False\<rparr>
      in if sb_buffer st1 = [] then (st1, [])
         else (st1\<lparr>sb_buffer := [], sb_pendingKitty := None\<rparr>, [sb_buffer st1]))"

text \<open>The timer's callback.\<close>

definition timerFires :: "stdin_state \<Rightarrow> stdin_state \<times> stdin_event list" where
  "timerFires st = (case flush st of (st1, seqs) \<Rightarrow> emitAll seqs st1)"

definition clear_buffer :: "stdin_state \<Rightarrow> stdin_state" where
  "clear_buffer st =
     st\<lparr>sb_timeout := False, sb_buffer := [], sb_pasteMode := False, sb_pasteBuffer := [], sb_pendingKitty := None\<rparr>"

fun processAll :: "jstr list \<Rightarrow> stdin_state \<Rightarrow> stdin_state \<times> stdin_event list" where
  "processAll [] st = (st, [])"
| "processAll (c # cs) st =
     (case process c st of (st1, e1) \<Rightarrow> (case processAll cs st1 of (st2, e2) \<Rightarrow> (st2, e1 @ e2)))"

section \<open>The cutting\<close>

lemma extract_stop: "s = [] \<or> prefix [ESC] s \<and> scanSequence s 1 = None \<Longrightarrow> extractCompleteSequences s = ([], s)"
  by (subst extractCompleteSequences.simps) auto

lemma extract_step:
  assumes "\<not> (s = [] \<or> prefix [ESC] s \<and> scanSequence s 1 = None)"
    and "k = (if prefix [ESC] s then the (scanSequence s 1) else 1)" "extractCompleteSequences (drop k s) = (ss, r)"
  shows "extractCompleteSequences s = (take k s # ss, r)"
proof (cases "prefix [ESC] s")
  case True
  with assms(1) obtain k' where "scanSequence s 1 = Some k'" by (metis option.exhaust)
  with True assms show ?thesis by (subst extractCompleteSequences.simps) simp
next
  case False
  with assms show ?thesis by (subst extractCompleteSequences.simps) simp
qed

lemma extract_facts:
  "extractCompleteSequences s = (seqs, rest) \<Longrightarrow>
     concat seqs @ rest = s \<and> [] \<notin> set seqs \<and> (rest \<noteq> [] \<longrightarrow> prefix [ESC] rest \<and> scanSequence rest 1 = None)"
proof (induction s arbitrary: seqs rest rule: extractCompleteSequences.induct)
  case (1 s)
  show ?case
  proof (cases "s = [] \<or> prefix [ESC] s \<and> scanSequence s 1 = None")
    case True
    with 1(3) extract_stop [OF True] show ?thesis by auto
  next
    case False
    define k where "k = (if prefix [ESC] s then the (scanSequence s 1) else 1)"
    obtain ss r where rec: "extractCompleteSequences (drop k s) = (ss, r)" by fastforce
    from False have k: "0 < k" by (auto simp: k_def dest: scanSequence_bounds)
    from extract_step [OF False k_def rec] 1(3) have e: "seqs = take k s # ss" "rest = r" by simp_all
    have "concat ss @ r = drop k s \<and> [] \<notin> set ss \<and> (r \<noteq> [] \<longrightarrow> prefix [ESC] r \<and> scanSequence r 1 = None)"
    proof (cases "prefix [ESC] s")
      case True
      with False obtain k' where "scanSequence s 1 = Some k'" by auto
      with 1(1) True False rec show ?thesis by (simp add: k_def)
    next
      case F: False
      with 1(2) False rec show ?thesis by (simp add: k_def)
    qed
    with e k False show ?thesis by (auto simp: take_eq_Nil)
  qed
qed

lemma scan_extend:
  assumes "scanSequence r n = Some k" "take k r \<noteq> [ESC, ESC] \<or> k < length r"
  shows "scanSequence (r @ y) n = Some k"
  using assms
proof (induction r n rule: scanSequence.induct)
  case (1 r n)
  from 1(2) have n: "n \<le> length r" by (subst (asm) scanSequence.simps) (auto split: if_splits)
  show ?case
  proof (cases "isCompleteSequence (take n r)")
    case SQ_complete
    with 1(2, 3) n show ?thesis
      by (subst (asm) scanSequence.simps, subst scanSequence.simps) (auto simp: nth_append split: if_splits)
  next
    case SQ_incomplete
    with 1(2) n have "scanSequence r (Suc n) = Some k" by (subst (asm) scanSequence.simps) auto
    with 1(1, 3) n SQ_incomplete have "scanSequence (r @ y) (Suc n) = Some k" by auto
    with n SQ_incomplete show ?thesis by (subst scanSequence.simps) auto
  next
    case SQ_not_escape
    with 1(2) n show ?thesis by (subst (asm) scanSequence.simps, subst scanSequence.simps) auto
  qed
qed

text \<open>Where a chunk does not end right after two escapes that were taken as one sequence.\<close>

definition cutSafe :: "jstr \<Rightarrow> bool" where
  "cutSafe s =
     (case extractCompleteSequences s of (seqs, rest) \<Rightarrow> rest \<noteq> [] \<or> seqs = [] \<or> last seqs \<noteq> [ESC, ESC])"

lemma extract_append:
  "cutSafe xs \<Longrightarrow> extractCompleteSequences xs = (s1, r1) \<Longrightarrow> extractCompleteSequences (r1 @ ys) = (s2, r2) \<Longrightarrow>
     extractCompleteSequences (xs @ ys) = (s1 @ s2, r2)"
proof (induction xs arbitrary: s1 r1 rule: extractCompleteSequences.induct)
  case (1 s)
  show ?case
  proof (cases "s = [] \<or> prefix [ESC] s \<and> scanSequence s 1 = None")
    case True
    with 1(4) extract_stop [OF True] have "s1 = [] \<and> r1 = s" by simp
    with 1(5) show ?thesis by simp
  next
    case False
    define k where "k = (if prefix [ESC] s then the (scanSequence s 1) else 1)"
    obtain ss r where rec: "extractCompleteSequences (drop k s) = (ss, r)" by fastforce
    from False have k: "0 < k" "k \<le> length s"
      by (auto simp: k_def Suc_le_eq dest: scanSequence_bounds)
    from extract_step [OF False k_def rec] 1(4) have e: "s1 = take k s # ss" "r1 = r" by simp_all
    from 1(3) e rec 1(4) have safe: "cutSafe (drop k s)" by (auto simp: cutSafe_def split: if_splits)
    have ih: "extractCompleteSequences (drop k s @ ys) = (ss @ s2, r2)"
    proof (cases "prefix [ESC] s")
      case True
      with False obtain k' where "scanSequence s 1 = Some k'" by auto
      with 1(1) True False rec safe e 1(5) show ?thesis by (simp add: k_def)
    next
      case F: False
      with 1(2) False rec safe e 1(5) show ?thesis by (simp add: k_def)
    qed
    show ?thesis
    proof (cases "prefix [ESC] s")
      case True
      with False have sc: "scanSequence s 1 = Some k" by (auto simp: k_def)
      have "take k s \<noteq> [ESC, ESC] \<or> k < length s"
      proof (rule ccontr)
        assume "\<not> ?thesis"
        with rec have "ss = []" "r = []" by auto
        with 1(3) 1(4) e \<open>\<not> ?thesis\<close> show False by (simp add: cutSafe_def)
      qed
      with scan_extend [OF sc] have "scanSequence (s @ ys) 1 = Some k" by blast
      with True ih False e k show ?thesis by (auto simp: extractCompleteSequences.simps [of "s @ ys"])
    next
      case F: False
      with False obtain c cs where "s = c # cs" "c \<noteq> ESC" by (cases s) auto
      with ih e show ?thesis by (subst extractCompleteSequences.simps) (simp add: k_def)
    qed
  qed
qed

lemma emitAll_append:
  "emitAll (xs @ ys) st = (case emitAll xs st of (st1, e1) \<Rightarrow> (case emitAll ys st1 of (st2, e2) \<Rightarrow> (st2, e1 @ e2)))"
  by (induction xs arbitrary: st) (auto split: prod.splits)

lemma emit_buffer: "emitDataSequence s (st\<lparr>sb_buffer := b, sb_timeout := w\<rparr>) =
    (case emitDataSequence s st of (st', ev) \<Rightarrow> (st'\<lparr>sb_buffer := b, sb_timeout := w\<rparr>, ev))"
  by (simp add: emitDataSequence_def)

lemma emitAll_buffer: "emitAll ss (st\<lparr>sb_buffer := b, sb_timeout := w\<rparr>) =
    (case emitAll ss st of (st', ev) \<Rightarrow> (st'\<lparr>sb_buffer := b, sb_timeout := w\<rparr>, ev))"
  by (induction ss arbitrary: st) (auto simp: emit_buffer split: prod.splits)

lemma indexOf_None_drop: "indexOf s pat = None \<Longrightarrow> indexOf (drop j s) pat = None"
proof (induction j arbitrary: s)
  case (Suc j)
  then show ?case by (cases s) (auto split: if_splits)
qed simp

lemma indexOf_None_take: "indexOf (s @ t) pat = None \<Longrightarrow> indexOf s pat = None"
proof (induction s)
  case Nil
  then show ?case by (cases t) (auto split: if_splits)
next
  case (Cons c s)
  have "prefix pat (c # s) \<Longrightarrow> prefix pat (c # s @ t)" using prefix_prefix [of pat "c # s" t] by simp
  with Cons show ?case by (auto split: if_splits)
qed

lemma state_update_order:
  "(st::stdin_state)\<lparr>sb_timeout := w, sb_buffer := b\<rparr> = st\<lparr>sb_buffer := b, sb_timeout := w\<rparr>"
  by (cases st) simp

text \<open>A call without a paste.\<close>

lemma process_plain:
  assumes "\<not> sb_pasteMode st" "sb_buffer st @ str \<noteq> []" "indexOf (sb_buffer st @ str) BRACKETED_PASTE_START = None"
    and "extractCompleteSequences (sb_buffer st @ str) = (seqs, rest)"
    and "emitAll seqs (st\<lparr>sb_buffer := rest, sb_timeout := rest \<noteq> []\<rparr>) = (st', ev)"
  shows "process str st = (st', ev)"
proof -
  obtain st1 ev1 where e: "emitAll seqs st = (st1, ev1)" by fastforce
  have "emitAll seqs (st\<lparr>sb_timeout := False, sb_buffer := rest\<rparr>) = (st1\<lparr>sb_buffer := rest, sb_timeout := False\<rparr>, ev1)"
    using emitAll_buffer [where ss = seqs and st = st and b = rest] e by (simp add: state_update_order)
  with assms emitAll_buffer [where ss = seqs and st = st and b = rest] e show ?thesis
    by (auto simp: process.simps [of str st] processOnce_def Let_def)
qed

section \<open>Chunks\<close>

text \<open>C39: Input without a paste gives the same sequences and the same state whether it arrives at once or is
  cut in two, but for a cut right after two escapes that were taken as one sequence.\<close>

theorem input_cut_anywhere:
  assumes "\<not> sb_pasteMode st" "a \<noteq> []" "b \<noteq> []"
    and "indexOf (sb_buffer st @ a @ b) BRACKETED_PASTE_START = None" "cutSafe (sb_buffer st @ a)"
  shows "processAll [a, b] st = process (a @ b) st"
proof -
  obtain s1 r1 where x1: "extractCompleteSequences (sb_buffer st @ a) = (s1, r1)" by fastforce
  obtain s2 r2 where x2: "extractCompleteSequences (r1 @ b) = (s2, r2)" by fastforce
  obtain st1 e1 where m1: "emitAll s1 st = (st1, e1)" by fastforce
  obtain st2 e2 where m2: "emitAll s2 st1 = (st2, e2)" by fastforce
  have r1: "r1 @ b = drop (length (concat s1)) (sb_buffer st @ a @ b)"
    using extract_facts [OF x1] by (metis append.assoc append_eq_conv_conj)
  have none: "indexOf (r1 @ b) BRACKETED_PASTE_START = None"
    unfolding r1 by (rule indexOf_None_drop) (fact assms(4))
  have "process a st = (st1\<lparr>sb_buffer := r1, sb_timeout := r1 \<noteq> []\<rparr>, e1)"
    using assms indexOf_None_take [of "sb_buffer st @ a" b] emitAll_buffer [where ss = s1 and st = st] m1 x1
    by (intro process_plain [where seqs = s1 and rest = r1]) simp_all
  moreover have "process b (st1\<lparr>sb_buffer := r1, sb_timeout := r1 \<noteq> []\<rparr>) =
      (st2\<lparr>sb_buffer := r2, sb_timeout := r2 \<noteq> []\<rparr>, e2)"
    using assms emitAll_keeps [OF m1] emitAll_buffer [where ss = s2 and st = st1] m2 x2 none
    by (intro process_plain [where seqs = s2 and rest = r2]) simp_all
  moreover have "process (a @ b) st = (st2\<lparr>sb_buffer := r2, sb_timeout := r2 \<noteq> []\<rparr>, e1 @ e2)"
    using assms emitAll_buffer [where ss = "s1 @ s2" and st = st] m1 m2 extract_append [OF assms(5) x1 x2]
    by (intro process_plain [where seqs = "s1 @ s2" and rest = r2]) (simp_all add: emitAll_append)
  ultimately show ?thesis by simp
qed

lemma input_cut_anywhere_witness:
  "processAll [ESC # js ''['', js ''Ax''] stdinBuffer = process (ESC # js ''[Ax'') stdinBuffer"
  using input_cut_anywhere [of stdinBuffer "ESC # js ''[''" "js ''Ax''"]
  by (simp add: stdinBuffer_def BRACKETED_PASTE_START_def ESC_def js_def cutSafe_def prefix_def
    extractCompleteSequences.simps [of "[27, 91]"] scanSequence.simps isCompleteSequence_def isCompleteCsiSequence_def)

section \<open>Pastes\<close>

lemma partial_markers:
  "list_all (\<lambda>n. extractCompleteSequences (take n BRACKETED_PASTE_START) = ([], take n BRACKETED_PASTE_START)) [0..<6]"
  by code_simp

lemma strict_prefix_open:
  assumes "p @ z = BRACKETED_PASTE_START" "z \<noteq> []"
  shows "extractCompleteSequences p = ([], p)" "indexOf p BRACKETED_PASTE_START = None"
proof -
  have l: "length p < 6" using arg_cong [OF assms(1), of length] assms(2) by (cases z) auto
  have "p = take (length p) BRACKETED_PASTE_START" using assms(1) by (metis append_eq_conv_conj)
  with partial_markers [unfolded list_all_iff] l show "extractCompleteSequences p = ([], p)"
    by (metis atLeast_upt atLeastLessThan_iff zero_le set_upt)
  show "indexOf p BRACKETED_PASTE_START = None"
    using indexOf_Some_bound [of p BRACKETED_PASTE_START] l by (cases "indexOf p BRACKETED_PASTE_START") auto
qed

lemma indexOf_prefix: "prefix pat s \<Longrightarrow> indexOf s pat = Some 0"
  by (cases s) auto

lemma end_not_yet:
  assumes "indexOf (content @ pat) pat = Some (length content)" "x @ z = content @ pat" "z \<noteq> []"
  shows "indexOf x pat = None"
proof (rule ccontr)
  assume "indexOf x pat \<noteq> None"
  then obtain i where i: "indexOf x pat = Some i" by blast
  have "length x < length content + length pat" using arg_cong [OF assms(2), of length] assms(3) by (cases z) auto
  with indexOf_Some_bound [OF i] have "i < length content" by linarith
  moreover have "prefix pat (drop i (content @ pat))"
    using indexOf_Some_take [OF i] indexOf_Some_bound [OF i] assms(2)
    by (metis append_take_drop_id drop_append prefixI prefix_prefix)
  ultimately show False using indexOf_first [OF assms(1)] by blast
qed

lemma paste_rest:
  assumes "indexOf (content @ BRACKETED_PASTE_END) BRACKETED_PASTE_END = Some (length content)"
    and "sb_pasteBuffer st @ concat cs = content @ BRACKETED_PASTE_END" "[] \<notin> set cs" "cs \<noteq> []"
    and "sb_pasteMode st" "sb_buffer st = []" "\<not> sb_timeout st"
  shows "processAll cs st = (stdinBuffer, [Paste content])"
  using assms(2-)
proof (induction cs arbitrary: st)
  case (Cons c cs)
  let ?st = "st\<lparr>sb_pasteBuffer := sb_pasteBuffer st @ c\<rparr>"
  from Cons.prems have once: "processOnce c st = takePaste ?st"
    by (cases st) (auto simp: processOnce_def Let_def)
  show ?case
  proof (cases "cs = []")
    case True
    with Cons.prems have "sb_pasteBuffer ?st = content @ BRACKETED_PASTE_END" by simp
    with assms(1) have "takePaste ?st = (stdinBuffer, [Paste content], [])"
      using Cons.prems by (cases st) (simp add: takePaste_def stdinBuffer_def)
    with once True show ?thesis by (simp add: process.simps [of c st])
  next
    case False
    with Cons.prems have "concat cs \<noteq> []" by (cases cs) auto
    with end_not_yet [OF assms(1), of "sb_pasteBuffer ?st" "concat cs"] Cons.prems
    have "takePaste ?st = (?st, [], [])" by (simp add: takePaste_def)
    with once Cons.IH [of ?st] False Cons.prems show ?thesis by (simp add: process.simps [of c st])
  qed
qed simp

lemma paste_opening:
  assumes "indexOf (content @ BRACKETED_PASTE_END) BRACKETED_PASTE_END = Some (length content)"
    and "p @ concat cs = BRACKETED_PASTE_START @ content @ BRACKETED_PASTE_END" "[] \<notin> set cs"
    and "z \<noteq> []" "p @ z = BRACKETED_PASTE_START"
  shows "processAll cs (stdinBuffer\<lparr>sb_buffer := p, sb_timeout := p \<noteq> [], sb_pendingKitty := k\<rparr>) = (stdinBuffer, [Paste content])"
  using assms(2-)
proof (induction cs arbitrary: p z)
  case Nil
  from arg_cong [OF Nil.prems(1), of length] arg_cong [OF Nil.prems(4), of length] Nil.prems(3)
  show ?case by simp
next
  case (Cons c cs)
  let ?st = "stdinBuffer\<lparr>sb_buffer := p, sb_timeout := p \<noteq> [], sb_pendingKitty := k\<rparr>"
  from Cons.prems have c: "c \<noteq> []" by auto
  show ?case
  proof (cases "length (p @ c) < 6")
    case True
    define z' where "z' = drop (length (p @ c)) BRACKETED_PASTE_START"
    have "p @ c = take (length (p @ c)) BRACKETED_PASTE_START"
      using arg_cong [OF Cons.prems(1), of "take (length (p @ c))"] True by simp
    then have p': "(p @ c) @ z' = BRACKETED_PASTE_START" unfolding z'_def by (metis append_take_drop_id)
    from True have z': "z' \<noteq> []" by (simp add: z'_def)
    from strict_prefix_open [OF p' z'] c
    have "process c ?st = (stdinBuffer\<lparr>sb_buffer := p @ c, sb_timeout := p @ c \<noteq> [], sb_pendingKitty := k\<rparr>, [])"
      by (intro process_plain [where seqs = "[]" and rest = "p @ c"]) (simp_all add: stdinBuffer_def)
    with Cons.IH [OF _ _ z' p'] Cons.prems show ?thesis by simp
  next
    case False
    define x where "x = drop 6 (p @ c)"
    from False have "take 6 (p @ c @ concat cs) = take 6 (p @ c)" by simp
    moreover have "take 6 (p @ c @ concat cs) = BRACKETED_PASTE_START" using Cons.prems(1) by simp
    ultimately have "take 6 (p @ c) = BRACKETED_PASTE_START" by (simp only:)
    then have x1: "p @ c = BRACKETED_PASTE_START @ x" unfolding x_def by (metis append_take_drop_id)
    with Cons.prems(1) have "BRACKETED_PASTE_START @ x @ concat cs = BRACKETED_PASTE_START @ content @ BRACKETED_PASTE_END"
      by (metis append.assoc concat.simps(2))
    then have "x @ concat cs = content @ BRACKETED_PASTE_END" by (simp only: same_append_eq)
    note x = x1 this
    let ?st1 = "stdinBuffer\<lparr>sb_pasteMode := True, sb_pasteBuffer := x\<rparr>"
    have i: "indexOf (p @ c) BRACKETED_PASTE_START = Some 0" unfolding x(1) by (rule indexOf_prefix) simp
    have d: "drop 6 (p @ c) = x" by (simp only: x_def)
    have once: "processOnce c ?st = takePaste ?st1"
      unfolding processOnce_def Let_def using c i d
      by (simp add: stdinBuffer_def del: drop_append split: prod.splits)
    show ?thesis
    proof (cases "cs = []")
      case True
      with x assms(1) have "takePaste ?st1 = (stdinBuffer, [Paste content], [])"
        by (simp add: takePaste_def stdinBuffer_def)
      with once True show ?thesis by (simp add: process.simps [of c ?st])
    next
      case F: False
      with Cons.prems have "concat cs \<noteq> []" by (cases cs) auto
      with end_not_yet [OF assms(1) x(2)] have "takePaste ?st1 = (?st1, [], [])"
        by (simp add: takePaste_def)
      with once have "process c ?st = (?st1, [])" by (subst process.simps) simp
      moreover have "processAll cs ?st1 = (stdinBuffer, [Paste content])"
        using paste_rest [OF assms(1), of ?st1 cs] F x Cons.prems by (simp add: stdinBuffer_def)
      ultimately show ?thesis by simp
    qed
  qed
qed

text \<open>A bracketed paste that arrives at an idle buffer is delivered as one event with exactly its content,
  however it is cut into chunks, its two markers included, and leaves the buffer idle.\<close>

theorem paste_whole_however_cut:
  assumes "concat cs = BRACKETED_PASTE_START @ content @ BRACKETED_PASTE_END" "[] \<notin> set cs"
    and "indexOf (content @ BRACKETED_PASTE_END) BRACKETED_PASTE_END = Some (length content)"
  shows "processAll cs (stdinBuffer\<lparr>sb_pendingKitty := k\<rparr>) = (stdinBuffer, [Paste content])"
proof -
  have "stdinBuffer\<lparr>sb_pendingKitty := k\<rparr> = stdinBuffer\<lparr>sb_buffer := [], sb_timeout := [] \<noteq> ([]::jstr), sb_pendingKitty := k\<rparr>"
    by (simp add: stdinBuffer_def)
  moreover have "BRACKETED_PASTE_START \<noteq> []" by (simp add: BRACKETED_PASTE_START_def)
  ultimately show ?thesis
    using paste_opening [OF assms(3), of "[]" cs BRACKETED_PASTE_START k] assms by simp
qed

lemma paste_whole_however_cut_witness:
  "processAll [ESC # js ''[20'', js ''0~a'' @ [ESC], js ''[201~''] (stdinBuffer\<lparr>sb_pendingKitty := None\<rparr>) =
     (stdinBuffer, [Paste (js ''a'')])"
  by (rule paste_whole_however_cut)
    (simp_all add: BRACKETED_PASTE_START_def BRACKETED_PASTE_END_def ESC_def js_def)

section \<open>The state\<close>

text \<open>The states that chunks, the timer and \<open>clear\<close> lead to.\<close>

inductive stdin_reach :: "stdin_state \<Rightarrow> bool" where
  stdin_start: "stdin_reach stdinBuffer"
| stdin_chunk: "stdin_reach st \<Longrightarrow> stdin_reach (fst (process str st))"
| stdin_timer: "stdin_reach st \<Longrightarrow> sb_timeout st \<Longrightarrow> stdin_reach (fst (timerFires st))"
| stdin_clear: "stdin_reach st \<Longrightarrow> stdin_reach (clear_buffer st)"

definition stdin_ok :: "stdin_state \<Rightarrow> bool" where
  "stdin_ok st \<longleftrightarrow>
     (if sb_pasteMode st
      then sb_buffer st = [] \<and> indexOf (sb_pasteBuffer st) BRACKETED_PASTE_END = None
      else sb_pasteBuffer st = [] \<and> indexOf (sb_buffer st) BRACKETED_PASTE_START = None \<and>
        extractCompleteSequences (sb_buffer st) = ([], sb_buffer st)) \<and>
     sb_timeout st = (sb_buffer st \<noteq> [])"

lemma markers_nonempty [simp]: "BRACKETED_PASTE_START \<noteq> []" "BRACKETED_PASTE_END \<noteq> []"
  by (simp_all add: BRACKETED_PASTE_START_def BRACKETED_PASTE_END_def)

lemma takePaste_ok:
  "takePaste st = (st', ev, rest) \<Longrightarrow> sb_pasteMode st \<Longrightarrow> sb_buffer st = [] \<Longrightarrow> \<not> sb_timeout st \<Longrightarrow> stdin_ok st'"
  by (auto simp: takePaste_def stdin_ok_def split: option.splits)

lemma extract_rest_ok:
  assumes "extractCompleteSequences s = (seqs, rest)" "indexOf s BRACKETED_PASTE_START = None"
  shows "extractCompleteSequences rest = ([], rest)" "indexOf rest BRACKETED_PASTE_START = None"
proof -
  from extract_facts [OF assms(1)] have f: "concat seqs @ rest = s" "rest \<noteq> [] \<longrightarrow> prefix [ESC] rest \<and> scanSequence rest 1 = None"
    by blast+
  from f(2) show "extractCompleteSequences rest = ([], rest)" by (intro extract_stop) blast
  from f(1) have "rest = drop (length (concat seqs)) s" by (metis append_eq_conv_conj)
  with indexOf_None_drop [OF assms(2)] show "indexOf rest BRACKETED_PASTE_START = None" by metis
qed

lemma processOnce_ok:
  assumes "stdin_ok st" "processOnce str st = (st', ev, rest)"
  shows "stdin_ok st'"
proof (cases "str = [] \<and> sb_buffer st = []")
  case True
  with assms show ?thesis
    by (auto simp: processOnce_def stdin_ok_def Let_def split: prod.splits dest!: emit_keeps)
next
  case work: False
  show ?thesis
  proof (cases "sb_pasteMode st")
    case True
    with work assms(2) have
      "takePaste (st\<lparr>sb_timeout := False, sb_buffer := [], sb_pasteBuffer := sb_pasteBuffer st @ sb_buffer st @ str\<rparr>) = (st', ev, rest)"
      by (auto simp: processOnce_def Let_def)
    with True show ?thesis by (elim takePaste_ok) simp_all
  next
    case plain: False
    show ?thesis
    proof (cases "indexOf (sb_buffer st @ str) BRACKETED_PASTE_START")
      case None
      obtain seqs r where x: "extractCompleteSequences (sb_buffer st @ str) = (seqs, r)" by fastforce
      with None plain work assms extract_rest_ok [OF x None] show ?thesis
        by (auto simp: processOnce_def Let_def stdin_ok_def split: prod.splits dest!: emitAll_keeps)
    next
      case (Some i)
      obtain st1 ev1 where e: "(if i > 0 then emitAll (fst (extractCompleteSequences (take i (sb_buffer st @ str)))) (st\<lparr>sb_timeout := False\<rparr>)
          else (st\<lparr>sb_timeout := False\<rparr>, [])) = (st1, ev1)" by fastforce
      then have "\<not> sb_timeout st1" by (auto split: if_splits dest!: emitAll_keeps)
      with e Some plain work assms(2) show ?thesis
        by (auto simp: processOnce_def Let_def split: prod.splits elim!: takePaste_ok)
    qed
  qed
qed

lemma process_ok: "stdin_ok st \<Longrightarrow> stdin_ok (fst (process str st))"
proof (induction str st rule: process.induct)
  case (1 str st)
  obtain st1 ev rest where once: "processOnce str st = (st1, ev, rest)" by (metis prod.exhaust)
  with 1 processOnce_ok show ?case by (subst process.simps) (auto split: prod.splits)
qed

text \<open>The buffer is consistent after any chunks, timers and resets: text is held back for a paste or for
  one unfinished sequence, never for both and never with a whole marker in it, and the timer runs exactly while
  such a sequence waits.\<close>

theorem stdin_stays_consistent:
  assumes "stdin_reach st"
  shows "stdin_ok st"
  using assms
proof induction
  case stdin_start
  show ?case by (simp add: stdin_ok_def stdinBuffer_def)
next
  case (stdin_chunk st str)
  then show ?case by (simp add: process_ok)
next
  case (stdin_timer st)
  then have ok: "sb_buffer st \<noteq> []" "\<not> sb_pasteMode st" "sb_pasteBuffer st = []"
    by (auto simp: stdin_ok_def split: if_splits)
  obtain st1 ev where "emitDataSequence (sb_buffer st) (st\<lparr>sb_timeout := False, sb_buffer := [], sb_pendingKitty := None\<rparr>) = (st1, ev)"
    by fastforce
  with ok emit_keeps [OF this] show ?case by (simp add: timerFires_def flush_def Let_def stdin_ok_def)
next
  case (stdin_clear st)
  show ?case by (simp add: stdin_ok_def clear_buffer_def)
qed

lemma stdin_stays_consistent_witness: "stdin_ok (fst (process (ESC # js ''['') stdinBuffer))"
  by (rule stdin_stays_consistent) (intro stdin_reach.intros)

section \<open>Where a chunk ends matters\<close>

text \<open>An Escape key and the report of its release are two sequences when they arrive together; cut after the
  second escape, the two escapes are one sequence and the report is delivered as typed text.\<close>

theorem release_report_cut_is_typed:
  "snd (process (js [CHR 0x1b, CHR 0x1b] @ js ''[27u'') stdinBuffer) = [Data [ESC], Data (ESC # js ''[27u'')] \<and>
   snd (processAll [[ESC, ESC], js ''[27u''] stdinBuffer) =
     [Data [ESC, ESC], Data (js ''[''), Data (js ''2''), Data (js ''7''), Data (js ''u'')]"
  by code_simp

text \<open>What is unfinished when a paste begins in the same chunk is dropped, where the timer would have
  delivered it: an Escape key right before a paste is lost.\<close>

theorem escape_before_paste_lost:
  "snd (process (ESC # BRACKETED_PASTE_START @ js ''a'' @ BRACKETED_PASTE_END) stdinBuffer) = [Paste (js ''a'')] \<and>
   snd (timerFires (fst (process [ESC] stdinBuffer))) = [Data [ESC]]"
  by code_simp

end
