(* ===== verification/InputLine.thy ===== *)
theory InputLine
  imports StdinBuffer
begin

text \<open>
  The single-line input of the terminal, components/input.ts of packages/tui/src, with kill-ring.ts,
  undo-stack.ts, word-navigation.ts and the printable keys of keys.ts. The segmentation of text into
  graphemes and words and the table of key bindings are parameters. A position is an integer, read by
  the slices as JavaScript reads it. Rendering is not modelled.

  The cursor stays in the text, what is killed in a row comes back with one yank, and a typed word is
  undone at once.
\<close>

section \<open>Printable keys\<close>

definition optDigits :: "jchar \<Rightarrow> jstr \<Rightarrow> jstr option \<times> jstr" where
  "optDigits c r =
     (case afterChar c r of
        Some r1 \<Rightarrow> (if takeWhile isDecimal r1 = [] then (None, r) else (Some (takeWhile isDecimal r1), dropWhile isDecimal r1))
      | None \<Rightarrow> (None, r))"

text \<open>\<open>/^\x1b\[(\d+)(?::(\d*))?(?::(\d+))?(?:;(\d+))?(?::(\d+))?u$/\<close>: the first, second and fourth group.\<close>

definition matchKittyCsiU :: "jstr \<Rightarrow> (jstr \<times> jstr option \<times> jstr option) option" where
  "matchKittyCsiU d =
     (if prefix (ESC # js ''['') d \<and> takeWhile isDecimal (drop 2 d) \<noteq> [] then
        (let r1 = dropWhile isDecimal (drop 2 d);
             (g2, r2) = (case afterChar 58 r1 of
                           Some r \<Rightarrow> (Some (takeWhile isDecimal r), dropWhile isDecimal r)
                         | None \<Rightarrow> (None, r1));
             (g3, r3) = optDigits 58 r2;
             (g4, r4) = optDigits 59 r3;
             (g5, r5) = optDigits 58 r4
         in if r5 = js ''u'' then Some (takeWhile isDecimal (drop 2 d), g2, g4) else None)
      else None)"

definition KITTY_FUNCTIONAL_KEY_EQUIVALENTS :: "nat \<Rightarrow> int option" where
  "KITTY_FUNCTIONAL_KEY_EQUIVALENTS =
     map_of (zip [57399..<57414] [48, 49, 50, 51, 52, 53, 54, 55, 56, 57, 46, 47, 42, 45, 43] @
       zip [57415..<57427] [61, 44, -4, -3, -1, -2, -12, -13, -14, -15, -11, -10])"

definition normalizeKittyFunctionalCodepoint :: "nat \<Rightarrow> int" where
  "normalizeKittyFunctionalCodepoint n = (case KITTY_FUNCTIONAL_KEY_EQUIVALENTS n of Some k \<Rightarrow> k | None \<Rightarrow> int n)"

text \<open>\<open>String.fromCodePoint\<close>, which throws above the last code point.\<close>

definition fromCodePoint :: "nat \<Rightarrow> jstr option" where
  "fromCodePoint n =
     (if n > 0x10FFFF then None
      else if n < 0x10000 then Some [of_nat n]
      else Some [of_nat (0xD800 + (n - 0x10000) div 0x400), of_nat (0xDC00 + (n - 0x10000) mod 0x400)])"

text \<open>Shift is 1, Alt 2, Control 4, Caps Lock 64 and Num Lock 128; the operators work on 32 bits.\<close>

definition decodeKittyPrintable :: "jstr \<Rightarrow> jstr option" where
  "decodeKittyPrintable d =
     (case matchKittyCsiU d of
        None \<Rightarrow> None
      | Some (g1, g2, g4) \<Rightarrow>
          (let codepoint = decimalValue g1;
               shiftedKey = (case g2 of Some ds \<Rightarrow> if ds \<noteq> [] then Some (decimalValue ds) else None | None \<Rightarrow> None);
               modValue = (case g4 of Some ds \<Rightarrow> decimalValue ds | None \<Rightarrow> 1);
               modifier = (of_nat modValue - 1 :: 32 word)
           in if and modifier (not (1 + 64 + 128)) \<noteq> 0 then None
              else if and modifier (2 + 4) \<noteq> 0 then None
              else (let k = (if and modifier 1 \<noteq> 0 \<and> shiftedKey \<noteq> None then the shiftedKey else codepoint);
                        effective = normalizeKittyFunctionalCodepoint k
                    in if effective < 32 then None else fromCodePoint (nat effective))))"

section \<open>Kill ring and undo stack\<close>

text \<open>Both are lists with the newest entry last.\<close>

definition killPush :: "jstr \<Rightarrow> bool \<Rightarrow> bool \<Rightarrow> jstr list \<Rightarrow> jstr list" where
  "killPush t prepend accumulate ring =
     (if t = [] then ring
      else if accumulate \<and> ring \<noteq> []
      then butlast ring @ [if prepend then t @ last ring else last ring @ t]
      else ring @ [t])"

definition killPeek :: "jstr list \<Rightarrow> jstr option" where
  "killPeek ring = (if ring \<noteq> [] then Some (last ring) else None)"

definition killRotate :: "jstr list \<Rightarrow> jstr list" where
  "killRotate ring = (if length ring > 1 then last ring # butlast ring else ring)"

definition undoPush :: "'s \<Rightarrow> 's list \<Rightarrow> 's list" where
  "undoPush s stack = stack @ [s]"

definition undoPop :: "'s list \<Rightarrow> ('s \<times> 's list) option" where
  "undoPop stack = (if stack = [] then None else Some (last stack, butlast stack))"

section \<open>Words\<close>

text \<open>\<open>s.slice(0, c)\<close>, \<open>s.slice(c)\<close> and \<open>s.slice(a, b)\<close>: a negative position counts from the end.\<close>

definition relIndex :: "'a list \<Rightarrow> int \<Rightarrow> nat" where
  "relIndex s c = min (length s) (nat (if c < 0 then int (length s) + c else c))"

definition sliceTo :: "'a list \<Rightarrow> int \<Rightarrow> 'a list" where
  "sliceTo s c = take (relIndex s c) s"

definition sliceOn :: "'a list \<Rightarrow> int \<Rightarrow> 'a list" where
  "sliceOn s c = drop (relIndex s c) s"

definition sliceBetween :: "'a list \<Rightarrow> int \<Rightarrow> int \<Rightarrow> 'a list" where
  "sliceBetween s a b = take (relIndex s b - relIndex s a) (drop (relIndex s a) s)"

definition isWhitespaceChar :: "jstr \<Rightarrow> bool" where
  "isWhitespaceChar s \<longleftrightarrow> list_ex isSpace s"

definition PUNCTUATION :: "jchar set" where
  "PUNCTUATION = set (js ''(){}[]<>.,;:'' @ [39, 34] @ js ''!?+-=*/'' @ [92] @ js ''|&%^$#@~'' @ [96])"

text \<open>A segment of words: its text and \<open>isWordLike\<close>.\<close>

type_synonym word_segment = "jstr \<times> bool"

fun skipSpaceFront :: "word_segment list \<Rightarrow> int \<Rightarrow> word_segment list \<times> int" where
  "skipSpaceFront [] c = ([], c)"
| "skipSpaceFront ((s, w) # ss) c =
     (if isWhitespaceChar s then skipSpaceFront ss (c + int (length s)) else ((s, w) # ss, c))"

fun skipOtherFront :: "word_segment list \<Rightarrow> int \<Rightarrow> int" where
  "skipOtherFront [] c = c"
| "skipOtherFront ((s, w) # ss) c =
     (if \<not> w \<and> \<not> isWhitespaceChar s then skipOtherFront ss (c + int (length s)) else c)"

definition punctuationAt :: "jstr \<Rightarrow> nat option" where
  "punctuationAt s = findIndex (\<lambda>c. c \<in> PUNCTUATION) s"

text \<open>The segments from the end of the text, for the way back.\<close>

fun skipSpaceBack :: "word_segment list \<Rightarrow> int \<Rightarrow> word_segment list \<times> int" where
  "skipSpaceBack [] c = ([], c)"
| "skipSpaceBack ((s, w) # ss) c =
     (if isWhitespaceChar s then skipSpaceBack ss (c - int (length s)) else ((s, w) # ss, c))"

fun skipOtherBack :: "word_segment list \<Rightarrow> int \<Rightarrow> int" where
  "skipOtherBack [] c = c"
| "skipOtherBack ((s, w) # ss) c =
     (if \<not> w \<and> \<not> isWhitespaceChar s then skipOtherBack ss (c - int (length s)) else c)"

definition lastPunctuation :: "jstr \<Rightarrow> nat option" where
  "lastPunctuation s =
     (let found = filter (\<lambda>i. s ! i \<in> PUNCTUATION) [0..<length s] in if found = [] then None else Some (last found))"

definition findWordBackward :: "(jstr \<Rightarrow> word_segment list) \<Rightarrow> jstr \<Rightarrow> int \<Rightarrow> int" where
  "findWordBackward words t cursor =
     (if cursor \<le> 0 then 0
      else (case skipSpaceBack (rev (words (sliceTo t cursor))) cursor of
              ([], c) \<Rightarrow> c
            | ((s, w) # ss, c) \<Rightarrow>
                (if w then
                   (case lastPunctuation s of
                      None \<Rightarrow> c - int (length s)
                    | Some i \<Rightarrow> c - (int (length s) - (int i + 1)))
                 else skipOtherBack ((s, w) # ss) c)))"

definition findWordForward :: "(jstr \<Rightarrow> word_segment list) \<Rightarrow> jstr \<Rightarrow> int \<Rightarrow> int" where
  "findWordForward words t cursor =
     (if cursor \<ge> int (length t) then int (length t)
      else (case skipSpaceFront (words (sliceOn t cursor)) cursor of
              ([], c) \<Rightarrow> c
            | ((s, w) # ss, c) \<Rightarrow>
                (if w then
                   (case punctuationAt s of
                      None \<Rightarrow> c + int (length s)
                    | Some i \<Rightarrow> c + int i)
                 else skipOtherFront ((s, w) # ss) c)))"

section \<open>The input\<close>

datatype last_action = LA_kill | LA_yank | LA_type_word

record input_line =
  il_value :: jstr
  il_cursor :: int
  il_pasteBuffer :: jstr
  il_isInPaste :: bool
  il_killRing :: "jstr list"
  il_lastAction :: "last_action option"
  il_undoStack :: "(jstr \<times> int) list"

datatype input_event = Submitted jstr | Escaped

datatype input_key =
    K_cancel | K_undo | K_submit
  | K_deleteCharBackward | K_deleteCharForward | K_deleteWordBackward | K_deleteWordForward
  | K_deleteToLineStart | K_deleteToLineEnd | K_yank | K_yankPop
  | K_cursorLeft | K_cursorRight | K_cursorLineStart | K_cursorLineEnd | K_cursorWordLeft | K_cursorWordRight

record input_ports =
  ip_matches :: "jstr \<Rightarrow> input_key \<Rightarrow> bool"
  ip_graphemes :: "jstr \<Rightarrow> jstr list"
  ip_words :: "jstr \<Rightarrow> word_segment list"

definition newInput :: input_line where
  "newInput =
     \<lparr>il_value = [], il_cursor = 0, il_pasteBuffer = [], il_isInPaste = False, il_killRing = [],
       il_lastAction = None, il_undoStack = []\<rparr>"

definition setValue :: "jstr \<Rightarrow> input_line \<Rightarrow> input_line" where
  "setValue v s = s\<lparr>il_value := v, il_cursor := min (il_cursor s) (int (length v))\<rparr>"

definition pushUndo :: "input_line \<Rightarrow> input_line" where
  "pushUndo s = s\<lparr>il_undoStack := undoPush (il_value s, il_cursor s) (il_undoStack s)\<rparr>"

definition undo :: "input_line \<Rightarrow> input_line" where
  "undo s =
     (case undoPop (il_undoStack s) of
        None \<Rightarrow> s
      | Some ((v, c), rest) \<Rightarrow> s\<lparr>il_undoStack := rest, il_value := v, il_cursor := c, il_lastAction := None\<rparr>)"

text \<open>A text at the cursor, with the cursor behind it.\<close>

definition insertText :: "jstr \<Rightarrow> input_line \<Rightarrow> input_line" where
  "insertText t s =
     s\<lparr>il_value := sliceTo (il_value s) (il_cursor s) @ t @ sliceOn (il_value s) (il_cursor s),
       il_cursor := il_cursor s + int (length t)\<rparr>"

definition insertCharacter :: "jstr \<Rightarrow> input_line \<Rightarrow> input_line" where
  "insertCharacter ch s =
     (let s1 = (if isWhitespaceChar ch \<or> il_lastAction s \<noteq> Some LA_type_word then pushUndo s else s)
      in insertText ch (s1\<lparr>il_lastAction := Some LA_type_word\<rparr>))"

definition handleBackspace :: "input_ports \<Rightarrow> input_line \<Rightarrow> input_line" where
  "handleBackspace P s =
     (let s1 = s\<lparr>il_lastAction := None\<rparr>
      in if il_cursor s1 > 0 then
           (let s2 = pushUndo s1; gs = ip_graphemes P (sliceTo (il_value s2) (il_cursor s2));
                n = (if gs \<noteq> [] then int (length (last gs)) else 1)
            in s2\<lparr>il_value := sliceTo (il_value s2) (il_cursor s2 - n) @ sliceOn (il_value s2) (il_cursor s2),
                  il_cursor := il_cursor s2 - n\<rparr>)
         else s1)"

definition handleForwardDelete :: "input_ports \<Rightarrow> input_line \<Rightarrow> input_line" where
  "handleForwardDelete P s =
     (let s1 = s\<lparr>il_lastAction := None\<rparr>
      in if il_cursor s1 < int (length (il_value s1)) then
           (let s2 = pushUndo s1; gs = ip_graphemes P (sliceOn (il_value s2) (il_cursor s2));
                n = (if gs \<noteq> [] then int (length (hd gs)) else 1)
            in s2\<lparr>il_value := sliceTo (il_value s2) (il_cursor s2) @ sliceOn (il_value s2) (il_cursor s2 + n)\<rparr>)
         else s1)"

definition deleteToLineStart :: "input_line \<Rightarrow> input_line" where
  "deleteToLineStart s =
     (if il_cursor s = 0 then s
      else (let s1 = pushUndo s
            in s1\<lparr>il_killRing := killPush (sliceTo (il_value s1) (il_cursor s1)) True (il_lastAction s1 = Some LA_kill) (il_killRing s1),
                  il_lastAction := Some LA_kill, il_value := sliceOn (il_value s1) (il_cursor s1), il_cursor := 0\<rparr>))"

definition deleteToLineEnd :: "input_line \<Rightarrow> input_line" where
  "deleteToLineEnd s =
     (if il_cursor s \<ge> int (length (il_value s)) then s
      else (let s1 = pushUndo s
            in s1\<lparr>il_killRing := killPush (sliceOn (il_value s1) (il_cursor s1)) False (il_lastAction s1 = Some LA_kill) (il_killRing s1),
                  il_lastAction := Some LA_kill, il_value := sliceTo (il_value s1) (il_cursor s1)\<rparr>))"

definition moveWordBackwards :: "input_ports \<Rightarrow> input_line \<Rightarrow> input_line" where
  "moveWordBackwards P s =
     (if il_cursor s = 0 then s
      else s\<lparr>il_lastAction := None, il_cursor := findWordBackward (ip_words P) (il_value s) (il_cursor s)\<rparr>)"

definition moveWordForwards :: "input_ports \<Rightarrow> input_line \<Rightarrow> input_line" where
  "moveWordForwards P s =
     (if il_cursor s \<ge> int (length (il_value s)) then s
      else s\<lparr>il_lastAction := None, il_cursor := findWordForward (ip_words P) (il_value s) (il_cursor s)\<rparr>)"

definition deleteWordBackwards :: "input_ports \<Rightarrow> input_line \<Rightarrow> input_line" where
  "deleteWordBackwards P s =
     (if il_cursor s = 0 then s
      else (let wasKill = (il_lastAction s = Some LA_kill);
                s1 = pushUndo s; oldCursor = il_cursor s1;
                deleteFrom = il_cursor (moveWordBackwards P s1)
            in s1\<lparr>il_killRing := killPush (sliceBetween (il_value s1) deleteFrom oldCursor) True wasKill (il_killRing s1),
                  il_lastAction := Some LA_kill,
                  il_value := sliceTo (il_value s1) deleteFrom @ sliceOn (il_value s1) oldCursor,
                  il_cursor := deleteFrom\<rparr>))"

definition deleteWordForward :: "input_ports \<Rightarrow> input_line \<Rightarrow> input_line" where
  "deleteWordForward P s =
     (if il_cursor s \<ge> int (length (il_value s)) then s
      else (let wasKill = (il_lastAction s = Some LA_kill);
                s1 = pushUndo s; oldCursor = il_cursor s1;
                deleteTo = il_cursor (moveWordForwards P s1)
            in s1\<lparr>il_killRing := killPush (sliceBetween (il_value s1) oldCursor deleteTo) False wasKill (il_killRing s1),
                  il_lastAction := Some LA_kill,
                  il_value := sliceTo (il_value s1) oldCursor @ sliceOn (il_value s1) deleteTo\<rparr>))"

definition yank :: "input_line \<Rightarrow> input_line" where
  "yank s =
     (if \<not> truthyStr (killPeek (il_killRing s)) then s
      else (insertText (the (killPeek (il_killRing s))) (pushUndo s))\<lparr>il_lastAction := Some LA_yank\<rparr>)"

definition yankPop :: "input_line \<Rightarrow> input_line" where
  "yankPop s =
     (if il_lastAction s \<noteq> Some LA_yank \<or> length (il_killRing s) \<le> 1 then s
      else (let s1 = pushUndo s; prevText = orDefault (killPeek (il_killRing s1)) [];
                s2 = s1\<lparr>il_value := sliceTo (il_value s1) (il_cursor s1 - int (length prevText)) @ sliceOn (il_value s1) (il_cursor s1),
                        il_cursor := il_cursor s1 - int (length prevText), il_killRing := killRotate (il_killRing s1)\<rparr>
            in (insertText (orDefault (killPeek (il_killRing s2)) []) s2)\<lparr>il_lastAction := Some LA_yank\<rparr>))"

definition cleanPaste :: "jstr \<Rightarrow> jstr" where
  "cleanPaste t = concat (map (\<lambda>c. if c = 13 \<or> c = 10 then [] else if c = 9 then js ''    '' else [c]) t)"

definition handlePaste :: "jstr \<Rightarrow> input_line \<Rightarrow> input_line" where
  "handlePaste t s = insertText (cleanPaste t) (pushUndo (s\<lparr>il_lastAction := None\<rparr>))"

definition cursorLeft :: "input_ports \<Rightarrow> input_line \<Rightarrow> input_line" where
  "cursorLeft P s =
     (let s1 = s\<lparr>il_lastAction := None\<rparr>
      in if il_cursor s1 > 0 then
           (let gs = ip_graphemes P (sliceTo (il_value s1) (il_cursor s1))
            in s1\<lparr>il_cursor := il_cursor s1 - (if gs \<noteq> [] then int (length (last gs)) else 1)\<rparr>)
         else s1)"

definition cursorRight :: "input_ports \<Rightarrow> input_line \<Rightarrow> input_line" where
  "cursorRight P s =
     (let s1 = s\<lparr>il_lastAction := None\<rparr>
      in if il_cursor s1 < int (length (il_value s1)) then
           (let gs = ip_graphemes P (sliceOn (il_value s1) (il_cursor s1))
            in s1\<lparr>il_cursor := il_cursor s1 + (if gs \<noteq> [] then int (length (hd gs)) else 1)\<rparr>)
         else s1)"

text \<open>A text of one control character at least; the second unit of a pair is none.\<close>

definition isControl :: "jchar \<Rightarrow> bool" where
  "isControl c \<longleftrightarrow> c < 32 \<or> c = 0x7F \<or> 0x80 \<le> c \<and> c \<le> 0x9F"

definition handleKey :: "input_ports \<Rightarrow> jstr \<Rightarrow> input_line \<Rightarrow> input_line \<times> input_event list" where
  "handleKey P d s =
     (if ip_matches P d K_cancel then (s, [Escaped])
      else if ip_matches P d K_undo then (undo s, [])
      else if ip_matches P d K_submit \<or> d = [10] then (s, [Submitted (il_value s)])
      else if ip_matches P d K_deleteCharBackward then (handleBackspace P s, [])
      else if ip_matches P d K_deleteCharForward then (handleForwardDelete P s, [])
      else if ip_matches P d K_deleteWordBackward then (deleteWordBackwards P s, [])
      else if ip_matches P d K_deleteWordForward then (deleteWordForward P s, [])
      else if ip_matches P d K_deleteToLineStart then (deleteToLineStart s, [])
      else if ip_matches P d K_deleteToLineEnd then (deleteToLineEnd s, [])
      else if ip_matches P d K_yank then (yank s, [])
      else if ip_matches P d K_yankPop then (yankPop s, [])
      else if ip_matches P d K_cursorLeft then (cursorLeft P s, [])
      else if ip_matches P d K_cursorRight then (cursorRight P s, [])
      else if ip_matches P d K_cursorLineStart then (s\<lparr>il_lastAction := None, il_cursor := 0\<rparr>, [])
      else if ip_matches P d K_cursorLineEnd then (s\<lparr>il_lastAction := None, il_cursor := int (length (il_value s))\<rparr>, [])
      else if ip_matches P d K_cursorWordLeft then (moveWordBackwards P s, [])
      else if ip_matches P d K_cursorWordRight then (moveWordForwards P s, [])
      else (case decodeKittyPrintable d of
              Some t \<Rightarrow> (insertCharacter t s, [])
            | None \<Rightarrow> (if list_ex isControl d then s else insertCharacter d s, [])))"

text \<open>\<open>data.replace(marker, "")\<close> of the first occurrence.\<close>

definition removeFirst :: "jstr \<Rightarrow> jstr \<Rightarrow> jstr" where
  "removeFirst pat d = (case indexOf d pat of None \<Rightarrow> d | Some i \<Rightarrow> take i d @ drop (i + length pat) d)"

text \<open>One call of \<open>handleInput\<close> up to its call of itself, with the input of that call, empty where there is none.\<close>

definition inputOnce :: "input_ports \<Rightarrow> jstr \<Rightarrow> input_line \<Rightarrow> input_line \<times> input_event list \<times> jstr" where
  "inputOnce P d0 s0 =
     (let starts = includesStr d0 BRACKETED_PASTE_START;
          d = (if starts then removeFirst BRACKETED_PASTE_START d0 else d0);
          s = (if starts then s0\<lparr>il_isInPaste := True, il_pasteBuffer := []\<rparr> else s0)
      in if il_isInPaste s then
           (let s1 = s\<lparr>il_pasteBuffer := il_pasteBuffer s @ d\<rparr>
            in case indexOf (il_pasteBuffer s1) BRACKETED_PASTE_END of
                 None \<Rightarrow> (s1, [], [])
               | Some e \<Rightarrow>
                   ((handlePaste (take e (il_pasteBuffer s1)) s1)\<lparr>il_isInPaste := False, il_pasteBuffer := []\<rparr>, [],
                    drop (e + 6) (il_pasteBuffer s1)))
         else (case handleKey P d s of (s1, ev) \<Rightarrow> (s1, ev, [])))"

lemma inputOnce_rest:
  assumes "inputOnce P d s = (s1, ev, rest)" "rest \<noteq> []"
  shows "length rest + length (il_pasteBuffer s1) < length d + length (il_pasteBuffer s)"
proof -
  have r: "length (removeFirst BRACKETED_PASTE_START d) \<le> length d"
    by (auto simp: removeFirst_def split: option.splits)
  have "length (drop (e + 6) b) < length b" if "indexOf b BRACKETED_PASTE_END = Some e" for b e
    using indexOf_Some_bound [OF that] by simp
  with r assms show ?thesis
    by (fastforce simp: inputOnce_def Let_def split: if_splits option.splits prod.splits)
qed

function handleInput :: "input_ports \<Rightarrow> jstr \<Rightarrow> input_line \<Rightarrow> input_line \<times> input_event list" where
  "handleInput P d s =
     (case inputOnce P d s of
        (s1, ev1, rest) \<Rightarrow>
          (if rest = [] then (s1, ev1)
           else (case handleInput P rest s1 of (s2, ev2) \<Rightarrow> (s2, ev1 @ ev2))))"
  by pat_completeness auto
termination
proof (relation "measure (\<lambda>(P, d, s). length d + length (il_pasteBuffer s))", goal_cases)
  case (2 P d s x y xa ya)
  then show ?case using inputOnce_rest [of P d s x xa ya] by simp
qed simp

declare handleInput.simps [simp del]

section \<open>Positions in the text\<close>

definition inText :: "jstr \<Rightarrow> int \<Rightarrow> bool" where
  "inText s c \<longleftrightarrow> 0 \<le> c \<and> c \<le> int (length s)"

lemma slices_in [simp]:
  "inText s c \<Longrightarrow> sliceTo s c = take (nat c) s"
  "inText s c \<Longrightarrow> sliceOn s c = drop (nat c) s"
  "inText s a \<Longrightarrow> inText s b \<Longrightarrow> sliceBetween s a b = take (nat b - nat a) (drop (nat a) s)"
  by (auto simp: inText_def sliceTo_def sliceOn_def sliceBetween_def relIndex_def min_def)

text \<open>What the code relies on: a segmentation cuts a text into pieces that make it up, and a word has no ASCII
  punctuation at its ends.\<close>

definition cutsText :: "(jstr \<Rightarrow> jstr list) \<Rightarrow> bool" where
  "cutsText g \<longleftrightarrow> (\<forall>t. concat (g t) = t \<and> [] \<notin> set (g t))"

definition cutsWords :: "(jstr \<Rightarrow> word_segment list) \<Rightarrow> bool" where
  "cutsWords ws \<longleftrightarrow>
     cutsText (\<lambda>t. map fst (ws t)) \<and>
     (\<forall>t. \<forall>(s, w) \<in> set (ws t). w \<longrightarrow> hd s \<notin> PUNCTUATION \<and> last s \<notin> PUNCTUATION)"

lemma length_concat_mem: "x \<in> set xs \<Longrightarrow> length x \<le> length (concat xs)"
  by (induction xs) auto

lemma cutsText_pieces:
  assumes "cutsText g" "t \<noteq> []"
  shows "g t \<noteq> []" "0 < length (last (g t))" "length (last (g t)) \<le> length t"
    "0 < length (hd (g t))" "length (hd (g t)) \<le> length t"
proof -
  from assms show ne: "g t \<noteq> []" by (metis concat.simps(1) cutsText_def)
  have "concat (g t) = t" "[] \<notin> set (g t)" using assms by (auto simp: cutsText_def)
  with ne length_concat_mem [of _ "g t"]
  show "0 < length (last (g t))" "length (last (g t)) \<le> length t" "0 < length (hd (g t))" "length (hd (g t)) \<le> length t"
    by (metis last_in_set length_greater_0_conv, metis last_in_set, metis hd_in_set length_greater_0_conv, metis hd_in_set)
qed

lemma skipSpaceBack_facts:
  "skipSpaceBack ss c = (r, c') \<Longrightarrow>
     (\<exists>k. ss = k @ r \<and> c' = c - int (length (concat (map fst k)))) \<and> (r \<noteq> [] \<longrightarrow> \<not> isWhitespaceChar (fst (hd r)))"
proof (induction ss c rule: skipSpaceBack.induct)
  case (2 s w ss c)
  show ?case
  proof (cases "isWhitespaceChar s")
    case True
    with 2 obtain k where "ss = k @ r" "c' = c - int (length s) - int (length (concat (map fst k)))"
      "r \<noteq> [] \<longrightarrow> \<not> isWhitespaceChar (fst (hd r))" by auto
    then show ?thesis by (intro conjI exI [of _ "(s, w) # k"]) simp_all
  next
    case False
    with 2 show ?thesis by auto
  qed
qed simp

lemma skipOtherBack_facts:
  "\<exists>k r. ss = k @ r \<and> skipOtherBack ss c = c - int (length (concat (map fst k))) \<and>
     (ss \<noteq> [] \<and> \<not> snd (hd ss) \<and> \<not> isWhitespaceChar (fst (hd ss)) \<longrightarrow> k \<noteq> [])"
proof (induction ss c rule: skipOtherBack.induct)
  case (2 s w ss c)
  show ?case
  proof (cases "\<not> w \<and> \<not> isWhitespaceChar s")
    case True
    with 2 obtain k r where "ss = k @ r" "skipOtherBack ss (c - int (length s)) = c - int (length s) - int (length (concat (map fst k)))"
      by blast
    with True show ?thesis by (intro exI [of _ "(s, w) # k"] exI [of _ r]) simp
  next
    case False
    then show ?thesis by (intro exI [of _ "[]"] exI [of _ "(s, w) # ss"]) auto
  qed
qed simp

lemma skipSpaceFront_facts:
  "skipSpaceFront ss c = (r, c') \<Longrightarrow>
     (\<exists>k. ss = k @ r \<and> c' = c + int (length (concat (map fst k)))) \<and> (r \<noteq> [] \<longrightarrow> \<not> isWhitespaceChar (fst (hd r)))"
proof (induction ss c rule: skipSpaceFront.induct)
  case (2 s w ss c)
  show ?case
  proof (cases "isWhitespaceChar s")
    case True
    with 2 obtain k where "ss = k @ r" "c' = c + int (length s) + int (length (concat (map fst k)))"
      "r \<noteq> [] \<longrightarrow> \<not> isWhitespaceChar (fst (hd r))" by auto
    then show ?thesis by (intro conjI exI [of _ "(s, w) # k"]) simp_all
  next
    case False
    with 2 show ?thesis by auto
  qed
qed simp

lemma skipOtherFront_facts:
  "\<exists>k r. ss = k @ r \<and> skipOtherFront ss c = c + int (length (concat (map fst k))) \<and>
     (ss \<noteq> [] \<and> \<not> snd (hd ss) \<and> \<not> isWhitespaceChar (fst (hd ss)) \<longrightarrow> k \<noteq> [])"
proof (induction ss c rule: skipOtherFront.induct)
  case (2 s w ss c)
  show ?case
  proof (cases "\<not> w \<and> \<not> isWhitespaceChar s")
    case True
    with 2 obtain k r where "ss = k @ r" "skipOtherFront ss (c + int (length s)) = c + int (length s) + int (length (concat (map fst k)))"
      by blast
    with True show ?thesis by (intro exI [of _ "(s, w) # k"] exI [of _ r]) simp
  next
    case False
    then show ?thesis by (intro exI [of _ "[]"] exI [of _ "(s, w) # ss"]) auto
  qed
qed simp

lemma lastPunctuation_Some:
  assumes "lastPunctuation s = Some i"
  shows "i < length s \<and> s ! i \<in> PUNCTUATION"
proof -
  from assms have "i \<in> set (filter (\<lambda>i. s ! i \<in> PUNCTUATION) [0..<length s])"
    by (auto simp: lastPunctuation_def Let_def simp del: set_filter split: if_splits)
  then show ?thesis by simp
qed

text \<open>Total lengths of the pieces of a segmentation.\<close>

definition span :: "word_segment list \<Rightarrow> nat" where
  "span ss = length (concat (map fst ss))"

lemma span_simps [simp]: "span [] = 0" "span ((s, w) # ss) = length s + span ss" "span (xs @ ys) = span xs + span ys"
  by (simp_all add: span_def)

lemma span_rev [simp]: "span (rev ss) = span ss"
  by (induction ss) auto

lemma span_pos: "\<forall>(s, w) \<in> set ss. s \<noteq> [] \<Longrightarrow> ss \<noteq> [] \<Longrightarrow> 0 < span ss"
  by (cases ss) auto

lemma cutsWords_pieces:
  assumes "cutsWords ws"
  shows "span (ws t) = length t"
    and "\<forall>(s, w) \<in> set (ws t). s \<noteq> []"
    and "\<forall>(s, w) \<in> set (ws t). w \<longrightarrow> hd s \<notin> PUNCTUATION \<and> last s \<notin> PUNCTUATION"
proof -
  from assms have "cutsText (\<lambda>t. map fst (ws t))" by (simp add: cutsWords_def)
  then have "concat (map fst (ws t)) = t" "[] \<notin> set (map fst (ws t))" by (simp_all add: cutsText_def)
  then show "span (ws t) = length t" "\<forall>(s, w) \<in> set (ws t). s \<noteq> []" by (auto simp: span_def image_iff)
  from assms show "\<forall>(s, w) \<in> set (ws t). w \<longrightarrow> hd s \<notin> PUNCTUATION \<and> last s \<notin> PUNCTUATION"
    unfolding cutsWords_def by blast
qed

lemma findWordBackward_range:
  assumes "cutsWords ws" "inText t c" "0 < c"
  shows "0 \<le> findWordBackward ws t c \<and> findWordBackward ws t c < c"
proof -
  let ?ss = "rev (ws (take (nat c) t))"
  have total: "int (span ?ss) = c" and ne: "\<forall>(s, w) \<in> set ?ss. s \<noteq> []"
    and pu: "\<forall>(s, w) \<in> set ?ss. w \<longrightarrow> last s \<notin> PUNCTUATION"
    using cutsWords_pieces [OF assms(1), of "take (nat c) t"] assms(2) by (auto simp: inText_def)
  obtain r c' where sk: "skipSpaceBack ?ss c = (r, c')" by fastforce
  then obtain k where k: "?ss = k @ r" "c' = c - int (span k)" "r \<noteq> [] \<longrightarrow> \<not> isWhitespaceChar (fst (hd r))"
    using skipSpaceBack_facts by (fastforce simp: span_def)
  have tot: "int (span k) + int (span r) = c" using total k(1) by (metis of_nat_add span_simps(3))
  have bwd: "findWordBackward ws t c = (case (r, c') of
              ([], c) \<Rightarrow> c
            | ((s, w) # ss, c) \<Rightarrow>
                (if w then
                   (case lastPunctuation s of
                      None \<Rightarrow> c - int (length s)
                    | Some i \<Rightarrow> c - (int (length s) - (int i + 1)))
                 else skipOtherBack ((s, w) # ss) c))"
    using assms(2, 3) sk by (simp add: findWordBackward_def)
  show ?thesis
  proof (cases r)
    case Nil
    with tot assms(3) k(2) bwd show ?thesis by simp
  next
    case (Cons sw ss)
    obtain s w where sw: "sw = (s, w)" by fastforce
    have mem: "(s, w) \<in> set ?ss" using k(1) Cons sw by simp
    with ne pu have s: "s \<noteq> []" "w \<Longrightarrow> last s \<notin> PUNCTUATION" by auto
    show ?thesis
    proof (cases w)
      case True
      have "i + 1 < length s" if "lastPunctuation s = Some i" for i
      proof -
        from lastPunctuation_Some [OF that] have i: "i < length s" "s ! i \<in> PUNCTUATION" by auto
        with s True have "i \<noteq> length s - 1" by (auto simp: last_conv_nth)
        with i show ?thesis by linarith
      qed
      moreover from s(1) obtain x xs where "s = x # xs" by (cases s) auto
      ultimately show ?thesis using True bwd Cons sw tot k(2) by (cases "lastPunctuation s") auto
    next
      case False
      from skipOtherBack_facts [of r c'] obtain k' r' where
        k': "r = k' @ r'" "skipOtherBack r c' = c' - int (span k')"
          "r \<noteq> [] \<and> \<not> snd (hd r) \<and> \<not> isWhitespaceChar (fst (hd r)) \<longrightarrow> k' \<noteq> []" by (auto simp: span_def)
      with Cons sw False k(3) have "k' \<noteq> []" by simp
      moreover have "\<forall>(s, w) \<in> set k'. s \<noteq> []" using ne k(1) k'(1) by auto
      ultimately have "0 < span k'" by (rule span_pos [rotated])
      moreover have "span r = span k' + span r'" using k'(1) by simp
      ultimately show ?thesis using False bwd Cons sw tot k(2) k'(2) by simp
    qed
  qed
qed

lemma findWordForward_range:
  assumes "cutsWords ws" "inText t c" "c < int (length t)"
  shows "c < findWordForward ws t c \<and> findWordForward ws t c \<le> int (length t)"
proof -
  let ?ss = "ws (drop (nat c) t)"
  have total: "c + int (span ?ss) = int (length t)" and ne: "\<forall>(s, w) \<in> set ?ss. s \<noteq> []"
    and pu: "\<forall>(s, w) \<in> set ?ss. w \<longrightarrow> hd s \<notin> PUNCTUATION"
    using cutsWords_pieces [OF assms(1), of "drop (nat c) t"] assms(2, 3) by (auto simp: inText_def)
  obtain r c' where sk: "skipSpaceFront ?ss c = (r, c')" by fastforce
  then obtain k where k: "?ss = k @ r" "c' = c + int (span k)" "r \<noteq> [] \<longrightarrow> \<not> isWhitespaceChar (fst (hd r))"
    using skipSpaceFront_facts by (fastforce simp: span_def)
  have tot: "c + int (span k) + int (span r) = int (length t)" using total k(1) by (simp add: span_def)
  have fwd: "findWordForward ws t c = (case (r, c') of
              ([], c) \<Rightarrow> c
            | ((s, w) # ss, c) \<Rightarrow>
                (if w then
                   (case punctuationAt s of
                      None \<Rightarrow> c + int (length s)
                    | Some i \<Rightarrow> c + int i)
                 else skipOtherFront ((s, w) # ss) c))"
    using assms(2, 3) sk by (simp add: findWordForward_def)
  show ?thesis
  proof (cases r)
    case Nil
    with tot assms(3) k(2) fwd show ?thesis by simp
  next
    case (Cons sw ss)
    obtain s w where sw: "sw = (s, w)" by fastforce
    have mem: "(s, w) \<in> set ?ss" using k(1) Cons sw by simp
    with ne pu have s: "s \<noteq> []" "w \<Longrightarrow> hd s \<notin> PUNCTUATION" by auto
    show ?thesis
    proof (cases w)
      case True
      have "0 < i \<and> i < length s" if "punctuationAt s = Some i" for i
      proof -
        from that have "i < length s" "s ! i \<in> PUNCTUATION" by (auto simp: punctuationAt_def dest: findIndex_Some)
        moreover from this s True have "i \<noteq> 0" by (metis hd_conv_nth)
        ultimately show ?thesis by simp
      qed
      moreover from s(1) obtain x xs where "s = x # xs" by (cases s) auto
      ultimately show ?thesis using True fwd Cons sw tot k(2) by (cases "punctuationAt s") auto
    next
      case False
      from skipOtherFront_facts [of r c'] obtain k' r' where
        k': "r = k' @ r'" "skipOtherFront r c' = c' + int (span k')"
          "r \<noteq> [] \<and> \<not> snd (hd r) \<and> \<not> isWhitespaceChar (fst (hd r)) \<longrightarrow> k' \<noteq> []" by (auto simp: span_def)
      with Cons sw False k(3) have "k' \<noteq> []" by simp
      moreover have "\<forall>(s, w) \<in> set k'. s \<noteq> []" using ne k(1) k'(1) by auto
      ultimately have "0 < span k'" by (rule span_pos [rotated])
      moreover have "span r = span k' + span r'" using k'(1) by simp
      ultimately show ?thesis using False fwd Cons sw tot k(2) k'(2) by simp
    qed
  qed
qed

section \<open>The cursor stays in the text\<close>

definition input_ok :: "input_line \<Rightarrow> bool" where
  "input_ok s \<longleftrightarrow>
     inText (il_value s) (il_cursor s) \<and> (\<forall>(v, c) \<in> set (il_undoStack s). inText v c) \<and>
     (il_lastAction s = Some LA_yank \<longrightarrow>
        il_killRing s \<noteq> [] \<and> suffix (last (il_killRing s)) (take (nat (il_cursor s)) (il_value s)))"

lemma insert_in_text:
  assumes "inText v c"
  shows "inText (take (nat c) v @ t @ drop (nat c) v) (c + int (length t))"
    "suffix t (take (nat (c + int (length t))) (take (nat c) v @ t @ drop (nat c) v))"
proof -
  have n: "nat (c + int (length t)) = nat c + length t" using assms by (simp add: inText_def nat_add_distrib)
  have m: "min (length v) (nat c) = nat c" using assms by (simp add: inText_def min_absorb2 nat_le_iff)
  show "inText (take (nat c) v @ t @ drop (nat c) v) (c + int (length t))"
    using assms by (auto simp: inText_def m)
  show "suffix t (take (nat (c + int (length t))) (take (nat c) v @ t @ drop (nat c) v))"
    by (simp add: n m suffix_def)
qed

lemma pushUndo_ok [simp]: "input_ok s \<Longrightarrow> input_ok (pushUndo s)"
  by (auto simp: input_ok_def pushUndo_def undoPush_def)

lemma pushUndo_sel [simp]:
  "il_value (pushUndo s) = il_value s" "il_cursor (pushUndo s) = il_cursor s" "il_killRing (pushUndo s) = il_killRing s"
  "il_lastAction (pushUndo s) = il_lastAction s" "il_isInPaste (pushUndo s) = il_isInPaste s"
  "il_pasteBuffer (pushUndo s) = il_pasteBuffer s"
  "il_undoStack (pushUndo s) = il_undoStack s @ [(il_value s, il_cursor s)]"
  by (simp_all add: pushUndo_def undoPush_def)

text \<open>What the undo stack holds is enough where the last action is no yank.\<close>

lemma input_okI:
  "inText (il_value s) (il_cursor s) \<Longrightarrow> \<forall>(v, c) \<in> set (il_undoStack s). inText v c \<Longrightarrow>
     il_lastAction s \<noteq> Some LA_yank \<Longrightarrow> input_ok s"
  by (simp add: input_ok_def)

lemma input_okD:
  assumes "input_ok s"
  shows "inText (il_value s) (il_cursor s)" "\<forall>(v, c) \<in> set (il_undoStack s). inText v c"
  using assms by (simp_all add: input_ok_def)

lemma undo_ok: "input_ok s \<Longrightarrow> input_ok (undo s)"
  by (auto simp: undo_def undoPop_def input_ok_def split: option.splits if_splits prod.splits
      dest: in_set_butlastD last_in_set)

lemma insertCharacter_ok:
  assumes "input_ok s"
  shows "input_ok (insertCharacter ch s)"
proof -
  note i = input_okD [OF assms]
  with insert_in_text [OF i(1), of ch] show ?thesis
    by (intro input_okI) (auto simp: insertCharacter_def insertText_def Let_def)
qed

lemma handlePaste_ok:
  assumes "input_ok s"
  shows "input_ok (handlePaste t s)"
proof -
  note i = input_okD [OF assms]
  with insert_in_text [OF i(1), of "cleanPaste t"] show ?thesis
    by (intro input_okI) (auto simp: handlePaste_def insertText_def)
qed

lemma deletions_ok:
  assumes "input_ok s"
  shows "input_ok (deleteToLineStart s)" "input_ok (deleteToLineEnd s)"
  using assms input_okD [OF assms]
  by (auto simp: deleteToLineStart_def deleteToLineEnd_def Let_def intro!: input_okI) (auto simp: inText_def)

lemma yank_ok:
  assumes "input_ok s"
  shows "input_ok (yank s)"
proof -
  note i = input_okD [OF assms]
  with insert_in_text [OF i(1), of "last (il_killRing s)"] assms show ?thesis
    by (auto simp: yank_def killPeek_def insertText_def input_ok_def)
qed

lemma yankPop_ok:
  assumes "input_ok s"
  shows "input_ok (yankPop s)"
proof (cases "il_lastAction s \<noteq> Some LA_yank \<or> length (il_killRing s) \<le> 1")
  case True
  with assms show ?thesis by (simp add: yankPop_def)
next
  case False
  define prev where "prev = last (il_killRing s)"
  define c where "c = il_cursor s - int (length prev)"
  define v where "v = take (nat c) (il_value s) @ drop (nat (il_cursor s)) (il_value s)"
  define t where "t = last (killRotate (il_killRing s))"
  from False assms have suf: "suffix prev (take (nat (il_cursor s)) (il_value s))" by (auto simp: input_ok_def prev_def)
  note i = input_okD [OF assms]
  have c: "inText (il_value s) c" "nat c = nat (il_cursor s) - length prev"
    using suffix_length_le [OF suf] i(1) by (auto simp: c_def inText_def)
  then have vc: "inText v c" "take (nat c) v = take (nat c) (il_value s)" "drop (nat c) v = drop (nat (il_cursor s)) (il_value s)"
    by (auto simp: v_def inText_def)
  have "killRotate (il_killRing s) \<noteq> []" "il_killRing s \<noteq> []" using False by (auto simp: killRotate_def)
  then have "yankPop s = (pushUndo s)\<lparr>il_value := take (nat c) v @ t @ drop (nat c) v, il_cursor := c + int (length t),
      il_killRing := killRotate (il_killRing s), il_lastAction := Some LA_yank\<rparr>"
    using False i(1) c(1) vc
    by (simp add: yankPop_def Let_def insertText_def killPeek_def flip: prev_def)
      (simp add: t_def v_def c_def prev_def)
  with insert_in_text [OF vc(1), of t] i \<open>killRotate (il_killRing s) \<noteq> []\<close> show ?thesis
    by (auto simp: input_ok_def t_def)
qed

definition ports_ok :: "input_ports \<Rightarrow> bool" where
  "ports_ok P \<longleftrightarrow> cutsText (ip_graphemes P) \<and> cutsWords (ip_words P)"

lemma backspace_ok:
  assumes "ports_ok P" "input_ok s"
  shows "input_ok (handleBackspace P s)"
proof (cases "il_cursor s > 0")
  case True
  note i = input_okD [OF assms(2)]
  let ?t = "take (nat (il_cursor s)) (il_value s)"
  from True i(1) have "?t \<noteq> []" by (auto simp: inText_def)
  with cutsText_pieces [of "ip_graphemes P" ?t] assms(1)
  have g: "ip_graphemes P ?t \<noteq> []" "0 < length (last (ip_graphemes P ?t))" "length (last (ip_graphemes P ?t)) \<le> length ?t"
    by (auto simp: ports_ok_def)
  let ?c = "il_cursor s - int (length (last (ip_graphemes P ?t)))"
  from g i(1) have c: "inText (il_value s) ?c" by (auto simp: inText_def)
  have "handleBackspace P s = (pushUndo (s\<lparr>il_lastAction := None\<rparr>))\<lparr>
      il_value := take (nat ?c) (il_value s) @ drop (nat (il_cursor s)) (il_value s), il_cursor := ?c\<rparr>"
    using True i(1) c g by (simp add: handleBackspace_def Let_def)
  moreover have "inText (take (nat ?c) (il_value s) @ drop (nat (il_cursor s)) (il_value s)) ?c"
    using c i(1) by (auto simp: inText_def)
  ultimately show ?thesis using i by (intro input_okI) auto
next
  case False
  with input_okD [OF assms(2)] show ?thesis by (intro input_okI) (auto simp: handleBackspace_def)
qed

lemma forward_delete_ok:
  assumes "ports_ok P" "input_ok s"
  shows "input_ok (handleForwardDelete P s)"
proof (cases "il_cursor s < int (length (il_value s))")
  case True
  note i = input_okD [OF assms(2)]
  let ?t = "drop (nat (il_cursor s)) (il_value s)"
  from True i(1) have "?t \<noteq> []" by (auto simp: inText_def)
  with cutsText_pieces [of "ip_graphemes P" ?t] assms(1)
  have g: "ip_graphemes P ?t \<noteq> []" "length (hd (ip_graphemes P ?t)) \<le> length ?t"
    by (auto simp: ports_ok_def)
  let ?c = "il_cursor s + int (length (hd (ip_graphemes P ?t)))"
  from g i(1) have c: "inText (il_value s) ?c" by (auto simp: inText_def)
  have "handleForwardDelete P s = (pushUndo (s\<lparr>il_lastAction := None\<rparr>))\<lparr>
      il_value := take (nat (il_cursor s)) (il_value s) @ drop (nat ?c) (il_value s)\<rparr>"
    using True i(1) c g by (simp add: handleForwardDelete_def Let_def)
  moreover have "inText (take (nat (il_cursor s)) (il_value s) @ drop (nat ?c) (il_value s)) (il_cursor s)"
    using c i(1) by (auto simp: inText_def)
  ultimately show ?thesis using i by (intro input_okI) auto
next
  case False
  with input_okD [OF assms(2)] show ?thesis by (intro input_okI) (auto simp: handleForwardDelete_def)
qed

lemma word_positions:
  assumes "ports_ok P" "inText (il_value s) (il_cursor s)"
  shows "il_cursor s \<noteq> 0 \<Longrightarrow> inText (il_value s) (il_cursor (moveWordBackwards P s)) \<and> il_cursor (moveWordBackwards P s) < il_cursor s"
    and "il_cursor s < int (length (il_value s)) \<Longrightarrow>
      inText (il_value s) (il_cursor (moveWordForwards P s)) \<and> il_cursor s < il_cursor (moveWordForwards P s)"
  using findWordBackward_range [of "ip_words P" "il_value s" "il_cursor s"]
    findWordForward_range [of "ip_words P" "il_value s" "il_cursor s"] assms
  by (auto simp: moveWordBackwards_def moveWordForwards_def ports_ok_def inText_def)

lemma word_moves_ok:
  assumes "ports_ok P" "input_ok s"
  shows "input_ok (moveWordBackwards P s)" "input_ok (moveWordForwards P s)"
  using word_positions [OF assms(1) input_okD(1) [OF assms(2)]] assms(2)
  by (auto simp: moveWordBackwards_def moveWordForwards_def input_ok_def)

text \<open>The deletion of a word, with the positions it is between.\<close>

lemma deleteWordBackwards_cases:
  assumes "ports_ok P" "inText (il_value s) (il_cursor s)" "il_cursor s \<noteq> 0"
  obtains c where "inText (il_value s) c" "c < il_cursor s"
    "deleteWordBackwards P s = (pushUndo s)\<lparr>
       il_killRing := killPush (take (nat (il_cursor s) - nat c) (drop (nat c) (il_value s))) True (il_lastAction s = Some LA_kill) (il_killRing s),
       il_lastAction := Some LA_kill, il_value := take (nat c) (il_value s) @ drop (nat (il_cursor s)) (il_value s), il_cursor := c\<rparr>"
  using word_positions(1) [OF assms(1), of "pushUndo s"] assms
  by (auto simp: deleteWordBackwards_def Let_def)

lemma deleteWordForward_cases:
  assumes "ports_ok P" "inText (il_value s) (il_cursor s)" "il_cursor s < int (length (il_value s))"
  obtains c where "inText (il_value s) c" "il_cursor s < c"
    "deleteWordForward P s = (pushUndo s)\<lparr>
       il_killRing := killPush (take (nat c - nat (il_cursor s)) (drop (nat (il_cursor s)) (il_value s))) False (il_lastAction s = Some LA_kill) (il_killRing s),
       il_lastAction := Some LA_kill, il_value := take (nat (il_cursor s)) (il_value s) @ drop (nat c) (il_value s)\<rparr>"
  using word_positions(2) [OF assms(1), of "pushUndo s"] assms
  by (auto simp: deleteWordForward_def Let_def)

lemma delete_words_ok:
  assumes "ports_ok P" "input_ok s"
  shows "input_ok (deleteWordBackwards P s)" "input_ok (deleteWordForward P s)"
proof -
  note i = input_okD [OF assms(2)]
  show "input_ok (deleteWordBackwards P s)"
  proof (cases "il_cursor s = 0")
    case True
    with assms(2) show ?thesis by (simp add: deleteWordBackwards_def)
  next
    case False
    show ?thesis
      by (rule deleteWordBackwards_cases [OF assms(1) i(1) False], rule input_okI)
        (use i in \<open>auto simp: inText_def\<close>)
  qed
  show "input_ok (deleteWordForward P s)"
  proof (cases "il_cursor s < int (length (il_value s))")
    case False
    with assms(2) show ?thesis by (simp add: deleteWordForward_def)
  next
    case True
    show ?thesis
      by (rule deleteWordForward_cases [OF assms(1) i(1) True], rule input_okI)
        (use i in \<open>auto simp: inText_def\<close>)
  qed
qed

lemma cursor_moves_ok:
  assumes "ports_ok P" "input_ok s"
  shows "input_ok (cursorLeft P s)" "input_ok (cursorRight P s)"
proof -
  note i = input_okD [OF assms(2)]
  have g: "cutsText (ip_graphemes P)" using assms(1) by (simp add: ports_ok_def)
  show "input_ok (cursorLeft P s)"
  proof (cases "il_cursor s > 0")
    case True
    with i(1) have "take (nat (il_cursor s)) (il_value s) \<noteq> []" by (auto simp: inText_def)
    from cutsText_pieces [OF g this] True i show ?thesis
      by (intro input_okI) (auto simp: cursorLeft_def Let_def inText_def)
  qed (use i in \<open>auto intro!: input_okI simp: cursorLeft_def\<close>)
  show "input_ok (cursorRight P s)"
  proof (cases "il_cursor s < int (length (il_value s))")
    case True
    with i(1) have "drop (nat (il_cursor s)) (il_value s) \<noteq> []" by (auto simp: inText_def)
    from cutsText_pieces [OF g this] True i show ?thesis
      by (intro input_okI) (auto simp: cursorRight_def Let_def inText_def)
  qed (use i in \<open>auto intro!: input_okI simp: cursorRight_def\<close>)
qed

lemma handleKey_ok:
  assumes "ports_ok P" "input_ok s"
  shows "input_ok (fst (handleKey P d s))"
proof -
  have "input_ok (s\<lparr>il_lastAction := None, il_cursor := 0\<rparr>)"
    "input_ok (s\<lparr>il_lastAction := None, il_cursor := int (length (il_value s))\<rparr>)"
    using input_okD [OF assms(2)] by (auto intro!: input_okI simp: inText_def)
  then show ?thesis
    unfolding handleKey_def
    by (intro if_split [where P = "\<lambda>r. input_ok (fst r)", THEN iffD2] conjI impI)
      (use assms in \<open>simp_all add: undo_ok backspace_ok forward_delete_ok delete_words_ok deletions_ok yank_ok yankPop_ok
        cursor_moves_ok word_moves_ok insertCharacter_ok split: option.split\<close>)
qed

lemma inputOnce_ok:
  assumes "ports_ok P" "input_ok s" "inputOnce P d s = (s1, ev, rest)"
  shows "input_ok s1"
proof -
  have paste: "input_ok (s0\<lparr>il_isInPaste := b\<rparr>) = input_ok s0"
    "input_ok (s0\<lparr>il_pasteBuffer := pb\<rparr>) = input_ok s0" for s0 b pb
    by (simp_all add: input_ok_def)
  define starts where "starts = includesStr d BRACKETED_PASTE_START"
  define d' where "d' = (if starts then removeFirst BRACKETED_PASTE_START d else d)"
  define s' where "s' = (if starts then s\<lparr>il_isInPaste := True, il_pasteBuffer := []\<rparr> else s)"
  have ok: "input_ok s'" using assms(2) by (simp add: s'_def paste)
  note once = assms(3) [unfolded inputOnce_def Let_def, folded starts_def, folded d'_def s'_def]
  show ?thesis
  proof (cases "il_isInPaste s'")
    case True
    define s2 where "s2 = s'\<lparr>il_pasteBuffer := il_pasteBuffer s' @ d'\<rparr>"
    from ok have "input_ok s2" by (simp add: s2_def paste)
    with handlePaste_ok [of s2] once True show ?thesis
      by (cases "indexOf (il_pasteBuffer s' @ d') BRACKETED_PASTE_END") (auto simp: paste s2_def)
  next
    case False
    with handleKey_ok [OF assms(1) ok, of d'] once show ?thesis by (cases "handleKey P d' s'") simp
  qed
qed

lemma handleInput_ok: "ports_ok P \<Longrightarrow> input_ok s \<Longrightarrow> input_ok (fst (handleInput P d s))"
proof (induction P d s rule: handleInput.induct)
  case (1 P d s)
  obtain s1 ev rest where once: "inputOnce P d s = (s1, ev, rest)" by (metis prod.exhaust)
  with 1 inputOnce_ok show ?case by (subst handleInput.simps) (auto split: prod.splits)
qed

text \<open>The states that input leads to.\<close>

inductive input_reach :: "input_ports \<Rightarrow> input_line \<Rightarrow> bool" for P where
  input_start: "input_reach P newInput"
| input_step: "input_reach P s \<Longrightarrow> input_reach P (fst (handleInput P d s))"


text \<open>A segmentation by code units.\<close>

definition unitPorts :: "(jstr \<Rightarrow> input_key \<Rightarrow> bool) \<Rightarrow> input_ports" where
  "unitPorts keys =
     \<lparr>ip_matches = keys, ip_graphemes = map (\<lambda>c. [c]), ip_words = map (\<lambda>c. ([c], c \<notin> PUNCTUATION \<and> \<not> isSpace c))\<rparr>"

lemma unitPorts_cut: "cutsText (ip_graphemes (unitPorts keys)) \<and> cutsWords (ip_words (unitPorts keys))"
proof -
  have "concat (map (\<lambda>c. [c]) t) = t" for t :: jstr by (induction t) simp_all
  then show ?thesis by (auto simp: unitPorts_def cutsText_def cutsWords_def comp_def image_iff)
qed


section \<open>Kills and yanks\<close>

datatype kill = Kill_lineStart | Kill_lineEnd | Kill_wordBackwards | Kill_wordForward

fun killOnce :: "input_ports \<Rightarrow> kill \<Rightarrow> input_line \<Rightarrow> input_line" where
  "killOnce P Kill_lineStart s = deleteToLineStart s"
| "killOnce P Kill_lineEnd s = deleteToLineEnd s"
| "killOnce P Kill_wordBackwards s = deleteWordBackwards P s"
| "killOnce P Kill_wordForward s = deleteWordForward P s"

text \<open>The original text is the text with the newest entry of the ring at the cursor.\<close>

definition killed :: "jstr \<Rightarrow> input_line \<Rightarrow> bool" where
  "killed v s \<longleftrightarrow>
     inText (il_value s) (il_cursor s) \<and>
     (if il_lastAction s = Some LA_kill
      then il_killRing s \<noteq> [] \<and> last (il_killRing s) \<noteq> [] \<and>
        v = take (nat (il_cursor s)) (il_value s) @ last (il_killRing s) @ drop (nat (il_cursor s)) (il_value s)
      else v = il_value s)"

lemma killPush_last:
  "t \<noteq> [] \<Longrightarrow> acc \<longrightarrow> ring \<noteq> [] \<Longrightarrow> killPush t pre acc ring \<noteq> [] \<and>
     last (killPush t pre acc ring) = (if acc then if pre then t @ last ring else last ring @ t else t)"
  by (simp add: killPush_def)

text \<open>A text that is taken out between two positions, one of them the cursor.\<close>

lemma killed_back:
  assumes "killed v s" "inText (il_value s) c" "c < il_cursor s"
    and "s' = (pushUndo s)\<lparr>il_killRing := killPush (take (nat (il_cursor s) - nat c) (drop (nat c) (il_value s))) True (il_lastAction s = Some LA_kill) (il_killRing s),
       il_lastAction := Some LA_kill, il_value := take (nat c) (il_value s) @ drop (nat (il_cursor s)) (il_value s), il_cursor := c\<rparr>"
  shows "killed v s'"
proof -
  let ?t = "take (nat (il_cursor s) - nat c) (drop (nat c) (il_value s))"
  have n: "nat c < nat (il_cursor s)" "nat (il_cursor s) \<le> length (il_value s)" "nat c \<le> length (il_value s)"
    using assms by (auto simp: killed_def inText_def)
  have t: "?t \<noteq> []" using n by auto
  have "take (nat (il_cursor s)) (il_value s) = take (nat c) (il_value s) @ ?t"
    using n by (metis le_add_diff_inverse less_imp_le take_add)
  moreover from this have "il_value s = take (nat c) (il_value s) @ ?t @ drop (nat (il_cursor s)) (il_value s)"
    by (metis append.assoc append_take_drop_id)
  ultimately show ?thesis
    using killPush_last [OF t, of "il_lastAction s = Some LA_kill" "il_killRing s" True] assms n t
    by (auto simp: killed_def inText_def split: if_splits)
qed

lemma killed_on:
  assumes "killed v s" "inText (il_value s) c" "il_cursor s < c"
    and "s' = (pushUndo s)\<lparr>il_killRing := killPush (take (nat c - nat (il_cursor s)) (drop (nat (il_cursor s)) (il_value s))) False (il_lastAction s = Some LA_kill) (il_killRing s),
       il_lastAction := Some LA_kill, il_value := take (nat (il_cursor s)) (il_value s) @ drop (nat c) (il_value s)\<rparr>"
  shows "killed v s'"
proof -
  let ?t = "take (nat c - nat (il_cursor s)) (drop (nat (il_cursor s)) (il_value s))"
  have n: "nat (il_cursor s) < nat c" "nat (il_cursor s) \<le> length (il_value s)" "nat c \<le> length (il_value s)"
    using assms by (auto simp: killed_def inText_def)
  have t: "?t \<noteq> []" using n by auto
  have "drop (nat (il_cursor s)) (il_value s) = ?t @ drop (nat c) (il_value s)"
    using n by (metis append_take_drop_id drop_drop le_add_diff_inverse2 less_imp_le)
  with killPush_last [OF t, of "il_lastAction s = Some LA_kill" "il_killRing s" False] assms n t
  show ?thesis by (auto simp: killed_def inText_def split: if_splits)
qed

lemma killOnce_killed:
  assumes "ports_ok P" "killed v s"
  shows "killed v (killOnce P k s)"
proof -
  have i: "inText (il_value s) (il_cursor s)" using assms(2) by (simp add: killed_def)
  show ?thesis
  proof (cases k)
    case Kill_lineStart
    show ?thesis
    proof (cases "il_cursor s = 0")
      case False
      with i have z: "inText (il_value s) 0" "0 < il_cursor s" by (auto simp: inText_def)
      from False i Kill_lineStart show ?thesis
        by (intro killed_back [OF assms(2) z]) (auto simp: deleteToLineStart_def Let_def)
    qed (use assms(2) Kill_lineStart in \<open>simp add: deleteToLineStart_def\<close>)
  next
    case Kill_lineEnd
    show ?thesis
    proof (cases "il_cursor s < int (length (il_value s))")
      case True
      have e: "inText (il_value s) (int (length (il_value s)))" by (simp add: inText_def)
      from True i Kill_lineEnd show ?thesis
        by (intro killed_on [OF assms(2) e]) (auto simp: deleteToLineEnd_def Let_def)
    qed (use assms(2) Kill_lineEnd in \<open>simp add: deleteToLineEnd_def\<close>)
  next
    case Kill_wordBackwards
    show ?thesis
    proof (cases "il_cursor s = 0")
      case False
      obtain c where "inText (il_value s) c" "c < il_cursor s" and
        d: "deleteWordBackwards P s = (pushUndo s)\<lparr>
       il_killRing := killPush (take (nat (il_cursor s) - nat c) (drop (nat c) (il_value s))) True (il_lastAction s = Some LA_kill) (il_killRing s),
       il_lastAction := Some LA_kill, il_value := take (nat c) (il_value s) @ drop (nat (il_cursor s)) (il_value s), il_cursor := c\<rparr>"
        by (rule deleteWordBackwards_cases [OF assms(1) i False])
      with Kill_wordBackwards show ?thesis by (intro killed_back [OF assms(2)]) simp_all
    qed (use assms(2) Kill_wordBackwards in \<open>simp add: deleteWordBackwards_def\<close>)
  next
    case Kill_wordForward
    show ?thesis
    proof (cases "il_cursor s < int (length (il_value s))")
      case True
      obtain c where "inText (il_value s) c" "il_cursor s < c" and
        d: "deleteWordForward P s = (pushUndo s)\<lparr>
       il_killRing := killPush (take (nat c - nat (il_cursor s)) (drop (nat (il_cursor s)) (il_value s))) False (il_lastAction s = Some LA_kill) (il_killRing s),
       il_lastAction := Some LA_kill, il_value := take (nat (il_cursor s)) (il_value s) @ drop (nat c) (il_value s)\<rparr>"
        by (rule deleteWordForward_cases [OF assms(1) i True])
      with Kill_wordForward show ?thesis by (intro killed_on [OF assms(2)]) simp_all
    qed (use assms(2) Kill_wordForward in \<open>simp add: deleteWordForward_def\<close>)
  qed
qed

lemma yank_killed: "killed v s \<Longrightarrow> il_lastAction s = Some LA_kill \<Longrightarrow> il_value (yank s) = v"
  by (auto simp: killed_def yank_def killPeek_def insertText_def truthyStr_def)

text \<open>Whatever is killed in a row, by words or to the ends of the line, in both directions, comes back
  with one yank: the text is what it was before the first kill.\<close>

theorem kills_come_back:
  assumes "cutsText (ip_graphemes P)" "cutsWords (ip_words P)"
    and "0 \<le> il_cursor s" "il_cursor s \<le> int (length (il_value s))" "il_lastAction s \<noteq> Some LA_kill"
    and "il_value (fold (killOnce P) ks s) \<noteq> il_value s"
  shows "il_value (yank (fold (killOnce P) ks s)) = il_value s"
proof -
  have P: "ports_ok P" using assms(1, 2) by (simp add: ports_ok_def)
  have "killed v s \<Longrightarrow> killed v (fold (killOnce P) ks s)" for v
    using killOnce_killed [OF P] by (induction ks arbitrary: s) simp_all
  moreover have "killed (il_value s) s" using assms(3-5) by (simp add: killed_def inText_def)
  ultimately have k: "killed (il_value s) (fold (killOnce P) ks s)" by blast
  with assms(6) have "il_lastAction (fold (killOnce P) ks s) = Some LA_kill" by (auto simp: killed_def split: if_splits)
  with k show ?thesis by (rule yank_killed)
qed

definition sampleInput :: input_line where
  "sampleInput = newInput\<lparr>il_value := js ''ab'', il_cursor := 1\<rparr>"

lemma kills_come_back_witness:
  "il_value (yank (fold (killOnce (unitPorts (\<lambda>d k. False))) [Kill_lineStart, Kill_lineEnd] sampleInput)) = il_value sampleInput"
  by (rule kills_come_back)
    (use unitPorts_cut in \<open>auto simp: sampleInput_def newInput_def deleteToLineStart_def deleteToLineEnd_def inText_def js_def\<close>)

section \<open>Undo\<close>

text \<open>An edit that changes the text is undone by one undo, to the text and the position before it, and so is a
  word that was typed without a blank, as a whole.\<close>

theorem edits_are_undone:
  assumes "f \<in> set [handleBackspace P, handleForwardDelete P, deleteToLineStart, deleteToLineEnd, deleteWordBackwards P,
      deleteWordForward P, yank, yankPop, handlePaste t,
      fold insertCharacter ws \<circ> (\<lambda>s. s\<lparr>il_lastAction := None\<rparr>)]"
    and "list_all (\<lambda>w. \<not> isWhitespaceChar w) ws" "il_value (f s) \<noteq> il_value s"
  shows "il_value (undo (f s)) = il_value s \<and> il_cursor (undo (f s)) = il_cursor s"
proof -
  have typed: "il_undoStack (fold insertCharacter ws s1) = il_undoStack s1"
    if "il_lastAction s1 = Some LA_type_word" "list_all (\<lambda>w. \<not> isWhitespaceChar w) ws" for ws s1
    using that by (induction ws arbitrary: s1) (simp_all add: insertCharacter_def insertText_def)
  have word: "il_undoStack (fold insertCharacter ws (s\<lparr>il_lastAction := None\<rparr>)) = il_undoStack s @ [(il_value s, il_cursor s)]"
    if "ws \<noteq> []"
  proof -
    from that obtain w vs where ws: "ws = w # vs" by (cases ws) auto
    let ?s1 = "insertCharacter w (s\<lparr>il_lastAction := None\<rparr>)"
    have "il_lastAction ?s1 = Some LA_type_word" "il_undoStack ?s1 = il_undoStack s @ [(il_value s, il_cursor s)]"
      by (simp_all add: insertCharacter_def insertText_def Let_def)
    with typed [of ?s1 vs] assms(2) ws show ?thesis by simp
  qed
  have "il_undoStack (f s) = il_undoStack s @ [(il_value s, il_cursor s)]"
    using assms(1, 3) word
    by (cases "ws = []")
      (auto simp: handleBackspace_def handleForwardDelete_def deleteToLineStart_def deleteToLineEnd_def Let_def
        deleteWordBackwards_def deleteWordForward_def yank_def yankPop_def handlePaste_def insertText_def split: if_splits)
  then show ?thesis by (simp add: undo_def undoPop_def)
qed

lemma edits_are_undone_witness:
  "il_value (undo (deleteToLineStart sampleInput)) = il_value sampleInput \<and>
   il_cursor (undo (deleteToLineStart sampleInput)) = il_cursor sampleInput"
proof (rule edits_are_undone [where ws = "[]" and P = "unitPorts (\<lambda>d k. False)" and t = "[]"])
  show "il_value (deleteToLineStart sampleInput) \<noteq> il_value sampleInput"
    by (simp add: sampleInput_def newInput_def deleteToLineStart_def inText_def js_def)
qed simp_all

section \<open>A text that is set\<close>

text \<open>Setting the value of an input keeps its last action: a yank-pop after it takes the yanked text, which is gone,
  off again, and the cursor ends up before the start of the text.\<close>

theorem yank_pop_after_setValue:
  "il_cursor (yankPop (setValue [] (yank (deleteToLineStart (insertCharacter (js ''bcd'')
     (deleteToLineStart (insertCharacter (js ''a'') newInput))))))) = -2"
  by code_simp

end
