(* ===== verification/Fuzzy.thy ===== *)
theory Fuzzy
  imports Prelude "HOL-Library.Multiset"
begin

text \<open>
  The fuzzy search of the terminal's lists, packages/tui/src/fuzzy.ts. Scores are integers, in tenths of the
  source's, which adds a tenth of the position of every match; the source's sums are floating point,
  so items of equal score may come in another order there. Lower case is a parameter.

  A query matches exactly the texts that have its characters in order, or with its letters and digits
  swapped, and the filter gives every item that all words of the query match, best first.
\<close>

section \<open>Matching\<close>

definition isBoundaryChar :: "jchar \<Rightarrow> bool" where
  "isBoundaryChar c \<longleftrightarrow> isSpace c \<or> c \<in> set (js ''-_./:'')"

text \<open>The loop over the text from index \<open>i\<close>, with the character before it and what is left of the query.\<close>

fun matchLoop :: "jstr \<Rightarrow> int \<Rightarrow> jchar option \<Rightarrow> jstr \<Rightarrow> int \<Rightarrow> int \<Rightarrow> int \<Rightarrow> jstr \<times> int" where
  "matchLoop (c # cs) i previous (q # qs) lastMatchIndex consecutiveMatches score =
     (if c = q then
        (let isWordBoundary = (case previous of None \<Rightarrow> True | Some p \<Rightarrow> isBoundaryChar p);
             (consecutive, score1) =
               (if lastMatchIndex = i - 1 then (consecutiveMatches + 1, score - (consecutiveMatches + 1) * 50)
                else (0, if lastMatchIndex \<ge> 0 then score + (i - lastMatchIndex - 1) * 20 else score));
             score2 = (if isWordBoundary then score1 - 100 else score1)
         in matchLoop cs (i + 1) (Some c) qs i consecutive (score2 + i))
      else matchLoop cs (i + 1) (Some c) (q # qs) lastMatchIndex consecutiveMatches score)"
| "matchLoop cs i previous qs lastMatchIndex consecutiveMatches score = (qs, score)"

text \<open>A score where the query matches.\<close>

definition matchQuery :: "jstr \<Rightarrow> jstr \<Rightarrow> int option" where
  "matchQuery textLower normalizedQuery =
     (if normalizedQuery = [] then Some 0
      else if length normalizedQuery > length textLower then None
      else (case matchLoop textLower 0 None normalizedQuery (-1) 0 0 of
              (left, score) \<Rightarrow>
                (if left \<noteq> [] then None
                 else Some (if normalizedQuery = textLower then score - 1000 else score))))"

definition isLowerLetter :: "jchar \<Rightarrow> bool" where
  "isLowerLetter c \<longleftrightarrow> 97 \<le> c \<and> c \<le> 122"

definition isDigitChar :: "jchar \<Rightarrow> bool" where
  "isDigitChar c \<longleftrightarrow> 48 \<le> c \<and> c \<le> 57"

text \<open>\<open>/^([a-z]+)([0-9]+)$/\<close> and its mirror: a text of one kind of characters and then of another.\<close>

definition twoRuns :: "(jchar \<Rightarrow> bool) \<Rightarrow> (jchar \<Rightarrow> bool) \<Rightarrow> jstr \<Rightarrow> (jstr \<times> jstr) option" where
  "twoRuns A B s =
     (let a = takeWhile A s; b = dropWhile A s
      in if a \<noteq> [] \<and> b \<noteq> [] \<and> list_all B b then Some (a, b) else None)"

definition swappedQuery :: "jstr \<Rightarrow> jstr" where
  "swappedQuery queryLower =
     (case twoRuns isLowerLetter isDigitChar queryLower of
        Some (letters, digits) \<Rightarrow> digits @ letters
      | None \<Rightarrow>
          (case twoRuns isDigitChar isLowerLetter queryLower of
             Some (digits, letters) \<Rightarrow> letters @ digits
           | None \<Rightarrow> []))"

definition fuzzyMatch :: "(jstr \<Rightarrow> jstr) \<Rightarrow> jstr \<Rightarrow> jstr \<Rightarrow> int option" where
  "fuzzyMatch lower query t =
     (let queryLower = lower query; textLower = lower t
      in case matchQuery textLower queryLower of
           Some score \<Rightarrow> Some score
         | None \<Rightarrow>
             (if swappedQuery queryLower = [] then None
              else (case matchQuery textLower (swappedQuery queryLower) of
                      None \<Rightarrow> None
                    | Some score \<Rightarrow> Some (score + 50))))"

section \<open>Filtering\<close>

text \<open>\<open>split(/[\s/]+/)\<close> without the empty pieces.\<close>

fun piecesWhere :: "(jchar \<Rightarrow> bool) \<Rightarrow> jstr \<Rightarrow> jstr list" where
  "piecesWhere sep [] = [[]]"
| "piecesWhere sep (c # cs) =
     (if sep c then [] # piecesWhere sep cs
      else (case piecesWhere sep cs of [] \<Rightarrow> [[c]] | p # ps \<Rightarrow> (c # p) # ps))"

definition queryTokens :: "jstr \<Rightarrow> jstr list" where
  "queryTokens query = filter (\<lambda>t. t \<noteq> []) (piecesWhere (\<lambda>c. isSpace c \<or> c = 47) (trim query))"

fun totalScore :: "(jstr \<Rightarrow> jstr) \<Rightarrow> jstr list \<Rightarrow> jstr \<Rightarrow> int \<Rightarrow> int option" where
  "totalScore lower [] t score = Some score"
| "totalScore lower (token # tokens) t score =
     (case fuzzyMatch lower token t of
        None \<Rightarrow> None
      | Some m \<Rightarrow> totalScore lower tokens t (score + m))"

definition fuzzyFilter :: "(jstr \<Rightarrow> jstr) \<Rightarrow> 'a list \<Rightarrow> jstr \<Rightarrow> ('a \<Rightarrow> jstr) \<Rightarrow> 'a list" where
  "fuzzyFilter lower items query getText =
     (if trim query = [] then items
      else if queryTokens query = [] then items
      else map fst (sort_key snd (List.map_filter (\<lambda>x.
             map_option (\<lambda>s. (x, s)) (totalScore lower (queryTokens query) (getText x) 0)) items)))"

section \<open>What matches\<close>

lemma matchLoop_left:
  "fst (matchLoop cs i previous qs l k score) = [] \<longleftrightarrow> subseq qs cs"
  by (induction cs i previous qs l k score rule: matchLoop.induct) (auto simp: Let_def split: prod.splits)

lemma matchQuery_iff: "matchQuery t q \<noteq> None \<longleftrightarrow> subseq q t"
proof -
  have "length q > length t \<Longrightarrow> \<not> subseq q t" using list_emb_length [of "(=)" q t] by auto
  moreover have "fst (matchLoop t 0 None q (-1) 0 0) = [] \<longleftrightarrow> subseq q t" by (rule matchLoop_left)
  ultimately show ?thesis by (auto simp: matchQuery_def split: prod.splits)
qed

text \<open>A query matches a text exactly when its characters occur in the text in their order, in lower case, or
  when a query of letters and digits does so with the two runs swapped.\<close>

theorem fuzzy_match_is_subsequence:
  "fuzzyMatch lower query t \<noteq> None \<longleftrightarrow>
     subseq (lower query) (lower t) \<or>
     swappedQuery (lower query) \<noteq> [] \<and> subseq (swappedQuery (lower query)) (lower t)"
  using matchQuery_iff [of "lower t"] by (auto simp: fuzzyMatch_def Let_def split: option.splits) (metis option.distinct(1))+

lemma totalScore_iff: "totalScore lower tokens t s \<noteq> None \<longleftrightarrow> (\<forall>k \<in> set tokens. fuzzyMatch lower k t \<noteq> None)"
  by (induction tokens arbitrary: s) (auto split: option.splits)

lemma map_filter_pairs:
  "map fst (List.map_filter (\<lambda>x. map_option (\<lambda>s. (x, s)) (f x)) xs) = filter (\<lambda>x. f x \<noteq> None) xs"
  by (induction xs) (auto simp: List.map_filter_def)

lemma map_filter_score:
  "(x, s) \<in> set (List.map_filter (\<lambda>x. map_option (\<lambda>s. (x, s)) (f x)) xs) \<Longrightarrow> f x = Some s"
  by (auto simp: List.map_filter_def)

text \<open>The filter gives, as often as they occur, exactly the items whose text every word of the query matches,
  in the order of their scores, and every item for a query without a word.\<close>

theorem filter_finds_all_in_order:
  "(if queryTokens query = [] then fuzzyFilter lower items query getText = items
    else mset (fuzzyFilter lower items query getText) =
        mset (filter (\<lambda>x. list_all (\<lambda>k. fuzzyMatch lower k (getText x) \<noteq> None) (queryTokens query)) items) \<and>
      sorted (map (\<lambda>x. the (totalScore lower (queryTokens query) (getText x) 0)) (fuzzyFilter lower items query getText)))"
proof (cases "queryTokens query = []")
  case True
  then show ?thesis by (simp add: fuzzyFilter_def)
next
  case False
  then have "trim query \<noteq> []" by (auto simp: queryTokens_def)
  let ?f = "\<lambda>x. totalScore lower (queryTokens query) (getText x) 0"
  let ?ps = "List.map_filter (\<lambda>x. map_option (\<lambda>s. (x, s)) (?f x)) items"
  from False \<open>trim query \<noteq> []\<close> have e: "fuzzyFilter lower items query getText = map fst (sort_key snd ?ps)"
    by (simp add: fuzzyFilter_def)
  have "mset (map fst (sort_key snd ?ps)) = mset (map fst ?ps)" by (simp add: mset_map)
  also have "\<dots> = mset (filter (\<lambda>x. ?f x \<noteq> None) items)" by (simp only: map_filter_pairs)
  finally have m: "mset (fuzzyFilter lower items query getText) = mset (filter (\<lambda>x. ?f x \<noteq> None) items)"
    by (simp only: e)
  have "the (?f (fst p)) = snd p" if "p \<in> set (sort_key snd ?ps)" for p
  proof -
    from that have "(fst p, snd p) \<in> set ?ps" by simp
    from map_filter_score [OF this] show ?thesis by simp
  qed
  then have "map (\<lambda>x. the (?f x)) (map fst (sort_key snd ?ps)) = map snd (sort_key snd ?ps)"
    unfolding map_map comp_def by (intro map_cong refl)
  then have "sorted (map (\<lambda>x. the (?f x)) (fuzzyFilter lower items query getText))"
    by (simp only: e sorted_sort_key)
  with m False show ?thesis by (simp add: totalScore_iff list_all_iff del: not_None_eq)
qed

end
