(* ===== verification/CodingSession.thy ===== *)
theory CodingSession
  imports SessionTypes "HOL-Library.AList"
begin

text \<open>
  The sessions of the coding agent, the functions of packages/coding-agent/src/core/session-manager.ts
  on entries: migration of old files, the path to a leaf, and the context that the model gets.

  Files are read without validation. So an id may be absent, a message may have no content and may
  have the role \<open>hookMessage\<close> of older versions. \<open>JSON.parse\<close> of a line and \<open>JSON.stringify\<close> are
  parameters, with the class as it knows its objects: a line gives an entry, or nothing.
\<close>

section \<open>Entries\<close>

text \<open>An id, or \<open>null\<close>, or \<open>undefined\<close>.\<close>

datatype sid = IdUndefined | IdNull | Id jstr

fun truthyId :: "sid \<Rightarrow> bool" where
  "truthyId (Id i) \<longleftrightarrow> i \<noteq> []"
| "truthyId _ \<longleftrightarrow> False"

text \<open>A message whose content is \<open>null\<close> (\<open>True\<close>) or absent; one with the role of old versions.\<close>

datatype raw_message = Known agent_message | NoContent bool agent_message | HookRole custom_message

record sm_compaction =
  sc_summary :: jstr
  sc_firstKeptEntryId :: sid
  sc_firstKeptEntryIndex :: "int option"
  sc_tokensBefore :: int
  sc_details :: "json option"
  sc_usage :: "usage option"
  sc_fromHook :: "bool option"

datatype sm_body =
    SM_message raw_message
  | SM_thinkingLevelChange jstr
  | SM_modelChange jstr jstr
  | SM_compaction sm_compaction
  | SM_branchSummary branch_summary_data
  | SM_custom jstr "json option"
  | SM_customMessage jstr "user_content option" bool "json option"
  | SM_label sid "jstr option"
  | SM_sessionInfo "jstr option"
  | SM_other

record sm_entry =
  se_id :: sid
  se_parentId :: sid
  se_timestamp :: jstr
  se_body :: sm_body

record sm_header =
  hd_version :: "int option"
  hd_id :: "jstr option"
  hd_timestamp :: jstr
  hd_cwd :: "jstr option"
  hd_parentSession :: "jstr option"

datatype file_entry = FHeader sm_header | FEntry sm_entry

definition CURRENT_SESSION_VERSION :: int where "CURRENT_SESSION_VERSION = 3"

fun headerOf :: "file_entry \<Rightarrow> sm_header option" where
  "headerOf (FHeader h) = Some h"
| "headerOf (FEntry _) = None"

fun entryOf :: "file_entry \<Rightarrow> sm_entry option" where
  "entryOf (FHeader _) = None"
| "entryOf (FEntry e) = Some e"

text \<open>The first header and the entries of a file.\<close>

definition findHeader :: "file_entry list \<Rightarrow> sm_header option" where
  "findHeader es = (case List.map_filter headerOf es of [] \<Rightarrow> None | h # _ \<Rightarrow> Some h)"

definition sessionEntries :: "file_entry list \<Rightarrow> sm_entry list" where
  "sessionEntries es = List.map_filter entryOf es"

definition smCompactionOf :: "sm_entry \<Rightarrow> sm_compaction option" where
  "smCompactionOf e = (case se_body e of SM_compaction c \<Rightarrow> Some c | _ \<Rightarrow> None)"

section \<open>Ids\<close>

definition asciiAlnum :: "jchar \<Rightarrow> bool" where
  "asciiAlnum c \<longleftrightarrow> 48 \<le> c \<and> c \<le> 57 \<or> 65 \<le> c \<and> c \<le> 90 \<or> 97 \<le> c \<and> c \<le> 122"

definition validSessionId :: "jstr \<Rightarrow> bool" where
  "validSessionId i \<longleftrightarrow>
     i \<noteq> [] \<and> asciiAlnum (hd i) \<and> asciiAlnum (last i) \<and> list_all (\<lambda>c. asciiAlnum c \<or> c \<in> {46, 95, 45}) i"

text \<open>What the runtime supplies: \<open>randomUUID\<close>, \<open>uuidv7\<close> and the clock, by the number of the call.\<close>

record sm_source =
  sr_randomUUID :: "nat \<Rightarrow> jstr"
  sr_sessionUUID :: "nat \<Rightarrow> jstr"
  sr_clock :: "nat \<Rightarrow> jstr"

fun generateIdFrom :: "nat \<Rightarrow> sm_source \<Rightarrow> (sid \<Rightarrow> bool) \<Rightarrow> nat \<Rightarrow> sid \<times> nat" where
  "generateIdFrom 0 src has n = (Id (sr_randomUUID src n), Suc n)"
| "generateIdFrom (Suc k) src has n =
     (let i = Id (take 8 (sr_randomUUID src n))
      in if \<not> has i then (i, Suc n) else generateIdFrom k src has (Suc n))"

definition generateId :: "sm_source \<Rightarrow> (sid \<Rightarrow> bool) \<Rightarrow> nat \<Rightarrow> sid \<times> nat" where
  "generateId src has n = generateIdFrom 100 src has n"

section \<open>Migration\<close>

text \<open>The entry at an index, where an index out of range gives nothing.\<close>

definition entryAt :: "int \<Rightarrow> file_entry list \<Rightarrow> file_entry option" where
  "entryAt i es = (if 0 \<le> i \<and> nat i < length es then Some (es ! nat i) else None)"

definition convertKept :: "file_entry list \<Rightarrow> sm_entry \<Rightarrow> sm_entry" where
  "convertKept es e =
     (case se_body e of
        SM_compaction c \<Rightarrow>
          (case sc_firstKeptEntryIndex c of
             None \<Rightarrow> e
           | Some i \<Rightarrow>
               (let kept = (case entryAt i es of Some (FEntry t) \<Rightarrow> se_id t | _ \<Rightarrow> sc_firstKeptEntryId c)
                in e\<lparr>se_body := SM_compaction (c\<lparr>sc_firstKeptEntryId := kept, sc_firstKeptEntryIndex := None\<rparr>)\<rparr>))
      | _ \<Rightarrow> e)"

text \<open>The loop over the entries: those before the current one are changed already. The set of ids
  given to \<open>generateId\<close> is empty, since nothing adds to it.\<close>

fun migrateV1From :: "sm_source \<Rightarrow> sid \<Rightarrow> file_entry list \<Rightarrow> file_entry list \<Rightarrow> nat \<Rightarrow> file_entry list \<times> nat" where
  "migrateV1From src prev before [] n = (before, n)"
| "migrateV1From src prev before (FHeader h # rest) n =
     migrateV1From src prev (before @ [FHeader (h\<lparr>hd_version := Some 2\<rparr>)]) rest n"
| "migrateV1From src prev before (FEntry e # rest) n =
     (case generateId src (\<lambda>_. False) n of
        (i, n1) \<Rightarrow>
          (let e1 = e\<lparr>se_id := i, se_parentId := prev\<rparr>
           in migrateV1From src i (before @ [FEntry (convertKept (before @ FEntry e1 # rest) e1)]) rest n1))"

definition migrateV1ToV2 :: "sm_source \<Rightarrow> file_entry list \<Rightarrow> nat \<Rightarrow> file_entry list \<times> nat" where
  "migrateV1ToV2 src es n = migrateV1From src IdNull [] es n"

fun renameHook :: "raw_message \<Rightarrow> raw_message" where
  "renameHook (HookRole m) = Known (Custom m)"
| "renameHook m = m"

fun migrateV2Entry :: "file_entry \<Rightarrow> file_entry" where
  "migrateV2Entry (FHeader h) = FHeader (h\<lparr>hd_version := Some 3\<rparr>)"
| "migrateV2Entry (FEntry e) =
     FEntry (case se_body e of SM_message m \<Rightarrow> e\<lparr>se_body := SM_message (renameHook m)\<rparr> | _ \<Rightarrow> e)"

definition migrateV2ToV3 :: "file_entry list \<Rightarrow> file_entry list" where
  "migrateV2ToV3 es = map migrateV2Entry es"

definition versionOf :: "file_entry list \<Rightarrow> int" where
  "versionOf es = (case findHeader es of Some h \<Rightarrow> orDefault (hd_version h) 1 | None \<Rightarrow> 1)"

definition migrateToCurrentVersion :: "sm_source \<Rightarrow> file_entry list \<Rightarrow> nat \<Rightarrow> bool \<times> file_entry list \<times> nat" where
  "migrateToCurrentVersion src es n =
     (let version = versionOf es
      in if CURRENT_SESSION_VERSION \<le> version then (False, es, n)
         else (case (if version < 2 then migrateV1ToV2 src es n else (es, n)) of
                 (es1, n1) \<Rightarrow> (True, migrateV2ToV3 es1, n1)))"

section \<open>Reading a file\<close>

record sm_codec =
  sx_parse :: "jstr \<Rightarrow> file_entry option"
  sx_text :: "file_entry \<Rightarrow> jstr"

definition parseSessionEntryLine :: "sm_codec \<Rightarrow> jstr \<Rightarrow> file_entry option" where
  "parseSessionEntryLine C line = (if trim line = [] then None else sx_parse C line)"

definition parseSessionEntries :: "sm_codec \<Rightarrow> jstr \<Rightarrow> file_entry list" where
  "parseSessionEntries C content = List.map_filter (parseSessionEntryLine C) (splitOn 10 (trim content))"

text \<open>The reads of the file, decoded: the lines of a chunk are parsed, the rest is kept.\<close>

fun loadChunks :: "sm_codec \<Rightarrow> jstr \<Rightarrow> jstr list \<Rightarrow> file_entry list" where
  "loadChunks C pending [] = List.map_filter (parseSessionEntryLine C) [pending]"
| "loadChunks C pending (c # cs) =
     (let lines = splitOn 10 (pending @ c)
      in List.map_filter (parseSessionEntryLine C) (butlast lines) @ loadChunks C (last lines) cs)"

definition checkedEntries :: "file_entry list \<Rightarrow> file_entry list" where
  "checkedEntries es =
     (case es of
        FHeader h # _ \<Rightarrow> if hd_id h = None then [] else es
      | _ \<Rightarrow> [])"

definition loadEntriesFromChunks :: "sm_codec \<Rightarrow> jstr list \<Rightarrow> file_entry list" where
  "loadEntriesFromChunks C chunks = checkedEntries (loadChunks C [] chunks)"

section \<open>The path to a leaf\<close>

definition entryIndex :: "sm_entry list \<Rightarrow> (sid \<times> sm_entry) list" where
  "entryIndex es = fold (\<lambda>e. AList.update (se_id e) e) es []"

definition buildEntryIndex :: "sm_entry list \<Rightarrow> (sid \<times> sm_entry) list option \<Rightarrow> (sid \<times> sm_entry) list" where
  "buildEntryIndex es byId = (case byId of Some m \<Rightarrow> m | None \<Rightarrow> entryIndex es)"

text \<open>The walk to the root, from the last entry; over an arbitrary index it may not end.\<close>

partial_function (option) walkToRoot :: "(sid \<times> sm_entry) list \<Rightarrow> sm_entry option \<Rightarrow> sm_entry list \<Rightarrow> sm_entry list option" where
  "walkToRoot index current path =
     (case current of
        None \<Rightarrow> Some path
      | Some e \<Rightarrow>
          walkToRoot index (if truthyId (se_parentId e) then map_of index (se_parentId e) else None) (e # path))"

definition leafEntry :: "sm_entry list \<Rightarrow> sid \<Rightarrow> (sid \<times> sm_entry) list \<Rightarrow> sm_entry option" where
  "leafEntry es leafId index =
     (case (if truthyId leafId then map_of index leafId else None) of
        Some e \<Rightarrow> Some e
      | None \<Rightarrow> if es = [] then None else Some (last es))"

definition buildSessionPath ::
  "sm_entry list \<Rightarrow> sid \<Rightarrow> (sid \<times> sm_entry) list option \<Rightarrow> sm_entry list option" where
  "buildSessionPath es leafId byId =
     (let index = buildEntryIndex es byId
      in if leafId = IdNull then Some []
         else walkToRoot index (leafEntry es leafId index) [])"

section \<open>The context\<close>

fun rawMessage :: "raw_message \<Rightarrow> agent_message" where
  "rawMessage (Known m) = m"
| "rawMessage (NoContent n m) = m"
| "rawMessage (HookRole m) = Custom m"

fun roleAssistant :: "raw_message \<Rightarrow> bool" where
  "roleAssistant (HookRole m) = False"
| "roleAssistant (Known m) = isAssistant m"
| "roleAssistant (NoContent n m) = isAssistant m"

record sm_settings =
  st_thinkingLevel :: jstr
  st_model :: "(jstr \<times> jstr) option"

definition settingsStep :: "sm_entry \<Rightarrow> sm_settings \<Rightarrow> sm_settings" where
  "settingsStep e s =
     (case se_body e of
        SM_thinkingLevelChange l \<Rightarrow> s\<lparr>st_thinkingLevel := l\<rparr>
      | SM_modelChange p m \<Rightarrow> s\<lparr>st_model := Some (p, m)\<rparr>
      | SM_message r \<Rightarrow>
          (if roleAssistant r
           then (case rawMessage r of Msg (MAssistant a) \<Rightarrow> s\<lparr>st_model := Some (am_provider a, am_model a)\<rparr> | _ \<Rightarrow> s)
           else s)
      | _ \<Rightarrow> s)"

definition getSessionContextSettings :: "sm_entry list \<Rightarrow> sm_settings" where
  "getSessionContextSettings path = fold settingsStep path \<lparr>st_thinkingLevel = js ''off'', st_model = None\<rparr>"

text \<open>A provider message without content gets an empty one.\<close>

fun withEmptyContent :: "bool \<Rightarrow> agent_message \<Rightarrow> raw_message" where
  "withEmptyContent n (Msg (MUser m)) = Known (Msg (MUser (m\<lparr>um_content := UBlocks []\<rparr>)))"
| "withEmptyContent n (Msg (MAssistant m)) = Known (Msg (MAssistant (m\<lparr>am_content := []\<rparr>)))"
| "withEmptyContent n (Msg (MToolResult m)) = Known (Msg (MToolResult (m\<lparr>tr_content := []\<rparr>)))"
| "withEmptyContent n m = NoContent n m"

definition entryToMessages :: "(jstr \<Rightarrow> int) \<Rightarrow> sm_entry \<Rightarrow> raw_message list" where
  "entryToMessages getTime e =
     (case se_body e of
        SM_message (NoContent n m) \<Rightarrow> [withEmptyContent n m]
      | SM_message m \<Rightarrow> [m]
      | SM_customMessage customType content display details \<Rightarrow>
          [Known (Custom (createCustomMessage getTime customType (orDefault content (UBlocks [])) display details
             (se_timestamp e)))]
      | SM_branchSummary d \<Rightarrow>
          (if bd_summary d \<noteq> []
           then [Known (BranchSummary (createBranchSummaryMessage getTime (bd_summary d) (bd_fromId d) (se_timestamp e)))]
           else [])
      | SM_compaction c \<Rightarrow>
          [Known (CompactionSummary (createCompactionSummaryMessage getTime (sc_summary c) (sc_tokensBefore c)
             (se_timestamp e)))]
      | _ \<Rightarrow> [])"

definition getLatestCompactionEntry :: "sm_entry list \<Rightarrow> sm_entry option" where
  "getLatestCompactionEntry es = findLast (\<lambda>e. smCompactionOf e \<noteq> None) es"

definition contextEntriesOf :: "sm_entry list \<Rightarrow> sm_entry list" where
  "contextEntriesOf path =
     (case getLatestCompactionEntry path of
        None \<Rightarrow> path
      | Some c \<Rightarrow>
          (case findIndex (\<lambda>e. se_id e = se_id c) path of
             None \<Rightarrow> path
           | Some i \<Rightarrow>
               c # dropWhile (\<lambda>e. se_id e \<noteq> sc_firstKeptEntryId (the (smCompactionOf c))) (take i path) @
               drop (i + 1) path))"

definition contextEntries ::
  "sm_entry list \<Rightarrow> sid \<Rightarrow> (sid \<times> sm_entry) list option \<Rightarrow> sm_entry list option" where
  "contextEntries es leafId byId = map_option contextEntriesOf (buildSessionPath es leafId byId)"

record sm_context = sm_settings +
  sq_messages :: "raw_message list"

definition contextOfPath :: "(jstr \<Rightarrow> int) \<Rightarrow> sm_entry list \<Rightarrow> sm_context" where
  "contextOfPath getTime path =
     (let s = getSessionContextSettings path
      in \<lparr>st_thinkingLevel = st_thinkingLevel s, st_model = st_model s,
          sq_messages = concat (map (entryToMessages getTime) (contextEntriesOf path))\<rparr>)"

definition smBuildSessionContext ::
  "(jstr \<Rightarrow> int) \<Rightarrow> sm_entry list \<Rightarrow> sid \<Rightarrow> (sid \<times> sm_entry) list option \<Rightarrow> sm_context option" where
  "smBuildSessionContext getTime es leafId byId =
     map_option (contextOfPath getTime) (buildSessionPath es leafId byId)"

end
