(* ===== verification/SessionManager.thy ===== *)
theory SessionManager
  imports CodingSession CodingPaths
begin

text \<open>
  The class \<open>SessionManager\<close> of packages/coding-agent/src/core/session-manager.ts: a session as an
  append-only tree of entries, kept in a file of JSON lines once an assistant has answered.

  The files are texts by their paths; that a directory is created where it is missing, and that an
  operation fails for lack of space or rights, is not modelled. A method gives the error it
  throws, or its result, with the manager it leaves.
\<close>

section \<open>State\<close>

datatype sm_error =
    SmEntryNotFound jstr
  | SmInvalidSessionId
  | SmNotASession jstr
  | SmFileExists jstr
  | SmForkEmpty jstr
  | SmForkNoHeader jstr
  | SmBadPath jstr

record sm_runtime =
  rt_source :: sm_source
  rt_codec :: sm_codec
  rt_paths :: path_env

record session_manager =
  sg_sessionId :: jstr
  sg_sessionFile :: "jstr option"
  sg_sessionDir :: jstr
  sg_cwd :: jstr
  sg_persist :: bool
  sg_flushed :: bool
  sg_fileEntries :: "file_entry list"
  sg_byId :: "(sid \<times> sm_entry) list"
  sg_labelsById :: "(sid \<times> jstr) list"
  sg_labelTimestampsById :: "(sid \<times> jstr) list"
  sg_leafId :: sid
  sg_disk :: "jstr \<Rightarrow> jstr option"
  sg_calls :: nat

type_synonym 'a sm_result = "(sm_error + 'a) \<times> session_manager"

definition hasId :: "session_manager \<Rightarrow> sid \<Rightarrow> bool" where
  "hasId s i \<longleftrightarrow> i \<in> fst ` set (sg_byId s)"

section \<open>Files\<close>

definition sessionLine :: "sm_codec \<Rightarrow> file_entry \<Rightarrow> jstr" where
  "sessionLine C e = sx_text C e @ [10]"

definition sessionLines :: "sm_codec \<Rightarrow> file_entry list \<Rightarrow> jstr" where
  "sessionLines C es = concat (map (sessionLine C) es)"

definition loadEntriesFromFile :: "sm_codec \<Rightarrow> (jstr \<Rightarrow> jstr option) \<Rightarrow> jstr \<Rightarrow> file_entry list" where
  "loadEntriesFromFile C disk p = (case disk p of None \<Rightarrow> [] | Some t \<Rightarrow> loadEntriesFromChunks C [t])"

definition rewriteFile :: "sm_codec \<Rightarrow> session_manager \<Rightarrow> session_manager" where
  "rewriteFile C s =
     (if sg_persist s \<and> truthyStr (sg_sessionFile s)
      then s\<lparr>sg_disk := (sg_disk s)(the (sg_sessionFile s) \<mapsto> sessionLines C (sg_fileEntries s))\<rparr>
      else s)"

definition appendLine :: "sm_codec \<Rightarrow> file_entry \<Rightarrow> session_manager \<Rightarrow> session_manager" where
  "appendLine C e s =
     (let p = the (sg_sessionFile s)
      in s\<lparr>sg_disk := (sg_disk s)(p \<mapsto> orDefault (sg_disk s p) [] @ sessionLine C e)\<rparr>)"

fun isAssistantEntry :: "file_entry \<Rightarrow> bool" where
  "isAssistantEntry (FHeader h) = False"
| "isAssistantEntry (FEntry e) = (case se_body e of SM_message m \<Rightarrow> roleAssistant m | _ \<Rightarrow> False)"

definition hasAssistant :: "file_entry list \<Rightarrow> bool" where
  "hasAssistant es \<longleftrightarrow> list_ex isAssistantEntry es"

text \<open>Nothing is written before the first answer, unless the file is there already.\<close>

definition persist :: "sm_codec \<Rightarrow> sm_entry \<Rightarrow> session_manager \<Rightarrow> unit sm_result" where
  "persist C e s =
     (if \<not> sg_persist s \<or> \<not> truthyStr (sg_sessionFile s) then (Inr (), s)
      else if \<not> hasAssistant (sg_fileEntries s)
        then (Inr (), if sg_flushed s then appendLine C (FEntry e) s else s\<lparr>sg_flushed := False\<rparr>)
      else if \<not> sg_flushed s
        then (let p = the (sg_sessionFile s)
              in if sg_disk s p \<noteq> None then (Inl (SmFileExists p), s)
                 else (Inr (), s\<lparr>sg_disk := (sg_disk s)(p \<mapsto> sessionLines C (sg_fileEntries s)), sg_flushed := True\<rparr>))
      else (Inr (), appendLine C (FEntry e) s))"

section \<open>Index\<close>

definition indexLabel :: "sid \<Rightarrow> jstr option \<Rightarrow> jstr \<Rightarrow> session_manager \<Rightarrow> session_manager" where
  "indexLabel target label timestamp s =
     (if truthyStr label
      then s\<lparr>sg_labelsById := AList.update target (the label) (sg_labelsById s),
             sg_labelTimestampsById := AList.update target timestamp (sg_labelTimestampsById s)\<rparr>
      else s\<lparr>sg_labelsById := AList.delete target (sg_labelsById s),
             sg_labelTimestampsById := AList.delete target (sg_labelTimestampsById s)\<rparr>)"

definition indexEntry :: "sm_entry \<Rightarrow> session_manager \<Rightarrow> session_manager" where
  "indexEntry e s =
     (let s1 = s\<lparr>sg_byId := AList.update (se_id e) e (sg_byId s), sg_leafId := se_id e\<rparr>
      in case se_body e of
           SM_label target label \<Rightarrow> indexLabel target label (se_timestamp e) s1
         | _ \<Rightarrow> s1)"

definition buildIndex :: "session_manager \<Rightarrow> session_manager" where
  "buildIndex s =
     fold indexEntry (sessionEntries (sg_fileEntries s))
       (s\<lparr>sg_byId := [], sg_labelsById := [], sg_labelTimestampsById := [], sg_leafId := IdNull\<rparr>)"

section \<open>New and opened sessions\<close>

record new_session_options =
  no_id :: "jstr option"
  no_parentSession :: "jstr option"

definition noSessionOptions :: new_session_options where
  "noSessionOptions = \<lparr>no_id = None, no_parentSession = None\<rparr>"

definition fileTimestamp :: "jstr \<Rightarrow> jstr" where
  "fileTimestamp t = map (\<lambda>c. if c = 58 \<or> c = 46 then 45 else c) t"

definition sessionFileName :: "jstr \<Rightarrow> jstr \<Rightarrow> jstr" where
  "sessionFileName timestamp sessionId = fileTimestamp timestamp @ js ''_'' @ sessionId @ js ''.jsonl''"

definition newHeader :: "jstr \<Rightarrow> jstr \<Rightarrow> jstr \<Rightarrow> jstr option \<Rightarrow> sm_header" where
  "newHeader i timestamp cwd parentSession =
     \<lparr>hd_version = Some CURRENT_SESSION_VERSION, hd_id = Some i, hd_timestamp = timestamp, hd_cwd = Some cwd,
      hd_parentSession = parentSession\<rparr>"

definition createSessionId :: "sm_source \<Rightarrow> jstr option \<Rightarrow> nat \<Rightarrow> jstr \<times> nat" where
  "createSessionId src given n = (case given of Some i \<Rightarrow> (i, n) | None \<Rightarrow> (sr_sessionUUID src n, Suc n))"

definition newSession :: "sm_source \<Rightarrow> new_session_options \<Rightarrow> session_manager \<Rightarrow> jstr option sm_result" where
  "newSession src opts s =
     (if no_id opts \<noteq> None \<and> \<not> validSessionId (the (no_id opts)) then (Inl SmInvalidSessionId, s)
      else (case createSessionId src (no_id opts) (sg_calls s) of
              (i, n) \<Rightarrow>
                (let timestamp = sr_clock src n;
                     s1 = s\<lparr>sg_sessionId := i, sg_calls := Suc n,
                            sg_fileEntries := [FHeader (newHeader i timestamp (sg_cwd s) (no_parentSession opts))],
                            sg_byId := [], sg_labelsById := [], sg_labelTimestampsById := [], sg_leafId := IdNull,
                            sg_flushed := False\<rparr>;
                     s2 = (if sg_persist s
                           then s1\<lparr>sg_sessionFile := Some (pathJoin [sg_sessionDir s, sessionFileName timestamp i])\<rparr>
                           else s1)
                 in (Inr (sg_sessionFile s2), s2))))"

definition setSessionFile ::
  "sm_runtime \<Rightarrow> jstr \<Rightarrow> file_entry list option \<Rightarrow> session_manager \<Rightarrow> unit sm_result" where
  "setSessionFile R file preloaded s =
     (case resolvePath (rt_paths R) file (pe_cwd (rt_paths R)) noPathOptions of
        Inl e \<Rightarrow> (Inl (SmBadPath e), s)
      | Inr p \<Rightarrow>
          (let s1 = s\<lparr>sg_sessionFile := Some p\<rparr>
           in case sg_disk s p of
                None \<Rightarrow>
                  (case newSession (rt_source R) noSessionOptions s1 of
                     (r, s2) \<Rightarrow> (Inr (), s2\<lparr>sg_sessionFile := Some p\<rparr>))
              | Some t \<Rightarrow>
                  (let es = orDefault preloaded (loadEntriesFromFile (rt_codec R) (sg_disk s) p);
                       s2 = s1\<lparr>sg_fileEntries := es\<rparr>
                   in if es = []
                      then (if t \<noteq> [] then (Inl (SmNotASession p), s2)
                            else (case newSession (rt_source R) noSessionOptions s2 of
                                    (r, s3) \<Rightarrow>
                                      (Inr (), (rewriteFile (rt_codec R) (s3\<lparr>sg_sessionFile := Some p\<rparr>))
                                         \<lparr>sg_flushed := True\<rparr>)))
                      else (case createSessionId (rt_source R)
                                (case findHeader es of Some h \<Rightarrow> hd_id h | None \<Rightarrow> None) (sg_calls s) of
                              (i, n) \<Rightarrow>
                                (case migrateToCurrentVersion (rt_source R) es n of
                                   (changed, es', n') \<Rightarrow>
                                     (let s3 = s2\<lparr>sg_sessionId := i, sg_fileEntries := es', sg_calls := n'\<rparr>;
                                          s4 = (if changed then rewriteFile (rt_codec R) s3 else s3)
                                      in (Inr (), (buildIndex s4)\<lparr>sg_flushed := True\<rparr>)))))))"

section \<open>Appending\<close>

definition addEntry :: "sm_codec \<Rightarrow> sm_entry \<Rightarrow> session_manager \<Rightarrow> unit sm_result" where
  "addEntry C e s =
     persist C e
       (s\<lparr>sg_fileEntries := sg_fileEntries s @ [FEntry e], sg_byId := AList.update (se_id e) e (sg_byId s),
          sg_leafId := se_id e\<rparr>)"

definition newEntry :: "sm_source \<Rightarrow> sid \<Rightarrow> sm_body \<Rightarrow> session_manager \<Rightarrow> sm_entry \<times> session_manager" where
  "newEntry src parentId body s =
     (case generateId src (hasId s) (sg_calls s) of
        (i, n) \<Rightarrow>
          (\<lparr>se_id = i, se_parentId = parentId, se_timestamp = sr_clock src n, se_body = body\<rparr>, s\<lparr>sg_calls := Suc n\<rparr>))"

definition appendBody :: "sm_runtime \<Rightarrow> sm_body \<Rightarrow> session_manager \<Rightarrow> sid sm_result" where
  "appendBody R body s =
     (case newEntry (rt_source R) (sg_leafId s) body s of
        (e, s1) \<Rightarrow> (case addEntry (rt_codec R) e s1 of (r, s2) \<Rightarrow> (map_sum id (\<lambda>_. se_id e) r, s2)))"

definition smAppendMessage :: "sm_runtime \<Rightarrow> agent_message \<Rightarrow> session_manager \<Rightarrow> sid sm_result" where
  "smAppendMessage R m = appendBody R (SM_message (Known m))"

definition smAppendThinkingLevelChange :: "sm_runtime \<Rightarrow> jstr \<Rightarrow> session_manager \<Rightarrow> sid sm_result" where
  "smAppendThinkingLevelChange R l = appendBody R (SM_thinkingLevelChange l)"

definition smAppendModelChange :: "sm_runtime \<Rightarrow> jstr \<Rightarrow> jstr \<Rightarrow> session_manager \<Rightarrow> sid sm_result" where
  "smAppendModelChange R provider modelId = appendBody R (SM_modelChange provider modelId)"

definition smAppendCompaction ::
  "sm_runtime \<Rightarrow> jstr \<Rightarrow> jstr \<Rightarrow> int \<Rightarrow> json option \<Rightarrow> bool option \<Rightarrow> usage option \<Rightarrow> session_manager \<Rightarrow> sid sm_result" where
  "smAppendCompaction R summary firstKept tokensBefore details fromHook u =
     appendBody R (SM_compaction \<lparr>sc_summary = summary, sc_firstKeptEntryId = Id firstKept, sc_firstKeptEntryIndex = None,
       sc_tokensBefore = tokensBefore, sc_details = details, sc_usage = u, sc_fromHook = fromHook\<rparr>)"

definition smAppendCustomEntry :: "sm_runtime \<Rightarrow> jstr \<Rightarrow> json option \<Rightarrow> session_manager \<Rightarrow> sid sm_result" where
  "smAppendCustomEntry R customType data = appendBody R (SM_custom customType data)"

fun spacedBreaks :: "jstr \<Rightarrow> jstr" where
  "spacedBreaks [] = []"
| "spacedBreaks (c # cs) =
     (if c = 13 \<or> c = 10 then 32 # spacedBreaks (dropWhile (\<lambda>x. x = 13 \<or> x = 10) cs) else c # spacedBreaks cs)"

definition smAppendSessionInfo :: "sm_runtime \<Rightarrow> jstr \<Rightarrow> session_manager \<Rightarrow> sid sm_result" where
  "smAppendSessionInfo R name = appendBody R (SM_sessionInfo (Some (trim (spacedBreaks name))))"

definition smAppendCustomMessageEntry ::
  "sm_runtime \<Rightarrow> jstr \<Rightarrow> user_content \<Rightarrow> bool \<Rightarrow> json option \<Rightarrow> session_manager \<Rightarrow> sid sm_result" where
  "smAppendCustomMessageEntry R customType content display details =
     appendBody R (SM_customMessage customType (Some content) display details)"

definition smAppendLabelChange :: "sm_runtime \<Rightarrow> jstr \<Rightarrow> jstr option \<Rightarrow> session_manager \<Rightarrow> sid sm_result" where
  "smAppendLabelChange R target label s =
     (if \<not> hasId s (Id target) then (Inl (SmEntryNotFound target), s)
      else (case newEntry (rt_source R) (sg_leafId s) (SM_label (Id target) label) s of
              (e, s1) \<Rightarrow>
                (case addEntry (rt_codec R) e s1 of
                   (Inl err, s2) \<Rightarrow> (Inl err, s2)
                 | (Inr _, s2) \<Rightarrow> (Inr (se_id e), indexLabel (Id target) label (se_timestamp e) s2))))"

section \<open>Reading\<close>

definition getEntries :: "session_manager \<Rightarrow> sm_entry list" where
  "getEntries s = sessionEntries (sg_fileEntries s)"

definition smGetSessionName :: "session_manager \<Rightarrow> jstr option" where
  "smGetSessionName s =
     (case findLast (\<lambda>e. case se_body e of SM_sessionInfo _ \<Rightarrow> True | _ \<Rightarrow> False) (getEntries s) of
        None \<Rightarrow> None
      | Some e \<Rightarrow>
          (case se_body e of
             SM_sessionInfo name \<Rightarrow> (let n = map_option trim name in if truthyStr n then n else None)
           | _ \<Rightarrow> None))"

definition getLeafEntry :: "session_manager \<Rightarrow> sm_entry option" where
  "getLeafEntry s = (if truthyId (sg_leafId s) then map_of (sg_byId s) (sg_leafId s) else None)"

definition getEntry :: "jstr \<Rightarrow> session_manager \<Rightarrow> sm_entry option" where
  "getEntry i s = map_of (sg_byId s) (Id i)"

definition getChildren :: "jstr \<Rightarrow> session_manager \<Rightarrow> sm_entry list" where
  "getChildren i s = filter (\<lambda>e. se_parentId e = Id i) (map snd (sg_byId s))"

definition getLabel :: "jstr \<Rightarrow> session_manager \<Rightarrow> jstr option" where
  "getLabel i s = map_of (sg_labelsById s) (Id i)"

definition smGetBranch :: "jstr option \<Rightarrow> session_manager \<Rightarrow> sm_entry list option" where
  "smGetBranch fromId s =
     (let startId = (case fromId of Some i \<Rightarrow> Id i | None \<Rightarrow> sg_leafId s)
      in walkToRoot (sg_byId s) (if truthyId startId then map_of (sg_byId s) startId else None) [])"

definition smContextEntries :: "session_manager \<Rightarrow> sm_entry list option" where
  "smContextEntries s = contextEntries (getEntries s) (sg_leafId s) (Some (sg_byId s))"

definition smContext :: "(jstr \<Rightarrow> int) \<Rightarrow> session_manager \<Rightarrow> sm_context option" where
  "smContext getTime s = smBuildSessionContext getTime (getEntries s) (sg_leafId s) (Some (sg_byId s))"

definition getHeader :: "session_manager \<Rightarrow> sm_header option" where
  "getHeader s = findHeader (sg_fileEntries s)"

section \<open>Branching\<close>

definition branch :: "jstr \<Rightarrow> session_manager \<Rightarrow> unit sm_result" where
  "branch i s = (if hasId s (Id i) then (Inr (), s\<lparr>sg_leafId := Id i\<rparr>) else (Inl (SmEntryNotFound i), s))"

definition resetLeaf :: "session_manager \<Rightarrow> session_manager" where
  "resetLeaf s = s\<lparr>sg_leafId := IdNull\<rparr>"

definition branchWithSummary ::
  "sm_runtime \<Rightarrow> jstr option \<Rightarrow> jstr \<Rightarrow> json option \<Rightarrow> bool option \<Rightarrow> usage option \<Rightarrow> session_manager \<Rightarrow> sid sm_result" where
  "branchWithSummary R branchFromId summary details fromHook u s =
     (if branchFromId \<noteq> None \<and> \<not> hasId s (Id (the branchFromId)) then (Inl (SmEntryNotFound (the branchFromId)), s)
      else (let leaf = (case branchFromId of Some i \<Rightarrow> Id i | None \<Rightarrow> IdNull)
            in appendBody R (SM_branchSummary \<lparr>bd_fromId = orDefault branchFromId (js ''root''), bd_summary = summary,
                 bd_details = details, bd_usage = u, bd_fromHook = fromHook\<rparr>) (s\<lparr>sg_leafId := leaf\<rparr>)))"

definition isLabelEntry :: "sm_entry \<Rightarrow> bool" where
  "isLabelEntry e = (case se_body e of SM_label _ _ \<Rightarrow> True | _ \<Rightarrow> False)"

text \<open>The path without its labels, each entry a child of the one before.\<close>

fun rechain :: "sid \<Rightarrow> sm_entry list \<Rightarrow> sm_entry list" where
  "rechain parentId [] = []"
| "rechain parentId (e # es) =
     (if isLabelEntry e then rechain parentId es else e\<lparr>se_parentId := parentId\<rparr> # rechain (se_id e) es)"

text \<open>The labels of the path as entries of their own.\<close>

fun labelChain :: "sm_source \<Rightarrow> sid set \<Rightarrow> sid \<Rightarrow> (sid \<times> jstr \<times> jstr) list \<Rightarrow> nat \<Rightarrow> sm_entry list \<times> nat" where
  "labelChain src ids parentId [] n = ([], n)"
| "labelChain src ids parentId ((target, label, timestamp) # ls) n =
     (case generateId src (\<lambda>i. i \<in> ids) n of
        (i, n1) \<Rightarrow>
          (case labelChain src (insert i ids) i ls n1 of
             (es, n2) \<Rightarrow>
               (\<lparr>se_id = i, se_parentId = parentId, se_timestamp = timestamp, se_body = SM_label target (Some label)\<rparr> # es, n2)))"

definition labelsToWrite :: "sid set \<Rightarrow> session_manager \<Rightarrow> (sid \<times> jstr \<times> jstr) list" where
  "labelsToWrite ids s =
     map (\<lambda>(target, label). (target, label, the (map_of (sg_labelTimestampsById s) target)))
       (filter (\<lambda>(target, label). target \<in> ids) (sg_labelsById s))"

definition lastIdOrNull :: "sm_entry list \<Rightarrow> sid" where
  "lastIdOrNull es = (if es \<noteq> [] \<and> truthyId (se_id (last es)) then se_id (last es) else IdNull)"

definition createBranchedSession ::
  "sm_runtime \<Rightarrow> jstr \<Rightarrow> session_manager \<Rightarrow> jstr option sm_result option" where
  "createBranchedSession R leafId s =
     (case smGetBranch (Some leafId) s of
        None \<Rightarrow> None
      | Some path \<Rightarrow>
          Some (if path = [] then (Inl (SmEntryNotFound leafId), s)
            else (let src = rt_source R;
                      kept = rechain IdNull path;
                      ids = se_id ` set kept;
                      newId = sr_sessionUUID src (sg_calls s);
                      timestamp = sr_clock src (Suc (sg_calls s));
                      file = pathJoin [sg_sessionDir s, sessionFileName timestamp newId];
                      header = newHeader newId timestamp (sg_cwd s) (if sg_persist s then sg_sessionFile s else None)
                  in case labelChain src ids (lastIdOrNull kept) (labelsToWrite ids s) (Suc (Suc (sg_calls s))) of
                       (labels, n) \<Rightarrow>
                         (let es = FHeader header # map FEntry (kept @ labels);
                              s1 = s\<lparr>sg_fileEntries := es, sg_sessionId := newId, sg_calls := n\<rparr>
                          in if sg_persist s
                             then (let s2 = buildIndex (s1\<lparr>sg_sessionFile := Some file\<rparr>)
                                   in (Inr (Some file),
                                       if hasAssistant es then (rewriteFile (rt_codec R) s2)\<lparr>sg_flushed := True\<rparr>
                                       else s2\<lparr>sg_flushed := False\<rparr>))
                             else (Inr None, buildIndex s1)))))"

end
