(* ===== verification/SessionFiles.thy ===== *)
theory SessionFiles
  imports SessionManager
begin

text \<open>
  Finding, opening and forking the files of sessions: the rest of
  packages/coding-agent/src/core/session-manager.ts but for the lists of sessions. Directories, times
  of files and the reads that a file gives are parameters.
\<close>

section \<open>Directories\<close>

definition resolveHere :: "path_env \<Rightarrow> jstr \<Rightarrow> jstr + jstr" where
  "resolveHere env p = resolvePath env p (pe_cwd env) noPathOptions"

definition encodedCwd :: "jstr \<Rightarrow> jstr" where
  "encodedCwd cwd =
     (let p = (if cwd \<noteq> [] \<and> hd cwd \<in> {47, 92} then drop 1 cwd else cwd)
      in js ''--'' @ map (\<lambda>c. if c \<in> {47, 92, 58} then 45 else c) p @ js ''--'')"

definition getDefaultSessionDirPath :: "path_env \<Rightarrow> jstr \<Rightarrow> jstr \<Rightarrow> jstr + jstr" where
  "getDefaultSessionDirPath env agentDir cwd =
     (case resolveHere env cwd of
        Inl e \<Rightarrow> Inl e
      | Inr resolvedCwd \<Rightarrow>
          (case resolveHere env agentDir of
             Inl e \<Rightarrow> Inl e
           | Inr dir \<Rightarrow> Inr (pathJoin [dir, js ''sessions'', encodedCwd resolvedCwd])))"

text \<open>The directory given, or else the default one.\<close>

definition sessionDirFor :: "path_env \<Rightarrow> jstr \<Rightarrow> jstr option \<Rightarrow> jstr \<Rightarrow> jstr + jstr" where
  "sessionDirFor env agentDir sessionDir cwd =
     (if truthyStr sessionDir then normalizePath env noPathOptions (the sessionDir)
      else getDefaultSessionDirPath env agentDir cwd)"

section \<open>The header of a file\<close>

definition MAX_SESSION_HEADER_SCAN_BYTES :: nat where "MAX_SESSION_HEADER_SCAN_BYTES = 1024 * 1024"

text \<open>\<open>None\<close> is to go on, \<open>Some None\<close> an entry that is no header.\<close>

definition parseSessionHeaderCandidate :: "sm_codec \<Rightarrow> jstr \<Rightarrow> sm_header option option" where
  "parseSessionHeaderCandidate C line =
     (case parseSessionEntryLine C line of
        None \<Rightarrow> None
      | Some (FHeader h) \<Rightarrow> Some (if hd_id h = None then None else Some h)
      | Some (FEntry e) \<Rightarrow> Some None)"

fun firstCandidate :: "sm_codec \<Rightarrow> jstr list \<Rightarrow> sm_header option option" where
  "firstCandidate C [] = None"
| "firstCandidate C (l # ls) =
     (case parseSessionHeaderCandidate C l of Some h \<Rightarrow> Some h | None \<Rightarrow> firstCandidate C ls)"

text \<open>The reads of the file, the bytes of each with the text it adds, and what the decoder has left at
  the end. \<open>None\<close> is the error of the limit.\<close>

fun scanHeader :: "sm_codec \<Rightarrow> jstr \<Rightarrow> nat \<Rightarrow> (nat \<times> jstr) list \<Rightarrow> jstr \<Rightarrow> sm_header option option" where
  "scanHeader C pending scanned [] rest =
     Some (case parseSessionHeaderCandidate C (pending @ rest) of Some h \<Rightarrow> h | None \<Rightarrow> None)"
| "scanHeader C pending scanned ((n, chunk) # reads) rest =
     (if scanned < MAX_SESSION_HEADER_SCAN_BYTES
      then (let lines = splitOn 10 (pending @ chunk)
            in case firstCandidate C (butlast lines) of
                 Some h \<Rightarrow> Some h
               | None \<Rightarrow> scanHeader C (last lines) (scanned + n) reads rest)
      else None)"

record sm_reads =
  rd_reads :: "(nat \<times> jstr) list"
  rd_rest :: jstr

definition readSessionHeader :: "sm_codec \<Rightarrow> sm_reads \<Rightarrow> sm_header option option" where
  "readSessionHeader C r = scanHeader C [] 0 (rd_reads r) (rd_rest r)"

definition readSessionHeaderForDiscovery :: "sm_codec \<Rightarrow> sm_reads option \<Rightarrow> sm_header option" where
  "readSessionHeaderForDiscovery C r =
     (case r of None \<Rightarrow> None | Some r \<Rightarrow> (case readSessionHeader C r of None \<Rightarrow> None | Some h \<Rightarrow> h))"

text \<open>A \<open>cwd\<close> that does not resolve throws, which ends the search.\<close>

definition sessionCwdMatches :: "path_env \<Rightarrow> jstr option \<Rightarrow> jstr \<Rightarrow> bool option" where
  "sessionCwdMatches env cwd resolvedCwd =
     (if truthyStr cwd
      then (case resolveHere env (the cwd) of Inl _ \<Rightarrow> None | Inr p \<Rightarrow> Some (p = resolvedCwd))
      else Some False)"

section \<open>The most recent session\<close>

record sm_directory =
  di_readdir :: "jstr \<Rightarrow> jstr list option"
  di_reads :: "jstr \<Rightarrow> sm_reads option"
  di_mtime :: "jstr \<Rightarrow> int option"

definition endsWith :: "jstr \<Rightarrow> jstr \<Rightarrow> bool" where
  "endsWith s t \<longleftrightarrow> prefix (rev t) (rev s)"

definition sessionFilesIn :: "jstr \<Rightarrow> jstr list \<Rightarrow> jstr list" where
  "sessionFilesIn dir names = map (\<lambda>f. pathJoin [dir, f]) (filter (\<lambda>f. endsWith f (js ''.jsonl'')) names)"

fun matchingFiles ::
  "sm_runtime \<Rightarrow> sm_directory \<Rightarrow> jstr option \<Rightarrow> jstr list \<Rightarrow> jstr list option" where
  "matchingFiles R D cwd [] = Some []"
| "matchingFiles R D cwd (p # ps) =
     (let rest = matchingFiles R D cwd ps
      in case readSessionHeaderForDiscovery (rt_codec R) (di_reads D p) of
           None \<Rightarrow> rest
         | Some h \<Rightarrow>
             (case (if truthyStr cwd then sessionCwdMatches (rt_paths R) (hd_cwd h) (the cwd) else Some True) of
                None \<Rightarrow> None
              | Some True \<Rightarrow> map_option ((#) p) rest
              | Some False \<Rightarrow> rest))"

fun withTimes :: "sm_directory \<Rightarrow> jstr list \<Rightarrow> (jstr \<times> int) list option" where
  "withTimes D [] = Some []"
| "withTimes D (p # ps) =
     (case di_mtime D p of None \<Rightarrow> None | Some t \<Rightarrow> map_option ((#) (p, t)) (withTimes D ps))"

text \<open>The directory and the \<open>cwd\<close> are resolved before the search, which then gives \<open>null\<close> for any error.\<close>

definition newestIn :: "sm_runtime \<Rightarrow> sm_directory \<Rightarrow> jstr \<Rightarrow> jstr option \<Rightarrow> jstr option" where
  "newestIn R D dir cwd =
     (case di_readdir D dir of
        None \<Rightarrow> None
      | Some names \<Rightarrow>
          (case matchingFiles R D cwd (sessionFilesIn dir names) of
             None \<Rightarrow> None
           | Some files \<Rightarrow>
               (case withTimes D files of
                  None \<Rightarrow> None
                | Some timed \<Rightarrow>
                    (case sort_key (\<lambda>(p, t). - t) timed of
                       [] \<Rightarrow> None
                     | (p, t) # _ \<Rightarrow> if p = [] then None else Some p))))"

definition findMostRecentSession ::
  "sm_runtime \<Rightarrow> sm_directory \<Rightarrow> jstr \<Rightarrow> jstr option \<Rightarrow> sm_error + jstr option" where
  "findMostRecentSession R D sessionDir cwd =
     (case normalizePath (rt_paths R) noPathOptions sessionDir of
        Inl e \<Rightarrow> Inl (SmBadPath e)
      | Inr dir \<Rightarrow>
          (if truthyStr cwd
           then (case resolveHere (rt_paths R) (the cwd) of
                   Inl e \<Rightarrow> Inl (SmBadPath e)
                 | Inr resolvedCwd \<Rightarrow> Inr (newestIn R D dir (Some resolvedCwd)))
           else Inr (newestIn R D dir None)))"

section \<open>Constructing a manager\<close>

definition blankManager :: "jstr \<Rightarrow> jstr \<Rightarrow> bool \<Rightarrow> (jstr \<Rightarrow> jstr option) \<Rightarrow> nat \<Rightarrow> session_manager" where
  "blankManager cwd dir persists disk n =
     \<lparr>sg_sessionId = [], sg_sessionFile = None, sg_sessionDir = dir, sg_cwd = cwd, sg_persist = persists,
      sg_flushed = False, sg_fileEntries = [], sg_byId = [], sg_labelsById = [], sg_labelTimestampsById = [],
      sg_leafId = IdNull, sg_disk = disk, sg_calls = n\<rparr>"

definition failedOr :: "'a sm_result \<Rightarrow> sm_error + session_manager" where
  "failedOr r = (case r of (Inl e, s) \<Rightarrow> Inl e | (Inr _, s) \<Rightarrow> Inr s)"

definition constructManager ::
  "sm_runtime \<Rightarrow> jstr \<Rightarrow> jstr \<Rightarrow> jstr option \<Rightarrow> bool \<Rightarrow> new_session_options \<Rightarrow> file_entry list option \<Rightarrow>
   (jstr \<Rightarrow> jstr option) \<Rightarrow> nat \<Rightarrow> sm_error + session_manager" where
  "constructManager R cwd dir sessionFile persists opts preloaded disk n =
     (case resolveHere (rt_paths R) cwd of
        Inl e \<Rightarrow> Inl (SmBadPath e)
      | Inr cwd' \<Rightarrow>
          (case normalizePath (rt_paths R) noPathOptions dir of
             Inl e \<Rightarrow> Inl (SmBadPath e)
           | Inr dir' \<Rightarrow>
               (let s = blankManager cwd' dir' persists disk n
                in if truthyStr sessionFile then failedOr (setSessionFile R (the sessionFile) preloaded s)
                   else failedOr (newSession (rt_source R) opts s))))"

definition createManager ::
  "sm_runtime \<Rightarrow> jstr \<Rightarrow> jstr \<Rightarrow> jstr option \<Rightarrow> new_session_options \<Rightarrow> (jstr \<Rightarrow> jstr option) \<Rightarrow> nat \<Rightarrow>
   sm_error + session_manager" where
  "createManager R agentDir cwd sessionDir opts disk n =
     (case sessionDirFor (rt_paths R) agentDir sessionDir cwd of
        Inl e \<Rightarrow> Inl (SmBadPath e)
      | Inr dir \<Rightarrow> constructManager R cwd dir None True opts None disk n)"

definition inMemoryManager ::
  "sm_runtime \<Rightarrow> jstr \<Rightarrow> new_session_options \<Rightarrow> (jstr \<Rightarrow> jstr option) \<Rightarrow> nat \<Rightarrow> sm_error + session_manager" where
  "inMemoryManager R cwd opts disk n = constructManager R cwd [] None False opts None disk n"

text \<open>Opening a file: its header gives the \<open>cwd\<close>; when it is too far from the start, the whole file is read
  for it.\<close>

definition openHeader ::
  "sm_codec \<Rightarrow> sm_reads \<Rightarrow> (jstr \<Rightarrow> jstr option) \<Rightarrow> jstr \<Rightarrow> sm_header option \<times> file_entry list option" where
  "openHeader C reads disk p =
     (case readSessionHeader C reads of
        Some h \<Rightarrow> (h, None)
      | None \<Rightarrow>
          (let es = loadEntriesFromFile C disk p
           in (case es of FHeader h # _ \<Rightarrow> Some h | _ \<Rightarrow> None, Some es)))"

definition openManager ::
  "sm_runtime \<Rightarrow> jstr \<Rightarrow> jstr option \<Rightarrow> jstr option \<Rightarrow> (jstr \<Rightarrow> sm_reads) \<Rightarrow> (jstr \<Rightarrow> jstr option) \<Rightarrow> nat \<Rightarrow>
   sm_error + session_manager" where
  "openManager R path sessionDir cwdOverride reads disk n =
     (case resolveHere (rt_paths R) path of
        Inl e \<Rightarrow> Inl (SmBadPath e)
      | Inr p \<Rightarrow>
          (case (if cwdOverride = None \<and> disk p \<noteq> None then openHeader (rt_codec R) (reads p) disk p else (None, None)) of
             (header, preloaded) \<Rightarrow>
               (let cwd = orDefault cwdOverride
                      (case header of
                         Some h \<Rightarrow> orDefault (hd_cwd h) (pe_cwd (rt_paths R))
                       | None \<Rightarrow> pe_cwd (rt_paths R))
                in case (if truthyStr sessionDir then normalizePath (rt_paths R) noPathOptions (the sessionDir)
                         else Inr (resolve (pe_cwd (rt_paths R)) p DOTDOT)) of
                     Inl e \<Rightarrow> Inl (SmBadPath e)
                   | Inr dir \<Rightarrow> constructManager R cwd dir (Some p) True noSessionOptions preloaded disk n)))"

definition continueRecent ::
  "sm_runtime \<Rightarrow> jstr \<Rightarrow> sm_directory \<Rightarrow> jstr \<Rightarrow> jstr option \<Rightarrow> (jstr \<Rightarrow> jstr option) \<Rightarrow> nat \<Rightarrow>
   sm_error + session_manager" where
  "continueRecent R agentDir D cwd sessionDir disk n =
     (case sessionDirFor (rt_paths R) agentDir sessionDir cwd of
        Inl e \<Rightarrow> Inl (SmBadPath e)
      | Inr dir \<Rightarrow>
          (case (if sessionDir = None then Inr False
                 else map_sum id (\<lambda>d. dir \<noteq> d) (getDefaultSessionDirPath (rt_paths R) agentDir cwd)) of
             Inl e \<Rightarrow> Inl (SmBadPath e)
           | Inr filterCwd \<Rightarrow>
               (case findMostRecentSession R D dir (if filterCwd then Some cwd else None) of
                  Inl e \<Rightarrow> Inl e
                | Inr mostRecent \<Rightarrow> constructManager R cwd dir mostRecent True noSessionOptions None disk n)))"

section \<open>Forking a file\<close>

text \<open>The entries are copied as they were read, under a header of the current version.\<close>

definition forkedFile :: "sm_codec \<Rightarrow> sm_header \<Rightarrow> file_entry list \<Rightarrow> jstr" where
  "forkedFile C header source = sessionLines C (FHeader header # filter (\<lambda>e. headerOf e = None) source)"

definition forkFrom ::
  "sm_runtime \<Rightarrow> jstr \<Rightarrow> jstr \<Rightarrow> jstr \<Rightarrow> jstr option \<Rightarrow> jstr option \<Rightarrow> (jstr \<Rightarrow> jstr option) \<Rightarrow> nat \<Rightarrow>
   sm_error + session_manager" where
  "forkFrom R agentDir sourcePath targetCwd sessionDir givenId disk n =
     (case resolveHere (rt_paths R) sourcePath of
        Inl e \<Rightarrow> Inl (SmBadPath e)
      | Inr src \<Rightarrow>
          (case resolveHere (rt_paths R) targetCwd of
             Inl e \<Rightarrow> Inl (SmBadPath e)
           | Inr cwd \<Rightarrow>
               (let source = loadEntriesFromFile (rt_codec R) disk src
                in if source = [] then Inl (SmForkEmpty src)
                   else if findHeader source = None then Inl (SmForkNoHeader src)
                   else (case sessionDirFor (rt_paths R) agentDir sessionDir cwd of
                           Inl e \<Rightarrow> Inl (SmBadPath e)
                         | Inr dir \<Rightarrow>
                             (if givenId \<noteq> None \<and> \<not> validSessionId (the givenId) then Inl SmInvalidSessionId
                              else (case createSessionId (rt_source R) givenId n of
                                      (i, n1) \<Rightarrow>
                                        (let timestamp = sr_clock (rt_source R) n1;
                                             p = pathJoin [dir, sessionFileName timestamp i];
                                             header = newHeader i timestamp cwd (Some src)
                                         in if disk p \<noteq> None then Inl (SmFileExists p)
                                            else constructManager R cwd dir (Some p) True noSessionOptions None
                                                   (disk(p \<mapsto> forkedFile (rt_codec R) header source)) (Suc n1))))))))"

section \<open>The tree of a session\<close>

text \<open>The nodes by their ids, each with the ids of its children: an object that is reached by two ways is
  one node here too.\<close>

record tree_node =
  tn_entry :: sm_entry
  tn_children :: "sid list"
  tn_label :: "jstr option"
  tn_labelTimestamp :: "jstr option"

type_synonym node_map = "(sid \<times> tree_node) list"

definition nodeMap :: "session_manager \<Rightarrow> node_map" where
  "nodeMap s =
     fold (\<lambda>e. AList.update (se_id e)
        \<lparr>tn_entry = e, tn_children = [], tn_label = map_of (sg_labelsById s) (se_id e),
         tn_labelTimestamp = map_of (sg_labelTimestampsById s) (se_id e)\<rparr>) (getEntries s) []"

definition addChild :: "sid \<Rightarrow> sid \<Rightarrow> node_map \<Rightarrow> node_map" where
  "addChild parent child m = AList.map_entry parent (\<lambda>n. n\<lparr>tn_children := tn_children n @ [child]\<rparr>) m"

definition placeEntry :: "sm_entry \<Rightarrow> node_map \<times> sid list \<Rightarrow> node_map \<times> sid list" where
  "placeEntry e mr =
     (case mr of
        (m, roots) \<Rightarrow>
          (if se_parentId e = IdNull \<or> se_parentId e = se_id e then (m, roots @ [se_id e])
           else if map_of m (se_parentId e) \<noteq> None then (addChild (se_parentId e) (se_id e) m, roots)
           else (m, roots @ [se_id e])))"

definition childTime :: "(jstr \<Rightarrow> int) \<Rightarrow> node_map \<Rightarrow> sid \<Rightarrow> int" where
  "childTime getTime m i = (case map_of m i of Some n \<Rightarrow> getTime (se_timestamp (tn_entry n)) | None \<Rightarrow> 0)"

definition sortChildren :: "(jstr \<Rightarrow> int) \<Rightarrow> sid \<Rightarrow> node_map \<Rightarrow> node_map" where
  "sortChildren getTime i m =
     AList.map_entry i (\<lambda>n. n\<lparr>tn_children := sort_key (childTime getTime m) (tn_children n)\<rparr>) m"

text \<open>The loop over the stack, which has its top at the end; over an arbitrary graph it may not end.\<close>

partial_function (option) sortLoop :: "(jstr \<Rightarrow> int) \<Rightarrow> sid list \<Rightarrow> node_map \<Rightarrow> node_map option" where
  "sortLoop getTime stack m =
     (if stack = [] then Some m
      else (let i = last stack; m1 = sortChildren getTime i m
            in sortLoop getTime (butlast stack @ (case map_of m1 i of Some n \<Rightarrow> tn_children n | None \<Rightarrow> [])) m1))"

definition getTree :: "(jstr \<Rightarrow> int) \<Rightarrow> session_manager \<Rightarrow> (node_map \<times> sid list) option" where
  "getTree getTime s =
     (case fold placeEntry (getEntries s) (nodeMap s, []) of
        (m, roots) \<Rightarrow> map_option (\<lambda>m'. (m', roots)) (sortLoop getTime roots m))"

end
