(* ===== verification/SessionManagerFacts.thy ===== *)
theory SessionManagerFacts
  imports SessionManager
begin

text \<open>
  Chains of entries and the walk along them; the index of a session; fresh ids; the context
  without labels.
\<close>

section \<open>Lists without an answer\<close>

lemma map_filter_simps [simp]:
  "List.map_filter f [] = []"
  "List.map_filter f (x # xs) = (case f x of None \<Rightarrow> List.map_filter f xs | Some y \<Rightarrow> y # List.map_filter f xs)"
  "List.map_filter f (xs @ ys) = List.map_filter f xs @ List.map_filter f ys"
  by (simp_all add: List.map_filter_def split: option.splits)

lemma sessionEntries_simps [simp]:
  "sessionEntries [] = []" "sessionEntries (FHeader h # es) = sessionEntries es"
  "sessionEntries (FEntry e # es) = e # sessionEntries es"
  "sessionEntries (es @ es') = sessionEntries es @ sessionEntries es'"
  "sessionEntries (map FEntry xs) = xs"
proof -
  show "sessionEntries (map FEntry xs) = xs" by (induction xs) (simp_all add: sessionEntries_def)
qed (simp_all add: sessionEntries_def)

section \<open>Chains\<close>

text \<open>Each entry is a child of the one before, the first of \<open>p\<close>.\<close>

fun linked :: "sid \<Rightarrow> sm_entry list \<Rightarrow> bool" where
  "linked p [] = True"
| "linked p (e # es) = (se_parentId e = p \<and> linked (se_id e) es)"

lemma linked_append:
  "linked p (xs @ ys) \<longleftrightarrow> linked p xs \<and> linked (if xs = [] then p else se_id (last xs)) ys"
  by (induction xs arbitrary: p) auto

lemma linked_snoc: "linked p (xs @ [e]) \<longleftrightarrow> linked p xs \<and> se_parentId e = (if xs = [] then p else se_id (last xs))"
  by (simp add: linked_append)

lemma walk_Nil [simp]: "walkToRoot index None path = Some path"
  by (subst walkToRoot.simps) simp

lemma walk_Cons:
  "walkToRoot index (Some e) path =
   walkToRoot index (if truthyId (se_parentId e) then map_of index (se_parentId e) else None) (e # path)"
  by (subst walkToRoot.simps) simp

lemma walk_linked:
  assumes "linked IdNull (es @ [e])" "\<forall>x \<in> set es. truthyId (se_id x) \<and> map_of index (se_id x) = Some x"
  shows "walkToRoot index (Some e) path = Some (es @ e # path)"
  using assms
proof (induction es arbitrary: e path rule: rev_induct)
  case Nil
  then show ?case by (simp add: walk_Cons)
next
  case (snoc x es)
  have "linked IdNull (es @ [x])" "se_parentId e = se_id x"
    using snoc.prems(1) linked_snoc [of IdNull "es @ [x]" e] by simp_all
  with snoc.prems(2) snoc.IH [of x "e # path"] show ?case by (simp add: walk_Cons)
qed

section \<open>The index\<close>

lemma map_of_entryIndex_fold:
  "map_of (fold (\<lambda>e. AList.update (se_id e) e) es m) i =
   (case findLast (\<lambda>e. se_id e = i) es of Some e \<Rightarrow> Some e | None \<Rightarrow> map_of m i)"
proof (induction es rule: rev_induct)
  case (snoc e es)
  then show ?case by (auto simp: update_conv findLast_append findLast_def)
qed (simp add: findLast_def)

lemma map_of_entryIndex: "map_of (entryIndex es) i = findLast (\<lambda>e. se_id e = i) es"
  by (simp add: entryIndex_def map_of_entryIndex_fold split: option.splits)

lemma findLast_distinct:
  assumes "distinct (map f xs)" "x \<in> set xs"
  shows "findLast (\<lambda>y. f y = f x) xs = Some x"
proof -
  obtain y where y: "findLast (\<lambda>y. f y = f x) xs = Some y"
    using assms(2) by (cases "findLast (\<lambda>y. f y = f x) xs") (auto simp: findLast_def find_None_iff)
  from findLast_Some [OF y] assms have "y = x" by (auto simp: distinct_map dest: inj_onD)
  with y show ?thesis by simp
qed

lemma entryIndex_distinct: "distinct (map se_id es) \<Longrightarrow> e \<in> set es \<Longrightarrow> map_of (entryIndex es) (se_id e) = Some e"
  by (simp add: map_of_entryIndex findLast_distinct)

lemma entryIndex_snoc: "entryIndex (es @ [e]) = AList.update (se_id e) e (entryIndex es)"
  by (simp add: entryIndex_def)

lemma indexLabel_fields [simp]:
  "sg_byId (indexLabel t l ts s) = sg_byId s" "sg_leafId (indexLabel t l ts s) = sg_leafId s"
  "sg_fileEntries (indexLabel t l ts s) = sg_fileEntries s" "sg_disk (indexLabel t l ts s) = sg_disk s"
  "sg_sessionFile (indexLabel t l ts s) = sg_sessionFile s" "sg_persist (indexLabel t l ts s) = sg_persist s"
  "sg_flushed (indexLabel t l ts s) = sg_flushed s" "sg_calls (indexLabel t l ts s) = sg_calls s"
  "sg_sessionId (indexLabel t l ts s) = sg_sessionId s" "sg_sessionDir (indexLabel t l ts s) = sg_sessionDir s" "sg_cwd (indexLabel t l ts s) = sg_cwd s"
  by (simp_all add: indexLabel_def)

lemma indexEntry_fields [simp]:
  "sg_byId (indexEntry e s) = AList.update (se_id e) e (sg_byId s)" "sg_leafId (indexEntry e s) = se_id e"
  "sg_fileEntries (indexEntry e s) = sg_fileEntries s" "sg_disk (indexEntry e s) = sg_disk s"
  "sg_sessionFile (indexEntry e s) = sg_sessionFile s" "sg_persist (indexEntry e s) = sg_persist s"
  "sg_flushed (indexEntry e s) = sg_flushed s" "sg_calls (indexEntry e s) = sg_calls s"
  "sg_sessionId (indexEntry e s) = sg_sessionId s" "sg_sessionDir (indexEntry e s) = sg_sessionDir s" "sg_cwd (indexEntry e s) = sg_cwd s"
  by (simp_all add: indexEntry_def Let_def split: sm_body.splits)

lemma fold_indexEntry_fields [simp]:
  "sg_byId (fold indexEntry es s) = fold (\<lambda>e. AList.update (se_id e) e) es (sg_byId s)"
  "sg_leafId (fold indexEntry es s) = (if es = [] then sg_leafId s else se_id (last es))"
  "sg_fileEntries (fold indexEntry es s) = sg_fileEntries s" "sg_disk (fold indexEntry es s) = sg_disk s"
  "sg_sessionFile (fold indexEntry es s) = sg_sessionFile s" "sg_persist (fold indexEntry es s) = sg_persist s"
  "sg_flushed (fold indexEntry es s) = sg_flushed s" "sg_calls (fold indexEntry es s) = sg_calls s"
  "sg_sessionId (fold indexEntry es s) = sg_sessionId s" "sg_sessionDir (fold indexEntry es s) = sg_sessionDir s" "sg_cwd (fold indexEntry es s) = sg_cwd s"
  by (induction es arbitrary: s) simp_all

lemma buildIndex_fields [simp]:
  "sg_byId (buildIndex s) = entryIndex (sessionEntries (sg_fileEntries s))"
  "sg_leafId (buildIndex s) =
     (if sessionEntries (sg_fileEntries s) = [] then IdNull else se_id (last (sessionEntries (sg_fileEntries s))))"
  "sg_fileEntries (buildIndex s) = sg_fileEntries s" "sg_disk (buildIndex s) = sg_disk s"
  "sg_sessionFile (buildIndex s) = sg_sessionFile s" "sg_persist (buildIndex s) = sg_persist s"
  "sg_flushed (buildIndex s) = sg_flushed s" "sg_calls (buildIndex s) = sg_calls s"
  "sg_sessionId (buildIndex s) = sg_sessionId s" "sg_sessionDir (buildIndex s) = sg_sessionDir s" "sg_cwd (buildIndex s) = sg_cwd s"
  by (simp_all add: buildIndex_def entryIndex_def)

lemma rewriteFile_fields [simp]:
  "sg_byId (rewriteFile C s) = sg_byId s" "sg_leafId (rewriteFile C s) = sg_leafId s"
  "sg_fileEntries (rewriteFile C s) = sg_fileEntries s" "sg_sessionFile (rewriteFile C s) = sg_sessionFile s"
  "sg_persist (rewriteFile C s) = sg_persist s" "sg_calls (rewriteFile C s) = sg_calls s"
  by (simp_all add: rewriteFile_def)

section \<open>Fresh ids\<close>

text \<open>The full ids of the source are long and do not repeat; none from the next call on is in use.\<close>

definition uuids_fresh :: "sm_source \<Rightarrow> nat \<Rightarrow> sid set \<Rightarrow> bool" where
  "uuids_fresh src n ids \<longleftrightarrow>
     inj (sr_randomUUID src) \<and> (\<forall>k. 8 < length (sr_randomUUID src k)) \<and> (\<forall>k \<ge> n. Id (sr_randomUUID src k) \<notin> ids)"

lemma uuids_fresh_later: "uuids_fresh src n ids \<Longrightarrow> n \<le> m \<Longrightarrow> uuids_fresh src m ids"
  by (auto simp: uuids_fresh_def)

lemma uuids_fresh_subset: "uuids_fresh src n ids \<Longrightarrow> ids' \<subseteq> ids \<Longrightarrow> n \<le> m \<Longrightarrow> uuids_fresh src m ids'"
  by (auto simp: uuids_fresh_def subset_iff)

lemma generateIdFrom_fresh:
  "uuids_fresh src n ids \<Longrightarrow> generateIdFrom k src (\<lambda>i. i \<in> ids) n = (i, m) \<Longrightarrow>
   i \<notin> ids \<and> truthyId i \<and> n < m \<and> uuids_fresh src m (insert i ids)"
proof (induction k arbitrary: n)
  case 0
  have "8 < length (sr_randomUUID src n)" using 0(1) by (simp add: uuids_fresh_def)
  then have "truthyId (Id (sr_randomUUID src n))" by auto
  with 0 show ?case by (auto simp: uuids_fresh_def inj_eq)
next
  case (Suc k)
  show ?case
  proof (cases "Id (take 8 (sr_randomUUID src n)) \<in> ids")
    case True
    with Suc.prems Suc.IH [of "Suc n"] show ?thesis by (auto simp: Let_def dest: uuids_fresh_later [where m = "Suc n"])
  next
    case False
    have len: "8 < length (sr_randomUUID src k)" for k using Suc.prems(1) by (simp add: uuids_fresh_def)
    have "take 8 (sr_randomUUID src n) \<noteq> sr_randomUUID src k" for k
    proof
      assume "take 8 (sr_randomUUID src n) = sr_randomUUID src k"
      then have "length (sr_randomUUID src k) \<le> 8" by (metis length_take min.cobounded2)
      with len [of k] show False by simp
    qed
    then have "sr_randomUUID src k \<noteq> take 8 (sr_randomUUID src n)" for k by metis
    moreover have "take 8 (sr_randomUUID src n) \<noteq> []" using len [of n] by auto
    ultimately show ?thesis using False Suc.prems by (auto simp: Let_def uuids_fresh_def)
  qed
qed

lemmas generateId_fresh = generateIdFrom_fresh [where k = 100, folded generateId_def]

section \<open>Labels and the context\<close>

definition plainEntries :: "sm_entry list \<Rightarrow> sm_entry list" where
  "plainEntries es = filter (\<lambda>e. \<not> isLabelEntry e) es"

lemma label_no_message [simp]: "isLabelEntry e \<Longrightarrow> entryToMessages getTime e = []"
  by (simp add: isLabelEntry_def entryToMessages_def split: sm_body.splits)

lemma label_no_setting [simp]: "isLabelEntry e \<Longrightarrow> settingsStep e s = s"
  by (simp add: isLabelEntry_def settingsStep_def split: sm_body.splits)

lemma label_no_compaction [simp]: "isLabelEntry e \<Longrightarrow> smCompactionOf e = None"
  by (simp add: isLabelEntry_def smCompactionOf_def split: sm_body.splits)

lemma plain_distinct: "distinct (map se_id es) \<Longrightarrow> distinct (map se_id (plainEntries es))"
  by (simp add: plainEntries_def distinct_map_filter)

lemma plain_messages: "concat (map (entryToMessages getTime) (plainEntries es)) = concat (map (entryToMessages getTime) es)"
  by (induction es) (auto simp: plainEntries_def)

lemma plain_settings: "getSessionContextSettings (plainEntries es) = getSessionContextSettings es"
proof -
  have "fold settingsStep (plainEntries es) s = fold settingsStep es s" for s
    by (induction es arbitrary: s) (auto simp: plainEntries_def)
  then show ?thesis by (simp add: getSessionContextSettings_def)
qed

lemma plain_latest: "getLatestCompactionEntry (plainEntries es) = getLatestCompactionEntry es"
  unfolding getLatestCompactionEntry_def
proof (induction es rule: rev_induct)
  case (snoc e es)
  then show ?case by (auto simp: plainEntries_def findLast_append findLast_def)
qed (simp add: plainEntries_def)

text \<open>The last compaction of a path, and what is before and after it.\<close>

lemma latest_split:
  assumes "getLatestCompactionEntry path = Some c"
  obtains before after where "path = before @ c # after" "smCompactionOf c \<noteq> None"
    "\<forall>e \<in> set after. smCompactionOf e = None"
proof -
  from assms have "\<exists>before after. path = before @ c # after \<and> smCompactionOf c \<noteq> None \<and> (\<forall>e \<in> set after. smCompactionOf e = None)"
    unfolding getLatestCompactionEntry_def
  proof (induction path rule: rev_induct)
    case (snoc e path)
    show ?case
    proof (cases "smCompactionOf e = None")
      case True
      with snoc obtain before after where "path = before @ c # after" "smCompactionOf c \<noteq> None"
        "\<forall>e \<in> set after. smCompactionOf e = None" by (auto simp: findLast_append findLast_def)
      with True have "path @ [e] = before @ c # (after @ [e])" "smCompactionOf c \<noteq> None"
        "\<forall>x \<in> set (after @ [e]). smCompactionOf x = None" by auto
      then show ?thesis by blast
    next
      case False
      with snoc.prems have "c = e" by (simp add: findLast_append findLast_def)
      with False show ?thesis by fastforce
    qed
  qed (simp add: findLast_def)
  with that show thesis by blast
qed

lemma findIndex_append_here: "\<forall>x \<in> set xs. \<not> P x \<Longrightarrow> P y \<Longrightarrow> findIndex P (xs @ y # ys) = Some (length xs)"
  by (induction xs) auto

lemma contextEntriesOf_split:
  assumes "getLatestCompactionEntry (before @ c # after) = Some c" "distinct (map se_id (before @ c # after))"
  shows "contextEntriesOf (before @ c # after) =
    c # dropWhile (\<lambda>e. se_id e \<noteq> sc_firstKeptEntryId (the (smCompactionOf c))) before @ after"
proof -
  have "findIndex (\<lambda>e. se_id e = se_id c) (before @ c # after) = Some (length before)"
    by (rule findIndex_append_here) (use assms(2) in \<open>auto simp: image_iff\<close>)
  with assms(1) show ?thesis by (simp add: contextEntriesOf_def)
qed

lemma dropWhile_plain:
  "\<forall>e \<in> set es. isLabelEntry e \<longrightarrow> se_id e \<noteq> k \<Longrightarrow>
   plainEntries (dropWhile (\<lambda>e. se_id e \<noteq> k) es) = dropWhile (\<lambda>e. se_id e \<noteq> k) (plainEntries es)"
  by (induction es) (auto simp: plainEntries_def)

lemma contextEntriesOf_plain:
  assumes distinct: "distinct (map se_id path)"
    and kept: "\<And>c e. getLatestCompactionEntry path = Some c \<Longrightarrow> e \<in> set path \<Longrightarrow> isLabelEntry e \<Longrightarrow>
      se_id e \<noteq> sc_firstKeptEntryId (the (smCompactionOf c))"
  shows "contextEntriesOf (plainEntries path) = plainEntries (contextEntriesOf path)"
proof (cases "getLatestCompactionEntry path")
  case None
  then show ?thesis using plain_latest [of path] by (simp add: contextEntriesOf_def)
next
  case (Some c)
  then obtain before after where path: "path = before @ c # after" and c: "smCompactionOf c \<noteq> None"
    by (rule latest_split)
  let ?k = "sc_firstKeptEntryId (the (smCompactionOf c))"
  have plain: "\<not> isLabelEntry c" using c by auto
  then have split: "plainEntries path = plainEntries before @ c # plainEntries after" by (simp add: path plainEntries_def)
  note plain_distinct [OF distinct]
  with contextEntriesOf_split [of "plainEntries before" c "plainEntries after"] Some plain_latest [of path] split
  have "contextEntriesOf (plainEntries path) =
      c # dropWhile (\<lambda>e. se_id e \<noteq> ?k) (plainEntries before) @ plainEntries after" by simp
  also have "\<dots> = c # plainEntries (dropWhile (\<lambda>e. se_id e \<noteq> ?k) before) @ plainEntries after"
    using dropWhile_plain [of before ?k] kept [OF Some] by (simp add: path)
  also have "\<dots> = plainEntries (contextEntriesOf path)"
    using contextEntriesOf_split [of before c after] Some distinct plain by (simp add: path plainEntries_def)
  finally show ?thesis .
qed

text \<open>The parent of an entry has no part in the context.\<close>

definition unlinked :: "sm_entry \<Rightarrow> sm_entry" where
  "unlinked e = e\<lparr>se_parentId := IdNull\<rparr>"

lemma unlinked_fields [simp]:
  "se_id (unlinked e) = se_id e" "se_body (unlinked e) = se_body e" "se_timestamp (unlinked e) = se_timestamp e"
  by (simp_all add: unlinked_def)

lemma unlinked_simps [simp]:
  "entryToMessages getTime (unlinked e) = entryToMessages getTime e" "settingsStep (unlinked e) s = settingsStep e s"
  "smCompactionOf (unlinked e) = smCompactionOf e" "isLabelEntry (unlinked e) = isLabelEntry e"
  "unlinked (e\<lparr>se_parentId := p\<rparr>) = unlinked e"
  by (simp_all add: entryToMessages_def settingsStep_def smCompactionOf_def isLabelEntry_def
      split: sm_body.split raw_message.split)
    (simp add: unlinked_def)

lemma findIndex_map: "findIndex P (map f xs) = findIndex (\<lambda>x. P (f x)) xs"
  by (induction xs) auto

lemma unlinked_latest: "getLatestCompactionEntry (map unlinked path) = map_option unlinked (getLatestCompactionEntry path)"
  unfolding getLatestCompactionEntry_def
proof (induction path rule: rev_induct)
  case (snoc e path)
  then show ?case by (auto simp: findLast_append findLast_def)
qed (simp add: findLast_def)

lemma unlinked_entries: "contextEntriesOf (map unlinked path) = map unlinked (contextEntriesOf path)"
  by (simp add: contextEntriesOf_def unlinked_latest findIndex_map dropWhile_map comp_def take_map drop_map
      split: option.splits)

lemma unlinked_context: "contextOfPath getTime (map unlinked path) = contextOfPath getTime path"
proof -
  have "fold settingsStep (map unlinked path) s = fold settingsStep path s" for s
    by (induction path arbitrary: s) simp_all
  then show ?thesis
    by (simp add: contextOfPath_def getSessionContextSettings_def unlinked_entries comp_def)
qed

lemma same_context: "map unlinked path = map unlinked path' \<Longrightarrow> contextOfPath getTime path = contextOfPath getTime path'"
  using unlinked_context by metis

lemma plain_context:
  assumes "distinct (map se_id path)"
    and "\<And>c e. getLatestCompactionEntry path = Some c \<Longrightarrow> e \<in> set path \<Longrightarrow> isLabelEntry e \<Longrightarrow>
      se_id e \<noteq> sc_firstKeptEntryId (the (smCompactionOf c))"
  shows "contextOfPath getTime (plainEntries path) = contextOfPath getTime path"
  using contextEntriesOf_plain [OF assms] plain_settings [of path] plain_messages [of getTime "contextEntriesOf path"]
  by (simp add: contextOfPath_def)

section \<open>Well-formed sessions\<close>

text \<open>Each entry comes after its parent, and ids are not repeated.\<close>

inductive tree_ok :: "sm_entry list \<Rightarrow> bool" where
  tree_Nil: "tree_ok []"
| tree_snoc: "tree_ok es \<Longrightarrow> se_id e \<notin> se_id ` set es \<Longrightarrow> truthyId (se_id e) \<Longrightarrow>
    se_parentId e = IdNull \<or> se_parentId e \<in> se_id ` set es \<Longrightarrow> tree_ok (es @ [e])"

lemma tree_distinct: "tree_ok es \<Longrightarrow> distinct (map se_id es) \<and> (\<forall>e \<in> set es. truthyId (se_id e))"
  by (induction rule: tree_ok.induct) auto

lemma linked_tree_ok:
  "linked IdNull es \<Longrightarrow> distinct (map se_id es) \<Longrightarrow> \<forall>e \<in> set es. truthyId (se_id e) \<Longrightarrow> tree_ok es"
proof (induction es rule: rev_induct)
  case (snoc e es)
  then have "tree_ok es" "se_parentId e = (if es = [] then IdNull else se_id (last es))" by (simp_all add: linked_snoc)
  with snoc.prems(2,3) show ?case by (intro tree_snoc) auto
qed (rule tree_Nil)

lemma subseq_distinct: "subseq xs ys \<Longrightarrow> distinct ys \<Longrightarrow> distinct xs"
  by (auto simp: subseq_conv_nths intro: distinct_nthsI)

lemma subseq_snoc_same: "subseq xs ys \<Longrightarrow> subseq (xs @ [x]) (ys @ [x])"
  by (rule list_emb_append_mono) simp_all

lemma walk_tree:
  assumes "tree_ok es" "e \<in> set es" "\<forall>x \<in> set es. map_of index (se_id x) = Some x"
  obtains p where "\<And>acc. walkToRoot index (Some e) acc = Some (p @ e # acc)" "linked IdNull (p @ [e])"
    "subseq (p @ [e]) es"
proof -
  from assms have "\<exists>p. (\<forall>acc. walkToRoot index (Some e) acc = Some (p @ e # acc)) \<and> linked IdNull (p @ [e]) \<and> subseq (p @ [e]) es"
  proof (induction arbitrary: e rule: tree_ok.induct)
    case (tree_snoc es x)
    show ?case
    proof (cases "e \<in> set es")
      case True
      from tree_snoc.IH [OF this] tree_snoc.prems(2) obtain p where
        "\<forall>acc. walkToRoot index (Some e) acc = Some (p @ e # acc)" "linked IdNull (p @ [e])" "subseq (p @ [e]) es"
        by auto
      moreover from this(3) have "subseq (p @ [e]) (es @ [x])" by (meson subseq_order.order_trans subseq_rev_drop_many subseq_order.order_refl list_emb_append2)
      ultimately show ?thesis by blast
    next
      case False
      with tree_snoc.prems(1) have e: "e = x" by simp
      show ?thesis
      proof (cases "se_parentId x = IdNull")
        case True
        have "subseq ([] @ [x]) (es @ [x])" using subseq_snoc_same [of "[]" es x] by simp
        with True show ?thesis by (intro exI [of _ "[]"]) (simp add: e walk_Cons)
      next
        case False
        with tree_snoc.hyps(4) obtain y where y: "y \<in> set es" "se_parentId x = se_id y" by auto
        from tree_snoc.IH [OF y(1)] tree_snoc.prems(2) obtain p where
          p: "\<forall>acc. walkToRoot index (Some y) acc = Some (p @ y # acc)" "linked IdNull (p @ [y])" "subseq (p @ [y]) es"
          by auto
        have "truthyId (se_id y)" using tree_distinct [OF tree_snoc.hyps(1)] y(1) by simp
        moreover have "map_of index (se_id y) = Some y" using tree_snoc.prems(2) y(1) by simp
        moreover have "linked IdNull ((p @ [y]) @ [x])" using p(2) y(2) by (simp only: linked_snoc) simp
        ultimately show ?thesis using p subseq_snoc_same [OF p(3), of x]
          by (intro exI [of _ "p @ [y]"]) (simp add: e walk_Cons y(2))
      qed
    qed
  qed simp
  with that show thesis by blast
qed

definition session_ok :: "session_manager \<Rightarrow> bool" where
  "session_ok s \<longleftrightarrow> tree_ok (getEntries s) \<and> sg_byId s = entryIndex (getEntries s) \<and>
     (sg_leafId s = IdNull \<or> sg_leafId s \<in> se_id ` set (getEntries s))"

lemma map_of_byId: "session_ok s \<Longrightarrow> e \<in> set (getEntries s) \<Longrightarrow> map_of (sg_byId s) (se_id e) = Some e"
  using tree_distinct [of "getEntries s"] by (simp add: session_ok_def entryIndex_distinct)

lemma fst_entryIndex: "fst ` set (entryIndex es) = se_id ` set es"
proof (induction es rule: rev_induct)
  case (snoc e es)
  then show ?case by (simp add: entryIndex_snoc dom_update)
qed (simp add: entryIndex_def)

lemma hasId_iff: "session_ok s \<Longrightarrow> hasId s i \<longleftrightarrow> i \<in> se_id ` set (getEntries s)"
  by (simp add: hasId_def session_ok_def fst_entryIndex)

text \<open>The branch to an entry.\<close>

lemma branch_path:
  assumes "session_ok s" "hasId s (Id i)"
  obtains p where "smGetBranch (Some i) s = Some p" "p \<noteq> []" "linked IdNull p" "subseq p (getEntries s)" "se_id (last p) = Id i"
    "smContext getTime (s\<lparr>sg_leafId := Id i\<rparr>) = Some (contextOfPath getTime p)"
proof -
  from assms obtain e where e: "e \<in> set (getEntries s)" "Id i = se_id e" by (auto simp: hasId_iff)
  have index: "\<forall>x \<in> set (getEntries s). map_of (sg_byId s) (se_id x) = Some x" using map_of_byId [OF assms(1)] by blast
  have tree: "tree_ok (getEntries s)" using assms(1) by (simp add: session_ok_def)
  from walk_tree [OF tree e(1) index] obtain p where
    p: "\<And>acc. walkToRoot (sg_byId s) (Some e) acc = Some (p @ e # acc)" "linked IdNull (p @ [e])" "subseq (p @ [e]) (getEntries s)"
    by blast
  have "truthyId (Id i)" using tree_distinct [OF tree] e by simp
  moreover have "map_of (sg_byId s) (Id i) = Some e" using index e by metis
  ultimately have "smGetBranch (Some i) s = Some (p @ [e])"
    "smContext getTime (s\<lparr>sg_leafId := Id i\<rparr>) = Some (contextOfPath getTime (p @ [e]))"
    by (simp_all add: smGetBranch_def p(1) smContext_def smBuildSessionContext_def buildSessionPath_def buildEntryIndex_def
        leafEntry_def getEntries_def del: truthyId.simps)
  with p(2,3) e(2) that [of "p @ [e]"] show thesis by simp
qed

text \<open>A session that is one chain.\<close>

lemma linked_context:
  assumes "getEntries s = es" "linked IdNull es" "distinct (map se_id es)" "\<forall>e \<in> set es. truthyId (se_id e)"
    and "sg_byId s = entryIndex es" "sg_leafId s = (if es = [] then IdNull else se_id (last es))"
  shows "smContext getTime s = Some (contextOfPath getTime es)"
proof (cases es rule: rev_cases)
  case Nil
  with assms show ?thesis by (simp add: smContext_def smBuildSessionContext_def buildSessionPath_def)
next
  case (snoc xs e)
  have index: "map_of (entryIndex es) (se_id x) = Some x" if "x \<in> set es" for x
    by (rule entryIndex_distinct [OF assms(3) that])
  have "walkToRoot (entryIndex es) (Some e) [] = Some (xs @ [e])"
    by (rule walk_linked) (use assms(2,4) index snoc in auto)
  moreover have "truthyId (se_id e)" "se_id e \<noteq> IdNull" using assms(4) snoc by (auto simp: split: sid.splits)
  ultimately show ?thesis using assms(1,5,6) index [of e] snoc
    by (simp add: smContext_def smBuildSessionContext_def buildSessionPath_def buildEntryIndex_def leafEntry_def)
qed

section \<open>The entries of a branched session\<close>

lemma rechain_facts:
  "map unlinked (rechain p es) = map unlinked (plainEntries es)" "linked p (rechain p es)"
  "map se_id (rechain p es) = map se_id (plainEntries es)"
  by (induction es arbitrary: p) (simp_all add: plainEntries_def)

lemma labelChain_facts:
  "labelChain src ids p ls n = (es, m) \<Longrightarrow> uuids_fresh src n ids \<Longrightarrow>
   linked p es \<and> distinct (map se_id es) \<and> se_id ` set es \<inter> ids = {} \<and> (\<forall>e \<in> set es. isLabelEntry e \<and> truthyId (se_id e))"
proof (induction src ids p ls n arbitrary: es m rule: labelChain.induct)
  case (2 src ids p target label timestamp ls n)
  obtain i n1 where i: "generateId src (\<lambda>i. i \<in> ids) n = (i, n1)" by fastforce
  obtain es1 m1 where rest: "labelChain src (insert i ids) i ls n1 = (es1, m1)" by fastforce
  from generateId_fresh [OF 2(3) i] have fresh: "i \<notin> ids" "truthyId i" "uuids_fresh src n1 (insert i ids)" by auto
  have es: "es = \<lparr>se_id = i, se_parentId = p, se_timestamp = timestamp, se_body = SM_label target (Some label)\<rparr> # es1"
    using 2(2) i rest by simp
  from 2(1) [OF i [symmetric] rest fresh(3)] fresh(1,2) show ?case unfolding es by (auto simp: isLabelEntry_def)
qed simp

lemma no_compaction_drop: "\<forall>e \<in> set ys. smCompactionOf e = None \<Longrightarrow>
   findLast (\<lambda>e. smCompactionOf e \<noteq> None) (xs @ ys) = findLast (\<lambda>e. smCompactionOf e \<noteq> None) xs"
  by (induction ys rule: rev_induct) (simp_all add: findLast_append findLast_def flip: append_assoc)

text \<open>Labels at the end add nothing.\<close>

lemma labels_at_end:
  assumes "\<forall>e \<in> set labels. isLabelEntry e" "distinct (map se_id (path @ labels))"
  shows "contextOfPath getTime (path @ labels) = contextOfPath getTime path"
proof -
  have "plainEntries labels = []" using assms(1) by (simp add: plainEntries_def)
  then have "getSessionContextSettings (path @ labels) = getSessionContextSettings path"
    using plain_settings [of "path @ labels"] plain_settings [of path] by (simp add: plainEntries_def)
  moreover have "concat (map (entryToMessages getTime) (contextEntriesOf (path @ labels))) =
      concat (map (entryToMessages getTime) (contextEntriesOf path))"
  proof (cases "getLatestCompactionEntry path")
    case None
    then have "getLatestCompactionEntry (path @ labels) = None"
      using no_compaction_drop [of labels path] assms(1) by (simp add: getLatestCompactionEntry_def)
    with None assms(1) show ?thesis by (simp add: contextEntriesOf_def)
  next
    case (Some c)
    then obtain before after where path: "path = before @ c # after" by (rule latest_split)
    from Some have "getLatestCompactionEntry (path @ labels) = Some c"
      using no_compaction_drop [of labels path] assms(1) by (simp add: getLatestCompactionEntry_def)
    moreover have "distinct (map se_id (before @ c # after @ labels))" "distinct (map se_id (before @ c # after))"
      using assms(2) by (simp_all add: path) blast
    moreover have "concat (map (entryToMessages getTime) labels) = []" using assms(1) by simp
    ultimately show ?thesis
      using contextEntriesOf_split [of before c "after @ labels"] contextEntriesOf_split [of before c after] Some
      by (simp add: path)
  qed
  ultimately show ?thesis by (simp add: contextOfPath_def)
qed

end
