(* ===== verification/SessionSamples.thy ===== *)
theory SessionSamples
  imports SessionFiles SessionManagerFacts
begin

text \<open>Concrete sessions, for the instances of the properties.\<close>

definition sampleSource :: sm_source where
  "sampleSource = \<lparr>sr_randomUUID = (\<lambda>k. replicate k 97 @ replicate 9 98), sr_sessionUUID = (\<lambda>k. [115]),
     sr_clock = (\<lambda>k. replicate k 49)\<rparr>"

lemma sampleSource_fresh:
  assumes "\<And>k. n \<le> k \<Longrightarrow> Id (replicate k 97 @ replicate 9 98) \<notin> ids"
  shows "uuids_fresh sampleSource n ids"
proof -
  have "inj (\<lambda>k. replicate k 97 @ replicate 9 (98 :: jchar))"
  proof (rule injI)
    fix k m assume "replicate k 97 @ replicate 9 (98 :: jchar) = replicate m 97 @ replicate 9 98"
    then have "length (replicate k 97 @ replicate 9 (98 :: jchar)) = length (replicate m 97 @ replicate 9 (98 :: jchar))" by simp
    then show "k = m" by simp
  qed
  then show ?thesis using assms by (simp add: uuids_fresh_def sampleSource_def)
qed

definition samplePaths :: path_env where
  "samplePaths = \<lparr>pe_home = [47], pe_cwd = [47], pe_fileURLToPath = (\<lambda>_. Inl [])\<rparr>"

text \<open>A codec for a list of entries that differ in their ids or times.\<close>

fun plainText :: "file_entry \<Rightarrow> jstr" where
  "plainText (FHeader h) = 72 # orDefault (hd_id h) []"
| "plainText (FEntry e) = 69 # (case se_id e of Id i \<Rightarrow> i | _ \<Rightarrow> []) @ 45 # se_timestamp e"

definition listCodec :: "file_entry list \<Rightarrow> sm_codec" where
  "listCodec es = \<lparr>sx_parse = (\<lambda>t. find (\<lambda>e. plainText e = t) es), sx_text = plainText\<rparr>"

lemma find_distinct: "distinct (map f es) \<Longrightarrow> e \<in> set es \<Longrightarrow> find (\<lambda>x. f x = f e) es = Some e"
  by (induction es) (auto simp: rev_image_eqI)

lemma listCodec_parse:
  "distinct (map plainText es) \<Longrightarrow> e \<in> set es \<Longrightarrow> sx_parse (listCodec es) (sx_text (listCodec es) e) = Some e"
  by (simp add: listCodec_def find_distinct)

definition sampleRuntime :: "file_entry list \<Rightarrow> sm_runtime" where
  "sampleRuntime es = \<lparr>rt_source = sampleSource, rt_codec = listCodec es, rt_paths = samplePaths\<rparr>"

lemma sampleRuntime_simps [simp]:
  "rt_source (sampleRuntime es) = sampleSource" "rt_codec (sampleRuntime es) = listCodec es"
  "rt_paths (sampleRuntime es) = samplePaths"
  by (simp_all add: sampleRuntime_def)

definition sampleQuestion :: agent_message where
  "sampleQuestion = Msg (MUser \<lparr>um_content = UString [104], um_timestamp = 1\<rparr>)"

definition sampleAnswer :: agent_message where
  "sampleAnswer = Msg (MAssistant \<lparr>am_content = [], am_api = [], am_provider = [112], am_model = [109],
     am_responseModel = None, am_responseId = None, am_diagnostics = None,
     am_usage = \<lparr>us_input = 0, us_output = 0, us_cacheRead = 0, us_cacheWrite = 0, us_cacheWrite1h = None,
       us_reasoning = None, us_totalTokens = 0,
       us_cost = \<lparr>uc_input = 0, uc_output = 0, uc_cacheRead = 0, uc_cacheWrite = 0, uc_total = 0\<rparr>\<rparr>,
     am_stopReason = SR_stop, am_errorMessage = None, am_timestamp = 2\<rparr>)"

text \<open>A question with a label, an answer, a compaction that keeps entries from a given one on, and a
  question.\<close>

definition chainEntry :: "jchar \<Rightarrow> sid \<Rightarrow> sm_body \<Rightarrow> sm_entry" where
  "chainEntry i parent b = \<lparr>se_id = Id [i], se_parentId = parent, se_timestamp = [i], se_body = b\<rparr>"

definition chainCompaction :: "jchar \<Rightarrow> sm_entry" where
  "chainCompaction kept = chainEntry 4 (Id [3]) (SM_compaction \<lparr>sc_summary = [115], sc_firstKeptEntryId = Id [kept],
     sc_firstKeptEntryIndex = None, sc_tokensBefore = 9, sc_details = None, sc_usage = None, sc_fromHook = None\<rparr>)"

definition chainLabel :: sm_entry where
  "chainLabel = chainEntry 2 (Id [1]) (SM_label (Id [1]) (Some [120]))"

definition chainBefore :: "sm_entry list" where
  "chainBefore = [chainEntry 1 IdNull (SM_message (Known sampleQuestion)), chainLabel,
     chainEntry 3 (Id [2]) (SM_message (Known sampleAnswer))]"

definition chainAfter :: "sm_entry list" where
  "chainAfter = [chainEntry 5 (Id [4]) (SM_message (Known sampleQuestion))]"

definition chainEntries :: "jchar \<Rightarrow> sm_entry list" where
  "chainEntries kept = chainBefore @ chainCompaction kept # chainAfter"

definition chainSession :: "jchar \<Rightarrow> session_manager" where
  "chainSession kept = buildIndex ((blankManager [47] [47] False (\<lambda>_. None) 0)\<lparr>sg_fileEntries := map FEntry (chainEntries kept)\<rparr>)"

lemmas chain_defs = chainEntries_def chainBefore_def chainAfter_def chainCompaction_def chainLabel_def chainEntry_def

lemma chain_facts:
  "linked IdNull (chainEntries kept)" "distinct (map se_id (chainEntries kept))"
  "\<forall>e \<in> set (chainEntries kept). truthyId (se_id e)"
  by (simp_all add: chain_defs)

lemma chain_entries: "getEntries (chainSession kept) = chainEntries kept" "sg_calls (chainSession kept) = 0"
  by (simp_all add: chainSession_def getEntries_def blankManager_def)

lemma chain_ok: "session_ok (chainSession kept)"
proof -
  have "tree_ok (chainEntries kept)" by (rule linked_tree_ok [OF chain_facts])
  moreover have "sg_byId (chainSession kept) = entryIndex (chainEntries kept)"
    "sg_leafId (chainSession kept) = Id [5]" by (simp_all add: chainSession_def chain_defs)
  moreover have "Id [5] \<in> se_id ` set (chainEntries kept)" by (simp add: chain_defs)
  ultimately show ?thesis by (simp add: session_ok_def chain_entries)
qed

lemma chain_has: "hasId (chainSession kept) (Id [5])"
  by (simp add: hasId_iff [OF chain_ok] chain_entries chain_defs)

lemma chain_fresh:
  "uuids_fresh sampleSource (sg_calls (chainSession kept)) (se_id ` set (getEntries (chainSession kept)))"
proof (rule sampleSource_fresh)
  fix k
  have "replicate k 97 @ replicate 9 (98 :: jchar) \<noteq> [c]" for c
  proof
    assume "replicate k 97 @ replicate 9 (98 :: jchar) = [c]"
    then have "length (replicate k 97 @ replicate 9 (98 :: jchar)) = length [c]" by (rule arg_cong)
    then show False by simp
  qed
  then show "Id (replicate k 97 @ replicate 9 98) \<notin> se_id ` set (getEntries (chainSession kept))"
    by (auto simp: chain_entries chain_defs)
qed

lemma chain_branch: "smGetBranch (Some [5]) (chainSession kept) = Some (chainEntries kept)"
proof -
  have split: "chainEntries kept = (chainBefore @ [chainCompaction kept]) @ [hd chainAfter]"
    by (simp add: chainEntries_def chainAfter_def)
  have index: "map_of (entryIndex (chainEntries kept)) (se_id e) = Some e" if "e \<in> set (chainEntries kept)" for e
    by (rule entryIndex_distinct [OF chain_facts(2) that])
  have "walkToRoot (entryIndex (chainEntries kept)) (Some (hd chainAfter)) [] = Some ((chainBefore @ [chainCompaction kept]) @ [hd chainAfter])"
    by (rule walk_linked) (use chain_facts [of kept] index split in auto)
  moreover have "map_of (entryIndex (chainEntries kept)) (Id [5]) = Some (hd chainAfter)"
    using index [of "hd chainAfter"] by (simp add: chain_defs)
  ultimately show ?thesis by (simp add: smGetBranch_def chainSession_def split)
qed

lemma chain_latest: "getLatestCompactionEntry (chainBefore @ chainCompaction kept # chainAfter) = Some (chainCompaction kept)"
  by (simp add: getLatestCompactionEntry_def findLast_def chain_defs smCompactionOf_def)

end
