(* ===== verification/SessionManagerProps.thy ===== *)
theory SessionManagerProps
  imports SessionSamples
begin

text \<open>
  What a branched session keeps of the context, and that it loses what a compaction keeps from a
  label on; that the file of a session holds its entries.
\<close>

section \<open>Branched sessions\<close>

definition keepsFromLabel :: "sm_entry list \<Rightarrow> bool" where
  "keepsFromLabel path =
     (case getLatestCompactionEntry path of
        None \<Rightarrow> False
      | Some c \<Rightarrow> list_ex (\<lambda>e. isLabelEntry e \<and> se_id e = sc_firstKeptEntryId (the (smCompactionOf c))) path)"

lemma branched_context:
  assumes ok: "session_ok s" and leaf: "hasId s (Id leafId)"
    and fresh: "uuids_fresh (rt_source R) (sg_calls s) (se_id ` set (getEntries s))"
    and path: "smGetBranch (Some leafId) s = Some path"
  obtains r s' where "createBranchedSession R leafId s = Some (Inr r, s')"
    "smContext getTime s' = Some (contextOfPath getTime (plainEntries path))" "session_ok s'"
proof -
  from branch_path [OF ok leaf] path have p: "path \<noteq> []" "subseq path (getEntries s)" by (metis option.inject)+
  have tree: "tree_ok (getEntries s)" using ok by (simp add: session_ok_def)
  from tree_distinct [OF this] have all_ok: "distinct (map se_id (getEntries s))" "\<forall>e \<in> set (getEntries s). truthyId (se_id e)"
    by auto
  have "set path \<subseteq> set (getEntries s)" using p(2) by (auto dest: list_emb_set)
  moreover have "distinct (map se_id path)" using subseq_distinct [OF subseq_map [OF p(2)] all_ok(1)] .
  ultimately have path_ok: "distinct (map se_id path)" "\<forall>e \<in> set path. truthyId (se_id e)" "set path \<subseteq> set (getEntries s)"
    using all_ok(2) by auto
  let ?kept = "rechain IdNull path" and ?src = "rt_source R"
  let ?ids = "se_id ` set ?kept"
  note re = rechain_facts [of IdNull path]
  have ids: "?ids = se_id ` set (plainEntries path)" using re(3) by (metis set_map)
  then have sub: "?ids \<subseteq> se_id ` set (getEntries s)" using path_ok(3) by (auto simp: plainEntries_def)
  have kept: "distinct (map se_id ?kept)" "\<forall>e \<in> set ?kept. truthyId (se_id e)"
  proof -
    show "distinct (map se_id ?kept)" unfolding re(3) by (rule plain_distinct [OF path_ok(1)])
    have "truthyId i" if "i \<in> ?ids" for i using that path_ok(2) unfolding ids by (auto simp: plainEntries_def)
    then show "\<forall>e \<in> set ?kept. truthyId (se_id e)" by blast
  qed
  have last: "lastIdOrNull ?kept = (if ?kept = [] then IdNull else se_id (last ?kept))"
    using kept(2) by (simp add: lastIdOrNull_def)
  obtain labels n where labels:
    "labelChain ?src ?ids (lastIdOrNull ?kept) (labelsToWrite ?ids s) (Suc (Suc (sg_calls s))) = (labels, n)" by fastforce
  have "uuids_fresh ?src (Suc (Suc (sg_calls s))) ?ids" by (rule uuids_fresh_subset [OF fresh sub]) simp
  from labelChain_facts [OF labels this] have lab: "linked (lastIdOrNull ?kept) labels" "distinct (map se_id labels)"
    "se_id ` set labels \<inter> ?ids = {}" "\<forall>e \<in> set labels. isLabelEntry e \<and> truthyId (se_id e)" by auto
  let ?es = "?kept @ labels"
  have linked: "linked IdNull ?es" using re(2) lab(1) last by (simp add: linked_append)
  have all: "distinct (map se_id ?es)" "\<forall>e \<in> set ?es. truthyId (se_id e)" using kept lab by auto
  obtain r s' where res: "createBranchedSession R leafId s = Some (Inr r, s')"
    "getEntries s' = ?es" "sg_byId s' = entryIndex ?es" "sg_leafId s' = (if ?es = [] then IdNull else se_id (last ?es))"
  proof (cases "sg_persist s")
    case True
    show thesis by (rule that, unfold createBranchedSession_def path option.case)
      (use p(1) True in \<open>simp_all add: Let_def labels getEntries_def split del: if_split, simp_all add: getEntries_def\<close>)
  next
    case False
    show thesis by (rule that, unfold createBranchedSession_def path option.case)
      (use p(1) False in \<open>simp_all add: Let_def labels getEntries_def split del: if_split, simp_all add: getEntries_def\<close>)
  qed
  have "contextOfPath getTime ?es = contextOfPath getTime ?kept"
    by (rule labels_at_end) (use lab(4) all(1) in auto)
  also have "\<dots> = contextOfPath getTime (plainEntries path)" by (rule same_context [OF re(1)])
  finally have "smContext getTime s' = Some (contextOfPath getTime (plainEntries path))"
    using linked_context [OF res(2) linked all res(3,4)] by simp
  moreover have "session_ok s'"
    using linked_tree_ok [OF linked all] res(2-4) last_in_set [of ?es] by (auto simp: session_ok_def simp del: set_append)
  ultimately show thesis using that res(1) by blast
qed



text \<open>C25: When the last compaction of the path keeps its entries from a label on, the session that is
  branched off has lost them: its context is the summary and what came after the compaction.\<close>

theorem branched_session_loses_kept:
  assumes "session_ok s" "hasId s (Id leafId)" "uuids_fresh (rt_source R) (sg_calls s) (se_id ` set (getEntries s))"
    and "smGetBranch (Some leafId) s = Some (before @ c # after)" "getLatestCompactionEntry (before @ c # after) = Some c"
    and "l \<in> set before" "isLabelEntry l" "se_id l = sc_firstKeptEntryId (the (smCompactionOf c))"
  shows "\<exists>r s' x. createBranchedSession R leafId s = Some (Inr r, s') \<and> smContext getTime s' = Some x \<and>
    sq_messages x = concat (map (entryToMessages getTime) (c # after))"
proof -
  let ?path = "before @ c # after"
  from branch_path [OF assms(1,2)] assms(4) have path: "subseq ?path (getEntries s)" by (metis option.inject)
  have "tree_ok (getEntries s)" using assms(1) by (simp add: session_ok_def)
  then have distinct: "distinct (map se_id ?path)" using subseq_distinct [OF subseq_map [OF path]] tree_distinct by blast
  have c: "\<not> isLabelEntry c" using assms(5) by (auto elim: latest_split)
  then have split: "plainEntries ?path = plainEntries before @ c # plainEntries after" by (simp add: plainEntries_def)
  from plain_distinct [OF distinct] contextEntriesOf_split [of "plainEntries before" c "plainEntries after"] assms(5) plain_latest [of ?path] split
  have "contextEntriesOf (plainEntries ?path) =
      c # dropWhile (\<lambda>e. se_id e \<noteq> se_id l) (plainEntries before) @ plainEntries after" by (simp add: assms(8))
  moreover have "\<forall>e \<in> set (plainEntries before). se_id e \<noteq> se_id l"
  proof
    fix e assume e: "e \<in> set (plainEntries before)"
    have "inj_on se_id (set before)" using distinct by (simp add: distinct_map)
    with e assms(6,7) show "se_id e \<noteq> se_id l" by (auto simp: plainEntries_def dest: inj_onD)
  qed
  ultimately have "contextEntriesOf (plainEntries ?path) = c # plainEntries after" by simp
  then have "sq_messages (contextOfPath getTime (plainEntries ?path)) = concat (map (entryToMessages getTime) (c # after))"
    by (simp add: contextOfPath_def plain_messages Let_def)
  with branched_context [OF assms(1-4), of getTime] show ?thesis by metis
qed

theorem branched_session_loses_kept_witness:
  "\<exists>r s' x. createBranchedSession (sampleRuntime []) [5] (chainSession 2) = Some (Inr r, s') \<and> smContext (\<lambda>_. 0) s' = Some x \<and>
    sq_messages x = concat (map (entryToMessages (\<lambda>_. 0)) (chainCompaction 2 # chainAfter))"
proof (rule branched_session_loses_kept [OF chain_ok chain_has _ chain_branch [unfolded chainEntries_def] chain_latest])
  show "uuids_fresh (rt_source (sampleRuntime [])) (sg_calls (chainSession 2)) (se_id ` set (getEntries (chainSession 2)))"
    using chain_fresh by simp
  show "chainLabel \<in> set chainBefore" by (simp add: chainBefore_def)
  show "isLabelEntry chainLabel" "se_id chainLabel = sc_firstKeptEntryId (the (smCompactionOf (chainCompaction 2)))"
    by (simp_all add: chain_defs isLabelEntry_def smCompactionOf_def)
qed

end
