(* ===== verification/SessionFileProps.thy ===== *)
theory SessionFileProps
  imports SessionSamples
begin

text \<open>
  The file of a session: for every sequence of the manager's operations it holds the entries, from
  the first answer on, and reading it gives the session back.
\<close>

section \<open>Operations in any order\<close>

datatype sm_op =
    OpMessage agent_message
  | OpThinkingLevel jstr
  | OpModel jstr jstr
  | OpCompaction jstr jstr int "json option" "bool option" "usage option"
  | OpCustom jstr "json option"
  | OpSessionInfo jstr
  | OpCustomMessage jstr user_content bool "json option"
  | OpLabel jstr "jstr option"
  | OpBranch jstr
  | OpResetLeaf
  | OpBranchSummary "jstr option" jstr "json option" "bool option" "usage option"

fun smStep :: "sm_runtime \<Rightarrow> sm_op \<Rightarrow> session_manager \<Rightarrow> session_manager" where
  "smStep R (OpMessage m) s = snd (smAppendMessage R m s)"
| "smStep R (OpThinkingLevel l) s = snd (smAppendThinkingLevelChange R l s)"
| "smStep R (OpModel p m) s = snd (smAppendModelChange R p m s)"
| "smStep R (OpCompaction summary kept tokens details hook u) s = snd (smAppendCompaction R summary kept tokens details hook u s)"
| "smStep R (OpCustom t d) s = snd (smAppendCustomEntry R t d s)"
| "smStep R (OpSessionInfo name) s = snd (smAppendSessionInfo R name s)"
| "smStep R (OpCustomMessage t c display d) s = snd (smAppendCustomMessageEntry R t c display d s)"
| "smStep R (OpLabel target label) s = snd (smAppendLabelChange R target label s)"
| "smStep R (OpBranch i) s = snd (branch i s)"
| "smStep R OpResetLeaf s = resetLeaf s"
| "smStep R (OpBranchSummary i summary details hook u) s = snd (branchWithSummary R i summary details hook u s)"

definition smRun :: "sm_runtime \<Rightarrow> sm_op list \<Rightarrow> session_manager \<Rightarrow> session_manager" where
  "smRun R ops s = fold (smStep R) ops s"

section \<open>The invariant\<close>

text \<open>The index is what the entries give, but for the leaf; the file has the entries or is not there.\<close>

fun labelsAfter :: "sm_entry \<Rightarrow> (sid \<times> jstr) list \<Rightarrow> (sid \<times> jstr) list" where
  "labelsAfter e m =
     (case se_body e of
        SM_label t l \<Rightarrow> if truthyStr l then AList.update t (the l) m else AList.delete t m
      | _ \<Rightarrow> m)"

fun timesAfter :: "sm_entry \<Rightarrow> (sid \<times> jstr) list \<Rightarrow> (sid \<times> jstr) list" where
  "timesAfter e m =
     (case se_body e of
        SM_label t l \<Rightarrow> if truthyStr l then AList.update t (se_timestamp e) m else AList.delete t m
      | _ \<Rightarrow> m)"

lemma labelsAfter_other: "\<forall>t l. se_body e \<noteq> SM_label t l \<Longrightarrow> labelsAfter e m = m \<and> timesAfter e m = m"
  by (cases "se_body e") auto

lemma indexEntry_labels:
  "sg_labelsById (indexEntry e s) = labelsAfter e (sg_labelsById s)"
  "sg_labelTimestampsById (indexEntry e s) = timesAfter e (sg_labelTimestampsById s)"
  by (simp_all add: indexEntry_def indexLabel_def Let_def split: sm_body.split)

lemma buildIndex_labels:
  "sg_labelsById (buildIndex s) = fold labelsAfter (getEntries s) []"
  "sg_labelTimestampsById (buildIndex s) = fold timesAfter (getEntries s) []"
proof -
  have "sg_labelsById (fold indexEntry es t) = fold labelsAfter es (sg_labelsById t)"
    "sg_labelTimestampsById (fold indexEntry es t) = fold timesAfter es (sg_labelTimestampsById t)" for es t
    by (induction es arbitrary: t) (simp_all add: indexEntry_labels del: labelsAfter.simps timesAfter.simps)
  then show "sg_labelsById (buildIndex s) = fold labelsAfter (getEntries s) []"
    "sg_labelTimestampsById (buildIndex s) = fold timesAfter (getEntries s) []"
    by (simp_all add: buildIndex_def getEntries_def del: labelsAfter.simps timesAfter.simps)
qed

definition indexed :: "session_manager \<Rightarrow> bool" where
  "indexed s \<longleftrightarrow> sg_byId s = entryIndex (getEntries s) \<and> sg_labelsById s = fold labelsAfter (getEntries s) [] \<and>
     sg_labelTimestampsById s = fold timesAfter (getEntries s) []"

definition headed :: "jstr \<Rightarrow> session_manager \<Rightarrow> bool" where
  "headed cwd s \<longleftrightarrow> (\<exists>t parent es. sg_fileEntries s = FHeader (newHeader (sg_sessionId s) t cwd parent) # map FEntry es)"

definition on_disk :: "sm_codec \<Rightarrow> jstr \<Rightarrow> (jstr \<Rightarrow> jstr option) \<Rightarrow> session_manager \<Rightarrow> bool" where
  "on_disk C p disk s \<longleftrightarrow>
     sg_persist s \<and> sg_sessionFile s = Some p \<and> p \<noteq> [] \<and> sg_flushed s = hasAssistant (sg_fileEntries s) \<and>
     sg_disk s = disk(p := if hasAssistant (sg_fileEntries s) then Some (sessionLines C (sg_fileEntries s)) else None)"

lemma hasAssistant_snoc: "hasAssistant (es @ [e]) \<longleftrightarrow> hasAssistant es \<or> isAssistantEntry e"
  by (auto simp: hasAssistant_def)

lemma sessionLines_snoc: "sessionLines C (es @ [e]) = sessionLines C es @ sessionLine C e"
  by (simp add: sessionLines_def)

lemma persist_keeps:
  assumes "on_disk C p disk s"
    and "s1 = s\<lparr>sg_calls := n, sg_fileEntries := sg_fileEntries s @ [FEntry e], sg_byId := m, sg_leafId := i\<rparr>"
  shows "\<exists>s2. persist C e s1 = (Inr (), s2) \<and> on_disk C p disk s2 \<and>
    s2 = s1\<lparr>sg_disk := sg_disk s2, sg_flushed := sg_flushed s2\<rparr>"
  using assms unfolding on_disk_def
  by (cases "sg_flushed s"; cases "isAssistantEntry (FEntry e)")
    (simp_all add: persist_def hasAssistant_snoc truthyStr_def appendLine_def sessionLines_snoc Let_def)

section \<open>Every operation keeps it\<close>

definition kept_by :: "sm_codec \<Rightarrow> jstr \<Rightarrow> (jstr \<Rightarrow> jstr option) \<Rightarrow> jstr \<Rightarrow> session_manager \<Rightarrow> bool" where
  "kept_by C p disk cwd s \<longleftrightarrow> on_disk C p disk s \<and> indexed s \<and> headed cwd s"

lemma kept_leaf: "kept_by C p disk cwd s \<Longrightarrow> kept_by C p disk cwd (s\<lparr>sg_leafId := i\<rparr>)"
  by (simp add: kept_by_def on_disk_def indexed_def headed_def getEntries_def)

text \<open>A new entry in the file, and in the index without its label.\<close>

lemma addEntry_keeps:
  assumes "kept_by C p disk cwd s"
  obtains s2 where "addEntry C e (s\<lparr>sg_calls := n\<rparr>) = (Inr (), s2)" "on_disk C p disk s2" "headed cwd s2"
    "getEntries s2 = getEntries s @ [e]" "sg_byId s2 = entryIndex (getEntries s2)"
    "sg_labelsById s2 = fold labelsAfter (getEntries s) []" "sg_labelTimestampsById s2 = fold timesAfter (getEntries s) []"
proof -
  let ?s1 = "s\<lparr>sg_calls := n, sg_fileEntries := sg_fileEntries s @ [FEntry e],
    sg_byId := AList.update (se_id e) e (sg_byId s), sg_leafId := se_id e\<rparr>"
  from assms have disk: "on_disk C p disk s" and ix: "indexed s" and hd: "headed cwd s" by (simp_all add: kept_by_def)
  from persist_keeps [OF disk refl] obtain s2 where s2: "persist C e ?s1 = (Inr (), s2)" "on_disk C p disk s2"
    "s2 = ?s1\<lparr>sg_disk := sg_disk s2, sg_flushed := sg_flushed s2\<rparr>" by blast
  have fields: "sg_fileEntries s2 = sg_fileEntries s @ [FEntry e]" "sg_sessionId s2 = sg_sessionId s"
    "sg_byId s2 = AList.update (se_id e) e (sg_byId s)" "sg_labelsById s2 = sg_labelsById s"
    "sg_labelTimestampsById s2 = sg_labelTimestampsById s"
    by (subst s2(3), simp)+
  have "headed cwd s2" using hd fields(1,2) by (fastforce simp: headed_def intro: exI [of _ "x @ [e]" for x])
  moreover have "addEntry C e (s\<lparr>sg_calls := n\<rparr>) = (Inr (), s2)" using s2(1) by (simp add: addEntry_def)
  ultimately show thesis using that s2(2) fields ix by (simp add: getEntries_def indexed_def entryIndex_snoc)
qed

lemma appendBody_keeps:
  assumes "kept_by C p disk cwd s" "C = rt_codec R" "\<forall>t l. body \<noteq> SM_label t l"
  shows "kept_by C p disk cwd (snd (appendBody R body s))"
proof -
  obtain i n where i: "generateId (rt_source R) (hasId s) (sg_calls s) = (i, n)" by fastforce
  let ?e = "\<lparr>se_id = i, se_parentId = sg_leafId s, se_timestamp = sr_clock (rt_source R) n, se_body = body\<rparr>"
  from addEntry_keeps [OF assms(1), of ?e "Suc n"] obtain s2 where s2: "addEntry C ?e (s\<lparr>sg_calls := Suc n\<rparr>) = (Inr (), s2)"
    "on_disk C p disk s2" "headed cwd s2" "getEntries s2 = getEntries s @ [?e]" "sg_byId s2 = entryIndex (getEntries s2)"
    "sg_labelsById s2 = fold labelsAfter (getEntries s) []" "sg_labelTimestampsById s2 = fold timesAfter (getEntries s) []"
    by blast
  have "indexed s2" using s2(4-7) labelsAfter_other [of ?e] assms(3)
    by (simp add: indexed_def del: labelsAfter.simps timesAfter.simps)
  with s2 show ?thesis by (simp add: appendBody_def newEntry_def i assms(2) [symmetric] kept_by_def)
qed

lemma appendLabel_keeps:
  assumes "kept_by C p disk cwd s" "C = rt_codec R"
  shows "kept_by C p disk cwd (snd (smAppendLabelChange R target label s))"
proof (cases "hasId s (Id target)")
  case True
  obtain i n where i: "generateId (rt_source R) (hasId s) (sg_calls s) = (i, n)" by fastforce
  let ?e = "\<lparr>se_id = i, se_parentId = sg_leafId s, se_timestamp = sr_clock (rt_source R) n, se_body = SM_label (Id target) label\<rparr>"
  from addEntry_keeps [OF assms(1), of ?e "Suc n"] obtain s2 where s2: "addEntry C ?e (s\<lparr>sg_calls := Suc n\<rparr>) = (Inr (), s2)"
    "on_disk C p disk s2" "headed cwd s2" "getEntries s2 = getEntries s @ [?e]" "sg_byId s2 = entryIndex (getEntries s2)"
    "sg_labelsById s2 = fold labelsAfter (getEntries s) []" "sg_labelTimestampsById s2 = fold timesAfter (getEntries s) []"
    by blast
  let ?s3 = "indexLabel (Id target) label (se_timestamp ?e) s2"
  have "on_disk C p disk ?s3" "headed cwd ?s3" "getEntries ?s3 = getEntries s2"
    using s2(2,3) by (simp_all add: on_disk_def headed_def indexLabel_def getEntries_def)
  moreover have "indexed ?s3" using s2(4-7) by (simp add: indexed_def indexLabel_def getEntries_def)
  ultimately show ?thesis using s2(1) True
    by (simp add: smAppendLabelChange_def newEntry_def i assms(2) [symmetric] kept_by_def)
qed (simp add: smAppendLabelChange_def assms(1))

lemma smStep_keeps: "kept_by (rt_codec R) p disk cwd s \<Longrightarrow> kept_by (rt_codec R) p disk cwd (smStep R op s)"
  by (cases op)
    (auto simp: smAppendMessage_def smAppendThinkingLevelChange_def smAppendModelChange_def smAppendCompaction_def
      smAppendCustomEntry_def smAppendSessionInfo_def smAppendCustomMessageEntry_def branch_def resetLeaf_def
      branchWithSummary_def Let_def intro!: appendBody_keeps appendLabel_keeps kept_leaf)

lemma smRun_keeps: "kept_by (rt_codec R) p disk cwd s \<Longrightarrow> kept_by (rt_codec R) p disk cwd (smRun R ops s)"
  unfolding smRun_def by (induction ops arbitrary: s) (simp_all add: smStep_keeps)

section \<open>A new session\<close>

lemma pathNormalize_not_Nil: "pathNormalize p \<noteq> []"
  by (simp add: pathNormalize_def Let_def DOT_def)

lemma pathJoin_not_Nil: "pathJoin ps \<noteq> []"
  by (simp add: pathJoin_def Let_def DOT_def pathNormalize_not_Nil)

text \<open>A fresh session whose file is not there.\<close>

definition newPersistent :: "sm_source \<Rightarrow> new_session_options \<Rightarrow> session_manager \<Rightarrow> jstr \<Rightarrow> session_manager \<Rightarrow> bool" where
  "newPersistent src opts s p s0 \<longleftrightarrow>
     newSession src opts s = (Inr (Some p), s0) \<and> sg_persist s \<and> sg_disk s p = None"

lemma new_keeps:
  assumes "newPersistent src opts s p s0"
  shows "kept_by C p (sg_disk s) (sg_cwd s) s0" "sg_disk s0 = sg_disk s"
proof -
  from assms have new: "newSession src opts s = (Inr (Some p), s0)" "sg_persist s" "sg_disk s p = None"
    by (simp_all add: newPersistent_def)
  obtain i n where i: "createSessionId src (no_id opts) (sg_calls s) = (i, n)" by fastforce
  have "p \<noteq> []" using new(1,2) i
    by (auto simp: newSession_def Let_def pathJoin_not_Nil split: if_splits)
  moreover from this new i show "sg_disk s0 = sg_disk s" by (auto simp: newSession_def Let_def split: if_splits)
  ultimately show "kept_by C p (sg_disk s) (sg_cwd s) s0" using new i
    by (auto simp: newSession_def Let_def kept_by_def on_disk_def indexed_def headed_def getEntries_def entryIndex_def
        hasAssistant_def intro!: exI [of _ "[] :: sm_entry list"] split: if_splits) blast+
qed

text \<open>C21: Whatever operations follow the creation of a session, its file holds a line for each of its
  entries in their order as soon as one of them is an answer of the assistant; until then there is no
  file, and no other file is touched.\<close>

theorem session_file_holds_entries:
  assumes "newPersistent (rt_source R) opts s p s0"
  shows "sg_disk (smRun R ops s0) = (sg_disk s)(p :=
    if hasAssistant (sg_fileEntries (smRun R ops s0))
    then Some (sessionLines (rt_codec R) (sg_fileEntries (smRun R ops s0))) else None)"
  using smRun_keeps [OF new_keeps(1) [OF assms]] by (simp add: kept_by_def on_disk_def)

text \<open>An instance: a question, its label, and the answer.\<close>

definition freshManager :: session_manager where
  "freshManager = blankManager [47] [47] True (\<lambda>_. None) 0"

definition startOptions :: new_session_options where
  "startOptions = noSessionOptions\<lparr>no_id := Some [120]\<rparr>"

definition startedSession :: session_manager where
  "startedSession = snd (newSession sampleSource startOptions freshManager)"

definition startedPath :: jstr where
  "startedPath = [47, 95, 120, 46, 106, 115, 111, 110, 108]"

definition startedOps :: "sm_op list" where
  "startedOps = [OpMessage sampleQuestion, OpLabel [97, 98, 98, 98, 98, 98, 98, 98] (Some [120]), OpMessage sampleAnswer]"

definition startedEntry :: "nat \<Rightarrow> sid \<Rightarrow> sm_body \<Rightarrow> sm_entry" where
  "startedEntry k parent b =
     \<lparr>se_id = Id (take 8 (replicate k 97 @ replicate 9 98)), se_parentId = parent, se_timestamp = replicate (Suc k) 49, se_body = b\<rparr>"

definition startedEntries :: "file_entry list" where
  "startedEntries =
     FHeader (newHeader [120] [] [47] None) #
     map FEntry [startedEntry 1 IdNull (SM_message (Known sampleQuestion)),
       startedEntry 3 (Id [97, 98, 98, 98, 98, 98, 98, 98])
         (SM_label (Id [97, 98, 98, 98, 98, 98, 98, 98]) (Some [120])),
       startedEntry 5 (Id [97, 97, 97, 98, 98, 98, 98, 98]) (SM_message (Known sampleAnswer))]"

lemma generate_first: "\<not> has (Id (take 8 (replicate n 97 @ replicate 9 98))) \<Longrightarrow>
  generateId sampleSource has n = (Id (take 8 (replicate n 97 @ replicate 9 98)), Suc n)"
  by (simp add: generateId_def numeral_eq_Suc sampleSource_def Let_def)

lemma started_path: "pathJoin [[47], sessionFileName [] [120]] = startedPath"
  by code_simp

lemma started_init: "startedSession = \<lparr>sg_sessionId = [120], sg_sessionFile = Some startedPath, sg_sessionDir = [47], sg_cwd = [47],
   sg_persist = True, sg_flushed = False, sg_fileEntries = [FHeader (newHeader [120] [] [47] None)], sg_byId = [],
   sg_labelsById = [], sg_labelTimestampsById = [], sg_leafId = IdNull, sg_disk = (\<lambda>_. None), sg_calls = 1\<rparr>"
  by (simp add: started_path startedSession_def newSession_def startOptions_def freshManager_def blankManager_def
        noSessionOptions_def validSessionId_def asciiAlnum_def createSessionId_def sampleSource_def Let_def)

lemma started_entries: "sg_fileEntries (smRun (sampleRuntime es) startedOps startedSession) = startedEntries"
proof -
  let ?three = "Suc (Suc (Suc 0))" and ?five = "Suc (Suc (Suc (Suc (Suc 0))))"
  have i: "take 8 (replicate (Suc 0) 97 @ replicate 9 (98 :: jchar)) = [97, 98, 98, 98, 98, 98, 98, 98]"
    "take 8 (replicate ?three 97 @ replicate 9 (98 :: jchar)) = [97, 97, 97, 98, 98, 98, 98, 98]"
    "take 8 (replicate ?five 97 @ replicate 9 (98 :: jchar)) = [97, 97, 97, 97, 97, 98, 98, 98]"
    by (simp_all add: numeral_eq_Suc)
  note g = generate_first [of _ "Suc 0", unfolded i] generate_first [of _ ?three, unfolded i] generate_first [of _ ?five, unfolded i]
  have c: "sr_clock sampleSource n = replicate n 49" for n by (simp add: sampleSource_def)
  have a: "isAssistant sampleAnswer" "\<not> isAssistant sampleQuestion" by (simp_all add: sampleAnswer_def sampleQuestion_def)
  show ?thesis
    by (simp add: smRun_def startedOps_def started_init smAppendMessage_def smAppendLabelChange_def appendBody_def
        newEntry_def hasId_def addEntry_def persist_def hasAssistant_def a c truthyStr_def startedPath_def indexLabel_def g
        startedEntries_def startedEntry_def i numeral_eq_Suc Let_def)
qed
lemma started_answer: "hasAssistant startedEntries"
  by (simp add: startedEntries_def startedEntry_def hasAssistant_def sampleAnswer_def)

lemma started: "newPersistent sampleSource startOptions freshManager startedPath startedSession"
proof -
  have "fst (newSession sampleSource startOptions freshManager) = Inr (Some startedPath)"
    by (simp add: started_path newSession_def startOptions_def freshManager_def blankManager_def
        noSessionOptions_def validSessionId_def asciiAlnum_def createSessionId_def sampleSource_def Let_def)
  then show ?thesis
    by (simp add: newPersistent_def startedSession_def prod_eq_iff) (simp add: freshManager_def blankManager_def)
qed

theorem session_file_holds_entries_witness:
  "let s' = smRun (sampleRuntime startedEntries) startedOps startedSession
   in sg_fileEntries s' = startedEntries \<and>
     sg_disk s' = (\<lambda>_. None)(startedPath := Some (sessionLines (listCodec startedEntries) startedEntries))"
proof -
  have "newPersistent (rt_source (sampleRuntime startedEntries)) startOptions freshManager startedPath startedSession"
    using started by simp
  from session_file_holds_entries [OF this, of startedOps] show ?thesis
    by (simp add: started_entries started_answer Let_def) (simp add: freshManager_def blankManager_def)
qed

section \<open>Reading it again\<close>

definition codec_ok :: "sm_codec \<Rightarrow> file_entry list \<Rightarrow> bool" where
  "codec_ok C es \<longleftrightarrow>
     (\<forall>e \<in> set es. sx_parse C (sx_text C e) = Some e \<and> 10 \<notin> set (sx_text C e) \<and> trim (sx_text C e) \<noteq> [])"

lemma split_lines: "codec_ok C es \<Longrightarrow> splitOn 10 (sessionLines C es) = map (sx_text C) es @ [[]]"
  by (induction es) (simp_all add: sessionLines_def sessionLine_def codec_ok_def splitOn_append_sep)

lemma parse_lines: "codec_ok C es \<Longrightarrow> List.map_filter (parseSessionEntryLine C) (map (sx_text C) es) = es"
  by (induction es) (simp_all add: codec_ok_def parseSessionEntryLine_def)

lemma load_lines:
  assumes "codec_ok C es" "es = FHeader h # es'" "hd_id h = Some i"
  shows "loadEntriesFromChunks C [sessionLines C es] = es"
proof -
  have "trim [] = []" by (simp add: trim_def trimStart_def trimEnd_def)
  then have "loadChunks C [] [sessionLines C es] = es"
    using parse_lines [OF assms(1)] by (simp add: split_lines [OF assms(1)] parseSessionEntryLine_def)
  with assms(2,3) show ?thesis by (simp add: loadEntriesFromChunks_def checkedEntries_def)
qed

text \<open>C20: A session that has an answer survives a restart: opening its file gives the same entries,
  header, id, index and labels, and the last entry as the leaf, and leaves the file as it is.\<close>

theorem session_survives_restart:
  assumes "newPersistent (rt_source R) opts s p s0" "hasAssistant (sg_fileEntries (smRun R ops s0))"
    and "codec_ok (rt_codec R) (sg_fileEntries (smRun R ops s0))"
    and "resolvePath (rt_paths R) target (pe_cwd (rt_paths R)) noPathOptions = Inr p"
    and "sg_disk u = sg_disk (smRun R ops s0)"
  shows "\<exists>u'. setSessionFile R target None u = (Inr (), u') \<and> sg_fileEntries u' = sg_fileEntries (smRun R ops s0) \<and>
    sg_sessionId u' = sg_sessionId (smRun R ops s0) \<and> sg_byId u' = sg_byId (smRun R ops s0) \<and>
    sg_labelsById u' = sg_labelsById (smRun R ops s0) \<and>
    sg_labelTimestampsById u' = sg_labelTimestampsById (smRun R ops s0) \<and>
    sg_leafId u' = se_id (last (getEntries u')) \<and> sg_disk u' = sg_disk u"
proof -
  let ?s = "smRun R ops s0"
  from smRun_keeps [OF new_keeps(1) [OF assms(1)]] have
    disk: "on_disk (rt_codec R) p (sg_disk s) ?s" and ix: "indexed ?s" and hd: "headed (sg_cwd s) ?s"
    by (simp_all add: kept_by_def)
  from hd obtain t parent es where
    entries: "sg_fileEntries ?s = FHeader (newHeader (sg_sessionId ?s) t (sg_cwd s) parent) # map FEntry es"
    by (auto simp: headed_def)
  have there: "sg_disk u p = Some (sessionLines (rt_codec R) (sg_fileEntries ?s))"
    using disk assms(2,5) by (simp add: on_disk_def)
  have load: "loadEntriesFromFile (rt_codec R) (sg_disk u) p = sg_fileEntries ?s"
    using load_lines [OF assms(3) entries] by (simp add: loadEntriesFromFile_def there newHeader_def)
  have header: "findHeader (sg_fileEntries ?s) = Some (newHeader (sg_sessionId ?s) t (sg_cwd s) parent)"
    by (simp add: entries findHeader_def)
  let ?u = "u\<lparr>sg_sessionFile := Some p, sg_sessionId := sg_sessionId ?s, sg_fileEntries := sg_fileEntries ?s\<rparr>"
  have "migrateToCurrentVersion (rt_source R) (sg_fileEntries ?s) n = (False, sg_fileEntries ?s, n)" for n
    by (simp add: migrateToCurrentVersion_def versionOf_def header newHeader_def CURRENT_SESSION_VERSION_def)
  then have set: "setSessionFile R target None u = (Inr (), (buildIndex ?u)\<lparr>sg_flushed := True\<rparr>)"
    using assms(4) load header
    by (simp add: setSessionFile_def there Let_def entries newHeader_def createSessionId_def)
  have es: "es \<noteq> []" using assms(2) by (auto simp: entries hasAssistant_def)
  have "sg_sessionId (buildIndex ?u) = sg_sessionId ?s"
    by simp
  with set ix es show ?thesis
    by (simp add: indexed_def buildIndex_labels getEntries_def entries)
qed

lemma listCodec_ok:
  assumes "distinct (map plainText es)" "list_all (\<lambda>t. 10 \<notin> set t \<and> trim t \<noteq> []) (map plainText es)"
  shows "codec_ok (listCodec es) es"
  using assms listCodec_parse [OF assms(1)] by (auto simp: codec_ok_def list_all_iff) (auto simp: listCodec_def)

lemma started_codec: "codec_ok (listCodec startedEntries) startedEntries"
proof (rule listCodec_ok)
  have texts: "map plainText startedEntries = [[72, 120], 69 # [97, 98, 98, 98, 98, 98, 98, 98] @ 45 # [49, 49],
      69 # [97, 97, 97, 98, 98, 98, 98, 98] @ 45 # [49, 49, 49, 49],
      69 # [97, 97, 97, 97, 97, 98, 98, 98] @ 45 # [49, 49, 49, 49, 49, 49]]"
    by (simp add: startedEntries_def startedEntry_def newHeader_def numeral_eq_Suc)
  show "distinct (map plainText startedEntries)" unfolding texts by code_simp
  show "list_all (\<lambda>t. 10 \<notin> set t \<and> trim t \<noteq> []) (map plainText startedEntries)" unfolding texts by code_simp
qed

theorem session_survives_restart_witness:
  "\<exists>u'. setSessionFile (sampleRuntime startedEntries) startedPath None
      (blankManager [47] [47] True (sg_disk (smRun (sampleRuntime startedEntries) startedOps startedSession)) 9) = (Inr (), u') \<and>
    sg_fileEntries u' = startedEntries \<and> sg_leafId u' = se_id (last (getEntries u'))"
proof -
  let ?R = "sampleRuntime startedEntries"
  have start: "newPersistent (rt_source ?R) startOptions freshManager startedPath startedSession" using started by simp
  have path: "resolvePath (rt_paths ?R) startedPath (pe_cwd (rt_paths ?R)) noPathOptions = Inr startedPath"
    unfolding sampleRuntime_simps by code_simp
  have "hasAssistant (sg_fileEntries (smRun ?R startedOps startedSession))"
    "codec_ok (rt_codec ?R) (sg_fileEntries (smRun ?R startedOps startedSession))"
    by (simp_all add: started_entries started_answer started_codec)
  from session_survives_restart [OF start this path, of "blankManager [47] [47] True (sg_disk (smRun ?R startedOps startedSession)) 9"]
  show ?thesis by (auto simp: blankManager_def started_entries)
qed

section \<open>The tree\<close>

definition tree_kept :: "sm_source \<Rightarrow> session_manager \<Rightarrow> bool" where
  "tree_kept src s \<longleftrightarrow> session_ok s \<and> uuids_fresh src (sg_calls s) (se_id ` set (getEntries s))"

lemma persist_fields:
  "persist C e s = (r, s') \<Longrightarrow> sg_fileEntries s' = sg_fileEntries s \<and> sg_byId s' = sg_byId s \<and> sg_leafId s' = sg_leafId s \<and>
     sg_calls s' = sg_calls s"
  by (auto simp: persist_def appendLine_def Let_def split: if_splits)

lemma newEntry_tree:
  assumes "tree_kept src s" "newEntry src (sg_leafId s) body s = (e, s1)" "addEntry C e s1 = (r, s2)"
  shows "tree_kept src s2" "se_body e = body"
proof -
  from assms(1) have ok: "session_ok s" and fresh: "uuids_fresh src (sg_calls s) (se_id ` set (getEntries s))"
    by (simp_all add: tree_kept_def)
  obtain i n where i: "generateId src (hasId s) (sg_calls s) = (i, n)" by fastforce
  have e: "e = \<lparr>se_id = i, se_parentId = sg_leafId s, se_timestamp = sr_clock src n, se_body = body\<rparr>"
    and s1: "s1 = s\<lparr>sg_calls := Suc n\<rparr>" using assms(2) by (simp_all add: newEntry_def i)
  have "hasId s = (\<lambda>i. i \<in> se_id ` set (getEntries s))" using hasId_iff [OF ok] by auto
  from generateId_fresh [OF fresh i [unfolded this]] have
    new: "i \<notin> se_id ` set (getEntries s)" "truthyId i" "uuids_fresh src n (insert i (se_id ` set (getEntries s)))" by auto
  from assms(3) have s2: "sg_fileEntries s2 = sg_fileEntries s @ [FEntry e]"
    "sg_byId s2 = AList.update i e (sg_byId s)" "sg_leafId s2 = i" "sg_calls s2 = Suc n"
    by (auto simp: addEntry_def e s1 dest!: persist_fields)
  have "tree_ok (getEntries s @ [e])" using ok new(1,2) by (intro tree_snoc) (auto simp: session_ok_def e)
  with s2 ok have "session_ok s2" by (simp add: session_ok_def getEntries_def entryIndex_snoc e)
  moreover have "uuids_fresh src (Suc n) (se_id ` set (getEntries s2))"
    by (rule uuids_fresh_subset [OF new(3)]) (auto simp: getEntries_def s2 e)
  ultimately show "tree_kept src s2" by (simp add: tree_kept_def s2(4))
  show "se_body e = body" by (simp add: e)
qed

lemma appendBody_tree: "tree_kept (rt_source R) s \<Longrightarrow> tree_kept (rt_source R) (snd (appendBody R body s))"
  by (auto simp: appendBody_def dest: newEntry_tree split: prod.splits)

lemma tree_label: "tree_kept src s \<Longrightarrow> tree_kept src (indexLabel t l ts s)"
  by (simp add: tree_kept_def session_ok_def getEntries_def)

lemma appendLabel_tree: "tree_kept (rt_source R) s \<Longrightarrow> tree_kept (rt_source R) (snd (smAppendLabelChange R target label s))"
  by (auto simp: smAppendLabelChange_def dest: newEntry_tree intro: tree_label split: prod.splits sum.splits)

lemma tree_leaf: "tree_kept src s \<Longrightarrow> i = IdNull \<or> hasId s i \<Longrightarrow> tree_kept src (s\<lparr>sg_leafId := i\<rparr>)"
  by (auto simp: tree_kept_def hasId_iff) (auto simp: session_ok_def getEntries_def)

lemma smStep_tree: "tree_kept (rt_source R) s \<Longrightarrow> tree_kept (rt_source R) (smStep R op s)"
  by (cases op)
    (auto simp: smAppendMessage_def smAppendThinkingLevelChange_def smAppendModelChange_def smAppendCompaction_def
      smAppendCustomEntry_def smAppendSessionInfo_def smAppendCustomMessageEntry_def branch_def resetLeaf_def
      branchWithSummary_def Let_def intro!: appendBody_tree appendLabel_tree tree_leaf split: option.splits)

text \<open>C22: From a well-formed session every sequence of operations leads to well-formed sessions, entries
  after their parents and ids not repeated, so that the walk to the root ends and the context of the
  current leaf is built from a chain of its entries.\<close>

theorem sessions_stay_trees:
  assumes "session_ok s" "uuids_fresh (rt_source R) (sg_calls s) (se_id ` set (getEntries s))"
  shows "session_ok (smRun R ops s) \<and>
    (\<exists>path. linked IdNull path \<and> subseq path (getEntries (smRun R ops s)) \<and>
       smGetBranch None (smRun R ops s) = Some path \<and>
       smContext getTime (smRun R ops s) = Some (contextOfPath getTime path))"
proof -
  let ?s = "smRun R ops s"
  have "tree_kept (rt_source R) s \<Longrightarrow> tree_kept (rt_source R) (fold (smStep R) ops s)" for s
    by (induction ops arbitrary: s) (simp_all add: smStep_tree)
  with assms have ok: "session_ok ?s" by (simp add: tree_kept_def smRun_def)
  show ?thesis
  proof (cases "sg_leafId ?s = IdNull")
    case True
    then have "smGetBranch None ?s = Some []" "smContext getTime ?s = Some (contextOfPath getTime [])"
      by (simp_all add: smGetBranch_def smContext_def smBuildSessionContext_def buildSessionPath_def)
    with ok show ?thesis by (intro conjI exI [of _ "[]"]) simp_all
  next
    case False
    with ok have leaf: "hasId ?s (sg_leafId ?s)" by (simp add: hasId_iff) (simp add: session_ok_def)
    have "truthyId (sg_leafId ?s)" using ok False tree_distinct by (auto simp: session_ok_def)
    then obtain i where i: "sg_leafId ?s = Id i" by (cases "sg_leafId ?s") auto
    from branch_path [OF ok leaf [unfolded i]] obtain path where "smGetBranch (Some i) ?s = Some path"
      "linked IdNull path" "subseq path (getEntries ?s)"
      "smContext getTime (?s\<lparr>sg_leafId := Id i\<rparr>) = Some (contextOfPath getTime path)" by metis
    moreover have "?s\<lparr>sg_leafId := Id i\<rparr> = ?s" by (simp flip: i)
    moreover have "smGetBranch None ?s = smGetBranch (Some i) ?s" by (simp add: smGetBranch_def i)
    ultimately show ?thesis using ok by auto
  qed
qed

theorem sessions_stay_trees_witness:
  "session_ok (smRun (sampleRuntime []) startedOps (chainSession 1)) \<and>
    smContext (\<lambda>_. 0) (smRun (sampleRuntime []) startedOps (chainSession 1)) \<noteq> None"
proof -
  have "uuids_fresh (rt_source (sampleRuntime [])) (sg_calls (chainSession 1)) (se_id ` set (getEntries (chainSession 1)))"
    using chain_fresh by simp
  from sessions_stay_trees [OF chain_ok this, of startedOps "\<lambda>_. 0"] show ?thesis by auto
qed

end
