(* ===== verification/SessionFilesProps.thy ===== *)
theory SessionFilesProps
  imports SessionFiles SessionManagerFacts SessionFileProps
begin

text \<open>
  The bounded scan for a header finds what the full reading of the file finds; a fork of a session of
  the first version has lost all but its last entry.
\<close>

section \<open>Reading in chunks\<close>

lemma loadChunks_two: "loadChunks C pending (a # b # cs) = loadChunks C pending ((a @ b) # cs)"
proof -
  let ?rest = "splitOn 10 (last (splitOn 10 (pending @ a)) @ b)"
  have "splitOn 10 (pending @ a @ b) = butlast (splitOn 10 (pending @ a)) @ ?rest"
    using splitOn_append_chunk [of 10 "pending @ a" b] by simp
  then have "butlast (splitOn 10 (pending @ a @ b)) = butlast (splitOn 10 (pending @ a)) @ butlast ?rest"
    "last (splitOn 10 (pending @ a @ b)) = last ?rest"
    by (simp_all add: butlast_append)
  then show ?thesis by (simp add: Let_def)
qed

lemma loadChunks_concat: "loadChunks C pending (a # cs) = loadChunks C pending [a @ concat cs]"
proof (induction cs arbitrary: a)
  case (Cons b cs)
  from Cons [of "a @ b"] show ?case using loadChunks_two [of C pending a b cs] by simp
qed simp

lemma load_concat: "cs \<noteq> [] \<Longrightarrow> loadEntriesFromChunks C cs = loadEntriesFromChunks C [concat cs]"
  using loadChunks_concat [of C "[]"] by (cases cs) (simp_all add: loadEntriesFromChunks_def)

section \<open>The scan for the header\<close>

definition headerIn :: "file_entry list \<Rightarrow> sm_header option" where
  "headerIn es = (case checkedEntries es of FHeader h # _ \<Rightarrow> Some h | _ \<Rightarrow> None)"

lemma headerIn_simps:
  "headerIn [] = None" "headerIn (FEntry e # es) = None"
  "headerIn (FHeader h # es) = (if hd_id h = None then None else Some h)"
  by (simp_all add: headerIn_def checkedEntries_def)

lemma firstCandidate_headerIn:
  "firstCandidate C ls = Some h \<Longrightarrow> headerIn (List.map_filter (parseSessionEntryLine C) ls @ es) = h"
  by (induction ls)
    (auto simp: parseSessionHeaderCandidate_def headerIn_simps split: option.splits file_entry.splits if_splits)

lemma firstCandidate_None: "firstCandidate C ls = None \<Longrightarrow> List.map_filter (parseSessionEntryLine C) ls = []"
  by (induction ls)
    (auto simp: parseSessionHeaderCandidate_def split: option.splits file_entry.splits if_splits)

lemma last_no_break: "10 \<notin> set (last (splitOn 10 s))"
  using splitOn_no_sep [of "last (splitOn 10 s)" 10 s] splitOn_not_Nil [of 10 s] last_in_set by blast

lemma scanHeader_load:
  assumes "scanHeader C pending n reads rest = Some h" "10 \<notin> set pending" "10 \<notin> set rest"
  shows "h = headerIn (loadChunks C pending (map snd reads @ [rest]))"
  using assms
proof (induction C pending n reads rest rule: scanHeader.induct)
  case (1 C pending n rest)
  then have "splitOn 10 (pending @ rest) = [pending @ rest]" by (simp add: splitOn_id)
  moreover have "h = headerIn (List.map_filter (parseSessionEntryLine C) [pending @ rest])"
    using 1(1) by (auto simp: parseSessionHeaderCandidate_def headerIn_simps split: option.splits file_entry.splits)
  ultimately show ?case by simp
next
  case (2 C pending scanned n chunk reads rest)
  let ?lines = "splitOn 10 (pending @ chunk)"
  have limit: "scanned < MAX_SESSION_HEADER_SCAN_BYTES" using 2(2) by (simp split: if_splits)
  show ?case
  proof (cases "firstCandidate C (butlast ?lines)")
    case None
    with 2(2) limit have "scanHeader C (last ?lines) (scanned + n) reads rest = Some h" by (simp add: Let_def)
    from 2(1) [OF limit refl None this last_no_break 2(4)] firstCandidate_None [OF None] show ?thesis
      by (simp add: Let_def)
  next
    case (Some h')
    with 2(2) limit have "h' = h" by (simp add: Let_def)
    with firstCandidate_headerIn [OF Some] show ?thesis by (simp add: Let_def)
  qed
qed

text \<open>When the bounded scan of a file's start finds a header, or finds that there is none, a reading of
  the whole file comes to the same result, however the file is cut into reads.\<close>

theorem header_scan_agrees:
  assumes "readSessionHeader C r = Some h" "10 \<notin> set (rd_rest r)"
  shows "h = (case loadEntriesFromChunks C [concat (map snd (rd_reads r)) @ rd_rest r] of FHeader x # _ \<Rightarrow> Some x | _ \<Rightarrow> None)"
proof -
  have "h = headerIn (loadChunks C [] (map snd (rd_reads r) @ [rd_rest r]))"
    by (rule scanHeader_load) (use assms in \<open>simp_all add: readSessionHeader_def\<close>)
  also have "loadChunks C [] (map snd (rd_reads r) @ [rd_rest r]) = loadChunks C [] [concat (map snd (rd_reads r)) @ rd_rest r]"
    using loadChunks_concat [of C "[]"] by (cases "map snd (rd_reads r) @ [rd_rest r]") (simp, metis append_Nil concat.simps concat_append append.right_neutral list.sel)
  finally show ?thesis by (simp add: headerIn_def loadEntriesFromChunks_def)
qed

section \<open>Forks of old sessions\<close>

lemma not_headers: "filter (\<lambda>e. headerOf e = None) (map FEntry xs) = map FEntry xs"
  by (induction xs) simp_all

text \<open>Opening a file that a manager of the current version has written.\<close>

lemma open_current:
  assumes "codec_ok (rt_codec R) (FHeader h # map FEntry xs)" "h = newHeader i t cwd parent"
    and "resolvePath (rt_paths R) target (pe_cwd (rt_paths R)) noPathOptions = Inr p"
    and "sg_disk s p = Some (sessionLines (rt_codec R) (FHeader h # map FEntry xs))"
  shows "\<exists>s'. setSessionFile R target None s = (Inr (), s') \<and> getEntries s' = xs \<and> sg_byId s' = entryIndex xs \<and>
    sg_leafId s' = (if xs = [] then IdNull else se_id (last xs))"
proof -
  have load: "loadEntriesFromFile (rt_codec R) (sg_disk s) p = FHeader h # map FEntry xs"
    using load_lines [OF assms(1) refl, of i] by (simp add: loadEntriesFromFile_def assms(2,4) newHeader_def)
  have "migrateToCurrentVersion (rt_source R) (FHeader h # map FEntry xs) n = (False, FHeader h # map FEntry xs, n)" for n
    by (simp add: migrateToCurrentVersion_def versionOf_def findHeader_def assms(2) newHeader_def CURRENT_SESSION_VERSION_def)
  with load assms(2-4) show ?thesis
    by (simp add: setSessionFile_def Let_def findHeader_def createSessionId_def newHeader_def getEntries_def)
qed

text \<open>A fork copies the entries of a session of the first version without migrating them, under a
  header of the current version, so that opening the fork does not migrate them either. They have no
  ids, and the context of the fork is that of its last entry alone.\<close>

theorem fork_of_old_session_truncated:
  assumes "forkFrom R agentDir sourcePath targetCwd sessionDir givenId disk n = Inr s"
    and "resolveHere (rt_paths R) sourcePath = Inr src" "resolveHere (rt_paths R) targetCwd = Inr cwd"
    and "loadEntriesFromFile (rt_codec R) disk src = FHeader h # map FEntry xs" "xs \<noteq> []"
    and "\<forall>e \<in> set xs. se_id e = IdUndefined \<and> se_parentId e = IdUndefined"
    and "createSessionId (rt_source R) givenId n = (i, n1)" "sessionDirFor (rt_paths R) agentDir sessionDir cwd = Inr dir"
    and "p = pathJoin [dir, sessionFileName (sr_clock (rt_source R) n1) i]" "resolveHere (rt_paths R) p = Inr p"
    and "codec_ok (rt_codec R) (FHeader (newHeader i (sr_clock (rt_source R) n1) cwd (Some src)) # map FEntry xs)"
  shows "getEntries s = xs \<and> smContext getTime s = Some (contextOfPath getTime [last xs])"
proof -
  let ?h = "newHeader i (sr_clock (rt_source R) n1) cwd (Some src)"
  let ?disk = "disk(p \<mapsto> sessionLines (rt_codec R) (FHeader ?h # map FEntry xs))"
  have "constructManager R cwd dir (Some p) True noSessionOptions None ?disk (Suc n1) = Inr s"
    using assms(1-4,7-9)
    by (simp add: forkFrom_def findHeader_def forkedFile_def not_headers Let_def split: if_splits)
  moreover have "truthyStr (Some p)" using assms(9) pathJoin_not_Nil by (simp add: truthyStr_def)
  ultimately obtain cwd' dir' where
    "failedOr (setSessionFile R p None (blankManager cwd' dir' True ?disk (Suc n1))) = Inr s"
    by (auto simp: constructManager_def split: sum.splits)
  moreover have "sg_disk (blankManager cwd' dir' True ?disk (Suc n1)) = ?disk" by (simp add: blankManager_def)
  ultimately obtain b where b: "sg_disk b = ?disk" "failedOr (setSessionFile R p None b) = Inr s" by blast
  from open_current [OF assms(11) refl assms(10) [unfolded resolveHere_def], of b] b
  have s: "getEntries s = xs" "sg_byId s = entryIndex xs" "sg_leafId s = se_id (last xs)"
    using assms(5) by (auto simp: failedOr_def)
  have "se_id (last xs) = IdUndefined" "se_parentId (last xs) = IdUndefined" using assms(5,6) by simp_all
  with s assms(5) show ?thesis
    by (simp add: smContext_def smBuildSessionContext_def buildSessionPath_def leafEntry_def walk_Cons)
qed

section \<open>Instances\<close>

definition firstHeader :: sm_header where
  "firstHeader = \<lparr>hd_version = None, hd_id = Some [111], hd_timestamp = [], hd_cwd = Some [47], hd_parentSession = None\<rparr>"

definition firstEntry :: "jchar \<Rightarrow> sm_body \<Rightarrow> sm_entry" where
  "firstEntry t b = \<lparr>se_id = IdUndefined, se_parentId = IdUndefined, se_timestamp = [t], se_body = b\<rparr>"

definition firstEntries :: "sm_entry list" where
  "firstEntries = [firstEntry 49 (SM_message (Known sampleQuestion)), firstEntry 50 (SM_message (Known sampleAnswer))]"

definition forkedHeader :: sm_header where
  "forkedHeader = newHeader [120] [] [47] (Some [47, 115])"

definition forkCodec :: sm_codec where
  "forkCodec = listCodec (FHeader firstHeader # FHeader forkedHeader # map FEntry firstEntries)"

lemma forkCodec_ok: "set es \<subseteq> set (FHeader firstHeader # FHeader forkedHeader # map FEntry firstEntries) \<Longrightarrow> codec_ok forkCodec es"
proof -
  have texts: "map plainText (FHeader firstHeader # FHeader forkedHeader # map FEntry firstEntries) =
      [[72, 111], [72, 120], 69 # [] @ 45 # [49], 69 # [] @ 45 # [50]]"
    by (simp add: firstHeader_def forkedHeader_def newHeader_def firstEntries_def firstEntry_def)
  have "codec_ok forkCodec (FHeader firstHeader # FHeader forkedHeader # map FEntry firstEntries)"
    unfolding forkCodec_def by (rule listCodec_ok; unfold texts; code_simp)
  then show "set es \<subseteq> set (FHeader firstHeader # FHeader forkedHeader # map FEntry firstEntries) \<Longrightarrow> codec_ok forkCodec es"
    by (auto simp only: codec_ok_def)
qed

theorem header_scan_agrees_witness:
  "let r = \<lparr>rd_reads = [(3, [10, 72, 120]), (4, [10, 69, 45, 49])], rd_rest = []\<rparr>
   in readSessionHeader forkCodec r = Some (Some forkedHeader) \<and>
     (case loadEntriesFromChunks forkCodec [concat (map snd (rd_reads r)) @ rd_rest r] of FHeader x # _ \<Rightarrow> Some x | _ \<Rightarrow> None) =
       Some forkedHeader"
proof -
  let ?r = "\<lparr>rd_reads = [(3, [10, 72, 120]), (4, [10, 69, 45, 49])], rd_rest = []\<rparr>"
  have "sx_parse forkCodec (plainText (FHeader forkedHeader)) = Some (FHeader forkedHeader)"
    using forkCodec_ok [of "[FHeader forkedHeader]"] by (simp add: codec_ok_def) (simp add: forkCodec_def listCodec_def)
  then have parse: "sx_parse forkCodec [72, 120] = Some (FHeader forkedHeader)" by (simp add: forkedHeader_def newHeader_def)
  have "trim [] = ([] :: jstr)" "trim [72, 120] \<noteq> ([] :: jstr)" by code_simp+
  then have "parseSessionHeaderCandidate forkCodec [] = None"
    "parseSessionHeaderCandidate forkCodec [72, 120] = Some (Some forkedHeader)"
    using parse by (simp_all add: parseSessionHeaderCandidate_def parseSessionEntryLine_def forkedHeader_def newHeader_def)
  then have scan: "readSessionHeader forkCodec ?r = Some (Some forkedHeader)"
    by (simp add: readSessionHeader_def MAX_SESSION_HEADER_SCAN_BYTES_def)
  have "10 \<notin> set (rd_rest ?r)" by simp
  from header_scan_agrees [OF scan this] scan show ?thesis unfolding Let_def by (metis (no_types))
qed

definition forkDisk :: "jstr \<Rightarrow> jstr option" where
  "forkDisk = (\<lambda>_. None)([47, 115] \<mapsto> sessionLines forkCodec (FHeader firstHeader # map FEntry firstEntries))"

definition forkRuntime :: sm_runtime where
  "forkRuntime = (sampleRuntime [])\<lparr>rt_codec := forkCodec\<rparr>"

theorem fork_of_old_session_truncated_witness:
  "\<exists>s. forkFrom forkRuntime [47] [47, 115] [47] (Some [47]) (Some [120]) forkDisk 0 = Inr s \<and>
    getEntries s = firstEntries \<and> smContext (\<lambda>_. 0) s = Some (contextOfPath (\<lambda>_. 0) [last firstEntries])"
proof -
  let ?p = "pathJoin [[47], sessionFileName [] [120]]"
  have R: "rt_source forkRuntime = sampleSource" "rt_codec forkRuntime = forkCodec" "rt_paths forkRuntime = samplePaths"
    by (simp_all add: forkRuntime_def)
  have paths: "resolveHere samplePaths [47, 115] = Inr [47, 115]" "resolveHere samplePaths [47] = Inr [47]"
    "normalizePath samplePaths noPathOptions [47] = Inr [47]" "resolveHere samplePaths ?p = Inr ?p" "?p \<noteq> [47, 115]" "?p \<noteq> []"
    by code_simp+
  have dir: "sessionDirFor samplePaths [47] (Some [47]) [47] = Inr [47]" by (simp add: sessionDirFor_def paths(3))
  have codec: "codec_ok forkCodec (FHeader firstHeader # map FEntry firstEntries)"
    "codec_ok forkCodec (FHeader forkedHeader # map FEntry firstEntries)" by (rule forkCodec_ok, auto)+
  have load: "loadEntriesFromFile forkCodec forkDisk [47, 115] = FHeader firstHeader # map FEntry firstEntries"
    using load_lines [OF codec(1) refl, of "[111]"] by (simp add: loadEntriesFromFile_def forkDisk_def firstHeader_def)
  let ?disk = "forkDisk(?p \<mapsto> sessionLines forkCodec (FHeader forkedHeader # map FEntry firstEntries))"
  let ?b = "blankManager [47] [47] True ?disk 1"
  have "\<exists>s'. setSessionFile forkRuntime ?p None ?b = (Inr (), s') \<and> getEntries s' = firstEntries \<and> sg_byId s' = entryIndex firstEntries \<and>
      sg_leafId s' = (if firstEntries = [] then IdNull else se_id (last firstEntries))"
  proof (rule open_current)
    show "codec_ok (rt_codec forkRuntime) (FHeader forkedHeader # map FEntry firstEntries)" using codec(2) by (simp add: R)
    show "forkedHeader = newHeader [120] [] [47] (Some [47, 115])" by (rule forkedHeader_def)
    show "resolvePath (rt_paths forkRuntime) ?p (pe_cwd (rt_paths forkRuntime)) noPathOptions = Inr ?p"
      using paths(4) by (simp add: R resolveHere_def)
    show "sg_disk ?b ?p = Some (sessionLines (rt_codec forkRuntime) (FHeader forkedHeader # map FEntry firstEntries))"
      by (simp add: blankManager_def R)
  qed
  then obtain s where s: "failedOr (setSessionFile forkRuntime ?p None ?b) = Inr s" by (auto simp: failedOr_def)
  have valid: "validSessionId [120]" by code_simp
  have clock: "sr_clock sampleSource 0 = []" by (simp add: sampleSource_def)
  have "forkDisk ?p = None" using paths(5) by (simp add: forkDisk_def)
  with s have fork: "forkFrom forkRuntime [47] [47, 115] [47] (Some [47]) (Some [120]) forkDisk 0 = Inr s"
    by (simp add: forkFrom_def R paths load dir valid clock createSessionId_def findHeader_def forkedFile_def not_headers
        forkedHeader_def constructManager_def Let_def truthyStr_def)
  have old: "\<forall>e \<in> set firstEntries. se_id e = IdUndefined \<and> se_parentId e = IdUndefined" "firstEntries \<noteq> []"
    by (simp_all add: firstEntries_def firstEntry_def)
  have "getEntries s = firstEntries \<and> smContext (\<lambda>_. 0) s = Some (contextOfPath (\<lambda>_. 0) [last firstEntries])"
    by (rule fork_of_old_session_truncated [OF fork _ _ _ old(2,1), where i = "[120]" and ?n1.0 = 0 and dir = "[47]" and p = ?p
          and src = "[47, 115]" and cwd = "[47]" and h = firstHeader])
      (use load dir codec(2) in \<open>simp_all add: R paths createSessionId_def clock forkedHeader_def\<close>)
  with fork show ?thesis by blast
qed

end
