(* ===== verification/SessionMigrationProps.thy ===== *)
theory SessionMigrationProps
  imports SessionManagerFacts
begin

text \<open>
  The migration of sessions of the first version against a reference that gives each entry by its
  place, and what happens when two of the short ids are the same.
\<close>

definition shortId :: "sm_source \<Rightarrow> nat \<Rightarrow> sid" where
  "shortId src k = Id (take 8 (sr_randomUUID src k))"

lemma generateId_first: "generateId src (\<lambda>_. False) n = (shortId src n, Suc n)"
  by (simp add: generateId_def shortId_def numeral_eq_Suc Let_def)

text \<open>The entry at place \<open>k\<close> of a session, where the ids start with call \<open>n\<close>. In the file the header is
  before the entries.\<close>

definition keptById :: "sm_source \<Rightarrow> nat \<Rightarrow> sm_body \<Rightarrow> sm_body" where
  "keptById src n b =
     (case b of
        SM_compaction c \<Rightarrow>
          (case sc_firstKeptEntryIndex c of
             None \<Rightarrow> b
           | Some i \<Rightarrow> SM_compaction (c\<lparr>sc_firstKeptEntryId := shortId src (n + nat i - 1), sc_firstKeptEntryIndex := None\<rparr>))
      | _ \<Rightarrow> b)"

definition linkedEntry :: "sm_source \<Rightarrow> nat \<Rightarrow> nat \<Rightarrow> sm_entry \<Rightarrow> sm_entry" where
  "linkedEntry src n k e =
     \<lparr>se_id = shortId src (n + k), se_parentId = (if k = 0 then IdNull else shortId src (n + k - 1)),
      se_timestamp = se_timestamp e, se_body = keptById src n (se_body e)\<rparr>"

definition currentBody :: "sm_body \<Rightarrow> sm_body" where
  "currentBody b = (case b of SM_message m \<Rightarrow> SM_message (renameHook m) | _ \<Rightarrow> b)"

definition migratedEntry :: "sm_source \<Rightarrow> nat \<Rightarrow> nat \<Rightarrow> sm_entry \<Rightarrow> sm_entry" where
  "migratedEntry src n k e = (linkedEntry src n k e)\<lparr>se_body := currentBody (keptById src n (se_body e))\<rparr>"

text \<open>A compaction keeps entries from an index on, not after its own.\<close>

definition keptBefore :: "nat \<Rightarrow> sm_entry \<Rightarrow> bool" where
  "keptBefore k e =
     (case se_body e of
        SM_compaction c \<Rightarrow>
          (case sc_firstKeptEntryIndex c of None \<Rightarrow> True | Some i \<Rightarrow> 1 \<le> i \<and> i \<le> int k + 1)
      | _ \<Rightarrow> True)"

fun keptBeforeAll :: "nat \<Rightarrow> sm_entry list \<Rightarrow> bool" where
  "keptBeforeAll k [] = True"
| "keptBeforeAll k (e # es) = (keptBefore k e \<and> keptBeforeAll (Suc k) es)"

fun linkedEntries :: "sm_source \<Rightarrow> nat \<Rightarrow> nat \<Rightarrow> sm_entry list \<Rightarrow> sm_entry list" where
  "linkedEntries src n k [] = []"
| "linkedEntries src n k (e # es) = linkedEntry src n k e # linkedEntries src n (Suc k) es"

fun migratedEntries :: "sm_source \<Rightarrow> nat \<Rightarrow> nat \<Rightarrow> sm_entry list \<Rightarrow> sm_entry list" where
  "migratedEntries src n k [] = []"
| "migratedEntries src n k (e # es) = migratedEntry src n k e # migratedEntries src n (Suc k) es"

lemma convertKept_before:
  assumes "keptBefore (length ys) e" "\<forall>j < length ys. se_id (ys ! j) = shortId src (n + j)"
    and "se_id e1 = shortId src (n + length ys)" "se_body e1 = se_body e"
  shows "convertKept (FHeader h # map FEntry ys @ FEntry e1 # rest) e1 = e1\<lparr>se_body := keptById src n (se_body e)\<rparr>"
proof (cases "\<exists>c i. se_body e = SM_compaction c \<and> sc_firstKeptEntryIndex c = Some i")
  case True
  then obtain c i where c: "se_body e = SM_compaction c" "sc_firstKeptEntryIndex c = Some i" by blast
  with assms(1) have i: "1 \<le> i" "i \<le> int (length ys) + 1" by (simp_all add: keptBefore_def)
  define j where "j = nat i - 1"
  with i have j: "nat i = Suc j" "j \<le> length ys" by auto
  have "entryAt i (FHeader h # map FEntry ys @ FEntry e1 # rest) = Some ((map FEntry ys @ FEntry e1 # rest) ! j)"
    using i(1) j by (simp add: entryAt_def)
  moreover have "\<exists>t. (map FEntry ys @ FEntry e1 # rest) ! j = FEntry t \<and> se_id t = shortId src (n + j)"
    using j(2) assms(2,3) by (cases "j = length ys") (auto simp: nth_append)
  ultimately show ?thesis using c assms(4) j(1) by (auto simp: convertKept_def keptById_def)
next
  case False
  then show ?thesis using assms(4)
    by (cases "se_body e"; cases e1) (auto simp: convertKept_def keptById_def split: option.splits)
qed

lemma migrateV1From_linked:
  assumes "keptBeforeAll (length ys) xs" "\<forall>j < length ys. se_id (ys ! j) = shortId src (n + j)"
    and "prev = (if ys = [] then IdNull else se_id (last ys))"
  shows "migrateV1From src prev (FHeader h # map FEntry ys) (map FEntry xs) (n + length ys) =
    (FHeader h # map FEntry (ys @ linkedEntries src n (length ys) xs), n + length ys + length xs)"
  using assms
proof (induction xs arbitrary: ys prev)
  case (Cons e xs)
  let ?k = "length ys"
  let ?e1 = "e\<lparr>se_id := shortId src (n + ?k), se_parentId := prev\<rparr>"
  have prev: "prev = (if ?k = 0 then IdNull else shortId src (n + ?k - 1))"
    using Cons.prems(2,3) by (cases ys rule: rev_cases) auto
  have conv: "convertKept (FHeader h # map FEntry ys @ FEntry ?e1 # map FEntry xs) ?e1 = linkedEntry src n ?k e"
    using convertKept_before [of ys e src n ?e1 h "map FEntry xs"] Cons.prems(1,2) prev
    by (simp add: linkedEntry_def)
  have "\<forall>j < length (ys @ [linkedEntry src n ?k e]). se_id ((ys @ [linkedEntry src n ?k e]) ! j) = shortId src (n + j)"
    using Cons.prems(2) by (auto simp: nth_append linkedEntry_def less_Suc_eq)
  from Cons.IH [OF _ this refl] Cons.prems(1) show ?case
    by (simp add: generateId_first Let_def conv) (simp add: linkedEntry_def)
qed simp

lemma migrateV2_linked: "map migrateV2Entry (map FEntry (linkedEntries src n k xs)) = map FEntry (migratedEntries src n k xs)"
  by (induction xs arbitrary: k) (auto simp: migratedEntry_def linkedEntry_def currentBody_def split: sm_body.split)

lemma migrated_linked:
  "linked (if k = 0 then IdNull else shortId src (n + k - 1)) (migratedEntries src n k xs)"
proof (induction xs arbitrary: k)
  case (Cons e xs)
  from Cons [of "Suc k"] show ?case by (simp add: migratedEntry_def linkedEntry_def)
qed simp

lemma migrated_ids: "map se_id (migratedEntries src n k xs) = map (\<lambda>j. shortId src (n + j)) [k..<k + length xs]"
proof (induction xs arbitrary: k)
  case (Cons e xs)
  have "[k..<k + length (e # xs)] = k # [Suc k..<Suc k + length xs]" by (subst upt_rec) simp
  with Cons [of "Suc k"] show ?case by (simp add: migratedEntry_def linkedEntry_def)
qed simp

lemma shifted_ids: "map (\<lambda>j. shortId src (n + j)) [0..<m] = map (shortId src) [n..<n + m]"
  by (induction m) auto

lemma shortId_truthy: "sr_randomUUID src k \<noteq> [] \<Longrightarrow> truthyId (shortId src k)"
  by (cases "sr_randomUUID src k") (simp_all add: shortId_def)

lemma migrate_closed:
  assumes "hd_version h = None" "keptBeforeAll 0 xs"
  shows "migrateToCurrentVersion src (FHeader h # map FEntry xs) n =
    (True, FHeader (h\<lparr>hd_version := Some 3\<rparr>) # map FEntry (migratedEntries src n 0 xs), n + length xs)"
proof -
  have "migrateV1ToV2 src (FHeader h # map FEntry xs) n =
      (FHeader (h\<lparr>hd_version := Some 2\<rparr>) # map FEntry (linkedEntries src n 0 xs), n + length xs)"
    using migrateV1From_linked [of "[]" xs src n IdNull "h\<lparr>hd_version := Some 2\<rparr>"] assms(2)
    by (simp add: migrateV1ToV2_def)
  then show "migrateToCurrentVersion src (FHeader h # map FEntry xs) n =
      (True, FHeader (h\<lparr>hd_version := Some 3\<rparr>) # map FEntry (migratedEntries src n 0 xs), n + length xs)"
    using assms(1) migrateV2_linked [of src n 0 xs]
    by (simp add: migrateToCurrentVersion_def versionOf_def findHeader_def CURRENT_SESSION_VERSION_def migrateV2ToV3_def)
qed

text \<open>C24: Migrating a session of the first version gives every entry a new id and makes it a child of
  the one before; a compaction that kept entries from an index on keeps them from the id of that
  entry, hook messages become custom messages, and nothing else of an entry changes. As long as the
  short ids are distinct the branch of the last entry is the whole history in its old order.\<close>

theorem migration_links_history:
  assumes "hd_version h = None" "xs \<noteq> []" "keptBeforeAll 0 xs"
    and "inj_on (shortId src) {n..<n + length xs}" "\<forall>k. sr_randomUUID src k \<noteq> []"
  shows "let ys = migratedEntries src n 0 xs
    in migrateToCurrentVersion src (FHeader h # map FEntry xs) n =
        (True, FHeader (h\<lparr>hd_version := Some 3\<rparr>) # map FEntry ys, n + length xs) \<and>
      buildSessionPath ys (se_id (last ys)) None = Some ys"
proof -
  let ?ys = "migratedEntries src n 0 xs"
  note mig = migrate_closed [OF assms(1,3), of src n]
  have ids: "map se_id ?ys = map (shortId src) [n..<n + length xs]"
    by (simp add: migrated_ids shifted_ids)
  have distinct: "distinct (map se_id ?ys)" unfolding ids using assms(4) by (simp add: distinct_map)
  have "set (map se_id ?ys) = shortId src ` {n..<n + length xs}" unfolding ids by simp
  moreover have "truthyId i" if "i \<in> shortId src ` {n..<n + length xs}" for i
    using that assms(5) shortId_truthy by blast
  ultimately have truthy: "\<forall>e \<in> set ?ys. truthyId (se_id e)" by (metis imageI set_map)
  have "?ys \<noteq> []" using assms(2) by (cases xs) simp_all
  then obtain zs e where ys: "?ys = zs @ [e]" by (cases ?ys rule: rev_cases) auto
  have index: "map_of (entryIndex ?ys) (se_id x) = Some x" if "x \<in> set ?ys" for x
    by (rule entryIndex_distinct [OF distinct that])
  have "linked IdNull ?ys" using migrated_linked [of 0 src n xs] by simp
  then have "walkToRoot (entryIndex ?ys) (Some e) [] = Some (zs @ [e])"
    by (intro walk_linked) (use ys truthy index in auto)
  moreover have "truthyId (se_id e)" "se_id e \<noteq> IdNull" using truthy ys by auto
  ultimately have "buildSessionPath ?ys (se_id (last ?ys)) None = Some ?ys"
    using index [of e] by (simp add: buildSessionPath_def buildEntryIndex_def leafEntry_def ys)
  with mig show ?thesis by (simp add: Let_def)
qed

text \<open>An instance: a question, an answer and a compaction that keeps the answer.\<close>

definition migrationSource :: sm_source where
  "migrationSource = \<lparr>sr_randomUUID = (\<lambda>k. replicate k 97 @ replicate 9 98), sr_sessionUUID = (\<lambda>k. [115]),
     sr_clock = (\<lambda>k. [116])\<rparr>"

definition oldEntry :: "sm_body \<Rightarrow> sm_entry" where
  "oldEntry b = \<lparr>se_id = IdUndefined, se_parentId = IdUndefined, se_timestamp = [], se_body = b\<rparr>"

definition oldHeader :: sm_header where
  "oldHeader = \<lparr>hd_version = None, hd_id = Some [111], hd_timestamp = [], hd_cwd = Some [47], hd_parentSession = None\<rparr>"

definition oldCompaction :: sm_compaction where
  "oldCompaction = \<lparr>sc_summary = [115], sc_firstKeptEntryId = IdUndefined, sc_firstKeptEntryIndex = Some 2,
     sc_tokensBefore = 9, sc_details = None, sc_usage = None, sc_fromHook = None\<rparr>"

definition oldEntries :: "sm_entry list" where
  "oldEntries = [oldEntry (SM_thinkingLevelChange [104]), oldEntry (SM_modelChange [112] [109]), oldEntry (SM_compaction oldCompaction)]"

theorem migration_links_history_witness:
  "let ys = migratedEntries migrationSource 0 0 oldEntries
   in snd (snd (migrateToCurrentVersion migrationSource (FHeader oldHeader # map FEntry oldEntries) 0)) = 3 \<and>
     buildSessionPath ys (se_id (last ys)) None = Some ys \<and>
     map_option sc_firstKeptEntryId (smCompactionOf (ys ! 2)) = Some (se_id (ys ! 1))"
proof -
  have "{0..<0 + length oldEntries} = {0, 1, 2}" by (auto simp: oldEntries_def)
  then have "inj_on (shortId migrationSource) {0..<0 + length oldEntries}"
    by (simp add: shortId_def migrationSource_def numeral_eq_Suc)
  moreover have "hd_version oldHeader = None" "oldEntries \<noteq> []" "keptBeforeAll 0 oldEntries"
    "\<forall>k. sr_randomUUID migrationSource k \<noteq> []"
    by (simp_all add: oldHeader_def oldEntries_def keptBefore_def oldEntry_def oldCompaction_def migrationSource_def)
  ultimately have main: "let ys = migratedEntries migrationSource 0 0 oldEntries
    in migrateToCurrentVersion migrationSource (FHeader oldHeader # map FEntry oldEntries) 0 =
        (True, FHeader (oldHeader\<lparr>hd_version := Some 3\<rparr>) # map FEntry ys, 0 + length oldEntries) \<and>
      buildSessionPath ys (se_id (last ys)) None = Some ys"
    by (intro migration_links_history)
  have "length oldEntries = 3" by (simp add: oldEntries_def)
  moreover have "map_option sc_firstKeptEntryId (smCompactionOf (migratedEntries migrationSource 0 0 oldEntries ! 2)) =
      Some (se_id (migratedEntries migrationSource 0 0 oldEntries ! 1))"
    by (simp add: oldEntries_def oldEntry_def oldCompaction_def migratedEntry_def linkedEntry_def keptById_def currentBody_def
        smCompactionOf_def numeral_2_eq_2)
  ultimately show ?thesis using main by (simp add: Let_def)
qed

section \<open>Ids that are the same\<close>

lemma walk_cycle:
  assumes "truthyId (se_parentId a)" "map_of index (se_parentId a) = Some b"
    "truthyId (se_parentId b)" "map_of index (se_parentId b) = Some a"
  shows "walkToRoot index (Some a) path = None"
proof (rule ccontr)
  assume "walkToRoot index (Some a) path \<noteq> None"
  then obtain y where "walkToRoot index (Some a) path = Some y" by blast
  moreover have "cur \<noteq> Some a \<and> cur \<noteq> Some b" if "walkToRoot index cur path = Some y" for cur path y
  proof (rule walkToRoot.raw_induct [where P = "\<lambda>ix cur path y. ix = index \<longrightarrow> cur \<noteq> Some a \<and> cur \<noteq> Some b",
        OF _ that, THEN mp, OF _ refl])
    fix walk :: "(sid \<times> sm_entry) list \<Rightarrow> sm_entry option \<Rightarrow> sm_entry list \<Rightarrow> sm_entry list option"
      and ix cur path y
    assume IH: "\<And>ix cur path y. walk ix cur path = Some y \<Longrightarrow> ix = index \<longrightarrow> cur \<noteq> Some a \<and> cur \<noteq> Some b"
      and step: "(case cur of None \<Rightarrow> Some path
        | Some e \<Rightarrow> walk ix (if truthyId (se_parentId e) then map_of ix (se_parentId e) else None) (e # path)) = Some y"
    show "ix = index \<longrightarrow> cur \<noteq> Some a \<and> cur \<noteq> Some b"
      using step assms IH [of index "Some b" "a # path" y] IH [of index "Some a" "b # path" y] by auto
  qed
  ultimately show False by blast
qed

text \<open>The set of ids that the migration gives to the generator stays empty, so a short id may come
  again. When the first and the third entry get the same one, the branch of the last entry is never
  found: the walk to the root does not end.\<close>

theorem migration_repeats_ids:
  assumes "keptBeforeAll 0 [e1, e2, e3]" "hd_version h = None"
    and "shortId src (n + 2) = shortId src n" "shortId src (n + 1) \<noteq> shortId src n" "\<forall>k. sr_randomUUID src k \<noteq> []"
  shows "migrateToCurrentVersion src (FHeader h # map FEntry [e1, e2, e3]) n =
      (True, FHeader (h\<lparr>hd_version := Some 3\<rparr>) # map FEntry (migratedEntries src n 0 [e1, e2, e3]), n + 3) \<and>
    buildSessionPath (migratedEntries src n 0 [e1, e2, e3]) (shortId src (n + 2)) None = None"
proof -
  let ?ys = "migratedEntries src n 0 [e1, e2, e3]"
  let ?a = "migratedEntry src n 2 e3" and ?b = "migratedEntry src n 1 e2"
  have ys: "?ys = [migratedEntry src n 0 e1, ?b, ?a]" by (simp add: numeral_2_eq_2)
  have ids: "se_id ?a = shortId src n" "se_id ?b = shortId src (n + 1)" "se_parentId ?a = shortId src (n + 1)"
    "se_parentId ?b = shortId src n" "se_id (migratedEntry src n 0 e1) = shortId src n"
    using assms(3) by (simp_all add: migratedEntry_def linkedEntry_def)
  have truthy: "truthyId (shortId src k)" for k using assms(5) by (simp add: shortId_truthy)
  have "map_of (entryIndex ?ys) (shortId src n) = Some ?a" "map_of (entryIndex ?ys) (shortId src (n + 1)) = Some ?b"
    using ids assms(4) by (simp_all add: map_of_entryIndex findLast_def ys del: migratedEntries.simps)
  note index = this
  have "walkToRoot (entryIndex ?ys) (Some ?a) [] = None"
    by (rule walk_cycle [where b = ?b]) (simp_all only: ids truthy index)
  moreover have "leafEntry ?ys (shortId src n) (entryIndex ?ys) = Some ?a"
    by (simp only: leafEntry_def index truthy if_True option.case)
  moreover have "shortId src n \<noteq> IdNull" by (simp add: shortId_def)
  ultimately have "buildSessionPath ?ys (shortId src (n + 2)) None = None"
    using assms(3) by (simp add: buildSessionPath_def buildEntryIndex_def del: migratedEntries.simps)
  then show ?thesis using migrate_closed [OF assms(2,1), of src n] by simp
qed

theorem migration_repeats_ids_witness:
  "let src = migrationSource\<lparr>sr_randomUUID := \<lambda>k. if even k then [97] else [98]\<rparr>;
     es = [oldEntry (SM_thinkingLevelChange [104]), oldEntry (SM_modelChange [112] [109]), oldEntry SM_other]
   in fst (migrateToCurrentVersion src (FHeader oldHeader # map FEntry es) 0) \<and>
     buildSessionPath (migratedEntries src 0 0 es) (shortId src 2) None = None"
proof -
  let ?src = "migrationSource\<lparr>sr_randomUUID := \<lambda>k. if even k then [97] else [98]\<rparr>"
  have "keptBeforeAll 0 [oldEntry (SM_thinkingLevelChange [104]), oldEntry (SM_modelChange [112] [109]), oldEntry SM_other]"
    "hd_version oldHeader = None" "shortId ?src (0 + 2) = shortId ?src 0" "shortId ?src (0 + 1) \<noteq> shortId ?src 0"
    "\<forall>k. sr_randomUUID ?src k \<noteq> []"
    by (simp_all add: keptBefore_def oldEntry_def oldHeader_def shortId_def)
  from migration_repeats_ids [OF this] show ?thesis unfolding Let_def by (simp add: numeral_2_eq_2 del: migratedEntries.simps)
qed

end
