(* ===== verification/CodingCompaction.thy ===== *)
theory CodingCompaction
  imports BranchSummary SessionManager
begin

text \<open>
  Compaction and branch summaries of the coding agent, packages/coding-agent/src/core/compaction, over the
  entries of \<open>SessionManager\<close>. The estimates of tokens, the prompts, the file operations and the request to the
  model are those of \<open>Compaction\<close> and \<open>BranchSummary\<close>: the sources of both packages have the same text there.
  What is thrown is its message.
\<close>

section \<open>Entries\<close>

definition entryMessages :: "(jstr \<Rightarrow> int) \<Rightarrow> sm_entry \<Rightarrow> agent_message list" where
  "entryMessages getTime e = map rawMessage (entryToMessages getTime e)"

definition isCompactionEntry :: "sm_entry \<Rightarrow> bool" where
  "isCompactionEntry e \<longleftrightarrow> smCompactionOf e \<noteq> None"

definition smExtractFileOperations :: "agent_message list \<Rightarrow> sm_entry list \<Rightarrow> nat option \<Rightarrow> file_operations" where
  "smExtractFileOperations messages entries prevCompactionIndex =
     (let ops0 = createFileOps;
          ops1 =
            (case prevCompactionIndex of
               None \<Rightarrow> ops0
             | Some i \<Rightarrow>
                 (case smCompactionOf (entries ! i) of
                    None \<Rightarrow> ops0
                  | Some d \<Rightarrow>
                      (case sc_details d of
                         Some details \<Rightarrow>
                           (if sc_fromHook d \<noteq> Some True \<and> truthyJson details
                            then ops0\<lparr>fops_read := setAddAll (stringsIn (js ''readFiles'') details) (fops_read ops0),
                                      fops_edited := setAddAll (stringsIn (js ''modifiedFiles'') details) (fops_edited ops0)\<rparr>
                            else ops0)
                       | None \<Rightarrow> ops0)))
      in fold extractFileOpsFromMessage messages ops1)"

definition smMessageForCompaction :: "(jstr \<Rightarrow> int) \<Rightarrow> sm_entry \<Rightarrow> agent_message option" where
  "smMessageForCompaction getTime e =
     (if isCompactionEntry e then None
      else (case entryMessages getTime e of [] \<Rightarrow> None | m # _ \<Rightarrow> Some m))"

definition smLastAssistantUsage :: "sm_entry list \<Rightarrow> usage option" where
  "smLastAssistantUsage entries =
     (case List.map_filter (\<lambda>e. case se_body e of SM_message r \<Rightarrow> getAssistantUsage (rawMessage r) | _ \<Rightarrow> None) (rev entries) of
        [] \<Rightarrow> None
      | u # _ \<Rightarrow> Some u)"

section \<open>The cut point\<close>

fun isCutPointMessage :: "agent_message \<Rightarrow> bool" where
  "isCutPointMessage (Msg (MToolResult _)) = False"
| "isCutPointMessage _ = True"

fun isTurnStartMessage :: "agent_message \<Rightarrow> bool" where
  "isTurnStartMessage (Msg (MAssistant _)) = False"
| "isTurnStartMessage (Msg (MToolResult _)) = False"
| "isTurnStartMessage _ = True"

definition isTurnStartEntry :: "(jstr \<Rightarrow> int) \<Rightarrow> sm_entry \<Rightarrow> bool" where
  "isTurnStartEntry getTime e \<longleftrightarrow> \<not> isCompactionEntry e \<and> list_ex isTurnStartMessage (entryMessages getTime e)"

definition isCutEntry :: "(jstr \<Rightarrow> int) \<Rightarrow> sm_entry \<Rightarrow> bool" where
  "isCutEntry getTime e \<longleftrightarrow> \<not> isCompactionEntry e \<and> list_ex isCutPointMessage (entryMessages getTime e)"

definition smFindValidCutPoints :: "(jstr \<Rightarrow> int) \<Rightarrow> sm_entry list \<Rightarrow> nat \<Rightarrow> nat \<Rightarrow> nat list" where
  "smFindValidCutPoints getTime entries startIndex endIndex =
     filter (\<lambda>i. isCutEntry getTime (entries ! i)) [startIndex..<endIndex]"

definition smFindTurnStartIndex :: "(jstr \<Rightarrow> int) \<Rightarrow> sm_entry list \<Rightarrow> nat \<Rightarrow> nat \<Rightarrow> nat option" where
  "smFindTurnStartIndex getTime entries cutIndex startIndex =
     find (\<lambda>i. isTurnStartEntry getTime (entries ! i)) (rev [startIndex..<Suc cutIndex])"

definition smEntryTokens :: "(jstr \<Rightarrow> int) \<Rightarrow> sm_entry \<Rightarrow> int" where
  "smEntryTokens getTime e = sum_list (map estimateTokens (entryMessages getTime e))"

text \<open>The backwards loop that adds up tokens: the entry at which the budget is reached, below the index \<open>i\<close>.\<close>

fun smBudgetIndex :: "(jstr \<Rightarrow> int) \<Rightarrow> sm_entry list \<Rightarrow> nat \<Rightarrow> int \<Rightarrow> nat \<Rightarrow> int \<Rightarrow> nat option" where
  "smBudgetIndex getTime entries startIndex keep 0 acc = None"
| "smBudgetIndex getTime entries startIndex keep (Suc i) acc =
     (let tokens = smEntryTokens getTime (entries ! i)
      in if i < startIndex then None
         else if tokens = 0 then smBudgetIndex getTime entries startIndex keep i acc
         else if acc + tokens \<ge> keep then Some i
         else smBudgetIndex getTime entries startIndex keep i (acc + tokens))"

definition smChooseCut :: "(jstr \<Rightarrow> int) \<Rightarrow> sm_entry list \<Rightarrow> nat \<Rightarrow> nat \<Rightarrow> int \<Rightarrow> nat" where
  "smChooseCut getTime entries startIndex endIndex keep =
     (let cutPoints = smFindValidCutPoints getTime entries startIndex endIndex
      in case smBudgetIndex getTime entries startIndex keep endIndex 0 of
           None \<Rightarrow> hd cutPoints
         | Some i \<Rightarrow> orDefault (find (\<lambda>c. c \<ge> i) cutPoints) (hd cutPoints))"

text \<open>The loop that moves the cut before entries that the context does not show.\<close>

fun smMoveCutBack :: "(jstr \<Rightarrow> int) \<Rightarrow> sm_entry list \<Rightarrow> nat \<Rightarrow> nat \<Rightarrow> nat" where
  "smMoveCutBack getTime entries startIndex 0 = 0"
| "smMoveCutBack getTime entries startIndex (Suc i) =
     (if Suc i > startIndex \<and> \<not> (isCompactionEntry (entries ! i) \<or> entryMessages getTime (entries ! i) \<noteq> [])
      then smMoveCutBack getTime entries startIndex i else Suc i)"

definition smFindCutPoint :: "(jstr \<Rightarrow> int) \<Rightarrow> sm_entry list \<Rightarrow> nat \<Rightarrow> nat \<Rightarrow> int \<Rightarrow> cut_point_result" where
  "smFindCutPoint getTime entries startIndex endIndex keep =
     (if smFindValidCutPoints getTime entries startIndex endIndex = []
      then \<lparr>ct_firstKeptEntryIndex = startIndex, ct_turnStartIndex = None, ct_isSplitTurn = False\<rparr>
      else (let cutIndex = smMoveCutBack getTime entries startIndex (smChooseCut getTime entries startIndex endIndex keep);
                startsTurn = isTurnStartEntry getTime (entries ! cutIndex);
                turnStart = (if startsTurn then None else smFindTurnStartIndex getTime entries cutIndex startIndex)
            in \<lparr>ct_firstKeptEntryIndex = cutIndex, ct_turnStartIndex = turnStart,
                ct_isSplitTurn = (\<not> startsTurn \<and> turnStart \<noteq> None)\<rparr>))"

section \<open>Preparation\<close>

record coding_preparation =
  cn_firstKeptEntryId :: jstr
  cn_messagesToSummarize :: "agent_message list"
  cn_turnPrefixMessages :: "agent_message list"
  cn_isSplitTurn :: bool
  cn_tokensBefore :: int
  cn_previousSummary :: "jstr option"
  cn_fileOps :: file_operations
  cn_settings :: compaction_settings

definition smLastCompactionIndex :: "sm_entry list \<Rightarrow> nat option" where
  "smLastCompactionIndex entries = find (\<lambda>i. isCompactionEntry (entries ! i)) (rev [0..<length entries])"

definition smBoundaryStart :: "sm_entry list \<Rightarrow> nat" where
  "smBoundaryStart entries =
     (case smLastCompactionIndex entries of
        None \<Rightarrow> 0
      | Some i \<Rightarrow>
          orDefault (findIndex (\<lambda>e. se_id e = sc_firstKeptEntryId (the (smCompactionOf (entries ! i)))) entries) (i + 1))"

text \<open>The messages of the entries with an index from \<open>i\<close> below \<open>j\<close>.\<close>

definition smMessagesBetween :: "(jstr \<Rightarrow> int) \<Rightarrow> sm_entry list \<Rightarrow> nat \<Rightarrow> nat \<Rightarrow> agent_message list" where
  "smMessagesBetween getTime entries i j =
     List.map_filter (\<lambda>k. smMessageForCompaction getTime (entries ! k)) [i..<j]"

text \<open>\<open>None\<close> where the context of the entries cannot be built.\<close>

definition smPrepareCompaction ::
  "(jstr \<Rightarrow> int) \<Rightarrow> sm_entry list \<Rightarrow> compaction_settings \<Rightarrow> coding_preparation option option" where
  "smPrepareCompaction getTime path settings =
     (if path \<noteq> [] \<and> isCompactionEntry (last path) then Some None
      else (case smBuildSessionContext getTime path IdUndefined None of
              None \<Rightarrow> None
            | Some ctx \<Rightarrow>
                (let prev = smLastCompactionIndex path;
                     previousSummary = (case prev of None \<Rightarrow> None | Some i \<Rightarrow> map_option sc_summary (smCompactionOf (path ! i)));
                     boundaryStart = smBoundaryStart path;
                     boundaryEnd = length path;
                     tokensBefore = ue_tokens (estimateContextTokens (map rawMessage (sq_messages ctx)));
                     cutPoint = smFindCutPoint getTime path boundaryStart boundaryEnd (cp_keepRecentTokens settings);
                     firstKept = ct_firstKeptEntryIndex cutPoint
                 in case (if firstKept < length path then se_id (path ! firstKept) else IdUndefined) of
                      Id i \<Rightarrow>
                        (if i = [] then Some None
                         else (let historyEnd = (if ct_isSplitTurn cutPoint then the (ct_turnStartIndex cutPoint) else firstKept);
                                   messagesToSummarize = smMessagesBetween getTime path boundaryStart historyEnd;
                                   turnPrefixMessages =
                                     (if ct_isSplitTurn cutPoint
                                      then smMessagesBetween getTime path (the (ct_turnStartIndex cutPoint)) firstKept else [])
                               in if messagesToSummarize = [] \<and> turnPrefixMessages = [] then Some None
                                  else (let fileOps = smExtractFileOperations messagesToSummarize path prev
                                        in Some (Some
                                             \<lparr>cn_firstKeptEntryId = i,
                                              cn_messagesToSummarize = messagesToSummarize,
                                              cn_turnPrefixMessages = turnPrefixMessages,
                                              cn_isSplitTurn = ct_isSplitTurn cutPoint,
                                              cn_tokensBefore = tokensBefore,
                                              cn_previousSummary = previousSummary,
                                              cn_fileOps = (if ct_isSplitTurn cutPoint
                                                then fold extractFileOpsFromMessage turnPrefixMessages fileOps else fileOps),
                                              cn_settings = settings\<rparr>))))
                    | _ \<Rightarrow> Some None)))"

section \<open>Summaries\<close>

text \<open>An answer that was aborted is taken as the summary, the caller looks at the signal.\<close>

definition requestCodingSummary ::
  "('w, jstr) summary_env \<Rightarrow> model \<Rightarrow> int \<Rightarrow> thinking_level option \<Rightarrow> jstr \<Rightarrow> jstr \<Rightarrow> 'w retry_run \<Rightarrow>
   (jstr + jstr \<times> usage) \<times> 'w retry_run" where
  "requestCodingSummary V m maxTokens thinkingLevel promptText failedText r =
     (let llmContext = \<lparr>lc_systemPrompt = Some SUMMARIZATION_SYSTEM_PROMPT,
            lc_messages = [mk_user [text_block promptText] (sv_now V (rr_world r))], lc_tools = None\<rparr>
      in case completeSimpleWithRetries V m llmContext (summaryOptions maxTokens m thinkingLevel) r of
           (Inl e, r') \<Rightarrow> (Inl e, r')
         | (Inr response, r') \<Rightarrow>
             (if am_stopReason response = SR_error
              then (Inl (failedText @ orMessage (am_errorMessage response) unknownError), r')
              else (Inr (contentText_assistant NL (am_content response), am_usage response), r')))"

definition codingSummaryWithUsage ::
  "('w, jstr) summary_env \<Rightarrow> agent_message list \<Rightarrow> model \<Rightarrow> int \<Rightarrow> jstr option \<Rightarrow> jstr option \<Rightarrow>
   thinking_level option \<Rightarrow> 'w retry_run \<Rightarrow> (jstr + jstr \<times> usage) \<times> 'w retry_run" where
  "codingSummaryWithUsage V messages m reserveTokens customInstructions previousSummary thinkingLevel r =
     requestCodingSummary V m (maxTokensFor (4 * reserveTokens div 5) m) thinkingLevel
       (summaryPrompt messages customInstructions previousSummary) (js ''Summarization failed: '') r"

definition codingTurnPrefixSummary ::
  "('w, jstr) summary_env \<Rightarrow> agent_message list \<Rightarrow> model \<Rightarrow> int \<Rightarrow> thinking_level option \<Rightarrow> 'w retry_run \<Rightarrow>
   (jstr + jstr \<times> usage) \<times> 'w retry_run" where
  "codingTurnPrefixSummary V messages m reserveTokens thinkingLevel r =
     requestCodingSummary V m (maxTokensFor (reserveTokens div 2) m) thinkingLevel
       (conversationPrompt messages @ TURN_PREFIX_SUMMARIZATION_PROMPT) (js ''Turn prefix summarization failed: '') r"

record coding_compaction =
  cc_summary :: jstr
  cc_firstKeptEntryId :: jstr
  cc_tokensBefore :: int
  cc_estimatedTokensAfter :: "int option"
  cc_usage :: "usage option"
  cc_details :: "json option"

definition codingSummarizeParts ::
  "('w, jstr) summary_env \<Rightarrow> coding_preparation \<Rightarrow> model \<Rightarrow> jstr option \<Rightarrow> thinking_level option \<Rightarrow> 'w retry_run \<Rightarrow>
   (jstr + jstr \<times> usage) \<times> 'w retry_run" where
  "codingSummarizeParts V p m customInstructions thinkingLevel r =
     (let reserve = cp_reserveTokens (cn_settings p);
          turnPart = (\<lambda>historyText historyUsage r1.
            case codingTurnPrefixSummary V (cn_turnPrefixMessages p) m reserve thinkingLevel r1 of
              (Inr (prefixText, u), r2) \<Rightarrow>
                (Inr (splitSummary historyText prefixText,
                      case historyUsage of Some h \<Rightarrow> combineUsage h u | None \<Rightarrow> u), r2)
            | (Inl e, r2) \<Rightarrow> (Inl e, r2))
      in if cn_isSplitTurn p \<and> cn_turnPrefixMessages p \<noteq> []
         then (if cn_messagesToSummarize p = [] then turnPart noHistoryText None r
               else (case codingSummaryWithUsage V (cn_messagesToSummarize p) m reserve customInstructions
                       (cn_previousSummary p) thinkingLevel r of
                       (Inr (historyText, h), r1) \<Rightarrow> turnPart historyText (Some h) r1
                     | (Inl e, r1) \<Rightarrow> (Inl e, r1)))
         else codingSummaryWithUsage V (cn_messagesToSummarize p) m reserve customInstructions
                (cn_previousSummary p) thinkingLevel r)"

definition codingCompact ::
  "('w, jstr) summary_env \<Rightarrow> coding_preparation \<Rightarrow> model \<Rightarrow> jstr option \<Rightarrow> thinking_level option \<Rightarrow> 'w retry_run \<Rightarrow>
   (jstr + coding_compaction) \<times> 'w retry_run" where
  "codingCompact V p m customInstructions thinkingLevel r =
     (case codingSummarizeParts V p m customInstructions thinkingLevel r of
        (Inl e, r') \<Rightarrow> (Inl e, r')
      | (Inr (summary, u), r') \<Rightarrow>
          (case computeFileLists (cn_fileOps p) of
             (readFiles, modifiedFiles) \<Rightarrow>
               (if cn_firstKeptEntryId p = []
                then (Inl (js ''First kept entry has no UUID - session may need migration''), r')
                else (Inr \<lparr>cc_summary = summary @ formatFileOperations readFiles modifiedFiles,
                           cc_firstKeptEntryId = cn_firstKeptEntryId p,
                           cc_tokensBefore = cn_tokensBefore p,
                           cc_estimatedTokensAfter = None,
                           cc_usage = Some u,
                           cc_details = Some (fileDetails readFiles modifiedFiles)\<rparr>, r'))))"

section \<open>Branch summaries\<close>

record sm_collected =
  cl_entries :: "sm_entry list"
  cl_commonAncestorId :: sid

text \<open>The loop that walks up, with the entries it has pushed; it may not end over an arbitrary index.\<close>

partial_function (option) smWalkUp ::
  "session_manager \<Rightarrow> sid \<Rightarrow> sid \<Rightarrow> sm_entry list \<Rightarrow> sm_entry list option" where
  "smWalkUp s ancestor current entries =
     (if truthyId current \<and> current \<noteq> ancestor
      then (case map_of (sg_byId s) current of
              None \<Rightarrow> Some entries
            | Some e \<Rightarrow> smWalkUp s ancestor (se_parentId e) (entries @ [e]))
      else Some entries)"

text \<open>An absent common ancestor is \<open>null\<close>.\<close>

definition smCollectEntries :: "session_manager \<Rightarrow> sid \<Rightarrow> jstr \<Rightarrow> sm_collected option" where
  "smCollectEntries s oldLeafId targetId =
     (case oldLeafId of
        Id i \<Rightarrow>
          (if i = [] then Some \<lparr>cl_entries = [], cl_commonAncestorId = IdNull\<rparr>
           else (case smGetBranch (Some i) s of
                   None \<Rightarrow> None
                 | Some oldPath \<Rightarrow>
                     (case smGetBranch (Some targetId) s of
                        None \<Rightarrow> None
                      | Some targetPath \<Rightarrow>
                          (let ancestor = (case find (\<lambda>e. se_id e \<in> set (map se_id oldPath)) (rev targetPath) of
                                 Some e \<Rightarrow> se_id e | None \<Rightarrow> IdNull)
                           in map_option (\<lambda>es. \<lparr>cl_entries = rev es, cl_commonAncestorId = ancestor\<rparr>)
                                (smWalkUp s ancestor oldLeafId [])))))
      | _ \<Rightarrow> Some \<lparr>cl_entries = [], cl_commonAncestorId = IdNull\<rparr>)"

text \<open>A custom entry has its content here.\<close>

definition smBranchMessage :: "(jstr \<Rightarrow> int) \<Rightarrow> sm_entry \<Rightarrow> agent_message option" where
  "smBranchMessage getTime e =
     (case se_body e of
        SM_message r \<Rightarrow> (case rawMessage r of Msg (MToolResult _) \<Rightarrow> None | m \<Rightarrow> Some m)
      | SM_customMessage customType content display details \<Rightarrow>
          Some (Custom (createCustomMessage getTime customType (orDefault content (UBlocks [])) display details (se_timestamp e)))
      | SM_branchSummary d \<Rightarrow>
          Some (BranchSummary (createBranchSummaryMessage getTime (bd_summary d) (bd_fromId d) (se_timestamp e)))
      | SM_compaction c \<Rightarrow>
          Some (CompactionSummary (createCompactionSummaryMessage getTime (sc_summary c) (sc_tokensBefore c) (se_timestamp e)))
      | _ \<Rightarrow> None)"

definition smAddSummaryFiles :: "sm_entry \<Rightarrow> file_operations \<Rightarrow> file_operations" where
  "smAddSummaryFiles e ops =
     (case se_body e of
        SM_branchSummary d \<Rightarrow>
          (case bd_details d of
             Some details \<Rightarrow>
               (if bd_fromHook d \<noteq> Some True \<and> truthyJson details
                then ops\<lparr>fops_read := setAddAll (stringsIn (js ''readFiles'') details) (fops_read ops),
                         fops_edited := setAddAll (stringsIn (js ''modifiedFiles'') details) (fops_edited ops)\<rparr>
                else ops)
           | None \<Rightarrow> ops)
      | _ \<Rightarrow> ops)"

fun smIsSummary :: "sm_body \<Rightarrow> bool" where
  "smIsSummary (SM_compaction _) = True"
| "smIsSummary (SM_branchSummary _) = True"
| "smIsSummary _ = False"

fun smTakeWithinBudget :: "(jstr \<Rightarrow> int) \<Rightarrow> int \<Rightarrow> sm_entry list \<Rightarrow> branch_preparation \<Rightarrow> branch_preparation" where
  "smTakeWithinBudget getTime tokenBudget [] p = p"
| "smTakeWithinBudget getTime tokenBudget (e # es) p =
     (case smBranchMessage getTime e of
        None \<Rightarrow> smTakeWithinBudget getTime tokenBudget es p
      | Some m \<Rightarrow>
          (let p1 = p\<lparr>bp_fileOps := extractFileOpsFromMessage m (bp_fileOps p)\<rparr>;
               tokens = estimateTokens m;
               p2 = p1\<lparr>bp_messages := m # bp_messages p1, bp_totalTokens := bp_totalTokens p1 + tokens\<rparr>
           in if tokenBudget > 0 \<and> bp_totalTokens p1 + tokens > tokenBudget
              then (if smIsSummary (se_body e) \<and> 10 * bp_totalTokens p1 < 9 * tokenBudget then p2 else p1)
              else smTakeWithinBudget getTime tokenBudget es p2))"

definition smPrepareBranchEntries :: "(jstr \<Rightarrow> int) \<Rightarrow> sm_entry list \<Rightarrow> int \<Rightarrow> branch_preparation" where
  "smPrepareBranchEntries getTime entries tokenBudget =
     smTakeWithinBudget getTime tokenBudget (rev entries)
       \<lparr>bp_messages = [], bp_fileOps = fold smAddSummaryFiles entries createFileOps, bp_totalTokens = 0\<rparr>"

datatype branch_outcome =
    BranchSummarized jstr "usage option" "jstr list option" "jstr list option"
  | BranchAborted
  | BranchFailed jstr

definition codingBranchSummary ::
  "(jstr \<Rightarrow> int) \<Rightarrow> ('w, jstr) summary_env \<Rightarrow> sm_entry list \<Rightarrow> branch_summary_options \<Rightarrow> 'w retry_run \<Rightarrow>
   (jstr + branch_outcome) \<times> 'w retry_run" where
  "codingBranchSummary getTime V entries opts r =
     (let p = smPrepareBranchEntries getTime entries (branchTokenBudget opts)
      in if bp_messages p = []
         then (Inr (BranchSummarized (js ''No content to summarize'') None None None), r)
         else
           (let llmContext = \<lparr>lc_systemPrompt = Some SUMMARIZATION_SYSTEM_PROMPT,
                  lc_messages = [mk_user [text_block (conversationPrompt (bp_messages p) @ branchInstructions opts)]
                    (sv_now V (rr_world r))], lc_tools = None\<rparr>
            in case completeSimpleWithRetries V (bo_model opts) llmContext
                      \<lparr>so_maxTokens = 2048, so_reasoning = None\<rparr> r of
                 (Inl e, r') \<Rightarrow> (Inl e, r')
               | (Inr response, r') \<Rightarrow>
                   (if am_stopReason response = SR_aborted then (Inr BranchAborted, r')
                    else if am_stopReason response = SR_error
                    then (Inr (BranchFailed (orMessage (am_errorMessage response) (js ''Summarization failed''))), r')
                    else (let b = branchSummaryResult response (bp_fileOps p)
                          in (Inr (BranchSummarized (br_summary b) (br_usage b) (Some (br_readFiles b)) (Some (br_modifiedFiles b))), r')))))"

end
