(* ===== verification/Overflow.thy ===== *)
theory Overflow
  imports Retry
begin

text \<open>
  The detection of an overflow of the context window, packages/ai/src/utils/overflow.ts. Its regular
  expressions are trees over literals, characters of a class, options and alternatives, all with the flag
  \<open>i\<close>; a match gives every rest that may follow it, as backtracking does.
\<close>

datatype rx =
    RxLit string
  | RxMany nat "jchar \<Rightarrow> bool"
  | RxOpt rx
  | RxAlt rx rx
  | RxSeq rx rx

fun rests :: "rx \<Rightarrow> jstr \<Rightarrow> jstr list" where
  "rests (RxLit l) s =
     (if map foldCase (take (length l) s) = map foldCase (js l) then [drop (length l) s] else [])"
| "rests (RxMany n P) s = map (\<lambda>k. drop k s) (rev [n..<Suc (length (takeWhile P s))])"
| "rests (RxOpt r) s = rests r s @ [s]"
| "rests (RxAlt a b) s = rests a s @ rests b s"
| "rests (RxSeq a b) s = concat (map (rests b) (rests a s))"

fun rxSeq :: "rx list \<Rightarrow> rx" where
  "rxSeq [] = RxLit []"
| "rxSeq (r # rs) = RxSeq r (rxSeq rs)"

fun rxSearch :: "rx \<Rightarrow> jstr \<Rightarrow> bool" where
  "rxSearch r [] \<longleftrightarrow> rests r [] \<noteq> []"
| "rxSearch r (c # cs) \<longleftrightarrow> rests r (c # cs) \<noteq> [] \<or> rxSearch r cs"

text \<open>A pattern with \<open>^\<close> or without.\<close>

datatype rx_pattern = AtStart "rx list" | Anywhere "rx list"

fun rxTest :: "jstr \<Rightarrow> rx_pattern \<Rightarrow> bool" where
  "rxTest s (AtStart rs) \<longleftrightarrow> rests (rxSeq rs) s \<noteq> []"
| "rxTest s (Anywhere rs) \<longleftrightarrow> rxSearch (rxSeq rs) s"

definition rxDigit :: "jchar \<Rightarrow> bool" where
  "rxDigit c \<longleftrightarrow> 48 \<le> c \<and> c \<le> 57"

definition rxDigitOrComma :: "jchar \<Rightarrow> bool" where
  "rxDigitOrComma c \<longleftrightarrow> rxDigit c \<or> c = 44"

definition rxAny :: "jchar \<Rightarrow> bool" where
  "rxAny c \<longleftrightarrow> \<not> isLineTerminator c"

abbreviation rxDigits :: rx where "rxDigits \<equiv> RxMany 1 rxDigit"
abbreviation rxCommaDigits :: rx where "rxCommaDigits \<equiv> RxMany 1 rxDigitOrComma"
abbreviation rxSpaces :: rx where "rxSpaces \<equiv> RxMany 0 isSpace"

definition OVERFLOW_PATTERNS :: "rx_pattern list" where
  "OVERFLOW_PATTERNS =
     [Anywhere [RxLit ''prompt is too long''],
      Anywhere [RxLit ''request_too_large''],
      Anywhere [RxLit ''input is too long for requested model''],
      Anywhere [RxLit ''exceeds the context window''],
      Anywhere [RxLit ''exceeds '', RxOpt (RxLit ''the ''), RxOpt (rxSeq [RxLit ''model'', RxOpt (RxLit [CHR 39]), RxLit ''s '']),
        RxLit ''maximum context length'',
        RxAlt (rxSeq [RxLit '' of '', rxCommaDigits, RxLit '' token'', RxOpt (RxLit ''s'')])
          (rxSeq [rxSpaces, RxLit ''('', rxCommaDigits, RxLit '')''])],
      Anywhere [RxLit ''input token count'', RxMany 0 rxAny, RxLit ''exceeds the maximum''],
      Anywhere [RxLit ''maximum prompt length is '', rxDigits],
      Anywhere [RxLit ''reduce the length of the messages''],
      Anywhere [RxLit ''maximum context length is '', rxDigits, RxLit '' tokens''],
      Anywhere [RxLit ''exceeds '', RxOpt (RxLit ''the ''), RxLit ''maximum allowed input length of '', rxCommaDigits,
        RxLit '' token'', RxOpt (RxLit ''s'')],
      Anywhere [RxLit ''input ('', rxDigits, RxLit '' tokens) is longer than the model'', RxOpt (RxLit [CHR 39]),
        RxLit ''s context length ('', rxDigits, RxLit '' tokens)''],
      Anywhere [RxLit ''exceeds the limit of '', rxDigits],
      Anywhere [RxLit ''exceeds the available context size''],
      Anywhere [RxLit ''greater than the context length''],
      Anywhere [RxLit ''context window exceeds limit''],
      Anywhere [RxLit ''exceeded model token limit''],
      Anywhere [RxLit ''too large for model with '', rxDigits, RxLit '' maximum context length''],
      Anywhere [RxLit ''prompt has '', rxCommaDigits, RxLit '' token'', RxOpt (RxLit ''s''),
        RxLit '', but the configured context size is '', rxCommaDigits, RxLit '' token'', RxOpt (RxLit ''s'')],
      Anywhere [RxLit ''model_context_window_exceeded''],
      Anywhere [RxLit ''prompt too long; exceeded '', RxOpt (RxLit ''max ''), RxLit ''context length''],
      Anywhere [RxLit ''range of input length should be''],
      Anywhere [RxLit ''context'', RxAlt (RxLit ''_'') (RxLit '' ''), RxLit ''length'', RxAlt (RxLit ''_'') (RxLit '' ''),
        RxLit ''exceeded''],
      Anywhere [RxLit ''too many tokens''],
      Anywhere [RxLit ''token limit exceeded''],
      AtStart [RxLit ''4'', RxAlt (RxLit ''00'') (RxLit ''13''), rxSpaces, RxOpt (RxLit ''status code''), rxSpaces,
        RxLit ''(no body)'']]"

definition NON_OVERFLOW_PATTERNS :: "rx_pattern list" where
  "NON_OVERFLOW_PATTERNS =
     [AtStart [RxAlt (RxLit ''Throttling error'') (RxLit ''Service unavailable''), RxLit '':''],
      Anywhere [RxLit ''rate limit''],
      Anywhere [RxLit ''too many requests'']]"

text \<open>The window is 0 where the source has none; its product with 0.99 is exact.\<close>

definition isContextOverflow :: "assistant_message \<Rightarrow> int \<Rightarrow> bool" where
  "isContextOverflow m contextWindow \<longleftrightarrow>
     am_stopReason m = SR_error \<and> truthyStr (am_errorMessage m) \<and>
       \<not> list_ex (rxTest (the (am_errorMessage m))) NON_OVERFLOW_PATTERNS \<and>
       list_ex (rxTest (the (am_errorMessage m))) OVERFLOW_PATTERNS \<or>
     contextWindow \<noteq> 0 \<and> am_stopReason m = SR_stop \<and>
       us_input (am_usage m) + us_cacheRead (am_usage m) > contextWindow \<or>
     contextWindow \<noteq> 0 \<and> am_stopReason m = SR_length \<and> us_output (am_usage m) = 0 \<and>
       100 * (us_input (am_usage m) + us_cacheRead (am_usage m)) \<ge> 99 * contextWindow"

text \<open>The detection on messages of providers.\<close>

lemma overflow_examples:
  "rxTest (js ''413 status code (no body)'') (OVERFLOW_PATTERNS ! 24)"
  "rxTest (js ''exceeds model'' @ [39] @ js ''s maximum context length (9,1)'') (OVERFLOW_PATTERNS ! 4)"
  "\<not> rxTest (js ''exceeds maximum context length of 9'') (OVERFLOW_PATTERNS ! 4)"
  by code_simp+

lemma overflow_not_rate_limited:
  "isContextOverflow m w \<Longrightarrow> am_stopReason m = SR_error \<Longrightarrow>
     \<not> list_ex (rxTest (the (am_errorMessage m))) NON_OVERFLOW_PATTERNS"
  by (auto simp: isContextOverflow_def)

end
