(* ===== verification/CodingAgent.thy ===== *)
theory CodingAgent
  imports Agent CodingCompaction Overflow
begin

text \<open>
  The coding agent's session around an agent, packages/coding-agent/src/core/agent-session.ts: the handling of
  the agent's events with their storage, prompts and queues, the recovery after a run (retry, overflow of the
  context, compaction), the models and their thinking levels, shell commands of the user and statistics.

  The agent is \<open>agent_core\<close> of \<open>Agent\<close>; its environment holds the state of the session, and the
  session's handler is a listener of the agent. Extensions are not modelled: the runner has no
  handlers and no commands. Arguments are the authentication, the sleep before a retry, the making of a
  compaction, the expansion of skills and templates, and the texts of errors. What a
  run still does after the storage of a message has failed is not modelled.
\<close>

section \<open>State\<close>

datatype compaction_reason = CR_manual | CR_threshold | CR_overflow

datatype coding_event =
    AgentSaid agent_event
  | AgentEnded "agent_message list" bool
  | AgentSettled
  | QueueUpdate "jstr list" "jstr list"
  | CompactionStarted compaction_reason
  | CompactionEnded compaction_reason "coding_compaction option" bool bool "jstr option"
  | AutoRetryStarted nat nat nat jstr
  | AutoRetryEnded bool nat "jstr option"
  | ThinkingLevelChanged thinking_level
  | SessionInfoChanged "jstr option"

record coding_settings =
  ct_retry :: retry_policy
  ct_compaction :: compaction_settings
  ct_defaultModel :: "(jstr \<times> jstr) option"
  ct_defaultThinkingLevel :: "thinking_level option"
  ct_steeringMode :: queue_mode
  ct_followUpMode :: queue_mode
  ct_branchReserveTokens :: int

record 'w coding_env =
  cv_steering :: "jstr list"
  cv_followUp :: "jstr list"
  cv_nextTurn :: "agent_message list"
  cv_overflowAttempted :: bool
  cv_retryAttempt :: nat
  cv_lastAssistant :: "assistant_message option"
  cv_pendingBash :: "agent_message list"
  cv_runActive :: bool
  cv_promptOverride :: "jstr option"
  cv_basePrompt :: jstr
  cv_session :: session_manager
  cv_thrown :: "sm_error option"
  cv_settings :: coding_settings
  cv_events :: "coding_event list"
  cv_world :: 'w

type_synonym 'w session_agent = "'w coding_env agent_core"

record 'w coding_ports =
  cq_runtime :: sm_runtime
  cq_getTime :: "jstr \<Rightarrow> int"
  cq_now :: "'w session_agent \<Rightarrow> int"
  cq_sleep :: "nat \<Rightarrow> 'w session_agent \<Rightarrow> bool \<times> 'w session_agent"
  cq_hasAuth :: "jstr \<Rightarrow> 'w session_agent \<Rightarrow> bool"
  cq_requestAuth :: "'w session_agent \<Rightarrow> jstr + bool"
  cq_compact :: "coding_preparation \<Rightarrow> 'w session_agent \<Rightarrow> (jstr + coding_compaction) \<times> 'w session_agent"
  cq_compactionAborted :: "'w session_agent \<Rightarrow> bool"
  cq_expand :: "jstr \<Rightarrow> 'w session_agent \<Rightarrow> jstr"
  cq_errorText :: "sm_error \<Rightarrow> jstr"
  cq_available :: "'w session_agent \<Rightarrow> model list"
  cq_summaryAuth :: "'w session_agent \<Rightarrow> jstr + unit"
  cq_compactNow :: "coding_preparation \<Rightarrow> jstr option \<Rightarrow> 'w session_agent \<Rightarrow> ((jstr \<times> bool) + coding_compaction) \<times> 'w session_agent"
  cq_branchSummary :: "sm_entry list \<Rightarrow> branch_summary_options \<Rightarrow> 'w session_agent \<Rightarrow> (jstr + branch_outcome) \<times> 'w session_agent"
  cq_typeErrorText :: jstr

definition onEnv :: "('w coding_env \<Rightarrow> 'w coding_env) \<Rightarrow> 'w session_agent \<Rightarrow> 'w session_agent" where
  "onEnv f c = c\<lparr>ag_env := f (ag_env c)\<rparr>"

definition emitEvent :: "coding_event \<Rightarrow> 'w session_agent \<Rightarrow> 'w session_agent" where
  "emitEvent e = onEnv (\<lambda>v. v\<lparr>cv_events := cv_events v @ [e]\<rparr>)"

definition emitQueues :: "'w session_agent \<Rightarrow> 'w session_agent" where
  "emitQueues c = emitEvent (QueueUpdate (cv_steering (ag_env c)) (cv_followUp (ag_env c))) c"

text \<open>An operation of the session file; an error is kept.\<close>

definition storeEntry :: "(session_manager \<Rightarrow> 'a sm_result) \<Rightarrow> 'w session_agent \<Rightarrow> 'w session_agent" where
  "storeEntry f c =
     (case f (cv_session (ag_env c)) of
        (Inl e, s) \<Rightarrow> onEnv (\<lambda>v. v\<lparr>cv_session := s, cv_thrown := Some e\<rparr>) c
      | (Inr _, s) \<Rightarrow> onEnv (\<lambda>v. v\<lparr>cv_session := s\<rparr>) c)"

section \<open>The agent's events\<close>

definition isRetryableError :: "assistant_message \<Rightarrow> 'w session_agent \<Rightarrow> bool" where
  "isRetryableError m c \<longleftrightarrow> \<not> isContextOverflow m (md_contextWindow (ag_model c)) \<and> isRetryableAssistantError m"

fun lastAssistantOf :: "agent_message list \<Rightarrow> assistant_message option" where
  "lastAssistantOf [] = None"
| "lastAssistantOf (m # ms) =
     (case lastAssistantOf ms of
        Some a \<Rightarrow> Some a
      | None \<Rightarrow> (case m of Msg (MAssistant a) \<Rightarrow> Some a | _ \<Rightarrow> None))"

definition willRetryAfterAgentEnd :: "agent_message list \<Rightarrow> 'w session_agent \<Rightarrow> bool" where
  "willRetryAfterAgentEnd ms c =
     (let settings = ct_retry (cv_settings (ag_env c))
      in if \<not> ry_enabled settings \<or> cv_retryAttempt (ag_env c) \<ge> ry_maxRetries settings then False
         else (case lastAssistantOf ms of Some a \<Rightarrow> isRetryableError a c | None \<Rightarrow> False))"

text \<open>The removal of a delivered message from the queues that are shown.\<close>

definition takeFromQueues :: "user_message \<Rightarrow> 'w session_agent \<Rightarrow> 'w session_agent" where
  "takeFromQueues u c0 =
     (let c = onEnv (\<lambda>v. v\<lparr>cv_overflowAttempted := False\<rparr>) c0;
          messageText = contentText_user [] (um_content u)
      in if messageText = [] then c
         else if messageText \<in> set (cv_steering (ag_env c))
         then emitQueues (onEnv (\<lambda>v. v\<lparr>cv_steering := remove1 messageText (cv_steering v)\<rparr>) c)
         else if messageText \<in> set (cv_followUp (ag_env c))
         then emitQueues (onEnv (\<lambda>v. v\<lparr>cv_followUp := remove1 messageText (cv_followUp v)\<rparr>) c)
         else c)"

definition persistMessage :: "'w coding_ports \<Rightarrow> agent_message \<Rightarrow> 'w session_agent \<Rightarrow> 'w session_agent" where
  "persistMessage P m c =
     (case m of
        Custom cm \<Rightarrow>
          storeEntry (smAppendCustomMessageEntry (cq_runtime P) (cm_customType cm) (cm_content cm) (cm_display cm) (cm_details cm)) c
      | Msg _ \<Rightarrow> storeEntry (smAppendMessage (cq_runtime P) m) c
      | _ \<Rightarrow> c)"

definition trackAssistant :: "assistant_message \<Rightarrow> 'w session_agent \<Rightarrow> 'w session_agent" where
  "trackAssistant a c0 =
     (let c = onEnv (\<lambda>v. v\<lparr>cv_lastAssistant := Some a\<rparr>) c0
      in if am_stopReason a \<noteq> SR_error then
           (let c1 = onEnv (\<lambda>v. v\<lparr>cv_overflowAttempted := False\<rparr>) c
            in if cv_retryAttempt (ag_env c1) > 0
               then onEnv (\<lambda>v. v\<lparr>cv_retryAttempt := 0\<rparr>)
                      (emitEvent (AutoRetryEnded True (cv_retryAttempt (ag_env c1)) None) c1)
               else c1)
         else c)"

definition handleSessionEvent :: "'w coding_ports \<Rightarrow> agent_event \<Rightarrow> 'w session_agent \<Rightarrow> 'w session_agent" where
  "handleSessionEvent P e c =
     (if cv_thrown (ag_env c) \<noteq> None then c
      else (let c1 = (case e of MessageStart (Msg (MUser u)) \<Rightarrow> takeFromQueues u c | _ \<Rightarrow> c);
                c2 = (case e of
                        AgentEnd ms \<Rightarrow> emitEvent (AgentEnded ms (willRetryAfterAgentEnd ms c1)) c1
                      | _ \<Rightarrow> emitEvent (AgentSaid e) c1)
            in case e of
                 MessageEnd m \<Rightarrow>
                   (let c3 = persistMessage P m c2
                    in if cv_thrown (ag_env c3) \<noteq> None then c3
                       else (case m of Msg (MAssistant a) \<Rightarrow> trackAssistant a c3 | _ \<Rightarrow> c3))
               | _ \<Rightarrow> c2))"

section \<open>Retry\<close>

definition dropLastAssistant :: "'w session_agent \<Rightarrow> 'w session_agent" where
  "dropLastAssistant c =
     (if ag_messages c \<noteq> [] \<and> isAssistant (last (ag_messages c))
      then c\<lparr>ag_messages := butlast (ag_messages c)\<rparr> else c)"

definition prepareRetry ::
  "'w coding_ports \<Rightarrow> assistant_message \<Rightarrow> 'w session_agent \<Rightarrow> bool \<times> 'w session_agent" where
  "prepareRetry P m c =
     (let settings = ct_retry (cv_settings (ag_env c))
      in if \<not> ry_enabled settings then (False, c)
         else (let attempt = Suc (cv_retryAttempt (ag_env c))
               in if attempt > ry_maxRetries settings then (False, c)
                  else (let delayMs = ry_baseDelayMs settings * 2 ^ (attempt - 1);
                            err = (if truthyStr (am_errorMessage m) then the (am_errorMessage m) else js ''Unknown error'');
                            c1 = emitEvent (AutoRetryStarted attempt (ry_maxRetries settings) delayMs err)
                                   (onEnv (\<lambda>v. v\<lparr>cv_retryAttempt := attempt\<rparr>) c)
                        in case cq_sleep P delayMs (dropLastAssistant c1) of
                             (True, c2) \<Rightarrow>
                               (False, emitEvent (AutoRetryEnded False (cv_retryAttempt (ag_env c2)) (Some (js ''Retry cancelled'')))
                                  (onEnv (\<lambda>v. v\<lparr>cv_retryAttempt := 0\<rparr>) c2))
                           | (False, c2) \<Rightarrow> (True, c2))))"

section \<open>Compaction after a run\<close>

text \<open>\<open>None\<close> where a walk through the session does not end.\<close>

definition endCompaction ::
  "compaction_reason \<Rightarrow> bool \<Rightarrow> jstr option \<Rightarrow> 'w session_agent \<Rightarrow> (bool \<times> 'w session_agent) option" where
  "endCompaction reason aborted err c = Some (False, emitEvent (CompactionEnded reason None aborted False err) c)"

definition failedText :: "compaction_reason \<Rightarrow> jstr \<Rightarrow> jstr" where
  "failedText reason err =
     (if reason = CR_overflow then js ''Context overflow recovery failed: '' @ err else js ''Auto-compaction failed: '' @ err)"

definition applyCompaction ::
  "'w coding_ports \<Rightarrow> compaction_reason \<Rightarrow> bool \<Rightarrow> coding_compaction \<Rightarrow> 'w session_agent \<Rightarrow> (bool \<times> 'w session_agent) option" where
  "applyCompaction P reason willRetry r c =
     (case smAppendCompaction (cq_runtime P) (cc_summary r) (cc_firstKeptEntryId r) (cc_tokensBefore r) (cc_details r)
             (Some False) (cc_usage r) (cv_session (ag_env c)) of
        (Inl e, s) \<Rightarrow> endCompaction reason False (Some (failedText reason (cq_errorText P e))) (onEnv (\<lambda>v. v\<lparr>cv_session := s\<rparr>) c)
      | (Inr _, s) \<Rightarrow>
          (case smContext (cq_getTime P) s of
             None \<Rightarrow> None
           | Some ctx \<Rightarrow>
               (let messages = map rawMessage (sq_messages ctx);
                    c1 = (onEnv (\<lambda>v. v\<lparr>cv_session := s\<rparr>) c)\<lparr>ag_messages := messages\<rparr>;
                    c2 = emitEvent (CompactionEnded reason
                           (Some (r\<lparr>cc_estimatedTokensAfter := Some (sum_list (map estimateTokens messages))\<rparr>)) False willRetry None) c1
                in if willRetry
                   then Some (True,
                     (if messages \<noteq> [] \<and> (case last messages of Msg (MAssistant a) \<Rightarrow> am_stopReason a = SR_error | _ \<Rightarrow> False)
                      then c2\<lparr>ag_messages := butlast messages\<rparr> else c2))
                   else Some (hasQueuedMessages c2, c2))))"

definition runAutoCompaction ::
  "'w coding_ports \<Rightarrow> compaction_reason \<Rightarrow> bool \<Rightarrow> 'w session_agent \<Rightarrow> (bool \<times> 'w session_agent) option" where
  "runAutoCompaction P reason willRetry c =
     (case cq_requestAuth P c of
        Inl _ \<Rightarrow> Some (False, c)
      | Inr False \<Rightarrow> Some (False, c)
      | Inr True \<Rightarrow>
          (case smGetBranch None (cv_session (ag_env c)) of
             None \<Rightarrow> None
           | Some path \<Rightarrow>
               (case smPrepareCompaction (cq_getTime P) path (ct_compaction (cv_settings (ag_env c))) of
                  None \<Rightarrow> None
                | Some None \<Rightarrow> Some (False, c)
                | Some (Some p) \<Rightarrow>
                    (case cq_compact P p (emitEvent (CompactionStarted reason) c) of
                       (Inl err, c1) \<Rightarrow> endCompaction reason False (Some (failedText reason err)) c1
                     | (Inr r, c1) \<Rightarrow>
                         (if cq_compactionAborted P c1 then endCompaction reason True None c1
                          else applyCompaction P reason willRetry r c1)))))"

definition recoveryFailedText :: jstr where
  "recoveryFailedText =
     js ''Context overflow recovery failed after one compact-and-retry attempt. Try reducing context or switching to a larger-context model.''"

definition notNewerThan :: "'w coding_ports \<Rightarrow> assistant_message \<Rightarrow> sm_entry option \<Rightarrow> bool" where
  "notNewerThan P m e = (case e of None \<Rightarrow> False | Some x \<Rightarrow> am_timestamp m \<le> cq_getTime P (se_timestamp x))"

text \<open>The second case: the tokens of the context, where they can be told.\<close>

definition contextTokensOf ::
  "'w coding_ports \<Rightarrow> assistant_message \<Rightarrow> sm_entry option \<Rightarrow> 'w session_agent \<Rightarrow> int option" where
  "contextTokensOf P m compactionEntry c =
     (let directContextTokens = calculateContextTokens (am_usage m)
      in if am_stopReason m = SR_error \<or> directContextTokens = 0 then
           (let messages = ag_messages c; estimate = estimateContextTokens messages
            in case ue_lastUsageIndex estimate of
                 None \<Rightarrow> None
               | Some i \<Rightarrow>
                   (case messages ! i of
                      Msg (MAssistant a) \<Rightarrow> (if notNewerThan P a compactionEntry then None else Some (ue_tokens estimate))
                    | _ \<Rightarrow> Some (ue_tokens estimate)))
         else Some directContextTokens)"

definition checkCompaction ::
  "'w coding_ports \<Rightarrow> assistant_message \<Rightarrow> bool \<Rightarrow> 'w session_agent \<Rightarrow> (bool \<times> 'w session_agent) option" where
  "checkCompaction P m skipAbortedCheck c =
     (let settings = ct_compaction (cv_settings (ag_env c))
      in if \<not> cp_enabled settings then Some (False, c)
         else if skipAbortedCheck \<and> am_stopReason m = SR_aborted then Some (False, c)
         else (let contextWindow = md_contextWindow (ag_model c);
                   sameModel = (am_provider m = md_provider (ag_model c) \<and> am_model m = md_id (ag_model c))
               in case smGetBranch None (cv_session (ag_env c)) of
                    None \<Rightarrow> None
                  | Some path \<Rightarrow>
                      (let compactionEntry = findLast isCompactionEntry path
                       in if notNewerThan P m compactionEntry then Some (False, c)
                          else if sameModel \<and> isContextOverflow m contextWindow then
                            (if am_stopReason m = SR_stop then runAutoCompaction P CR_overflow False c
                             else if cv_overflowAttempted (ag_env c)
                             then endCompaction CR_overflow False (Some recoveryFailedText) c
                             else runAutoCompaction P CR_overflow True
                                    (dropLastAssistant (onEnv (\<lambda>v. v\<lparr>cv_overflowAttempted := True\<rparr>) c)))
                          else (case contextTokensOf P m compactionEntry c of
                                  None \<Rightarrow> Some (False, c)
                                | Some tokens \<Rightarrow>
                                    (if shouldCompact tokens contextWindow settings
                                     then runAutoCompaction P CR_threshold False c else Some (False, c))))))"

section \<open>After a run\<close>

definition handlePostAgentRun :: "'w coding_ports \<Rightarrow> 'w session_agent \<Rightarrow> (bool \<times> 'w session_agent) option" where
  "handlePostAgentRun P c0 =
     (let c = onEnv (\<lambda>v. v\<lparr>cv_lastAssistant := None\<rparr>) c0
      in case cv_lastAssistant (ag_env c0) of
           None \<Rightarrow> Some (False, c)
         | Some m \<Rightarrow>
             (case (if isRetryableError m c then prepareRetry P m c else (False, c)) of
                (True, c1) \<Rightarrow> Some (True, c1)
              | (False, c1) \<Rightarrow>
                  (let c2 = (if am_stopReason m = SR_error \<and> cv_retryAttempt (ag_env c1) > 0
                             then onEnv (\<lambda>v. v\<lparr>cv_retryAttempt := 0\<rparr>)
                                    (emitEvent (AutoRetryEnded False (cv_retryAttempt (ag_env c1)) (am_errorMessage m)) c1)
                             else c1)
                   in case checkCompaction P m True c2 of
                        None \<Rightarrow> None
                      | Some (True, c3) \<Rightarrow> Some (True, c3)
                      | Some (False, c3) \<Rightarrow> Some (hasQueuedMessages c3, c3))))"

text \<open>The loop of continuations, over the agent's \<open>continue\<close>.\<close>

partial_function (option) postLoop ::
  "'w coding_ports \<Rightarrow> ('w session_agent \<Rightarrow> ((agent_error + unit) \<times> 'w session_agent) option) \<Rightarrow>
   'w session_agent \<Rightarrow> ((agent_error + unit) \<times> 'w session_agent) option" where
  "postLoop P again c =
     (case handlePostAgentRun P c of
        None \<Rightarrow> None
      | Some (goOn, c1) \<Rightarrow>
          (if \<not> goOn then Some (Inr (), c1)
           else (case again c1 of
                   None \<Rightarrow> None
                 | Some (r, c2) \<Rightarrow> (if isl r then Some (r, c2) else postLoop P again c2))))"

definition flushPendingBashMessages :: "'w coding_ports \<Rightarrow> 'w session_agent \<Rightarrow> 'w session_agent" where
  "flushPendingBashMessages P c =
     onEnv (\<lambda>v. v\<lparr>cv_pendingBash := []\<rparr>)
       (fold (\<lambda>m c. storeEntry (smAppendMessage (cq_runtime P) m) (c\<lparr>ag_messages := ag_messages c @ [m]\<rparr>))
          (cv_pendingBash (ag_env c)) c)"

definition settleRun :: "'w coding_ports \<Rightarrow> 'w session_agent \<Rightarrow> 'w session_agent" where
  "settleRun P c =
     emitEvent AgentSettled (onEnv (\<lambda>v. v\<lparr>cv_runActive := False\<rparr>)
       (flushPendingBashMessages P (onEnv (\<lambda>v. v\<lparr>cv_promptOverride := None\<rparr>) c)))"

text \<open>The agent's options are those of its construction, with the session's handler as the listener.\<close>

definition sessionOptions ::
  "'w coding_ports \<Rightarrow> 'w coding_env agent_options \<Rightarrow> 'w coding_env agent_options" where
  "sessionOptions P opts = opts\<lparr>ao_listeners := [handleSessionEvent P]\<rparr>"

definition runAgentPrompt ::
  "'w coding_ports \<Rightarrow> 'w coding_env agent_options \<Rightarrow> agent_message list \<Rightarrow> 'w session_agent \<Rightarrow>
   ((agent_error + unit) \<times> 'w session_agent) option" where
  "runAgentPrompt P opts messages c =
     (let sessionOpts = sessionOptions P opts
      in case Agent.prompt sessionOpts (MessagesInput messages) (onEnv (\<lambda>v. v\<lparr>cv_runActive := True\<rparr>) c) of
           None \<Rightarrow> None
         | Some (r, c1) \<Rightarrow>
             (case (if isl r then Some (r, c1) else postLoop P (continueRun sessionOpts) c1) of
                None \<Rightarrow> None
              | Some (r2, c2) \<Rightarrow> Some (r2, settleRun P c2)))"

section \<open>Prompts and queues\<close>

datatype streaming_behavior = SB_steer | SB_followUp

datatype coding_error =
    CE_alreadyProcessing
  | CE_noAuth jstr
  | CE_noApiKey jstr jstr
  | CE_agent agent_error

record prompt_options =
  po_expandPromptTemplates :: "bool option"
  po_images :: "image_content list option"
  po_streamingBehavior :: "streaming_behavior option"

definition userMessage :: "'w coding_ports \<Rightarrow> jstr \<Rightarrow> image_content list option \<Rightarrow> 'w session_agent \<Rightarrow> agent_message" where
  "userMessage P t images c =
     user_msg \<lparr>um_content = UBlocks (BText \<lparr>tc_text = t, tc_textSignature = None\<rparr> # map BImage (orDefault images [])),
       um_timestamp = cq_now P c\<rparr>"

definition queueSteer :: "'w coding_ports \<Rightarrow> jstr \<Rightarrow> image_content list option \<Rightarrow> 'w session_agent \<Rightarrow> 'w session_agent" where
  "queueSteer P t images c =
     (let c1 = emitQueues (onEnv (\<lambda>v. v\<lparr>cv_steering := cv_steering v @ [t]\<rparr>) c)
      in Agent.steer (userMessage P t images c1) c1)"

definition queueFollowUp :: "'w coding_ports \<Rightarrow> jstr \<Rightarrow> image_content list option \<Rightarrow> 'w session_agent \<Rightarrow> 'w session_agent" where
  "queueFollowUp P t images c =
     (let c1 = emitQueues (onEnv (\<lambda>v. v\<lparr>cv_followUp := cv_followUp v @ [t]\<rparr>) c)
      in Agent.followUp (userMessage P t images c1) c1)"

definition sessionSteer :: "'w coding_ports \<Rightarrow> jstr \<Rightarrow> image_content list option \<Rightarrow> 'w session_agent \<Rightarrow> 'w session_agent" where
  "sessionSteer P t images c = queueSteer P (cq_expand P t c) images c"

definition sessionFollowUp :: "'w coding_ports \<Rightarrow> jstr \<Rightarrow> image_content list option \<Rightarrow> 'w session_agent \<Rightarrow> 'w session_agent" where
  "sessionFollowUp P t images c = queueFollowUp P (cq_expand P t c) images c"

text \<open>What a prompt does before the run: the messages of the run, or nothing where it was queued.\<close>

definition preparePrompt ::
  "'w coding_ports \<Rightarrow> jstr \<Rightarrow> prompt_options \<Rightarrow> 'w session_agent \<Rightarrow>
   ((coding_error + agent_message list option) \<times> 'w session_agent) option" where
  "preparePrompt P t opts c =
     (let expandedText = (if orDefault (po_expandPromptTemplates opts) True then cq_expand P t c else t)
      in if cv_runActive (ag_env c) then
           Some (case po_streamingBehavior opts of
                   None \<Rightarrow> (Inl CE_alreadyProcessing, c)
                 | Some SB_followUp \<Rightarrow> (Inr None, queueFollowUp P expandedText (po_images opts) c)
                 | Some SB_steer \<Rightarrow> (Inr None, queueSteer P expandedText (po_images opts) c))
         else (let c1 = flushPendingBashMessages P c
               in if \<not> cq_hasAuth P (md_provider (ag_model c1)) c1 then Some (Inl (CE_noAuth (md_provider (ag_model c1))), c1)
                  else (case (case lastAssistantOf (ag_messages c1) of
                                None \<Rightarrow> Some (False, c1)
                              | Some a \<Rightarrow> checkCompaction P a False c1) of
                          None \<Rightarrow> None
                        | Some (_, c2) \<Rightarrow>
                            (let messages = userMessage P expandedText (po_images opts) c2 # cv_nextTurn (ag_env c2);
                                 c3 = onEnv (\<lambda>v. v\<lparr>cv_nextTurn := [], cv_promptOverride := None\<rparr>) c2
                             in Some (Inr (Some messages), c3\<lparr>ag_systemPrompt := cv_basePrompt (ag_env c3)\<rparr>)))))"

definition sessionPrompt ::
  "'w coding_ports \<Rightarrow> 'w coding_env agent_options \<Rightarrow> jstr \<Rightarrow> prompt_options \<Rightarrow> 'w session_agent \<Rightarrow>
   ((coding_error + unit) \<times> 'w session_agent) option" where
  "sessionPrompt P aopts t opts c =
     (case preparePrompt P t opts c of
        None \<Rightarrow> None
      | Some (Inl e, c1) \<Rightarrow> Some (Inl e, c1)
      | Some (Inr None, c1) \<Rightarrow> Some (Inr (), c1)
      | Some (Inr (Some messages), c1) \<Rightarrow>
          (case runAgentPrompt P aopts messages c1 of
             None \<Rightarrow> None
           | Some (Inl e, c2) \<Rightarrow> Some (Inl (CE_agent e), c2)
           | Some (Inr _, c2) \<Rightarrow> Some (Inr (), c2)))"

datatype deliver_as = DA_steer | DA_followUp | DA_nextTurn

text \<open>The content is there, as the type of the message says.\<close>

definition sendCustomMessage ::
  "'w coding_ports \<Rightarrow> 'w coding_env agent_options \<Rightarrow> jstr \<Rightarrow> user_content \<Rightarrow> bool \<Rightarrow> json option \<Rightarrow>
   bool \<Rightarrow> deliver_as option \<Rightarrow> 'w session_agent \<Rightarrow> ((coding_error + unit) \<times> 'w session_agent) option" where
  "sendCustomMessage P aopts customType content display details triggerTurn deliverAs c =
     (let m = Custom \<lparr>cm_customType = customType, cm_content = content, cm_display = display,
                cm_details = details, cm_timestamp = cq_now P c\<rparr>
      in if deliverAs = Some DA_nextTurn then Some (Inr (), onEnv (\<lambda>v. v\<lparr>cv_nextTurn := cv_nextTurn v @ [m]\<rparr>) c)
         else if cv_runActive (ag_env c) then
           Some (Inr (), if deliverAs = Some DA_followUp then Agent.followUp m c else Agent.steer m c)
         else if triggerTurn then
           (case runAgentPrompt P aopts [m] c of
              None \<Rightarrow> None
            | Some (Inl e, c1) \<Rightarrow> Some (Inl (CE_agent e), c1)
            | Some (Inr _, c1) \<Rightarrow> Some (Inr (), c1))
         else (let c1 = storeEntry (smAppendCustomMessageEntry (cq_runtime P) customType content display details)
                          (c\<lparr>ag_messages := ag_messages c @ [m]\<rparr>)
               in Some (Inr (), if cv_thrown (ag_env c1) \<noteq> None then c1
                                else emitEvent (AgentSaid (MessageEnd m)) (emitEvent (AgentSaid (MessageStart m)) c1))))"

fun partTexts :: "block list \<Rightarrow> jstr list" where
  "partTexts [] = []"
| "partTexts (BText t # bs) = tc_text t # partTexts bs"
| "partTexts (BImage i # bs) = partTexts bs"

fun partImages :: "block list \<Rightarrow> image_content list" where
  "partImages [] = []"
| "partImages (BText t # bs) = partImages bs"
| "partImages (BImage i # bs) = i # partImages bs"

definition sendUserMessage ::
  "'w coding_ports \<Rightarrow> 'w coding_env agent_options \<Rightarrow> user_content \<Rightarrow> streaming_behavior option \<Rightarrow> 'w session_agent \<Rightarrow>
   ((coding_error + unit) \<times> 'w session_agent) option" where
  "sendUserMessage P aopts content deliverAs c =
     (case content of
        UString t \<Rightarrow>
          sessionPrompt P aopts t
            \<lparr>po_expandPromptTemplates = Some False, po_images = None, po_streamingBehavior = deliverAs\<rparr> c
      | UBlocks bs \<Rightarrow>
          sessionPrompt P aopts (joinWith [10] (partTexts bs))
            \<lparr>po_expandPromptTemplates = Some False,
             po_images = (if partImages bs = [] then None else Some (partImages bs)),
             po_streamingBehavior = deliverAs\<rparr> c)"

definition clearSessionQueue :: "'w session_agent \<Rightarrow> (jstr list \<times> jstr list) \<times> 'w session_agent" where
  "clearSessionQueue c =
     ((cv_steering (ag_env c), cv_followUp (ag_env c)),
      emitQueues (clearAllQueues (onEnv (\<lambda>v. v\<lparr>cv_steering := [], cv_followUp := []\<rparr>) c)))"

definition pendingMessageCount :: "'w session_agent \<Rightarrow> nat" where
  "pendingMessageCount c = length (cv_steering (ag_env c)) + length (cv_followUp (ag_env c))"

section \<open>Shell commands of the user\<close>

definition recordBashResult ::
  "'w coding_ports \<Rightarrow> bash_execution_message \<Rightarrow> 'w session_agent \<Rightarrow> 'w session_agent" where
  "recordBashResult P m c =
     (let bashMessage = BashExecution (m\<lparr>be_timestamp := cq_now P c\<rparr>)
      in if cv_runActive (ag_env c) then onEnv (\<lambda>v. v\<lparr>cv_pendingBash := cv_pendingBash v @ [bashMessage]\<rparr>) c
         else storeEntry (smAppendMessage (cq_runtime P) bashMessage) (c\<lparr>ag_messages := ag_messages c @ [bashMessage]\<rparr>))"

section \<open>Models and thinking levels\<close>

definition EXTENDED_THINKING_LEVELS :: "thinking_level list" where
  "EXTENDED_THINKING_LEVELS = [TL_off, TL_minimal, TL_low, TL_medium, TL_high, TL_xhigh, TL_max]"

fun levelName :: "thinking_level \<Rightarrow> jstr" where
  "levelName TL_off = js ''off''"
| "levelName TL_minimal = js ''minimal''"
| "levelName TL_low = js ''low''"
| "levelName TL_medium = js ''medium''"
| "levelName TL_high = js ''high''"
| "levelName TL_xhigh = js ''xhigh''"
| "levelName TL_max = js ''max''"

definition getSupportedThinkingLevels :: "model \<Rightarrow> thinking_level list" where
  "getSupportedThinkingLevels md =
     (if \<not> md_reasoning md then [TL_off]
      else filter (\<lambda>l.
             (let mapped = (case md_thinkingLevelMap md of None \<Rightarrow> None | Some m \<Rightarrow> map_of m (levelName l))
              in if mapped = Some None then False
                 else if l = TL_xhigh \<or> l = TL_max then mapped \<noteq> None
                 else True)) EXTENDED_THINKING_LEVELS)"

definition firstOr :: "'a \<Rightarrow> 'a list \<Rightarrow> 'a" where
  "firstOr d xs = (case xs of [] \<Rightarrow> d | x # _ \<Rightarrow> x)"

definition clampThinkingLevel :: "model \<Rightarrow> thinking_level \<Rightarrow> thinking_level" where
  "clampThinkingLevel md level =
     (let available = getSupportedThinkingLevels md
      in if level \<in> set available then level
         else (case findIndex (\<lambda>l. l = level) EXTENDED_THINKING_LEVELS of
                 None \<Rightarrow> firstOr TL_off available
               | Some i \<Rightarrow>
                   (case find (\<lambda>l. l \<in> set available) (drop i EXTENDED_THINKING_LEVELS) of
                      Some l \<Rightarrow> l
                    | None \<Rightarrow>
                        (case find (\<lambda>l. l \<in> set available) (rev (take i EXTENDED_THINKING_LEVELS)) of
                           Some l \<Rightarrow> l
                         | None \<Rightarrow> firstOr TL_off available))))"

definition modelsAreEqual :: "model \<Rightarrow> model \<Rightarrow> bool" where
  "modelsAreEqual a b \<longleftrightarrow> md_id a = md_id b \<and> md_provider a = md_provider b"

definition supportsThinking :: "'w session_agent \<Rightarrow> bool" where
  "supportsThinking c \<longleftrightarrow> md_reasoning (ag_model c)"

definition onSettings :: "(coding_settings \<Rightarrow> coding_settings) \<Rightarrow> 'w session_agent \<Rightarrow> 'w session_agent" where
  "onSettings f = onEnv (\<lambda>v. v\<lparr>cv_settings := f (cv_settings v)\<rparr>)"

definition setSessionThinkingLevel :: "'w coding_ports \<Rightarrow> thinking_level \<Rightarrow> 'w session_agent \<Rightarrow> 'w session_agent" where
  "setSessionThinkingLevel P level c =
     (let available = getSupportedThinkingLevels (ag_model c);
          effective = (if level \<in> set available then level else clampThinkingLevel (ag_model c) level);
          c1 = c\<lparr>ag_thinkingLevel := effective\<rparr>
      in if effective = ag_thinkingLevel c then c1
         else (let c2 = storeEntry (smAppendThinkingLevelChange (cq_runtime P) (levelName effective)) c1;
                   c3 = (if supportsThinking c2 \<or> effective \<noteq> TL_off
                         then onSettings (\<lambda>s. s\<lparr>ct_defaultThinkingLevel := Some effective\<rparr>) c2 else c2)
               in emitEvent (ThinkingLevelChanged effective) c3))"

definition cycleThinkingLevel ::
  "'w coding_ports \<Rightarrow> 'w session_agent \<Rightarrow> thinking_level option \<times> 'w session_agent" where
  "cycleThinkingLevel P c =
     (if \<not> supportsThinking c then (None, c)
      else (let levels = getSupportedThinkingLevels (ag_model c);
                next = (case findIndex (\<lambda>l. l = ag_thinkingLevel c) levels of Some i \<Rightarrow> (i + 1) mod length levels | None \<Rightarrow> 0)
            in (Some (levels ! next), setSessionThinkingLevel P (levels ! next) c)))"

definition DEFAULT_THINKING_LEVEL :: thinking_level where
  "DEFAULT_THINKING_LEVEL = TL_medium"

definition getThinkingLevelForModelSwitch :: "thinking_level option \<Rightarrow> 'w session_agent \<Rightarrow> thinking_level" where
  "getThinkingLevelForModelSwitch explicit c =
     (case explicit of
        Some l \<Rightarrow> l
      | None \<Rightarrow>
          (if \<not> supportsThinking c
           then orDefault (ct_defaultThinkingLevel (cv_settings (ag_env c))) DEFAULT_THINKING_LEVEL
           else ag_thinkingLevel c))"

text \<open>The change of the model that setting and cycling share.\<close>

definition applyModel ::
  "'w coding_ports \<Rightarrow> model \<Rightarrow> thinking_level \<Rightarrow> 'w session_agent \<Rightarrow> 'w session_agent" where
  "applyModel P md level c =
     setSessionThinkingLevel P level
       (onSettings (\<lambda>s. s\<lparr>ct_defaultModel := Some (md_provider md, md_id md)\<rparr>)
         (storeEntry (smAppendModelChange (cq_runtime P) (md_provider md) (md_id md)) (c\<lparr>ag_model := md\<rparr>)))"

definition setSessionModel ::
  "'w coding_ports \<Rightarrow> model \<Rightarrow> 'w session_agent \<Rightarrow> (coding_error + unit) \<times> 'w session_agent" where
  "setSessionModel P md c =
     (if \<not> cq_hasAuth P (md_provider md) c then (Inl (CE_noApiKey (md_provider md) (md_id md)), c)
      else (Inr (), applyModel P md (getThinkingLevelForModelSwitch None c) c))"

record scoped_model =
  sd_model :: model
  sd_thinkingLevel :: "thinking_level option"

text \<open>The index after or before one in a list of \<open>len\<close> models.\<close>

definition cycleIndex :: "bool \<Rightarrow> nat \<Rightarrow> nat \<Rightarrow> nat" where
  "cycleIndex forward len i = (if forward then (i + 1) mod len else (i + len - 1) mod len)"

definition currentIndex :: "model list \<Rightarrow> model \<Rightarrow> nat" where
  "currentIndex ms md = (case findIndex (\<lambda>m. modelsAreEqual m md) ms of Some i \<Rightarrow> i | None \<Rightarrow> 0)"

definition cycleScopedModel ::
  "'w coding_ports \<Rightarrow> scoped_model list \<Rightarrow> bool \<Rightarrow> 'w session_agent \<Rightarrow> (model \<times> thinking_level) option \<times> 'w session_agent" where
  "cycleScopedModel P scoped forward c =
     (let ms = filter (\<lambda>s. cq_hasAuth P (md_provider (sd_model s)) c) scoped
      in if length ms \<le> 1 then (None, c)
         else (let nxt = ms ! cycleIndex forward (length ms) (currentIndex (map sd_model ms) (ag_model c));
                   level = getThinkingLevelForModelSwitch (sd_thinkingLevel nxt) c;
                   c1 = applyModel P (sd_model nxt) level c
               in (Some (sd_model nxt, ag_thinkingLevel c1), c1)))"

definition cycleAvailableModel ::
  "'w coding_ports \<Rightarrow> bool \<Rightarrow> 'w session_agent \<Rightarrow> (model \<times> thinking_level) option \<times> 'w session_agent" where
  "cycleAvailableModel P forward c =
     (let ms = cq_available P c
      in if length ms \<le> 1 then (None, c)
         else (let nxt = ms ! cycleIndex forward (length ms) (currentIndex ms (ag_model c));
                   c1 = applyModel P nxt (getThinkingLevelForModelSwitch None c) c
               in (Some (nxt, ag_thinkingLevel c1), c1)))"

definition cycleModel ::
  "'w coding_ports \<Rightarrow> scoped_model list \<Rightarrow> bool \<Rightarrow> 'w session_agent \<Rightarrow> (model \<times> thinking_level) option \<times> 'w session_agent" where
  "cycleModel P scoped forward c =
     (if scoped \<noteq> [] then cycleScopedModel P scoped forward c else cycleAvailableModel P forward c)"

section \<open>Manual compaction\<close>

text \<open>An error with its text and whether it is named an abort.\<close>

definition endManualCompaction ::
  "jstr \<Rightarrow> bool \<Rightarrow> 'w session_agent \<Rightarrow> ((jstr + coding_compaction) \<times> 'w session_agent) option" where
  "endManualCompaction err named c =
     (let aborted = (err = js ''Compaction cancelled'' \<or> named)
      in Some (Inl err, emitEvent (CompactionEnded CR_manual None aborted False
           (if aborted then None else Some (js ''Compaction failed: '' @ err))) c))"

definition applyManualCompaction ::
  "'w coding_ports \<Rightarrow> coding_compaction \<Rightarrow> 'w session_agent \<Rightarrow> ((jstr + coding_compaction) \<times> 'w session_agent) option" where
  "applyManualCompaction P r c =
     (case smAppendCompaction (cq_runtime P) (cc_summary r) (cc_firstKeptEntryId r) (cc_tokensBefore r) (cc_details r)
             (Some False) (cc_usage r) (cv_session (ag_env c)) of
        (Inl e, s) \<Rightarrow> endManualCompaction (cq_errorText P e) False (onEnv (\<lambda>v. v\<lparr>cv_session := s\<rparr>) c)
      | (Inr _, s) \<Rightarrow>
          (case smContext (cq_getTime P) s of
             None \<Rightarrow> None
           | Some ctx \<Rightarrow>
               (let messages = map rawMessage (sq_messages ctx);
                    result = r\<lparr>cc_estimatedTokensAfter := Some (sum_list (map estimateTokens messages))\<rparr>
                in Some (Inr result, emitEvent (CompactionEnded CR_manual (Some result) False False None)
                     ((onEnv (\<lambda>v. v\<lparr>cv_session := s\<rparr>) c)\<lparr>ag_messages := messages\<rparr>)))))"

text \<open>The session's handler is taken off before the agent is aborted: the events that the aborted run still
  reports, \<open>es\<close>, change the agent alone.\<close>

definition compactSession ::
  "'w coding_ports \<Rightarrow> agent_event list \<Rightarrow> jstr option \<Rightarrow> 'w session_agent \<Rightarrow>
   ((jstr + coding_compaction) \<times> 'w session_agent) option" where
  "compactSession P es customInstructions c0 =
     (let c = emitEvent (CompactionStarted CR_manual) (fold reduceEvent es c0)
      in case cq_summaryAuth P c of
           Inl err \<Rightarrow> endManualCompaction err False c
         | Inr _ \<Rightarrow>
             (case smGetBranch None (cv_session (ag_env c)) of
                None \<Rightarrow> None
              | Some path \<Rightarrow>
                  (case smPrepareCompaction (cq_getTime P) path (ct_compaction (cv_settings (ag_env c))) of
                     None \<Rightarrow> None
                   | Some None \<Rightarrow>
                       endManualCompaction
                         (if path \<noteq> [] \<and> isCompactionEntry (last path) then js ''Already compacted''
                          else js ''Nothing to compact (session too small)'') False c
                   | Some (Some p) \<Rightarrow>
                       (case cq_compactNow P p customInstructions c of
                          (Inl (err, named), c1) \<Rightarrow> endManualCompaction err named c1
                        | (Inr r, c1) \<Rightarrow>
                            (if cq_compactionAborted P c1 then endManualCompaction (js ''Compaction cancelled'') False c1
                             else applyManualCompaction P r c1)))))"

section \<open>Settings of the session\<close>

definition setSessionSteeringMode :: "queue_mode \<Rightarrow> 'w session_agent \<Rightarrow> 'w session_agent" where
  "setSessionSteeringMode mode c = onSettings (\<lambda>s. s\<lparr>ct_steeringMode := mode\<rparr>) (setSteeringMode mode c)"

definition setSessionFollowUpMode :: "queue_mode \<Rightarrow> 'w session_agent \<Rightarrow> 'w session_agent" where
  "setSessionFollowUpMode mode c = onSettings (\<lambda>s. s\<lparr>ct_followUpMode := mode\<rparr>) (setFollowUpMode mode c)"

definition setAutoCompactionEnabled :: "bool \<Rightarrow> 'w session_agent \<Rightarrow> 'w session_agent" where
  "setAutoCompactionEnabled enabled = onSettings (\<lambda>s. s\<lparr>ct_compaction := (ct_compaction s)\<lparr>cp_enabled := enabled\<rparr>\<rparr>)"

definition setAutoRetryEnabled :: "bool \<Rightarrow> 'w session_agent \<Rightarrow> 'w session_agent" where
  "setAutoRetryEnabled enabled = onSettings (\<lambda>s. s\<lparr>ct_retry := (ct_retry s)\<lparr>ry_enabled := enabled\<rparr>\<rparr>)"

definition setSessionName :: "'w coding_ports \<Rightarrow> jstr \<Rightarrow> 'w session_agent \<Rightarrow> 'w session_agent" where
  "setSessionName P name c =
     (let c1 = storeEntry (smAppendSessionInfo (cq_runtime P) name) c
      in if cv_thrown (ag_env c1) \<noteq> None then c1
         else emitEvent (SessionInfoChanged (smGetSessionName (cv_session (ag_env c1)))) c1)"

section \<open>Statistics\<close>

text \<open>A user message without content is an error, \<open>None\<close>.\<close>

fun forkingTexts :: "sm_entry list \<Rightarrow> (sid \<times> jstr) list option" where
  "forkingTexts [] = Some []"
| "forkingTexts (e # es) =
     (case se_body e of
        SM_message (NoContent n (Msg (MUser u))) \<Rightarrow> None
      | SM_message (Known (Msg (MUser u))) \<Rightarrow>
          (let t = contentText_user [] (um_content u)
           in map_option (\<lambda>rest. if t \<noteq> [] then (se_id e, t) # rest else rest) (forkingTexts es))
      | _ \<Rightarrow> forkingTexts es)"

definition userMessagesForForking :: "'w session_agent \<Rightarrow> (sid \<times> jstr) list option" where
  "userMessagesForForking c = forkingTexts (getEntries (cv_session (ag_env c)))"

record usage_totals =
  ut_input :: int
  ut_output :: int
  ut_cacheRead :: int
  ut_cacheWrite :: int
  ut_cost :: rat

definition createUsageTotals :: usage_totals where
  "createUsageTotals = \<lparr>ut_input = 0, ut_output = 0, ut_cacheRead = 0, ut_cacheWrite = 0, ut_cost = 0\<rparr>"

definition addUsageToTotals :: "usage \<Rightarrow> usage_totals \<Rightarrow> usage_totals" where
  "addUsageToTotals u t =
     \<lparr>ut_input = ut_input t + us_input u, ut_output = ut_output t + us_output u,
      ut_cacheRead = ut_cacheRead t + us_cacheRead u, ut_cacheWrite = ut_cacheWrite t + us_cacheWrite u,
      ut_cost = ut_cost t + uc_total (us_cost u)\<rparr>"

definition getContextUsage :: "'w session_agent \<Rightarrow> (int option \<times> int) option option" where
  "getContextUsage c =
     (let contextWindow = md_contextWindow (ag_model c)
      in if contextWindow \<le> 0 then Some None
         else (case smGetBranch None (cv_session (ag_env c)) of
                 None \<Rightarrow> None
               | Some path \<Rightarrow>
                   (if list_ex isCompactionEntry path \<and>
                       \<not> list_ex (\<lambda>e. case se_body e of
                            SM_message r \<Rightarrow> getAssistantUsage (rawMessage r) \<noteq> None
                          | _ \<Rightarrow> False) (rev (takeWhile (\<lambda>e. \<not> isCompactionEntry e) (rev path)))
                    then Some (Some (None, contextWindow))
                    else Some (Some (Some (ue_tokens (estimateContextTokens (ag_messages c))), contextWindow)))))"

record session_counts =
  sk_userMessages :: nat
  sk_assistantMessages :: nat
  sk_toolCalls :: nat
  sk_toolResults :: nat
  sk_totalMessages :: nat
  sk_usage :: usage_totals

definition countMessage :: "raw_message \<Rightarrow> session_counts \<Rightarrow> session_counts" where
  "countMessage r k0 =
     (let k = k0\<lparr>sk_totalMessages := Suc (sk_totalMessages k0)\<rparr>
      in case rawMessage r of
           Msg (MUser u) \<Rightarrow> k\<lparr>sk_userMessages := Suc (sk_userMessages k)\<rparr>
         | Msg (MToolResult t) \<Rightarrow>
             (let k1 = k\<lparr>sk_toolResults := Suc (sk_toolResults k)\<rparr>
              in case tr_usage t of None \<Rightarrow> k1 | Some u \<Rightarrow> k1\<lparr>sk_usage := addUsageToTotals u (sk_usage k1)\<rparr>)
         | Msg (MAssistant a) \<Rightarrow>
             k\<lparr>sk_assistantMessages := Suc (sk_assistantMessages k),
               sk_toolCalls := sk_toolCalls k + (case r of NoContent _ _ \<Rightarrow> 0 | _ \<Rightarrow> length (toolCallsOf (am_content a))),
               sk_usage := addUsageToTotals (am_usage a) (sk_usage k)\<rparr>
         | _ \<Rightarrow> k)"

definition countEntry :: "sm_entry \<Rightarrow> session_counts \<Rightarrow> session_counts" where
  "countEntry e k =
     (case se_body e of
        SM_branchSummary d \<Rightarrow> (case bd_usage d of None \<Rightarrow> k | Some u \<Rightarrow> k\<lparr>sk_usage := addUsageToTotals u (sk_usage k)\<rparr>)
      | SM_compaction d \<Rightarrow> (case sc_usage d of None \<Rightarrow> k | Some u \<Rightarrow> k\<lparr>sk_usage := addUsageToTotals u (sk_usage k)\<rparr>)
      | SM_message r \<Rightarrow> countMessage r k
      | _ \<Rightarrow> k)"

definition countEntries :: "sm_entry list \<Rightarrow> session_counts" where
  "countEntries es =
     fold countEntry es \<lparr>sk_userMessages = 0, sk_assistantMessages = 0, sk_toolCalls = 0, sk_toolResults = 0,
       sk_totalMessages = 0, sk_usage = createUsageTotals\<rparr>"

record coding_stats =
  sj_sessionFile :: "jstr option"
  sj_sessionId :: jstr
  sj_counts :: session_counts
  sj_totalTokens :: int
  sj_contextUsage :: "(int option \<times> int) option"

definition getSessionStats :: "'w session_agent \<Rightarrow> coding_stats option" where
  "getSessionStats c =
     (let s = cv_session (ag_env c); k = countEntries (getEntries s); u = sk_usage k
      in map_option (\<lambda>contextUsage.
           \<lparr>sj_sessionFile = sg_sessionFile s, sj_sessionId = sg_sessionId s, sj_counts = k,
            sj_totalTokens = ut_input u + ut_output u + ut_cacheRead u + ut_cacheWrite u,
            sj_contextUsage = contextUsage\<rparr>) (getContextUsage c))"

section \<open>Navigation in the tree\<close>

record tree_options =
  tv_summarize :: bool
  tv_customInstructions :: "jstr option"
  tv_replaceInstructions :: "bool option"
  tv_label :: "jstr option"

record tree_result =
  tp_editorText :: "jstr option"
  tp_cancelled :: bool
  tp_aborted :: bool
  tp_summaryEntry :: "sm_entry option"

definition stayed :: "bool \<Rightarrow> bool \<Rightarrow> tree_result" where
  "stayed cancelled aborted =
     \<lparr>tp_editorText = None, tp_cancelled = cancelled, tp_aborted = aborted, tp_summaryEntry = None\<rparr>"

text \<open>The new leaf and the text for the editor; \<open>None\<close> where the content is missing.\<close>

definition navigationTarget :: "sm_entry \<Rightarrow> (sid \<times> jstr option) option" where
  "navigationTarget e =
     (case se_body e of
        SM_message (NoContent n (Msg (MUser u))) \<Rightarrow> None
      | SM_message (Known (Msg (MUser u))) \<Rightarrow> Some (se_parentId e, Some (contentText_user [] (um_content u)))
      | SM_customMessage ty None d x \<Rightarrow> None
      | SM_customMessage ty (Some content) d x \<Rightarrow> Some (se_parentId e, Some (contentText_user [] content))
      | _ \<Rightarrow> Some (se_id e, None))"

text \<open>The summary of what is left: no summary, the text with its details and usage, or why the navigation ends.\<close>

definition summarizeLeft ::
  "'w coding_ports \<Rightarrow> tree_options \<Rightarrow> sm_entry list \<Rightarrow> 'w session_agent \<Rightarrow>
   (jstr + (tree_result + (jstr \<times> json \<times> usage option) option)) \<times> 'w session_agent" where
  "summarizeLeft P opts entries c =
     (if \<not> tv_summarize opts \<or> entries = [] then (Inr (Inr None), c)
      else (case cq_summaryAuth P c of
              Inl err \<Rightarrow> (Inl err, c)
            | Inr _ \<Rightarrow>
                (case cq_branchSummary P entries
                        \<lparr>bo_model = ag_model c, bo_customInstructions = tv_customInstructions opts,
                         bo_replaceInstructions = tv_replaceInstructions opts,
                         bo_reserveTokens = Some (ct_branchReserveTokens (cv_settings (ag_env c)))\<rparr> c of
                   (Inl err, c1) \<Rightarrow> (Inl err, c1)
                 | (Inr BranchAborted, c1) \<Rightarrow> (Inr (Inl (stayed True True)), c1)
                 | (Inr (BranchFailed err), c1) \<Rightarrow> (if err = [] then (Inr (Inr None), c1) else (Inl err, c1))
                 | (Inr (BranchSummarized t u readFiles modifiedFiles), c1) \<Rightarrow>
                     (Inr (Inr (Some (t, fileDetails (orDefault readFiles []) (orDefault modifiedFiles []), u))), c1))))"

text \<open>The move of the leaf, with a summary where there is a text for it; the entry of the summary.\<close>

definition switchLeaf ::
  "'w coding_ports \<Rightarrow> sid \<Rightarrow> (jstr \<times> json \<times> usage option) option \<Rightarrow> session_manager \<Rightarrow> sid option sm_result" where
  "switchLeaf P newLeafId summary s =
     (case summary of
        Some (t, details, u) \<Rightarrow>
          (case newLeafId of
             IdUndefined \<Rightarrow> (Inl (SmEntryNotFound (js ''undefined'')), s)
           | _ \<Rightarrow>
               (case branchWithSummary (cq_runtime P) (case newLeafId of Id i \<Rightarrow> Some i | _ \<Rightarrow> None) t (Some details)
                       (Some False) u s of
                  (Inl e, s1) \<Rightarrow> (Inl e, s1)
                | (Inr i, s1) \<Rightarrow> (Inr (Some i), s1)))
      | None \<Rightarrow>
          (case newLeafId of
             IdNull \<Rightarrow> (Inr None, resetLeaf s)
           | IdUndefined \<Rightarrow> (Inl (SmEntryNotFound (js ''undefined'')), s)
           | Id i \<Rightarrow> (case branch i s of (Inl e, s1) \<Rightarrow> (Inl e, s1) | (Inr _, s1) \<Rightarrow> (Inr None, s1))))"

definition labelTarget ::
  "'w coding_ports \<Rightarrow> jstr \<Rightarrow> jstr option \<Rightarrow> session_manager \<Rightarrow> unit sm_result" where
  "labelTarget P i label s =
     (if truthyStr label
      then (case smAppendLabelChange (cq_runtime P) i label s of (Inl e, s1) \<Rightarrow> (Inl e, s1) | (Inr _, s1) \<Rightarrow> (Inr (), s1))
      else (Inr (), s))"

text \<open>An empty summary counts as none.\<close>

definition moveLeaf ::
  "'w coding_ports \<Rightarrow> jstr \<Rightarrow> jstr option \<Rightarrow> sid \<Rightarrow> (jstr \<times> json \<times> usage option) option \<Rightarrow> session_manager \<Rightarrow> sid option sm_result" where
  "moveLeaf P targetId label newLeafId summary0 s =
     (let summary = (case summary0 of Some (t, _) \<Rightarrow> if t = [] then None else summary0 | None \<Rightarrow> None)
      in case switchLeaf P newLeafId summary s of
           (Inl e, s1) \<Rightarrow> (Inl e, s1)
         | (Inr summaryId, s1) \<Rightarrow>
             (case labelTarget P (case summaryId of Some (Id i) \<Rightarrow> i | _ \<Rightarrow> targetId) label s1 of
                (Inl e, s2) \<Rightarrow> (Inl e, s2)
              | (Inr _, s2) \<Rightarrow> (Inr summaryId, s2)))"

text \<open>\<open>None\<close> where a walk through the session does not end.\<close>

definition navigateSessionTree ::
  "'w coding_ports \<Rightarrow> jstr \<Rightarrow> tree_options \<Rightarrow> 'w session_agent \<Rightarrow> ((jstr + tree_result) \<times> 'w session_agent) option" where
  "navigateSessionTree P targetId opts c =
     (let s = cv_session (ag_env c); oldLeafId = sg_leafId s
      in if Id targetId = oldLeafId then Some (Inr (stayed False False), c)
         else (case getEntry targetId s of
                 None \<Rightarrow> Some (Inl (js ''Entry '' @ targetId @ js '' not found''), c)
               | Some target \<Rightarrow>
                   (case smCollectEntries s oldLeafId targetId of
                      None \<Rightarrow> None
                    | Some collected \<Rightarrow>
                        (case summarizeLeft P opts (cl_entries collected) c of
                           (Inl err, c1) \<Rightarrow> Some (Inl err, c1)
                         | (Inr (Inl result), c1) \<Rightarrow> Some (Inr result, c1)
                         | (Inr (Inr summary), c1) \<Rightarrow>
                             (case navigationTarget target of
                                None \<Rightarrow> Some (Inl (cq_typeErrorText P), c1)
                              | Some (newLeafId, editorText) \<Rightarrow>
                                  (case moveLeaf P targetId (tv_label opts) newLeafId summary (cv_session (ag_env c1)) of
                                     (Inl e, s2) \<Rightarrow> Some (Inl (cq_errorText P e), onEnv (\<lambda>v. v\<lparr>cv_session := s2\<rparr>) c1)
                                   | (Inr summaryId, s2) \<Rightarrow>
                                       (case smContext (cq_getTime P) s2 of
                                          None \<Rightarrow> None
                                        | Some ctx \<Rightarrow>
                                            Some (Inr \<lparr>tp_editorText = editorText, tp_cancelled = False, tp_aborted = False,
                                                tp_summaryEntry = (case summaryId of Some i \<Rightarrow> map_of (sg_byId s2) i | None \<Rightarrow> None)\<rparr>,
                                              (onEnv (\<lambda>v. v\<lparr>cv_session := s2\<rparr>) c1)\<lparr>ag_messages := map rawMessage (sq_messages ctx)\<rparr>))))))))"

end
