(* ===== verification/CodingAgentFacts.thy ===== *)
theory CodingAgentFacts
  imports CodingAgent AgentFacts SessionFileProps
begin

text \<open>
  What a run of the agent does to the coding agent's session: the transcript, the session file and the counters
  of the recovery are a fold over the run's events, whatever the callbacks of the run do besides; and the
  context that the file gives grows by the messages that are stored.
\<close>

section \<open>The state that the events decide\<close>

type_synonym coding_core =
  "agent_message list \<times> session_manager \<times> sm_error option \<times> nat \<times> bool \<times> assistant_message option"

definition core :: "'w session_agent \<Rightarrow> coding_core" where
  "core c = (ag_messages c, cv_session (ag_env c), cv_thrown (ag_env c), cv_retryAttempt (ag_env c),
     cv_overflowAttempted (ag_env c), cv_lastAssistant (ag_env c))"

definition storedBody :: "agent_message \<Rightarrow> sm_body option" where
  "storedBody m =
     (case m of
        Custom cm \<Rightarrow> Some (SM_customMessage (cm_customType cm) (Some (cm_content cm)) (cm_display cm) (cm_details cm))
      | Msg _ \<Rightarrow> Some (SM_message (Known m))
      | _ \<Rightarrow> None)"

definition storeStep :: "sm_runtime \<Rightarrow> agent_message \<Rightarrow> session_manager \<Rightarrow> session_manager \<times> sm_error option" where
  "storeStep R m s =
     (case storedBody m of
        None \<Rightarrow> (s, None)
      | Some b \<Rightarrow> (case appendBody R b s of (Inl e, s') \<Rightarrow> (s', Some e) | (Inr _, s') \<Rightarrow> (s', None)))"

definition answerStep :: "agent_message \<Rightarrow> nat \<times> bool \<times> assistant_message option \<Rightarrow> nat \<times> bool \<times> assistant_message option" where
  "answerStep m st =
     (case m of
        Msg (MAssistant a) \<Rightarrow>
          (if am_stopReason a = SR_error then (fst st, fst (snd st), Some a) else (0, False, Some a))
      | _ \<Rightarrow> st)"

fun coreStep :: "sm_runtime \<Rightarrow> agent_event \<Rightarrow> coding_core \<Rightarrow> coding_core" where
  "coreStep R (MessageEnd m) (ms, s, Some e, st) = (ms @ [m], s, Some e, st)"
| "coreStep R (MessageEnd m) (ms, s, None, st) =
     (case storeStep R m s of
        (s', Some e) \<Rightarrow> (ms @ [m], s', Some e, st)
      | (s', None) \<Rightarrow> (ms @ [m], s', None, answerStep m st))"
| "coreStep R (MessageStart (Msg (MUser u))) (ms, s, None, n, attempted, la) = (ms, s, None, n, False, la)"
| "coreStep R _ v = v"

lemma core_onEnv [simp]:
  "ag_messages (onEnv f c) = ag_messages c" "ag_env (onEnv f c) = f (ag_env c)" "ag_active (onEnv f c) = ag_active c"
  "ag_steering (onEnv f c) = ag_steering c" "ag_followUp (onEnv f c) = ag_followUp c" "ag_model (onEnv f c) = ag_model c"
  by (simp_all add: onEnv_def)

lemma core_emitEvent [simp]: "core (emitEvent e c) = core c" "core (emitQueues c) = core c"
  by (simp_all add: core_def emitEvent_def emitQueues_def)

lemma emitEvent_env [simp]:
  "cv_session (ag_env (emitEvent e c)) = cv_session (ag_env c)" "cv_thrown (ag_env (emitEvent e c)) = cv_thrown (ag_env c)"
  "cv_retryAttempt (ag_env (emitEvent e c)) = cv_retryAttempt (ag_env c)"
  "cv_overflowAttempted (ag_env (emitEvent e c)) = cv_overflowAttempted (ag_env c)"
  "cv_lastAssistant (ag_env (emitEvent e c)) = cv_lastAssistant (ag_env c)"
  "cv_settings (ag_env (emitEvent e c)) = cv_settings (ag_env c)"
  "ag_messages (emitEvent e c) = ag_messages c" "ag_active (emitEvent e c) = ag_active c"
  "ag_steering (emitEvent e c) = ag_steering c" "ag_followUp (emitEvent e c) = ag_followUp c"
  "cv_pendingBash (ag_env (emitEvent e c)) = cv_pendingBash (ag_env c)"
  by (simp_all add: emitEvent_def)

text \<open>What the handler leaves alone.\<close>

definition undisturbed :: "'w session_agent \<Rightarrow> 'w session_agent \<Rightarrow> bool" where
  "undisturbed c c' \<longleftrightarrow> cv_settings (ag_env c') = cv_settings (ag_env c) \<and>
     (\<not> hasQueuedMessages c \<longrightarrow> \<not> hasQueuedMessages c')"

definition sameFrame :: "'w session_agent \<Rightarrow> 'w session_agent \<Rightarrow> bool" where
  "sameFrame c c' \<longleftrightarrow> ag_active c' = ag_active c \<and> ag_steering c' = ag_steering c \<and> ag_followUp c' = ag_followUp c \<and>
     cv_settings (ag_env c') = cv_settings (ag_env c)"

lemma sameFrame_undisturbed: "sameFrame c c' \<Longrightarrow> undisturbed c c'"
  by (simp add: sameFrame_def undisturbed_def hasQueuedMessages_def)

lemma sameFrame_refl [simp]: "sameFrame c c"
  by (simp add: sameFrame_def)

lemma sameFrame_trans: "sameFrame a b \<Longrightarrow> sameFrame b c \<Longrightarrow> sameFrame a c"
  by (simp add: sameFrame_def)

lemma take_frame: "sameFrame c (takeFromQueues u c)" "core (takeFromQueues u c) =
    (ag_messages c, cv_session (ag_env c), cv_thrown (ag_env c), cv_retryAttempt (ag_env c), False, cv_lastAssistant (ag_env c))"
  by (simp_all add: takeFromQueues_def Let_def sameFrame_def emitQueues_def core_def)

lemma persist_frame: "sameFrame c (persistMessage P m c)"
  by (simp add: persistMessage_def storeEntry_def sameFrame_def split: agent_message.split prod.split sum.split)

lemma persist_core:
  "core (persistMessage P m c) =
     (ag_messages c, fst (storeStep (cq_runtime P) m (cv_session (ag_env c))),
      orElse (snd (storeStep (cq_runtime P) m (cv_session (ag_env c)))) (cv_thrown (ag_env c)),
      cv_retryAttempt (ag_env c), cv_overflowAttempted (ag_env c), cv_lastAssistant (ag_env c))"
  by (cases m)
    (auto simp: persistMessage_def storeEntry_def storeStep_def storedBody_def smAppendCustomMessageEntry_def
      smAppendMessage_def core_def orElse_def split: prod.split sum.split)

lemma track_frame: "sameFrame c (trackAssistant a c)"
  by (simp add: trackAssistant_def Let_def sameFrame_def)

lemma track_core:
  "core (trackAssistant a c) = (ag_messages c, cv_session (ag_env c), cv_thrown (ag_env c),
     answerStep (Msg (MAssistant a)) (cv_retryAttempt (ag_env c), cv_overflowAttempted (ag_env c), cv_lastAssistant (ag_env c)))"
  by (simp add: trackAssistant_def Let_def answerStep_def core_def)

lemma handle_frame: "sameFrame c (handleSessionEvent P e c)"
proof -
  have a: "sameFrame c (emitEvent x c')" if "sameFrame c c'" for x c'
    using that by (simp add: sameFrame_def)
  have s: "sameFrame c (case e of MessageStart (Msg (MUser u)) \<Rightarrow> takeFromQueues u c | _ \<Rightarrow> c)"
    by (auto split: agent_event.split agent_message.split message.split intro: take_frame(1))
  show ?thesis
  proof (cases e)
    case (MessageEnd m)
    have p: "sameFrame c (persistMessage P m (emitEvent (AgentSaid e) c))"
      by (rule sameFrame_trans [OF a [OF sameFrame_refl] persist_frame])
    have "sameFrame c (trackAssistant x (persistMessage P m (emitEvent (AgentSaid e) c)))" for x
      by (rule sameFrame_trans [OF p track_frame])
    with p MessageEnd show ?thesis
      by (cases m) (auto simp: handleSessionEvent_def Let_def split: message.split)
  next
    case (MessageStart m)
    with a [OF s] show ?thesis by (simp add: handleSessionEvent_def Let_def)
  qed (simp_all add: handleSessionEvent_def Let_def a)
qed

lemma coreStep_thrown: "coreStep R e (ms, s, Some t, st) = (case e of MessageEnd m \<Rightarrow> ms @ [m] | _ \<Rightarrow> ms, s, Some t, st)"
  by (cases e; cases st) simp_all

lemma coreStep_start:
  "coreStep R (MessageStart m) (ms, s, None, n, attempted, la) =
     (ms, s, None, n, attempted \<and> \<not> (\<exists>u. m = Msg (MUser u)), la)"
  by (cases "(R, MessageStart m, (ms, s, None :: sm_error option, n, attempted, la))" rule: coreStep.cases) auto

lemma core_eq: "core c = core c' \<longleftrightarrow> ag_messages c = ag_messages c' \<and> cv_session (ag_env c) = cv_session (ag_env c') \<and>
    cv_thrown (ag_env c) = cv_thrown (ag_env c') \<and> cv_retryAttempt (ag_env c) = cv_retryAttempt (ag_env c') \<and>
    cv_overflowAttempted (ag_env c) = cv_overflowAttempted (ag_env c') \<and> cv_lastAssistant (ag_env c) = cv_lastAssistant (ag_env c')"
  by (simp add: core_def)

lemma handle_core:
  assumes "ag_messages c = (case e of MessageEnd m \<Rightarrow> ag_messages c0 @ [m] | _ \<Rightarrow> ag_messages c0)" "ag_env c = ag_env c0"
  shows "core (handleSessionEvent P e c) = coreStep (cq_runtime P) e (core c0)"
proof (cases "cv_thrown (ag_env c0)")
  case (Some t)
  with assms show ?thesis by (simp add: handleSessionEvent_def core_def coreStep_thrown)
next
  case None
  note assms [simp] None [simp]
  show ?thesis
  proof (cases e)
    case (MessageStart m)
    show ?thesis
    proof (cases "\<exists>u. m = Msg (MUser u)")
      case True
      with MessageStart show ?thesis by (auto simp: handleSessionEvent_def Let_def take_frame(2)) (simp add: core_def)
    next
      case False
      then have "(case m of Msg (MUser u) \<Rightarrow> takeFromQueues u c | _ \<Rightarrow> c) = c"
        by (auto split: agent_message.split message.split)
      with False MessageStart show ?thesis
        by (simp add: handleSessionEvent_def Let_def core_def coreStep_start)
    qed
  next
    case (MessageEnd m)
    let ?c = "emitEvent (AgentSaid (MessageEnd m)) c"
    obtain s' t where st: "storeStep (cq_runtime P) m (cv_session (ag_env c0)) = (s', t)" by fastforce
    let ?p = "persistMessage P m ?c"
    have p: "core ?p = (ag_messages c0 @ [m], s', t, cv_retryAttempt (ag_env c0),
        cv_overflowAttempted (ag_env c0), cv_lastAssistant (ag_env c0))"
      using persist_core [of P m ?c] by (simp add: st MessageEnd orElse_def split: option.split)
    have "core (handleSessionEvent P e c) = core (if t \<noteq> None then ?p else
        (case m of Msg (MAssistant a) \<Rightarrow> trackAssistant a ?p | _ \<Rightarrow> ?p))"
      using p by (simp add: handleSessionEvent_def Let_def MessageEnd core_def)
    also have "\<dots> = coreStep (cq_runtime P) e (core c0)"
    proof (cases t)
      case (Some e')
      with p show ?thesis by (simp add: MessageEnd core_def st)
    next
      case None
      let ?st = "(cv_retryAttempt (ag_env c0), cv_overflowAttempted (ag_env c0), cv_lastAssistant (ag_env c0))"
      have "core (case m of Msg (MAssistant a) \<Rightarrow> trackAssistant a ?p | _ \<Rightarrow> ?p) = (ag_messages c0 @ [m], s', t, answerStep m ?st)"
      proof (cases "\<exists>a. m = assistant_msg a")
        case True
        then obtain a where a: "m = assistant_msg a" ..
        from p have "ag_messages ?p = ag_messages c0 @ [m]" "cv_session (ag_env ?p) = s'" "cv_thrown (ag_env ?p) = t"
          "(cv_retryAttempt (ag_env ?p), cv_overflowAttempted (ag_env ?p), cv_lastAssistant (ag_env ?p)) = ?st"
          by (simp_all add: core_def)
        with track_core [of a ?p] show ?thesis by (simp add: a)
      next
        case False
        then have "(case m of Msg (MAssistant a) \<Rightarrow> trackAssistant a ?p | _ \<Rightarrow> ?p) = ?p" "answerStep m ?st = ?st"
          by (auto simp: answerStep_def split: agent_message.split message.split)
        with p show ?thesis by simp
      qed
      with None show ?thesis by (simp add: MessageEnd core_def st)
    qed
    finally show ?thesis .
  qed (simp_all add: handleSessionEvent_def Let_def core_def)
qed

lemma process_core:
  assumes "ag_active c \<noteq> None"
  shows "core (snd (processEvents (sessionOptions P opts) e c)) = coreStep (cq_runtime P) e (core c)"
    and "sameFrame c (snd (processEvents (sessionOptions P opts) e c))"
proof -
  have r: "sameFrame c (reduceEvent e c)" "ag_env (reduceEvent e c) = ag_env c"
    "ag_messages (reduceEvent e c) = (case e of MessageEnd m \<Rightarrow> ag_messages c @ [m] | _ \<Rightarrow> ag_messages c)"
    by (cases e; simp add: reduceEvent_def sameFrame_def split: agent_message.split message.split)+
  then have "ag_active (reduceEvent e c) \<noteq> None" using assms by (simp add: sameFrame_def)
  then have p: "snd (processEvents (sessionOptions P opts) e c) = handleSessionEvent P e (reduceEvent e c)"
    by (auto simp: processEvents_def Let_def notifyListeners_def sessionOptions_def)
  show "core (snd (processEvents (sessionOptions P opts) e c)) = coreStep (cq_runtime P) e (core c)"
    unfolding p by (rule handle_core [OF r(3,2)])
  show "sameFrame c (snd (processEvents (sessionOptions P opts) e c))"
    unfolding p by (rule sameFrame_trans [OF r(1) handle_frame])
qed

section \<open>Runs\<close>

definition follows :: "bool \<Rightarrow> sm_runtime \<Rightarrow> 'w session_agent run \<Rightarrow> 'w session_agent run \<Rightarrow> bool" where
  "follows q R r r' \<longleftrightarrow>
     (ag_active (r_world r) \<noteq> None \<longrightarrow> ag_active (r_world r') \<noteq> None \<and>
        (\<exists>es. r_trace r' = r_trace r @ es \<and> core (r_world r') = fold (coreStep R) es (core (r_world r)))) \<and>
     (q \<longrightarrow> undisturbed (r_world r) (r_world r'))"

text \<open>
  Callbacks that leave the transcript, the session and the counters to the agent. They may abort and
  change everything else, and with \<open>q\<close> they neither queue messages nor change the settings.
\<close>

definition leavesCore :: "bool \<Rightarrow> ('w session_agent \<Rightarrow> 'a \<times> 'w session_agent) \<Rightarrow> bool" where
  "leavesCore q h \<longleftrightarrow> (\<forall>c. core (snd (h c)) = core c \<and> (ag_active (snd (h c)) = None \<longleftrightarrow> ag_active c = None) \<and>
     (q \<longrightarrow> undisturbed c (snd (h c))))"

definition hookLeavesCore :: "bool \<Rightarrow> ('y \<Rightarrow> 'w session_agent \<Rightarrow> 'a \<times> 'w session_agent) option \<Rightarrow> bool" where
  "hookLeavesCore q h \<longleftrightarrow> (\<forall>f x. h = Some f \<longrightarrow> leavesCore q (f x))"

definition separateOptions :: "bool \<Rightarrow> 'w coding_env agent_options \<Rightarrow> bool" where
  "separateOptions q opts \<longleftrightarrow>
     (\<forall>t \<in> set (ao_tools opts). \<forall>i a. leavesCore q (at_execute t i a)) \<and>
     (\<forall>ms. leavesCore q (ao_convertToLlm opts ms)) \<and>
     hookLeavesCore q (ao_transformContext opts) \<and> hookLeavesCore q (ao_getApiKey opts) \<and>
     hookLeavesCore q (ao_beforeToolCall opts) \<and> hookLeavesCore q (ao_afterToolCall opts) \<and>
     hookLeavesCore q (ao_prepareNextTurnWithContext opts) \<and>
     (\<forall>h. ao_prepareNextTurn opts = Some h \<longrightarrow> leavesCore q h \<and>
        (\<forall>c. \<forall>t \<in> set (updateTools (fst (h c))). \<forall>i a. leavesCore q (at_execute t i a))) \<and>
     (\<forall>h x c. ao_prepareNextTurnWithContext opts = Some h \<longrightarrow>
        (\<forall>t \<in> set (updateTools (fst (h x c))). \<forall>i a. leavesCore q (at_execute t i a))) \<and>
     (\<forall>m ctx o'. leavesCore q (ao_streamFn opts m ctx o'))"

lemma undisturbed_trans: "undisturbed a b \<Longrightarrow> undisturbed b c \<Longrightarrow> undisturbed a c"
  by (simp add: undisturbed_def)

lemma undisturbed_refl [simp]: "undisturbed c c"
  by (simp add: undisturbed_def)

lemma staysIn_follows: "leavesCore q h \<Longrightarrow> staysIn (follows q R) h"
  unfolding staysIn_def
proof (intro allI impI)
  fix r a r'
  assume k: "leavesCore q h" and h: "callHook h r = (a, r')"
  have "core (r_world r') = core (r_world r) \<and> (ag_active (r_world r') = None \<longleftrightarrow> ag_active (r_world r) = None) \<and>
      (q \<longrightarrow> undisturbed (r_world r) (r_world r'))"
    using k callHook_result [OF h] unfolding leavesCore_def by (metis snd_conv)
  with callHook_trace [OF h] show "follows q R r r'"
    unfolding follows_def by (auto intro: exI [of _ "[]"])
qed

lemma hookStays_follows: "hookLeavesCore q h \<Longrightarrow> hookStays (follows q R) h"
  by (auto simp: hookStays_def hookLeavesCore_def intro: staysIn_follows)

lemma follows_emit: "follows q (cq_runtime P) r (emit (agentPorts (sessionOptions P opts)) e r)"
proof -
  let ?c = "r_world r"
  have frame: "sameFrame ?c (snd (processEvents (sessionOptions P opts) e ?c))"
  proof (cases "ag_active ?c")
    case None
    then show ?thesis
      by (cases e) (auto simp: processEvents_def Let_def reduceEvent_def sameFrame_def split: agent_message.split message.split)
  next
    case (Some b)
    then show ?thesis by (intro process_core(2)) simp
  qed
  then have "ag_active (snd (processEvents (sessionOptions P opts) e ?c)) = ag_active ?c" by (simp add: sameFrame_def)
  with sameFrame_undisturbed [OF frame] process_core(1) [of ?c P opts e] show ?thesis
    by (auto simp: follows_def emit_def agentPorts_def intro!: exI [of _ "[e]"])
qed

lemma follows_trans:
  assumes a: "follows q R r1 r2" and b: "follows q R r2 r3"
  shows "follows q R r1 r3"
proof -
  have "ag_active (r_world r3) \<noteq> None \<and>
      (\<exists>es. r_trace r3 = r_trace r1 @ es \<and> core (r_world r3) = fold (coreStep R) es (core (r_world r1)))"
    if "ag_active (r_world r1) \<noteq> None"
  proof -
    from a that obtain es where es: "ag_active (r_world r2) \<noteq> None" "r_trace r2 = r_trace r1 @ es"
      "core (r_world r2) = fold (coreStep R) es (core (r_world r1))" by (auto simp: follows_def)
    with b obtain fs where "ag_active (r_world r3) \<noteq> None" "r_trace r3 = r_trace r2 @ fs"
      "core (r_world r3) = fold (coreStep R) fs (core (r_world r2))" by (auto simp: follows_def)
    with es show ?thesis by (intro conjI exI [of _ "es @ fs"]) simp_all
  qed
  with a b show ?thesis unfolding follows_def by (blast intro: undisturbed_trans)
qed

lemma loopRel_follows:
  assumes "separateOptions q opts"
  shows "loopRel (follows q (cq_runtime P)) (agentPorts (sessionOptions P opts))"
  unfolding loopRel_def
proof (intro conjI allI)
  let ?R = "cq_runtime P"
  show "reflp (follows q ?R)" by (auto simp: reflp_def follows_def intro: exI [of _ "[]"])
  show "transp (follows q ?R)" by (rule transpI) (rule follows_trans)
  show "follows q ?R r (emit (agentPorts (sessionOptions P opts)) e r)" for e r
    by (rule follows_emit)
  show "staysIn (follows q ?R) (pt_stream (agentPorts (sessionOptions P opts)) m c o')" for m c o'
    using assms by (auto simp: agentPorts_def separateOptions_def sessionOptions_def intro: staysIn_follows)
qed

lemma toolsStay_follows:
  "toolsStay (follows q R) ctx"
  if "\<And>ts t i a. ac_tools ctx = Some ts \<Longrightarrow> t \<in> set ts \<Longrightarrow> leavesCore q (at_execute t i a)"
  using that by (auto simp: toolsStay_def intro: staysIn_follows)

lemma drain_empty: "\<not> hasItems q \<Longrightarrow> drain q = ([], q)"
  by (simp add: hasItems_def drain_def)

lemma drain_left: "drain q = (ms, q') \<Longrightarrow> hasItems q' \<Longrightarrow> hasItems q"
  by (cases q) (auto simp: drain_def hasItems_def split: if_splits list.splits)

lemma polls_leave: "leavesCore q pollSteering" "leavesCore q pollFollowUp"
  by (auto simp: leavesCore_def pollSteering_def pollFollowUp_def core_def undisturbed_def hasQueuedMessages_def
      split: prod.split dest: drain_left)

lemma configStays_follows:
  assumes q: "separateOptions q opts"
  shows "configStays (follows q R) (createLoopConfig (sessionOptions P opts) c)"
proof -
  let ?cfg = "createLoopConfig (sessionOptions P opts) c"
  have p: "hookStays (follows q R) (cfg_prepareNextTurn ?cfg)"
    using q by (auto simp: separateOptions_def hookStays_def hookLeavesCore_def createLoopConfig_def sessionOptions_def
        split: option.splits intro: staysIn_follows)
  have u: "toolsStay (follows q R) ctx"
    if "cfg_prepareNextTurn ?cfg = Some h" "fst (h x w) = Some u" "tu_context u = Some ctx" for h x w u ctx
  proof (rule toolsStay_follows)
    fix ts t i a
    assume t: "ac_tools ctx = Some ts" "t \<in> set ts"
    have "t \<in> set (updateTools (fst (h x w)))" using that t by (simp add: updateTools_def)
    then show "leavesCore q (at_execute t i a)"
      using q that(1) by (auto simp: separateOptions_def createLoopConfig_def sessionOptions_def split: option.splits)
  qed
  have "supplyStays (follows q R) (cfg_getSteeringMessages ?cfg)" "supplyStays (follows q R) (cfg_getFollowUpMessages ?cfg)"
    using polls_leave by (auto simp: createLoopConfig_def supplyStays_def intro: staysIn_follows)
  with p u q show ?thesis
    unfolding configStays_def
    by (auto simp: createLoopConfig_def separateOptions_def sessionOptions_def hookStays_follows staysIn_follows)
      (auto simp: hookStays_def)
qed

lemma toolsStay_session:
  "separateOptions q opts \<Longrightarrow> toolsStay (follows q R) (createContextSnapshot (sessionOptions P opts) c)"
  by (auto simp: separateOptions_def createContextSnapshot_def sessionOptions_def intro!: toolsStay_follows)

lemma follows_runAgentLoop:
  assumes q: "separateOptions q opts"
    and run: "runAgentLoop (agentPorts (sessionOptions P opts)) ms (createContextSnapshot (sessionOptions P opts) c)
      (createLoopConfig (sessionOptions P opts) c) w = Some (new, r)"
  shows "follows q (cq_runtime P) (startRun w) r"
proof -
  let ?P = "agentPorts (sessionOptions P opts)" and ?ctx = "createContextSnapshot (sessionOptions P opts) c"
  let ?r = "injectPending ?P ms (emits ?P [AgentStart, TurnStart] (startRun w))"
  note rel = loopRel_follows [OF q, where P = P]
  have "toolsStay (follows q (cq_runtime P)) (?ctx\<lparr>ac_messages := ac_messages ?ctx @ ms\<rparr>)"
    using toolsStay_session [OF q, of "cq_runtime P" P c] by (simp add: toolsStay_def)
  from rel_runLoop [OF rel configStays_follows [OF q] this] run have "follows q (cq_runtime P) ?r r"
    by (simp add: runAgentLoop_def)
  moreover have "follows q (cq_runtime P) (startRun w) ?r"
    by (rule rel_trans [OF rel rel_emits [OF rel] rel_injectPending [OF rel]])
  ultimately show ?thesis using rel_trans [OF rel] by blast
qed

section \<open>The path to the leaf\<close>

definition leafOf :: "sm_entry list \<Rightarrow> sid" where
  "leafOf path = (if path = [] then IdNull else se_id (last path))"

definition on_path :: "session_manager \<Rightarrow> sm_entry list \<Rightarrow> bool" where
  "on_path s path \<longleftrightarrow> linked IdNull path \<and> subseq path (getEntries s) \<and> sg_leafId s = leafOf path"

lemma on_path_set: "on_path s path \<Longrightarrow> x \<in> set path \<Longrightarrow> x \<in> set (getEntries s)"
  by (auto simp: on_path_def elim: list_emb_set)

lemma on_path_context:
  assumes "session_ok s" "on_path s path"
  shows "smContext getTime s = Some (contextOfPath getTime path)" "smGetBranch None s = Some path"
proof -
  have index: "truthyId (se_id x) \<and> map_of (sg_byId s) (se_id x) = Some x" if "x \<in> set path" for x
    using on_path_set [OF assms(2) that] assms(1) map_of_byId [OF assms(1)] tree_distinct [of "getEntries s"]
    by (auto simp: session_ok_def)
  have "smContext getTime s = Some (contextOfPath getTime path) \<and> smGetBranch None s = Some path"
  proof (cases path rule: rev_cases)
    case Nil
    with assms(2) show ?thesis
      by (simp add: on_path_def leafOf_def smContext_def smBuildSessionContext_def buildSessionPath_def smGetBranch_def)
  next
    case (snoc xs e)
    have walk: "walkToRoot (sg_byId s) (Some e) [] = Some (xs @ [e])"
      by (rule walk_linked) (use assms(2) index snoc in \<open>auto simp: on_path_def\<close>)
    obtain i where i: "se_id e = Id i" using index [of e] snoc by (cases "se_id e") auto
    have leaf: "sg_leafId s = Id i" using assms(2) snoc by (simp add: on_path_def leafOf_def i)
    have "map_of (sg_byId s) (Id i) = Some e" "truthyId (Id i)" using index [of e] snoc by (simp_all add: i)
    then show ?thesis using walk snoc
      by (simp add: smContext_def smBuildSessionContext_def buildSessionPath_def buildEntryIndex_def leafEntry_def
          smGetBranch_def leaf del: truthyId.simps)
  qed
  then show "smContext getTime s = Some (contextOfPath getTime path)" "smGetBranch None s = Some path" by simp_all
qed

lemma on_path_distinct:
  assumes "session_ok s" "on_path s path"
  shows "distinct (map se_id path)"
proof -
  have "subseq (map se_id path) (map se_id (getEntries s))" using assms(2) by (simp only: on_path_def subseq_map)
  then show ?thesis using subseq_distinct tree_distinct assms(1) by (metis session_ok_def)
qed

text \<open>A compaction can be prepared on the path of a session.\<close>

lemma path_built_alone:
  assumes "linked IdNull path" "distinct (map se_id path)"
    and "\<forall>e \<in> set path. truthyId (se_id e)"
  shows "smBuildSessionContext getTime path IdUndefined None = Some (contextOfPath getTime path)"
proof (cases path rule: rev_cases)
  case Nil
  then show ?thesis by (simp add: smBuildSessionContext_def buildSessionPath_def leafEntry_def)
next
  case (snoc xs e)
  have "walkToRoot (entryIndex path) (Some e) [] = Some (xs @ [e])"
    by (rule walk_linked) (use assms snoc entryIndex_distinct [OF assms(2)] in auto)
  with snoc show ?thesis by (simp add: smBuildSessionContext_def buildSessionPath_def leafEntry_def buildEntryIndex_def)
qed

lemma prepared_on_path:
  assumes "session_ok s" "on_path s path"
  shows "\<exists>prep. smPrepareCompaction g path settings = Some prep"
proof -
  have "smBuildSessionContext g path IdUndefined None = Some (contextOfPath g path)"
  proof (rule path_built_alone)
    show "linked IdNull path" using assms(2) by (simp add: on_path_def)
    show "distinct (map se_id path)" by (rule on_path_distinct [OF assms])
    show "\<forall>e \<in> set path. truthyId (se_id e)"
      using on_path_set [OF assms(2)] tree_distinct [of "getEntries s"] assms(1) by (auto simp: session_ok_def)
  qed
  then show ?thesis by (auto simp: smPrepareCompaction_def Let_def split: sid.split)
qed

lemma path_exists:
  assumes "session_ok s"
  obtains path where "on_path s path"
proof (cases "sg_leafId s = IdNull")
  case True
  then have "on_path s []" by (simp add: on_path_def leafOf_def)
  with that show thesis .
next
  case False
  with assms have leaf: "hasId s (sg_leafId s)" by (simp add: hasId_iff) (simp add: session_ok_def)
  have "truthyId (sg_leafId s)" using assms False tree_distinct by (auto simp: session_ok_def)
  then obtain i where i: "sg_leafId s = Id i" by (cases "sg_leafId s") auto
  from branch_path [OF assms leaf [unfolded i]] obtain path where "path \<noteq> []" "linked IdNull path"
    "subseq path (getEntries s)" "se_id (last path) = Id i" by metis
  then have "on_path s path" by (simp add: on_path_def leafOf_def i)
  with that show thesis .
qed

text \<open>An entry that is appended becomes the end of the path.\<close>

lemma appendBody_path:
  assumes "tree_kept (rt_source R) s" "on_path s path" "appendBody R b s = (r, s')"
  obtains e where "on_path s' (path @ [e])" "se_body e = b" "tree_kept (rt_source R) s'"
proof -
  obtain e s1 where n: "newEntry (rt_source R) (sg_leafId s) b s = (e, s1)" by fastforce
  obtain r' s2 where a: "addEntry (rt_codec R) e s1 = (r', s2)" by fastforce
  have s': "s' = s2" using assms(3) n a by (simp add: appendBody_def)
  from newEntry_tree [OF assms(1) n a] have k: "tree_kept (rt_source R) s2" "se_body e = b" .
  from n have e: "se_parentId e = sg_leafId s" "sg_fileEntries s1 = sg_fileEntries s" by (auto simp: newEntry_def split: prod.splits)
  from a have "sg_fileEntries s2 = sg_fileEntries s @ [FEntry e]" "sg_leafId s2 = se_id e"
    using e(2) by (auto simp: addEntry_def dest!: persist_fields)
  then have "on_path s2 (path @ [e])"
    using assms(2) e(1) subseq_snoc_same [of path "getEntries s" e] by (auto simp: on_path_def leafOf_def linked_snoc getEntries_def)
  with k s' that show thesis by blast
qed

text \<open>A session that is not on disk cannot fail to store.\<close>

lemma appendBody_in_memory: "\<not> sg_persist s \<Longrightarrow> appendBody R b s = (r, s') \<Longrightarrow> \<not> isl r \<and> \<not> sg_persist s'"
  by (auto simp: appendBody_def newEntry_def addEntry_def persist_def split: prod.splits)

lemma contextEntriesOf_snoc:
  assumes "smCompactionOf e = None"
  shows "contextEntriesOf (path @ [e]) = contextEntriesOf path @ [e]"
proof -
  have latest: "getLatestCompactionEntry (path @ [e]) = getLatestCompactionEntry path"
    using no_compaction_drop [of "[e]" path] assms by (simp add: getLatestCompactionEntry_def)
  show ?thesis
  proof (cases "getLatestCompactionEntry path")
    case None
    with latest show ?thesis by (simp add: contextEntriesOf_def)
  next
    case (Some c)
    from latest_split [OF Some] obtain before after where path: "path = before @ c # after" by metis
    obtain i where i: "findIndex (\<lambda>x. se_id x = se_id c) path = Some i" "i < length path"
      "findIndex (\<lambda>x. se_id x = se_id c) (path @ [e]) = Some i"
    proof -
      have "\<exists>i. findIndex Q (xs @ y # ys) = Some i \<and> i < length (xs @ y # ys) \<and> findIndex Q ((xs @ y # ys) @ [e]) = Some i"
        if "Q y" for Q xs ys and y :: sm_entry
        using that by (induction xs) auto
      from this [of "\<lambda>x. se_id x = se_id c" c before after] that show thesis unfolding path by blast
    qed
    then show ?thesis by (simp add: contextEntriesOf_def latest Some)
  qed
qed

section \<open>The file keeps step with the transcript\<close>

lemma core_thrown_stays: "\<exists>ms'. fold (coreStep R) es (ms, s, Some t, st) = (ms', s, Some t, st)"
proof (induction es arbitrary: ms)
  case (Cons e es)
  then show ?case by (simp add: coreStep_thrown)
qed simp

lemma coreStep_cases:
  assumes "coreStep R e (ms, s, None, st) = (ms', s', None, st')"
  shows "(\<exists>m. e = MessageEnd m \<and> ms' = ms @ [m] \<and> storeStep R m s = (s', None)) \<or>
    messagesEnded [e] = [] \<and> ms' = ms \<and> s' = s"
proof (cases e)
  case (MessageStart m)
  with assms show ?thesis by (cases st) (auto simp: coreStep_start)
qed (use assms in \<open>cases st; auto split: prod.splits option.splits\<close>)+

lemma fold_stored:
  assumes "fold (coreStep R) es (ms, s, None, st) = (ms', s', None, st')"
    and "tree_kept (rt_source R) s" "on_path s path"
  shows "ms' = ms @ messagesEnded es \<and> tree_kept (rt_source R) s' \<and>
    (\<exists>added. on_path s' (path @ added) \<and> map se_body added = List.map_filter storedBody (messagesEnded es))"
  using assms
proof (induction es arbitrary: ms s st path)
  case Nil
  then show ?case by (auto intro: exI [of _ "[]"])
next
  case (Cons e es)
  obtain ms1 s1 t st1 where step: "coreStep R e (ms, s, None, st) = (ms1, s1, t, st1)" by (metis prod_cases4)
  have t: "t = None"
  proof (cases t)
    case (Some x)
    with Cons.prems(1) step core_thrown_stays [of R es ms1 s1 x st1] show ?thesis by auto
  qed
  have rest: "fold (coreStep R) es (ms1, s1, None, st1) = (ms', s', None, st')" using Cons.prems(1) step t by simp
  from coreStep_cases [OF step [unfolded t]] consider
    m where "e = MessageEnd m" "ms1 = ms @ [m]" "storeStep R m s = (s1, None)"
    | "messagesEnded [e] = []" "ms1 = ms" "s1 = s" by blast
  then show ?case
  proof cases
    case 1
    show ?thesis
    proof (cases "storedBody m")
      case None
      with 1 Cons.IH [OF rest] Cons.prems(2,3) show ?thesis by (simp add: storeStep_def)
    next
      case (Some b)
      then obtain r where a: "appendBody R b s = (r, s1)"
        using 1(3) by (auto simp: storeStep_def split: prod.splits sum.splits)
      obtain x where x: "on_path s1 (path @ [x])" "se_body x = b" "tree_kept (rt_source R) s1"
        by (rule appendBody_path [OF Cons.prems(2,3) a])
      from Cons.IH [OF rest x(3,1)] obtain added where
        "ms' = ms1 @ messagesEnded es" "tree_kept (rt_source R) s'" "on_path s' ((path @ [x]) @ added)"
        "map se_body added = List.map_filter storedBody (messagesEnded es)" by blast
      with 1 Some x(2) show ?thesis by (auto intro!: exI [of _ "x # added"])
    qed
  next
    case 2
    have "messagesEnded (e # es) = messagesEnded [e] @ messagesEnded es"
      using messagesEnded_append [of "[e]" es] by simp
    with 2 Cons.IH [OF rest] Cons.prems(2,3) show ?thesis by simp
  qed
qed

text \<open>A message but for the time of a custom one, which its entry in the file dates again.\<close>

definition untimed :: "agent_message \<Rightarrow> agent_message" where
  "untimed m = (case m of Custom cm \<Rightarrow> Custom (cm\<lparr>cm_timestamp := 0\<rparr>) | _ \<Rightarrow> m)"

definition inStep :: "(jstr \<Rightarrow> int) \<Rightarrow> 'w session_agent \<Rightarrow> bool" where
  "inStep getTime c \<longleftrightarrow> (\<exists>ctx. smContext getTime (cv_session (ag_env c)) = Some ctx \<and>
     map (untimed \<circ> rawMessage) (sq_messages ctx) = map untimed (ag_messages c))"

lemma stored_entry:
  assumes "storedBody m = Some (se_body e)"
  shows "map (untimed \<circ> rawMessage) (entryToMessages getTime e) = [untimed m]" "smCompactionOf e = None"
proof -
  have "map (untimed \<circ> rawMessage) (entryToMessages getTime e) = [untimed m] \<and> smCompactionOf e = None"
    using assms
    by (cases m) (auto simp: storedBody_def entryToMessages_def untimed_def createCustomMessage_def smCompactionOf_def
        dest!: sym [where t = "se_body e"])
  then show "map (untimed \<circ> rawMessage) (entryToMessages getTime e) = [untimed m]" "smCompactionOf e = None" by simp_all
qed

lemma path_stored:
  assumes "map se_body added = List.map_filter storedBody ms" "\<forall>m \<in> set ms. storedBody m \<noteq> None"
  shows "map (untimed \<circ> rawMessage) (sq_messages (contextOfPath getTime (path @ added))) =
    map (untimed \<circ> rawMessage) (sq_messages (contextOfPath getTime path)) @ map untimed ms"
  using assms
proof (induction ms arbitrary: added rule: rev_induct)
  case (snoc m ms)
  from snoc.prems(2) obtain b where b: "storedBody m = Some b" by auto
  with snoc.prems(1) have "map se_body added = List.map_filter storedBody ms @ [b]" by (simp add: List.map_filter_def)
  then obtain front e where added: "added = front @ [e]" "map se_body front = List.map_filter storedBody ms" "se_body e = b"
    by (cases added rule: rev_cases) auto
  from b added(3) have se: "storedBody m = Some (se_body e)" by simp
  note e = stored_entry [OF se]
  have "contextEntriesOf (path @ front @ [e]) = contextEntriesOf (path @ front) @ [e]"
    using contextEntriesOf_snoc [OF e(2), of "path @ front"] by simp
  with snoc.IH [OF added(2)] snoc.prems(2) e(1) [unfolded o_def] show ?case by (simp add: contextOfPath_def Let_def added(1))
qed (simp add: List.map_filter_def)

text \<open>Every run of the agent, prompted or continued, is a fold over its events.\<close>

lemma core_beginRun: "core (beginRun c) = core c" "core (c\<lparr>ag_skipPoll := b\<rparr>) = core c" "core (finishRun c) = core c"
  by (simp_all add: core_def beginRun_def finishRun_def)

lemma active_finishRun: "ag_active (finishRun c) = None"
  by (simp add: finishRun_def)

lemma core_drained: "core (c\<lparr>ag_steering := q\<rparr>) = core c" "core (c\<lparr>ag_followUp := q\<rparr>) = core c"
  by (simp_all add: core_def)

lemma follows_start:
  assumes "follows q R (startRun w) r" "ag_active w \<noteq> None"
  obtains es where "core (r_world r) = fold (coreStep R) es (core w)" "q \<longrightarrow> undisturbed w (r_world r)"
  using assms by (auto simp: follows_def startRun_def)

lemma prompted_core:
  assumes q: "separateOptions q opts" and idle: "ag_active c = None"
    and run: "runPromptMessages (sessionOptions P opts) ms skip c = Some (res, c')"
  obtains es where "core c' = fold (coreStep (cq_runtime P)) es (core c)" "q \<longrightarrow> undisturbed c c'" "ag_active c' = None"
proof -
  let ?o = "sessionOptions P opts" and ?c = "beginRun c"
  let ?w = "?c\<lparr>ag_skipPoll := skip\<rparr>"
  obtain new r where
    loop: "runAgentLoop (agentPorts ?o) ms (createContextSnapshot ?o ?c) (createLoopConfig ?o ?c) ?w = Some (new, r)"
    and out: "c' = finishRun (r_world r)"
    using run idle by (auto simp: runPromptMessages_def runWithLifecycle_def split: option.splits)
  have "ag_active ?w \<noteq> None" by (simp add: beginRun_def)
  from follows_start [OF follows_runAgentLoop [OF q loop] this] obtain es where
    es: "core (r_world r) = fold (coreStep (cq_runtime P)) es (core ?w)" "q \<longrightarrow> undisturbed ?w (r_world r)" .
  have "undisturbed c ?w" "undisturbed (r_world r) c'"
    by (simp_all add: undisturbed_def beginRun_def out finishRun_def hasQueuedMessages_def)
  with es show thesis
    by (intro that [of es]) (auto simp: out core_beginRun active_finishRun intro: undisturbed_trans)
qed

lemma continued_core:
  assumes q: "separateOptions q opts" and idle: "ag_active c = None"
    and more: "ag_messages c \<noteq> []" "\<not> isAssistant (last (ag_messages c))"
    and run: "runContinuation (sessionOptions P opts) c = Some (res, c')"
  obtains es where "core c' = fold (coreStep (cq_runtime P)) es (core c)" "q \<longrightarrow> undisturbed c c'" "ag_active c' = None"
proof -
  let ?o = "sessionOptions P opts" and ?c = "beginRun c"
  let ?P = "agentPorts ?o" and ?ctx = "createContextSnapshot ?o ?c" and ?cfg = "createLoopConfig ?o ?c"
  let ?w = "?c\<lparr>ag_skipPoll := False\<rparr>"
  have m: "ac_messages ?ctx = ag_messages c" by (simp add: createContextSnapshot_def beginRun_def)
  obtain new r where
    loop: "runLoop ?P ?ctx [] ?cfg (emits ?P [AgentStart, TurnStart] (startRun ?w)) = Some (new, r)"
    and out: "c' = finishRun (r_world r)"
    using run idle more m
    by (auto simp: runContinuation_def runWithLifecycle_def runAgentLoopContinue_def split: option.splits)
  note rel = loopRel_follows [OF q, where P = P]
  have "follows q (cq_runtime P) (startRun ?w) r"
    by (rule rel_trans [OF rel rel_emits [OF rel] rel_runLoop [OF rel configStays_follows [OF q] toolsStay_session [OF q] loop]])
  moreover have "ag_active ?w \<noteq> None" by (simp add: beginRun_def)
  ultimately obtain es where
    es: "core (r_world r) = fold (coreStep (cq_runtime P)) es (core ?w)" "q \<longrightarrow> undisturbed ?w (r_world r)"
    by (rule follows_start)
  have "undisturbed c ?w" "undisturbed (r_world r) c'"
    by (simp_all add: undisturbed_def beginRun_def out finishRun_def hasQueuedMessages_def)
  with es show thesis
    by (intro that [of es]) (auto simp: out core_beginRun active_finishRun intro: undisturbed_trans)
qed

lemma agent_run_core:
  assumes q: "separateOptions q opts" and idle: "ag_active c = None"
    and run: "Agent.prompt (sessionOptions P opts) input c = Some (Inr (), c') \<or>
      continueRun (sessionOptions P opts) c = Some (Inr (), c')"
  obtains es where "core c' = fold (coreStep (cq_runtime P)) es (core c)" "ag_active c' = None"
  using run
proof
  assume "Agent.prompt (sessionOptions P opts) input c = Some (Inr (), c')"
  with idle have "runPromptMessages (sessionOptions P opts) (normalizePromptInput (sessionOptions P opts) input c) False c =
      Some (Inr (), c')" by (simp add: prompt_def)
  with that show thesis by (metis prompted_core [OF q idle])
next
  let ?o = "sessionOptions P opts"
  assume c: "continueRun ?o c = Some (Inr (), c')"
  then have ne: "ag_messages c \<noteq> []" by (auto simp: continueRun_def split: if_splits)
  show thesis
  proof (cases "isAssistant (last (ag_messages c))")
    case False
    with c idle ne have "runContinuation ?o c = Some (Inr (), c')" by (simp add: continueRun_def)
    with that show thesis by (metis continued_core [OF q idle ne False])
  next
    case True
    obtain queued q1 where d1: "drain (ag_steering c) = (queued, q1)" by fastforce
    let ?c1 = "c\<lparr>ag_steering := q1\<rparr>"
    obtain queued' q2 where d2: "drain (ag_followUp ?c1) = (queued', q2)" by fastforce
    let ?c2 = "?c1\<lparr>ag_followUp := q2\<rparr>"
    from c True ne idle d1 d2 have "runPromptMessages ?o queued True ?c1 = Some (Inr (), c') \<or>
        runPromptMessages ?o queued' False ?c2 = Some (Inr (), c')"
      by (auto simp: continueRun_def Let_def split: if_splits)
    then show thesis
    proof
      assume "runPromptMessages ?o queued True ?c1 = Some (Inr (), c')"
      moreover have "ag_active ?c1 = None" using idle by simp
      ultimately show thesis using that core_drained by (metis prompted_core [OF q])
    next
      assume "runPromptMessages ?o queued' False ?c2 = Some (Inr (), c')"
      moreover have "ag_active ?c2 = None" using idle by simp
      ultimately show thesis using that core_drained by (metis prompted_core [OF q])
    qed
  qed
qed

end
