(* ===== verification/CodingCompactionProps.thy ===== *)
theory CodingCompactionProps
  imports CodingCompaction CompactionFacts CodingAgentFacts SessionSamples
begin

text \<open>What the coding agent's compaction keeps of the context, and where it cuts.\<close>

section \<open>The cut\<close>

lemma entryMessages_one: "length (entryMessages g e) \<le> 1"
  by (simp add: entryMessages_def entryToMessages_def split: sm_body.split raw_message.split)

lemma isCutPointMessage_iff: "isCutPointMessage m \<longleftrightarrow> \<not> isToolResult m"
  by (cases m rule: isToolResult.cases) simp_all

lemma cutEntry_clean: "isCutEntry g e \<Longrightarrow> entryMessages g e \<noteq> [] \<and> startsClean (entryMessages g e @ ms)"
  using entryMessages_one [of g e]
  by (cases "entryMessages g e") (auto simp: isCutEntry_def startsClean_def isCutPointMessage_iff)

lemma smChooseCut_in:
  assumes "smFindValidCutPoints g es s e \<noteq> []"
  shows "s \<le> smChooseCut g es s e keep \<and> smChooseCut g es s e keep < e \<and> isCutEntry g (es ! smChooseCut g es s e keep)"
proof -
  have "smChooseCut g es s e keep \<in> set (smFindValidCutPoints g es s e)"
    using assms by (auto simp: smChooseCut_def Let_def orDefault_def split: option.split dest: find_Some_set)
  then show ?thesis by (auto simp: smFindValidCutPoints_def)
qed

lemma smMoveCutBack_range: "s \<le> n \<Longrightarrow> s \<le> smMoveCutBack g es s n \<and> smMoveCutBack g es s n \<le> n"
  by (induction n) (auto simp: le_Suc_eq)

lemma smMoveCutBack_skips: "smMoveCutBack g es s n \<le> j \<Longrightarrow> j < n \<Longrightarrow> entryMessages g (es ! j) = []"
  by (induction n) (auto simp: less_Suc_eq split: if_splits)

lemma smFindCutPoint_cut:
  assumes "smFindValidCutPoints g es s e \<noteq> []" "smFindCutPoint g es s e keep = c"
  obtains n where "s \<le> ct_firstKeptEntryIndex c" "ct_firstKeptEntryIndex c \<le> n" "n < e" "isCutEntry g (es ! n)"
    "\<And>j. ct_firstKeptEntryIndex c \<le> j \<Longrightarrow> j < n \<Longrightarrow> entryMessages g (es ! j) = []"
proof -
  let ?n = "smChooseCut g es s e keep"
  have "ct_firstKeptEntryIndex c = smMoveCutBack g es s ?n" using assms by (auto simp: smFindCutPoint_def Let_def)
  with smChooseCut_in [OF assms(1), of keep] smMoveCutBack_range [of s ?n g es] smMoveCutBack_skips [of g es s ?n] that
  show thesis by auto
qed

lemma smFindCutPoint_turn:
  assumes "smFindCutPoint g es s e keep = c" "ct_isSplitTurn c"
  obtains t where "ct_turnStartIndex c = Some t" "s \<le> t" "t \<le> ct_firstKeptEntryIndex c"
proof -
  from assms obtain t where t: "ct_turnStartIndex c = Some t"
    and f: "smFindTurnStartIndex g es (ct_firstKeptEntryIndex c) s = Some t"
    by (auto simp: smFindCutPoint_def Let_def split: if_splits)
  from find_Some_set [OF f [unfolded smFindTurnStartIndex_def]] t that show thesis by auto
qed

section \<open>The context of a path\<close>

definition withoutSummaries :: "agent_message list \<Rightarrow> agent_message list" where
  "withoutSummaries = filter (\<lambda>m. case m of CompactionSummary _ \<Rightarrow> False | _ \<Rightarrow> True)"

lemma withoutSummaries_append [simp]: "withoutSummaries (xs @ ys) = withoutSummaries xs @ withoutSummaries ys"
  by (simp add: withoutSummaries_def)

lemma withoutSummaries_Nil [simp]: "withoutSummaries [] = []"
  by (simp add: withoutSummaries_def)

lemma compaction_entry_messages: "isCompactionEntry e \<Longrightarrow> withoutSummaries (entryMessages g e) = []"
  by (auto simp: isCompactionEntry_def smCompactionOf_def entryMessages_def entryToMessages_def withoutSummaries_def
      split: sm_body.splits)

lemma message_for_compaction:
  "withoutSummaries (case smMessageForCompaction g e of None \<Rightarrow> [] | Some m \<Rightarrow> [m]) = withoutSummaries (entryMessages g e)"
proof (cases "isCompactionEntry e")
  case False
  then show ?thesis using entryMessages_one [of g e]
    by (cases "entryMessages g e") (simp_all add: smMessageForCompaction_def)
qed (simp add: smMessageForCompaction_def compaction_entry_messages)

lemma smMessagesBetween_plain:
  "j \<le> length es \<Longrightarrow>
   withoutSummaries (smMessagesBetween g es i j) = withoutSummaries (concat (map (entryMessages g) (take (j - i) (drop i es))))"
proof (induction "j - i" arbitrary: i)
  case 0
  then show ?case by (simp add: smMessagesBetween_def List.map_filter_def)
next
  case (Suc n)
  then have less: "i < j" "i < length es" by simp_all
  have "smMessagesBetween g es i j =
      (case smMessageForCompaction g (es ! i) of None \<Rightarrow> [] | Some m \<Rightarrow> [m]) @ smMessagesBetween g es (Suc i) j"
    by (simp add: smMessagesBetween_def upt_conv_Cons [OF less(1)] List.map_filter_simps split: option.split)
  moreover have "take (j - i) (drop i es) = es ! i # take (j - Suc i) (drop (Suc i) es)"
    using less by (metis Cons_nth_drop_Suc Suc_diff_Suc take_Suc_Cons)
  ultimately show ?case using Suc message_for_compaction [of g "es ! i"] by simp
qed

lemma smMessagesBetween_split:
  "i \<le> j \<Longrightarrow> j \<le> k \<Longrightarrow> smMessagesBetween g es i k = smMessagesBetween g es i j @ smMessagesBetween g es j k"
  by (simp add: smMessagesBetween_def upt_split [of i j k] map_filter_append)

lemma findLast_index: "findLast Q xs = map_option ((!) xs) (find (\<lambda>i. Q (xs ! i)) (rev [0..<length xs]))"
proof (induction xs rule: rev_induct)
  case (snoc x xs)
  have "find (\<lambda>i. Q ((xs @ [x]) ! i)) (rev [0..<length xs]) = find (\<lambda>i. Q (xs ! i)) (rev [0..<length xs])"
    by (rule find_cong) (simp_all add: nth_append)
  moreover have "map_option ((!) (xs @ [x])) (find (\<lambda>i. Q (xs ! i)) (rev [0..<length xs])) =
      map_option ((!) xs) (find (\<lambda>i. Q (xs ! i)) (rev [0..<length xs]))"
    by (rule map_option_cong) (auto simp: nth_append dest!: find_Some_set)
  ultimately show ?case using snoc by (simp add: findLast_def)
qed (simp add: findLast_def)

lemma dropWhile_findIndex:
  "findIndex Q xs = Some b \<Longrightarrow> dropWhile (\<lambda>x. \<not> Q x) xs = drop b xs"
  by (induction xs arbitrary: b) (auto split: if_splits)

lemma findIndex_take: "findIndex Q xs = Some b \<Longrightarrow> b < i \<Longrightarrow> findIndex Q (take i xs) = Some b"
proof (induction xs arbitrary: b i)
  case (Cons x xs)
  then show ?case by (cases i) (auto split: if_splits)
qed simp

text \<open>The entries from the boundary on are those of the context, summaries aside, when the first entry that the last
  compaction kept lies before it.\<close>

definition firstKeptBefore :: "sm_entry list \<Rightarrow> bool" where
  "firstKeptBefore path \<longleftrightarrow>
     (case smLastCompactionIndex path of
        None \<Rightarrow> True
      | Some i \<Rightarrow>
          (case findIndex (\<lambda>e. se_id e = sc_firstKeptEntryId (the (smCompactionOf (path ! i)))) path of
             None \<Rightarrow> True | Some b \<Rightarrow> b < i))"

lemma context_plain:
  assumes "distinct (map se_id path)" "firstKeptBefore path"
  shows "withoutSummaries (concat (map (entryMessages g) (contextEntriesOf path))) =
    withoutSummaries (concat (map (entryMessages g) (drop (smBoundaryStart path) path)))"
proof (cases "smLastCompactionIndex path")
  case None
  then have "getLatestCompactionEntry path = None"
    by (simp add: getLatestCompactionEntry_def findLast_index smLastCompactionIndex_def isCompactionEntry_def)
  with None show ?thesis by (simp add: contextEntriesOf_def smBoundaryStart_def)
next
  case (Some i)
  from find_Some_set [OF Some [unfolded smLastCompactionIndex_def]] have i: "i < length path" "isCompactionEntry (path ! i)" by auto
  let ?c = "path ! i"
  let ?Q = "\<lambda>e. se_id e = sc_firstKeptEntryId (the (smCompactionOf ?c))"
  have split: "path = take i path @ ?c # drop (Suc i) path" using i(1) by (simp add: id_take_nth_drop)
  have latest: "getLatestCompactionEntry path = Some ?c" using Some
    by (simp add: getLatestCompactionEntry_def findLast_index smLastCompactionIndex_def isCompactionEntry_def)
  have ctx: "contextEntriesOf path = ?c # dropWhile (\<lambda>e. \<not> ?Q e) (take i path) @ drop (Suc i) path"
    using contextEntriesOf_split [of "take i path" ?c "drop (Suc i) path"] latest assms(1) by (simp flip: split)
  show ?thesis
  proof (cases "findIndex ?Q path")
    case None
    then have "dropWhile (\<lambda>e. \<not> ?Q e) (take i path) = []" by (auto simp: findIndex_None dropWhile_eq_Nil_conv dest: in_set_takeD)
    moreover have "smBoundaryStart path = Suc i" using Some None by (simp add: smBoundaryStart_def orDefault_def)
    ultimately show ?thesis unfolding ctx by (simp only: append_Nil list.map concat.simps withoutSummaries_append compaction_entry_messages [OF i(2)])
  next
    case b: (Some b)
    then have less: "b < i" using assms(2) Some by (simp add: firstKeptBefore_def)
    have kept: "dropWhile (\<lambda>e. \<not> ?Q e) (take i path) = drop b (take i path)"
      by (rule dropWhile_findIndex [OF findIndex_take [OF b less]])
    have "smBoundaryStart path = b" using Some b by (simp add: smBoundaryStart_def orDefault_def)
    moreover have "drop b path = drop b (take i path) @ ?c # drop (Suc i) path"
      using less i(1) by (subst split) (simp only: drop_append, simp)
    ultimately show ?thesis by (simp add: ctx kept compaction_entry_messages [OF i(2)])
  qed
qed

section \<open>The preparation\<close>

lemma smPrepareCompaction_SomeD:
  assumes "smPrepareCompaction g path settings = Some (Some p)"
  obtains k where "smBoundaryStart path \<le> k" "k < length path" "se_id (path ! k) = Id (cn_firstKeptEntryId p)"
    "cn_messagesToSummarize p @ cn_turnPrefixMessages p = smMessagesBetween g path (smBoundaryStart path) k"
    "startsClean (concat (map (entryMessages g) (drop k path)))"
proof -
  let ?b = "smBoundaryStart path"
  define c where "c = smFindCutPoint g path ?b (length path) (cp_keepRecentTokens settings)"
  let ?k = "ct_firstKeptEntryIndex c"
  let ?h = "if ct_isSplitTurn c then the (ct_turnStartIndex c) else ?k"
  have p: "?k < length path" "se_id (path ! ?k) = Id (cn_firstKeptEntryId p)"
    "cn_messagesToSummarize p = smMessagesBetween g path ?b ?h"
    "cn_turnPrefixMessages p = (if ct_isSplitTurn c then smMessagesBetween g path (the (ct_turnStartIndex c)) ?k else [])"
    "\<not> (cn_messagesToSummarize p = [] \<and> cn_turnPrefixMessages p = [])"
    using assms unfolding smPrepareCompaction_def Let_def c_def [symmetric]
    by (auto split: if_splits option.splits sid.splits)
  have valid: "smFindValidCutPoints g path ?b (length path) \<noteq> []"
  proof
    assume "smFindValidCutPoints g path ?b (length path) = []"
    then have "c = \<lparr>ct_firstKeptEntryIndex = ?b, ct_turnStartIndex = None, ct_isSplitTurn = False\<rparr>"
      by (simp add: c_def smFindCutPoint_def)
    with p(3-5) show False by (simp add: smMessagesBetween_def List.map_filter_def)
  qed
  obtain n where n: "?b \<le> ?k" "?k \<le> n" "n < length path" "isCutEntry g (path ! n)"
    "\<And>j. ?k \<le> j \<Longrightarrow> j < n \<Longrightarrow> entryMessages g (path ! j) = []"
    by (rule smFindCutPoint_cut [OF valid c_def [symmetric]]) blast
  have all: "cn_messagesToSummarize p @ cn_turnPrefixMessages p = smMessagesBetween g path ?b ?k"
  proof (cases "ct_isSplitTurn c")
    case True
    obtain t where t: "ct_turnStartIndex c = Some t" "?b \<le> t" "t \<le> ?k"
      by (rule smFindCutPoint_turn [OF c_def [symmetric] True])
    have h: "cn_messagesToSummarize p = smMessagesBetween g path ?b t" "cn_turnPrefixMessages p = smMessagesBetween g path t ?k"
      by (simp_all only: p(3,4) True t(1) if_True option.sel)
    show ?thesis by (simp only: h smMessagesBetween_split [OF t(2,3), symmetric])
  qed (use p(3,4) in simp)
  have "drop ?k path = take (n - ?k) (drop ?k path) @ path ! n # drop (Suc n) path"
    using n(2,3) append_take_drop_id [of "n - ?k" "drop ?k path"] by (simp add: Cons_nth_drop_Suc)
  moreover have "concat (map (entryMessages g) (take (n - ?k) (drop ?k path))) = []"
    using n(2,3,5) by (auto simp: in_set_conv_nth)
  ultimately have "startsClean (concat (map (entryMessages g) (drop ?k path)))"
    using cutEntry_clean [OF n(4)] by (metis (no_types, lifting) append_Nil concat.simps(2) concat_append list.simps(9) map_append)
  with that [OF n(1) p(1,2) all] show thesis by blast
qed

lemma context_messages: "map rawMessage (sq_messages (contextOfPath g path)) = concat (map (entryMessages g) (contextEntriesOf path))"
  unfolding entryMessages_def by (simp add: contextOfPath_def Let_def map_concat comp_def)

text \<open>The context after a compaction, where the cut is at \<open>k\<close>.\<close>

lemma compacted_context:
  assumes "tree_kept (rt_source R) s" "on_path s path" "k < length path" "se_id (path ! k) = Id firstKept"
    and "smAppendCompaction R summary firstKept tokens details hook u s = (Inr i, s')"
  obtains ctx ts where "smContext g s' = Some ctx" "map rawMessage (sq_messages ctx) =
    CompactionSummary (createCompactionSummaryMessage g summary tokens ts) # concat (map (entryMessages g) (drop k path))"
proof -
  have ok: "session_ok s" using assms(1) by (simp add: tree_kept_def)
  let ?body = "SM_compaction \<lparr>sc_summary = summary, sc_firstKeptEntryId = Id firstKept,
      sc_firstKeptEntryIndex = None, sc_tokensBefore = tokens, sc_details = details, sc_usage = u, sc_fromHook = hook\<rparr>"
  have "appendBody R ?body s = (Inr i, s')" using assms(5) by (simp add: smAppendCompaction_def)
  from appendBody_path [OF assms(1,2) this] obtain e where
    e: "on_path s' (path @ [e])" "se_body e = ?body" "tree_kept (rt_source R) s'" by blast
  have ok': "session_ok s'" using e(3) by (simp add: tree_kept_def)
  have latest: "getLatestCompactionEntry (path @ [e]) = Some e"
    using e(2) by (simp add: getLatestCompactionEntry_def findLast_append findLast_def smCompactionOf_def)
  have idx: "findIndex (\<lambda>x. se_id x = Id firstKept) path = Some k"
  proof -
    obtain b where b: "findIndex (\<lambda>x. se_id x = Id firstKept) path = Some b"
      using assms(3,4) by (cases "findIndex (\<lambda>x. se_id x = Id firstKept) path") (auto simp: findIndex_None)
    from findIndex_Some [OF b] assms(3,4) on_path_distinct [OF ok assms(2)] have "b = k"
      by (metis (no_types, lifting) length_map nth_eq_iff_index_eq nth_map)
    with b show ?thesis by simp
  qed
  have ctx': "contextEntriesOf (path @ [e]) = e # drop k path"
    using contextEntriesOf_split [of path e "[]"] latest on_path_distinct [OF ok' e(1)] e(2) dropWhile_findIndex [OF idx]
    by (simp add: smCompactionOf_def)
  have "entryMessages g e = [CompactionSummary (createCompactionSummaryMessage g summary tokens (se_timestamp e))]"
    by (simp add: entryMessages_def entryToMessages_def e(2))
  with that [OF on_path_context(1) [OF ok' e(1), of g]] show thesis by (simp add: context_messages ctx')
qed

text \<open>C8: After a compaction the context is the new summary and then a last part of the old context; the old
  context was, summaries of earlier compactions aside, the messages that were summarised followed by that
  part, and the part does not begin with a tool result without its call.\<close>

theorem compaction_keeps_recent_context:
  assumes "tree_kept (rt_source R) s" "on_path s path" "firstKeptBefore path"
    and "smPrepareCompaction g path settings = Some (Some p)"
    and "smAppendCompaction R summary (cn_firstKeptEntryId p) tokens details hook u s = (Inr i, s')"
  shows "\<exists>ctx ctx' ts kept. smContext g s = Some ctx \<and> smContext g s' = Some ctx' \<and>
    map rawMessage (sq_messages ctx') = CompactionSummary (createCompactionSummaryMessage g summary tokens ts) # kept \<and>
    withoutSummaries (map rawMessage (sq_messages ctx)) =
      withoutSummaries (cn_messagesToSummarize p @ cn_turnPrefixMessages p @ kept) \<and>
    startsClean kept"
proof -
  have ok: "session_ok s" using assms(1) by (simp add: tree_kept_def)
  obtain k where k: "smBoundaryStart path \<le> k" "k < length path" "se_id (path ! k) = Id (cn_firstKeptEntryId p)"
    "cn_messagesToSummarize p @ cn_turnPrefixMessages p = smMessagesBetween g path (smBoundaryStart path) k"
    "startsClean (concat (map (entryMessages g) (drop k path)))"
    by (rule smPrepareCompaction_SomeD [OF assms(4)])
  obtain ctx' ts where new: "smContext g s' = Some ctx'" "map rawMessage (sq_messages ctx') =
      CompactionSummary (createCompactionSummaryMessage g summary tokens ts) # concat (map (entryMessages g) (drop k path))"
    by (rule compacted_context [OF assms(1,2) k(2,3) assms(5)])
  have "drop (smBoundaryStart path) path =
      take (k - smBoundaryStart path) (drop (smBoundaryStart path) path) @ drop k path"
    using k(1) by (metis append_take_drop_id drop_drop le_add_diff_inverse2)
  then have "withoutSummaries (map rawMessage (sq_messages (contextOfPath g path))) =
      withoutSummaries (smMessagesBetween g path (smBoundaryStart path) k @ concat (map (entryMessages g) (drop k path)))"
    using context_plain [OF on_path_distinct [OF ok assms(2)] assms(3), of g] smMessagesBetween_plain [of k path g "smBoundaryStart path"] k(2)
    by (metis (no_types, lifting) concat_append context_messages less_imp_le map_append withoutSummaries_append)
  then have "withoutSummaries (map rawMessage (sq_messages (contextOfPath g path))) =
      withoutSummaries (cn_messagesToSummarize p @ cn_turnPrefixMessages p @ concat (map (entryMessages g) (drop k path)))"
    by (simp flip: k(4))
  with on_path_context(1) [OF ok assms(2), of g] new k(5) show ?thesis by (intro exI conjI) assumption+
qed

section \<open>A session that is compacted again\<close>

text \<open>Two questions, a compaction that kept both, and a third question.\<close>

definition againEntries :: "sm_entry list" where
  "againEntries =
     [chainEntry 1 IdNull (SM_message (Known sampleQuestion)), chainEntry 2 (Id [1]) (SM_message (Known sampleQuestion)),
      chainEntry 3 (Id [2]) (SM_compaction \<lparr>sc_summary = [111, 108, 100], sc_firstKeptEntryId = Id [1],
        sc_firstKeptEntryIndex = None, sc_tokensBefore = 9, sc_details = None, sc_usage = None, sc_fromHook = None\<rparr>),
      chainEntry 4 (Id [3]) (SM_message (Known sampleQuestion))]"

definition againSession :: session_manager where
  "againSession = buildIndex ((blankManager [47] [47] False (\<lambda>_. None) 0)\<lparr>sg_fileEntries := map FEntry againEntries\<rparr>)"

definition againSettings :: compaction_settings where
  "againSettings = \<lparr>cp_enabled = True, cp_reserveTokens = 16, cp_keepRecentTokens = 3\<rparr>"

lemma again_facts:
  "linked IdNull againEntries" "distinct (map se_id againEntries)" "\<forall>e \<in> set againEntries. truthyId (se_id e)"
  "getEntries againSession = againEntries" "sg_calls againSession = 0" "\<not> sg_persist againSession"
  by (simp_all add: againEntries_def chainEntry_def againSession_def getEntries_def blankManager_def)

lemma again_ok: "session_ok againSession" "on_path againSession againEntries" "tree_kept sampleSource againSession"
proof -
  have leaf: "sg_leafId againSession = Id [4]" "sg_byId againSession = entryIndex againEntries"
    by (simp_all add: againSession_def againEntries_def chainEntry_def)
  moreover have "tree_ok againEntries" by (rule linked_tree_ok [OF again_facts(1-3)])
  moreover have "Id [4] \<in> se_id ` set againEntries" by (simp add: againEntries_def chainEntry_def)
  ultimately show ok: "session_ok againSession" by (simp add: session_ok_def again_facts(4))
  show "on_path againSession againEntries"
    by (simp add: on_path_def leafOf_def leaf again_facts(1,4)) (simp add: againEntries_def chainEntry_def)
  have "uuids_fresh sampleSource 0 (se_id ` set againEntries)"
  proof (rule sampleSource_fresh)
    fix k
    have "replicate k 97 @ replicate 9 (98 :: jchar) \<noteq> [c]" for c by (cases k) (simp_all add: numeral_eq_Suc)
    then show "Id (replicate k 97 @ replicate 9 98) \<notin> se_id ` set againEntries"
      by (auto simp: againEntries_def chainEntry_def)
  qed
  with ok show "tree_kept sampleSource againSession" by (simp add: tree_kept_def again_facts(4,5))
qed

lemma again_prepared:
  obtains p where "smPrepareCompaction (\<lambda>_. 0) againEntries againSettings = Some (Some p)" "cn_firstKeptEntryId p = [2]"
proof -
  have built: "smBuildSessionContext (\<lambda>_. 0) againEntries IdUndefined None = Some (contextOfPath (\<lambda>_. 0) againEntries)"
    by (rule path_built_alone [OF again_facts(1-3)])
  have "case smPrepareCompaction (\<lambda>_. 0) againEntries againSettings of Some (Some p) \<Rightarrow> cn_firstKeptEntryId p = [2] | _ \<Rightarrow> False"
    unfolding smPrepareCompaction_def built by code_simp
  with that show thesis by (auto split: option.splits)
qed

lemma again_appended:
  obtains i s' where "smAppendCompaction (sampleRuntime []) [110] [2] 9 None None None againSession = (Inr i, s')"
proof -
  obtain r s' where a: "smAppendCompaction (sampleRuntime []) [110] [2] 9 None None None againSession = (r, s')" by fastforce
  then have "\<not> isl r" using appendBody_in_memory [OF again_facts(6)] by (simp add: smAppendCompaction_def)
  with a that show thesis by (cases r) auto
qed

theorem compaction_keeps_recent_context_witness:
  "\<exists>p i s' ctx ctx' ts kept. smPrepareCompaction (\<lambda>_. 0) againEntries againSettings = Some (Some p) \<and>
     smAppendCompaction (sampleRuntime []) [110] (cn_firstKeptEntryId p) 9 None None None againSession = (Inr i, s') \<and>
     smContext (\<lambda>_. 0) againSession = Some ctx \<and> smContext (\<lambda>_. 0) s' = Some ctx' \<and>
     map rawMessage (sq_messages ctx') = CompactionSummary (createCompactionSummaryMessage (\<lambda>_. 0) [110] 9 ts) # kept \<and>
     withoutSummaries (map rawMessage (sq_messages ctx)) =
       withoutSummaries (cn_messagesToSummarize p @ cn_turnPrefixMessages p @ kept) \<and> startsClean kept"
proof -
  obtain p where p: "smPrepareCompaction (\<lambda>_. 0) againEntries againSettings = Some (Some p)" "cn_firstKeptEntryId p = [2]"
    by (rule again_prepared)
  obtain i s' where a: "smAppendCompaction (sampleRuntime []) [110] (cn_firstKeptEntryId p) 9 None None None againSession = (Inr i, s')"
    unfolding p(2) by (rule again_appended)
  have kept: "firstKeptBefore againEntries" by code_simp
  have tree: "tree_kept (rt_source (sampleRuntime [])) againSession" using again_ok(3) by simp
  from compaction_keeps_recent_context [OF tree again_ok(2) kept p(1) a] p(1) a show ?thesis
    by (elim exE conjE) (intro exI conjI, assumption+)
qed

text \<open>A compaction that cuts before the last one leaves the old summary in the context, in the middle of the messages
  that are kept, although the new summary was made to replace it.\<close>

theorem old_summary_stays_in_context:
  assumes "tree_kept (rt_source R) s" "on_path s path"
    and "k \<le> i" "i < length path" "se_id (path ! k) = Id firstKept" "smCompactionOf (path ! i) = Some d"
    and "smAppendCompaction R summary firstKept tokens details hook u s = (Inr x, s')"
  shows "\<exists>ctx' new kept m. smContext g s' = Some ctx' \<and>
    map rawMessage (sq_messages ctx') = CompactionSummary new # kept \<and> cs_summary new = summary \<and>
    CompactionSummary m \<in> set kept \<and> cs_summary m = sc_summary d"
proof -
  have k: "k < length path" using assms(3,4) by simp
  obtain ctx' ts where new: "smContext g s' = Some ctx'" "map rawMessage (sq_messages ctx') =
      CompactionSummary (createCompactionSummaryMessage g summary tokens ts) # concat (map (entryMessages g) (drop k path))"
    by (rule compacted_context [OF assms(1,2) k assms(5,7)])
  let ?old = "createCompactionSummaryMessage g (sc_summary d) (sc_tokensBefore d) (se_timestamp (path ! i))"
  have "CompactionSummary ?old \<in> set (entryMessages g (path ! i))" using assms(6)
    by (auto simp: smCompactionOf_def entryMessages_def entryToMessages_def split: sm_body.splits)
  moreover have "path ! i \<in> set (drop k path)"
  proof -
    have "drop k path ! (i - k) = path ! i" "i - k < length (drop k path)" using assms(3,4) by simp_all
    then show ?thesis by (metis nth_mem)
  qed
  ultimately have "CompactionSummary ?old \<in> set (concat (map (entryMessages g) (drop k path)))" by auto
  moreover have "cs_summary ?old = sc_summary d" by (simp add: createCompactionSummaryMessage_def)
  moreover have "cs_summary (createCompactionSummaryMessage g summary tokens ts) = summary"
    by (simp add: createCompactionSummaryMessage_def)
  ultimately show ?thesis using new by (intro exI conjI) assumption+
qed

text \<open>It happens: here the cut is at the second entry and the compaction is the third.\<close>

lemma old_summary_stays_example:
  "\<exists>p. smPrepareCompaction (\<lambda>_. 0) againEntries againSettings = Some (Some p) \<and>
     se_id (againEntries ! 1) = Id (cn_firstKeptEntryId p) \<and> smLastCompactionIndex againEntries = Some 2"
proof -
  obtain p where p: "smPrepareCompaction (\<lambda>_. 0) againEntries againSettings = Some (Some p)" "cn_firstKeptEntryId p = [2]"
    by (rule again_prepared)
  moreover have "smLastCompactionIndex againEntries = Some 2" by code_simp
  ultimately show ?thesis by (simp add: againEntries_def chainEntry_def)
qed

section \<open>A turn that is compacted twice\<close>

text \<open>When the cut splits the turn with which the kept part began, there is no history to summarise, and the summary
  begins with the text that there is none: the summary of the last compaction is not asked for, and it goes
  out of the context with the messages before the cut.\<close>

theorem split_turn_drops_previous_summary:
  assumes "cn_isSplitTurn p" "cn_turnPrefixMessages p \<noteq> []" "cn_messagesToSummarize p = []"
  shows "codingSummarizeParts V (p\<lparr>cn_previousSummary := x\<rparr>) m ci lv r = codingSummarizeParts V p m ci lv r \<and>
    (\<forall>summary u r'. codingSummarizeParts V p m ci lv r = (Inr (summary, u), r') \<longrightarrow> (\<exists>t. summary = splitSummary noHistoryText t))"
  using assms by (auto simp: codingSummarizeParts_def Let_def split: prod.splits sum.splits)

definition longAnswer :: agent_message where
  "longAnswer = Msg (MAssistant \<lparr>am_content = [AText \<lparr>tc_text = [97, 98, 99, 100], tc_textSignature = None\<rparr>],
     am_api = [], am_provider = [112], am_model = [109], am_responseModel = None, am_responseId = None, am_diagnostics = None,
     am_usage = \<lparr>us_input = 0, us_output = 0, us_cacheRead = 0, us_cacheWrite = 0, us_cacheWrite1h = None,
       us_reasoning = None, us_totalTokens = 0,
       us_cost = \<lparr>uc_input = 0, uc_output = 0, uc_cacheRead = 0, uc_cacheWrite = 0, uc_total = 0\<rparr>\<rparr>,
     am_stopReason = SR_stop, am_errorMessage = None, am_timestamp = 2\<rparr>)"

definition splitEntries :: "sm_entry list" where
  "splitEntries =
     [chainEntry 1 IdNull (SM_message (Known sampleQuestion)), chainEntry 2 (Id [1]) (SM_message (Known sampleQuestion)),
      chainEntry 3 (Id [2]) (SM_compaction \<lparr>sc_summary = [111, 108, 100], sc_firstKeptEntryId = Id [2],
        sc_firstKeptEntryIndex = None, sc_tokensBefore = 9, sc_details = None, sc_usage = None, sc_fromHook = None\<rparr>),
      chainEntry 4 (Id [3]) (SM_message (Known longAnswer)), chainEntry 5 (Id [4]) (SM_message (Known longAnswer))]"

text \<open>It happens: the cut is after the compaction, and its summary is nowhere.\<close>

lemma split_turn_example:
  "\<exists>p. smPrepareCompaction (\<lambda>_. 0) splitEntries (againSettings\<lparr>cp_keepRecentTokens := 1\<rparr>) = Some (Some p) \<and>
     cn_isSplitTurn p \<and> length (cn_turnPrefixMessages p) = 2 \<and> cn_messagesToSummarize p = [] \<and>
     cn_previousSummary p = Some [111, 108, 100] \<and> cn_firstKeptEntryId p = [5]"
proof -
  have "linked IdNull splitEntries" "distinct (map se_id splitEntries)" "\<forall>e \<in> set splitEntries. truthyId (se_id e)"
    by (simp_all add: splitEntries_def chainEntry_def)
  then have built: "smBuildSessionContext (\<lambda>_. 0) splitEntries IdUndefined None = Some (contextOfPath (\<lambda>_. 0) splitEntries)"
    by (rule path_built_alone)
  have "case smPrepareCompaction (\<lambda>_. 0) splitEntries (againSettings\<lparr>cp_keepRecentTokens := 1\<rparr>) of
      Some (Some p) \<Rightarrow> cn_isSplitTurn p \<and> length (cn_turnPrefixMessages p) = 2 \<and> length (cn_messagesToSummarize p) = 0 \<and>
        cn_previousSummary p = Some [111, 108, 100] \<and> cn_firstKeptEntryId p = [5] | _ \<Rightarrow> False"
    unfolding smPrepareCompaction_def built by code_simp
  then show ?thesis by (auto split: option.splits)
qed

end
