(* ===== verification/CodingRecovery.thy ===== *)
theory CodingRecovery
  imports CodingAgentFacts
begin

text \<open>
  The recovery after a run against a provider that answers every request with an error: it gives up.
  Each round of the loop spends a retry or the one attempt after an overflow, and what a failing run does to
  the counters is nothing.
\<close>

section \<open>A run that fails\<close>

definition alwaysFails :: "'w coding_env agent_options \<Rightarrow> bool" where
  "alwaysFails opts \<longleftrightarrow> (\<forall>m ctx o' c. am_stopReason (snd (fst (ao_streamFn opts m ctx o' c))) = SR_error)"

lemma stream_answer:
  assumes "streamAssistantResponse Q cfg ctx r = (am, ctx', r')"
  shows "\<exists>m c opts w evs w'. pt_stream Q m c opts w = ((evs, am), w')"
proof -
  have "loopRel (\<lambda>_ _. True) Q" by (simp add: loopRel_def reflp_def transp_def staysIn_def)
  moreover have "configStays (\<lambda>_ _. True) cfg"
    by (simp add: configStays_def staysIn_def hookStays_def supplyStays_def toolsStay_def)
  ultimately show ?thesis using rel_streamAssistantResponse(2) [OF _ _ assms] by blast
qed

lemma failing_answer:
  assumes "alwaysFails opts" "streamAssistantResponse (agentPorts (sessionOptions P opts)) cfg ctx r = (am, ctx', r')"
  shows "am_stopReason am = SR_error"
proof -
  from stream_answer [OF assms(2)] obtain m c o' w evs w' where "ao_streamFn opts m c o' w = ((evs, am), w')"
    by (auto simp: agentPorts_def sessionOptions_def)
  with assms(1) show ?thesis unfolding alwaysFails_def by (metis fst_conv snd_conv)
qed

text \<open>The events of one response.\<close>

definition ofAnswer :: "assistant_message \<Rightarrow> agent_event \<Rightarrow> bool" where
  "ofAnswer a e \<longleftrightarrow>
     (case e of
        MessageStart m \<Rightarrow> isAssistant m
      | MessageEnd m \<Rightarrow> m = assistant_msg a
      | MessageUpdate _ _ \<Rightarrow> True
      | _ \<Rightarrow> False)"

definition answeredBy :: "assistant_message \<Rightarrow> 'w run \<Rightarrow> 'w run \<Rightarrow> bool" where
  "answeredBy a r r' \<longleftrightarrow> (\<exists>es. r_trace r' = r_trace r @ es \<and> list_all (ofAnswer a) es)"

lemma answeredBy_emit: "ofAnswer a e \<Longrightarrow> answeredBy a (emit Q e r) r' \<Longrightarrow> answeredBy a r r'"
  by (fastforce simp: answeredBy_def)

lemma answeredBy_emitted: "ofAnswer a e \<Longrightarrow> answeredBy a r (emit Q e r)"
  by (simp add: answeredBy_def)

lemma answeredBy_finish: "finishResponse Q a added msgs r = (msgs', r') \<Longrightarrow> answeredBy a r r'"
  by (auto simp: finishResponse_def Let_def ofAnswer_def split: if_splits
      intro!: answeredBy_emitted intro: answeredBy_emit [OF _ answeredBy_emitted])

lemma answeredBy_consume: "consumeEvents Q a evs part added msgs r = (msgs', r') \<Longrightarrow> answeredBy a r r'"
proof (induction Q a evs part added msgs r rule: consumeEvents.induct)
  case (2 P final p evs part added msgs r)
  then have "answeredBy final (emit P (MessageStart (assistant_msg p)) r) r'" by (intro "2.IH") simp_all
  then show ?case by (rule answeredBy_emit [rotated]) (simp add: ofAnswer_def)
next
  case (3 P final k i p evs part added msgs r)
  show ?case
  proof (cases part)
    case None
    with 3 show ?thesis by simp
  next
    case (Some q)
    with 3 have "answeredBy final (emit P (MessageUpdate (assistant_msg p) (EvBlock k i p)) r) r'" by simp
    then show ?thesis by (rule answeredBy_emit [rotated]) (simp add: ofAnswer_def)
  qed
qed (auto dest: answeredBy_finish)

lemma answeredBy_stream:
  assumes "streamAssistantResponse Q cfg ctx r = (am, ctx', r')"
  shows "answeredBy am r r'"
proof -
  obtain msgs r1 r4 evs where "r_trace r4 = r_trace r" "consumeEvents Q am evs None False (ac_messages ctx) r4 = (msgs, r1)" "r' = r1"
    using assms
    by (auto simp: streamAssistantResponse_def Let_def split: prod.splits option.splits dest!: callHook_trace)
  with answeredBy_consume show ?thesis unfolding answeredBy_def by metis
qed

lemma failing_turn:
  assumes "alwaysFails opts" "ls_pending s = []" "ls_firstTurn s"
  shows "\<exists>new am es r. turn (agentPorts (sessionOptions P opts)) s = turn_outcome.Finished new r \<and> am_stopReason am = SR_error \<and>
    list_all (ofAnswer am) es \<and>
    r_trace r = r_trace (ls_run s) @ es @ [TurnEnd (assistant_msg am) [], AgentEnd new]"
proof -
  let ?Q = "agentPorts (sessionOptions P opts)"
  obtain am ctx' r' where st: "streamAssistantResponse ?Q (ls_config s) (ls_context s) (ls_run s) = (am, ctx', r')"
    by (metis prod_cases3)
  have f: "am_stopReason am = SR_error" by (rule failing_answer [OF assms(1) st])
  from answeredBy_stream [OF st] obtain es where es: "r_trace r' = r_trace (ls_run s) @ es" "list_all (ofAnswer am) es"
    by (auto simp: answeredBy_def)
  have "turn ?Q s = turn_outcome.Finished (ls_newMessages s @ [assistant_msg am]) (emit ?Q (AgentEnd (ls_newMessages s @ [assistant_msg am]))
      (emit ?Q (TurnEnd (assistant_msg am) []) r'))"
    by (simp add: turn_def assms(2,3) injectPending_def st f Let_def)
  with f es show ?thesis by (intro exI conjI) auto
qed

lemma failing_turn_ends:
  assumes "alwaysFails opts"
  shows "\<exists>new r. turn (agentPorts (sessionOptions P opts)) s = turn_outcome.Finished new r"
proof -
  let ?Q = "agentPorts (sessionOptions P opts)"
  let ?ctx = "(ls_context s)\<lparr>ac_messages := ac_messages (ls_context s) @ ls_pending s\<rparr>"
  let ?r = "injectPending ?Q (ls_pending s) (if ls_firstTurn s then ls_run s else emit ?Q TurnStart (ls_run s))"
  obtain am ctx' r' where st: "streamAssistantResponse ?Q (ls_config s) ?ctx ?r = (am, ctx', r')" by (metis prod_cases3)
  have "am_stopReason am = SR_error" by (rule failing_answer [OF assms st])
  with st show ?thesis by (auto simp: turn_def Let_def)
qed

lemma failing_loop:
  assumes "alwaysFails opts"
  shows "\<exists>new r'. runLoop (agentPorts (sessionOptions P opts)) ctx new0 cfg r = Some (new, r')"
proof -
  obtain pend r1 where po: "pollQueue (cfg_getSteeringMessages cfg) r = (pend, r1)" by fastforce
  let ?s = "\<lparr>ls_context = ctx, ls_newMessages = new0, ls_config = cfg, ls_firstTurn = True, ls_pending = pend,
      ls_hasMoreToolCalls = True, ls_run = r1\<rparr>"
  obtain new r' where "turn (agentPorts (sessionOptions P opts)) ?s = turn_outcome.Finished new r'"
    using failing_turn_ends [OF assms] by blast
  then have "turnLoop (agentPorts (sessionOptions P opts)) ?s = Some (new, r')" by (simp add: turnLoop.simps)
  then show ?thesis by (simp add: runLoop_def po)
qed

lemma failing_prompt_returns:
  assumes "alwaysFails opts" "ag_active c = None"
  shows "\<exists>c'. Agent.prompt (sessionOptions P opts) input c = Some (Inr (), c')"
proof -
  let ?o = "sessionOptions P opts" and ?c = "beginRun c"
  obtain new r where "runAgentLoop (agentPorts ?o) (normalizePromptInput ?o input c) (createContextSnapshot ?o ?c)
      (createLoopConfig ?o ?c) (?c\<lparr>ag_skipPoll := False\<rparr>) = Some (new, r)"
    using failing_loop [OF assms(1)] unfolding runAgentLoop_def by blast
  with assms(2) show ?thesis by (simp add: prompt_def runPromptMessages_def runWithLifecycle_def)
qed

section \<open>What it does to the session\<close>

text \<open>An agent that may be continued by the recovery.\<close>

definition recoverable :: "sm_source \<Rightarrow> 'w session_agent \<Rightarrow> bool" where
  "recoverable src c \<longleftrightarrow> ag_active c = None \<and> \<not> hasQueuedMessages c \<and> tree_kept src (cv_session (ag_env c))"

definition sessionOf :: "coding_core \<Rightarrow> session_manager" where
  "sessionOf v = fst (snd v)"

definition countersOf :: "coding_core \<Rightarrow> nat \<times> bool" where
  "countersOf v = (fst (snd (snd (snd v))), fst (snd (snd (snd (snd v)))))"

lemma core_parts [simp]:
  "sessionOf (core c) = cv_session (ag_env c)"
  "countersOf (core c) = (cv_retryAttempt (ag_env c), cv_overflowAttempted (ag_env c))"
  by (simp_all add: sessionOf_def countersOf_def core_def)

lemma storeStep_tree: "tree_kept (rt_source R) s \<Longrightarrow> storeStep R m s = (s', t) \<Longrightarrow> tree_kept (rt_source R) s'"
  by (auto simp: storeStep_def split: option.splits prod.splits sum.splits) (use appendBody_tree [of R s] in \<open>metis snd_conv\<close>)+

lemma coreStep_tree: "tree_kept (rt_source R) (sessionOf v) \<Longrightarrow> tree_kept (rt_source R) (sessionOf (coreStep R e v))"
proof (induction R e v rule: coreStep.induct)
  case (2 R m ms s st)
  then show ?case by (auto simp: sessionOf_def split: prod.split option.split dest: storeStep_tree)
qed (simp_all add: sessionOf_def)

lemma fold_tree: "tree_kept (rt_source R) (sessionOf v) \<Longrightarrow> tree_kept (rt_source R) (sessionOf (fold (coreStep R) es v))"
  by (induction es arbitrary: v) (simp_all add: coreStep_tree)

lemma coreStep_counters:
  assumes "case e of MessageStart m \<Rightarrow> isAssistant m | MessageEnd m \<Rightarrow> \<exists>a. m = assistant_msg a \<and> am_stopReason a = SR_error | _ \<Rightarrow> True"
  shows "countersOf (coreStep R e v) = countersOf v"
  using assms
  by (cases "(R, e, v)" rule: coreStep.cases) (auto simp: countersOf_def answerStep_def split: prod.split option.split)

lemma fold_counters:
  assumes "\<And>e. e \<in> set es \<Longrightarrow> case e of MessageStart m \<Rightarrow> isAssistant m
      | MessageEnd m \<Rightarrow> \<exists>a. m = assistant_msg a \<and> am_stopReason a = SR_error | _ \<Rightarrow> True"
  shows "countersOf (fold (coreStep R) es v) = countersOf v"
  using assms
proof (induction es arbitrary: v)
  case (Cons e es)
  have "countersOf (coreStep R e v) = countersOf v" by (rule coreStep_counters) (rule Cons.prems, simp)
  with Cons show ?case by simp
qed simp

lemma failing_continue:
  assumes q: "separateOptions True opts" and fails: "alwaysFails opts" and c: "recoverable (rt_source (cq_runtime P)) c"
  shows "\<exists>r c'. continueRun (sessionOptions P opts) c = Some (r, c') \<and>
    (isl r \<or> recoverable (rt_source (cq_runtime P)) c' \<and> cv_settings (ag_env c') = cv_settings (ag_env c) \<and>
       countersOf (core c') = countersOf (core c))"
proof -
  let ?o = "sessionOptions P opts" and ?R = "cq_runtime P" and ?c = "beginRun c"
  let ?Q = "agentPorts ?o" and ?w = "?c\<lparr>ag_skipPoll := False\<rparr>"
  let ?ctx = "createContextSnapshot ?o ?c" and ?cfg = "createLoopConfig ?o ?c"
  from c have idle: "ag_active c = None" and none: "\<not> hasItems (ag_steering c)" "\<not> hasItems (ag_followUp c)"
    and tree: "tree_kept (rt_source ?R) (cv_session (ag_env c))" by (simp_all add: recoverable_def hasQueuedMessages_def)
  have empty: "drain (ag_steering c) = ([], ag_steering c)" "drain (ag_followUp c) = ([], ag_followUp c)"
    using none by (simp_all add: drain_empty)
  show ?thesis
  proof (cases "ag_messages c = [] \<or> isAssistant (last (ag_messages c))")
    case True
    with idle empty show ?thesis by (auto simp: continueRun_def Let_def)
  next
    case False
    then have more: "ag_messages c \<noteq> []" "\<not> isAssistant (last (ag_messages c))" by simp_all
    have msgs: "ac_messages ?ctx = ag_messages c" by (simp add: createContextSnapshot_def beginRun_def)
    let ?r0 = "emits ?Q [AgentStart, TurnStart] (startRun ?w)"
    obtain new r where loop: "runLoop ?Q ?ctx [] ?cfg ?r0 = Some (new, r)" using failing_loop [OF fails] by blast
    have run: "continueRun ?o c = Some (Inr (), finishRun (r_world r))"
      using idle more msgs loop
      by (simp add: continueRun_def runContinuation_def runWithLifecycle_def runAgentLoopContinue_def)
    note rel = loopRel_follows [OF q, where P = P]
    have start: "follows True ?R (startRun ?w) ?r0" by (rule rel_emits [OF rel])
    have whole: "follows True ?R (startRun ?w) r"
      by (rule rel_trans [OF rel start rel_runLoop [OF rel configStays_follows [OF q] toolsStay_session [OF q] loop]])
    have "undisturbed ?w (r_world ?r0)" using start by (simp add: follows_def startRun_def)
    moreover have "\<not> hasQueuedMessages ?w" using none by (simp add: hasQueuedMessages_def beginRun_def)
    ultimately have "\<not> hasItems (ag_steering (r_world ?r0))" by (simp add: undisturbed_def hasQueuedMessages_def)
    then have poll: "pollSteering (r_world ?r0) = ([], r_world ?r0\<lparr>ag_skipPoll := False\<rparr>) \<or>
        pollSteering (r_world ?r0) = ([], r_world ?r0\<lparr>ag_steering := ag_steering (r_world ?r0)\<rparr>)"
      by (simp add: pollSteering_def drain_empty)
    obtain r1 where po: "pollQueue (cfg_getSteeringMessages ?cfg) ?r0 = ([], r1)" "r_trace r1 = r_trace ?r0"
      using poll by (auto simp: pollQueue_def createLoopConfig_def callHook_def simp del: emits_Cons)
    let ?s = "\<lparr>ls_context = ?ctx, ls_newMessages = [], ls_config = ?cfg, ls_firstTurn = True, ls_pending = [],
        ls_hasMoreToolCalls = True, ls_run = r1\<rparr>"
    obtain new' am es r' where turn: "turn ?Q ?s = turn_outcome.Finished new' r'" "am_stopReason am = SR_error"
      "list_all (ofAnswer am) es" "r_trace r' = r_trace r1 @ es @ [TurnEnd (assistant_msg am) [], AgentEnd new']"
      using failing_turn [OF fails, of ?s P] by auto
    have r: "r' = r" using loop po(1) turn(1) by (simp add: runLoop_def turnLoop.simps del: emits_Cons)
    let ?es = "[AgentStart, TurnStart] @ es @ [TurnEnd (assistant_msg am) [], AgentEnd new']"
    from whole obtain fs where "r_trace r = fs" "core (r_world r) = fold (coreStep ?R) fs (core ?w)"
      "undisturbed ?w (r_world r)" by (auto simp: follows_def startRun_def beginRun_def)
    with turn(4) r po(2) have fold: "core (r_world r) = fold (coreStep ?R) ?es (core ?w)" and u: "undisturbed ?w (r_world r)"
      by (simp_all add: startRun_def)
    have "countersOf (fold (coreStep ?R) ?es (core ?w)) = countersOf (core ?w)"
      by (rule fold_counters) (use turn(2,3) in \<open>auto simp: list_all_iff ofAnswer_def split: agent_event.splits\<close>)
    then have "countersOf (core (finishRun (r_world r))) = countersOf (core c)"
      by (simp only: core_beginRun fold)
    moreover have "tree_kept (rt_source ?R) (cv_session (ag_env (finishRun (r_world r))))"
    proof -
      have "tree_kept (rt_source ?R) (sessionOf (core ?w))" using tree by (simp only: core_beginRun core_parts)
      from fold_tree [OF this, of ?es] have "tree_kept (rt_source ?R) (sessionOf (core (finishRun (r_world r))))"
        by (simp only: core_beginRun fold)
      then show ?thesis by (simp only: core_parts)
    qed
    moreover have "\<not> hasQueuedMessages (finishRun (r_world r)) \<and>
        cv_settings (ag_env (finishRun (r_world r))) = cv_settings (ag_env c)"
      using u none by (simp add: undisturbed_def hasQueuedMessages_def finishRun_def beginRun_def)
    ultimately show ?thesis using run by (auto simp: recoverable_def active_finishRun)
  qed
qed

section \<open>The recovery\<close>

definition separatePorts :: "'w coding_ports \<Rightarrow> bool" where
  "separatePorts P \<longleftrightarrow> (\<forall>d. leavesCore True (cq_sleep P d)) \<and> (\<forall>p. leavesCore True (cq_compact P p))"

definition maxRetriesOf :: "'w session_agent \<Rightarrow> nat" where
  "maxRetriesOf c = ry_maxRetries (ct_retry (cv_settings (ag_env c)))"

text \<open>What is left to spend.\<close>

definition budget :: "'w session_agent \<Rightarrow> nat" where
  "budget c = (if cv_overflowAttempted (ag_env c) then 0 else Suc (maxRetriesOf c)) + (maxRetriesOf c - cv_retryAttempt (ag_env c))"

definition sameSpent :: "'w session_agent \<Rightarrow> 'w session_agent \<Rightarrow> bool" where
  "sameSpent c c' \<longleftrightarrow> cv_settings (ag_env c') = cv_settings (ag_env c) \<and> countersOf (core c') = countersOf (core c)"

lemma budget_same: "sameSpent c c' \<Longrightarrow> budget c' = budget c"
  by (simp add: sameSpent_def budget_def maxRetriesOf_def)

lemma sameSpent_refl [simp]: "sameSpent c c"
  by (simp add: sameSpent_def)

lemma sameSpent_trans: "sameSpent a b \<Longrightarrow> sameSpent b c \<Longrightarrow> sameSpent a c"
  by (simp add: sameSpent_def)

lemma some_bool [simp]: "\<exists>b. b" "\<exists>b. \<not> b" "\<exists>b. b = q" "\<exists>b. \<not> b \<and> (b \<longrightarrow> q)"
  by auto

lemma port_keeps:
  assumes "leavesCore True h" "recoverable src c"
  shows "recoverable src (snd (h c)) \<and> sameSpent c (snd (h c))"
proof -
  from assms(1) have "core (snd (h c)) = core c" "ag_active (snd (h c)) = None \<longleftrightarrow> ag_active c = None" "undisturbed c (snd (h c))"
    by (simp_all add: leavesCore_def)
  with assms(2) show ?thesis by (simp add: recoverable_def sameSpent_def undisturbed_def core_eq)
qed

lemma recoverable_emit [simp]: "recoverable src (emitEvent e c) = recoverable src c" "sameSpent c (emitEvent e c') = sameSpent c c'"
  by (simp_all add: recoverable_def sameSpent_def hasQueuedMessages_def)

lemma recoverable_env:
  assumes "tree_kept src (cv_session (f (ag_env c)))" "recoverable src c"
  shows "recoverable src (onEnv f c)"
  using assms by (simp add: recoverable_def hasQueuedMessages_def)

lemma drop_keeps: "recoverable src (dropLastAssistant c) = recoverable src c" "sameSpent c (dropLastAssistant c)"
  by (simp_all add: dropLastAssistant_def recoverable_def sameSpent_def hasQueuedMessages_def)

lemma applyCompaction_keeps:
  assumes "recoverable (rt_source (cq_runtime P)) c"
  shows "\<exists>g c'. applyCompaction P reason w r c = Some (g, c') \<and> recoverable (rt_source (cq_runtime P)) c' \<and> sameSpent c c' \<and>
    (g \<longrightarrow> w)"
proof -
  let ?src = "rt_source (cq_runtime P)"
  obtain res s where a: "smAppendCompaction (cq_runtime P) (cc_summary r) (cc_firstKeptEntryId r) (cc_tokensBefore r) (cc_details r)
      (Some False) (cc_usage r) (cv_session (ag_env c)) = (res, s)" by fastforce
  have tree: "tree_kept ?src s"
    using appendBody_tree [of "cq_runtime P" "cv_session (ag_env c)"] assms a
    by (auto simp: smAppendCompaction_def recoverable_def) (metis snd_conv)
  then obtain path where "on_path s path" using path_exists [of s] by (auto simp: tree_kept_def)
  then obtain ctx where ctx: "smContext (cq_getTime P) s = Some ctx"
    using on_path_context(1) [of s path] tree by (auto simp: tree_kept_def)
  have env: "recoverable ?src (onEnv (\<lambda>v. v\<lparr>cv_session := s\<rparr>) c)" "sameSpent c (onEnv (\<lambda>v. v\<lparr>cv_session := s\<rparr>) c)"
    using assms tree by (simp_all add: recoverable_def hasQueuedMessages_def sameSpent_def)
  have msgs: "recoverable ?src (x\<lparr>ag_messages := ms\<rparr>) = recoverable ?src x" "sameSpent c (x\<lparr>ag_messages := ms\<rparr>) = sameSpent c x" for x ms
    by (simp_all add: recoverable_def hasQueuedMessages_def sameSpent_def)
  show ?thesis
  proof (cases res)
    case (Inl e)
    with a env show ?thesis by (simp add: applyCompaction_def endCompaction_def)
  next
    case (Inr i)
    show ?thesis
    proof (cases w)
      case True
      with Inr a env ctx show ?thesis by (simp add: applyCompaction_def Let_def msgs)
    next
      case False
      moreover have "\<not> hasQueuedMessages x" if "recoverable ?src x" for x :: "'a session_agent"
        using that by (simp add: recoverable_def)
      ultimately show ?thesis using Inr a env ctx by (simp add: applyCompaction_def Let_def msgs)
    qed
  qed
qed

lemma runAutoCompaction_keeps:
  assumes "separatePorts P" "recoverable (rt_source (cq_runtime P)) c"
  shows "\<exists>g c'. runAutoCompaction P reason w c = Some (g, c') \<and> recoverable (rt_source (cq_runtime P)) c' \<and> sameSpent c c' \<and>
    (g \<longrightarrow> w)"
proof -
  let ?src = "rt_source (cq_runtime P)"
  have ok: "session_ok (cv_session (ag_env c))" using assms(2) by (simp add: recoverable_def tree_kept_def)
  obtain path where on: "on_path (cv_session (ag_env c)) path" by (rule path_exists [OF ok])
  have path: "smGetBranch None (cv_session (ag_env c)) = Some path" by (rule on_path_context(2) [OF ok on])
  obtain prep where prep: "smPrepareCompaction (cq_getTime P) path (ct_compaction (cv_settings (ag_env c))) = Some prep"
    using prepared_on_path [OF ok on] by blast
  have compacted: "recoverable ?src c1 \<and> sameSpent c c1"
    if "cq_compact P p (emitEvent (CompactionStarted reason) c) = (res, c1)" for p res c1
    using port_keeps [of "cq_compact P p" ?src "emitEvent (CompactionStarted reason) c"] assms that
    by (auto simp: separatePorts_def sameSpent_def)
  show ?thesis
  proof (cases "cq_requestAuth P c = Inr True")
    case False
    with assms(2) show ?thesis by (auto simp: runAutoCompaction_def split: sum.split)
  next
    case auth: True
    show ?thesis
    proof (cases prep)
      case None
      with auth path prep assms(2) show ?thesis by (simp add: runAutoCompaction_def)
    next
      case (Some p)
      obtain res c1 where cm: "cq_compact P p (emitEvent (CompactionStarted reason) c) = (res, c1)" by fastforce
      note k = compacted [OF cm]
      show ?thesis
      proof (cases res)
        case (Inl e)
        with auth path prep Some cm k show ?thesis by (simp add: runAutoCompaction_def endCompaction_def)
      next
        case (Inr r)
        show ?thesis
        proof (cases "cq_compactionAborted P c1")
          case True
          with Inr auth path prep Some cm k show ?thesis by (simp add: runAutoCompaction_def endCompaction_def)
        next
          case False
          from applyCompaction_keeps [of P c1 reason w r] k obtain g c' where
            "applyCompaction P reason w r c1 = Some (g, c')" "recoverable ?src c'" "sameSpent c1 c'" "g \<longrightarrow> w" by blast
          with False Inr auth path prep Some cm k sameSpent_trans show ?thesis by (simp add: runAutoCompaction_def) blast
        qed
      qed
    qed
  qed
qed

lemma checkCompaction_keeps:
  assumes "separatePorts P" "recoverable (rt_source (cq_runtime P)) c"
  shows "\<exists>g c'. checkCompaction P m skip c = Some (g, c') \<and> recoverable (rt_source (cq_runtime P)) c' \<and>
    (if g then \<not> cv_overflowAttempted (ag_env c) \<and> cv_settings (ag_env c') = cv_settings (ag_env c) \<and>
       countersOf (core c') = (cv_retryAttempt (ag_env c), True)
     else cv_settings (ag_env c') = cv_settings (ag_env c))"
proof -
  let ?src = "rt_source (cq_runtime P)"
  have ok: "session_ok (cv_session (ag_env c))" using assms(2) by (simp add: recoverable_def tree_kept_def)
  obtain path where path: "smGetBranch None (cv_session (ag_env c)) = Some path"
    using path_exists [OF ok] on_path_context(2) [OF ok] by metis
  let ?goal = "\<lambda>x. \<exists>g c'. x = Some (g, c') \<and> recoverable ?src c' \<and>
    (if g then \<not> cv_overflowAttempted (ag_env c) \<and> cv_settings (ag_env c') = cv_settings (ag_env c) \<and>
       countersOf (core c') = (cv_retryAttempt (ag_env c), True)
     else cv_settings (ag_env c') = cv_settings (ag_env c))"
  have stay: "?goal (Some (False, c))" using assms(2) by simp
  have plain: "?goal (runAutoCompaction P reason False c)" for reason
  proof -
    from runAutoCompaction_keeps [OF assms, of reason False] obtain c' where
      "runAutoCompaction P reason False c = Some (False, c')" "recoverable ?src c'" "sameSpent c c'" by auto
    then show ?thesis by (simp add: sameSpent_def)
  qed
  have given_up: "?goal (endCompaction reason False err c)" for reason err
    using assms(2) by (simp add: endCompaction_def)
  have recovery: "?goal (runAutoCompaction P reason True (dropLastAssistant (onEnv (\<lambda>v. v\<lparr>cv_overflowAttempted := True\<rparr>) c)))"
    if "\<not> cv_overflowAttempted (ag_env c)" for reason
  proof -
    let ?c = "dropLastAssistant (onEnv (\<lambda>v. v\<lparr>cv_overflowAttempted := True\<rparr>) c)"
    have r: "recoverable ?src (onEnv (\<lambda>v. v\<lparr>cv_overflowAttempted := True\<rparr>) c)"
      using assms(2) by (simp add: recoverable_def hasQueuedMessages_def)
    have "sameSpent (onEnv (\<lambda>v. v\<lparr>cv_overflowAttempted := True\<rparr>) c) ?c" by (rule drop_keeps)
    then have d: "recoverable ?src ?c" "cv_settings (ag_env ?c) = cv_settings (ag_env c)"
      "countersOf (core ?c) = (cv_retryAttempt (ag_env c), True)"
      using r by (simp_all add: sameSpent_def drop_keeps(1))
    from runAutoCompaction_keeps [OF assms(1) d(1), of reason True] obtain g c' where
      c': "runAutoCompaction P reason True ?c = Some (g, c')" "recoverable ?src c'" "sameSpent ?c c'" by auto
    have "cv_settings (ag_env c') = cv_settings (ag_env c)" "countersOf (core c') = (cv_retryAttempt (ag_env c), True)"
      using c'(3) d(2,3) by (simp_all only: sameSpent_def)
    with c'(1,2) that show ?thesis by simp
  qed
  have choice: "?goal (if b then x else y)" if "b \<Longrightarrow> ?goal x" "\<not> b \<Longrightarrow> ?goal y" for b x y
    using that by (cases b) simp_all
  have tokens: "?goal (case t of None \<Rightarrow> Some (False, c)
      | Some tokens \<Rightarrow> (if Q tokens then runAutoCompaction P CR_threshold False c else Some (False, c)))" for t and Q :: "int \<Rightarrow> bool"
    using stay plain by (cases t) auto
  show ?thesis
    unfolding checkCompaction_def Let_def path option.case
    by (intro choice stay plain given_up recovery tokens)
qed

lemma prepareRetry_keeps:
  assumes "separatePorts P" "recoverable (rt_source (cq_runtime P)) c"
  shows "recoverable (rt_source (cq_runtime P)) (snd (prepareRetry P m c)) \<and>
    cv_settings (ag_env (snd (prepareRetry P m c))) = cv_settings (ag_env c) \<and>
    cv_overflowAttempted (ag_env (snd (prepareRetry P m c))) = cv_overflowAttempted (ag_env c) \<and>
    (fst (prepareRetry P m c) \<longrightarrow> cv_retryAttempt (ag_env c) < maxRetriesOf c \<and>
       cv_retryAttempt (ag_env (snd (prepareRetry P m c))) = Suc (cv_retryAttempt (ag_env c)))"
proof -
  let ?src = "rt_source (cq_runtime P)"
  let ?settings = "ct_retry (cv_settings (ag_env c))" and ?attempt = "Suc (cv_retryAttempt (ag_env c))"
  show ?thesis
  proof (cases "\<not> ry_enabled ?settings \<or> ?attempt > ry_maxRetries ?settings")
    case True
    with assms(2) show ?thesis by (auto simp: prepareRetry_def Let_def)
  next
    case False
    let ?d = "ry_baseDelayMs ?settings * 2 ^ (?attempt - 1)"
    let ?err = "if truthyStr (am_errorMessage m) then the (am_errorMessage m) else js ''Unknown error''"
    let ?c = "dropLastAssistant (emitEvent (AutoRetryStarted ?attempt (ry_maxRetries ?settings) ?d ?err)
      (onEnv (\<lambda>v. v\<lparr>cv_retryAttempt := ?attempt\<rparr>) c))"
    obtain cancelled c2 where sl: "cq_sleep P ?d ?c = (cancelled, c2)" by fastforce
    have "recoverable ?src ?c" using assms(2) by (simp add: drop_keeps(1)) (simp add: recoverable_def hasQueuedMessages_def)
    then have k: "recoverable ?src c2" "sameSpent ?c c2"
      using port_keeps [of "cq_sleep P ?d" ?src ?c] assms(1) sl by (simp_all add: separatePorts_def)
    have "sameSpent (emitEvent (AutoRetryStarted ?attempt (ry_maxRetries ?settings) ?d ?err)
      (onEnv (\<lambda>v. v\<lparr>cv_retryAttempt := ?attempt\<rparr>) c)) ?c" by (rule drop_keeps(2))
    with k(2) have c2: "cv_settings (ag_env c2) = cv_settings (ag_env c)" "cv_retryAttempt (ag_env c2) = ?attempt"
      "cv_overflowAttempted (ag_env c2) = cv_overflowAttempted (ag_env c)" by (simp_all add: sameSpent_def)
    have r: "prepareRetry P m c = (if cancelled
        then (False, emitEvent (AutoRetryEnded False (cv_retryAttempt (ag_env c2)) (Some (js ''Retry cancelled'')))
               (onEnv (\<lambda>v. v\<lparr>cv_retryAttempt := 0\<rparr>) c2))
        else (True, c2))" using False sl by (simp add: prepareRetry_def Let_def)
    show ?thesis
    proof (cases cancelled)
      case True
      have "recoverable ?src (onEnv (\<lambda>v. v\<lparr>cv_retryAttempt := 0\<rparr>) c2)"
        using k(1) by (simp add: recoverable_def hasQueuedMessages_def)
      with True c2 show ?thesis by (simp add: r)
    next
      case no: False
      with False c2 k(1) show ?thesis by (simp add: r maxRetriesOf_def)
    qed
  qed
qed

lemma handlePost_spends:
  assumes "separatePorts P" "recoverable (rt_source (cq_runtime P)) c"
  shows "\<exists>g c'. handlePostAgentRun P c = Some (g, c') \<and> (g \<longrightarrow> recoverable (rt_source (cq_runtime P)) c' \<and> budget c' < budget c)"
proof (cases "cv_lastAssistant (ag_env c)")
  case None
  then show ?thesis by (simp add: handlePostAgentRun_def Let_def)
next
  case (Some m)
  let ?src = "rt_source (cq_runtime P)"
  let ?c = "onEnv (\<lambda>v. v\<lparr>cv_lastAssistant := None\<rparr>) c"
  have start: "recoverable ?src ?c" "sameSpent c ?c"
    using assms(2) by (simp_all add: recoverable_def hasQueuedMessages_def sameSpent_def)
  note b = budget_same [OF start(2)]
  obtain g1 c1 where r: "(if isRetryableError m ?c then prepareRetry P m ?c else (False, ?c)) = (g1, c1)" by fastforce
  have c1: "recoverable ?src c1" "cv_settings (ag_env c1) = cv_settings (ag_env ?c)"
    "cv_overflowAttempted (ag_env c1) = cv_overflowAttempted (ag_env ?c)"
    "g1 \<longrightarrow> cv_retryAttempt (ag_env ?c) < maxRetriesOf ?c \<and> cv_retryAttempt (ag_env c1) = Suc (cv_retryAttempt (ag_env ?c))"
    using prepareRetry_keeps [OF assms(1) start(1), of m] start(1) r by (auto split: if_splits)
  show ?thesis
  proof (cases g1)
    case True
    with c1 have "budget c1 < budget ?c" by (auto simp: budget_def maxRetriesOf_def)
    with True r c1(1) b Some show ?thesis by (simp add: handlePostAgentRun_def Let_def)
  next
    case False
    let ?c2 = "if am_stopReason m = SR_error \<and> cv_retryAttempt (ag_env c1) > 0
      then onEnv (\<lambda>v. v\<lparr>cv_retryAttempt := 0\<rparr>)
             (emitEvent (AutoRetryEnded False (cv_retryAttempt (ag_env c1)) (am_errorMessage m)) c1) else c1"
    have c2: "recoverable ?src ?c2" "cv_settings (ag_env ?c2) = cv_settings (ag_env c1)"
      "cv_overflowAttempted (ag_env ?c2) = cv_overflowAttempted (ag_env c1)"
      using c1(1) by (simp_all add: recoverable_def hasQueuedMessages_def)
    from checkCompaction_keeps [OF assms(1) c2(1), of m True] obtain g c3 where
      c3: "checkCompaction P m True ?c2 = Some (g, c3)" "recoverable ?src c3"
      "g \<longrightarrow> \<not> cv_overflowAttempted (ag_env ?c2) \<and> cv_settings (ag_env c3) = cv_settings (ag_env ?c2) \<and>
        cv_overflowAttempted (ag_env c3)" by (auto split: if_splits simp del: core_parts) (auto split: if_splits)
    have run: "handlePostAgentRun P c = Some (if g then True else hasQueuedMessages c3, c3)"
      using False r Some c3(1) by (cases g) (simp_all add: handlePostAgentRun_def Let_def)
    show ?thesis
    proof (cases g)
      case True
      with c3(3) c1(2,3) c2(2,3) have "budget c3 < budget ?c" by (simp add: budget_def maxRetriesOf_def)
      with True c3(2) b run show ?thesis by simp
    next
      case False
      with run c3(2) show ?thesis by (simp add: recoverable_def)
    qed
  qed
qed

lemma failing_recovery_ends:
  assumes "separateOptions True opts" "separatePorts P" "alwaysFails opts" "recoverable (rt_source (cq_runtime P)) c"
  shows "\<exists>r. postLoop P (continueRun (sessionOptions P opts)) c = Some r"
  using assms(4)
proof (induction "budget c" arbitrary: c rule: less_induct)
  case less
  obtain g c1 where h: "handlePostAgentRun P c = Some (g, c1)" and
    spent: "g \<longrightarrow> recoverable (rt_source (cq_runtime P)) c1 \<and> budget c1 < budget c"
    using handlePost_spends [OF assms(2) less.prems] by blast
  show ?case
  proof (cases g)
    case False
    with h show ?thesis by (simp add: postLoop.simps)
  next
    case True
    from failing_continue [OF assms(1,3), of P c1] spent True obtain r c2 where
      again: "continueRun (sessionOptions P opts) c1 = Some (r, c2)" and
      kept: "isl r \<or> recoverable (rt_source (cq_runtime P)) c2 \<and> sameSpent c1 c2" by (auto simp: sameSpent_def)
    show ?thesis
    proof (cases "isl r")
      case True
      with h \<open>g\<close> again show ?thesis by (simp add: postLoop.simps)
    next
      case False
      with kept budget_same [of c1 c2] spent \<open>g\<close> have "recoverable (rt_source (cq_runtime P)) c2" "budget c2 < budget c" by auto
      from less.hyps [OF this(2,1)] h \<open>g\<close> again False show ?thesis by (subst postLoop.simps) simp
    qed
  qed
qed

end
