(* ===== verification/CodingAgentProps.thy ===== *)
theory CodingAgentProps
  imports CodingRecovery SessionSamples
begin

text \<open>The properties of the coding agent's session, over its runs, its recovery and its settings.\<close>

section \<open>A coding agent\<close>

text \<open>Its provider fails, its session is not on disk, and its hooks change nothing.\<close>

definition failingOptions :: "unit coding_env agent_options" where
  "failingOptions =
     \<lparr>ao_tools = [], ao_convertToLlm = (\<lambda>ms c. (defaultConvertToLlm ms, c)), ao_transformContext = None, ao_getApiKey = None,
      ao_beforeToolCall = None, ao_afterToolCall = None, ao_prepareNextTurn = None, ao_prepareNextTurnWithContext = None,
      ao_toolExecution = Parallel, ao_listeners = [], ao_now = (\<lambda>c. 7), ao_validate = (\<lambda>t c. Inr JNull),
      ao_streamFn = (\<lambda>m ctx o' c. (([], sampleAssistant [] SR_error), c)), ao_schedule = (\<lambda>c. [])\<rparr>"

definition plainPorts :: "unit coding_ports" where
  "plainPorts =
     \<lparr>cq_runtime = sampleRuntime [], cq_getTime = (\<lambda>t. 0), cq_now = (\<lambda>c. 9), cq_sleep = (\<lambda>d c. (False, c)),
      cq_hasAuth = (\<lambda>p c. True), cq_requestAuth = (\<lambda>c. Inr True),
      cq_compact = (\<lambda>p c. (Inl (js ''no''), c)), cq_compactionAborted = (\<lambda>c. False), cq_expand = (\<lambda>t c. t),
      cq_errorText = (\<lambda>e. []), cq_available = (\<lambda>c. []), cq_summaryAuth = (\<lambda>c. Inr ()),
      cq_compactNow = (\<lambda>p t c. (Inl (js ''no'', False), c)), cq_branchSummary = (\<lambda>es o' c. (Inr BranchAborted, c)),
      cq_typeErrorText = []\<rparr>"

definition idleSession :: "unit coding_env" where
  "idleSession =
     \<lparr>cv_steering = [], cv_followUp = [], cv_nextTurn = [], cv_overflowAttempted = False, cv_retryAttempt = 0,
      cv_lastAssistant = None, cv_pendingBash = [], cv_runActive = False, cv_promptOverride = None, cv_basePrompt = [],
      cv_session = blankManager [47] [47] False (\<lambda>_. None) 0, cv_thrown = None,
      cv_settings = \<lparr>ct_retry = \<lparr>ry_enabled = True, ry_maxRetries = 3, ry_baseDelayMs = 2000\<rparr>,
        ct_compaction = \<lparr>cp_enabled = True, cp_reserveTokens = 16384, cp_keepRecentTokens = 20000\<rparr>,
        ct_defaultModel = None, ct_defaultThinkingLevel = None, ct_steeringMode = QM_one_at_a_time,
        ct_followUpMode = QM_one_at_a_time, ct_branchReserveTokens = 16384\<rparr>,
      cv_events = [], cv_world = ()\<rparr>"

definition idleAgent :: "unit session_agent" where
  "idleAgent = createAgent \<lparr>ai_systemPrompt = None, ai_model = None, ai_thinkingLevel = None, ai_messages = None,
     ai_steeringMode = None, ai_followUpMode = None\<rparr> idleSession"

lemma plain_hook: "leavesCore q (\<lambda>c. (f c, c))"
  by (simp add: leavesCore_def)

lemma failing_separate: "separateOptions q failingOptions"
  by (simp add: separateOptions_def failingOptions_def hookLeavesCore_def plain_hook)

lemma failing_fails: "alwaysFails failingOptions"
  by (simp add: alwaysFails_def failingOptions_def sampleAssistant_def)

lemma plain_separate: "separatePorts plainPorts"
  by (simp add: separatePorts_def plainPorts_def plain_hook)

lemma idle_agent:
  "ag_active idleAgent = None" "\<not> hasQueuedMessages idleAgent" "session_ok (cv_session (ag_env idleAgent))"
  "cv_thrown (ag_env idleAgent) = None" "\<not> sg_persist (cv_session (ag_env idleAgent))"
  "uuids_fresh (rt_source (cq_runtime plainPorts)) (sg_calls (cv_session (ag_env idleAgent)))
     (se_id ` set (getEntries (cv_session (ag_env idleAgent))))"
  by (simp_all add: idleAgent_def createAgent_def idleSession_def hasQueuedMessages_def hasItems_def newQueue_def
      session_ok_def blankManager_def getEntries_def entryIndex_def plainPorts_def sampleSource_fresh tree_Nil)

lemma idle_in_step: "inStep getTime idleAgent"
  by (simp add: inStep_def idleAgent_def createAgent_def idleSession_def blankManager_def smContext_def
      smBuildSessionContext_def buildSessionPath_def contextOfPath_def getEntries_def contextEntriesOf_def
      getLatestCompactionEntry_def findLast_def Let_def)

lemma fold_in_memory:
  assumes "\<not> sg_persist s" "fold (coreStep R) es (ms, s, None, st) = (ms', s', t, st')"
  shows "t = None"
  using assms
proof (induction es arbitrary: ms s st)
  case (Cons e es)
  obtain ms1 s1 t1 st1 where step: "coreStep R e (ms, s, None, st) = (ms1, s1, t1, st1)" by (metis prod_cases4)
  have "t1 = None \<and> \<not> sg_persist s1"
  proof (cases e)
    case (MessageEnd m)
    have "snd (storeStep R m s) = None \<and> \<not> sg_persist (fst (storeStep R m s))"
      using Cons.prems(1) by (auto simp: storeStep_def split: option.split prod.split sum.split dest: appendBody_in_memory)
    with step MessageEnd show ?thesis by (auto split: prod.splits option.splits)
  next
    case (MessageStart m)
    with step Cons.prems(1) show ?thesis by (cases st) (auto simp: coreStep_start)
  qed (use step Cons.prems(1) in \<open>cases st; simp\<close>)+
  with Cons.IH [of s1 ms1 st1] Cons.prems(2) step show ?case by simp
qed simp

section \<open>Runs\<close>

text \<open>C5: Where the context that the session file gives is the agent's transcript, it is so after every run of the
  agent, prompted or continued, in which no storage failed and every new message is one that is stored: a
  restart shows the model the same conversation. The tools, the hooks and the provider may do anything but
  change the transcript and the session behind the agent's back.\<close>

theorem runs_keep_session_in_step:
  assumes "separateOptions False opts" "ag_active c = None"
    and "session_ok (cv_session (ag_env c))"
    and "uuids_fresh (rt_source (cq_runtime P)) (sg_calls (cv_session (ag_env c))) (se_id ` set (getEntries (cv_session (ag_env c))))"
    and "inStep getTime c"
    and "Agent.prompt (sessionOptions P opts) input c = Some (Inr (), c') \<or>
      continueRun (sessionOptions P opts) c = Some (Inr (), c')"
    and "cv_thrown (ag_env c') = None"
  shows "\<exists>new. ag_messages c' = ag_messages c @ new \<and> session_ok (cv_session (ag_env c')) \<and>
    ((\<forall>m \<in> set new. storedBody m \<noteq> None) \<longrightarrow> inStep getTime c')"
proof -
  let ?s = "cv_session (ag_env c)" and ?s' = "cv_session (ag_env c')" and ?R = "cq_runtime P"
  have tree: "tree_kept (rt_source ?R) ?s" using assms(3,4) by (simp add: tree_kept_def)
  obtain path where path: "on_path ?s path" by (rule path_exists [OF assms(3)])
  obtain es where es: "core c' = fold (coreStep ?R) es (core c)" by (rule agent_run_core [OF assms(1,2,6)])
  have none: "cv_thrown (ag_env c) = None"
  proof (rule ccontr)
    assume "cv_thrown (ag_env c) \<noteq> None"
    then obtain t where "cv_thrown (ag_env c) = Some t" by auto
    with es assms(7) core_thrown_stays show False by (auto simp: core_def) (metis option.distinct(1) prod.inject)
  qed
  have "fold (coreStep ?R) es (ag_messages c, ?s, None, cv_retryAttempt (ag_env c), cv_overflowAttempted (ag_env c),
        cv_lastAssistant (ag_env c)) =
      (ag_messages c', ?s', None, cv_retryAttempt (ag_env c'), cv_overflowAttempted (ag_env c'), cv_lastAssistant (ag_env c'))"
    using es none assms(7) by (simp add: core_def)
  from fold_stored [OF this tree path] obtain added where
    new: "ag_messages c' = ag_messages c @ messagesEnded es" and tree': "tree_kept (rt_source ?R) ?s'"
    and path': "on_path ?s' (path @ added)" and stored: "map se_body added = List.map_filter storedBody (messagesEnded es)"
    by blast
  have ok: "session_ok ?s'" using tree' by (simp add: tree_kept_def)
  have "inStep getTime c'" if "\<forall>m \<in> set (messagesEnded es). storedBody m \<noteq> None"
    using assms(5) path_stored [OF stored that, of getTime path] on_path_context(1) [OF assms(3) path, of getTime]
      on_path_context(1) [OF ok path', of getTime]
    by (simp add: inStep_def new)
  with new ok show ?thesis by blast
qed

theorem runs_keep_session_in_step_witness:
  "\<exists>c' new. Agent.prompt (sessionOptions plainPorts failingOptions) (MessageInput samplePrompt) idleAgent = Some (Inr (), c') \<and>
     ag_messages c' = ag_messages idleAgent @ new \<and> ((\<forall>m \<in> set new. storedBody m \<noteq> None) \<longrightarrow> inStep (\<lambda>_. 0) c')"
proof -
  obtain c' where run: "Agent.prompt (sessionOptions plainPorts failingOptions) (MessageInput samplePrompt) idleAgent = Some (Inr (), c')"
    using failing_prompt_returns [OF failing_fails idle_agent(1)] by blast
  obtain es where "core c' = fold (coreStep (cq_runtime plainPorts)) es (core idleAgent)"
    by (rule agent_run_core [OF failing_separate idle_agent(1) disjI1 [OF run]])
  then have "cv_thrown (ag_env c') = None" using fold_in_memory [OF idle_agent(5)] idle_agent(4) by (simp add: core_def) metis
  from runs_keep_session_in_step [OF failing_separate idle_agent(1,3,6) idle_in_step disjI1 [OF run] this] run
  show ?thesis by blast
qed

section \<open>Recovery\<close>



text \<open>The retry after an answer that stopped at the length limit cannot continue: the compaction rebuilds the transcript
  from the file, where that answer is still the last message, and takes only failed answers off again; so the
  agent refuses to continue, and the prompt ends with that error although the compaction announced a retry.\<close>

lemma last_dropWhile_kept: "x \<in> set xs \<Longrightarrow> \<not> Q x \<Longrightarrow> dropWhile Q xs \<noteq> [] \<and> last (dropWhile Q xs) = last xs"
  by (induction xs) auto

theorem length_overflow_retry_cannot_continue:
  assumes "tree_kept (rt_source (cq_runtime P)) (cv_session (ag_env c))" "on_path (cv_session (ag_env c)) path"
    and "path \<noteq> []" "se_body (last path) = SM_message (Known (assistant_msg a))" "am_stopReason a = SR_length"
    and "Id (cc_firstKeptEntryId r) \<in> se_id ` set path" "\<not> sg_persist (cv_session (ag_env c))"
    and "ag_active c = None" "\<not> hasQueuedMessages c"
  shows "\<exists>c' c''. applyCompaction P CR_overflow True r c = Some (True, c') \<and>
    continueRun opts c' = Some (Inl CannotContinueFromAssistant, c'')"
proof -
  let ?s = "cv_session (ag_env c)" and ?k = "Id (cc_firstKeptEntryId r)"
  obtain res s' where app: "smAppendCompaction (cq_runtime P) (cc_summary r) (cc_firstKeptEntryId r) (cc_tokensBefore r)
      (cc_details r) (Some False) (cc_usage r) ?s = (res, s')" by fastforce
  then have body: "appendBody (cq_runtime P) (SM_compaction \<lparr>sc_summary = cc_summary r, sc_firstKeptEntryId = ?k,
      sc_firstKeptEntryIndex = None, sc_tokensBefore = cc_tokensBefore r, sc_details = cc_details r, sc_usage = cc_usage r,
      sc_fromHook = Some False\<rparr>) ?s = (res, s')" by (simp add: smAppendCompaction_def)
  have no: "\<not> isl res" using appendBody_in_memory [OF assms(7) body] by simp
  obtain e where e: "on_path s' (path @ [e])" "sc_firstKeptEntryId (the (smCompactionOf e)) = ?k" "smCompactionOf e \<noteq> None"
    "tree_kept (rt_source (cq_runtime P)) s'"
    by (rule appendBody_path [OF assms(1,2) body]) (simp add: smCompactionOf_def)
  have ok: "session_ok s'" using e(4) by (simp add: tree_kept_def)
  have latest: "getLatestCompactionEntry (path @ [e]) = Some e"
    using e(3) by (simp add: getLatestCompactionEntry_def findLast_append findLast_def)
  have "subseq (map se_id (path @ [e])) (map se_id (getEntries s'))" using e(1) by (simp only: on_path_def subseq_map)
  then have distinct: "distinct (map se_id (path @ [e]))"
    using subseq_distinct tree_distinct ok by (metis session_ok_def)
  from assms(6) obtain x where x: "x \<in> set path" "se_id x = ?k" by auto
  note kept = last_dropWhile_kept [OF x(1), of "\<lambda>y. se_id y \<noteq> ?k"]
  have "contextEntriesOf (path @ [e]) = e # dropWhile (\<lambda>y. se_id y \<noteq> ?k) path"
    using contextEntriesOf_split [of path e "[]"] latest distinct e(2) by simp
  moreover have "dropWhile (\<lambda>y. se_id y \<noteq> ?k) path \<noteq> [] \<and> last (dropWhile (\<lambda>y. se_id y \<noteq> ?k) path) = last path"
    using last_dropWhile_kept [OF x(1), of "\<lambda>y. se_id y \<noteq> ?k"] x(2) by simp
  then obtain ys where "dropWhile (\<lambda>y. se_id y \<noteq> ?k) path = ys @ [last path]" by (metis append_butlast_last_id)
  ultimately have ctx: "sq_messages (contextOfPath (cq_getTime P) (path @ [e])) \<noteq> [] \<and>
      last (sq_messages (contextOfPath (cq_getTime P) (path @ [e]))) = Known (assistant_msg a)"
    using assms(4) by (simp add: contextOfPath_def Let_def entryToMessages_def)
  have built: "smContext (cq_getTime P) s' = Some (contextOfPath (cq_getTime P) (path @ [e]))"
    by (rule on_path_context(1) [OF ok e(1)])
  let ?ms = "map rawMessage (sq_messages (contextOfPath (cq_getTime P) (path @ [e])))"
  have ms: "?ms \<noteq> []" "last ?ms = assistant_msg a" using ctx by (simp_all add: last_map)
  let ?c = "emitEvent (CompactionEnded CR_overflow (Some (r\<lparr>cc_estimatedTokensAfter := Some (sum_list (map estimateTokens ?ms))\<rparr>)) False True None)
    ((onEnv (\<lambda>v. v\<lparr>cv_session := s'\<rparr>) c)\<lparr>ag_messages := ?ms\<rparr>)"
  obtain i where i: "res = Inr i" using no by (cases res) auto
  have "applyCompaction P CR_overflow True r c = Some (True, ?c)"
    using ms assms(5) by (simp add: applyCompaction_def app i built Let_def)
  moreover have "continueRun opts ?c = Some (Inl CannotContinueFromAssistant, ?c\<lparr>ag_steering := ag_steering c, ag_followUp := ag_followUp c\<rparr>)"
    using ms assms(8,9) by (simp add: continueRun_def Let_def hasQueuedMessages_def drain_empty)
  ultimately show ?thesis by blast
qed

text \<open>An answer that was aborted during the retries is reported as their success.\<close>

theorem aborted_retry_reported_successful:
  assumes "am_stopReason a = SR_aborted" "cv_retryAttempt (ag_env c) > 0"
  shows "last (cv_events (ag_env (trackAssistant a c))) = AutoRetryEnded True (cv_retryAttempt (ag_env c)) None"
  using assms by (simp add: trackAssistant_def Let_def emitEvent_def)

text \<open>A steering message without text, of images alone, is still shown as queued after it was delivered.\<close>

theorem image_message_stays_shown:
  assumes "contentText_user [] (um_content u) = []"
  shows "[] \<in> set (cv_steering (ag_env (takeFromQueues u (queueSteer P [] images c))))"
  using assms by (simp add: takeFromQueues_def Let_def queueSteer_def emitQueues_def emitEvent_def Agent.steer_def)

text \<open>A queued message with a text leaves the shown queue when it is delivered.\<close>

theorem delivered_message_leaves_queue:
  assumes "contentText_user [] (um_content u) = t" "t \<noteq> []" "t \<notin> set (cv_steering (ag_env c))"
  shows "cv_steering (ag_env (takeFromQueues u (queueSteer P t images c))) = cv_steering (ag_env c)"
  using assms
  by (simp add: takeFromQueues_def Let_def queueSteer_def emitQueues_def emitEvent_def Agent.steer_def remove1_append)

section \<open>Shell commands of the user\<close>

text \<open>What a shell command of the user leaves in the session, during a run or between runs: it waits until the run's
  end, and then transcript and file are in step again.\<close>

lemma path_message:
  assumes "se_body e = SM_message (Known m)"
  shows "map (untimed \<circ> rawMessage) (sq_messages (contextOfPath getTime (path @ [e]))) =
    map (untimed \<circ> rawMessage) (sq_messages (contextOfPath getTime path)) @ [untimed m]"
proof -
  have "smCompactionOf e = None" using assms by (simp add: smCompactionOf_def)
  from contextEntriesOf_snoc [OF this, of path] assms show ?thesis
    by (simp add: contextOfPath_def Let_def entryToMessages_def)
qed

lemma store_keeps_step:
  assumes "inStep getTime c" "tree_kept (rt_source (cq_runtime P)) (cv_session (ag_env c))"
  shows "inStep getTime (storeEntry (smAppendMessage (cq_runtime P) m) (c\<lparr>ag_messages := ag_messages c @ [m]\<rparr>)) \<and>
    tree_kept (rt_source (cq_runtime P)) (cv_session (ag_env (storeEntry (smAppendMessage (cq_runtime P) m) (c\<lparr>ag_messages := ag_messages c @ [m]\<rparr>))))"
proof -
  let ?s = "cv_session (ag_env c)"
  obtain r s' where a: "appendBody (cq_runtime P) (SM_message (Known m)) ?s = (r, s')" by fastforce
  have ok: "session_ok ?s" using assms(2) by (simp add: tree_kept_def)
  obtain path where path: "on_path ?s path" by (rule path_exists [OF ok])
  obtain e where e: "on_path s' (path @ [e])" "se_body e = SM_message (Known m)" "tree_kept (rt_source (cq_runtime P)) s'"
    by (rule appendBody_path [OF assms(2) path a])
  have ok': "session_ok s'" using e(3) by (simp add: tree_kept_def)
  have "smContext getTime s' = Some (contextOfPath getTime (path @ [e]))" by (rule on_path_context(1) [OF ok' e(1)])
  moreover have "cv_session (ag_env (storeEntry (smAppendMessage (cq_runtime P) m) (c\<lparr>ag_messages := ag_messages c @ [m]\<rparr>))) = s'"
    "ag_messages (storeEntry (smAppendMessage (cq_runtime P) m) (c\<lparr>ag_messages := ag_messages c @ [m]\<rparr>)) = ag_messages c @ [m]"
    using a by (auto simp: storeEntry_def smAppendMessage_def split: sum.split)
  moreover have "map (untimed \<circ> rawMessage) (sq_messages (contextOfPath getTime path)) = map untimed (ag_messages c)"
    using assms(1) on_path_context(1) [OF ok path, of getTime] by (simp add: inStep_def)
  ultimately show ?thesis using path_message [OF e(2), of getTime path] e(3) by (simp add: inStep_def)
qed

theorem shell_commands_keep_step:
  assumes "inStep getTime c" "tree_kept (rt_source (cq_runtime P)) (cv_session (ag_env c))"
  shows "inStep getTime (recordBashResult P m c) \<and> inStep getTime (flushPendingBashMessages P c) \<and>
    cv_pendingBash (ag_env (flushPendingBashMessages P c)) = []"
proof (intro conjI)
  have env: "inStep getTime (onEnv f x) = inStep getTime x" if "cv_session (f (ag_env x)) = cv_session (ag_env x)"
    for f and x :: "'a session_agent" using that by (simp add: inStep_def)
  show "inStep getTime (recordBashResult P m c)"
    using assms store_keeps_step [OF assms, of "BashExecution (m\<lparr>be_timestamp := cq_now P c\<rparr>)"]
    by (simp add: recordBashResult_def Let_def env)
  have "inStep getTime (fold (\<lambda>m c. storeEntry (smAppendMessage (cq_runtime P) m) (c\<lparr>ag_messages := ag_messages c @ [m]\<rparr>)) ms c)" for ms
    using assms by (induction ms arbitrary: c) (simp_all add: store_keeps_step)
  then show "inStep getTime (flushPendingBashMessages P c)" by (simp add: flushPendingBashMessages_def env)
  show "cv_pendingBash (ag_env (flushPendingBashMessages P c)) = []" by (simp add: flushPendingBashMessages_def)
qed

section \<open>Models and thinking levels\<close>

lemma levels_all: "l \<in> set EXTENDED_THINKING_LEVELS"
  by (cases l) (simp_all add: EXTENDED_THINKING_LEVELS_def)

lemma find_member: "find Q xs = Some x \<Longrightarrow> Q x"
  by (auto simp: find_Some_iff)

lemma stored_fields:
  "ag_thinkingLevel (storeEntry f x) = ag_thinkingLevel x" "ag_model (storeEntry f x) = ag_model x"
  "ag_thinkingLevel (onSettings g x) = ag_thinkingLevel x" "ag_model (onSettings g x) = ag_model x"
  "ag_thinkingLevel (emitEvent v x) = ag_thinkingLevel x" "ag_model (emitEvent v x) = ag_model x"
  by (simp_all add: storeEntry_def onSettings_def emitEvent_def onEnv_def split: prod.split sum.split)

lemma level_applied:
  "ag_thinkingLevel (setSessionThinkingLevel P level c) =
     (if level \<in> set (getSupportedThinkingLevels (ag_model c)) then level else clampThinkingLevel (ag_model c) level)"
  "ag_model (setSessionThinkingLevel P level c) = ag_model c"
proof -
  define effective where "effective =
    (if level \<in> set (getSupportedThinkingLevels (ag_model c)) then level else clampThinkingLevel (ag_model c) level)"
  have "ag_thinkingLevel (setSessionThinkingLevel P level c) = effective \<and> ag_model (setSessionThinkingLevel P level c) = ag_model c"
    unfolding setSessionThinkingLevel_def Let_def effective_def [symmetric] by (simp add: stored_fields)
  then show "ag_thinkingLevel (setSessionThinkingLevel P level c) =
     (if level \<in> set (getSupportedThinkingLevels (ag_model c)) then level else clampThinkingLevel (ag_model c) level)"
    "ag_model (setSessionThinkingLevel P level c) = ag_model c" by (simp_all add: effective_def)
qed

text \<open>The level that a model is set to is one that it supports, where it supports one.\<close>

theorem thinking_level_supported:
  assumes "getSupportedThinkingLevels (ag_model c) \<noteq> []"
  shows "ag_thinkingLevel (setSessionThinkingLevel P level c) \<in> set (getSupportedThinkingLevels (ag_model c))"
proof -
  let ?a = "getSupportedThinkingLevels (ag_model c)"
  have "clampThinkingLevel (ag_model c) level \<in> set ?a"
  proof (cases "level \<in> set ?a")
    case True
    then show ?thesis by (simp add: clampThinkingLevel_def)
  next
    case False
    have "firstOr TL_off ?a \<in> set ?a" using assms by (cases ?a) (simp_all add: firstOr_def)
    with False show ?thesis
      by (auto simp: clampThinkingLevel_def Let_def split: option.split dest: find_member)
  qed
  then show ?thesis by (simp add: level_applied)
qed

lemma model_applied: "ag_model (applyModel P md level c) = md"
  by (simp add: applyModel_def level_applied stored_fields)

lemma cycleIndex_back: "i < len \<Longrightarrow> cycleIndex (\<not> forward) len (cycleIndex forward len i) = i"
proof (cases forward)
  case True
  assume "i < len"
  with True show ?thesis by (cases "i + 1 = len") (simp_all add: cycleIndex_def)
next
  case False
  assume "i < len"
  with False show ?thesis by (cases i) (simp_all add: cycleIndex_def mod_if)
qed

lemma currentIndex_nth:
  assumes "distinct (map (\<lambda>m. (md_id m, md_provider m)) ms)" "i < length ms"
  shows "currentIndex ms (ms ! i) = i"
proof -
  have "findIndex (\<lambda>m. modelsAreEqual m (ms ! i)) ms \<noteq> None"
    using assms(2) by (auto simp: findIndex_None modelsAreEqual_def)
  then obtain j where j: "findIndex (\<lambda>m. modelsAreEqual m (ms ! i)) ms = Some j" by auto
  from findIndex_Some [OF j] have "j < length ms" "(md_id (ms ! j), md_provider (ms ! j)) = (md_id (ms ! i), md_provider (ms ! i))"
    by (simp_all add: modelsAreEqual_def)
  with assms have "j = i" by (metis (no_types, lifting) length_map nth_eq_iff_index_eq nth_map)
  with j show ?thesis by (simp add: currentIndex_def)
qed

text \<open>A step through the models and a step back end at the model they began with.\<close>

theorem cycle_there_and_back:
  assumes "\<And>x. cq_available P x = ms" "1 < length ms" "distinct (map (\<lambda>m. (md_id m, md_provider m)) ms)" "ag_model c \<in> set ms"
  shows "ag_model (snd (cycleModel P [] (\<not> forward) (snd (cycleModel P [] forward c)))) = ag_model c"
proof -
  from assms(4) obtain i where i: "i < length ms" "ag_model c = ms ! i" by (metis in_set_conv_nth)
  let ?k = "cycleIndex forward (length ms) i"
  have k: "?k < length ms" using assms(2) by (simp add: cycleIndex_def) (use i(1) mod_less_divisor in \<open>metis gr_implies_not_zero not_gr_zero\<close>)
  have one: "ag_model (snd (cycleModel P [] d x)) = ms ! cycleIndex d (length ms) j" if "ag_model x = ms ! j" "j < length ms" for d x j
    using assms(1,2) currentIndex_nth [OF assms(3) that(2)] that(1)
    by (simp add: cycleModel_def cycleAvailableModel_def Let_def model_applied not_le)
  show ?thesis using one [OF one [OF i(2,1)] k] cycleIndex_back [OF i(1)] i(2) by simp
qed

section \<open>Navigation\<close>

lemma walkUp_ends:
  assumes "tree_ok es" "e \<in> set es" "\<forall>x \<in> set es. map_of (sg_byId s) (se_id x) = Some x"
  shows "\<exists>r. smWalkUp s anc (se_id e) acc = Some r"
  using assms
proof (induction arbitrary: e acc rule: tree_ok.induct)
  case (tree_snoc es x)
  show ?case
  proof (cases "e \<in> set es")
    case True
    with tree_snoc show ?thesis by simp
  next
    case False
    with tree_snoc.prems(1) have e: "e = x" by simp
    have index: "map_of (sg_byId s) (se_id x) = Some x" using tree_snoc.prems(2) by simp
    have up: "\<exists>r. smWalkUp s anc (se_parentId x) (acc @ [x]) = Some r"
    proof (cases "se_parentId x = IdNull")
      case True
      then show ?thesis by (simp add: smWalkUp.simps)
    next
      case False
      with tree_snoc.hyps(4) obtain y where y: "y \<in> set es" "se_parentId x = se_id y" by auto
      with tree_snoc.IH [OF y(1)] tree_snoc.prems(2) show ?thesis by simp
    qed
    then show ?thesis by (subst smWalkUp.simps) (simp add: e index)
  qed
qed simp

lemma parent_in_tree: "tree_ok es \<Longrightarrow> e \<in> set es \<Longrightarrow> se_parentId e = IdNull \<or> se_parentId e \<in> se_id ` set es"
  by (induction rule: tree_ok.induct) auto

lemma collected:
  assumes "session_ok s" "hasId s (Id t)"
  shows "\<exists>r. smCollectEntries s (sg_leafId s) t = Some r"
proof (cases "sg_leafId s")
  case (Id i)
  have "sg_leafId s \<in> se_id ` set (getEntries s)" using assms(1) Id by (auto simp: session_ok_def)
  with Id obtain e where e: "e \<in> set (getEntries s)" "se_id e = Id i" by auto
  have tree: "tree_ok (getEntries s)" and index: "\<forall>x \<in> set (getEntries s). map_of (sg_byId s) (se_id x) = Some x"
    using assms(1) map_of_byId [OF assms(1)] by (auto simp: session_ok_def)
  have up: "\<exists>r. smWalkUp s anc (Id i) [] = Some r" for anc
    using walkUp_ends [OF tree e(1) index, of anc "[]"] e(2) by simp
  have "hasId s (Id i)" using Id \<open>sg_leafId s \<in> _\<close> assms(1) by (simp add: hasId_iff)
  then obtain p where p: "smGetBranch (Some i) s = Some p" using branch_path [OF assms(1)] by metis
  obtain q where q: "smGetBranch (Some t) s = Some q" using branch_path [OF assms] by metis
  show ?thesis using up by (auto simp: smCollectEntries_def Id p q Let_def)
qed (simp_all add: smCollectEntries_def)

lemma moved_ok: "session_ok s \<Longrightarrow> l = IdNull \<or> hasId s l \<Longrightarrow> session_ok (s\<lparr>sg_leafId := l\<rparr>)"
  by (auto simp: session_ok_def hasId_iff getEntries_def)

lemma navigation_target:
  assumes "session_ok s" "getEntry t s = Some e" "navigationTarget e = Some (l, ed)"
  shows "l = IdNull \<or> (\<exists>j. l = Id j) \<and> hasId s l"
proof -
  have e: "e \<in> set (getEntries s)" "se_id e = Id t"
  proof -
    have "findLast (\<lambda>x. se_id x = Id t) (getEntries s) = Some e"
      using assms(1,2) by (simp add: getEntry_def session_ok_def map_of_entryIndex)
    from findLast_Some [OF this] show "e \<in> set (getEntries s)" "se_id e = Id t" by simp_all
  qed
  have tree: "tree_ok (getEntries s)" using assms(1) by (simp add: session_ok_def)
  have ids: "\<exists>j. x = Id j" if "x \<in> se_id ` set (getEntries s)" for x
    using that tree_distinct [OF tree] by (cases x) auto
  have "l = se_id e \<or> l = se_parentId e" using assms(3)
    by (auto simp: navigationTarget_def split: sm_body.splits raw_message.splits agent_message.splits message.splits option.splits)
  then have "l = IdNull \<or> l \<in> se_id ` set (getEntries s)" using parent_in_tree [OF tree e(1)] e(1) by auto
  then show ?thesis using ids [of l] assms(1) by (auto simp: hasId_iff)
qed

lemma plain_navigation:
  assumes "session_ok (cv_session (ag_env c))" "getEntry t (cv_session (ag_env c)) = Some e" "Id t \<noteq> sg_leafId (cv_session (ag_env c))"
    and "\<not> tv_summarize opts" "\<not> truthyStr (tv_label opts)" "navigationTarget e = Some (l, ed)"
  obtains ctx where "smContext (cq_getTime P) ((cv_session (ag_env c))\<lparr>sg_leafId := l\<rparr>) = Some ctx"
    "navigateSessionTree P t opts c = Some (Inr \<lparr>tp_editorText = ed, tp_cancelled = False, tp_aborted = False, tp_summaryEntry = None\<rparr>,
       (onEnv (\<lambda>v. v\<lparr>cv_session := (cv_session (ag_env c))\<lparr>sg_leafId := l\<rparr>\<rparr>) c)\<lparr>ag_messages := map rawMessage (sq_messages ctx)\<rparr>)"
proof -
  let ?s = "cv_session (ag_env c)"
  have l: "l = IdNull \<or> (\<exists>j. l = Id j) \<and> hasId ?s l" by (rule navigation_target [OF assms(1,2,6)])
  have "hasId ?s (Id t)" using assms(2) by (auto simp: hasId_def getEntry_def dest!: map_of_SomeD intro: rev_image_eqI)
  with collected [OF assms(1)] obtain col where col: "smCollectEntries ?s (sg_leafId ?s) t = Some col" by blast
  have moved: "moveLeaf P t (tv_label opts) l None ?s = (Inr None, ?s\<lparr>sg_leafId := l\<rparr>)"
    using l assms(5) by (auto simp: moveLeaf_def switchLeaf_def labelTarget_def resetLeaf_def branch_def)
  obtain path where "on_path (?s\<lparr>sg_leafId := l\<rparr>) path"
    by (rule path_exists [OF moved_ok [OF assms(1)]]) (use l in auto)
  then obtain ctx where ctx: "smContext (cq_getTime P) (?s\<lparr>sg_leafId := l\<rparr>) = Some ctx"
    using on_path_context(1) moved_ok [OF assms(1), of l] l by metis
  have "navigateSessionTree P t opts c = Some (Inr \<lparr>tp_editorText = ed, tp_cancelled = False, tp_aborted = False, tp_summaryEntry = None\<rparr>,
       (onEnv (\<lambda>v. v\<lparr>cv_session := ?s\<lparr>sg_leafId := l\<rparr>\<rparr>) c)\<lparr>ag_messages := map rawMessage (sq_messages ctx)\<rparr>)"
    using assms(2-4,6) by (simp add: navigateSessionTree_def Let_def col summarizeLeft_def moved ctx)
  with ctx that show thesis by blast
qed


definition plainTree :: tree_options where
  "plainTree = \<lparr>tv_summarize = False, tv_customInstructions = None, tv_replaceInstructions = None, tv_label = None\<rparr>"

definition answeredSession :: session_manager where
  "answeredSession = (chainSession 1)\<lparr>sg_leafId := Id [3]\<rparr>"

definition answeredAgent :: "unit session_agent" where
  "answeredAgent = (onEnv (\<lambda>v. v\<lparr>cv_session := answeredSession\<rparr>) idleAgent)\<lparr>ag_messages :=
     (case smContext (\<lambda>t. 0) answeredSession of Some ctx \<Rightarrow> map rawMessage (sq_messages ctx) | None \<Rightarrow> [])\<rparr>"

lemma answered_entries:
  "session_ok answeredSession" "sg_leafId answeredSession = Id [3]"
  "getEntry [3] answeredSession = Some (chainEntry 3 (Id [2]) (SM_message (Known sampleAnswer)))"
  "getEntry [1] answeredSession = Some (chainEntry 1 IdNull (SM_message (Known sampleQuestion)))"
proof -
  have "hasId (chainSession 1) (Id [3])" by (simp add: hasId_iff [OF chain_ok] chain_entries chain_defs)
  with moved_ok [OF chain_ok, of "Id [3]"] show "session_ok answeredSession" by (simp add: answeredSession_def)
  show "sg_leafId answeredSession = Id [3]" by (simp add: answeredSession_def)
  have index: "map_of (sg_byId answeredSession) (se_id e) = Some e" if "e \<in> set (chainEntries 1)" for e
    using map_of_byId [OF chain_ok, of e 1] that by (simp add: answeredSession_def chain_entries)
  show "getEntry [3] answeredSession = Some (chainEntry 3 (Id [2]) (SM_message (Known sampleAnswer)))"
    using index [of "chainEntry 3 (Id [2]) (SM_message (Known sampleAnswer))"] by (simp add: getEntry_def chain_defs)
  show "getEntry [1] answeredSession = Some (chainEntry 1 IdNull (SM_message (Known sampleQuestion)))"
    using index [of "chainEntry 1 IdNull (SM_message (Known sampleQuestion))"] by (simp add: getEntry_def chain_defs)
qed


text \<open>A manual compaction takes the session's handler off before it aborts the run, so what the aborted run still
  reports is in the transcript and not in the file; it stays so when there is nothing to compact.\<close>

theorem aborted_message_not_stored:
  assumes "\<And>x. cq_summaryAuth P x = Inr ()" "smGetBranch None (cv_session (ag_env c)) = Some path"
    and "smPrepareCompaction (cq_getTime P) path (ct_compaction (cv_settings (ag_env c))) = Some None"
  shows "\<exists>err c'. compactSession P [MessageEnd m] t c = Some (Inl err, c') \<and>
    ag_messages c' = ag_messages c @ [m] \<and> cv_session (ag_env c') = cv_session (ag_env c)"
proof -
  have reduced: "ag_env (reduceEvent (MessageEnd m) c) = ag_env c" "ag_messages (reduceEvent (MessageEnd m) c) = ag_messages c @ [m]"
    by (simp_all add: reduceEvent_def)
  show ?thesis by (simp add: compactSession_def Let_def assms reduced endManualCompaction_def)
qed

end
